(* ===== verification/Prelude.thy ===== *)
theory Prelude imports Main "HOL-Library.Word" "HOL-Library.Sublist" "HOL-Library.List_Lexorder" "HOL-Library.AList" begin

text \<open>
  Shared ground of the development: the Rust standard-library types and functions the modelled
  code uses, with the generic lemmas on them.

  A Rust \<^verbatim>\<open>char\<close> is a Unicode scalar value and is modelled by its number (\<open>rchar\<close>); a
  \<^verbatim>\<open>String\<close> or \<^verbatim>\<open>&str\<close> is the list of its chars (\<open>rstring\<close>).  \<open>lit\<close> turns an ASCII literal
  into such a list; a char outside ASCII is written by its number.  The derived order on lists is
  the lexicographic order on scalar values, which is the order of Rust's byte-wise string
  comparison, because UTF-8 preserves it.  A \<^verbatim>\<open>BTreeMap\<close> is the association list of its entries in
  ascending key order; a \<^verbatim>\<open>HashMap\<close> is an association list with distinct keys, whose order
  stands for the unspecified iteration order (no lemma depends on it).
\<close>

section \<open>Collections of facts\<close>

named_theorems str_defs \<open>definitions of the string functions, for evaluating closed terms\<close>

section \<open>Characters and strings\<close>

type_synonym rchar = nat
type_synonym rstring = "rchar list"
type_synonym u64 = "64 word"
type_synonym u32 = "32 word"
type_synonym i64 = "64 word"

definition lit :: "string \<Rightarrow> rstring" where
  [str_defs]: "lit s = map of_char s"

lemma lit_inject [simp]: "lit s = lit t \<longleftrightarrow> s = t"
  unfolding lit_def by (rule inj_map_eq_map) (simp add: inj_of_char)

lemma lit_eq_Nil [simp]: "lit s = [] \<longleftrightarrow> s = []" "[] = lit s \<longleftrightarrow> s = []"
  by (auto simp: lit_def)

lemma lit_Nil [simp]: "lit [] = []"
  by (simp add: lit_def)

text \<open>The ASCII characters the modelled parsers name.\<close>

abbreviation "c_tab \<equiv> (9 :: rchar)"
abbreviation "c_nl \<equiv> (10 :: rchar)"
abbreviation "c_cr \<equiv> (13 :: rchar)"
abbreviation "c_space \<equiv> (32 :: rchar)"
abbreviation "c_dquote \<equiv> (34 :: rchar)"
abbreviation "c_squote \<equiv> (39 :: rchar)"
abbreviation "c_lparen \<equiv> (40 :: rchar)"
abbreviation "c_rparen \<equiv> (41 :: rchar)"
abbreviation "c_comma \<equiv> (44 :: rchar)"
abbreviation "c_minus \<equiv> (45 :: rchar)"
abbreviation "c_slash \<equiv> (47 :: rchar)"
abbreviation "c_zero \<equiv> (48 :: rchar)"
abbreviation "c_nine \<equiv> (57 :: rchar)"
abbreviation "c_colon \<equiv> (58 :: rchar)"
abbreviation "c_lbracket \<equiv> (91 :: rchar)"
abbreviation "c_backslash \<equiv> (92 :: rchar)"
abbreviation "c_rbracket \<equiv> (93 :: rchar)"
abbreviation "c_lbrace \<equiv> (123 :: rchar)"
abbreviation "c_rbrace \<equiv> (125 :: rchar)"

text \<open>\<^verbatim>\<open>char::is_whitespace\<close>: the Unicode property White\_Space.\<close>

definition is_whitespace :: "rchar \<Rightarrow> bool" where
  [str_defs]: "is_whitespace c \<longleftrightarrow> (9 \<le> c \<and> c \<le> 13) \<or> c = 0x20 \<or> c = 0x85 \<or> c = 0xA0 \<or> c = 0x1680 \<or>
     (0x2000 \<le> c \<and> c \<le> 0x200A) \<or> c = 0x2028 \<or> c = 0x2029 \<or> c = 0x202F \<or> c = 0x205F \<or> c = 0x3000"

text \<open>\<^verbatim>\<open>char::is_control\<close>: the general category Cc.\<close>

definition is_control :: "rchar \<Rightarrow> bool" where
  [str_defs]: "is_control c \<longleftrightarrow> c \<le> 0x1F \<or> (0x7F \<le> c \<and> c \<le> 0x9F)"

definition is_ascii_digit :: "rchar \<Rightarrow> bool" where
  [str_defs]: "is_ascii_digit c \<longleftrightarrow> c_zero \<le> c \<and> c \<le> c_nine"

text \<open>\<^verbatim>\<open>char::from_u32\<close>: surrogates and values above 0x10FFFF are no scalar values.\<close>

definition char_from_u32 :: "nat \<Rightarrow> rchar option" where
  [str_defs]: "char_from_u32 v = (if v < 0xD800 \<or> (0xE000 \<le> v \<and> v < 0x110000) then Some v else None)"

text \<open>\<^verbatim>\<open>char::to_digit(16)\<close>.\<close>

definition to_digit_16 :: "rchar \<Rightarrow> nat option" where
  [str_defs]: "to_digit_16 c =
     (if 48 \<le> c \<and> c \<le> 57 then Some (c - 48)
      else if 97 \<le> c \<and> c \<le> 102 then Some (c - 87)
      else if 65 \<le> c \<and> c \<le> 70 then Some (c - 55)
      else None)"

text \<open>Bytes of the UTF-8 encoding: \<^verbatim>\<open>str::len\<close> counts these.\<close>

definition utf8_len :: "rchar \<Rightarrow> nat" where
  [str_defs]: "utf8_len c = (if c < 0x80 then 1 else if c < 0x800 then 2 else if c < 0x10000 then 3 else 4)"

definition str_len :: "rstring \<Rightarrow> nat" where
  [str_defs]: "str_len s = sum_list (map utf8_len s)"

definition ascii_lower :: "rchar \<Rightarrow> rchar" where
  [str_defs]: "ascii_lower c = (if 65 \<le> c \<and> c \<le> 90 then c + 32 else c)"

definition to_ascii_lowercase :: "rstring \<Rightarrow> rstring" where
  [str_defs]: "to_ascii_lowercase s = map ascii_lower s"

definition trim_start :: "rstring \<Rightarrow> rstring" where
  [str_defs]: "trim_start s = dropWhile is_whitespace s"

definition trim_end :: "rstring \<Rightarrow> rstring" where
  [str_defs]: "trim_end s = rev (dropWhile is_whitespace (rev s))"

definition trim :: "rstring \<Rightarrow> rstring" where
  [str_defs]: "trim s = trim_end (trim_start s)"

text \<open>\<^verbatim>\<open>trim_end_matches(c)\<close> and \<^verbatim>\<open>trim_matches(c)\<close> for a char pattern.\<close>

definition trim_end_matches :: "rchar \<Rightarrow> rstring \<Rightarrow> rstring" where
  [str_defs]: "trim_end_matches c s = rev (dropWhile (\<lambda>x. x = c) (rev s))"

definition trim_matches :: "rchar \<Rightarrow> rstring \<Rightarrow> rstring" where
  [str_defs]: "trim_matches c s = trim_end_matches c (dropWhile (\<lambda>x. x = c) s)"

definition starts_with :: "rstring \<Rightarrow> rstring \<Rightarrow> bool" where
  [str_defs]: "starts_with s p \<longleftrightarrow> prefix p s"

definition ends_with :: "rstring \<Rightarrow> rstring \<Rightarrow> bool" where
  [str_defs]: "ends_with s p \<longleftrightarrow> suffix p s"

fun str_contains :: "rstring \<Rightarrow> rstring \<Rightarrow> bool" where
  "str_contains [] p \<longleftrightarrow> p = []"
| "str_contains (c # s) p \<longleftrightarrow> prefix p (c # s) \<or> str_contains s p"

definition strip_suffix :: "rstring \<Rightarrow> rstring \<Rightarrow> rstring option" where
  [str_defs]: "strip_suffix s p = (if suffix p s then Some (take (length s - length p) s) else None)"

text \<open>\<^verbatim>\<open>str::replace\<close> for a non-empty pattern: left to right, without overlap.\<close>

function replace_all :: "rstring \<Rightarrow> rstring \<Rightarrow> rstring \<Rightarrow> rstring" where
  "replace_all p q s =
     (if p = [] \<or> s = [] then s
      else if prefix p s then q @ replace_all p q (drop (length p) s)
      else hd s # replace_all p q (tl s))"
  by pat_completeness auto
termination
  by (relation "measure (\<lambda>(p, q, s). length s)") auto

declare replace_all.simps [simp del]

text \<open>\<^verbatim>\<open>split\<close> at every char that satisfies a predicate; \<^verbatim>\<open>split_whitespace\<close> drops empty pieces.\<close>

fun split_on :: "(rchar \<Rightarrow> bool) \<Rightarrow> rstring \<Rightarrow> rstring list" where
  "split_on P [] = [[]]"
| "split_on P (c # cs) =
     (if P c then [] # split_on P cs
      else (case split_on P cs of [] \<Rightarrow> [[c]] | w # ws \<Rightarrow> (c # w) # ws))"

definition split_whitespace :: "rstring \<Rightarrow> rstring list" where
  [str_defs]: "split_whitespace s = filter (\<lambda>w. w \<noteq> []) (split_on is_whitespace s)"

lemma split_on_pieces: "w \<in> set (split_on P s) \<Longrightarrow> list_all (\<lambda>c. \<not> P c) w"
proof (induction s arbitrary: w)
  case (Cons c s)
  then show ?case by (cases "split_on P s") (auto split: if_splits)
qed simp

text \<open>
  \<^verbatim>\<open>str::lines\<close>: pieces ended by a line feed, each without a final carriage return; a last
  piece that no line feed ends is kept as it is, and no empty piece follows the last line feed.
\<close>

definition strip_cr :: "rstring \<Rightarrow> rstring" where
  [str_defs]: "strip_cr l = (if l \<noteq> [] \<and> last l = c_cr then butlast l else l)"

function str_lines :: "rstring \<Rightarrow> rstring list" where
  "str_lines s =
     (if s = [] then []
      else (let l = takeWhile (\<lambda>c. c \<noteq> c_nl) s; r = dropWhile (\<lambda>c. c \<noteq> c_nl) s
            in if r = [] then [l] else strip_cr l # str_lines (tl r)))"
  by pat_completeness auto
termination
proof (relation "measure length")
  fix s :: rstring and l r
  assume r: "r = dropWhile (\<lambda>c. c \<noteq> c_nl) s" and "r \<noteq> []"
  have "length r \<le> length s" unfolding r by (rule length_dropWhile_le)
  moreover have "length (tl r) < length r" using \<open>r \<noteq> []\<close> by simp
  ultimately show "(tl r, s) \<in> measure length" by simp
qed simp

declare str_lines.simps [simp del]

fun join :: "rstring \<Rightarrow> rstring list \<Rightarrow> rstring" where
  "join sep [] = []"
| "join sep [x] = x"
| "join sep (x # y # ys) = x @ sep @ join sep (y # ys)"

subsection \<open>Numbers as text\<close>

fun show_nat :: "nat \<Rightarrow> rstring" where
  "show_nat n = (if n < 10 then [c_zero + n] else show_nat (n div 10) @ [c_zero + n mod 10])"

declare show_nat.simps [simp del]

definition show_int :: "int \<Rightarrow> rstring" where
  [str_defs]: "show_int i = (if i < 0 then c_minus # show_nat (nat (- i)) else show_nat (nat i))"

definition hex_digit :: "nat \<Rightarrow> rchar" where
  [str_defs]: "hex_digit d = (if d < 10 then 48 + d else 87 + d)"

fun show_hex :: "nat \<Rightarrow> rstring" where
  "show_hex n = (if n < 16 then [hex_digit n] else show_hex (n div 16) @ [hex_digit (n mod 16)])"

declare show_hex.simps [simp del]

text \<open>The format \<^verbatim>\<open>{:08x}\<close>.\<close>

definition show_hex08 :: "nat \<Rightarrow> rstring" where
  [str_defs]: "show_hex08 n = replicate (8 - length (show_hex n)) c_zero @ show_hex n"

fun digits_value :: "nat \<Rightarrow> rstring \<Rightarrow> nat" where
  "digits_value acc [] = acc"
| "digits_value acc (c # cs) = digits_value (10 * acc + (c - c_zero)) cs"

lemma digits_value_append: "digits_value acc (xs @ ys) = digits_value (digits_value acc xs) ys"
  by (induction xs arbitrary: acc) auto

lemma show_nat_digits: "\<forall>c \<in> set (show_nat n). is_ascii_digit c"
proof (induction n rule: show_nat.induct)
  case (1 n)
  show ?case
  proof (cases "n < 10")
    case True
    then show ?thesis by (subst show_nat.simps) (simp add: is_ascii_digit_def)
  next
    case False
    with 1 show ?thesis by (subst show_nat.simps) (auto simp: is_ascii_digit_def)
  qed
qed

lemma show_nat_not_Nil [simp]: "show_nat n \<noteq> []"
  by (subst show_nat.simps) simp

lemma digits_value_show_nat [simp]: "digits_value 0 (show_nat n) = n"
proof (induction n rule: show_nat.induct)
  case (1 n)
  show ?case
  proof (cases "n < 10")
    case True
    then show ?thesis by (subst show_nat.simps) simp
  next
    case False
    with 1 show ?thesis by (subst show_nat.simps) (simp add: digits_value_append)
  qed
qed

lemma show_nat_inject [simp]: "show_nat m = show_nat n \<longleftrightarrow> m = n"
  by (metis digits_value_show_nat)

section \<open>Trimming\<close>

lemma trim_start_Nil_iff: "trim_start s = [] \<longleftrightarrow> (\<forall>c \<in> set s. is_whitespace c)"
  by (simp add: trim_start_def dropWhile_eq_Nil_conv)

lemma trim_end_eq_Nil_iff: "trim_end s = [] \<longleftrightarrow> (\<forall>c \<in> set s. is_whitespace c)"
  by (simp add: trim_end_def dropWhile_eq_Nil_conv)

lemma trim_eq_Nil_iff: "trim s = [] \<longleftrightarrow> (\<forall>c \<in> set s. is_whitespace c)"
proof -
  have "(\<forall>c \<in> set (dropWhile is_whitespace s). is_whitespace c) \<longleftrightarrow> dropWhile is_whitespace s = []"
  proof
    assume all: "\<forall>c \<in> set (dropWhile is_whitespace s). is_whitespace c"
    show "dropWhile is_whitespace s = []"
    proof (rule ccontr)
      assume ne: "dropWhile is_whitespace s \<noteq> []"
      then have "\<not> is_whitespace (hd (dropWhile is_whitespace s))" by (rule hd_dropWhile)
      with all ne show False by (meson hd_in_set)
    qed
  next
    assume "dropWhile is_whitespace s = []"
    then show "\<forall>c \<in> set (dropWhile is_whitespace s). is_whitespace c"
      by (simp only: list.set ball_empty)
  qed
  then show ?thesis
    by (simp only: trim_def trim_end_eq_Nil_iff trim_start_def dropWhile_eq_Nil_conv)
qed

lemma set_trim: "set (trim s) \<subseteq> set s"
  by (auto simp: trim_def trim_end_def trim_start_def dest!: set_dropWhileD)

lemma set_trim_matches: "set (trim_matches c s) \<subseteq> set s"
  unfolding trim_matches_def trim_end_matches_def by (auto dest!: set_dropWhileD)

section \<open>BTreeMap: sorted association lists\<close>

fun bt_insert :: "'k::linorder \<Rightarrow> 'v \<Rightarrow> ('k \<times> 'v) list \<Rightarrow> ('k \<times> 'v) list" where
  "bt_insert k v [] = [(k, v)]"
| "bt_insert k v (e # es) =
     (if fst e < k then e # bt_insert k v es
      else if fst e = k then (k, v) # es
      else (k, v) # e # es)"

definition bt_ok :: "('k::linorder \<times> 'v) list \<Rightarrow> bool" where
  "bt_ok es \<longleftrightarrow> sorted_wrt (<) (map fst es)"

lemma bt_ok_simps [simp]:
  "bt_ok []" "bt_ok (e # es) \<longleftrightarrow> (\<forall>k \<in> fst ` set es. fst e < k) \<and> bt_ok es"
  by (auto simp: bt_ok_def)

lemma fst_set_bt_insert [simp]: "fst ` set (bt_insert k v es) = insert k (fst ` set es)"
  by (induction es) auto

lemma bt_ok_insert [intro]: "bt_ok es \<Longrightarrow> bt_ok (bt_insert k v es)"
proof (induction es)
  case Nil
  then show ?case by simp
next
  case (Cons e es)
  then have ins: "bt_ok (bt_insert k v es)" by simp
  show ?case
    using Cons.prems ins fst_set_bt_insert [of k v es]
    by (cases "fst e" k rule: linorder_cases) (simp_all del: fst_set_bt_insert, auto dest: less_trans)
qed

lemma map_of_bt_insert: "bt_ok es \<Longrightarrow> map_of (bt_insert k v es) = (map_of es)(k \<mapsto> v)"
proof (induction es)
  case Nil
  then show ?case by simp
next
  case (Cons e es)
  obtain a b where [simp]: "e = (a, b)" by (cases e)
  show ?case
    using Cons by (cases a k rule: linorder_cases) (auto simp: fun_eq_iff)
qed

lemma map_of_bt_insert_any: "map_of (bt_insert k v es) = (map_of es)(k \<mapsto> v)"
  by (induction es) (auto simp: fun_eq_iff)

lemma bt_insert_snoc: "\<forall>a \<in> fst ` set es. a < k \<Longrightarrow> bt_insert k v es = es @ [(k, v)]"
  by (induction es) auto

lemma bt_insert_insert [simp]: "bt_insert k v (bt_insert k u es) = bt_insert k v es"
  by (induction es) auto

lemma bt_insert_present: "bt_ok es \<Longrightarrow> map_of es k = Some v \<Longrightarrow> bt_insert k v es = es"
proof (induction es)
  case (Cons e es)
  then show ?case by (cases e) (auto dest!: map_of_SomeD split: if_splits)
qed simp

definition bt_remove :: "'k::linorder \<Rightarrow> ('k \<times> 'v) list \<Rightarrow> ('k \<times> 'v) list" where
  "bt_remove k es = filter (\<lambda>e. fst e \<noteq> k) es"

lemma map_of_bt_remove: "map_of (bt_remove k es) = (map_of es)(k := None)"
  by (induction es) (auto simp: bt_remove_def fun_eq_iff)

lemma bt_ok_remove [intro]: "bt_ok es \<Longrightarrow> bt_ok (bt_remove k es)"
  by (induction es) (auto simp: bt_remove_def)

lemma bt_remove_absent: "map_of es k = None \<Longrightarrow> bt_remove k es = es"
  by (induction es) (auto simp: bt_remove_def split: if_splits)

lemma bt_remove_insert: "bt_remove k (bt_insert k v es) = bt_remove k es"
  by (induction es) (auto simp: bt_remove_def)

section \<open>Results\<close>

text \<open>A Rust \<^verbatim>\<open>Result<T, E>\<close> is \<open>'e + 'a\<close>: \<open>Inl\<close> is \<^verbatim>\<open>Err\<close>, \<open>Inr\<close> is \<^verbatim>\<open>Ok\<close>.\<close>

definition is_ok :: "'e + 'a \<Rightarrow> bool" where
  "is_ok r \<longleftrightarrow> (case r of Inl _ \<Rightarrow> False | Inr _ \<Rightarrow> True)"

lemma is_ok_simps [simp]: "is_ok (Inr x)" "\<not> is_ok (Inl e)"
  by (simp_all add: is_ok_def)

definition rbind :: "'e + 'a \<Rightarrow> ('a \<Rightarrow> 'e + 'b) \<Rightarrow> 'e + 'b" where
  "rbind r f = (case r of Inl e \<Rightarrow> Inl e | Inr x \<Rightarrow> f x)"

lemma rbind_simps [simp]: "rbind (Inl e) f = Inl e" "rbind (Inr x) f = f x"
  by (simp_all add: rbind_def)

lemma rbind_Inr_iff: "rbind r f = Inr y \<longleftrightarrow> (\<exists>x. r = Inr x \<and> f x = Inr y)"
  by (cases r) simp_all

text \<open>The \<^verbatim>\<open>?\<close> operator on operations that change a state.\<close>

definition and_then :: "('e + 'a) \<times> 's \<Rightarrow> ('a \<Rightarrow> 's \<Rightarrow> ('e + 'b) \<times> 's) \<Rightarrow> ('e + 'b) \<times> 's" where
  "and_then r f = (case r of (Inl e, s) \<Rightarrow> (Inl e, s) | (Inr a, s) \<Rightarrow> f a s)"

lemma and_then_simps [simp]:
  "and_then (Inl e, s) f = (Inl e, s)"
  "and_then (Inr a, s) f = f a s"
  by (simp_all add: and_then_def)

definition ok_or :: "'e \<Rightarrow> 'a option \<Rightarrow> 'e + 'a" where
  "ok_or e x = (case x of None \<Rightarrow> Inl e | Some y \<Rightarrow> Inr y)"

lemma ok_or_simps [simp]: "ok_or e (Some x) = Inr x" "ok_or e None = Inl e"
  by (simp_all add: ok_or_def)

text \<open>\<^verbatim>\<open>collect::<Result<Vec<_>, _>>()\<close> and \<^verbatim>\<open>map(f).transpose()\<close>.\<close>

fun collect_results :: "('a \<Rightarrow> 'e + 'b) \<Rightarrow> 'a list \<Rightarrow> 'e + 'b list" where
  "collect_results f [] = Inr []"
| "collect_results f (x # xs) = rbind (f x) (\<lambda>y. rbind (collect_results f xs) (\<lambda>ys. Inr (y # ys)))"

definition transpose_map :: "('a \<Rightarrow> 'e + 'b) \<Rightarrow> 'a option \<Rightarrow> 'e + 'b option" where
  "transpose_map f x = (case x of None \<Rightarrow> Inr None | Some y \<Rightarrow> rbind (f y) (\<lambda>z. Inr (Some z)))"

lemma transpose_map_simps [simp]:
  "transpose_map f None = Inr None" "transpose_map f (Some y) = rbind (f y) (\<lambda>z. Inr (Some z))"
  by (simp_all add: transpose_map_def)

text \<open>\<^verbatim>\<open>unwrap_or\<close>.\<close>

definition unwrap_or :: "'a \<Rightarrow> 'a option \<Rightarrow> 'a" where
  "unwrap_or d x = (case x of Some y \<Rightarrow> y | None \<Rightarrow> d)"

lemma unwrap_or_simps [simp]: "unwrap_or d (Some x) = x" "unwrap_or d None = d"
  by (simp_all add: unwrap_or_def)

end
