(* ===== verification/Json.thy ===== *)
theory Json imports Prelude begin

text \<open>
  The JSON codec of the agent runtime (\<^verbatim>\<open>crates/runtime/src/json.rs\<close>): the value type, the
  renderer, the recursive-descent parser and the accessors.

  The parser state of the code is the vector of chars and an index into it; here it is the list of
  the chars that are left.  \<^verbatim>\<open>parse_value\<close>, \<^verbatim>\<open>parse_array\<close> and \<^verbatim>\<open>parse_object\<close> call each other on what
  the previous call left, so they take fuel, one unit per call or loop iteration, and \<open>None\<close> is
  "out of fuel".  \<open>json_parse\<close> starts with \<open>2 * length + 1\<close> units; \<open>parse_value_fuel\<close> shows that
  this is always enough, so the code terminates on every input.
\<close>

section \<open>Values\<close>

datatype json_value =
    JNull
  | JBool bool
  | JNumber i64
  | JString rstring
  | JArray "json_value list"
  | JObject "(rstring \<times> json_value) list"

datatype json_error = JsonError rstring

text \<open>The invariant of \<^verbatim>\<open>BTreeMap\<close>: at every level the keys of an object ascend strictly.\<close>

fun json_ok :: "json_value \<Rightarrow> bool" where
  "json_ok (JArray vs) \<longleftrightarrow> (\<forall>v \<in> set vs. json_ok v)"
| "json_ok (JObject es) \<longleftrightarrow> bt_ok es \<and> (\<forall>e \<in> set es. json_ok (snd e))"
| "json_ok _ \<longleftrightarrow> True"

section \<open>Rendering\<close>

definition push_unicode_escape :: "rstring \<Rightarrow> rchar \<Rightarrow> rstring" where
  "push_unicode_escape rendered control =
     rendered @ [c_backslash, 117] @
     map (\<lambda>shift. hex_digit ((control div 2 ^ shift) mod 16)) [12, 8, 4, 0 :: nat]"

definition render_char :: "rchar \<Rightarrow> rstring" where
  "render_char ch =
     (if ch = c_dquote then [c_backslash, c_dquote]
      else if ch = c_backslash then [c_backslash, c_backslash]
      else if ch = c_nl then [c_backslash, 110]
      else if ch = c_cr then [c_backslash, 114]
      else if ch = c_tab then [c_backslash, 116]
      else if ch = 0x08 then [c_backslash, 98]
      else if ch = 0x0C then [c_backslash, 102]
      else if is_control ch then push_unicode_escape [] ch
      else [ch])"

definition render_string :: "rstring \<Rightarrow> rstring" where
  "render_string value = [c_dquote] @ concat (map render_char value) @ [c_dquote]"

fun render :: "json_value \<Rightarrow> rstring" where
  "render JNull = lit ''null''"
| "render (JBool b) = (if b then lit ''true'' else lit ''false'')"
| "render (JNumber n) = show_int (sint n)"
| "render (JString s) = render_string s"
| "render (JArray vs) = [c_lbracket] @ join [c_comma] (map render vs) @ [c_rbracket]"
| "render (JObject es) =
     [c_lbrace] @ join [c_comma] (map (\<lambda>(k, v). render_string k @ [c_colon] @ render v) es) @ [c_rbrace]"

section \<open>The parser\<close>

type_synonym 'a pres = "json_error + 'a \<times> rstring"

definition skip_whitespace :: "rstring \<Rightarrow> rstring" where
  "skip_whitespace s = dropWhile (\<lambda>c. c = c_space \<or> c = c_nl \<or> c = c_cr \<or> c = c_tab) s"

definition expect :: "rchar \<Rightarrow> rstring \<Rightarrow> unit pres" where
  "expect expected s = (case s of
     [] \<Rightarrow> Inl (JsonError (lit ''expected '' @ [c_squote, expected, c_squote] @ lit '', found end of input''))
   | actual # s' \<Rightarrow>
       if actual = expected then Inr ((), s')
       else Inl (JsonError (lit ''expected '' @ [c_squote, expected, c_squote] @ lit '', found '' @
                            [c_squote, actual, c_squote])))"

definition try_consume :: "rchar \<Rightarrow> rstring \<Rightarrow> bool \<times> rstring" where
  "try_consume expected s = (case s of
     [] \<Rightarrow> (False, s)
   | c # s' \<Rightarrow> if c = expected then (True, s') else (False, s))"

fun parse_literal_loop :: "rstring \<Rightarrow> rstring \<Rightarrow> json_value \<Rightarrow> rstring \<Rightarrow> json_value pres" where
  "parse_literal_loop full [] v s = Inr (v, s)"
| "parse_literal_loop full (e # es) v s = (case s of
     [] \<Rightarrow> Inl (JsonError (lit ''invalid literal: expected '' @ full))
   | c # s' \<Rightarrow>
       if c \<noteq> e then Inl (JsonError (lit ''invalid literal: expected '' @ full))
       else parse_literal_loop full es v s')"

definition parse_literal :: "rstring \<Rightarrow> json_value \<Rightarrow> rstring \<Rightarrow> json_value pres" where
  "parse_literal expected v s = parse_literal_loop expected expected v s"

fun parse_hex_loop :: "nat \<Rightarrow> nat \<Rightarrow> rstring \<Rightarrow> nat pres" where
  "parse_hex_loop 0 value s = Inr (value, s)"
| "parse_hex_loop (Suc k) value s = (case s of
     [] \<Rightarrow> Inl (JsonError (lit ''unexpected end of input in unicode escape''))
   | ch # s' \<Rightarrow> (case to_digit_16 ch of
       None \<Rightarrow> Inl (JsonError (lit ''invalid unicode escape''))
     | Some d \<Rightarrow> parse_hex_loop k (value * 16 + d) s'))"

definition parse_unicode_escape :: "rstring \<Rightarrow> rchar pres" where
  "parse_unicode_escape s = (case parse_hex_loop 4 0 s of
     Inl e \<Rightarrow> Inl e
   | Inr (value, s') \<Rightarrow> (case char_from_u32 value of
       None \<Rightarrow> Inl (JsonError (lit ''invalid unicode scalar value''))
     | Some c \<Rightarrow> Inr (c, s')))"

definition parse_escape :: "rstring \<Rightarrow> rchar pres" where
  "parse_escape s = (case s of
     [] \<Rightarrow> Inl (JsonError (lit ''unexpected end of input in escape sequence''))
   | c # s' \<Rightarrow>
       if c = c_dquote then Inr (c_dquote, s')
       else if c = c_backslash then Inr (c_backslash, s')
       else if c = c_slash then Inr (c_slash, s')
       else if c = 98 then Inr (0x08, s')
       else if c = 102 then Inr (0x0C, s')
       else if c = 110 then Inr (c_nl, s')
       else if c = 114 then Inr (c_cr, s')
       else if c = 116 then Inr (c_tab, s')
       else if c = 117 then parse_unicode_escape s'
       else Inl (JsonError (lit ''invalid escape sequence: '' @ [c])))"

lemma parse_hex_loop_length: "parse_hex_loop k v s = Inr (x, s') \<Longrightarrow> length s' \<le> length s"
proof (induction k v s rule: parse_hex_loop.induct)
  case (2 k acc s)
  then show ?case by (fastforce split: list.splits option.splits)
qed simp

lemma parse_escape_length: "parse_escape s = Inr (x, s') \<Longrightarrow> length s' < length s"
  by (auto simp: parse_escape_def parse_unicode_escape_def
      split: list.splits if_splits sum.splits option.splits dest!: parse_hex_loop_length)

function parse_string_loop :: "rstring \<Rightarrow> rstring \<Rightarrow> rstring pres" where
  "parse_string_loop value s = (case s of
     [] \<Rightarrow> Inl (JsonError (lit ''unterminated string''))
   | ch # s' \<Rightarrow>
       if ch = c_dquote then Inr (value, s')
       else if ch = c_backslash then
         (case parse_escape s' of Inl e \<Rightarrow> Inl e | Inr (c, s'') \<Rightarrow> parse_string_loop (value @ [c]) s'')
       else parse_string_loop (value @ [ch]) s')"
  by pat_completeness auto
termination
  by (relation "measure (\<lambda>(value, s). length s)") (auto dest: parse_escape_length)

declare parse_string_loop.simps [simp del]

definition parse_string :: "rstring \<Rightarrow> rstring pres" where
  "parse_string s = (case expect c_dquote s of Inl e \<Rightarrow> Inl e | Inr (_, s') \<Rightarrow> parse_string_loop [] s')"

text \<open>\<^verbatim>\<open>str::parse::<i64>\<close> on an optional minus and at least one digit: only the range can fail.\<close>

definition parse_i64 :: "bool \<Rightarrow> rstring \<Rightarrow> i64 option" where
  "parse_i64 neg ds =
     (let i = (if neg then - int (digits_value 0 ds) else int (digits_value 0 ds))
      in if - (2 ^ 63) \<le> i \<and> i < 2 ^ 63 then Some (word_of_int i) else None)"

definition parse_number :: "rstring \<Rightarrow> i64 pres" where
  "parse_number s =
     (let (neg, s1) = try_consume c_minus s;
          ds = takeWhile is_ascii_digit s1;
          s2 = dropWhile is_ascii_digit s1
      in if ds = [] then Inl (JsonError (lit ''invalid number''))
         else (case parse_i64 neg ds of
             None \<Rightarrow> Inl (JsonError (lit ''number out of range''))
           | Some n \<Rightarrow> Inr (n, s2)))"

definition pmap :: "('a \<Rightarrow> 'b) \<Rightarrow> 'a pres \<Rightarrow> 'b pres" where
  "pmap f r = (case r of Inl e \<Rightarrow> Inl e | Inr (x, s) \<Rightarrow> Inr (f x, s))"

fun parse_value :: "nat \<Rightarrow> rstring \<Rightarrow> json_value pres option"
  and parse_array_loop :: "nat \<Rightarrow> json_value list \<Rightarrow> rstring \<Rightarrow> json_value pres option"
  and parse_object_loop :: "nat \<Rightarrow> (rstring \<times> json_value) list \<Rightarrow> rstring \<Rightarrow> json_value pres option"
where
  "parse_value 0 s = None"
| "parse_value (Suc n) s = (let s1 = skip_whitespace s in
     case s1 of
       [] \<Rightarrow> Some (Inl (JsonError (lit ''unexpected end of input'')))
     | c # s2 \<Rightarrow>
         if c = 110 then Some (parse_literal (lit ''null'') JNull s1)
         else if c = 116 then Some (parse_literal (lit ''true'') (JBool True) s1)
         else if c = 102 then Some (parse_literal (lit ''false'') (JBool False) s1)
         else if c = c_dquote then Some (pmap JString (parse_string s1))
         else if c = c_lbracket then
           (case expect c_lbracket s1 of Inl e \<Rightarrow> Some (Inl e) | Inr (_, s3) \<Rightarrow> parse_array_loop n [] s3)
         else if c = c_lbrace then
           (case expect c_lbrace s1 of Inl e \<Rightarrow> Some (Inl e) | Inr (_, s3) \<Rightarrow> parse_object_loop n [] s3)
         else if c = c_minus \<or> is_ascii_digit c then Some (pmap JNumber (parse_number s1))
         else Some (Inl (JsonError (lit ''unexpected character: '' @ [c]))))"
| "parse_array_loop 0 values s = None"
| "parse_array_loop (Suc n) values s =
     (case try_consume c_rbracket (skip_whitespace s) of
        (True, s1) \<Rightarrow> Some (Inr (JArray values, s1))
      | (False, s1) \<Rightarrow> (case parse_value n s1 of
            None \<Rightarrow> None
          | Some (Inl e) \<Rightarrow> Some (Inl e)
          | Some (Inr (v, s2)) \<Rightarrow> (case try_consume c_rbracket (skip_whitespace s2) of
                (True, s3) \<Rightarrow> Some (Inr (JArray (values @ [v]), s3))
              | (False, s3) \<Rightarrow> (case expect c_comma s3 of
                    Inl e \<Rightarrow> Some (Inl e)
                  | Inr (_, s4) \<Rightarrow> parse_array_loop n (values @ [v]) s4))))"
| "parse_object_loop 0 entries s = None"
| "parse_object_loop (Suc n) entries s =
     (case try_consume c_rbrace (skip_whitespace s) of
        (True, s1) \<Rightarrow> Some (Inr (JObject entries, s1))
      | (False, s1) \<Rightarrow> (case parse_string s1 of
            Inl e \<Rightarrow> Some (Inl e)
          | Inr (key, s2) \<Rightarrow> (case expect c_colon (skip_whitespace s2) of
                Inl e \<Rightarrow> Some (Inl e)
              | Inr (_, s3) \<Rightarrow> (case parse_value n s3 of
                    None \<Rightarrow> None
                  | Some (Inl e) \<Rightarrow> Some (Inl e)
                  | Some (Inr (v, s4)) \<Rightarrow> (case try_consume c_rbrace (skip_whitespace s4) of
                        (True, s5) \<Rightarrow> Some (Inr (JObject (bt_insert key v entries), s5))
                      | (False, s5) \<Rightarrow> (case expect c_comma s5 of
                            Inl e \<Rightarrow> Some (Inl e)
                          | Inr (_, s6) \<Rightarrow> parse_object_loop n (bt_insert key v entries) s6))))))"

definition json_parse :: "rstring \<Rightarrow> (json_error + json_value) option" where
  "json_parse source = (case parse_value (2 * length source + 1) source of
     None \<Rightarrow> None
   | Some (Inl e) \<Rightarrow> Some (Inl e)
   | Some (Inr (v, s)) \<Rightarrow>
       if skip_whitespace s = [] then Some (Inr v)
       else Some (Inl (JsonError (lit ''unexpected trailing content''))))"

section \<open>Accessors\<close>

fun as_object :: "json_value \<Rightarrow> (rstring \<times> json_value) list option" where
  "as_object (JObject es) = Some es" | "as_object _ = None"

fun as_array :: "json_value \<Rightarrow> json_value list option" where
  "as_array (JArray vs) = Some vs" | "as_array _ = None"

fun as_str :: "json_value \<Rightarrow> rstring option" where
  "as_str (JString s) = Some s" | "as_str _ = None"

fun as_bool :: "json_value \<Rightarrow> bool option" where
  "as_bool (JBool b) = Some b" | "as_bool _ = None"

fun as_i64 :: "json_value \<Rightarrow> i64 option" where
  "as_i64 (JNumber n) = Some n" | "as_i64 _ = None"

section \<open>Consumption and enough fuel\<close>

named_theorems consume \<open>a successful sub-parser leaves no more than it was given\<close>

lemma skip_whitespace_length [consume, simp]: "length (skip_whitespace s) \<le> length s"
  by (simp add: skip_whitespace_def length_dropWhile_le)

lemma expect_InrD: "expect c s = Inr (x, s') \<Longrightarrow> s = c # s'"
  by (auto simp: expect_def split: list.splits if_splits)

lemma expect_length [consume]: "expect c s = Inr (x, s') \<Longrightarrow> length s' < length s"
  by (auto dest: expect_InrD)

lemma try_consume_True: "try_consume c s = (True, s') \<Longrightarrow> s = c # s'"
  by (auto simp: try_consume_def split: list.splits if_splits)

lemma try_consume_False: "try_consume c s = (False, s') \<Longrightarrow> s' = s"
  by (auto simp: try_consume_def split: list.splits if_splits)

lemma parse_literal_loop_length: "parse_literal_loop f es v s = Inr (x, s') \<Longrightarrow> length s' \<le> length s"
  by (induction f es v s rule: parse_literal_loop.induct) (fastforce split: list.splits if_splits)+

lemma parse_string_loop_length: "parse_string_loop v s = Inr (x, s') \<Longrightarrow> length s' < length s"
proof (induction v s rule: parse_string_loop.induct)
  case (1 v s)
  show ?case
  proof (cases s)
    case Nil
    with "1.prems" show ?thesis by (simp add: parse_string_loop.simps)
  next
    case (Cons ch t)
    note unf = "1.prems" [unfolded parse_string_loop.simps [of v s], unfolded Cons, simplified]
    consider "ch = c_dquote" | "ch = c_backslash" | "ch \<noteq> c_dquote" "ch \<noteq> c_backslash" by blast
    then show ?thesis
    proof cases
      case 2
      with unf obtain c u where u: "parse_escape t = Inr (c, u)" "parse_string_loop (v @ [c]) u = Inr (x, s')"
        by (auto split: sum.splits)
      with 2 Cons have "length s' < length u" by (intro "1.IH"(1)) auto
      with u(1) Cons show ?thesis by (auto dest: parse_escape_length)
    next
      case 3
      with unf Cons have "length s' < length t" by (intro "1.IH"(2)) auto
      with Cons show ?thesis by simp
    qed (use unf Cons in auto)
  qed
qed

lemma parse_string_length [consume]: "parse_string s = Inr (x, s') \<Longrightarrow> length s' < length s"
  by (auto simp: parse_string_def split: sum.splits dest!: parse_string_loop_length expect_length)

lemma parse_number_length [consume]: "parse_number s = Inr (x, s') \<Longrightarrow> length s' \<le> length s"
proof -
  assume "parse_number s = Inr (x, s')"
  then have "s' = dropWhile is_ascii_digit (snd (try_consume c_minus s))"
    by (auto simp: parse_number_def Let_def split: prod.splits if_splits option.splits)
  moreover have "length (snd (try_consume c_minus s)) \<le> length s"
    by (auto simp: try_consume_def split: list.splits)
  ultimately show ?thesis
    using length_dropWhile_le [of is_ascii_digit "snd (try_consume c_minus s)"] by simp
qed

lemma pmap_Inr: "pmap f r = Inr (y, s) \<longleftrightarrow> (\<exists>x. r = Inr (x, s) \<and> y = f x)"
  by (auto simp: pmap_def split: sum.splits)

lemma set_bt_insert_subset: "set (bt_insert k v es) \<subseteq> insert (k, v) (set es)"
  by (induction es) auto

lemma parse_literal_Inr: "parse_literal e v s = Inr (y, s') \<Longrightarrow> y = v \<and> length s' \<le> length s"
proof -
  have "parse_literal_loop f es v s = Inr (y, s') \<Longrightarrow> y = v" for f es
    by (induction f es v s rule: parse_literal_loop.induct) (fastforce split: list.splits if_splits)+
  then show "parse_literal e v s = Inr (y, s') \<Longrightarrow> y = v \<and> length s' \<le> length s"
    by (auto simp: parse_literal_def dest: parse_literal_loop_length)
qed

text \<open>
  What every parser result satisfies: with enough fuel (\<open>b\<close>) it is there; on success the rest is no
  longer than the input and the value keeps the \<^verbatim>\<open>BTreeMap\<close> invariant.  The rules below follow the
  shapes the parser is built from.
\<close>

definition parse_good :: "bool \<Rightarrow> rstring \<Rightarrow> json_value pres option \<Rightarrow> bool" where
  "parse_good b s r \<longleftrightarrow> (case r of
     None \<Rightarrow> \<not> b | Some (Inl e) \<Rightarrow> True | Some (Inr (v, s')) \<Rightarrow> length s' \<le> length s \<and> json_ok v)"

lemma parse_good_simps [simp]:
  "parse_good b s None \<longleftrightarrow> \<not> b" "parse_good b s (Some (Inl e))"
  "parse_good b s (Some (Inr (v, s'))) \<longleftrightarrow> length s' \<le> length s \<and> json_ok v"
  by (auto simp: parse_good_def)

lemma parse_good_mono:
  "parse_good b t r \<Longrightarrow> length t \<le> length s \<Longrightarrow> (b' \<longrightarrow> b) \<Longrightarrow> parse_good b' s r"
  by (auto simp: parse_good_def split: option.splits sum.splits)

lemma parse_good_weaken: "parse_good b t r \<Longrightarrow> length t \<le> length s \<Longrightarrow> parse_good b s r"
  by (erule parse_good_mono) simp_all

lemma parse_good_skip: "parse_good b (skip_whitespace s) r \<Longrightarrow> parse_good b s r"
  by (erule parse_good_mono) simp_all

lemma parse_good_leaves:
  "json_ok v \<Longrightarrow> parse_good b s (Some (parse_literal e v s))"
  "parse_good b s (Some (pmap JString (parse_string s)))"
  "parse_good b s (Some (pmap JNumber (parse_number s)))"
  by (auto simp: parse_good_def pmap_Inr split: sum.splits
      dest: parse_literal_Inr parse_string_length parse_number_length)

lemma parse_good_try:
  "(\<And>t. s = c # t \<Longrightarrow> parse_good b s (f t)) \<Longrightarrow> parse_good b s (g s) \<Longrightarrow>
   parse_good b s (case try_consume c s of (True, t) \<Rightarrow> f t | (False, t) \<Rightarrow> g t)"
  by (auto simp: try_consume_def split: list.splits)

lemma parse_good_expect:
  "(\<And>t. s = c # t \<Longrightarrow> parse_good b s (f t)) \<Longrightarrow>
   parse_good b s (case expect c s of Inl e \<Rightarrow> Some (Inl e) | Inr (u, t) \<Rightarrow> f t)"
  by (auto simp: expect_def split: list.splits)

lemma parse_good_string:
  "(\<And>k t. length t < length s \<Longrightarrow> parse_good b s (f k t)) \<Longrightarrow>
   parse_good b s (case parse_string s of Inl e \<Rightarrow> Some (Inl e) | Inr (k, t) \<Rightarrow> f k t)"
  by (auto split: sum.splits dest: parse_string_length)

lemma parse_good_value:
  "parse_good b s r \<Longrightarrow> (\<And>v t. length t \<le> length s \<Longrightarrow> json_ok v \<Longrightarrow> parse_good b s (f v t)) \<Longrightarrow>
   parse_good b s (case r of None \<Rightarrow> None | Some (Inl e) \<Rightarrow> Some (Inl e) | Some (Inr (v, t)) \<Rightarrow> f v t)"
proof -
  assume r: "parse_good b s r" and f: "\<And>v t. length t \<le> length s \<Longrightarrow> json_ok v \<Longrightarrow> parse_good b s (f v t)"
  consider "r = None" | e where "r = Some (Inl e)" | v t where "r = Some (Inr (v, t))"
    by (metis not_None_eq obj_sumE surj_pair)
  then show ?thesis using r f by cases auto
qed

lemma parse_good_all:
  "parse_good (2 * length s + 1 \<le> n) s (parse_value n s)"
  "\<forall>v \<in> set vs. json_ok v \<Longrightarrow> parse_good (2 * length s + 2 \<le> n) s (parse_array_loop n vs s)"
  "bt_ok es \<Longrightarrow> \<forall>e \<in> set es. json_ok (snd e) \<Longrightarrow>
    parse_good (2 * length s + 2 \<le> n) s (parse_object_loop n es s)"
proof (induction n arbitrary: s vs es)
  case 0
  { case 1 show ?case by simp }
  { case 2 show ?case by simp }
  { case 3 show ?case by simp }
next
  case (Suc n)
  { case 1
    show ?case
    proof (rule parse_good_skip, cases "skip_whitespace s")
      case Nil
      then show "parse_good (2 * length s + 1 \<le> Suc n) (skip_whitespace s) (parse_value (Suc n) s)" by simp
    next
      case (Cons c t)
      let ?b = "2 * length s + 1 \<le> Suc n"
      have "length t < length s" using skip_whitespace_length [of s] by (simp add: Cons)
      then have "parse_good ?b (c # t) (parse_array_loop n [] t)"
        and "parse_good ?b (c # t) (parse_object_loop n [] t)"
        by - (rule parse_good_mono [OF Suc.IH(2)], simp_all, rule parse_good_mono [OF Suc.IH(3)], simp_all)
      then show "parse_good ?b (skip_whitespace s) (parse_value (Suc n) s)"
        by (auto simp: Cons Let_def parse_good_leaves expect_def)
    qed }
  { case 2
    let ?b = "2 * length s + 2 \<le> Suc n"
    have l: "length (skip_whitespace s) \<le> length s" by simp
    show ?case
      unfolding parse_array_loop.simps
    proof (rule parse_good_skip, rule parse_good_try, goal_cases)
      case (1 t) with 2 show ?case by simp
    next
      case g: 2
      show ?case 
      proof (rule parse_good_value, goal_cases)
        case 1 show ?case by (rule parse_good_mono [OF Suc.IH(1)]) (use l in linarith)+
      next
        case v: (2 v t)
        have vs: "\<forall>x \<in> set (vs @ [v]). json_ok x" using 2 v by auto
        have t: "length (skip_whitespace t) \<le> length (skip_whitespace s)"
          using v(1) skip_whitespace_length [of t] by linarith
        show ?case
        proof (rule parse_good_weaken [OF parse_good_try t], goal_cases)
          case (1 u) then show ?case using vs by simp
        next
          case 2 show ?case
          proof (rule parse_good_expect)
            fix u assume u: "skip_whitespace t = c_comma # u"
            then have "length (skip_whitespace t) = Suc (length u)" by simp
            with t l have "length u < length s" by linarith
            with u show "parse_good ?b (skip_whitespace t) (parse_array_loop n (vs @ [v]) u)"
              by (intro parse_good_mono [OF Suc.IH(2) [OF vs, of u]]) simp_all
          qed
        qed
      qed
    qed }
  { case 3
    let ?b = "2 * length s + 2 \<le> Suc n"
    have l: "length (skip_whitespace s) \<le> length s" by simp
    show ?case
      unfolding parse_object_loop.simps
    proof (rule parse_good_skip, rule parse_good_try, goal_cases)
      case (1 t) with 3 show ?case by simp
    next
      case 2
      show ?case
      proof (rule parse_good_string)
        fix k t :: rstring assume t: "length t < length (skip_whitespace s)"
        then have t': "length (skip_whitespace t) \<le> length (skip_whitespace s)"
          using skip_whitespace_length [of t] by linarith
        show "parse_good ?b (skip_whitespace s) (case expect c_colon (skip_whitespace t) of
                Inl e \<Rightarrow> Some (Inl e)
              | Inr (_, s3) \<Rightarrow> (case parse_value n s3 of
                    None \<Rightarrow> None
                  | Some (Inl e) \<Rightarrow> Some (Inl e)
                  | Some (Inr (v, s4)) \<Rightarrow> (case try_consume c_rbrace (skip_whitespace s4) of
                        (True, s5) \<Rightarrow> Some (Inr (JObject (bt_insert k v es), s5))
                      | (False, s5) \<Rightarrow> (case expect c_comma s5 of
                            Inl e \<Rightarrow> Some (Inl e)
                          | Inr (_, s6) \<Rightarrow> parse_object_loop n (bt_insert k v es) s6))))"
        proof (rule parse_good_weaken [OF parse_good_expect t'])
          fix u assume u: "skip_whitespace t = c_colon # u"
          have "length (skip_whitespace t) = Suc (length u)" using u by simp
          with t' l have ul: "length u < length s" by linarith
          show "parse_good ?b (skip_whitespace t) (case parse_value n u of
                    None \<Rightarrow> None
                  | Some (Inl e) \<Rightarrow> Some (Inl e)
                  | Some (Inr (v, s4)) \<Rightarrow> (case try_consume c_rbrace (skip_whitespace s4) of
                        (True, s5) \<Rightarrow> Some (Inr (JObject (bt_insert k v es), s5))
                      | (False, s5) \<Rightarrow> (case expect c_comma s5 of
                            Inl e \<Rightarrow> Some (Inl e)
                          | Inr (_, s6) \<Rightarrow> parse_object_loop n (bt_insert k v es) s6)))"
          proof (rule parse_good_weaken [OF parse_good_value [where s = u]], goal_cases)
            case 1 show ?case using ul by (intro parse_good_mono [OF Suc.IH(1) [of u]]) simp_all
          next
            case v: (2 v w)
            have w: "length (skip_whitespace w) \<le> length u"
              using v(1) skip_whitespace_length [of w] by linarith
            have es: "bt_ok (bt_insert k v es)" "\<forall>e \<in> set (bt_insert k v es). json_ok (snd e)"
              using 3 v(2) set_bt_insert_subset [of k v es] by auto
            show ?case
            proof (rule parse_good_weaken [OF parse_good_try w], goal_cases)
              case 1 then show ?case using es by simp
            next
              case 2 show ?case
              proof (rule parse_good_expect)
                fix x assume x: "skip_whitespace w = c_comma # x"
                then have "length (skip_whitespace w) = Suc (length x)" by simp
                with w ul have "length x < length s" by linarith
                with x show "parse_good ?b (skip_whitespace w) (parse_object_loop n (bt_insert k v es) x)"
                  by (intro parse_good_mono [OF Suc.IH(3) [OF es, of x]]) simp_all
              qed
            qed
          qed (use u in simp)
        qed
      qed
    qed }
qed

corollary parse_value_fuel: "2 * length s + 1 \<le> n \<Longrightarrow> \<exists>r. parse_value n s = Some r"
  using parse_good_all(1) [of s n] by (cases "parse_value n s") auto

corollary parse_value_json_ok: "parse_value n s = Some (Inr (v, s')) \<Longrightarrow> json_ok v"
  using parse_good_all(1) [of s n] by simp

section \<open>Parsing what was rendered\<close>

lemma to_digit_hex_digit [simp]: "d < 16 \<Longrightarrow> to_digit_16 (hex_digit d) = Some d"
  by (auto simp: to_digit_16_def hex_digit_def)

lemma parse_hex_loop_4:
  assumes "a < 16" "b < 16" "c < 16" "d < 16"
  shows "parse_hex_loop 4 0 (hex_digit a # hex_digit b # hex_digit c # hex_digit d # t)
     = Inr (((a * 16 + b) * 16 + c) * 16 + d, t)"
proof -
  have 4: "(4 :: nat) = Suc (Suc (Suc (Suc 0)))" by simp
  show ?thesis unfolding 4 using assms by simp
qed

lemma parse_escape_control:
  assumes "is_control c"
  shows "parse_escape (tl (push_unicode_escape [] c) @ t) = Inr (c, t)"
proof -
  have c: "c < 160" using assms by (auto simp: is_control_def)
  then have digits: "c div 4096 = 0" "c div 256 = 0" "c div 16 < 16" by simp_all
  have "tl (push_unicode_escape [] c) @ t =
      117 # hex_digit 0 # hex_digit 0 # hex_digit (c div 16) # hex_digit (c mod 16) # t"
    using digits by (simp add: push_unicode_escape_def)
  moreover have "parse_hex_loop 4 0 (hex_digit 0 # hex_digit 0 # hex_digit (c div 16) # hex_digit (c mod 16) # t) = Inr (c, t)"
    using digits by (subst parse_hex_loop_4) simp_all
  ultimately show ?thesis
    using c by (simp add: parse_escape_def parse_unicode_escape_def char_from_u32_def)
qed

lemma parse_string_loop_render_char:
  "parse_string_loop acc (render_char c @ t) = parse_string_loop (acc @ [c]) t"
proof (cases "is_control c \<and> c \<notin> {c_nl, c_cr, c_tab, 0x08, 0x0C}")
  case True
  then have "render_char c = c_backslash # tl (push_unicode_escape [] c)"
    by (auto simp: render_char_def push_unicode_escape_def is_control_def)
  then show ?thesis
    using True by (simp add: parse_string_loop.simps [of acc] parse_escape_control)
next
  case False
  then show ?thesis
    by (auto simp: render_char_def parse_string_loop.simps [of acc] parse_escape_def)
qed

lemma parse_string_loop_render:
  "parse_string_loop acc (concat (map render_char s) @ c_dquote # t) = Inr (acc @ s, t)"
  by (induction s arbitrary: acc)
    (simp_all add: parse_string_loop_render_char parse_string_loop.simps [of _ "c_dquote # _"])

lemma parse_string_render [simp]: "parse_string (render_string s @ t) = Inr (s, t)"
  by (simp add: parse_string_def render_string_def expect_def parse_string_loop_render)

definition no_digit :: "rstring \<Rightarrow> bool" where
  "no_digit s \<longleftrightarrow> (s = [] \<or> \<not> is_ascii_digit (hd s))"

lemma no_digit_simps [simp]: "no_digit []" "no_digit (c # s) \<longleftrightarrow> \<not> is_ascii_digit c"
  by (auto simp: no_digit_def)

lemma takeWhile_digits: "no_digit t \<Longrightarrow> takeWhile is_ascii_digit (show_nat n @ t) = show_nat n"
  using show_nat_digits [of n] by (cases t) (auto simp: takeWhile_append)

lemma dropWhile_digits: "no_digit t \<Longrightarrow> dropWhile is_ascii_digit (show_nat n @ t) = t"
  using show_nat_digits [of n] by (cases t) (auto simp: dropWhile_append)

lemma hd_show_nat: "is_ascii_digit (hd (show_nat n))"
  using show_nat_digits [of n] by (metis hd_in_set show_nat_not_Nil)

lemma try_consume_minus_show_nat: "try_consume c_minus (show_nat n @ t) = (False, show_nat n @ t)"
  using hd_show_nat [of n] by (cases "show_nat n") (auto simp: try_consume_def is_ascii_digit_def)

lemma parse_number_render: "no_digit t \<Longrightarrow> parse_number (show_int (sint n) @ t) = Inr (n, t)" for n :: i64
proof -
  assume t: "no_digit t"
  have bounds: "- (2 ^ 63) \<le> sint n" "sint n < 2 ^ 63"
    using sint_greater_eq [of n] sint_less [of n] by simp_all
  show ?thesis
  proof (cases "sint n < 0")
    case True
    with t bounds show ?thesis
      by (simp add: parse_number_def show_int_def try_consume_def takeWhile_digits dropWhile_digits parse_i64_def)
  next
    case False
    with t bounds show ?thesis
      by (simp add: parse_number_def show_int_def try_consume_minus_show_nat takeWhile_digits
          dropWhile_digits parse_i64_def)
  qed
qed

lemma parse_literal_append: "parse_literal e v (e @ t) = Inr (v, t)"
proof -
  have "parse_literal_loop f es v (es @ t) = Inr (v, t)" for f es
    by (induction es) simp_all
  then show ?thesis by (simp add: parse_literal_def)
qed

text \<open>No rendered value starts with white space or a closing bracket.\<close>

definition value_start :: "rchar \<Rightarrow> bool" where
  "value_start c \<longleftrightarrow> c \<notin> {c_space, c_nl, c_cr, c_tab, c_rbracket, c_rbrace}"

lemma render_start: "\<exists>c t. render v = c # t \<and> value_start c"
proof (cases v)
  case (JNumber n)
  then show ?thesis
    using hd_show_nat [of "nat (sint n)"] 
    by (cases "show_nat (nat (sint n))") (auto simp: show_int_def value_start_def is_ascii_digit_def)
qed (auto simp: value_start_def lit_def render_string_def)

lemma value_startD:
  "value_start c \<Longrightarrow> skip_whitespace (c # t) = c # t"
  "value_start c \<Longrightarrow> try_consume c_rbracket (c # t) = (False, c # t)"
  "value_start c \<Longrightarrow> try_consume c_rbrace (c # t) = (False, c # t)"
  by (auto simp: value_start_def skip_whitespace_def try_consume_def)

lemma skip_whitespace_simps [simp]:
  "skip_whitespace (c_comma # t) = c_comma # t" "skip_whitespace (c_rbracket # t) = c_rbracket # t"
  "skip_whitespace (c_rbrace # t) = c_rbrace # t" "skip_whitespace (c_colon # t) = c_colon # t"
  "skip_whitespace (c_dquote # t) = c_dquote # t" "skip_whitespace [] = []"
  by (simp_all add: skip_whitespace_def)

definition parses :: "json_value \<Rightarrow> bool" where
  "parses v \<longleftrightarrow> (\<forall>t n. no_digit t \<longrightarrow> 2 * length (render v @ t) + 1 \<le> n \<longrightarrow>
     parse_value n (render v @ t) = Some (Inr (v, t)))"

lemma parsesD: "parses v \<Longrightarrow> no_digit t \<Longrightarrow> 2 * length (render v @ t) + 1 \<le> n \<Longrightarrow>
    parse_value n (render v @ t) = Some (Inr (v, t))"
  by (simp add: parses_def)

lemma parsesI: "(\<And>t m. no_digit t \<Longrightarrow> parse_value (Suc m) (render v @ t) = Some (Inr (v, t))) \<Longrightarrow> parses v"
  unfolding parses_def by (metis Suc_le_D add.commute plus_1_eq_Suc)

lemma parse_value_literals:
  "parse_value (Suc m) (lit ''null'' @ t) = Some (Inr (JNull, t))"
  "parse_value (Suc m) (lit ''true'' @ t) = Some (Inr (JBool True, t))"
  "parse_value (Suc m) (lit ''false'' @ t) = Some (Inr (JBool False, t))"
  using parse_literal_append [of "lit ''null''" JNull t] parse_literal_append [of "lit ''true''" "JBool True" t]
    parse_literal_append [of "lit ''false''" "JBool False" t]
  by (simp_all add: Let_def skip_whitespace_def lit_def)

lemma join_Cons: "xs \<noteq> [] \<Longrightarrow> join sep (x # xs) = x @ sep @ join sep xs"
  by (cases xs) simp_all

lemma parse_array_loop_render:
  "\<forall>v \<in> set vs. parses v \<Longrightarrow> 2 * length (join [c_comma] (map render vs) @ c_rbracket # t) + 2 \<le> n \<Longrightarrow>
   parse_array_loop n acc (join [c_comma] (map render vs) @ c_rbracket # t) = Some (Inr (JArray (acc @ vs), t))"
proof (induction vs arbitrary: n acc)
  case Nil
  then obtain m where "n = Suc m" by (cases n) auto
  then show ?case by (simp add: try_consume_def)
next
  case (Cons v vs)
  from Cons.prems(2) obtain m where n: "n = Suc m" by (cases n) auto
  obtain c u where v: "render v = c # u" "value_start c" using render_start [of v] by blast
  show ?case
  proof (cases "vs = []")
    case True
    have "parse_value m (render v @ c_rbracket # t) = Some (Inr (v, c_rbracket # t))"
      using Cons.prems True n by (intro parsesD) (auto simp: is_ascii_digit_def)
    then show ?thesis
      using n v True by (simp add: value_startD try_consume_def [of c_rbracket "c_rbracket # t"])
  next
    case False
    let ?r = "join [c_comma] (map render vs) @ c_rbracket # t"
    have "parse_value m (render v @ c_comma # ?r) = Some (Inr (v, c_comma # ?r))"
      using Cons.prems False n by (intro parsesD) (auto simp: is_ascii_digit_def join_Cons)
    moreover have "parse_array_loop m (acc @ [v]) ?r = Some (Inr (JArray ((acc @ [v]) @ vs), t))"
      using Cons.prems n False by (intro Cons.IH) (auto simp: join_Cons)
    ultimately show ?thesis
      using n v False
      by (simp add: join_Cons value_startD try_consume_def [of c_rbracket "c_comma # _"] expect_def)
  qed
qed

abbreviation "render_entry \<equiv> \<lambda>(k, v). render_string k @ [c_colon] @ render v"

definition insert_all :: "(rstring \<times> json_value) list \<Rightarrow> (rstring \<times> json_value) list \<Rightarrow> (rstring \<times> json_value) list" where
  "insert_all es acc = fold (\<lambda>(k, v). bt_insert k v) es acc"

lemma insert_all_simps [simp]:
  "insert_all [] acc = acc" "insert_all ((k, v) # es) acc = insert_all es (bt_insert k v acc)"
  by (simp_all add: insert_all_def)

lemma insert_all_ordered: "bt_ok (acc @ es) \<Longrightarrow> insert_all es acc = acc @ es"
proof (induction es arbitrary: acc)
  case (Cons e es)
  obtain k v where [simp]: "e = (k, v)" by (cases e)
  have "bt_insert k v acc = acc @ [(k, v)]"
    using Cons.prems by (intro bt_insert_snoc) (auto simp: bt_ok_def sorted_wrt_append)
  with Cons.IH [of "acc @ [(k, v)]"] Cons.prems show ?case by simp
qed simp

lemma bt_ok_insert_all: "bt_ok acc \<Longrightarrow> bt_ok (insert_all es acc)"
proof (induction es arbitrary: acc)
  case (Cons e es)
  then show ?case by (cases e) (simp only: insert_all_def fold_Cons comp_apply prod.case bt_ok_insert)
qed (simp add: insert_all_def)

lemma map_of_insert_all: "bt_ok acc \<Longrightarrow> map_of (insert_all es acc) = map_of acc ++ map_of (rev es)"
proof (induction es arbitrary: acc)
  case (Cons e es)
  obtain k v where [simp]: "e = (k, v)" by (cases e)
  show ?case using Cons.IH [of "bt_insert k v acc"] Cons.prems
    by (auto simp: map_of_bt_insert bt_ok_insert map_add_def fun_eq_iff split: option.splits)
qed simp

lemma parse_object_loop_render:
  "\<forall>e \<in> set es. parses (snd e) \<Longrightarrow>
   2 * length (join [c_comma] (map render_entry es) @ c_rbrace # t) + 2 \<le> n \<Longrightarrow>
   parse_object_loop n acc (join [c_comma] (map render_entry es) @ c_rbrace # t)
     = Some (Inr (JObject (insert_all es acc), t))"
proof (induction es arbitrary: n acc)
  case Nil
  then obtain m where "n = Suc m" by (cases n) auto
  then show ?case by (simp add: try_consume_def)
next
  case (Cons e es)
  from Cons.prems(2) obtain m where n: "n = Suc m" by (cases n) auto
  obtain k v where e [simp]: "e = (k, v)" by (cases e)
  have start: "skip_whitespace (render_string k @ u) = render_string k @ u"
    "try_consume c_rbrace (render_string k @ u) = (False, render_string k @ u)" for u
    by (simp_all add: render_string_def try_consume_def)
  show ?case
  proof (cases "es = []")
    case True
    have "parse_value m (render v @ c_rbrace # t) = Some (Inr (v, c_rbrace # t))"
      using Cons.prems True n by (intro parsesD) (auto simp: is_ascii_digit_def)
    then show ?thesis
      using n True by (simp add: start expect_def try_consume_def [of c_rbrace "c_rbrace # t"])
  next
    case False
    let ?r = "join [c_comma] (map render_entry es) @ c_rbrace # t"
    have "parse_value m (render v @ c_comma # ?r) = Some (Inr (v, c_comma # ?r))"
      using Cons.prems False n by (intro parsesD) (auto simp: is_ascii_digit_def join_Cons)
    moreover have "parse_object_loop m (bt_insert k v acc) ?r
        = Some (Inr (JObject (insert_all es (bt_insert k v acc)), t))"
      using Cons.prems n False by (intro Cons.IH) (auto simp: join_Cons)
    ultimately show ?thesis
      using n False
      by (simp add: join_Cons start expect_def try_consume_def [of c_rbrace "c_comma # _"])
  qed
qed

lemma parse_object_render:
  assumes "\<forall>e \<in> set es. parses (snd e)" "2 * length (render (JObject es) @ t) + 1 \<le> n"
  shows "parse_value n (render (JObject es) @ t) = Some (Inr (JObject (insert_all es []), t))"
proof -
  obtain m where [simp]: "n = Suc m" using assms(2) by (cases n) auto
  have "parse_object_loop m [] (join [c_comma] (map render_entry es) @ c_rbrace # t)
      = Some (Inr (JObject (insert_all es []), t))"
    using assms by (intro parse_object_loop_render) auto
  then show ?thesis by (simp add: skip_whitespace_def expect_def)
qed

lemma json_ok_parses: "json_ok v \<Longrightarrow> parses v"
proof (induction v)
  case (JArray vs)
  show ?case unfolding parses_def
  proof (intro allI impI)
    fix t n assume n: "2 * length (render (JArray vs) @ t) + 1 \<le> n"
    then obtain m where [simp]: "n = Suc m" by (cases n) auto
    have "parse_array_loop m [] (join [c_comma] (map render vs) @ c_rbracket # t) = Some (Inr (JArray ([] @ vs), t))"
      using JArray n by (intro parse_array_loop_render) auto
    then show "parse_value n (render (JArray vs) @ t) = Some (Inr (JArray vs, t))"
      by (simp add: skip_whitespace_def expect_def)
  qed
next
  case (JObject es)
  then have es: "\<forall>e \<in> set es. parses (snd e)" by (auto simp: snds.simps)
  show ?case unfolding parses_def
  proof (intro allI impI)
    fix t n assume "2 * length (render (JObject es) @ t) + 1 \<le> n"
    then show "parse_value n (render (JObject es) @ t) = Some (Inr (JObject es, t))"
      using parse_object_render [OF es] insert_all_ordered [of "[]" es] JObject.prems
      by (simp del: render.simps)
  qed
next
  case (JNumber x)
  show ?case
  proof (rule parsesI)
    fix t m assume t: "no_digit t"
    obtain c u where v: "render (JNumber x) = c # u" "value_start c" using render_start by blast
    have "c = c_minus \<or> is_ascii_digit c"
      using v(1) hd_show_nat [of "nat (sint x)"]
      by (cases "show_nat (nat (sint x))") (auto simp: show_int_def split: if_splits)
    then show "parse_value (Suc m) (render (JNumber x) @ t) = Some (Inr (JNumber x, t))"
      using parse_number_render [OF t, of x] v
      by (auto simp: value_startD pmap_def Let_def is_ascii_digit_def)
  qed
next
  case (JString s)
  show ?case
    using parse_string_render [of s]
    by (intro parsesI) (simp add: render_string_def pmap_def)
qed (auto intro!: parsesI simp: parse_value_literals simp del: parse_value.simps)

declare parse_value.simps [simp del] parse_array_loop.simps [simp del] parse_object_loop.simps [simp del]

lemma json_parse_render_tail:
  "json_ok v \<Longrightarrow> no_digit t \<Longrightarrow> json_parse (render v @ t) =
     (if skip_whitespace t = [] then Some (Inr v)
      else Some (Inl (JsonError (lit ''unexpected trailing content''))))"
  using parsesD [OF json_ok_parses, of v t "2 * length (render v @ t) + 1"] by (simp add: json_parse_def)

section \<open>Properties\<close>

text \<open>
  C6: rendering a value and parsing the text gives the value back, for every value the code can
  hold (object keys in \<^verbatim>\<open>BTreeMap\<close> order); so no string content, number or nesting is lost.
\<close>
theorem json_parse_render: "json_ok v \<Longrightarrow> json_parse (render v) = Some (Inr v)"
  using json_parse_render_tail [of v "[]"] by simp

theorem json_parse_render_witness:
  "json_parse (render (JObject [(lit ''k'', JArray [JNull, JNumber (- 5), JString [0x1F, c_dquote, 0x20AC]])]))
     = Some (Inr (JObject [(lit ''k'', JArray [JNull, JNumber (- 5), JString [0x1F, c_dquote, 0x20AC]])]))"
  by (rule json_parse_render) simp

text \<open>
  C29: the parser terminates: on every input text the recursion ends with a value or an error, the
  fuel of \<open>json_parse\<close> is never used up.
\<close>
theorem json_parse_total: "\<exists>r. json_parse source = Some r"
  using parse_value_fuel [of source "2 * length source + 1"]
  by (auto simp: json_parse_def split: option.splits sum.splits)

text \<open>
  whatever text is accepted, the value read is well formed and in normal form: rendering it and
  parsing again gives the same value.
\<close>
theorem json_parse_normal_form:
  assumes "json_parse source = Some (Inr v)"
  shows "json_ok v \<and> json_parse (render v) = Some (Inr v)"
proof -
  have "json_ok v"
    using assms by (auto simp: json_parse_def split: option.splits sum.splits if_splits dest: parse_value_json_ok)
  then show ?thesis using json_parse_render_tail [of v "[]"] by simp
qed

theorem json_parse_normal_form_witness:
  "json_ok (JArray [JNull]) \<and> json_parse (render (JArray [JNull])) = Some (Inr (JArray [JNull]))"
proof -
  have "json_parse (render (JArray [JNull])) = Some (Inr (JArray [JNull]))"
    using json_parse_render_tail [of "JArray [JNull]" "[]"] by simp
  then show ?thesis by (rule json_parse_normal_form)
qed

text \<open>
  an object text may repeat a key and list keys in any order: the object that is read holds the
  last value given for each key, and its keys ascend.
\<close>
theorem json_object_last_wins:
  assumes "\<forall>e \<in> set es. json_ok (snd e)"
  shows "\<exists>fields. json_parse (render (JObject es)) = Some (Inr (JObject fields)) \<and> bt_ok fields \<and>
           map_of fields = map_of (rev es)"
proof -
  have "parse_value (2 * length (render (JObject es)) + 1) (render (JObject es) @ [])
      = Some (Inr (JObject (insert_all es []), []))"
    using assms by (intro parse_object_render) (auto intro: json_ok_parses)
  moreover have "bt_ok (insert_all es [])" by (rule bt_ok_insert_all) simp
  ultimately show ?thesis
    by (simp add: json_parse_def map_of_insert_all del: render.simps)
qed

theorem json_object_last_wins_witness:
  "\<exists>fields. json_parse (render (JObject [(lit ''b'', JNull), (lit ''a'', JNull), (lit ''b'', JBool True)]))
      = Some (Inr (JObject fields)) \<and> bt_ok fields \<and>
      map_of fields = map_of (rev [(lit ''b'', JNull), (lit ''a'', JNull), (lit ''b'', JBool True)])"
  by (rule json_object_last_wins) simp

text \<open>
  text after a complete value is refused: what follows a rendered value must be white space.
\<close>
theorem json_parse_trailing:
  assumes "json_ok v" and "\<not> is_ascii_digit c" and "c \<notin> {c_space, c_nl, c_cr, c_tab}"
  shows "json_parse (render v @ c # rest) = Some (Inl (JsonError (lit ''unexpected trailing content'')))"
  using json_parse_render_tail [of v "c # rest"] assms by (simp add: skip_whitespace_def)

theorem json_parse_trailing_witness:
  "json_parse (render (JNumber 7) @ c_comma # []) = Some (Inl (JsonError (lit ''unexpected trailing content'')))"
  by (rule json_parse_trailing) (simp_all add: is_ascii_digit_def)


end
