(* ===== verification/Permissions.thy ===== *)
theory Permissions imports Prelude begin

text \<open>
  Permission rules and the authorization decision (\<^verbatim>\<open>crates/runtime/src/permissions.rs\<close>): modes in
  their derived order, rule parsing and matching, and \<^verbatim>\<open>authorize_with_context\<close> with every branch.

  Two parameters stand for code outside this file.  \<open>serde\<close> is \<^verbatim>\<open>serde_json::from_str\<close> on the tool
  input: \<open>Some get\<close> when the text is a JSON object, where \<open>get key\<close> is the string stored under a
  key, if there is one.  A prompter is \<open>None\<close> or its \<^verbatim>\<open>decide\<close> function.  The decision comes with
  the list of the requests put to the prompter, so that "the user was not asked" can be stated.
  String indices are char positions; the code's byte offsets are always those of ASCII parentheses.
\<close>

section \<open>Modes\<close>

datatype permission_mode =
  Mode_ReadOnly | Mode_WorkspaceWrite | Mode_DangerFullAccess | Mode_Prompt | Mode_Allow

text \<open>The derived \<^verbatim>\<open>Ord\<close>: the order in which the variants are declared.\<close>

fun mode_rank :: "permission_mode \<Rightarrow> nat" where
  "mode_rank Mode_ReadOnly = 0"
| "mode_rank Mode_WorkspaceWrite = 1"
| "mode_rank Mode_DangerFullAccess = 2"
| "mode_rank Mode_Prompt = 3"
| "mode_rank Mode_Allow = 4"

lemma mode_rank_inject [simp]: "mode_rank a = mode_rank b \<longleftrightarrow> a = b"
  by (cases a; cases b) simp_all

instantiation permission_mode :: linorder
begin

definition less_eq_permission_mode :: "permission_mode \<Rightarrow> permission_mode \<Rightarrow> bool" where
  "less_eq_permission_mode a b \<longleftrightarrow> mode_rank a \<le> mode_rank b"

definition less_permission_mode :: "permission_mode \<Rightarrow> permission_mode \<Rightarrow> bool" where
  "less_permission_mode a b \<longleftrightarrow> mode_rank a < mode_rank b"

instance
  by standard (auto simp: less_eq_permission_mode_def less_permission_mode_def)

end

lemma Mode_Allow_top [simp]: "m \<le> Mode_Allow"
  by (cases m) (simp_all add: less_eq_permission_mode_def)

fun mode_as_str :: "permission_mode \<Rightarrow> rstring" where
  "mode_as_str Mode_ReadOnly = lit ''read-only''"
| "mode_as_str Mode_WorkspaceWrite = lit ''workspace-write''"
| "mode_as_str Mode_DangerFullAccess = lit ''danger-full-access''"
| "mode_as_str Mode_Prompt = lit ''prompt''"
| "mode_as_str Mode_Allow = lit ''allow''"

datatype permission_override = Override_Allow | Override_Deny | Override_Ask

record permission_context =
  override_decision :: "permission_override option"
  override_reason :: "rstring option"

definition default_context :: permission_context where
  "default_context = \<lparr>override_decision = None, override_reason = None\<rparr>"

record permission_request =
  req_tool_name :: rstring
  req_input :: rstring
  req_current_mode :: permission_mode
  req_required_mode :: permission_mode
  req_reason :: "rstring option"

datatype permission_prompt_decision = Decision_Allow | Decision_Deny rstring

type_synonym permission_prompter = "permission_request \<Rightarrow> permission_prompt_decision"

datatype permission_outcome = Outcome_Allow | Outcome_Deny rstring

section \<open>Rules\<close>

datatype permission_rule_matcher = Match_Any | Match_Exact rstring | Match_Prefix rstring

record permission_rule =
  rule_raw :: rstring
  rule_tool_name :: rstring
  rule_matcher :: permission_rule_matcher

fun find_first_loop :: "bool \<Rightarrow> nat \<Rightarrow> rchar \<Rightarrow> rstring \<Rightarrow> nat option" where
  "find_first_loop escaped i needle [] = None"
| "find_first_loop escaped i needle (ch # s) =
     (if ch = c_backslash then find_first_loop (\<not> escaped) (Suc i) needle s
      else if ch = needle \<and> \<not> escaped then Some i
      else find_first_loop False (Suc i) needle s)"

definition find_first_unescaped :: "rstring \<Rightarrow> rchar \<Rightarrow> nat option" where
  "find_first_unescaped s needle = find_first_loop False 0 needle s"

definition backslashes_before :: "rstring \<Rightarrow> nat \<Rightarrow> nat" where
  "backslashes_before s pos = length (takeWhile (\<lambda>c. c = c_backslash) (rev (take pos s)))"

fun find_last_loop :: "rstring \<Rightarrow> rchar \<Rightarrow> nat \<Rightarrow> nat option" where
  "find_last_loop s needle 0 = None"
| "find_last_loop s needle (Suc pos) =
     (if s ! pos \<noteq> needle then find_last_loop s needle pos
      else if even (backslashes_before s pos) then Some pos
      else find_last_loop s needle pos)"

definition find_last_unescaped :: "rstring \<Rightarrow> rchar \<Rightarrow> nat option" where
  "find_last_unescaped s needle = find_last_loop s needle (length s)"

definition unescape_rule_content :: "rstring \<Rightarrow> rstring" where
  "unescape_rule_content content =
     replace_all [c_backslash, c_backslash] [c_backslash]
       (replace_all [c_backslash, c_rparen] [c_rparen]
         (replace_all [c_backslash, c_lparen] [c_lparen] content))"

definition parse_rule_matcher :: "rstring \<Rightarrow> permission_rule_matcher" where
  "parse_rule_matcher content =
     (let unescaped = unescape_rule_content (trim content)
      in if unescaped = [] \<or> unescaped = lit ''*'' then Match_Any
         else (case strip_suffix unescaped (lit '':*'') of
             Some p \<Rightarrow> Match_Prefix p
           | None \<Rightarrow> Match_Exact unescaped))"

definition rule_parse :: "rstring \<Rightarrow> permission_rule" where
  "rule_parse raw =
     (let trimmed = trim raw;
          fallback = \<lparr>rule_raw = trimmed, rule_tool_name = trimmed, rule_matcher = Match_Any\<rparr>
      in case (find_first_unescaped trimmed c_lparen, find_last_unescaped trimmed c_rparen) of
           (Some op, Some cl) \<Rightarrow>
             if cl = length trimmed - 1 \<and> op < cl then
               (let tool = trim (take op trimmed);
                    content = drop (op + 1) (take cl trimmed)
                in if tool \<noteq> [] then
                     \<lparr>rule_raw = trimmed, rule_tool_name = tool, rule_matcher = parse_rule_matcher content\<rparr>
                   else fallback)
             else fallback
         | _ \<Rightarrow> fallback)"

type_synonym serde_object = "rstring \<Rightarrow> (rstring \<Rightarrow> rstring option) option"

definition subject_keys :: "rstring list" where
  "subject_keys = [lit ''command'', lit ''path'', lit ''file_path'', lit ''filePath'', lit ''notebook_path'',
     lit ''notebookPath'', lit ''url'', lit ''pattern'', lit ''code'', lit ''message'']"

fun first_string :: "(rstring \<Rightarrow> rstring option) \<Rightarrow> rstring list \<Rightarrow> rstring option" where
  "first_string get [] = None"
| "first_string get (k # ks) = (case get k of Some v \<Rightarrow> Some v | None \<Rightarrow> first_string get ks)"

definition extract_permission_subject :: "serde_object \<Rightarrow> rstring \<Rightarrow> rstring option" where
  "extract_permission_subject serde inp =
     (let raw = (if trim inp \<noteq> [] then Some inp else None)
      in case serde inp of
           None \<Rightarrow> raw
         | Some get \<Rightarrow> (case first_string get subject_keys of Some v \<Rightarrow> Some v | None \<Rightarrow> raw))"

definition rule_matches :: "serde_object \<Rightarrow> permission_rule \<Rightarrow> rstring \<Rightarrow> rstring \<Rightarrow> bool" where
  "rule_matches serde rule tool inp =
     (if rule_tool_name rule \<noteq> tool then False
      else (case rule_matcher rule of
          Match_Any \<Rightarrow> True
        | Match_Exact expected \<Rightarrow> (case extract_permission_subject serde inp of
              None \<Rightarrow> False | Some candidate \<Rightarrow> candidate = expected)
        | Match_Prefix p \<Rightarrow> (case extract_permission_subject serde inp of
              None \<Rightarrow> False | Some candidate \<Rightarrow> starts_with candidate p)))"

section \<open>The policy\<close>

record permission_rule_config =
  cfg_allow :: "rstring list"
  cfg_deny :: "rstring list"
  cfg_ask :: "rstring list"

record permission_policy =
  active_mode :: permission_mode
  tool_requirements :: "(rstring \<times> permission_mode) list"
  allow_rules :: "permission_rule list"
  deny_rules :: "permission_rule list"
  ask_rules :: "permission_rule list"

definition policy_new :: "permission_mode \<Rightarrow> permission_policy" where
  "policy_new mode = \<lparr>active_mode = mode, tool_requirements = [], allow_rules = [], deny_rules = [], ask_rules = []\<rparr>"

definition with_tool_requirement ::
    "permission_policy \<Rightarrow> rstring \<Rightarrow> permission_mode \<Rightarrow> permission_policy" where
  "with_tool_requirement p tool required =
     p\<lparr>tool_requirements := bt_insert tool required (tool_requirements p)\<rparr>"

definition with_permission_rules ::
    "permission_policy \<Rightarrow> permission_rule_config \<Rightarrow> permission_policy" where
  "with_permission_rules p config =
     p\<lparr>allow_rules := map rule_parse (cfg_allow config),
       deny_rules := map rule_parse (cfg_deny config),
       ask_rules := map rule_parse (cfg_ask config)\<rparr>"

definition required_mode_for :: "permission_policy \<Rightarrow> rstring \<Rightarrow> permission_mode" where
  "required_mode_for p tool =
     (case map_of (tool_requirements p) tool of Some m \<Rightarrow> m | None \<Rightarrow> Mode_DangerFullAccess)"

definition find_matching_rule ::
    "serde_object \<Rightarrow> permission_rule list \<Rightarrow> rstring \<Rightarrow> rstring \<Rightarrow> permission_rule option" where
  "find_matching_rule serde rules tool inp = find (\<lambda>rule. rule_matches serde rule tool inp) rules"

definition quoted :: "rstring \<Rightarrow> rstring" where
  "quoted s = [c_squote] @ s @ [c_squote]"

definition prompt_or_deny ::
    "rstring \<Rightarrow> rstring \<Rightarrow> permission_mode \<Rightarrow> permission_mode \<Rightarrow> rstring option \<Rightarrow>
     permission_prompter option \<Rightarrow> permission_outcome \<times> permission_request list" where
  "prompt_or_deny tool inp current required reason prompter =
     (let request = \<lparr>req_tool_name = tool, req_input = inp, req_current_mode = current,
                     req_required_mode = required, req_reason = reason\<rparr>
      in case prompter of
           Some decide \<Rightarrow> (case decide request of
               Decision_Allow \<Rightarrow> (Outcome_Allow, [request])
             | Decision_Deny r \<Rightarrow> (Outcome_Deny r, [request]))
         | None \<Rightarrow> (Outcome_Deny (case reason of
               Some r \<Rightarrow> r
             | None \<Rightarrow> lit ''tool '' @ quoted tool @ lit '' requires approval to run while mode is '' @
                 mode_as_str current), []))"

definition ask_rule_reason :: "rstring \<Rightarrow> permission_rule \<Rightarrow> rstring" where
  "ask_rule_reason tool rule =
     lit ''tool '' @ quoted tool @ lit '' requires approval due to ask rule '' @ quoted (rule_raw rule)"

definition authorize_with_context ::
    "serde_object \<Rightarrow> permission_policy \<Rightarrow> rstring \<Rightarrow> rstring \<Rightarrow> permission_context \<Rightarrow>
     permission_prompter option \<Rightarrow> permission_outcome \<times> permission_request list" where
  "authorize_with_context serde p tool inp context prompter =
    (case find_matching_rule serde (deny_rules p) tool inp of
       Some rule \<Rightarrow> (Outcome_Deny (lit ''Permission to use '' @ tool @ lit '' has been denied by rule '' @
                       quoted (rule_raw rule)), [])
     | None \<Rightarrow>
       (let current = active_mode p;
            required = required_mode_for p tool;
            ask_rule = find_matching_rule serde (ask_rules p) tool inp;
            allow_rule = find_matching_rule serde (allow_rules p) tool inp;
            permitted = (allow_rule \<noteq> None \<or> current = Mode_Allow \<or> required \<le> current);
            ask = (\<lambda>reason. prompt_or_deny tool inp current required (Some reason) prompter);
            rest =
              (case ask_rule of
                 Some rule \<Rightarrow> ask (ask_rule_reason tool rule)
               | None \<Rightarrow>
                   if permitted then (Outcome_Allow, [])
                   else if current = Mode_Prompt \<or>
                           (current = Mode_WorkspaceWrite \<and> required = Mode_DangerFullAccess) then
                     ask (lit ''tool '' @ quoted tool @ lit '' requires approval to escalate from '' @
                          mode_as_str current @ lit '' to '' @ mode_as_str required)
                   else (Outcome_Deny (lit ''tool '' @ quoted tool @ lit '' requires '' @ mode_as_str required @
                           lit '' permission; current mode is '' @ mode_as_str current), []))
        in case override_decision context of
             Some Override_Deny \<Rightarrow>
               (Outcome_Deny (case override_reason context of
                   Some r \<Rightarrow> r
                 | None \<Rightarrow> lit ''tool '' @ quoted tool @ lit '' denied by hook''), [])
           | Some Override_Ask \<Rightarrow>
               ask (case override_reason context of
                   Some r \<Rightarrow> r
                 | None \<Rightarrow> lit ''tool '' @ quoted tool @ lit '' requires approval due to hook guidance'')
           | Some Override_Allow \<Rightarrow>
               (case ask_rule of
                  Some rule \<Rightarrow> ask (ask_rule_reason tool rule)
                | None \<Rightarrow> if permitted then (Outcome_Allow, []) else rest)
           | None \<Rightarrow> rest))"

definition authorize ::
    "serde_object \<Rightarrow> permission_policy \<Rightarrow> rstring \<Rightarrow> rstring \<Rightarrow> permission_prompter option \<Rightarrow>
     permission_outcome \<times> permission_request list" where
  "authorize serde p tool inp prompter = authorize_with_context serde p tool inp default_context prompter"

section \<open>What "unescaped" means\<close>

definition trailing_backslashes :: "rstring \<Rightarrow> nat" where
  "trailing_backslashes s = length (takeWhile (\<lambda>c. c = c_backslash) (rev s))"

lemma trailing_backslashes_simps [simp]:
  "trailing_backslashes [] = 0"
  "trailing_backslashes (s @ [c]) = (if c = c_backslash then Suc (trailing_backslashes s) else 0)"
  by (simp_all add: trailing_backslashes_def)

lemma trailing_backslashes_after: "c \<noteq> c_backslash \<Longrightarrow> trailing_backslashes (pre @ c # s) = trailing_backslashes s"
proof (induction s rule: rev_induct)
  case Nil
  then show ?case by simp
next
  case (snoc x xs)
  then show ?case using trailing_backslashes_simps(2) [of "pre @ c # xs" x] by simp
qed

lemma backslashes_before_append [simp]:
  "backslashes_before (pre @ s) (length pre) = trailing_backslashes pre"
  by (simp add: backslashes_before_def trailing_backslashes_def)

definition unescaped_at :: "rstring \<Rightarrow> rchar \<Rightarrow> nat \<Rightarrow> bool" where
  "unescaped_at s needle pos \<longleftrightarrow> pos < length s \<and> s ! pos = needle \<and> even (backslashes_before s pos)"

lemma find_first_loop_spec:
  assumes "needle \<noteq> c_backslash"
  shows "find_first_loop (odd (trailing_backslashes pre)) (length pre) needle s = Some p \<longleftrightarrow>
    length pre \<le> p \<and> unescaped_at (pre @ s) needle p \<and>
    (\<forall>q. length pre \<le> q \<and> q < p \<longrightarrow> \<not> unescaped_at (pre @ s) needle q)"
proof (induction s arbitrary: pre)
  case Nil
  then show ?case by (auto simp: unescaped_at_def)
next
  case (Cons c s)
  have at: "unescaped_at (pre @ c # s) needle (length pre) \<longleftrightarrow> c = needle \<and> even (trailing_backslashes pre)"
    by (simp add: unescaped_at_def)
  show ?case
  proof (cases "c = needle \<and> even (trailing_backslashes pre)")
    case True
    then have "unescaped_at (pre @ c # s) needle (length pre)" using at by blast
    moreover have "find_first_loop (odd (trailing_backslashes pre)) (length pre) needle (c # s) = Some (length pre)"
      using True assms by simp
    ultimately show ?thesis by (auto simp: le_less)
  next
    case False
    have "find_first_loop (odd (trailing_backslashes pre)) (length pre) needle (c # s)
        = find_first_loop (odd (trailing_backslashes (pre @ [c]))) (length (pre @ [c])) needle s"
      using False by auto
    moreover have "\<not> unescaped_at (pre @ c # s) needle (length pre)" using at False by blast
    then have "(length (pre @ [c]) \<le> p \<and> unescaped_at (pre @ c # s) needle p \<and>
          (\<forall>q. length (pre @ [c]) \<le> q \<and> q < p \<longrightarrow> \<not> unescaped_at (pre @ c # s) needle q)) \<longleftrightarrow>
        (length pre \<le> p \<and> unescaped_at (pre @ c # s) needle p \<and>
          (\<forall>q. length pre \<le> q \<and> q < p \<longrightarrow> \<not> unescaped_at (pre @ c # s) needle q))"
      by simp (metis Suc_leD Suc_leI le_neq_implies_less)
    ultimately show ?thesis using Cons.IH [of "pre @ [c]"] by simp
  qed
qed

lemma find_last_loop_spec:
  "n \<le> length s \<Longrightarrow> find_last_loop s needle n = Some p \<longleftrightarrow>
     p < n \<and> unescaped_at s needle p \<and> (\<forall>q. p < q \<and> q < n \<longrightarrow> \<not> unescaped_at s needle q)"
proof (induction n)
  case (Suc n)
  then show ?case by (auto simp: unescaped_at_def less_Suc_eq)
qed simp

lemma find_first_unescaped_iff:
  "needle \<noteq> c_backslash \<Longrightarrow> find_first_unescaped s needle = Some p \<longleftrightarrow>
     unescaped_at s needle p \<and> (\<forall>q < p. \<not> unescaped_at s needle q)"
  using find_first_loop_spec [of needle "[]" s p] by (simp add: find_first_unescaped_def)

lemma find_last_unescaped_iff:
  "find_last_unescaped s needle = Some p \<longleftrightarrow>
     unescaped_at s needle p \<and> (\<forall>q. p < q \<and> q < length s \<longrightarrow> \<not> unescaped_at s needle q)"
  using find_last_loop_spec [of "length s" s needle p]
  by (auto simp: find_last_unescaped_def unescaped_at_def)

section \<open>Parsing structured rules\<close>

lemma replace_all_notin: "x \<notin> set s \<Longrightarrow> replace_all (x # p) q s = s"
proof (induction s)
  case Nil then show ?case by (simp add: replace_all.simps)
next
  case (Cons c s)
  then show ?case by (subst replace_all.simps) simp
qed

lemma unescape_plain: "c_backslash \<notin> set s \<Longrightarrow> unescape_rule_content s = s"
  by (simp add: unescape_rule_content_def replace_all_notin)

lemma trim_id: "s \<noteq> [] \<Longrightarrow> \<not> is_whitespace (hd s) \<Longrightarrow> \<not> is_whitespace (last s) \<Longrightarrow> trim s = s"
proof -
  assume s: "s \<noteq> []" "\<not> is_whitespace (hd s)" "\<not> is_whitespace (last s)"
  from s(1,2) have "trim_start s = s" by (cases s) (simp_all add: trim_start_def)
  moreover have "dropWhile is_whitespace (rev s) = rev s"
    using s(1,3) by (cases s rule: rev_cases) simp_all
  ultimately show ?thesis by (simp add: trim_def trim_end_def)
qed

lemma unescaped_at_append:
  "unescaped_at (pre @ c # post) needle (length pre) \<longleftrightarrow> c = needle \<and> even (trailing_backslashes pre)"
  by (simp add: unescaped_at_def)

lemma rule_parse_structured:
  assumes tool: "tool \<noteq> []" "c_backslash \<notin> set tool" "c_lparen \<notin> set tool"
      "\<not> is_whitespace (hd tool)" "\<not> is_whitespace (last tool)"
    and content: "even (trailing_backslashes content)"
  shows "rule_parse (tool @ c_lparen # content @ [c_rparen]) =
    \<lparr>rule_raw = tool @ c_lparen # content @ [c_rparen], rule_tool_name = tool,
     rule_matcher = parse_rule_matcher content\<rparr>"
proof -
  let ?raw = "tool @ c_lparen # content @ [c_rparen]"
  have "\<not> is_whitespace (hd ?raw)" "\<not> is_whitespace (last ?raw)"
    using tool by (simp_all add: is_whitespace_def [of c_rparen])
  then have trimmed: "trim ?raw = ?raw" "trim tool = tool"
    using tool by (simp_all add: trim_id)
  have "trailing_backslashes tool = 0"
    using tool(1,2) by (cases tool rule: rev_cases) simp_all
  then have op: "find_first_unescaped ?raw c_lparen = Some (length tool)"
  proof -
    have "\<not> unescaped_at ?raw c_lparen q" if "q < length tool" for q
    proof -
      have "tool ! q \<noteq> c_lparen" using tool(3) nth_mem [OF that] by metis
      then show ?thesis using that by (simp add: unescaped_at_def nth_append)
    qed
    with \<open>trailing_backslashes tool = 0\<close> show ?thesis
      by (simp add: find_first_unescaped_iff unescaped_at_append)
  qed
  have "trailing_backslashes (tool @ c_lparen # content) = trailing_backslashes content"
    by (rule trailing_backslashes_after) simp
  then have "unescaped_at ((tool @ c_lparen # content) @ c_rparen # []) c_rparen (length (tool @ c_lparen # content))"
    unfolding unescaped_at_append using content by simp
  then have cl: "find_last_unescaped ?raw c_rparen = Some (length tool + 1 + length content)"
    by (auto simp: find_last_unescaped_iff)
  show ?thesis
    using tool(1) by (simp add: rule_parse_def Let_def trimmed op cl)
qed

section \<open>The decision\<close>

lemma find_matching_rule_None:
  "find_matching_rule serde rules tool inp = None \<longleftrightarrow> (\<forall>r \<in> set rules. \<not> rule_matches serde r tool inp)"
  by (auto simp: find_matching_rule_def find_None_iff)

lemma prompt_or_deny_None: "prompt_or_deny tool inp c r reason None = (Outcome_Deny x, reqs) \<Longrightarrow> reqs = []"
  by (auto simp: prompt_or_deny_def)

lemma fst_prompt_or_deny_None [simp]: "fst (prompt_or_deny tool inp c r reason None) \<noteq> Outcome_Allow"
  by (simp add: prompt_or_deny_def)

definition matched :: "serde_object \<Rightarrow> permission_rule list \<Rightarrow> rstring \<Rightarrow> rstring \<Rightarrow> bool" where
  "matched serde rules tool inp \<longleftrightarrow> (\<exists>r \<in> set rules. rule_matches serde r tool inp)"

text \<open>
  The abstract contract of the policy without an interactive user: what is statically permitted.
\<close>

definition statically_permitted ::
    "serde_object \<Rightarrow> permission_policy \<Rightarrow> rstring \<Rightarrow> rstring \<Rightarrow> permission_context \<Rightarrow> bool" where
  "statically_permitted serde p tool inp context \<longleftrightarrow>
     \<not> matched serde (deny_rules p) tool inp \<and> \<not> matched serde (ask_rules p) tool inp \<and>
     override_decision context \<in> {None, Some Override_Allow} \<and>
     (matched serde (allow_rules p) tool inp \<or> required_mode_for p tool \<le> active_mode p)"

lemma find_matched:
  "find_matching_rule serde rules tool inp = None \<longleftrightarrow> \<not> matched serde rules tool inp"
  by (simp add: find_matching_rule_None matched_def)

lemma authorize_without_prompter:
  "fst (authorize_with_context serde p tool inp context None) = Outcome_Allow \<longleftrightarrow>
   statically_permitted serde p tool inp context"
proof (cases "matched serde (deny_rules p) tool inp")
  case True
  then show ?thesis using find_matched [of serde "deny_rules p" tool inp]
    by (auto simp: authorize_with_context_def statically_permitted_def split: option.splits)
next
  case False
  then have d: "find_matching_rule serde (deny_rules p) tool inp = None" by (simp add: find_matched)
  show ?thesis
    using find_matched [of serde "ask_rules p" tool inp] find_matched [of serde "allow_rules p" tool inp]
    by (cases "find_matching_rule serde (ask_rules p) tool inp"; cases "override_decision context")
      (auto simp: authorize_with_context_def d statically_permitted_def False Let_def
        split: permission_override.splits)
qed

lemma prompt_or_deny_Some:
  "prompt_or_deny tool inp c r reason (Some decide) =
    (let q = \<lparr>req_tool_name = tool, req_input = inp, req_current_mode = c, req_required_mode = r, req_reason = reason\<rparr>
     in (case decide q of Decision_Allow \<Rightarrow> Outcome_Allow | Decision_Deny x \<Rightarrow> Outcome_Deny x, [q]))"
  by (simp add: prompt_or_deny_def Let_def split: permission_prompt_decision.split)

definition asked :: "permission_prompter \<Rightarrow> permission_outcome \<times> permission_request list \<Rightarrow>
    permission_outcome \<times> permission_request list \<Rightarrow> rstring \<Rightarrow> rstring \<Rightarrow> bool" where
  "asked decide without res tool inp \<longleftrightarrow> (case snd res of
     [] \<Rightarrow> res = without
   | [q] \<Rightarrow> fst without \<noteq> Outcome_Allow \<and> req_tool_name q = tool \<and> req_input q = inp \<and>
       fst res = (case decide q of Decision_Allow \<Rightarrow> Outcome_Allow | Decision_Deny x \<Rightarrow> Outcome_Deny x)
   | _ \<Rightarrow> False)"

lemma asked_prompt: "asked decide (prompt_or_deny tool inp c r reason None)
    (prompt_or_deny tool inp c r reason (Some decide)) tool inp"
  by (simp add: asked_def prompt_or_deny_Some Let_def)

lemma asked_static: "asked decide (out, []) (out, []) tool inp"
  by (simp add: asked_def)

lemma asked_if: "(b \<Longrightarrow> asked decide x x' tool inp) \<Longrightarrow> (\<not> b \<Longrightarrow> asked decide y y' tool inp) \<Longrightarrow>
    asked decide (if b then x else y) (if b then x' else y') tool inp"
  by simp

lemma authorize_asked:
  "asked decide (authorize_with_context serde p tool inp context None)
     (authorize_with_context serde p tool inp context (Some decide)) tool inp"
proof (cases "find_matching_rule serde (deny_rules p) tool inp")
  case (Some a)
  then show ?thesis by (simp add: authorize_with_context_def asked_static)
next
  case d: None
  show ?thesis
  proof (cases "find_matching_rule serde (ask_rules p) tool inp")
    case (Some a)
    then show ?thesis
      by (cases "override_decision context"; cases "the (override_decision context)")
        (simp_all add: authorize_with_context_def d Let_def asked_static asked_prompt)
  next
    case None
    then show ?thesis
      by (cases "override_decision context"; cases "the (override_decision context)")
        (simp_all add: authorize_with_context_def d Let_def asked_static asked_prompt)
  qed
qed

lemma parse_rule_matcher_prefix:
  assumes "pre \<noteq> []" "c_backslash \<notin> set pre" "\<not> is_whitespace (hd pre)"
  shows "parse_rule_matcher (pre @ lit '':*'') = Match_Prefix pre"
proof -
  have star: "lit '':*'' = [58, 42]" "lit ''*'' = [42]" by (simp_all add: lit_def)
  have "trim (pre @ [58, 42]) = pre @ [58, 42]"
    using assms by (intro trim_id) (simp_all add: is_whitespace_def [of 42])
  moreover have "unescape_rule_content (pre @ [58, 42]) = pre @ [58, 42]"
    using assms by (intro unescape_plain) auto
  ultimately show ?thesis
    using assms(1) by (auto simp: parse_rule_matcher_def star Let_def strip_suffix_def suffix_def append_eq_Cons_conv)
qed

section \<open>Properties\<close>

text \<open>
  C1: a matching deny rule always wins: whatever the mode, the tool's requirement, the other rules,
  the hook's override and the prompter, the call is denied and nobody is asked.
\<close>
theorem authorize_deny_rule_wins:
  assumes "rule \<in> set (deny_rules p)" and "rule_matches serde rule tool inp"
  shows "\<exists>reason. authorize_with_context serde p tool inp context prompter = (Outcome_Deny reason, [])"
proof -
  have "find_matching_rule serde (deny_rules p) tool inp \<noteq> None"
    using assms by (auto simp: find_matching_rule_None)
  then show ?thesis by (auto simp: authorize_with_context_def)
qed

theorem authorize_deny_rule_wins_witness:
  "\<exists>reason. authorize_with_context (\<lambda>_. None)
      (with_permission_rules (policy_new Mode_Allow) \<lparr>cfg_allow = [lit ''bash''], cfg_deny = [lit '' bash ''], cfg_ask = []\<rparr>)
      (lit ''bash'') (lit ''rm -rf /'') \<lparr>override_decision = Some Override_Allow, override_reason = None\<rparr>
      (Some (\<lambda>_. Decision_Allow)) = (Outcome_Deny reason, [])"
proof (rule authorize_deny_rule_wins)
  show "rule_parse (lit '' bash '') \<in> set (deny_rules (with_permission_rules (policy_new Mode_Allow)
      \<lparr>cfg_allow = [lit ''bash''], cfg_deny = [lit '' bash ''], cfg_ask = []\<rparr>))"
    by (simp add: with_permission_rules_def)
  show "rule_matches (\<lambda>_. None) (rule_parse (lit '' bash '')) (lit ''bash'') (lit ''rm -rf /'')"
    by (simp add: rule_matches_def rule_parse_def find_first_unescaped_def Let_def str_defs)
qed

text \<open>
  C2: without a prompter the decision is exactly the static contract: no deny rule and no ask rule
  matches, the hook does not deny or ask, and an allow rule matches or the active mode reaches the
  tool's required mode.
\<close>
theorem authorize_static_contract:
  "fst (authorize_with_context serde p tool inp context None) = Outcome_Allow \<longleftrightarrow>
   statically_permitted serde p tool inp context"
  by (rule authorize_without_prompter)

text \<open>
  a prompter is consulted at most once, with this call's tool and input, and only for a call that
  would be denied without it; then its answer is the outcome.  When it is not consulted the outcome
  is the one without a prompter.
\<close>
theorem authorize_prompt_contract:
  "case authorize_with_context serde p tool inp context (Some decide) of
     (out, []) \<Rightarrow> (out, []) = authorize_with_context serde p tool inp context None
   | (out, [q]) \<Rightarrow>
       \<not> statically_permitted serde p tool inp context \<and> req_tool_name q = tool \<and> req_input q = inp \<and>
       out = (case decide q of Decision_Allow \<Rightarrow> Outcome_Allow | Decision_Deny x \<Rightarrow> Outcome_Deny x)
   | _ \<Rightarrow> False"
  using authorize_asked [of decide serde p tool inp "context"]
  by (auto simp: asked_def authorize_without_prompter split: prod.splits list.splits)

text \<open>
  policies are monotone: a policy with more deny and ask rules, fewer allow rules and a lower mode
  never permits (without asking) a call that the laxer policy does not permit.
\<close>
theorem authorize_monotone:
  assumes "set (deny_rules lax) \<subseteq> set (deny_rules strict)"
    and "set (ask_rules lax) \<subseteq> set (ask_rules strict)"
    and "set (allow_rules strict) \<subseteq> set (allow_rules lax)"
    and "active_mode strict \<le> active_mode lax"
    and "tool_requirements strict = tool_requirements lax"
    and "fst (authorize_with_context serde strict tool inp context None) = Outcome_Allow"
  shows "fst (authorize_with_context serde lax tool inp context None) = Outcome_Allow"
  using assms
  by (auto simp: authorize_without_prompter statically_permitted_def matched_def required_mode_for_def
      intro: order.trans)

theorem authorize_monotone_witness:
  "fst (authorize_with_context (\<lambda>_. None) (policy_new Mode_Allow) (lit ''bash'') (lit ''ls'') default_context None)
     = Outcome_Allow"
proof (rule authorize_monotone [where strict = "policy_new Mode_DangerFullAccess"])
  show "fst (authorize_with_context (\<lambda>_. None) (policy_new Mode_DangerFullAccess) (lit ''bash'') (lit ''ls'')
      default_context None) = Outcome_Allow"
    by (simp add: authorize_without_prompter statically_permitted_def matched_def policy_new_def
        default_context_def required_mode_for_def)
qed (simp_all add: policy_new_def)

text \<open>
  the mode \<^verbatim>\<open>Prompt\<close> stands above \<^verbatim>\<open>DangerFullAccess\<close> in the derived order, so in that mode no tool
  with one of the three ordinary requirements (nor an unlisted tool) ever reaches the escalation
  prompt: the call is allowed and the prompter is not asked.  The branch the code has for
  \<^verbatim>\<open>current_mode == Prompt\<close> is reached only for tools that require \<^verbatim>\<open>Allow\<close>.
\<close>
theorem prompt_mode_never_prompts:
  assumes "active_mode p = Mode_Prompt" and "required_mode_for p tool \<noteq> Mode_Allow"
    and "\<not> matched serde (deny_rules p) tool inp" and "\<not> matched serde (ask_rules p) tool inp"
  shows "authorize serde p tool inp prompter = (Outcome_Allow, [])"
proof -
  have "required_mode_for p tool \<le> Mode_Prompt"
    using assms(2) by (cases "required_mode_for p tool") (simp_all add: less_eq_permission_mode_def)
  with assms find_matched [of serde "deny_rules p" tool inp] find_matched [of serde "ask_rules p" tool inp]
  show ?thesis
    by (simp add: authorize_def authorize_with_context_def default_context_def Let_def)
qed

theorem prompt_mode_never_prompts_witness:
  "authorize (\<lambda>_. None) (policy_new Mode_Prompt) (lit ''bash'') (lit ''rm -rf /'') (Some (\<lambda>_. Decision_Deny []))
     = (Outcome_Allow, [])"
  by (rule prompt_mode_never_prompts) (simp_all add: policy_new_def required_mode_for_def matched_def)

text \<open>
  a rule written \<^verbatim>\<open>tool(prefix:*)\<close> applies to exactly the calls of that tool whose subject starts
  with the prefix.
\<close>
theorem prefix_rule_meaning:
  assumes "tool \<noteq> []" "c_backslash \<notin> set tool" "c_lparen \<notin> set tool"
      "\<not> is_whitespace (hd tool)" "\<not> is_whitespace (last tool)"
    and "pre \<noteq> []" "c_backslash \<notin> set pre" "\<not> is_whitespace (hd pre)"
  shows "rule_matches serde (rule_parse (tool @ lit ''('' @ pre @ lit '':*)'')) used inp \<longleftrightarrow>
    used = tool \<and> (\<exists>subject. extract_permission_subject serde inp = Some subject \<and> starts_with subject pre)"
proof -
  have rule_text: "tool @ lit ''('' @ pre @ lit '':*)'' = tool @ c_lparen # (pre @ lit '':*'') @ [c_rparen]"
    by (simp add: lit_def)
  have even: "even (trailing_backslashes (pre @ lit '':*''))"
    using trailing_backslashes_simps(2) [of "pre @ [58]" 42] by (simp add: lit_def)
  show ?thesis
    unfolding rule_text rule_parse_structured [OF assms(1-5) even] parse_rule_matcher_prefix [OF assms(6-8)]
    by (auto simp: rule_matches_def split: option.splits)
qed

theorem prefix_rule_meaning_witness:
  "rule_matches (\<lambda>_. None) (rule_parse (lit ''bash'' @ lit ''('' @ lit ''git'' @ lit '':*)'')) (lit ''bash'') (lit ''git status'')
    \<longleftrightarrow> lit ''bash'' = lit ''bash'' \<and>
      (\<exists>subject. extract_permission_subject (\<lambda>_. None) (lit ''git status'') = Some subject \<and> starts_with subject (lit ''git''))"
  by (rule prefix_rule_meaning) (simp_all add: str_defs)

text \<open>
  the forward scan (a toggled flag) and the backward scan (counting the run of backslashes) agree on
  which occurrences of a char are unescaped: both find one when there is one, the forward scan the
  first and the backward scan the last, and they find the same position when there is only one.
\<close>
theorem unescaped_scans_agree:
  assumes "needle \<noteq> c_backslash"
  shows "(find_first_unescaped s needle = None \<longleftrightarrow> find_last_unescaped s needle = None) \<and>
    (\<forall>i. find_first_unescaped s needle = Some i \<longleftrightarrow> unescaped_at s needle i \<and> (\<forall>j < i. \<not> unescaped_at s needle j)) \<and>
    (\<forall>i. find_last_unescaped s needle = Some i \<longleftrightarrow>
       unescaped_at s needle i \<and> (\<forall>j. i < j \<and> j < length s \<longrightarrow> \<not> unescaped_at s needle j))"
proof -
  have first: "find_first_unescaped s needle = None \<longleftrightarrow> (\<forall>i. \<not> unescaped_at s needle i)"
    using find_first_unescaped_iff [OF assms, of s] by (metis exists_least_iff not_None_eq)
  have fin: "finite {i. unescaped_at s needle i}"
    by (rule finite_subset [of _ "{..<length s}"]) (auto simp: unescaped_at_def)
  have last: "find_last_unescaped s needle = None \<longleftrightarrow> (\<forall>i. \<not> unescaped_at s needle i)"
  proof
    assume none: "find_last_unescaped s needle = None"
    show "\<forall>i. \<not> unescaped_at s needle i"
    proof (rule ccontr)
      assume "\<not> (\<forall>i. \<not> unescaped_at s needle i)"
      then have ne: "{i. unescaped_at s needle i} \<noteq> {}" by blast
      from Max_in [OF fin ne] Max_ge [OF fin]
      have "find_last_unescaped s needle = Some (Max {i. unescaped_at s needle i})"
        by (fastforce simp: find_last_unescaped_iff)
      with none show False by simp
    qed
  next
    assume "\<forall>i. \<not> unescaped_at s needle i"
    then show "find_last_unescaped s needle = None"
      using find_last_unescaped_iff [of s needle] by (cases "find_last_unescaped s needle") auto
  qed
  show ?thesis
    using first last find_first_unescaped_iff [OF assms, of s] find_last_unescaped_iff [of s needle] by blast
qed

theorem unescaped_scans_agree_witness:
  "(find_first_unescaped (lit ''a(b)'') c_lparen = None \<longleftrightarrow> find_last_unescaped (lit ''a(b)'') c_lparen = None) \<and>
    (\<forall>i. find_first_unescaped (lit ''a(b)'') c_lparen = Some i \<longleftrightarrow>
       unescaped_at (lit ''a(b)'') c_lparen i \<and> (\<forall>j < i. \<not> unescaped_at (lit ''a(b)'') c_lparen j)) \<and>
    (\<forall>i. find_last_unescaped (lit ''a(b)'') c_lparen = Some i \<longleftrightarrow>
       unescaped_at (lit ''a(b)'') c_lparen i \<and>
       (\<forall>j. i < j \<and> j < length (lit ''a(b)'') \<longrightarrow> \<not> unescaped_at (lit ''a(b)'') c_lparen j))"
  by (rule unescaped_scans_agree) simp

end
