(* ===== verification/Paths.thy ===== *)
theory Paths imports Prelude begin

text \<open>
  Paths: the lexical meaning against which boundary checks are measured, and the part of
  \<^verbatim>\<open>std::path\<close> (on Unix) that the modelled code uses, which compares paths component by component.
\<close>

section \<open>Lexical meaning\<close>

text \<open>
  The lexical meaning of a path: its components without empty ones and dots, and the directory it
  leads to when every double dot leaves the component before it.
\<close>

definition dotdot :: rstring where "dotdot = [46, 46]"

definition components :: "rstring \<Rightarrow> rstring list" where
  "components s = filter (\<lambda>c. c \<noteq> [] \<and> c \<noteq> [46]) (split_on (\<lambda>c. c = c_slash) s)"

fun resolve :: "rstring list \<Rightarrow> rstring list \<Rightarrow> rstring list" where
  "resolve done [] = done"
| "resolve done (c # cs) = resolve (if c = dotdot then butlast done else done @ [c]) cs"

lemma split_on_not_Nil [simp]: "split_on P s \<noteq> []"
  by (induction s) (auto split: list.splits)

lemma split_on_sep: "P d \<Longrightarrow> split_on P (a @ d # b) = split_on P a @ split_on P b"
  by (induction a) (auto split: list.splits simp: append_eq_Cons_conv)

lemma components_slash [simp]: "components (a @ c_slash # b) = components a @ components b"
  by (simp add: components_def split_on_sep)

lemma components_Nil [simp]: "components [] = []"
  by (simp add: components_def)

lemma components_slash_only [simp]: "components (c_slash # b) = components b"
  using components_slash [of "[]" b] by simp

lemma components_trailing_slash [simp]: "components (a @ [c_slash]) = components a"
  using components_slash [of a "[]"] by simp

lemma components_trim_end_slash: "components (trim_end_matches c_slash root) = components root"
  by (induction root rule: rev_induct) (simp_all add: trim_end_matches_def)

lemma resolve_no_dotdot: "dotdot \<notin> set cs \<Longrightarrow> resolve done cs = done @ cs"
  by (induction cs arbitrary: "done") auto

lemma resolve_append: "resolve done (cs @ ds) = resolve (resolve done cs) ds"
  by (induction cs arbitrary: "done") auto

section \<open>std::path\<close>

text \<open>
  \<^verbatim>\<open>Path::components\<close>: the root directory, a leading dot, and the named components.  Repeated and
  trailing separators and inner dots disappear; double dots are kept.
\<close>

definition path_components :: "rstring \<Rightarrow> rstring list" where
  "path_components s =
     (if starts_with s [c_slash] then [[c_slash]]
      else if hd (split_on (\<lambda>c. c = c_slash) s) = [46] then [[46]] else []) @ components s"

definition path_eq :: "rstring \<Rightarrow> rstring \<Rightarrow> bool" where
  "path_eq a b \<longleftrightarrow> path_components a = path_components b"

definition path_starts_with :: "rstring \<Rightarrow> rstring \<Rightarrow> bool" where
  "path_starts_with a b \<longleftrightarrow> prefix (path_components b) (path_components a)"

definition file_name :: "rstring \<Rightarrow> rstring option" where
  "file_name s = (case rev (path_components s) of
     [] \<Rightarrow> None
   | c # _ \<Rightarrow> if c = [c_slash] \<or> c = [46] \<or> c = dotdot then None else Some c)"

text \<open>\<^verbatim>\<open>Path::join\<close>: an absolute second path replaces the first.\<close>

definition path_join :: "rstring \<Rightarrow> rstring \<Rightarrow> rstring" where
  "path_join a b = (if starts_with b [c_slash] \<or> a = [] then b
     else if ends_with a [c_slash] then a @ b else a @ [c_slash] @ b)"

text \<open>
  \<^verbatim>\<open>Path::parent\<close>: the path before the last component and the separators and dots around it; there is none
  for the root and the empty path.  A leading dot is a component, as in \<^verbatim>\<open>path_components\<close>.
\<close>

definition path_parent :: "rstring \<Rightarrow> rstring option" where
  "path_parent s =
     (let pieces = enumerate 0 (split_on (\<lambda>c. c = c_slash) s);
          named = filter (\<lambda>(i, c). c \<noteq> [] \<and> (c \<noteq> [46] \<or> i = 0)) pieces
      in case rev named of
           [] \<Rightarrow> None
         | _ # [] \<Rightarrow> Some (if starts_with s [c_slash] then [c_slash] else [])
         | _ # (i, _) # _ \<Rightarrow> Some (join [c_slash] (take (i + 1) (map snd pieces))))"

text \<open>\<^verbatim>\<open>Path::extension\<close>: the name behind its last dot, unless that dot is its first char.\<close>

definition path_extension :: "rstring \<Rightarrow> rstring option" where
  "path_extension p = (case file_name p of
     None \<Rightarrow> None
   | Some name \<Rightarrow>
       (let after = rev (takeWhile (\<lambda>c. c \<noteq> 46) (rev name)); before = rev (dropWhile (\<lambda>c. c \<noteq> 46) (rev name))
        in if before = [] \<or> before = [46] then None else Some after))"

lemma components_join: "\<not> starts_with b [c_slash] \<Longrightarrow> components (path_join a b) = components a @ components b"
  by (auto simp: path_join_def ends_with_def suffix_def)

section \<open>The directories above a path\<close>

lemma length_join_sum: "length (join sep xs) = sum_list (map length xs) + (length xs - 1) * length sep"
  by (induction sep xs rule: join.induct) auto

lemma join_split_on: "join [c] (split_on (\<lambda>d. d = c) s) = s"
proof (induction s)
  case (Cons d s)
  then show ?case by (cases "split_on (\<lambda>d. d = c) s"; cases "tl (split_on (\<lambda>d. d = c) s)") auto
qed simp

lemma length_join_take:
  assumes "Suc k < length xs" and "sep \<noteq> []"
  shows "length (join sep (take (Suc k) xs)) < length (join sep xs)"
proof -
  have "sum_list (map length xs) = sum_list (map length (take (Suc k) xs)) + sum_list (map length (drop (Suc k) xs))"
    by (metis append_take_drop_id map_append sum_list_append)
  moreover obtain m where m: "m = (length xs - 1) * length sep" by simp
  moreover have "k * length sep < m"
    unfolding m using assms by (intro mult_less_mono1) (auto simp: less_diff_conv)
  moreover have "length (take (Suc k) xs) - 1 = k" using assms by simp
  ultimately show ?thesis unfolding length_join_sum m [symmetric] by simp
qed

lemma sorted_filter_enumerate: "sorted_wrt (<) (map fst (filter P (enumerate n xs)))"
  by (induction xs arbitrary: n) (auto simp: in_set_enumerate_eq)

lemma path_parent_shorter:
  assumes "path_parent p = Some q"
  shows "length q < length p"
proof -
  let ?ps = "split_on (\<lambda>c. c = c_slash) p"
  define named where "named = filter (\<lambda>(i, c). c \<noteq> [] \<and> (c \<noteq> [46] \<or> i = 0)) (enumerate 0 ?ps)"
  have parent: "path_parent p = (case rev named of [] \<Rightarrow> None
      | _ # [] \<Rightarrow> Some (if starts_with p [c_slash] then [c_slash] else [])
      | _ # (i, _) # _ \<Rightarrow> Some (join [c_slash] (take (i + 1) ?ps)))"
    unfolding path_parent_def named_def Let_def map_snd_enumerate ..
  have nonempty: "p \<noteq> [] \<and> p \<noteq> [c_slash]" if "rev named \<noteq> []" using that by (auto simp: named_def)
  show ?thesis
  proof (cases "rev named")
    case Nil
    then show ?thesis using assms parent by simp
  next
    case (Cons x rest)
    show ?thesis
    proof (cases rest)
      case Nil
      then show ?thesis using assms parent Cons nonempty by (cases p) (auto simp: starts_with_def split: if_splits)
    next
      case more: (Cons y zs)
      obtain i c j d where xy: "x = (j, d)" "y = (i, c)" by fastforce
      have eq: "named = rev zs @ [(i, c), (j, d)]" using Cons more by (simp add: xy rev_eq_Cons_iff)
      have "sorted_wrt (<) (map fst named)" unfolding named_def by (rule sorted_filter_enumerate)
      then have "i < j" by (simp add: eq sorted_wrt_append)
      moreover have "(j, d) \<in> set named" by (simp add: eq)
      then have "(j, d) \<in> set (enumerate 0 ?ps)" by (simp add: named_def)
      ultimately have "Suc i < length ?ps" by (simp add: in_set_enumerate_eq)
      then show ?thesis
        using assms parent Cons more length_join_take [of i ?ps "[c_slash]"] by (simp add: xy join_split_on)
    qed
  qed
qed

text \<open>A path and the directories above it, up to the root or the empty path.\<close>

function ancestors :: "rstring \<Rightarrow> rstring list" where
  "ancestors dir = dir # (case path_parent dir of None \<Rightarrow> [] | Some parent \<Rightarrow> ancestors parent)"
  by pat_completeness auto
termination by (relation "measure length") (auto simp: path_parent_shorter)

declare ancestors.simps [simp del]

lemma ancestors_self [simp]: "p \<in> set (ancestors p)"
  by (subst ancestors.simps) simp

lemma ancestors_trans: "q \<in> set (ancestors p) \<Longrightarrow> r \<in> set (ancestors q) \<Longrightarrow> r \<in> set (ancestors p)"
proof (induction p rule: ancestors.induct)
  case (1 p)
  from "1.prems"(1) consider "q = p" | parent where "path_parent p = Some parent" "q \<in> set (ancestors parent)"
    unfolding ancestors.simps [of p] by (cases "path_parent p") auto
  then show ?case
  proof cases
    case 2
    then have "r \<in> set (ancestors parent)" using "1.IH" "1.prems"(2) by blast
    then show ?thesis using 2(1) by (subst ancestors.simps) simp
  qed (use "1.prems" in simp)
qed

end
