(* ===== verification/Enforcer.thy ===== *)
theory Enforcer imports Permissions Paths begin

text \<open>
  The enforcement layer (\<^verbatim>\<open>crates/runtime/src/permission_enforcer.rs\<close>): \<^verbatim>\<open>check\<close> over the policy of
  \<open>Permissions\<close>, the workspace boundary for file writes and the read-only heuristic for shell
  commands, with the lexical meaning of paths against which the boundary is measured.
\<close>

datatype enforcement_result =
    Allowed
  | Denied (den_tool: rstring) (den_active_mode: rstring) (den_required_mode: rstring) (den_reason: rstring)

record permission_enforcer =
  enf_policy :: permission_policy

definition enforcer_check :: "serde_object \<Rightarrow> permission_enforcer \<Rightarrow> rstring \<Rightarrow> rstring \<Rightarrow> enforcement_result" where
  "enforcer_check serde e tool inp =
     (if active_mode (enf_policy e) = Mode_Prompt then Allowed
      else (case fst (authorize serde (enf_policy e) tool inp None) of
          Outcome_Allow \<Rightarrow> Allowed
        | Outcome_Deny reason \<Rightarrow>
            Denied tool (mode_as_str (active_mode (enf_policy e)))
              (mode_as_str (required_mode_for (enf_policy e) tool)) reason))"

definition is_allowed :: "serde_object \<Rightarrow> permission_enforcer \<Rightarrow> rstring \<Rightarrow> rstring \<Rightarrow> bool" where
  "is_allowed serde e tool inp \<longleftrightarrow> (case enforcer_check serde e tool inp of Allowed \<Rightarrow> True | _ \<Rightarrow> False)"

definition is_within_workspace :: "rstring \<Rightarrow> rstring \<Rightarrow> bool" where
  "is_within_workspace path workspace_root =
     (let normalized = (if starts_with path [c_slash] then path else workspace_root @ [c_slash] @ path);
          root = (if ends_with workspace_root [c_slash] then workspace_root else workspace_root @ [c_slash])
      in starts_with normalized root \<or> normalized = trim_end_matches c_slash workspace_root)"

definition check_file_write :: "permission_enforcer \<Rightarrow> rstring \<Rightarrow> rstring \<Rightarrow> enforcement_result" where
  "check_file_write e path workspace_root =
     (let mode = active_mode (enf_policy e) in
      case mode of
        Mode_ReadOnly \<Rightarrow> Denied (lit ''write_file'') (mode_as_str mode) (mode_as_str Mode_WorkspaceWrite)
          (lit ''file writes are not allowed in '' @ quoted (mode_as_str mode) @ lit '' mode'')
      | Mode_WorkspaceWrite \<Rightarrow>
          if is_within_workspace path workspace_root then Allowed
          else Denied (lit ''write_file'') (mode_as_str mode) (mode_as_str Mode_DangerFullAccess)
            (lit ''path '' @ quoted path @ lit '' is outside workspace root '' @ quoted workspace_root)
      | Mode_Allow \<Rightarrow> Allowed
      | Mode_DangerFullAccess \<Rightarrow> Allowed
      | Mode_Prompt \<Rightarrow> Denied (lit ''write_file'') (mode_as_str mode) (mode_as_str Mode_WorkspaceWrite)
          (lit ''file write requires confirmation in prompt mode''))"

definition read_only_commands :: "rstring list" where
  "read_only_commands = map lit
     [''cat'', ''head'', ''tail'', ''less'', ''more'', ''wc'', ''ls'', ''find'', ''grep'', ''rg'', ''awk'', ''sed'',
      ''echo'', ''printf'', ''which'', ''where'', ''whoami'', ''pwd'', ''env'', ''printenv'', ''date'', ''cal'',
      ''df'', ''du'', ''free'', ''uptime'', ''uname'', ''file'', ''stat'', ''diff'', ''sort'', ''uniq'', ''tr'',
      ''cut'', ''paste'', ''tee'', ''xargs'', ''test'', ''true'', ''false'', ''type'', ''readlink'', ''realpath'',
      ''basename'', ''dirname'', ''sha256sum'', ''md5sum'', ''b3sum'', ''xxd'', ''hexdump'', ''od'', ''strings'',
      ''tree'', ''jq'', ''yq'', ''python3'', ''python'', ''node'', ''ruby'', ''cargo'', ''rustc'', ''git'', ''gh'']"

definition first_token :: "rstring \<Rightarrow> rstring" where
  "first_token command =
     last (split_on (\<lambda>c. c = c_slash) (case split_whitespace command of [] \<Rightarrow> [] | w # _ \<Rightarrow> w))"

definition is_read_only_command :: "rstring \<Rightarrow> bool" where
  "is_read_only_command command \<longleftrightarrow>
     first_token command \<in> set read_only_commands \<and>
     \<not> str_contains command (lit ''-i '') \<and> \<not> str_contains command (lit ''--in-place'') \<and>
     \<not> str_contains command (lit '' > '') \<and> \<not> str_contains command (lit '' >> '')"

definition check_bash :: "permission_enforcer \<Rightarrow> rstring \<Rightarrow> enforcement_result" where
  "check_bash e command =
     (let mode = active_mode (enf_policy e) in
      case mode of
        Mode_ReadOnly \<Rightarrow>
          if is_read_only_command command then Allowed
          else Denied (lit ''bash'') (mode_as_str mode) (mode_as_str Mode_WorkspaceWrite)
            (lit ''command may modify state; not allowed in '' @ quoted (mode_as_str mode) @ lit '' mode'')
      | Mode_Prompt \<Rightarrow> Denied (lit ''bash'') (mode_as_str mode) (mode_as_str Mode_DangerFullAccess)
          (lit ''bash requires confirmation in prompt mode'')
      | _ \<Rightarrow> Allowed)"

section \<open>The meaning of the boundary\<close>

text \<open>The directory a write to \<open>path\<close> leads to, for a relative path below the root.\<close>

definition target_of :: "rstring \<Rightarrow> rstring \<Rightarrow> rstring list" where
  "target_of path root =
     resolve [] (if starts_with path [c_slash] then components path else components root @ components path)"

lemma within_workspace_components:
  assumes "is_within_workspace path root"
  shows "\<exists>rest. (if starts_with path [c_slash] then components path else components root @ components path)
    = components root @ rest"
proof (cases "starts_with path [c_slash]")
  case True
  show ?thesis
  proof (cases "path = trim_end_matches c_slash root")
    case True
    then show ?thesis using components_trim_end_slash [of root] by auto
  next
    case False
    with True assms obtain r rest where "path = r @ rest" "r = root @ [c_slash] \<or> r = root \<and> ends_with root [c_slash]"
      by (auto simp: is_within_workspace_def Let_def starts_with_def prefix_def split: if_splits)
    then show ?thesis using True
      by (auto simp: ends_with_def suffix_def)
  qed
next
  case False
  then show ?thesis by simp
qed

section \<open>Properties\<close>

text \<open>
  C18: in workspace-write mode a permitted write whose path and root have no double-dot component stays
  in the workspace: its target lies below the root, component by component (so a sibling directory
  whose name merely extends the root's name is refused).
\<close>
theorem file_write_stays_inside:
  assumes "active_mode (enf_policy e) = Mode_WorkspaceWrite"
    and "check_file_write e path root = Allowed"
    and "dotdot \<notin> set (components path)" and "dotdot \<notin> set (components root)"
  shows "prefix (components root) (target_of path root)"
proof -
  have "is_within_workspace path root"
    using assms(1,2) by (simp add: check_file_write_def split: if_splits)
  with within_workspace_components obtain rest
    where rest: "(if starts_with path [c_slash] then components path else components root @ components path)
      = components root @ rest" by blast
  have "dotdot \<notin> set (components root @ rest)"
    unfolding rest [symmetric] using assms(3,4) by simp
  then show ?thesis by (simp add: target_of_def rest resolve_no_dotdot)
qed

theorem file_write_stays_inside_witness:
  "prefix (components (lit ''/ws'')) (target_of (lit ''/ws/a'') (lit ''/ws''))"
proof (rule file_write_stays_inside [where e = "\<lparr>enf_policy = policy_new Mode_WorkspaceWrite\<rparr>"])
  show "check_file_write \<lparr>enf_policy = policy_new Mode_WorkspaceWrite\<rparr> (lit ''/ws/a'') (lit ''/ws'') = Allowed"
    by (simp add: check_file_write_def policy_new_def is_within_workspace_def str_defs suffix_def)
qed (simp_all add: policy_new_def components_def dotdot_def lit_def)

text \<open>
  the boundary is compared as text, before double dots are resolved: in workspace-write mode a write
  to \<^verbatim>\<open>root/../x\<close> is allowed for every \<^verbatim>\<open>x\<close>, and it leads outside, to \<^verbatim>\<open>x\<close> in the root's parent directory.
\<close>
theorem file_write_dotdot_escapes:
  assumes "active_mode (enf_policy e) = Mode_WorkspaceWrite"
    and "starts_with root [c_slash]" and "\<not> ends_with root [c_slash]"
    and "dotdot \<notin> set (components root)" and "dotdot \<notin> set (components x)"
  shows "check_file_write e (root @ lit ''/../'' @ x) root = Allowed \<and>
    target_of (root @ lit ''/../'' @ x) root = butlast (components root) @ components x"
proof -
  have up: "root @ lit ''/../'' @ x = root @ c_slash # (dotdot @ c_slash # x)"
    by (simp add: lit_def dotdot_def)
  have start: "starts_with (root @ c_slash # s) [c_slash]" for s
    using assms(2) by (cases root) (simp_all add: starts_with_def)
  have "is_within_workspace (root @ c_slash # (dotdot @ c_slash # x)) root"
    unfolding is_within_workspace_def Let_def using assms(3) start by (simp add: starts_with_def)
  moreover have "components dotdot = [dotdot]" by (simp add: components_def dotdot_def)
  then have "target_of (root @ c_slash # (dotdot @ c_slash # x)) root = butlast (components root) @ components x"
    using assms(4,5) by (simp add: target_of_def start resolve_append resolve_no_dotdot)
  ultimately show ?thesis using assms(1) unfolding up by (simp add: check_file_write_def)
qed

theorem file_write_dotdot_escapes_witness:
  "check_file_write \<lparr>enf_policy = policy_new Mode_WorkspaceWrite\<rparr> (lit ''/ws'' @ lit ''/../'' @ lit ''etc/passwd'') (lit ''/ws'') = Allowed \<and>
   target_of (lit ''/ws'' @ lit ''/../'' @ lit ''etc/passwd'') (lit ''/ws'')
     = butlast (components (lit ''/ws'')) @ components (lit ''etc/passwd'')"
  by (rule file_write_dotdot_escapes)
    (simp_all add: policy_new_def str_defs suffix_def components_def dotdot_def Cons_eq_append_conv)

text \<open>
  \<^verbatim>\<open>check\<close> follows the policy's static contract in every mode but \<^verbatim>\<open>Prompt\<close>, where it lets every call
  pass, deny rules included; a refusal names the tool and the two modes.
\<close>
theorem enforcer_check_contract:
  "(is_allowed serde e tool inp \<longleftrightarrow>
      active_mode (enf_policy e) = Mode_Prompt \<or> statically_permitted serde (enf_policy e) tool inp default_context) \<and>
   (case enforcer_check serde e tool inp of
      Allowed \<Rightarrow> True
    | Denied t a r _ \<Rightarrow> t = tool \<and> a = mode_as_str (active_mode (enf_policy e)) \<and>
        r = mode_as_str (required_mode_for (enf_policy e) tool))"
  using authorize_without_prompter [of serde "enf_policy e" tool inp default_context]
  by (auto simp: is_allowed_def enforcer_check_def authorize_def split: permission_outcome.splits)

text \<open>
  the read-only heuristic for shell commands lets commands that write pass in read-only mode: \<^verbatim>\<open>tee\<close>
  to a file, a redirection without blanks around it, and running a program through \<^verbatim>\<open>python3\<close> or \<^verbatim>\<open>git\<close>.
\<close>
theorem read_only_mode_allows_writes:
  "check_bash \<lparr>enf_policy = policy_new Mode_ReadOnly\<rparr> (lit ''tee out.txt'') = Allowed \<and>
   check_bash \<lparr>enf_policy = policy_new Mode_ReadOnly\<rparr> (lit ''cat a >b'') = Allowed \<and>
   check_bash \<lparr>enf_policy = policy_new Mode_ReadOnly\<rparr> (lit ''python3 -c 1'') = Allowed \<and>
   check_bash \<lparr>enf_policy = policy_new Mode_ReadOnly\<rparr> (lit ''git push'') = Allowed"
  by (simp add: check_bash_def policy_new_def is_read_only_command_def first_token_def read_only_commands_def str_defs)

end
