(* ===== verification/PolicyEngine.thy ===== *)
theory PolicyEngine imports Prelude "HOL-Library.Multiset" begin

text \<open>
  The green contract (\<^verbatim>\<open>crates/runtime/src/green_contract.rs\<close>) and the lane policy engine
  (\<^verbatim>\<open>crates/runtime/src/policy_engine.rs\<close>): conditions, actions, the stable sort by priority and the
  evaluation of the rules in that order.

  Both files have a type \<^verbatim>\<open>GreenLevel\<close>: an enum in the contract and a \<^verbatim>\<open>u8\<close> in the engine.  A
  \<^verbatim>\<open>Duration\<close> is a number of nanoseconds; priorities and levels are words of their width.
\<close>

section \<open>The green contract\<close>

datatype green_level = TargetedTests | Package | Workspace | MergeReady

text \<open>The derived order: the order in which the levels are declared.\<close>

fun level_rank :: "green_level \<Rightarrow> nat" where
  "level_rank TargetedTests = 0"
| "level_rank Package = 1"
| "level_rank Workspace = 2"
| "level_rank MergeReady = 3"

lemma level_rank_inject [simp]: "level_rank a = level_rank b \<longleftrightarrow> a = b"
  by (cases a; cases b) simp_all

instantiation green_level :: linorder
begin

definition less_eq_green_level :: "green_level \<Rightarrow> green_level \<Rightarrow> bool" where
  "less_eq_green_level a b \<longleftrightarrow> level_rank a \<le> level_rank b"

definition less_green_level :: "green_level \<Rightarrow> green_level \<Rightarrow> bool" where
  "less_green_level a b \<longleftrightarrow> level_rank a < level_rank b"

instance
  by standard (auto simp: less_eq_green_level_def less_green_level_def)

end

fun green_as_str :: "green_level \<Rightarrow> rstring" where
  "green_as_str TargetedTests = lit ''targeted_tests''"
| "green_as_str Package = lit ''package''"
| "green_as_str Workspace = lit ''workspace''"
| "green_as_str MergeReady = lit ''merge_ready''"

record green_contract =
  required_level :: green_level

datatype green_outcome =
    Satisfied green_level green_level
  | Unsatisfied green_level "green_level option"

definition green_evaluate :: "green_contract \<Rightarrow> green_level option \<Rightarrow> green_outcome" where
  "green_evaluate c observed = (case observed of
     Some level \<Rightarrow>
       if required_level c \<le> level then Satisfied (required_level c) level
       else Unsatisfied (required_level c) observed
   | None \<Rightarrow> Unsatisfied (required_level c) observed)"

definition is_satisfied_by :: "green_contract \<Rightarrow> green_level \<Rightarrow> bool" where
  "is_satisfied_by c observed \<longleftrightarrow> required_level c \<le> observed"

fun is_satisfied :: "green_outcome \<Rightarrow> bool" where
  "is_satisfied (Satisfied _ _) \<longleftrightarrow> True"
| "is_satisfied (Unsatisfied _ _) \<longleftrightarrow> False"

section \<open>The policy engine\<close>

type_synonym duration = nat

definition from_secs :: "nat \<Rightarrow> duration" where
  "from_secs s = s * 1000000000"

definition stale_branch_threshold :: duration where
  "stale_branch_threshold = from_secs (60 * 60)"

datatype lane_blocker = Blocker_None | Blocker_Startup | Blocker_External
datatype review_status = Review_Pending | Review_Approved | Review_Rejected
datatype diff_scope = Scope_Full | Scope_Scoped

record lane_context =
  lane_id :: rstring
  green :: "8 word"
  branch_freshness :: duration
  blocker :: lane_blocker
  review :: review_status
  scope :: diff_scope
  completed :: bool
  reconciled :: bool

definition lane_new ::
    "rstring \<Rightarrow> 8 word \<Rightarrow> duration \<Rightarrow> lane_blocker \<Rightarrow> review_status \<Rightarrow> diff_scope \<Rightarrow> bool \<Rightarrow> lane_context" where
  "lane_new i g f b r d c = \<lparr>lane_id = i, green = g, branch_freshness = f, blocker = b, review = r, scope = d,
     completed = c, reconciled = False\<rparr>"

definition lane_reconciled :: "rstring \<Rightarrow> lane_context" where
  "lane_reconciled i = \<lparr>lane_id = i, green = 0, branch_freshness = from_secs 0, blocker = Blocker_None,
     review = Review_Pending, scope = Scope_Full, completed = True, reconciled = True\<rparr>"

datatype policy_condition =
    And "policy_condition list"
  | Or "policy_condition list"
  | GreenAt "8 word"
  | StaleBranch
  | StartupBlocked
  | LaneCompleted
  | LaneReconciled
  | ReviewPassed
  | ScopedDiff
  | TimedOut duration

fun condition_matches :: "policy_condition \<Rightarrow> lane_context \<Rightarrow> bool" where
  "condition_matches (And cs) c \<longleftrightarrow> list_all (\<lambda>x. condition_matches x c) cs"
| "condition_matches (Or cs) c \<longleftrightarrow> list_ex (\<lambda>x. condition_matches x c) cs"
| "condition_matches (GreenAt level) c \<longleftrightarrow> level \<le> green c"
| "condition_matches StaleBranch c \<longleftrightarrow> stale_branch_threshold \<le> branch_freshness c"
| "condition_matches StartupBlocked c \<longleftrightarrow> blocker c = Blocker_Startup"
| "condition_matches LaneCompleted c \<longleftrightarrow> completed c"
| "condition_matches LaneReconciled c \<longleftrightarrow> reconciled c"
| "condition_matches ReviewPassed c \<longleftrightarrow> review c = Review_Approved"
| "condition_matches ScopedDiff c \<longleftrightarrow> scope c = Scope_Scoped"
| "condition_matches (TimedOut d) c \<longleftrightarrow> d \<le> branch_freshness c"

datatype reconcile_reason = AlreadyMerged | Superseded | EmptyDiff | ManualClose

datatype policy_action =
    MergeToDev
  | MergeForward
  | RecoverOnce
  | Escalate rstring
  | CloseoutLane
  | CleanupSession
  | Reconcile reconcile_reason
  | Notify rstring
  | Block rstring
  | Chain "policy_action list"

fun flatten_into :: "policy_action \<Rightarrow> policy_action list \<Rightarrow> policy_action list" where
  "flatten_into (Chain chained) actions = fold flatten_into chained actions"
| "flatten_into a actions = actions @ [a]"

record policy_rule =
  rule_name :: rstring
  rule_condition :: policy_condition
  rule_action :: policy_action
  priority :: u32

definition policy_rule_matches :: "policy_rule \<Rightarrow> lane_context \<Rightarrow> bool" where
  "policy_rule_matches r c = condition_matches (rule_condition r) c"

record policy_engine =
  rules :: "policy_rule list"

text \<open>\<^verbatim>\<open>sort_by_key\<close> is stable, as \<open>sort_key\<close> is.\<close>

definition engine_new :: "policy_rule list \<Rightarrow> policy_engine" where
  "engine_new rs = \<lparr>rules = sort_key priority rs\<rparr>"

definition evaluate :: "policy_engine \<Rightarrow> lane_context \<Rightarrow> policy_action list" where
  "evaluate e c =
     fold (\<lambda>r actions. if policy_rule_matches r c then flatten_into (rule_action r) actions else actions) (rules e) []"

section \<open>Flattening\<close>

text \<open>The actions a rule stands for: the leaves of its chain, left to right.\<close>

fun leaves :: "policy_action \<Rightarrow> policy_action list" where
  "leaves (Chain as) = concat (map leaves as)"
| "leaves a = [a]"

lemma flatten_into_leaves: "flatten_into a acc = acc @ leaves a"
proof (induction a arbitrary: acc)
  case (Chain as)
  have "(\<And>x. x \<in> set xs \<Longrightarrow> x \<in> set as) \<Longrightarrow> fold flatten_into xs acc = acc @ concat (map leaves xs)" for xs
    using Chain.IH by (induction xs arbitrary: acc) auto
  then show ?case by simp
qed simp_all

lemma leaves_no_chain: "x \<in> set (leaves a) \<Longrightarrow> \<forall>as. x \<noteq> Chain as"
  by (induction a) auto

lemma evaluate_leaves:
  "evaluate e c = concat (map (leaves \<circ> rule_action) (filter (\<lambda>r. policy_rule_matches r c) (rules e)))"
proof -
  have "fold (\<lambda>r actions. if policy_rule_matches r c then flatten_into (rule_action r) actions else actions) rs acc
      = acc @ concat (map (leaves \<circ> rule_action) (filter (\<lambda>r. policy_rule_matches r c) rs))" for rs acc
    by (induction rs arbitrary: acc) (auto simp: flatten_into_leaves)
  then show ?thesis by (simp add: evaluate_def)
qed

section \<open>Properties\<close>

text \<open>
  construction keeps exactly the given rules, puts them in ascending priority, and leaves rules of
  equal priority in the order in which they were given.
\<close>
theorem engine_new_sorts_stably:
  "mset (rules (engine_new rs)) = mset rs \<and> sorted (map priority (rules (engine_new rs))) \<and>
   (\<forall>k. filter (\<lambda>r. priority r = k) (rules (engine_new rs)) = filter (\<lambda>r. priority r = k) rs)"
  by (simp add: engine_new_def sort_key_stable)

text \<open>
  C30: evaluation returns the actions of exactly the matching rules, rule by rule in the engine's order,
  with every chain replaced by its leaves from left to right; no chain is left in the result.
\<close>
theorem evaluate_spec:
  "evaluate e c = concat (map (leaves \<circ> rule_action) (filter (\<lambda>r. policy_rule_matches r c) (rules e))) \<and>
   (\<forall>as. Chain as \<notin> set (evaluate e c))"
  using leaves_no_chain by (fastforce simp: evaluate_leaves)

text \<open>
  conditions have no negation, so they are monotone in a lane's progress: when a lane gets greener,
  older, and gains any of the positive facts, every condition that held still holds.
\<close>
theorem condition_monotone:
  assumes "green c \<le> green d" and "branch_freshness c \<le> branch_freshness d"
    and "blocker c = Blocker_Startup \<longrightarrow> blocker d = Blocker_Startup"
    and "completed c \<longrightarrow> completed d" and "reconciled c \<longrightarrow> reconciled d"
    and "review c = Review_Approved \<longrightarrow> review d = Review_Approved"
    and "scope c = Scope_Scoped \<longrightarrow> scope d = Scope_Scoped"
    and "condition_matches p c"
  shows "condition_matches p d"
  using assms(8)
proof (induction p)
  case (GreenAt x)
  then show ?case using assms(1) by (simp add: order.trans)
qed (use assms(2-7) in \<open>auto simp: list_all_iff list_ex_iff intro: order.trans\<close>)

theorem condition_monotone_witness:
  "condition_matches (And [GreenAt 1, StaleBranch]) (lane_reconciled [] \<lparr>green := 3, branch_freshness := from_secs 7200\<rparr>)"
  by (rule condition_monotone [where c = "lane_reconciled [] \<lparr>green := 1, branch_freshness := from_secs 3600\<rparr>"])
    (simp_all add: lane_reconciled_def from_secs_def stale_branch_threshold_def word_le_nat_alt)

text \<open>
  the green contract is satisfied exactly when a level was observed and reaches the required one, and
  a higher observation never loses it.
\<close>
theorem green_contract_meaning:
  "(is_satisfied (green_evaluate c observed) \<longleftrightarrow> (\<exists>l. observed = Some l \<and> is_satisfied_by c l)) \<and>
   (\<forall>l m. l \<le> m \<longrightarrow> is_satisfied (green_evaluate c (Some l)) \<longrightarrow> is_satisfied (green_evaluate c (Some m)))"
  by (auto simp: green_evaluate_def is_satisfied_by_def split: option.splits)

theorem green_contract_meaning_witness:
  "(is_satisfied (green_evaluate \<lparr>required_level = Package\<rparr> (Some Workspace)) \<longleftrightarrow>
      (\<exists>l. Some Workspace = Some l \<and> is_satisfied_by \<lparr>required_level = Package\<rparr> l)) \<and>
   (\<forall>l m. l \<le> m \<longrightarrow> is_satisfied (green_evaluate \<lparr>required_level = Package\<rparr> (Some l)) \<longrightarrow>
      is_satisfied (green_evaluate \<lparr>required_level = Package\<rparr> (Some m)))"
  by (rule green_contract_meaning)

end
