(* ===== verification/Registry.thy ===== *)
theory Registry imports Prelude begin

text \<open>
  The in-memory registries of the runtime (workers, tasks, teams, cron entries) have the same inner
  structure: a \<^verbatim>\<open>HashMap\<close> from generated ids to entries and a \<^verbatim>\<open>u64\<close> counter behind a mutex.  This
  theory holds that structure, the id scheme, the two access patterns (insert a new entry, change an
  entry found by id) and the contract of an id scheme as a locale, in which freshness and the
  registry invariant are proved once.

  Each operation runs under the mutex, so an operation is one atomic step.  \<^verbatim>\<open>counter += 1\<close> wraps in
  the release profile; the freshness lemmas carry the hypothesis that it has not.  \<open>now i\<close> is the
  i-th reading of the clock within the operation.
\<close>

record 'a registry =
  entries :: "(rstring \<times> 'a) list"
  counter :: u64

type_synonym clock = "nat \<Rightarrow> u64"

definition registry_new :: "'a registry" where
  "registry_new = \<lparr>entries = [], counter = 0\<rparr>"

definition reg_get :: "'a registry \<Rightarrow> rstring \<Rightarrow> 'a option" where
  "reg_get r i = map_of (entries r) i"

definition reg_insert :: "rstring \<Rightarrow> 'a \<Rightarrow> 'a registry \<Rightarrow> 'a registry" where
  "reg_insert i x r = r\<lparr>entries := AList.update i x (entries r)\<rparr>"

definition reg_delete :: "rstring \<Rightarrow> 'a registry \<Rightarrow> 'a registry" where
  "reg_delete i r = r\<lparr>entries := AList.delete i (entries r)\<rparr>"

text \<open>
  \<^verbatim>\<open>get_mut(id).ok_or_else(..)?\<close> followed by the rest of the method on the entry found: an error of
  the method leaves the entry as it was.
\<close>

definition reg_modify ::
    "rstring \<Rightarrow> rstring \<Rightarrow> ('a \<Rightarrow> rstring + 'a) \<Rightarrow> 'a registry \<Rightarrow> (rstring + 'a) \<times> 'a registry" where
  "reg_modify missing i f r = (case reg_get r i of
     None \<Rightarrow> (Inl missing, r)
   | Some x \<Rightarrow> (case f x of
       Inl e \<Rightarrow> (Inl e, r)
     | Inr y \<Rightarrow> (Inr y, reg_insert i y r)))"

text \<open>The format \<^verbatim>\<open>{prefix}{:08x}_{}\<close> of the generated ids.\<close>

definition make_id :: "rstring \<Rightarrow> u64 \<Rightarrow> u64 \<Rightarrow> rstring" where
  "make_id pre ts n = pre @ show_hex08 (unat ts) @ lit ''_'' @ show_nat (unat n)"

section \<open>Laws of the store\<close>

lemma reg_get_insert [simp]: "reg_get (reg_insert i x r) j = (if j = i then Some x else reg_get r j)"
  by (simp add: reg_get_def reg_insert_def update_conv')

lemma reg_get_delete [simp]: "reg_get (reg_delete i r) j = (if j = i then None else reg_get r j)"
  by (simp add: reg_get_def reg_delete_def delete_conv' map_of_delete)

lemma counter_insert [simp]: "counter (reg_insert i x r) = counter r"
  by (simp add: reg_insert_def)

lemma counter_delete [simp]: "counter (reg_delete i r) = counter r"
  by (simp add: reg_delete_def)

lemma registry_counter_get [simp]: "reg_get (r\<lparr>counter := c\<rparr>) i = reg_get r i"
  by (simp add: reg_get_def)

lemma reg_get_new [simp]: "reg_get registry_new i = None"
  by (simp add: reg_get_def registry_new_def)

definition reg_ids :: "'a registry \<Rightarrow> rstring set" where
  "reg_ids r = fst ` set (entries r)"

lemma reg_ids_insert [simp]: "reg_ids (reg_insert i x r) = insert i (reg_ids r)"
  by (auto simp: reg_ids_def reg_insert_def dom_update)

lemma reg_ids_delete [simp]: "reg_ids (reg_delete i r) = reg_ids r - {i}"
  by (force simp: reg_ids_def reg_delete_def AList.delete_eq)

lemma reg_get_None_iff: "reg_get r i = None \<longleftrightarrow> i \<notin> reg_ids r"
  by (simp add: reg_get_def reg_ids_def map_of_eq_None_iff)

lemma reg_modify_error:
  "reg_modify m i f r = (Inl e, r') \<Longrightarrow> r' = r"
  by (auto simp: reg_modify_def split: option.splits sum.splits)

lemma reg_modify_ok:
  "reg_modify m i f r = (Inr y, r') \<longleftrightarrow> (\<exists>x. reg_get r i = Some x \<and> f x = Inr y \<and> r' = reg_insert i y r)"
  by (auto simp: reg_modify_def split: option.splits sum.splits)

lemma counter_modify [simp]: "counter (snd (reg_modify m i f r)) = counter r"
  by (auto simp: reg_modify_def split: option.splits sum.splits)

lemma reg_ids_modify [simp]: "reg_ids (snd (reg_modify m i f r)) = reg_ids r"
proof -
  have "i \<in> reg_ids r" if "reg_get r i = Some x" for x
    using that reg_get_None_iff [of r i] by auto
  then show ?thesis by (auto simp: reg_modify_def split: option.splits sum.splits)
qed

lemma reg_get_modify_other: "j \<noteq> i \<Longrightarrow> reg_get (snd (reg_modify m i f r)) j = reg_get r j"
  by (auto simp: reg_modify_def split: option.splits sum.splits)

definition distinct_ids :: "'a registry \<Rightarrow> bool" where
  "distinct_ids r \<longleftrightarrow> distinct (map fst (entries r))"

lemma distinct_ids_new [simp]: "distinct_ids registry_new"
  by (simp add: distinct_ids_def registry_new_def)

lemma distinct_ids_insert [simp]: "distinct_ids r \<Longrightarrow> distinct_ids (reg_insert i x r)"
  by (simp add: distinct_ids_def reg_insert_def distinct_update)

lemma distinct_ids_delete [simp]: "distinct_ids r \<Longrightarrow> distinct_ids (reg_delete i r)"
  by (simp add: distinct_ids_def reg_delete_def distinct_delete)

lemma distinct_ids_modify [simp]: "distinct_ids r \<Longrightarrow> distinct_ids (snd (reg_modify m i f r))"
  by (auto simp: reg_modify_def split: option.splits sum.splits)

lemma make_id_inject: "make_id pre t m = make_id pre u n \<Longrightarrow> m = n"
proof -
  assume eq: "make_id pre t m = make_id pre u n"
  have tail: "takeWhile is_ascii_digit (rev (make_id pre v k)) = rev (show_nat (unat k))" for v k :: u64
  proof -
    let ?ds = "rev (show_nat (unat k))"
    have "rev (make_id pre v k) = ?ds @ 95 # rev (show_hex08 (unat v)) @ rev pre"
      by (simp add: make_id_def lit_def)
    moreover have "takeWhile is_ascii_digit (?ds @ 95 # rev (show_hex08 (unat v)) @ rev pre) =
        ?ds @ takeWhile is_ascii_digit (95 # rev (show_hex08 (unat v)) @ rev pre)"
      by (rule takeWhile_append2) (use show_nat_digits [of "unat k"] in auto)
    ultimately show ?thesis by (simp add: is_ascii_digit_def [of 95])
  qed
  from eq tail [of t m] tail [of u n] have "unat m = unat n" by simp
  then show "m = n" by (rule word_unat_eq_iff [THEN iffD2])
qed

section \<open>The contract of an id scheme\<close>

locale id_scheme =
  fixes new_id :: "u64 \<Rightarrow> u64 \<Rightarrow> rstring"
  assumes counter_determined: "new_id t m = new_id u n \<Longrightarrow> m = n"
begin

text \<open>Every id in use was made from a counter value that the registry has already passed.\<close>

definition ids_issued :: "'a registry \<Rightarrow> bool" where
  "ids_issued r \<longleftrightarrow> distinct_ids r \<and> (\<forall>i \<in> reg_ids r. \<exists>t n. i = new_id t n \<and> n \<le> counter r)"

lemma ids_issued_new: "ids_issued registry_new"
  by (simp add: ids_issued_def reg_ids_def registry_new_def distinct_ids_def)

lemma next_id_fresh:
  assumes "ids_issued r" and "counter r < counter r + 1"
  shows "new_id t (counter r + 1) \<notin> reg_ids r"
proof
  assume "new_id t (counter r + 1) \<in> reg_ids r"
  with assms(1) obtain u n where "new_id t (counter r + 1) = new_id u n" "n \<le> counter r"
    by (auto simp: ids_issued_def)
  then have "counter r + 1 \<le> counter r" using counter_determined by blast
  with assms(2) show False by simp
qed

lemma ids_issued_create:
  assumes "ids_issued r" and "counter r < counter r + 1"
  shows "ids_issued (reg_insert (new_id t (counter r + 1)) x (r\<lparr>counter := counter r + 1\<rparr>))"
proof -
  have "reg_ids (r\<lparr>counter := c\<rparr>) = reg_ids r" "distinct_ids (r\<lparr>counter := c\<rparr>) = distinct_ids r" for c
    by (simp_all add: reg_ids_def distinct_ids_def)
  with assms show ?thesis
    by (fastforce simp: ids_issued_def intro: order.trans less_imp_le)
qed

lemma ids_issued_modify: "ids_issued r \<Longrightarrow> ids_issued (snd (reg_modify m i f r))"
  by (simp add: ids_issued_def)

lemma ids_issued_delete: "ids_issued r \<Longrightarrow> ids_issued (reg_delete i r)"
  by (simp add: ids_issued_def)

end

text \<open>A store whose entries know their own id, as all entries of the registries do.\<close>

locale keyed_store = id_scheme new_id for new_id :: "u64 \<Rightarrow> u64 \<Rightarrow> rstring" +
  fixes key_of :: "'a \<Rightarrow> rstring"
begin

definition keyed :: "'a registry \<Rightarrow> bool" where
  "keyed r \<longleftrightarrow> ids_issued r \<and> (\<forall>i x. reg_get r i = Some x \<longrightarrow> key_of x = i)"

lemma keyed_new: "keyed registry_new"
  by (simp add: keyed_def ids_issued_new)

lemma keyed_create:
  assumes "keyed r" and "counter r < counter r + 1" and "key_of x = new_id t (counter r + 1)"
  shows "keyed (reg_insert (new_id t (counter r + 1)) x (r\<lparr>counter := counter r + 1\<rparr>))"
  using assms by (simp add: keyed_def ids_issued_create)

lemma keyed_modify:
  assumes "keyed r" and "\<And>x y. f x = Inr y \<Longrightarrow> key_of y = key_of x"
  shows "keyed (snd (reg_modify m i f r))"
proof -
  have "key_of x = j" if "reg_get (snd (reg_modify m i f r)) j = Some x" for j x
    using that assms
    by (cases "j = i") (auto simp: keyed_def reg_modify_def split: option.splits sum.splits if_splits)
  with assms(1) show ?thesis by (simp add: keyed_def ids_issued_modify)
qed

lemma keyed_delete: "keyed r \<Longrightarrow> keyed (reg_delete i r)"
  by (simp add: keyed_def ids_issued_delete)

lemma create_fresh:
  "keyed r \<Longrightarrow> counter r < counter r + 1 \<Longrightarrow> reg_get r (new_id t (counter r + 1)) = None"
  by (simp add: keyed_def next_id_fresh reg_get_None_iff)

end

section \<open>Invariants of step relations\<close>

locale step_invariant =
  fixes init :: "'s \<Rightarrow> bool" and step :: "'s \<Rightarrow> 's \<Rightarrow> bool" and inv :: "'s \<Rightarrow> bool"
  assumes init_inv: "init s \<Longrightarrow> inv s"
    and step_inv: "step s t \<Longrightarrow> inv s \<Longrightarrow> inv t"
begin

lemma steps_inv: "step\<^sup>*\<^sup>* s t \<Longrightarrow> inv s \<Longrightarrow> inv t"
  by (induction rule: rtranclp_induct) (auto intro: step_inv)

lemma reachable_inv: "init s \<Longrightarrow> step\<^sup>*\<^sup>* s t \<Longrightarrow> inv t"
  by (blast intro: steps_inv init_inv)

end

end
