(* ===== verification/WorkerBoot.thy ===== *)
theory WorkerBoot imports Registry Paths begin

text \<open>
  The worker boot state machine (\<^verbatim>\<open>crates/runtime/src/worker_boot.rs\<close>): detection of trust prompts,
  ready cues and misdelivered prompts on a terminal screen, and the control operations of the worker
  registry.  Each operation is a function on the worker, which the registry operation applies to the
  entry found under the id; an error leaves the worker as it was.

  Parameters: \<open>canon\<close> is \<^verbatim>\<open>std::fs::canonicalize\<close> (\<open>None\<close> when it fails), \<open>now i\<close> the i-th reading of
  the clock within the operation.
\<close>

section \<open>Data\<close>

datatype worker_status = Spawning | TrustRequired | ReadyForPrompt | Running | Finished | Failed

fun show_worker_status :: "worker_status \<Rightarrow> rstring" where
  "show_worker_status Spawning = lit ''spawning''"
| "show_worker_status TrustRequired = lit ''trust_required''"
| "show_worker_status ReadyForPrompt = lit ''ready_for_prompt''"
| "show_worker_status Running = lit ''running''"
| "show_worker_status Finished = lit ''finished''"
| "show_worker_status Failed = lit ''failed''"

datatype worker_failure_kind = TrustGate | PromptDelivery | Protocol | Provider

record worker_failure =
  failure_kind :: worker_failure_kind
  failure_message :: rstring
  failure_created_at :: u64

datatype worker_event_kind =
    Ev_Spawning | Ev_TrustRequired | Ev_TrustResolved | Ev_ReadyForPrompt | Ev_PromptMisdelivery
  | Ev_PromptReplayArmed | Ev_Running | Ev_Restarted | Ev_Finished | Ev_Failed

datatype worker_trust_resolution = AutoAllowlisted | ManualApproval

datatype worker_prompt_target = Target_Shell | Target_Wrong | Target_Unknown

datatype worker_event_payload =
    Payload_TrustPrompt rstring "worker_trust_resolution option"
  | Payload_PromptDelivery rstring worker_prompt_target "rstring option" bool

record worker_event =
  ev_seq :: u64
  ev_kind :: worker_event_kind
  ev_status :: worker_status
  ev_detail :: "rstring option"
  ev_payload :: "worker_event_payload option"
  ev_timestamp :: u64

record worker =
  worker_id :: rstring
  worker_cwd :: rstring
  worker_status :: worker_status
  trust_auto_resolve :: bool
  trust_gate_cleared :: bool
  auto_recover_prompt_misdelivery :: bool
  prompt_delivery_attempts :: u32
  prompt_in_flight :: bool
  last_prompt :: "rstring option"
  replay_prompt :: "rstring option"
  last_error :: "worker_failure option"
  created_at :: u64
  updated_at :: u64
  events :: "worker_event list"

type_synonym worker_registry = "worker registry"
type_synonym canonicalize = "rstring \<Rightarrow> rstring option"

definition push_event ::
    "u64 \<Rightarrow> worker_event_kind \<Rightarrow> worker_status \<Rightarrow> rstring option \<Rightarrow> worker_event_payload option \<Rightarrow> worker \<Rightarrow> worker" where
  "push_event timestamp kind status detail payload w =
     w\<lparr>updated_at := timestamp,
       events := events w @ [\<lparr>ev_seq = of_nat (length (events w)) + 1, ev_kind = kind, ev_status = status,
         ev_detail = detail, ev_payload = payload, ev_timestamp = timestamp\<rparr>]\<rparr>"

section \<open>Reading the screen\<close>

definition any_contained :: "rstring \<Rightarrow> string list \<Rightarrow> bool" where
  "any_contained lowered needles \<longleftrightarrow> list_ex (\<lambda>needle. str_contains lowered (lit needle)) needles"

definition detect_trust_prompt :: "rstring \<Rightarrow> bool" where
  "detect_trust_prompt lowered = any_contained lowered
     [''do you trust the files in this folder'', ''trust the files in this folder'', ''trust this folder'',
      ''allow and continue'', ''yes, proceed'']"

definition is_shell_prompt :: "rstring \<Rightarrow> bool" where
  "is_shell_prompt trimmed \<longleftrightarrow>
     ends_with trimmed (lit ''$'') \<or> ends_with trimmed (lit ''%'') \<or> ends_with trimmed (lit ''#'') \<or>
     starts_with trimmed (lit ''$'') \<or> starts_with trimmed (lit ''%'') \<or> starts_with trimmed (lit ''#'')"

abbreviation "c_angle \<equiv> (0x203A :: rchar)"   \<comment> \<open>single right-pointing angle quotation mark\<close>
abbreviation "c_heavy \<equiv> (0x276F :: rchar)"   \<comment> \<open>heavy right-pointing angle ornament\<close>
abbreviation "c_bar \<equiv> (0x2502 :: rchar)"     \<comment> \<open>box drawing, vertical\<close>
abbreviation "c_dash \<equiv> (0x2014 :: rchar)"    \<comment> \<open>em dash\<close>
abbreviation "c_dots \<equiv> (0x2026 :: rchar)"    \<comment> \<open>horizontal ellipsis\<close>

definition detect_ready_for_prompt :: "rstring \<Rightarrow> rstring \<Rightarrow> bool" where
  "detect_ready_for_prompt screen_text lowered =
     (if any_contained lowered [''ready for input'', ''ready for your input'', ''ready for prompt'', ''send a message'']
      then True
      else (case find (\<lambda>line. trim line \<noteq> []) (rev (str_lines screen_text)) of
          None \<Rightarrow> False
        | Some last_non_empty \<Rightarrow>
            (let trimmed = trim last_non_empty in
             if is_shell_prompt trimmed then False
             else trimmed = lit ''>'' \<or> trimmed = [c_angle] \<or> trimmed = [c_heavy] \<or>
               starts_with trimmed (lit ''> '') \<or> starts_with trimmed [c_angle, c_space] \<or>
               starts_with trimmed [c_heavy, c_space] \<or>
               str_contains trimmed (c_bar # lit '' >'') \<or> str_contains trimmed [c_bar, c_space, c_angle] \<or>
               str_contains trimmed [c_bar, c_space, c_heavy])))"

definition detect_running_cue :: "rstring \<Rightarrow> bool" where
  "detect_running_cue lowered = any_contained lowered
     [''thinking'', ''working'', ''running tests'', ''inspecting'', ''analyzing'']"

record prompt_delivery_observation =
  obs_target :: worker_prompt_target
  obs_cwd :: "rstring option"

definition is_shell_prompt_token :: "rstring \<Rightarrow> bool" where
  "is_shell_prompt_token token \<longleftrightarrow> token \<in> {lit ''$'', lit ''%'', lit ''#'', lit ''>'', [c_angle], [c_heavy]}"

definition looks_like_cwd_label :: "rstring \<Rightarrow> bool" where
  "looks_like_cwd_label candidate \<longleftrightarrow>
     starts_with candidate (lit ''/'') \<or> starts_with candidate (lit ''~'') \<or> starts_with candidate (lit ''.'') \<or>
     str_contains candidate (lit ''/'')"

fun position :: "('a \<Rightarrow> bool) \<Rightarrow> 'a list \<Rightarrow> nat option" where
  "position P [] = None"
| "position P (x # xs) = (if P x then Some 0 else map_option Suc (position P xs))"

definition line_cwd :: "rstring \<Rightarrow> rstring option" where
  "line_cwd line =
     (let tokens = split_whitespace line in
      case position is_shell_prompt_token tokens of
        None \<Rightarrow> None
      | Some index \<Rightarrow>
          if index = 0 then None
          else if looks_like_cwd_label (tokens ! (index - 1)) then Some (tokens ! (index - 1))
          else None)"

fun find_map :: "('a \<Rightarrow> 'b option) \<Rightarrow> 'a list \<Rightarrow> 'b option" where
  "find_map f [] = None"
| "find_map f (x # xs) = (case f x of Some y \<Rightarrow> Some y | None \<Rightarrow> find_map f xs)"

definition detect_observed_shell_cwd :: "rstring \<Rightarrow> rstring option" where
  "detect_observed_shell_cwd screen_text = find_map line_cwd (str_lines screen_text)"

definition normalize_path :: "canonicalize \<Rightarrow> rstring \<Rightarrow> rstring" where
  "normalize_path canon path = (case canon path of Some p \<Rightarrow> p | None \<Rightarrow> path)"

definition path_matches_allowlist :: "canonicalize \<Rightarrow> rstring \<Rightarrow> rstring \<Rightarrow> bool" where
  "path_matches_allowlist canon cwd trusted_root =
     (let c = normalize_path canon cwd; r = normalize_path canon trusted_root
      in path_eq c r \<or> path_starts_with c r)"

definition cwd_matches_observed_target :: "canonicalize \<Rightarrow> rstring \<Rightarrow> rstring \<Rightarrow> bool" where
  "cwd_matches_observed_target canon expected_cwd observed_cwd =
     (let expected = normalize_path canon expected_cwd;
          expected_base = (case file_name expected of Some b \<Rightarrow> b | None \<Rightarrow> expected);
          observed_base = (case file_name observed_cwd of Some b \<Rightarrow> b | None \<Rightarrow> trim_matches c_colon observed_cwd)
      in ends_with expected observed_cwd \<or> ends_with observed_cwd expected \<or> expected_base = observed_base)"

definition detect_prompt_misdelivery ::
    "canonicalize \<Rightarrow> rstring \<Rightarrow> rstring \<Rightarrow> rstring option \<Rightarrow> rstring \<Rightarrow> prompt_delivery_observation option" where
  "detect_prompt_misdelivery canon screen_text lowered prompt expected_cwd = (case prompt of
     None \<Rightarrow> None
   | Some prompt \<Rightarrow>
      (let prompt_snippet = (case find (\<lambda>line. trim line \<noteq> []) (str_lines prompt) of
             None \<Rightarrow> [] | Some line \<Rightarrow> to_ascii_lowercase (trim line))
       in if prompt_snippet = [] then None
          else (let prompt_visible = str_contains lowered prompt_snippet;
                    shell_error = any_contained lowered
                      [''command not found'', ''syntax error near unexpected token'', ''parse error near'',
                       ''no such file or directory'', ''unknown command''];
                    shell = (if shell_error \<and> prompt_visible
                             then Some \<lparr>obs_target = Target_Shell, obs_cwd = None\<rparr> else None)
                in case detect_observed_shell_cwd screen_text of
                     Some observed_cwd \<Rightarrow>
                       if prompt_visible \<and> \<not> cwd_matches_observed_target canon expected_cwd observed_cwd
                       then Some \<lparr>obs_target = Target_Wrong, obs_cwd = Some observed_cwd\<rparr>
                       else shell
                   | None \<Rightarrow> shell)))"

definition prompt_preview :: "rstring \<Rightarrow> rstring" where
  "prompt_preview prompt =
     (let trimmed = trim prompt
      in if length trimmed \<le> 48 then trimmed else trim_end (take 48 trimmed) @ [c_dots])"

definition prompt_misdelivery_detail :: "prompt_delivery_observation \<Rightarrow> rstring" where
  "prompt_misdelivery_detail obs = (case obs_target obs of
     Target_Shell \<Rightarrow> lit ''shell misdelivery detected''
   | Target_Wrong \<Rightarrow> lit ''prompt landed in wrong target''
   | Target_Unknown \<Rightarrow> lit ''prompt delivery failure detected'')"

definition prompt_misdelivery_is_relevant :: "worker \<Rightarrow> bool" where
  "prompt_misdelivery_is_relevant w \<longleftrightarrow> prompt_in_flight w \<and> last_prompt w \<noteq> None"

section \<open>Observing a worker\<close>

text \<open>
  The trust part of \<^verbatim>\<open>observe\<close>: \<open>Inl\<close> is the early return with the blocked worker, \<open>Inr\<close> the worker and
  the number of clock readings used when the method goes on.
\<close>

definition observe_trust :: "clock \<Rightarrow> rstring \<Rightarrow> worker \<Rightarrow> worker + (worker \<times> nat)" where
  "observe_trust now lowered w =
     (if \<not> trust_gate_cleared w \<and> detect_trust_prompt lowered then
        (let w1 = w\<lparr>worker_status := TrustRequired,
               last_error := Some \<lparr>failure_kind = TrustGate,
                 failure_message = lit ''worker boot blocked on trust prompt'', failure_created_at = now 0\<rparr>\<rparr>;
             w2 = push_event (now 1) Ev_TrustRequired TrustRequired (Some (lit ''trust prompt detected''))
               (Some (Payload_TrustPrompt (worker_cwd w) None)) w1
         in if trust_auto_resolve w2 then
              Inr (push_event (now 2) Ev_TrustResolved Spawning
                (Some (lit ''allowlisted repo auto-resolved trust prompt''))
                (Some (Payload_TrustPrompt (worker_cwd w) (Some AutoAllowlisted)))
                (w2\<lparr>trust_gate_cleared := True, last_error := None, worker_status := Spawning\<rparr>), 3)
            else Inl w2)
      else Inr (w, 0))"

definition misdelivery_message :: "worker \<Rightarrow> prompt_delivery_observation \<Rightarrow> rstring \<Rightarrow> rstring" where
  "misdelivery_message w obs preview = (case obs_target obs of
     Target_Shell \<Rightarrow> lit ''worker prompt landed in shell instead of coding agent: '' @ preview
   | Target_Wrong \<Rightarrow> lit ''worker prompt landed in the wrong target instead of '' @ worker_cwd w @ lit '': '' @ preview
   | Target_Unknown \<Rightarrow> lit ''worker prompt delivery failed before reaching coding agent: '' @ preview)"

definition observe_misdelivery ::
    "clock \<Rightarrow> nat \<Rightarrow> prompt_delivery_observation \<Rightarrow> worker \<Rightarrow> worker" where
  "observe_misdelivery now k obs w =
     (let preview = prompt_preview (case last_prompt w of Some p \<Rightarrow> p | None \<Rightarrow> []);
          w1 = w\<lparr>last_error := Some \<lparr>failure_kind = PromptDelivery,
                   failure_message = misdelivery_message w obs preview, failure_created_at = now k\<rparr>,
                 prompt_in_flight := False\<rparr>;
          w2 = push_event (now (k + 1)) Ev_PromptMisdelivery Failed (Some (prompt_misdelivery_detail obs))
                 (Some (Payload_PromptDelivery preview (obs_target obs) (obs_cwd obs) False)) w1
      in if auto_recover_prompt_misdelivery w2 then
           push_event (now (k + 2)) Ev_PromptReplayArmed ReadyForPrompt
             (Some (lit ''prompt replay armed after prompt misdelivery''))
             (Some (Payload_PromptDelivery preview (obs_target obs) (obs_cwd obs) True))
             (w2\<lparr>replay_prompt := last_prompt w2, worker_status := ReadyForPrompt\<rparr>)
         else w2\<lparr>worker_status := Failed\<rparr>)"

definition observe_running :: "rstring \<Rightarrow> worker \<Rightarrow> worker" where
  "observe_running lowered w =
     (if detect_running_cue lowered \<and> prompt_in_flight w
      then w\<lparr>prompt_in_flight := False, worker_status := Running, last_error := None\<rparr> else w)"

definition observe_ready :: "clock \<Rightarrow> nat \<Rightarrow> rstring \<Rightarrow> rstring \<Rightarrow> worker \<Rightarrow> worker" where
  "observe_ready now k screen_text lowered w =
     (if detect_ready_for_prompt screen_text lowered \<and> worker_status w \<noteq> ReadyForPrompt then
        (let w1 = w\<lparr>worker_status := ReadyForPrompt, prompt_in_flight := False\<rparr>;
             w2 = (case last_error w1 of
                 Some failure \<Rightarrow> if failure_kind failure = TrustGate then w1\<lparr>last_error := None\<rparr> else w1
               | None \<Rightarrow> w1)
         in push_event (now k) Ev_ReadyForPrompt ReadyForPrompt
              (Some (lit ''worker is ready for prompt delivery'')) None w2)
      else w)"

definition observe_worker :: "canonicalize \<Rightarrow> clock \<Rightarrow> rstring \<Rightarrow> worker \<Rightarrow> worker" where
  "observe_worker canon now screen_text w =
     (let lowered = to_ascii_lowercase screen_text in
      case observe_trust now lowered w of
        Inl blocked \<Rightarrow> blocked
      | Inr (w1, k) \<Rightarrow>
          (case (if prompt_misdelivery_is_relevant w1
                 then detect_prompt_misdelivery canon screen_text lowered (last_prompt w1) (worker_cwd w1)
                 else None) of
             Some obs \<Rightarrow> observe_misdelivery now k obs w1
           | None \<Rightarrow> observe_ready now k screen_text lowered (observe_running lowered w1)))"

section \<open>The control operations on a worker\<close>

definition create_worker :: "canonicalize \<Rightarrow> clock \<Rightarrow> rstring \<Rightarrow> rstring \<Rightarrow> rstring list \<Rightarrow> bool \<Rightarrow> worker" where
  "create_worker canon now i cwd trusted_roots auto_recover =
     push_event (now 1) Ev_Spawning Spawning (Some (lit ''worker created'')) None
       \<lparr>worker_id = i, worker_cwd = cwd, worker_status = Spawning,
        trust_auto_resolve = list_ex (path_matches_allowlist canon cwd) trusted_roots,
        trust_gate_cleared = False, auto_recover_prompt_misdelivery = auto_recover,
        prompt_delivery_attempts = 0, prompt_in_flight = False, last_prompt = None, replay_prompt = None,
        last_error = None, created_at = now 0, updated_at = now 0, events = []\<rparr>"

definition resolve_trust_worker :: "clock \<Rightarrow> rstring \<Rightarrow> worker \<Rightarrow> rstring + worker" where
  "resolve_trust_worker now i w =
     (if worker_status w \<noteq> TrustRequired then
        Inl (lit ''worker '' @ i @ lit '' is not waiting on trust; current status: '' @
             show_worker_status (worker_status w))
      else Inr (push_event (now 0) Ev_TrustResolved Spawning (Some (lit ''trust prompt resolved manually''))
             (Some (Payload_TrustPrompt (worker_cwd w) (Some ManualApproval)))
             (w\<lparr>trust_gate_cleared := True, last_error := None, worker_status := Spawning\<rparr>)))"

definition next_prompt :: "rstring option \<Rightarrow> worker \<Rightarrow> rstring option" where
  "next_prompt prompt w = (case prompt of
     Some p \<Rightarrow> if trim p \<noteq> [] then Some (trim p) else replay_prompt w
   | None \<Rightarrow> replay_prompt w)"

definition send_prompt_worker :: "clock \<Rightarrow> rstring \<Rightarrow> rstring option \<Rightarrow> worker \<Rightarrow> rstring + worker" where
  "send_prompt_worker now i prompt w =
     (if worker_status w \<noteq> ReadyForPrompt then
        Inl (lit ''worker '' @ i @ lit '' is not ready for prompt delivery; current status: '' @
             show_worker_status (worker_status w))
      else (case next_prompt prompt w of
          None \<Rightarrow> Inl (lit ''worker '' @ i @ lit '' has no prompt to send or replay'')
        | Some p \<Rightarrow>
            Inr (push_event (now 0) Ev_Running Running
                  (Some (lit ''prompt dispatched to worker: '' @ prompt_preview p)) None
                  (w\<lparr>prompt_delivery_attempts := prompt_delivery_attempts w + 1, prompt_in_flight := True,
                     last_prompt := Some p, replay_prompt := None, last_error := None,
                     worker_status := Running\<rparr>))))"

definition restart_worker :: "clock \<Rightarrow> worker \<Rightarrow> worker" where
  "restart_worker now w =
     push_event (now 0) Ev_Restarted Spawning (Some (lit ''worker restarted'')) None
       (w\<lparr>worker_status := Spawning, trust_gate_cleared := False, last_prompt := None, replay_prompt := None,
          last_error := None, prompt_delivery_attempts := 0, prompt_in_flight := False\<rparr>)"

definition terminate_worker :: "clock \<Rightarrow> worker \<Rightarrow> worker" where
  "terminate_worker now w =
     push_event (now 0) Ev_Finished Finished (Some (lit ''worker terminated by control plane'')) None
       (w\<lparr>worker_status := Finished, prompt_in_flight := False\<rparr>)"

definition observe_completion_worker :: "clock \<Rightarrow> rstring \<Rightarrow> u64 \<Rightarrow> worker \<Rightarrow> worker" where
  "observe_completion_worker now finish_reason tokens_output w =
     (let degraded = (finish_reason = lit ''unknown'' \<and> tokens_output = 0);
          is_provider_failure = (degraded \<or> finish_reason = lit ''error'')
      in if is_provider_failure then
           (let message =
              (if degraded then
                 lit ''session completed with finish='' @ [c_squote] @ lit ''unknown'' @ [c_squote] @
                 lit '' and zero output '' @ [c_dash] @ lit '' provider degraded or context exhausted''
               else lit ''session failed with finish='' @ [c_squote] @ finish_reason @ [c_squote] @ [c_space, c_dash] @
                 lit '' provider error'')
            in push_event (now 1) Ev_Failed Failed (Some (lit ''provider failure classified'')) None
                 (w\<lparr>last_error := Some \<lparr>failure_kind = Provider, failure_message = message, failure_created_at = now 0\<rparr>,
                    worker_status := Failed, prompt_in_flight := False\<rparr>))
         else push_event (now 0) Ev_Finished Finished
                (Some (lit ''session completed: finish='' @ [c_squote] @ finish_reason @ [c_squote] @
                       lit '', tokens='' @ show_nat (unat tokens_output))) None
                (w\<lparr>worker_status := Finished, prompt_in_flight := False, last_error := None\<rparr>))"

section \<open>The registry\<close>

definition worker_new_id :: "u64 \<Rightarrow> u64 \<Rightarrow> rstring" where
  "worker_new_id = make_id (lit ''worker_'')"

definition worker_missing :: "rstring \<Rightarrow> rstring" where
  "worker_missing i = lit ''worker not found: '' @ i"

definition worker_create ::
    "canonicalize \<Rightarrow> clock \<Rightarrow> rstring \<Rightarrow> rstring list \<Rightarrow> bool \<Rightarrow> worker_registry \<Rightarrow> worker \<times> worker_registry" where
  "worker_create canon now cwd trusted_roots auto_recover r =
     (let r1 = r\<lparr>counter := counter r + 1\<rparr>;
          i = worker_new_id (now 0) (counter r1);
          w = create_worker canon now i cwd trusted_roots auto_recover
      in (w, reg_insert i w r1))"

definition worker_get :: "worker_registry \<Rightarrow> rstring \<Rightarrow> worker option" where
  "worker_get r i = reg_get r i"

definition worker_observe ::
    "canonicalize \<Rightarrow> clock \<Rightarrow> rstring \<Rightarrow> rstring \<Rightarrow> worker_registry \<Rightarrow> (rstring + worker) \<times> worker_registry" where
  "worker_observe canon now i screen_text =
     reg_modify (worker_missing i) i (\<lambda>w. Inr (observe_worker canon now screen_text w))"

definition worker_resolve_trust ::
    "clock \<Rightarrow> rstring \<Rightarrow> worker_registry \<Rightarrow> (rstring + worker) \<times> worker_registry" where
  "worker_resolve_trust now i = reg_modify (worker_missing i) i (resolve_trust_worker now i)"

definition worker_send_prompt ::
    "clock \<Rightarrow> rstring \<Rightarrow> rstring option \<Rightarrow> worker_registry \<Rightarrow> (rstring + worker) \<times> worker_registry" where
  "worker_send_prompt now i prompt = reg_modify (worker_missing i) i (send_prompt_worker now i prompt)"

definition worker_restart :: "clock \<Rightarrow> rstring \<Rightarrow> worker_registry \<Rightarrow> (rstring + worker) \<times> worker_registry" where
  "worker_restart now i = reg_modify (worker_missing i) i (\<lambda>w. Inr (restart_worker now w))"

definition worker_terminate :: "clock \<Rightarrow> rstring \<Rightarrow> worker_registry \<Rightarrow> (rstring + worker) \<times> worker_registry" where
  "worker_terminate now i = reg_modify (worker_missing i) i (\<lambda>w. Inr (terminate_worker now w))"

definition worker_observe_completion ::
    "clock \<Rightarrow> rstring \<Rightarrow> rstring \<Rightarrow> u64 \<Rightarrow> worker_registry \<Rightarrow> (rstring + worker) \<times> worker_registry" where
  "worker_observe_completion now i finish_reason tokens_output =
     reg_modify (worker_missing i) i (\<lambda>w. Inr (observe_completion_worker now finish_reason tokens_output w))"

record worker_ready_snapshot =
  snap_worker_id :: rstring
  snap_status :: worker_status
  snap_ready :: bool
  snap_blocked :: bool
  snap_replay_prompt_ready :: bool
  snap_last_error :: "worker_failure option"

definition worker_await_ready :: "worker_registry \<Rightarrow> rstring \<Rightarrow> rstring + worker_ready_snapshot" where
  "worker_await_ready r i = (case worker_get r i of
     None \<Rightarrow> Inl (worker_missing i)
   | Some w \<Rightarrow> Inr \<lparr>snap_worker_id = worker_id w, snap_status = worker_status w,
        snap_ready = (worker_status w = ReadyForPrompt),
        snap_blocked = (worker_status w \<in> {TrustRequired, Failed}),
        snap_replay_prompt_ready = (replay_prompt w \<noteq> None), snap_last_error = last_error w\<rparr>)"

section \<open>Steps and the invariant of a worker\<close>

text \<open>One operation of the control plane on a worker, with any inputs.\<close>

inductive worker_step :: "canonicalize \<Rightarrow> worker \<Rightarrow> worker \<Rightarrow> bool" for canon where
  step_observe: "worker_step canon w (observe_worker canon now screen_text w)"
| step_resolve: "resolve_trust_worker now i w = Inr w' \<Longrightarrow> worker_step canon w w'"
| step_send: "send_prompt_worker now i prompt w = Inr w' \<Longrightarrow> worker_step canon w w'"
| step_restart: "worker_step canon w (restart_worker now w)"
| step_terminate: "worker_step canon w (terminate_worker now w)"
| step_completion: "worker_step canon w (observe_completion_worker now finish_reason tokens_output w)"

text \<open>
  The log of a worker: numbered from 1 without gaps, never empty, and \<^verbatim>\<open>updated_at\<close> is the time of its
  last entry.  \<open>dispatches\<close> counts the prompts sent since the last restart.
\<close>

definition log_ok :: "worker \<Rightarrow> bool" where
  "log_ok w \<longleftrightarrow> events w \<noteq> [] \<and> map ev_seq (events w) = map of_nat [1..<Suc (length (events w))] \<and>
     updated_at w = ev_timestamp (last (events w)) \<and>
     (worker_status w = ev_status (last (events w)) \<or> worker_status w = Running)"

definition dispatches :: "worker \<Rightarrow> nat" where
  "dispatches w = length (filter (\<lambda>e. ev_kind e = Ev_Running)
     (takeWhile (\<lambda>e. ev_kind e \<noteq> Ev_Restarted) (rev (events w))))"

definition prompts_ok :: "worker \<Rightarrow> bool" where
  "prompts_ok w \<longleftrightarrow> (prompt_in_flight w \<longrightarrow> last_prompt w \<noteq> None \<and> replay_prompt w = None) \<and>
     (replay_prompt w \<noteq> None \<longrightarrow> replay_prompt w = last_prompt w \<and> auto_recover_prompt_misdelivery w) \<and>
     prompt_delivery_attempts w = of_nat (dispatches w)"

definition status_ok :: "worker \<Rightarrow> bool" where
  "status_ok w \<longleftrightarrow>
     (worker_status w = TrustRequired \<longrightarrow> \<not> trust_gate_cleared w \<and> \<not> trust_auto_resolve w \<and>
        map_option failure_kind (last_error w) = Some TrustGate) \<and>
     (worker_status w = Failed \<longrightarrow>
        map_option failure_kind (last_error w) \<in> {Some PromptDelivery, Some Provider}) \<and>
     (worker_status w \<in> {ReadyForPrompt, Finished} \<longrightarrow> \<not> prompt_in_flight w)"

definition worker_ok :: "worker \<Rightarrow> bool" where
  "worker_ok w \<longleftrightarrow> log_ok w \<and> prompts_ok w \<and> status_ok w"

lemma push_event_fields [simp]:
  "worker_id (push_event t k s d p w) = worker_id w"
  "worker_cwd (push_event t k s d p w) = worker_cwd w"
  "worker_status (push_event t k s d p w) = worker_status w"
  "trust_auto_resolve (push_event t k s d p w) = trust_auto_resolve w"
  "trust_gate_cleared (push_event t k s d p w) = trust_gate_cleared w"
  "auto_recover_prompt_misdelivery (push_event t k s d p w) = auto_recover_prompt_misdelivery w"
  "prompt_delivery_attempts (push_event t k s d p w) = prompt_delivery_attempts w"
  "prompt_in_flight (push_event t k s d p w) = prompt_in_flight w"
  "last_prompt (push_event t k s d p w) = last_prompt w"
  "replay_prompt (push_event t k s d p w) = replay_prompt w"
  "last_error (push_event t k s d p w) = last_error w"
  "created_at (push_event t k s d p w) = created_at w"
  "updated_at (push_event t k s d p w) = t"
  by (simp_all add: push_event_def)

lemma events_push: "events (push_event t k s d p w) =
    events w @ [\<lparr>ev_seq = of_nat (length (events w)) + 1, ev_kind = k, ev_status = s,
      ev_detail = d, ev_payload = p, ev_timestamp = t\<rparr>]"
  by (simp add: push_event_def)

text \<open>The numbering of the log depends on the events alone.\<close>

definition numbered :: "worker_event list \<Rightarrow> bool" where
  "numbered es \<longleftrightarrow> map ev_seq es = map of_nat [1..<Suc (length es)]"

lemma numbered_push: "numbered (events w) \<Longrightarrow> numbered (events (push_event t k s d p w))"
  by (simp add: numbered_def events_push)

lemma log_ok_iff: "log_ok w \<longleftrightarrow> events w \<noteq> [] \<and> numbered (events w) \<and>
    updated_at w = ev_timestamp (last (events w)) \<and>
    (worker_status w = ev_status (last (events w)) \<or> worker_status w = Running)"
  by (simp add: log_ok_def numbered_def)

lemma log_ok_push: "numbered (events w) \<Longrightarrow> worker_status w \<in> {s, Running} \<Longrightarrow>
    log_ok (push_event t k s d p w)"
  using numbered_push [of w t k s d p] by (auto simp: log_ok_iff events_push)

lemma dispatches_push: "dispatches (push_event t k s d p w) =
    (if k = Ev_Restarted then 0 else if k = Ev_Running then Suc (dispatches w) else dispatches w)"
  by (simp add: dispatches_def events_push)

lemma dispatches_updates [simp]:
  "dispatches (w\<lparr>worker_status := st\<rparr>) = dispatches w"
  "dispatches (w\<lparr>trust_gate_cleared := b\<rparr>) = dispatches w"
  "dispatches (w\<lparr>prompt_delivery_attempts := n\<rparr>) = dispatches w"
  "dispatches (w\<lparr>prompt_in_flight := b\<rparr>) = dispatches w"
  "dispatches (w\<lparr>last_prompt := p\<rparr>) = dispatches w"
  "dispatches (w\<lparr>replay_prompt := p\<rparr>) = dispatches w"
  "dispatches (w\<lparr>last_error := e\<rparr>) = dispatches w"
  by (simp_all add: dispatches_def)

lemma worker_ok_create: "worker_ok (create_worker canon now i cwd roots auto_recover)"
  by (simp add: worker_ok_def create_worker_def log_ok_iff prompts_ok_def status_ok_def events_push
      dispatches_push numbered_def) (simp add: dispatches_def)


lemma log_ok_numbered: "log_ok w \<Longrightarrow> numbered (events w)"
  by (simp add: log_ok_iff)

lemma numbered_push_iff [simp]: "numbered (events (push_event t k s d p w)) = numbered (events w)"
  by (auto simp: numbered_def events_push)

lemma status_ok_push [simp]: "status_ok (push_event t k s d p w) = status_ok w"
  by (simp add: status_ok_def)

lemma prompts_ok_push [simp]:
  "k \<noteq> Ev_Running \<Longrightarrow> k \<noteq> Ev_Restarted \<Longrightarrow> prompts_ok (push_event t k s d p w) = prompts_ok w"
  by (simp add: prompts_ok_def dispatches_push)

lemma worker_okI:
  "log_ok w \<Longrightarrow> prompts_ok w \<Longrightarrow> status_ok w \<Longrightarrow> worker_ok w"
  by (simp add: worker_ok_def)

lemma worker_okD:
  assumes "worker_ok w"
  shows "numbered (events w)" "prompts_ok w" "status_ok w" "log_ok w"
  using assms by (simp_all add: worker_ok_def log_ok_numbered)

text \<open>What a step that logs an event has to establish.\<close>

lemma worker_ok_push:
  assumes "numbered (events w)" and "worker_status w = s" and "prompts_ok w" and "status_ok w"
    and "k \<noteq> Ev_Running" and "k \<noteq> Ev_Restarted"
  shows "worker_ok (push_event t k s d p w)"
  using assms by (simp add: worker_ok_def log_ok_push)

lemma prompts_ok_updates [simp]:
  "prompts_ok (w\<lparr>worker_status := st\<rparr>) = prompts_ok w"
  "prompts_ok (w\<lparr>trust_gate_cleared := b\<rparr>) = prompts_ok w"
  "prompts_ok (w\<lparr>last_error := e\<rparr>) = prompts_ok w"
  "prompts_ok w \<Longrightarrow> prompts_ok (w\<lparr>prompt_in_flight := False\<rparr>)"
  by (simp_all add: prompts_ok_def)

lemma worker_ok_resolve:
  assumes "resolve_trust_worker now i w = Inr w'" and "worker_ok w"
  shows "worker_ok w'"
  using assms(1) worker_okD [OF assms(2)]
  by (auto simp: resolve_trust_worker_def prompts_ok_def status_ok_def split: if_splits intro!: worker_ok_push)

lemma worker_ok_send:
  assumes "send_prompt_worker now i prompt w = Inr w'" and "worker_ok w"
  shows "worker_ok w'"
  using assms(1) worker_okD [OF assms(2)]
  by (auto simp: send_prompt_worker_def prompts_ok_def status_ok_def dispatches_push
      split: if_splits option.splits intro!: worker_okI log_ok_push)

lemma worker_ok_restart: "worker_ok w \<Longrightarrow> worker_ok (restart_worker now w)"
  using worker_okD [of w] unfolding restart_worker_def
  by (intro worker_okI log_ok_push) (simp_all add: prompts_ok_def status_ok_def dispatches_push)

lemma worker_ok_terminate: "worker_ok w \<Longrightarrow> worker_ok (terminate_worker now w)"
  using worker_okD [of w] unfolding terminate_worker_def
  by (intro worker_ok_push) (simp_all add: prompts_ok_def status_ok_def)

lemma worker_ok_completion:
  assumes "worker_ok w"
  shows "worker_ok (observe_completion_worker now fr n w)"
  using worker_okD [OF assms] unfolding observe_completion_worker_def Let_def
  by (simp add: worker_ok_push status_ok_def del: append_assoc append.simps)

lemma worker_ok_trust_blocked:
  assumes "observe_trust now lowered w = Inl w'" and "worker_ok w"
  shows "worker_ok w'"
  using assms(1) worker_okD(1,2) [OF assms(2)]
  by (auto simp: observe_trust_def Let_def status_ok_def split: if_splits intro!: worker_ok_push)

lemma worker_ok_trust_passed:
  assumes "observe_trust now lowered w = Inr (w', k)" and "worker_ok w"
  shows "worker_ok w'"
proof (cases "\<not> trust_gate_cleared w \<and> detect_trust_prompt lowered")
  case True
  with assms(1) worker_okD(1,2) [OF assms(2)] show ?thesis
    by (auto simp: observe_trust_def Let_def status_ok_def split: if_splits intro!: worker_ok_push)
qed (use assms in \<open>auto simp: observe_trust_def\<close>)

lemma worker_ok_replay_armed:
  assumes "prompts_ok w" and "auto_recover_prompt_misdelivery w" and "\<not> prompt_in_flight w"
  shows "prompts_ok (w\<lparr>replay_prompt := last_prompt w\<rparr>)"
  using assms by (simp add: prompts_ok_def)

lemma worker_ok_misdelivery:
  assumes "worker_ok w"
  shows "worker_ok (observe_misdelivery now k obs w)"
proof -
  note ok = worker_okD(1,2) [OF assms]
  define w2 where "w2 = push_event (now (k + 1)) Ev_PromptMisdelivery Failed (Some (prompt_misdelivery_detail obs))
     (Some (Payload_PromptDelivery (prompt_preview (case last_prompt w of Some p \<Rightarrow> p | None \<Rightarrow> [])) (obs_target obs) (obs_cwd obs) False))
     (w\<lparr>last_error := Some \<lparr>failure_kind = PromptDelivery,
         failure_message = misdelivery_message w obs (prompt_preview (case last_prompt w of Some p \<Rightarrow> p | None \<Rightarrow> [])),
         failure_created_at = now k\<rparr>, prompt_in_flight := False\<rparr>)"
  have w2: "prompts_ok w2" "numbered (events w2)" "\<not> prompt_in_flight w2"
    "map_option failure_kind (last_error w2) = Some PromptDelivery"
    "ev_status (last (events w2)) = Failed" "events w2 \<noteq> []" "updated_at w2 = ev_timestamp (last (events w2))"
    using ok by (simp_all add: w2_def) (simp_all add: events_push)
  have "worker_ok (w2\<lparr>worker_status := Failed\<rparr>)"
    using w2 by (intro worker_okI) (simp_all add: log_ok_iff status_ok_def)
  moreover have "worker_ok (push_event t Ev_PromptReplayArmed ReadyForPrompt d p
      (w2\<lparr>replay_prompt := last_prompt w2, worker_status := ReadyForPrompt\<rparr>))"
    if "auto_recover_prompt_misdelivery w2" for t d p
    using w2 that by (intro worker_ok_push) (simp_all add: worker_ok_replay_armed status_ok_def)
  ultimately show ?thesis unfolding observe_misdelivery_def Let_def w2_def [symmetric] by simp
qed

lemma worker_ok_running:
  assumes "worker_ok w"
  shows "worker_ok (observe_running lowered w)"
  using assms worker_okD [OF assms]
  by (auto simp: observe_running_def status_ok_def log_ok_iff intro!: worker_okI)

lemma worker_ok_ready:
  assumes "worker_ok w"
  shows "worker_ok (observe_ready now k screen_text lowered w)"
proof -
  have cleared: "worker_ok (push_event t Ev_ReadyForPrompt ReadyForPrompt d p
      (w\<lparr>worker_status := ReadyForPrompt, prompt_in_flight := False, last_error := None\<rparr>))"
    and kept: "worker_ok (push_event t Ev_ReadyForPrompt ReadyForPrompt d p
      (w\<lparr>worker_status := ReadyForPrompt, prompt_in_flight := False\<rparr>))" for t d p
    using worker_okD(1,2) [OF assms] by (simp_all add: worker_ok_push status_ok_def)
  show ?thesis
  proof (cases "last_error w")
    case None
    with kept assms show ?thesis by (simp add: observe_ready_def)
  next
    case (Some e)
    with kept cleared assms show ?thesis
      by (cases "failure_kind e = TrustGate") (simp_all add: observe_ready_def)
  qed
qed

lemma worker_ok_observe: "worker_ok w \<Longrightarrow> worker_ok (observe_worker canon now screen_text w)"
  by (auto simp: observe_worker_def Let_def
      intro: worker_ok_trust_blocked worker_ok_trust_passed worker_ok_misdelivery worker_ok_running worker_ok_ready
      split: sum.splits prod.splits option.splits)

lemma worker_ok_step: "worker_step canon w w' \<Longrightarrow> worker_ok w \<Longrightarrow> worker_ok w'"
  by (cases rule: worker_step.cases)
    (blast intro: worker_ok_observe worker_ok_resolve worker_ok_send worker_ok_restart worker_ok_terminate
      worker_ok_completion)+

interpretation worker_life: step_invariant
    "\<lambda>w. \<exists>now i cwd roots auto_recover. w = create_worker canon now i cwd roots auto_recover"
    "worker_step canon" worker_ok for canon
  by unfold_locales (auto intro: worker_ok_create worker_ok_step)

text \<open>
  C3: whatever the control plane does, a worker created by the registry keeps its event log numbered
  from 1 without gaps and dated by its last entry, counts in \<^verbatim>\<open>prompt_delivery_attempts\<close> exactly the
  dispatches since the last restart, has a prompt whenever one is in flight, arms a replay only of the
  last prompt and only when recovery is on, waits on trust only with the gate closed and the trust
  failure recorded, and is failed only with a delivery or provider failure recorded.
\<close>

theorem worker_reachable_ok:
  assumes "(worker_step canon)\<^sup>*\<^sup>* (create_worker canon now i cwd roots auto_recover) w"
  shows "worker_ok w"
  using assms by (blast intro: worker_life.reachable_inv)

theorem worker_reachable_ok_witness:
  "worker_ok (restart_worker (\<lambda>_. 3) (create_worker (\<lambda>p. None) (\<lambda>_. 2) (lit ''w'') (lit ''/repo'') [] True))"
  by (rule worker_reachable_ok [of "\<lambda>p. None" "\<lambda>_. 2" "lit ''w''" "lit ''/repo''" "[]" True])
    (blast intro: step_restart)

section \<open>Trust\<close>

definition approval :: "worker \<Rightarrow> worker_event \<Rightarrow> bool" where
  "approval w e \<longleftrightarrow> ev_kind e = Ev_TrustResolved \<and> ev_payload e =
     Some (Payload_TrustPrompt (worker_cwd w) (Some (if trust_auto_resolve w then AutoAllowlisted else ManualApproval)))"

definition approved :: "worker \<Rightarrow> bool" where
  "approved w \<longleftrightarrow> (trust_gate_cleared w \<longrightarrow> list_ex (approval w) (events w))"

lemma approval_cong: "worker_cwd v = worker_cwd w \<Longrightarrow> trust_auto_resolve v = trust_auto_resolve w \<Longrightarrow>
    approval v = approval w"
  by (simp add: approval_def fun_eq_iff)

lemma list_ex_approval_push: "list_ex (approval (push_event t k s d p w)) (events (push_event t k s d p w)) \<longleftrightarrow>
    list_ex (approval w) (events w) \<or> k = Ev_TrustResolved \<and> p = Some (Payload_TrustPrompt (worker_cwd w)
      (Some (if trust_auto_resolve w then AutoAllowlisted else ManualApproval)))"
proof -
  have "approval (push_event t k s d p w) = approval w" by (rule approval_cong) simp_all
  then show ?thesis by (simp add: events_push) (simp add: approval_def)
qed

lemma approved_push: "approved w \<Longrightarrow> approved (push_event t k s d p w)"
  by (auto simp: approved_def list_ex_approval_push)

lemma approved_resolution:
  "approved (push_event t Ev_TrustResolved s d (Some (Payload_TrustPrompt (worker_cwd w)
     (Some (if trust_auto_resolve w then AutoAllowlisted else ManualApproval)))) w)"
  by (simp add: approved_def list_ex_approval_push)

lemma approved_cong:
  "trust_gate_cleared v = trust_gate_cleared w \<Longrightarrow> worker_cwd v = worker_cwd w \<Longrightarrow>
   trust_auto_resolve v = trust_auto_resolve w \<Longrightarrow> events v = events w \<Longrightarrow> approved v = approved w"
  by (simp add: approved_def approval_cong [of v w])

lemma approved_updates [simp]:
  "approved (w\<lparr>worker_status := st\<rparr>) = approved w"
  "approved (w\<lparr>prompt_delivery_attempts := n\<rparr>) = approved w"
  "approved (w\<lparr>prompt_in_flight := b\<rparr>) = approved w"
  "approved (w\<lparr>last_prompt := p\<rparr>) = approved w"
  "approved (w\<lparr>replay_prompt := p\<rparr>) = approved w"
  "approved (w\<lparr>last_error := e\<rparr>) = approved w"
  by (rule approved_cong; simp)+

lemma approved_closed: "\<not> trust_gate_cleared w \<Longrightarrow> approved w"
  by (simp add: approved_def)

lemma approved_resolve:
  assumes "resolve_trust_worker now i w = Inr w'" and "worker_ok w"
  shows "approved w'"
proof -
  have "worker_status w = TrustRequired" using assms(1) by (simp add: resolve_trust_worker_def split: if_splits)
  with worker_okD(3) [OF assms(2)] have "\<not> trust_auto_resolve w" by (simp add: status_ok_def)
  with assms(1) show ?thesis
    using approved_resolution [of "now 0" Spawning _ "w\<lparr>trust_gate_cleared := True, last_error := None, worker_status := Spawning\<rparr>"]
    by (auto simp: resolve_trust_worker_def split: if_splits)
qed

lemma approved_trust_passed:
  assumes "observe_trust now lowered w = Inr (w', k)" and "approved w"
  shows "approved w'"
proof (cases "\<not> trust_gate_cleared w \<and> detect_trust_prompt lowered")
  case True
  with assms(1) show ?thesis
    by (auto simp: observe_trust_def Let_def approved_def list_ex_approval_push split: if_splits)
qed (use assms in \<open>auto simp: observe_trust_def\<close>)

lemma approved_trust_blocked: "observe_trust now lowered w = Inl w' \<Longrightarrow> approved w'"
  by (auto simp: observe_trust_def Let_def split: if_splits intro: approved_closed)

lemma approved_misdelivery: "approved w \<Longrightarrow> approved (observe_misdelivery now k obs w)"
  by (simp add: observe_misdelivery_def Let_def approved_push)

lemma approved_ready: "approved w \<Longrightarrow> approved (observe_ready now k screen_text lowered w)"
  by (cases "last_error w") (simp_all add: observe_ready_def Let_def approved_push)

lemma approved_running: "approved w \<Longrightarrow> approved (observe_running lowered w)"
  by (simp add: observe_running_def)

lemma approved_observe: "approved w \<Longrightarrow> approved (observe_worker canon now screen_text w)"
  by (auto simp: observe_worker_def Let_def
      intro: approved_trust_passed approved_trust_blocked approved_misdelivery approved_ready approved_running
      split: sum.splits prod.splits option.splits)

lemma approved_step:
  assumes "worker_step canon w w'" and "worker_ok w" and "approved w"
  shows "approved w'"
  using assms(1)
proof cases
  case (step_send now i prompt)
  with assms(3) show ?thesis
    by (auto simp: send_prompt_worker_def split: if_splits option.splits intro!: approved_push)
next
  case (step_resolve now i)
  with assms(2) show ?thesis by (blast intro: approved_resolve)
next
  case (step_observe now screen_text)
  with assms(3) show ?thesis by (simp add: approved_observe)
next
  case (step_restart now)
  then show ?thesis by (simp add: restart_worker_def approved_closed)
next
  case (step_terminate now)
  with assms(3) show ?thesis by (simp add: terminate_worker_def approved_push)
next
  case (step_completion now fr n)
  with assms(3) show ?thesis by (simp add: observe_completion_worker_def Let_def approved_push)
qed

definition same_worker :: "worker \<Rightarrow> worker \<Rightarrow> bool" where
  "same_worker w v \<longleftrightarrow> trust_auto_resolve v = trust_auto_resolve w \<and> worker_cwd v = worker_cwd w \<and>
     worker_id v = worker_id w \<and> created_at v = created_at w \<and>
     auto_recover_prompt_misdelivery v = auto_recover_prompt_misdelivery w"

lemma same_worker_refl: "same_worker w w"
  by (simp add: same_worker_def)

lemma same_worker_trans: "same_worker u v \<Longrightarrow> same_worker v w \<Longrightarrow> same_worker u w"
  by (simp add: same_worker_def)

lemma same_trust: "observe_trust now lowered w = Inl v \<Longrightarrow> same_worker w v"
    "observe_trust now lowered w = Inr (v, k) \<Longrightarrow> same_worker w v"
  by (auto simp: observe_trust_def Let_def same_worker_def split: if_splits)

lemma same_misdelivery: "same_worker w (observe_misdelivery now k obs w)"
  by (simp add: observe_misdelivery_def Let_def same_worker_def)

lemma same_ready: "same_worker w (observe_ready now k screen_text lowered w)"
  by (cases "last_error w") (simp_all add: observe_ready_def Let_def same_worker_def)

lemma same_running: "same_worker w (observe_running lowered w)"
  by (simp add: observe_running_def same_worker_def)

lemma same_observe: "same_worker w (observe_worker canon now screen_text w)"
  by (auto simp: observe_worker_def Let_def split: sum.splits prod.splits option.splits
      intro: same_trust same_trust [THEN same_worker_trans] same_misdelivery same_worker_trans [OF same_running same_ready])

lemma same_worker_step:
  assumes "worker_step canon w v"
  shows "same_worker w v"
  using assms
proof cases
  case (step_observe now screen_text)
  then show ?thesis by (simp add: same_observe)
qed (auto simp: send_prompt_worker_def resolve_trust_worker_def restart_worker_def terminate_worker_def
    observe_completion_worker_def Let_def same_worker_def split: if_splits option.splits)

lemma create_worker_fields:
  "trust_auto_resolve (create_worker canon now i cwd roots auto_recover) = list_ex (path_matches_allowlist canon cwd) roots"
  "worker_cwd (create_worker canon now i cwd roots auto_recover) = cwd"
  "worker_id (create_worker canon now i cwd roots auto_recover) = i"
  "approved (create_worker canon now i cwd roots auto_recover)"
  by (simp_all add: create_worker_def approved_closed)

interpretation worker_trust: step_invariant
    "\<lambda>w. \<exists>now i roots auto_recover. w = create_worker canon now i cwd roots auto_recover \<and>
       \<not> list_ex (path_matches_allowlist canon cwd) roots"
    "worker_step canon"
    "\<lambda>w. worker_ok w \<and> approved w \<and> \<not> trust_auto_resolve w \<and> worker_cwd w = cwd" for canon cwd
proof (unfold_locales, goal_cases)
  case (1 w)
  then show ?case using worker_ok_create create_worker_fields by metis
next
  case (2 v w)
  then show ?case using worker_ok_step approved_step same_worker_step unfolding same_worker_def by metis
qed

text \<open>
  C13: a worker whose directory lies under none of the trusted roots has its trust gate open only if a
  manual approval for that directory stands in its event log.
\<close>

theorem trust_needs_manual_approval:
  assumes "(worker_step canon)\<^sup>*\<^sup>* (create_worker canon now i cwd roots auto_recover) w"
    and "\<not> list_ex (path_matches_allowlist canon cwd) roots" and "trust_gate_cleared w"
  shows "list_ex (\<lambda>e. ev_kind e = Ev_TrustResolved \<and>
    ev_payload e = Some (Payload_TrustPrompt cwd (Some ManualApproval))) (events w)"
proof -
  have "approved w \<and> \<not> trust_auto_resolve w \<and> worker_cwd w = cwd"
    using worker_trust.reachable_inv [of _ canon cwd w] assms(1,2) by blast
  with assms(3) show ?thesis by (auto simp: approved_def approval_def list_ex_iff)
qed

lemma trust_screen_detected: "detect_trust_prompt (to_ascii_lowercase (lit ''Trust this folder?''))"
  by code_simp

theorem trust_needs_manual_approval_witness:
  "list_ex (\<lambda>e. ev_kind e = Ev_TrustResolved \<and>
     ev_payload e = Some (Payload_TrustPrompt (lit ''/repo'') (Some ManualApproval)))
   (events (projr (resolve_trust_worker (\<lambda>_. 4) (lit ''w'') (observe_worker (\<lambda>p. None) (\<lambda>_. 3) (lit ''Trust this folder?'')
     (create_worker (\<lambda>p. None) (\<lambda>_. 2) (lit ''w'') (lit ''/repo'') [lit ''/other''] True)))))"
    (is "list_ex _ (events (projr (resolve_trust_worker ?n ?i (observe_worker ?c ?m ?s ?w))))")
proof -
  have auto: "\<not> list_ex (path_matches_allowlist ?c (lit ''/repo'')) [lit ''/other'']" by code_simp
  have fields: "\<not> trust_gate_cleared ?w" "\<not> trust_auto_resolve ?w"
    using auto by (simp_all add: create_worker_def)
  have "worker_status (observe_worker ?c ?m ?s ?w) = TrustRequired"
    using fields trust_screen_detected by (simp add: observe_worker_def observe_trust_def Let_def)
  then obtain w' where w': "resolve_trust_worker ?n ?i (observe_worker ?c ?m ?s ?w) = Inr w'" "trust_gate_cleared w'"
    by (simp add: resolve_trust_worker_def)
  have "(worker_step ?c)\<^sup>*\<^sup>* ?w w'"
    using step_observe step_resolve [OF w'(1)] by (meson rtranclp.rtrancl_into_rtrancl rtranclp.rtrancl_refl)
  from trust_needs_manual_approval [OF this auto w'(2)] w'(1) show ?thesis by simp
qed

lemma observe_trust_skip:
  "trust_gate_cleared w \<or> \<not> detect_trust_prompt lowered \<Longrightarrow> observe_trust now lowered w = Inr (w, 0)"
  by (auto simp: observe_trust_def)

text \<open>
  a trust prompt on the screen of a worker that is neither cleared nor allowlisted blocks it: every
  prompt is refused, the snapshot of \<^verbatim>\<open>await_ready\<close> would report it blocked, manual resolution is
  accepted, and the same screen never blocks the resolved worker again.
\<close>

theorem trust_prompt_blocks_until_resolved:
  assumes "\<not> trust_gate_cleared w" and "\<not> trust_auto_resolve w"
    and "detect_trust_prompt (to_ascii_lowercase screen_text)"
  shows "case observe_worker canon now screen_text w of blocked \<Rightarrow>
    worker_status blocked = TrustRequired \<and> \<not> is_ok (send_prompt_worker now1 i prompt blocked) \<and>
    (case resolve_trust_worker now2 i blocked of Inl e \<Rightarrow> False | Inr w' \<Rightarrow>
       trust_gate_cleared w' \<and> worker_status w' = Spawning \<and> last_error w' = None \<and>
       is_ok (observe_trust now3 (to_ascii_lowercase screen_text) w'))"
  using assms
  by (simp add: observe_worker_def observe_trust_def Let_def send_prompt_worker_def resolve_trust_worker_def is_ok_def)

lemma misdelivery_status:
  "auto_recover_prompt_misdelivery w \<Longrightarrow> worker_status (observe_misdelivery now k obs w) = ReadyForPrompt"
  "replay_prompt (observe_misdelivery now k obs w) =
     (if auto_recover_prompt_misdelivery w then last_prompt w else replay_prompt w)"
  "prompt_delivery_attempts (observe_misdelivery now k obs w) = prompt_delivery_attempts w"
  "prompt_in_flight (observe_misdelivery now k obs w) = False"
  by (simp_all add: observe_misdelivery_def Let_def)

text \<open>
  C12: recovery of a misdelivered prompt: when a prompt was dispatched and the screen shows that it went
  astray, a worker with recovery on is ready again, and sending no new prompt dispatches exactly the
  same prompt once more.
\<close>

theorem misdelivered_prompt_is_replayed:
  assumes "send_prompt_worker now i prompt w = Inr w1" and "auto_recover_prompt_misdelivery w"
    and "trust_gate_cleared w \<or> \<not> detect_trust_prompt (to_ascii_lowercase screen_text)"
    and "detect_prompt_misdelivery canon screen_text (to_ascii_lowercase screen_text) (last_prompt w1) (worker_cwd w) = Some obs"
  shows "case send_prompt_worker now2 i None (observe_worker canon now1 screen_text w1) of
      Inl e \<Rightarrow> False
    | Inr w2 \<Rightarrow> last_prompt w2 = last_prompt w1 \<and> prompt_in_flight w2 \<and> replay_prompt w2 = None \<and>
        prompt_delivery_attempts w2 = prompt_delivery_attempts w + 2 \<and> worker_status w2 = Running"
proof -
  from assms(1) have w1: "prompt_in_flight w1" "last_prompt w1 \<noteq> None" "trust_gate_cleared w1 = trust_gate_cleared w"
    "worker_cwd w1 = worker_cwd w" "prompt_delivery_attempts w1 = prompt_delivery_attempts w + 1"
    "auto_recover_prompt_misdelivery w1 = auto_recover_prompt_misdelivery w"
    by (auto simp: send_prompt_worker_def split: if_splits option.splits)
  then have "observe_worker canon now1 screen_text w1 = observe_misdelivery now1 0 obs w1"
    using assms(3,4) by (simp add: observe_worker_def observe_trust_skip prompt_misdelivery_is_relevant_def)
  with w1 assms(2) show ?thesis
    by (auto simp: send_prompt_worker_def misdelivery_status next_prompt_def)
qed

text \<open>
  a finished worker is not terminal: one more observation of a ready screen puts a terminated worker
  back to ready, and it accepts the next prompt.
\<close>

theorem terminated_worker_revives:
  assumes "trust_gate_cleared w" and "detect_ready_for_prompt screen_text (to_ascii_lowercase screen_text)"
    and "trim p \<noteq> []"
  shows "worker_status (terminate_worker now w) = Finished \<and>
    worker_status (observe_worker canon now1 screen_text (terminate_worker now w)) = ReadyForPrompt \<and>
    is_ok (send_prompt_worker now2 i (Some p) (observe_worker canon now1 screen_text (terminate_worker now w)))"
proof -
  have "observe_worker canon now1 screen_text (terminate_worker now w) =
      observe_ready now1 0 screen_text (to_ascii_lowercase screen_text) (terminate_worker now w)"
    using assms(1) by (simp add: observe_worker_def observe_trust_skip prompt_misdelivery_is_relevant_def
        terminate_worker_def observe_running_def)
  moreover have "worker_status (observe_ready now1 0 screen_text (to_ascii_lowercase screen_text) v) = ReadyForPrompt" for v
    using assms(2) by (cases "last_error v") (simp_all add: observe_ready_def Let_def)
  ultimately show ?thesis
    using assms(3) by (simp add: send_prompt_worker_def next_prompt_def is_ok_def terminate_worker_def)
qed

text \<open>A worker at the start of a session, for the witnesses.\<close>

definition sample_worker :: worker where
  "sample_worker = (create_worker (\<lambda>p. None) (\<lambda>_. 2) (lit ''w'') (lit ''/repo'') [] True)\<lparr>worker_status := ReadyForPrompt\<rparr>"

theorem trust_prompt_blocks_until_resolved_witness:
  "worker_status (observe_worker (\<lambda>p. None) (\<lambda>_. 3) (lit ''Trust this folder?'') sample_worker) = TrustRequired"
  using trust_prompt_blocks_until_resolved [of sample_worker "lit ''Trust this folder?''" "\<lambda>p. None" "\<lambda>_. 3"]
    trust_screen_detected
  by (simp add: sample_worker_def create_worker_def)

lemma stray_screen:
  "str_lines (lit ''fix it'') = [lit ''fix it'']" "trim (lit ''fix it'') = lit ''fix it''"
  "str_lines (lit ''zsh: command not found: fix it'') = [lit ''zsh: command not found: fix it'']"
  "line_cwd (lit ''zsh: command not found: fix it'') = None"
  by (simp_all add: str_defs lit_def str_lines.simps line_cwd_def is_shell_prompt_token_def)

lemma stray_text:
  "str_contains (to_ascii_lowercase (lit ''zsh: command not found: fix it'')) (to_ascii_lowercase (lit ''fix it''))"
  "any_contained (to_ascii_lowercase (lit ''zsh: command not found: fix it''))
     [''command not found'', ''syntax error near unexpected token'', ''parse error near'',
      ''no such file or directory'', ''unknown command'']"
  "to_ascii_lowercase (lit ''fix it'') \<noteq> []" "lit ''fix it'' \<noteq> []"
  "\<not> detect_trust_prompt (to_ascii_lowercase (lit ''zsh: command not found: fix it''))"
  by code_simp+

lemma stray_prompt:
  "detect_prompt_misdelivery (\<lambda>p. None) (lit ''zsh: command not found: fix it'')
     (to_ascii_lowercase (lit ''zsh: command not found: fix it'')) (Some (lit ''fix it'')) (lit ''/repo'') =
   Some \<lparr>obs_target = Target_Shell, obs_cwd = None\<rparr>"
  unfolding detect_prompt_misdelivery_def
  by (simp add: stray_screen stray_text detect_observed_shell_cwd_def Let_def)

theorem misdelivered_prompt_is_replayed_witness:
  "\<exists>w1 w2. send_prompt_worker (\<lambda>_. 3) (lit ''w'') (Some (lit ''fix it'')) sample_worker = Inr w1 \<and>
     send_prompt_worker (\<lambda>_. 5) (lit ''w'') None (observe_worker (\<lambda>p. None) (\<lambda>_. 4)
       (lit ''zsh: command not found: fix it'') w1) = Inr w2 \<and> last_prompt w2 = Some (lit ''fix it'')"
proof -
  have sample: "worker_status sample_worker = ReadyForPrompt" "auto_recover_prompt_misdelivery sample_worker"
    "worker_cwd sample_worker = lit ''/repo''" by (simp_all add: sample_worker_def create_worker_def)
  then obtain w1 where w1: "send_prompt_worker (\<lambda>_. 3) (lit ''w'') (Some (lit ''fix it'')) sample_worker = Inr w1"
    "last_prompt w1 = Some (lit ''fix it'')"
    by (simp add: send_prompt_worker_def next_prompt_def stray_screen stray_text)
  have "\<exists>w2. send_prompt_worker (\<lambda>_. 5) (lit ''w'') None (observe_worker (\<lambda>p. None) (\<lambda>_. 4)
      (lit ''zsh: command not found: fix it'') w1) = Inr w2 \<and> last_prompt w2 = Some (lit ''fix it'')"
    using misdelivered_prompt_is_replayed [OF w1(1), of "lit ''zsh: command not found: fix it''" "\<lambda>p. None"
        "\<lparr>obs_target = Target_Shell, obs_cwd = None\<rparr>" "\<lambda>_. 5" "\<lambda>_. 4"] sample w1(2) stray_text(5) stray_prompt
    by (cases "send_prompt_worker (\<lambda>_. 5) (lit ''w'') None (observe_worker (\<lambda>p. None) (\<lambda>_. 4)
      (lit ''zsh: command not found: fix it'') w1)") simp_all
  with w1(1) show ?thesis by blast
qed

lemma ready_screen: "any_contained (to_ascii_lowercase (lit ''Ready for input''))
    [''ready for input'', ''ready for your input'', ''ready for prompt'', ''send a message'']"
  by code_simp

theorem terminated_worker_revives_witness:
  "worker_status (observe_worker (\<lambda>p. None) (\<lambda>_. 4) (lit ''Ready for input'')
     (terminate_worker (\<lambda>_. 3) (sample_worker\<lparr>trust_gate_cleared := True\<rparr>))) = ReadyForPrompt"
  using terminated_worker_revives [of "sample_worker\<lparr>trust_gate_cleared := True\<rparr>" "lit ''Ready for input''"
      "lit ''fix it''" "\<lambda>_. 3" "\<lambda>p. None" "\<lambda>_. 4"] ready_screen
  by (simp add: detect_ready_for_prompt_def stray_screen stray_text)

section \<open>The registry of workers\<close>

text \<open>One call on the registry.  Creation is a step as long as the counter has not wrapped.\<close>

inductive worker_registry_step :: "canonicalize \<Rightarrow> worker_registry \<Rightarrow> worker_registry \<Rightarrow> bool" for canon where
  reg_create: "counter r < counter r + 1 \<Longrightarrow>
    worker_registry_step canon r (snd (worker_create canon now cwd roots auto_recover r))"
| reg_observe: "worker_registry_step canon r (snd (worker_observe canon now i screen_text r))"
| reg_resolve: "worker_registry_step canon r (snd (worker_resolve_trust now i r))"
| reg_send: "worker_registry_step canon r (snd (worker_send_prompt now i prompt r))"
| reg_restart: "worker_registry_step canon r (snd (worker_restart now i r))"
| reg_terminate: "worker_registry_step canon r (snd (worker_terminate now i r))"
| reg_completion: "worker_registry_step canon r (snd (worker_observe_completion now i fr n r))"

interpretation worker_ids: id_scheme worker_new_id
  by unfold_locales (auto simp: worker_new_id_def dest: make_id_inject)

definition workers_ok :: "worker_registry \<Rightarrow> bool" where
  "workers_ok r \<longleftrightarrow> (\<forall>i w. worker_get r i = Some w \<longrightarrow> worker_id w = i \<and> worker_ok w)"

lemma workers_ok_new: "workers_ok registry_new"
  by (simp add: workers_ok_def worker_get_def)

lemma workers_ok_modify:
  assumes "workers_ok r" and "\<And>w w'. f w = Inr w' \<Longrightarrow> worker_step canon w w'"
  shows "workers_ok (snd (reg_modify m i f r))"
proof (cases "reg_get r i")
  case None
  with assms(1) show ?thesis by (simp add: reg_modify_def)
next
  case (Some w)
  show ?thesis
  proof (cases "f w")
    case (Inr w')
    from assms(1) Some have "worker_id w = i" "worker_ok w" by (auto simp: workers_ok_def worker_get_def)
    with worker_ok_step [OF assms(2) [OF Inr]] same_worker_step [OF assms(2) [OF Inr]]
    have "worker_id w' = i" "worker_ok w'" by (simp_all add: same_worker_def)
    with assms(1) Some Inr show ?thesis by (simp add: reg_modify_def workers_ok_def worker_get_def)
  qed (use assms(1) Some in \<open>simp add: reg_modify_def\<close>)
qed

lemmas worker_registry_defs = worker_observe_def worker_resolve_trust_def worker_send_prompt_def
  worker_restart_def worker_terminate_def worker_observe_completion_def

lemma workers_ok_create: "workers_ok r \<Longrightarrow> workers_ok (snd (worker_create canon now cwd roots auto_recover r))"
  by (simp add: worker_create_def Let_def workers_ok_def worker_get_def create_worker_fields worker_ok_create)

lemma workers_ok_step: "worker_registry_step canon r r' \<Longrightarrow> workers_ok r \<Longrightarrow> workers_ok r'"
  by (induction rule: worker_registry_step.induct)
    (auto simp: worker_registry_defs intro: worker_step.intros workers_ok_create
      intro!: workers_ok_modify [where canon = canon])

lemma worker_ids_step:
  "worker_registry_step canon r r' \<Longrightarrow> worker_ids.ids_issued r \<Longrightarrow> worker_ids.ids_issued r'"
  by (induction rule: worker_registry_step.induct)
    (auto simp: worker_registry_defs worker_create_def Let_def
      intro: worker_ids.ids_issued_modify worker_ids.ids_issued_create)

interpretation worker_registry_life: step_invariant
    "\<lambda>r. r = registry_new" "worker_registry_step canon" "\<lambda>r. workers_ok r \<and> worker_ids.ids_issued r" for canon
  by unfold_locales
    (auto simp: workers_ok_new intro: worker_ids.ids_issued_new workers_ok_step worker_ids_step)

text \<open>
  C14: in every state that calls on the registry reach, each worker is stored under its own id and keeps
  the invariant of its state machine, and creating one more uses a new id: no worker is overwritten.
\<close>

theorem worker_registry_invariant:
  assumes "(worker_registry_step canon)\<^sup>*\<^sup>* registry_new r" and "counter r < counter r + 1"
    and "worker_create canon now cwd roots auto_recover r = (w, r')"
  shows "worker_get r (worker_id w) = None \<and> worker_get r' (worker_id w) = Some w \<and>
    (\<forall>j. worker_get r j \<noteq> None \<longrightarrow> worker_get r' j = worker_get r j) \<and>
    (\<forall>j v. worker_get r' j = Some v \<longrightarrow> worker_id v = j \<and> worker_ok v)"
proof -
  have inv: "workers_ok r" "worker_ids.ids_issued r"
    using worker_registry_life.reachable_inv [OF _ assms(1)] by auto
  have fresh: "worker_get r (worker_new_id (now 0) (counter r + 1)) = None"
    using worker_ids.next_id_fresh [OF inv(2) assms(2)] by (simp add: worker_get_def reg_get_None_iff)
  have "workers_ok r'" using workers_ok_create [OF inv(1)] assms(3) by (metis snd_conv)
  with assms(3) fresh show ?thesis
    by (auto simp: worker_create_def Let_def worker_get_def workers_ok_def create_worker_fields)
qed

theorem worker_registry_invariant_witness:
  "worker_get registry_new (worker_id (fst (worker_create (\<lambda>p. None) (\<lambda>_. 2) (lit ''/repo'') [] True registry_new))) = None"
  using worker_registry_invariant [of "\<lambda>p. None" registry_new "\<lambda>_. 2" "lit ''/repo''" "[]" True]
  by (auto simp: registry_new_def prod_eq_iff)

end
