(* ===== verification/RecoveryRecipes.thy ===== *)
theory RecoveryRecipes imports WorkerBoot begin

text \<open>
  Automatic recovery (\<^verbatim>\<open>crates/runtime/src/recovery_recipes.rs\<close>): the recipe of each failure scenario,
  one attempt before escalation, and the structured log of attempts.  The attempt counts, a
  \<^verbatim>\<open>HashMap\<close> read through \<^verbatim>\<open>entry(..).or_insert(0)\<close>, are a map; a missing key reads as 0.
\<close>

section \<open>Scenarios and recipes\<close>

datatype failure_scenario =
    TrustPromptUnresolved | PromptMisdelivery | StaleBranch | CompileRedCrossCrate | McpHandshakeFailure
  | PartialPluginStartup | ProviderFailure

definition all_scenarios :: "failure_scenario list" where
  "all_scenarios = [TrustPromptUnresolved, PromptMisdelivery, StaleBranch, CompileRedCrossCrate,
     McpHandshakeFailure, PartialPluginStartup, ProviderFailure]"

fun from_worker_failure_kind :: "worker_failure_kind \<Rightarrow> failure_scenario" where
  "from_worker_failure_kind TrustGate = TrustPromptUnresolved"
| "from_worker_failure_kind PromptDelivery = PromptMisdelivery"
| "from_worker_failure_kind Protocol = McpHandshakeFailure"
| "from_worker_failure_kind Provider = ProviderFailure"

fun show_scenario :: "failure_scenario \<Rightarrow> rstring" where
  "show_scenario TrustPromptUnresolved = lit ''trust_prompt_unresolved''"
| "show_scenario PromptMisdelivery = lit ''prompt_misdelivery''"
| "show_scenario StaleBranch = lit ''stale_branch''"
| "show_scenario CompileRedCrossCrate = lit ''compile_red_cross_crate''"
| "show_scenario McpHandshakeFailure = lit ''mcp_handshake_failure''"
| "show_scenario PartialPluginStartup = lit ''partial_plugin_startup''"
| "show_scenario ProviderFailure = lit ''provider_failure''"

datatype recovery_step =
    AcceptTrustPrompt | RedirectPromptToAgent | RebaseBranch | CleanBuild | RetryMcpHandshake u64
  | RestartPlugin rstring | RestartWorker | EscalateToHuman rstring

datatype escalation_policy = AlertHuman | LogAndContinue | Abort

record recovery_recipe =
  recipe_scenario :: failure_scenario
  recipe_steps :: "recovery_step list"
  max_attempts :: u32
  escalation :: escalation_policy

datatype recovery_result =
    Recovered u32
  | PartialRecovery "recovery_step list" "recovery_step list"
  | EscalationRequired rstring

datatype recovery_event =
    RecoveryAttempted failure_scenario recovery_recipe recovery_result
  | RecoverySucceeded | RecoveryFailed | Escalated

record recovery_context =
  attempts :: "failure_scenario \<Rightarrow> u32 option"
  recovery_events :: "recovery_event list"
  fail_at_step :: "nat option"

definition context_new :: recovery_context where
  "context_new = \<lparr>attempts = Map.empty, recovery_events = [], fail_at_step = None\<rparr>"

definition with_fail_at_step :: "nat \<Rightarrow> recovery_context \<Rightarrow> recovery_context" where
  "with_fail_at_step index ctx = ctx\<lparr>fail_at_step := Some index\<rparr>"

definition attempt_count :: "recovery_context \<Rightarrow> failure_scenario \<Rightarrow> u32" where
  "attempt_count ctx scenario = (case attempts ctx scenario of Some n \<Rightarrow> n | None \<Rightarrow> 0)"

definition recipe_for :: "failure_scenario \<Rightarrow> recovery_recipe" where
  "recipe_for scenario = (case scenario of
     TrustPromptUnresolved \<Rightarrow> \<lparr>recipe_scenario = scenario, recipe_steps = [AcceptTrustPrompt],
       max_attempts = 1, escalation = AlertHuman\<rparr>
   | PromptMisdelivery \<Rightarrow> \<lparr>recipe_scenario = scenario, recipe_steps = [RedirectPromptToAgent],
       max_attempts = 1, escalation = AlertHuman\<rparr>
   | StaleBranch \<Rightarrow> \<lparr>recipe_scenario = scenario, recipe_steps = [RebaseBranch, CleanBuild],
       max_attempts = 1, escalation = AlertHuman\<rparr>
   | CompileRedCrossCrate \<Rightarrow> \<lparr>recipe_scenario = scenario, recipe_steps = [CleanBuild],
       max_attempts = 1, escalation = AlertHuman\<rparr>
   | McpHandshakeFailure \<Rightarrow> \<lparr>recipe_scenario = scenario, recipe_steps = [RetryMcpHandshake 5000],
       max_attempts = 1, escalation = Abort\<rparr>
   | PartialPluginStartup \<Rightarrow> \<lparr>recipe_scenario = scenario,
       recipe_steps = [RestartPlugin (lit ''stalled''), RetryMcpHandshake 3000],
       max_attempts = 1, escalation = LogAndContinue\<rparr>
   | ProviderFailure \<Rightarrow> \<lparr>recipe_scenario = scenario, recipe_steps = [RestartWorker],
       max_attempts = 1, escalation = AlertHuman\<rparr>)"

section \<open>One attempt\<close>

text \<open>
  The loop over the steps: the steps executed before the simulated failure, and whether it was hit;
  \<open>i\<close> is the enumeration index.
\<close>

fun execute_steps :: "nat option \<Rightarrow> nat \<Rightarrow> recovery_step list \<Rightarrow> recovery_step list \<times> bool" where
  "execute_steps fail_index i [] = ([], False)"
| "execute_steps fail_index i (step # rest) =
     (if fail_index = Some i then ([], True)
      else (case execute_steps fail_index (Suc i) rest of (executed, failed) \<Rightarrow> (step # executed, failed)))"

definition attempt_result :: "failure_scenario \<Rightarrow> recovery_recipe \<Rightarrow> nat option \<Rightarrow> recovery_result" where
  "attempt_result scenario recipe fail_index =
     (case execute_steps fail_index 0 (recipe_steps recipe) of (executed, failed) \<Rightarrow>
        if failed then
          (let remaining = drop (length executed) (recipe_steps recipe)
           in if executed = [] then EscalationRequired (lit ''recovery failed at first step for '' @ show_scenario scenario)
              else PartialRecovery executed remaining)
        else Recovered (of_nat (length (recipe_steps recipe))))"

fun result_event :: "recovery_result \<Rightarrow> recovery_event" where
  "result_event (Recovered n) = RecoverySucceeded"
| "result_event (PartialRecovery done_steps left) = RecoveryFailed"
| "result_event (EscalationRequired reason) = Escalated"

definition attempt_recovery :: "failure_scenario \<Rightarrow> recovery_context \<Rightarrow> recovery_result \<times> recovery_context" where
  "attempt_recovery scenario ctx =
     (let recipe = recipe_for scenario; n = attempt_count ctx scenario;
          ctx1 = ctx\<lparr>attempts := (attempts ctx)(scenario \<mapsto> n)\<rparr>
      in if n \<ge> max_attempts recipe then
           (let result = EscalationRequired (lit ''max recovery attempts ('' @ show_nat (unat (max_attempts recipe)) @
                  lit '') exceeded for '' @ show_scenario scenario)
            in (result, ctx1\<lparr>recovery_events := recovery_events ctx1 @
                  [RecoveryAttempted scenario recipe result, Escalated]\<rparr>))
         else
           (let result = attempt_result scenario recipe (fail_at_step ctx1)
            in (result, ctx1\<lparr>attempts := (attempts ctx)(scenario \<mapsto> n + 1),
                  recovery_events := recovery_events ctx1 @
                    [RecoveryAttempted scenario recipe result, result_event result]\<rparr>)))"

section \<open>What an attempt does\<close>

lemma execute_steps_spec:
  "execute_steps f i steps = (case f of
      None \<Rightarrow> (steps, False)
    | Some n \<Rightarrow> if i \<le> n \<and> n < i + length steps then (take (n - i) steps, True) else (steps, False))"
proof (induction steps arbitrary: i)
  case Nil
  then show ?case by (cases f) simp_all
next
  case (Cons s ss)
  show ?case
  proof (cases f)
    case (Some n)
    have "take (n - i) (s # ss) = s # take (n - Suc i) ss" if "i < n"
      using that by (simp add: take_Cons')
    with Some Cons show ?thesis by (auto split: if_splits)
  qed (use Cons [of "Suc i"] in simp)
qed

text \<open>
  one attempt of a recipe executes exactly the steps before the failing one: it recovers when no
  step fails, escalates when the first one does, and otherwise reports the executed and the remaining
  steps, which together are the recipe.
\<close>

theorem attempt_result_spec:
  "attempt_result scenario recipe fail_index = (case fail_index of
      None \<Rightarrow> Recovered (of_nat (length (recipe_steps recipe)))
    | Some n \<Rightarrow>
        if length (recipe_steps recipe) \<le> n then Recovered (of_nat (length (recipe_steps recipe)))
        else if n = 0 then EscalationRequired (lit ''recovery failed at first step for '' @ show_scenario scenario)
        else PartialRecovery (take n (recipe_steps recipe)) (drop n (recipe_steps recipe)))"
  by (cases fail_index) (auto simp: attempt_result_def execute_steps_spec Let_def min_def)

section \<open>Sequences of attempts\<close>

primrec run_attempts :: "failure_scenario list \<Rightarrow> recovery_context \<Rightarrow> recovery_context" where
  "run_attempts [] ctx = ctx"
| "run_attempts (s # ss) ctx = run_attempts ss (snd (attempt_recovery s ctx))"

lemma run_attempts_append: "run_attempts (xs @ ys) ctx = run_attempts ys (run_attempts xs ctx)"
  by (induction xs arbitrary: ctx) simp_all

text \<open>What the policy promises: one real attempt for each scenario, then only escalation.\<close>

definition promised_result :: "nat option \<Rightarrow> failure_scenario list \<Rightarrow> failure_scenario \<Rightarrow> recovery_result" where
  "promised_result fail_index earlier s =
     (if s \<in> set earlier then
        EscalationRequired (lit ''max recovery attempts (1) exceeded for '' @ show_scenario s)
      else attempt_result s (recipe_for s) fail_index)"

primrec promised_log :: "nat option \<Rightarrow> failure_scenario list \<Rightarrow> failure_scenario list \<Rightarrow> recovery_event list" where
  "promised_log fail_index earlier [] = []"
| "promised_log fail_index earlier (s # ss) =
     RecoveryAttempted s (recipe_for s) (promised_result fail_index earlier s) #
     result_event (promised_result fail_index earlier s) # promised_log fail_index (earlier @ [s]) ss"

lemma max_attempts_recipe [simp]: "max_attempts (recipe_for s) = 1"
  by (cases s) (simp_all add: recipe_for_def)

lemma attempt_recovery_cases:
  "attempt_recovery s ctx = (if 1 \<le> attempt_count ctx s
     then (EscalationRequired (lit ''max recovery attempts (1) exceeded for '' @ show_scenario s),
           ctx\<lparr>attempts := (attempts ctx)(s \<mapsto> attempt_count ctx s), recovery_events := recovery_events ctx @
             [RecoveryAttempted s (recipe_for s)
                (EscalationRequired (lit ''max recovery attempts (1) exceeded for '' @ show_scenario s)), Escalated]\<rparr>)
     else (attempt_result s (recipe_for s) (fail_at_step ctx),
           ctx\<lparr>attempts := (attempts ctx)(s \<mapsto> attempt_count ctx s + 1), recovery_events := recovery_events ctx @
             [RecoveryAttempted s (recipe_for s) (attempt_result s (recipe_for s) (fail_at_step ctx)),
              result_event (attempt_result s (recipe_for s) (fail_at_step ctx))]\<rparr>))"
proof -
  have "show_nat (unat (1 :: u32)) = lit ''1''" by (simp add: show_nat.simps lit_def)
  then show ?thesis by (simp add: attempt_recovery_def Let_def) (simp add: lit_def)
qed

lemma attempt_count_update [simp]:
  "attempt_count (ctx\<lparr>attempts := m(s \<mapsto> n)\<rparr>) t = (if t = s then n else attempt_count (ctx\<lparr>attempts := m\<rparr>) t)"
  "attempt_count (ctx\<lparr>recovery_events := es\<rparr>) t = attempt_count ctx t"
  "attempt_count (ctx\<lparr>attempts := attempts ctx\<rparr>) t = attempt_count ctx t"
  by (simp_all add: attempt_count_def)

definition tracks :: "failure_scenario list \<Rightarrow> recovery_context \<Rightarrow> bool" where
  "tracks earlier ctx \<longleftrightarrow> (\<forall>s. attempt_count ctx s = (if s \<in> set earlier then 1 else 0))"

lemma attempt_tracked:
  assumes "tracks earlier ctx"
  shows "fst (attempt_recovery s ctx) = promised_result (fail_at_step ctx) earlier s"
    and "tracks (earlier @ [s]) (snd (attempt_recovery s ctx))"
    and "fail_at_step (snd (attempt_recovery s ctx)) = fail_at_step ctx"
    and "recovery_events (snd (attempt_recovery s ctx)) = recovery_events ctx @
      [RecoveryAttempted s (recipe_for s) (promised_result (fail_at_step ctx) earlier s),
       result_event (promised_result (fail_at_step ctx) earlier s)]"
  using assms by (auto simp: attempt_recovery_cases promised_result_def tracks_def)

lemma run_attempts_tracked:
  "tracks earlier ctx \<Longrightarrow> tracks (earlier @ ss) (run_attempts ss ctx) \<and>
    fail_at_step (run_attempts ss ctx) = fail_at_step ctx \<and>
    recovery_events (run_attempts ss ctx) = recovery_events ctx @ promised_log (fail_at_step ctx) earlier ss"
proof (induction ss arbitrary: earlier ctx)
  case (Cons s ss)
  from Cons.IH [OF attempt_tracked(2) [OF Cons.prems]] show ?case
    by (simp add: attempt_tracked(3,4) [OF Cons.prems])
qed simp

text \<open>
  C10: for any sequence of failures, starting from a fresh context, the log and the results are the ones
  the policy promises: each scenario is tried automatically once, the first time it occurs, every later
  occurrence escalates, each attempt is logged with its recipe and followed by its outcome, and no
  scenario is ever counted more than once.
\<close>

theorem one_attempt_then_escalation:
  "recovery_events (run_attempts (ss @ [s]) (with_fail_at_step n context_new)) = promised_log (Some n) [] (ss @ [s]) \<and>
   fst (attempt_recovery s (run_attempts ss (with_fail_at_step n context_new))) = promised_result (Some n) ss s \<and>
   fst (attempt_recovery s (run_attempts ss context_new)) = promised_result None ss s \<and>
   attempt_count (run_attempts ss context_new) t = (if t \<in> set ss then 1 else 0)"
proof -
  let ?c = "with_fail_at_step n context_new"
  have new: "tracks [] ?c" "tracks [] context_new" "fail_at_step ?c = Some n" "fail_at_step context_new = None"
    "recovery_events ?c = []"
    by (simp_all add: tracks_def attempt_count_def context_new_def with_fail_at_step_def)
  have "tracks ss (run_attempts ss ?c)" "tracks ss (run_attempts ss context_new)"
    using run_attempts_tracked [OF new(1)] run_attempts_tracked [OF new(2)] by simp_all
  with new show ?thesis
    using run_attempts_tracked [OF new(1), of ss] run_attempts_tracked [OF new(2), of ss]
      run_attempts_tracked [OF new(1), of "ss @ [s]"]
    by (simp add: attempt_tracked(1)) (simp add: tracks_def)
qed

end
