(* ===== verification/TaskRegistry.thy ===== *)
theory TaskRegistry imports Registry "HOL-Library.Multiset" begin

text \<open>
  Task packets (\<^verbatim>\<open>crates/runtime/src/task_packet.rs\<close>) and the task registry
  (\<^verbatim>\<open>crates/runtime/src/task_registry.rs\<close>): validation of a packet with all its errors, and the
  operations of the registry.  \<^verbatim>\<open>list\<close> walks a \<^verbatim>\<open>HashMap\<close>, whose order is unspecified: its result is a
  multiset.
\<close>

section \<open>Task packets\<close>

record task_packet =
  objective :: rstring
  scope :: rstring
  repo :: rstring
  branch_policy :: rstring
  acceptance_tests :: "rstring list"
  commit_policy :: rstring
  reporting_contract :: rstring
  packet_escalation :: rstring

definition packet_error_text :: "rstring list \<Rightarrow> rstring" where
  "packet_error_text es = join (lit ''; '') es"

definition validate_required :: "rstring \<Rightarrow> rstring \<Rightarrow> rstring list \<Rightarrow> rstring list" where
  "validate_required field v errors =
     (if trim v = [] then errors @ [field @ lit '' must not be empty''] else errors)"

fun validate_tests :: "nat \<Rightarrow> rstring list \<Rightarrow> rstring list \<Rightarrow> rstring list" where
  "validate_tests index [] errors = errors"
| "validate_tests index (t # ts) errors = validate_tests (Suc index) ts
     (if trim t = [] then errors @ [lit ''acceptance_tests contains an empty value at index '' @ show_nat index]
      else errors)"

text \<open>\<^verbatim>\<open>ValidatedPacket\<close> is a newtype that only \<^verbatim>\<open>validate_packet\<close> builds.\<close>

datatype validated_packet = ValidatedPacket (into_inner: task_packet)

definition validate_packet :: "task_packet \<Rightarrow> rstring list + validated_packet" where
  "validate_packet p =
     (let e1 = validate_required (lit ''objective'') (objective p) [];
          e2 = validate_required (lit ''scope'') (scope p) e1;
          e3 = validate_required (lit ''repo'') (repo p) e2;
          e4 = validate_required (lit ''branch_policy'') (branch_policy p) e3;
          e5 = validate_required (lit ''commit_policy'') (commit_policy p) e4;
          e6 = validate_required (lit ''reporting_contract'') (reporting_contract p) e5;
          e7 = validate_required (lit ''escalation_policy'') (packet_escalation p) e6;
          errors = validate_tests 0 (acceptance_tests p) e7
      in if errors = [] then Inr (ValidatedPacket p) else Inl errors)"

section \<open>Tasks\<close>

datatype task_status = Task_Created | Task_Running | Task_Completed | Task_Failed | Task_Stopped

fun show_task_status :: "task_status \<Rightarrow> rstring" where
  "show_task_status Task_Created = lit ''created''"
| "show_task_status Task_Running = lit ''running''"
| "show_task_status Task_Completed = lit ''completed''"
| "show_task_status Task_Failed = lit ''failed''"
| "show_task_status Task_Stopped = lit ''stopped''"

record task_message =
  msg_role :: rstring
  msg_content :: rstring
  msg_timestamp :: u64

record task =
  task_id :: rstring
  task_prompt :: rstring
  task_description :: "rstring option"
  task_packet_of :: "task_packet option"
  task_status :: task_status
  task_created_at :: u64
  task_updated_at :: u64
  task_messages :: "task_message list"
  task_output_text :: rstring
  task_team_id :: "rstring option"

type_synonym task_registry = "task registry"

definition task_new_id :: "u64 \<Rightarrow> u64 \<Rightarrow> rstring" where
  "task_new_id = make_id (lit ''task_'')"

definition task_missing :: "rstring \<Rightarrow> rstring" where
  "task_missing i = lit ''task not found: '' @ i"

definition create_task ::
    "clock \<Rightarrow> rstring \<Rightarrow> rstring option \<Rightarrow> task_packet option \<Rightarrow> task_registry \<Rightarrow> task \<times> task_registry" where
  "create_task now prompt description packet r =
     (let r1 = r\<lparr>counter := counter r + 1\<rparr>; ts = now 0; i = task_new_id ts (counter r1);
          t = \<lparr>task_id = i, task_prompt = prompt, task_description = description, task_packet_of = packet,
            task_status = Task_Created, task_created_at = ts, task_updated_at = ts, task_messages = [],
            task_output_text = [], task_team_id = None\<rparr>
      in (t, reg_insert i t r1))"

definition task_create :: "clock \<Rightarrow> rstring \<Rightarrow> rstring option \<Rightarrow> task_registry \<Rightarrow> task \<times> task_registry" where
  "task_create now prompt description = create_task now prompt description None"

definition task_create_from_packet ::
    "clock \<Rightarrow> task_packet \<Rightarrow> task_registry \<Rightarrow> (rstring list + task) \<times> task_registry" where
  "task_create_from_packet now packet r = (case validate_packet packet of
     Inl errors \<Rightarrow> (Inl errors, r)
   | Inr v \<Rightarrow> (let p = into_inner v; (t, r') = create_task now (objective p) (Some (scope p)) (Some p) r
       in (Inr t, r')))"

definition task_get :: "task_registry \<Rightarrow> rstring \<Rightarrow> task option" where
  "task_get r i = reg_get r i"

definition task_list :: "task_registry \<Rightarrow> task_status option \<Rightarrow> task multiset" where
  "task_list r status_filter = mset (filter (\<lambda>t. case status_filter of None \<Rightarrow> True | Some s \<Rightarrow> task_status t = s)
     (map snd (entries r)))"

definition is_terminal :: "task_status \<Rightarrow> bool" where
  "is_terminal s \<longleftrightarrow> (case s of Task_Completed \<Rightarrow> True | Task_Failed \<Rightarrow> True | Task_Stopped \<Rightarrow> True | _ \<Rightarrow> False)"

definition stop_task :: "clock \<Rightarrow> rstring \<Rightarrow> task \<Rightarrow> rstring + task" where
  "stop_task now i t =
     (if is_terminal (task_status t) then
        Inl (lit ''task '' @ i @ lit '' is already in terminal state: '' @ show_task_status (task_status t))
      else Inr (t\<lparr>task_status := Task_Stopped, task_updated_at := now 0\<rparr>))"

definition task_stop :: "clock \<Rightarrow> rstring \<Rightarrow> task_registry \<Rightarrow> (rstring + task) \<times> task_registry" where
  "task_stop now i = reg_modify (task_missing i) i (stop_task now i)"

definition task_update :: "clock \<Rightarrow> rstring \<Rightarrow> rstring \<Rightarrow> task_registry \<Rightarrow> (rstring + task) \<times> task_registry" where
  "task_update now i message = reg_modify (task_missing i) i (\<lambda>t. Inr (t\<lparr>
     task_messages := task_messages t @ [\<lparr>msg_role = lit ''user'', msg_content = message, msg_timestamp = now 0\<rparr>],
     task_updated_at := now 1\<rparr>))"

definition task_output :: "task_registry \<Rightarrow> rstring \<Rightarrow> rstring + rstring" where
  "task_output r i = (case reg_get r i of None \<Rightarrow> Inl (task_missing i) | Some t \<Rightarrow> Inr (task_output_text t))"

text \<open>The three operations that return \<^verbatim>\<open>Result<(), String>\<close>.\<close>

definition unit_result :: "('e + 'a) \<times> 's \<Rightarrow> ('e + unit) \<times> 's" where
  "unit_result p = (map_sum id (\<lambda>_. ()) (fst p), snd p)"

definition task_append_output ::
    "clock \<Rightarrow> rstring \<Rightarrow> rstring \<Rightarrow> task_registry \<Rightarrow> (rstring + unit) \<times> task_registry" where
  "task_append_output now i chunk r = unit_result (reg_modify (task_missing i) i (\<lambda>t. Inr (t\<lparr>
     task_output_text := task_output_text t @ chunk, task_updated_at := now 0\<rparr>)) r)"

definition task_set_status ::
    "clock \<Rightarrow> rstring \<Rightarrow> task_status \<Rightarrow> task_registry \<Rightarrow> (rstring + unit) \<times> task_registry" where
  "task_set_status now i status r = unit_result (reg_modify (task_missing i) i (\<lambda>t. Inr (t\<lparr>
     task_status := status, task_updated_at := now 0\<rparr>)) r)"

definition task_assign_team ::
    "clock \<Rightarrow> rstring \<Rightarrow> rstring \<Rightarrow> task_registry \<Rightarrow> (rstring + unit) \<times> task_registry" where
  "task_assign_team now i team r = unit_result (reg_modify (task_missing i) i (\<lambda>t. Inr (t\<lparr>
     task_team_id := Some team, task_updated_at := now 0\<rparr>)) r)"

definition task_remove :: "rstring \<Rightarrow> task_registry \<Rightarrow> task option \<times> task_registry" where
  "task_remove i r = (reg_get r i, reg_delete i r)"

definition task_len :: "task_registry \<Rightarrow> nat" where
  "task_len r = length (entries r)"

section \<open>Validation\<close>

definition required_fields :: "task_packet \<Rightarrow> (rstring \<times> rstring) list" where
  "required_fields p = [(lit ''objective'', objective p), (lit ''scope'', scope p), (lit ''repo'', repo p),
     (lit ''branch_policy'', branch_policy p), (lit ''commit_policy'', commit_policy p),
     (lit ''reporting_contract'', reporting_contract p), (lit ''escalation_policy'', packet_escalation p)]"

definition blank :: "rstring \<Rightarrow> bool" where
  "blank v \<longleftrightarrow> trim v = []"

definition packet_errors :: "task_packet \<Rightarrow> rstring list" where
  "packet_errors p = map (\<lambda>(f, v). f @ lit '' must not be empty'') (filter (\<lambda>(f, v). blank v) (required_fields p)) @
     map (\<lambda>(k, t). lit ''acceptance_tests contains an empty value at index '' @ show_nat k)
       (filter (\<lambda>(k, t). blank t) (List.enumerate 0 (acceptance_tests p)))"

lemma validate_tests_eq: "validate_tests k ts es = es @
    map (\<lambda>(k, t). lit ''acceptance_tests contains an empty value at index '' @ show_nat k)
      (filter (\<lambda>(k, t). blank t) (List.enumerate k ts))"
  by (induction ts arbitrary: k es) (simp_all add: blank_def)

lemma validate_required_eq: "validate_required f v es = es @ (if blank v then [f @ lit '' must not be empty''] else [])"
  by (simp add: validate_required_def blank_def)

lemma packet_errors_Nil: "packet_errors p = [] \<longleftrightarrow>
    \<not> list_ex blank (map snd (required_fields p)) \<and> \<not> list_ex blank (acceptance_tests p)"
proof -
  have "filter (\<lambda>(k, t). blank t) (List.enumerate k ts) = [] \<longleftrightarrow> \<not> list_ex blank ts" for k ts
    by (induction ts arbitrary: k) auto
  then show ?thesis by (auto simp: packet_errors_def filter_empty_conv list_ex_iff)
qed

lemma validate_packet_eq:
  "validate_packet p = (if packet_errors p = [] then Inr (ValidatedPacket p) else Inl (packet_errors p))"
proof -
  have fields: "foldl (\<lambda>es (f, v). validate_required f v es) es fs =
      es @ map (\<lambda>(f, v). f @ lit '' must not be empty'') (filter (\<lambda>(f, v). blank v) fs)" for es fs
    by (induction fs arbitrary: es) (auto simp: validate_required_eq)
  have "validate_packet p =
      (let errors = validate_tests 0 (acceptance_tests p) (foldl (\<lambda>es (f, v). validate_required f v es) [] (required_fields p))
       in if errors = [] then Inr (ValidatedPacket p) else Inl errors)"
    unfolding validate_packet_def required_fields_def Let_def foldl.simps prod.case by (rule refl)
  then show ?thesis
    unfolding fields validate_tests_eq packet_errors_def Let_def append_Nil .
qed

text \<open>
  a packet is accepted, unchanged, exactly when no required field and no acceptance test is blank;
  otherwise the error holds one message for each blank field and each blank test, in order.
\<close>

theorem validate_packet_spec:
  "validate_packet p = (if packet_errors p = [] then Inr (ValidatedPacket p) else Inl (packet_errors p)) \<and>
   (packet_errors p = [] \<longleftrightarrow>
      \<not> list_ex blank (map snd (required_fields p)) \<and> \<not> list_ex blank (acceptance_tests p))"
  by (rule conjI, rule validate_packet_eq, rule packet_errors_Nil)

section \<open>The registry\<close>

inductive task_step :: "task_registry \<Rightarrow> task_registry \<Rightarrow> bool" where
  t_create: "counter r < counter r + 1 \<Longrightarrow> task_step r (snd (task_create now prompt description r))"
| t_packet: "counter r < counter r + 1 \<Longrightarrow> task_step r (snd (task_create_from_packet now packet r))"
| t_stop: "task_step r (snd (task_stop now i r))"
| t_update: "task_step r (snd (task_update now i message r))"
| t_append: "task_step r (snd (task_append_output now i chunk r))"
| t_status: "task_step r (snd (task_set_status now i status r))"
| t_team: "task_step r (snd (task_assign_team now i team r))"
| t_remove: "task_step r (snd (task_remove i r))"

interpretation task_store: keyed_store task_new_id task_id
  by unfold_locales (auto simp: task_new_id_def dest: make_id_inject)

definition packet_kept :: "task \<Rightarrow> bool" where
  "packet_kept t \<longleftrightarrow> (case task_packet_of t of None \<Rightarrow> True
     | Some p \<Rightarrow> packet_errors p = [] \<and> task_prompt t = objective p \<and> task_description t = Some (scope p))"

definition packets_kept :: "task_registry \<Rightarrow> bool" where
  "packets_kept r \<longleftrightarrow> (\<forall>i t. reg_get r i = Some t \<longrightarrow> packet_kept t)"

definition same_origin :: "task \<Rightarrow> task \<Rightarrow> bool" where
  "same_origin t u \<longleftrightarrow> task_id u = task_id t \<and> task_packet_of u = task_packet_of t \<and>
     task_prompt u = task_prompt t \<and> task_description u = task_description t \<and> task_created_at u = task_created_at t"

lemma unit_result_snd [simp]: "snd (unit_result p) = snd p"
  by (simp add: unit_result_def)

lemma is_ok_unit_result [simp]: "is_ok (fst (unit_result p)) = is_ok (fst p)"
  by (cases "fst p") (simp_all add: unit_result_def is_ok_def)

lemma task_modify:
  assumes "task_store.keyed r" and "packets_kept r" and "\<And>t u. f t = Inr u \<Longrightarrow> same_origin t u"
  shows "task_store.keyed (snd (reg_modify m i f r)) \<and> packets_kept (snd (reg_modify m i f r))"
proof
  show "task_store.keyed (snd (reg_modify m i f r))"
    by (rule task_store.keyed_modify [OF assms(1)]) (use assms(3) in \<open>auto simp: same_origin_def\<close>)
  have "packet_kept u" if "f t = Inr u" "packet_kept t" for t u
    using assms(3) [OF that(1)] that(2) by (simp add: same_origin_def packet_kept_def split: option.splits)
  with assms(2) show "packets_kept (snd (reg_modify m i f r))"
    by (auto simp: packets_kept_def reg_modify_def split: option.splits sum.splits)
qed

lemma create_task_kept:
  assumes "task_store.keyed r" and "packets_kept r" and "counter r < counter r + 1"
    and "case packet of None \<Rightarrow> True | Some p \<Rightarrow> packet_errors p = [] \<and> prompt = objective p \<and> description = Some (scope p)"
  shows "task_store.keyed (snd (create_task now prompt description packet r)) \<and>
    packets_kept (snd (create_task now prompt description packet r))"
  using assms
  by (auto simp: create_task_def Let_def packets_kept_def packet_kept_def
      intro!: task_store.keyed_create split: option.splits)

lemma validate_packet_Inr: "validate_packet p = Inr v \<longleftrightarrow> packet_errors p = [] \<and> v = ValidatedPacket p"
  by (auto simp: validate_packet_eq)

lemma create_from_packet_snd: "snd (task_create_from_packet now p r) =
    (if packet_errors p = [] then snd (create_task now (objective p) (Some (scope p)) (Some p) r) else r)"
  by (simp add: task_create_from_packet_def validate_packet_eq Let_def case_prod_beta)

lemma task_step_kept:
  assumes "task_step r r'" and "task_store.keyed r \<and> packets_kept r"
  shows "task_store.keyed r' \<and> packets_kept r'"
  using assms
proof (induction rule: task_step.induct)
  case (t_packet r now packet)
  then show ?case using create_task_kept [of r "objective packet" "Some (scope packet)" "Some packet" now]
    by (simp add: create_from_packet_snd)
next
  case (t_create r now prompt description)
  then show ?case unfolding task_create_def by (intro create_task_kept) simp_all
next
  case (t_remove r i)
  then show ?case by (auto simp: task_remove_def packets_kept_def task_store.keyed_delete)
next
  case (t_stop r now i)
  then show ?case unfolding task_stop_def
    by (intro task_modify) (auto simp: stop_task_def same_origin_def split: if_splits)
qed (unfold task_update_def task_append_output_def task_set_status_def task_assign_team_def unit_result_snd,
    (intro task_modify; auto simp: same_origin_def)+)

interpretation task_life: step_invariant
    "\<lambda>r. r = registry_new" task_step "\<lambda>r. task_store.keyed r \<and> packets_kept r"
proof
  fix r r' :: task_registry
  show "r = registry_new \<Longrightarrow> task_store.keyed r \<and> packets_kept r"
    by (simp add: task_store.keyed_new packets_kept_def)
  show "task_step r r' \<Longrightarrow> task_store.keyed r \<and> packets_kept r \<Longrightarrow> task_store.keyed r' \<and> packets_kept r'"
    by (rule task_step_kept)
qed

text \<open>
  C19: in every state that calls on the registry reach, each task is stored under its own id, a task
  made from a packet still carries that packet, valid, with the packet's objective as its prompt and its
  scope as its description, and creating a task uses an id that no stored task has.
\<close>

theorem task_registry_invariant:
  assumes "task_step\<^sup>*\<^sup>* registry_new r" and "task_get r i = Some t"
    and "counter r < counter r + 1"
  shows "task_id t = i \<and>
    (case task_packet_of t of None \<Rightarrow> True
     | Some p \<Rightarrow> validate_packet p = Inr (ValidatedPacket p) \<and> task_prompt t = objective p \<and>
         task_description t = Some (scope p)) \<and>
    task_get (snd (task_create now prompt description r)) i = Some t"
proof -
  have inv: "task_store.keyed r" "packets_kept r"
    using task_life.reachable_inv [OF _ assms(1)] by auto
  have "task_new_id (now 0) (counter r + 1) \<noteq> i"
    using task_store.create_fresh [OF inv(1) assms(3)] assms(2) by (auto simp: task_get_def)
  then show ?thesis
    using inv assms(2)
    by (auto simp: task_store.keyed_def packets_kept_def packet_kept_def task_get_def task_create_def create_task_def
        Let_def validate_packet_Inr split: option.splits)
qed

theorem task_registry_invariant_witness:
  "\<exists>r t. task_step\<^sup>*\<^sup>* registry_new r \<and> task_get r (task_new_id 7 1) = Some t \<and>
     task_get (snd (task_create (\<lambda>_. 7) (lit ''b'') None r)) (task_new_id 7 1) = Some t"
proof -
  let ?r = "snd (task_create (\<lambda>_. 7) (lit ''a'') None registry_new)"
  have new: "counter (registry_new :: task_registry) = 0" by (simp add: registry_new_def)
  have "task_step\<^sup>*\<^sup>* registry_new ?r" by (rule r_into_rtranclp, rule t_create) (simp add: new)
  moreover have "counter ?r = 1" by (simp add: task_create_def create_task_def Let_def new)
  moreover obtain t where "task_get ?r (task_new_id 7 1) = Some t"
    by (simp add: task_create_def create_task_def Let_def task_get_def new)
  ultimately show ?thesis
    using task_registry_invariant [of ?r "task_new_id 7 1" t "\<lambda>_. 7" "lit ''b''" None] by auto
qed

text \<open>
  \<^verbatim>\<open>stop\<close> succeeds exactly on a task that is created or running and makes it stopped; a second stop
  is refused and changes nothing.  \<^verbatim>\<open>set_status\<close> has no such guard: it takes a stopped task back to
  running, after which it can be stopped again.
\<close>

theorem task_stop_contract:
  "case task_stop now i r of
     (Inl e, r') \<Rightarrow> r' = r \<and> (case task_get r i of None \<Rightarrow> e = task_missing i | Some t \<Rightarrow> is_terminal (task_status t))
   | (Inr t, r') \<Rightarrow> task_get r' i = Some t \<and> task_status t = Task_Stopped \<and>
       (case task_get r i of None \<Rightarrow> False | Some t0 \<Rightarrow> task_status t0 \<in> {Task_Created, Task_Running}) \<and>
       \<not> is_ok (fst (task_stop now1 i r')) \<and> snd (task_stop now1 i r') = r' \<and>
       is_ok (fst (task_stop now3 i (snd (task_set_status now2 i Task_Running r'))))"
proof (cases "task_get r i")
  case None
  then show ?thesis by (simp add: task_stop_def reg_modify_def task_get_def)
next
  case (Some t)
  show ?thesis
  proof (cases "is_terminal (task_status t)")
    case True
    with Some show ?thesis by (simp add: task_stop_def reg_modify_def task_get_def stop_task_def)
  next
    case False
    then have "task_status t \<in> {Task_Created, Task_Running}" by (cases "task_status t") (simp_all add: is_terminal_def)
    with False Some show ?thesis
      by (simp add: task_stop_def reg_modify_def task_get_def stop_task_def task_set_status_def is_terminal_def is_ok_def)
  qed
qed

primrec append_all :: "(rstring \<times> rstring) list \<Rightarrow> task_registry \<Rightarrow> task_registry" where
  "append_all [] r = r"
| "append_all (ic # cs) r = append_all cs (snd (task_append_output (\<lambda>_. 0) (fst ic) (snd ic) r))"

text \<open>
  the output of a task is the text appended to it, in the order of the calls, and no call on another
  task changes it.
\<close>

theorem task_output_accumulates:
  "task_output (append_all calls r) i =
   map_sum id (\<lambda>old. old @ concat (map snd (filter (\<lambda>(j, chunk). j = i) calls))) (task_output r i)"
proof (induction calls arbitrary: r)
  case Nil
  then show ?case by (cases "task_output r i") simp_all
next
  case (Cons c cs)
  have "task_output (snd (task_append_output (\<lambda>_. 0) j chunk r)) i =
      map_sum id (\<lambda>old. if j = i then old @ chunk else old) (task_output r i)" for j chunk
    by (cases "j = i") (auto simp: task_output_def task_append_output_def reg_modify_def split: option.splits)
  then have step: "task_output (snd (task_append_output (\<lambda>_. 0) (fst c) (snd c) r)) i =
      map_sum id (\<lambda>old. if fst c = i then old @ snd c else old) (task_output r i)" .
  show ?case unfolding append_all.simps Cons.IH step
    by (cases "task_output r i"; cases c) auto
qed

end
