(* ===== verification/TeamCron.thy ===== *)
theory TeamCron imports Registry "HOL-Library.Multiset" begin

text \<open>
  The team and the cron registries (\<^verbatim>\<open>crates/runtime/src/team_cron_registry.rs\<close>).  Deleting a team is a
  change of its status, deleting a cron entry removes it.  \<^verbatim>\<open>list\<close> walks a \<^verbatim>\<open>HashMap\<close>: its result is a
  multiset.
\<close>

section \<open>Teams\<close>

datatype team_status = Team_Created | Team_Running | Team_Completed | Team_Deleted

fun show_team_status :: "team_status \<Rightarrow> rstring" where
  "show_team_status Team_Created = lit ''created''"
| "show_team_status Team_Running = lit ''running''"
| "show_team_status Team_Completed = lit ''completed''"
| "show_team_status Team_Deleted = lit ''deleted''"

record team =
  team_id :: rstring
  team_name :: rstring
  team_task_ids :: "rstring list"
  team_status :: team_status
  team_created_at :: u64
  team_updated_at :: u64

type_synonym team_registry = "team registry"

definition team_new_id :: "u64 \<Rightarrow> u64 \<Rightarrow> rstring" where
  "team_new_id = make_id (lit ''team_'')"

definition team_create :: "clock \<Rightarrow> rstring \<Rightarrow> rstring list \<Rightarrow> team_registry \<Rightarrow> team \<times> team_registry" where
  "team_create now name task_ids r =
     (let r1 = r\<lparr>counter := counter r + 1\<rparr>; ts = now 0; i = team_new_id ts (counter r1);
          t = \<lparr>team_id = i, team_name = name, team_task_ids = task_ids, team_status = Team_Created,
            team_created_at = ts, team_updated_at = ts\<rparr>
      in (t, reg_insert i t r1))"

definition team_get :: "team_registry \<Rightarrow> rstring \<Rightarrow> team option" where
  "team_get r i = reg_get r i"

definition team_list :: "team_registry \<Rightarrow> team multiset" where
  "team_list r = mset (map snd (entries r))"

definition team_delete :: "clock \<Rightarrow> rstring \<Rightarrow> team_registry \<Rightarrow> (rstring + team) \<times> team_registry" where
  "team_delete now i = reg_modify (lit ''team not found: '' @ i) i
     (\<lambda>t. Inr (t\<lparr>team_status := Team_Deleted, team_updated_at := now 0\<rparr>))"

definition team_remove :: "rstring \<Rightarrow> team_registry \<Rightarrow> team option \<times> team_registry" where
  "team_remove i r = (reg_get r i, reg_delete i r)"

definition team_len :: "team_registry \<Rightarrow> nat" where
  "team_len r = length (entries r)"

section \<open>Cron entries\<close>

record cron_entry =
  cron_id :: rstring
  schedule :: rstring
  cron_prompt :: rstring
  cron_description :: "rstring option"
  enabled :: bool
  cron_created_at :: u64
  cron_updated_at :: u64
  last_run_at :: "u64 option"
  run_count :: u64

type_synonym cron_registry = "cron_entry registry"

definition cron_new_id :: "u64 \<Rightarrow> u64 \<Rightarrow> rstring" where
  "cron_new_id = make_id (lit ''cron_'')"

definition cron_missing :: "rstring \<Rightarrow> rstring" where
  "cron_missing i = lit ''cron not found: '' @ i"

definition cron_create ::
    "clock \<Rightarrow> rstring \<Rightarrow> rstring \<Rightarrow> rstring option \<Rightarrow> cron_registry \<Rightarrow> cron_entry \<times> cron_registry" where
  "cron_create now sched prompt description r =
     (let r1 = r\<lparr>counter := counter r + 1\<rparr>; ts = now 0; i = cron_new_id ts (counter r1);
          e = \<lparr>cron_id = i, schedule = sched, cron_prompt = prompt, cron_description = description,
            enabled = True, cron_created_at = ts, cron_updated_at = ts, last_run_at = None, run_count = 0\<rparr>
      in (e, reg_insert i e r1))"

definition cron_get :: "cron_registry \<Rightarrow> rstring \<Rightarrow> cron_entry option" where
  "cron_get r i = reg_get r i"

definition cron_list :: "cron_registry \<Rightarrow> bool \<Rightarrow> cron_entry multiset" where
  "cron_list r enabled_only = mset (filter (\<lambda>e. \<not> enabled_only \<or> enabled e) (map snd (entries r)))"

definition cron_delete :: "rstring \<Rightarrow> cron_registry \<Rightarrow> (rstring + cron_entry) \<times> cron_registry" where
  "cron_delete i r = (case reg_get r i of
     None \<Rightarrow> (Inl (cron_missing i), r)
   | Some e \<Rightarrow> (Inr e, reg_delete i r))"

definition cron_disable :: "clock \<Rightarrow> rstring \<Rightarrow> cron_registry \<Rightarrow> (rstring + unit) \<times> cron_registry" where
  "cron_disable now i r = (case reg_modify (cron_missing i) i
      (\<lambda>e. Inr (e\<lparr>enabled := False, cron_updated_at := now 0\<rparr>)) r of
     (res, r') \<Rightarrow> (map_sum id (\<lambda>_. ()) res, r'))"

definition cron_record_run :: "clock \<Rightarrow> rstring \<Rightarrow> cron_registry \<Rightarrow> (rstring + unit) \<times> cron_registry" where
  "cron_record_run now i r = (case reg_modify (cron_missing i) i
      (\<lambda>e. Inr (e\<lparr>last_run_at := Some (now 0), run_count := run_count e + 1, cron_updated_at := now 1\<rparr>)) r of
     (res, r') \<Rightarrow> (map_sum id (\<lambda>_. ()) res, r'))"

definition cron_len :: "cron_registry \<Rightarrow> nat" where
  "cron_len r = length (entries r)"

section \<open>The stores\<close>

interpretation team_store: keyed_store team_new_id team_id
  by unfold_locales (auto simp: team_new_id_def dest: make_id_inject)

interpretation cron_store: keyed_store cron_new_id cron_id
  by unfold_locales (auto simp: cron_new_id_def dest: make_id_inject)

inductive team_step :: "team_registry \<Rightarrow> team_registry \<Rightarrow> bool" where
  tm_create: "counter r < counter r + 1 \<Longrightarrow> team_step r (snd (team_create now name ids r))"
| tm_delete: "team_step r (snd (team_delete now i r))"
| tm_remove: "team_step r (snd (team_remove i r))"

inductive cron_step :: "cron_registry \<Rightarrow> cron_registry \<Rightarrow> bool" where
  cr_create: "counter r < counter r + 1 \<Longrightarrow> cron_step r (snd (cron_create now sched prompt description r))"
| cr_delete: "cron_step r (snd (cron_delete i r))"
| cr_disable: "cron_step r (snd (cron_disable now i r))"
| cr_run: "cron_step r (snd (cron_record_run now i r))"

lemma cron_modify_snd [simp]:
  "snd (cron_disable now i r) =
     snd (reg_modify (cron_missing i) i (\<lambda>e. Inr (e\<lparr>enabled := False, cron_updated_at := now 0\<rparr>)) r)"
  "snd (cron_record_run now i r) = snd (reg_modify (cron_missing i) i
     (\<lambda>e. Inr (e\<lparr>last_run_at := Some (now 0), run_count := run_count e + 1, cron_updated_at := now 1\<rparr>)) r)"
  by (simp_all add: cron_disable_def cron_record_run_def case_prod_beta)

lemma team_step_keyed: "team_step r r' \<Longrightarrow> team_store.keyed r \<Longrightarrow> team_store.keyed r'"
proof (induction rule: team_step.induct)
  case (tm_create r now name ids)
  then show ?case by (simp add: team_create_def Let_def team_store.keyed_create)
next
  case (tm_delete r now i)
  then show ?case unfolding team_delete_def by (rule team_store.keyed_modify) auto
qed (simp add: team_remove_def team_store.keyed_delete)

lemma cron_step_keyed: "cron_step r r' \<Longrightarrow> cron_store.keyed r \<Longrightarrow> cron_store.keyed r'"
proof (induction rule: cron_step.induct)
  case (cr_create r now sched prompt description)
  then show ?case by (simp add: cron_create_def Let_def cron_store.keyed_create)
next
  case (cr_delete r i)
  then show ?case by (simp add: cron_delete_def cron_store.keyed_delete split: option.split)
next
  case (cr_disable r now i)
  then show ?case unfolding cron_modify_snd by (rule cron_store.keyed_modify) auto
next
  case (cr_run r now i)
  then show ?case unfolding cron_modify_snd by (rule cron_store.keyed_modify) auto
qed

interpretation team_life: step_invariant "\<lambda>r. r = registry_new" team_step team_store.keyed
  by unfold_locales (simp_all add: team_store.keyed_new team_step_keyed)

interpretation cron_life: step_invariant "\<lambda>r. r = registry_new" cron_step cron_store.keyed
  by unfold_locales (simp_all add: cron_store.keyed_new cron_step_keyed)

section \<open>Properties\<close>

text \<open>
  deleting a team is soft, deleting a cron entry is not: a deleted team stays readable and marked,
  and can be deleted again; a deleted cron entry is gone, a second delete fails, and a cron entry
  created later, in any state that calls reach, is stored under an id that no other entry has.
\<close>

theorem team_and_cron_deletion:
  assumes "team_get teams i = Some t" and "cron_get crons j = Some e"
    and "cron_step\<^sup>*\<^sup>* registry_new crons" and "counter crons < counter crons + 1"
  shows "(case team_delete now i teams of (res, teams') \<Rightarrow>
      res = Inr (t\<lparr>team_status := Team_Deleted, team_updated_at := now 0\<rparr>) \<and>
      team_get teams' i = Some (t\<lparr>team_status := Team_Deleted, team_updated_at := now 0\<rparr>) \<and>
      is_ok (fst (team_delete now1 i teams')) \<and> team_list teams' \<noteq> {#}) \<and>
    (case cron_delete j crons of (res, crons') \<Rightarrow>
      res = Inr e \<and> cron_get crons' j = None \<and> fst (cron_delete j crons') = Inl (cron_missing j) \<and>
      cron_get crons (cron_id (fst (cron_create now2 sched prompt description crons'))) = None)"
proof
  have "entries (reg_insert i x teams) \<noteq> []" for x
    using reg_ids_insert [of i x teams] by (auto simp: reg_ids_def)
  with assms(1) show "case team_delete now i teams of (res, teams') \<Rightarrow>
      res = Inr (t\<lparr>team_status := Team_Deleted, team_updated_at := now 0\<rparr>) \<and>
      team_get teams' i = Some (t\<lparr>team_status := Team_Deleted, team_updated_at := now 0\<rparr>) \<and>
      is_ok (fst (team_delete now1 i teams')) \<and> team_list teams' \<noteq> {#}"
    by (simp add: team_delete_def team_get_def reg_modify_def is_ok_def team_list_def)
  have "cron_store.keyed crons" using cron_life.reachable_inv [OF refl assms(3)] .
  then have "reg_get crons (cron_new_id (now2 0) (counter crons + 1)) = None"
    using assms(4) by (rule cron_store.create_fresh)
  with assms(2) show "case cron_delete j crons of (res, crons') \<Rightarrow>
      res = Inr e \<and> cron_get crons' j = None \<and> fst (cron_delete j crons') = Inl (cron_missing j) \<and>
      cron_get crons (cron_id (fst (cron_create now2 sched prompt description crons'))) = None"
    by (simp add: cron_delete_def cron_get_def cron_create_def Let_def)
qed

datatype cron_call = Call_Disable rstring | Call_Run rstring

fun run_cron_call :: "clock \<Rightarrow> cron_call \<Rightarrow> cron_registry \<Rightarrow> cron_registry" where
  "run_cron_call now (Call_Disable i) r = snd (cron_disable now i r)"
| "run_cron_call now (Call_Run i) r = snd (cron_record_run now i r)"

text \<open>
  the run counter of a cron entry counts the runs recorded for it, modulo 2 to the 64, whether the
  entry is enabled or not: \<^verbatim>\<open>record_run\<close> never looks at the flag.  An entry is enabled after a sequence
  of calls exactly when it was before and none of them disabled it: no call enables it again.
\<close>

theorem cron_runs_counted:
  "map_option (\<lambda>e. (run_count e, enabled e)) (cron_get (fold (run_cron_call now) calls r) i) =
   map_option (\<lambda>e. (run_count e + of_nat (count_list calls (Call_Run i)),
     enabled e \<and> Call_Disable i \<notin> set calls)) (cron_get r i)"
proof (induction calls arbitrary: r)
  case (Cons c cs)
  have step: "map_option (\<lambda>e. (run_count e, enabled e)) (cron_get (run_cron_call now c r) i) =
      map_option (\<lambda>e. (run_count e + of_nat (if c = Call_Run i then 1 else 0), enabled e \<and> c \<noteq> Call_Disable i)) (cron_get r i)"
    by (cases c; cases "reg_get r i") (auto simp: cron_get_def reg_modify_def split: option.splits)
  from Cons.IH [of "run_cron_call now c r"] step show ?case
    by (cases "cron_get r i"; cases "cron_get (run_cron_call now c r) i") (auto simp: algebra_simps)
qed (simp add: map_option.id option.map_ident)

theorem team_and_cron_deletion_witness:
  "fst (cron_delete (cron_new_id 5 1) (snd (cron_delete (cron_new_id 5 1)
     (snd (cron_create (\<lambda>_. 5) (lit ''daily'') (lit ''run'') None registry_new))))) =
   Inl (cron_missing (cron_new_id 5 1))"
proof -
  let ?teams = "snd (team_create (\<lambda>_. 5) (lit ''a'') [] registry_new)"
  let ?crons = "snd (cron_create (\<lambda>_. 5) (lit ''daily'') (lit ''run'') None registry_new)"
  have new: "counter (registry_new :: team_registry) = 0" "counter (registry_new :: cron_registry) = 0"
    by (simp_all add: registry_new_def)
  obtain t where t: "team_get ?teams (team_new_id 5 1) = Some t"
    by (simp add: team_create_def Let_def team_get_def new)
  obtain e where e: "cron_get ?crons (cron_new_id 5 1) = Some e"
    by (simp add: cron_create_def Let_def cron_get_def new)
  have "cron_step\<^sup>*\<^sup>* registry_new ?crons" by (rule r_into_rtranclp, rule cr_create) (simp add: new)
  moreover have "counter ?crons < counter ?crons + 1" by (simp add: cron_create_def Let_def new)
  ultimately show ?thesis
    using team_and_cron_deletion [OF t e, of "\<lambda>_. 0" "\<lambda>_. 0" "\<lambda>_. 0" "[]" "[]" None] by (simp add: case_prod_beta)
qed

end
