(* ===== verification/TrustResolver.thy ===== *)
theory TrustResolver imports WorkerBoot begin

text \<open>
  The trust resolver (\<^verbatim>\<open>crates/runtime/src/trust_resolver.rs\<close>): denied and allowlisted roots, the
  decision for a screen that shows a trust prompt, and the agreement with the worker's own copy of the
  same checks.  \<open>canon\<close> is \<^verbatim>\<open>std::fs::canonicalize\<close>.
\<close>

datatype trust_policy = AutoTrust | RequireApproval | Deny

datatype trust_event =
    Trust_Required rstring | Trust_Resolved rstring trust_policy | Trust_Denied rstring rstring

record trust_config =
  allowlisted :: "rstring list"
  denied :: "rstring list"

definition trust_config_new :: trust_config where
  "trust_config_new = \<lparr>allowlisted = [], denied = []\<rparr>"

definition with_allowlisted :: "rstring \<Rightarrow> trust_config \<Rightarrow> trust_config" where
  "with_allowlisted path c = c\<lparr>allowlisted := allowlisted c @ [path]\<rparr>"

definition with_denied :: "rstring \<Rightarrow> trust_config \<Rightarrow> trust_config" where
  "with_denied path c = c\<lparr>denied := denied c @ [path]\<rparr>"

datatype trust_decision = NotRequired | Required trust_policy "trust_event list"

fun decision_policy :: "trust_decision \<Rightarrow> trust_policy option" where
  "decision_policy NotRequired = None"
| "decision_policy (Required policy es) = Some policy"

fun decision_events :: "trust_decision \<Rightarrow> trust_event list" where
  "decision_events NotRequired = []"
| "decision_events (Required policy es) = es"

definition trust_prompt_cues :: "rstring list" where
  "trust_prompt_cues = [lit ''do you trust the files in this folder'', lit ''trust the files in this folder'',
     lit ''trust this folder'', lit ''allow and continue'', lit ''yes, proceed'']"

definition screen_has_trust_prompt :: "rstring \<Rightarrow> bool" where
  "screen_has_trust_prompt screen_text =
     (let lowered = to_ascii_lowercase screen_text
      in list_ex (\<lambda>needle. str_contains lowered needle) trust_prompt_cues)"

definition resolver_normalize_path :: "canonicalize \<Rightarrow> rstring \<Rightarrow> rstring" where
  "resolver_normalize_path canon path = (case canon path of Some p \<Rightarrow> p | None \<Rightarrow> path)"

definition path_matches :: "canonicalize \<Rightarrow> rstring \<Rightarrow> rstring \<Rightarrow> bool" where
  "path_matches canon candidate root =
     (let c = resolver_normalize_path canon candidate; r = resolver_normalize_path canon root
      in path_eq c r \<or> path_starts_with c r)"

definition path_matches_trusted_root :: "canonicalize \<Rightarrow> rstring \<Rightarrow> rstring \<Rightarrow> bool" where
  "path_matches_trusted_root canon cwd trusted_root =
     path_matches canon cwd (resolver_normalize_path canon trusted_root)"

definition trust_resolve :: "canonicalize \<Rightarrow> trust_config \<Rightarrow> rstring \<Rightarrow> rstring \<Rightarrow> trust_decision" where
  "trust_resolve canon config cwd screen_text =
     (if \<not> screen_has_trust_prompt screen_text then NotRequired
      else (let es = [Trust_Required cwd] in
        case find (path_matches canon cwd) (denied config) of
          Some matched_root \<Rightarrow>
            Required Deny (es @ [Trust_Denied cwd (lit ''cwd matches denied trust root: '' @ matched_root)])
        | None \<Rightarrow>
            if list_ex (path_matches canon cwd) (allowlisted config)
            then Required AutoTrust (es @ [Trust_Resolved cwd AutoTrust])
            else Required RequireApproval es))"

definition trusts :: "canonicalize \<Rightarrow> trust_config \<Rightarrow> rstring \<Rightarrow> bool" where
  "trusts canon config cwd \<longleftrightarrow> \<not> list_ex (path_matches canon cwd) (denied config) \<and>
     list_ex (path_matches canon cwd) (allowlisted config)"

section \<open>Properties\<close>

lemma find_denied_None: "find P xs = None \<longleftrightarrow> \<not> list_ex P xs"
  by (auto simp: find_None_iff list_ex_iff)

text \<open>
  on a screen with a trust prompt the resolver trusts automatically exactly when \<^verbatim>\<open>trusts\<close> says
  so, denies exactly when a denied root matches, whatever the allowlist holds, asks in every other case,
  and always reports the prompt first; without a prompt it decides nothing.
\<close>

theorem trust_decision_contract:
  "case trust_resolve canon config cwd screen_text of
     NotRequired \<Rightarrow> \<not> screen_has_trust_prompt screen_text
   | Required policy es \<Rightarrow> screen_has_trust_prompt screen_text \<and> hd es = Trust_Required cwd \<and>
       policy = (if list_ex (path_matches canon cwd) (denied config) then Deny
                 else if trusts canon config cwd then AutoTrust else RequireApproval) \<and>
       length es = (if policy = RequireApproval then 1 else 2)"
  by (auto simp: trust_resolve_def trusts_def Let_def find_denied_None split: option.splits)
    (auto simp: find_Some_iff list_ex_iff)

text \<open>
  adding a denied root never makes more directories trusted, and adding an allowlisted root never
  makes fewer trusted.
\<close>

theorem trust_monotone:
  "(trusts canon (with_denied d config) cwd \<longrightarrow> trusts canon config cwd) \<and>
   (trusts canon config cwd \<longrightarrow> trusts canon (with_allowlisted a config) cwd) \<and>
   \<not> trusts canon trust_config_new cwd"
  by (auto simp: trusts_def with_denied_def with_allowlisted_def trust_config_new_def)

theorem trust_monotone_witness:
  "trusts (\<lambda>p. None) (with_allowlisted (lit ''/x'') (with_allowlisted (lit ''/repo'') trust_config_new)) (lit ''/repo/a'')"
proof -
  have "trusts (\<lambda>p. None) (with_allowlisted (lit ''/repo'') trust_config_new) (lit ''/repo/a'')" by code_simp
  then show ?thesis
    using trust_monotone [of "\<lambda>p. None" "[]" "with_allowlisted (lit ''/repo'') trust_config_new" "lit ''/repo/a''" "lit ''/x''"]
    by blast
qed

text \<open>
  the resolver and the worker registry, which hold two copies of the trust checks, agree: on which
  screens show a prompt, and, where canonicalization is idempotent, on which directories lie under a
  root.
\<close>

theorem trust_checks_agree:
  assumes "\<And>p q. canon p = Some q \<Longrightarrow> canon q = Some q"
  shows "screen_has_trust_prompt screen_text = detect_trust_prompt (to_ascii_lowercase screen_text) \<and>
    path_matches_trusted_root canon cwd root = path_matches_allowlist canon cwd root"
proof -
  have "resolver_normalize_path canon (resolver_normalize_path canon root) = resolver_normalize_path canon root"
    using assms by (auto simp: resolver_normalize_path_def split: option.splits)
  then have "path_matches_trusted_root canon cwd root = path_matches_allowlist canon cwd root"
    by (simp add: path_matches_trusted_root_def path_matches_def path_matches_allowlist_def
        resolver_normalize_path_def normalize_path_def Let_def)
  moreover have "screen_has_trust_prompt screen_text = detect_trust_prompt (to_ascii_lowercase screen_text)"
    by (simp add: screen_has_trust_prompt_def detect_trust_prompt_def trust_prompt_cues_def any_contained_def Let_def)
  ultimately show ?thesis by blast
qed

theorem trust_checks_agree_witness:
  "path_matches_trusted_root (\<lambda>p. Some (lit ''/repo'')) (lit ''/a'') (lit ''/b'') =
     path_matches_allowlist (\<lambda>p. Some (lit ''/repo'')) (lit ''/a'') (lit ''/b'')"
  using trust_checks_agree [of "\<lambda>p. Some (lit ''/repo'')" "[]" "lit ''/a''" "lit ''/b''"] by simp

end
