(* ===== verification/SummaryCompression.thy ===== *)
theory SummaryCompression imports Prelude "HOL-Library.Sublist" begin

text \<open>
  Compression of summaries (\<^verbatim>\<open>crates/runtime/src/summary_compression.rs\<close>): normalization of the lines,
  selection by priority within a budget of characters and lines, and the omission notice.  Sizes are
  \<^typ>\<open>nat\<close>: they count what is in memory.  The \<^verbatim>\<open>BTreeSet\<close> of selected indexes is a sorted list, the
  set of seen keys a list.
\<close>

abbreviation "c_ellipsis \<equiv> (0x2026 :: rchar)"

record summary_budget =
  max_chars :: nat
  max_lines :: nat
  max_line_chars :: nat

definition default_budget :: summary_budget where
  "default_budget = \<lparr>max_chars = 1200, max_lines = 24, max_line_chars = 160\<rparr>"

record summary_result =
  res_summary :: rstring
  original_chars :: nat
  compressed_chars :: nat
  original_lines :: nat
  compressed_lines :: nat
  removed_duplicate_lines :: nat
  omitted_lines :: nat
  truncated :: bool

section \<open>Lines\<close>

definition collapse_inline_whitespace :: "rstring \<Rightarrow> rstring" where
  "collapse_inline_whitespace line = join [c_space] (split_whitespace line)"

definition truncate_line :: "rstring \<Rightarrow> nat \<Rightarrow> rstring" where
  "truncate_line line n =
     (if n = 0 \<or> length line \<le> n then line
      else if n = 1 then [c_ellipsis]
      else take (n - 1) line @ [c_ellipsis])"

definition dedupe_key :: "rstring \<Rightarrow> rstring" where
  "dedupe_key line = to_ascii_lowercase line"

record normalized_summary =
  norm_lines :: "rstring list"
  norm_removed :: nat

fun normalize_loop :: "nat \<Rightarrow> rstring list \<Rightarrow> rstring list \<Rightarrow> normalized_summary \<Rightarrow> normalized_summary" where
  "normalize_loop n [] seen acc = acc"
| "normalize_loop n (raw_line # rest) seen acc =
     (let normalized = collapse_inline_whitespace raw_line in
      if normalized = [] then normalize_loop n rest seen acc
      else (let line = truncate_line normalized n; key = dedupe_key line in
        if key \<in> set seen then normalize_loop n rest seen (acc\<lparr>norm_removed := norm_removed acc + 1\<rparr>)
        else normalize_loop n rest (key # seen) (acc\<lparr>norm_lines := norm_lines acc @ [line]\<rparr>)))"

definition normalize_lines :: "rstring \<Rightarrow> nat \<Rightarrow> normalized_summary" where
  "normalize_lines summary n = normalize_loop n (str_lines summary) [] \<lparr>norm_lines = [], norm_removed = 0\<rparr>"

definition joined_char_count :: "rstring list \<Rightarrow> nat" where
  "joined_char_count lines = sum_list (map length lines) + (length lines - 1)"

definition is_core_detail :: "rstring \<Rightarrow> bool" where
  "is_core_detail line = list_ex (\<lambda>prefix. starts_with line (lit prefix))
     [''- Scope:'', ''- Current work:'', ''- Pending work:'', ''- Key files referenced:'', ''- Tools mentioned:'',
      ''- Recent user requests:'', ''- Previously compacted context:'', ''- Newly compacted context:'']"

definition is_section_header :: "rstring \<Rightarrow> bool" where
  "is_section_header line = ends_with line (lit '':'')"

definition line_priority :: "rstring \<Rightarrow> nat" where
  "line_priority line =
     (if line = lit ''Summary:'' \<or> line = lit ''Conversation summary:'' \<or> is_core_detail line then 0
      else if is_section_header line then 1
      else if starts_with line (lit ''- '') \<or> starts_with line (lit ''  - '') then 2
      else 3)"

definition omission_notice :: "nat \<Rightarrow> rstring" where
  "omission_notice n = lit ''- '' @ [c_ellipsis] @ lit '' '' @ show_nat n @ lit '' additional line(s) omitted.''"

section \<open>Selection\<close>

definition select_one :: "rstring list \<Rightarrow> summary_budget \<Rightarrow> nat \<Rightarrow> nat \<Rightarrow> nat list \<Rightarrow> nat list" where
  "select_one lines budget priority index selected =
     (let line = lines ! index in
      if index \<in> set selected \<or> line_priority line \<noteq> priority then selected
      else (let candidate = map (\<lambda>k. lines ! k) selected @ [line] in
        if length candidate > max_lines budget then selected
        else if joined_char_count candidate > max_chars budget then selected
        else insort index selected))"

definition select_priority :: "rstring list \<Rightarrow> summary_budget \<Rightarrow> nat \<Rightarrow> nat list \<Rightarrow> nat list" where
  "select_priority lines budget priority selected =
     fold (select_one lines budget priority) [0..<length lines] selected"

definition select_line_indexes :: "rstring list \<Rightarrow> summary_budget \<Rightarrow> nat list" where
  "select_line_indexes lines budget = fold (select_priority lines budget) [0..<4] []"

definition push_line_with_budget :: "rstring list \<Rightarrow> rstring \<Rightarrow> summary_budget \<Rightarrow> rstring list" where
  "push_line_with_budget lines line budget =
     (let candidate = lines @ [line]
      in if length candidate \<le> max_lines budget \<and> joined_char_count candidate \<le> max_chars budget
         then candidate else lines)"

section \<open>The compressed summary\<close>

definition compress_summary :: "rstring \<Rightarrow> summary_budget \<Rightarrow> summary_result" where
  "compress_summary summary budget =
     (let normalized = normalize_lines summary (max_line_chars budget) in
      if norm_lines normalized = [] \<or> max_chars budget = 0 \<or> max_lines budget = 0 then
        \<lparr>res_summary = [], original_chars = length summary, compressed_chars = 0,
         original_lines = length (str_lines summary), compressed_lines = 0,
         removed_duplicate_lines = norm_removed normalized, omitted_lines = length (norm_lines normalized),
         truncated = (length summary > 0)\<rparr>
      else
        (let selected = select_line_indexes (norm_lines normalized) budget;
             chosen0 = map (\<lambda>k. norm_lines normalized ! k) selected;
             chosen = (if chosen0 = [] then [truncate_line (norm_lines normalized ! 0) (max_chars budget)] else chosen0);
             omitted = length (norm_lines normalized) - length chosen;
             final = (if omitted > 0 then push_line_with_budget chosen (omission_notice omitted) budget else chosen);
             text = join [c_nl] final
         in \<lparr>res_summary = text, original_chars = length summary, compressed_chars = length text,
             original_lines = length (str_lines summary), compressed_lines = length final,
             removed_duplicate_lines = norm_removed normalized, omitted_lines = omitted,
             truncated = (text \<noteq> trim summary)\<rparr>))"

definition compress_summary_text :: "rstring \<Rightarrow> rstring" where
  "compress_summary_text summary = res_summary (compress_summary summary default_budget)"

section \<open>Normalized lines\<close>

definition line_key :: "nat \<Rightarrow> rstring \<Rightarrow> rstring" where
  "line_key n raw = dedupe_key (truncate_line (collapse_inline_whitespace raw) n)"

lemma normalize_loop_spec:
  assumes "set seen = dedupe_key ` set (norm_lines acc)" and "distinct (map dedupe_key (norm_lines acc))"
    and "res = normalize_loop n raws seen acc"
  shows "distinct (map dedupe_key (norm_lines res)) \<and>
    length (norm_lines res) + norm_removed res =
      length (norm_lines acc) + norm_removed acc + length (filter (\<lambda>l. collapse_inline_whitespace l \<noteq> []) raws) \<and>
    set (norm_lines res) \<subseteq> set (norm_lines acc) \<union>
      {truncate_line (collapse_inline_whitespace l) n | l. l \<in> set raws \<and> collapse_inline_whitespace l \<noteq> []}"
  using assms
proof (induction raws arbitrary: seen acc)
  case (Cons raw raws)
  show ?case
  proof (cases "collapse_inline_whitespace raw = []")
    case True
    with Cons.prems Cons.IH [OF Cons.prems(1,2)] show ?thesis by auto
  next
    case nonblank: False
    let ?line = "truncate_line (collapse_inline_whitespace raw) n"
    show ?thesis
    proof (cases "dedupe_key ?line \<in> set seen")
      case True
      with nonblank Cons.prems Cons.IH [of seen "acc\<lparr>norm_removed := norm_removed acc + 1\<rparr>"]
      show ?thesis by (auto simp: Let_def)
    next
      case False
      with nonblank Cons.prems Cons.IH [of "dedupe_key ?line # seen" "acc\<lparr>norm_lines := norm_lines acc @ [?line]\<rparr>"]
      show ?thesis by (auto simp: Let_def)
    qed
  qed
qed simp

lemma length_truncate_line: "0 < n \<Longrightarrow> length (truncate_line line n) \<le> n"
  by (simp add: truncate_line_def)

section \<open>The budget\<close>

lemma length_join: "length (join [c] xs) = joined_char_count xs"
  by (induction "[c]" xs rule: join.induct) (simp_all add: joined_char_count_def)

lemma joined_char_count_snoc: "joined_char_count (xs @ [x]) =
    sum_list (map length xs) + length x + length xs"
  by (simp add: joined_char_count_def)

lemma sum_list_insort: "sum_list (map g (insort i sel)) = g i + sum_list (map (g :: _ \<Rightarrow> nat) sel)"
  by (induction sel) (auto simp: algebra_simps)

lemma joined_char_count_insort:
  "joined_char_count (map f (insort i sel)) = joined_char_count (map f sel @ [f i])"
  by (simp add: joined_char_count_def sum_list_insort o_def)

definition fits :: "rstring list \<Rightarrow> summary_budget \<Rightarrow> nat list \<Rightarrow> nat \<Rightarrow> bool" where
  "fits lines budget selected i \<longleftrightarrow> length selected + 1 \<le> max_lines budget \<and>
     joined_char_count (map (\<lambda>k. lines ! k) selected @ [lines ! i]) \<le> max_chars budget"

lemma select_one_eq: "select_one lines budget p i sel =
    (if i \<notin> set sel \<and> line_priority (lines ! i) = p \<and> fits lines budget sel i then insort i sel else sel)"
  by (auto simp: select_one_def fits_def Let_def)

lemma fits_insort: "fits lines budget (insort j sel) i \<Longrightarrow> fits lines budget sel i"
  by (simp add: fits_def joined_char_count_snoc sum_list_insort o_def)

text \<open>The selections that a round can reach.\<close>

definition selection :: "rstring list \<Rightarrow> summary_budget \<Rightarrow> nat list \<Rightarrow> bool" where
  "selection lines budget sel \<longleftrightarrow> sorted sel \<and> distinct sel \<and> set sel \<subseteq> {..<length lines} \<and>
     length sel \<le> max_lines budget \<and> joined_char_count (map (\<lambda>k. lines ! k) sel) \<le> max_chars budget"

lemma selection_select_one:
  "selection lines budget sel \<Longrightarrow> i < length lines \<Longrightarrow> selection lines budget (select_one lines budget p i sel)"
  by (auto simp: select_one_eq selection_def fits_def joined_char_count_insort sorted_insort distinct_insort
      set_insort_key)

lemma selection_fold:
  "selection lines budget sel \<Longrightarrow> set is \<subseteq> {..<length lines} \<Longrightarrow>
   selection lines budget (fold (select_one lines budget p) is sel)"
  by (induction "is" arbitrary: sel) (simp_all add: selection_select_one)

lemma selection_rounds: "selection lines budget sel \<Longrightarrow> selection lines budget (fold (select_priority lines budget) ps sel)"
  by (induction ps arbitrary: sel) (simp_all add: select_priority_def selection_fold lessThan_atLeast0)

lemma selection_select: "selection lines budget (select_line_indexes lines budget)"
  unfolding select_line_indexes_def
  by (rule selection_rounds) (simp add: selection_def joined_char_count_def)

section \<open>Greedy selection by priority\<close>

lemma fits_fold: "fits lines budget (fold (select_one lines budget p) is sel) i \<Longrightarrow> fits lines budget sel i"
  by (induction "is" arbitrary: sel) (auto simp: select_one_eq dest: fits_insort split: if_splits)

lemma set_fold_mono: "set sel \<subseteq> set (fold (select_one lines budget p) is sel)"
proof (induction "is" arbitrary: sel)
  case (Cons j js)
  have "set sel \<subseteq> set (select_one lines budget p j sel)" by (auto simp: select_one_eq set_insort_key)
  also have "\<dots> \<subseteq> set (fold (select_one lines budget p) js (select_one lines budget p j sel))" by (rule Cons.IH)
  finally show ?case by simp
qed simp

lemma round_exhausts:
  assumes "i \<in> set is" and "line_priority (lines ! i) = p"
    and "i \<notin> set (fold (select_one lines budget p) is sel)"
  shows "\<not> fits lines budget (fold (select_one lines budget p) is sel) i"
  using assms
proof (induction "is" arbitrary: sel)
  case (Cons j js)
  show ?case
  proof (cases "j = i")
    case True
    let ?s = "select_one lines budget p i sel"
    have "i \<notin> set ?s" using Cons.prems(3) set_fold_mono [of ?s lines budget p js] True by auto
    then have "\<not> fits lines budget sel i" "?s = sel"
      using Cons.prems(2) by (auto simp: select_one_eq set_insort_key split: if_splits)
    then show ?thesis using fits_fold [of lines budget p js ?s i] True by auto
  next
    case False
    with Cons show ?thesis by simp
  qed
qed simp

definition rounds :: "rstring list \<Rightarrow> summary_budget \<Rightarrow> nat \<Rightarrow> nat list" where
  "rounds lines budget n = fold (select_priority lines budget) [0..<n] []"

lemma rounds_Suc: "rounds lines budget (Suc n) = select_priority lines budget n (rounds lines budget n)"
  by (simp add: rounds_def)

lemma filter_fold_select:
  "sorted sel \<Longrightarrow> \<not> P p \<Longrightarrow>
   filter (\<lambda>k. P (line_priority (lines ! k))) (fold (select_one lines budget p) is sel) =
   filter (\<lambda>k. P (line_priority (lines ! k))) sel"
  by (induction "is" arbitrary: sel) (auto simp: select_one_eq sorted_insort filter_insort_triv)

lemma fold_select_priorities:
  "k \<in> set (fold (select_one lines budget p) is sel) \<Longrightarrow> k \<in> set sel \<or> line_priority (lines ! k) = p"
  by (induction "is" arbitrary: sel) (fastforce simp: select_one_eq set_insort_key split: if_splits)+

lemma rounds_priorities: "k \<in> set (rounds lines budget n) \<Longrightarrow> line_priority (lines ! k) < n"
proof (induction n)
  case (Suc n)
  then show ?case using fold_select_priorities by (fastforce simp: rounds_Suc select_priority_def)
qed (simp add: rounds_def)

lemma sorted_rounds: "sorted (rounds lines budget n)"
  using selection_rounds [of lines budget "[]" "[0..<n]"]
  by (simp add: rounds_def selection_def joined_char_count_def)

lemma rounds_prefix: "p < n \<Longrightarrow>
    filter (\<lambda>k. line_priority (lines ! k) \<le> p) (rounds lines budget n) = rounds lines budget (Suc p)"
proof (induction n)
  case (Suc n)
  show ?case
  proof (cases "p = n")
    case True
    then show ?thesis
      using rounds_priorities [of _ lines budget "Suc n"] by (auto simp: filter_id_conv less_Suc_eq_le)
  next
    case False
    with Suc.prems have "p < n" by simp
    with Suc.IH show ?thesis
      by (simp add: rounds_Suc [of _ _ n] select_priority_def filter_fold_select [OF sorted_rounds, where P = "\<lambda>q. q \<le> p"])
  qed
qed simp

lemma line_priority_less: "line_priority line < 4"
  by (simp add: line_priority_def)

lemma select_is_rounds: "select_line_indexes lines budget = rounds lines budget 4"
  by (simp add: select_line_indexes_def rounds_def)

lemma left_out:
  assumes "i < length lines" and "i \<notin> set (select_line_indexes lines budget)"
  shows "\<not> fits lines budget (filter (\<lambda>k. line_priority (lines ! k) \<le> line_priority (lines ! i))
    (select_line_indexes lines budget)) i"
proof -
  let ?p = "line_priority (lines ! i)"
  have prefix: "filter (\<lambda>k. line_priority (lines ! k) \<le> ?p) (rounds lines budget 4) = rounds lines budget (Suc ?p)"
    by (rule rounds_prefix, rule line_priority_less)
  then have "i \<notin> set (rounds lines budget (Suc ?p))"
    using assms(2) unfolding select_is_rounds by (metis filter_is_subset subsetD)
  then have "\<not> fits lines budget (rounds lines budget (Suc ?p)) i"
    unfolding rounds_Suc select_priority_def using assms(1) by (intro round_exhausts) auto
  with prefix show ?thesis by (simp add: select_is_rounds)
qed

text \<open>
  the lines kept are in their original order and within the budget, and the choice is greedy by
  priority: a line is left out only because the kept lines of its own or a more important priority leave
  no room for it.
\<close>

theorem selection_greedy_by_priority:
  "sorted (select_line_indexes lines budget) \<and> distinct (select_line_indexes lines budget) \<and>
   joined_char_count (map (\<lambda>k. lines ! k) (select_line_indexes lines budget)) \<le> max_chars budget \<and>
   length (select_line_indexes lines budget) \<le> max_lines budget \<and>
   \<not> list_ex (\<lambda>i. i \<notin> set (select_line_indexes lines budget) \<and>
     fits lines budget (filter (\<lambda>k. line_priority (lines ! k) \<le> line_priority (lines ! i))
         (select_line_indexes lines budget)) i) [0..<length lines]"
  using selection_select [of lines budget] left_out [of _ lines budget]
  by (auto simp: selection_def list_ex_iff)

section \<open>The compressed summary\<close>

lemma joined_push: "joined_char_count ls \<le> max_chars budget \<Longrightarrow> length ls \<le> max_lines budget \<Longrightarrow>
    joined_char_count (push_line_with_budget ls l budget) \<le> max_chars budget \<and>
    length (push_line_with_budget ls l budget) \<le> max_lines budget"
  by (simp add: push_line_with_budget_def Let_def)

text \<open>The lines of a summary are lines: joined, they are found again.\<close>

definition one_line :: "rstring \<Rightarrow> bool" where
  "one_line l \<longleftrightarrow> l \<noteq> [] \<and> c_nl \<notin> set l \<and> c_cr \<notin> set l"

lemma str_lines_join: "list_all one_line ls \<Longrightarrow> str_lines (join [c_nl] ls) = ls"
proof (induction "[c_nl]" ls rule: join.induct)
  case (2 x)
  then have "takeWhile (\<lambda>c. c \<noteq> c_nl) x = x" "dropWhile (\<lambda>c. c \<noteq> c_nl) x = []" by (auto simp: one_line_def)
  then show ?case using 2 by (subst str_lines.simps) (simp add: one_line_def)
next
  case (3 x y ys)
  then have x: "takeWhile (\<lambda>c. c \<noteq> c_nl) (x @ c_nl # r) = x" "dropWhile (\<lambda>c. c \<noteq> c_nl) (x @ c_nl # r) = c_nl # r" for r
    by (auto simp: one_line_def takeWhile_append dropWhile_append)
  have "x \<noteq> []" "c_cr \<notin> set x" using 3(2) by (simp_all add: one_line_def)
  then have "last x \<noteq> c_cr" by (metis last_in_set)
  then have "strip_cr x = x" by (simp add: strip_cr_def)
  then show ?case using 3 by (subst str_lines.simps) (simp add: x)
qed (simp add: str_lines.simps)

lemma one_line_join: "list_all one_line ws \<Longrightarrow> ws \<noteq> [] \<Longrightarrow> one_line (join [c_space] ws)"
  by (induction "[c_space]" ws rule: join.induct) (auto simp: one_line_def)

lemma collapsed_one_line: "collapse_inline_whitespace l \<noteq> [] \<Longrightarrow> one_line (collapse_inline_whitespace l)"
  unfolding collapse_inline_whitespace_def
proof (rule one_line_join)
  have "one_line w" if "w \<in> set (split_whitespace l)" for w
  proof -
    have "list_all (\<lambda>c. \<not> is_whitespace c) w" "w \<noteq> []"
      using that split_on_pieces [of w is_whitespace l] by (auto simp: split_whitespace_def)
    moreover have "is_whitespace c_nl" "is_whitespace c_cr" by (simp_all add: is_whitespace_def)
    ultimately show ?thesis by (auto simp: one_line_def list_all_iff)
  qed
  then show "list_all one_line (split_whitespace l)" by (simp add: list_all_iff)
qed auto

lemma truncated_one_line: "one_line l \<Longrightarrow> one_line (truncate_line l n)"
  by (auto simp: truncate_line_def one_line_def dest: in_set_takeD)

lemma notice_one_line: "one_line (omission_notice n)"
proof -
  have "c_nl \<notin> set (show_nat n)" "c_cr \<notin> set (show_nat n)" using show_nat_digits [of n] by (auto simp: is_ascii_digit_def)
  then show ?thesis by (simp add: one_line_def omission_notice_def lit_def)
qed

lemma normalize_lines_spec:
  "distinct (map dedupe_key (norm_lines (normalize_lines summary n)))"
  "length (norm_lines (normalize_lines summary n)) + norm_removed (normalize_lines summary n) =
     length (filter (\<lambda>l. collapse_inline_whitespace l \<noteq> []) (str_lines summary))"
  "x \<in> set (norm_lines (normalize_lines summary n)) \<Longrightarrow>
     \<exists>l. x = truncate_line (collapse_inline_whitespace l) n \<and> collapse_inline_whitespace l \<noteq> []"
  using normalize_loop_spec [of "[]" "\<lparr>norm_lines = [], norm_removed = 0\<rparr>" _ n "str_lines summary", OF _ _ refl]
  unfolding normalize_lines_def by auto

lemma norm_lines_nonempty: "x \<in> set (norm_lines (normalize_lines summary n)) \<Longrightarrow> x \<noteq> []"
  by (drule normalize_lines_spec(3)) (auto simp: truncate_line_def split: if_splits)

lemma normalized_one_line: "x \<in> set (norm_lines (normalize_lines summary n)) \<Longrightarrow> one_line x"
  by (drule normalize_lines_spec(3)) (auto intro!: truncated_one_line collapsed_one_line)

text \<open>
  C17: the compressed summary never exceeds the budget: it has at most as many characters and at most as many lines, and the
  reported sizes are its sizes.
\<close>

theorem compressed_within_budget:
  "length (res_summary (compress_summary summary budget)) \<le> max_chars budget \<and>
   length (str_lines (res_summary (compress_summary summary budget))) \<le> max_lines budget \<and>
   compressed_chars (compress_summary summary budget) = length (res_summary (compress_summary summary budget)) \<and>
   compressed_lines (compress_summary summary budget) = length (str_lines (res_summary (compress_summary summary budget)))"
proof (cases "norm_lines (normalize_lines summary (max_line_chars budget)) = [] \<or> max_chars budget = 0 \<or> max_lines budget = 0")
  case True
  then show ?thesis by (simp add: compress_summary_def Let_def str_lines.simps)
next
  case False
  let ?n = "normalize_lines summary (max_line_chars budget)"
  let ?sel = "map (\<lambda>k. norm_lines ?n ! k) (select_line_indexes (norm_lines ?n) budget)"
  define chosen where "chosen = (if ?sel = [] then [truncate_line (norm_lines ?n ! 0) (max_chars budget)] else ?sel)"
  define final where "final = (if 0 < length (norm_lines ?n) - length chosen
    then push_line_with_budget chosen (omission_notice (length (norm_lines ?n) - length chosen)) budget else chosen)"
  have "joined_char_count chosen \<le> max_chars budget \<and> length chosen \<le> max_lines budget"
    using selection_select [of "norm_lines ?n" budget] False
    by (auto simp: chosen_def selection_def joined_char_count_def length_truncate_line)
  then have "joined_char_count final \<le> max_chars budget \<and> length final \<le> max_lines budget"
    using joined_push by (auto simp: final_def)
  moreover have "one_line (norm_lines ?n ! k)" if "k < length (norm_lines ?n)" for k
    using normalized_one_line nth_mem [OF that] .
  then have "list_all one_line chosen"
    using selection_select [of "norm_lines ?n" budget] False
    by (auto simp: chosen_def selection_def list_all_iff intro!: truncated_one_line)
  then have "list_all one_line final" by (simp add: final_def push_line_with_budget_def Let_def notice_one_line)
  then have "str_lines (join [c_nl] final) = final" by (rule str_lines_join)
  moreover have "compressed_chars (compress_summary summary budget) = length (join [c_nl] final) \<and>
      res_summary (compress_summary summary budget) = join [c_nl] final \<and>
      compressed_lines (compress_summary summary budget) = length final"
    using False unfolding compress_summary_def Let_def final_def chosen_def by simp
  ultimately show ?thesis by (simp add: length_join)
qed

text \<open>
  normalization loses only blank lines and repetitions: the lines it keeps differ pairwise even
  without regard to case, none exceeds the line limit, and the kept and the removed lines together are
  the lines of the input that are not blank.
\<close>

theorem normalization_accounts_for_lines:
  "distinct (map dedupe_key (norm_lines (normalize_lines summary n))) \<and>
   length (norm_lines (normalize_lines summary n)) + norm_removed (normalize_lines summary n) =
     length (filter (\<lambda>l. collapse_inline_whitespace l \<noteq> []) (str_lines summary)) \<and>
   list_all (\<lambda>l. n = 0 \<or> length l \<le> n) (norm_lines (normalize_lines summary n))"
proof -
  have "n = 0 \<or> length l \<le> n" if "l \<in> set (norm_lines (normalize_lines summary n))" for l
    using normalize_lines_spec(3) [OF that] length_truncate_line [of n] by blast
  then have "list_all (\<lambda>l. n = 0 \<or> length l \<le> n) (norm_lines (normalize_lines summary n))"
    unfolding list_all_iff by (rule ballI)
  then show ?thesis by (intro conjI normalize_lines_spec(1,2))
qed

lemma fits_everything:
  assumes "length lines \<le> max_lines budget" and "joined_char_count lines \<le> max_chars budget"
    and "selection lines budget sel" and "i < length lines" and "i \<notin> set sel"
  shows "fits lines budget sel i"
proof -
  let ?g = "\<lambda>k. length (lines ! k)"
  have sel: "distinct (i # sel)" "set (i # sel) \<subseteq> {..<length lines}"
    using assms(3-5) by (auto simp: selection_def)
  have "card (set (i # sel)) \<le> card {..<length lines}" by (rule card_mono [OF finite_lessThan sel(2)])
  then have len: "length sel + 1 \<le> length lines" using distinct_card [OF sel(1)] by simp
  have "sum_list (map ?g (i # sel)) = sum ?g (set (i # sel))" using sel(1) by (simp add: sum_list_distinct_conv_sum_set)
  also have "\<dots> \<le> sum ?g {..<length lines}" using sel(2) by (intro sum_mono2) auto
  also have "\<dots> = sum_list (map length lines)" by (simp add: sum_list_sum_nth lessThan_atLeast0)
  finally have "sum_list (map ?g sel) + ?g i \<le> sum_list (map length lines)" by simp
  with len assms(1,2) show ?thesis by (simp add: fits_def joined_char_count_snoc joined_char_count_def o_def)
qed

lemma selection_filter:
  assumes "selection lines budget sel"
  shows "selection lines budget (filter P sel)"
proof -
  have "sum_list (map length (map (\<lambda>k. lines ! k) (filter P sel))) \<le>
      sum_list (map length (map (\<lambda>k. lines ! k) sel))"
    by (induction sel) simp_all
  then have "joined_char_count (map (\<lambda>k. lines ! k) (filter P sel)) \<le> joined_char_count (map (\<lambda>k. lines ! k) sel)"
    unfolding joined_char_count_def length_map by (intro add_mono diff_le_mono length_filter_le)
  moreover have "sorted (filter P sel)" "distinct (filter P sel)" "set (filter P sel) \<subseteq> set sel"
    using assms sorted_filter [of id sel P] by (auto simp: selection_def)
  moreover have "length (filter P sel) \<le> length sel" by (rule length_filter_le)
  ultimately show ?thesis
    using assms unfolding selection_def by (meson order.trans)
qed

lemma sorted_distinct_all: "sorted sel \<Longrightarrow> distinct sel \<Longrightarrow> set sel = {..<n} \<Longrightarrow> sel = [0..<n]" for n :: nat
  using sorted_distinct_set_unique [of sel "[0..<n]"] by (simp add: lessThan_atLeast0)

lemma select_all:
  assumes "length lines \<le> max_lines budget" and "joined_char_count lines \<le> max_chars budget"
  shows "select_line_indexes lines budget = [0..<length lines]"
proof (rule sorted_distinct_all)
  let ?sel = "select_line_indexes lines budget"
  have sel: "selection lines budget ?sel" by (rule selection_select)
  then show "sorted ?sel" "distinct ?sel" by (simp_all add: selection_def)
  have "i \<in> set ?sel" if i: "i < length lines" for i
  proof (rule ccontr)
    let ?kept = "filter (\<lambda>k. line_priority (lines ! k) \<le> line_priority (lines ! i)) ?sel"
    assume "i \<notin> set ?sel"
    then have "\<not> fits lines budget ?kept i" and "i \<notin> set ?kept"
      using left_out [of i lines budget] i by auto
    moreover have "selection lines budget ?kept"
      using selection_filter [OF sel] .
    ultimately show False using fits_everything [OF assms _ i] by blast
  qed
  with sel show "set ?sel = {..<length lines}" by (auto simp: selection_def)
qed

text \<open>
  a summary whose normalized lines fit the budget is not shortened: the result is those lines,
  joined, with nothing omitted.
\<close>

theorem compression_lossless_within_budget:
  assumes "length (norm_lines (normalize_lines summary (max_line_chars budget))) \<le> max_lines budget"
    and "joined_char_count (norm_lines (normalize_lines summary (max_line_chars budget))) \<le> max_chars budget"
  shows "res_summary (compress_summary summary budget) =
      join [c_nl] (norm_lines (normalize_lines summary (max_line_chars budget))) \<and>
    omitted_lines (compress_summary summary budget) = 0"
proof (cases "norm_lines (normalize_lines summary (max_line_chars budget)) = []")
  case True
  then show ?thesis by (simp add: compress_summary_def Let_def)
next
  case False
  let ?ls = "norm_lines (normalize_lines summary (max_line_chars budget))"
  show ?thesis
  proof (cases "max_chars budget = 0")
    case True
    with False assms(2) norm_lines_nonempty [of _ summary "max_line_chars budget"] show ?thesis
      by (cases ?ls) (auto simp: joined_char_count_def)
  next
    case chars: False
    have "max_lines budget \<noteq> 0" using False assms(1) by (metis le_zero_eq length_0_conv)
    with chars False show ?thesis
      unfolding compress_summary_def Let_def select_all [OF assms] by (simp add: map_nth)
  qed
qed

lemma sample_lines: "norm_lines (normalize_lines (lit ''a  b'') 160) = [lit ''a b'']"
  by (simp add: normalize_lines_def str_lines.simps collapse_inline_whitespace_def truncate_line_def str_defs lit_def)

theorem compression_lossless_within_budget_witness:
  "res_summary (compress_summary (lit ''a  b'') default_budget) = lit ''a b''"
  using compression_lossless_within_budget [of "lit ''a  b''" default_budget]
  by (simp add: default_budget_def sample_lines joined_char_count_def) (simp add: lit_def)

end
