(* ===== verification/McpLifecycle.thy ===== *)
theory McpLifecycle imports Registry begin

text \<open>
  The lifecycle of MCP servers (\<^verbatim>\<open>crates/runtime/src/mcp_lifecycle_hardened.rs\<close>): the phases, the
  transitions that are allowed, the validator that runs phases and records errors, and the report of a
  degraded start.

  A \<^verbatim>\<open>Duration\<close> is a number of nanoseconds.  The map from phases to errors is a function whose default
  is the empty list, as \<^verbatim>\<open>errors_for_phase\<close> reads it.  Parameters: \<open>now i\<close> is the i-th reading of the
  clock within an operation, \<open>elapsed\<close> the time that the validator itself took.  Strings are ordered as
  Rust orders them, lexicographically by code point (which is the order of their UTF-8 bytes).
\<close>

section \<open>Phases\<close>

datatype mcp_phase =
    ConfigLoad | ServerRegistration | SpawnConnect | InitializeHandshake | ToolDiscovery | ResourceDiscovery
  | Ready | Invocation | ErrorSurfacing | Shutdown | Cleanup

definition all_phases :: "mcp_phase list" where
  "all_phases = [ConfigLoad, ServerRegistration, SpawnConnect, InitializeHandshake, ToolDiscovery,
     ResourceDiscovery, Ready, Invocation, ErrorSurfacing, Shutdown, Cleanup]"

fun show_phase :: "mcp_phase \<Rightarrow> rstring" where
  "show_phase ConfigLoad = lit ''config_load''"
| "show_phase ServerRegistration = lit ''server_registration''"
| "show_phase SpawnConnect = lit ''spawn_connect''"
| "show_phase InitializeHandshake = lit ''initialize_handshake''"
| "show_phase ToolDiscovery = lit ''tool_discovery''"
| "show_phase ResourceDiscovery = lit ''resource_discovery''"
| "show_phase Ready = lit ''ready''"
| "show_phase Invocation = lit ''invocation''"
| "show_phase ErrorSurfacing = lit ''error_surfacing''"
| "show_phase Shutdown = lit ''shutdown''"
| "show_phase Cleanup = lit ''cleanup''"

type_synonym mcp_duration = nat

definition as_millis :: "mcp_duration \<Rightarrow> nat" where
  "as_millis d = d div 1000000"

text \<open>The context of an error is a \<^verbatim>\<open>BTreeMap\<close>, kept as a sorted association list.\<close>

record mcp_error_surface =
  err_phase :: mcp_phase
  err_server_name :: "rstring option"
  err_message :: rstring
  err_context :: "(rstring \<times> rstring) list"
  err_recoverable :: bool
  err_timestamp :: u64

definition error_new ::
    "u64 \<Rightarrow> mcp_phase \<Rightarrow> rstring option \<Rightarrow> rstring \<Rightarrow> (rstring \<times> rstring) list \<Rightarrow> bool \<Rightarrow> mcp_error_surface" where
  "error_new ts phase server message ctx recoverable =
     \<lparr>err_phase = phase, err_server_name = server, err_message = message, err_context = ctx,
      err_recoverable = recoverable, err_timestamp = ts\<rparr>"

datatype mcp_phase_result =
    Phase_Success mcp_phase mcp_duration
  | Phase_Failure mcp_phase mcp_error_surface
  | Phase_Timeout mcp_phase mcp_duration mcp_error_surface

fun result_phase :: "mcp_phase_result \<Rightarrow> mcp_phase" where
  "result_phase (Phase_Success phase d) = phase"
| "result_phase (Phase_Failure phase e) = phase"
| "result_phase (Phase_Timeout phase d e) = phase"

section \<open>The state\<close>

record mcp_state =
  current_phase :: "mcp_phase option"
  phase_errors :: "mcp_phase \<Rightarrow> mcp_error_surface list"
  phase_timestamps :: "mcp_phase \<Rightarrow> u64 option"
  phase_results :: "mcp_phase_result list"

definition state_new :: mcp_state where
  "state_new = \<lparr>current_phase = None, phase_errors = (\<lambda>_. []), phase_timestamps = Map.empty, phase_results = []\<rparr>"

definition errors_for_phase :: "mcp_state \<Rightarrow> mcp_phase \<Rightarrow> mcp_error_surface list" where
  "errors_for_phase s phase = phase_errors s phase"

definition phase_timestamp :: "mcp_state \<Rightarrow> mcp_phase \<Rightarrow> u64 option" where
  "phase_timestamp s phase = phase_timestamps s phase"

definition record_phase :: "u64 \<Rightarrow> mcp_phase \<Rightarrow> mcp_state \<Rightarrow> mcp_state" where
  "record_phase ts phase s = s\<lparr>current_phase := Some phase, phase_timestamps := (phase_timestamps s)(phase \<mapsto> ts)\<rparr>"

definition record_error :: "mcp_error_surface \<Rightarrow> mcp_state \<Rightarrow> mcp_state" where
  "record_error e s = s\<lparr>phase_errors := (phase_errors s)(err_phase e := phase_errors s (err_phase e) @ [e])\<rparr>"

definition record_result :: "mcp_phase_result \<Rightarrow> mcp_state \<Rightarrow> mcp_state" where
  "record_result r s = s\<lparr>phase_results := phase_results s @ [r]\<rparr>"

definition can_resume_after_error :: "mcp_state \<Rightarrow> bool" where
  "can_resume_after_error s =
     (if phase_results s = [] then False
      else (case last (phase_results s) of
          Phase_Failure phase e \<Rightarrow> err_recoverable e
        | Phase_Timeout phase d e \<Rightarrow> err_recoverable e
        | Phase_Success phase d \<Rightarrow> False))"

section \<open>The validator\<close>

definition validate_phase_transition :: "mcp_phase \<Rightarrow> mcp_phase \<Rightarrow> bool" where
  "validate_phase_transition src dst =
     (if (src, dst) \<in> {(ConfigLoad, ServerRegistration), (ServerRegistration, SpawnConnect),
          (SpawnConnect, InitializeHandshake), (InitializeHandshake, ToolDiscovery),
          (ToolDiscovery, ResourceDiscovery), (ToolDiscovery, Ready), (ResourceDiscovery, Ready),
          (Ready, Invocation), (Invocation, Ready), (ErrorSurfacing, Ready), (ErrorSurfacing, Shutdown),
          (Shutdown, Cleanup)} then True
      else if dst = Shutdown then src \<noteq> Cleanup
      else if dst = ErrorSurfacing then src \<noteq> Cleanup \<and> src \<noteq> Shutdown
      else False)"

text \<open>\<open>k\<close> is the number of clock readings that the caller has used.\<close>

definition record_failure :: "clock \<Rightarrow> nat \<Rightarrow> mcp_error_surface \<Rightarrow> mcp_state \<Rightarrow> mcp_phase_result \<times> mcp_state" where
  "record_failure now k e s =
     (let result = Phase_Failure (err_phase e) e
      in (result, record_result result (record_phase (now k) ErrorSurfacing (record_error e s))))"

definition transition_context :: "mcp_phase \<Rightarrow> mcp_phase \<Rightarrow> (rstring \<times> rstring) list" where
  "transition_context src dst = [(lit ''from'', show_phase src), (lit ''to'', show_phase dst)]"

definition run_phase :: "clock \<Rightarrow> mcp_duration \<Rightarrow> mcp_phase \<Rightarrow> mcp_state \<Rightarrow> mcp_phase_result \<times> mcp_state" where
  "run_phase now elapsed phase s =
     (let accept = (let result = Phase_Success phase elapsed in (result, record_result result (record_phase (now 0) phase s)));
          refuse = (\<lambda>message ctx. record_failure now 1 (error_new (now 0) phase None message ctx False) s)
      in case current_phase s of
          Some current \<Rightarrow>
            if current = ErrorSurfacing \<and> phase = Ready \<and> \<not> can_resume_after_error s then
              refuse (lit ''cannot return to ready after a non-recoverable MCP lifecycle failure'')
                (transition_context current phase)
            else if \<not> validate_phase_transition current phase then
              refuse (lit ''invalid MCP lifecycle transition from '' @ show_phase current @ lit '' to '' @ show_phase phase)
                (transition_context current phase)
            else accept
        | None \<Rightarrow>
            if phase \<noteq> ConfigLoad then
              refuse (lit ''invalid initial MCP lifecycle phase '' @ show_phase phase) [(lit ''phase'', show_phase phase)]
            else accept)"

definition record_timeout ::
    "clock \<Rightarrow> mcp_phase \<Rightarrow> mcp_duration \<Rightarrow> rstring option \<Rightarrow> (rstring \<times> rstring) list \<Rightarrow> mcp_state \<Rightarrow>
     mcp_phase_result \<times> mcp_state" where
  "record_timeout now phase waited server ctx s =
     (let e = error_new (now 0) phase server
            (lit ''MCP lifecycle phase '' @ show_phase phase @ lit '' timed out after '' @
             show_nat (as_millis waited) @ lit '' ms'')
            (bt_insert (lit ''waited_ms'') (show_nat (as_millis waited)) ctx) True;
          result = Phase_Timeout phase waited e
      in (result, record_result result (record_phase (now 1) ErrorSurfacing (record_error e s))))"

section \<open>The report of a degraded start\<close>

record mcp_failed_server =
  failed_server_name :: rstring
  failed_phase :: mcp_phase
  failed_error :: mcp_error_surface

record mcp_degraded_report =
  working_servers :: "rstring list"
  failed_servers :: "mcp_failed_server list"
  available_tools :: "rstring list"
  missing_tools :: "rstring list"

text \<open>\<^verbatim>\<open>sort\<close> followed by \<^verbatim>\<open>dedup\<close>, which removes adjacent repetitions.\<close>

definition dedupe_sorted :: "rstring list \<Rightarrow> rstring list" where
  "dedupe_sorted vs = remdups_adj (sort vs)"

definition degraded_report ::
    "rstring list \<Rightarrow> mcp_failed_server list \<Rightarrow> rstring list \<Rightarrow> rstring list \<Rightarrow> mcp_degraded_report" where
  "degraded_report working failed available expected =
     (let available' = dedupe_sorted available; expected' = dedupe_sorted expected
      in \<lparr>working_servers = dedupe_sorted working, failed_servers = failed, available_tools = available',
          missing_tools = filter (\<lambda>tool. tool \<notin> set available') expected'\<rparr>)"

section \<open>The log of results\<close>

inductive mcp_step :: "mcp_state \<Rightarrow> mcp_state \<Rightarrow> bool" where
  mcp_run: "mcp_step s (snd (run_phase now elapsed phase s))"
| mcp_failure: "mcp_step s (snd (record_failure now k e s))"
| mcp_timeout: "mcp_step s (snd (record_timeout now phase waited server ctx s))"

fun phase_after :: "mcp_phase_result \<Rightarrow> mcp_phase" where
  "phase_after (Phase_Success phase d) = phase"
| "phase_after (Phase_Failure phase e) = ErrorSurfacing"
| "phase_after (Phase_Timeout phase d e) = ErrorSurfacing"

fun error_of :: "mcp_phase_result \<Rightarrow> mcp_error_surface option" where
  "error_of (Phase_Success phase d) = None"
| "error_of (Phase_Failure phase e) = Some e"
| "error_of (Phase_Timeout phase d e) = Some e"

text \<open>What may follow a result (none at the start): \<open>resumable\<close> is a failure that allows \<open>Ready\<close>.\<close>

definition resumable :: "mcp_phase_result \<Rightarrow> bool" where
  "resumable r = (case error_of r of None \<Rightarrow> False | Some e \<Rightarrow> err_recoverable e)"

definition linked :: "mcp_phase_result option \<Rightarrow> mcp_phase_result \<Rightarrow> bool" where
  "linked prev r \<longleftrightarrow> (case r of
     Phase_Success phase d \<Rightarrow> (case prev of
         None \<Rightarrow> phase = ConfigLoad
       | Some q \<Rightarrow> validate_phase_transition (phase_after q) phase \<and>
           (phase_after q = ErrorSurfacing \<and> phase = Ready \<longrightarrow> resumable q))
   | Phase_Failure phase e \<Rightarrow> phase = err_phase e
   | Phase_Timeout phase d e \<Rightarrow> phase = err_phase e \<and> err_recoverable e)"

text \<open>The log with the newest result first: each result may follow the one before it.\<close>

fun linked_log :: "mcp_phase_result list \<Rightarrow> bool" where
  "linked_log [] = True"
| "linked_log [r] = linked None r"
| "linked_log (r # q # rs) = (linked (Some q) r \<and> linked_log (q # rs))"

definition last_result :: "mcp_phase_result list \<Rightarrow> mcp_phase_result option" where
  "last_result rs = (if rs = [] then None else Some (last rs))"

lemma linked_log_snoc: "linked_log (r # rev rs) \<longleftrightarrow> linked (last_result rs) r \<and> linked_log (rev rs)"
  by (cases rs rule: rev_cases) (simp_all add: last_result_def)

definition state_ok :: "mcp_state \<Rightarrow> bool" where
  "state_ok s \<longleftrightarrow> linked_log (rev (phase_results s)) \<and>
     current_phase s = map_option phase_after (last_result (phase_results s)) \<and>
     (\<forall>p. errors_for_phase s p =
        filter (\<lambda>e. err_phase e = p) (concat (map (\<lambda>r. case error_of r of None \<Rightarrow> [] | Some e \<Rightarrow> [e]) (phase_results s))))"

lemma can_resume_iff:
  "can_resume_after_error s \<longleftrightarrow> (case last_result (phase_results s) of None \<Rightarrow> False | Some r \<Rightarrow> resumable r)"
  by (auto simp: can_resume_after_error_def last_result_def resumable_def split: mcp_phase_result.split)

lemma last_result_snoc [simp]: "last_result (rs @ [r]) = Some r"
  by (simp add: last_result_def)

lemmas record_defs = record_phase_def record_error_def record_result_def errors_for_phase_def

lemma state_ok_accept:
  assumes "state_ok s" and "linked (last_result (phase_results s)) (Phase_Success phase d)"
  shows "state_ok (record_result (Phase_Success phase d) (record_phase ts phase s))"
  using assms by (auto simp: state_ok_def record_defs linked_log_snoc)

lemma state_ok_error:
  assumes "state_ok s" and "error_of r = Some e" and "linked (last_result (phase_results s)) r"
  shows "state_ok (record_result r (record_phase ts ErrorSurfacing (record_error e s)))"
proof -
  have "phase_after r = ErrorSurfacing" using assms(2) by (cases r) simp_all
  with assms show ?thesis by (auto simp: state_ok_def record_defs linked_log_snoc)
qed

lemma state_ok_failure: "state_ok s \<Longrightarrow> state_ok (snd (record_failure now k e s))"
  by (simp add: record_failure_def Let_def state_ok_error linked_def)

lemma state_ok_timeout: "state_ok s \<Longrightarrow> state_ok (snd (record_timeout now phase waited server ctx s))"
  by (simp add: record_timeout_def Let_def state_ok_error linked_def error_new_def)

lemma state_ok_run:
  assumes "state_ok s"
  shows "state_ok (snd (run_phase now elapsed phase s))"
proof (cases "last_result (phase_results s)")
  case None
  with assms have "current_phase s = None" by (simp add: state_ok_def)
  with None assms show ?thesis
    by (auto simp: run_phase_def Let_def intro!: state_ok_failure state_ok_accept) (simp add: linked_def)
next
  case (Some q)
  with assms have "current_phase s = Some (phase_after q)" by (simp add: state_ok_def)
  with Some assms show ?thesis
    by (auto simp: run_phase_def Let_def can_resume_iff intro!: state_ok_failure state_ok_accept)
      (auto simp: linked_def)
qed

interpretation mcp_life: step_invariant "\<lambda>s. s = state_new" mcp_step state_ok
proof
  fix s t
  show "s = state_new \<Longrightarrow> state_ok s" by (simp add: state_ok_def state_new_def last_result_def errors_for_phase_def)
  show "mcp_step s t \<Longrightarrow> state_ok s \<Longrightarrow> state_ok t"
    by (induction rule: mcp_step.induct) (simp_all add: state_ok_run state_ok_failure state_ok_timeout)
qed

text \<open>
  C9: in every state of the validator that its operations reach, the log of results is a walk through
  the allowed transitions: it starts with the configuration, each phase run follows from the phase
  before it, \<^verbatim>\<open>Ready\<close> follows an error only when that error was recoverable; the current phase is the one
  the last result leads to; and the errors kept for a phase are exactly the errors of the log for it,
  in order.
\<close>

theorem mcp_log_is_a_walk:
  assumes "mcp_step\<^sup>*\<^sup>* state_new s"
  shows "state_ok s"
  using mcp_life.reachable_inv [OF refl assms] .

theorem mcp_log_is_a_walk_witness:
  "state_ok (snd (run_phase (\<lambda>_. 2) 5 Ready (snd (record_timeout (\<lambda>_. 1) ConfigLoad 7 None [] state_new))))"
  by (rule mcp_log_is_a_walk) (meson mcp_timeout mcp_run rtranclp.intros)

section \<open>What the walk guarantees, and what it does not\<close>

lemma success_phase: "error_of r = None \<Longrightarrow> result_phase r = phase_after r"
  by (cases r) simp_all

lemma successful_walk:
  assumes "linked_log rs" and "list_all (\<lambda>r. error_of r = None) rs" and "rs \<noteq> []"
  shows "(phase_after (hd rs) \<in> {ToolDiscovery, ResourceDiscovery, Ready, Invocation} \<longrightarrow>
      InitializeHandshake \<in> phase_after ` set rs) \<and>
    (phase_after (hd rs) \<in> {ResourceDiscovery, Ready, Invocation} \<longrightarrow> ToolDiscovery \<in> phase_after ` set rs)"
  using assms
proof (induction rs rule: linked_log.induct)
  case (2 r)
  then show ?case by (cases r) (auto simp: linked_def)
next
  case (3 r q rs)
  obtain p d where r: "r = Phase_Success p d" using 3(3) by (cases r) auto
  have step: "validate_phase_transition (phase_after q) p"
    and resumed: "phase_after q = ErrorSurfacing \<Longrightarrow> p \<noteq> Ready"
    using 3(2,3) r by (auto simp: linked_def resumable_def)
  have IH: "(phase_after q \<in> {ToolDiscovery, ResourceDiscovery, Ready, Invocation} \<longrightarrow>
      InitializeHandshake \<in> phase_after ` set (q # rs)) \<and>
    (phase_after q \<in> {ResourceDiscovery, Ready, Invocation} \<longrightarrow> ToolDiscovery \<in> phase_after ` set (q # rs))"
    using 3 by simp
  show ?case
    using step resumed IH r by (cases "phase_after q"; cases p) (auto simp: validate_phase_transition_def)
qed simp

text \<open>
  as long as no error has been recorded, a server is ready or invoked only after its handshake and
  the discovery of its tools have run.
\<close>

theorem invocation_needs_handshake:
  assumes "mcp_step\<^sup>*\<^sup>* state_new s" and "list_all (\<lambda>r. error_of r = None) (phase_results s)"
    and "current_phase s = Some p" and "p \<in> {Ready, Invocation}"
  shows "list_ex (\<lambda>r. result_phase r = InitializeHandshake) (phase_results s) \<and>
    list_ex (\<lambda>r. result_phase r = ToolDiscovery) (phase_results s)"
proof -
  have ok: "state_ok s" using mcp_life.reachable_inv [OF refl assms(1)] .
  with assms(3) have ne: "phase_results s \<noteq> []" and p: "phase_after (hd (rev (phase_results s))) = p"
    by (auto simp: state_ok_def last_result_def hd_rev split: if_splits)
  have "InitializeHandshake \<in> phase_after ` set (phase_results s) \<and> ToolDiscovery \<in> phase_after ` set (phase_results s)"
    using successful_walk [of "rev (phase_results s)"] ok assms(2,4) ne p by (auto simp: state_ok_def list_all_iff)
  moreover have "result_phase r = phase_after r" if "r \<in> set (phase_results s)" for r
    using that assms(2) by (simp add: list_all_iff success_phase)
  ultimately show ?thesis by (force simp: list_ex_iff)
qed

lemma run_phases_reach: "mcp_step\<^sup>*\<^sup>* s (fold (\<lambda>p s. snd (run_phase now d p s)) ps s)"
proof (induction ps arbitrary: s)
  case (Cons p ps)
  have "mcp_step s (snd (run_phase now d p s))" by (rule mcp_run)
  from converse_rtranclp_into_rtranclp [of mcp_step, OF this Cons.IH] show ?case by simp
qed simp

theorem invocation_needs_handshake_witness:
  "list_ex (\<lambda>r. result_phase r = InitializeHandshake) (phase_results (fold (\<lambda>p s. snd (run_phase (\<lambda>_. 1) 0 p s))
     [ConfigLoad, ServerRegistration, SpawnConnect, InitializeHandshake, ToolDiscovery, Ready] state_new))"
    (is "list_ex _ (phase_results ?s)")
proof -
  have "list_all (\<lambda>r. error_of r = None) (phase_results ?s)" "current_phase ?s = Some Ready"
    by (simp_all add: run_phase_def Let_def record_defs state_new_def validate_phase_transition_def)
  then show ?thesis
    using invocation_needs_handshake [OF run_phases_reach, of "\<lambda>_. 1" 0 "[ConfigLoad, ServerRegistration, SpawnConnect,
        InitializeHandshake, ToolDiscovery, Ready]" Ready] by blast
qed

text \<open>
  an error undoes this guarantee: a timeout, which is always recoverable, recorded before any phase
  has run lets the validator enter \<^verbatim>\<open>Ready\<close> and \<^verbatim>\<open>Invocation\<close> at once, with no configuration, connection
  or handshake; and \<^verbatim>\<open>Cleanup\<close> is not final: any phase run after it is refused, but the refusal itself
  takes the server to \<^verbatim>\<open>ErrorSurfacing\<close>, from where a shutdown is accepted again.
\<close>

theorem errors_bypass_the_handshake:
  "(case run_phase now1 d1 Ready (snd (record_timeout now0 phase waited server ctx state_new)) of (r1, s1) \<Rightarrow>
      r1 = Phase_Success Ready d1 \<and> fst (run_phase now2 d2 Invocation s1) = Phase_Success Invocation d2) \<and>
   (case run_phase now1 d1 any (s\<lparr>current_phase := Some Cleanup\<rparr>) of (r1, s1) \<Rightarrow>
      error_of r1 \<noteq> None \<and> current_phase s1 = Some ErrorSurfacing \<and>
      fst (run_phase now2 d2 Shutdown s1) = Phase_Success Shutdown d2)"
proof
  show "case run_phase now1 d1 Ready (snd (record_timeout now0 phase waited server ctx state_new)) of (r1, s1) \<Rightarrow>
      r1 = Phase_Success Ready d1 \<and> fst (run_phase now2 d2 Invocation s1) = Phase_Success Invocation d2"
    by (simp add: run_phase_def record_timeout_def record_defs state_new_def Let_def can_resume_after_error_def
        error_new_def validate_phase_transition_def)
  show "case run_phase now1 d1 any (s\<lparr>current_phase := Some Cleanup\<rparr>) of (r1, s1) \<Rightarrow>
      error_of r1 \<noteq> None \<and> current_phase s1 = Some ErrorSurfacing \<and>
      fst (run_phase now2 d2 Shutdown s1) = Phase_Success Shutdown d2"
    by (cases any) (simp_all add: run_phase_def record_failure_def record_defs Let_def validate_phase_transition_def)
qed

section \<open>The degraded report\<close>

lemma sorted_remdups_adj_distinct:
  "sorted xs \<Longrightarrow> sorted (remdups_adj xs) \<and> distinct (remdups_adj xs)" for xs :: "'a::linorder list"
  by (induction xs rule: remdups_adj.induct) (fastforce simp: order.order_iff_strict)+

lemma dedupe_sorted_eq: "dedupe_sorted vs = sorted_list_of_set (set vs)"
proof (rule sorted_distinct_set_unique)
  show "sorted (dedupe_sorted vs)" "distinct (dedupe_sorted vs)"
    unfolding dedupe_sorted_def using sorted_remdups_adj_distinct [OF sorted_sort] by blast+
qed (simp_all add: dedupe_sorted_def)

text \<open>
  the report lists each working server and tool once, in order, and the missing tools are exactly the
  expected tools that are not available.
\<close>

theorem degraded_report_spec:
  "set (missing_tools (degraded_report working failed available expected)) = set expected - set available \<and>
   set (available_tools (degraded_report working failed available expected)) = set available \<and>
   sorted (missing_tools (degraded_report working failed available expected)) \<and>
   distinct (missing_tools (degraded_report working failed available expected)) \<and>
   working_servers (degraded_report working failed available expected) = sorted_list_of_set (set working)"
  by (auto simp: degraded_report_def Let_def dedupe_sorted_eq sorted_wrt_filter)

end
