(* ===== verification/Usage.thy ===== *)
theory Usage imports Prelude begin

text \<open>
  Token usage (\<^verbatim>\<open>crates/runtime/src/usage.rs\<close>): the counters of a turn and the tracker of a session, on
  \<^typ>\<open>u32\<close> with wrap-around, which is what \<^verbatim>\<open>+\<close> and \<^verbatim>\<open>+=\<close> do in the release profile.  The cost estimates
  in \<^verbatim>\<open>f64\<close> and their formatting are not modelled.
\<close>

record token_usage =
  input_tokens :: u32
  output_tokens :: u32
  cache_creation_input_tokens :: u32
  cache_read_input_tokens :: u32

definition usage_zero :: token_usage where
  "usage_zero = \<lparr>input_tokens = 0, output_tokens = 0, cache_creation_input_tokens = 0, cache_read_input_tokens = 0\<rparr>"

definition total_tokens :: "token_usage \<Rightarrow> u32" where
  "total_tokens u = input_tokens u + output_tokens u + cache_creation_input_tokens u + cache_read_input_tokens u"

record usage_tracker =
  latest_turn :: token_usage
  cumulative :: token_usage
  turns :: u32

definition tracker_new :: usage_tracker where
  "tracker_new = \<lparr>latest_turn = usage_zero, cumulative = usage_zero, turns = 0\<rparr>"

definition tracker_record :: "token_usage \<Rightarrow> usage_tracker \<Rightarrow> usage_tracker" where
  "tracker_record u t = \<lparr>latest_turn = u,
     cumulative = \<lparr>input_tokens = input_tokens (cumulative t) + input_tokens u,
       output_tokens = output_tokens (cumulative t) + output_tokens u,
       cache_creation_input_tokens = cache_creation_input_tokens (cumulative t) + cache_creation_input_tokens u,
       cache_read_input_tokens = cache_read_input_tokens (cumulative t) + cache_read_input_tokens u\<rparr>,
     turns = turns t + 1\<rparr>"

lemma total_tokens_record:
  "total_tokens (cumulative (tracker_record u t)) = total_tokens (cumulative t) + total_tokens u"
  by (simp add: total_tokens_def tracker_record_def)

lemma tracker_totals:
  "total_tokens (cumulative (fold tracker_record us t)) =
     total_tokens (cumulative t) + sum_list (map total_tokens us) \<and>
   turns (fold tracker_record us t) = turns t + of_nat (length us)"
proof (induction us arbitrary: t)
  case (Cons u us)
  then show ?case by (simp add: total_tokens_record) (simp add: tracker_record_def)
qed simp

end
