(* ===== verification/Session.thy ===== *)
theory Session imports Json Usage Registry begin

text \<open>
  Sessions (\<^verbatim>\<open>crates/runtime/src/session.rs\<close>): messages and their blocks, the JSON object of a session,
  the JSONL file (a record of metadata, one of the last compaction, one for each message), and the
  operations on a session in memory.

  An error of the code is \<open>Inl\<close> and \<^verbatim>\<open>?\<close> is \<open>rbind\<close>.  A \<^verbatim>\<open>BTreeMap\<close> that is filled key by key is
  \<open>btree\<close>.  \<^verbatim>\<open>usize\<close> is 64 bits wide.  Parameters: \<open>now\<close> is \<^verbatim>\<open>current_time_millis()\<close> and \<open>fresh\<close> the id that
  \<^verbatim>\<open>generate_session_id()\<close> returns when it is called.  The file system (writing, rotation, removal of old
  rotated files) is not modelled; the contents of the files are.
\<close>

section \<open>Results and maps\<close>

type_synonym json_object = "(rstring \<times> json_value) list"

definition btree :: "json_object \<Rightarrow> json_object" where
  "btree kvs = fold (\<lambda>(k, v). bt_insert k v) kvs []"

lemma btree_snoc: "btree (kvs @ [(k, v)]) = bt_insert k v (btree kvs)"
  by (simp add: btree_def)

lemma bt_ok_btree [simp]: "bt_ok (btree kvs)"
  by (induction kvs rule: rev_induct) (simp add: btree_def, auto simp: btree_snoc)

lemma map_of_btree: "map_of (btree kvs) k = map_of (rev kvs) k"
proof (induction kvs rule: rev_induct)
  case (snoc e kvs)
  then show ?case by (cases e) (simp add: btree_snoc map_of_bt_insert)
qed (simp add: btree_def)

lemma set_btree: "set (btree kvs) \<subseteq> set kvs"
proof (induction kvs rule: rev_induct)
  case (snoc e kvs)
  then show ?case using set_bt_insert_subset [of "fst e" "snd e" "btree kvs"] by (cases e) (auto simp: btree_snoc)
qed (simp add: btree_def)

lemma btree_json_ok: "list_all (\<lambda>e. json_ok (snd e)) kvs \<Longrightarrow> json_ok (JObject (btree kvs))"
  using set_btree [of kvs] by (auto simp: list_all_iff)

section \<open>Data\<close>

datatype message_role = Role_System | Role_User | Role_Assistant | Role_Tool

datatype content_block =
    Block_Text rstring
  | Block_ToolUse rstring rstring rstring
  | Block_ToolResult rstring rstring rstring bool

record conversation_message =
  msg_role :: message_role
  msg_blocks :: "content_block list"
  msg_usage :: "token_usage option"

record session_compaction =
  compaction_count :: u32
  removed_message_count :: u64
  compaction_summary :: rstring

record session_fork =
  parent_session_id :: rstring
  fork_branch_name :: "rstring option"

record session =
  session_version :: u32
  session_id :: rstring
  created_at_ms :: u64
  updated_at_ms :: u64
  messages :: "conversation_message list"
  compaction :: "session_compaction option"
  fork :: "session_fork option"
  persistence :: "rstring option"

datatype session_error = Err_Io rstring | Err_Json json_error | Err_Format rstring

definition session_version_const :: u32 where
  "session_version_const = 1"

fun show_json_error :: "json_error \<Rightarrow> rstring" where
  "show_json_error (JsonError message) = message"

fun show_session_error :: "session_error \<Rightarrow> rstring" where
  "show_session_error (Err_Io e) = e"
| "show_session_error (Err_Json e) = show_json_error e"
| "show_session_error (Err_Format e) = e"

section \<open>Numbers and fields\<close>

definition i64_from_u64 :: "u64 \<Rightarrow> rstring \<Rightarrow> session_error + i64" where
  "i64_from_u64 v key =
     (if unat v < 2 ^ 63 then Inr (word_of_int (uint v))
      else Inl (Err_Format (key @ lit '' out of range for JSON number'')))"

text \<open>\<^verbatim>\<open>i64::from\<close> of a \<^verbatim>\<open>u32\<close>.\<close>

definition i64_from_u32 :: "u32 \<Rightarrow> i64" where
  "i64_from_u32 v = word_of_int (uint v)"

definition missing :: "rstring \<Rightarrow> session_error" where
  "missing key = Err_Format (lit ''missing '' @ key)"

definition required_string :: "json_object \<Rightarrow> rstring \<Rightarrow> session_error + rstring" where
  "required_string obj key = ok_or (missing key) (Option.bind (map_of obj key) as_str)"

definition u32_try_from :: "i64 \<Rightarrow> u32 option" where
  "u32_try_from n = (if 0 \<le> sint n \<and> sint n < 2 ^ 32 then Some (word_of_int (sint n)) else None)"

definition u64_try_from :: "i64 \<Rightarrow> u64 option" where
  "u64_try_from n = (if 0 \<le> sint n then Some (word_of_int (sint n)) else None)"

definition out_of_range :: "rstring \<Rightarrow> session_error" where
  "out_of_range key = Err_Format (key @ lit '' out of range'')"

definition required_u32 :: "json_object \<Rightarrow> rstring \<Rightarrow> session_error + u32" where
  "required_u32 obj key = rbind (ok_or (missing key) (Option.bind (map_of obj key) as_i64))
     (\<lambda>v. ok_or (out_of_range key) (u32_try_from v))"

definition required_u64_from_value :: "json_value \<Rightarrow> rstring \<Rightarrow> session_error + u64" where
  "required_u64_from_value v key = rbind (ok_or (missing key) (as_i64 v))
     (\<lambda>n. ok_or (out_of_range key) (u64_try_from n))"

definition required_u64 :: "json_object \<Rightarrow> rstring \<Rightarrow> session_error + u64" where
  "required_u64 obj key = rbind (ok_or (missing key) (map_of obj key)) (\<lambda>v. required_u64_from_value v key)"

definition required_usize :: "json_object \<Rightarrow> rstring \<Rightarrow> session_error + u64" where
  "required_usize obj key = rbind (ok_or (missing key) (Option.bind (map_of obj key) as_i64))
     (\<lambda>v. ok_or (out_of_range key) (u64_try_from v))"

definition normalize_optional_string :: "rstring option \<Rightarrow> rstring option" where
  "normalize_optional_string v = (case v of None \<Rightarrow> None
     | Some s \<Rightarrow> if trim s = [] then None else Some (trim s))"

section \<open>Codecs of the parts\<close>

definition usage_to_json :: "token_usage \<Rightarrow> json_value" where
  "usage_to_json u = JObject (btree
     [(lit ''input_tokens'', JNumber (i64_from_u32 (input_tokens u))),
      (lit ''output_tokens'', JNumber (i64_from_u32 (output_tokens u))),
      (lit ''cache_creation_input_tokens'', JNumber (i64_from_u32 (cache_creation_input_tokens u))),
      (lit ''cache_read_input_tokens'', JNumber (i64_from_u32 (cache_read_input_tokens u)))])"

definition usage_from_json :: "json_value \<Rightarrow> session_error + token_usage" where
  "usage_from_json v = rbind (ok_or (Err_Format (lit ''usage must be an object'')) (as_object v)) (\<lambda>obj.
     rbind (required_u32 obj (lit ''input_tokens'')) (\<lambda>a.
     rbind (required_u32 obj (lit ''output_tokens'')) (\<lambda>b.
     rbind (required_u32 obj (lit ''cache_creation_input_tokens'')) (\<lambda>c.
     rbind (required_u32 obj (lit ''cache_read_input_tokens'')) (\<lambda>d.
       Inr \<lparr>input_tokens = a, output_tokens = b, cache_creation_input_tokens = c, cache_read_input_tokens = d\<rparr>)))))"

fun block_to_json :: "content_block \<Rightarrow> json_value" where
  "block_to_json (Block_Text t) = JObject (btree
     [(lit ''type'', JString (lit ''text'')), (lit ''text'', JString t)])"
| "block_to_json (Block_ToolUse i n inp) = JObject (btree
     [(lit ''type'', JString (lit ''tool_use'')), (lit ''id'', JString i), (lit ''name'', JString n),
      (lit ''input'', JString inp)])"
| "block_to_json (Block_ToolResult i n out is_error) = JObject (btree
     [(lit ''type'', JString (lit ''tool_result'')), (lit ''tool_use_id'', JString i), (lit ''tool_name'', JString n),
      (lit ''output'', JString out), (lit ''is_error'', JBool is_error)])"

definition block_from_json :: "json_value \<Rightarrow> session_error + content_block" where
  "block_from_json v = rbind (ok_or (Err_Format (lit ''block must be an object'')) (as_object v)) (\<lambda>obj.
     rbind (ok_or (Err_Format (lit ''missing block type'')) (Option.bind (map_of obj (lit ''type'')) as_str)) (\<lambda>ty.
       if ty = lit ''text'' then rbind (required_string obj (lit ''text'')) (\<lambda>t. Inr (Block_Text t))
       else if ty = lit ''tool_use'' then
         rbind (required_string obj (lit ''id'')) (\<lambda>i.
         rbind (required_string obj (lit ''name'')) (\<lambda>n.
         rbind (required_string obj (lit ''input'')) (\<lambda>inp. Inr (Block_ToolUse i n inp))))
       else if ty = lit ''tool_result'' then
         rbind (required_string obj (lit ''tool_use_id'')) (\<lambda>i.
         rbind (required_string obj (lit ''tool_name'')) (\<lambda>n.
         rbind (required_string obj (lit ''output'')) (\<lambda>out.
         rbind (ok_or (missing (lit ''is_error'')) (Option.bind (map_of obj (lit ''is_error'')) as_bool)) (\<lambda>e.
           Inr (Block_ToolResult i n out e)))))
       else Inl (Err_Format (lit ''unsupported block type: '' @ ty))))"

fun role_to_str :: "message_role \<Rightarrow> rstring" where
  "role_to_str Role_System = lit ''system''"
| "role_to_str Role_User = lit ''user''"
| "role_to_str Role_Assistant = lit ''assistant''"
| "role_to_str Role_Tool = lit ''tool''"

definition role_from_str :: "rstring \<Rightarrow> session_error + message_role" where
  "role_from_str r =
     (if r = lit ''system'' then Inr Role_System else if r = lit ''user'' then Inr Role_User
      else if r = lit ''assistant'' then Inr Role_Assistant else if r = lit ''tool'' then Inr Role_Tool
      else Inl (Err_Format (lit ''unsupported message role: '' @ r)))"

definition message_to_json :: "conversation_message \<Rightarrow> json_value" where
  "message_to_json m = JObject (btree
     ([(lit ''role'', JString (role_to_str (msg_role m))),
       (lit ''blocks'', JArray (map block_to_json (msg_blocks m)))] @
      (case msg_usage m of None \<Rightarrow> [] | Some u \<Rightarrow> [(lit ''usage'', usage_to_json u)])))"

definition message_from_json :: "json_value \<Rightarrow> session_error + conversation_message" where
  "message_from_json v = rbind (ok_or (Err_Format (lit ''message must be an object'')) (as_object v)) (\<lambda>obj.
     rbind (ok_or (missing (lit ''role'')) (Option.bind (map_of obj (lit ''role'')) as_str)) (\<lambda>r.
     rbind (role_from_str r) (\<lambda>role.
     rbind (ok_or (missing (lit ''blocks'')) (Option.bind (map_of obj (lit ''blocks'')) as_array)) (\<lambda>bs.
     rbind (collect_results block_from_json bs) (\<lambda>blocks.
     rbind (transpose_map usage_from_json (map_of obj (lit ''usage''))) (\<lambda>usage.
       Inr \<lparr>msg_role = role, msg_blocks = blocks, msg_usage = usage\<rparr>))))))"

definition compaction_fields :: "session_compaction \<Rightarrow> i64 \<Rightarrow> json_object" where
  "compaction_fields c removed = [(lit ''count'', JNumber (i64_from_u32 (compaction_count c))),
     (lit ''removed_message_count'', JNumber removed), (lit ''summary'', JString (compaction_summary c))]"

definition compaction_to_json :: "session_compaction \<Rightarrow> session_error + json_value" where
  "compaction_to_json c = rbind (i64_from_u64 (removed_message_count c) (lit ''removed_message_count'')) (\<lambda>n.
     Inr (JObject (btree (compaction_fields c n))))"

definition compaction_to_jsonl_record :: "session_compaction \<Rightarrow> session_error + json_value" where
  "compaction_to_jsonl_record c = rbind (i64_from_u64 (removed_message_count c) (lit ''removed_message_count'')) (\<lambda>n.
     Inr (JObject (btree ((lit ''type'', JString (lit ''compaction'')) # compaction_fields c n))))"

definition compaction_from_json :: "json_value \<Rightarrow> session_error + session_compaction" where
  "compaction_from_json v = rbind (ok_or (Err_Format (lit ''compaction must be an object'')) (as_object v)) (\<lambda>obj.
     rbind (required_u32 obj (lit ''count'')) (\<lambda>c.
     rbind (required_usize obj (lit ''removed_message_count'')) (\<lambda>n.
     rbind (required_string obj (lit ''summary'')) (\<lambda>s.
       Inr \<lparr>compaction_count = c, removed_message_count = n, compaction_summary = s\<rparr>))))"

definition fork_to_json :: "session_fork \<Rightarrow> json_value" where
  "fork_to_json f = JObject (btree ((lit ''parent_session_id'', JString (parent_session_id f)) #
     (case fork_branch_name f of None \<Rightarrow> [] | Some b \<Rightarrow> [(lit ''branch_name'', JString b)])))"

definition fork_from_json :: "json_value \<Rightarrow> session_error + session_fork" where
  "fork_from_json v = rbind (ok_or (Err_Format (lit ''fork metadata must be an object'')) (as_object v)) (\<lambda>obj.
     rbind (required_string obj (lit ''parent_session_id'')) (\<lambda>p.
       Inr \<lparr>parent_session_id = p, fork_branch_name = Option.bind (map_of obj (lit ''branch_name'')) as_str\<rparr>))"

section \<open>Sessions\<close>

definition generate_session_id :: "u64 \<Rightarrow> u64 \<Rightarrow> rstring" where
  "generate_session_id millis n = lit ''session-'' @ show_nat (unat millis) @ lit ''-'' @ show_nat (unat n)"

definition session_new :: "u64 \<Rightarrow> rstring \<Rightarrow> session" where
  "session_new now fresh = \<lparr>session_version = session_version_const, session_id = fresh, created_at_ms = now,
     updated_at_ms = now, messages = [], compaction = None, fork = None, persistence = None\<rparr>"

definition with_persistence_path :: "rstring \<Rightarrow> session \<Rightarrow> session" where
  "with_persistence_path path s = s\<lparr>persistence := Some path\<rparr>"

definition touch :: "u64 \<Rightarrow> session \<Rightarrow> session" where
  "touch now s = s\<lparr>updated_at_ms := now\<rparr>"

definition record_compaction :: "u64 \<Rightarrow> rstring \<Rightarrow> u64 \<Rightarrow> session \<Rightarrow> session" where
  "record_compaction now summary removed s =
     (let s1 = touch now s; n = (case compaction s1 of None \<Rightarrow> 1 | Some c \<Rightarrow> compaction_count c + 1)
      in s1\<lparr>compaction := Some \<lparr>compaction_count = n, removed_message_count = removed, compaction_summary = summary\<rparr>\<rparr>)"

definition fork_session :: "u64 \<Rightarrow> rstring \<Rightarrow> rstring option \<Rightarrow> session \<Rightarrow> session" where
  "fork_session now fresh branch s = \<lparr>session_version = session_version s, session_id = fresh, created_at_ms = now,
     updated_at_ms = now, messages = messages s, compaction = compaction s,
     fork = Some \<lparr>parent_session_id = session_id s, fork_branch_name = normalize_optional_string branch\<rparr>,
     persistence = None\<rparr>"

definition user_text :: "rstring \<Rightarrow> conversation_message" where
  "user_text t = \<lparr>msg_role = Role_User, msg_blocks = [Block_Text t], msg_usage = None\<rparr>"

definition session_to_json :: "session \<Rightarrow> session_error + json_value" where
  "session_to_json s =
     rbind (i64_from_u64 (created_at_ms s) (lit ''created_at_ms'')) (\<lambda>created.
     rbind (i64_from_u64 (updated_at_ms s) (lit ''updated_at_ms'')) (\<lambda>updated.
     rbind (transpose_map compaction_to_json (compaction s)) (\<lambda>comp.
       Inr (JObject (btree
         ([(lit ''version'', JNumber (i64_from_u32 (session_version s))),
           (lit ''session_id'', JString (session_id s)),
           (lit ''created_at_ms'', JNumber created), (lit ''updated_at_ms'', JNumber updated),
           (lit ''messages'', JArray (map message_to_json (messages s)))] @
          (case comp of None \<Rightarrow> [] | Some c \<Rightarrow> [(lit ''compaction'', c)]) @
          (case fork s of None \<Rightarrow> [] | Some f \<Rightarrow> [(lit ''fork'', fork_to_json f)])))))))"

definition session_from_json :: "u64 \<Rightarrow> rstring \<Rightarrow> json_value \<Rightarrow> session_error + session" where
  "session_from_json now fresh v =
     rbind (ok_or (Err_Format (lit ''session must be an object'')) (as_object v)) (\<lambda>obj.
     rbind (ok_or (missing (lit ''version'')) (Option.bind (map_of obj (lit ''version'')) as_i64)) (\<lambda>n.
     rbind (ok_or (out_of_range (lit ''version'')) (u32_try_from n)) (\<lambda>version.
     rbind (ok_or (missing (lit ''messages'')) (Option.bind (map_of obj (lit ''messages'')) as_array)) (\<lambda>ms.
     rbind (collect_results message_from_json ms) (\<lambda>msgs.
     let sid = (case Option.bind (map_of obj (lit ''session_id'')) as_str of Some i \<Rightarrow> i | None \<Rightarrow> fresh) in
     rbind (transpose_map (\<lambda>v. required_u64_from_value v (lit ''created_at_ms'')) (map_of obj (lit ''created_at_ms''))) (\<lambda>c.
     let created = (case c of Some t \<Rightarrow> t | None \<Rightarrow> now) in
     rbind (transpose_map (\<lambda>v. required_u64_from_value v (lit ''updated_at_ms'')) (map_of obj (lit ''updated_at_ms''))) (\<lambda>u.
     let updated = (case u of Some t \<Rightarrow> t | None \<Rightarrow> created) in
     rbind (transpose_map compaction_from_json (map_of obj (lit ''compaction''))) (\<lambda>comp.
     rbind (transpose_map fork_from_json (map_of obj (lit ''fork''))) (\<lambda>fk.
       Inr \<lparr>session_version = version, session_id = sid, created_at_ms = created, updated_at_ms = updated,
         messages = msgs, compaction = comp, fork = fk, persistence = None\<rparr>)))))))))"

text \<open>\<^verbatim>\<open>UsageTracker::from_session\<close> (\<^verbatim>\<open>usage.rs\<close>).\<close>

definition tracker_from_session :: "session \<Rightarrow> usage_tracker" where
  "tracker_from_session s =
     fold (\<lambda>m t. case msg_usage m of Some u \<Rightarrow> tracker_record u t | None \<Rightarrow> t) (messages s) tracker_new"

section \<open>The JSONL file\<close>

definition message_record :: "conversation_message \<Rightarrow> json_value" where
  "message_record m = JObject (btree [(lit ''type'', JString (lit ''message'')), (lit ''message'', message_to_json m)])"

definition meta_record :: "session \<Rightarrow> session_error + json_value" where
  "meta_record s =
     rbind (i64_from_u64 (created_at_ms s) (lit ''created_at_ms'')) (\<lambda>created.
     rbind (i64_from_u64 (updated_at_ms s) (lit ''updated_at_ms'')) (\<lambda>updated.
       Inr (JObject (btree
         ([(lit ''type'', JString (lit ''session_meta'')),
           (lit ''version'', JNumber (i64_from_u32 (session_version s))),
           (lit ''session_id'', JString (session_id s)),
           (lit ''created_at_ms'', JNumber created), (lit ''updated_at_ms'', JNumber updated)] @
          (case fork s of None \<Rightarrow> [] | Some f \<Rightarrow> [(lit ''fork'', fork_to_json f)]))))))"

definition render_jsonl_snapshot :: "session \<Rightarrow> session_error + rstring" where
  "render_jsonl_snapshot s =
     rbind (meta_record s) (\<lambda>meta.
     rbind (transpose_map compaction_to_jsonl_record (compaction s)) (\<lambda>comp.
       Inr (join [c_nl] (map render ([meta] @ (case comp of None \<Rightarrow> [] | Some c \<Rightarrow> [c]) @
         map message_record (messages s))) @ [c_nl])))"

text \<open>The text that \<^verbatim>\<open>append_persisted_message\<close> appends to a file that is not empty.\<close>

definition appended_text :: "conversation_message \<Rightarrow> rstring" where
  "appended_text m = render (message_record m) @ [c_nl]"

text \<open>
  \<^verbatim>\<open>append_persisted_message\<close> on the contents of the session's file (\<open>None\<close> when it does not exist): a
  missing or empty file gets a whole snapshot, otherwise one record is appended.  Errors of the file
  system itself are not modelled.
\<close>

definition append_persisted_message ::
    "session \<Rightarrow> conversation_message \<Rightarrow> rstring option \<Rightarrow> (session_error + unit) \<times> rstring option" where
  "append_persisted_message s m contents = (case persistence s of
     None \<Rightarrow> (Inr (), contents)
   | Some path \<Rightarrow> (case contents of
         Some (c # cs) \<Rightarrow> (Inr (), Some ((c # cs) @ appended_text m))
       | _ \<Rightarrow> (case render_jsonl_snapshot s of
             Inl e \<Rightarrow> (Inl e, contents)
           | Inr snapshot \<Rightarrow> (Inr (), Some snapshot))))"

definition push_message ::
    "u64 \<Rightarrow> conversation_message \<Rightarrow> session \<times> rstring option \<Rightarrow> (session_error + unit) \<times> session \<times> rstring option" where
  "push_message now m sc =
     (let s1 = touch now (fst sc); s2 = s1\<lparr>messages := messages s1 @ [m]\<rparr>
      in case append_persisted_message s2 m (snd sc) of
          (Inl e, contents) \<Rightarrow> (Inl e, s2\<lparr>messages := butlast (messages s2)\<rparr>, contents)
        | (Inr u, contents) \<Rightarrow> (Inr u, s2, contents))"

record jsonl_state =
  jl_version :: u32
  jl_session_id :: "rstring option"
  jl_created :: "u64 option"
  jl_updated :: "u64 option"
  jl_messages :: "conversation_message list"
  jl_compaction :: "session_compaction option"
  jl_fork :: "session_fork option"

definition jsonl_start :: jsonl_state where
  "jsonl_start = \<lparr>jl_version = session_version_const, jl_session_id = None, jl_created = None, jl_updated = None,
     jl_messages = [], jl_compaction = None, jl_fork = None\<rparr>"

text \<open>\<open>json_parse\<close> always ends with a result (\<open>json_parse_total\<close>); \<open>parse_text\<close> takes it out.\<close>

definition parse_text :: "rstring \<Rightarrow> json_error + json_value" where
  "parse_text s = (case json_parse s of Some r \<Rightarrow> r | None \<Rightarrow> Inl (JsonError []))"

definition at_line :: "string \<Rightarrow> nat \<Rightarrow> rstring \<Rightarrow> session_error" where
  "at_line what n rest = Err_Format (lit what @ show_nat (n + 1) @ rest)"

definition jsonl_record :: "nat \<Rightarrow> json_value \<Rightarrow> jsonl_state \<Rightarrow> session_error + jsonl_state" where
  "jsonl_record n v st =
     rbind (ok_or (at_line ''JSONL record at line '' n (lit '' must be an object'')) (as_object v)) (\<lambda>obj.
     rbind (ok_or (at_line ''JSONL record at line '' n (lit '' missing type''))
         (Option.bind (map_of obj (lit ''type'')) as_str)) (\<lambda>ty.
       if ty = lit ''session_meta'' then
         rbind (required_u32 obj (lit ''version'')) (\<lambda>version.
         rbind (required_string obj (lit ''session_id'')) (\<lambda>sid.
         rbind (required_u64 obj (lit ''created_at_ms'')) (\<lambda>created.
         rbind (required_u64 obj (lit ''updated_at_ms'')) (\<lambda>updated.
         rbind (transpose_map fork_from_json (map_of obj (lit ''fork''))) (\<lambda>fk.
           Inr (st\<lparr>jl_version := version, jl_session_id := Some sid, jl_created := Some created,
             jl_updated := Some updated, jl_fork := fk\<rparr>))))))
       else if ty = lit ''message'' then
         rbind (ok_or (at_line ''JSONL record at line '' n (lit '' missing message'')) (map_of obj (lit ''message''))) (\<lambda>mv.
         rbind (message_from_json mv) (\<lambda>m. Inr (st\<lparr>jl_messages := jl_messages st @ [m]\<rparr>)))
       else if ty = lit ''compaction'' then
         rbind (compaction_from_json (JObject obj)) (\<lambda>c. Inr (st\<lparr>jl_compaction := Some c\<rparr>))
       else Inl (at_line ''unsupported JSONL record type at line '' n (lit '': '' @ ty))))"

fun jsonl_loop :: "nat \<Rightarrow> rstring list \<Rightarrow> jsonl_state \<Rightarrow> session_error + jsonl_state" where
  "jsonl_loop n [] st = Inr st"
| "jsonl_loop n (raw_line # rest) st =
     (let line = trim raw_line in
      if line = [] then jsonl_loop (Suc n) rest st
      else (case parse_text line of
          Inl e \<Rightarrow> Inl (at_line ''invalid JSONL record at line '' n (lit '': '' @ show_json_error e))
        | Inr v \<Rightarrow> rbind (jsonl_record n v st) (jsonl_loop (Suc n) rest)))"

definition session_from_jsonl :: "u64 \<Rightarrow> rstring \<Rightarrow> rstring \<Rightarrow> session_error + session" where
  "session_from_jsonl now fresh contents =
     rbind (jsonl_loop 0 (str_lines contents) jsonl_start) (\<lambda>st.
       let created = (case jl_created st of Some t \<Rightarrow> t | None \<Rightarrow> now) in
       Inr \<lparr>session_version = jl_version st,
         session_id = (case jl_session_id st of Some i \<Rightarrow> i | None \<Rightarrow> fresh),
         created_at_ms = created,
         updated_at_ms = (case jl_updated st of Some t \<Rightarrow> t | None \<Rightarrow> created),
         messages = jl_messages st, compaction = jl_compaction st, fork = jl_fork st, persistence = None\<rparr>)"

text \<open>\<^verbatim>\<open>load_from_path\<close> on the contents of the file.\<close>

definition load_contents :: "u64 \<Rightarrow> rstring \<Rightarrow> rstring \<Rightarrow> rstring \<Rightarrow> session_error + session" where
  "load_contents now fresh path contents =
     rbind (case parse_text contents of
         Inr v \<Rightarrow>
           if (case as_object v of None \<Rightarrow> False | Some obj \<Rightarrow> map_of obj (lit ''messages'') \<noteq> None)
           then session_from_json now fresh v else session_from_jsonl now fresh contents
       | Inl e \<Rightarrow> session_from_jsonl now fresh contents)
     (\<lambda>s. Inr (with_persistence_path path s))"

section \<open>Codecs\<close>

text \<open>The contract of a pair of functions to and from JSON values.\<close>

locale json_codec =
  fixes enc :: "'a \<Rightarrow> json_value" and dec :: "json_value \<Rightarrow> session_error + 'a"
  assumes dec_enc: "dec (enc x) = Inr x"
    and enc_ok: "json_ok (enc x)"
begin

lemma dec_list: "collect_results dec (map enc xs) = Inr xs"
  by (induction xs) (simp_all add: dec_enc)

lemma dec_option: "transpose_map dec (map_option enc x) = Inr x"
  by (cases x) (simp_all add: dec_enc)

lemma enc_list_ok: "json_ok (JArray (map enc xs))"
  by (auto simp: enc_ok)

lemma dec_text: "no_digit t \<Longrightarrow> skip_whitespace t = [] \<Longrightarrow> rbind (map_sum Err_Json id (parse_text (render (enc x) @ t))) dec = Inr x"
  by (simp add: parse_text_def json_parse_render_tail enc_ok dec_enc)

end

lemma sint_i64: "0 \<le> k \<Longrightarrow> k < 2 ^ 63 \<Longrightarrow> sint (word_of_int k :: i64) = k"
  by (simp add: signed_of_int signed_take_bit_int_eq_self)

lemma u32_i64 [simp]: "u32_try_from (i64_from_u32 v) = Some v"
proof -
  have bound: "uint v < 2 ^ 32" using unsigned_less [of v] by simp
  then have "sint (word_of_int (uint v) :: i64) = uint v" by (intro sint_i64) simp_all
  with bound show ?thesis unfolding u32_try_from_def i64_from_u32_def by simp
qed

lemma u64_i64: "i64_from_u64 v key = Inr n \<Longrightarrow> u64_try_from n = Some v"
proof -
  assume "i64_from_u64 v key = Inr n"
  then have "unat v < 2 ^ 63" and n: "n = word_of_int (uint v)" by (auto simp: i64_from_u64_def split: if_splits)
  then have "int (unat v) < int (2 ^ 63)" by (simp only: of_nat_less_iff)
  then have "uint v < 2 ^ 63" by (simp only: uint_nat of_nat_power of_nat_numeral)
  then have "sint (word_of_int (uint v) :: i64) = uint v" by (intro sint_i64) simp_all
  then show ?thesis unfolding u64_try_from_def n by simp
qed

interpretation usage_codec: json_codec usage_to_json usage_from_json
proof
  fix u
  show "usage_from_json (usage_to_json u) = Inr u"
    by (simp add: usage_to_json_def usage_from_json_def required_u32_def map_of_btree)
  show "json_ok (usage_to_json u)" unfolding usage_to_json_def by (rule btree_json_ok) simp
qed

interpretation block_codec: json_codec block_to_json block_from_json
proof
  fix b
  show "block_from_json (block_to_json b) = Inr b"
    by (cases b) (simp_all add: block_from_json_def required_string_def map_of_btree)
  show "json_ok (block_to_json b)" by (cases b) (simp_all only: block_to_json.simps, (rule btree_json_ok; simp)+)
qed

interpretation fork_codec: json_codec fork_to_json fork_from_json
proof
  fix f
  show "fork_from_json (fork_to_json f) = Inr f"
    by (cases "fork_branch_name f") (simp_all add: fork_to_json_def fork_from_json_def required_string_def map_of_btree)
  show "json_ok (fork_to_json f)" unfolding fork_to_json_def by (rule btree_json_ok) (simp split: option.split)
qed

lemma role_roundtrip [simp]: "role_from_str (role_to_str r) = Inr r"
  by (cases r) (simp_all add: role_from_str_def)

interpretation message_codec: json_codec message_to_json message_from_json
proof
  fix m
  show "message_from_json (message_to_json m) = Inr m"
    by (cases "msg_usage m")
      (simp_all add: message_to_json_def message_from_json_def map_of_btree block_codec.dec_list usage_codec.dec_enc)
  show "json_ok (message_to_json m)" unfolding message_to_json_def
    by (rule btree_json_ok)
      (use block_codec.enc_list_ok [of "msg_blocks m"] in \<open>simp add: usage_codec.enc_ok split: option.split\<close>)
qed

lemma compaction_roundtrip:
  "compaction_to_json c = Inr v \<Longrightarrow> compaction_from_json v = Inr c \<and> json_ok v"
  "compaction_to_jsonl_record c = Inr v \<Longrightarrow> compaction_from_json v = Inr c \<and> json_ok v"
  by (auto simp: compaction_to_json_def compaction_to_jsonl_record_def compaction_from_json_def compaction_fields_def
      required_u32_def required_usize_def required_string_def map_of_btree rbind_Inr_iff u64_i64
      intro!: btree_json_ok)

section \<open>Records as lines\<close>

lemma render_char_no_newline: "c_nl \<notin> set (render_char c)"
proof (cases "is_control c")
  case True
  have "c_nl \<notin> set (push_unicode_escape [] c)" by (auto simp: push_unicode_escape_def hex_digit_def)
  then show ?thesis by (simp add: render_char_def)
qed (simp add: render_char_def)

lemma render_string_no_newline: "c_nl \<notin> set (render_string s)"
  by (auto simp: render_string_def render_char_no_newline)

lemma show_int_no_newline: "c_nl \<notin> set (show_int i)"
  using show_nat_digits [of "nat i"] show_nat_digits [of "nat (- i)"]
  by (auto simp: show_int_def is_ascii_digit_def)

lemma set_join: "set (join [c] xs) \<subseteq> insert c (\<Union> (set ` set xs))"
  by (induction "[c]" xs rule: join.induct) auto

lemma render_no_newline: "c_nl \<notin> set (render v)"
proof (induction v rule: render.induct)
  case (5 vs)
  then show ?case using set_join [of c_comma "map render vs"] by auto
next
  case (6 es)
  have "c_nl \<notin> set (render_string k @ [c_colon] @ render w)" if "(k, w) \<in> set es" for k w
    using that 6 render_string_no_newline by auto
  then show ?case using set_join [of c_comma "map (\<lambda>(k, w). render_string k @ [c_colon] @ render w) es"] by auto
qed (auto simp: lit_def render_string_no_newline show_int_no_newline)

lemma trim_ends: "\<not> is_whitespace c \<Longrightarrow> \<not> is_whitespace d \<Longrightarrow> trim (c # s @ [d]) = c # s @ [d]"
  by (simp add: trim_def trim_start_def trim_end_def)

lemma trim_object: "trim (render (JObject es)) = render (JObject es)"
  using trim_ends [of c_lbrace c_rbrace] by (simp add: is_whitespace_def)

lemma takeWhile_line: "c_nl \<notin> set l \<Longrightarrow> takeWhile (\<lambda>c. c \<noteq> c_nl) (l @ c_nl # r) = l"
    "c_nl \<notin> set l \<Longrightarrow> dropWhile (\<lambda>c. c \<noteq> c_nl) (l @ c_nl # r) = c_nl # r"
  by (induction l) auto

definition as_lines :: "rstring list \<Rightarrow> rstring" where
  "as_lines ls = concat (map (\<lambda>l. l @ [c_nl]) ls)"

lemma as_lines_simps [simp]: "as_lines [] = []" "as_lines (l # ls) = l @ c_nl # as_lines ls"
    "as_lines (ls @ ks) = as_lines ls @ as_lines ks"
  by (simp_all add: as_lines_def)

lemma join_as_lines: "ls \<noteq> [] \<Longrightarrow> join [c_nl] ls @ [c_nl] = as_lines ls"
  by (induction "[c_nl]" ls rule: join.induct) auto

lemma str_lines_as_lines:
  assumes "list_all (\<lambda>l. c_nl \<notin> set l \<and> (l = [] \<or> last l \<noteq> c_cr)) ls"
  shows "str_lines (as_lines ls) = ls"
  using assms
proof (induction ls)
  case (Cons l ls)
  then show ?case by (subst str_lines.simps) (auto simp: takeWhile_line strip_cr_def)
qed (simp add: str_lines.simps)

text \<open>A record of the file: an object, as it is rendered.\<close>

definition is_record :: "json_value \<Rightarrow> bool" where
  "is_record v \<longleftrightarrow> json_ok v \<and> as_object v \<noteq> None"

lemma is_recordE: "is_record v \<Longrightarrow> (\<And>es. v = JObject es \<Longrightarrow> json_ok v \<Longrightarrow> P) \<Longrightarrow> P"
  by (cases v) (auto simp: is_record_def)

lemma lines_of_records: "list_all is_record vs \<Longrightarrow> str_lines (as_lines (map render vs)) = map render vs"
  by (rule str_lines_as_lines)
    (auto simp: list_all_iff render_no_newline elim!: is_recordE simp del: render.simps(1-5))

lemma jsonl_loop_record:
  assumes "is_record v"
  shows "jsonl_loop n (render v # rest) st = rbind (jsonl_record n v st) (jsonl_loop (Suc n) rest)"
proof -
  from assms obtain es where v: "v = JObject es" "json_ok v" by (rule is_recordE)
  have "parse_text (render v) = Inr v" using json_parse_render_tail [OF v(2), of "[]"] by (simp add: parse_text_def)
  moreover have "trim (render v) = render v" "render v \<noteq> []" using trim_object v(1) by simp_all
  ultimately show ?thesis by simp
qed

lemma message_record_ok: "is_record (message_record m)"
  unfolding is_record_def message_record_def
  using btree_json_ok [of "[(lit ''type'', JString (lit ''message'')), (lit ''message'', message_to_json m)]"]
  by (simp add: message_codec.enc_ok)

lemma jsonl_record_message:
  "jsonl_record n (message_record m) st = Inr (st\<lparr>jl_messages := jl_messages st @ [m]\<rparr>)"
  by (simp add: jsonl_record_def message_record_def map_of_btree message_codec.dec_enc)

lemma jsonl_loop_messages:
  "jsonl_loop n (map (\<lambda>m. render (message_record m)) ms) st = Inr (st\<lparr>jl_messages := jl_messages st @ ms\<rparr>)"
  by (induction ms arbitrary: n st) (simp_all add: jsonl_loop_record message_record_ok jsonl_record_message
      del: jsonl_loop.simps(2))

lemma compaction_record:
  assumes "compaction_to_jsonl_record c = Inr v"
  shows "is_record v \<and> jsonl_record n v st = Inr (st\<lparr>jl_compaction := Some c\<rparr>)"
proof -
  from assms obtain k where v: "v = JObject (btree ((lit ''type'', JString (lit ''compaction'')) # compaction_fields c k))"
    by (auto simp: compaction_to_jsonl_record_def rbind_Inr_iff)
  have "compaction_from_json v = Inr c" "json_ok v" using compaction_roundtrip(2) [OF assms] by auto
  then show ?thesis
    by (simp add: is_record_def jsonl_record_def v map_of_btree) (simp add: compaction_fields_def map_of_btree)
qed

lemma meta_record_ok:
  assumes "meta_record s = Inr v"
  shows "is_record v" and "jsonl_record n v st = Inr (st\<lparr>jl_version := session_version s,
      jl_session_id := Some (session_id s), jl_created := Some (created_at_ms s),
      jl_updated := Some (updated_at_ms s), jl_fork := fork s\<rparr>)"
    and "map_of (the (as_object v)) (lit ''messages'') = None"
proof -
  from assms obtain created updated where
    n: "i64_from_u64 (created_at_ms s) (lit ''created_at_ms'') = Inr created"
       "i64_from_u64 (updated_at_ms s) (lit ''updated_at_ms'') = Inr updated"
    and v: "v = JObject (btree ([(lit ''type'', JString (lit ''session_meta'')),
           (lit ''version'', JNumber (i64_from_u32 (session_version s))),
           (lit ''session_id'', JString (session_id s)),
           (lit ''created_at_ms'', JNumber created), (lit ''updated_at_ms'', JNumber updated)] @
          (case fork s of None \<Rightarrow> [] | Some f \<Rightarrow> [(lit ''fork'', fork_to_json f)])))"
    by (auto simp: meta_record_def rbind_Inr_iff)
  show "is_record v" unfolding is_record_def v
    by (rule conjI, rule btree_json_ok) (simp_all add: fork_codec.enc_ok split: option.split)
  show "jsonl_record n v st = Inr (st\<lparr>jl_version := session_version s,
      jl_session_id := Some (session_id s), jl_created := Some (created_at_ms s),
      jl_updated := Some (updated_at_ms s), jl_fork := fork s\<rparr>)"
    by (cases "fork s") (simp_all add: v jsonl_record_def map_of_btree required_u32_def required_string_def
        required_u64_def required_u64_from_value_def u64_i64 [OF n(1)] u64_i64 [OF n(2)] fork_codec.dec_enc)
  show "map_of (the (as_object v)) (lit ''messages'') = None"
    by (cases "fork s") (simp_all add: v map_of_btree)
qed

section \<open>Loading what was saved\<close>

definition snapshot_records :: "session \<Rightarrow> session_error + json_value list" where
  "snapshot_records s = rbind (meta_record s) (\<lambda>meta. rbind (transpose_map compaction_to_jsonl_record (compaction s)) (\<lambda>comp.
     Inr ([meta] @ (case comp of None \<Rightarrow> [] | Some c \<Rightarrow> [c]) @ map message_record (messages s))))"

lemma snapshot_as_lines:
  "render_jsonl_snapshot s = Inr saved \<longleftrightarrow> (\<exists>vs. snapshot_records s = Inr vs \<and> saved = as_lines (map render vs))"
  unfolding render_jsonl_snapshot_def snapshot_records_def
  by (auto simp: rbind_Inr_iff join_as_lines)

lemma snapshot_records_load:
  assumes "snapshot_records s = Inr vs"
  shows "list_all is_record vs \<and> vs \<noteq> [] \<and> map_of (the (as_object (hd vs))) (lit ''messages'') = None \<and>
    jsonl_loop 0 (map render vs @ map (\<lambda>m. render (message_record m)) ms) jsonl_start =
      Inr \<lparr>jl_version = session_version s, jl_session_id = Some (session_id s), jl_created = Some (created_at_ms s),
        jl_updated = Some (updated_at_ms s), jl_messages = messages s @ ms, jl_compaction = compaction s, jl_fork = fork s\<rparr>"
proof -
  from assms obtain meta comp where meta: "meta_record s = Inr meta"
    and comp: "transpose_map compaction_to_jsonl_record (compaction s) = Inr comp"
    and vs: "vs = [meta] @ (case comp of None \<Rightarrow> [] | Some c \<Rightarrow> [c]) @ map message_record (messages s)"
    by (auto simp: snapshot_records_def rbind_Inr_iff)
  have msgs: "jsonl_loop n (map render (map message_record (messages s)) @ map (\<lambda>m. render (message_record m)) ms) st =
      Inr (st\<lparr>jl_messages := jl_messages st @ messages s @ ms\<rparr>)" for n st
    using jsonl_loop_messages [of n "messages s @ ms" st] by (simp add: o_def)
  show ?thesis
  proof (cases "compaction s")
    case None
    with comp have [simp]: "comp = None" by simp
    show ?thesis using msgs meta_record_ok [OF meta] None
      by (simp add: vs jsonl_loop_record jsonl_start_def message_record_ok list_all_iff del: jsonl_loop.simps(2))
  next
    case (Some c)
    with comp obtain cv where [simp]: "comp = Some cv" and cv: "compaction_to_jsonl_record c = Inr cv"
      by (auto simp: rbind_Inr_iff)
    show ?thesis using msgs meta_record_ok [OF meta] compaction_record [OF cv] Some
      by (simp add: vs jsonl_loop_record jsonl_start_def message_record_ok list_all_iff del: jsonl_loop.simps(2))
  qed
qed

lemma parse_text_first:
  assumes "list_all is_record vs" and "vs \<noteq> []"
  shows "parse_text (as_lines (map render vs)) = Inr (hd vs) \<or> (\<exists>e. parse_text (as_lines (map render vs)) = Inl e)"
proof -
  from assms obtain v ws where vs: "vs = v # ws" "json_ok v" by (cases vs) (auto simp: is_record_def)
  have "no_digit (c_nl # as_lines (map render ws))" by (simp add: is_ascii_digit_def)
  from json_parse_render_tail [OF vs(2) this] show ?thesis by (auto simp: parse_text_def vs(1))
qed

lemma load_as_lines:
  assumes "list_all is_record vs" and "vs \<noteq> []" and "map_of (the (as_object (hd vs))) (lit ''messages'') = None"
  shows "load_contents now fresh path (as_lines (map render vs)) =
    rbind (session_from_jsonl now fresh (as_lines (map render vs))) (\<lambda>s. Inr (with_persistence_path path s))"
  using parse_text_first [OF assms(1,2)] assms(3)
  by (auto simp: load_contents_def split: option.split)

lemma appended_as_lines: "concat (map appended_text ms) = as_lines (map (\<lambda>m. render (message_record m)) ms)"
  by (induction ms) (simp_all add: appended_text_def)

lemma load_snapshot:
  assumes "render_jsonl_snapshot s = Inr saved"
  shows "load_contents now fresh path (saved @ concat (map appended_text ms)) =
    Inr (s\<lparr>messages := messages s @ ms, persistence := Some path\<rparr>)"
proof -
  from assms obtain vs where vs: "snapshot_records s = Inr vs" and saved: "saved = as_lines (map render vs)"
    by (auto simp: snapshot_as_lines)
  note load = snapshot_records_load [OF vs, of ms]
  let ?all = "vs @ map message_record ms"
  have all: "saved @ concat (map appended_text ms) = as_lines (map render ?all)"
    by (simp add: saved appended_as_lines o_def)
  have "list_all is_record ?all" using load by (auto simp: list_all_iff message_record_ok)
  then have "load_contents now fresh path (as_lines (map render ?all)) =
      rbind (session_from_jsonl now fresh (as_lines (map render ?all))) (\<lambda>s. Inr (with_persistence_path path s))"
    and "str_lines (as_lines (map render ?all)) = map render ?all"
    using load by (intro load_as_lines lines_of_records; simp)+
  with load show ?thesis
    by (cases s) (simp add: all session_from_jsonl_def with_persistence_path_def o_def)
qed

text \<open>
  C7: a saved session is read back unchanged: loading the file that holds the snapshot of a session,
  followed by the records of any messages appended to it since, gives the session with those messages
  at its end, and the path it was loaded from.  Nothing of the metadata, the compaction, the fork, the
  messages, their blocks or their usage is lost.
\<close>

theorem session_file_roundtrip:
  assumes "render_jsonl_snapshot s = Inr saved"
  shows "load_contents now fresh path (saved @ concat (map appended_text ms)) =
    Inr (s\<lparr>messages := messages s @ ms, persistence := Some path\<rparr>)"
  using load_snapshot [OF assms] .

text \<open>
  the same holds for the older format, one JSON object for the whole session: reading it back gives
  the session, also through the text of the file.
\<close>

theorem session_json_roundtrip:
  assumes "session_to_json s = Inr v"
  shows "session_from_json now fresh v = Inr (s\<lparr>persistence := None\<rparr>) \<and>
    load_contents now fresh path (render v) = Inr (s\<lparr>persistence := Some path\<rparr>)"
proof -
  from assms obtain created updated comp where
    n: "i64_from_u64 (created_at_ms s) (lit ''created_at_ms'') = Inr created"
       "i64_from_u64 (updated_at_ms s) (lit ''updated_at_ms'') = Inr updated"
    and comp: "transpose_map compaction_to_json (compaction s) = Inr comp"
    and v: "v = JObject (btree
         ([(lit ''version'', JNumber (i64_from_u32 (session_version s))),
           (lit ''session_id'', JString (session_id s)),
           (lit ''created_at_ms'', JNumber created), (lit ''updated_at_ms'', JNumber updated),
           (lit ''messages'', JArray (map message_to_json (messages s)))] @
          (case comp of None \<Rightarrow> [] | Some c \<Rightarrow> [(lit ''compaction'', c)]) @
          (case fork s of None \<Rightarrow> [] | Some f \<Rightarrow> [(lit ''fork'', fork_to_json f)])))"
    by (auto simp: session_to_json_def rbind_Inr_iff)
  have comp_ok: "transpose_map compaction_from_json comp = Inr (compaction s)" "\<And>c. comp = Some c \<Longrightarrow> json_ok c"
    using comp compaction_roundtrip(1) by (cases "compaction s"; auto simp: rbind_Inr_iff)+
  obtain ob where obj: "as_object v = Some ob" by (simp add: v)
  then have ob: "ob = the (as_object v)" by simp
  have fields: "map_of ob (lit ''compaction'') = comp"
    "map_of ob (lit ''fork'') = map_option fork_to_json (fork s)"
    "map_of ob (lit ''messages'') = Some (JArray (map message_to_json (messages s)))"
    "map_of ob (lit ''version'') = Some (JNumber (i64_from_u32 (session_version s)))"
    "map_of ob (lit ''session_id'') = Some (JString (session_id s))"
    "map_of ob (lit ''created_at_ms'') = Some (JNumber created)"
    "map_of ob (lit ''updated_at_ms'') = Some (JNumber updated)"
    unfolding ob by (cases comp; cases "fork s"; simp add: v map_of_btree)+
  have from_json: "session_from_json now fresh v = Inr (s\<lparr>persistence := None\<rparr>)"
    by (cases s) (use fields in \<open>simp add: session_from_json_def obj message_codec.dec_list comp_ok(1)
        fork_codec.dec_option required_u64_from_value_def u64_i64 [OF n(1)] u64_i64 [OF n(2)]\<close>)
  have "json_ok v" unfolding v
    by (rule btree_json_ok) (use message_codec.enc_list_ok comp_ok(2) in
      \<open>auto simp: fork_codec.enc_ok simp del: json_ok.simps(1) split: option.split\<close>)
  then have "parse_text (render v) = Inr v" using json_parse_render_tail [of v "[]"] by (simp add: parse_text_def)
  with from_json fields(3) obj show ?thesis
    by (auto simp: load_contents_def with_persistence_path_def split: option.split)
qed

section \<open>The file follows the session\<close>

primrec push_all :: "(u64 \<times> conversation_message) list \<Rightarrow> session \<times> rstring option \<Rightarrow> session \<times> rstring option" where
  "push_all [] sc = sc"
| "push_all (c # cs) sc = push_all cs (snd (push_message (fst c) (snd c) sc))"

text \<open>The file is missing and nothing was said, or it holds a snapshot and the messages pushed since.\<close>

definition file_follows :: "session \<times> rstring option \<Rightarrow> bool" where
  "file_follows sc \<longleftrightarrow> persistence (fst sc) \<noteq> None \<and> (case snd sc of
     None \<Rightarrow> messages (fst sc) = []
   | Some text_on_disk \<Rightarrow> (\<exists>base ms saved. render_jsonl_snapshot base = Inr saved \<and>
       text_on_disk = saved @ concat (map appended_text ms) \<and>
       fst sc = base\<lparr>messages := messages base @ ms, updated_at_ms := updated_at_ms (fst sc)\<rparr>))"

lemma snapshot_nonempty: "render_jsonl_snapshot s = Inr saved \<Longrightarrow> \<exists>c cs. saved = c # cs"
  by (cases saved) (auto simp: render_jsonl_snapshot_def rbind_Inr_iff)

lemma push_follows:
  assumes "file_follows (s, contents)"
  shows "file_follows (snd (push_message now m (s, contents)))"
proof -
  from assms obtain path where path: "persistence s = Some path" by (auto simp: file_follows_def)
  let ?s2 = "s\<lparr>updated_at_ms := now, messages := messages s @ [m]\<rparr>"
  show ?thesis
  proof (cases contents)
    case None
    show ?thesis
    proof (cases "render_jsonl_snapshot ?s2")
      case (Inl e)
      with None path assms show ?thesis
        by (simp add: push_message_def append_persisted_message_def touch_def file_follows_def)
    next
      case (Inr saved)
      then have "\<exists>base ms saved'. render_jsonl_snapshot base = Inr saved' \<and> saved = saved' @ concat (map appended_text ms) \<and>
          ?s2 = base\<lparr>messages := messages base @ ms, updated_at_ms := updated_at_ms ?s2\<rparr>"
        by (intro exI [of _ ?s2] exI [of _ "[]"] exI [of _ saved]) simp
      with None path Inr show ?thesis
        by (simp add: push_message_def append_persisted_message_def touch_def file_follows_def)
    qed
  next
    case (Some on_disk)
    with assms obtain base ms saved where base: "render_jsonl_snapshot base = Inr saved"
      "on_disk = saved @ concat (map appended_text ms)"
      "s = base\<lparr>messages := messages base @ ms, updated_at_ms := updated_at_ms s\<rparr>"
      by (auto simp: file_follows_def)
    obtain c cs where "on_disk = c # cs" using snapshot_nonempty [OF base(1)] base(2) by auto
    then have push: "snd (push_message now m (s, contents)) = (?s2, Some (on_disk @ appended_text m))"
      using Some path by (simp add: push_message_def append_persisted_message_def touch_def)
    have "on_disk @ appended_text m = saved @ concat (map appended_text (ms @ [m]))" by (simp add: base(2))
    moreover have "?s2 = base\<lparr>messages := messages base @ (ms @ [m]), updated_at_ms := updated_at_ms ?s2\<rparr>"
      using base(3) by (cases s; cases base) auto
    ultimately have "\<exists>base ms saved. render_jsonl_snapshot base = Inr saved \<and>
        on_disk @ appended_text m = saved @ concat (map appended_text ms) \<and>
        ?s2 = base\<lparr>messages := messages base @ ms, updated_at_ms := updated_at_ms ?s2\<rparr>"
      using base(1) by blast
    moreover have "persistence ?s2 \<noteq> None" using path by simp
    ultimately show ?thesis unfolding push file_follows_def fst_conv snd_conv option.case by (rule conjI [rotated])
  qed
qed

lemma push_path: "persistence (fst (snd (push_message now m sc))) = persistence (fst sc)"
  by (auto simp: push_message_def touch_def Let_def split: prod.split sum.split)

lemma push_all_path: "persistence (fst (push_all calls sc)) = persistence (fst sc)"
  by (induction calls arbitrary: sc) (simp_all add: push_path)

lemma push_all_follows: "file_follows sc \<Longrightarrow> file_follows (push_all calls sc)"
proof (induction calls arbitrary: sc)
  case (Cons c cs)
  then show ?case by (cases sc) (simp add: push_follows)
qed simp

text \<open>
  C8: no message is lost between the session and its file: after any sequence of pushes on a new session
  with a file, failed ones included, the file reads back as the session, with every message, except for
  the time of the last update, which only a new snapshot writes.
\<close>

theorem file_follows_session:
  assumes "push_all calls (with_persistence_path path (session_new now0 sid), None) = (s, Some on_disk)"
  shows "\<exists>t. load_contents now fresh path on_disk = Inr (s\<lparr>updated_at_ms := t\<rparr>)"
proof -
  have "file_follows (with_persistence_path path (session_new now0 sid), None)"
    by (simp add: file_follows_def with_persistence_path_def session_new_def)
  from push_all_follows [OF this, of calls] assms obtain base ms saved where
    base: "render_jsonl_snapshot base = Inr saved" "on_disk = saved @ concat (map appended_text ms)"
    "s = base\<lparr>messages := messages base @ ms, updated_at_ms := updated_at_ms s\<rparr>"
    by (auto simp: file_follows_def)
  have "persistence s = Some path"
    using push_all_path [of calls "(with_persistence_path path (session_new now0 sid), None)"] assms
    by (simp add: with_persistence_path_def)
  then have path: "persistence base = Some path" using base(3) by (cases s; cases base) auto
  have "load_contents now fresh path on_disk = Inr (base\<lparr>messages := messages base @ ms, persistence := Some path\<rparr>)"
    unfolding base(2) by (rule load_snapshot [OF base(1)])
  also have "base\<lparr>messages := messages base @ ms, persistence := Some path\<rparr> = s\<lparr>updated_at_ms := updated_at_ms base\<rparr>"
    using path base(3) by (cases s; cases base) auto
  finally show ?thesis by blast
qed

definition sample_session :: session where
  "sample_session = session_new 5 (lit ''s1'')"

lemma sample_snapshot: "\<exists>saved. render_jsonl_snapshot sample_session = Inr saved"
  by (simp add: sample_session_def session_new_def render_jsonl_snapshot_def meta_record_def i64_from_u64_def)

theorem session_file_roundtrip_witness:
  "\<exists>saved. load_contents 9 [] (lit ''f'') (saved @ concat (map appended_text [user_text (lit ''hi'')])) =
     Inr (sample_session\<lparr>messages := [user_text (lit ''hi'')], persistence := Some (lit ''f'')\<rparr>)"
proof -
  obtain saved where "render_jsonl_snapshot sample_session = Inr saved" using sample_snapshot by blast
  from session_file_roundtrip [OF this, of 9 "[]" "lit ''f''" "[user_text (lit ''hi'')]"] show ?thesis
    by (auto simp: sample_session_def session_new_def)
qed

theorem session_json_roundtrip_witness:
  "\<exists>v. session_to_json sample_session = Inr v \<and> session_from_json 9 [] v = Inr sample_session"
proof -
  obtain v where "session_to_json sample_session = Inr v"
    by (simp add: sample_session_def session_new_def session_to_json_def i64_from_u64_def)
  with session_json_roundtrip [OF this, of 9 "[]" "lit ''f''"] show ?thesis
    by (simp add: sample_session_def session_new_def)
qed

theorem file_follows_session_witness:
  "\<exists>s on_disk t. push_all [(7, user_text (lit ''hi''))] (with_persistence_path (lit ''f'') sample_session, None) = (s, Some on_disk) \<and>
     messages s = [user_text (lit ''hi'')] \<and> load_contents 9 [] (lit ''f'') on_disk = Inr (s\<lparr>updated_at_ms := t\<rparr>)"
proof -
  let ?s = "sample_session\<lparr>persistence := Some (lit ''f''), updated_at_ms := 7, messages := [user_text (lit ''hi'')]\<rparr>"
  obtain saved where "render_jsonl_snapshot ?s = Inr saved"
    by (simp add: sample_session_def session_new_def render_jsonl_snapshot_def meta_record_def i64_from_u64_def)
  then have push: "push_all [(7, user_text (lit ''hi''))] (with_persistence_path (lit ''f'') (session_new 5 (lit ''s1'')), None) =
      (?s, Some saved)"
    by (simp add: push_message_def append_persisted_message_def with_persistence_path_def touch_def
        sample_session_def session_new_def)
  from file_follows_session [OF push, of 9 "[]"] push show ?thesis by (auto simp: sample_session_def)
qed

section \<open>Usage\<close>

lemma tracker_fold: "fold (\<lambda>m t. case msg_usage m of Some u \<Rightarrow> tracker_record u t | None \<Rightarrow> t) ms t =
    fold tracker_record (concat (map (\<lambda>m. case msg_usage m of Some u \<Rightarrow> [u] | None \<Rightarrow> []) ms)) t"
  by (induction ms arbitrary: t) (simp_all split: option.split)

text \<open>
  the tracker built from a session counts the recorded usages of its messages: the turns and the total
  of the tokens are the number and the sum of those usages modulo 2 to the 32, and a session that was
  saved and loaded again has the same tracker.
\<close>

theorem usage_tracker_totals:
  "(case concat (map (\<lambda>m. case msg_usage m of Some u \<Rightarrow> [u] | None \<Rightarrow> []) (messages s)) of usages \<Rightarrow>
      turns (tracker_from_session s) = of_nat (length usages) \<and>
      total_tokens (cumulative (tracker_from_session s)) = sum_list (map total_tokens usages)) \<and>
   (case render_jsonl_snapshot s of Inl e \<Rightarrow> True | Inr saved \<Rightarrow>
      map_sum id tracker_from_session (load_contents now fresh path saved) = Inr (tracker_from_session s))"
proof
  let ?us = "concat (map (\<lambda>m. case msg_usage m of Some u \<Rightarrow> [u] | None \<Rightarrow> []) (messages s))"
  have "tracker_from_session s = fold tracker_record ?us tracker_new"
    by (simp add: tracker_from_session_def tracker_fold)
  then show "case ?us of usages \<Rightarrow> turns (tracker_from_session s) = of_nat (length usages) \<and>
      total_tokens (cumulative (tracker_from_session s)) = sum_list (map total_tokens usages)"
    using tracker_totals [of ?us tracker_new] by (simp add: tracker_new_def usage_zero_def total_tokens_def)
  show "case render_jsonl_snapshot s of Inl e \<Rightarrow> True | Inr saved \<Rightarrow>
      map_sum id tracker_from_session (load_contents now fresh path saved) = Inr (tracker_from_session s)"
    using load_snapshot [of s _ now fresh path "[]"]
    by (cases "render_jsonl_snapshot s") (simp_all add: tracker_from_session_def)
qed

end
