(* ===== verification/Strings.thy ===== *)
theory Strings imports Prelude begin

text \<open>
  What several components use of the standard library on strings beyond the prelude: searching, splitting
  at a pattern, prefixes, and facts about trimming.
\<close>

section \<open>Definitions\<close>

fun str_find :: "rstring \<Rightarrow> rstring \<Rightarrow> nat option" where
  "str_find [] p = (if p = [] then Some 0 else None)"
| "str_find (c # s) p = (if prefix p (c # s) then Some 0 else map_option Suc (str_find s p))"

definition split_once :: "rstring \<Rightarrow> rstring \<Rightarrow> (rstring \<times> rstring) option" where
  "split_once s p = (case str_find s p of None \<Rightarrow> None | Some i \<Rightarrow> Some (take i s, drop (i + length p) s))"

definition strip_prefix :: "rstring \<Rightarrow> rstring \<Rightarrow> rstring option" where
  "strip_prefix s p = (if prefix p s then Some (drop (length p) s) else None)"

text \<open>\<^verbatim>\<open>filter_map\<close>.\<close>

definition filter_map :: "('a \<Rightarrow> 'b option) \<Rightarrow> 'a list \<Rightarrow> 'b list" where
  "filter_map f xs = concat (map (\<lambda>x. case f x of None \<Rightarrow> [] | Some y \<Rightarrow> [y]) xs)"

text \<open>A slice at an offset inside a char panics.\<close>

datatype panic = Slice_Panic

text \<open>\<^verbatim>\<open>&s[n..]\<close> for a byte offset \<open>n\<close>: it panics when \<open>n\<close> is not the start of a char.\<close>

fun slice_from :: "rstring \<Rightarrow> nat \<Rightarrow> panic + rstring" where
  "slice_from s 0 = Inr s"
| "slice_from [] (Suc n) = Inl Slice_Panic"
| "slice_from (c # s) (Suc n) = (if utf8_len c \<le> Suc n then slice_from s (Suc n - utf8_len c) else Inl Slice_Panic)"

text \<open>\<^verbatim>\<open>str::is_char_boundary\<close>, and \<^verbatim>\<open>&s[..n]\<close> at a boundary.\<close>

fun is_char_boundary :: "rstring \<Rightarrow> nat \<Rightarrow> bool" where
  "is_char_boundary s 0 \<longleftrightarrow> True"
| "is_char_boundary [] (Suc n) \<longleftrightarrow> False"
| "is_char_boundary (c # s) (Suc n) \<longleftrightarrow> utf8_len c \<le> Suc n \<and> is_char_boundary s (Suc n - utf8_len c)"

fun slice_to :: "rstring \<Rightarrow> nat \<Rightarrow> rstring" where
  "slice_to [] n = []"
| "slice_to (c # s) n = (if utf8_len c \<le> n then c # slice_to s (n - utf8_len c) else [])"

lemma utf8_len_pos [simp]: "0 < utf8_len c"
  by (simp add: utf8_len_def)

lemma str_len_simps [simp]: "str_len [] = 0" "str_len (c # s) = utf8_len c + str_len s"
  by (simp_all add: str_len_def)

lemma str_len_append [simp]: "str_len (s @ t) = str_len s + str_len t"
  by (simp add: str_len_def)

lemma slice_to_0 [simp]: "slice_to s 0 = []"
  by (cases s) (simp_all add: not_le)

lemma boundary_slice: "is_char_boundary s n \<Longrightarrow> str_len (slice_to s n) = n"
  by (induction s n rule: is_char_boundary.induct) auto

text \<open>\<^verbatim>\<open>str::parse::<u64>\<close>.\<close>

definition parse_u64 :: "rstring \<Rightarrow> u64 option" where
  "parse_u64 s = (let d = (if s \<noteq> [] \<and> hd s = 43 then tl s else s)
     in if d \<noteq> [] \<and> list_all is_ascii_digit d \<and> digits_value 0 d < 2 ^ 64
        then Some (of_nat (digits_value 0 d)) else None)"

section \<open>Searching\<close>

lemma str_find_None_iff: "str_find s p = None \<longleftrightarrow> \<not> str_contains s p"
  by (induction s) auto

lemma str_find_prefix: "prefix p s \<Longrightarrow> str_find s p = Some 0"
  by (cases s) auto

lemma str_find_char: "c \<notin> set a \<Longrightarrow> str_find (a @ c # b) [c] = Some (length a)"
  by (induction a) auto

lemma str_find_none: "e \<notin> set s \<Longrightarrow> str_find s (e # p) = None"
  by (induction s) auto

lemma str_find_first: "e \<notin> set a \<Longrightarrow> str_find (a @ e # p @ b) (e # p) = Some (length a)"
  by (induction a) auto

lemma prefix_longer: "prefix p (a @ b) \<Longrightarrow> length a < length p \<Longrightarrow> prefix (drop (length a) p) b"
  by (auto simp: prefix_def append_eq_append_conv2)

text \<open>A pattern that does not overlap the border between two texts is found in one of them.\<close>

lemma str_find_append:
  assumes "str_find a p = None" and "\<And>d. 0 < d \<Longrightarrow> d < length p \<Longrightarrow> \<not> prefix (drop d p) b"
  shows "str_find (a @ b) p = map_option ((+) (length a)) (str_find b p)"
  using assms(1)
proof (induction a)
  case Nil
  then show ?case by (cases "str_find b p") auto
next
  case (Cons c a)
  have notp: "\<not> prefix p (c # a)" and none: "str_find a p = None" using Cons.prems by (auto split: if_splits)
  have "\<not> prefix p (c # a @ b)"
  proof
    assume pre: "prefix p (c # a @ b)"
    show False
    proof (cases "length p \<le> length (c # a)")
      case True
      then show False using pre notp prefix_length_prefix [of p "(c # a) @ b" "c # a"] by simp
    next
      case False
      then have "prefix (drop (length (c # a)) p) b" using prefix_longer [of p "c # a" b] pre by simp
      then show False using assms(2) [of "length (c # a)"] False by simp
    qed
  qed
  then show ?case using Cons.IH [OF none] by (cases "str_find b p") auto
qed

text \<open>A pattern whose first char occurs in it once more, next to the first, or not at all.\<close>

lemma border_free:
  assumes "c \<notin> set p" and "0 < d" and "d < Suc (length p)"
  shows "\<not> prefix (drop d (c # p)) (c # b)"
proof -
  have "drop d (c # p) \<noteq> []" using assms by simp
  moreover have "hd (drop d (c # p)) \<in> set p"
    using assms by (cases d) (auto simp: hd_drop_conv_nth)
  ultimately show ?thesis using assms(1) by (cases "drop d (c # p)") auto
qed

lemma border_free2:
  assumes "c \<notin> set p" and "p \<noteq> []" and "0 < d" and "d < Suc (Suc (length p))" and "b = [] \<or> hd b \<noteq> hd p"
  shows "\<not> prefix (drop d (c # c # p)) (c # b)"
proof (cases "d = 1")
  case True
  then show ?thesis using assms by (cases b; cases p) auto
next
  case False
  then show ?thesis using assms border_free [of c p "d - 1" b] by (cases d) auto
qed

lemma str_contains_mem: "str_contains s p \<Longrightarrow> set p \<subseteq> set s"
proof (induction s)
  case (Cons c s)
  then show ?case using set_mono_prefix [of p "c # s"] by auto
qed simp

section \<open>Trimming\<close>

lemma trim_end_no_space: "s = [] \<or> \<not> is_whitespace (last s) \<Longrightarrow> trim_end s = s"
  by (cases s rule: rev_cases) (auto simp: trim_end_def)

lemma trim_end_last: "trim_end s \<noteq> [] \<Longrightarrow> \<not> is_whitespace (last (trim_end s))"
  by (simp add: trim_end_def last_rev hd_dropWhile)

lemma trim_start_trim_end: "trim_end s \<noteq> [] \<Longrightarrow> hd (trim_end s) = hd s"
  by (induction s rule: rev_induct) (auto simp: trim_end_def hd_append split: if_splits)

lemma trim_trim [simp]: "trim (trim s) = trim s"
proof (cases "trim s = []")
  case True
  then show ?thesis by (simp only: True) (simp add: trim_def trim_start_def trim_end_def)
next
  case False
  then have ne: "trim_end (trim_start s) \<noteq> []" by (simp add: trim_def)
  have "trim_start s \<noteq> []" using ne by (auto simp: trim_end_def)
  then have "\<not> is_whitespace (hd (trim_start s))" unfolding trim_start_def by (rule hd_dropWhile)
  then have hd: "\<not> is_whitespace (hd (trim_end (trim_start s)))" using trim_start_trim_end [OF ne] by simp
  have "trim_start (trim_end (trim_start s)) = trim_end (trim_start s)"
    using ne hd by (cases "trim_end (trim_start s)") (auto simp: trim_start_def)
  moreover have "trim_end (trim_end (trim_start s)) = trim_end (trim_start s)"
    using trim_end_last [OF ne] by (simp add: trim_end_no_space)
  ultimately show ?thesis by (simp only: trim_def)
qed

end
