(* ===== verification/Compact.thy ===== *)
theory Compact imports Session Paths Strings begin

text \<open>
  Compaction of a session (\<^verbatim>\<open>crates/runtime/src/compact.rs\<close>): when it happens, the summary of the removed
  messages, the continuation message that replaces them and its recognition, so that a second compaction
  merges with the first.  Sizes are \<^typ>\<open>nat\<close>; \<^verbatim>\<open>len()\<close> of a string counts the bytes of its UTF-8 encoding
  (\<open>str_len\<close>).
\<close>

section \<open>Texts\<close>

definition compact_continuation_preamble :: rstring where
  "compact_continuation_preamble = lit ''This session is being continued from a previous conversation that ran out of context. The summary below covers the earlier portion of the conversation.'' @ [c_nl, c_nl]"

definition compact_recent_messages_note :: rstring where
  "compact_recent_messages_note = lit ''Recent messages are preserved verbatim.''"

definition compact_direct_resume_instruction :: rstring where
  "compact_direct_resume_instruction = lit ''Continue the conversation from where it left off without asking the user any further questions. Resume directly '' @ [0x2014] @ lit '' do not acknowledge the summary, do not recap what was happening, and do not preface with continuation text.''"

definition open_tag :: "rstring \<Rightarrow> rstring" where
  "open_tag tag = lit ''<'' @ tag @ lit ''>''"

definition close_tag :: "rstring \<Rightarrow> rstring" where
  "close_tag tag = lit ''</'' @ tag @ lit ''>''"

definition extract_tag_block :: "rstring \<Rightarrow> rstring \<Rightarrow> rstring option" where
  "extract_tag_block content tag = (case str_find content (open_tag tag) of
     None \<Rightarrow> None
   | Some i \<Rightarrow> (let start_index = i + length (open_tag tag) in
       case str_find (drop start_index content) (close_tag tag) of
         None \<Rightarrow> None
       | Some j \<Rightarrow> Some (take j (drop start_index content))))"

definition strip_tag_block :: "rstring \<Rightarrow> rstring \<Rightarrow> rstring" where
  "strip_tag_block content tag = (case (str_find content (open_tag tag), str_find content (close_tag tag)) of
     (Some start_index, Some end_index_rel) \<Rightarrow>
       take start_index content @ drop (end_index_rel + length (close_tag tag)) content
   | _ \<Rightarrow> content)"

fun collapse_blank_loop :: "bool \<Rightarrow> rstring list \<Rightarrow> rstring" where
  "collapse_blank_loop last_blank [] = []"
| "collapse_blank_loop last_blank (line # rest) =
     (let is_blank = (trim line = [])
      in if is_blank \<and> last_blank then collapse_blank_loop last_blank rest
         else line @ [c_nl] @ collapse_blank_loop is_blank rest)"

definition collapse_blank_lines :: "rstring \<Rightarrow> rstring" where
  "collapse_blank_lines content = collapse_blank_loop False (str_lines content)"

definition truncate_summary :: "rstring \<Rightarrow> nat \<Rightarrow> rstring" where
  "truncate_summary content n = (if length content \<le> n then content else take n content @ [0x2026])"

definition format_compact_summary :: "rstring \<Rightarrow> rstring" where
  "format_compact_summary summary =
     (let without_analysis = strip_tag_block summary (lit ''analysis'');
          formatted = (case extract_tag_block without_analysis (lit ''summary'') of
              Some content \<Rightarrow> replace_all (lit ''<summary>'' @ content @ lit ''</summary>'')
                (lit ''Summary:'' @ [c_nl] @ trim content) without_analysis
            | None \<Rightarrow> without_analysis)
      in trim (collapse_blank_lines formatted))"

definition get_compact_continuation_message :: "rstring \<Rightarrow> bool \<Rightarrow> bool \<Rightarrow> rstring" where
  "get_compact_continuation_message summary suppress_follow_up_questions recent_messages_preserved =
     compact_continuation_preamble @ format_compact_summary summary @
     (if recent_messages_preserved then [c_nl, c_nl] @ compact_recent_messages_note else []) @
     (if suppress_follow_up_questions then [c_nl] @ compact_direct_resume_instruction else [])"

section \<open>Messages\<close>

definition first_text_block :: "conversation_message \<Rightarrow> rstring option" where
  "first_text_block m = (case find (\<lambda>b. case b of Block_Text t \<Rightarrow> trim t \<noteq> [] | _ \<Rightarrow> False) (msg_blocks m) of
     Some (Block_Text t) \<Rightarrow> Some t | _ \<Rightarrow> None)"

definition estimate_block_tokens :: "content_block \<Rightarrow> nat" where
  "estimate_block_tokens b = (case b of
     Block_Text t \<Rightarrow> str_len t div 4 + 1
   | Block_ToolUse i n inp \<Rightarrow> (str_len n + str_len inp) div 4 + 1
   | Block_ToolResult i n out e \<Rightarrow> (str_len n + str_len out) div 4 + 1)"

definition estimate_message_tokens :: "conversation_message \<Rightarrow> nat" where
  "estimate_message_tokens m = sum_list (map estimate_block_tokens (msg_blocks m))"

definition estimate_session_tokens :: "session \<Rightarrow> nat" where
  "estimate_session_tokens s = sum_list (map estimate_message_tokens (messages s))"

text \<open>\<^verbatim>\<open>s.split_once(marker).map_or(s, |(value, _)| value)\<close>.\<close>

definition before_marker :: "rstring \<Rightarrow> rstring \<Rightarrow> rstring" where
  "before_marker s marker = (case split_once s marker of Some (v, _) \<Rightarrow> v | None \<Rightarrow> s)"

definition extract_existing_compacted_summary :: "conversation_message \<Rightarrow> rstring option" where
  "extract_existing_compacted_summary m =
     (if msg_role m \<noteq> Role_System then None
      else (case first_text_block m of
          None \<Rightarrow> None
        | Some t \<Rightarrow> (case strip_prefix t compact_continuation_preamble of
              None \<Rightarrow> None
            | Some s0 \<Rightarrow>
                Some (trim (before_marker (before_marker s0 ([c_nl, c_nl] @ compact_recent_messages_note))
                  ([c_nl] @ compact_direct_resume_instruction))))))"

definition summarize_block :: "content_block \<Rightarrow> rstring" where
  "summarize_block b = truncate_summary (case b of
     Block_Text t \<Rightarrow> t
   | Block_ToolUse i n inp \<Rightarrow> lit ''tool_use '' @ n @ lit ''('' @ inp @ lit '')''
   | Block_ToolResult i n out is_error \<Rightarrow>
       lit ''tool_result '' @ n @ lit '': '' @ (if is_error then lit ''error '' else []) @ out) 160"

definition collect_recent_role_summaries :: "conversation_message list \<Rightarrow> message_role \<Rightarrow> nat \<Rightarrow> rstring list" where
  "collect_recent_role_summaries ms role limit = rev (map (\<lambda>t. truncate_summary t 160)
     (take limit (filter_map first_text_block (rev (filter (\<lambda>m. msg_role m = role) ms)))))"

definition pending_cues :: "rstring list" where
  "pending_cues = [lit ''todo'', lit ''next'', lit ''pending'', lit ''follow up'', lit ''remaining'']"

definition infer_pending_work :: "conversation_message list \<Rightarrow> rstring list" where
  "infer_pending_work ms = rev (map (\<lambda>t. truncate_summary t 160)
     (take 3 (filter (\<lambda>t. list_ex (str_contains (to_ascii_lowercase t)) pending_cues)
       (filter_map first_text_block (rev ms)))))"

definition has_interesting_extension :: "rstring \<Rightarrow> bool" where
  "has_interesting_extension candidate = (case path_extension candidate of
     None \<Rightarrow> False
   | Some e \<Rightarrow> to_ascii_lowercase e \<in>
       {lit ''rs'', lit ''ts'', lit ''tsx'', lit ''js'', lit ''json'', lit ''md''})"

definition is_wrapping_char :: "rchar \<Rightarrow> bool" where
  "is_wrapping_char c \<longleftrightarrow> c \<in> {c_comma, 46, c_colon, 59, 41, 40, c_dquote, c_squote, 96}"

definition extract_file_candidates :: "rstring \<Rightarrow> rstring list" where
  "extract_file_candidates content = filter_map (\<lambda>token.
     let candidate = rev (dropWhile is_wrapping_char (rev (dropWhile is_wrapping_char token)))
     in if str_contains candidate (lit ''/'') \<and> has_interesting_extension candidate then Some candidate else None)
     (split_whitespace content)"

definition block_content :: "content_block \<Rightarrow> rstring" where
  "block_content b = (case b of Block_Text t \<Rightarrow> t | Block_ToolUse i n inp \<Rightarrow> inp | Block_ToolResult i n out e \<Rightarrow> out)"

definition collect_key_files :: "conversation_message list \<Rightarrow> rstring list" where
  "collect_key_files ms = take 8 (remdups_adj (sort
     (concat (map (\<lambda>b. extract_file_candidates (block_content b)) (concat (map msg_blocks ms))))))"

definition infer_current_work :: "conversation_message list \<Rightarrow> rstring option" where
  "infer_current_work ms = map_option (\<lambda>t. truncate_summary t 200)
     (find (\<lambda>t. trim t \<noteq> []) (filter_map first_text_block (rev ms)))"

definition mentioned_tools :: "conversation_message list \<Rightarrow> rstring list" where
  "mentioned_tools ms = remdups_adj (sort (filter_map (\<lambda>b. case b of
     Block_ToolUse i n inp \<Rightarrow> Some n | Block_ToolResult i n out e \<Rightarrow> Some n | Block_Text t \<Rightarrow> None)
     (concat (map msg_blocks ms))))"

definition count_role :: "message_role \<Rightarrow> conversation_message list \<Rightarrow> nat" where
  "count_role role ms = length (filter (\<lambda>m. msg_role m = role) ms)"

definition indent :: "rstring \<Rightarrow> rstring" where
  "indent l = lit ''  '' @ l"

definition timeline_line :: "conversation_message \<Rightarrow> rstring" where
  "timeline_line m = lit ''  - '' @ role_to_str (msg_role m) @ lit '': '' @
     join (lit '' | '') (map summarize_block (msg_blocks m))"

definition summarize_messages :: "conversation_message list \<Rightarrow> rstring" where
  "summarize_messages ms =
     (let tools = mentioned_tools ms; recent = collect_recent_role_summaries ms Role_User 3;
          pending = infer_pending_work ms; files = collect_key_files ms
      in join [c_nl]
        ([lit ''<summary>'', lit ''Conversation summary:'',
          lit ''- Scope: '' @ show_nat (length ms) @ lit '' earlier messages compacted (user='' @
            show_nat (count_role Role_User ms) @ lit '', assistant='' @ show_nat (count_role Role_Assistant ms) @
            lit '', tool='' @ show_nat (count_role Role_Tool ms) @ lit '').''] @
         (if tools \<noteq> [] then [lit ''- Tools mentioned: '' @ join (lit '', '') tools @ lit ''.''] else []) @
         (if recent \<noteq> [] then lit ''- Recent user requests:'' # map (\<lambda>r. lit ''  - '' @ r) recent else []) @
         (if pending \<noteq> [] then lit ''- Pending work:'' # map (\<lambda>r. lit ''  - '' @ r) pending else []) @
         (if files \<noteq> [] then [lit ''- Key files referenced: '' @ join (lit '', '') files @ lit ''.''] else []) @
         (case infer_current_work ms of Some w \<Rightarrow> [lit ''- Current work: '' @ w] | None \<Rightarrow> []) @
         [lit ''- Key timeline:''] @ map timeline_line ms @ [lit ''</summary>'']))"

section \<open>Merging summaries\<close>

fun highlights_loop :: "bool \<Rightarrow> rstring list \<Rightarrow> rstring list" where
  "highlights_loop in_timeline [] = []"
| "highlights_loop in_timeline (line # rest) =
     (let trimmed = trim_end line
      in if trimmed = [] \<or> trimmed = lit ''Summary:'' \<or> trimmed = lit ''Conversation summary:''
           then highlights_loop in_timeline rest
         else if trimmed = lit ''- Key timeline:'' then highlights_loop True rest
         else if in_timeline then highlights_loop in_timeline rest
         else trimmed # highlights_loop in_timeline rest)"

definition extract_summary_highlights :: "rstring \<Rightarrow> rstring list" where
  "extract_summary_highlights summary = highlights_loop False (str_lines (format_compact_summary summary))"

fun timeline_loop :: "bool \<Rightarrow> rstring list \<Rightarrow> rstring list" where
  "timeline_loop in_timeline [] = []"
| "timeline_loop in_timeline (line # rest) =
     (let trimmed = trim_end line
      in if trimmed = lit ''- Key timeline:'' then timeline_loop True rest
         else if \<not> in_timeline then timeline_loop in_timeline rest
         else if trimmed = [] then []
         else trimmed # timeline_loop in_timeline rest)"

definition extract_summary_timeline :: "rstring \<Rightarrow> rstring list" where
  "extract_summary_timeline summary = timeline_loop False (str_lines (format_compact_summary summary))"

definition merge_compact_summaries :: "rstring option \<Rightarrow> rstring \<Rightarrow> rstring" where
  "merge_compact_summaries existing_summary new_summary = (case existing_summary of
     None \<Rightarrow> new_summary
   | Some existing \<Rightarrow>
      (let previous_highlights = extract_summary_highlights existing;
           new_formatted = format_compact_summary new_summary;
           new_highlights = extract_summary_highlights new_formatted;
           new_timeline = extract_summary_timeline new_formatted
       in join [c_nl]
         ([lit ''<summary>'', lit ''Conversation summary:''] @
          (if previous_highlights \<noteq> [] then lit ''- Previously compacted context:'' # map indent previous_highlights else []) @
          (if new_highlights \<noteq> [] then lit ''- Newly compacted context:'' # map indent new_highlights else []) @
          (if new_timeline \<noteq> [] then lit ''- Key timeline:'' # map indent new_timeline else []) @
          [lit ''</summary>''])))"

section \<open>Compaction\<close>

record compaction_config =
  preserve_recent_messages :: nat
  max_estimated_tokens :: nat

definition default_compaction_config :: compaction_config where
  "default_compaction_config = \<lparr>preserve_recent_messages = 4, max_estimated_tokens = 10000\<rparr>"

record compaction_result =
  result_summary :: rstring
  formatted_summary :: rstring
  compacted_session :: session
  result_removed :: nat

text \<open>\<^verbatim>\<open>messages.first().and_then(extract_existing_compacted_summary)\<close>.\<close>

definition existing_summary_of :: "session \<Rightarrow> rstring option" where
  "existing_summary_of s = (case messages s of [] \<Rightarrow> None | m # _ \<Rightarrow> extract_existing_compacted_summary m)"

definition compacted_summary_prefix_len :: "session \<Rightarrow> nat" where
  "compacted_summary_prefix_len s = (if existing_summary_of s \<noteq> None then 1 else 0)"

definition should_compact :: "session \<Rightarrow> compaction_config \<Rightarrow> bool" where
  "should_compact s config \<longleftrightarrow>
     (let compactable = drop (compacted_summary_prefix_len s) (messages s)
      in length compactable > preserve_recent_messages config \<and>
         sum_list (map estimate_message_tokens compactable) \<ge> max_estimated_tokens config)"

definition compact_session :: "u64 \<Rightarrow> session \<Rightarrow> compaction_config \<Rightarrow> compaction_result" where
  "compact_session now s config =
     (if \<not> should_compact s config then
        \<lparr>result_summary = [], formatted_summary = [], compacted_session = s, result_removed = 0\<rparr>
      else
        (let existing_summary = existing_summary_of s;
             compacted_prefix_len = (if existing_summary \<noteq> None then 1 else 0);
             keep_from = length (messages s) - preserve_recent_messages config;
             removed = drop compacted_prefix_len (take keep_from (messages s));
             preserved = drop keep_from (messages s);
             summary = merge_compact_summaries existing_summary (summarize_messages removed);
             continuation = get_compact_continuation_message summary True (preserved \<noteq> []);
             compacted_messages = \<lparr>msg_role = Role_System, msg_blocks = [Block_Text continuation], msg_usage = None\<rparr> # preserved
         in \<lparr>result_summary = summary, formatted_summary = format_compact_summary summary,
             compacted_session = record_compaction now summary (of_nat (length removed))
               (s\<lparr>messages := compacted_messages\<rparr>),
             result_removed = length removed\<rparr>))"

lemma trim_format [simp]: "trim (format_compact_summary summary) = format_compact_summary summary"
  by (simp add: format_compact_summary_def Let_def)

section \<open>The continuation message\<close>

definition system_message :: "rstring \<Rightarrow> conversation_message" where
  "system_message t = \<lparr>msg_role = Role_System, msg_blocks = [Block_Text t], msg_usage = None\<rparr>"

lemma preamble_not_blank: "trim (compact_continuation_preamble @ t) \<noteq> []"
proof -
  have "lit ''T'' = [84]" by (simp add: lit_def)
  have "(84 :: nat) \<in> set compact_continuation_preamble" by (simp add: compact_continuation_preamble_def lit_def)
  moreover have "\<not> is_whitespace 84" by (simp add: is_whitespace_def)
  ultimately show ?thesis by (auto simp: trim_eq_Nil_iff)
qed

lemma extract_system_message:
  "extract_existing_compacted_summary (system_message (compact_continuation_preamble @ t)) =
     Some (trim (before_marker (before_marker t ([c_nl, c_nl] @ compact_recent_messages_note))
       ([c_nl] @ compact_direct_resume_instruction)))"
  using preamble_not_blank [of t]
  by (simp add: extract_existing_compacted_summary_def system_message_def first_text_block_def strip_prefix_def)

lemma recognize_continuation:
  "extract_existing_compacted_summary (system_message (get_compact_continuation_message summary q r)) \<noteq> None"
  by (simp only: get_compact_continuation_message_def extract_system_message option.distinct not_False_eq_True)

section \<open>Compaction\<close>

lemma existing_summary_system [simp]:
  "existing_summary_of (s\<lparr>messages := system_message (get_compact_continuation_message summary q r) # ms\<rparr>) \<noteq> None"
  using recognize_continuation by (simp add: existing_summary_of_def)

lemma existing_summary_more: "messages s = messages t \<Longrightarrow> existing_summary_of s = existing_summary_of t"
  by (simp add: existing_summary_of_def)

lemma should_compact_length:
  "should_compact s config \<Longrightarrow>
     preserve_recent_messages config + compacted_summary_prefix_len s < length (messages s)"
  by (auto simp: should_compact_def Let_def)

lemma prefix_len_cases: "compacted_summary_prefix_len s = (if existing_summary_of s \<noteq> None then 1 else 0)"
  by (simp add: compacted_summary_prefix_len_def)

text \<open>The session after a compaction, field by field.\<close>

lemma compact_session_result:
  fixes now :: u64
  assumes "should_compact s config"
  defines "kept \<equiv> length (messages s) - preserve_recent_messages config"
  defines "S \<equiv> result_summary (compact_session now s config)"
  shows "compacted_summary_prefix_len s < kept"
    and "length (drop kept (messages s)) = preserve_recent_messages config"
    and "formatted_summary (compact_session now s config) = format_compact_summary S"
    and "result_removed (compact_session now s config) = kept - compacted_summary_prefix_len s"
    and "compacted_session (compact_session now s config) = s\<lparr>updated_at_ms := now,
         messages := \<lparr>msg_role = Role_System, msg_blocks = [Block_Text (get_compact_continuation_message S True
           (preserve_recent_messages config \<noteq> 0))], msg_usage = None\<rparr> # drop kept (messages s),
         compaction := Some \<lparr>compaction_count = (case compaction s of None \<Rightarrow> 1 | Some c \<Rightarrow> compaction_count c + 1),
           removed_message_count = of_nat (kept - compacted_summary_prefix_len s), compaction_summary = S\<rparr>\<rparr>"
proof -
  have len: "preserve_recent_messages config + compacted_summary_prefix_len s < length (messages s)"
    using should_compact_length [OF assms(1)] .
  define R where "R = drop (compacted_summary_prefix_len s) (take kept (messages s))"
  define T where "T = merge_compact_summaries (existing_summary_of s) (summarize_messages R)"
  have r: "compact_session now s config = \<lparr>result_summary = T, formatted_summary = format_compact_summary T,
      compacted_session = record_compaction now T (of_nat (length R))
        (s\<lparr>messages := \<lparr>msg_role = Role_System, msg_blocks = [Block_Text (get_compact_continuation_message T True
          (drop kept (messages s) \<noteq> []))], msg_usage = None\<rparr> # drop kept (messages s)\<rparr>),
      result_removed = length R\<rparr>"
    by (simp add: compact_session_def assms(1) Let_def prefix_len_cases R_def T_def kept_def)
  have S: "S = T" by (simp add: S_def r)
  have lenR: "length R = kept - compacted_summary_prefix_len s" using len by (simp add: R_def kept_def)
  have rest: "(drop kept (messages s) \<noteq> []) = (preserve_recent_messages config \<noteq> 0)"
    using len by (auto simp: kept_def)
  show "compacted_summary_prefix_len s < kept" "length (drop kept (messages s)) = preserve_recent_messages config"
    using len by (auto simp: kept_def)
  show "formatted_summary (compact_session now s config) = format_compact_summary S"
      "result_removed (compact_session now s config) = kept - compacted_summary_prefix_len s"
    by (simp_all add: r S lenR)
  show "compacted_session (compact_session now s config) = s\<lparr>updated_at_ms := now,
         messages := \<lparr>msg_role = Role_System, msg_blocks = [Block_Text (get_compact_continuation_message S True
           (preserve_recent_messages config \<noteq> 0))], msg_usage = None\<rparr> # drop kept (messages s),
         compaction := Some \<lparr>compaction_count = (case compaction s of None \<Rightarrow> 1 | Some c \<Rightarrow> compaction_count c + 1),
           removed_message_count = of_nat (kept - compacted_summary_prefix_len s), compaction_summary = S\<rparr>\<rparr>"
    by (simp_all only: r rest S lenR) (simp_all add: record_compaction_def touch_def)
qed

text \<open>
  C24: When a session is compacted, exactly the configured number of last messages is kept, verbatim and
  in order, after one system message that holds the summary; every other message is counted as removed,
  except an earlier summary message that is merged; the slice bounds are in order; and nothing else of
  the session changes but the time of the update and the record of the compaction, whose count grows.\<close>

theorem compact_session_contract:
  assumes "should_compact s config"
  shows "let r = compact_session now s config; kept = length (messages s) - preserve_recent_messages config
    in compacted_summary_prefix_len s < kept \<and>
       result_removed r = kept - compacted_summary_prefix_len s \<and>
       length (drop kept (messages s)) = preserve_recent_messages config \<and>
       formatted_summary r = format_compact_summary (result_summary r) \<and>
       compacted_session r = s\<lparr>updated_at_ms := now,
         messages := \<lparr>msg_role = Role_System,
             msg_blocks = [Block_Text (get_compact_continuation_message (result_summary r) True
               (preserve_recent_messages config \<noteq> 0))], msg_usage = None\<rparr> # drop kept (messages s),
         compaction := Some \<lparr>compaction_count = (case compaction s of None \<Rightarrow> 1 | Some c \<Rightarrow> compaction_count c + 1),
           removed_message_count = of_nat (result_removed r), compaction_summary = result_summary r\<rparr>\<rparr>"
  using compact_session_result [OF assms] by (simp add: Let_def)

text \<open>
  Compaction settles: the summary message it makes is recognised, so compacting the result again, at
  any time and with the same configuration, removes nothing and returns it unchanged.\<close>

theorem compaction_settles:
  "compact_session now' (compacted_session (compact_session now s config)) config =
     \<lparr>result_summary = [], formatted_summary = [],
      compacted_session = compacted_session (compact_session now s config), result_removed = 0\<rparr>"
proof (cases "should_compact s config")
  case True
  let ?s = "compacted_session (compact_session now s config)"
  let ?kept = "length (messages s) - preserve_recent_messages config"
  obtain summary r where m: "messages ?s = system_message (get_compact_continuation_message summary True r) #
      drop ?kept (messages s)"
    by (simp add: compact_session_def True Let_def record_compaction_def touch_def system_message_def)
  have "existing_summary_of ?s \<noteq> None"
    using recognize_continuation by (simp add: existing_summary_of_def m)
  then have "length (drop (compacted_summary_prefix_len ?s) (messages ?s)) = preserve_recent_messages config"
    using should_compact_length [OF True] by (simp add: m prefix_len_cases)
  then have "\<not> should_compact ?s config" by (simp add: should_compact_def Let_def)
  then show ?thesis by (simp add: compact_session_def [of now' ?s])
next
  case False
  then show ?thesis by (simp add: compact_session_def)
qed

section \<open>The summary that is read back\<close>

lemma before_marker_append:
  assumes "\<not> str_contains a p" and "\<And>d. 0 < d \<Longrightarrow> d < length p \<Longrightarrow> \<not> prefix (drop d p) b"
    and "b = [] \<and> p \<noteq> [] \<or> prefix p b"
  shows "before_marker (a @ b) p = a"
proof -
  have "str_find (a @ b) p = map_option ((+) (length a)) (str_find b p)"
    using assms(1,2) by (intro str_find_append) (auto simp: str_find_None_iff)
  then show ?thesis using assms(3)
    by (auto simp: before_marker_def split_once_def str_find_prefix split: option.splits)
qed

lemma before_marker_absent:
  assumes "\<not> str_contains a p" and "\<And>d. 0 < d \<Longrightarrow> d < length p \<Longrightarrow> \<not> prefix (drop d p) b" and "\<not> str_contains b p"
  shows "before_marker (a @ b) p = a @ b"
proof -
  have "str_find (a @ b) p = map_option ((+) (length a)) (str_find b p)"
    using assms(1,2) by (intro str_find_append) (auto simp: str_find_None_iff)
  then show ?thesis using assms(3)
    by (auto simp: before_marker_def split_once_def str_find_None_iff [symmetric])
qed

lemma note_no_newline: "c_nl \<notin> set compact_recent_messages_note" "compact_recent_messages_note \<noteq> []"
  by (simp_all add: compact_recent_messages_note_def lit_def)

lemma note_starts: "hd compact_recent_messages_note \<noteq> c_nl"
  by (simp add: compact_recent_messages_note_def lit_def)

lemma instruction_no_newline: "c_nl \<notin> set compact_direct_resume_instruction"
    "compact_direct_resume_instruction \<noteq> []"
    "hd compact_direct_resume_instruction \<noteq> hd compact_recent_messages_note"
  by (simp_all add: compact_direct_resume_instruction_def compact_recent_messages_note_def lit_def)

lemma instruction_no_note:
  "\<not> str_contains (c_nl # compact_direct_resume_instruction) (c_nl # c_nl # compact_recent_messages_note)"
proof -
  have "\<not> str_contains compact_direct_resume_instruction (c_nl # c_nl # compact_recent_messages_note)"
    using instruction_no_newline(1) str_contains_mem by fastforce
  moreover have "\<not> prefix (c_nl # c_nl # compact_recent_messages_note) (c_nl # compact_direct_resume_instruction)"
    using instruction_no_newline(1) by (auto dest: set_mono_prefix)
  ultimately show ?thesis by simp
qed

lemma border_note:
  "0 < d \<Longrightarrow> d < length (c_nl # c_nl # compact_recent_messages_note) \<Longrightarrow>
     b = [] \<or> hd b \<noteq> hd compact_recent_messages_note \<Longrightarrow>
     \<not> prefix (drop d (c_nl # c_nl # compact_recent_messages_note)) (c_nl # b)"
  using border_free2 [OF note_no_newline] by simp

text \<open>
  The summary of a compaction is read back from the continuation message exactly, with or without the
  closing notes, unless the summary itself contains one of the notes.\<close>

theorem summary_read_back:
  assumes "\<not> str_contains (format_compact_summary summary) ([c_nl, c_nl] @ compact_recent_messages_note)"
    and "\<not> str_contains (format_compact_summary summary) ([c_nl] @ compact_direct_resume_instruction)"
  shows "extract_existing_compacted_summary \<lparr>msg_role = Role_System,
      msg_blocks = [Block_Text (get_compact_continuation_message summary suppress recent)], msg_usage = None\<rparr> =
    Some (format_compact_summary summary)"
proof -
  let ?F = "format_compact_summary summary"
  let ?note = "[c_nl, c_nl] @ compact_recent_messages_note"
  let ?tail = "if suppress then [c_nl] @ compact_direct_resume_instruction else []"
  have cut: "before_marker (?F @ ?tail) ([c_nl] @ compact_direct_resume_instruction) = ?F"
  proof (rule before_marker_append [OF assms(2)])
    fix d assume "0 < d" "d < length ([c_nl] @ compact_direct_resume_instruction)"
    then show "\<not> prefix (drop d ([c_nl] @ compact_direct_resume_instruction)) ?tail"
      using border_free [OF instruction_no_newline(1), of d compact_direct_resume_instruction] by auto
  qed simp
  have "before_marker (?F @ (if recent then ?note else []) @ ?tail) ?note = (if recent then ?F else ?F @ ?tail)"
  proof (cases recent)
    case True
    have "before_marker (?F @ ?note @ ?tail) ?note = ?F"
    proof (rule before_marker_append [OF assms(1)])
      fix d assume "0 < d" "d < length ?note"
      then show "\<not> prefix (drop d ?note) (?note @ ?tail)"
        using border_note [of d "c_nl # compact_recent_messages_note @ ?tail"] note_starts by simp
    qed simp
    with True show ?thesis by simp
  next
    case False
    have "before_marker (?F @ ?tail) ?note = ?F @ ?tail"
    proof (rule before_marker_absent [OF assms(1)])
      fix d assume "0 < d" "d < length ?note"
      then show "\<not> prefix (drop d ?note) ?tail"
        using border_note [of d compact_direct_resume_instruction] instruction_no_newline by auto
    next
      show "\<not> str_contains ?tail ?note" using instruction_no_note by simp
    qed
    with False show ?thesis by simp
  qed
  then have "before_marker (before_marker (?F @ (if recent then ?note else []) @ ?tail) ?note)
      ([c_nl] @ compact_direct_resume_instruction) = ?F"
    using cut before_marker_append [OF assms(2), of "[]"] by (cases recent) auto
  then show ?thesis
    using extract_system_message [of "?F @ (if recent then ?note else []) @ ?tail"]
    by (simp add: get_compact_continuation_message_def system_message_def)
qed

lemma summary_read_back_witness:
  "extract_existing_compacted_summary \<lparr>msg_role = Role_System,
      msg_blocks = [Block_Text (get_compact_continuation_message (lit ''<summary>Kept work</summary>'') True True)],
      msg_usage = None\<rparr> = Some (lit ''Summary:'' @ [c_nl] @ lit ''Kept work'')"
proof -
  have f: "format_compact_summary (lit ''<summary>Kept work</summary>'') = lit ''Summary:'' @ [c_nl] @ lit ''Kept work''"
    by (simp add: format_compact_summary_def strip_tag_block_def extract_tag_block_def open_tag_def close_tag_def
        collapse_blank_lines_def str_defs lit_def str_lines.simps replace_all.simps is_whitespace_def)
  have "set (format_compact_summary (lit ''<summary>Kept work</summary>'')) \<inter> {118} = {}"
    unfolding f by (simp add: lit_def)
  moreover have "118 \<in> set compact_recent_messages_note" "118 \<in> set compact_direct_resume_instruction"
    by (simp_all add: compact_recent_messages_note_def compact_direct_resume_instruction_def lit_def)
  ultimately have
    "\<not> str_contains (format_compact_summary (lit ''<summary>Kept work</summary>'')) ([c_nl, c_nl] @ compact_recent_messages_note)"
    "\<not> str_contains (format_compact_summary (lit ''<summary>Kept work</summary>'')) ([c_nl] @ compact_direct_resume_instruction)"
    using str_contains_mem by fastforce+
  from summary_read_back [OF this] show ?thesis by (simp only: f)
qed

definition compact_demo :: session where
  "compact_demo = (session_new 0 (lit ''s''))\<lparr>messages := [
     \<lparr>msg_role = Role_User, msg_blocks = [Block_Text (lit ''old'')], msg_usage = None\<rparr>,
     \<lparr>msg_role = Role_Assistant, msg_blocks = [Block_Text (lit ''new'')], msg_usage = None\<rparr>]\<rparr>"

lemma compact_session_contract_witness:
  "result_removed (compact_session 7 compact_demo \<lparr>preserve_recent_messages = 1, max_estimated_tokens = 1\<rparr>) = 1 \<and>
   map msg_role (messages (compacted_session (compact_session 7 compact_demo
     \<lparr>preserve_recent_messages = 1, max_estimated_tokens = 1\<rparr>))) = [Role_System, Role_Assistant]"
proof -
  have "should_compact compact_demo \<lparr>preserve_recent_messages = 1, max_estimated_tokens = 1\<rparr>"
    by (simp add: should_compact_def compacted_summary_prefix_len_def existing_summary_of_def compact_demo_def
        extract_existing_compacted_summary_def estimate_message_tokens_def estimate_block_tokens_def)
  from compact_session_contract [OF this, of 7] show ?thesis
    by (simp add: Let_def compact_demo_def compacted_summary_prefix_len_def existing_summary_of_def
        extract_existing_compacted_summary_def)
qed

lemma tag_Cons: "open_tag tag = 60 # tag @ [62]" "close_tag tag = 60 # 47 # tag @ [62]"
  by (simp_all add: open_tag_def close_tag_def lit_def)

text \<open>
  When a closing analysis tag comes before the opening one, stripping the block does not remove
  anything: it repeats the text between the two tags.\<close>

theorem strip_tag_block_duplicates:
  assumes "60 \<notin> set b"
  shows "strip_tag_block (close_tag (lit ''analysis'') @ b @ open_tag (lit ''analysis'') @ rest) (lit ''analysis'') =
    close_tag (lit ''analysis'') @ b @ b @ open_tag (lit ''analysis'') @ rest"
proof -
  let ?c = "close_tag (lit ''analysis'')" and ?o = "open_tag (lit ''analysis'')"
  have "\<not> str_contains b ?o" using assms str_contains_mem [of b ?o] by (auto simp: tag_Cons)
  then have "\<not> str_contains (?c @ b) ?o" by (simp add: tag_Cons lit_def)
  then have "str_find ((?c @ b) @ ?o @ rest) ?o = map_option ((+) (length (?c @ b))) (str_find (?o @ rest) ?o)"
    using border_free [of 60 "lit ''analysis'' @ [62]"]
    by (intro str_find_append) (auto simp: str_find_None_iff tag_Cons lit_def)
  then have "str_find (?c @ b @ ?o @ rest) ?o = Some (length ?c + length b)" by (simp add: str_find_prefix)
  moreover have "str_find (?c @ b @ ?o @ rest) ?c = Some 0" by (simp add: str_find_prefix)
  ultimately show ?thesis by (simp add: strip_tag_block_def)
qed

lemma strip_tag_block_duplicates_witness:
  "strip_tag_block (close_tag (lit ''analysis'') @ lit ''x'' @ open_tag (lit ''analysis'')) (lit ''analysis'') =
     lit ''</analysis>xx<analysis>''"
proof -
  have "60 \<notin> set (lit ''x'')" by (simp add: lit_def)
  from strip_tag_block_duplicates [OF this, of "[]"] show ?thesis
    by (simp add: tag_Cons) (simp add: lit_def)
qed

end
