(* ===== verification/Hooks.thy ===== *)
theory Hooks imports Permissions begin

text \<open>
  Tool hooks (\<^verbatim>\<open>crates/runtime/src/hooks.rs\<close>): the commands run before and after a tool, the reading of what
  they print, and the merged result.  Parameters: \<^verbatim>\<open>serde_json\<close> (\<open>from_str\<close>, \<open>to_string\<close>, with its \<^verbatim>\<open>Value\<close> as a
  datatype), the running of a process (\<open>run_process\<close>) and the abort flag, both functions of a state of the
  world that is passed along.  A progress reporter only hears events; they are returned as a list.
\<close>

section \<open>Data\<close>

datatype serde_value =
    SNull
  | SBool bool
  | SNumber rstring
  | SString rstring
  | SArray "serde_value list"
  | SObject "(rstring \<times> serde_value) list"

record serde_json =
  from_str :: "rstring \<Rightarrow> serde_value option"
  to_string :: "serde_value \<Rightarrow> rstring"

datatype hook_event = PreToolUse | PostToolUse | PostToolUseFailure

fun hook_event_as_str :: "hook_event \<Rightarrow> rstring" where
  "hook_event_as_str PreToolUse = lit ''PreToolUse''"
| "hook_event_as_str PostToolUse = lit ''PostToolUse''"
| "hook_event_as_str PostToolUseFailure = lit ''PostToolUseFailure''"

datatype hook_progress_event =
    Hook_Started hook_event rstring rstring
  | Hook_Completed hook_event rstring rstring
  | Hook_Cancelled hook_event rstring rstring

record hook_run_result =
  denied :: bool
  failed :: bool
  cancelled :: bool
  hook_messages :: "rstring list"
  hook_override :: "permission_override option"
  hook_reason :: "rstring option"
  updated_input :: "rstring option"

definition hook_allow :: "rstring list \<Rightarrow> hook_run_result" where
  "hook_allow ms = \<lparr>denied = False, failed = False, cancelled = False, hook_messages = ms,
     hook_override = None, hook_reason = None, updated_input = None\<rparr>"

record hook_config =
  pre_tool_use :: "rstring list"
  post_tool_use :: "rstring list"
  post_tool_use_failure :: "rstring list"

definition push_unique :: "rstring list \<Rightarrow> rstring \<Rightarrow> rstring list" where
  "push_unique target v = (if v \<in> set target then target else target @ [v])"

definition extend_unique :: "rstring list \<Rightarrow> rstring list \<Rightarrow> rstring list" where
  "extend_unique target vs = foldl push_unique target vs"

definition hook_config_extend :: "hook_config \<Rightarrow> hook_config \<Rightarrow> hook_config" where
  "hook_config_extend a b = \<lparr>pre_tool_use = extend_unique (pre_tool_use a) (pre_tool_use b),
     post_tool_use = extend_unique (post_tool_use a) (post_tool_use b),
     post_tool_use_failure = extend_unique (post_tool_use_failure a) (post_tool_use_failure b)\<rparr>"

record parsed_hook_output =
  parsed_messages :: "rstring list"
  parsed_deny :: bool
  parsed_override :: "permission_override option"
  parsed_reason :: "rstring option"
  parsed_input :: "rstring option"

definition parsed_default :: parsed_hook_output where
  "parsed_default = \<lparr>parsed_messages = [], parsed_deny = False, parsed_override = None,
     parsed_reason = None, parsed_input = None\<rparr>"

datatype (discs_sels) hook_command_outcome =
    Hook_Allow parsed_hook_output
  | Hook_Deny parsed_hook_output
  | Hook_Failed parsed_hook_output
  | Hook_Cancel rstring

section \<open>Reading what a hook prints\<close>

fun value_as_str :: "serde_value \<Rightarrow> rstring option" where
  "value_as_str (SString s) = Some s"
| "value_as_str _ = None"

fun value_as_bool :: "serde_value \<Rightarrow> bool option" where
  "value_as_bool (SBool b) = Some b"
| "value_as_bool _ = None"

definition opt_list :: "'a option \<Rightarrow> 'a list" where
  "opt_list x = (case x of None \<Rightarrow> [] | Some y \<Rightarrow> [y])"

definition decision_override :: "rstring \<Rightarrow> permission_override option" where
  "decision_override decision =
     (if decision = lit ''allow'' then Some Override_Allow
      else if decision = lit ''deny'' then Some Override_Deny
      else if decision = lit ''ask'' then Some Override_Ask
      else None)"

definition parse_hook_specific :: "serde_json \<Rightarrow> (rstring \<times> serde_value) list \<Rightarrow> parsed_hook_output \<Rightarrow> parsed_hook_output" where
  "parse_hook_specific serde specific parsed = parsed\<lparr>
     parsed_messages := parsed_messages parsed @
       opt_list (Option.bind (map_of specific (lit ''additionalContext'')) value_as_str),
     parsed_override := (case Option.bind (map_of specific (lit ''permissionDecision'')) value_as_str of
         Some decision \<Rightarrow> decision_override decision | None \<Rightarrow> parsed_override parsed),
     parsed_reason := (case Option.bind (map_of specific (lit ''permissionDecisionReason'')) value_as_str of
         Some reason \<Rightarrow> Some reason | None \<Rightarrow> parsed_reason parsed),
     parsed_input := (case map_of specific (lit ''updatedInput'') of
         Some v \<Rightarrow> Some (to_string serde v) | None \<Rightarrow> parsed_input parsed)\<rparr>"

definition parse_hook_object :: "serde_json \<Rightarrow> (rstring \<times> serde_value) list \<Rightarrow> parsed_hook_output" where
  "parse_hook_object serde root =
     (let parsed = parsed_default\<lparr>
            parsed_messages := opt_list (Option.bind (map_of root (lit ''systemMessage'')) value_as_str) @
              opt_list (Option.bind (map_of root (lit ''reason'')) value_as_str),
            parsed_deny := (Option.bind (map_of root (lit ''continue'')) value_as_bool = Some False \<or>
              Option.bind (map_of root (lit ''decision'')) value_as_str = Some (lit ''block''))\<rparr>
      in case map_of root (lit ''hookSpecificOutput'') of
           Some (SObject specific) \<Rightarrow> parse_hook_specific serde specific parsed
         | _ \<Rightarrow> parsed)"

definition parse_hook_output :: "serde_json \<Rightarrow> rstring \<Rightarrow> parsed_hook_output" where
  "parse_hook_output serde stdout =
     (if stdout = [] then parsed_default
      else (case from_str serde stdout of
          Some (SObject root) \<Rightarrow>
            (let parsed = parse_hook_object serde root
             in if parsed_messages parsed = [] then parsed\<lparr>parsed_messages := [stdout]\<rparr> else parsed)
        | _ \<Rightarrow> parsed_default\<lparr>parsed_messages := [stdout]\<rparr>))"

definition with_fallback_message :: "rstring \<Rightarrow> parsed_hook_output \<Rightarrow> parsed_hook_output" where
  "with_fallback_message fallback parsed =
     (if parsed_messages parsed = [] then parsed\<lparr>parsed_messages := [fallback]\<rparr> else parsed)"

definition primary_message :: "parsed_hook_output \<Rightarrow> rstring option" where
  "primary_message parsed = (case parsed_messages parsed of [] \<Rightarrow> None | m # _ \<Rightarrow> Some m)"

definition merge_parsed_hook_output :: "hook_run_result \<Rightarrow> parsed_hook_output \<Rightarrow> hook_run_result" where
  "merge_parsed_hook_output target parsed = target\<lparr>
     hook_messages := hook_messages target @ parsed_messages parsed,
     hook_override := (if parsed_override parsed \<noteq> None then parsed_override parsed else hook_override target),
     hook_reason := (if parsed_reason parsed \<noteq> None then parsed_reason parsed else hook_reason target),
     updated_input := (if parsed_input parsed \<noteq> None then parsed_input parsed else updated_input target)\<rparr>"

section \<open>What a hook is given\<close>

definition parse_tool_input :: "serde_json \<Rightarrow> rstring \<Rightarrow> serde_value" where
  "parse_tool_input serde inp = (case from_str serde inp of
     Some v \<Rightarrow> v | None \<Rightarrow> SObject [(lit ''raw'', SString inp)])"

definition opt_value :: "rstring option \<Rightarrow> serde_value" where
  "opt_value x = (case x of None \<Rightarrow> SNull | Some s \<Rightarrow> SString s)"

definition hook_payload :: "serde_json \<Rightarrow> hook_event \<Rightarrow> rstring \<Rightarrow> rstring \<Rightarrow> rstring option \<Rightarrow> bool \<Rightarrow> serde_value" where
  "hook_payload serde event tool inp out is_error =
     (let common = [(lit ''hook_event_name'', SString (hook_event_as_str event)), (lit ''tool_name'', SString tool),
            (lit ''tool_input'', parse_tool_input serde inp), (lit ''tool_input_json'', SString inp)]
      in SObject (common @ (case event of
           PostToolUseFailure \<Rightarrow> [(lit ''tool_error'', opt_value out), (lit ''tool_result_is_error'', SBool True)]
         | _ \<Rightarrow> [(lit ''tool_output'', opt_value out), (lit ''tool_result_is_error'', SBool is_error)])))"

definition format_hook_failure :: "rstring \<Rightarrow> int \<Rightarrow> rstring option \<Rightarrow> rstring \<Rightarrow> rstring" where
  "format_hook_failure command code stdout stderr =
     lit ''Hook `'' @ command @ lit ''` exited with status '' @ show_int code @
     (case stdout of
        Some (c # cs) \<Rightarrow> lit '': '' @ (c # cs)
      | _ \<Rightarrow> if stderr \<noteq> [] then lit '': '' @ stderr else [])"

section \<open>Running hooks\<close>

record hook_call =
  call_command :: rstring
  call_env :: "(rstring \<times> rstring) list"
  call_stdin :: rstring

datatype hook_execution =
    Exec_Finished "int option" rstring rstring
  | Exec_Cancelled
  | Exec_Error rstring

record 'w hook_world =
  run_process :: "'w \<Rightarrow> hook_call \<Rightarrow> hook_execution \<times> 'w"
  is_aborted :: "'w \<Rightarrow> bool"
  hook_serde :: serde_json

definition hook_call_for :: "rstring \<Rightarrow> hook_event \<Rightarrow> rstring \<Rightarrow> rstring \<Rightarrow> rstring option \<Rightarrow> bool \<Rightarrow> rstring \<Rightarrow> hook_call" where
  "hook_call_for command event tool inp out is_error payload = \<lparr>call_command = command,
     call_env = [(lit ''HOOK_EVENT'', hook_event_as_str event), (lit ''HOOK_TOOL_NAME'', tool),
         (lit ''HOOK_TOOL_INPUT'', inp), (lit ''HOOK_TOOL_IS_ERROR'', if is_error then lit ''1'' else lit ''0'')] @
       (case out of None \<Rightarrow> [] | Some t \<Rightarrow> [(lit ''HOOK_TOOL_OUTPUT'', t)]),
     call_stdin = payload\<rparr>"

definition command_outcome :: "serde_json \<Rightarrow> rstring \<Rightarrow> hook_event \<Rightarrow> rstring \<Rightarrow> hook_execution \<Rightarrow> hook_command_outcome" where
  "command_outcome serde command event tool execution = (case execution of
     Exec_Finished status raw_stdout raw_stderr \<Rightarrow>
       (let stdout = trim raw_stdout; stderr = trim raw_stderr; parsed = parse_hook_output serde stdout
        in case status of
             Some code \<Rightarrow>
               if code = 0 then (if parsed_deny parsed then Hook_Deny parsed else Hook_Allow parsed)
               else if code = 2 then Hook_Deny (with_fallback_message
                 (hook_event_as_str event @ lit '' hook denied tool `'' @ tool @ lit ''`'') parsed)
               else Hook_Failed (with_fallback_message
                 (format_hook_failure command code (primary_message parsed) stderr) parsed)
           | None \<Rightarrow> Hook_Failed (with_fallback_message
               (hook_event_as_str event @ lit '' hook `'' @ command @
                lit ''` terminated by signal while handling `'' @ tool @ lit ''`'') parsed))
   | Exec_Cancelled \<Rightarrow> Hook_Cancel (hook_event_as_str event @ lit '' hook `'' @ command @
       lit ''` cancelled while handling `'' @ tool @ lit ''`'')
   | Exec_Error e \<Rightarrow> Hook_Failed (parsed_default\<lparr>parsed_messages := [hook_event_as_str event @ lit '' hook `'' @
       command @ lit ''` failed to start for `'' @ tool @ lit ''`: '' @ e]\<rparr>))"

text \<open>The loop over the commands; it returns the result, the events of the reporter and the world.\<close>

fun run_commands_loop :: "'w hook_world \<Rightarrow> hook_event \<Rightarrow> rstring \<Rightarrow> (rstring \<Rightarrow> hook_call) \<Rightarrow> rstring list \<Rightarrow>
    hook_run_result \<Rightarrow> 'w \<Rightarrow> hook_run_result \<times> hook_progress_event list \<times> 'w" where
  "run_commands_loop h event tool call [] result w = (result, [], w)"
| "run_commands_loop h event tool call (command # rest) result w =
     (let (execution, w1) = run_process h w (call command);
          started = Hook_Started event tool command; completed = Hook_Completed event tool command
      in case command_outcome (hook_serde h) command event tool execution of
           Hook_Allow parsed \<Rightarrow>
             (let (res, events, w2) =
                run_commands_loop h event tool call rest (merge_parsed_hook_output result parsed) w1
              in (res, started # completed # events, w2))
         | Hook_Deny parsed \<Rightarrow>
             ((merge_parsed_hook_output result parsed)\<lparr>denied := True\<rparr>, [started, completed], w1)
         | Hook_Failed parsed \<Rightarrow>
             ((merge_parsed_hook_output result parsed)\<lparr>failed := True\<rparr>, [started, completed], w1)
         | Hook_Cancel message \<Rightarrow>
             (result\<lparr>cancelled := True, hook_messages := hook_messages result @ [message]\<rparr>,
              [started, Hook_Cancelled event tool command], w1))"

definition run_commands :: "'w hook_world \<Rightarrow> hook_event \<Rightarrow> rstring list \<Rightarrow> rstring \<Rightarrow> rstring \<Rightarrow> rstring option \<Rightarrow>
    bool \<Rightarrow> 'w \<Rightarrow> hook_run_result \<times> hook_progress_event list \<times> 'w" where
  "run_commands h event commands tool inp out is_error w =
     (if commands = [] then (hook_allow [], [], w)
      else if is_aborted h w then
        ((hook_allow [hook_event_as_str event @ lit '' hook cancelled before execution''])\<lparr>cancelled := True\<rparr>, [], w)
      else
        (let payload = to_string (hook_serde h) (hook_payload (hook_serde h) event tool inp out is_error)
         in run_commands_loop h event tool (\<lambda>command. hook_call_for command event tool inp out is_error payload)
              commands (hook_allow []) w))"

definition run_pre_tool_use :: "'w hook_world \<Rightarrow> hook_config \<Rightarrow> rstring \<Rightarrow> rstring \<Rightarrow> 'w \<Rightarrow>
    hook_run_result \<times> hook_progress_event list \<times> 'w" where
  "run_pre_tool_use h config tool inp w = run_commands h PreToolUse (pre_tool_use config) tool inp None False w"

definition run_post_tool_use :: "'w hook_world \<Rightarrow> hook_config \<Rightarrow> rstring \<Rightarrow> rstring \<Rightarrow> rstring \<Rightarrow> bool \<Rightarrow> 'w \<Rightarrow>
    hook_run_result \<times> hook_progress_event list \<times> 'w" where
  "run_post_tool_use h config tool inp out is_error w =
     run_commands h PostToolUse (post_tool_use config) tool inp (Some out) is_error w"

definition run_post_tool_use_failure :: "'w hook_world \<Rightarrow> hook_config \<Rightarrow> rstring \<Rightarrow> rstring \<Rightarrow> rstring \<Rightarrow> 'w \<Rightarrow>
    hook_run_result \<times> hook_progress_event list \<times> 'w" where
  "run_post_tool_use_failure h config tool inp err w =
     run_commands h PostToolUseFailure (post_tool_use_failure config) tool inp (Some err) True w"

section \<open>The result as a function of the outcomes\<close>

fun outcome_allows :: "hook_command_outcome \<Rightarrow> bool" where
  "outcome_allows (Hook_Allow p) \<longleftrightarrow> True"
| "outcome_allows _ \<longleftrightarrow> False"

fun outcome_parsed :: "hook_command_outcome \<Rightarrow> parsed_hook_output" where
  "outcome_parsed (Hook_Allow p) = p"
| "outcome_parsed (Hook_Deny p) = p"
| "outcome_parsed (Hook_Failed p) = p"
| "outcome_parsed (Hook_Cancel m) = parsed_default\<lparr>parsed_messages := [m]\<rparr>"

text \<open>The commands run one after the other until one does not allow: the outcomes they have.\<close>

fun run_outcomes :: "'w hook_world \<Rightarrow> hook_event \<Rightarrow> rstring \<Rightarrow> (rstring \<Rightarrow> hook_call) \<Rightarrow> rstring list \<Rightarrow> 'w \<Rightarrow>
    (rstring \<times> hook_command_outcome) list" where
  "run_outcomes h event tool call [] w = []"
| "run_outcomes h event tool call (command # rest) w =
     (let (execution, w1) = run_process h w (call command);
          outcome = command_outcome (hook_serde h) command event tool execution
      in (command, outcome) # (if outcome_allows outcome then run_outcomes h event tool call rest w1 else []))"

definition last_given :: "'a option \<Rightarrow> 'a option list \<Rightarrow> 'a option" where
  "last_given d xs = fold (\<lambda>x y. if x \<noteq> None then x else y) xs d"

lemma last_given_simps [simp]:
  "last_given d [] = d" "last_given d (x # xs) = last_given (if x \<noteq> None then x else d) xs"
  by (simp_all add: last_given_def)

definition outcome_events :: "hook_event \<Rightarrow> rstring \<Rightarrow> (rstring \<times> hook_command_outcome) list \<Rightarrow> hook_progress_event list" where
  "outcome_events event tool os = concat (map (\<lambda>(command, outcome). [Hook_Started event tool command,
     (case outcome of Hook_Cancel m \<Rightarrow> Hook_Cancelled event tool command | _ \<Rightarrow> Hook_Completed event tool command)]) os)"

definition merged_result :: "hook_run_result \<Rightarrow> hook_command_outcome list \<Rightarrow> hook_run_result" where
  "merged_result result os = \<lparr>
     denied = denied result \<or> list_ex is_Hook_Deny os,
     failed = failed result \<or> list_ex is_Hook_Failed os,
     cancelled = cancelled result \<or> list_ex is_Hook_Cancel os,
     hook_messages = hook_messages result @ concat (map (\<lambda>outcome. parsed_messages (outcome_parsed outcome)) os),
     hook_override = last_given (hook_override result) (map (\<lambda>outcome. parsed_override (outcome_parsed outcome)) os),
     hook_reason = last_given (hook_reason result) (map (\<lambda>outcome. parsed_reason (outcome_parsed outcome)) os),
     updated_input = last_given (updated_input result) (map (\<lambda>outcome. parsed_input (outcome_parsed outcome)) os)\<rparr>"

lemma merged_result_Nil [simp]: "merged_result result [] = result"
  by (simp add: merged_result_def)

lemma merged_result_Cons:
  "merged_result result (outcome # os) = merged_result (merged_result result [outcome]) os"
  by (simp add: merged_result_def)

lemma merged_result_one:
  "merged_result result [Hook_Allow p] = merge_parsed_hook_output result p"
  "merged_result result [Hook_Deny p] = (merge_parsed_hook_output result p)\<lparr>denied := True\<rparr>"
  "merged_result result [Hook_Failed p] = (merge_parsed_hook_output result p)\<lparr>failed := True\<rparr>"
  "merged_result result [Hook_Cancel m] = result\<lparr>cancelled := True, hook_messages := hook_messages result @ [m]\<rparr>"
  by (simp_all add: merged_result_def merge_parsed_hook_output_def parsed_default_def)

lemma run_commands_loop_merges:
  "fst (run_commands_loop h event tool call commands result w) =
     merged_result result (map snd (run_outcomes h event tool call commands w)) \<and>
   fst (snd (run_commands_loop h event tool call commands result w)) =
     outcome_events event tool (run_outcomes h event tool call commands w)"
proof (induction commands arbitrary: result w)
  case Nil
  then show ?case by (simp add: outcome_events_def)
next
  case (Cons command rest)
  obtain execution w1 where run: "run_process h w (call command) = (execution, w1)" by force
  show ?case
  proof (cases "command_outcome (hook_serde h) command event tool execution")
    case (Hook_Allow p)
    then show ?thesis using Cons.IH [of "merge_parsed_hook_output result p" w1]
      by (simp add: run merged_result_Cons [of result] merged_result_one outcome_events_def split_beta)
  qed (simp_all add: run merged_result_Cons [of result] merged_result_one outcome_events_def)
qed

lemma run_outcomes_shape:
  "let os = run_outcomes h event tool call commands w in
     map fst os = take (length os) commands \<and> list_all (\<lambda>x. outcome_allows (snd x)) (butlast os) \<and>
     (length os = length commands \<or> (os \<noteq> [] \<and> \<not> outcome_allows (snd (last os))))"
proof (induction commands arbitrary: w)
  case Nil
  then show ?case by simp
next
  case (Cons command rest)
  obtain execution w1 where run: "run_process h w (call command) = (execution, w1)" by force
  show ?case using Cons.IH [of w1] by (cases rest) (auto simp: run Let_def)
qed

lemma outcome_allows_iff: "outcome_allows x \<longleftrightarrow> \<not> is_Hook_Deny x \<and> \<not> is_Hook_Failed x \<and> \<not> is_Hook_Cancel x"
  by (cases x) simp_all

section \<open>Properties\<close>

abbreviation outcomes_of :: "'w hook_world \<Rightarrow> hook_event \<Rightarrow> rstring list \<Rightarrow> rstring \<Rightarrow> rstring \<Rightarrow> rstring option \<Rightarrow>
    bool \<Rightarrow> 'w \<Rightarrow> (rstring \<times> hook_command_outcome) list" where
  "outcomes_of h event commands tool inp out is_error w \<equiv> run_outcomes h event tool
     (\<lambda>command. hook_call_for command event tool inp out is_error
       (to_string (hook_serde h) (hook_payload (hook_serde h) event tool inp out is_error))) commands w"

lemma run_commands_result:
  "fst (run_commands h event commands tool inp out is_error w) =
     (if commands \<noteq> [] \<and> is_aborted h w
      then (hook_allow [hook_event_as_str event @ lit '' hook cancelled before execution''])\<lparr>cancelled := True\<rparr>
      else merged_result (hook_allow []) (map snd (outcomes_of h event commands tool inp out is_error w)))"
  by (simp add: run_commands_def Let_def run_commands_loop_merges)

lemma last_flags:
  assumes "list_all (\<lambda>x. outcome_allows (snd x)) (butlast os)"
  shows "list_ex is_Hook_Deny (map snd os) \<longleftrightarrow> os \<noteq> [] \<and> is_Hook_Deny (snd (last os))"
    and "list_ex is_Hook_Failed (map snd os) \<longleftrightarrow> os \<noteq> [] \<and> is_Hook_Failed (snd (last os))"
    and "list_ex is_Hook_Cancel (map snd os) \<longleftrightarrow> os \<noteq> [] \<and> is_Hook_Cancel (snd (last os))"
  using assms by (cases os rule: rev_cases; auto simp: list_all_iff list_ex_iff outcome_allows_iff)+

text \<open>
  C22: The result of a run of hooks is the merge of the outcomes of its commands, which run in their
  order until the first that does not allow: messages are collected, of the permission overrides, reasons
  and inputs the last given counts, and the result is denied, failed or cancelled exactly when its last
  outcome is, never two of them at once.  The reporter hears of every command that ran, and of no other.
  A run with commands whose abort flag is set runs none of them.\<close>

theorem hook_run_merges_outcomes:
  "let os = (if is_aborted h w then [] else outcomes_of h event commands tool inp out is_error w);
       (result, events, w') = run_commands h event commands tool inp out is_error w
   in map fst os = take (length os) commands \<and>
      list_all (\<lambda>x. outcome_allows (snd x)) (butlast os) \<and>
      events = outcome_events event tool os \<and>
      hook_override result = last_given None (map (\<lambda>x. parsed_override (outcome_parsed (snd x))) os) \<and>
      updated_input result = last_given None (map (\<lambda>x. parsed_input (outcome_parsed (snd x))) os) \<and>
      hook_reason result = last_given None (map (\<lambda>x. parsed_reason (outcome_parsed (snd x))) os) \<and>
      (if commands \<noteq> [] \<and> is_aborted h w then
         (denied result, failed result, cancelled result) = (False, False, True) \<and>
         hook_messages result = [hook_event_as_str event @ lit '' hook cancelled before execution'']
       else
         (denied result, failed result, cancelled result) =
           (if os = [] then (False, False, False)
            else (is_Hook_Deny (snd (last os)), is_Hook_Failed (snd (last os)), is_Hook_Cancel (snd (last os)))) \<and>
         hook_messages result = concat (map (\<lambda>x. parsed_messages (outcome_parsed (snd x))) os))"
proof (cases "commands \<noteq> [] \<and> is_aborted h w")
  case True
  then show ?thesis by (simp add: run_commands_def hook_allow_def outcome_events_def)
next
  case False
  let ?os = "outcomes_of h event commands tool inp out is_error w"
  have os: "(if is_aborted h w then [] else ?os) = ?os" using False by auto
  have shape: "map fst ?os = take (length ?os) commands" "list_all (\<lambda>x. outcome_allows (snd x)) (butlast ?os)"
    using run_outcomes_shape [of h event tool _ commands w] by (simp_all add: Let_def)
  have events: "fst (snd (run_commands h event commands tool inp out is_error w)) = outcome_events event tool ?os"
    using False by (auto simp: run_commands_def Let_def run_commands_loop_merges outcome_events_def)
  have result: "fst (run_commands h event commands tool inp out is_error w) = merged_result (hook_allow []) (map snd ?os)"
    using False by (simp only: run_commands_result) simp
  obtain w' where run: "run_commands h event commands tool inp out is_error w =
      (merged_result (hook_allow []) (map snd ?os), outcome_events event tool ?os, w')"
    using events result by (cases "run_commands h event commands tool inp out is_error w") auto
  show ?thesis
    unfolding os Let_def run prod.case if_not_P [OF False] using shape last_flags [OF shape(2)]
    by (simp add: merged_result_def hook_allow_def o_def)
qed

text \<open>
  Hooks fail closed: a run of hooks raises none of its three flags only when there is no command, or
  when it was not aborted and every command ran, ended with the status 0 and did not print a denial.\<close>

theorem hooks_fail_closed:
  "let result = fst (run_commands h event commands tool inp out is_error w) in
     (\<not> denied result \<and> \<not> failed result \<and> \<not> cancelled result) =
     (commands = [] \<or> (\<not> is_aborted h w \<and>
        map fst (outcomes_of h event commands tool inp out is_error w) = commands \<and>
        list_all (\<lambda>x. outcome_allows (snd x)) (outcomes_of h event commands tool inp out is_error w))) \<and>
     outcome_allows (command_outcome serde command event tool execution) =
       (\<exists>stdout stderr. execution = Exec_Finished (Some 0) stdout stderr \<and> \<not> parsed_deny (parse_hook_output serde (trim stdout)))"
proof -
  let ?os = "outcomes_of h event commands tool inp out is_error w"
  have shape: "map fst ?os = take (length ?os) commands" "list_all (\<lambda>x. outcome_allows (snd x)) (butlast ?os)"
      "length ?os = length commands \<or> (?os \<noteq> [] \<and> \<not> outcome_allows (snd (last ?os)))"
    using run_outcomes_shape [of h event tool _ commands w] by (simp_all add: Let_def)
  have clear: "(\<not> list_ex is_Hook_Deny (map snd ?os) \<and> \<not> list_ex is_Hook_Failed (map snd ?os) \<and>
      \<not> list_ex is_Hook_Cancel (map snd ?os)) = list_all (\<lambda>x. outcome_allows (snd x)) ?os"
    by (auto simp: list_ex_iff list_all_iff outcome_allows_iff)
  have all_run: "list_all (\<lambda>x. outcome_allows (snd x)) ?os \<Longrightarrow> map fst ?os = commands"
    using shape(1,3) by (auto simp: list_all_iff)
  have outcome: "outcome_allows (command_outcome serde command event tool execution) =
      (\<exists>stdout stderr. execution = Exec_Finished (Some 0) stdout stderr \<and> \<not> parsed_deny (parse_hook_output serde (trim stdout)))"
    by (auto simp: command_outcome_def Let_def split: hook_execution.splits option.splits)
  have "commands = [] \<Longrightarrow> ?os = []" by simp
  then show ?thesis using clear all_run
    by (simp only: Let_def run_commands_result outcome)
      (auto simp: hook_allow_def merged_result_def)
qed

end
