(* ===== verification/Conversation.thy ===== *)
theory Conversation imports Hooks Compact begin

text \<open>
  The conversation runtime (\<^verbatim>\<open>crates/runtime/src/conversation.rs\<close>): the model loop of a turn, the building of
  an assistant message from a stream of events, the gating and running of its tool uses with their hooks,
  and the compaction at the end of a turn.

  The outside world is a state of any type \<open>'w\<close> that is passed along: \<open>env\<close> holds what acts on it, the client of
  the model (\<^verbatim>\<open>ApiClient\<close>), the tool executor, the permission prompter, the processes of hooks, the clock and
  the errors of the file system.  A session tracer records a list of events.
\<close>

section \<open>Data\<close>

record prompt_cache_event =
  unexpected :: bool
  cache_reason :: rstring
  previous_cache_read_input_tokens :: u32
  current_cache_read_input_tokens :: u32
  token_drop :: u32

datatype assistant_event =
    Event_TextDelta rstring
  | Event_ToolUse rstring rstring rstring
  | Event_Usage token_usage
  | Event_PromptCache prompt_cache_event
  | Event_MessageStop

record api_request =
  request_system_prompt :: "rstring list"
  request_messages :: "conversation_message list"

datatype runtime_error = RuntimeError rstring

datatype tool_error = ToolError rstring

fun show_tool_error :: "tool_error \<Rightarrow> rstring" where
  "show_tool_error (ToolError message) = message"

fun show_runtime_error :: "runtime_error \<Rightarrow> rstring" where
  "show_runtime_error (RuntimeError message) = message"

record turn_summary =
  assistant_messages :: "conversation_message list"
  tool_results :: "conversation_message list"
  prompt_cache_events :: "prompt_cache_event list"
  iterations :: nat
  turn_usage :: token_usage
  auto_compaction :: "nat option"

text \<open>What the session tracer records, one constructor for each name of an event.\<close>

datatype trace_event =
    Turn_Started rstring
  | Assistant_Iteration_Completed nat nat nat
  | Tool_Execution_Started nat rstring
  | Tool_Execution_Finished nat rstring bool
  | Turn_Completed nat nat nat nat
  | Turn_Failed nat rstring

record 'w env =
  api_stream :: "'w \<Rightarrow> api_request \<Rightarrow> (runtime_error + assistant_event list) \<times> 'w"
  tool_execute :: "'w \<Rightarrow> rstring \<Rightarrow> rstring \<Rightarrow> (tool_error + rstring) \<times> 'w"
  prompt_decide :: "'w \<Rightarrow> permission_request \<Rightarrow> permission_prompt_decision \<times> 'w"
  hook_world :: "'w hook_world"
  permission_serde :: serde_object
  current_time_millis :: "'w \<Rightarrow> u64 \<times> 'w"
  file_error :: "'w \<Rightarrow> session_error option"

record 'w runtime =
  rt_world :: 'w
  rt_session :: session
  rt_file :: "rstring option"
  permission_policy :: permission_policy
  system_prompt :: "rstring list"
  max_iterations :: nat
  usage_tracker :: usage_tracker
  hook_runner :: hook_config
  compaction_threshold :: u32
  hook_progress :: "hook_progress_event list option"
  session_trace :: "trace_event list option"

definition runtime_new :: "'w \<Rightarrow> session \<Rightarrow> rstring option \<Rightarrow> permission_policy \<Rightarrow> rstring list \<Rightarrow> hook_config \<Rightarrow> u32 \<Rightarrow> 'w runtime" where
  "runtime_new w s contents policy prompt hooks threshold = \<lparr>rt_world = w, rt_session = s, rt_file = contents,
     permission_policy = policy, system_prompt = prompt, max_iterations = 2 ^ 64 - 1,
     usage_tracker = tracker_from_session s, hook_runner = hooks, compaction_threshold = threshold,
     hook_progress = None, session_trace = None\<rparr>"

definition with_max_iterations :: "nat \<Rightarrow> 'w runtime \<Rightarrow> 'w runtime" where
  "with_max_iterations n rt = rt\<lparr>max_iterations := n\<rparr>"

definition with_threshold :: "u32 \<Rightarrow> 'w runtime \<Rightarrow> 'w runtime" where
  "with_threshold threshold rt = rt\<lparr>compaction_threshold := threshold\<rparr>"

definition default_compaction_threshold :: u32 where
  "default_compaction_threshold = 100000"

text \<open>\<^verbatim>\<open>str::parse::<u32>\<close>.\<close>

definition parse_u32 :: "rstring \<Rightarrow> u32 option" where
  "parse_u32 s = (let d = (if s \<noteq> [] \<and> hd s = 43 then tl s else s)
     in if d \<noteq> [] \<and> list_all is_ascii_digit d \<and> digits_value 0 d < 2 ^ 32
        then Some (of_nat (digits_value 0 d)) else None)"

definition parse_auto_compaction_threshold :: "rstring option \<Rightarrow> u32" where
  "parse_auto_compaction_threshold v = (case Option.bind v (\<lambda>raw. parse_u32 (trim raw)) of
     Some threshold \<Rightarrow> if threshold > 0 then threshold else default_compaction_threshold
   | None \<Rightarrow> default_compaction_threshold)"

section \<open>The assistant message\<close>

record build_state =
  build_text :: rstring
  build_blocks :: "content_block list"
  build_cache :: "prompt_cache_event list"
  build_finished :: bool
  build_usage :: "token_usage option"

definition flush_text_block :: "build_state \<Rightarrow> build_state" where
  "flush_text_block st = (if build_text st \<noteq> [] then
     st\<lparr>build_blocks := build_blocks st @ [Block_Text (build_text st)], build_text := []\<rparr> else st)"

fun build_event :: "build_state \<Rightarrow> assistant_event \<Rightarrow> build_state" where
  "build_event st (Event_TextDelta delta) = st\<lparr>build_text := build_text st @ delta\<rparr>"
| "build_event st (Event_ToolUse i n inp) = (let st1 = flush_text_block st
     in st1\<lparr>build_blocks := build_blocks st1 @ [Block_ToolUse i n inp]\<rparr>)"
| "build_event st (Event_Usage u) = st\<lparr>build_usage := Some u\<rparr>"
| "build_event st (Event_PromptCache e) = st\<lparr>build_cache := build_cache st @ [e]\<rparr>"
| "build_event st Event_MessageStop = st\<lparr>build_finished := True\<rparr>"

definition build_empty :: build_state where
  "build_empty = \<lparr>build_text = [], build_blocks = [], build_cache = [], build_finished = False, build_usage = None\<rparr>"

definition build_assistant_message :: "assistant_event list \<Rightarrow>
    runtime_error + (conversation_message \<times> token_usage option \<times> prompt_cache_event list)" where
  "build_assistant_message events =
     (let st = flush_text_block (foldl build_event build_empty events)
      in if \<not> build_finished st then Inl (RuntimeError (lit ''assistant stream ended without a message stop event''))
         else if build_blocks st = [] then Inl (RuntimeError (lit ''assistant stream produced no content''))
         else Inr (\<lparr>msg_role = Role_Assistant, msg_blocks = build_blocks st, msg_usage = build_usage st\<rparr>,
                   build_usage st, build_cache st))"

definition pending_tool_uses :: "conversation_message \<Rightarrow> (rstring \<times> rstring \<times> rstring) list" where
  "pending_tool_uses m = filter_map (\<lambda>b. case b of
     Block_ToolUse i n inp \<Rightarrow> Some (i, n, inp) | _ \<Rightarrow> None) (msg_blocks m)"

definition tool_result :: "rstring \<Rightarrow> rstring \<Rightarrow> rstring \<Rightarrow> bool \<Rightarrow> conversation_message" where
  "tool_result i n out is_error = \<lparr>msg_role = Role_Tool, msg_blocks = [Block_ToolResult i n out is_error], msg_usage = None\<rparr>"

section \<open>Messages of hooks\<close>

definition format_hook_message :: "hook_run_result \<Rightarrow> rstring \<Rightarrow> rstring" where
  "format_hook_message result fallback =
     (if hook_messages result = [] then fallback else join [c_nl] (hook_messages result))"

definition merge_hook_feedback :: "rstring list \<Rightarrow> rstring \<Rightarrow> bool \<Rightarrow> rstring" where
  "merge_hook_feedback ms out is_error =
     (if ms = [] then out
      else join [c_nl, c_nl]
        ((if trim out \<noteq> [] then [out] else []) @
         [(if is_error then lit ''Hook feedback (error)'' else lit ''Hook feedback'') @ lit '':'' @ [c_nl] @ join [c_nl] ms]))"

section \<open>One tool use\<close>

definition trace :: "trace_event \<Rightarrow> 'w runtime \<Rightarrow> 'w runtime" where
  "trace e rt = rt\<lparr>session_trace := map_option (\<lambda>t. t @ [e]) (session_trace rt)\<rparr>"

definition report :: "hook_progress_event list \<Rightarrow> 'w runtime \<Rightarrow> 'w runtime" where
  "report es rt = rt\<lparr>hook_progress := map_option (\<lambda>t. t @ es) (hook_progress rt)\<rparr>"

definition run_pre_hook :: "'w env \<Rightarrow> rstring \<Rightarrow> rstring \<Rightarrow> 'w runtime \<Rightarrow> hook_run_result \<times> 'w runtime" where
  "run_pre_hook env tool inp rt =
     (let (result, events, w) = run_pre_tool_use (hook_world env) (hook_runner rt) tool inp (rt_world rt)
      in (result, report events (rt\<lparr>rt_world := w\<rparr>)))"

definition run_post_hook :: "'w env \<Rightarrow> rstring \<Rightarrow> rstring \<Rightarrow> rstring \<Rightarrow> bool \<Rightarrow> 'w runtime \<Rightarrow> hook_run_result \<times> 'w runtime" where
  "run_post_hook env tool inp out is_error rt =
     (let (result, events, w) =
        (if is_error then run_post_tool_use_failure (hook_world env) (hook_runner rt) tool inp out (rt_world rt)
         else run_post_tool_use (hook_world env) (hook_runner rt) tool inp out False (rt_world rt))
      in (result, report events (rt\<lparr>rt_world := w\<rparr>)))"

definition effective_input :: "hook_run_result \<Rightarrow> rstring \<Rightarrow> rstring" where
  "effective_input pre inp = (case updated_input pre of Some v \<Rightarrow> v | None \<Rightarrow> inp)"

definition tool_permission :: "'w env \<Rightarrow> bool \<Rightarrow> hook_run_result \<Rightarrow> rstring \<Rightarrow> rstring \<Rightarrow> 'w runtime \<Rightarrow>
    permission_outcome \<times> 'w runtime" where
  "tool_permission env prompting pre tool effective rt =
     (if cancelled pre then (Outcome_Deny (format_hook_message pre
          (lit ''PreToolUse hook cancelled tool `'' @ tool @ lit ''`'')), rt)
      else if failed pre then (Outcome_Deny (format_hook_message pre
          (lit ''PreToolUse hook failed for tool `'' @ tool @ lit ''`'')), rt)
      else if denied pre then (Outcome_Deny (format_hook_message pre
          (lit ''PreToolUse hook denied tool `'' @ tool @ lit ''`'')), rt)
      else
        (let ctx = \<lparr>override_decision = hook_override pre, override_reason = hook_reason pre\<rparr>;
             prompter = (if prompting then Some (\<lambda>q. fst (prompt_decide env (rt_world rt) q)) else None);
             (outcome, requests) = authorize_with_context (permission_serde env) (permission_policy rt) tool effective ctx prompter
         in (outcome, rt\<lparr>rt_world := fold (\<lambda>q w. snd (prompt_decide env w q)) requests (rt_world rt)\<rparr>)))"

definition hook_objects :: "hook_run_result \<Rightarrow> bool" where
  "hook_objects post \<longleftrightarrow> denied post \<or> failed post \<or> cancelled post"

definition execute_tool :: "'w env \<Rightarrow> nat \<Rightarrow> hook_run_result \<Rightarrow> rstring \<Rightarrow> rstring \<Rightarrow> rstring \<Rightarrow> 'w runtime \<Rightarrow>
    conversation_message \<times> 'w runtime" where
  "execute_tool env iteration pre i tool effective rt =
     (let rt1 = trace (Tool_Execution_Started iteration tool) rt;
          (executed, w) = tool_execute env (rt_world rt1) tool effective;
          (out, is_error) = (case executed of Inr out \<Rightarrow> (out, False) | Inl e \<Rightarrow> (show_tool_error e, True));
          out1 = merge_hook_feedback (hook_messages pre) out False;
          (post, rt2) = run_post_hook env tool effective out1 is_error (rt1\<lparr>rt_world := w\<rparr>);
          out2 = merge_hook_feedback (hook_messages post) out1 (hook_objects post)
      in (tool_result i tool out2 (is_error \<or> hook_objects post), rt2))"

definition run_tool_use :: "'w env \<Rightarrow> bool \<Rightarrow> nat \<Rightarrow> rstring \<times> rstring \<times> rstring \<Rightarrow> 'w runtime \<Rightarrow>
    conversation_message \<times> 'w runtime" where
  "run_tool_use env prompting iteration tool_use rt =
     (let (i, tool, inp) = tool_use;
          (pre, rt1) = run_pre_hook env tool inp rt;
          effective = effective_input pre inp;
          (outcome, rt2) = tool_permission env prompting pre tool effective rt1
      in case outcome of
           Outcome_Allow \<Rightarrow> execute_tool env iteration pre i tool effective rt2
         | Outcome_Deny reason \<Rightarrow>
             (tool_result i tool (merge_hook_feedback (hook_messages pre) reason True) True, rt2))"

section \<open>Turns\<close>

text \<open>\<^verbatim>\<open>session.push_message(...)\<close>: an error of the file system takes the message back, as every error does.\<close>

definition push :: "'w env \<Rightarrow> conversation_message \<Rightarrow> 'w runtime \<Rightarrow> (runtime_error + unit) \<times> 'w runtime" where
  "push env m rt =
     (let (now, w) = current_time_millis env (rt_world rt);
          (r, s, contents) = (case (persistence (rt_session rt), file_error env w) of
              (Some path, Some e) \<Rightarrow> (Inl e, touch now (rt_session rt), rt_file rt)
            | _ \<Rightarrow> push_message now m (rt_session rt, rt_file rt))
      in (case r of Inl e \<Rightarrow> Inl (RuntimeError (show_session_error e)) | Inr u \<Rightarrow> Inr u,
          rt\<lparr>rt_world := w, rt_session := s, rt_file := contents\<rparr>))"

definition trace_finished :: "nat \<Rightarrow> conversation_message \<Rightarrow> 'w runtime \<Rightarrow> 'w runtime" where
  "trace_finished iteration m rt = (case msg_blocks m of
     Block_ToolResult i n out is_error # _ \<Rightarrow> trace (Tool_Execution_Finished iteration n is_error) rt
   | _ \<Rightarrow> rt)"

fun run_tool_uses :: "'w env \<Rightarrow> bool \<Rightarrow> nat \<Rightarrow> (rstring \<times> rstring \<times> rstring) list \<Rightarrow> 'w runtime \<Rightarrow>
    (runtime_error + conversation_message list) \<times> 'w runtime" where
  "run_tool_uses env prompting iteration [] rt = (Inr [], rt)"
| "run_tool_uses env prompting iteration (tool_use # rest) rt =
     (let (m, rt1) = run_tool_use env prompting iteration tool_use rt;
          (pushed, rt2) = push env m rt1
      in case pushed of
           Inl e \<Rightarrow> (Inl e, rt2)
         | Inr u \<Rightarrow>
             (case run_tool_uses env prompting iteration rest (trace_finished iteration m rt2) of
                (Inl e, rt3) \<Rightarrow> (Inl e, rt3)
              | (Inr ms, rt3) \<Rightarrow> (Inr (m # ms), rt3)))"

definition turn_failed :: "nat \<Rightarrow> runtime_error \<Rightarrow> 'w runtime \<Rightarrow> (runtime_error + 'a) \<times> 'w runtime" where
  "turn_failed iteration e rt = (Inl e, trace (Turn_Failed iteration (show_runtime_error e)) rt)"

definition record_usage :: "token_usage option \<Rightarrow> 'w runtime \<Rightarrow> 'w runtime" where
  "record_usage usage rt = (case usage of None \<Rightarrow> rt | Some u \<Rightarrow> rt\<lparr>usage_tracker := tracker_record u (usage_tracker rt)\<rparr>)"

text \<open>One pass of the loop: the assistant message, the results of its tool uses and the events of the cache.\<close>

definition turn_iteration :: "'w env \<Rightarrow> bool \<Rightarrow> nat \<Rightarrow> 'w runtime \<Rightarrow>
    (runtime_error + (conversation_message \<times> conversation_message list \<times> prompt_cache_event list)) \<times> 'w runtime" where
  "turn_iteration env prompting iteration rt =
     (let request = \<lparr>request_system_prompt = system_prompt rt, request_messages = messages (rt_session rt)\<rparr>;
          (streamed, w) = api_stream env (rt_world rt) request; rt1 = rt\<lparr>rt_world := w\<rparr>
      in case streamed of
           Inl e \<Rightarrow> turn_failed iteration e rt1
         | Inr events \<Rightarrow>
             (case build_assistant_message events of
                Inl e \<Rightarrow> turn_failed iteration e rt1
              | Inr (assistant, usage, cache) \<Rightarrow>
                  (let pending = pending_tool_uses assistant;
                       rt2 = trace (Assistant_Iteration_Completed iteration (length (msg_blocks assistant)) (length pending))
                         (record_usage usage rt1);
                       (pushed, rt3) = push env assistant rt2
                   in case pushed of
                        Inl e \<Rightarrow> (Inl e, rt3)
                      | Inr u \<Rightarrow>
                          (case run_tool_uses env prompting iteration pending rt3 of
                             (Inl e, rt4) \<Rightarrow> (Inl e, rt4)
                           | (Inr results, rt4) \<Rightarrow> (Inr (assistant, results, cache), rt4)))))"

text \<open>The loop; \<open>limit\<close> is \<^verbatim>\<open>self.max_iterations\<close>, which nothing changes, and \<open>done_before\<close> the number of passes so far.\<close>

function turn_loop :: "'w env \<Rightarrow> bool \<Rightarrow> nat \<Rightarrow> nat \<Rightarrow> turn_summary \<Rightarrow> 'w runtime \<Rightarrow>
    (runtime_error + turn_summary) \<times> 'w runtime" where
  "turn_loop env prompting limit done_before acc rt =
     (let iteration = done_before + 1
      in if iteration > limit then
           turn_failed iteration (RuntimeError (lit ''conversation loop exceeded the maximum number of iterations'')) rt
         else (case turn_iteration env prompting iteration rt of
             (Inl e, rt1) \<Rightarrow> (Inl e, rt1)
           | (Inr (assistant, results, cache), rt1) \<Rightarrow>
               (let acc1 = acc\<lparr>assistant_messages := assistant_messages acc @ [assistant],
                      tool_results := tool_results acc @ results,
                      prompt_cache_events := prompt_cache_events acc @ cache, iterations := iteration\<rparr>
                in if pending_tool_uses assistant = [] then (Inr acc1, rt1)
                   else turn_loop env prompting limit iteration acc1 rt1)))"
  by pat_completeness auto
termination
  by (relation "measure (\<lambda>(env, prompting, limit, done_before, acc, rt). limit - done_before)") auto

declare turn_loop.simps [simp del]

definition maybe_auto_compact :: "'w env \<Rightarrow> 'w runtime \<Rightarrow> nat option \<times> 'w runtime" where
  "maybe_auto_compact env rt =
     (if input_tokens (cumulative (usage_tracker rt)) < compaction_threshold rt then (None, rt)
      else
        (let (now, w) = current_time_millis env (rt_world rt);
             result = compact_session now (rt_session rt) (default_compaction_config\<lparr>max_estimated_tokens := 0\<rparr>)
         in if result_removed result = 0 then (None, rt)
            else (Some (result_removed result),
                  rt\<lparr>rt_world := w, rt_session := compacted_session result\<rparr>)))"

definition summary_empty :: turn_summary where
  "summary_empty = \<lparr>assistant_messages = [], tool_results = [], prompt_cache_events = [], iterations = 0,
     turn_usage = usage_zero, auto_compaction = None\<rparr>"

definition run_turn :: "'w env \<Rightarrow> bool \<Rightarrow> rstring \<Rightarrow> 'w runtime \<Rightarrow> (runtime_error + turn_summary) \<times> 'w runtime" where
  "run_turn env prompting user_input rt =
     (let rt1 = trace (Turn_Started user_input) rt; (pushed, rt2) = push env (user_text user_input) rt1
      in case pushed of
           Inl e \<Rightarrow> (Inl e, rt2)
         | Inr u \<Rightarrow>
             (case turn_loop env prompting (max_iterations rt2) 0 summary_empty rt2 of
                (Inl e, rt3) \<Rightarrow> (Inl e, rt3)
              | (Inr acc, rt3) \<Rightarrow>
                  (let (compacted, rt4) = maybe_auto_compact env rt3;
                       summary = acc\<lparr>turn_usage := cumulative (usage_tracker rt4), auto_compaction := compacted\<rparr>
                   in (Inr summary, trace (Turn_Completed (iterations summary) (length (assistant_messages summary))
                        (length (tool_results summary)) (length (prompt_cache_events summary))) rt4))))"

section \<open>The static tool executor\<close>

type_synonym 'w tool_handlers = "rstring \<Rightarrow> ('w \<Rightarrow> rstring \<Rightarrow> (tool_error + rstring) \<times> 'w) option"

definition register_tool :: "rstring \<Rightarrow> ('w \<Rightarrow> rstring \<Rightarrow> (tool_error + rstring) \<times> 'w) \<Rightarrow> 'w tool_handlers \<Rightarrow> 'w tool_handlers" where
  "register_tool tool handler handlers = handlers(tool \<mapsto> handler)"

definition static_execute :: "'w tool_handlers \<Rightarrow> 'w \<Rightarrow> rstring \<Rightarrow> rstring \<Rightarrow> (tool_error + rstring) \<times> 'w" where
  "static_execute handlers w tool inp = (case handlers tool of
     None \<Rightarrow> (Inl (ToolError (lit ''unknown tool: '' @ tool)), w)
   | Some handler \<Rightarrow> handler w inp)"

section \<open>What an operation leaves alone\<close>

lemma trace_simps [simp]:
  "rt_session (trace e rt) = rt_session rt" "rt_world (trace e rt) = rt_world rt"
  "permission_policy (trace e rt) = permission_policy rt" "hook_runner (trace e rt) = hook_runner rt"
  "usage_tracker (trace e rt) = usage_tracker rt" "compaction_threshold (trace e rt) = compaction_threshold rt"
  by (simp_all add: trace_def)

lemma report_simps [simp]:
  "rt_session (report es rt) = rt_session rt" "rt_world (report es rt) = rt_world rt"
  "permission_policy (report es rt) = permission_policy rt" "hook_runner (report es rt) = hook_runner rt"
  "usage_tracker (report es rt) = usage_tracker rt" "compaction_threshold (report es rt) = compaction_threshold rt"
  by (simp_all add: report_def)

lemma record_usage_simps [simp]:
  "rt_session (record_usage u rt) = rt_session rt" "rt_world (record_usage u rt) = rt_world rt"
  "permission_policy (record_usage u rt) = permission_policy rt" "hook_runner (record_usage u rt) = hook_runner rt"
  "compaction_threshold (record_usage u rt) = compaction_threshold rt"
  by (simp_all add: record_usage_def split: option.split)

text \<open>Two runtimes that may differ in the world, the session and what was recorded, not in the settings.\<close>

definition same_settings :: "'w runtime \<Rightarrow> 'w runtime \<Rightarrow> bool" where
  "same_settings a b \<longleftrightarrow> permission_policy a = permission_policy b \<and> system_prompt a = system_prompt b \<and>
     max_iterations a = max_iterations b \<and> hook_runner a = hook_runner b \<and>
     compaction_threshold a = compaction_threshold b"

lemma same_settings_refl [simp]: "same_settings a a"
  by (simp add: same_settings_def)

lemma same_settings_trans: "same_settings a b \<Longrightarrow> same_settings b c \<Longrightarrow> same_settings a c"
  by (simp add: same_settings_def)

lemma same_settings_steps [simp]:
  "same_settings rt (trace e rt)" "same_settings rt (report es rt)" "same_settings rt (record_usage u rt)"
  "same_settings rt (rt\<lparr>rt_world := w\<rparr>)"
  by (simp_all add: same_settings_def trace_def report_def record_usage_def split: option.split)

text \<open>A quiet step: neither the session nor the settings change.\<close>

definition quiet :: "'w runtime \<Rightarrow> 'w runtime \<Rightarrow> bool" where
  "quiet a b \<longleftrightarrow> rt_session b = rt_session a \<and> same_settings a b"

lemma quiet_trans: "quiet a b \<Longrightarrow> quiet b c \<Longrightarrow> quiet a c"
  using same_settings_trans by (auto simp: quiet_def)

lemma quiet_steps [simp]:
  "quiet a a" "quiet a (trace e a)" "quiet a (report es a)" "quiet a (record_usage u a)" "quiet a (a\<lparr>rt_world := w\<rparr>)"
  by (simp_all add: quiet_def)

lemma quiet_world: "quiet a b \<Longrightarrow> quiet a (b\<lparr>rt_world := w\<rparr>)"
  by (erule quiet_trans) simp

lemma quiet_report: "quiet a b \<Longrightarrow> quiet a (report es b)"
  by (erule quiet_trans) simp

lemma quiet_pre_hook: "run_pre_hook env tool inp rt = (pre, rt') \<Longrightarrow> quiet rt rt'"
  by (auto simp: run_pre_hook_def split_beta intro: quiet_report quiet_steps)

lemma quiet_post_hook: "run_post_hook env tool inp out is_error rt = (post, rt') \<Longrightarrow> quiet rt rt'"
  by (auto simp: run_post_hook_def split_beta Let_def intro: quiet_report quiet_steps)

lemma quiet_permission: "tool_permission env prompting pre tool effective rt = (outcome, rt') \<Longrightarrow> quiet rt rt'"
  by (auto simp: tool_permission_def Let_def split_beta split: if_splits)

lemma execute_tool_quiet:
  assumes "execute_tool env iteration pre i tool effective rt = (m, rt')"
  shows "quiet rt rt' \<and> (\<exists>out is_error. m = tool_result i tool out is_error)"
proof -
  let ?rt1 = "trace (Tool_Execution_Started iteration tool) rt"
  obtain executed w where ex: "tool_execute env (rt_world rt) tool effective = (executed, w)" by force
  obtain out is_error where out: "(case executed of Inr out \<Rightarrow> (out, False) | Inl e \<Rightarrow> (show_tool_error e, True)) = (out, is_error)"
    by force
  obtain post rt2 where post: "run_post_hook env tool effective (merge_hook_feedback (hook_messages pre) out False)
      is_error (?rt1\<lparr>rt_world := w\<rparr>) = (post, rt2)" by force
  have "quiet rt (?rt1\<lparr>rt_world := w\<rparr>)" by (simp add: quiet_world)
  then have "quiet rt rt2" using quiet_trans quiet_post_hook [OF post] by blast
  then show ?thesis using assms by (auto simp: execute_tool_def Let_def ex out post)
qed

text \<open>Whatever the hooks, the permission and the tool do, a tool use is answered by one result of its id and name.\<close>

lemma run_tool_use_quiet:
  assumes "run_tool_use env prompting iteration (i, tool, inp) rt = (m, rt')"
  shows "quiet rt rt' \<and> (\<exists>out is_error. m = tool_result i tool out is_error)"
proof -
  obtain pre rt1 where pre: "run_pre_hook env tool inp rt = (pre, rt1)" by force
  obtain outcome rt2 where perm: "tool_permission env prompting pre tool (effective_input pre inp) rt1 = (outcome, rt2)"
    by force
  have q: "quiet rt rt2" using quiet_trans quiet_pre_hook [OF pre] quiet_permission [OF perm] by blast
  show ?thesis
  proof (cases outcome)
    case Outcome_Allow
    then have "execute_tool env iteration pre i tool (effective_input pre inp) rt2 = (m, rt')"
      using assms by (simp add: run_tool_use_def pre perm)
    then show ?thesis using execute_tool_quiet quiet_trans [OF q] by blast
  next
    case (Outcome_Deny reason)
    then show ?thesis using assms q by (auto simp: run_tool_use_def pre perm)
  qed
qed

section \<open>Pushing\<close>

lemma push_message_messages:
  assumes "push_message now m (s, contents) = (r, s', contents')"
  shows "messages s' = (case r of Inl e \<Rightarrow> messages s | Inr u \<Rightarrow> messages s @ [m])"
  using assms by (auto simp: push_message_def Let_def touch_def split_beta split: sum.splits prod.splits)

lemma push_effect:
  assumes "push env m rt = (pushed, rt')"
  shows "messages (rt_session rt') = (case pushed of Inl e \<Rightarrow> messages (rt_session rt) | Inr u \<Rightarrow> messages (rt_session rt) @ [m])"
    and "same_settings rt rt'"
    and "usage_tracker rt' = usage_tracker rt"
proof -
  obtain now w where clock: "current_time_millis env (rt_world rt) = (now, w)" by force
  obtain r s contents where step: "(case (persistence (rt_session rt), file_error env w) of
        (Some path, Some e) \<Rightarrow> (Inl e, touch now (rt_session rt), rt_file rt)
      | _ \<Rightarrow> push_message now m (rt_session rt, rt_file rt)) = (r, s, contents)" by (metis prod_cases3)
  have "messages s = (case r of Inl e \<Rightarrow> messages (rt_session rt) | Inr u \<Rightarrow> messages (rt_session rt) @ [m])"
    using step push_message_messages [of now m "rt_session rt" "rt_file rt"]
    by (auto simp: touch_def split: option.splits)
  moreover have res: "push env m rt = (case r of Inl e \<Rightarrow> Inl (RuntimeError (show_session_error e)) | Inr u \<Rightarrow> Inr u,
      rt\<lparr>rt_world := w, rt_session := s, rt_file := contents\<rparr>)"
    using step by (simp only: push_def clock Let_def prod.case)
  ultimately show "messages (rt_session rt') = (case pushed of Inl e \<Rightarrow> messages (rt_session rt) | Inr u \<Rightarrow> messages (rt_session rt) @ [m])"
    using assms by (auto split: sum.splits)
  show "same_settings rt rt'" "usage_tracker rt' = usage_tracker rt" using assms res by (auto simp: same_settings_def)
qed

lemma push_failed: "push env m rt = (Inl e, rt') \<Longrightarrow> messages (rt_session rt') = messages (rt_session rt)"
  using push_effect(1) by fastforce

lemma push_done: "push env m rt = (Inr u, rt') \<Longrightarrow> messages (rt_session rt') = messages (rt_session rt) @ [m]"
  using push_effect(1) by fastforce

section \<open>The transcript of a turn\<close>

text \<open>A message that answers a tool use.\<close>

definition answers :: "rstring \<times> rstring \<times> rstring \<Rightarrow> conversation_message \<Rightarrow> bool" where
  "answers tool_use m \<longleftrightarrow> (case tool_use of (i, tool, inp) \<Rightarrow>
     msg_role m = Role_Tool \<and> msg_usage m = None \<and> (case msg_blocks m of
       [Block_ToolResult j n out is_error] \<Rightarrow> j = i \<and> n = tool | _ \<Rightarrow> False))"

lemma answers_tool_result [simp]: "answers (i, tool, inp) (tool_result i tool out is_error)"
  by (simp add: answers_def tool_result_def)

text \<open>The answers to the first tool uses of a list, in order, and to all of them.\<close>

definition answered_so_far :: "(rstring \<times> rstring \<times> rstring) list \<Rightarrow> conversation_message list \<Rightarrow> bool" where
  "answered_so_far uses ms \<longleftrightarrow> length ms \<le> length uses \<and> list_all2 answers (take (length ms) uses) ms"

text \<open>
  A round is an assistant message that the model streamed (text and tool uses, not empty) and the results of its tool uses.  A turn is a
  list of rounds; all but the last have tool uses, and the last has none.\<close>

type_synonym round = "conversation_message \<times> conversation_message list"

definition spoken :: "conversation_message \<Rightarrow> bool" where
  "spoken m \<longleftrightarrow> msg_role m = Role_Assistant \<and> msg_blocks m \<noteq> [] \<and>
     list_all (\<lambda>b. case b of Block_ToolResult i n out is_error \<Rightarrow> False | _ \<Rightarrow> True) (msg_blocks m)"

definition round_ok :: "round \<Rightarrow> bool" where
  "round_ok r \<longleftrightarrow> spoken (fst r) \<and>
     list_all2 answers (pending_tool_uses (fst r)) (snd r)"

definition rounds_messages :: "round list \<Rightarrow> conversation_message list" where
  "rounds_messages rounds = concat (map (\<lambda>r. fst r # snd r) rounds)"

lemma rounds_messages_simps [simp]:
  "rounds_messages [] = []" "rounds_messages (r # rs) = fst r # snd r @ rounds_messages rs"
  "rounds_messages (rs @ rs') = rounds_messages rs @ rounds_messages rs'"
  by (simp_all add: rounds_messages_def)

lemma trace_finished_quiet: "quiet rt (trace_finished iteration m rt)"
  by (simp add: trace_finished_def split: list.split content_block.split)

lemma run_tool_uses_effect:
  assumes "run_tool_uses env prompting iteration uses rt = (res, rt')"
  shows "same_settings rt rt' \<and> (\<exists>ms. messages (rt_session rt') = messages (rt_session rt) @ ms \<and>
    (case res of Inl e \<Rightarrow> answered_so_far uses ms | Inr results \<Rightarrow> ms = results \<and> list_all2 answers uses results))"
  using assms
proof (induction uses arbitrary: rt res rt')
  case Nil
  then show ?case by auto
next
  case (Cons tool_use rest)
  obtain i tool inp where tu: "tool_use = (i, tool, inp)" by (cases tool_use)
  obtain m rt1 where run: "run_tool_use env prompting iteration tool_use rt = (m, rt1)" by force
  obtain pushed rt2 where p: "push env m rt1 = (pushed, rt2)" by force
  have q: "rt_session rt1 = rt_session rt" "same_settings rt rt1" and ans: "answers tool_use m"
    using run_tool_use_quiet [OF run [unfolded tu]] by (auto simp: quiet_def tu)
  have s2: "same_settings rt rt2" using push_effect(2) [OF p] q(2) same_settings_trans by blast
  show ?case
  proof (cases pushed)
    case (Inl e)
    then have "res = Inl e" "rt' = rt2" using Cons.prems by (simp_all add: run p)
    moreover have "messages (rt_session rt2) = messages (rt_session rt)" using push_failed p q(1) Inl by metis
    ultimately show ?thesis using s2 by (auto simp: answered_so_far_def intro: exI [of _ "[]"])
  next
    case (Inr u)
    let ?rt3 = "trace_finished iteration m rt2"
    obtain r rt4 where rest: "run_tool_uses env prompting iteration rest ?rt3 = (r, rt4)" by force
    have m2: "messages (rt_session ?rt3) = messages (rt_session rt) @ [m]"
      using push_done [of env m rt1 u rt2] p Inr q(1) trace_finished_quiet [of rt2 iteration m]
      by (simp add: quiet_def)
    have s3: "same_settings rt ?rt3"
      using s2 trace_finished_quiet [of rt2 iteration m] same_settings_trans by (auto simp: quiet_def)
    from Cons.IH [OF rest] obtain ms where ms: "same_settings ?rt3 rt4"
        "messages (rt_session rt4) = messages (rt_session ?rt3) @ ms"
        "case r of Inl e \<Rightarrow> answered_so_far rest ms | Inr results \<Rightarrow> ms = results \<and> list_all2 answers rest results"
      by blast
    have "rt' = rt4" "res = (case r of Inl e \<Rightarrow> Inl e | Inr results \<Rightarrow> Inr (m # results))"
      using Cons.prems by (auto simp: run p Inr rest split: sum.splits)
    then show ?thesis using ms m2 s3 same_settings_trans ans
      by (intro conjI exI [of _ "m # ms"]) (auto simp: answered_so_far_def split: sum.splits)
  qed
qed

lemma build_events_blocks:
  "list_all (\<lambda>b. case b of Block_ToolResult i n out is_error \<Rightarrow> False | _ \<Rightarrow> True) (build_blocks st) \<Longrightarrow>
   list_all (\<lambda>b. case b of Block_ToolResult i n out is_error \<Rightarrow> False | _ \<Rightarrow> True) (build_blocks (foldl build_event st events))"
proof (induction events arbitrary: st)
  case (Cons e events)
  have "list_all (\<lambda>b. case b of Block_ToolResult i n out is_error \<Rightarrow> False | _ \<Rightarrow> True) (build_blocks (build_event st e))"
    using Cons.prems by (cases e) (auto simp: Let_def flush_text_block_def)
  then show ?case using Cons.IH by simp
qed simp

lemma build_assistant_message_shape:
  "build_assistant_message events = Inr (a, u, c) \<Longrightarrow> spoken a \<and> msg_usage a = u"
  using build_events_blocks [of build_empty events]
  by (auto simp: build_assistant_message_def Let_def spoken_def flush_text_block_def build_empty_def split: if_splits)

text \<open>What a failed pass of the loop may leave: nothing, or an assistant message and its first results.\<close>

definition partial_round :: "conversation_message list \<Rightarrow> bool" where
  "partial_round ms \<longleftrightarrow> (case ms of [] \<Rightarrow> True
     | a # rs \<Rightarrow> spoken a \<and> answered_so_far (pending_tool_uses a) rs)"

lemma turn_failed_eq: "turn_failed k e rt = (res, rt') \<Longrightarrow> res = Inl e \<and> quiet rt rt'"
  by (auto simp: turn_failed_def)

lemma turn_iteration_effect:
  assumes "turn_iteration env prompting k rt = (res, rt')"
  shows "same_settings rt rt' \<and> (\<exists>ms. messages (rt_session rt') = messages (rt_session rt) @ ms \<and>
    (case res of Inl e \<Rightarrow> partial_round ms | Inr (a, rs, cache) \<Rightarrow> ms = a # rs \<and> round_ok (a, rs)))"
proof -
  obtain streamed w where st: "api_stream env (rt_world rt)
      \<lparr>request_system_prompt = system_prompt rt, request_messages = messages (rt_session rt)\<rparr> = (streamed, w)" by force
  let ?rt1 = "rt\<lparr>rt_world := w\<rparr>"
  have failed: "same_settings rt rt' \<and> (\<exists>ms. messages (rt_session rt') = messages (rt_session rt) @ ms \<and>
      (case res of Inl e \<Rightarrow> partial_round ms | Inr (a, rs, cache) \<Rightarrow> ms = a # rs \<and> round_ok (a, rs)))"
    if "turn_failed k e ?rt1 = (res, rt')" for e
    using turn_failed_eq [OF that] quiet_trans [OF quiet_steps(5) [of rt w]]
    by (intro conjI exI [of _ "[]"]) (auto simp: quiet_def partial_round_def)
  show ?thesis
  proof (cases streamed)
    case (Inl e)
    then have "turn_failed k e ?rt1 = (res, rt')" using assms by (simp add: turn_iteration_def st)
    then show ?thesis by (rule failed)
  next
    case (Inr events)
    show ?thesis
    proof (cases "build_assistant_message events")
      case (Inl e)
      then have "turn_failed k e ?rt1 = (res, rt')" using assms Inr by (simp add: turn_iteration_def st)
      then show ?thesis by (rule failed)
    next
      case built: (Inr b)
      obtain a usage cache where b: "b = (a, usage, cache)" by (cases b)
      let ?rt2 = "trace (Assistant_Iteration_Completed k (length (msg_blocks a)) (length (pending_tool_uses a))) (record_usage usage ?rt1)"
      obtain pushed rt3 where p: "push env a ?rt2 = (pushed, rt3)" by force
      have a: "spoken a"
        using build_assistant_message_shape built b by blast+
      have "quiet rt ?rt2"
        by (rule quiet_trans [OF quiet_steps(5) quiet_trans [OF quiet_steps(4) quiet_steps(2)]])
      then have s2: "messages (rt_session ?rt2) = messages (rt_session rt)" "same_settings rt rt3"
        using push_effect(2) [OF p] same_settings_trans by (auto simp: quiet_def)
      show ?thesis
      proof (cases pushed)
        case (Inl e)
        then have "res = Inl e" "rt' = rt3" using assms Inr by (simp_all add: turn_iteration_def st built b p Let_def)
        then show ?thesis using s2 push_failed [of env a ?rt2 e rt3] p Inl by (auto simp: partial_round_def)
      next
        case pushed: (Inr u)
        obtain r rt4 where uses: "run_tool_uses env prompting k (pending_tool_uses a) rt3 = (r, rt4)" by force
        have res: "rt' = rt4" "res = (case r of Inl e \<Rightarrow> Inl e | Inr rs \<Rightarrow> Inr (a, rs, cache))"
          using assms Inr by (auto simp: turn_iteration_def st built b p Let_def pushed uses split: sum.splits)
        have m3: "messages (rt_session rt3) = messages (rt_session rt) @ [a]"
          using s2(1) push_done [of env a ?rt2 u rt3] p pushed by simp
        from run_tool_uses_effect [OF uses] obtain ms where ms: "same_settings rt3 rt4"
          "messages (rt_session rt4) = messages (rt_session rt3) @ ms"
          "case r of Inl e \<Rightarrow> answered_so_far (pending_tool_uses a) ms
           | Inr rs \<Rightarrow> ms = rs \<and> list_all2 answers (pending_tool_uses a) rs" by blast
        then show ?thesis using s2(2) m3 a res same_settings_trans [OF s2(2) ms(1)]
          by (intro conjI exI [of _ "a # ms"]) (auto simp: partial_round_def round_ok_def split: sum.splits)
      qed
    qed
  qed
qed

definition has_tool_uses :: "round \<Rightarrow> bool" where
  "has_tool_uses r \<longleftrightarrow> pending_tool_uses (fst r) \<noteq> []"

lemma turn_loop_effect:
  assumes "turn_loop env prompting limit k acc rt = (res, rt')"
  shows "same_settings rt rt' \<and> (\<exists>rounds rest.
    messages (rt_session rt') = messages (rt_session rt) @ rounds_messages rounds @ rest \<and> list_all round_ok rounds \<and>
    (case res of
       Inl e \<Rightarrow> partial_round rest \<and> list_all has_tool_uses rounds
     | Inr acc' \<Rightarrow> rest = [] \<and> rounds \<noteq> [] \<and> list_all has_tool_uses (butlast rounds) \<and> \<not> has_tool_uses (last rounds) \<and>
         assistant_messages acc' = assistant_messages acc @ map fst rounds \<and>
         tool_results acc' = tool_results acc @ concat (map snd rounds) \<and>
         iterations acc' = k + length rounds \<and> k + length rounds \<le> limit))"
  using assms
proof (induction env prompting limit k acc rt arbitrary: res rt' rule: turn_loop.induct)
  case (1 env prompting limit k acc rt)
  show ?case
  proof (cases "k + 1 > limit")
    case True
    have "turn_failed (k + 1) (RuntimeError (lit ''conversation loop exceeded the maximum number of iterations'')) rt = (res, rt')"
      using 1(2) True by (subst (asm) turn_loop.simps) (simp add: Let_def)
    then have "quiet rt rt'" "\<exists>e. res = Inl e" by (auto simp: turn_failed_def)
    then show ?thesis
      by (intro conjI exI [of _ "[]"] exI [of _ "[]"]) (auto simp: quiet_def partial_round_def)
  next
    case False
    obtain r rt1 where it: "turn_iteration env prompting (k + 1) rt = (r, rt1)" by force
    from turn_iteration_effect [OF it] obtain ms where ms: "same_settings rt rt1"
      "messages (rt_session rt1) = messages (rt_session rt) @ ms"
      "case r of Inl e \<Rightarrow> partial_round ms | Inr (a, rs, cache) \<Rightarrow> ms = a # rs \<and> round_ok (a, rs)" by blast
    show ?thesis
    proof (cases r)
      case (Inl e)
      then have "res = Inl e" "rt' = rt1" using 1(2) False it by (simp_all add: turn_loop.simps [of env prompting limit k] Let_def)
      then show ?thesis using ms Inl by (intro conjI exI [of _ "[]"] exI [of _ ms]) auto
    next
      case (Inr x)
      obtain a rs cache where x: "x = (a, rs, cache)" by (cases x)
      let ?acc = "acc\<lparr>assistant_messages := assistant_messages acc @ [a], tool_results := tool_results acc @ rs,
          prompt_cache_events := prompt_cache_events acc @ cache, iterations := k + 1\<rparr>"
      have round: "ms = a # rs" "round_ok (a, rs)" using ms(3) Inr x by auto
      show ?thesis
      proof (cases "pending_tool_uses a = []")
        case True
        then have "res = Inr ?acc" "rt' = rt1"
          using 1(2) False it Inr x by (simp_all add: turn_loop.simps [of env prompting limit k] Let_def)
        then show ?thesis using ms(1,2) round True False
          by (intro conjI exI [of _ "[(a, rs)]"] exI [of _ "[]"]) (auto simp: has_tool_uses_def)
      next
        case more: False
        then have "turn_loop env prompting limit (k + 1) ?acc rt1 = (res, rt')"
          using 1(2) False it Inr x by (simp add: turn_loop.simps [of env prompting limit k] Let_def)
        from 1(1) [OF refl False it [symmetric] Inr x [symmetric] refl refl more this]
        obtain rounds rest where IH: "same_settings rt1 rt'"
          "messages (rt_session rt') = messages (rt_session rt1) @ rounds_messages rounds @ rest" "list_all round_ok rounds"
          "case res of
             Inl e \<Rightarrow> partial_round rest \<and> list_all has_tool_uses rounds
           | Inr acc' \<Rightarrow> rest = [] \<and> rounds \<noteq> [] \<and> list_all has_tool_uses (butlast rounds) \<and> \<not> has_tool_uses (last rounds) \<and>
               assistant_messages acc' = assistant_messages ?acc @ map fst rounds \<and>
               tool_results acc' = tool_results ?acc @ concat (map snd rounds) \<and>
               iterations acc' = k + 1 + length rounds \<and> k + 1 + length rounds \<le> limit" by blast
        then show ?thesis using ms(1,2) round more same_settings_trans [OF ms(1) IH(1)]
          by (intro conjI exI [of _ "(a, rs) # rounds"] exI [of _ rest])
            (auto simp: has_tool_uses_def [of "(a, rs)"] split: sum.splits)
      qed
    qed
  qed
qed

section \<open>The end of a turn\<close>

lemma auto_compact_effect:
  assumes "maybe_auto_compact env rt = (n, rt')"
  shows "same_settings rt rt' \<and> usage_tracker rt' = usage_tracker rt \<and> (case n of
    None \<Rightarrow> rt' = rt
  | Some k \<Rightarrow> 0 < k \<and> compaction_threshold rt \<le> input_tokens (cumulative (usage_tracker rt)) \<and>
      length (messages (rt_session rt')) = 5 \<and> msg_role (hd (messages (rt_session rt'))) = Role_System \<and>
      tl (messages (rt_session rt')) = drop (length (messages (rt_session rt)) - 4) (messages (rt_session rt)))"
proof (cases n)
  case None
  then show ?thesis using assms by (auto simp: maybe_auto_compact_def Let_def split_beta split: if_splits)
next
  case (Some k)
  let ?config = "default_compaction_config\<lparr>max_estimated_tokens := 0\<rparr>"
  obtain now w where clock: "current_time_millis env (rt_world rt) = (now, w)" by force
  let ?r = "compact_session now (rt_session rt) ?config"
  have reached: "\<not> input_tokens (cumulative (usage_tracker rt)) < compaction_threshold rt"
    and removed: "result_removed ?r \<noteq> 0" "k = result_removed ?r"
    and rt': "rt' = rt\<lparr>rt_world := w, rt_session := compacted_session ?r\<rparr>"
    using assms Some by (auto simp: maybe_auto_compact_def clock Let_def split: if_splits)
  have should: "should_compact (rt_session rt) ?config"
    using removed(1) by (auto simp: compact_session_def split: if_splits)
  have four: "preserve_recent_messages ?config = 4" by (simp add: default_compaction_config_def)
  have len: "length (drop (length (messages (rt_session rt)) - 4) (messages (rt_session rt))) = 4"
    using compact_session_result(2) [OF should] by (simp add: four)
  have "messages (compacted_session ?r) = \<lparr>msg_role = Role_System, msg_blocks = [Block_Text (get_compact_continuation_message
      (result_summary ?r) True (4 \<noteq> (0 :: nat)))], msg_usage = None\<rparr> #
      drop (length (messages (rt_session rt)) - 4) (messages (rt_session rt))"
    using compact_session_result(5) [OF should, of now] by (simp add: four)
  then show ?thesis using Some reached removed rt' len by (simp add: same_settings_def not_less)
qed

lemma run_turn_success:
  assumes "run_turn env prompting user_input rt = (Inr summary, rt')"
  shows "\<exists>rounds. list_all round_ok rounds \<and> rounds \<noteq> [] \<and> list_all has_tool_uses (butlast rounds) \<and>
    \<not> has_tool_uses (last rounds) \<and> assistant_messages summary = map fst rounds \<and>
    tool_results summary = concat (map snd rounds) \<and> iterations summary = length rounds \<and>
    length rounds \<le> max_iterations rt \<and>
    (let all = messages (rt_session rt) @ user_text user_input # rounds_messages rounds
     in case auto_compaction summary of
          None \<Rightarrow> messages (rt_session rt') = all
        | Some n \<Rightarrow> 0 < n \<and> compaction_threshold rt \<le> input_tokens (turn_usage summary) \<and>
            length (messages (rt_session rt')) = 5 \<and> tl (messages (rt_session rt')) = drop (length all - 4) all)"
proof -
  let ?rt1 = "trace (Turn_Started user_input) rt"
  obtain pushed rt2 where p: "push env (user_text user_input) ?rt1 = (pushed, rt2)" by force
  obtain u where u: "pushed = Inr u" using assms by (cases pushed) (simp_all add: run_turn_def p Let_def)
  obtain res rt3 where loop: "turn_loop env prompting (max_iterations rt2) 0 summary_empty rt2 = (res, rt3)" by force
  obtain acc where acc: "res = Inr acc" using assms by (cases res) (simp_all add: run_turn_def p u loop Let_def)
  obtain n rt4 where c: "maybe_auto_compact env rt3 = (n, rt4)" by force
  have summary: "summary = acc\<lparr>turn_usage := cumulative (usage_tracker rt4), auto_compaction := n\<rparr>"
    and last: "rt_session rt' = rt_session rt4"
    using assms by (auto simp: run_turn_def p u loop acc c Let_def)
  have m2: "messages (rt_session rt2) = messages (rt_session rt) @ [user_text user_input]"
    using push_done p u by fastforce
  have s2: "same_settings rt rt2"
    using push_effect(2) [OF p] same_settings_trans [OF same_settings_steps(1)] by blast
  from turn_loop_effect [OF loop] obtain rounds where rounds: "same_settings rt2 rt3"
    "messages (rt_session rt3) = messages (rt_session rt2) @ rounds_messages rounds" "list_all round_ok rounds"
    "rounds \<noteq> []" "list_all has_tool_uses (butlast rounds)" "\<not> has_tool_uses (last rounds)"
    "assistant_messages acc = map fst rounds" "tool_results acc = concat (map snd rounds)"
    "iterations acc = length rounds" "length rounds \<le> max_iterations rt2"
    by (auto simp: acc summary_empty_def)
  have settings: "max_iterations rt2 = max_iterations rt" "compaction_threshold rt3 = compaction_threshold rt"
    using s2 rounds(1) by (simp_all add: same_settings_def)
  show ?thesis
    using rounds auto_compact_effect [OF c]
    by (intro exI [of _ rounds]) (auto simp: summary last settings m2 Let_def split: option.splits)
qed

lemma run_turn_failure:
  assumes "run_turn env prompting user_input rt = (Inl e, rt')"
  shows "\<exists>rounds rest added. messages (rt_session rt') = messages (rt_session rt) @ added \<and>
    (added = [] \<or> added = user_text user_input # rounds_messages rounds @ rest \<and>
       list_all round_ok rounds \<and> list_all has_tool_uses rounds \<and> partial_round rest)"
proof -
  let ?rt1 = "trace (Turn_Started user_input) rt"
  obtain pushed rt2 where p: "push env (user_text user_input) ?rt1 = (pushed, rt2)" by force
  show ?thesis
  proof (cases pushed)
    case (Inl e)
    then have "rt' = rt2" using assms by (simp add: run_turn_def p Let_def)
    then show ?thesis using push_failed [of env _ ?rt1 e rt2] p Inl by auto
  next
    case (Inr u)
    obtain res rt3 where loop: "turn_loop env prompting (max_iterations rt2) 0 summary_empty rt2 = (res, rt3)" by force
    have "res = Inl e" "rt' = rt3"
      using assms by (auto simp: run_turn_def p Inr loop Let_def split_beta split: sum.splits)
    moreover have "messages (rt_session rt2) = messages (rt_session rt) @ [user_text user_input]"
      using push_done p Inr by fastforce
    ultimately show ?thesis using turn_loop_effect [OF loop] by auto
  qed
qed

text \<open>
  C4: A turn that succeeds appends the user's text and then rounds: an assistant message of the model
  and, for each of its tool uses in order, one tool result with the same id and name.  Every round but the
  last has tool uses, the last has none; the summary lists exactly these messages and counts the rounds,
  at most the configured maximum.  When the turn ends with a compaction, the threshold was reached, and the
  session is a summary followed by the last four of all these messages.\<close>

theorem turn_transcript:
  assumes "run_turn env prompting user_input rt = (Inr summary, rt')"
  shows "\<exists>rounds. list_all round_ok rounds \<and> rounds \<noteq> [] \<and> list_all has_tool_uses (butlast rounds) \<and>
    \<not> has_tool_uses (last rounds) \<and> assistant_messages summary = map fst rounds \<and>
    tool_results summary = concat (map snd rounds) \<and> iterations summary = length rounds \<and>
    length rounds \<le> max_iterations rt \<and>
    (let all = messages (rt_session rt) @ user_text user_input # rounds_messages rounds
     in case auto_compaction summary of
          None \<Rightarrow> messages (rt_session rt') = all
        | Some n \<Rightarrow> 0 < n \<and> compaction_threshold rt \<le> input_tokens (turn_usage summary) \<and>
            length (messages (rt_session rt')) = 5 \<and> tl (messages (rt_session rt')) = drop (length all - 4) all)"
  using run_turn_success [OF assms] .

text \<open>
  C26: A turn that fails has only appended: nothing when the user's text itself could not be stored, and
  otherwise the user's text, complete rounds with tool uses, and at most the beginning of one more round.\<close>

theorem failed_turn_only_appends:
  assumes "run_turn env prompting user_input rt = (Inl e, rt')"
  shows "\<exists>rounds rest added. messages (rt_session rt') = messages (rt_session rt) @ added \<and>
    (added = [] \<or> added = user_text user_input # rounds_messages rounds @ rest \<and>
       list_all round_ok rounds \<and> list_all has_tool_uses rounds \<and> partial_round rest)"
  using run_turn_failure [OF assms] .

section \<open>Invariants of the world\<close>

lemma run_tool_use_settings: "run_tool_use env prompting k tool_use rt = (m, rt1) \<Longrightarrow> same_settings rt rt1"
  by (cases tool_use) (auto simp: quiet_def dest!: run_tool_use_quiet)

lemma turn_iteration_no_message:
  assumes "api_stream env (rt_world rt)
      \<lparr>request_system_prompt = system_prompt rt, request_messages = messages (rt_session rt)\<rparr> = (streamed, w)"
    and "turn_iteration env prompting k rt = (res, rt')"
    and "\<And>events x. streamed = Inr events \<Longrightarrow> build_assistant_message events \<noteq> Inr x"
  shows "rt_world rt' = w \<and> rt_session rt' = rt_session rt"
proof (cases streamed)
  case (Inl e)
  then show ?thesis using assms(1,2) by (auto simp: turn_iteration_def turn_failed_def)
next
  case (Inr events)
  then obtain e where "build_assistant_message events = Inl e"
    using assms(3) by (cases "build_assistant_message events") auto
  then show ?thesis using assms(1,2) Inr by (auto simp: turn_iteration_def turn_failed_def)
qed

text \<open>
  What every effect on the world keeps, a turn keeps.  The tool executor has to keep it only for the calls
  that the permission policy allowed, under the hooks and the prompter of the turn.\<close>

locale world_invariant =
  fixes env :: "'w env" and P :: "'w \<Rightarrow> bool" and policy :: permission_policy and hooks :: hook_config
    and prompting :: bool
  assumes stream_keeps: "P w \<Longrightarrow> P (snd (api_stream env w request))"
    and prompt_keeps: "P w \<Longrightarrow> P (snd (prompt_decide env w question))"
    and process_keeps: "P w \<Longrightarrow> P (snd (run_process (hook_world env) w call))"
    and clock_keeps: "P w \<Longrightarrow> P (snd (current_time_millis env w))"
    and execute_keeps: "P w \<Longrightarrow>
      fst (authorize_with_context (permission_serde env) policy tool inp ctx prompter) = Outcome_Allow \<Longrightarrow>
      (\<not> prompting \<Longrightarrow> prompter = None) \<Longrightarrow> (pre_tool_use hooks = [] \<Longrightarrow> ctx = default_context) \<Longrightarrow>
      P (snd (tool_execute env w tool inp))"
begin

lemma run_commands_loop_keeps:
  "P w \<Longrightarrow> P (snd (snd (run_commands_loop (hook_world env) event tool call commands result w)))"
proof (induction commands arbitrary: result w)
  case (Cons command rest)
  obtain execution w1 where run: "run_process (hook_world env) w (call command) = (execution, w1)" by force
  have w1: "P w1" using process_keeps [OF Cons.prems, of "call command"] by (simp add: run)
  then show ?case using Cons.IH [OF w1]
    by (simp add: run split_beta Let_def split: hook_command_outcome.split)
qed simp

lemma run_commands_keeps: "P w \<Longrightarrow> P (snd (snd (run_commands (hook_world env) event commands tool inp out is_error w)))"
  by (simp add: run_commands_def Let_def run_commands_loop_keeps)

lemma pre_hook_keeps: "run_pre_hook env tool inp rt = (pre, rt') \<Longrightarrow> P (rt_world rt) \<Longrightarrow> P (rt_world rt')"
  using run_commands_keeps by (auto simp: run_pre_hook_def run_pre_tool_use_def split_beta)

lemma post_hook_keeps: "run_post_hook env tool inp out is_error rt = (post, rt') \<Longrightarrow> P (rt_world rt) \<Longrightarrow> P (rt_world rt')"
  using run_commands_keeps
  by (auto simp: run_post_hook_def run_post_tool_use_def run_post_tool_use_failure_def split_beta Let_def)

lemma prompts_keep: "P w \<Longrightarrow> P (fold (\<lambda>q w. snd (prompt_decide env w q)) requests w)"
  by (induction requests arbitrary: w) (simp_all add: prompt_keeps)

lemma permission_keeps:
  "tool_permission env b pre tool effective rt = (outcome, rt') \<Longrightarrow> P (rt_world rt) \<Longrightarrow> P (rt_world rt')"
  by (auto simp: tool_permission_def Let_def split_beta prompts_keep split: if_splits)

lemma execute_keeps_world:
  assumes "execute_tool env k pre i tool effective rt = (m, rt')" and "P (snd (tool_execute env (rt_world rt) tool effective))"
  shows "P (rt_world rt')"
proof -
  obtain executed w where ex: "tool_execute env (rt_world rt) tool effective = (executed, w)" by force
  obtain out is_error where out: "(case executed of Inr out \<Rightarrow> (out, False) | Inl e \<Rightarrow> (show_tool_error e, True)) = (out, is_error)"
    by force
  obtain post rt2 where post: "run_post_hook env tool effective (merge_hook_feedback (hook_messages pre) out False)
      is_error ((trace (Tool_Execution_Started k tool) rt)\<lparr>rt_world := w\<rparr>) = (post, rt2)" by force
  have "rt' = rt2" using assms(1) by (auto simp: execute_tool_def Let_def ex out post)
  then show ?thesis using post_hook_keeps [OF post] assms(2) by (simp add: ex)
qed

lemma run_tool_use_keeps:
  assumes "run_tool_use env prompting k tool_use rt = (m, rt')" and "P (rt_world rt)"
    and "permission_policy rt = policy" and "hook_runner rt = hooks"
  shows "P (rt_world rt')"
proof -
  obtain i tool inp where tu: "tool_use = (i, tool, inp)" by (cases tool_use)
  obtain pre rt1 where pre: "run_pre_hook env tool inp rt = (pre, rt1)" by force
  obtain outcome rt2 where perm: "tool_permission env prompting pre tool (effective_input pre inp) rt1 = (outcome, rt2)"
    by force
  have w1: "P (rt_world rt1)" using pre_hook_keeps [OF pre assms(2)] .
  have w2: "P (rt_world rt2)" using permission_keeps [OF perm w1] .
  have policy1: "permission_policy rt1 = policy"
    using quiet_pre_hook [OF pre] assms(3) by (simp add: quiet_def same_settings_def)
  show ?thesis
  proof (cases outcome)
    case Outcome_Allow
    let ?ctx = "\<lparr>override_decision = hook_override pre, override_reason = hook_reason pre\<rparr>"
    let ?prompter = "if prompting then Some (\<lambda>q. fst (prompt_decide env (rt_world rt1) q)) else None"
    have "fst (authorize_with_context (permission_serde env) policy tool (effective_input pre inp) ?ctx ?prompter) = Outcome_Allow"
      using perm Outcome_Allow policy1 by (auto simp: tool_permission_def Let_def split_beta split: if_splits)
    moreover have "pre_tool_use hooks = [] \<Longrightarrow> ?ctx = default_context"
      using pre assms(4) by (auto simp: run_pre_hook_def run_pre_tool_use_def run_commands_def hook_allow_def default_context_def)
    ultimately have "P (snd (tool_execute env (rt_world rt2) tool (effective_input pre inp)))"
      using execute_keeps [OF w2, of tool "effective_input pre inp" ?ctx ?prompter] by simp
    moreover have "execute_tool env k pre i tool (effective_input pre inp) rt2 = (m, rt')"
      using assms(1) Outcome_Allow by (simp add: run_tool_use_def tu pre perm)
    ultimately show ?thesis using execute_keeps_world by blast
  next
    case (Outcome_Deny reason)
    then show ?thesis using assms(1) w2 by (simp add: run_tool_use_def tu pre perm)
  qed
qed

lemma push_keeps: "push env m rt = (pushed, rt') \<Longrightarrow> P (rt_world rt) \<Longrightarrow> P (rt_world rt')"
  using clock_keeps [of "rt_world rt"] by (auto simp: push_def Let_def split_beta)

lemma run_tool_uses_keeps:
  assumes "run_tool_uses env prompting k uses rt = (res, rt')" and "P (rt_world rt)"
    and "permission_policy rt = policy" and "hook_runner rt = hooks"
  shows "P (rt_world rt')"
  using assms
proof (induction uses arbitrary: rt res rt')
  case (Cons tool_use rest)
  obtain m rt1 where run: "run_tool_use env prompting k tool_use rt = (m, rt1)" by force
  obtain pushed rt2 where p: "push env m rt1 = (pushed, rt2)" by force
  have w2: "P (rt_world rt2)" using push_keeps [OF p run_tool_use_keeps [OF run]] Cons.prems by simp
  have s2: "same_settings rt rt2"
    using same_settings_trans [OF run_tool_use_settings [OF run] push_effect(2) [OF p]] .
  show ?case
  proof (cases pushed)
    case (Inl e)
    then show ?thesis using Cons.prems w2 by (simp add: run p)
  next
    case (Inr u)
    let ?rt3 = "trace_finished k m rt2"
    have 3: "P (rt_world ?rt3)" "permission_policy ?rt3 = policy" "hook_runner ?rt3 = hooks"
      using w2 s2 Cons.prems trace_finished_quiet [of rt2 k m]
      by (auto simp: quiet_def same_settings_def trace_finished_def split: list.split content_block.split)
    obtain r rt4 where rest: "run_tool_uses env prompting k rest ?rt3 = (r, rt4)" by force
    have "rt' = rt4" using Cons.prems(1) by (auto simp: run p Inr rest split: sum.splits)
    then show ?thesis using Cons.IH [OF rest 3] by simp
  qed
qed simp

lemma turn_iteration_keeps:
  assumes "turn_iteration env prompting k rt = (res, rt')" and "P (rt_world rt)"
    and "permission_policy rt = policy" and "hook_runner rt = hooks"
  shows "P (rt_world rt')"
proof -
  obtain streamed w where st: "api_stream env (rt_world rt)
      \<lparr>request_system_prompt = system_prompt rt, request_messages = messages (rt_session rt)\<rparr> = (streamed, w)" by force
  have w: "P w" using stream_keeps [OF assms(2)] st by (metis snd_conv)
  show ?thesis
  proof (cases "\<exists>events a usage cache. streamed = Inr events \<and> build_assistant_message events = Inr (a, usage, cache)")
    case False
    then have "rt_world rt' = w" using turn_iteration_no_message [OF st assms(1)] by (metis prod_cases3)
    then show ?thesis using w by simp
  next
    case True
    then obtain events a usage cache where ev: "streamed = Inr events" "build_assistant_message events = Inr (a, usage, cache)"
      by blast
    let ?rt2 = "trace (Assistant_Iteration_Completed k (length (msg_blocks a)) (length (pending_tool_uses a)))
      (record_usage usage (rt\<lparr>rt_world := w\<rparr>))"
    obtain pushed rt3 where p: "push env a ?rt2 = (pushed, rt3)" by force
    have 3: "P (rt_world rt3)" using push_keeps [OF p] w by simp
    have s3: "permission_policy rt3 = policy" "hook_runner rt3 = hooks"
      using push_effect(2) [OF p] assms(3,4) by (auto simp: same_settings_def)
    show ?thesis
    proof (cases pushed)
      case (Inl e)
      then show ?thesis using assms(1) 3 by (simp add: turn_iteration_def st ev p Let_def)
    next
      case (Inr u)
      obtain r rt4 where uses: "run_tool_uses env prompting k (pending_tool_uses a) rt3 = (r, rt4)" by force
      have "rt' = rt4" using assms(1) by (auto simp: turn_iteration_def st ev p Let_def Inr uses split: sum.splits)
      then show ?thesis using run_tool_uses_keeps [OF uses 3 s3] by simp
    qed
  qed
qed

lemma turn_loop_keeps:
  assumes "turn_loop env prompting limit k acc rt = (res, rt')" and "P (rt_world rt)"
    and "permission_policy rt = policy" and "hook_runner rt = hooks"
  shows "P (rt_world rt')"
  using assms
proof (induction "limit - k" arbitrary: k acc rt rule: less_induct)
  case less
  show ?case
  proof (cases "k + 1 > limit")
    case True
    then show ?thesis using less.prems
      by (auto simp: turn_loop.simps [of env prompting limit k] turn_failed_def Let_def)
  next
    case False
    obtain r rt1 where it: "turn_iteration env prompting (k + 1) rt = (r, rt1)" by force
    have w1: "P (rt_world rt1)" using turn_iteration_keeps [OF it] less.prems by simp
    have s1: "permission_policy rt1 = policy" "hook_runner rt1 = hooks"
      using turn_iteration_effect [OF it] less.prems by (auto simp: same_settings_def)
    show ?thesis
    proof (cases r)
      case (Inl e)
      then show ?thesis using less.prems(1) w1 False it by (simp add: turn_loop.simps [of env prompting limit k] Let_def)
    next
      case (Inr x)
      obtain a rs cache where x: "x = (a, rs, cache)" by (cases x)
      show ?thesis
      proof (cases "pending_tool_uses a = []")
        case True
        then show ?thesis
          using less.prems(1) w1 False it Inr x by (simp add: turn_loop.simps [of env prompting limit k] Let_def)
      next
        case more: False
        obtain acc1 where loop: "turn_loop env prompting limit (k + 1) acc1 rt1 = (res, rt')"
          using less.prems(1) False it Inr x more by (simp add: turn_loop.simps [of env prompting limit k] Let_def)
        moreover have "limit - (k + 1) < limit - k" using False by simp
        ultimately show ?thesis using less.hyps w1 s1 by blast
      qed
    qed
  qed
qed

lemma auto_compact_keeps: "maybe_auto_compact env rt = (n, rt') \<Longrightarrow> P (rt_world rt) \<Longrightarrow> P (rt_world rt')"
  using clock_keeps [of "rt_world rt"] by (auto simp: maybe_auto_compact_def Let_def split_beta split: if_splits)

theorem run_turn_keeps:
  assumes "P (rt_world rt)" and "permission_policy rt = policy" and "hook_runner rt = hooks"
  shows "P (rt_world (snd (run_turn env prompting user_input rt)))"
proof -
  obtain pushed rt2 where p: "push env (user_text user_input) (trace (Turn_Started user_input) rt) = (pushed, rt2)" by force
  have w2: "P (rt_world rt2)" using push_keeps [OF p] assms(1) by simp
  have s2: "permission_policy rt2 = policy" "hook_runner rt2 = hooks"
    using push_effect(2) [OF p] assms(2,3) by (auto simp: same_settings_def)
  obtain res rt3 where loop: "turn_loop env prompting (max_iterations rt2) 0 summary_empty rt2 = (res, rt3)" by force
  have w3: "P (rt_world rt3)" using turn_loop_keeps [OF loop w2 s2] .
  obtain n rt4 where c: "maybe_auto_compact env rt3 = (n, rt4)" by force
  show ?thesis using w2 w3 auto_compact_keeps [OF c w3]
    by (cases pushed; cases res) (simp_all add: run_turn_def p loop c Let_def)
qed

end

section \<open>Only allowed calls are executed\<close>

text \<open>An environment that also keeps the list of the calls of the tool executor.\<close>

definition logged :: "'w env \<Rightarrow> ((rstring \<times> rstring) list \<times> 'w) env" where
  "logged env = \<lparr>
     api_stream = (\<lambda>(l, w) request. let (x, w') = api_stream env w request in (x, (l, w'))),
     tool_execute = (\<lambda>(l, w) tool inp. let (x, w') = tool_execute env w tool inp in (x, (l @ [(tool, inp)], w'))),
     prompt_decide = (\<lambda>(l, w) q. let (x, w') = prompt_decide env w q in (x, (l, w'))),
     hook_world = \<lparr>run_process = (\<lambda>(l, w) call. let (x, w') = run_process (hook_world env) w call in (x, (l, w'))),
       is_aborted = (\<lambda>(l, w). is_aborted (hook_world env) w), hook_serde = hook_serde (hook_world env)\<rparr>,
     permission_serde = permission_serde env,
     current_time_millis = (\<lambda>(l, w). let (x, w') = current_time_millis env w in (x, (l, w'))),
     file_error = (\<lambda>(l, w). file_error env w)\<rparr>"

text \<open>A call that the policy allows, under some override of the hooks and some prompter, as far as there are any.\<close>

definition call_allowed :: "serde_object \<Rightarrow> permission_policy \<Rightarrow> hook_config \<Rightarrow> bool \<Rightarrow> rstring \<times> rstring \<Rightarrow> bool" where
  "call_allowed serde policy hooks prompting call \<longleftrightarrow> (\<exists>ctx prompter.
     fst (authorize_with_context serde policy (fst call) (snd call) ctx prompter) = Outcome_Allow \<and>
     (\<not> prompting \<longrightarrow> prompter = None) \<and> (pre_tool_use hooks = [] \<longrightarrow> ctx = default_context))"

interpretation executed_calls: world_invariant "logged env"
  "\<lambda>x. list_all (call_allowed (permission_serde env) policy hooks prompting) (fst x)" policy hooks prompting
  for env policy hooks prompting
  by unfold_locales (auto simp: logged_def call_allowed_def split_beta Let_def)

lemma call_allowed_not_denied:
  "call_allowed serde policy hooks prompting (tool, inp) \<Longrightarrow> find_matching_rule serde (deny_rules policy) tool inp = None"
  by (cases "find_matching_rule serde (deny_rules policy) tool inp") (auto simp: call_allowed_def authorize_with_context_def)

text \<open>
  C5: In a whole turn, whatever the model asks for and the hooks answer, the tool executor is called only
  with calls that the permission policy allows: never one that a deny rule names, and without a prompter
  and hooks before tools only those that the policy alone allows.\<close>

theorem executed_calls_were_allowed:
  assumes "fst (rt_world rt) = []"
  shows "list_all (\<lambda>(tool, inp). find_matching_rule (permission_serde env) (deny_rules (permission_policy rt)) tool inp = None \<and>
      call_allowed (permission_serde env) (permission_policy rt) (hook_runner rt) prompting (tool, inp))
    (fst (rt_world (snd (run_turn (logged env) prompting user_input rt))))"
proof -
  have "list_all (call_allowed (permission_serde env) (permission_policy rt) (hook_runner rt) prompting)
      (fst (rt_world (snd (run_turn (logged env) prompting user_input rt))))"
    using executed_calls.run_turn_keeps [of env "permission_policy rt" "hook_runner rt" prompting rt user_input] assms by simp
  then show ?thesis by (auto simp: list_all_iff dest: call_allowed_not_denied)
qed

section \<open>A turn that runs\<close>

text \<open>A model that asks for one sum and then answers, and an executor that knows this tool; the world counts the requests.\<close>

definition demo_env :: "nat env" where
  "demo_env = \<lparr>
     api_stream = (\<lambda>w request. (Inr (if w = 0
         then [Event_TextDelta (lit ''Let me see''), Event_ToolUse (lit ''t1'') (lit ''add'') (lit ''2,2''), Event_MessageStop]
         else [Event_TextDelta (lit ''It is ''), Event_TextDelta (lit ''4''), Event_MessageStop]), w + 1)),
     tool_execute = static_execute (register_tool (lit ''add'') (\<lambda>w inp. (Inr (lit ''4''), w)) (\<lambda>_. None)),
     prompt_decide = (\<lambda>w q. (Decision_Deny (lit ''no''), w)),
     hook_world = \<lparr>run_process = (\<lambda>w call. (Exec_Finished (Some 0) [] [], w)), is_aborted = (\<lambda>w. False),
       hook_serde = \<lparr>from_str = (\<lambda>s. None), to_string = (\<lambda>v. [])\<rparr>\<rparr>,
     permission_serde = (\<lambda>s. None),
     current_time_millis = (\<lambda>w. (7, w)),
     file_error = (\<lambda>w. None)\<rparr>"

definition demo_runtime :: "nat \<Rightarrow> 'w \<Rightarrow> permission_policy \<Rightarrow> 'w runtime" where
  "demo_runtime limit w policy = with_max_iterations limit (runtime_new w (session_new 0 (lit ''s'')) None policy []
     \<lparr>pre_tool_use = [], post_tool_use = [], post_tool_use_failure = []\<rparr> 100000)"

lemma demo_stream:
  "api_stream (logged demo_env) (l, w) request = (Inr (if w = 0
     then [Event_TextDelta (lit ''Let me see''), Event_ToolUse (lit ''t1'') (lit ''add'') (lit ''2,2''), Event_MessageStop]
     else [Event_TextDelta (lit ''It is ''), Event_TextDelta (lit ''4''), Event_MessageStop]), (l, w + 1))"
  by (simp add: logged_def demo_env_def)

lemma demo_push:
  "persistence (rt_session rt) = None \<Longrightarrow> push (logged demo_env) m rt = (Inr (),
     rt\<lparr>rt_session := (rt_session rt)\<lparr>updated_at_ms := 7, messages := messages (rt_session rt) @ [m]\<rparr>\<rparr>)"
  by (cases "rt_world rt")
    (simp add: push_def logged_def demo_env_def push_message_def append_persisted_message_def touch_def Let_def)

lemma demo_messages:
  "build_assistant_message [Event_TextDelta (lit ''Let me see''), Event_ToolUse (lit ''t1'') (lit ''add'') (lit ''2,2''), Event_MessageStop] =
     Inr (\<lparr>msg_role = Role_Assistant, msg_blocks = [Block_Text (lit ''Let me see''),
        Block_ToolUse (lit ''t1'') (lit ''add'') (lit ''2,2'')], msg_usage = None\<rparr>, None, [])"
  "build_assistant_message [Event_TextDelta (lit ''It is ''), Event_TextDelta (lit ''4''), Event_MessageStop] =
     Inr (\<lparr>msg_role = Role_Assistant, msg_blocks = [Block_Text (lit ''It is '' @ lit ''4'')], msg_usage = None\<rparr>, None, [])"
  by (simp_all add: build_assistant_message_def build_empty_def flush_text_block_def Let_def)

lemma demo_tool:
  "permission_policy rt = policy_new Mode_Allow \<Longrightarrow> pre_tool_use (hook_runner rt) = [] \<Longrightarrow> post_tool_use (hook_runner rt) = [] \<Longrightarrow>
   session_trace rt = None \<Longrightarrow> hook_progress rt = None \<Longrightarrow> rt_world rt = (l, w) \<Longrightarrow>
   run_tool_use (logged demo_env) False k (lit ''t1'', lit ''add'', lit ''2,2'') rt =
     (tool_result (lit ''t1'') (lit ''add'') (lit ''4'') False, rt\<lparr>rt_world := (l @ [(lit ''add'', lit ''2,2'')], w)\<rparr>)"
  by (simp add: run_tool_use_def run_pre_hook_def run_pre_tool_use_def run_commands_def hook_allow_def report_def
      tool_permission_def effective_input_def authorize_with_context_def policy_new_def find_matching_rule_def
      execute_tool_def logged_def demo_env_def static_execute_def register_tool_def trace_def run_post_hook_def
      run_post_tool_use_def merge_hook_feedback_def hook_objects_def Let_def)

lemma demo_turn:
  "run_turn (logged demo_env) False (lit ''2+2?'') (demo_runtime 5 ([], 0) (policy_new Mode_Allow)) = x \<Longrightarrow>
   map msg_role (messages (rt_session (snd x))) = [Role_User, Role_Assistant, Role_Tool, Role_Assistant] \<and>
   rt_world (snd x) = ([(lit ''add'', lit ''2,2'')], 2) \<and>
   (case fst x of Inr summary \<Rightarrow> iterations summary = 2 \<and> auto_compaction summary = None | _ \<Rightarrow> False)"
  by (auto simp: run_turn_def demo_runtime_def with_max_iterations_def runtime_new_def trace_def demo_push session_new_def
      Let_def turn_loop.simps turn_iteration_def demo_stream demo_messages record_usage_def pending_tool_uses_def filter_map_def
      trace_finished_def tool_result_def maybe_auto_compact_def demo_tool user_text_def tracker_from_session_def
      tracker_new_def usage_zero_def summary_empty_def)

lemma demo_turn_limit:
  "run_turn (logged demo_env) False (lit ''2+2?'') (demo_runtime 1 ([], 0) (policy_new Mode_Allow)) = x \<Longrightarrow>
   map msg_role (messages (rt_session (snd x))) = [Role_User, Role_Assistant, Role_Tool] \<and>
   fst x = Inl (RuntimeError (lit ''conversation loop exceeded the maximum number of iterations''))"
  by (auto simp: run_turn_def demo_runtime_def with_max_iterations_def runtime_new_def trace_def demo_push session_new_def
      Let_def turn_loop.simps turn_iteration_def demo_stream demo_messages record_usage_def pending_tool_uses_def filter_map_def
      trace_finished_def tool_result_def maybe_auto_compact_def demo_tool user_text_def tracker_from_session_def
      tracker_new_def usage_zero_def summary_empty_def turn_failed_def)

lemma turn_transcript_witness:
  "\<exists>summary rt'. run_turn (logged demo_env) False (lit ''2+2?'') (demo_runtime 5 ([], 0) (policy_new Mode_Allow)) = (Inr summary, rt') \<and>
     length (assistant_messages summary) = 2 \<and> length (messages (rt_session rt')) = 4"
proof -
  obtain r rt' where run: "run_turn (logged demo_env) False (lit ''2+2?'') (demo_runtime 5 ([], 0) (policy_new Mode_Allow)) = (r, rt')"
    by force
  from demo_turn [OF this] obtain summary where r: "r = Inr summary" "iterations summary = 2"
    and four: "length (messages (rt_session rt')) = 4"
    by (cases r) (auto dest: arg_cong [where f = length])
  from turn_transcript [OF run [unfolded r(1)]] r(2) have "length (assistant_messages summary) = 2" by auto
  then show ?thesis using run r four by blast
qed

lemma failed_turn_only_appends_witness:
  "\<exists>rounds rest. messages (rt_session (snd (run_turn (logged demo_env) False (lit ''2+2?'')
     (demo_runtime 1 ([], 0) (policy_new Mode_Allow))))) = user_text (lit ''2+2?'') # rounds_messages rounds @ rest \<and>
     list_all round_ok rounds \<and> partial_round rest"
proof -
  obtain r rt' where run: "run_turn (logged demo_env) False (lit ''2+2?'') (demo_runtime 1 ([], 0) (policy_new Mode_Allow)) = (r, rt')"
    by force
  from demo_turn_limit [OF this] obtain e where r: "r = Inl e" and ne: "messages (rt_session rt') \<noteq> []" by auto
  have "messages (rt_session (demo_runtime 1 ([] :: (rstring \<times> rstring) list, 0 :: nat) (policy_new Mode_Allow))) = []"
    by (simp add: demo_runtime_def with_max_iterations_def runtime_new_def session_new_def)
  with failed_turn_only_appends [OF run [unfolded r]] ne run show ?thesis by auto
qed

lemma executed_calls_were_allowed_witness:
  "fst (rt_world (snd (run_turn (logged demo_env) False (lit ''2+2?'') (demo_runtime 5 ([], 0) (policy_new Mode_Allow))))) =
     [(lit ''add'', lit ''2,2'')] \<and>
   call_allowed (permission_serde demo_env) (policy_new Mode_Allow)
     \<lparr>pre_tool_use = [], post_tool_use = [], post_tool_use_failure = []\<rparr> False (lit ''add'', lit ''2,2'')"
proof -
  let ?rt = "demo_runtime 5 ([] :: (rstring \<times> rstring) list, 0 :: nat) (policy_new Mode_Allow)"
  have start: "fst (rt_world ?rt) = []" "permission_policy ?rt = policy_new Mode_Allow"
    "hook_runner ?rt = \<lparr>pre_tool_use = [], post_tool_use = [], post_tool_use_failure = []\<rparr>"
    by (simp_all add: demo_runtime_def with_max_iterations_def runtime_new_def)
  have log: "fst (rt_world (snd (run_turn (logged demo_env) False (lit ''2+2?'') ?rt))) = [(lit ''add'', lit ''2,2'')]"
    using demo_turn [OF refl] by simp
  then show ?thesis
    using executed_calls_were_allowed [OF start(1), of demo_env False "lit ''2+2?''"] by (simp add: start)
qed

section \<open>A turn completes\<close>

lemma push_in_memory:
  assumes "persistence (rt_session rt) = None"
  shows "\<exists>rt'. push env m rt = (Inr (), rt') \<and> persistence (rt_session rt') = None"
  using assms by (simp add: push_def push_message_def append_persisted_message_def touch_def split_beta Let_def)

lemma quiet_persistence: "quiet a b \<Longrightarrow> persistence (rt_session b) = persistence (rt_session a)"
  by (simp add: quiet_def)

lemma run_tool_uses_in_memory:
  assumes "persistence (rt_session rt) = None"
  shows "\<exists>ms rt'. run_tool_uses env prompting k uses rt = (Inr ms, rt') \<and> persistence (rt_session rt') = None"
  using assms
proof (induction uses arbitrary: rt)
  case (Cons tool_use rest)
  obtain i tool inp where tu: "tool_use = (i, tool, inp)" by (cases tool_use)
  obtain m rt1 where run: "run_tool_use env prompting k tool_use rt = (m, rt1)" by force
  have "persistence (rt_session rt1) = None"
    using quiet_persistence run_tool_use_quiet [OF run [unfolded tu]] Cons.prems by fastforce
  from push_in_memory [OF this, of env m] obtain rt2 where p: "push env m rt1 = (Inr (), rt2)" "persistence (rt_session rt2) = None"
    by blast
  have "persistence (rt_session (trace_finished k m rt2)) = None"
    using quiet_persistence [OF trace_finished_quiet] p(2) by metis
  from Cons.IH [OF this] obtain ms rt' where
    "run_tool_uses env prompting k rest (trace_finished k m rt2) = (Inr ms, rt')" "persistence (rt_session rt') = None" by blast
  then show ?case by (simp add: run p)
qed simp

text \<open>
  C20: When the model always streams a well-formed message and some rank of the world, which no other
  effect raises, drops with every message that has tool uses, a turn of a session in memory succeeds as soon
  as the rank is below the maximum of iterations, and needs at most one more pass than the rank.\<close>

theorem turn_completes:
  fixes env :: "'w env" and rank :: "'w \<Rightarrow> nat"
  assumes stream: "\<And>w request. \<exists>events a u c w'. api_stream env w request = (Inr events, w') \<and>
      build_assistant_message events = Inr (a, u, c) \<and>
      (rank w' < rank w \<or> rank w' \<le> rank w \<and> pending_tool_uses a = [])"
    and prompt: "\<And>w q. rank (snd (prompt_decide env w q)) \<le> rank w"
    and process: "\<And>w call. rank (snd (run_process (hook_world env) w call)) \<le> rank w"
    and clock: "\<And>w. rank (snd (current_time_millis env w)) \<le> rank w"
    and execute: "\<And>w tool inp. rank (snd (tool_execute env w tool inp)) \<le> rank w"
    and memory: "persistence (rt_session rt) = None"
    and limit: "rank (rt_world rt) < max_iterations rt"
  shows "\<exists>summary rt'. run_turn env prompting user_input rt = (Inr summary, rt') \<and> iterations summary \<le> rank (rt_world rt) + 1"
proof -
  have keeps: "world_invariant env (\<lambda>w. rank w \<le> n) policy hooks prompting" for n policy hooks
  proof (unfold_locales, goal_cases)
    case (1 w request)
    then show ?case using stream [of w request] by fastforce
  qed (use prompt process clock execute le_trans in blast)+
  have iteration: "\<exists>a rs c rt'. turn_iteration env prompting k rt = (Inr (a, rs, c), rt') \<and> persistence (rt_session rt') = None \<and>
      (rank (rt_world rt') < rank (rt_world rt) \<or> pending_tool_uses a = [])"
    if "persistence (rt_session rt) = None" for k and rt :: "'w runtime"
  proof -
    let ?request = "\<lparr>request_system_prompt = system_prompt rt, request_messages = messages (rt_session rt)\<rparr>"
    from stream [of "rt_world rt" ?request] obtain events a u c w' where st: "api_stream env (rt_world rt) ?request = (Inr events, w')"
      "build_assistant_message events = Inr (a, u, c)" "rank w' < rank (rt_world rt) \<or> rank w' \<le> rank (rt_world rt) \<and> pending_tool_uses a = []"
      by blast
    let ?rt2 = "trace (Assistant_Iteration_Completed k (length (msg_blocks a)) (length (pending_tool_uses a)))
      (record_usage u (rt\<lparr>rt_world := w'\<rparr>))"
    have "persistence (rt_session ?rt2) = None" using that by simp
    from push_in_memory [OF this, of env a] obtain rt3 where p: "push env a ?rt2 = (Inr (), rt3)" "persistence (rt_session rt3) = None"
      by blast
    from run_tool_uses_in_memory [OF p(2), of env prompting k "pending_tool_uses a"] obtain rs rt4 where
      uses: "run_tool_uses env prompting k (pending_tool_uses a) rt3 = (Inr rs, rt4)" "persistence (rt_session rt4) = None" by blast
    have "rank (rt_world rt3) \<le> rank w'"
      using world_invariant.push_keeps [OF keeps [of "rank w'"] p(1)] by simp
    then have "rank (rt_world rt4) \<le> rank w'"
      using world_invariant.run_tool_uses_keeps [OF keeps uses(1)] by blast
    moreover have "turn_iteration env prompting k rt = (Inr (a, rs, c), rt4)"
      by (simp add: turn_iteration_def st p uses Let_def)
    ultimately show ?thesis using st(3) uses(2) by auto
  qed
  have loop: "\<exists>acc' rt'. turn_loop env prompting l k acc rt = (Inr acc', rt') \<and> iterations acc' \<le> k + rank (rt_world rt) + 1"
    if "persistence (rt_session rt) = None" and "k + rank (rt_world rt) < l" for k l acc and rt :: "'w runtime"
    using that
  proof (induction "rank (rt_world rt)" arbitrary: k acc rt rule: less_induct)
    case less
    from iteration [OF less.prems(1)] obtain a rs c rt1 where it: "turn_iteration env prompting (k + 1) rt = (Inr (a, rs, c), rt1)"
      "persistence (rt_session rt1) = None" "rank (rt_world rt1) < rank (rt_world rt) \<or> pending_tool_uses a = []" by blast
    show ?case
    proof (cases "pending_tool_uses a = []")
      case True
      then show ?thesis using it(1) less.prems(2) by (simp add: turn_loop.simps [of env prompting l k] Let_def)
    next
      case False
      then have "rank (rt_world rt1) < rank (rt_world rt)" using it(3) by simp
      moreover then have "k + 1 + rank (rt_world rt1) < l" using less.prems(2) by simp
      ultimately show ?thesis
        using less.hyps [of rt1 "k + 1"] it less.prems(2) False
        by (simp add: turn_loop.simps [of env prompting l k acc rt] Let_def) fastforce
    qed
  qed
  let ?rt1 = "trace (Turn_Started user_input) rt"
  have "persistence (rt_session ?rt1) = None" using memory by simp
  from push_in_memory [OF this] obtain rt2 where p: "push env (user_text user_input) ?rt1 = (Inr (), rt2)"
    "persistence (rt_session rt2) = None" by blast
  have r2: "rank (rt_world rt2) \<le> rank (rt_world rt)"
    using world_invariant.push_keeps [OF keeps [of "rank (rt_world rt)"] p(1)] by simp
  have m2: "max_iterations rt2 = max_iterations rt"
    using push_effect(2) [OF p(1)] same_settings_steps(1) [of rt] by (simp add: same_settings_def)
  have "0 + rank (rt_world rt2) < max_iterations rt2" using r2 m2 limit by simp
  from loop [OF p(2) this, of summary_empty] obtain acc rt3 where
    l: "turn_loop env prompting (max_iterations rt2) 0 summary_empty rt2 = (Inr acc, rt3)" "iterations acc \<le> rank (rt_world rt2) + 1"
    by auto
  obtain n rt4 where c: "maybe_auto_compact env rt3 = (n, rt4)" by force
  show ?thesis using l r2 by (simp add: run_turn_def p l c Let_def)
qed

lemma turn_completes_witness:
  "\<exists>summary rt'. run_turn (logged demo_env) False (lit ''2+2?'') (demo_runtime 5 ([], 0) (policy_new Mode_Allow)) = (Inr summary, rt') \<and>
     iterations summary \<le> 2"
proof -
  let ?rank = "\<lambda>x :: (rstring \<times> rstring) list \<times> nat. if snd x = 0 then 1 else 0 :: nat"
  let ?rt = "demo_runtime 5 ([] :: (rstring \<times> rstring) list, 0 :: nat) (policy_new Mode_Allow)"
  have "\<exists>summary rt'. run_turn (logged demo_env) False (lit ''2+2?'') ?rt = (Inr summary, rt') \<and> iterations summary \<le> ?rank (rt_world ?rt) + 1"
  proof (rule turn_completes)
    fix x :: "(rstring \<times> rstring) list \<times> nat" and request
    obtain l w where x: "x = (l, w)" by force
    show "\<exists>events a u c w'. api_stream (logged demo_env) x request = (Inr events, w') \<and>
      build_assistant_message events = Inr (a, u, c) \<and>
      (?rank w' < ?rank x \<or> ?rank w' \<le> ?rank x \<and> pending_tool_uses a = [])"
      by (cases "w = 0") (simp_all add: x demo_stream demo_messages pending_tool_uses_def filter_map_def)
  qed (simp_all add: logged_def demo_env_def static_execute_def register_tool_def split_beta Let_def
      demo_runtime_def with_max_iterations_def runtime_new_def session_new_def split: option.split)
  moreover have "?rank (rt_world ?rt) + 1 = 2" by (simp add: demo_runtime_def with_max_iterations_def runtime_new_def)
  ultimately show ?thesis by (simp only:)
qed

section \<open>Tool results and their tool uses\<close>

text \<open>Every tool result has the id of a tool use of an earlier message; \<open>seen\<close> holds those of the messages before.\<close>

definition block_answered :: "rstring set \<Rightarrow> content_block \<Rightarrow> bool" where
  "block_answered seen b \<longleftrightarrow> (case b of Block_ToolResult i n out is_error \<Rightarrow> i \<in> seen | _ \<Rightarrow> True)"

lemma block_answered_mono: "block_answered seen b \<Longrightarrow> seen \<subseteq> seen' \<Longrightarrow> block_answered seen' b"
  by (auto simp: block_answered_def split: content_block.splits)

fun results_answered :: "rstring set \<Rightarrow> conversation_message list \<Rightarrow> bool" where
  "results_answered seen [] \<longleftrightarrow> True"
| "results_answered seen (m # ms) \<longleftrightarrow>
     list_all (block_answered seen) (msg_blocks m) \<and> results_answered (seen \<union> fst ` set (pending_tool_uses m)) ms"

definition uses_of :: "conversation_message list \<Rightarrow> rstring set" where
  "uses_of ms = (\<Union>m \<in> set ms. fst ` set (pending_tool_uses m))"

lemma results_answered_append:
  "results_answered seen (xs @ ys) \<longleftrightarrow> results_answered seen xs \<and> results_answered (seen \<union> uses_of xs) ys"
  by (induction xs arbitrary: seen) (auto simp: uses_of_def Un_assoc)

lemma results_answered_mono: "results_answered seen ms \<Longrightarrow> seen \<subseteq> seen' \<Longrightarrow> results_answered seen' ms"
proof (induction ms arbitrary: seen seen')
  case (Cons m ms)
  have "seen \<union> fst ` set (pending_tool_uses m) \<subseteq> seen' \<union> fst ` set (pending_tool_uses m)" using Cons.prems(2) by auto
  moreover have "list_all (block_answered seen') (msg_blocks m)"
    using Cons.prems block_answered_mono by (auto simp: list_all_iff)
  ultimately show ?case using Cons by simp blast
qed simp

lemma results_answered_results:
  "list_all2 answers uses rs \<Longrightarrow> fst ` set uses \<subseteq> seen \<Longrightarrow> results_answered seen rs"
proof (induction uses rs arbitrary: seen rule: list_all2_induct)
  case (Cons use uses r rs)
  obtain i tool inp where use: "use = (i, tool, inp)" by (cases use)
  have "list_all (block_answered seen) (msg_blocks r)"
    using Cons.hyps(1) Cons.prems
    by (auto simp: answers_def use block_answered_def split: list.splits content_block.splits)
  then show ?case using Cons.IH [of "seen \<union> fst ` set (pending_tool_uses r)"] Cons.prems by auto
qed simp

lemma spoken_answered: "spoken a \<Longrightarrow> list_all (block_answered seen) (msg_blocks a)"
  by (auto simp: spoken_def list_all_iff block_answered_def split: content_block.splits)

lemma results_answered_round: "round_ok (a, rs) \<Longrightarrow> results_answered seen (a # rs)"
  by (auto simp: round_ok_def spoken_answered intro: results_answered_results)

lemma results_answered_rounds: "list_all round_ok rounds \<Longrightarrow> results_answered seen (rounds_messages rounds)"
proof (induction rounds arbitrary: seen)
  case (Cons r rounds)
  then show ?case using results_answered_round [of "fst r" "snd r" seen]
    by (auto simp: results_answered_append)
qed simp

lemma results_answered_partial: "partial_round ms \<Longrightarrow> results_answered seen ms"
proof (cases ms)
  case (Cons a rs)
  assume "partial_round ms"
  then have "spoken a" "list_all2 answers (take (length rs) (pending_tool_uses a)) rs"
    by (simp_all add: Cons partial_round_def answered_so_far_def)
  moreover have "fst ` set (take (length rs) (pending_tool_uses a)) \<subseteq> seen \<union> fst ` set (pending_tool_uses a)"
    using set_take_subset by fastforce
  ultimately show ?thesis by (simp add: Cons spoken_answered results_answered_results)
qed simp

lemma user_text_answered [simp]:
  "list_all (block_answered seen) (msg_blocks (user_text t))" "pending_tool_uses (user_text t) = []"
  by (simp_all add: user_text_def block_answered_def pending_tool_uses_def filter_map_def)

text \<open>
  A turn keeps every tool result of the session after its tool use, whether it succeeds or fails,
  unless it ends with a compaction.\<close>

theorem turn_keeps_results_answered:
  assumes "results_answered {} (messages (rt_session rt))"
    and "run_turn env prompting user_input rt = (res, rt')"
    and "\<not> (case res of Inr summary \<Rightarrow> auto_compaction summary \<noteq> None | Inl e \<Rightarrow> False)"
  shows "results_answered {} (messages (rt_session rt'))"
proof (cases res)
  case (Inl e)
  from run_turn_failure [OF assms(2) [unfolded Inl]] obtain rounds rest added where
    "messages (rt_session rt') = messages (rt_session rt) @ added"
    "added = [] \<or> added = user_text user_input # rounds_messages rounds @ rest \<and>
       list_all round_ok rounds \<and> list_all has_tool_uses rounds \<and> partial_round rest" by blast
  then show ?thesis using assms(1)
    by (auto simp: results_answered_append results_answered_rounds results_answered_partial)
next
  case (Inr summary)
  then have "auto_compaction summary = None" using assms(3) by simp
  with run_turn_success [OF assms(2) [unfolded Inr]] obtain rounds where "list_all round_ok rounds"
    "messages (rt_session rt') = messages (rt_session rt) @ user_text user_input # rounds_messages rounds"
    by (auto simp: Let_def)
  then show ?thesis using assms(1)
    by (simp add: results_answered_append results_answered_rounds)
qed

lemma turn_keeps_results_answered_witness:
  "results_answered {} (messages (rt_session (snd (run_turn (logged demo_env) False (lit ''2+2?'')
     (demo_runtime 5 ([], 0) (policy_new Mode_Allow))))))"
proof -
  obtain r rt' where run: "run_turn (logged demo_env) False (lit ''2+2?'') (demo_runtime 5 ([], 0) (policy_new Mode_Allow)) = (r, rt')"
    by force
  have "results_answered {} (messages (rt_session (demo_runtime 5 ([] :: (rstring \<times> rstring) list, 0 :: nat) (policy_new Mode_Allow))))"
    by (simp add: demo_runtime_def with_max_iterations_def runtime_new_def session_new_def)
  from turn_keeps_results_answered [OF this run] demo_turn [OF run] show ?thesis
    by (cases r) (simp_all add: run)
qed

text \<open>
  Automatic compaction may separate a tool result from its tool use: it keeps the last four messages
  whatever they are, so when the first of them is a tool result, the compacted session has a result that no
  message asks for.\<close>

theorem compaction_orphans_tool_result:
  assumes "should_compact s config"
    and "drop (length (messages s) - preserve_recent_messages config) (messages s) = tool_result i n out is_error # rest"
  shows "\<not> results_answered {} (messages (compacted_session (compact_session now s config)))"
  using compact_session_result(5) [OF assms(1), of now] assms(2)
  by (simp add: tool_result_def block_answered_def pending_tool_uses_def filter_map_def)

definition orphan_demo :: session where
  "orphan_demo = (session_new 0 (lit ''s''))\<lparr>messages := [user_text (lit ''a''),
     \<lparr>msg_role = Role_Assistant, msg_blocks = [Block_ToolUse (lit ''t'') (lit ''bash'') (lit ''ls'')], msg_usage = None\<rparr>,
     tool_result (lit ''t'') (lit ''bash'') (lit ''x'') False,
     \<lparr>msg_role = Role_Assistant, msg_blocks = [Block_Text (lit ''b'')], msg_usage = None\<rparr>,
     user_text (lit ''c''),
     \<lparr>msg_role = Role_Assistant, msg_blocks = [Block_Text (lit ''d'')], msg_usage = None\<rparr>]\<rparr>"

lemma compaction_orphans_tool_result_witness:
  "results_answered {} (messages orphan_demo) \<and> \<not> results_answered {} (messages (compacted_session
     (compact_session 7 orphan_demo (default_compaction_config\<lparr>max_estimated_tokens := 0\<rparr>))))"
proof -
  let ?config = "default_compaction_config\<lparr>max_estimated_tokens := 0\<rparr>"
  have "should_compact orphan_demo ?config"
    by (simp add: should_compact_def compacted_summary_prefix_len_def existing_summary_of_def orphan_demo_def
        extract_existing_compacted_summary_def default_compaction_config_def user_text_def Let_def)
  moreover have "drop (length (messages orphan_demo) - preserve_recent_messages ?config) (messages orphan_demo) =
      tool_result (lit ''t'') (lit ''bash'') (lit ''x'') False # drop 3 (messages orphan_demo)"
    by (simp add: orphan_demo_def default_compaction_config_def)
  ultimately have "\<not> results_answered {} (messages (compacted_session (compact_session 7 orphan_demo ?config)))"
    by (rule compaction_orphans_tool_result)
  moreover have "results_answered {} (messages orphan_demo)"
    by (simp add: orphan_demo_def user_text_def tool_result_def block_answered_def pending_tool_uses_def filter_map_def)
  ultimately show ?thesis by simp
qed

lemma tool_permission_objected:
  "hook_objects pre \<Longrightarrow> \<exists>reason. tool_permission env prompting pre tool effective rt = (Outcome_Deny reason, rt)"
  by (cases "cancelled pre"; cases "failed pre"; cases "denied pre") (simp_all add: tool_permission_def hook_objects_def)

lemma tool_permission_deny_rule:
  "\<not> hook_objects pre \<Longrightarrow>
   find_matching_rule (permission_serde env) (deny_rules (permission_policy rt)) tool effective = Some rule \<Longrightarrow>
   \<exists>reason. tool_permission env prompting pre tool effective rt = (Outcome_Deny reason, rt)"
  by (simp add: tool_permission_def hook_objects_def authorize_with_context_def)

text \<open>
  A tool use to which the hooks before it object, or which a deny rule names with the input that the
  hooks leave, is answered by an error, and the tool executor is not consulted: the outcome is the same for
  every executor.\<close>

theorem denied_tool_use_not_executed:
  assumes "run_pre_hook env tool inp rt = (pre, rt1)"
    and "hook_objects pre \<or> find_matching_rule (permission_serde env) (deny_rules (permission_policy rt)) tool
      (effective_input pre inp) \<noteq> None"
  shows "\<exists>out rt'. \<forall>execute. run_tool_use (env\<lparr>tool_execute := execute\<rparr>) prompting k (i, tool, inp) rt =
    (tool_result i tool out True, rt')"
proof -
  have policy: "permission_policy rt1 = permission_policy rt"
    using quiet_pre_hook [OF assms(1)] by (simp add: quiet_def same_settings_def)
  have pre: "run_pre_hook (env\<lparr>tool_execute := execute\<rparr>) tool inp rt = (pre, rt1)" for execute
    using assms(1) by (simp add: run_pre_hook_def)
  have perm: "tool_permission (env\<lparr>tool_execute := execute\<rparr>) prompting pre tool effective rt1 =
      tool_permission env prompting pre tool effective rt1" for execute effective
    by (simp add: tool_permission_def)
  obtain reason rt2 where deny: "tool_permission env prompting pre tool (effective_input pre inp) rt1 = (Outcome_Deny reason, rt2)"
  proof (cases "hook_objects pre")
    case True
    from tool_permission_objected [OF this] show ?thesis using that by blast
  next
    case False
    then obtain rule where "find_matching_rule (permission_serde env) (deny_rules (permission_policy rt1)) tool
        (effective_input pre inp) = Some rule" using assms(2) policy by auto
    from tool_permission_deny_rule [OF False this] show ?thesis using that by blast
  qed
  show ?thesis by (auto simp: run_tool_use_def pre perm deny)
qed

lemma denied_tool_use_not_executed_witness:
  "\<exists>out rt'. run_tool_use demo_env False 1 (lit ''t1'', lit ''add'', lit ''2,2'')
     (demo_runtime 5 0 ((policy_new Mode_Allow)\<lparr>deny_rules := [\<lparr>rule_raw = lit ''add'', rule_tool_name = lit ''add'', rule_matcher = Match_Any\<rparr>]\<rparr>)) =
     (tool_result (lit ''t1'') (lit ''add'') out True, rt')"
proof -
  let ?rt = "demo_runtime 5 (0 :: nat) ((policy_new Mode_Allow)\<lparr>deny_rules := [\<lparr>rule_raw = lit ''add'', rule_tool_name = lit ''add'', rule_matcher = Match_Any\<rparr>]\<rparr>)"
  have pre: "run_pre_hook demo_env (lit ''add'') (lit ''2,2'') ?rt = (hook_allow [], ?rt)"
    by (simp add: run_pre_hook_def run_pre_tool_use_def run_commands_def report_def demo_runtime_def with_max_iterations_def runtime_new_def)
  have rule: "hook_objects (hook_allow []) \<or> find_matching_rule (permission_serde demo_env) (deny_rules (permission_policy ?rt)) (lit ''add'')
      (effective_input (hook_allow []) (lit ''2,2'')) \<noteq> None"
    by (simp add: find_matching_rule_def rule_matches_def demo_runtime_def with_max_iterations_def runtime_new_def)
  from denied_tool_use_not_executed [OF pre rule, of False 1 "lit ''t1''"] obtain out rt' where
    "\<forall>execute. run_tool_use (demo_env\<lparr>tool_execute := execute\<rparr>) False 1 (lit ''t1'', lit ''add'', lit ''2,2'') ?rt =
      (tool_result (lit ''t1'') (lit ''add'') out True, rt')" by blast
  from this [rule_format, of "tool_execute demo_env"] show ?thesis by auto
qed

end
