(* ===== verification/Sandbox.thy ===== *)
theory Sandbox imports Paths Strings begin

text \<open>
  The sandbox of shell commands (\<^verbatim>\<open>crates/runtime/src/sandbox.rs\<close>): the request made of the configuration and
  its overrides, the detection of containers, the status and the launcher.

  What the functions read of the machine is a record \<open>host\<close>: whether the program was compiled for Linux,
  whether \<^verbatim>\<open>unshare --user\<close> works, the environment, the two marker files and \<^verbatim>\<open>/proc/1/cgroup\<close>.
\<close>

section \<open>Data\<close>

datatype filesystem_isolation_mode = Fs_Off | Fs_WorkspaceOnly | Fs_AllowList

fun fs_mode_as_str :: "filesystem_isolation_mode \<Rightarrow> rstring" where
  "fs_mode_as_str Fs_Off = lit ''off''"
| "fs_mode_as_str Fs_WorkspaceOnly = lit ''workspace-only''"
| "fs_mode_as_str Fs_AllowList = lit ''allow-list''"

record sandbox_config =
  cfg_enabled :: "bool option"
  cfg_namespace :: "bool option"
  cfg_network :: "bool option"
  cfg_filesystem :: "filesystem_isolation_mode option"
  cfg_mounts :: "rstring list"

definition sandbox_config_default :: sandbox_config where
  "sandbox_config_default = \<lparr>cfg_enabled = None, cfg_namespace = None, cfg_network = None, cfg_filesystem = None, cfg_mounts = []\<rparr>"

record sandbox_request =
  req_enabled :: bool
  req_namespace :: bool
  req_network :: bool
  req_filesystem :: filesystem_isolation_mode
  req_mounts :: "rstring list"

record container_environment =
  in_container :: bool
  markers :: "rstring list"

record sandbox_status =
  st_enabled :: bool
  st_requested :: sandbox_request
  st_supported :: bool
  st_active :: bool
  namespace_supported :: bool
  namespace_active :: bool
  network_supported :: bool
  network_active :: bool
  filesystem_mode :: filesystem_isolation_mode
  filesystem_active :: bool
  allowed_mounts :: "rstring list"
  st_in_container :: bool
  container_markers :: "rstring list"
  fallback_reason :: "rstring option"

record detection_inputs =
  env_pairs :: "(rstring \<times> rstring) list"
  dockerenv_exists :: bool
  containerenv_exists :: bool
  proc_1_cgroup :: "rstring option"

record sandbox_command =
  sandbox_program :: rstring
  sandbox_args :: "rstring list"
  sandbox_env :: "(rstring \<times> rstring) list"

record host =
  host_inputs :: detection_inputs
  host_linux :: bool
  unshare_works :: bool

section \<open>The request\<close>

definition resolve_request :: "sandbox_config \<Rightarrow> bool option \<Rightarrow> bool option \<Rightarrow> bool option \<Rightarrow>
    filesystem_isolation_mode option \<Rightarrow> rstring list option \<Rightarrow> sandbox_request" where
  "resolve_request c enabled_override namespace_override network_override filesystem_override mounts_override =
     \<lparr>req_enabled = unwrap_or (unwrap_or True (cfg_enabled c)) enabled_override,
      req_namespace = unwrap_or (unwrap_or True (cfg_namespace c)) namespace_override,
      req_network = unwrap_or (unwrap_or False (cfg_network c)) network_override,
      req_filesystem = unwrap_or Fs_WorkspaceOnly
        (case filesystem_override of Some m \<Rightarrow> Some m | None \<Rightarrow> cfg_filesystem c),
      req_mounts = unwrap_or (cfg_mounts c) mounts_override\<rparr>"

section \<open>Containers\<close>

definition env_markers :: "(rstring \<times> rstring) list \<Rightarrow> rstring list" where
  "env_markers pairs = concat (map (\<lambda>(key, v).
     if to_ascii_lowercase key \<in> {lit ''container'', lit ''docker'', lit ''podman'', lit ''kubernetes_service_host''} \<and> v \<noteq> []
     then [lit ''env:'' @ key @ lit ''='' @ v] else []) pairs)"

definition cgroup_markers :: "rstring \<Rightarrow> rstring list" where
  "cgroup_markers cgroup = map (\<lambda>needle. lit ''/proc/1/cgroup:'' @ needle)
     (filter (str_contains cgroup) (map lit [''docker'', ''containerd'', ''kubepods'', ''podman'', ''libpod'']))"

definition found_markers :: "detection_inputs \<Rightarrow> rstring list" where
  "found_markers d =
     (if dockerenv_exists d then [lit ''/.dockerenv''] else []) @
     (if containerenv_exists d then [lit ''/run/.containerenv''] else []) @
     env_markers (env_pairs d) @
     (case proc_1_cgroup d of Some cgroup \<Rightarrow> cgroup_markers cgroup | None \<Rightarrow> [])"

definition detect_container_environment_from :: "detection_inputs \<Rightarrow> container_environment" where
  "detect_container_environment_from d = (let found = remdups_adj (sort (found_markers d))
     in \<lparr>in_container = (found \<noteq> []), markers = found\<rparr>)"

section \<open>Status and launcher\<close>

definition normalize_mounts :: "rstring list \<Rightarrow> rstring \<Rightarrow> rstring list" where
  "normalize_mounts mounts cwd = map (\<lambda>mount. if starts_with mount [c_slash] then mount else path_join cwd mount) mounts"

definition fallback_reasons :: "sandbox_request \<Rightarrow> bool \<Rightarrow> rstring list" where
  "fallback_reasons r supported =
     (if req_enabled r \<and> req_namespace r \<and> \<not> supported
      then [lit ''namespace isolation unavailable (requires Linux with `unshare`)''] else []) @
     (if req_enabled r \<and> req_network r \<and> \<not> supported
      then [lit ''network isolation unavailable (requires Linux with `unshare`)''] else []) @
     (if req_enabled r \<and> req_filesystem r = Fs_AllowList \<and> req_mounts r = []
      then [lit ''filesystem allow-list requested without configured mounts''] else [])"

definition resolve_sandbox_status_for_request :: "host \<Rightarrow> sandbox_request \<Rightarrow> rstring \<Rightarrow> sandbox_status" where
  "resolve_sandbox_status_for_request h r cwd =
     (let container = detect_container_environment_from (host_inputs h);
          supported = (host_linux h \<and> unshare_works h);
          reasons = fallback_reasons r supported
      in \<lparr>st_enabled = req_enabled r, st_requested = r, st_supported = supported,
          st_active = (req_enabled r \<and> (\<not> req_namespace r \<or> supported) \<and> (\<not> req_network r \<or> supported)),
          namespace_supported = supported,
          namespace_active = (req_enabled r \<and> req_namespace r \<and> supported),
          network_supported = supported,
          network_active = (req_enabled r \<and> req_network r \<and> supported),
          filesystem_mode = req_filesystem r,
          filesystem_active = (req_enabled r \<and> req_filesystem r \<noteq> Fs_Off),
          allowed_mounts = normalize_mounts (req_mounts r) cwd,
          st_in_container = in_container container, container_markers = markers container,
          fallback_reason = (if reasons \<noteq> [] then Some (join (lit ''; '') reasons) else None)\<rparr>)"

definition resolve_sandbox_status :: "host \<Rightarrow> sandbox_config \<Rightarrow> rstring \<Rightarrow> sandbox_status" where
  "resolve_sandbox_status h c cwd = resolve_sandbox_status_for_request h (resolve_request c None None None None None) cwd"

definition build_linux_sandbox_command :: "host \<Rightarrow> rstring \<Rightarrow> rstring \<Rightarrow> sandbox_status \<Rightarrow> sandbox_command option" where
  "build_linux_sandbox_command h command cwd st =
     (if \<not> host_linux h \<or> \<not> st_enabled st \<or> \<not> namespace_active st \<and> \<not> network_active st then None
      else Some \<lparr>sandbox_program = lit ''unshare'',
        sandbox_args = map lit [''--user'', ''--map-root-user'', ''--mount'', ''--ipc'', ''--pid'', ''--uts'', ''--fork''] @
          (if network_active st then [lit ''--net''] else []) @ [lit ''sh'', lit ''-lc'', command],
        sandbox_env = [(lit ''HOME'', path_join cwd (lit ''.sandbox-home'')),
          (lit ''TMPDIR'', path_join cwd (lit ''.sandbox-tmp'')),
          (lit ''CLAWD_SANDBOX_FILESYSTEM_MODE'', fs_mode_as_str (filesystem_mode st)),
          (lit ''CLAWD_SANDBOX_ALLOWED_MOUNTS'', join [c_colon] (allowed_mounts st))] @
          (case map_of (env_pairs (host_inputs h)) (lit ''PATH'') of Some path \<Rightarrow> [(lit ''PATH'', path)] | None \<Rightarrow> [])\<rparr>)"

section \<open>Lemmas\<close>

text \<open>The markers are the found ones, each once, in order.\<close>

lemma distinct_remdups_adj_sorted: "sorted xs \<Longrightarrow> distinct (remdups_adj xs)"
  by (induction xs rule: remdups_adj.induct) (auto simp: order.order_iff_strict)

lemma remdups_adj_sort: "sorted xs \<Longrightarrow> remdups_adj xs = sorted_list_of_set (set xs)"
proof -
  assume s: "sorted xs"
  have "sorted (remdups_adj xs) \<and> distinct (remdups_adj xs)"
    using s by (simp add: distinct_remdups_adj_sorted sorted_remdups_adj)
  then show ?thesis using sorted_list_of_set.idem_if_sorted_distinct [of "remdups_adj xs"] by simp
qed

lemma markers_sorted: "markers (detect_container_environment_from d) = sorted_list_of_set (set (found_markers d))"
  by (simp add: detect_container_environment_from_def remdups_adj_sort Let_def)

lemma fallback_reasons_Nil_iff: "fallback_reasons r supported = [] \<longleftrightarrow>
    (req_enabled r \<longrightarrow> (req_namespace r \<or> req_network r \<longrightarrow> supported) \<and> (req_filesystem r = Fs_AllowList \<longrightarrow> req_mounts r \<noteq> []))"
  by (auto simp: fallback_reasons_def)

lemmas status_simps = resolve_sandbox_status_for_request_def Let_def

text \<open>
  The status reports no fallback exactly when every requested isolation is in effect, and an active
  sandbox never reports the lack of a namespace.  The launcher isolates exactly what the status says.\<close>

theorem sandbox_status_honest:
  "let st = resolve_sandbox_status_for_request h r cwd in (fallback_reason st = None \<longleftrightarrow>
      (if req_enabled r then st_active st \<and> namespace_active st = req_namespace r \<and> network_active st = req_network r \<and>
         \<not> (req_filesystem r = Fs_AllowList \<and> allowed_mounts st = []) else True)) \<and>
    (case build_linux_sandbox_command h command cwd st of
       None \<Rightarrow> \<not> namespace_active st \<and> \<not> network_active st
     | Some launcher \<Rightarrow> st_active st \<and> (lit ''--net'' \<in> set (butlast (sandbox_args launcher)) \<longleftrightarrow> network_active st) \<and>
         last (sandbox_args launcher) = command \<and> lit ''--user'' \<in> set (sandbox_args launcher))"
proof -
  define st where "st = resolve_sandbox_status_for_request h r cwd"
  have "fallback_reason st = None \<longleftrightarrow> fallback_reasons r (host_linux h \<and> unshare_works h) = []"
    by (simp add: st_def status_simps)
  then have 1: "fallback_reason st = None \<longleftrightarrow>
      (if req_enabled r then st_active st \<and> namespace_active st = req_namespace r \<and> network_active st = req_network r \<and>
         \<not> (req_filesystem r = Fs_AllowList \<and> allowed_mounts st = []) else True)"
    by (auto simp: fallback_reasons_Nil_iff st_def status_simps normalize_mounts_def)
  show ?thesis
    unfolding st_def [symmetric] Let_def using 1 by (auto simp: st_def build_linux_sandbox_command_def status_simps butlast_append split: if_splits)
qed

text \<open>
  The isolation of the file system is reported active but changes neither the program that is run nor its
  arguments: a command runs the same way under every filesystem mode and every list of mounts.\<close>

theorem filesystem_mode_not_enforced:
  "let launch = (\<lambda>mode mounts. build_linux_sandbox_command h command cwd
      (resolve_sandbox_status_for_request h (r\<lparr>req_filesystem := mode, req_mounts := mounts\<rparr>) cwd))
   in map_option sandbox_program (launch mode mounts) = map_option sandbox_program (launch Fs_Off []) \<and>
    map_option sandbox_args (launch mode mounts) = map_option sandbox_args (launch Fs_Off []) \<and>
    filesystem_active (resolve_sandbox_status_for_request h (r\<lparr>req_enabled := True, req_filesystem := Fs_WorkspaceOnly\<rparr>) cwd)"
  by (simp add: build_linux_sandbox_command_def status_simps)

end
