(* ===== verification/Config.thy ===== *)
theory Config imports Session Permissions Hooks Paths Sandbox begin

text \<open>
  Settings (\<^verbatim>\<open>crates/runtime/src/config.rs\<close>): the files in order of precedence, the deep merge of their objects,
  the servers with the scope that defined them, and the typed views parsed out of the merged object.

  A \<^verbatim>\<open>BTreeMap\<close> is its sorted association list.  Reading a file is the parameter \<open>read\<close>; an error of reading
  is its message.  \<^verbatim>\<open>Path::display\<close> is the text of the path.
\<close>

section \<open>Data\<close>

type_synonym u16 = "16 word"

datatype config_source = Source_User | Source_Project | Source_Local

datatype resolved_permission_mode = Resolved_ReadOnly | Resolved_WorkspaceWrite | Resolved_DangerFullAccess

record config_entry =
  entry_source :: config_source
  entry_path :: rstring

datatype config_error = Config_Io rstring | Config_Parse rstring

fun show_config_error :: "config_error \<Rightarrow> rstring" where
  "show_config_error (Config_Io e) = e"
| "show_config_error (Config_Parse e) = e"

record plugin_config =
  enabled_plugins :: "(rstring \<times> bool) list"
  external_directories :: "rstring list"
  install_root :: "rstring option"
  registry_path :: "rstring option"
  bundled_root :: "rstring option"

record mcp_stdio_config =
  stdio_command :: rstring
  stdio_args :: "rstring list"
  stdio_env :: "(rstring \<times> rstring) list"
  tool_call_timeout_ms :: "u64 option"

record mcp_oauth_config =
  mcp_client_id :: "rstring option"
  mcp_callback_port :: "u16 option"
  auth_server_metadata_url :: "rstring option"
  xaa :: "bool option"

record mcp_remote_config =
  remote_url :: rstring
  remote_headers :: "(rstring \<times> rstring) list"
  remote_helper :: "rstring option"
  remote_oauth :: "mcp_oauth_config option"

record mcp_ws_config =
  ws_url :: rstring
  ws_headers :: "(rstring \<times> rstring) list"
  ws_helper :: "rstring option"

record mcp_proxy_config =
  proxy_url :: rstring
  proxy_id :: rstring

datatype mcp_transport = Transport_Stdio | Transport_Sse | Transport_Http | Transport_Ws | Transport_Sdk | Transport_ManagedProxy

datatype mcp_server_config =
    Mcp_Stdio mcp_stdio_config
  | Mcp_Sse mcp_remote_config
  | Mcp_Http mcp_remote_config
  | Mcp_Ws mcp_ws_config
  | Mcp_Sdk rstring
  | Mcp_ManagedProxy mcp_proxy_config

fun mcp_transport_of :: "mcp_server_config \<Rightarrow> mcp_transport" where
  "mcp_transport_of (Mcp_Stdio _) = Transport_Stdio"
| "mcp_transport_of (Mcp_Sse _) = Transport_Sse"
| "mcp_transport_of (Mcp_Http _) = Transport_Http"
| "mcp_transport_of (Mcp_Ws _) = Transport_Ws"
| "mcp_transport_of (Mcp_Sdk _) = Transport_Sdk"
| "mcp_transport_of (Mcp_ManagedProxy _) = Transport_ManagedProxy"

record scoped_server =
  server_scope :: config_source
  server_config :: mcp_server_config

record oauth_config =
  oauth_client_id :: rstring
  oauth_authorize_url :: rstring
  oauth_token_url :: rstring
  oauth_callback_port :: "u16 option"
  oauth_manual_redirect_url :: "rstring option"
  oauth_scopes :: "rstring list"

record feature_config =
  cfg_hooks :: hook_config
  cfg_plugins :: plugin_config
  cfg_mcp :: "(rstring \<times> scoped_server) list"
  cfg_oauth :: "oauth_config option"
  cfg_model :: "rstring option"
  cfg_permission_mode :: "resolved_permission_mode option"
  cfg_permission_rules :: permission_rule_config
  cfg_sandbox :: sandbox_config

record runtime_config =
  merged :: json_object
  loaded_entries :: "config_entry list"
  features :: feature_config

definition no_hooks :: hook_config where
  "no_hooks = \<lparr>pre_tool_use = [], post_tool_use = [], post_tool_use_failure = []\<rparr>"

definition no_rules :: permission_rule_config where
  "no_rules = \<lparr>cfg_allow = [], cfg_deny = [], cfg_ask = []\<rparr>"

definition no_plugins :: plugin_config where
  "no_plugins = \<lparr>enabled_plugins = [], external_directories = [], install_root = None, registry_path = None, bundled_root = None\<rparr>"

definition config_empty :: runtime_config where
  "config_empty = \<lparr>merged = [], loaded_entries = [], features = \<lparr>cfg_hooks = no_hooks, cfg_plugins = no_plugins, cfg_mcp = [],
     cfg_oauth = None, cfg_model = None, cfg_permission_mode = None, cfg_permission_rules = no_rules,
     cfg_sandbox = sandbox_config_default\<rparr>\<rparr>"

definition set_plugin_state :: "rstring \<Rightarrow> bool \<Rightarrow> plugin_config \<Rightarrow> plugin_config" where
  "set_plugin_state plugin_id enabled c = c\<lparr>enabled_plugins := bt_insert plugin_id enabled (enabled_plugins c)\<rparr>"

definition state_for :: "plugin_config \<Rightarrow> rstring \<Rightarrow> bool \<Rightarrow> bool" where
  "state_for c plugin_id default_enabled = unwrap_or default_enabled (map_of (enabled_plugins c) plugin_id)"

section \<open>Typed fields of an object\<close>

definition field_error :: "rstring \<Rightarrow> rstring \<Rightarrow> rstring \<Rightarrow> config_error" where
  "field_error ctx key what = Config_Parse (ctx @ lit '': field '' @ key @ what)"

definition expect_object :: "json_value \<Rightarrow> rstring \<Rightarrow> config_error + json_object" where
  "expect_object v ctx = ok_or (Config_Parse (ctx @ lit '': expected JSON object'')) (as_object v)"

definition expect_string :: "json_object \<Rightarrow> rstring \<Rightarrow> rstring \<Rightarrow> config_error + rstring" where
  "expect_string obj key ctx =
     ok_or (Config_Parse (ctx @ lit '': missing string field '' @ key)) (Option.bind (map_of obj key) as_str)"

text \<open>The common shape of the optional fields: absent, of the wrong kind, or read.\<close>

definition optional_field :: "(json_value \<Rightarrow> 'a option) \<Rightarrow> rstring \<Rightarrow> json_object \<Rightarrow> rstring \<Rightarrow> rstring \<Rightarrow> config_error + 'a option" where
  "optional_field get what obj key ctx = (case map_of obj key of
     Some v \<Rightarrow> ok_or (field_error ctx key what) (map_option Some (get v))
   | None \<Rightarrow> Inr None)"

definition optional_string :: "json_object \<Rightarrow> rstring \<Rightarrow> rstring \<Rightarrow> config_error + rstring option" where
  "optional_string = optional_field as_str (lit '' must be a string'')"

definition optional_bool :: "json_object \<Rightarrow> rstring \<Rightarrow> rstring \<Rightarrow> config_error + bool option" where
  "optional_bool = optional_field as_bool (lit '' must be a boolean'')"

definition u16_try_from :: "i64 \<Rightarrow> u16 option" where
  "u16_try_from n = (if 0 \<le> sint n \<and> sint n < 2 ^ 16 then Some (word_of_int (sint n)) else None)"

definition optional_u16 :: "json_object \<Rightarrow> rstring \<Rightarrow> rstring \<Rightarrow> config_error + u16 option" where
  "optional_u16 obj key ctx = (case map_of obj key of
     Some v \<Rightarrow> (case as_i64 v of
         None \<Rightarrow> Inl (field_error ctx key (lit '' must be an integer''))
       | Some n \<Rightarrow> ok_or (field_error ctx key (lit '' is out of range'')) (map_option Some (u16_try_from n)))
   | None \<Rightarrow> Inr None)"

definition optional_u64 :: "json_object \<Rightarrow> rstring \<Rightarrow> rstring \<Rightarrow> config_error + u64 option" where
  "optional_u64 obj key ctx = (case map_of obj key of
     Some v \<Rightarrow> (case as_i64 v of
         None \<Rightarrow> Inl (field_error ctx key (lit '' must be a non-negative integer''))
       | Some n \<Rightarrow> ok_or (field_error ctx key (lit '' is out of range'')) (map_option Some (u64_try_from n)))
   | None \<Rightarrow> Inr None)"

definition bt_collect :: "('k::linorder \<times> 'v) list \<Rightarrow> ('k \<times> 'v) list" where
  "bt_collect kvs = fold (\<lambda>(k, v). bt_insert k v) kvs []"

definition parse_bool_map :: "json_value \<Rightarrow> rstring \<Rightarrow> config_error + (rstring \<times> bool) list" where
  "parse_bool_map v ctx = (case as_object v of
     None \<Rightarrow> Inl (Config_Parse (ctx @ lit '': expected JSON object''))
   | Some m \<Rightarrow> rbind (collect_results (\<lambda>(key, v). ok_or (field_error ctx key (lit '' must be a boolean''))
         (map_option (\<lambda>enabled. (key, enabled)) (as_bool v))) m)
       (\<lambda>kvs. Inr (bt_collect kvs)))"

definition optional_string_array :: "json_object \<Rightarrow> rstring \<Rightarrow> rstring \<Rightarrow> config_error + rstring list option" where
  "optional_string_array obj key ctx = (case map_of obj key of
     Some v \<Rightarrow> (case as_array v of
         None \<Rightarrow> Inl (field_error ctx key (lit '' must be an array''))
       | Some items \<Rightarrow> rbind (collect_results
             (\<lambda>item. ok_or (field_error ctx key (lit '' must contain only strings'')) (as_str item)) items)
           (\<lambda>texts. Inr (Some texts)))
   | None \<Rightarrow> Inr None)"

definition optional_string_map :: "json_object \<Rightarrow> rstring \<Rightarrow> rstring \<Rightarrow> config_error + (rstring \<times> rstring) list option" where
  "optional_string_map obj key ctx = (case map_of obj key of
     Some v \<Rightarrow> (case as_object v of
         None \<Rightarrow> Inl (field_error ctx key (lit '' must be an object''))
       | Some m \<Rightarrow> rbind (collect_results (\<lambda>(k, v).
             ok_or (field_error ctx key (lit '' must contain only string values'')) (map_option (\<lambda>s. (k, s)) (as_str v))) m)
           (\<lambda>kvs. Inr (Some (bt_collect kvs))))
   | None \<Rightarrow> Inr None)"

definition string_list :: "json_object \<Rightarrow> rstring \<Rightarrow> rstring \<Rightarrow> config_error + rstring list" where
  "string_list obj key ctx = rbind (optional_string_array obj key ctx) (\<lambda>x. Inr (unwrap_or [] x))"

definition string_map :: "json_object \<Rightarrow> rstring \<Rightarrow> rstring \<Rightarrow> config_error + (rstring \<times> rstring) list" where
  "string_map obj key ctx = rbind (optional_string_map obj key ctx) (\<lambda>x. Inr (unwrap_or [] x))"

section \<open>The views of the merged object\<close>

definition parse_optional_model :: "json_value \<Rightarrow> rstring option" where
  "parse_optional_model root = Option.bind (Option.bind (as_object root) (\<lambda>obj. map_of obj (lit ''model''))) as_str"

definition parse_optional_hooks_config_object :: "json_object \<Rightarrow> rstring \<Rightarrow> config_error + hook_config" where
  "parse_optional_hooks_config_object obj ctx = (case map_of obj (lit ''hooks'') of
     None \<Rightarrow> Inr no_hooks
   | Some v \<Rightarrow>
       rbind (expect_object v ctx) (\<lambda>hooks.
       rbind (string_list hooks (lit ''PreToolUse'') ctx) (\<lambda>pre.
       rbind (string_list hooks (lit ''PostToolUse'') ctx) (\<lambda>post.
       rbind (string_list hooks (lit ''PostToolUseFailure'') ctx) (\<lambda>failure.
       Inr \<lparr>pre_tool_use = pre, post_tool_use = post, post_tool_use_failure = failure\<rparr>)))))"

definition parse_optional_hooks_config :: "json_value \<Rightarrow> config_error + hook_config" where
  "parse_optional_hooks_config root = (case as_object root of
     None \<Rightarrow> Inr no_hooks
   | Some obj \<Rightarrow> parse_optional_hooks_config_object obj (lit ''merged settings.hooks''))"

definition validate_optional_hooks_config :: "json_object \<Rightarrow> rstring \<Rightarrow> config_error + unit" where
  "validate_optional_hooks_config root path =
     rbind (parse_optional_hooks_config_object root (path @ lit '': hooks'')) (\<lambda>_. Inr ())"

definition parse_optional_permission_rules :: "json_value \<Rightarrow> config_error + permission_rule_config" where
  "parse_optional_permission_rules root =
     (case Option.bind (Option.bind (as_object root) (\<lambda>obj. map_of obj (lit ''permissions''))) as_object of
        None \<Rightarrow> Inr no_rules
      | Some permissions \<Rightarrow>
          rbind (string_list permissions (lit ''allow'') (lit ''merged settings.permissions'')) (\<lambda>allow.
          rbind (string_list permissions (lit ''deny'') (lit ''merged settings.permissions'')) (\<lambda>deny.
          rbind (string_list permissions (lit ''ask'') (lit ''merged settings.permissions'')) (\<lambda>ask.
          Inr \<lparr>cfg_allow = allow, cfg_deny = deny, cfg_ask = ask\<rparr>))))"

definition parse_plugin_fields :: "json_object \<Rightarrow> plugin_config \<Rightarrow> config_error + plugin_config" where
  "parse_plugin_fields plugins config =
     (let ctx = lit ''merged settings.plugins''
      in rbind (case map_of plugins (lit ''enabled'') of
            None \<Rightarrow> Inr config
          | Some v \<Rightarrow> rbind (parse_bool_map v (lit ''merged settings.plugins.enabled''))
              (\<lambda>m. Inr (config\<lparr>enabled_plugins := m\<rparr>))) (\<lambda>config1.
         rbind (string_list plugins (lit ''externalDirectories'') ctx) (\<lambda>directories.
         rbind (optional_string plugins (lit ''installRoot'') ctx) (\<lambda>root.
         rbind (optional_string plugins (lit ''registryPath'') ctx) (\<lambda>registry.
         rbind (optional_string plugins (lit ''bundledRoot'') ctx) (\<lambda>bundled.
         Inr (config1\<lparr>external_directories := directories, install_root := root, registry_path := registry,
           bundled_root := bundled\<rparr>)))))))"

definition parse_optional_plugin_config :: "json_value \<Rightarrow> config_error + plugin_config" where
  "parse_optional_plugin_config root = (case as_object root of
     None \<Rightarrow> Inr no_plugins
   | Some obj \<Rightarrow>
       rbind (case map_of obj (lit ''enabledPlugins'') of
           None \<Rightarrow> Inr no_plugins
         | Some v \<Rightarrow> rbind (parse_bool_map v (lit ''merged settings.enabledPlugins''))
             (\<lambda>m. Inr (no_plugins\<lparr>enabled_plugins := m\<rparr>))) (\<lambda>config.
       case map_of obj (lit ''plugins'') of
         None \<Rightarrow> Inr config
       | Some v \<Rightarrow> rbind (expect_object v (lit ''merged settings.plugins'')) (\<lambda>plugins. parse_plugin_fields plugins config)))"

definition parse_permission_mode_label :: "rstring \<Rightarrow> rstring \<Rightarrow> config_error + resolved_permission_mode" where
  "parse_permission_mode_label mode ctx =
     (if mode \<in> {lit ''default'', lit ''plan'', lit ''read-only''} then Inr Resolved_ReadOnly
      else if mode \<in> {lit ''acceptEdits'', lit ''auto'', lit ''workspace-write''} then Inr Resolved_WorkspaceWrite
      else if mode \<in> {lit ''dontAsk'', lit ''danger-full-access''} then Inr Resolved_DangerFullAccess
      else Inl (Config_Parse (ctx @ lit '': unsupported permission mode '' @ mode)))"

definition parse_optional_permission_mode :: "json_value \<Rightarrow> config_error + resolved_permission_mode option" where
  "parse_optional_permission_mode root = (case as_object root of
     None \<Rightarrow> Inr None
   | Some obj \<Rightarrow> (case Option.bind (map_of obj (lit ''permissionMode'')) as_str of
       Some mode \<Rightarrow> rbind (parse_permission_mode_label mode (lit ''merged settings.permissionMode'')) (\<lambda>m. Inr (Some m))
     | None \<Rightarrow> (case Option.bind (Option.bind (Option.bind (map_of obj (lit ''permissions'')) as_object)
             (\<lambda>permissions. map_of permissions (lit ''defaultMode''))) as_str of
         None \<Rightarrow> Inr None
       | Some mode \<Rightarrow> rbind (parse_permission_mode_label mode (lit ''merged settings.permissions.defaultMode''))
           (\<lambda>m. Inr (Some m)))))"

definition parse_filesystem_mode_label :: "rstring \<Rightarrow> config_error + filesystem_isolation_mode" where
  "parse_filesystem_mode_label v =
     (if v = lit ''off'' then Inr Fs_Off
      else if v = lit ''workspace-only'' then Inr Fs_WorkspaceOnly
      else if v = lit ''allow-list'' then Inr Fs_AllowList
      else Inl (Config_Parse (lit ''merged settings.sandbox.filesystemMode: unsupported filesystem mode '' @ v)))"

definition parse_optional_sandbox_config :: "json_value \<Rightarrow> config_error + sandbox_config" where
  "parse_optional_sandbox_config root =
     (case Option.bind (as_object root) (\<lambda>obj. map_of obj (lit ''sandbox'')) of
        None \<Rightarrow> Inr sandbox_config_default
      | Some v \<Rightarrow>
          let ctx = lit ''merged settings.sandbox''
          in rbind (expect_object v ctx) (\<lambda>sandbox.
             rbind (rbind (optional_string sandbox (lit ''filesystemMode'') ctx) (transpose_map parse_filesystem_mode_label)) (\<lambda>mode.
             rbind (optional_bool sandbox (lit ''enabled'') ctx) (\<lambda>enabled.
             rbind (optional_bool sandbox (lit ''namespaceRestrictions'') ctx) (\<lambda>namespace.
             rbind (optional_bool sandbox (lit ''networkIsolation'') ctx) (\<lambda>network.
             rbind (string_list sandbox (lit ''allowedMounts'') ctx) (\<lambda>mounts.
             Inr \<lparr>cfg_enabled = enabled, cfg_namespace = namespace, cfg_network = network, cfg_filesystem = mode,
               cfg_mounts = mounts\<rparr>)))))))"

definition parse_optional_oauth_config :: "json_value \<Rightarrow> rstring \<Rightarrow> config_error + oauth_config option" where
  "parse_optional_oauth_config root ctx =
     (case Option.bind (as_object root) (\<lambda>obj. map_of obj (lit ''oauth'')) of
        None \<Rightarrow> Inr None
      | Some v \<Rightarrow>
          rbind (expect_object v ctx) (\<lambda>obj.
          rbind (expect_string obj (lit ''clientId'') ctx) (\<lambda>client.
          rbind (expect_string obj (lit ''authorizeUrl'') ctx) (\<lambda>authorize.
          rbind (expect_string obj (lit ''tokenUrl'') ctx) (\<lambda>token.
          rbind (optional_u16 obj (lit ''callbackPort'') ctx) (\<lambda>port.
          rbind (optional_string obj (lit ''manualRedirectUrl'') ctx) (\<lambda>manual.
          rbind (string_list obj (lit ''scopes'') ctx) (\<lambda>scopes.
          Inr (Some \<lparr>oauth_client_id = client, oauth_authorize_url = authorize, oauth_token_url = token,
            oauth_callback_port = port, oauth_manual_redirect_url = manual, oauth_scopes = scopes\<rparr>)))))))))"

section \<open>Servers\<close>

definition parse_optional_mcp_oauth_config :: "json_object \<Rightarrow> rstring \<Rightarrow> config_error + mcp_oauth_config option" where
  "parse_optional_mcp_oauth_config obj ctx = (case map_of obj (lit ''oauth'') of
     None \<Rightarrow> Inr None
   | Some v \<Rightarrow>
       rbind (expect_object v (ctx @ lit ''.oauth'')) (\<lambda>oauth.
       rbind (optional_string oauth (lit ''clientId'') ctx) (\<lambda>client.
       rbind (optional_u16 oauth (lit ''callbackPort'') ctx) (\<lambda>port.
       rbind (optional_string oauth (lit ''authServerMetadataUrl'') ctx) (\<lambda>url.
       rbind (optional_bool oauth (lit ''xaa'') ctx) (\<lambda>x.
       Inr (Some \<lparr>mcp_client_id = client, mcp_callback_port = port, auth_server_metadata_url = url, xaa = x\<rparr>)))))))"

definition parse_mcp_remote_server_config :: "json_object \<Rightarrow> rstring \<Rightarrow> config_error + mcp_remote_config" where
  "parse_mcp_remote_server_config obj ctx =
     rbind (expect_string obj (lit ''url'') ctx) (\<lambda>url.
     rbind (string_map obj (lit ''headers'') ctx) (\<lambda>headers.
     rbind (optional_string obj (lit ''headersHelper'') ctx) (\<lambda>helper.
     rbind (parse_optional_mcp_oauth_config obj ctx) (\<lambda>oauth.
     Inr \<lparr>remote_url = url, remote_headers = headers, remote_helper = helper, remote_oauth = oauth\<rparr>))))"

definition infer_mcp_server_type :: "json_object \<Rightarrow> rstring" where
  "infer_mcp_server_type obj = (if map_of obj (lit ''url'') \<noteq> None then lit ''http'' else lit ''stdio'')"

definition parse_mcp_stdio :: "json_object \<Rightarrow> rstring \<Rightarrow> config_error + mcp_server_config" where
  "parse_mcp_stdio obj ctx =
     rbind (expect_string obj (lit ''command'') ctx) (\<lambda>command.
     rbind (string_list obj (lit ''args'') ctx) (\<lambda>args.
     rbind (string_map obj (lit ''env'') ctx) (\<lambda>environment.
     rbind (optional_u64 obj (lit ''toolCallTimeoutMs'') ctx) (\<lambda>timeout.
     Inr (Mcp_Stdio \<lparr>stdio_command = command, stdio_args = args, stdio_env = environment, tool_call_timeout_ms = timeout\<rparr>)))))"

definition parse_mcp_ws :: "json_object \<Rightarrow> rstring \<Rightarrow> config_error + mcp_server_config" where
  "parse_mcp_ws obj ctx =
     rbind (expect_string obj (lit ''url'') ctx) (\<lambda>url.
     rbind (string_map obj (lit ''headers'') ctx) (\<lambda>headers.
     rbind (optional_string obj (lit ''headersHelper'') ctx) (\<lambda>helper.
     Inr (Mcp_Ws \<lparr>ws_url = url, ws_headers = headers, ws_helper = helper\<rparr>))))"

definition parse_mcp_server_config :: "rstring \<Rightarrow> json_value \<Rightarrow> rstring \<Rightarrow> config_error + mcp_server_config" where
  "parse_mcp_server_config server_name v ctx =
     rbind (expect_object v ctx) (\<lambda>obj.
     rbind (optional_string obj (lit ''type'') ctx) (\<lambda>given.
       let kind = unwrap_or (infer_mcp_server_type obj) given
       in if kind = lit ''stdio'' then parse_mcp_stdio obj ctx
          else if kind = lit ''sse'' then rbind (parse_mcp_remote_server_config obj ctx) (\<lambda>c. Inr (Mcp_Sse c))
          else if kind = lit ''http'' then rbind (parse_mcp_remote_server_config obj ctx) (\<lambda>c. Inr (Mcp_Http c))
          else if kind = lit ''ws'' then parse_mcp_ws obj ctx
          else if kind = lit ''sdk'' then rbind (expect_string obj (lit ''name'') ctx) (\<lambda>name. Inr (Mcp_Sdk name))
          else if kind = lit ''claudeai-proxy'' then
            rbind (expect_string obj (lit ''url'') ctx) (\<lambda>url.
            rbind (expect_string obj (lit ''id'') ctx) (\<lambda>i.
            Inr (Mcp_ManagedProxy \<lparr>proxy_url = url, proxy_id = i\<rparr>)))
          else Inl (Config_Parse (ctx @ lit '': unsupported MCP server type for '' @ server_name @ lit '': '' @ kind))))"

fun merge_server_list :: "config_source \<Rightarrow> rstring \<Rightarrow> json_object \<Rightarrow> (rstring \<times> scoped_server) list \<Rightarrow>
    config_error + (rstring \<times> scoped_server) list" where
  "merge_server_list source path [] target = Inr target"
| "merge_server_list source path ((name, v) # servers) target =
     rbind (parse_mcp_server_config name v (path @ lit '': mcpServers.'' @ name)) (\<lambda>parsed.
       merge_server_list source path servers (bt_insert name \<lparr>server_scope = source, server_config = parsed\<rparr> target))"

definition merge_mcp_servers :: "(rstring \<times> scoped_server) list \<Rightarrow> config_source \<Rightarrow> json_object \<Rightarrow> rstring \<Rightarrow>
    config_error + (rstring \<times> scoped_server) list" where
  "merge_mcp_servers target source root path = (case map_of root (lit ''mcpServers'') of
     None \<Rightarrow> Inr target
   | Some v \<Rightarrow> rbind (expect_object v (path @ lit '': mcpServers'')) (\<lambda>servers. merge_server_list source path servers target))"

section \<open>Merging and loading\<close>

text \<open>The measure is the number of entries at all depths.\<close>

function deep_merge_objects :: "json_object \<Rightarrow> json_object \<Rightarrow> json_object" where
  "deep_merge_objects target [] = target"
| "deep_merge_objects target ((key, v) # source) = deep_merge_objects
     (case (map_of target key, v) of
        (Some (JObject existing), JObject incoming) \<Rightarrow> bt_insert key (JObject (deep_merge_objects existing incoming)) target
      | _ \<Rightarrow> bt_insert key v target) source"
  by pat_completeness auto
termination
  by (relation "measure (\<lambda>(target, source). size_list (size_prod (\<lambda>_. 0) size) source)") auto

datatype file_result = File_NotFound | File_Failed rstring | File_Text rstring

definition read_optional_json_object :: "(rstring \<Rightarrow> file_result) \<Rightarrow> rstring \<Rightarrow> config_error + json_object option" where
  "read_optional_json_object read path =
     (let is_legacy_config = (file_name path = Some (lit ''.claw.json''))
      in case read path of
           File_NotFound \<Rightarrow> Inr None
         | File_Failed e \<Rightarrow> Inl (Config_Io e)
         | File_Text contents \<Rightarrow>
             if trim contents = [] then Inr (Some [])
             else (case parse_text contents of
               Inl e \<Rightarrow> if is_legacy_config then Inr None else Inl (Config_Parse (path @ lit '': '' @ show_json_error e))
             | Inr parsed \<Rightarrow> (case as_object parsed of
                 None \<Rightarrow> if is_legacy_config then Inr None
                   else Inl (Config_Parse (path @ lit '': top-level settings value must be a JSON object''))
               | Some obj \<Rightarrow> Inr (Some obj))))"

definition default_config_home :: "(rstring \<Rightarrow> rstring option) \<Rightarrow> rstring" where
  "default_config_home env_var = (case env_var (lit ''CLAW_CONFIG_HOME'') of
     Some home \<Rightarrow> home
   | None \<Rightarrow> (case env_var (lit ''HOME'') of
       Some home \<Rightarrow> path_join home (lit ''.claw'')
     | None \<Rightarrow> lit ''.claw''))"

definition discover :: "rstring \<Rightarrow> rstring \<Rightarrow> config_entry list" where
  "discover cwd config_home =
     [\<lparr>entry_source = Source_User, entry_path = (case path_parent config_home of
          None \<Rightarrow> lit ''.claw.json'' | Some parent \<Rightarrow> path_join parent (lit ''.claw.json''))\<rparr>,
      \<lparr>entry_source = Source_User, entry_path = path_join config_home (lit ''settings.json'')\<rparr>,
      \<lparr>entry_source = Source_Project, entry_path = path_join cwd (lit ''.claw.json'')\<rparr>,
      \<lparr>entry_source = Source_Project, entry_path = path_join (path_join cwd (lit ''.claw'')) (lit ''settings.json'')\<rparr>,
      \<lparr>entry_source = Source_Local, entry_path = path_join (path_join cwd (lit ''.claw'')) (lit ''settings.local.json'')\<rparr>]"

record load_state =
  load_merged :: json_object
  load_entries :: "config_entry list"
  load_servers :: "(rstring \<times> scoped_server) list"

definition load_entry :: "(rstring \<Rightarrow> file_result) \<Rightarrow> config_entry \<Rightarrow> load_state \<Rightarrow> config_error + load_state" where
  "load_entry read entry s =
     rbind (read_optional_json_object read (entry_path entry)) (\<lambda>found. case found of
       None \<Rightarrow> Inr s
     | Some v \<Rightarrow>
         rbind (validate_optional_hooks_config v (entry_path entry)) (\<lambda>_.
         rbind (merge_mcp_servers (load_servers s) (entry_source entry) v (entry_path entry)) (\<lambda>servers.
         Inr \<lparr>load_merged = deep_merge_objects (load_merged s) v, load_entries = load_entries s @ [entry],
           load_servers = servers\<rparr>)))"

fun load_loop :: "(rstring \<Rightarrow> file_result) \<Rightarrow> config_entry list \<Rightarrow> load_state \<Rightarrow> config_error + load_state" where
  "load_loop read [] s = Inr s"
| "load_loop read (entry # rest) s = rbind (load_entry read entry s) (load_loop read rest)"

definition parse_features :: "json_object \<Rightarrow> (rstring \<times> scoped_server) list \<Rightarrow> config_error + feature_config" where
  "parse_features obj servers =
     (let root = JObject obj
      in rbind (parse_optional_hooks_config root) (\<lambda>hooks.
         rbind (parse_optional_plugin_config root) (\<lambda>plugins.
         rbind (parse_optional_oauth_config root (lit ''merged settings.oauth'')) (\<lambda>oauth.
         rbind (parse_optional_permission_mode root) (\<lambda>mode.
         rbind (parse_optional_permission_rules root) (\<lambda>rules.
         rbind (parse_optional_sandbox_config root) (\<lambda>sandbox.
         Inr \<lparr>cfg_hooks = hooks, cfg_plugins = plugins, cfg_mcp = servers, cfg_oauth = oauth,
           cfg_model = parse_optional_model root, cfg_permission_mode = mode, cfg_permission_rules = rules,
           cfg_sandbox = sandbox\<rparr>)))))))"

definition load_config :: "(rstring \<Rightarrow> file_result) \<Rightarrow> rstring \<Rightarrow> rstring \<Rightarrow> config_error + runtime_config" where
  "load_config read cwd config_home =
     rbind (load_loop read (discover cwd config_home) \<lparr>load_merged = [], load_entries = [], load_servers = []\<rparr>) (\<lambda>s.
     rbind (parse_features (load_merged s) (load_servers s)) (\<lambda>f.
     Inr \<lparr>merged = load_merged s, loaded_entries = load_entries s, features = f\<rparr>))"

section \<open>The merge of two objects\<close>

fun merge_value :: "json_value option \<Rightarrow> json_value \<Rightarrow> json_value" where
  "merge_value (Some (JObject existing)) (JObject incoming) = JObject (deep_merge_objects existing incoming)"
| "merge_value _ v = v"

lemma merge_value_eq:
  "(case map_of target key of
      None \<Rightarrow> bt_insert key v target
    | Some (JObject existing) \<Rightarrow>
        (case v of JObject incoming \<Rightarrow> bt_insert key (JObject (deep_merge_objects existing incoming)) target
         | _ \<Rightarrow> bt_insert key v target)
    | Some _ \<Rightarrow> bt_insert key v target) = bt_insert key (merge_value (map_of target key) v) target"
  by (auto split: option.split json_value.split)

lemma deep_merge_Cons:
  "deep_merge_objects target ((key, v) # source) =
     deep_merge_objects (bt_insert key (merge_value (map_of target key) v) target) source"
  by (simp only: deep_merge_objects.simps prod.case merge_value_eq)

declare deep_merge_objects.simps(2) [simp del]
declare deep_merge_Cons [simp]

lemma deep_merge_bt_ok: "bt_ok target \<Longrightarrow> bt_ok (deep_merge_objects target source)"
proof (induction source arbitrary: target)
  case (Cons e es)
  then show ?case by (cases e) (simp only: deep_merge_Cons bt_ok_insert)
qed simp

lemma deep_merge_lookup:
  "bt_ok target \<Longrightarrow> bt_ok source \<Longrightarrow> map_of (deep_merge_objects target source) k =
     (case map_of source k of None \<Rightarrow> map_of target k | Some v \<Rightarrow> Some (merge_value (map_of target k) v))"
proof (induction source arbitrary: target)
  case (Cons e source)
  obtain key v where [simp]: "e = (key, v)" by (cases e)
  have "map_of source key = None" using Cons.prems(2) by (auto simp: map_of_eq_None_iff)
  then show ?case using Cons by (auto simp: map_of_bt_insert bt_ok_insert split: option.split)
qed simp

lemma json_ok_lookup: "json_ok (JObject es) \<Longrightarrow> map_of es k = Some v \<Longrightarrow> json_ok v"
  by (auto dest!: map_of_SomeD)

lemma deep_merge_json_ok:
  "json_ok (JObject target) \<Longrightarrow> json_ok (JObject source) \<Longrightarrow> json_ok (JObject (deep_merge_objects target source))"
proof (induction target source rule: deep_merge_objects.induct)
  case (2 target key v source)
  have v: "json_ok v" and src: "json_ok (JObject source)" using 2(4) by auto
  have m: "json_ok (merge_value (map_of target key) v)"
  proof (cases "\<exists>existing incoming. map_of target key = Some (JObject existing) \<and> v = JObject incoming")
    case True
    then obtain existing incoming where *: "map_of target key = Some (JObject existing)" "v = JObject incoming" by blast
    show ?thesis using 2(1) [OF refl *(1) refl *(2)] v json_ok_lookup [OF 2(3) *(1)] * by simp
  next
    case False
    then have "merge_value (map_of target key) v = v"
      by (cases "(map_of target key, v)" rule: merge_value.cases) auto
    then show ?thesis using v by simp
  qed
  let ?t = "bt_insert key (merge_value (map_of target key) v) target"
  have t: "json_ok (JObject ?t)"
    using m 2(3) set_bt_insert_subset [of key "merge_value (map_of target key) v" target] by (auto simp: bt_ok_insert)
  show ?case using 2(2) [unfolded merge_value_eq, OF t src] by simp
qed simp


section \<open>Paths into a value\<close>

fun json_at :: "rstring list \<Rightarrow> json_value \<Rightarrow> json_value option" where
  "json_at [] v = Some v"
| "json_at (k # path) (JObject es) = (case map_of es k of None \<Rightarrow> None | Some v \<Rightarrow> json_at path v)"
| "json_at (k # path) _ = None"

text \<open>Something that is not an object lies on the way: it replaces whatever was below it.\<close>

fun hides :: "rstring list \<Rightarrow> json_value \<Rightarrow> bool" where
  "hides [] v \<longleftrightarrow> False"
| "hides (k # path) (JObject es) \<longleftrightarrow> (case map_of es k of None \<Rightarrow> False | Some v \<Rightarrow> hides path v)"
| "hides (k # path) _ \<longleftrightarrow> True"

fun is_leaf :: "json_value \<Rightarrow> bool" where
  "is_leaf (JObject _) \<longleftrightarrow> False"
| "is_leaf _ \<longleftrightarrow> True"

definition silent :: "rstring list \<Rightarrow> json_value \<Rightarrow> bool" where
  "silent path v \<longleftrightarrow> json_at path v = None \<and> \<not> hides path v"

lemma merged_leaf:
  "json_ok target \<Longrightarrow> json_ok source \<Longrightarrow> is_leaf v \<Longrightarrow>
   json_at path (merge_value (Some target) source) = Some v \<longleftrightarrow>
     json_at path source = Some v \<or> silent path source \<and> json_at path target = Some v"
proof (induction path arbitrary: target source)
  case Nil
  then show ?case by (cases target; cases source) (auto simp: silent_def)
next
  case (Cons k path)
  show ?case
  proof (cases "\<exists>t s. target = JObject t \<and> source = JObject s")
    case True
    then obtain t s where [simp]: "target = JObject t" "source = JObject s" by blast
    have ok: "bt_ok t" "bt_ok s" using Cons.prems by auto
    show ?thesis
    proof (cases "map_of s k")
      case None
      then show ?thesis by (simp add: deep_merge_lookup ok silent_def)
    next
      case (Some w)
      note s = this
      show ?thesis
      proof (cases "map_of t k")
        case None
        then show ?thesis using s by (simp add: deep_merge_lookup ok silent_def)
      next
        case (Some u)
        then show ?thesis using s Cons.IH [of u w] json_ok_lookup Cons.prems
          by (simp add: deep_merge_lookup ok silent_def) (metis json_ok_lookup Cons.prems \<open>target = JObject t\<close> \<open>source = JObject s\<close>)
      qed
    qed
  next
    case False
    then have "merge_value (Some target) source = source" by (cases target; cases source) auto
    then show ?thesis using False by (cases target; cases source) (auto simp: silent_def)
  qed
qed

text \<open>
  The merge, read at its leaves: a setting has a value that is not an object exactly when the later
  object gives it, or when the earlier one gives it and the later one is silent about it, neither
  naming it nor putting something else than an object on the way to it.\<close>

theorem deep_merge_leaves:
  assumes "json_ok (JObject target)" "json_ok (JObject source)" "is_leaf v"
  shows "json_at path (JObject (deep_merge_objects target source)) = Some v \<longleftrightarrow>
    json_at path (JObject source) = Some v \<or> silent path (JObject source) \<and> json_at path (JObject target) = Some v"
  using merged_leaf [OF assms] by simp

theorem deep_merge_leaves_witness:
  "json_at [lit ''env'', lit ''A''] (JObject (deep_merge_objects
     [(lit ''env'', JObject [(lit ''A'', JString (lit ''1''))])] [(lit ''env'', JObject [(lit ''B'', JNull)])])) =
   Some (JString (lit ''1''))"
  by (subst deep_merge_leaves) (auto simp: silent_def lit_def)

section \<open>Loading\<close>

lemma filter_map_simps [simp]:
  "filter_map f [] = []" "filter_map f (x # xs) = (case f x of None \<Rightarrow> filter_map f xs | Some y \<Rightarrow> y # filter_map f xs)"
  by (simp_all add: filter_map_def split: option.split)

definition settings_object :: "(rstring \<Rightarrow> file_result) \<Rightarrow> config_entry \<Rightarrow> json_object option" where
  "settings_object read entry = (case read_optional_json_object read (entry_path entry) of Inr found \<Rightarrow> found | Inl _ \<Rightarrow> None)"

abbreviation "settings_objects read cwd config_home \<equiv> filter_map (settings_object read) (discover cwd config_home)"

lemma load_loop_merged:
  "load_loop read es s = Inr s' \<Longrightarrow>
     load_merged s' = foldl deep_merge_objects (load_merged s) (filter_map (settings_object read) es) \<and>
     load_entries s' = load_entries s @ filter (\<lambda>e. settings_object read e \<noteq> None) es"
proof (induction es arbitrary: s)
  case (Cons e es)
  then obtain s1 where one: "load_entry read e s = Inr s1" and rest: "load_loop read es s1 = Inr s'"
    by (auto simp: rbind_Inr_iff)
  have "load_merged s1 = foldl deep_merge_objects (load_merged s) (filter_map (settings_object read) [e]) \<and>
     load_entries s1 = load_entries s @ filter (\<lambda>e. settings_object read e \<noteq> None) [e]"
  proof (cases "settings_object read e")
    case None
    then show ?thesis using one by (auto simp: load_entry_def rbind_Inr_iff settings_object_def split: option.splits sum.splits)
  next
    case (Some obj)
    then have "read_optional_json_object read (entry_path e) = Inr (Some obj)"
      by (auto simp: settings_object_def split: sum.splits)
    with one Some show ?thesis by (auto simp: load_entry_def rbind_Inr_iff)
  qed
  then show ?case using Cons.IH [OF rest] by (auto split: option.splits)
qed simp

lemma parse_text_json_ok: "parse_text s = Inr v \<Longrightarrow> json_ok v"
  by (auto simp: parse_text_def json_parse_def split: option.splits sum.splits if_splits dest: parse_value_json_ok)

lemma json_ok_empty: "json_ok (JObject [])"
  by simp

lemma settings_object_json_ok: "settings_object read e = Some obj \<Longrightarrow> json_ok (JObject obj)"
  by (auto simp del: json_ok.simps simp: json_ok_empty settings_object_def read_optional_json_object_def Let_def
        split: file_result.splits sum.splits option.splits if_splits elim!: as_object.elims dest: parse_text_json_ok)

lemma settings_objects_json_ok: "obj \<in> set (filter_map (settings_object read) es) \<Longrightarrow> json_ok (JObject obj)"
  by (induction es) (auto simp del: json_ok.simps dest: settings_object_json_ok split: option.splits)

lemma foldl_merge_json_ok:
  "json_ok (JObject target) \<Longrightarrow> \<forall>obj \<in> set objs. json_ok (JObject obj) \<Longrightarrow>
   json_ok (JObject (foldl deep_merge_objects target objs))"
  by (induction objs arbitrary: target) (auto simp del: json_ok.simps intro: deep_merge_json_ok)

lemma foldl_merge_leaf:
  "\<forall>obj \<in> set objs. json_ok (JObject obj) \<Longrightarrow> is_leaf v \<Longrightarrow>
   json_at path (JObject (foldl deep_merge_objects [] objs)) = Some v \<longleftrightarrow>
     (\<exists>before obj after. objs = before @ obj # after \<and> json_at path (JObject obj) = Some v \<and>
        list_all (\<lambda>later. silent path (JObject later)) after)"
proof (induction objs rule: rev_induct)
  case Nil
  then show ?case by (cases path) auto
next
  case (snoc o1 objs)
  have ok: "json_ok (JObject (foldl deep_merge_objects [] objs))"
    using snoc.prems(1) by (intro foldl_merge_json_ok) auto
  have "json_at path (JObject (foldl deep_merge_objects [] (objs @ [o1]))) = Some v \<longleftrightarrow>
      json_at path (JObject o1) = Some v \<or>
      silent path (JObject o1) \<and> json_at path (JObject (foldl deep_merge_objects [] objs)) = Some v"
    using merged_leaf [OF ok, of "JObject o1" v path] snoc.prems by simp
  also have "\<dots> \<longleftrightarrow> (\<exists>before obj after. objs @ [o1] = before @ obj # after \<and> json_at path (JObject obj) = Some v \<and>
        list_all (\<lambda>later. silent path (JObject later)) after)" (is "?l \<longleftrightarrow> ?r")
  proof
    assume ?l
    then show ?r
    proof
      assume "json_at path (JObject o1) = Some v"
      then show ?r by (intro exI [of _ objs] exI [of _ o1] exI [of _ "[]"]) simp
    next
      assume s: "silent path (JObject o1) \<and> json_at path (JObject (foldl deep_merge_objects [] objs)) = Some v"
      then obtain before obj after where "objs = before @ obj # after" "json_at path (JObject obj) = Some v"
        "list_all (\<lambda>later. silent path (JObject later)) after" using snoc by auto
      with s show ?r by (intro exI [of _ before] exI [of _ obj] exI [of _ "after @ [o1]"]) simp
    qed
  next
    assume ?r
    then obtain before obj after where *: "objs @ [o1] = before @ obj # after" "json_at path (JObject obj) = Some v"
      "list_all (\<lambda>later. silent path (JObject later)) after" by blast
    show ?l
    proof (cases after rule: rev_cases)
      case Nil
      then show ?thesis using * by simp
    next
      case (snoc after1 o2)
      then have "objs = before @ obj # after1" "o2 = o1" using *(1) by auto
      then show ?thesis using * snoc snoc.IH \<open>is_leaf v\<close> snoc.prems by auto
    qed
  qed
  finally show ?case .
qed

lemma load_config_merged:
  assumes "load_config read cwd config_home = Inr c"
  shows "merged c = foldl deep_merge_objects [] (settings_objects read cwd config_home)"
    and "\<exists>servers. parse_features (merged c) servers = Inr (features c)"
proof -
  from assms obtain s f where s: "load_loop read (discover cwd config_home) \<lparr>load_merged = [], load_entries = [], load_servers = []\<rparr> = Inr s"
    and f: "parse_features (load_merged s) (load_servers s) = Inr f"
    and c: "c = \<lparr>merged = load_merged s, loaded_entries = load_entries s, features = f\<rparr>"
    by (auto simp: load_config_def rbind_Inr_iff)
  show "merged c = foldl deep_merge_objects [] (settings_objects read cwd config_home)"
    using load_loop_merged [OF s] c by simp
  show "\<exists>servers. parse_features (merged c) servers = Inr (features c)"
    using f c by auto
qed

lemma setting_of_file:
  assumes load: "load_config read cwd config_home = Inr c" and leaf: "is_leaf v"
    and files: "settings_objects read cwd config_home = before @ obj # after"
    and at: "json_at path (JObject obj) = Some v" and silent: "list_all (\<lambda>later. silent path (JObject later)) after"
  shows "json_at path (JObject (merged c)) = Some v"
  unfolding load_config_merged(1) [OF load]
proof (rule iffD2 [OF foldl_merge_leaf])
  show "\<exists>before obj after. settings_objects read cwd config_home = before @ obj # after \<and>
      json_at path (JObject obj) = Some v \<and> list_all (\<lambda>later. silent path (JObject later)) after"
    using files at silent by blast
qed (use leaf in \<open>auto simp del: json_ok.simps dest: settings_objects_json_ok\<close>)

lemma features_rules: "load_config read cwd config_home = Inr c \<Longrightarrow>
    parse_optional_permission_rules (JObject (merged c)) = Inr (cfg_permission_rules (features c))"
  using load_config_merged(2) [of read cwd config_home c] by (auto simp: parse_features_def Let_def rbind_Inr_iff dest!: sym [of _ "features c"])

lemma collect_strings [simp]: "collect_results (\<lambda>item. ok_or e (as_str item)) (map JString texts) = Inr texts"
  by (induction texts) simp_all

lemma string_list_of: "map_of obj key = Some (JArray (map JString texts)) \<Longrightarrow> string_list obj key ctx = Inr texts"
  by (simp add: string_list_def optional_string_array_def)

lemma json_at_two: "json_at [k1, k2] (JObject obj) = Some v \<Longrightarrow>
    \<exists>inner. map_of obj k1 = Some (JObject inner) \<and> map_of inner k2 = Some v"
  by (auto split: option.splits elim!: json_at.elims)

lemma read_rendered:
  "read path = File_Text (render (JObject es)) \<Longrightarrow> json_ok (JObject es) \<Longrightarrow>
   read_optional_json_object read path = Inr (Some es)"
  using json_parse_render_tail [of "JObject es" "[]"]
  by (simp add: read_optional_json_object_def parse_text_def Let_def trim_eq_Nil_iff is_whitespace_def del: json_ok.simps)

section \<open>An example\<close>

definition demo_file :: "json_value \<Rightarrow> json_value \<Rightarrow> rstring \<Rightarrow> file_result" where
  "demo_file user project path =
     (if path = lit ''/h/.claw/settings.json'' then File_Text (render (JObject [(lit ''permissions'', user)]))
      else if path = lit ''/w/.claw/settings.json'' then File_Text (render (JObject [(lit ''permissions'', project)]))
      else File_NotFound)"

lemma ends_with_char: "ends_with s [ch] \<longleftrightarrow> s \<noteq> [] \<and> last s = ch"
  by (cases s rule: rev_cases) (auto simp: ends_with_def)

lemma demo_discover: "map entry_path (discover (lit ''/w'') (lit ''/h/.claw'')) =
    map lit [''/h/.claw.json'', ''/h/.claw/settings.json'', ''/w/.claw.json'', ''/w/.claw/settings.json'', ''/w/.claw/settings.local.json'']"
  by (simp add: discover_def path_parent_def path_join_def ends_with_char starts_with_def lit_def)


definition demo_rules :: "rstring list \<Rightarrow> json_value" where
  "demo_rules rules = JObject [(lit ''deny'', JArray (map JString rules))]"

lemma demo_rules_ok [simp]: "json_ok (JObject [(lit ''permissions'', demo_rules rules)])"
  by (simp add: demo_rules_def)

lemma discover_demo: "discover (lit ''/w'') (lit ''/h/.claw'') =
    [\<lparr>entry_source = Source_User, entry_path = lit ''/h/.claw.json''\<rparr>,
     \<lparr>entry_source = Source_User, entry_path = lit ''/h/.claw/settings.json''\<rparr>,
     \<lparr>entry_source = Source_Project, entry_path = lit ''/w/.claw.json''\<rparr>,
     \<lparr>entry_source = Source_Project, entry_path = lit ''/w/.claw/settings.json''\<rparr>,
     \<lparr>entry_source = Source_Local, entry_path = lit ''/w/.claw/settings.local.json''\<rparr>]"
  by (simp add: discover_def path_parent_def path_join_def ends_with_char starts_with_def lit_def)

lemma demo_read:
  "json_ok user \<Longrightarrow> read_optional_json_object (demo_file user project) (lit ''/h/.claw/settings.json'') = Inr (Some [(lit ''permissions'', user)])"
  "json_ok project \<Longrightarrow> read_optional_json_object (demo_file user project) (lit ''/w/.claw/settings.json'') = Inr (Some [(lit ''permissions'', project)])"
  "read_optional_json_object (demo_file user project) (lit ''/h/.claw.json'') = Inr None"
  "read_optional_json_object (demo_file user project) (lit ''/w/.claw.json'') = Inr None"
  "read_optional_json_object (demo_file user project) (lit ''/w/.claw/settings.local.json'') = Inr None"
  by (simp_all add: read_rendered demo_file_def) (simp_all add: read_optional_json_object_def demo_file_def Let_def)

lemma demo_objects: "json_ok user \<Longrightarrow> json_ok project \<Longrightarrow> settings_objects (demo_file user project) (lit ''/w'') (lit ''/h/.claw'') =
    [[(lit ''permissions'', user)], [(lit ''permissions'', project)]]"
  by (simp add: discover_demo settings_object_def demo_read)

lemma demo_load:
  assumes ok: "json_ok user" "json_ok project"
    and rules: "parse_optional_permission_rules (JObject [(lit ''permissions'', merge_value (Some user) project)]) = Inr rules"
    and mode: "parse_optional_permission_mode (JObject [(lit ''permissions'', merge_value (Some user) project)]) = Inr mode"
  shows "\<exists>c. load_config (demo_file user project) (lit ''/w'') (lit ''/h/.claw'') = Inr c"
  using rules mode
  by (simp add: load_config_def discover_demo load_entry_def demo_read ok validate_optional_hooks_config_def
      parse_optional_hooks_config_object_def merge_mcp_servers_def parse_features_def parse_optional_hooks_config_def
      parse_optional_plugin_config_def parse_optional_oauth_config_def parse_optional_sandbox_config_def)

lemma demo_rules_merge [simp]: "merge_value (Some (demo_rules a)) (demo_rules b) = demo_rules b"
  by (simp add: demo_rules_def)

lemma demo_rules_json_ok [simp]: "json_ok (demo_rules rules)"
  by (simp add: demo_rules_def)

lemma demo_rules_load:
  "\<exists>c. load_config (demo_file (demo_rules a) (demo_rules b)) (lit ''/w'') (lit ''/h/.claw'') = Inr c"
  by (rule demo_load [of _ _ "\<lparr>cfg_allow = [], cfg_deny = b, cfg_ask = []\<rparr>" None])
    (simp_all add: parse_optional_permission_rules_def parse_optional_permission_mode_def,
     simp_all add: demo_rules_def string_list_def optional_string_array_def)

lemma demo_rules_objects: "settings_objects (demo_file (demo_rules a) (demo_rules b)) (lit ''/w'') (lit ''/h/.claw'') =
    [[(lit ''permissions'', demo_rules a)]] @ [(lit ''permissions'', demo_rules b)] # []"
  by (simp add: demo_objects)

section \<open>Properties of the load\<close>

text \<open>
  C31: Precedence: after a successful load a setting has a value that is not an object exactly when some
  settings file gives it that value and every later file is silent about it.  The files come in the order
  user, project, local.\<close>

theorem settings_precedence:
  assumes "load_config read cwd config_home = Inr c" "is_leaf v"
  shows "json_at path (JObject (merged c)) = Some v \<longleftrightarrow>
    (\<exists>before obj after. settings_objects read cwd config_home = before @ obj # after \<and>
       json_at path (JObject obj) = Some v \<and> list_all (\<lambda>later. silent path (JObject later)) after)"
  unfolding load_config_merged(1) [OF assms(1)]
  by (rule foldl_merge_leaf) (auto simp del: json_ok.simps dest: settings_objects_json_ok simp: assms(2))

theorem settings_precedence_witness:
  "\<exists>c. load_config (demo_file (demo_rules [lit ''Bash'']) (demo_rules [])) (lit ''/w'') (lit ''/h/.claw'') = Inr c \<and>
     json_at [lit ''permissions'', lit ''deny''] (JObject (merged c)) = Some (JArray [])"
proof -
  obtain c where c: "load_config (demo_file (demo_rules [lit ''Bash'']) (demo_rules [])) (lit ''/w'') (lit ''/h/.claw'') = Inr c"
    using demo_rules_load by blast
  have "json_at [lit ''permissions'', lit ''deny''] (JObject (merged c)) = Some (JArray [])"
    unfolding settings_precedence [OF c, of "JArray []", simplified] demo_rules_objects
    by (rule exI, rule exI, rule exI, rule conjI, rule refl) (simp add: demo_rules_def)
  with c show ?thesis by blast
qed

text \<open>
  Lists are replaced, not joined: the deny rules in force are those of the last file that gives a list of
  them, so the settings of a project drop the deny rules of the user.\<close>

theorem later_deny_list_replaces_earlier:
  assumes "load_config read cwd config_home = Inr c"
    and "settings_objects read cwd config_home = before @ obj # after"
    and "json_at [lit ''permissions'', lit ''deny''] (JObject obj) = Some (JArray (map JString rules))"
    and "list_all (\<lambda>later. silent [lit ''permissions'', lit ''deny''] (JObject later)) after"
  shows "cfg_deny (cfg_permission_rules (features c)) = rules"
proof -
  have "json_at [lit ''permissions'', lit ''deny''] (JObject (merged c)) = Some (JArray (map JString rules))"
    by (rule setting_of_file [OF assms(1) _ assms(2-4)]) simp
  then obtain inner where "map_of (merged c) (lit ''permissions'') = Some (JObject inner)"
    "map_of inner (lit ''deny'') = Some (JArray (map JString rules))" using json_at_two by blast
  then show ?thesis using features_rules [OF assms(1)]
    by (auto simp: parse_optional_permission_rules_def rbind_Inr_iff string_list_of
        dest!: sym [of _ "cfg_permission_rules (features c)"])
qed

theorem later_deny_list_replaces_earlier_witness:
  "\<exists>c. load_config (demo_file (demo_rules [lit ''Bash'']) (demo_rules [])) (lit ''/w'') (lit ''/h/.claw'') = Inr c \<and>
     cfg_deny (cfg_permission_rules (features c)) = []"
proof -
  obtain c where c: "load_config (demo_file (demo_rules [lit ''Bash'']) (demo_rules [])) (lit ''/w'') (lit ''/h/.claw'') = Inr c"
    using demo_rules_load by blast
  have "cfg_deny (cfg_permission_rules (features c)) = []"
    by (rule later_deny_list_replaces_earlier [OF c demo_rules_objects]) (simp_all add: demo_rules_def)
  with c show ?thesis by blast
qed

text \<open>
  A permissions section of the wrong kind is ignored without an error: the load succeeds without any rule.\<close>

theorem permissions_section_fails_open:
  assumes "load_config read cwd config_home = Inr c" and "is_leaf v"
    and "settings_objects read cwd config_home = before @ obj # after"
    and "json_at [lit ''permissions''] (JObject obj) = Some v"
    and "list_all (\<lambda>later. silent [lit ''permissions''] (JObject later)) after"
  shows "cfg_permission_rules (features c) = no_rules"
proof -
  have "json_at [lit ''permissions''] (JObject (merged c)) = Some v"
    by (rule setting_of_file [OF assms])
  then have "map_of (merged c) (lit ''permissions'') = Some v" by (auto split: option.splits)
  then show ?thesis using features_rules [OF assms(1)] assms(2)
    by (cases v) (auto simp: parse_optional_permission_rules_def)
qed

theorem permissions_section_fails_open_witness:
  "\<exists>c. load_config (demo_file (demo_rules [lit ''Bash'']) (JArray [])) (lit ''/w'') (lit ''/h/.claw'') = Inr c \<and>
     cfg_permission_rules (features c) = no_rules"
proof -
  have "\<exists>c. load_config (demo_file (demo_rules [lit ''Bash'']) (JArray [])) (lit ''/w'') (lit ''/h/.claw'') = Inr c"
    by (rule demo_load [of _ _ no_rules None])
      (simp_all add: parse_optional_permission_rules_def parse_optional_permission_mode_def)
  then obtain c where c: "load_config (demo_file (demo_rules [lit ''Bash'']) (JArray [])) (lit ''/w'') (lit ''/h/.claw'') = Inr c" ..
  have objs: "settings_objects (demo_file (demo_rules [lit ''Bash'']) (JArray [])) (lit ''/w'') (lit ''/h/.claw'') =
      [[(lit ''permissions'', demo_rules [lit ''Bash''])]] @ [(lit ''permissions'', JArray [])] # []"
    by (simp add: demo_objects)
  have "cfg_permission_rules (features c) = no_rules"
    by (rule permissions_section_fails_open [OF c _ objs, of "JArray []"]) simp_all
  with c show ?thesis by blast
qed

end
