(* ===== verification/Bash.thy ===== *)
theory Bash imports Config begin

text \<open>
  The shell tool (\<^verbatim>\<open>crates/runtime/src/bash.rs\<close>): the sandbox of a command, the process it becomes, the
  report of its end, and the quoting of text for a shell.

  Starting a process and waiting for it is the parameter \<open>start\<close>: its result is an error, the expiry of the
  timeout, a process in the background, or the two outputs (as text) with the exit code.  The description of
  the input is never read; the fields of the output that are always \<^verbatim>\<open>None\<close> are left out.
\<close>

section \<open>Data\<close>

record bash_input =
  bash_command :: rstring
  bash_timeout :: "u64 option"
  run_in_background :: "bool option"
  disable_sandbox :: "bool option"
  namespace_restrictions :: "bool option"
  isolate_network :: "bool option"
  input_filesystem :: "filesystem_isolation_mode option"
  input_mounts :: "rstring list option"
  input_cwd :: "rstring option"

record bash_output =
  out_stdout :: rstring
  out_stderr :: rstring
  interrupted :: bool
  background_task_id :: "rstring option"
  backgrounded_by_user :: "bool option"
  assistant_auto_backgrounded :: "bool option"
  dangerously_disable_sandbox :: "bool option"
  return_code_interpretation :: "rstring option"
  no_output_expected :: "bool option"
  out_sandbox :: "sandbox_status option"

record prepared =
  prep_program :: rstring
  prep_args :: "rstring list"
  prep_cwd :: rstring
  prep_env :: "(rstring \<times> rstring) list"

datatype process_end =
    Proc_Error rstring
  | Proc_TimedOut
  | Proc_Background nat
  | Proc_Ended rstring rstring "int option"

section \<open>Preparing a command\<close>

definition sandbox_status_for_input :: "host \<Rightarrow> config_error + runtime_config \<Rightarrow> bash_input \<Rightarrow> rstring \<Rightarrow> sandbox_status" where
  "sandbox_status_for_input h loaded inp cwd =
     (let config = (case loaded of Inl _ \<Rightarrow> sandbox_config_default | Inr c \<Rightarrow> cfg_sandbox (features c));
          request = resolve_request config (map_option Not (disable_sandbox inp)) (namespace_restrictions inp)
            (isolate_network inp) (input_filesystem inp) (input_mounts inp)
      in resolve_sandbox_status_for_request h request cwd)"

definition prepare_command :: "host \<Rightarrow> rstring \<Rightarrow> rstring \<Rightarrow> sandbox_status \<Rightarrow> prepared" where
  "prepare_command h command cwd st = (case build_linux_sandbox_command h command cwd st of
     Some launcher \<Rightarrow> \<lparr>prep_program = sandbox_program launcher, prep_args = sandbox_args launcher, prep_cwd = cwd,
       prep_env = sandbox_env launcher\<rparr>
   | None \<Rightarrow> \<lparr>prep_program = lit ''sh'', prep_args = [lit ''-lc'', command], prep_cwd = cwd,
       prep_env = (if filesystem_active st then
         [(lit ''HOME'', path_join cwd (lit ''.sandbox-home'')), (lit ''TMPDIR'', path_join cwd (lit ''.sandbox-tmp''))]
         else [])\<rparr>)"

section \<open>Output\<close>

definition max_output_bytes :: nat where
  "max_output_bytes = 16384"

text \<open>The loop that steps back to a boundary.\<close>

fun step_back :: "rstring \<Rightarrow> nat \<Rightarrow> nat" where
  "step_back s 0 = 0"
| "step_back s (Suc n) = (if is_char_boundary s (Suc n) then Suc n else step_back s n)"

definition truncation_marker :: rstring where
  "truncation_marker = [c_nl, c_nl] @ lit ''[output truncated '' @ [0x2014] @ lit '' exceeded 16384 bytes]''"

definition truncate_output :: "rstring \<Rightarrow> rstring" where
  "truncate_output s = (if str_len s \<le> max_output_bytes then s
     else slice_to s (step_back s max_output_bytes) @ truncation_marker)"

definition report :: "bash_input \<Rightarrow> sandbox_status \<Rightarrow> bash_output" where
  "report inp st = \<lparr>out_stdout = [], out_stderr = [], interrupted = False, background_task_id = None,
     backgrounded_by_user = None, assistant_auto_backgrounded = None, dangerously_disable_sandbox = disable_sandbox inp,
     return_code_interpretation = None, no_output_expected = Some True, out_sandbox = Some st\<rparr>"

definition timeout_text :: "bash_input \<Rightarrow> rstring" where
  "timeout_text inp = lit ''Command exceeded timeout of '' @ show_nat (unat (unwrap_or 0 (bash_timeout inp))) @ lit '' ms''"

definition finish_bash :: "bash_input \<Rightarrow> sandbox_status \<Rightarrow> process_end \<Rightarrow> rstring + bash_output" where
  "finish_bash inp st ending = (case ending of
     Proc_Error e \<Rightarrow> Inl e
   | Proc_TimedOut \<Rightarrow> Inr ((report inp st)\<lparr>out_stderr := timeout_text inp, interrupted := True,
       return_code_interpretation := Some (lit ''timeout'')\<rparr>)
   | Proc_Background pid \<Rightarrow> Inr ((report inp st)\<lparr>background_task_id := Some (show_nat pid),
       backgrounded_by_user := Some False, assistant_auto_backgrounded := Some False\<rparr>)
   | Proc_Ended raw_out raw_err code \<Rightarrow>
       let stdout = truncate_output raw_out; stderr = truncate_output raw_err
       in Inr ((report inp st)\<lparr>out_stdout := stdout, out_stderr := stderr,
         no_output_expected := Some (trim stdout = [] \<and> trim stderr = []),
         return_code_interpretation := (case code of
            None \<Rightarrow> None | Some n \<Rightarrow> if n = 0 then None else Some (lit ''exit_code:'' @ show_int n))\<rparr>))"

text \<open>
  The whole tool: \<open>current\<close> is \<^verbatim>\<open>env::current_dir()\<close>, \<open>load\<close> the loading of the settings for a directory.  The
  process is started with the timeout only when it runs in the foreground.
\<close>

definition execute_bash :: "host \<Rightarrow> (rstring \<Rightarrow> config_error + runtime_config) \<Rightarrow> rstring + rstring \<Rightarrow>
    (prepared \<Rightarrow> bool \<Rightarrow> u64 option \<Rightarrow> process_end) \<Rightarrow> bash_input \<Rightarrow> rstring + bash_output" where
  "execute_bash h load current start inp =
     rbind (case input_cwd inp of Some cwd \<Rightarrow> Inr cwd | None \<Rightarrow> current) (\<lambda>cwd.
       let st = sandbox_status_for_input h (load cwd) inp cwd;
           background = unwrap_or False (run_in_background inp);
           command = prepare_command h (bash_command inp) cwd st
       in finish_bash inp st (start command background (if background then None else bash_timeout inp)))"

section \<open>Quoting\<close>

definition shell_quote :: "rstring \<Rightarrow> rstring" where
  "shell_quote v = [c_squote] @ concat (map (\<lambda>c. if c = c_squote then [c_squote, c_backslash, c_squote, c_squote] else [c]) v) @ [c_squote]"

text \<open>
  How a POSIX shell reads one word: outside quotes a char that is special to the shell ends the reading
  (\<open>None\<close>: it would split, expand or redirect), a backslash takes the next char literally; between single quotes
  every char is literal.
\<close>

definition shell_special :: "rchar list" where
  "shell_special = lit ''|&;<>()$`\" *?[]#~=%!{}'' @ [c_tab, c_nl, c_cr]"

fun read_word :: "bool \<Rightarrow> rstring \<Rightarrow> rstring \<Rightarrow> rstring option" where
  "read_word inside acc [] = (if inside then None else Some acc)"
| "read_word True acc (c # s) = (if c = c_squote then read_word False acc s else read_word True (acc @ [c]) s)"
| "read_word False acc (c # s) =
     (if c = c_squote then read_word True acc s
      else if c = c_backslash then
        (case s of [] \<Rightarrow> None | d # s1 \<Rightarrow> if d = c_nl then read_word False acc s1 else read_word False (acc @ [d]) s1)
      else if c \<in> set shell_special then None
      else read_word False (acc @ [c]) s)"

lemma read_quoted:
  "read_word True acc (concat (map (\<lambda>c. if c = c_squote then [c_squote, c_backslash, c_squote, c_squote] else [c]) v) @
     c_squote # rest) = read_word False (acc @ v) rest"
  by (induction v arbitrary: acc) auto

text \<open>
  Quoting is safe: wherever the shell reads a quoted text outside other quotes, it takes exactly the
  original text as part of the word, whatever chars it has, and goes on after it.\<close>

theorem shell_quote_read_back:
  "read_word False acc (shell_quote v @ rest) = read_word False (acc @ v) rest \<and>
   read_word False [] (shell_quote v) = Some v"
  using read_quoted [of acc v rest] read_quoted [of "[]" v "[]"] by (simp add: shell_quote_def)

section \<open>Truncation\<close>

lemma slice_not_boundary: "\<not> is_char_boundary s (Suc n) \<Longrightarrow> slice_to s (Suc n) = slice_to s n"
proof (induction s arbitrary: n)
  case (Cons c s)
  show ?case
  proof (cases "utf8_len c \<le> Suc n")
    case True
    then have "\<not> is_char_boundary s (Suc n - utf8_len c)" using Cons.prems by simp
    then have "Suc n - utf8_len c \<noteq> 0" by (metis is_char_boundary.simps(1))
    then have "Suc n - utf8_len c = Suc (n - utf8_len c)" "utf8_len c \<le> n" using True by auto
    then show ?thesis using Cons.IH [of "n - utf8_len c"] \<open>\<not> is_char_boundary s (Suc n - utf8_len c)\<close> by simp
  qed auto
qed simp

lemma slice_step_back: "slice_to s (step_back s n) = slice_to s n"
  by (induction n) (auto simp: slice_not_boundary)

lemma slice_to_split: "\<exists>rest. slice_to s n @ rest = s \<and> str_len (slice_to s n) \<le> n \<and>
    (if rest = [] then str_len s \<le> n else n < str_len (slice_to s n) + utf8_len (hd rest))"
proof (induction s n rule: slice_to.induct)
  case (2 c s n)
  show ?case
  proof (cases "utf8_len c \<le> n")
    case True
    from 2 [OF True] obtain rest where "slice_to s (n - utf8_len c) @ rest = s" "str_len (slice_to s (n - utf8_len c)) \<le> n - utf8_len c"
      "if rest = [] then str_len s \<le> n - utf8_len c else n - utf8_len c < str_len (slice_to s (n - utf8_len c)) + utf8_len (hd rest)"
      by blast
    with True show ?thesis by (intro exI [of _ rest]) (auto split: if_splits)
  qed auto
qed simp

text \<open>
  Output of at most 16384 bytes is kept as it is; of a longer one the longest prefix within this bound
  is kept, cut between two chars, and the marker follows.  Slicing never panics: the loop ends at a boundary.\<close>

theorem truncate_output_contract:
  "if str_len s \<le> 16384 then truncate_output s = s
   else \<exists>kept rest. s = kept @ rest \<and> rest \<noteq> [] \<and> truncate_output s = kept @ truncation_marker \<and>
     str_len kept \<le> 16384 \<and> 16384 < str_len kept + utf8_len (hd rest) \<and> is_char_boundary s (step_back s 16384)"
proof (cases "str_len s \<le> 16384")
  case True
  then show ?thesis by (simp add: truncate_output_def max_output_bytes_def)
next
  case False
  obtain rest where rest: "slice_to s 16384 @ rest = s" "str_len (slice_to s 16384) \<le> 16384"
    "if rest = [] then str_len s \<le> 16384 else 16384 < str_len (slice_to s 16384) + utf8_len (hd rest)"
    using slice_to_split by blast
  have "is_char_boundary s (step_back s n)" for n by (induction n) auto
  then show ?thesis using rest False
    by (simp add: truncate_output_def max_output_bytes_def slice_step_back split: if_splits) metis
qed

section \<open>The sandbox of a command\<close>

text \<open>
  When the settings cannot be loaded, for whatever error in whatever file, a command runs with the default
  sandbox: network isolation that the settings ask for is dropped without a word.\<close>

theorem broken_settings_drop_network_isolation:
  "network_active (sandbox_status_for_input h loaded inp cwd) \<longleftrightarrow>
     host_linux h \<and> unshare_works h \<and>
     (disable_sandbox inp = Some False \<or> disable_sandbox inp = None \<and>
        (case loaded of Inl e \<Rightarrow> True | Inr c \<Rightarrow> cfg_enabled (cfg_sandbox (features c)) \<noteq> Some False)) \<and>
     (isolate_network inp = Some True \<or> isolate_network inp = None \<and>
        (case loaded of Inl e \<Rightarrow> False | Inr c \<Rightarrow> cfg_network (cfg_sandbox (features c)) = Some True))"
proof -
  obtain config where c: "config = (case loaded of Inl _ \<Rightarrow> sandbox_config_default | Inr c \<Rightarrow> cfg_sandbox (features c))" by simp
  have "network_active (sandbox_status_for_input h loaded inp cwd) \<longleftrightarrow> host_linux h \<and> unshare_works h \<and>
      unwrap_or (unwrap_or True (cfg_enabled config)) (map_option Not (disable_sandbox inp)) \<and>
      unwrap_or (unwrap_or False (cfg_network config)) (isolate_network inp)"
    by (auto simp: sandbox_status_for_input_def resolve_sandbox_status_for_request_def resolve_request_def Let_def c)
  then show ?thesis
    by (cases "disable_sandbox inp"; cases "isolate_network inp"; cases loaded)
      (auto simp: c sandbox_config_default_def unwrap_or_def split: option.splits)
qed

end
