(* ===== verification/BashValidation.thy ===== *)
theory BashValidation imports Permissions Strings begin

text \<open>
  Validation of shell commands (\<^verbatim>\<open>crates/runtime/src/bash_validation.rs\<close>): read-only mode, destructive
  commands, modes, sed, paths and the classification of commands by intent.

  Offsets into strings are counted in bytes where the code mixes offsets of two strings, and slicing at an
  offset inside a char panics, as in Rust: such results are \<open>Inl Slice_Panic\<close>.  \<open>validate_read_only\<close> calls
  itself on the command after \<^verbatim>\<open>sudo\<close>; it is a partial function, whose value \<open>None\<close> is that it never returns.
\<close>

section \<open>Data\<close>

datatype validation_result = V_Allow | V_Block rstring | V_Warn rstring

datatype command_intent =
    Intent_ReadOnly | Intent_Write | Intent_Destructive | Intent_Network | Intent_ProcessManagement
  | Intent_PackageManagement | Intent_SystemAdmin | Intent_Unknown

definition write_commands :: "rstring list" where
  "write_commands = map lit [''cp'', ''mv'', ''rm'', ''mkdir'', ''rmdir'', ''touch'', ''chmod'', ''chown'', ''chgrp'', ''ln'',
     ''install'', ''tee'', ''truncate'', ''shred'', ''mkfifo'', ''mknod'', ''dd'']"

definition state_modifying_commands :: "rstring list" where
  "state_modifying_commands = map lit [''apt'', ''apt-get'', ''yum'', ''dnf'', ''pacman'', ''brew'', ''pip'', ''pip3'',
     ''npm'', ''yarn'', ''pnpm'', ''bun'', ''cargo'', ''gem'', ''go'', ''rustup'', ''docker'', ''systemctl'', ''service'',
     ''mount'', ''umount'', ''kill'', ''pkill'', ''killall'', ''reboot'', ''shutdown'', ''halt'', ''poweroff'', ''useradd'',
     ''userdel'', ''usermod'', ''groupadd'', ''groupdel'', ''crontab'', ''at'']"

definition write_redirections :: "rstring list" where
  "write_redirections = map lit [''>'', ''>>'', ''>&'']"

definition git_read_only_subcommands :: "rstring list" where
  "git_read_only_subcommands = map lit [''status'', ''log'', ''diff'', ''show'', ''branch'', ''tag'', ''stash'', ''remote'',
     ''fetch'', ''ls-files'', ''ls-tree'', ''cat-file'', ''rev-parse'', ''describe'', ''shortlog'', ''blame'', ''bisect'',
     ''reflog'', ''config'']"

definition em_dash :: rstring where
  "em_dash = [0x2014]"

definition destructive_patterns :: "(rstring \<times> rstring) list" where
  "destructive_patterns = [
     (lit ''rm -rf /'', lit ''Recursive forced deletion at root '' @ em_dash @ lit '' this will destroy the system''),
     (lit ''rm -rf ~'', lit ''Recursive forced deletion of home directory''),
     (lit ''rm -rf *'', lit ''Recursive forced deletion of all files in current directory''),
     (lit ''rm -rf .'', lit ''Recursive forced deletion of current directory''),
     (lit ''mkfs'', lit ''Filesystem creation will destroy existing data on the device''),
     (lit ''dd if='', lit ''Direct disk write '' @ em_dash @ lit '' can overwrite partitions or devices''),
     (lit ''> /dev/sd'', lit ''Writing to raw disk device''),
     (lit ''chmod -R 777'', lit ''Recursively setting world-writable permissions''),
     (lit ''chmod -R 000'', lit ''Recursively removing all permissions''),
     (lit '':(){ :|:& };:'', lit ''Fork bomb '' @ em_dash @ lit '' will crash the system'')]"

definition always_destructive_commands :: "rstring list" where
  "always_destructive_commands = map lit [''shred'', ''wipefs'']"

definition system_paths :: "rstring list" where
  "system_paths = map lit [''/etc/'', ''/usr/'', ''/var/'', ''/boot/'', ''/sys/'', ''/proc/'', ''/dev/'', ''/sbin/'', ''/lib/'', ''/opt/'']"

definition semantic_read_only_commands :: "rstring list" where
  "semantic_read_only_commands = map lit [''ls'', ''cat'', ''head'', ''tail'', ''less'', ''more'', ''wc'', ''sort'', ''uniq'',
     ''grep'', ''egrep'', ''fgrep'', ''find'', ''which'', ''whereis'', ''whatis'', ''man'', ''info'', ''file'', ''stat'', ''du'',
     ''df'', ''free'', ''uptime'', ''uname'', ''hostname'', ''whoami'', ''id'', ''groups'', ''env'', ''printenv'', ''echo'',
     ''printf'', ''date'', ''cal'', ''bc'', ''expr'', ''test'', ''true'', ''false'', ''pwd'', ''tree'', ''diff'', ''cmp'',
     ''md5sum'', ''sha256sum'', ''sha1sum'', ''xxd'', ''od'', ''hexdump'', ''strings'', ''readlink'', ''realpath'', ''basename'',
     ''dirname'', ''seq'', ''yes'', ''tput'', ''column'', ''jq'', ''yq'', ''xargs'', ''tr'', ''cut'', ''paste'', ''awk'', ''sed'']"

definition network_commands :: "rstring list" where
  "network_commands = map lit [''curl'', ''wget'', ''ssh'', ''scp'', ''rsync'', ''ftp'', ''sftp'', ''nc'', ''ncat'', ''telnet'',
     ''ping'', ''traceroute'', ''dig'', ''nslookup'', ''host'', ''whois'', ''ifconfig'', ''ip'', ''netstat'', ''ss'', ''nmap'']"

definition process_commands :: "rstring list" where
  "process_commands = map lit [''kill'', ''pkill'', ''killall'', ''ps'', ''top'', ''htop'', ''bg'', ''fg'', ''jobs'', ''nohup'',
     ''disown'', ''wait'', ''nice'', ''renice'']"

definition package_commands :: "rstring list" where
  "package_commands = map lit [''apt'', ''apt-get'', ''yum'', ''dnf'', ''pacman'', ''brew'', ''pip'', ''pip3'', ''npm'', ''yarn'',
     ''pnpm'', ''bun'', ''cargo'', ''gem'', ''go'', ''rustup'', ''snap'', ''flatpak'']"

definition system_admin_commands :: "rstring list" where
  "system_admin_commands = map lit [''sudo'', ''su'', ''chroot'', ''mount'', ''umount'', ''fdisk'', ''parted'', ''lsblk'', ''blkid'',
     ''systemctl'', ''service'', ''journalctl'', ''dmesg'', ''modprobe'', ''insmod'', ''rmmod'', ''iptables'', ''ufw'',
     ''firewall-cmd'', ''sysctl'', ''crontab'', ''at'', ''useradd'', ''userdel'', ''usermod'', ''groupadd'', ''groupdel'',
     ''passwd'', ''visudo'']"

section \<open>The first command\<close>

definition is_ascii_whitespace :: "rchar \<Rightarrow> bool" where
  "is_ascii_whitespace c \<longleftrightarrow> c = 32 \<or> c = 9 \<or> c = 10 \<or> c = 12 \<or> c = 13"

definition is_ascii_alphanumeric :: "rchar \<Rightarrow> bool" where
  "is_ascii_alphanumeric c \<longleftrightarrow> 48 \<le> c \<and> c \<le> 57 \<or> 65 \<le> c \<and> c \<le> 90 \<or> 97 \<le> c \<and> c \<le> 122"

text \<open>The byte offset of the first char with a property, and the two loops of \<^verbatim>\<open>find_end_of_value\<close> over bytes.\<close>

fun find_byte :: "(rchar \<Rightarrow> bool) \<Rightarrow> nat \<Rightarrow> rstring \<Rightarrow> nat option" where
  "find_byte P n [] = None"
| "find_byte P n (c # s) = (if P c then Some n else find_byte P (n + utf8_len c) s)"

fun quoted_end :: "rchar \<Rightarrow> rchar \<Rightarrow> nat \<Rightarrow> rstring \<Rightarrow> nat option" where
  "quoted_end quote before i [] = None"
| "quoted_end quote before i (c # s) =
     (if c = quote \<and> before \<noteq> c_backslash then find_byte is_ascii_whitespace (i + 1) s
      else quoted_end quote c (i + utf8_len c) s)"

definition find_end_of_value :: "rstring \<Rightarrow> nat option" where
  "find_end_of_value s0 = (case trim_start s0 of
     [] \<Rightarrow> None
   | first # rest \<Rightarrow>
       if first = c_dquote \<or> first = c_squote then quoted_end first first 1 rest
       else find_byte is_whitespace 0 (first # rest))"

definition first_word :: "rstring \<Rightarrow> rstring" where
  "first_word s = (case split_whitespace s of [] \<Rightarrow> [] | w # _ \<Rightarrow> w)"

definition env_name :: "rstring \<Rightarrow> bool" where
  "env_name s \<longleftrightarrow> s \<noteq> [] \<and> list_all (\<lambda>c. is_ascii_alphanumeric c \<or> c = 95) s"

lemma slice_from_length: "slice_from s n = Inr t \<Longrightarrow> length t \<le> length s"
  by (induction s n rule: slice_from.induct) (auto split: if_splits)

function first_command_loop :: "rstring \<Rightarrow> panic + rstring" where
  "first_command_loop remaining =
     (let next = trim_start remaining; before_eq = takeWhile (\<lambda>c. c \<noteq> 61) next; after_eq = dropWhile (\<lambda>c. c \<noteq> 61) next
      in if after_eq \<noteq> [] \<and> env_name before_eq then
           (case find_end_of_value (tl after_eq) of
              None \<Rightarrow> Inr []
            | Some space \<Rightarrow> (case slice_from (tl after_eq) space of
                  Inl p \<Rightarrow> Inl p
                | Inr rest \<Rightarrow> first_command_loop rest))
         else Inr (first_word remaining))"
  by pat_completeness auto
termination
proof (relation "measure length")
  fix remaining nxt before_eq after_eq :: rstring and space :: nat and rest :: rstring
  assume nxt: "nxt = trim_start remaining" and "before_eq = takeWhile (\<lambda>c. c \<noteq> 61) nxt"
    and after: "after_eq = dropWhile (\<lambda>c. c \<noteq> 61) nxt"
    and ne: "after_eq \<noteq> [] \<and> env_name before_eq" and "find_end_of_value (tl after_eq) = Some space"
    and slice: "slice_from (tl after_eq) space = Inr rest"
  have "length rest \<le> length (tl after_eq)" using slice_from_length [OF slice] .
  also have "\<dots> < length after_eq" using ne by (cases after_eq) auto
  also have "\<dots> \<le> length nxt" unfolding after by (rule length_dropWhile_le)
  also have "\<dots> \<le> length remaining" unfolding nxt trim_start_def by (rule length_dropWhile_le)
  finally show "(rest, remaining) \<in> measure length" by simp
qed simp

declare first_command_loop.simps [simp del]

definition extract_first_command :: "rstring \<Rightarrow> panic + rstring" where
  "extract_first_command command = first_command_loop (trim command)"

definition extract_sudo_inner :: "rstring \<Rightarrow> rstring" where
  "extract_sudo_inner command =
     (case dropWhile (\<lambda>p. p \<noteq> lit ''sudo'') (split_whitespace command) of
        [] \<Rightarrow> []
      | _ # rest \<Rightarrow> (case find (\<lambda>part. \<not> starts_with part (lit ''-'')) rest of
            None \<Rightarrow> []
          | Some part \<Rightarrow> drop (case str_find command part of Some offset \<Rightarrow> offset | None \<Rightarrow> 0) command))"

section \<open>Read-only mode\<close>

definition git_subcommand :: "rstring \<Rightarrow> rstring option" where
  "git_subcommand command = find (\<lambda>p. \<not> starts_with p (lit ''-'')) (drop 1 (split_whitespace command))"

definition validate_git_read_only :: "rstring \<Rightarrow> validation_result" where
  "validate_git_read_only command = (case git_subcommand command of
     Some sub \<Rightarrow> if sub \<in> set git_read_only_subcommands then V_Allow
       else V_Block (lit ''Git subcommand '' @ quoted sub @
         lit '' modifies repository state and is not allowed in read-only mode'')
   | None \<Rightarrow> V_Allow)"

text \<open>What follows the check of \<^verbatim>\<open>sudo\<close>: redirections, then git.\<close>

definition validate_redirections :: "rstring \<Rightarrow> rstring \<Rightarrow> validation_result" where
  "validate_redirections first command = (case find (\<lambda>redir. str_contains command redir) write_redirections of
     Some redir \<Rightarrow> V_Block (lit ''Command contains write redirection '' @ quoted redir @
       lit '' which is not allowed in read-only mode'')
   | None \<Rightarrow> if first = lit ''git'' then validate_git_read_only command else V_Allow)"

partial_function (option) validate_read_only :: "rstring \<Rightarrow> permission_mode \<Rightarrow> (panic + validation_result) option" where
  "validate_read_only command mode =
     (if mode \<noteq> Mode_ReadOnly then Some (Inr V_Allow)
      else (case extract_first_command command of
        Inl p \<Rightarrow> Some (Inl p)
      | Inr first \<Rightarrow>
          if first \<in> set write_commands then Some (Inr (V_Block (lit ''Command '' @ quoted first @
            lit '' modifies the filesystem and is not allowed in read-only mode'')))
          else if first \<in> set state_modifying_commands then Some (Inr (V_Block (lit ''Command '' @ quoted first @
            lit '' modifies system state and is not allowed in read-only mode'')))
          else if first = lit ''sudo'' \<and> extract_sudo_inner command \<noteq> [] then
            Option.bind (validate_read_only (extract_sudo_inner command) mode) (\<lambda>inner_result.
              if inner_result \<noteq> Inr V_Allow then Some inner_result
              else Some (Inr (validate_redirections first command)))
          else Some (Inr (validate_redirections first command))))"

section \<open>The other checks\<close>

definition check_destructive :: "rstring \<Rightarrow> panic + validation_result" where
  "check_destructive command = (case find (\<lambda>(pattern, warning). str_contains command pattern) destructive_patterns of
     Some (pattern, warning) \<Rightarrow> Inr (V_Warn (lit ''Destructive command detected: '' @ warning))
   | None \<Rightarrow> (case extract_first_command command of
       Inl p \<Rightarrow> Inl p
     | Inr first \<Rightarrow>
         if first \<in> set always_destructive_commands then Inr (V_Warn (lit ''Command '' @ quoted first @
           lit '' is inherently destructive and may cause data loss''))
         else if str_contains command (lit ''rm '') \<and> str_contains command (lit ''-r'') \<and> str_contains command (lit ''-f'') then
           Inr (V_Warn (lit ''Recursive forced deletion detected '' @ em_dash @ lit '' verify the target path is correct''))
         else Inr V_Allow))"

definition command_targets_outside_workspace :: "rstring \<Rightarrow> panic + bool" where
  "command_targets_outside_workspace command = (case extract_first_command command of
     Inl p \<Rightarrow> Inl p
   | Inr first \<Rightarrow> Inr ((first \<in> set write_commands \<or> first \<in> set state_modifying_commands) \<and>
       list_ex (str_contains command) system_paths))"

definition validate_mode :: "rstring \<Rightarrow> permission_mode \<Rightarrow> (panic + validation_result) option" where
  "validate_mode command mode = (case mode of
     Mode_ReadOnly \<Rightarrow> validate_read_only command mode
   | Mode_WorkspaceWrite \<Rightarrow> (case command_targets_outside_workspace command of
       Inl p \<Rightarrow> Some (Inl p)
     | Inr outside \<Rightarrow> Some (Inr (if outside then V_Warn (lit ''Command appears to target files outside the workspace '' @ em_dash @
         lit '' requires elevated permission'') else V_Allow)))
   | _ \<Rightarrow> Some (Inr V_Allow))"

definition validate_sed :: "rstring \<Rightarrow> permission_mode \<Rightarrow> panic + validation_result" where
  "validate_sed command mode = (case extract_first_command command of
     Inl p \<Rightarrow> Inl p
   | Inr first \<Rightarrow>
       if first \<noteq> lit ''sed'' then Inr V_Allow
       else if mode = Mode_ReadOnly \<and> str_contains command (lit '' -i'') then
         Inr (V_Block (lit ''sed -i (in-place editing) is not allowed in read-only mode''))
       else Inr V_Allow)"

definition validate_paths :: "rstring \<Rightarrow> rstring \<Rightarrow> validation_result" where
  "validate_paths command workspace =
     (if str_contains command (lit ''../'') \<and> \<not> str_contains command workspace then
        V_Warn (lit ''Command contains directory traversal pattern '' @ quoted (lit ''../'') @ lit '' '' @ em_dash @
          lit '' verify the target path resolves within the workspace'')
      else if str_contains command (lit ''~/'') \<or> str_contains command (lit ''$HOME'') then
        V_Warn (lit ''Command references home directory '' @ em_dash @ lit '' verify it stays within the workspace scope'')
      else V_Allow)"

definition classify_git_command :: "rstring \<Rightarrow> command_intent" where
  "classify_git_command command = (case git_subcommand command of
     Some sub \<Rightarrow> if sub \<in> set git_read_only_subcommands then Intent_ReadOnly else Intent_Write
   | None \<Rightarrow> Intent_Write)"

definition classify_by_first_command :: "rstring \<Rightarrow> rstring \<Rightarrow> command_intent" where
  "classify_by_first_command first command =
     (if first \<in> set semantic_read_only_commands then
        (if first = lit ''sed'' \<and> str_contains command (lit '' -i'') then Intent_Write else Intent_ReadOnly)
      else if first \<in> set always_destructive_commands \<or> first = lit ''rm'' then Intent_Destructive
      else if first \<in> set write_commands then Intent_Write
      else if first \<in> set network_commands then Intent_Network
      else if first \<in> set process_commands then Intent_ProcessManagement
      else if first \<in> set package_commands then Intent_PackageManagement
      else if first \<in> set system_admin_commands then Intent_SystemAdmin
      else if first = lit ''git'' then classify_git_command command
      else Intent_Unknown)"

definition classify_command :: "rstring \<Rightarrow> panic + command_intent" where
  "classify_command command = (case extract_first_command command of
     Inl p \<Rightarrow> Inl p | Inr first \<Rightarrow> Inr (classify_by_first_command first command))"

definition validate_command :: "rstring \<Rightarrow> permission_mode \<Rightarrow> rstring \<Rightarrow> (panic + validation_result) option" where
  "validate_command command mode workspace =
     Option.bind (validate_mode command mode) (\<lambda>result.
       if result \<noteq> Inr V_Allow then Some result
       else let sed = validate_sed command mode in if sed \<noteq> Inr V_Allow then Some sed
       else let destructive = check_destructive command in if destructive \<noteq> Inr V_Allow then Some destructive
       else Some (Inr (validate_paths command workspace)))"

section \<open>When validation returns\<close>

lemma sudo_not_listed [simp]: "lit ''sudo'' \<notin> set write_commands" "lit ''sudo'' \<notin> set state_modifying_commands"
  by (simp_all add: write_commands_def state_modifying_commands_def)

lemma loops_never_returns:
  assumes "extract_first_command command = Inr (lit ''sudo'')" and "extract_sudo_inner command = command"
  shows "validate_read_only command Mode_ReadOnly \<noteq> Some r"
proof
  have ne: "command \<noteq> []"
    using assms(1) by (auto simp: extract_first_command_def first_command_loop.simps str_defs first_word_def Let_def lit_def)
  assume "validate_read_only command Mode_ReadOnly = Some r"
  then have "\<not> (command = command \<and> Mode_ReadOnly = Mode_ReadOnly)"
  proof (rule validate_read_only.raw_induct [where P = "\<lambda>c m r. \<not> (c = command \<and> m = Mode_ReadOnly)", rotated], goal_cases)
    case (1 f c m r)
    show ?case
    proof
      assume c: "c = command \<and> m = Mode_ReadOnly"
      have "f command Mode_ReadOnly = None"
        using 1(1) by (cases "f command Mode_ReadOnly") auto
      then show False using 1(2) c assms ne by auto
    qed
  qed
  then show False by simp
qed

text \<open>
  In read-only mode the validation of a \<^verbatim>\<open>sudo\<close> command never returns when the text after \<^verbatim>\<open>sudo\<close>,
  which is looked for as a substring of the whole command, is first found at its very beginning.\<close>

theorem sudo_validation_never_returns:
  assumes "extract_first_command command = Inr (lit ''sudo'')" and "extract_sudo_inner command = command"
  shows "validate_read_only command Mode_ReadOnly = None \<and> validate_command command Mode_ReadOnly workspace = None"
proof -
  have "validate_read_only command Mode_ReadOnly = None"
    using loops_never_returns [OF assms] by (cases "validate_read_only command Mode_ReadOnly") auto
  then show ?thesis by (simp add: validate_command_def validate_mode_def)
qed

lemma sudo_validation_never_returns_witness:
  "validate_command (lit ''sudo su'') Mode_ReadOnly (lit ''/w'') = None"
proof -
  have "extract_first_command (lit ''sudo su'') = Inr (lit ''sudo'')"
    by (simp add: extract_first_command_def first_command_loop.simps str_defs lit_def is_whitespace_def first_word_def Let_def)
  moreover have "extract_sudo_inner (lit ''sudo su'') = lit ''sudo su''"
    by (simp add: extract_sudo_inner_def str_defs lit_def is_whitespace_def)
  ultimately show ?thesis using sudo_validation_never_returns by blast
qed

section \<open>What read-only mode allows\<close>





lemmas validation_defs = validate_command_def validate_mode_def validate_sed_def check_destructive_def
  validate_redirections_def write_redirections_def write_commands_def state_modifying_commands_def
  destructive_patterns_def always_destructive_commands_def em_dash_def

lemma validate_paths_plain:
  "\<not> str_contains command (lit ''../'') \<Longrightarrow> \<not> str_contains command (lit ''~/'') \<Longrightarrow>
   \<not> str_contains command (lit ''$HOME'') \<Longrightarrow> validate_paths command workspace = V_Allow"
  by (simp add: validate_paths_def)



lemma first_command_chain: "extract_first_command (lit ''ls;rm x'') = Inr (lit ''ls;rm'')"
    "extract_first_command (lit ''ls | tee x'') = Inr (lit ''ls'')"
    "extract_first_command (lit ''ls && rm x'') = Inr (lit ''ls'')"
  by (simp_all add: extract_first_command_def first_command_loop.simps str_defs lit_def is_whitespace_def first_word_def Let_def)

text \<open>
  Only the first command of a chain or pipeline is looked at: commands that write pass the whole
  validation in read-only mode behind a harmless first command.\<close>

theorem read_only_allows_later_writes:
  "list_all (\<lambda>command. validate_command command Mode_ReadOnly workspace = Some (Inr V_Allow))
     [lit ''ls && rm x'', lit ''ls;rm x'', lit ''ls | tee x'']"
proof -
  have "validate_command (lit ''ls && rm x'') Mode_ReadOnly workspace = Some (Inr V_Allow)"
    by (simp add: validation_defs validate_read_only.simps [of "lit ''ls && rm x''"] first_command_chain)
      (simp add: validate_paths_plain lit_def)
  moreover have "validate_command (lit ''ls;rm x'') Mode_ReadOnly workspace = Some (Inr V_Allow)"
    by (simp add: validation_defs validate_read_only.simps [of "lit ''ls;rm x''"] first_command_chain)
      (simp add: validate_paths_plain lit_def)
  moreover have "validate_command (lit ''ls | tee x'') Mode_ReadOnly workspace = Some (Inr V_Allow)"
    by (simp add: validation_defs validate_read_only.simps [of "lit ''ls | tee x''"] first_command_chain)
      (simp add: validate_paths_plain lit_def)
  ultimately show ?thesis by simp
qed

text \<open>A slice at an offset that was counted in another string: an environment assignment that panics.\<close>

theorem environment_value_panics:
  "extract_first_command (lit ''A= a'' @ [0xE9] @ lit '' b'') = Inl Slice_Panic"
proof -
  have t: "trim (lit ''A= a'' @ [0xE9] @ lit '' b'') = [65, 61, 32, 97, 0xE9, 32, 98]"
    by (simp add: str_defs lit_def is_whitespace_def)
  have f: "find_end_of_value [32, 97, 0xE9, 32, 98] = Some (Suc (Suc (Suc 0)))"
    by (simp add: find_end_of_value_def str_defs is_whitespace_def utf8_len_def)
  show ?thesis
    by (subst extract_first_command_def, subst t, subst first_command_loop.simps)
      (simp add: trim_start_def is_whitespace_def env_name_def is_ascii_alphanumeric_def f utf8_len_def Let_def)
qed

end
