(* ===== verification/CommandSpecs.thy ===== *)
theory CommandSpecs imports Strings begin

text \<open>
  The table of the slash commands (\<^verbatim>\<open>crates/commands/src/lib.rs\<close>, \<^verbatim>\<open>SLASH_COMMAND_SPECS\<close>), in its order and in parts.
\<close>

record slash_command_spec =
  spec_name :: rstring
  spec_aliases :: "rstring list"
  spec_summary :: rstring
  argument_hint :: "rstring option"
  resume_supported :: bool

definition spec :: "string \<Rightarrow> string list \<Rightarrow> string \<Rightarrow> string option \<Rightarrow> bool \<Rightarrow> slash_command_spec" where
  "spec n aliases summ hint resume = \<lparr>spec_name = lit n, spec_aliases = map lit aliases, spec_summary = lit summ,
     argument_hint = map_option lit hint, resume_supported = resume\<rparr>"

definition specs_1 :: "slash_command_spec list" where
  "specs_1 =
    [spec ''help'' [] ''Show available slash commands'' None True,
     spec ''status'' [] ''Show current session status'' None True,
     spec ''sandbox'' [] ''Show sandbox isolation status'' None True,
     spec ''compact'' [] ''Compact local session history'' None True,
     spec ''model'' [] ''Show or switch the active model'' (Some ''[model]'') False,
     spec ''permissions'' [] ''Show or switch the active permission mode'' (Some ''[read-only|workspace-write|danger-full-access]'') False,
     spec ''clear'' [] ''Start a fresh local session'' (Some ''[--confirm]'') True,
     spec ''cost'' [] ''Show cumulative token usage for this session'' None True,
     spec ''resume'' [] ''Load a saved session into the REPL'' (Some ''<session-path>'') False,
     spec ''config'' [] ''Inspect Claude config files or merged sections'' (Some ''[env|hooks|model|plugins]'') True,
     spec ''mcp'' [] ''Inspect configured MCP servers'' (Some ''[list|show <server>|help]'') True,
     spec ''memory'' [] ''Inspect loaded Claude instruction memory files'' None True,
     spec ''init'' [] ''Create a starter CLAUDE.md for this repo'' None True,
     spec ''diff'' [] ''Show git diff for current workspace changes'' None True,
     spec ''version'' [] ''Show CLI version and build information'' None True,
     spec ''bughunter'' [] ''Inspect the codebase for likely bugs'' (Some ''[scope]'') False,
     spec ''commit'' [] ''Generate a commit message and create a git commit'' None False,
     spec ''pr'' [] ''Draft or create a pull request from the conversation'' (Some ''[context]'') False,
     spec ''issue'' [] ''Draft or create a GitHub issue from the conversation'' (Some ''[context]'') False,
     spec ''ultraplan'' [] ''Run a deep planning prompt with multi-step reasoning'' (Some ''[task]'') False]"

definition specs_2 :: "slash_command_spec list" where
  "specs_2 =
    [spec ''teleport'' [] ''Jump to a file or symbol by searching the workspace'' (Some ''<symbol-or-path>'') False,
     spec ''debug-tool-call'' [] ''Replay the last tool call with debug details'' None False,
     spec ''export'' [] ''Export the current conversation to a file'' (Some ''[file]'') True,
     spec ''session'' [] ''List, switch, or fork managed local sessions'' (Some ''[list|switch <session-id>|fork [branch-name]]'') False,
     spec ''plugin'' [''plugins'', ''marketplace''] ''Manage Claw Code plugins'' (Some ''[list|install <path>|enable <name>|disable <name>|uninstall <id>|update <id>]'') False,
     spec ''agents'' [] ''List configured agents'' (Some ''[list|help]'') True,
     spec ''skills'' [] ''List or install available skills'' (Some ''[list|install <path>|help]'') True,
     spec ''doctor'' [] ''Diagnose setup issues and environment health'' None True,
     spec ''login'' [] ''Log in to the service'' None False,
     spec ''logout'' [] ''Log out of the current session'' None False,
     spec ''plan'' [] ''Toggle or inspect planning mode'' (Some ''[on|off]'') True,
     spec ''review'' [] ''Run a code review on current changes'' (Some ''[scope]'') False,
     spec ''tasks'' [] ''List and manage background tasks'' (Some ''[list|get <id>|stop <id>]'') True,
     spec ''theme'' [] ''Switch the terminal color theme'' (Some ''[theme-name]'') True,
     spec ''vim'' [] ''Toggle vim keybinding mode'' None True,
     spec ''voice'' [] ''Toggle voice input mode'' (Some ''[on|off]'') False,
     spec ''upgrade'' [] ''Check for and install CLI updates'' None False,
     spec ''usage'' [] ''Show detailed API usage statistics'' None True,
     spec ''stats'' [] ''Show workspace and session statistics'' None True,
     spec ''rename'' [] ''Rename the current session'' (Some ''<name>'') False]"

definition specs_3 :: "slash_command_spec list" where
  "specs_3 =
    [spec ''copy'' [] ''Copy conversation or output to clipboard'' (Some ''[last|all]'') True,
     spec ''share'' [] ''Share the current conversation'' None False,
     spec ''feedback'' [] ''Submit feedback about the current session'' None False,
     spec ''hooks'' [] ''List and manage lifecycle hooks'' (Some ''[list|run <hook>]'') True,
     spec ''files'' [] ''List files in the current context window'' None True,
     spec ''context'' [] ''Inspect or manage the conversation context'' (Some ''[show|clear]'') True,
     spec ''color'' [] ''Configure terminal color settings'' (Some ''[scheme]'') True,
     spec ''effort'' [] ''Set the effort level for responses'' (Some ''[low|medium|high]'') True,
     spec ''fast'' [] ''Toggle fast/concise response mode'' None True,
     spec ''exit'' [] ''Exit the REPL session'' None False,
     spec ''branch'' [] ''Create or switch git branches'' (Some ''[name]'') False,
     spec ''rewind'' [] ''Rewind the conversation to a previous state'' (Some ''[steps]'') False,
     spec ''summary'' [] ''Generate a summary of the conversation'' None True,
     spec ''desktop'' [] ''Open or manage the desktop app integration'' None False,
     spec ''ide'' [] ''Open or configure IDE integration'' (Some ''[vscode|cursor]'') False,
     spec ''tag'' [] ''Tag the current conversation point'' (Some ''[label]'') True,
     spec ''brief'' [] ''Toggle brief output mode'' None True,
     spec ''advisor'' [] ''Toggle advisor mode for guidance-only responses'' None True,
     spec ''stickers'' [] ''Browse and manage sticker packs'' None True,
     spec ''insights'' [] ''Show AI-generated insights about the session'' None True]"

definition specs_4 :: "slash_command_spec list" where
  "specs_4 =
    [spec ''thinkback'' [] ''Replay the thinking process of the last response'' None True,
     spec ''release-notes'' [] ''Generate release notes from recent changes'' None False,
     spec ''security-review'' [] ''Run a security review on the codebase'' (Some ''[scope]'') False,
     spec ''keybindings'' [] ''Show or configure keyboard shortcuts'' None True,
     spec ''privacy-settings'' [] ''View or modify privacy settings'' None True,
     spec ''output-style'' [] ''Switch output formatting style'' (Some ''[style]'') True,
     spec ''add-dir'' [] ''Add an additional directory to the context'' (Some ''<path>'') False,
     spec ''allowed-tools'' [] ''Show or modify the allowed tools list'' (Some ''[add|remove|list] [tool]'') True,
     spec ''api-key'' [] ''Show or set the Anthropic API key'' (Some ''[key]'') False,
     spec ''approve'' [''yes'', ''y''] ''Approve a pending tool execution'' None False,
     spec ''deny'' [''no'', ''n''] ''Deny a pending tool execution'' None False,
     spec ''undo'' [] ''Undo the last file write or edit'' None False,
     spec ''stop'' [] ''Stop the current generation'' None False,
     spec ''retry'' [] ''Retry the last failed message'' None False,
     spec ''paste'' [] ''Paste clipboard content as input'' None False,
     spec ''screenshot'' [] ''Take a screenshot and add to conversation'' None False,
     spec ''image'' [] ''Add an image file to the conversation'' (Some ''<path>'') False,
     spec ''terminal-setup'' [] ''Configure terminal integration settings'' None True,
     spec ''search'' [] ''Search files in the workspace'' (Some ''<query>'') False,
     spec ''listen'' [] ''Listen for voice input'' None False]"

definition specs_5 :: "slash_command_spec list" where
  "specs_5 =
    [spec ''speak'' [] ''Read the last response aloud'' None False,
     spec ''language'' [] ''Set the interface language'' (Some ''[language]'') True,
     spec ''profile'' [] ''Show or switch user profile'' (Some ''[name]'') False,
     spec ''max-tokens'' [] ''Show or set the max output tokens'' (Some ''[count]'') True,
     spec ''temperature'' [] ''Show or set the sampling temperature'' (Some ''[value]'') True,
     spec ''system-prompt'' [] ''Show the active system prompt'' None True,
     spec ''tool-details'' [] ''Show detailed info about a specific tool'' (Some ''<tool-name>'') True,
     spec ''format'' [] ''Format the last response in a different style'' (Some ''[markdown|plain|json]'') False,
     spec ''pin'' [] ''Pin a message to persist across compaction'' (Some ''[message-index]'') False,
     spec ''unpin'' [] ''Unpin a previously pinned message'' (Some ''[message-index]'') False,
     spec ''bookmarks'' [] ''List or manage conversation bookmarks'' (Some ''[add|remove|list]'') True,
     spec ''workspace'' [''cwd''] ''Show or change the working directory'' (Some ''[path]'') True,
     spec ''history'' [] ''Show conversation history summary'' (Some ''[count]'') True,
     spec ''tokens'' [] ''Show token count for the current conversation'' None True,
     spec ''cache'' [] ''Show prompt cache statistics'' None True,
     spec ''providers'' [] ''List available model providers'' None True,
     spec ''notifications'' [] ''Show or configure notification settings'' (Some ''[on|off|status]'') True,
     spec ''changelog'' [] ''Show recent changes to the codebase'' (Some ''[count]'') True,
     spec ''test'' [] ''Run tests for the current project'' (Some ''[filter]'') False,
     spec ''lint'' [] ''Run linting for the current project'' (Some ''[filter]'') False]"

definition specs_6 :: "slash_command_spec list" where
  "specs_6 =
    [spec ''build'' [] ''Build the current project'' (Some ''[target]'') False,
     spec ''run'' [] ''Run a command in the project context'' (Some ''<command>'') False,
     spec ''git'' [] ''Run a git command in the workspace'' (Some ''<subcommand>'') False,
     spec ''stash'' [] ''Stash or unstash workspace changes'' (Some ''[pop|list|apply]'') False,
     spec ''blame'' [] ''Show git blame for a file'' (Some ''<file> [line]'') True,
     spec ''log'' [] ''Show git log for the workspace'' (Some ''[count]'') True,
     spec ''cron'' [] ''Manage scheduled tasks'' (Some ''[list|add|remove]'') True,
     spec ''team'' [] ''Manage agent teams'' (Some ''[list|create|delete]'') True,
     spec ''benchmark'' [] ''Run performance benchmarks'' (Some ''[suite]'') False,
     spec ''migrate'' [] ''Run pending data migrations'' None False,
     spec ''reset'' [] ''Reset configuration to defaults'' (Some ''[section]'') False,
     spec ''telemetry'' [] ''Show or configure telemetry settings'' (Some ''[on|off|status]'') True,
     spec ''env'' [] ''Show environment variables visible to tools'' None True,
     spec ''project'' [] ''Show project detection info'' None True,
     spec ''templates'' [] ''List or apply prompt templates'' (Some ''[list|apply <name>]'') False,
     spec ''explain'' [] ''Explain a file or code snippet'' (Some ''<path> [line-range]'') False,
     spec ''refactor'' [] ''Suggest refactoring for a file or function'' (Some ''<path> [scope]'') False,
     spec ''docs'' [] ''Generate or show documentation'' (Some ''[path]'') False,
     spec ''fix'' [] ''Fix errors in a file or project'' (Some ''[path]'') False,
     spec ''perf'' [] ''Analyze performance of a function or file'' (Some ''<path>'') False]"

definition specs_7 :: "slash_command_spec list" where
  "specs_7 =
    [spec ''chat'' [] ''Switch to free-form chat mode'' None False,
     spec ''focus'' [] ''Focus context on specific files or directories'' (Some ''<path> [path...]'') False,
     spec ''unfocus'' [] ''Remove focus from files or directories'' (Some ''[path...]'') False,
     spec ''web'' [] ''Fetch and summarize a web page'' (Some ''<url>'') False,
     spec ''map'' [] ''Show a visual map of the codebase structure'' (Some ''[depth]'') True,
     spec ''symbols'' [] ''List symbols (functions, classes, etc.) in a file'' (Some ''<path>'') True,
     spec ''references'' [] ''Find all references to a symbol'' (Some ''<symbol>'') False,
     spec ''definition'' [] ''Go to the definition of a symbol'' (Some ''<symbol>'') False,
     spec ''hover'' [] ''Show hover information for a symbol'' (Some ''<symbol>'') True,
     spec ''diagnostics'' [] ''Show LSP diagnostics for a file'' (Some ''[path]'') True,
     spec ''autofix'' [] ''Auto-fix all fixable diagnostics'' (Some ''[path]'') False,
     spec ''multi'' [] ''Execute multiple slash commands in sequence'' (Some ''<commands>'') False,
     spec ''macro'' [] ''Record or replay command macros'' (Some ''[record|stop|play <name>]'') False,
     spec ''alias'' [] ''Create a command alias'' (Some ''<name> <command>'') True,
     spec ''parallel'' [] ''Run commands in parallel subagents'' (Some ''<count> <prompt>'') False,
     spec ''agent'' [] ''Manage sub-agents and spawned sessions'' (Some ''[list|spawn|kill]'') True,
     spec ''subagent'' [] ''Control active subagent execution'' (Some ''[list|steer <target> <msg>|kill <id>]'') True,
     spec ''reasoning'' [] ''Toggle extended reasoning mode'' (Some ''[on|off|stream]'') True,
     spec ''budget'' [] ''Show or set token budget limits'' (Some ''[show|set <limit>]'') True,
     spec ''rate-limit'' [] ''Configure API rate limiting'' (Some ''[status|set <rpm>]'') True]"

definition specs_8 :: "slash_command_spec list" where
  "specs_8 =
    [spec ''metrics'' [] ''Show performance and usage metrics'' None True]"

definition slash_command_specs :: "slash_command_spec list" where
  "slash_command_specs = specs_1 @ specs_2 @ specs_3 @ specs_4 @ specs_5 @ specs_6 @ specs_7 @ specs_8"

lemmas specs_defs = specs_1_def specs_2_def specs_3_def specs_4_def specs_5_def specs_6_def specs_7_def specs_8_def

end
