(* ===== verification/Commands.thy ===== *)
theory Commands imports CommandSpecs Compact "HOL-Library.Product_Lexorder" begin

text \<open>
  Slash commands (\<^verbatim>\<open>crates/commands/src/lib.rs\<close>): parsing, errors, help, suggestions, and the handling of the
  commands that work on a session.  An error is its message.  The arms of the matches on command names have
  different names, so those of the same form are kept in tables.
\<close>

section \<open>Commands\<close>

datatype (plugins only: code) slash_command =
  Cmd_Help | Cmd_Status | Cmd_Sandbox | Cmd_Compact | Cmd_Bughunter "rstring option" | Cmd_Commit
   | Cmd_Pr "rstring option" | Cmd_Issue "rstring option" | Cmd_Ultraplan "rstring option"
   | Cmd_Teleport "rstring option" | Cmd_DebugToolCall | Cmd_Model "rstring option"
   | Cmd_Permissions "rstring option" | Cmd_Clear bool | Cmd_Cost | Cmd_Resume "rstring option"
   | Cmd_Config "rstring option" | Cmd_Mcp "rstring option" "rstring option" | Cmd_Memory | Cmd_Init
   | Cmd_Diff | Cmd_Version | Cmd_Export "rstring option" | Cmd_Session "rstring option" "rstring option"
   | Cmd_Plugins "rstring option" "rstring option" | Cmd_Agents "rstring option" | Cmd_Skills "rstring option"
   | Cmd_Doctor | Cmd_Login | Cmd_Logout | Cmd_Vim | Cmd_Upgrade | Cmd_Stats | Cmd_Share | Cmd_Feedback
   | Cmd_Files | Cmd_Fast | Cmd_Exit | Cmd_Summary | Cmd_Desktop | Cmd_Brief | Cmd_Advisor | Cmd_Stickers
   | Cmd_Insights | Cmd_Thinkback | Cmd_ReleaseNotes | Cmd_SecurityReview | Cmd_Keybindings
   | Cmd_PrivacySettings | Cmd_Plan "rstring option" | Cmd_Review "rstring option"
   | Cmd_Tasks "rstring option" | Cmd_Theme "rstring option" | Cmd_Voice "rstring option"
   | Cmd_Usage "rstring option" | Cmd_Rename "rstring option" | Cmd_Copy "rstring option"
   | Cmd_Hooks "rstring option" | Cmd_Context "rstring option" | Cmd_Color "rstring option"
   | Cmd_Effort "rstring option" | Cmd_Branch "rstring option" | Cmd_Rewind "rstring option"
   | Cmd_Ide "rstring option" | Cmd_Tag "rstring option" | Cmd_OutputStyle "rstring option"
   | Cmd_AddDir "rstring option" | Cmd_Unknown rstring

section \<open>Help of one command\<close>

definition eq_ignore_ascii_case :: "rstring \<Rightarrow> rstring \<Rightarrow> bool" where
  "eq_ignore_ascii_case a b \<longleftrightarrow> to_ascii_lowercase a = to_ascii_lowercase b"

definition find_slash_command_spec :: "rstring \<Rightarrow> slash_command_spec option" where
  "find_slash_command_spec name =
     find (\<lambda>s. eq_ignore_ascii_case (spec_name s) name \<or> list_ex (\<lambda>a. eq_ignore_ascii_case a name) (spec_aliases s))
       slash_command_specs"

definition command_root_name :: "rstring \<Rightarrow> rstring" where
  "command_root_name command = (case split_whitespace command of [] \<Rightarrow> command | w # _ \<Rightarrow> w)"

definition slash_command_usage :: "slash_command_spec \<Rightarrow> rstring" where
  "slash_command_usage s = c_slash # spec_name s @ (case argument_hint s of Some h \<Rightarrow> c_space # h | None \<Rightarrow> [])"

definition slash_command_category :: "rstring \<Rightarrow> rstring" where
  "slash_command_category name =
     (if name \<in> lit ` {''help'', ''status'', ''sandbox'', ''model'', ''permissions'', ''cost'', ''resume'', ''session'', ''version'', ''login'', ''logout'', ''usage'', ''stats'', ''rename'', ''privacy-settings''}
        then lit ''Session & visibility''
      else if name \<in> lit ` {''compact'', ''clear'', ''config'', ''memory'', ''init'', ''diff'', ''commit'', ''pr'', ''issue'', ''export'', ''plugin'', ''branch'', ''add-dir'', ''files'', ''hooks'', ''release-notes''}
        then lit ''Workspace & git''
      else if name \<in> lit ` {''agents'', ''skills'', ''teleport'', ''debug-tool-call'', ''mcp'', ''context'', ''tasks'', ''doctor'', ''ide'', ''desktop''}
        then lit ''Discovery & debugging''
      else if name \<in> lit ` {''bughunter'', ''ultraplan'', ''review'', ''security-review'', ''advisor'', ''insights''}
        then lit ''Analysis & automation''
      else if name \<in> lit ` {''theme'', ''vim'', ''voice'', ''color'', ''effort'', ''fast'', ''brief'', ''output-style'', ''keybindings'', ''stickers''}
        then lit ''Appearance & input''
      else if name \<in> lit ` {''copy'', ''share'', ''feedback'', ''summary'', ''tag'', ''thinkback'', ''plan'', ''exit'', ''upgrade'', ''rewind''}
        then lit ''Communication & control''
      else lit ''Other'')"

definition show_aliases :: "slash_command_spec \<Rightarrow> rstring" where
  "show_aliases s = join (lit '', '') (map (\<lambda>a. c_slash # a) (spec_aliases s))"

definition slash_command_detail_lines :: "slash_command_spec \<Rightarrow> rstring list" where
  "slash_command_detail_lines s =
     [c_slash # spec_name s, lit ''  Summary          '' @ spec_summary s, lit ''  Usage            '' @ slash_command_usage s,
      lit ''  Category         '' @ slash_command_category (spec_name s)] @
     (if spec_aliases s \<noteq> [] then [lit ''  Aliases          '' @ show_aliases s] else []) @
     (if resume_supported s then [lit ''  Resume           Supported with --resume SESSION.jsonl''] else [])"

definition render_slash_command_help_detail :: "rstring \<Rightarrow> rstring option" where
  "render_slash_command_help_detail name =
     map_option (\<lambda>s. join [c_nl] (slash_command_detail_lines s)) (find_slash_command_spec name)"

section \<open>Errors\<close>

definition command_error :: "rstring \<Rightarrow> rstring \<Rightarrow> rstring \<Rightarrow> rstring" where
  "command_error message command usage =
     message @ [c_nl] @ lit ''  Usage            '' @ usage @
     (case render_slash_command_help_detail command of Some d \<Rightarrow> [c_nl, c_nl] @ d | None \<Rightarrow> [])"

definition usage_error :: "rstring \<Rightarrow> rstring \<Rightarrow> rstring" where
  "usage_error command hint =
     (let usage = trim_end (c_slash # command @ [c_space] @ hint)
      in command_error (lit ''Usage: '' @ usage) (command_root_name command) usage)"

section \<open>Arguments\<close>

definition validate_no_args :: "rstring \<Rightarrow> rstring list \<Rightarrow> rstring + unit" where
  "validate_no_args command args =
     (if args = [] then Inr ()
      else Inl (command_error (lit ''Unexpected arguments for /'' @ command @ lit ''.'') command (c_slash # command)))"

definition optional_single_arg :: "rstring \<Rightarrow> rstring list \<Rightarrow> rstring \<Rightarrow> rstring + rstring option" where
  "optional_single_arg command args hint =
     (case args of [] \<Rightarrow> Inr None | [v] \<Rightarrow> Inr (Some v) | _ \<Rightarrow> Inl (usage_error command hint))"

definition require_remainder :: "rstring \<Rightarrow> rstring option \<Rightarrow> rstring \<Rightarrow> rstring + rstring" where
  "require_remainder command remainder hint =
     (case remainder of Some r \<Rightarrow> Inr r | None \<Rightarrow> Inl (usage_error command hint))"

definition permission_modes :: "rstring list" where
  "permission_modes = [lit ''read-only'', lit ''workspace-write'', lit ''danger-full-access'']"

definition parse_permissions_mode :: "rstring list \<Rightarrow> rstring + rstring option" where
  "parse_permissions_mode args =
     rbind (optional_single_arg (lit ''permissions'') args (lit ''[read-only|workspace-write|danger-full-access]'')) (\<lambda>mode.
       case mode of
         None \<Rightarrow> Inr None
       | Some m \<Rightarrow> if m \<in> set permission_modes then Inr (Some m)
           else Inl (command_error
             (lit ''Unsupported /permissions mode '' @ [c_squote] @ m @ [c_squote] @
                lit ''. Use read-only, workspace-write, or danger-full-access.'')
             (lit ''permissions'') (lit ''/permissions [read-only|workspace-write|danger-full-access]'')))"

definition parse_clear_args :: "rstring list \<Rightarrow> rstring + bool" where
  "parse_clear_args args = (case args of
     [] \<Rightarrow> Inr False
   | [a] \<Rightarrow> if a = lit ''--confirm'' then Inr True
       else Inl (command_error
         (lit ''Unsupported /clear argument '' @ [c_squote] @ a @ [c_squote] @ lit ''. Use /clear or /clear --confirm.'')
         (lit ''clear'') (lit ''/clear [--confirm]''))
   | _ \<Rightarrow> Inl (usage_error (lit ''clear'') (lit ''[--confirm]'')))"

definition config_sections :: "rstring list" where
  "config_sections = [lit ''env'', lit ''hooks'', lit ''model'', lit ''plugins'']"

definition parse_config_section :: "rstring list \<Rightarrow> rstring + rstring option" where
  "parse_config_section args =
     rbind (optional_single_arg (lit ''config'') args (lit ''[env|hooks|model|plugins]'')) (\<lambda>section.
       case section of
         None \<Rightarrow> Inr None
       | Some s \<Rightarrow> if s \<in> set config_sections then Inr (Some s)
           else Inl (command_error
             (lit ''Unsupported /config section '' @ [c_squote] @ s @ [c_squote] @ lit ''. Use env, hooks, model, or plugins.'')
             (lit ''config'') (lit ''/config [env|hooks|model|plugins]'')))"

definition parse_session_command :: "rstring list \<Rightarrow> rstring + slash_command" where
  "parse_session_command args = (case args of
     [] \<Rightarrow> Inr (Cmd_Session None None)
   | action # rest \<Rightarrow>
       if action = lit ''list'' then
         (if rest = [] then Inr (Cmd_Session (Some action) None)
          else Inl (usage_error (lit ''session'') (lit ''[list|switch <session-id>|fork [branch-name]]'')))
       else if action = lit ''switch'' then
         (case rest of
            [] \<Rightarrow> Inl (usage_error (lit ''session switch'') (lit ''<session-id>''))
          | [target] \<Rightarrow> Inr (Cmd_Session (Some action) (Some target))
          | _ \<Rightarrow> Inl (command_error (lit ''Unexpected arguments for /session switch.'') (lit ''session'')
              (lit ''/session switch <session-id>'')))
       else if action = lit ''fork'' then
         (case rest of
            [] \<Rightarrow> Inr (Cmd_Session (Some action) None)
          | [target] \<Rightarrow> Inr (Cmd_Session (Some action) (Some target))
          | _ \<Rightarrow> Inl (command_error (lit ''Unexpected arguments for /session fork.'') (lit ''session'')
              (lit ''/session fork [branch-name]'')))
       else Inl (command_error
         (lit ''Unknown /session action '' @ [c_squote] @ action @ [c_squote] @
            lit ''. Use list, switch <session-id>, or fork [branch-name].'')
         (lit ''session'') (lit ''/session [list|switch <session-id>|fork [branch-name]]'')))"

definition help_words :: "rstring list" where
  "help_words = [lit ''help'', lit ''-h'', lit ''--help'']"

definition parse_mcp_command :: "rstring list \<Rightarrow> rstring + slash_command" where
  "parse_mcp_command args = (case args of
     [] \<Rightarrow> Inr (Cmd_Mcp None None)
   | action # rest \<Rightarrow>
       if action = lit ''list'' then
         (if rest = [] then Inr (Cmd_Mcp (Some action) None) else Inl (usage_error (lit ''mcp list'') []))
       else if action = lit ''show'' then
         (case rest of
            [] \<Rightarrow> Inl (usage_error (lit ''mcp show'') (lit ''<server>''))
          | [target] \<Rightarrow> Inr (Cmd_Mcp (Some action) (Some target))
          | _ \<Rightarrow> Inl (command_error (lit ''Unexpected arguments for /mcp show.'') (lit ''mcp'') (lit ''/mcp show <server>'')))
       else if action \<in> set help_words \<and> rest = [] then Inr (Cmd_Mcp (Some (lit ''help'')) None)
       else Inl (command_error
         (lit ''Unknown /mcp action '' @ [c_squote] @ action @ [c_squote] @ lit ''. Use list, show <server>, or help.'')
         (lit ''mcp'') (lit ''/mcp [list|show <server>|help]'')))"

text \<open>The actions on one plugin, with the form of their argument.\<close>

definition one_plugin :: "rstring \<Rightarrow> rstring \<Rightarrow> rstring list \<Rightarrow> rstring + slash_command" where
  "one_plugin action hint rest = (case rest of
     [] \<Rightarrow> Inl (usage_error (lit ''plugin '' @ action) hint)
   | [target] \<Rightarrow> Inr (Cmd_Plugins (Some action) (Some target))
   | _ \<Rightarrow> Inl (command_error (lit ''Unexpected arguments for /plugin '' @ action @ lit ''.'') (lit ''plugin'')
       (lit ''/plugin '' @ action @ [c_space] @ hint)))"

definition parse_plugin_command :: "rstring list \<Rightarrow> rstring + slash_command" where
  "parse_plugin_command args = (case args of
     [] \<Rightarrow> Inr (Cmd_Plugins None None)
   | action # rest \<Rightarrow>
       if action = lit ''list'' then
         (if rest = [] then Inr (Cmd_Plugins (Some action) None) else Inl (usage_error (lit ''plugin list'') []))
       else if action = lit ''install'' then
         (if rest = [] then Inl (usage_error (lit ''plugin install'') (lit ''<path>''))
          else Inr (Cmd_Plugins (Some action) (Some (join [c_space] rest))))
       else if action \<in> {lit ''enable'', lit ''disable''} then one_plugin action (lit ''<name>'') rest
       else if action \<in> {lit ''uninstall'', lit ''update''} then one_plugin action (lit ''<id>'') rest
       else Inl (command_error
         (lit ''Unknown /plugin action '' @ [c_squote] @ action @ [c_squote] @
            lit ''. Use list, install <path>, enable <name>, disable <name>, uninstall <id>, or update <id>.'')
         (lit ''plugin'')
         (lit ''/plugin [list|install <path>|enable <name>|disable <name>|uninstall <id>|update <id>]'')))"

definition normalize_optional_args :: "rstring option \<Rightarrow> rstring option" where
  "normalize_optional_args args =
     (case args of None \<Rightarrow> None | Some a \<Rightarrow> if trim a = [] then None else Some (trim a))"

definition parse_list_or_help_args :: "rstring \<Rightarrow> rstring option \<Rightarrow> rstring + rstring option" where
  "parse_list_or_help_args command args = (case normalize_optional_args args of
     None \<Rightarrow> Inr args
   | Some a \<Rightarrow> if a \<in> set (lit ''list'' # help_words) then Inr args
       else Inl (command_error
         (lit ''Unexpected arguments for /'' @ command @ lit '': '' @ a @ lit ''. Use /'' @ command @ lit '', /'' @ command @
            lit '' list, or /'' @ command @ lit '' help.'')
         command (c_slash # command @ lit '' [list|help]'')))"

definition skills_error :: "rstring \<Rightarrow> rstring" where
  "skills_error args = command_error
     (lit ''Unexpected arguments for /skills: '' @ args @ lit ''. Use /skills, /skills list, /skills install <path>, or /skills help.'')
     (lit ''skills'') (lit ''/skills [list|install <path>|help]'')"

definition parse_skills_args :: "rstring option \<Rightarrow> rstring + rstring option" where
  "parse_skills_args args = (case normalize_optional_args args of
     None \<Rightarrow> Inr None
   | Some a \<Rightarrow>
       if a \<in> set (lit ''list'' # help_words) then Inr (Some a)
       else if a = lit ''install'' then
         Inl (command_error (lit ''Usage: /skills install <path>'') (lit ''skills'') (lit ''/skills install <path>''))
       else (case map_option trim (strip_prefix a (lit ''install'')) of
           Some target \<Rightarrow> if target \<noteq> [] then Inr (Some (lit ''install '' @ target)) else Inl (skills_error a)
         | None \<Rightarrow> Inl (skills_error a)))"

definition remainder_after_command :: "rstring \<Rightarrow> rstring \<Rightarrow> rstring option" where
  "remainder_after_command inp command =
     normalize_optional_args (strip_prefix (trim inp) (c_slash # command))"

section \<open>Parsing\<close>

text \<open>The commands without arguments and those that take the rest of the line as it is.\<close>

definition plain_commands :: "(rstring \<times> slash_command) list" where
  "plain_commands =
    [(lit ''help'', Cmd_Help), (lit ''status'', Cmd_Status), (lit ''sandbox'', Cmd_Sandbox),
     (lit ''compact'', Cmd_Compact), (lit ''commit'', Cmd_Commit),
     (lit ''debug-tool-call'', Cmd_DebugToolCall), (lit ''cost'', Cmd_Cost), (lit ''memory'', Cmd_Memory),
     (lit ''init'', Cmd_Init), (lit ''diff'', Cmd_Diff), (lit ''version'', Cmd_Version),
     (lit ''doctor'', Cmd_Doctor), (lit ''login'', Cmd_Login), (lit ''logout'', Cmd_Logout),
     (lit ''vim'', Cmd_Vim), (lit ''upgrade'', Cmd_Upgrade), (lit ''stats'', Cmd_Stats),
     (lit ''share'', Cmd_Share), (lit ''feedback'', Cmd_Feedback), (lit ''files'', Cmd_Files),
     (lit ''fast'', Cmd_Fast), (lit ''exit'', Cmd_Exit), (lit ''summary'', Cmd_Summary),
     (lit ''desktop'', Cmd_Desktop), (lit ''brief'', Cmd_Brief), (lit ''advisor'', Cmd_Advisor),
     (lit ''stickers'', Cmd_Stickers), (lit ''insights'', Cmd_Insights), (lit ''thinkback'', Cmd_Thinkback),
     (lit ''release-notes'', Cmd_ReleaseNotes), (lit ''security-review'', Cmd_SecurityReview),
     (lit ''keybindings'', Cmd_Keybindings), (lit ''privacy-settings'', Cmd_PrivacySettings)]"

definition text_commands :: "(rstring \<times> (rstring option \<Rightarrow> slash_command)) list" where
  "text_commands =
    [(lit ''bughunter'', Cmd_Bughunter), (lit ''pr'', Cmd_Pr), (lit ''issue'', Cmd_Issue),
     (lit ''ultraplan'', Cmd_Ultraplan), (lit ''export'', Cmd_Export), (lit ''plan'', Cmd_Plan),
     (lit ''review'', Cmd_Review), (lit ''tasks'', Cmd_Tasks), (lit ''theme'', Cmd_Theme),
     (lit ''voice'', Cmd_Voice), (lit ''usage'', Cmd_Usage), (lit ''rename'', Cmd_Rename),
     (lit ''copy'', Cmd_Copy), (lit ''hooks'', Cmd_Hooks), (lit ''context'', Cmd_Context),
     (lit ''color'', Cmd_Color), (lit ''effort'', Cmd_Effort), (lit ''branch'', Cmd_Branch),
     (lit ''rewind'', Cmd_Rewind), (lit ''ide'', Cmd_Ide), (lit ''tag'', Cmd_Tag),
     (lit ''output-style'', Cmd_OutputStyle), (lit ''add-dir'', Cmd_AddDir)]"

definition parse_named_command :: "rstring \<Rightarrow> rstring list \<Rightarrow> rstring option \<Rightarrow> rstring + slash_command" where
  "parse_named_command command args remainder =
     (case map_of plain_commands command of
        Some c \<Rightarrow> rbind (validate_no_args command args) (\<lambda>_. Inr c)
      | None \<Rightarrow> (case map_of text_commands command of
          Some cmd_of \<Rightarrow> Inr (cmd_of remainder)
        | None \<Rightarrow>
            if command = lit ''teleport'' then
              rbind (require_remainder command remainder (lit ''<symbol-or-path>'')) (\<lambda>r. Inr (Cmd_Teleport (Some r)))
            else if command = lit ''model'' then
              rbind (optional_single_arg command args (lit ''[model]'')) (\<lambda>m. Inr (Cmd_Model m))
            else if command = lit ''permissions'' then rbind (parse_permissions_mode args) (\<lambda>m. Inr (Cmd_Permissions m))
            else if command = lit ''clear'' then rbind (parse_clear_args args) (\<lambda>b. Inr (Cmd_Clear b))
            else if command = lit ''resume'' then
              rbind (require_remainder command remainder (lit ''<session-path>'')) (\<lambda>r. Inr (Cmd_Resume (Some r)))
            else if command = lit ''config'' then rbind (parse_config_section args) (\<lambda>s. Inr (Cmd_Config s))
            else if command = lit ''mcp'' then parse_mcp_command args
            else if command = lit ''session'' then parse_session_command args
            else if command \<in> {lit ''plugin'', lit ''plugins'', lit ''marketplace''} then parse_plugin_command args
            else if command = lit ''agents'' then
              rbind (parse_list_or_help_args command remainder) (\<lambda>a. Inr (Cmd_Agents a))
            else if command = lit ''skills'' then rbind (parse_skills_args remainder) (\<lambda>a. Inr (Cmd_Skills a))
            else Inr (Cmd_Unknown command)))"

definition validate_slash_command_input :: "rstring \<Rightarrow> rstring + slash_command option" where
  "validate_slash_command_input inp =
     (let trimmed = trim inp
      in if \<not> starts_with trimmed [c_slash] then Inr None
         else (case split_whitespace (dropWhile (\<lambda>c. c = c_slash) trimmed) of
             [] \<Rightarrow> Inl (lit ''Slash command name is missing. Use /help to list available slash commands.'')
           | command # args \<Rightarrow>
               rbind (parse_named_command command args (remainder_after_command trimmed command)) (\<lambda>c. Inr (Some c))))"

section \<open>Lists of commands\<close>

definition resume_supported_slash_commands :: "slash_command_spec list" where
  "resume_supported_slash_commands = filter resume_supported slash_command_specs"

text \<open>\<^verbatim>\<open>{name:<66}\<close> pads to 66 chars.\<close>

definition format_slash_command_help_line :: "slash_command_spec \<Rightarrow> rstring" where
  "format_slash_command_help_line s =
     (let name = slash_command_usage s;
          alias_suffix = (if spec_aliases s = [] then [] else lit '' (aliases: '' @ show_aliases s @ lit '')'')
      in lit ''  '' @ name @ replicate (66 - length name) c_space @ [c_space] @ spec_summary s @ alias_suffix @
         (if resume_supported s then lit '' [resume]'' else []))"

definition help_categories :: "rstring list" where
  "help_categories = [lit ''Session & visibility'', lit ''Workspace & git'', lit ''Discovery & debugging'', lit ''Analysis & automation'']"

definition category_lines :: "rstring \<Rightarrow> rstring list" where
  "category_lines cat = cat #
     map format_slash_command_help_line (filter (\<lambda>s. slash_command_category (spec_name s) = cat) slash_command_specs) @ [[]]"

definition help_lines :: "rstring list" where
  "help_lines =
     [lit ''Slash commands'', lit ''  Start here        /status, /diff, /agents, /skills, /commit'',
      lit ''  [resume]          also works with --resume SESSION.jsonl'', []] @ concat (map category_lines help_categories)"

definition render_slash_command_help :: "rstring" where
  "render_slash_command_help = join [c_nl] (rev (dropWhile (\<lambda>l. l = []) (rev help_lines)))"

section \<open>Suggestions\<close>

text \<open>
  One row of the table: \<open>cell\<close> is \<^verbatim>\<open>current[right_index]\<close>, the last list is \<^verbatim>\<open>previous\<close> from \<^verbatim>\<open>right_index\<close> on.
\<close>

fun distance_cells :: "rchar \<Rightarrow> nat \<Rightarrow> rstring \<Rightarrow> nat list \<Rightarrow> nat list" where
  "distance_cells l cell (r # rs) (p # q # ps) =
     (let new = min (min (cell + 1) (q + 1)) (p + (if l \<noteq> r then 1 else 0)) in new # distance_cells l new rs (q # ps))"
| "distance_cells l cell _ _ = []"

fun distance_rows :: "nat \<Rightarrow> rstring \<Rightarrow> rstring \<Rightarrow> nat list \<Rightarrow> nat list" where
  "distance_rows i [] right previous = previous"
| "distance_rows i (l # ls) right previous =
     distance_rows (i + 1) ls right ((i + 1) # distance_cells l (i + 1) right previous)"

definition levenshtein_distance :: "rstring \<Rightarrow> rstring \<Rightarrow> nat" where
  "levenshtein_distance left right =
     (if left = right then 0
      else if left = [] then length right
      else if right = [] then length left
      else distance_rows 0 left right [0..<length right + 1] ! length right)"

definition candidate_rank :: "rstring \<Rightarrow> rstring \<Rightarrow> nat \<times> nat" where
  "candidate_rank query candidate =
     (if starts_with candidate query \<or> starts_with query candidate then 0
      else if str_contains candidate query \<or> str_contains query candidate then 1 else 2,
      levenshtein_distance candidate query)"

definition suggestion_of :: "rstring \<Rightarrow> slash_command_spec \<Rightarrow> (nat \<times> nat \<times> nat \<times> rstring) option" where
  "suggestion_of query s =
     (let ranks = map (\<lambda>n. candidate_rank query (to_ascii_lowercase n)) (spec_name s # spec_aliases s);
          (rank, distance) = fold min (tl ranks) (hd ranks)
      in if rank \<le> 1 \<or> distance \<le> 2 then Some (rank, distance, str_len (spec_name s), spec_name s) else None)"

definition suggest_slash_commands :: "rstring \<Rightarrow> nat \<Rightarrow> rstring list" where
  "suggest_slash_commands inp limit =
     (let query = to_ascii_lowercase (dropWhile (\<lambda>c. c = c_slash) (trim inp))
      in if query = [] \<or> limit = 0 then []
         else take limit (map (\<lambda>(_, _, _, name). c_slash # name)
           (sort (filter_map (suggestion_of query) slash_command_specs))))"

section \<open>Handling\<close>

record slash_command_result =
  result_message :: rstring
  result_session :: session

definition handle_slash_command :: "u64 \<Rightarrow> rstring \<Rightarrow> session \<Rightarrow> compaction_config \<Rightarrow> slash_command_result option" where
  "handle_slash_command now inp s config = (case validate_slash_command_input inp of
     Inr None \<Rightarrow> None
   | Inl e \<Rightarrow> Some \<lparr>result_message = e, result_session = s\<rparr>
   | Inr (Some c) \<Rightarrow>
       if c = Cmd_Compact then
         (let r = compact_session now s config
          in Some \<lparr>result_message =
               (if result_removed r = 0 then lit ''Compaction skipped: session is below the compaction threshold.''
                else lit ''Compacted '' @ show_nat (result_removed r) @ lit '' messages into a resumable system summary.''),
               result_session = compacted_session r\<rparr>)
       else if c = Cmd_Help then Some \<lparr>result_message = render_slash_command_help, result_session = s\<rparr>
       else None)"

section \<open>The distance of two names\<close>

text \<open>
  The specification: an alignment turns one list into the other by deleting, inserting and replacing chars; \<open>n\<close> counts
  those it does not keep.
\<close>

inductive alignment :: "'a list \<Rightarrow> 'a list \<Rightarrow> nat \<Rightarrow> bool" where
  align_nil: "alignment [] [] 0"
| align_delete: "alignment xs ys n \<Longrightarrow> alignment (x # xs) ys (Suc n)"
| align_insert: "alignment xs ys n \<Longrightarrow> alignment xs (y # ys) (Suc n)"
| align_match: "alignment xs ys n \<Longrightarrow> alignment (x # xs) (y # ys) (n + (if x \<noteq> y then 1 else 0))"

fun edit :: "'a list \<Rightarrow> 'a list \<Rightarrow> nat" where
  "edit [] ys = length ys"
| "edit xs [] = length xs"
| "edit (x # xs) (y # ys) =
     min (min (edit (x # xs) ys + 1) (edit xs (y # ys) + 1)) (edit xs ys + (if x \<noteq> y then 1 else 0))"

lemma edit_Nil2 [simp]: "edit xs [] = length xs"
  by (cases xs) simp_all

lemma alignment_all: "alignment [] ys (length ys)" "alignment xs [] (length xs)"
  by (induction ys; simp add: alignment.intros)+ (induction xs; simp add: alignment.intros)

lemma edit_alignment: "alignment xs ys (edit xs ys)"
proof (induction xs ys rule: edit.induct)
  case (3 x xs y ys)
  from align_insert [OF "3"(1)] align_delete [OF "3"(2)] align_match [OF "3"(3), of x y] show ?case
    by (simp add: min_def)
qed (simp_all add: alignment_all(1) alignment_all(2) [of "_ # _", simplified])

lemma edit_cons: "edit (x # xs) ys \<le> Suc (edit xs ys)" "edit xs (y # ys) \<le> Suc (edit xs ys)"
    "edit (x # xs) (y # ys) \<le> edit xs ys + (if x \<noteq> y then 1 else 0)"
  by (cases ys; simp) (cases xs; simp)+

lemma alignment_edit: "alignment xs ys n \<Longrightarrow> edit xs ys \<le> n"
proof (induction rule: alignment.induct)
  case (align_delete xs ys n x)
  then show ?case using edit_cons(1) [of x xs ys] by linarith
next
  case (align_insert xs ys n y)
  then show ?case using edit_cons(2) [of xs y ys] by linarith
next
  case (align_match xs ys n x y)
  then show ?case using edit_cons(3) [of x xs y ys] by linarith
qed simp

lemma alignment_append: "alignment xs ys n \<Longrightarrow> alignment us vs m \<Longrightarrow> alignment (xs @ us) (ys @ vs) (n + m)"
proof (induction rule: alignment.induct)
  case (align_match xs ys n x y)
  then show ?case using alignment.align_match [of "xs @ us" "ys @ vs" "n + m" x y] by (simp add: ac_simps)
qed (auto intro: alignment.intros)

lemma alignment_rev: "alignment xs ys n \<Longrightarrow> alignment (rev xs) (rev ys) n"
proof (induction rule: alignment.induct)
  case align_nil
  show ?case by (simp add: alignment.align_nil)
next
  case (align_delete xs ys n x)
  have "alignment [x] [] 1" by (simp add: alignment.intros)
  from alignment_append [OF align_delete.IH this] show ?case by simp
next
  case (align_insert xs ys n y)
  have "alignment [] [y] 1" by (simp add: alignment.intros)
  from alignment_append [OF align_insert.IH this] show ?case by simp
next
  case (align_match xs ys n x y)
  have "alignment [x] [y] (if x \<noteq> y then 1 else 0)" using alignment.align_match [OF alignment.align_nil, of x y] by simp
  from alignment_append [OF align_match.IH this] show ?case by simp
qed

lemma edit_rev: "edit (rev xs) (rev ys) = edit xs ys"
  by (metis alignment_edit alignment_rev antisym edit_alignment rev_rev_ident)

lemma edit_self: "edit xs xs = 0"
  by (induction xs) simp_all

text \<open>A row of the table holds the distances of the chars \<open>ls\<close> read on the left, the last first, to all beginnings of the right.\<close>

definition row :: "'a list \<Rightarrow> 'a list \<Rightarrow> nat list" where
  "row ls right = map (\<lambda>j. edit ls (rev (take j right))) [0..<Suc (length right)]"

lemma upt_0_Suc: "[0..<Suc n] = 0 # map Suc [0..<n]"
  by (simp add: upt_conv_Cons map_Suc_upt del: upt_Suc)

lemma distance_cells_row:
  "distance_cells l (edit (l # ls) before) rs (map (\<lambda>j. edit ls (rev (take j rs) @ before)) [0..<Suc (length rs)])
   = map (\<lambda>j. edit (l # ls) (rev (take (Suc j) rs) @ before)) [0..<length rs]"
proof (induction rs arbitrary: before)
  case (Cons r rs)
  let ?row = "\<lambda>xs. map (\<lambda>j. edit xs (rev (take j rs) @ r # before)) [0..<Suc (length rs)]"
  have m: "map (\<lambda>j. edit ls (rev (take j (r # rs)) @ before)) [0..<Suc (length (r # rs))] = edit ls before # ?row ls"
    unfolding upt_0_Suc [of "length (r # rs)"] by (simp add: comp_def del: upt_Suc)
  have q: "?row ls = edit ls (r # before) # map (\<lambda>j. edit ls (rev (take (Suc j) rs) @ r # before)) [0..<length rs]"
    unfolding upt_0_Suc by (simp add: comp_def)
  have "map (\<lambda>j. edit (l # ls) (rev (take (Suc j) (r # rs)) @ before)) [0..<length (r # rs)]
      = edit (l # ls) (r # before) # map (\<lambda>j. edit (l # ls) (rev (take (Suc j) rs) @ r # before)) [0..<length rs]"
    unfolding list.size(4) add_Suc_right add_0_right One_nat_def upt_0_Suc by (simp add: comp_def)
  moreover have "distance_cells l (edit (l # ls) before) (r # rs) (edit ls before # ?row ls)
      = edit (l # ls) (r # before) # distance_cells l (edit (l # ls) (r # before)) rs (?row ls)"
    unfolding q by (simp add: Let_def)
  ultimately show ?case unfolding m Cons.IH [of "r # before"] by simp
qed simp

lemma next_row: "Suc (length ls) # distance_cells l (Suc (length ls)) right (row ls right) = row (l # ls) right"
  using distance_cells_row [of l ls "[]" right] unfolding row_def upt_0_Suc [of "length right"] by (simp add: comp_def)

lemma rows: "distance_rows (length ls) left right (row ls right) = row (rev left @ ls) right"
proof (induction left arbitrary: ls)
  case (Cons l left)
  show ?case using Cons.IH [of "l # ls"] next_row [of ls l right] by simp
qed simp

lemma distance_rows_edit: "distance_rows 0 left right [0..<length right + 1] ! length right = edit left right"
proof -
  have "row [] right = map id [0..<length right + 1]" unfolding row_def by (rule map_cong) auto
  then have "[0..<length right + 1] = row [] right" by simp
  then have "distance_rows 0 left right [0..<length right + 1] ! length right = edit (rev left) (rev right)"
    using rows [of "[]" left right] by (simp add: row_def del: upt_Suc)
  then show ?thesis by (simp add: edit_rev)
qed

lemma levenshtein_edit: "levenshtein_distance left right = edit left right"
  using distance_rows_edit [of left right] by (simp add: levenshtein_distance_def edit_self)

text \<open>
  C25: The distance of two names is the least number of deletions, insertions and replacements that turn one into the
  other: the rows that overwrite each other compute it exactly, and it does not depend on the order of the names.\<close>

theorem levenshtein_is_edit_distance:
  "levenshtein_distance left right = (LEAST n. alignment left right n) \<and>
   levenshtein_distance left right = levenshtein_distance right left \<and>
   (levenshtein_distance left right = 0 \<longleftrightarrow> left = right)"
proof (intro conjI)
  show "levenshtein_distance left right = (LEAST n. alignment left right n)"
    unfolding levenshtein_edit by (rule Least_equality [symmetric]) (auto intro: edit_alignment alignment_edit)
  have swap: "alignment xs ys n \<Longrightarrow> alignment ys xs n" for xs ys :: rstring and n
  proof (induction rule: alignment.induct)
    case (align_match xs ys n x y)
    then show ?case using alignment.align_match [of ys xs n y x] by (cases "x = y") auto
  qed (auto intro: alignment.intros)
  show "levenshtein_distance left right = levenshtein_distance right left"
    unfolding levenshtein_edit by (meson alignment_edit antisym edit_alignment swap)
  have "alignment xs ys n \<Longrightarrow> n = 0 \<Longrightarrow> xs = ys" for xs ys :: rstring and n
    by (induction rule: alignment.induct) (auto split: if_splits)
  then show "levenshtein_distance left right = 0 \<longleftrightarrow> left = right"
    unfolding levenshtein_edit by (metis edit_alignment edit_self)
qed

section \<open>What the parser promises\<close>

text \<open>Arguments that stand alone have no white space inside; free text is trimmed and not empty.\<close>

definition word_ok :: "rstring \<Rightarrow> bool" where
  "word_ok w \<longleftrightarrow> w \<noteq> [] \<and> list_all (\<lambda>c. \<not> is_whitespace c) w"

definition text_ok :: "rstring \<Rightarrow> bool" where
  "text_ok t \<longleftrightarrow> t \<noteq> [] \<and> trim t = t"

abbreviation optional_text :: "rstring option \<Rightarrow> bool" where
  "optional_text t \<equiv> (case t of None \<Rightarrow> True | Some w \<Rightarrow> text_ok w)"

text \<open>Words with one blank between them.\<close>

definition words_text :: "rstring \<Rightarrow> bool" where
  "words_text t \<longleftrightarrow> (\<exists>ws. ws \<noteq> [] \<and> list_all word_ok ws \<and> t = join [c_space] ws)"

fun command_ok :: "slash_command \<Rightarrow> bool" where
  "command_ok (Cmd_Teleport t) \<longleftrightarrow> (\<exists>w. t = Some w \<and> text_ok w)"
| "command_ok (Cmd_Resume t) \<longleftrightarrow> (\<exists>w. t = Some w \<and> text_ok w)"
| "command_ok (Cmd_Model m) \<longleftrightarrow> (case m of None \<Rightarrow> True | Some w \<Rightarrow> word_ok w)"
| "command_ok (Cmd_Permissions m) \<longleftrightarrow> (case m of None \<Rightarrow> True | Some w \<Rightarrow> w \<in> set permission_modes)"
| "command_ok (Cmd_Config s) \<longleftrightarrow> (case s of None \<Rightarrow> True | Some w \<Rightarrow> w \<in> set config_sections)"
| "command_ok (Cmd_Session a t) \<longleftrightarrow>
     (case a of None \<Rightarrow> t = None
      | Some w \<Rightarrow> (w = lit ''list'' \<and> t = None) \<or> (w = lit ''switch'' \<and> (\<exists>v. t = Some v \<and> word_ok v)) \<or>
          (w = lit ''fork'' \<and> (case t of None \<Rightarrow> True | Some v \<Rightarrow> word_ok v)))"
| "command_ok (Cmd_Mcp a t) \<longleftrightarrow>
     (case a of None \<Rightarrow> t = None
      | Some w \<Rightarrow> (w \<in> {lit ''list'', lit ''help''} \<and> t = None) \<or> (w = lit ''show'' \<and> (\<exists>v. t = Some v \<and> word_ok v)))"
| "command_ok (Cmd_Plugins a t) \<longleftrightarrow>
     (case a of None \<Rightarrow> t = None
      | Some w \<Rightarrow> (w = lit ''list'' \<and> t = None) \<or>
          (w = lit ''install'' \<and> (\<exists>v. t = Some v \<and> words_text v)) \<or>
          (w \<in> {lit ''enable'', lit ''disable'', lit ''uninstall'', lit ''update''} \<and> (\<exists>v. t = Some v \<and> word_ok v)))"
| "command_ok (Cmd_Agents a) \<longleftrightarrow> (case a of None \<Rightarrow> True | Some w \<Rightarrow> w \<in> set (lit ''list'' # help_words))"
| "command_ok (Cmd_Skills a) \<longleftrightarrow>
     (case a of None \<Rightarrow> True
      | Some w \<Rightarrow> w \<in> set (lit ''list'' # help_words) \<or> (\<exists>v. w = lit ''install '' @ v \<and> text_ok v))"
| "command_ok (Cmd_Unknown n) \<longleftrightarrow> word_ok n"
| "command_ok (Cmd_Bughunter t) \<longleftrightarrow> optional_text t"
| "command_ok (Cmd_Pr t) \<longleftrightarrow> optional_text t"
| "command_ok (Cmd_Issue t) \<longleftrightarrow> optional_text t"
| "command_ok (Cmd_Ultraplan t) \<longleftrightarrow> optional_text t"
| "command_ok (Cmd_Export t) \<longleftrightarrow> optional_text t"
| "command_ok (Cmd_Plan t) \<longleftrightarrow> optional_text t"
| "command_ok (Cmd_Review t) \<longleftrightarrow> optional_text t"
| "command_ok (Cmd_Tasks t) \<longleftrightarrow> optional_text t"
| "command_ok (Cmd_Theme t) \<longleftrightarrow> optional_text t"
| "command_ok (Cmd_Voice t) \<longleftrightarrow> optional_text t"
| "command_ok (Cmd_Usage t) \<longleftrightarrow> optional_text t"
| "command_ok (Cmd_Rename t) \<longleftrightarrow> optional_text t"
| "command_ok (Cmd_Copy t) \<longleftrightarrow> optional_text t"
| "command_ok (Cmd_Hooks t) \<longleftrightarrow> optional_text t"
| "command_ok (Cmd_Context t) \<longleftrightarrow> optional_text t"
| "command_ok (Cmd_Color t) \<longleftrightarrow> optional_text t"
| "command_ok (Cmd_Effort t) \<longleftrightarrow> optional_text t"
| "command_ok (Cmd_Branch t) \<longleftrightarrow> optional_text t"
| "command_ok (Cmd_Rewind t) \<longleftrightarrow> optional_text t"
| "command_ok (Cmd_Ide t) \<longleftrightarrow> optional_text t"
| "command_ok (Cmd_Tag t) \<longleftrightarrow> optional_text t"
| "command_ok (Cmd_OutputStyle t) \<longleftrightarrow> optional_text t"
| "command_ok (Cmd_AddDir t) \<longleftrightarrow> optional_text t"
| "command_ok _ \<longleftrightarrow> True"

lemma normalized_text: "normalize_optional_args a = Some t \<Longrightarrow> text_ok t"
  by (auto simp: normalize_optional_args_def text_ok_def trim_trim split: option.splits if_splits)

lemma words_ok: "w \<in> set (split_whitespace s) \<Longrightarrow> word_ok w"
  using split_on_pieces [of w is_whitespace s] by (auto simp: split_whitespace_def word_ok_def)

lemma parse_session_ok: "parse_session_command args = Inr c \<Longrightarrow> list_all word_ok args \<Longrightarrow> command_ok c"
  by (auto simp: parse_session_command_def split: list.splits if_splits)

lemma parse_mcp_ok: "parse_mcp_command args = Inr c \<Longrightarrow> list_all word_ok args \<Longrightarrow> command_ok c"
  by (auto simp: parse_mcp_command_def split: list.splits if_splits)

lemma word_not_Nil [simp]: "\<not> word_ok []"
  by (simp add: word_ok_def)

lemma parse_plugin_ok: "parse_plugin_command args = Inr c \<Longrightarrow> list_all word_ok args \<Longrightarrow> command_ok c"
  by (auto simp: parse_plugin_command_def one_plugin_def words_text_def split: list.splits if_splits)

lemma plain_commands_ok: "map_of plain_commands n = Some c \<Longrightarrow> command_ok c"
  by (drule map_of_SomeD) (auto simp: plain_commands_def)

lemma text_commands_ok: "map_of text_commands n = Some f \<Longrightarrow> optional_text r \<Longrightarrow> command_ok (f r)"
  by (drule map_of_SomeD) (auto simp: text_commands_def)

lemma parse_skills_ok: "parse_skills_args r = Inr a \<Longrightarrow> command_ok (Cmd_Skills a)"
  by (auto simp: parse_skills_args_def text_ok_def split: option.splits if_splits)

lemma parse_agents_ok: "parse_list_or_help_args n (normalize_optional_args r) = Inr a \<Longrightarrow> command_ok (Cmd_Agents a)"
  by (auto simp: parse_list_or_help_args_def normalize_optional_args_def split: option.splits if_splits)

lemma single_arg_ok: "optional_single_arg n args h = Inr (Some w) \<Longrightarrow> list_all word_ok args \<Longrightarrow> word_ok w"
  by (auto simp: optional_single_arg_def split: list.splits)

lemma permissions_mode_ok: "parse_permissions_mode args = Inr m \<Longrightarrow> command_ok (Cmd_Permissions m)"
  by (auto simp: parse_permissions_mode_def rbind_Inr_iff split: option.splits if_splits)

lemma config_section_ok: "parse_config_section args = Inr s \<Longrightarrow> command_ok (Cmd_Config s)"
  by (auto simp: parse_config_section_def rbind_Inr_iff split: option.splits if_splits)

lemma remainder_ok: "require_remainder n (normalize_optional_args r) h = Inr w \<Longrightarrow> text_ok w"
  by (auto simp: require_remainder_def normalized_text split: option.splits)

lemmas parsers_ok = parse_session_ok parse_mcp_ok parse_plugin_ok permissions_mode_ok config_section_ok
  parse_agents_ok parse_skills_ok

lemma parse_named_ok:
  assumes "parse_named_command n args (normalize_optional_args r) = Inr c" "word_ok n" "list_all word_ok args"
  shows "command_ok c"
proof (cases "map_of plain_commands n")
  case (Some d)
  with assms(1) show ?thesis by (auto simp: parse_named_command_def rbind_Inr_iff plain_commands_ok)
next
  case plain: None
  show ?thesis
  proof (cases "map_of text_commands n")
    case (Some f)
    have "optional_text (normalize_optional_args r)" by (auto simp: normalized_text split: option.split)
    from text_commands_ok [OF Some this] show ?thesis using assms(1) plain Some by (simp add: parse_named_command_def)
  next
    case None
    show ?thesis
      using assms unfolding parse_named_command_def plain None option.case
      by (auto simp: rbind_Inr_iff simp del: command_ok.simps(4,5,9,10) intro: parsers_ok single_arg_ok remainder_ok
          split: if_splits option.split)
  qed
qed

text \<open>
  C28: What the parser promises to the code behind it, for every command: the text of a command that takes text is trimmed and
  not empty when it is there, and it is there where it must be; a single argument is one word; modes, sections and actions are
  among the listed ones; a plugin to install is words with one blank between them, and every other target is one word.
\<close>

theorem parsed_command_ok:
  assumes "validate_slash_command_input inp = Inr (Some c)"
  shows "command_ok c"
proof -
  from assms obtain n args where s: "split_whitespace (dropWhile (\<lambda>c. c = c_slash) (trim inp)) = n # args"
      and p: "parse_named_command n args (remainder_after_command (trim inp) n) = Inr c"
    by (auto simp: validate_slash_command_input_def Let_def rbind_Inr_iff split: if_splits list.splits)
  from s have "word_ok n" "list_all word_ok args"
    using words_ok [of _ "dropWhile (\<lambda>c. c = c_slash) (trim inp)"] by (auto simp: list_all_iff)
  with p show ?thesis unfolding remainder_after_command_def by (rule parse_named_ok)
qed

lemma validate_words:
  assumes "starts_with (trim inp) [c_slash]" "split_whitespace (dropWhile (\<lambda>c. c = c_slash) (trim inp)) = n # args"
  shows "validate_slash_command_input inp = rbind (parse_named_command n args (remainder_after_command (trim inp) n)) (\<lambda>c. Inr (Some c))"
  using assms by (simp add: validate_slash_command_input_def)

lemmas parse_names = parse_named_command_def plain_commands_def text_commands_def

theorem parsed_command_ok_witness:
  "\<exists>c. validate_slash_command_input (lit ''/session switch  a1'') = Inr (Some c) \<and> command_ok c"
proof -
  let ?i = "lit ''/session switch  a1''"
  have "starts_with (trim ?i) [c_slash]"
      "split_whitespace (dropWhile (\<lambda>c. c = c_slash) (trim ?i)) = [lit ''session'', lit ''switch'', lit ''a1'']"
    by (simp_all add: lit_def str_defs)
  then have "validate_slash_command_input ?i = Inr (Some (Cmd_Session (Some (lit ''switch'')) (Some (lit ''a1''))))"
    by (simp add: validate_words parse_names parse_session_command_def)
  with parsed_command_ok [of ?i] show ?thesis by blast
qed

text \<open>
  Extra slashes, or white space behind the slash, are skipped when the name of the command is read but not when the
  rest of the line is: the command loses its text.\<close>

theorem second_slash_drops_text:
  "validate_slash_command_input (lit ''/pr fix it'') = Inr (Some (Cmd_Pr (Some (lit ''fix it'')))) \<and>
   validate_slash_command_input (lit ''//pr fix it'') = Inr (Some (Cmd_Pr None)) \<and>
   validate_slash_command_input (lit ''/ pr fix it'') = Inr (Some (Cmd_Pr None))"
proof -
  have w: "split_whitespace (dropWhile (\<lambda>c. c = c_slash) (trim (lit s))) = [lit ''pr'', lit ''fix'', lit ''it'']"
      "starts_with (trim (lit s)) [c_slash]"
    if "s \<in> {''/pr fix it'', ''//pr fix it'', ''/ pr fix it''}" for s
    using that by (auto simp: lit_def str_defs)
  have "remainder_after_command (trim (lit ''/pr fix it'')) (lit ''pr'') = Some (lit ''fix it'')"
      "remainder_after_command (trim (lit ''//pr fix it'')) (lit ''pr'') = None"
      "remainder_after_command (trim (lit ''/ pr fix it'')) (lit ''pr'') = None"
    by (simp_all add: lit_def str_defs remainder_after_command_def normalize_optional_args_def strip_prefix_def)
  with w show ?thesis by (simp add: validate_words parse_names)
qed

text \<open>An action of \<^verbatim>\<open>/skills\<close> that begins with \<^verbatim>\<open>install\<close> is an installation: the rest of the word is its path.\<close>

theorem skills_installer:
  "validate_slash_command_input (lit ''/skills installer'') = Inr (Some (Cmd_Skills (Some (lit ''install er''))))"
proof -
  let ?i = "lit ''/skills installer''"
  have "starts_with (trim ?i) [c_slash]"
      "split_whitespace (dropWhile (\<lambda>c. c = c_slash) (trim ?i)) = [lit ''skills'', lit ''installer'']"
    by (simp_all add: lit_def str_defs)
  moreover have "remainder_after_command (trim ?i) (lit ''skills'') = Some (lit ''installer'')" "trim (lit ''installer'') = lit ''installer''"
      "strip_prefix (lit ''installer'') (lit ''install'') = Some (lit ''er'')" "trim (lit ''er'') = lit ''er''"
      "lit ''install '' @ lit ''er'' = lit ''install er''"
    by (simp_all add: lit_def str_defs remainder_after_command_def normalize_optional_args_def strip_prefix_def)
  ultimately show ?thesis
    by (simp add: validate_words parse_names parse_skills_args_def normalize_optional_args_def help_words_def)
qed

section \<open>The table and the parser\<close>

text \<open>
  Some commands of the table, which help and suggestions offer, have no arm in the parser: they come out as unknown.\<close>

theorem listed_command_unknown:
  "spec ''budget'' [] ''Show or set token budget limits'' (Some ''[show|set <limit>]'') True \<in> set slash_command_specs \<and>
   validate_slash_command_input (lit ''/budget show'') = Inr (Some (Cmd_Unknown (lit ''budget'')))"
proof
  let ?i = "lit ''/budget show''"
  show "spec ''budget'' [] ''Show or set token budget limits'' (Some ''[show|set <limit>]'') True \<in> set slash_command_specs"
    unfolding slash_command_specs_def specs_7_def specs_8_def by simp
  have "starts_with (trim ?i) [c_slash]"
      "split_whitespace (dropWhile (\<lambda>c. c = c_slash) (trim ?i)) = [lit ''budget'', lit ''show'']"
    by (simp_all add: lit_def str_defs)
  then show "validate_slash_command_input ?i = Inr (Some (Cmd_Unknown (lit ''budget'')))"
    by (simp add: validate_words parse_names)
qed

text \<open>
  The help text lists the commands of the first four categories; those on appearance and on communication, and those
  without a category, are missing.\<close>

lemma help_lists_category:
  assumes "s \<in> set slash_command_specs" "slash_command_category (spec_name s) \<in> set help_categories"
  shows "format_slash_command_help_line s \<in> set help_lines"
  using assms by (auto simp: help_lines_def category_lines_def)

text \<open>Every suggestion is a command of the table, and there are at most as many as asked for.\<close>

lemma suggestions_listed:
  "set (suggest_slash_commands inp limit) \<subseteq> (\<lambda>s. c_slash # spec_name s) ` set slash_command_specs \<and>
   length (suggest_slash_commands inp limit) \<le> limit"
  by (auto simp: suggest_slash_commands_def Let_def suggestion_of_def filter_map_def split_beta
      split: option.splits if_splits dest!: in_set_takeD)

end
