(* ===== verification/ToolSpecs.thy ===== *)
theory ToolSpecs imports Hooks begin

text \<open>
  The table of the built-in tools (\<^verbatim>\<open>crates/tools/src/lib.rs\<close>, \<^verbatim>\<open>mvp_tool_specs\<close>), in its order and in parts.
  The keys of a JSON object are in the order of the map that holds them.
\<close>

record tool_spec =
  tspec_name :: rstring
  tspec_description :: rstring
  tspec_schema :: serde_value
  tspec_permission :: permission_mode

definition of_type :: "string \<Rightarrow> serde_value" where
  "of_type t = SObject [(lit ''type'', SString (lit t))]"

definition tool_specs_1 :: "tool_spec list" where
  "tool_specs_1 =
    [\<lparr>tspec_name = lit ''bash'', tspec_description = lit ''Execute a shell command in the current workspace.'',
       tspec_schema = SObject [(lit ''additionalProperties'', SBool False),
          (lit ''properties'', SObject [(lit ''allowedMounts'', SObject [(lit ''items'', of_type ''string''), (lit ''type'', SString (lit ''array''))]),
            (lit ''command'', of_type ''string''),
            (lit ''dangerouslyDisableSandbox'', of_type ''boolean''),
            (lit ''description'', of_type ''string''),
            (lit ''filesystemMode'', SObject [(lit ''enum'', SArray [SString (lit ''off''), SString (lit ''workspace-only''), SString (lit ''allow-list'')]),
              (lit ''type'', SString (lit ''string''))]),
            (lit ''isolateNetwork'', of_type ''boolean''),
            (lit ''namespaceRestrictions'', of_type ''boolean''),
            (lit ''run_in_background'', of_type ''boolean''),
            (lit ''timeout'', SObject [(lit ''minimum'', SNumber (lit ''1'')),
              (lit ''type'', SString (lit ''integer''))])]),
          (lit ''required'', SArray [SString (lit ''command'')]),
          (lit ''type'', SString (lit ''object''))],
       tspec_permission = Mode_DangerFullAccess\<rparr>,
     \<lparr>tspec_name = lit ''read_file'', tspec_description = lit ''Read a text file from the workspace.'',
       tspec_schema = SObject [(lit ''additionalProperties'', SBool False),
          (lit ''properties'', SObject [(lit ''limit'', SObject [(lit ''minimum'', SNumber (lit ''1'')),
              (lit ''type'', SString (lit ''integer''))]),
            (lit ''offset'', SObject [(lit ''minimum'', SNumber (lit ''0'')),
              (lit ''type'', SString (lit ''integer''))]),
            (lit ''path'', of_type ''string'')]),
          (lit ''required'', SArray [SString (lit ''path'')]),
          (lit ''type'', SString (lit ''object''))],
       tspec_permission = Mode_ReadOnly\<rparr>,
     \<lparr>tspec_name = lit ''write_file'', tspec_description = lit ''Write a text file in the workspace.'',
       tspec_schema = SObject [(lit ''additionalProperties'', SBool False),
          (lit ''properties'', SObject [(lit ''content'', of_type ''string''), (lit ''path'', of_type ''string'')]),
          (lit ''required'', SArray [SString (lit ''path''), SString (lit ''content'')]),
          (lit ''type'', SString (lit ''object''))],
       tspec_permission = Mode_WorkspaceWrite\<rparr>,
     \<lparr>tspec_name = lit ''edit_file'', tspec_description = lit ''Replace text in a workspace file.'',
       tspec_schema = SObject [(lit ''additionalProperties'', SBool False),
          (lit ''properties'', SObject [(lit ''new_string'', of_type ''string''),
            (lit ''old_string'', of_type ''string''),
            (lit ''path'', of_type ''string''),
            (lit ''replace_all'', of_type ''boolean'')]),
          (lit ''required'', SArray [SString (lit ''path''), SString (lit ''old_string''), SString (lit ''new_string'')]),
          (lit ''type'', SString (lit ''object''))],
       tspec_permission = Mode_WorkspaceWrite\<rparr>,
     \<lparr>tspec_name = lit ''glob_search'', tspec_description = lit ''Find files by glob pattern.'',
       tspec_schema = SObject [(lit ''additionalProperties'', SBool False),
          (lit ''properties'', SObject [(lit ''path'', of_type ''string''), (lit ''pattern'', of_type ''string'')]),
          (lit ''required'', SArray [SString (lit ''pattern'')]),
          (lit ''type'', SString (lit ''object''))],
       tspec_permission = Mode_ReadOnly\<rparr>,
     \<lparr>tspec_name = lit ''grep_search'', tspec_description = lit ''Search file contents with a regex pattern.'',
       tspec_schema = SObject [(lit ''additionalProperties'', SBool False),
          (lit ''properties'', SObject [(lit ''-A'', SObject [(lit ''minimum'', SNumber (lit ''0'')),
              (lit ''type'', SString (lit ''integer''))]),
            (lit ''-B'', SObject [(lit ''minimum'', SNumber (lit ''0'')),
              (lit ''type'', SString (lit ''integer''))]),
            (lit ''-C'', SObject [(lit ''minimum'', SNumber (lit ''0'')),
              (lit ''type'', SString (lit ''integer''))]),
            (lit ''-i'', of_type ''boolean''),
            (lit ''-n'', of_type ''boolean''),
            (lit ''context'', SObject [(lit ''minimum'', SNumber (lit ''0'')),
              (lit ''type'', SString (lit ''integer''))]),
            (lit ''glob'', of_type ''string''),
            (lit ''head_limit'', SObject [(lit ''minimum'', SNumber (lit ''1'')),
              (lit ''type'', SString (lit ''integer''))]),
            (lit ''multiline'', of_type ''boolean''),
            (lit ''offset'', SObject [(lit ''minimum'', SNumber (lit ''0'')),
              (lit ''type'', SString (lit ''integer''))]),
            (lit ''output_mode'', of_type ''string''),
            (lit ''path'', of_type ''string''),
            (lit ''pattern'', of_type ''string''),
            (lit ''type'', of_type ''string'')]),
          (lit ''required'', SArray [SString (lit ''pattern'')]),
          (lit ''type'', SString (lit ''object''))],
       tspec_permission = Mode_ReadOnly\<rparr>,
     \<lparr>tspec_name = lit ''WebFetch'', tspec_description = lit ''Fetch a URL, convert it into readable text, and answer a prompt about it.'',
       tspec_schema = SObject [(lit ''additionalProperties'', SBool False),
          (lit ''properties'', SObject [(lit ''prompt'', of_type ''string''),
            (lit ''url'', SObject [(lit ''format'', SString (lit ''uri'')),
              (lit ''type'', SString (lit ''string''))])]),
          (lit ''required'', SArray [SString (lit ''url''), SString (lit ''prompt'')]),
          (lit ''type'', SString (lit ''object''))],
       tspec_permission = Mode_ReadOnly\<rparr>,
     \<lparr>tspec_name = lit ''WebSearch'', tspec_description = lit ''Search the web for current information and return cited results.'',
       tspec_schema = SObject [(lit ''additionalProperties'', SBool False),
          (lit ''properties'', SObject [(lit ''allowed_domains'', SObject [(lit ''items'', of_type ''string''), (lit ''type'', SString (lit ''array''))]),
            (lit ''blocked_domains'', SObject [(lit ''items'', of_type ''string''), (lit ''type'', SString (lit ''array''))]),
            (lit ''query'', SObject [(lit ''minLength'', SNumber (lit ''2'')),
              (lit ''type'', SString (lit ''string''))])]),
          (lit ''required'', SArray [SString (lit ''query'')]),
          (lit ''type'', SString (lit ''object''))],
       tspec_permission = Mode_ReadOnly\<rparr>]"

definition tool_specs_2 :: "tool_spec list" where
  "tool_specs_2 =
    [\<lparr>tspec_name = lit ''TodoWrite'', tspec_description = lit ''Update the structured task list for the current session.'',
       tspec_schema = SObject [(lit ''additionalProperties'', SBool False),
          (lit ''properties'', SObject [(lit ''todos'', SObject [(lit ''items'', SObject [(lit ''additionalProperties'', SBool False),
                (lit ''properties'', SObject [(lit ''activeForm'', of_type ''string''),
                  (lit ''content'', of_type ''string''),
                  (lit ''status'', SObject [(lit ''enum'', SArray [SString (lit ''pending''), SString (lit ''in_progress''), SString (lit ''completed'')]),
                    (lit ''type'', SString (lit ''string''))])]),
                (lit ''required'', SArray [SString (lit ''content''), SString (lit ''activeForm''), SString (lit ''status'')]),
                (lit ''type'', SString (lit ''object''))]),
              (lit ''type'', SString (lit ''array''))])]),
          (lit ''required'', SArray [SString (lit ''todos'')]),
          (lit ''type'', SString (lit ''object''))],
       tspec_permission = Mode_WorkspaceWrite\<rparr>,
     \<lparr>tspec_name = lit ''Skill'', tspec_description = lit ''Load a local skill definition and its instructions.'',
       tspec_schema = SObject [(lit ''additionalProperties'', SBool False),
          (lit ''properties'', SObject [(lit ''args'', of_type ''string''), (lit ''skill'', of_type ''string'')]),
          (lit ''required'', SArray [SString (lit ''skill'')]),
          (lit ''type'', SString (lit ''object''))],
       tspec_permission = Mode_ReadOnly\<rparr>,
     \<lparr>tspec_name = lit ''Agent'', tspec_description = lit ''Launch a specialized agent task and persist its handoff metadata.'',
       tspec_schema = SObject [(lit ''additionalProperties'', SBool False),
          (lit ''properties'', SObject [(lit ''description'', of_type ''string''),
            (lit ''model'', of_type ''string''),
            (lit ''name'', of_type ''string''),
            (lit ''prompt'', of_type ''string''),
            (lit ''subagent_type'', of_type ''string'')]),
          (lit ''required'', SArray [SString (lit ''description''), SString (lit ''prompt'')]),
          (lit ''type'', SString (lit ''object''))],
       tspec_permission = Mode_DangerFullAccess\<rparr>,
     \<lparr>tspec_name = lit ''ToolSearch'', tspec_description = lit ''Search for deferred or specialized tools by exact name or keywords.'',
       tspec_schema = SObject [(lit ''additionalProperties'', SBool False),
          (lit ''properties'', SObject [(lit ''max_results'', SObject [(lit ''minimum'', SNumber (lit ''1'')),
              (lit ''type'', SString (lit ''integer''))]),
            (lit ''query'', of_type ''string'')]),
          (lit ''required'', SArray [SString (lit ''query'')]),
          (lit ''type'', SString (lit ''object''))],
       tspec_permission = Mode_ReadOnly\<rparr>,
     \<lparr>tspec_name = lit ''NotebookEdit'', tspec_description = lit ''Replace, insert, or delete a cell in a Jupyter notebook.'',
       tspec_schema = SObject [(lit ''additionalProperties'', SBool False),
          (lit ''properties'', SObject [(lit ''cell_id'', of_type ''string''),
            (lit ''cell_type'', SObject [(lit ''enum'', SArray [SString (lit ''code''), SString (lit ''markdown'')]),
              (lit ''type'', SString (lit ''string''))]),
            (lit ''edit_mode'', SObject [(lit ''enum'', SArray [SString (lit ''replace''), SString (lit ''insert''), SString (lit ''delete'')]),
              (lit ''type'', SString (lit ''string''))]),
            (lit ''new_source'', of_type ''string''),
            (lit ''notebook_path'', of_type ''string'')]),
          (lit ''required'', SArray [SString (lit ''notebook_path'')]),
          (lit ''type'', SString (lit ''object''))],
       tspec_permission = Mode_WorkspaceWrite\<rparr>,
     \<lparr>tspec_name = lit ''Sleep'', tspec_description = lit ''Wait for a specified duration without holding a shell process.'',
       tspec_schema = SObject [(lit ''additionalProperties'', SBool False),
          (lit ''properties'', SObject [(lit ''duration_ms'', SObject [(lit ''minimum'', SNumber (lit ''0'')),
              (lit ''type'', SString (lit ''integer''))])]),
          (lit ''required'', SArray [SString (lit ''duration_ms'')]),
          (lit ''type'', SString (lit ''object''))],
       tspec_permission = Mode_ReadOnly\<rparr>,
     \<lparr>tspec_name = lit ''SendUserMessage'', tspec_description = lit ''Send a message to the user.'',
       tspec_schema = SObject [(lit ''additionalProperties'', SBool False),
          (lit ''properties'', SObject [(lit ''attachments'', SObject [(lit ''items'', of_type ''string''), (lit ''type'', SString (lit ''array''))]),
            (lit ''message'', of_type ''string''),
            (lit ''status'', SObject [(lit ''enum'', SArray [SString (lit ''normal''), SString (lit ''proactive'')]),
              (lit ''type'', SString (lit ''string''))])]),
          (lit ''required'', SArray [SString (lit ''message''), SString (lit ''status'')]),
          (lit ''type'', SString (lit ''object''))],
       tspec_permission = Mode_ReadOnly\<rparr>,
     \<lparr>tspec_name = lit ''Config'', tspec_description = lit ''Get or set Claude Code settings.'',
       tspec_schema = SObject [(lit ''additionalProperties'', SBool False),
          (lit ''properties'', SObject [(lit ''setting'', of_type ''string''),
            (lit ''value'', SObject [(lit ''type'', SArray [SString (lit ''string''), SString (lit ''boolean''), SString (lit ''number'')])])]),
          (lit ''required'', SArray [SString (lit ''setting'')]),
          (lit ''type'', SString (lit ''object''))],
       tspec_permission = Mode_WorkspaceWrite\<rparr>]"

definition tool_specs_3 :: "tool_spec list" where
  "tool_specs_3 =
    [\<lparr>tspec_name = lit ''EnterPlanMode'', tspec_description = lit ''Enable a worktree-local planning mode override and remember the previous local setting for ExitPlanMode.'',
       tspec_schema = SObject [(lit ''additionalProperties'', SBool False),
          (lit ''properties'', SObject []),
          (lit ''type'', SString (lit ''object''))],
       tspec_permission = Mode_WorkspaceWrite\<rparr>,
     \<lparr>tspec_name = lit ''ExitPlanMode'', tspec_description = lit ''Restore or clear the worktree-local planning mode override created by EnterPlanMode.'',
       tspec_schema = SObject [(lit ''additionalProperties'', SBool False),
          (lit ''properties'', SObject []),
          (lit ''type'', SString (lit ''object''))],
       tspec_permission = Mode_WorkspaceWrite\<rparr>,
     \<lparr>tspec_name = lit ''StructuredOutput'', tspec_description = lit ''Return structured output in the requested format.'',
       tspec_schema = SObject [(lit ''additionalProperties'', SBool True),
          (lit ''type'', SString (lit ''object''))],
       tspec_permission = Mode_ReadOnly\<rparr>,
     \<lparr>tspec_name = lit ''REPL'', tspec_description = lit ''Execute code in a REPL-like subprocess.'',
       tspec_schema = SObject [(lit ''additionalProperties'', SBool False),
          (lit ''properties'', SObject [(lit ''code'', of_type ''string''),
            (lit ''language'', of_type ''string''),
            (lit ''timeout_ms'', SObject [(lit ''minimum'', SNumber (lit ''1'')),
              (lit ''type'', SString (lit ''integer''))])]),
          (lit ''required'', SArray [SString (lit ''code''), SString (lit ''language'')]),
          (lit ''type'', SString (lit ''object''))],
       tspec_permission = Mode_DangerFullAccess\<rparr>,
     \<lparr>tspec_name = lit ''PowerShell'', tspec_description = lit ''Execute a PowerShell command with optional timeout.'',
       tspec_schema = SObject [(lit ''additionalProperties'', SBool False),
          (lit ''properties'', SObject [(lit ''command'', of_type ''string''),
            (lit ''description'', of_type ''string''),
            (lit ''run_in_background'', of_type ''boolean''),
            (lit ''timeout'', SObject [(lit ''minimum'', SNumber (lit ''1'')),
              (lit ''type'', SString (lit ''integer''))])]),
          (lit ''required'', SArray [SString (lit ''command'')]),
          (lit ''type'', SString (lit ''object''))],
       tspec_permission = Mode_DangerFullAccess\<rparr>,
     \<lparr>tspec_name = lit ''AskUserQuestion'', tspec_description = lit ''Ask the user a question and wait for their response.'',
       tspec_schema = SObject [(lit ''additionalProperties'', SBool False),
          (lit ''properties'', SObject [(lit ''options'', SObject [(lit ''items'', of_type ''string''), (lit ''type'', SString (lit ''array''))]),
            (lit ''question'', of_type ''string'')]),
          (lit ''required'', SArray [SString (lit ''question'')]),
          (lit ''type'', SString (lit ''object''))],
       tspec_permission = Mode_ReadOnly\<rparr>,
     \<lparr>tspec_name = lit ''TaskCreate'', tspec_description = lit ''Create a background task that runs in a separate subprocess.'',
       tspec_schema = SObject [(lit ''additionalProperties'', SBool False),
          (lit ''properties'', SObject [(lit ''description'', of_type ''string''), (lit ''prompt'', of_type ''string'')]),
          (lit ''required'', SArray [SString (lit ''prompt'')]),
          (lit ''type'', SString (lit ''object''))],
       tspec_permission = Mode_DangerFullAccess\<rparr>,
     \<lparr>tspec_name = lit ''RunTaskPacket'', tspec_description = lit ''Create a background task from a structured task packet.'',
       tspec_schema = SObject [(lit ''additionalProperties'', SBool False),
          (lit ''properties'', SObject [(lit ''acceptance_tests'', SObject [(lit ''items'', of_type ''string''), (lit ''type'', SString (lit ''array''))]),
            (lit ''branch_policy'', of_type ''string''),
            (lit ''commit_policy'', of_type ''string''),
            (lit ''escalation_policy'', of_type ''string''),
            (lit ''objective'', of_type ''string''),
            (lit ''repo'', of_type ''string''),
            (lit ''reporting_contract'', of_type ''string''),
            (lit ''scope'', of_type ''string'')]),
          (lit ''required'', SArray [SString (lit ''objective''), SString (lit ''scope''), SString (lit ''repo''), SString (lit ''branch_policy''), SString (lit ''acceptance_tests''), SString (lit ''commit_policy''), SString (lit ''reporting_contract''), SString (lit ''escalation_policy'')]),
          (lit ''type'', SString (lit ''object''))],
       tspec_permission = Mode_DangerFullAccess\<rparr>,
     \<lparr>tspec_name = lit ''TaskGet'', tspec_description = lit ''Get the status and details of a background task by ID.'',
       tspec_schema = SObject [(lit ''additionalProperties'', SBool False),
          (lit ''properties'', SObject [(lit ''task_id'', of_type ''string'')]),
          (lit ''required'', SArray [SString (lit ''task_id'')]),
          (lit ''type'', SString (lit ''object''))],
       tspec_permission = Mode_ReadOnly\<rparr>,
     \<lparr>tspec_name = lit ''TaskList'', tspec_description = lit ''List all background tasks and their current status.'',
       tspec_schema = SObject [(lit ''additionalProperties'', SBool False),
          (lit ''properties'', SObject []),
          (lit ''type'', SString (lit ''object''))],
       tspec_permission = Mode_ReadOnly\<rparr>]"

definition tool_specs_4 :: "tool_spec list" where
  "tool_specs_4 =
    [\<lparr>tspec_name = lit ''TaskStop'', tspec_description = lit ''Stop a running background task by ID.'',
       tspec_schema = SObject [(lit ''additionalProperties'', SBool False),
          (lit ''properties'', SObject [(lit ''task_id'', of_type ''string'')]),
          (lit ''required'', SArray [SString (lit ''task_id'')]),
          (lit ''type'', SString (lit ''object''))],
       tspec_permission = Mode_DangerFullAccess\<rparr>,
     \<lparr>tspec_name = lit ''TaskUpdate'', tspec_description = lit ''Send a message or update to a running background task.'',
       tspec_schema = SObject [(lit ''additionalProperties'', SBool False),
          (lit ''properties'', SObject [(lit ''message'', of_type ''string''), (lit ''task_id'', of_type ''string'')]),
          (lit ''required'', SArray [SString (lit ''task_id''), SString (lit ''message'')]),
          (lit ''type'', SString (lit ''object''))],
       tspec_permission = Mode_DangerFullAccess\<rparr>,
     \<lparr>tspec_name = lit ''TaskOutput'', tspec_description = lit ''Retrieve the output produced by a background task.'',
       tspec_schema = SObject [(lit ''additionalProperties'', SBool False),
          (lit ''properties'', SObject [(lit ''task_id'', of_type ''string'')]),
          (lit ''required'', SArray [SString (lit ''task_id'')]),
          (lit ''type'', SString (lit ''object''))],
       tspec_permission = Mode_ReadOnly\<rparr>,
     \<lparr>tspec_name = lit ''WorkerCreate'', tspec_description = lit ''Create a coding worker boot session with trust-gate and prompt-delivery guards.'',
       tspec_schema = SObject [(lit ''additionalProperties'', SBool False),
          (lit ''properties'', SObject [(lit ''auto_recover_prompt_misdelivery'', of_type ''boolean''),
            (lit ''cwd'', of_type ''string''),
            (lit ''trusted_roots'', SObject [(lit ''items'', of_type ''string''), (lit ''type'', SString (lit ''array''))])]),
          (lit ''required'', SArray [SString (lit ''cwd'')]),
          (lit ''type'', SString (lit ''object''))],
       tspec_permission = Mode_DangerFullAccess\<rparr>,
     \<lparr>tspec_name = lit ''WorkerGet'', tspec_description = lit ''Fetch the current worker boot state, last error, and event history.'',
       tspec_schema = SObject [(lit ''additionalProperties'', SBool False),
          (lit ''properties'', SObject [(lit ''worker_id'', of_type ''string'')]),
          (lit ''required'', SArray [SString (lit ''worker_id'')]),
          (lit ''type'', SString (lit ''object''))],
       tspec_permission = Mode_ReadOnly\<rparr>,
     \<lparr>tspec_name = lit ''WorkerObserve'', tspec_description = lit ''Feed a terminal snapshot into worker boot detection to resolve trust gates, ready handshakes, and prompt misdelivery.'',
       tspec_schema = SObject [(lit ''additionalProperties'', SBool False),
          (lit ''properties'', SObject [(lit ''screen_text'', of_type ''string''),
            (lit ''worker_id'', of_type ''string'')]),
          (lit ''required'', SArray [SString (lit ''worker_id''), SString (lit ''screen_text'')]),
          (lit ''type'', SString (lit ''object''))],
       tspec_permission = Mode_ReadOnly\<rparr>,
     \<lparr>tspec_name = lit ''WorkerResolveTrust'', tspec_description = lit ''Resolve a detected trust prompt so worker boot can continue.'',
       tspec_schema = SObject [(lit ''additionalProperties'', SBool False),
          (lit ''properties'', SObject [(lit ''worker_id'', of_type ''string'')]),
          (lit ''required'', SArray [SString (lit ''worker_id'')]),
          (lit ''type'', SString (lit ''object''))],
       tspec_permission = Mode_DangerFullAccess\<rparr>,
     \<lparr>tspec_name = lit ''WorkerAwaitReady'', tspec_description = lit ''Return the current ready-handshake verdict for a coding worker.'',
       tspec_schema = SObject [(lit ''additionalProperties'', SBool False),
          (lit ''properties'', SObject [(lit ''worker_id'', of_type ''string'')]),
          (lit ''required'', SArray [SString (lit ''worker_id'')]),
          (lit ''type'', SString (lit ''object''))],
       tspec_permission = Mode_ReadOnly\<rparr>,
     \<lparr>tspec_name = lit ''WorkerSendPrompt'', tspec_description = lit ''Send a task prompt only after the worker reaches ready_for_prompt; can replay a recovered prompt.'',
       tspec_schema = SObject [(lit ''additionalProperties'', SBool False),
          (lit ''properties'', SObject [(lit ''prompt'', of_type ''string''), (lit ''worker_id'', of_type ''string'')]),
          (lit ''required'', SArray [SString (lit ''worker_id'')]),
          (lit ''type'', SString (lit ''object''))],
       tspec_permission = Mode_DangerFullAccess\<rparr>,
     \<lparr>tspec_name = lit ''WorkerRestart'', tspec_description = lit ''Restart worker boot state after a failed or stale startup.'',
       tspec_schema = SObject [(lit ''additionalProperties'', SBool False),
          (lit ''properties'', SObject [(lit ''worker_id'', of_type ''string'')]),
          (lit ''required'', SArray [SString (lit ''worker_id'')]),
          (lit ''type'', SString (lit ''object''))],
       tspec_permission = Mode_DangerFullAccess\<rparr>]"

definition tool_specs_5 :: "tool_spec list" where
  "tool_specs_5 =
    [\<lparr>tspec_name = lit ''WorkerTerminate'', tspec_description = lit ''Terminate a worker and mark the lane finished from the control plane.'',
       tspec_schema = SObject [(lit ''additionalProperties'', SBool False),
          (lit ''properties'', SObject [(lit ''worker_id'', of_type ''string'')]),
          (lit ''required'', SArray [SString (lit ''worker_id'')]),
          (lit ''type'', SString (lit ''object''))],
       tspec_permission = Mode_DangerFullAccess\<rparr>,
     \<lparr>tspec_name = lit ''TeamCreate'', tspec_description = lit ''Create a team of sub-agents for parallel task execution.'',
       tspec_schema = SObject [(lit ''additionalProperties'', SBool False),
          (lit ''properties'', SObject [(lit ''name'', of_type ''string''),
            (lit ''tasks'', SObject [(lit ''items'', SObject [(lit ''properties'', SObject [(lit ''description'', of_type ''string''), (lit ''prompt'', of_type ''string'')]),
                (lit ''required'', SArray [SString (lit ''prompt'')]),
                (lit ''type'', SString (lit ''object''))]),
              (lit ''type'', SString (lit ''array''))])]),
          (lit ''required'', SArray [SString (lit ''name''), SString (lit ''tasks'')]),
          (lit ''type'', SString (lit ''object''))],
       tspec_permission = Mode_DangerFullAccess\<rparr>,
     \<lparr>tspec_name = lit ''TeamDelete'', tspec_description = lit ''Delete a team and stop all its running tasks.'',
       tspec_schema = SObject [(lit ''additionalProperties'', SBool False),
          (lit ''properties'', SObject [(lit ''team_id'', of_type ''string'')]),
          (lit ''required'', SArray [SString (lit ''team_id'')]),
          (lit ''type'', SString (lit ''object''))],
       tspec_permission = Mode_DangerFullAccess\<rparr>,
     \<lparr>tspec_name = lit ''CronCreate'', tspec_description = lit ''Create a scheduled recurring task.'',
       tspec_schema = SObject [(lit ''additionalProperties'', SBool False),
          (lit ''properties'', SObject [(lit ''description'', of_type ''string''),
            (lit ''prompt'', of_type ''string''),
            (lit ''schedule'', of_type ''string'')]),
          (lit ''required'', SArray [SString (lit ''schedule''), SString (lit ''prompt'')]),
          (lit ''type'', SString (lit ''object''))],
       tspec_permission = Mode_DangerFullAccess\<rparr>,
     \<lparr>tspec_name = lit ''CronDelete'', tspec_description = lit ''Delete a scheduled recurring task by ID.'',
       tspec_schema = SObject [(lit ''additionalProperties'', SBool False),
          (lit ''properties'', SObject [(lit ''cron_id'', of_type ''string'')]),
          (lit ''required'', SArray [SString (lit ''cron_id'')]),
          (lit ''type'', SString (lit ''object''))],
       tspec_permission = Mode_DangerFullAccess\<rparr>,
     \<lparr>tspec_name = lit ''CronList'', tspec_description = lit ''List all scheduled recurring tasks.'',
       tspec_schema = SObject [(lit ''additionalProperties'', SBool False),
          (lit ''properties'', SObject []),
          (lit ''type'', SString (lit ''object''))],
       tspec_permission = Mode_ReadOnly\<rparr>,
     \<lparr>tspec_name = lit ''LSP'', tspec_description = lit ''Query Language Server Protocol for code intelligence (symbols, references, diagnostics).'',
       tspec_schema = SObject [(lit ''additionalProperties'', SBool False),
          (lit ''properties'', SObject [(lit ''action'', SObject [(lit ''enum'', SArray [SString (lit ''symbols''), SString (lit ''references''), SString (lit ''diagnostics''), SString (lit ''definition''), SString (lit ''hover'')]),
              (lit ''type'', SString (lit ''string''))]),
            (lit ''character'', SObject [(lit ''minimum'', SNumber (lit ''0'')),
              (lit ''type'', SString (lit ''integer''))]),
            (lit ''line'', SObject [(lit ''minimum'', SNumber (lit ''0'')),
              (lit ''type'', SString (lit ''integer''))]),
            (lit ''path'', of_type ''string''),
            (lit ''query'', of_type ''string'')]),
          (lit ''required'', SArray [SString (lit ''action'')]),
          (lit ''type'', SString (lit ''object''))],
       tspec_permission = Mode_ReadOnly\<rparr>,
     \<lparr>tspec_name = lit ''ListMcpResources'', tspec_description = lit ''List available resources from connected MCP servers.'',
       tspec_schema = SObject [(lit ''additionalProperties'', SBool False),
          (lit ''properties'', SObject [(lit ''server'', of_type ''string'')]),
          (lit ''type'', SString (lit ''object''))],
       tspec_permission = Mode_ReadOnly\<rparr>,
     \<lparr>tspec_name = lit ''ReadMcpResource'', tspec_description = lit ''Read a specific resource from an MCP server by URI.'',
       tspec_schema = SObject [(lit ''additionalProperties'', SBool False),
          (lit ''properties'', SObject [(lit ''server'', of_type ''string''), (lit ''uri'', of_type ''string'')]),
          (lit ''required'', SArray [SString (lit ''uri'')]),
          (lit ''type'', SString (lit ''object''))],
       tspec_permission = Mode_ReadOnly\<rparr>,
     \<lparr>tspec_name = lit ''McpAuth'', tspec_description = lit ''Authenticate with an MCP server that requires OAuth or credentials.'',
       tspec_schema = SObject [(lit ''additionalProperties'', SBool False),
          (lit ''properties'', SObject [(lit ''server'', of_type ''string'')]),
          (lit ''required'', SArray [SString (lit ''server'')]),
          (lit ''type'', SString (lit ''object''))],
       tspec_permission = Mode_DangerFullAccess\<rparr>]"

definition tool_specs_6 :: "tool_spec list" where
  "tool_specs_6 =
    [\<lparr>tspec_name = lit ''RemoteTrigger'', tspec_description = lit ''Trigger a remote action or webhook endpoint.'',
       tspec_schema = SObject [(lit ''additionalProperties'', SBool False),
          (lit ''properties'', SObject [(lit ''body'', of_type ''string''),
            (lit ''headers'', of_type ''object''),
            (lit ''method'', SObject [(lit ''enum'', SArray [SString (lit ''GET''), SString (lit ''POST''), SString (lit ''PUT''), SString (lit ''DELETE'')]),
              (lit ''type'', SString (lit ''string''))]),
            (lit ''url'', of_type ''string'')]),
          (lit ''required'', SArray [SString (lit ''url'')]),
          (lit ''type'', SString (lit ''object''))],
       tspec_permission = Mode_DangerFullAccess\<rparr>,
     \<lparr>tspec_name = lit ''MCP'', tspec_description = lit ''Execute a tool provided by a connected MCP server.'',
       tspec_schema = SObject [(lit ''additionalProperties'', SBool False),
          (lit ''properties'', SObject [(lit ''arguments'', of_type ''object''),
            (lit ''server'', of_type ''string''),
            (lit ''tool'', of_type ''string'')]),
          (lit ''required'', SArray [SString (lit ''server''), SString (lit ''tool'')]),
          (lit ''type'', SString (lit ''object''))],
       tspec_permission = Mode_DangerFullAccess\<rparr>,
     \<lparr>tspec_name = lit ''TestingPermission'', tspec_description = lit ''Test-only tool for verifying permission enforcement behavior.'',
       tspec_schema = SObject [(lit ''additionalProperties'', SBool False),
          (lit ''properties'', SObject [(lit ''action'', of_type ''string'')]),
          (lit ''required'', SArray [SString (lit ''action'')]),
          (lit ''type'', SString (lit ''object''))],
       tspec_permission = Mode_DangerFullAccess\<rparr>]"

definition mvp_tool_specs :: "tool_spec list" where
  "mvp_tool_specs = tool_specs_1 @ tool_specs_2 @ tool_specs_3 @ tool_specs_4 @ tool_specs_5 @ tool_specs_6"

lemmas tool_specs_defs = tool_specs_1_def tool_specs_2_def tool_specs_3_def tool_specs_4_def tool_specs_5_def tool_specs_6_def

text \<open>The names and the modes of the tools, in the order of the table.\<close>

lemma tool_permissions:
  "map (\<lambda>s. (tspec_name s, tspec_permission s)) mvp_tool_specs = map (\<lambda>(n, m). (lit n, m))
    [(''bash'', Mode_DangerFullAccess), (''read_file'', Mode_ReadOnly), (''write_file'', Mode_WorkspaceWrite),
     (''edit_file'', Mode_WorkspaceWrite), (''glob_search'', Mode_ReadOnly), (''grep_search'', Mode_ReadOnly),
     (''WebFetch'', Mode_ReadOnly), (''WebSearch'', Mode_ReadOnly), (''TodoWrite'', Mode_WorkspaceWrite),
     (''Skill'', Mode_ReadOnly), (''Agent'', Mode_DangerFullAccess), (''ToolSearch'', Mode_ReadOnly),
     (''NotebookEdit'', Mode_WorkspaceWrite), (''Sleep'', Mode_ReadOnly), (''SendUserMessage'', Mode_ReadOnly),
     (''Config'', Mode_WorkspaceWrite), (''EnterPlanMode'', Mode_WorkspaceWrite),
     (''ExitPlanMode'', Mode_WorkspaceWrite), (''StructuredOutput'', Mode_ReadOnly),
     (''REPL'', Mode_DangerFullAccess), (''PowerShell'', Mode_DangerFullAccess),
     (''AskUserQuestion'', Mode_ReadOnly), (''TaskCreate'', Mode_DangerFullAccess),
     (''RunTaskPacket'', Mode_DangerFullAccess), (''TaskGet'', Mode_ReadOnly), (''TaskList'', Mode_ReadOnly),
     (''TaskStop'', Mode_DangerFullAccess), (''TaskUpdate'', Mode_DangerFullAccess),
     (''TaskOutput'', Mode_ReadOnly), (''WorkerCreate'', Mode_DangerFullAccess), (''WorkerGet'', Mode_ReadOnly),
     (''WorkerObserve'', Mode_ReadOnly), (''WorkerResolveTrust'', Mode_DangerFullAccess),
     (''WorkerAwaitReady'', Mode_ReadOnly), (''WorkerSendPrompt'', Mode_DangerFullAccess),
     (''WorkerRestart'', Mode_DangerFullAccess), (''WorkerTerminate'', Mode_DangerFullAccess),
     (''TeamCreate'', Mode_DangerFullAccess), (''TeamDelete'', Mode_DangerFullAccess),
     (''CronCreate'', Mode_DangerFullAccess), (''CronDelete'', Mode_DangerFullAccess),
     (''CronList'', Mode_ReadOnly), (''LSP'', Mode_ReadOnly), (''ListMcpResources'', Mode_ReadOnly),
     (''ReadMcpResource'', Mode_ReadOnly), (''McpAuth'', Mode_DangerFullAccess),
     (''RemoteTrigger'', Mode_DangerFullAccess), (''MCP'', Mode_DangerFullAccess),
     (''TestingPermission'', Mode_DangerFullAccess)]"
  by (simp add: mvp_tool_specs_def tool_specs_defs)

lemma spec_names: "map tspec_name mvp_tool_specs = map fst (map (\<lambda>s. (tspec_name s, tspec_permission s)) mvp_tool_specs)"
  by simp

end
