(* ===== verification/Tools.thy ===== *)
theory Tools imports ToolSpecs Enforcer BashValidation "HOL-Library.Product_Lexorder" begin

text \<open>
  The registry of tools and their dispatch (\<^verbatim>\<open>crates/tools/src/lib.rs\<close>): names of plugin and runtime tools, the list
  of allowed tools, permissions, the search among deferred tools, and which calls the enforcer guards.

  What a tool does is the argument \<open>run\<close> of the dispatch: it stands for the conversion of the input and the tool itself,
  and takes and returns the state of the world.  \<open>lower\<close> is \<^verbatim>\<open>str::to_lowercase\<close>.  A set of names is a set.
\<close>

section \<open>The registry\<close>

record plugin_tool =
  plugin_tool_name :: rstring
  plugin_tool_description :: "rstring option"
  plugin_tool_schema :: serde_value
  plugin_tool_permission :: rstring

record runtime_tool =
  runtime_tool_name :: rstring
  runtime_tool_description :: "rstring option"
  runtime_tool_schema :: serde_value
  runtime_tool_permission :: permission_mode

record tool_definition =
  definition_name :: rstring
  definition_description :: "rstring option"
  definition_schema :: serde_value

record tool_registry =
  plugin_tools :: "plugin_tool list"
  runtime_tools :: "runtime_tool list"
  registry_enforcer :: "permission_enforcer option"

definition registry_builtin :: tool_registry where
  "registry_builtin = \<lparr>plugin_tools = [], runtime_tools = [], registry_enforcer = None\<rparr>"

definition builtin_names :: "rstring list" where
  "builtin_names = map tspec_name mvp_tool_specs"

definition back_quoted :: "rstring \<Rightarrow> rstring" where
  "back_quoted s = [96] @ s @ [96]"

fun check_plugin_names :: "rstring set \<Rightarrow> rstring list \<Rightarrow> rstring option" where
  "check_plugin_names seen [] = None"
| "check_plugin_names seen (name # names) =
     (if name \<in> set builtin_names
      then Some (lit ''plugin tool '' @ back_quoted name @ lit '' conflicts with a built-in tool name'')
      else if name \<in> seen then Some (lit ''duplicate plugin tool name '' @ back_quoted name)
      else check_plugin_names (insert name seen) names)"

definition with_plugin_tools :: "plugin_tool list \<Rightarrow> rstring + tool_registry" where
  "with_plugin_tools tools = (case check_plugin_names {} (map plugin_tool_name tools) of
     Some e \<Rightarrow> Inl e
   | None \<Rightarrow> Inr (registry_builtin\<lparr>plugin_tools := tools\<rparr>))"

fun check_runtime_names :: "rstring set \<Rightarrow> rstring list \<Rightarrow> rstring option" where
  "check_runtime_names seen [] = None"
| "check_runtime_names seen (name # names) =
     (if name \<in> seen then Some (lit ''runtime tool '' @ back_quoted name @ lit '' conflicts with an existing tool name'')
      else check_runtime_names (insert name seen) names)"

definition with_runtime_tools :: "runtime_tool list \<Rightarrow> tool_registry \<Rightarrow> rstring + tool_registry" where
  "with_runtime_tools tools g =
     (case check_runtime_names (set builtin_names \<union> plugin_tool_name ` set (plugin_tools g)) (map runtime_tool_name tools) of
        Some e \<Rightarrow> Inl e
      | None \<Rightarrow> Inr (g\<lparr>runtime_tools := tools\<rparr>))"

definition set_enforcer :: "permission_enforcer \<Rightarrow> tool_registry \<Rightarrow> tool_registry" where
  "set_enforcer e g = g\<lparr>registry_enforcer := Some e\<rparr>"

definition has_runtime_tool :: "tool_registry \<Rightarrow> rstring \<Rightarrow> bool" where
  "has_runtime_tool g name = list_ex (\<lambda>t. runtime_tool_name t = name) (runtime_tools g)"

section \<open>Allowed tools\<close>

definition normalize_tool_name :: "rstring \<Rightarrow> rstring" where
  "normalize_tool_name v = to_ascii_lowercase (map (\<lambda>c. if c = c_minus then 95 else c) (trim v))"

definition canonical_names :: "tool_registry \<Rightarrow> rstring list" where
  "canonical_names g =
     builtin_names @ map plugin_tool_name (plugin_tools g) @ map runtime_tool_name (runtime_tools g)"

definition tool_aliases :: "(rstring \<times> rstring) list" where
  "tool_aliases = map (\<lambda>(a, c). (lit a, lit c))
     [(''read'', ''read_file''), (''write'', ''write_file''), (''edit'', ''edit_file''), (''glob'', ''glob_search''),
      (''grep'', ''grep_search'')]"

text \<open>The last entry of a name wins: names are collected into a map, then the aliases are inserted.\<close>

definition name_map :: "tool_registry \<Rightarrow> rstring \<Rightarrow> rstring option" where
  "name_map g = map_of (rev (map (\<lambda>n. (normalize_tool_name n, n)) (canonical_names g) @ tool_aliases))"

definition allowed_tokens :: "rstring \<Rightarrow> rstring list" where
  "allowed_tokens v = filter (\<lambda>t. t \<noteq> []) (split_on (\<lambda>c. c = c_comma \<or> is_whitespace c) v)"

fun resolve_tokens :: "tool_registry \<Rightarrow> rstring list \<Rightarrow> rstring set \<Rightarrow> rstring + rstring set" where
  "resolve_tokens g [] allowed = Inr allowed"
| "resolve_tokens g (t # ts) allowed = (case name_map g (normalize_tool_name t) of
     None \<Rightarrow> Inl (lit ''unsupported tool in --allowedTools: '' @ t @ lit '' (expected one of: '' @
         join (lit '', '') (canonical_names g) @ lit '')'')
   | Some name \<Rightarrow> resolve_tokens g ts (insert name allowed))"

definition normalize_allowed_tools :: "tool_registry \<Rightarrow> rstring list \<Rightarrow> rstring + rstring set option" where
  "normalize_allowed_tools g values =
     (if values = [] then Inr None
      else rbind (resolve_tokens g (concat (map allowed_tokens values)) {}) (\<lambda>allowed. Inr (Some allowed)))"

definition is_listed :: "rstring set option \<Rightarrow> rstring \<Rightarrow> bool" where
  "is_listed allowed name \<longleftrightarrow> (case allowed of None \<Rightarrow> True | Some a \<Rightarrow> name \<in> a)"

definition registry_definitions :: "rstring set option \<Rightarrow> tool_registry \<Rightarrow> tool_definition list" where
  "registry_definitions allowed g =
     map (\<lambda>s. \<lparr>definition_name = tspec_name s, definition_description = Some (tspec_description s),
         definition_schema = tspec_schema s\<rparr>) (filter (\<lambda>s. is_listed allowed (tspec_name s)) mvp_tool_specs) @
     map (\<lambda>t. \<lparr>definition_name = runtime_tool_name t, definition_description = runtime_tool_description t,
         definition_schema = runtime_tool_schema t\<rparr>) (filter (\<lambda>t. is_listed allowed (runtime_tool_name t)) (runtime_tools g)) @
     map (\<lambda>t. \<lparr>definition_name = plugin_tool_name t, definition_description = plugin_tool_description t,
         definition_schema = plugin_tool_schema t\<rparr>) (filter (\<lambda>t. is_listed allowed (plugin_tool_name t)) (plugin_tools g))"

definition permission_mode_from_plugin :: "rstring \<Rightarrow> rstring + permission_mode" where
  "permission_mode_from_plugin v =
     (if v = lit ''read-only'' then Inr Mode_ReadOnly
      else if v = lit ''workspace-write'' then Inr Mode_WorkspaceWrite
      else if v = lit ''danger-full-access'' then Inr Mode_DangerFullAccess
      else Inl (lit ''unsupported plugin permission: '' @ v))"

fun plugin_permissions :: "plugin_tool list \<Rightarrow> rstring + (rstring \<times> permission_mode) list" where
  "plugin_permissions [] = Inr []"
| "plugin_permissions (t # ts) =
     rbind (permission_mode_from_plugin (plugin_tool_permission t)) (\<lambda>m.
     rbind (plugin_permissions ts) (\<lambda>rest. Inr ((plugin_tool_name t, m) # rest)))"

definition permission_specs :: "rstring set option \<Rightarrow> tool_registry \<Rightarrow> rstring + (rstring \<times> permission_mode) list" where
  "permission_specs allowed g =
     rbind (plugin_permissions (filter (\<lambda>t. is_listed allowed (plugin_tool_name t)) (plugin_tools g))) (\<lambda>plugin.
       Inr (map (\<lambda>s. (tspec_name s, tspec_permission s)) (filter (\<lambda>s. is_listed allowed (tspec_name s)) mvp_tool_specs) @
         map (\<lambda>t. (runtime_tool_name t, runtime_tool_permission t))
           (filter (\<lambda>t. is_listed allowed (runtime_tool_name t)) (runtime_tools g)) @ plugin))"

text \<open>The policy of a session: the rules of the settings and what every tool of the registry requires.\<close>

definition permission_policy_for :: "permission_mode \<Rightarrow> permission_rule_config \<Rightarrow> tool_registry \<Rightarrow> rstring + permission_policy" where
  "permission_policy_for mode rules g =
     rbind (permission_specs None g) (\<lambda>specs. Inr (foldl (\<lambda>p (name, required). with_tool_requirement p name required)
       (with_permission_rules (policy_new mode) rules) specs))"

section \<open>Dispatch\<close>

definition enforce_permission_check ::
    "serde_object \<Rightarrow> (serde_value \<Rightarrow> rstring) \<Rightarrow> permission_enforcer \<Rightarrow> rstring \<Rightarrow> serde_value \<Rightarrow> rstring + unit" where
  "enforce_permission_check serde to_json e name inp = (case enforcer_check serde e name (to_json inp) of
     Allowed \<Rightarrow> Inr ()
   | Denied _ _ _ reason \<Rightarrow> Inl reason)"

definition maybe_enforce_permission_check ::
    "serde_object \<Rightarrow> (serde_value \<Rightarrow> rstring) \<Rightarrow> permission_enforcer option \<Rightarrow> rstring \<Rightarrow> serde_value \<Rightarrow> rstring + unit" where
  "maybe_enforce_permission_check serde to_json enforcer name inp = (case enforcer of
     Some e \<Rightarrow> enforce_permission_check serde to_json e name inp
   | None \<Rightarrow> Inr ())"

text \<open>The arms that check the permission, and those that do not.\<close>

definition guarded_tools :: "rstring list" where
  "guarded_tools = map lit [''bash'', ''read_file'', ''write_file'', ''edit_file'', ''glob_search'', ''grep_search'']"

definition unguarded_tools :: "rstring list" where
  "unguarded_tools = map lit
     [''WebFetch'', ''WebSearch'', ''TodoWrite'', ''Skill'', ''Agent'', ''ToolSearch'', ''NotebookEdit'', ''Sleep'',
      ''SendUserMessage'', ''Brief'', ''Config'', ''EnterPlanMode'', ''ExitPlanMode'', ''StructuredOutput'', ''REPL'',
      ''PowerShell'', ''AskUserQuestion'', ''TaskCreate'', ''RunTaskPacket'', ''TaskGet'', ''TaskList'', ''TaskStop'',
      ''TaskUpdate'', ''TaskOutput'', ''WorkerCreate'', ''WorkerGet'', ''WorkerObserve'', ''WorkerResolveTrust'',
      ''WorkerAwaitReady'', ''WorkerSendPrompt'', ''WorkerRestart'', ''WorkerTerminate'', ''TeamCreate'', ''TeamDelete'',
      ''CronCreate'', ''CronDelete'', ''CronList'', ''LSP'', ''ListMcpResources'', ''ReadMcpResource'', ''McpAuth'',
      ''RemoteTrigger'', ''MCP'', ''TestingPermission'']"

definition execute_tool_with_enforcer ::
    "serde_object \<Rightarrow> (serde_value \<Rightarrow> rstring) \<Rightarrow> (rstring \<Rightarrow> serde_value \<Rightarrow> 'w \<Rightarrow> (rstring + rstring) \<times> 'w) \<Rightarrow>
     permission_enforcer option \<Rightarrow> rstring \<Rightarrow> serde_value \<Rightarrow> 'w \<Rightarrow> (rstring + rstring) \<times> 'w" where
  "execute_tool_with_enforcer serde to_json run enforcer name inp w =
     (if name \<in> set guarded_tools then
        (case maybe_enforce_permission_check serde to_json enforcer name inp of
           Inl e \<Rightarrow> (Inl e, w)
         | Inr _ \<Rightarrow> run name inp w)
      else if name \<in> set unguarded_tools then run name inp w
      else (Inl (lit ''unsupported tool: '' @ name), w))"

text \<open>\<open>run_plugin\<close> executes a plugin tool.\<close>

definition registry_execute ::
    "serde_object \<Rightarrow> (serde_value \<Rightarrow> rstring) \<Rightarrow> (rstring \<Rightarrow> serde_value \<Rightarrow> 'w \<Rightarrow> (rstring + rstring) \<times> 'w) \<Rightarrow>
     (plugin_tool \<Rightarrow> serde_value \<Rightarrow> 'w \<Rightarrow> (rstring + rstring) \<times> 'w) \<Rightarrow>
     tool_registry \<Rightarrow> rstring \<Rightarrow> serde_value \<Rightarrow> 'w \<Rightarrow> (rstring + rstring) \<times> 'w" where
  "registry_execute serde to_json run run_plugin g name inp w =
     (if list_ex (\<lambda>s. tspec_name s = name) mvp_tool_specs
      then execute_tool_with_enforcer serde to_json run (registry_enforcer g) name inp w
      else (case find (\<lambda>t. plugin_tool_name t = name) (plugin_tools g) of
          None \<Rightarrow> (Inl (lit ''unsupported tool: '' @ name), w)
        | Some t \<Rightarrow> run_plugin t inp w))"

section \<open>Search\<close>

definition deferred_tool_specs :: "tool_spec list" where
  "deferred_tool_specs = filter (\<lambda>s. tspec_name s \<notin> set guarded_tools) mvp_tool_specs"

definition canonical_tool_token :: "rstring \<Rightarrow> rstring" where
  "canonical_tool_token v =
     (let canonical = map ascii_lower (filter is_ascii_alphanumeric v)
      in case strip_suffix canonical (lit ''tool'') of Some stripped \<Rightarrow> stripped | None \<Rightarrow> canonical)"

definition normalize_tool_search_query :: "rstring \<Rightarrow> rstring" where
  "normalize_tool_search_query query =
     join [c_space] (map canonical_tool_token (filter (\<lambda>t. t \<noteq> []) (split_on (\<lambda>c. is_whitespace c \<or> c = c_comma) (trim query))))"

text \<open>A searchable tool is its name and its description.\<close>

definition searchable_tool_specs :: "tool_registry \<Rightarrow> (rstring \<times> rstring) list" where
  "searchable_tool_specs g =
     map (\<lambda>s. (tspec_name s, tspec_description s)) deferred_tool_specs @
     map (\<lambda>t. (runtime_tool_name t, unwrap_or [] (runtime_tool_description t))) (runtime_tools g) @
     map (\<lambda>t. (plugin_tool_name t, unwrap_or [] (plugin_tool_description t))) (plugin_tools g)"

definition select_tools :: "rstring \<Rightarrow> (rstring \<times> rstring) list \<Rightarrow> rstring list" where
  "select_tools selection specs =
     filter_map (\<lambda>wanted. map_option fst (find (\<lambda>(name, _). canonical_tool_token name = canonical_tool_token wanted) specs))
       (filter (\<lambda>p. p \<noteq> []) (map trim (split_on (\<lambda>c. c = c_comma) selection)))"

text \<open>The terms of a query: those behind a plus are required and come first.\<close>

definition required_terms :: "rstring \<Rightarrow> rstring list" where
  "required_terms lowered =
     filter (\<lambda>t. t \<noteq> []) (filter_map (\<lambda>t. strip_prefix t [43]) (split_whitespace lowered))"

definition optional_terms :: "rstring \<Rightarrow> rstring list" where
  "optional_terms lowered = filter (\<lambda>t. \<not> starts_with t [43]) (split_whitespace lowered)"

definition term_score :: "rstring \<Rightarrow> rstring \<Rightarrow> rstring \<Rightarrow> rstring \<Rightarrow> rstring \<Rightarrow> nat" where
  "term_score haystack name canonical_name normalized_haystack t =
     (let canonical_term = canonical_tool_token t
      in (if str_contains haystack t then 2 else 0) + (if name = t then 8 else 0) + (if str_contains name t then 4 else 0) +
         (if canonical_name = canonical_term then 12 else 0) +
         (if str_contains normalized_haystack canonical_term then 3 else 0))"

definition score_tool :: "(rstring \<Rightarrow> rstring) \<Rightarrow> rstring \<Rightarrow> rstring \<times> rstring \<Rightarrow> (nat \<times> rstring) option" where
  "score_tool lower lowered sp =
     (let name = lower (fst sp);
          canonical_name = canonical_tool_token (fst sp);
          haystack = name @ [c_space] @ lower (snd sp) @ [c_space] @ canonical_name;
          normalized_haystack = canonical_name @ [c_space] @ normalize_tool_search_query (snd sp);
          score = sum_list (map (term_score haystack name canonical_name normalized_haystack)
            (required_terms lowered @ optional_terms lowered))
      in if list_ex (\<lambda>t. \<not> str_contains haystack t) (required_terms lowered) then None
         else if score = 0 \<and> lowered \<noteq> [] then None
         else Some (score, fst sp))"

text \<open>A greater score first, then the name that comes first.\<close>

definition search_key :: "nat \<times> rstring \<Rightarrow> int \<times> rstring" where
  "search_key r = (- int (fst r), snd r)"

definition search_tool_specs :: "(rstring \<Rightarrow> rstring) \<Rightarrow> rstring \<Rightarrow> nat \<Rightarrow> (rstring \<times> rstring) list \<Rightarrow> rstring list" where
  "search_tool_specs lower query max_results specs =
     (let lowered = lower query
      in case strip_prefix lowered (lit ''select:'') of
           Some selection \<Rightarrow> take max_results (select_tools selection specs)
         | None \<Rightarrow> take max_results (map snd (sort_key search_key (filter_map (score_tool lower lowered) specs))))"

record 'd tool_search_output =
  search_matches :: "rstring list"
  search_query :: rstring
  search_normalized_query :: rstring
  total_deferred_tools :: nat
  pending_mcp_servers :: "rstring list option"
  search_mcp_degraded :: "'d option"

text \<open>The report on degraded servers is passed on as it is, whatever its type \<open>'d\<close>.\<close>

definition registry_search ::
    "(rstring \<Rightarrow> rstring) \<Rightarrow> tool_registry \<Rightarrow> rstring \<Rightarrow> nat \<Rightarrow> rstring list option \<Rightarrow> 'd option \<Rightarrow> 'd tool_search_output" where
  "registry_search lower g query max_results pending degraded =
     (let q = trim query
      in \<lparr>search_matches = search_tool_specs lower q (max max_results 1) (searchable_tool_specs g), search_query = q,
          search_normalized_query = normalize_tool_search_query q, total_deferred_tools = length (searchable_tool_specs g),
          pending_mcp_servers = pending, search_mcp_degraded = degraded\<rparr>)"

definition execute_tool_search :: "(rstring \<Rightarrow> rstring) \<Rightarrow> rstring \<Rightarrow> nat option \<Rightarrow> 'd tool_search_output" where
  "execute_tool_search lower query max_results =
     registry_search lower registry_builtin query (unwrap_or 5 max_results) None None"

section \<open>Names\<close>

lemma builtin_names_eq: "builtin_names = guarded_tools @ filter (\<lambda>n. n \<noteq> lit ''Brief'') unguarded_tools"
  unfolding builtin_names_def spec_names tool_permissions by (simp add: guarded_tools_def unguarded_tools_def)

lemma distinct_tools: "distinct (guarded_tools @ unguarded_tools)"
  unfolding guarded_tools_def unguarded_tools_def map_append [symmetric]
  by (subst distinct_map) (simp add: inj_on_def)

lemma filter_map_mem: "y \<in> set (filter_map f xs) \<longleftrightarrow> (\<exists>x \<in> set xs. f x = Some y)"
proof -
  have "y \<in> set (case f x of None \<Rightarrow> [] | Some z \<Rightarrow> [z]) \<longleftrightarrow> f x = Some y" for x by (cases "f x") auto
  then show ?thesis by (simp add: filter_map_def)
qed

lemma distinct_builtin: "distinct builtin_names"
  using distinct_tools by (auto simp: builtin_names_eq)

lemma plugin_names_ok:
  "check_plugin_names seen names = None \<longleftrightarrow>
   distinct names \<and> set names \<inter> (set builtin_names \<union> seen) = {}"
  by (induction seen names rule: check_plugin_names.induct) auto

lemma runtime_names_ok: "check_runtime_names seen names = None \<longleftrightarrow> distinct names \<and> set names \<inter> seen = {}"
  by (induction seen names rule: check_runtime_names.induct) auto

lemma with_plugin_tools_Inr:
  "with_plugin_tools ps = Inr g \<longleftrightarrow>
   distinct (map plugin_tool_name ps) \<and> plugin_tool_name ` set ps \<inter> set builtin_names = {} \<and> g = registry_builtin\<lparr>plugin_tools := ps\<rparr>"
proof -
  have "with_plugin_tools ps = Inr g \<longleftrightarrow>
      check_plugin_names {} (map plugin_tool_name ps) = None \<and> g = registry_builtin\<lparr>plugin_tools := ps\<rparr>"
    by (auto simp: with_plugin_tools_def split: option.split)
  then show ?thesis by (auto simp: plugin_names_ok)
qed

lemma with_runtime_tools_Inr:
  "with_runtime_tools rs g = Inr h \<longleftrightarrow> distinct (map runtime_tool_name rs) \<and>
   runtime_tool_name ` set rs \<inter> (set builtin_names \<union> plugin_tool_name ` set (plugin_tools g)) = {} \<and> h = g\<lparr>runtime_tools := rs\<rparr>"
proof -
  have "with_runtime_tools rs g = Inr h \<longleftrightarrow>
      check_runtime_names (set builtin_names \<union> plugin_tool_name ` set (plugin_tools g)) (map runtime_tool_name rs) = None \<and>
      h = g\<lparr>runtime_tools := rs\<rparr>"
    by (auto simp: with_runtime_tools_def split: option.split)
  then show ?thesis by (auto simp: runtime_names_ok)
qed

text \<open>
  A registry that was built by the two constructors knows each name once: built-in, plugin and runtime tools never
  share a name.  It is built exactly when this is so.\<close>

theorem registry_names_distinct:
  "(\<exists>g h. with_plugin_tools ps = Inr g \<and> with_runtime_tools rs g = Inr h \<and> plugin_tools h = ps \<and> runtime_tools h = rs) \<longleftrightarrow>
   distinct (builtin_names @ map plugin_tool_name ps @ map runtime_tool_name rs)"
  by (auto simp: with_plugin_tools_Inr with_runtime_tools_Inr registry_builtin_def distinct_builtin)

section \<open>Allowed tools\<close>

lemma name_map_canonical: "name_map g n = Some c \<Longrightarrow> c \<in> set (canonical_names g)"
  unfolding name_map_def
  by (drule map_of_SomeD) (auto simp: tool_aliases_def canonical_names_def builtin_names_eq guarded_tools_def)

lemma resolve_tokens_Inr:
  "resolve_tokens g ts allowed = Inr a \<longleftrightarrow>
   (\<forall>t \<in> set ts. name_map g (normalize_tool_name t) \<noteq> None) \<and>
   a = allowed \<union> {c. \<exists>t \<in> set ts. name_map g (normalize_tool_name t) = Some c}"
  by (induction g ts allowed rule: resolve_tokens.induct) (auto split: option.split)

text \<open>
  The list of allowed tools names only tools of the registry, one for each token; a token that is no tool is an error,
  and an empty list of arguments, not an empty list of tools, means all tools.\<close>

theorem allowed_tools_known:
  assumes "normalize_allowed_tools g values = Inr (Some a)"
  shows "a \<subseteq> set (canonical_names g) \<and> values \<noteq> [] \<and>
    (\<forall>t \<in> set (concat (map allowed_tokens values)). \<exists>c \<in> a. name_map g (normalize_tool_name t) = Some c)"
proof -
  have v: "values \<noteq> []" and r: "resolve_tokens g (concat (map allowed_tokens values)) {} = Inr a"
    using assms by (auto simp: normalize_allowed_tools_def rbind_Inr_iff split: if_splits)
  then show ?thesis unfolding resolve_tokens_Inr by (auto simp: name_map_canonical) blast
qed

lemma split_on_single: "list_all (\<lambda>c. \<not> P c) s \<Longrightarrow> split_on P s = [s]"
  by (induction s) auto

lemma one_token: "trim v = v \<Longrightarrow> v \<noteq> [] \<Longrightarrow> list_all (\<lambda>c. c \<noteq> c_comma \<and> \<not> is_whitespace c) v \<Longrightarrow> allowed_tokens v = [v]"
  using split_on_single [of "\<lambda>c. c = c_comma \<or> is_whitespace c" v] by (simp add: allowed_tokens_def)

theorem allowed_tools_known_witness:
  "normalize_allowed_tools registry_builtin [lit ''grep''] = Inr (Some {lit ''grep_search''}) \<and>
   lit ''grep_search'' \<in> set (canonical_names registry_builtin)"
proof -
  have t: "allowed_tokens (lit ''grep'') = [lit ''grep'']" by (rule one_token) (simp_all add: lit_def str_defs)
  have n: "normalize_tool_name (lit ''grep'') = lit ''grep''" by (simp add: normalize_tool_name_def lit_def str_defs)
  have "name_map registry_builtin (lit ''grep'') = Some (lit ''grep_search'')"
    by (simp add: name_map_def tool_aliases_def)
  then have "normalize_allowed_tools registry_builtin [lit ''grep''] = Inr (Some {lit ''grep_search''})"
    by (simp add: normalize_allowed_tools_def t n)
  with allowed_tools_known [of registry_builtin "[lit ''grep'']"] show ?thesis by simp
qed

text \<open>
  A plugin tool whose name differs from that of a built-in tool only in case or hyphens is registered, and then takes
  the place of the built-in tool in the list of allowed tools.\<close>

theorem plugin_shadows_builtin:
  "\<exists>g. with_plugin_tools [\<lparr>plugin_tool_name = lit ''Write-File'', plugin_tool_description = None, plugin_tool_schema = SNull,
       plugin_tool_permission = lit ''read-only''\<rparr>] = Inr g \<and>
     normalize_allowed_tools g [lit ''write_file''] = Inr (Some {lit ''Write-File''})"
proof -
  let ?p = "\<lparr>plugin_tool_name = lit ''Write-File'', plugin_tool_description = None, plugin_tool_schema = SNull,
       plugin_tool_permission = lit ''read-only''\<rparr>"
  let ?g = "registry_builtin\<lparr>plugin_tools := [?p]\<rparr>"
  have "with_plugin_tools [?p] = Inr ?g"
    by (simp add: with_plugin_tools_Inr builtin_names_eq guarded_tools_def unguarded_tools_def)
  moreover have t: "allowed_tokens (lit ''write_file'') = [lit ''write_file'']" by (rule one_token) (simp_all add: lit_def str_defs)
  have n: "normalize_tool_name (lit ''write_file'') = lit ''write_file''" "normalize_tool_name (lit ''Write-File'') = lit ''write_file''"
    by (simp_all add: normalize_tool_name_def lit_def str_defs)
  have "name_map ?g (lit ''write_file'') = Some (lit ''Write-File'')"
    by (simp add: name_map_def tool_aliases_def canonical_names_def registry_builtin_def n map_of_append)
  then have "normalize_allowed_tools ?g [lit ''write_file''] = Inr (Some {lit ''Write-File''})"
    by (simp add: normalize_allowed_tools_def t n)
  ultimately show ?thesis by blast
qed

section \<open>Dispatch\<close>

text \<open>Every tool of the table has an arm in the dispatch.\<close>

lemma table_dispatched: "set builtin_names \<subseteq> set guarded_tools \<union> set unguarded_tools"
  by (auto simp: builtin_names_eq)

lemma fold_requirements:
  "foldl (\<lambda>p (name, required). with_tool_requirement p name required) p specs =
     p\<lparr>tool_requirements := foldl (\<lambda>rs (name, required). bt_insert name required rs) (tool_requirements p) specs\<rparr>"
  by (induction specs arbitrary: p) (auto simp: with_tool_requirement_def)

lemma map_of_fold_requirements:
  "map_of (foldl (\<lambda>rs (name, required). bt_insert name required rs) rs specs) = map_of rs ++ map_of (rev specs)"
  by (induction specs arbitrary: rs) (auto simp: map_of_bt_insert_any fun_eq_iff map_add_def split: option.split)

lemma map_of_distinct_rev: "distinct (map fst xs) \<Longrightarrow> map_of (rev xs) = map_of xs"
proof (induction xs)
  case (Cons x xs)
  then have "map_of xs (fst x) = None" by (simp add: map_of_eq_None_iff)
  then show ?case using Cons by (cases x) (auto simp: fun_eq_iff map_add_def split: option.split)
qed simp

lemma table_policy:
  assumes "permission_policy_for mode rules registry_builtin = Inr p"
  shows "active_mode p = mode" "deny_rules p = map rule_parse (cfg_deny rules)" "ask_rules p = map rule_parse (cfg_ask rules)"
      "allow_rules p = map rule_parse (cfg_allow rules)"
    and "required_mode_for p name = (case map_of (map (\<lambda>s. (tspec_name s, tspec_permission s)) mvp_tool_specs) name of
      Some m \<Rightarrow> m | None \<Rightarrow> Mode_DangerFullAccess)"
proof -
  let ?table = "map (\<lambda>s. (tspec_name s, tspec_permission s)) mvp_tool_specs"
  have p: "p = foldl (\<lambda>p (name, required). with_tool_requirement p name required) (with_permission_rules (policy_new mode) rules) ?table"
    using assms by (simp add: permission_policy_for_def permission_specs_def registry_builtin_def is_listed_def)
  show "active_mode p = mode" "deny_rules p = map rule_parse (cfg_deny rules)" "ask_rules p = map rule_parse (cfg_ask rules)"
      "allow_rules p = map rule_parse (cfg_allow rules)"
    by (simp_all add: p fold_requirements with_permission_rules_def policy_new_def)
  have "distinct (map fst ?table)" using distinct_builtin by (simp add: builtin_names_def comp_def)
  then have "map_of (tool_requirements p) = map_of ?table"
    by (simp add: p fold_requirements map_of_fold_requirements map_of_distinct_rev with_permission_rules_def policy_new_def
        del: list.map)
  then show "required_mode_for p name = (case map_of ?table name of Some m \<Rightarrow> m | None \<Rightarrow> Mode_DangerFullAccess)"
    by (simp only: required_mode_for_def)
qed

lemma guarded_requirements:
  assumes "permission_policy_for mode rules registry_builtin = Inr p"
  shows "required_mode_for p (lit ''bash'') = Mode_DangerFullAccess" "required_mode_for p (lit ''read_file'') = Mode_ReadOnly"
    "required_mode_for p (lit ''write_file'') = Mode_WorkspaceWrite" "required_mode_for p (lit ''edit_file'') = Mode_WorkspaceWrite"
    "required_mode_for p (lit ''glob_search'') = Mode_ReadOnly" "required_mode_for p (lit ''grep_search'') = Mode_ReadOnly"
  by (simp_all add: table_policy(5) [OF assms] tool_permissions)

lemma lit_append: "lit a @ lit b = lit (a @ b)"
  by (simp add: lit_def)

lemma authorize_unmatched:
  assumes "\<And>rs. rs \<in> {deny_rules p, ask_rules p, allow_rules p} \<Longrightarrow> find_matching_rule serde rs name j = None"
    and "active_mode p \<noteq> Mode_Prompt"
  shows "fst (authorize serde p name j None) =
    (if active_mode p = Mode_Allow \<or> required_mode_for p name \<le> active_mode p then Outcome_Allow
     else Outcome_Deny (if active_mode p = Mode_WorkspaceWrite \<and> required_mode_for p name = Mode_DangerFullAccess
       then lit ''tool '' @ quoted name @ lit '' requires approval to escalate from '' @ mode_as_str (active_mode p) @ lit '' to '' @
         mode_as_str (required_mode_for p name)
       else lit ''tool '' @ quoted name @ lit '' requires '' @ mode_as_str (required_mode_for p name) @
         lit '' permission; current mode is '' @ mode_as_str (active_mode p)))"
  using assms(2) by (simp add: assms(1) authorize_def authorize_with_context_def default_context_def prompt_or_deny_def Let_def)

lemma table_dispatch:
  assumes "name \<notin> {lit ''bash'', lit ''read_file'', lit ''write_file'', lit ''edit_file'', lit ''glob_search'', lit ''grep_search''}"
  shows "execute_tool_with_enforcer serde to_json run e name inp w =
    (if name \<in> insert (lit ''Brief'') (set builtin_names) then run name inp w else (Inl (lit ''unsupported tool: '' @ name), w))"
proof -
  have "name \<notin> set guarded_tools" using assms by (simp add: guarded_tools_def)
  moreover from this have "name \<in> set unguarded_tools \<longleftrightarrow> name \<in> insert (lit ''Brief'') (set builtin_names)"
    by (auto simp: builtin_names_eq) (simp add: unguarded_tools_def)
  ultimately show ?thesis by (simp add: execute_tool_with_enforcer_def)
qed

text \<open>
  C15: What the mode of a session stops, under the policy that is made of the table of tools, for a call that no rule of the
  settings matches: in read-only mode \<^verbatim>\<open>bash\<close>, \<^verbatim>\<open>write_file\<close> and \<^verbatim>\<open>edit_file\<close> are refused, in workspace-write mode
  \<^verbatim>\<open>bash\<close>, each with its text, with nothing run and the world as before.  No mode refuses anything else: every other tool
  of the table runs, and a name that is not in the table is unsupported.
\<close>

theorem dispatch_guard:
  assumes policy: "permission_policy_for mode rules registry_builtin = Inr p"
    and unmatched: "\<And>rs. rs \<in> {deny_rules p, ask_rules p, allow_rules p} \<Longrightarrow> find_matching_rule serde rs name (to_json inp) = None"
  shows "execute_tool_with_enforcer serde to_json run (Some \<lparr>enf_policy = p\<rparr>) name inp w =
    (if mode = Mode_ReadOnly \<and> name = lit ''bash''
       then (Inl (lit ''tool '' @ quoted name @ lit '' requires danger-full-access permission; current mode is read-only''), w)
     else if mode = Mode_ReadOnly \<and> name \<in> {lit ''write_file'', lit ''edit_file''}
       then (Inl (lit ''tool '' @ quoted name @ lit '' requires workspace-write permission; current mode is read-only''), w)
     else if mode = Mode_WorkspaceWrite \<and> name = lit ''bash''
       then (Inl (lit ''tool '' @ quoted name @ lit '' requires approval to escalate from workspace-write to danger-full-access''), w)
     else if name \<in> insert (lit ''Brief'') (set builtin_names) then run name inp w
     else (Inl (lit ''unsupported tool: '' @ name), w))"
proof (cases "name \<in> {lit ''bash'', lit ''read_file'', lit ''write_file'', lit ''edit_file'', lit ''glob_search'', lit ''grep_search''}")
  case False
  then show ?thesis by (simp add: table_dispatch)
next
  case True
  then have listed: "name \<in> set guarded_tools" "name \<in> set builtin_names" by (auto simp: guarded_tools_def builtin_names_eq)
  note required = guarded_requirements [OF policy] and mode = table_policy(1) [OF policy]
  from listed(1) have run: "execute_tool_with_enforcer serde to_json run (Some \<lparr>enf_policy = p\<rparr>) name inp w =
      (case enforcer_check serde \<lparr>enf_policy = p\<rparr> name (to_json inp) of Allowed \<Rightarrow> run name inp w | Denied _ _ _ reason \<Rightarrow> (Inl reason, w))"
    by (simp add: execute_tool_with_enforcer_def maybe_enforce_permission_check_def enforce_permission_check_def split: enforcement_result.split)
  show ?thesis
  proof (cases "mode = Mode_Prompt")
    case True
    then show ?thesis using listed(2) by (simp add: run enforcer_check_def mode)
  next
    case False
    have "fst (authorize serde p name (to_json inp) None) = (if mode = Mode_Allow \<or> required_mode_for p name \<le> mode then Outcome_Allow
       else Outcome_Deny (if mode = Mode_WorkspaceWrite \<and> required_mode_for p name = Mode_DangerFullAccess
         then lit ''tool '' @ quoted name @ lit '' requires approval to escalate from '' @ mode_as_str mode @ lit '' to '' @
           mode_as_str (required_mode_for p name)
         else lit ''tool '' @ quoted name @ lit '' requires '' @ mode_as_str (required_mode_for p name) @
           lit '' permission; current mode is '' @ mode_as_str mode))"
      using authorize_unmatched [of p serde name "to_json inp"] unmatched False unfolding mode by blast
    then show ?thesis
      using True listed(2) by (cases mode) (auto simp: run enforcer_check_def mode required less_eq_permission_mode_def lit_append)
  qed
qed

theorem dispatch_guard_witness:
  "\<exists>p. permission_policy_for Mode_ReadOnly \<lparr>cfg_allow = [], cfg_deny = [], cfg_ask = []\<rparr> registry_builtin = Inr p \<and>
     execute_tool_with_enforcer (\<lambda>_. None) (\<lambda>_. []) (\<lambda>_ _ w. (Inr [], w)) (Some \<lparr>enf_policy = p\<rparr>) (lit ''write_file'') SNull (0::nat) =
       (Inl (lit ''tool '' @ quoted (lit ''write_file'') @ lit '' requires workspace-write permission; current mode is read-only''), 0)"
proof -
  obtain p where p: "permission_policy_for Mode_ReadOnly \<lparr>cfg_allow = [], cfg_deny = [], cfg_ask = []\<rparr> registry_builtin = Inr p"
    by (simp add: permission_policy_for_def permission_specs_def registry_builtin_def)
  have "find_matching_rule serde rs name j = None" if "rs \<in> {deny_rules p, ask_rules p, allow_rules p}" for rs serde name j
    using that by (auto simp: find_matching_rule_def table_policy(2-4) [OF p])
  then show ?thesis
    using dispatch_guard [OF p, where name = "lit ''write_file''" and run = "\<lambda>_ _ w. (Inr [], w)" and w = "0::nat" and
        serde = "\<lambda>_. None" and to_json = "\<lambda>_. []" and inp = SNull] p
    by simp
qed

section \<open>Search\<close>

lemma select_tools_listed: "set (select_tools selection specs) \<subseteq> fst ` set specs"
proof
  fix n
  assume "n \<in> set (select_tools selection specs)"
  then obtain w r where "find (\<lambda>(name, _). canonical_tool_token name = canonical_tool_token w) specs = Some r" "n = fst r"
    by (auto simp: select_tools_def filter_map_mem)
  then have "r \<in> set specs" by (metis find_Some_iff nth_mem)
  with \<open>n = fst r\<close> show "n \<in> fst ` set specs" by simp
qed

lemma score_tool_listed: "score_tool lower lowered sp = Some r \<Longrightarrow> snd r = fst sp"
  by (auto simp: score_tool_def Let_def split: if_splits)

lemma search_tool_specs_contract:
  "set (search_tool_specs lower query n specs) \<subseteq> fst ` set specs" "length (search_tool_specs lower query n specs) \<le> n"
proof -
  have sorted: "set (map snd (sort_key search_key (filter_map (score_tool lower l) specs))) \<subseteq> fst ` set specs" for l
  proof
    fix n
    assume "n \<in> set (map snd (sort_key search_key (filter_map (score_tool lower l) specs)))"
    then obtain sp r where "sp \<in> set specs" "score_tool lower l sp = Some r" "n = snd r"
      by (auto simp: filter_map_mem)
    then show "n \<in> fst ` set specs" by (auto dest: score_tool_listed)
  qed
  show "set (search_tool_specs lower query n specs) \<subseteq> fst ` set specs"
  proof (cases "strip_prefix (lower query) (lit ''select:'')")
    case None
    with sorted [of "lower query"] show ?thesis unfolding search_tool_specs_def Let_def
      by (auto dest!: in_set_takeD)
  next
    case (Some selection)
    with select_tools_listed [of selection specs] show ?thesis unfolding search_tool_specs_def Let_def
      by (auto dest!: in_set_takeD)
  qed
  show "length (search_tool_specs lower query n specs) \<le> n"
    by (simp add: search_tool_specs_def Let_def split: option.split)
qed

text \<open>The search finds tools of the registry that are not always loaded, and at most as many as asked for, but at least one may be.\<close>

theorem search_contract:
  "let out = registry_search lower g query n pending degraded in
     set (search_matches out) \<subseteq> fst ` set (searchable_tool_specs g) \<and> length (search_matches out) \<le> max n 1 \<and>
     set (search_matches out) \<inter> set guarded_tools \<subseteq> plugin_tool_name ` set (plugin_tools g) \<union> runtime_tool_name ` set (runtime_tools g)"
proof -
  let ?q = "search_tool_specs lower (trim query) (max n 1) (searchable_tool_specs g)"
  have "fst ` set (searchable_tool_specs g) \<inter> set guarded_tools
      \<subseteq> plugin_tool_name ` set (plugin_tools g) \<union> runtime_tool_name ` set (runtime_tools g)"
    by (auto simp: searchable_tool_specs_def deferred_tool_specs_def)
  moreover have "set ?q \<subseteq> fst ` set (searchable_tool_specs g)" "length ?q \<le> max n 1"
    by (rule search_tool_specs_contract)+
  ultimately show ?thesis unfolding Let_def registry_search_def tool_search_output.simps by blast
qed

text \<open>
  The shells other than \<^verbatim>\<open>bash\<close> are not guarded: with an enforcer in read-only mode that refuses \<^verbatim>\<open>PowerShell\<close>, a tool
  that needs full access by the table, the dispatch runs it all the same.\<close>

theorem powershell_not_guarded:
  "let e = \<lparr>enf_policy = with_tool_requirement (policy_new Mode_ReadOnly) (lit ''PowerShell'') Mode_DangerFullAccess\<rparr> in
     (lit ''PowerShell'', Mode_DangerFullAccess) \<in> (\<lambda>s. (tspec_name s, tspec_permission s)) ` set mvp_tool_specs \<and>
     \<not> is_allowed serde e (lit ''PowerShell'') (to_json inp) \<and>
     execute_tool_with_enforcer serde to_json run (Some e) (lit ''PowerShell'') inp w = run (lit ''PowerShell'') inp w"
proof -
  have "(lit ''PowerShell'', Mode_DangerFullAccess) \<in> set (map (\<lambda>s. (tspec_name s, tspec_permission s)) mvp_tool_specs)"
    unfolding tool_permissions by simp
  moreover have "\<not> is_allowed serde \<lparr>enf_policy = with_tool_requirement (policy_new Mode_ReadOnly) (lit ''PowerShell'') Mode_DangerFullAccess\<rparr>
      (lit ''PowerShell'') j" for j
    by (simp add: is_allowed_def enforcer_check_def authorize_def authorize_with_context_def policy_new_def with_tool_requirement_def
        find_matching_rule_def required_mode_for_def prompt_or_deny_def less_eq_permission_mode_def default_context_def Let_def)
  ultimately show ?thesis
    by (simp add: Let_def execute_tool_with_enforcer_def guarded_tools_def unguarded_tools_def)
qed

end
