(* ===== verification/Providers.thy ===== *)
theory Providers imports Strings begin

text \<open>
  Models and their providers (\<^verbatim>\<open>crates/api/src/providers/mod.rs\<close>): short names, which provider serves a model, and its
  limits of tokens.  Which keys the environment has is a parameter.
\<close>

datatype provider_kind = Anthropic | Xai | OpenAi

record provider_metadata =
  provider :: provider_kind
  auth_env :: rstring
  base_url_env :: rstring
  default_base_url :: rstring

definition anthropic_metadata :: provider_metadata where
  "anthropic_metadata = \<lparr>provider = Anthropic, auth_env = lit ''ANTHROPIC_API_KEY'', base_url_env = lit ''ANTHROPIC_BASE_URL'',
     default_base_url = lit ''https://api.anthropic.com''\<rparr>"

definition xai_metadata :: provider_metadata where
  "xai_metadata = \<lparr>provider = Xai, auth_env = lit ''XAI_API_KEY'', base_url_env = lit ''XAI_BASE_URL'',
     default_base_url = lit ''https://api.x.ai/v1''\<rparr>"

definition model_registry :: "(rstring \<times> provider_metadata) list" where
  "model_registry =
     [(lit ''opus'', anthropic_metadata), (lit ''sonnet'', anthropic_metadata), (lit ''haiku'', anthropic_metadata),
      (lit ''grok'', xai_metadata), (lit ''grok-3'', xai_metadata), (lit ''grok-mini'', xai_metadata),
      (lit ''grok-3-mini'', xai_metadata), (lit ''grok-2'', xai_metadata)]"

definition alias_target :: "rstring \<Rightarrow> provider_kind \<Rightarrow> rstring \<Rightarrow> rstring" where
  "alias_target alias kind trimmed = (case kind of
     Anthropic \<Rightarrow>
       (if alias = lit ''opus'' then lit ''claude-opus-5''
        else if alias = lit ''sonnet'' then lit ''claude-sonnet-5''
        else if alias = lit ''haiku'' then lit ''claude-haiku-4-5''
        else trimmed)
   | Xai \<Rightarrow>
       (if alias \<in> {lit ''grok'', lit ''grok-3''} then lit ''grok-3''
        else if alias \<in> {lit ''grok-mini'', lit ''grok-3-mini''} then lit ''grok-3-mini''
        else if alias = lit ''grok-2'' then lit ''grok-2''
        else trimmed)
   | OpenAi \<Rightarrow> trimmed)"

definition resolve_model_alias :: "rstring \<Rightarrow> rstring" where
  "resolve_model_alias model =
     (let trimmed = trim model; lower = to_ascii_lowercase trimmed
      in case find (\<lambda>(alias, _). alias = lower) model_registry of
           Some (alias, m) \<Rightarrow> alias_target alias (provider m) trimmed
         | None \<Rightarrow> trimmed)"

definition metadata_for_model :: "rstring \<Rightarrow> provider_metadata option" where
  "metadata_for_model model =
     (let canonical = resolve_model_alias model
      in if starts_with canonical (lit ''claude'') then Some anthropic_metadata
         else if starts_with canonical (lit ''grok'') then Some xai_metadata
         else None)"

text \<open>\<open>anthropic_auth\<close> is what looking for an Anthropic key or saved credentials answers.\<close>

definition detect_provider_kind :: "'e + bool \<Rightarrow> (rstring \<Rightarrow> bool) \<Rightarrow> rstring \<Rightarrow> provider_kind" where
  "detect_provider_kind anthropic_auth has_api_key model = (case metadata_for_model model of
     Some m \<Rightarrow> provider m
   | None \<Rightarrow>
       if (case anthropic_auth of Inr b \<Rightarrow> b | Inl _ \<Rightarrow> False) then Anthropic
       else if has_api_key (lit ''OPENAI_API_KEY'') then OpenAi
       else if has_api_key (lit ''XAI_API_KEY'') then Xai
       else Anthropic)"

definition context_window_for_model :: "rstring \<Rightarrow> nat" where
  "context_window_for_model model =
     (let canonical = resolve_model_alias model
      in if str_contains canonical (lit ''opus'') \<or> str_contains canonical (lit ''sonnet'') then 1000000
         else if str_contains canonical (lit ''haiku'') then 200000
         else 131072)"

definition max_tokens_for_model :: "rstring \<Rightarrow> nat" where
  "max_tokens_for_model model =
     (let canonical = resolve_model_alias model
      in if str_contains canonical (lit ''opus'') \<or> str_contains canonical (lit ''sonnet'') then 128000 else 64000)"

definition is_alias :: "rstring \<Rightarrow> bool" where
  "is_alias model \<longleftrightarrow> (\<exists>m \<in> set model_registry. fst m = to_ascii_lowercase (trim model))"

lemma resolve_not_alias:
  assumes "\<not> is_alias model"
  shows "resolve_model_alias model = trim model"
proof -
  have "find (\<lambda>(alias, _). alias = to_ascii_lowercase (trim model)) model_registry = None"
    using assms by (auto simp: find_None_iff is_alias_def)
  then show ?thesis by (simp add: resolve_model_alias_def)
qed

lemma resolve_alias:
  assumes "is_alias model"
  shows "resolve_model_alias model \<in>
    {lit ''claude-opus-5'', lit ''claude-sonnet-5'', lit ''claude-haiku-4-5'', lit ''grok-3'', lit ''grok-3-mini'', lit ''grok-2''}"
  using assms
  by (auto simp: resolve_model_alias_def is_alias_def model_registry_def alias_target_def anthropic_metadata_def xai_metadata_def Let_def)

lemma resolve_fixed:
  "m \<in> {lit ''claude-opus-5'', lit ''claude-sonnet-5'', lit ''claude-haiku-4-5'', lit ''grok-3'', lit ''grok-3-mini'', lit ''grok-2''} \<Longrightarrow>
     resolve_model_alias m = m"
  by (elim insertE emptyE; simp add: resolve_model_alias_def model_registry_def alias_target_def anthropic_metadata_def
      xai_metadata_def trim_def trim_start_def trim_end_def is_whitespace_def to_ascii_lowercase_def ascii_lower_def lit_def)

text \<open>
  The name of a model is resolved once and for all: resolving a resolved name changes nothing, so that every
  function of the name gives the same answer before and after; and a model's output always fits into its context.
\<close>

theorem model_alias_resolved:
  "resolve_model_alias (resolve_model_alias model) = resolve_model_alias model \<and>
   metadata_for_model (resolve_model_alias model) = metadata_for_model model \<and>
   max_tokens_for_model (resolve_model_alias model) = max_tokens_for_model model \<and>
   max_tokens_for_model model < context_window_for_model model"
proof -
  have "resolve_model_alias (resolve_model_alias model) = resolve_model_alias model"
  proof (cases "is_alias model")
    case True
    then show ?thesis by (intro resolve_fixed resolve_alias)
  next
    case False
    then have "\<not> is_alias (trim model)" by (simp add: is_alias_def)
    then show ?thesis using False by (simp add: resolve_not_alias)
  qed
  moreover have "max_tokens_for_model model < context_window_for_model model"
    by (simp add: max_tokens_for_model_def context_window_for_model_def Let_def)
  ultimately show ?thesis by (simp add: metadata_for_model_def max_tokens_for_model_def)
qed

end
