(* ===== verification/CliArgs.thy ===== *)
theory CliArgs imports Commands Tools Config Providers "HOL-Library.List_Lexorder" begin

text \<open>
  The command line (\<^verbatim>\<open>crates/rusty-claude-cli/src/main.rs\<close>): options, subcommands, slash commands outside of a session, the
  commands of a resumed session, and what is suggested for an unknown word.

  The environment, the current directory, the settings of a directory and the registry of tools are parameters.
\<close>

section \<open>Data\<close>

datatype cli_output_format = Format_Text | Format_Json

datatype cli_action =
    Action_DumpManifests
  | Action_BootstrapPlan
  | Action_Agents "rstring option"
  | Action_Mcp "rstring option"
  | Action_Skills "rstring option"
  | Action_PrintSystemPrompt rstring rstring
  | Action_Version
  | Action_ResumeSession rstring "rstring list"
  | Action_Status rstring permission_mode
  | Action_Sandbox
  | Action_Prompt rstring rstring cli_output_format "rstring set option" permission_mode
  | Action_Login
  | Action_Logout
  | Action_Init
  | Action_Repl rstring "rstring set option" permission_mode
  | Action_Help

datatype cli_error = Cli_Message rstring | Cli_Panic

record cli_env =
  cli_env_var :: "rstring \<Rightarrow> rstring option"
  cli_cwd :: "rstring + rstring"
  cli_config :: "rstring \<Rightarrow> config_error + runtime_config"
  cli_registry :: "rstring + tool_registry"

definition default_model :: rstring where "default_model = lit ''claude-opus-5''"
definition default_date :: rstring where "default_date = lit ''2026-03-31''"
definition latest_session :: rstring where "latest_session = lit ''latest''"

definition cli_option_suggestions :: "rstring list" where
  "cli_option_suggestions = map lit [''--help'', ''-h'', ''--version'', ''-V'', ''--model'', ''--output-format'',
     ''--permission-mode'', ''--dangerously-skip-permissions'', ''--allowedTools'', ''--allowed-tools'', ''--resume'',
     ''--print'', ''-p'']"

section \<open>Suggestions\<close>

definition cli_levenshtein :: "rstring \<Rightarrow> rstring \<Rightarrow> nat" where
  "cli_levenshtein left right =
     (if left = [] then length right
      else if right = [] then length left
      else distance_rows 0 left right [0..<length right + 1] ! length right)"

definition trim_slashes :: "rstring \<Rightarrow> rstring" where
  "trim_slashes s = dropWhile (\<lambda>c. c = c_slash) s"

definition suggestion_score :: "rstring \<Rightarrow> rstring \<Rightarrow> nat" where
  "suggestion_score inp candidate =
     (let a = to_ascii_lowercase (trim_slashes inp); b = to_ascii_lowercase (trim_slashes candidate)
      in cli_levenshtein a b + (if starts_with b a \<or> starts_with a b then 0 else 1))"

definition ranked_suggestions :: "rstring \<Rightarrow> rstring list \<Rightarrow> rstring list" where
  "ranked_suggestions inp candidates =
     take 3 (map snd (sort (filter (\<lambda>(score, _). score \<le> 4) (map (\<lambda>c. (suggestion_score inp c, c)) candidates))))"

definition suggest_closest_term :: "rstring \<Rightarrow> rstring list \<Rightarrow> rstring option" where
  "suggest_closest_term inp candidates = (case ranked_suggestions inp candidates of [] \<Rightarrow> None | c # _ \<Rightarrow> Some c)"

definition cli_suggest_slash_commands :: "rstring \<Rightarrow> rstring list" where
  "cli_suggest_slash_commands inp = ranked_suggestions (trim_slashes inp)
     (remdups_adj (sort (concat (map (\<lambda>s. map (\<lambda>n. c_slash # n) (spec_name s # spec_aliases s)) slash_command_specs))))"

definition render_suggestion_line :: "rstring \<Rightarrow> rstring list \<Rightarrow> rstring option" where
  "render_suggestion_line label suggestions =
     (if suggestions = [] then None
      else Some (lit ''  '' @ label @ replicate (16 - length label) c_space @ lit '' '' @ join (lit '', '') suggestions))"

definition format_unknown_option :: "rstring \<Rightarrow> rstring" where
  "format_unknown_option option = lit ''unknown option: '' @ option @
     (case suggest_closest_term option cli_option_suggestions of
        None \<Rightarrow> [] | Some s \<Rightarrow> [c_nl] @ lit ''Did you mean '' @ s @ lit ''?'') @
     [c_nl] @ lit ''Run `claw --help` for usage.''"

definition suggestion_part :: "rstring \<Rightarrow> rstring" where
  "suggestion_part name = (case render_suggestion_line (lit ''Did you mean'') (cli_suggest_slash_commands name) of
     None \<Rightarrow> [] | Some l \<Rightarrow> c_nl # l)"

definition format_unknown_direct_slash_command :: "rstring \<Rightarrow> rstring" where
  "format_unknown_direct_slash_command name = lit ''unknown slash command outside the REPL: /'' @ name @ suggestion_part name @
     [c_nl] @ lit ''Run `claw --help` for CLI usage, or start `claw` and use /help.''"

definition format_unknown_slash_command :: "rstring \<Rightarrow> rstring" where
  "format_unknown_slash_command name = lit ''Unknown slash command: /'' @ name @ suggestion_part name @
     [c_nl] @ lit ''  Help             /help lists available slash commands''"

section \<open>Modes and tools\<close>

definition output_format_parse :: "rstring \<Rightarrow> cli_error + cli_output_format" where
  "output_format_parse v =
     (if v = lit ''text'' then Inr Format_Text
      else if v = lit ''json'' then Inr Format_Json
      else Inl (Cli_Message (lit ''unsupported value for --output-format: '' @ v @ lit '' (expected text or json)'')))"

definition normalize_permission_mode :: "rstring \<Rightarrow> rstring option" where
  "normalize_permission_mode mode =
     (let m = trim mode
      in if m \<in> {lit ''read-only'', lit ''workspace-write'', lit ''danger-full-access''} then Some m else None)"

definition permission_mode_from_label :: "rstring \<Rightarrow> cli_error + permission_mode" where
  "permission_mode_from_label mode =
     (if mode = lit ''read-only'' then Inr Mode_ReadOnly
      else if mode = lit ''workspace-write'' then Inr Mode_WorkspaceWrite
      else if mode = lit ''danger-full-access'' then Inr Mode_DangerFullAccess
      else Inl Cli_Panic)"

fun permission_mode_from_resolved :: "resolved_permission_mode \<Rightarrow> permission_mode" where
  "permission_mode_from_resolved Resolved_ReadOnly = Mode_ReadOnly"
| "permission_mode_from_resolved Resolved_WorkspaceWrite = Mode_WorkspaceWrite"
| "permission_mode_from_resolved Resolved_DangerFullAccess = Mode_DangerFullAccess"

definition parse_permission_mode_arg :: "rstring \<Rightarrow> cli_error + permission_mode" where
  "parse_permission_mode_arg v = (case normalize_permission_mode v of
     None \<Rightarrow> Inl (Cli_Message (lit ''unsupported permission mode '' @ [39] @ v @ [39] @
       lit ''. Use read-only, workspace-write, or danger-full-access.''))
   | Some label \<Rightarrow> permission_mode_from_label label)"

definition config_permission_mode_for_current_dir :: "cli_env \<Rightarrow> permission_mode option" where
  "config_permission_mode_for_current_dir env = (case cli_cwd env of
     Inl _ \<Rightarrow> None
   | Inr cwd \<Rightarrow> (case cli_config env cwd of
       Inl _ \<Rightarrow> None
     | Inr c \<Rightarrow> map_option permission_mode_from_resolved (cfg_permission_mode (features c))))"

definition default_permission_mode :: "cli_env \<Rightarrow> cli_error + permission_mode" where
  "default_permission_mode env =
     (case Option.bind (cli_env_var env (lit ''RUSTY_CLAUDE_PERMISSION_MODE'')) normalize_permission_mode of
        Some label \<Rightarrow> permission_mode_from_label label
      | None \<Rightarrow> Inr (unwrap_or Mode_DangerFullAccess (config_permission_mode_for_current_dir env)))"

definition cli_allowed_tools :: "cli_env \<Rightarrow> rstring list \<Rightarrow> cli_error + rstring set option" where
  "cli_allowed_tools env values =
     (if values = [] then Inr None
      else map_sum Cli_Message id (rbind (cli_registry env) (\<lambda>g. normalize_allowed_tools g values)))"

section \<open>The options\<close>

record cli_options =
  cli_model :: rstring
  cli_format :: cli_output_format
  cli_mode :: "permission_mode option"
  wants_help :: bool
  wants_version :: bool
  cli_tools :: "rstring list"
  cli_rest :: "rstring list"

definition no_options :: cli_options where
  "no_options = \<lparr>cli_model = default_model, cli_format = Format_Text, cli_mode = None, wants_help = False,
     wants_version = False, cli_tools = [], cli_rest = []\<rparr>"

definition mode_or_default :: "cli_env \<Rightarrow> permission_mode option \<Rightarrow> cli_error + permission_mode" where
  "mode_or_default env override = (case override of Some m \<Rightarrow> Inr m | None \<Rightarrow> default_permission_mode env)"

text \<open>\<^verbatim>\<open>-p\<close>: everything behind it is the prompt.\<close>

definition print_prompt :: "cli_env \<Rightarrow> cli_options \<Rightarrow> rstring list \<Rightarrow> cli_error + cli_action" where
  "print_prompt env st ws =
     (let prompt = join [c_space] ws
      in if trim prompt = [] then Inl (Cli_Message (lit ''-p requires a prompt string''))
         else rbind (cli_allowed_tools env (cli_tools st)) (\<lambda>tools.
              rbind (mode_or_default env (cli_mode st)) (\<lambda>mode.
              Inr (Action_Prompt prompt (resolve_model_alias (cli_model st)) (cli_format st) tools mode))))"

definition missing_value :: "string \<Rightarrow> cli_error + 'a" where
  "missing_value flag = Inl (Cli_Message (lit ''missing value for '' @ lit flag))"

text \<open>The loop ends with the options, or early with an action.\<close>

fun parse_options :: "cli_env \<Rightarrow> rstring list \<Rightarrow> cli_options \<Rightarrow> cli_error + cli_options + cli_action" where
  "parse_options env [] st = Inr (Inl st)"
| "parse_options env (a # as) st =
     (if a \<in> {lit ''--help'', lit ''-h''} \<and> cli_rest st = [] then parse_options env as (st\<lparr>wants_help := True\<rparr>)
      else if a \<in> {lit ''--version'', lit ''-V''} then parse_options env as (st\<lparr>wants_version := True\<rparr>)
      else if a = lit ''--model'' then
        (case as of [] \<Rightarrow> missing_value ''--model''
         | v # as \<Rightarrow> parse_options env as (st\<lparr>cli_model := resolve_model_alias v\<rparr>))
      else if starts_with a (lit ''--model='') then
        parse_options env as (st\<lparr>cli_model := resolve_model_alias (drop 8 a)\<rparr>)
      else if a = lit ''--output-format'' then
        (case as of [] \<Rightarrow> missing_value ''--output-format''
         | v # as \<Rightarrow> rbind (output_format_parse v) (\<lambda>f. parse_options env as (st\<lparr>cli_format := f\<rparr>)))
      else if a = lit ''--permission-mode'' then
        (case as of [] \<Rightarrow> missing_value ''--permission-mode''
         | v # as \<Rightarrow> rbind (parse_permission_mode_arg v) (\<lambda>m. parse_options env as (st\<lparr>cli_mode := Some m\<rparr>)))
      else if starts_with a (lit ''--output-format='') then
        rbind (output_format_parse (drop 16 a)) (\<lambda>f. parse_options env as (st\<lparr>cli_format := f\<rparr>))
      else if starts_with a (lit ''--permission-mode='') then
        rbind (parse_permission_mode_arg (drop 18 a)) (\<lambda>m. parse_options env as (st\<lparr>cli_mode := Some m\<rparr>))
      else if a = lit ''--dangerously-skip-permissions'' then
        parse_options env as (st\<lparr>cli_mode := Some Mode_DangerFullAccess\<rparr>)
      else if a = lit ''-p'' then map_sum id Inr (print_prompt env st as)
      else if a = lit ''--print'' then parse_options env as (st\<lparr>cli_format := Format_Text\<rparr>)
      else if a = lit ''--resume'' \<and> cli_rest st = [] then
        parse_options env as (st\<lparr>cli_rest := [lit ''--resume'']\<rparr>)
      else if cli_rest st = [] \<and> starts_with a (lit ''--resume='') then
        parse_options env as (st\<lparr>cli_rest := [lit ''--resume'', drop 9 a]\<rparr>)
      else if a \<in> {lit ''--allowedTools'', lit ''--allowed-tools''} then
        (case as of [] \<Rightarrow> missing_value ''--allowedTools''
         | v # as \<Rightarrow> parse_options env as (st\<lparr>cli_tools := cli_tools st @ [v]\<rparr>))
      else if starts_with a (lit ''--allowedTools='') then
        parse_options env as (st\<lparr>cli_tools := cli_tools st @ [drop 15 a]\<rparr>)
      else if starts_with a (lit ''--allowed-tools='') then
        parse_options env as (st\<lparr>cli_tools := cli_tools st @ [drop 16 a]\<rparr>)
      else if cli_rest st = [] \<and> starts_with a [c_minus] then Inl (Cli_Message (format_unknown_option a))
      else parse_options env as (st\<lparr>cli_rest := cli_rest st @ [a]\<rparr>))"

declare parse_options.simps [simp del]

section \<open>The subcommands\<close>

definition bare_slash_command_guidance :: "rstring \<Rightarrow> rstring option" where
  "bare_slash_command_guidance name =
     (if name \<in> set (map lit [''dump-manifests'', ''bootstrap-plan'', ''agents'', ''mcp'', ''skills'', ''system-prompt'',
          ''login'', ''logout'', ''init'', ''prompt'']) then None
      else map_option (\<lambda>spec.
        if resume_supported spec then
          lit ''`claw '' @ name @ lit ''` is a slash command. Use `claw --resume SESSION.jsonl /'' @ name @
          lit ''` or start `claw` and run `/'' @ name @ lit ''`.''
        else
          lit ''`claw '' @ name @ lit ''` is a slash command. Start `claw` and run `/'' @ name @ lit ''` inside the REPL.'')
        (find (\<lambda>s. spec_name s = name) slash_command_specs))"

definition parse_single_word_command_alias :: "cli_env \<Rightarrow> rstring list \<Rightarrow> rstring \<Rightarrow> permission_mode option \<Rightarrow>
    (cli_error + cli_action) option" where
  "parse_single_word_command_alias env rest model override = (case rest of
     [w] \<Rightarrow>
       (if w = lit ''help'' then Some (Inr Action_Help)
        else if w = lit ''version'' then Some (Inr Action_Version)
        else if w = lit ''status'' then Some (rbind (mode_or_default env override) (\<lambda>m. Inr (Action_Status model m)))
        else if w = lit ''sandbox'' then Some (Inr Action_Sandbox)
        else map_option (\<lambda>g. Inl (Cli_Message g)) (bare_slash_command_guidance w))
   | _ \<Rightarrow> None)"

definition join_optional_args :: "rstring list \<Rightarrow> rstring option" where
  "join_optional_args args = (let t = trim (join [c_space] args) in if t = [] then None else Some t)"

definition mcp_args :: "rstring option \<Rightarrow> rstring option \<Rightarrow> rstring option" where
  "mcp_args action target = (case (action, target) of
     (None, None) \<Rightarrow> None
   | (Some a, None) \<Rightarrow> Some a
   | (Some a, Some t) \<Rightarrow> Some (a @ [c_space] @ t)
   | (None, Some t) \<Rightarrow> Some t)"

definition parse_direct_slash_cli_action :: "rstring list \<Rightarrow> cli_error + cli_action" where
  "parse_direct_slash_cli_action rest = (case validate_slash_command_input (join [c_space] rest) of
     Inl e \<Rightarrow> Inl (Cli_Message e)
   | Inr None \<Rightarrow> Inl (Cli_Message (lit ''unknown subcommand: '' @ hd rest))
   | Inr (Some c) \<Rightarrow> (case c of
       Cmd_Help \<Rightarrow> Inr Action_Help
     | Cmd_Agents args \<Rightarrow> Inr (Action_Agents args)
     | Cmd_Mcp action target \<Rightarrow> Inr (Action_Mcp (mcp_args action target))
     | Cmd_Skills args \<Rightarrow> Inr (Action_Skills args)
     | Cmd_Unknown name \<Rightarrow> Inl (Cli_Message (format_unknown_direct_slash_command name))
     | _ \<Rightarrow> Inl (Cli_Message (lit ''slash command '' @ hd rest @
         lit '' is interactive-only. Start `claw` and run it there, or use `claw --resume SESSION.jsonl '' @ hd rest @
         lit ''` / `claw --resume '' @ latest_session @ lit '' '' @ hd rest @
         lit ''` when the command is marked [resume] in /help.''))))"

fun system_prompt_options :: "rstring list \<Rightarrow> rstring \<Rightarrow> rstring \<Rightarrow> cli_error + cli_action" where
  "system_prompt_options [] cwd date = Inr (Action_PrintSystemPrompt cwd date)"
| "system_prompt_options (a # as) cwd date =
     (if a = lit ''--cwd'' then
        (case as of [] \<Rightarrow> missing_value ''--cwd'' | v # as \<Rightarrow> system_prompt_options as v date)
      else if a = lit ''--date'' then
        (case as of [] \<Rightarrow> missing_value ''--date'' | v # as \<Rightarrow> system_prompt_options as cwd v)
      else Inl (Cli_Message (lit ''unknown system-prompt option: '' @ a)))"

definition parse_system_prompt_args :: "cli_env \<Rightarrow> rstring list \<Rightarrow> cli_error + cli_action" where
  "parse_system_prompt_args env args =
     rbind (map_sum Cli_Message id (cli_cwd env)) (\<lambda>cwd. system_prompt_options args cwd default_date)"

definition looks_like_slash_command_token :: "rstring \<Rightarrow> bool" where
  "looks_like_slash_command_token token = (case strip_prefix (trim_start token) [c_slash] of
     None \<Rightarrow> False
   | Some v \<Rightarrow> (case split_whitespace v of
       [] \<Rightarrow> False
     | w # _ \<Rightarrow> trim w \<noteq> [] \<and>
         list_ex (\<lambda>s. spec_name s = trim w \<or> trim w \<in> set (spec_aliases s)) slash_command_specs))"

definition resume_command_can_absorb_token :: "rstring \<Rightarrow> rstring \<Rightarrow> bool" where
  "resume_command_can_absorb_token current token \<longleftrightarrow>
     validate_slash_command_input current = Inr (Some (Cmd_Export None)) \<and> \<not> looks_like_slash_command_token token"

fun resume_commands :: "rstring list \<Rightarrow> rstring \<Rightarrow> rstring list \<Rightarrow> cli_error + rstring list" where
  "resume_commands [] current commands = Inr (if current = [] then commands else commands @ [current])"
| "resume_commands (t # ts) current commands =
     (if starts_with (trim_start t) [c_slash] then
        (if resume_command_can_absorb_token current t then resume_commands ts (current @ [c_space] @ t) commands
         else resume_commands ts t (if current = [] then commands else commands @ [current]))
      else if current = [] then Inl (Cli_Message (lit ''--resume trailing arguments must be slash commands''))
      else resume_commands ts (current @ [c_space] @ t) commands)"

definition parse_resume_args :: "rstring list \<Rightarrow> cli_error + cli_action" where
  "parse_resume_args args =
     (let (path, tokens) = (case args of
            [] \<Rightarrow> (latest_session, [])
          | a # as \<Rightarrow> if looks_like_slash_command_token a then (latest_session, args) else (a, as))
      in map_sum id (Action_ResumeSession path) (resume_commands tokens [] []))"

section \<open>The whole line\<close>

definition subcommand_action :: "cli_env \<Rightarrow> cli_options \<Rightarrow> rstring set option \<Rightarrow> permission_mode \<Rightarrow> cli_error + cli_action" where
  "subcommand_action env st tools mode =
     (let w = hd (cli_rest st); args = tl (cli_rest st)
      in if w = lit ''dump-manifests'' then Inr Action_DumpManifests
         else if w = lit ''bootstrap-plan'' then Inr Action_BootstrapPlan
         else if w = lit ''agents'' then Inr (Action_Agents (join_optional_args args))
         else if w = lit ''mcp'' then Inr (Action_Mcp (join_optional_args args))
         else if w = lit ''skills'' then Inr (Action_Skills (join_optional_args args))
         else if w = lit ''system-prompt'' then parse_system_prompt_args env args
         else if w = lit ''login'' then Inr Action_Login
         else if w = lit ''logout'' then Inr Action_Logout
         else if w = lit ''init'' then Inr Action_Init
         else if w = lit ''prompt'' then
           (let prompt = join [c_space] args
            in if trim prompt = [] then Inl (Cli_Message (lit ''prompt subcommand requires a prompt string''))
               else Inr (Action_Prompt prompt (cli_model st) (cli_format st) tools mode))
         else if starts_with w [c_slash] then parse_direct_slash_cli_action (cli_rest st)
         else Inr (Action_Prompt (join [c_space] (cli_rest st)) (cli_model st) (cli_format st) tools mode))"

definition options_action :: "cli_env \<Rightarrow> cli_options \<Rightarrow> cli_error + cli_action" where
  "options_action env st =
     (if wants_help st then Inr Action_Help
      else if wants_version st then Inr Action_Version
      else
        rbind (cli_allowed_tools env (cli_tools st)) (\<lambda>tools.
        if cli_rest st = [] then
          rbind (mode_or_default env (cli_mode st)) (\<lambda>mode. Inr (Action_Repl (cli_model st) tools mode))
        else if hd (cli_rest st) = lit ''--resume'' then parse_resume_args (tl (cli_rest st))
        else (case parse_single_word_command_alias env (cli_rest st) (cli_model st) (cli_mode st) of
            Some action \<Rightarrow> action
          | None \<Rightarrow> rbind (mode_or_default env (cli_mode st)) (subcommand_action env st tools))))"

definition parse_args :: "cli_env \<Rightarrow> rstring list \<Rightarrow> cli_error + cli_action" where
  "parse_args env args = rbind (parse_options env args no_options) (\<lambda>r. case r of
     Inl st \<Rightarrow> options_action env st | Inr action \<Rightarrow> Inr action)"

section \<open>Suggestions\<close>

lemma cli_levenshtein_edit: "cli_levenshtein left right = edit left right"
  using distance_rows_edit [of left right] by (simp add: cli_levenshtein_def)

text \<open>
  What is suggested for an unknown word are at most three of the candidates, each so close that the least number
  of edits of the two names in lower case, plus one when neither begins with the other, is at most four.
\<close>

theorem suggestions_are_close:
  "length (ranked_suggestions inp candidates) \<le> 3 \<and> set (ranked_suggestions inp candidates) \<subseteq>
     {c. c \<in> set candidates \<and>
        edit (to_ascii_lowercase (trim_slashes inp)) (to_ascii_lowercase (trim_slashes c)) +
        (if starts_with (to_ascii_lowercase (trim_slashes c)) (to_ascii_lowercase (trim_slashes inp)) \<or>
            starts_with (to_ascii_lowercase (trim_slashes inp)) (to_ascii_lowercase (trim_slashes c)) then 0 else 1) \<le> 4}"
  by (auto simp: ranked_suggestions_def suggestion_score_def cli_levenshtein_edit Let_def dest!: in_set_takeD)

section \<open>No panic\<close>

text \<open>A result that is no panic; the rules follow the structure of the code.\<close>

definition calm :: "cli_error + 'a \<Rightarrow> bool" where
  "calm r \<longleftrightarrow> r \<noteq> Inl Cli_Panic"

named_theorems calm_intros \<open>results that are no panic\<close>

lemma calm_simps [calm_intros]: "calm (Inr x)" "calm (Inl (Cli_Message m))"
  by (simp_all add: calm_def)

lemma calm_if [calm_intros]: "calm r \<Longrightarrow> calm r' \<Longrightarrow> calm (if b then r else r')"
  by simp

lemma calm_list [calm_intros]: "calm r \<Longrightarrow> (\<And>v vs. as = v # vs \<Longrightarrow> calm (f v vs)) \<Longrightarrow> calm (case as of [] \<Rightarrow> r | v # vs \<Rightarrow> f v vs)"
  by (cases as) auto

lemma calm_option [calm_intros]: "calm r \<Longrightarrow> (\<And>v. x = Some v \<Longrightarrow> calm (f v)) \<Longrightarrow> calm (case x of None \<Rightarrow> r | Some v \<Rightarrow> f v)"
  by (cases x) auto

lemma calm_rbind [calm_intros]: "calm r \<Longrightarrow> (\<And>x. calm (f x)) \<Longrightarrow> calm (rbind r f)"
  by (cases r) (auto simp: calm_def)

lemma calm_map [calm_intros]: "calm r \<Longrightarrow> calm (map_sum id f r)" "calm (map_sum Cli_Message g r')"
  by (cases r; auto simp: calm_def) (cases r'; auto simp: calm_def)

lemma calm_missing [calm_intros]: "calm (missing_value flag)"
  by (simp add: missing_value_def calm_simps)

lemma calm_label: "normalize_permission_mode v = Some label \<Longrightarrow> calm (permission_mode_from_label label)"
  by (auto simp: normalize_permission_mode_def permission_mode_from_label_def Let_def calm_simps split: if_splits)

lemma calm_mode [calm_intros]: "calm (parse_permission_mode_arg v)" "calm (mode_or_default env override)"
proof -
  show "calm (parse_permission_mode_arg v)"
    unfolding parse_permission_mode_arg_def by (intro calm_intros calm_label)
  show "calm (mode_or_default env override)"
    unfolding mode_or_default_def default_permission_mode_def
    by (intro calm_intros) (auto simp: bind_eq_Some_conv calm_label)
qed

lemma calm_tools [calm_intros]: "calm (cli_allowed_tools env values)"
  unfolding cli_allowed_tools_def by (intro calm_intros)

lemma calm_format [calm_intros]: "calm (output_format_parse v)"
  unfolding output_format_parse_def by (intro calm_intros)

lemma calm_print_prompt [calm_intros]: "calm (print_prompt env st ws)"
  unfolding print_prompt_def Let_def by (intro calm_intros)

lemma calm_options [calm_intros]: "calm (parse_options env as st)"
proof (induction as arbitrary: st rule: length_induct)
  case (1 as)
  then have ih: "length bs < length as \<Longrightarrow> calm (parse_options env bs st')" for bs st' by blast
  show ?case
  proof (cases as)
    case Nil
    then show ?thesis by (simp add: parse_options.simps calm_simps)
  next
    case (Cons a rest)
    show ?thesis
      unfolding Cons parse_options.simps(2) by (intro calm_intros ih) (simp_all add: Cons)
  qed
qed

lemma calm_system_prompt: "calm (system_prompt_options args cwd date)"
proof (induction args arbitrary: cwd date rule: length_induct)
  case (1 args)
  then have ih: "length bs < length args \<Longrightarrow> calm (system_prompt_options bs c d)" for bs c d by blast
  show ?case
    by (cases args) (simp add: calm_simps, simp only: system_prompt_options.simps, intro calm_intros ih, simp_all)
qed

lemma calm_resume: "calm (resume_commands ts current commands)"
  by (induction ts arbitrary: current commands) (auto simp: calm_simps)

lemma calm_slash [calm_intros]: "calm (parse_direct_slash_cli_action rest)"
  unfolding parse_direct_slash_cli_action_def by (auto simp: calm_def split: sum.split option.split slash_command.split)

lemma calm_subcommand [calm_intros]: "calm (subcommand_action env st tools mode)"
  unfolding subcommand_action_def Let_def parse_system_prompt_args_def by (intro calm_intros calm_system_prompt)

lemma calm_options_action: "calm (options_action env st)"
proof -
  have "calm (parse_resume_args args)" for args
    unfolding parse_resume_args_def case_prod_beta Let_def by (intro calm_intros calm_resume)
  moreover have "calm action" if "parse_single_word_command_alias env rest model override = Some action" for rest model override action
    using that calm_mode(2) [of env override]
    by (auto simp: parse_single_word_command_alias_def calm_simps calm_rbind split: list.splits if_splits)
  ultimately show ?thesis unfolding options_action_def by (intro calm_intros)
qed

text \<open>
  Whatever the command line, the environment and the settings: reading it ends with an action or with a message,
  never with the panic of an unknown permission mode.
\<close>

theorem parse_args_no_panic:
  "parse_args env args \<noteq> Inl Cli_Panic"
proof -
  have "calm (parse_args env args)"
    unfolding parse_args_def by (intro calm_rbind calm_options) (auto simp: calm_options_action calm_simps split: sum.split)
  then show ?thesis by (simp add: calm_def)
qed

section \<open>Words and options\<close>

text \<open>A plain word does not begin with a hyphen.\<close>

definition plain_word :: "rstring \<Rightarrow> bool" where
  "plain_word w \<longleftrightarrow> \<not> starts_with w [c_minus]"

lemma plain_not_flag:
  assumes "plain_word w"
  shows "w \<noteq> lit (CHR ''-'' # s)" and "\<not> starts_with w (lit (CHR ''-'' # s))"
  using assms by (auto simp: plain_word_def starts_with_def lit_def prefix_def)

lemma parse_options_plain:
  "plain_word w \<Longrightarrow> parse_options env (w # as) st = parse_options env as (st\<lparr>cli_rest := cli_rest st @ [w]\<rparr>)"
  by (subst parse_options.simps(2)) (simp add: plain_not_flag plain_word_def)

lemma parse_options_words:
  "list_all plain_word ws \<Longrightarrow> parse_options env (ws @ as) st = parse_options env as (st\<lparr>cli_rest := cli_rest st @ ws\<rparr>)"
proof (induction ws arbitrary: st)
  case (Cons w ws)
  then show ?case by (simp add: parse_options_plain)
qed simp

definition subcommand_names :: "rstring list" where
  "subcommand_names = map lit [''dump-manifests'', ''bootstrap-plan'', ''agents'', ''mcp'', ''skills'', ''system-prompt'',
     ''login'', ''logout'', ''init'', ''prompt'']"

text \<open>
  Words that are no options, subcommands or slash commands are a prompt: they are joined by one space and given
  to the default model, in the mode the environment and the settings say.
\<close>

theorem words_are_a_prompt:
  assumes "list_all plain_word (w # v # ws)" and "w \<notin> set subcommand_names" and "\<not> starts_with w [c_slash]"
    and "default_permission_mode env = Inr mode"
  shows "parse_args env (w # v # ws) =
           Inr (Action_Prompt (join [c_space] (w # v # ws)) (lit ''claude-opus-5'') Format_Text None mode)"
proof -
  have "parse_options env (w # v # ws) no_options = Inr (Inl (no_options\<lparr>cli_rest := w # v # ws\<rparr>))"
    using parse_options_words [OF assms(1), of env "[]" no_options] by (simp add: parse_options.simps no_options_def)
  moreover have "w \<noteq> lit ''--resume''" using assms(1) plain_not_flag(1) [of w] by simp
  ultimately show ?thesis
    using assms(2-4)
    by (simp add: parse_args_def options_action_def no_options_def cli_allowed_tools_def parse_single_word_command_alias_def
        mode_or_default_def subcommand_action_def subcommand_names_def default_model_def Let_def del: join.simps)
qed

text \<open>
  An option is one wherever it stands: a model named in the middle of a prompt is not part of the prompt but the
  model that answers it.
\<close>

theorem model_option_anywhere:
  assumes "list_all plain_word ws"
  shows "parse_args env (ws @ [lit ''--model'', v] @ as) = parse_args env ([lit ''--model'', v] @ ws @ as)"
proof -
  have m: "parse_options env (lit ''--model'' # v # bs) st = parse_options env bs (st\<lparr>cli_model := resolve_model_alias v\<rparr>)" for bs st
    by (subst parse_options.simps(2)) (simp add: starts_with_def)
  show ?thesis
    using parse_options_words [OF assms] by (simp add: parse_args_def m no_options_def)
qed

text \<open>
  Words before \<^verbatim>\<open>-p\<close> are dropped: the line means what it means without them.
\<close>

theorem words_before_p_are_dropped:
  assumes "list_all plain_word ws"
  shows "parse_args env (ws @ lit ''-p'' # as) = parse_args env (lit ''-p'' # as)"
proof -
  have p: "parse_options env (lit ''-p'' # as) st = map_sum id Inr (print_prompt env st as)" for st
    by (subst parse_options.simps(2)) (simp add: starts_with_def lit_def prefix_def)
  have "print_prompt env (st\<lparr>cli_rest := rest\<rparr>) as = print_prompt env st as" for st rest
    by (simp add: print_prompt_def Let_def)
  then show ?thesis
    using parse_options_words [OF assms, of env "lit ''-p'' # as" no_options] by (simp add: parse_args_def p)
qed

section \<open>The commands of a resumed session\<close>

lemma slash_token_start: "looks_like_slash_command_token t \<Longrightarrow> starts_with (trim_start t) [c_slash] \<and> t \<noteq> []"
  by (auto simp: looks_like_slash_command_token_def strip_prefix_def starts_with_def trim_start_def split: if_splits option.splits)

definition argument_word :: "rstring \<Rightarrow> bool" where
  "argument_word w \<longleftrightarrow> \<not> starts_with (trim_start w) [c_slash]"

lemma resume_arguments:
  "list_all argument_word ws \<Longrightarrow> current \<noteq> [] \<Longrightarrow>
     resume_commands (ws @ ts) current commands = resume_commands ts (join [c_space] (current # ws)) commands"
proof (induction ws arbitrary: current)
  case (Cons w ws)
  have "join [c_space] (current # w # ws) = join [c_space] ((current @ [c_space] @ w) # ws)"
    by (cases ws) simp_all
  then show ?case using Cons.IH [of "current @ [c_space] @ w"] Cons.prems by (simp add: argument_word_def)
qed simp

lemma resume_commands_words:
  assumes "list_all (\<lambda>c. c \<noteq> [] \<and> looks_like_slash_command_token (hd c) \<and> list_all argument_word (tl c)) cs"
  shows "resume_commands (concat cs) current commands =
           Inr ((if current = [] then commands else commands @ [current]) @ map (join [c_space]) cs)"
  using assms
proof (induction cs arbitrary: current commands)
  case (Cons c cs)
  obtain t ws where c: "c = t # ws" using Cons.prems by (cases c) auto
  have t: "looks_like_slash_command_token t" "list_all argument_word ws" using Cons.prems by (simp_all add: c)
  let ?done = "if current = [] then commands else commands @ [current]"
  have "resume_commands (concat (c # cs)) current commands = resume_commands (ws @ concat cs) t ?done"
    using slash_token_start [OF t(1)] t(1) by (simp add: c resume_command_can_absorb_token_def)
  also have "\<dots> = resume_commands (concat cs) (join [c_space] c) ?done"
    using resume_arguments [OF t(2)] slash_token_start [OF t(1)] by (simp add: c)
  also have "\<dots> = Inr (?done @ map (join [c_space]) (c # cs))"
    using Cons.IH [of "join [c_space] c" ?done] Cons.prems slash_token_start [OF t(1)]
    by (cases ws) (auto simp: c)
  finally show ?case .
qed simp

text \<open>
  The commands for a resumed session are read back from the words of the line: each begins with the name of a
  known command, its arguments follow, and an argument does not begin with a slash.
\<close>

theorem resume_commands_read_back:
  assumes "list_all (\<lambda>c. c \<noteq> [] \<and> looks_like_slash_command_token (hd c) \<and> list_all argument_word (tl c)) cs"
    and "\<not> looks_like_slash_command_token path"
  shows "parse_resume_args (path # concat cs) = Inr (Action_ResumeSession path (map (join [c_space]) cs))"
  using resume_commands_words [OF assms(1), of "[]" "[]"] assms(2) by (simp add: parse_resume_args_def)

section \<open>Examples\<close>

definition bare_env :: cli_env where
  "bare_env = \<lparr>cli_env_var = (\<lambda>_. None), cli_cwd = Inl [], cli_config = (\<lambda>_. Inr config_empty), cli_registry = Inr registry_builtin\<rparr>"

theorem words_are_a_prompt_witness:
  "parse_args bare_env [lit ''fix'', lit ''it''] =
     Inr (Action_Prompt (join [c_space] [lit ''fix'', lit ''it'']) (lit ''claude-opus-5'') Format_Text None Mode_DangerFullAccess)"
  by (rule words_are_a_prompt)
     (simp_all add: plain_word_def starts_with_def lit_def subcommand_names_def bare_env_def default_permission_mode_def
       config_permission_mode_for_current_dir_def)

theorem model_option_anywhere_witness:
  "parse_args bare_env ([lit ''explain''] @ [lit ''--model'', lit ''flag''] @ []) =
     parse_args bare_env ([lit ''--model'', lit ''flag''] @ [lit ''explain''] @ [])"
  by (rule model_option_anywhere) (simp add: plain_word_def starts_with_def lit_def)

theorem words_before_p_are_dropped_witness:
  "parse_args bare_env ([lit ''fix''] @ lit ''-p'' # [lit ''it'']) = parse_args bare_env (lit ''-p'' # [lit ''it''])"
  by (rule words_before_p_are_dropped) (simp add: plain_word_def starts_with_def lit_def)

theorem resume_commands_read_back_witness:
  "parse_resume_args (lit ''s'' # concat [[lit ''/help''], [lit ''/export'', lit ''out'']]) =
     Inr (Action_ResumeSession (lit ''s'') (map (join [c_space]) [[lit ''/help''], [lit ''/export'', lit ''out'']]))"
proof (rule resume_commands_read_back)
  have "spec ''help'' [] ''Show available slash commands'' None True \<in> set slash_command_specs"
    unfolding slash_command_specs_def specs_1_def by simp
  moreover have "spec ''export'' [] ''Export the current conversation to a file'' (Some ''[file]'') True \<in> set slash_command_specs"
    unfolding slash_command_specs_def specs_2_def by simp
  moreover have "spec_name (spec n aliases summ hint resume) = lit n" for n aliases summ hint resume by (simp add: spec_def)
  ultimately have "list_ex (\<lambda>s. spec_name s = lit ''help'' \<or> lit ''help'' \<in> set (spec_aliases s)) slash_command_specs"
      "list_ex (\<lambda>s. spec_name s = lit ''export'' \<or> lit ''export'' \<in> set (spec_aliases s)) slash_command_specs"
    unfolding list_ex_iff by blast+
  moreover have "strip_prefix (trim_start (lit ''/help'')) [c_slash] = Some (lit ''help'')" "split_whitespace (lit ''help'') = [lit ''help'']"
      "strip_prefix (trim_start (lit ''/export'')) [c_slash] = Some (lit ''export'')" "split_whitespace (lit ''export'') = [lit ''export'']"
      "trim (lit ''help'') = lit ''help''" "trim (lit ''export'') = lit ''export''" "lit ''help'' \<noteq> []" "lit ''export'' \<noteq> []"
    by (simp_all add: strip_prefix_def str_defs lit_def)
  ultimately have "looks_like_slash_command_token (lit ''/help'')" "looks_like_slash_command_token (lit ''/export'')"
    by (simp_all only: looks_like_slash_command_token_def option.case list.case simp_thms)
  then show "list_all (\<lambda>c. c \<noteq> [] \<and> looks_like_slash_command_token (hd c) \<and> list_all argument_word (tl c))
      [[lit ''/help''], [lit ''/export'', lit ''out'']]"
    by (simp add: argument_word_def str_defs lit_def)
  show "\<not> looks_like_slash_command_token (lit ''s'')"
    by (simp add: looks_like_slash_command_token_def strip_prefix_def str_defs lit_def)
qed

end
