(* ===== verification/Utf8.thy ===== *)
theory Utf8 imports Prelude begin

text \<open>
  UTF-8, as the code uses it of the standard library: the bytes of a string (\<^verbatim>\<open>as_bytes\<close>), and reading bytes
  back, strictly (\<^verbatim>\<open>String::from_utf8\<close>) or with replacement of each maximal invalid part
  (\<^verbatim>\<open>String::from_utf8_lossy\<close>).  A byte is a number below 256.
\<close>

section \<open>Encoding\<close>

type_synonym byte = nat

definition is_scalar :: "rchar \<Rightarrow> bool" where
  "is_scalar c \<longleftrightarrow> c < 0xD800 \<or> (0xE000 \<le> c \<and> c < 0x110000)"

definition utf8_bytes :: "rchar \<Rightarrow> byte list" where
  "utf8_bytes c =
     (if c < 0x80 then [c]
      else if c < 0x800 then [0xC0 + c div 64, 0x80 + c mod 64]
      else if c < 0x10000 then [0xE0 + c div 4096, 0x80 + c div 64 mod 64, 0x80 + c mod 64]
      else [0xF0 + c div 262144, 0x80 + c div 4096 mod 64, 0x80 + c div 64 mod 64, 0x80 + c mod 64])"

definition as_bytes :: "rstring \<Rightarrow> byte list" where
  "as_bytes s = concat (map utf8_bytes s)"

lemma as_bytes_simps [simp]: "as_bytes [] = []" "as_bytes (c # s) = utf8_bytes c @ as_bytes s" "as_bytes (s @ t) = as_bytes s @ as_bytes t"
  by (simp_all add: as_bytes_def)

lemma length_utf8_bytes: "length (utf8_bytes c) = utf8_len c"
  by (simp add: utf8_bytes_def utf8_len_def)

lemma length_as_bytes: "length (as_bytes s) = str_len s"
  by (induction s) (simp_all add: length_utf8_bytes str_len_def)

lemma utf8_bytes_less: "is_scalar c \<Longrightarrow> b \<in> set (utf8_bytes c) \<Longrightarrow> b < 256"
  by (auto simp: utf8_bytes_def is_scalar_def split: if_splits)

lemma as_bytes_less: "list_all is_scalar s \<Longrightarrow> b \<in> set (as_bytes s) \<Longrightarrow> b < 256"
  by (induction s) (auto dest: utf8_bytes_less)

lemma as_bytes_ascii: "\<forall>b \<in> set s. b < 128 \<Longrightarrow> as_bytes s = s"
  by (induction s) (simp_all add: utf8_bytes_def)

section \<open>Decoding\<close>

text \<open>The ranges of the continuation bytes that a first byte asks for, and its own bits.\<close>

abbreviation "cont_range \<equiv> (0x80 :: nat, 0xBF :: nat)"

definition utf8_lead :: "byte \<Rightarrow> ((nat \<times> nat) list \<times> nat) option" where
  "utf8_lead b =
     (if b < 0x80 then Some ([], b)
      else if 0xC2 \<le> b \<and> b \<le> 0xDF then Some ([cont_range], b - 0xC0)
      else if 0xE0 \<le> b \<and> b \<le> 0xEF then
        Some ([if b = 0xE0 then (0xA0, 0xBF) else if b = 0xED then (0x80, 0x9F) else cont_range, cont_range], b - 0xE0)
      else if 0xF0 \<le> b \<and> b \<le> 0xF4 then
        Some ([if b = 0xF0 then (0x90, 0xBF) else if b = 0xF4 then (0x80, 0x8F) else cont_range, cont_range, cont_range], b - 0xF0)
      else None)"

text \<open>
  The continuation bytes: the char when all are there; otherwise how many bytes the invalid part has (with
  the ones before, \<open>n\<close>), and whether the text ended within it.  The rest of the bytes comes with both.
\<close>

datatype utf8_item = Utf8_Char rchar | Utf8_Bad nat bool

fun take_conts :: "nat \<Rightarrow> (nat \<times> nat) list \<Rightarrow> nat \<Rightarrow> byte list \<Rightarrow> utf8_item \<times> byte list" where
  "take_conts n [] v bs = (Utf8_Char v, bs)"
| "take_conts n (r # rs) v [] = (Utf8_Bad n True, [])"
| "take_conts n (r # rs) v (b # bs) =
     (if fst r \<le> b \<and> b \<le> snd r then take_conts (n + 1) rs (v * 64 + (b - 0x80)) bs else (Utf8_Bad n False, b # bs))"

lemma take_conts_length: "length (snd (take_conts n rs v bs)) \<le> length bs"
  by (induction n rs v bs rule: take_conts.induct) auto

function utf8_items :: "byte list \<Rightarrow> utf8_item list" where
  "utf8_items [] = []"
| "utf8_items (b # bs) = (case utf8_lead b of
     None \<Rightarrow> Utf8_Bad 1 False # utf8_items bs
   | Some (rs, v) \<Rightarrow> fst (take_conts 1 rs v bs) # utf8_items (snd (take_conts 1 rs v bs)))"
  by pat_completeness auto
termination
  by (relation "measure length") (auto intro: le_less_trans [OF take_conts_length])

fun item_char :: "utf8_item \<Rightarrow> rchar" where
  "item_char (Utf8_Char c) = c"
| "item_char (Utf8_Bad _ _) = 0xFFFD"

definition from_utf8_lossy :: "byte list \<Rightarrow> rstring" where
  "from_utf8_lossy bs = map item_char (utf8_items bs)"

text \<open>\<^verbatim>\<open>String::from_utf8\<close>, with the text of its error.\<close>

definition show_utf8_error :: "nat \<Rightarrow> utf8_item \<Rightarrow> rstring" where
  "show_utf8_error valid_up_to item = (case item of
     Utf8_Bad n False \<Rightarrow> lit ''invalid utf-8 sequence of '' @ show_nat n @ lit '' bytes from index '' @ show_nat valid_up_to
   | _ \<Rightarrow> lit ''incomplete utf-8 byte sequence from index '' @ show_nat valid_up_to)"

definition is_char_item :: "utf8_item \<Rightarrow> bool" where
  "is_char_item i \<longleftrightarrow> (case i of Utf8_Char _ \<Rightarrow> True | _ \<Rightarrow> False)"

definition from_utf8 :: "byte list \<Rightarrow> rstring + rstring" where
  "from_utf8 bs = (let items = utf8_items bs in case dropWhile is_char_item items of
     [] \<Rightarrow> Inr (map item_char items)
   | bad # _ \<Rightarrow> Inl (show_utf8_error (str_len (map item_char (takeWhile is_char_item items))) bad))"

section \<open>Reading back\<close>

lemma utf8_items_char:
  assumes "is_scalar c"
  shows "utf8_items (utf8_bytes c @ bs) = Utf8_Char c # utf8_items bs"
proof -
  consider "c < 0x80" | "0x80 \<le> c" "c < 0x800" | "0x800 \<le> c" "c < 0x10000" | "0x10000 \<le> c" "c < 0x110000"
    using assms by (fastforce simp: is_scalar_def)
  then show ?thesis
  proof cases
    case 1
    then show ?thesis by (simp add: utf8_bytes_def utf8_lead_def)
  next
    case 2
    then have "2 \<le> c div 64" "c div 64 < 32" by auto
    with 2 show ?thesis by (simp add: utf8_bytes_def utf8_lead_def)
  next
    case 3
    define x y z where "x = c div 4096" and "y = c div 64 mod 64" and "z = c mod 64"
    have "c div 4096 = c div 64 div 64" by (simp add: div_mult2_eq [symmetric])
    then have "c div 64 = x * 64 + y" unfolding x_def y_def by (metis div_mult_mod_eq)
    then have "c = (x * 64 + y) * 64 + z" unfolding z_def by (metis div_mult_mod_eq)
    then have c: "c = x * 4096 + y * 64 + z" by simp
    have less: "y < 64" "z < 64" by (simp_all add: y_def z_def)
    have bytes: "utf8_bytes c = [0xE0 + x, 0x80 + y, 0x80 + z]"
      using 3 by (simp add: utf8_bytes_def x_def y_def z_def)
    have "x < 16" using 3 less c by linarith
    moreover have "x = 0 \<Longrightarrow> 32 \<le> y" using 3 less c by linarith
    moreover have "x = 13 \<Longrightarrow> y < 32" using 3 less assms c unfolding is_scalar_def by linarith
    ultimately have "x < 16" "x = 0 \<Longrightarrow> 32 \<le> y" "x = 13 \<Longrightarrow> y < 32" by blast+
    then show ?thesis unfolding bytes using less c by (auto simp: utf8_lead_def)
  next
    case 4
    define w x y z where "w = c div 262144" and "x = c div 4096 mod 64" and "y = c div 64 mod 64" and "z = c mod 64"
    have "c div 4096 = c div 64 div 64" "c div 262144 = c div 4096 div 64" by (simp_all add: div_mult2_eq [symmetric])
    then have "c div 4096 = w * 64 + x" unfolding w_def x_def by (metis div_mult_mod_eq)
    with \<open>c div 4096 = c div 64 div 64\<close> have "c div 64 = (w * 64 + x) * 64 + y" unfolding y_def by (metis div_mult_mod_eq)
    then have "c = ((w * 64 + x) * 64 + y) * 64 + z" unfolding z_def by (metis div_mult_mod_eq)
    then have c: "c = w * 262144 + x * 4096 + y * 64 + z" by simp
    have less: "x < 64" "y < 64" "z < 64" by (simp_all add: x_def y_def z_def)
    have bytes: "utf8_bytes c = [0xF0 + w, 0x80 + x, 0x80 + y, 0x80 + z]"
      using 4 by (simp add: utf8_bytes_def w_def x_def y_def z_def)
    have "w < 5" using 4 less c by linarith
    moreover have "w = 0 \<Longrightarrow> 16 \<le> x" using 4 less c by linarith
    moreover have "w = 4 \<Longrightarrow> x < 16" using 4 less c by linarith
    ultimately have "w < 5" "w = 0 \<Longrightarrow> 16 \<le> x" "w = 4 \<Longrightarrow> x < 16" by blast+
    then show ?thesis unfolding bytes using less c by (auto simp: utf8_lead_def)
  qed
qed

lemma utf8_items_as_bytes: "list_all is_scalar s \<Longrightarrow> utf8_items (as_bytes s @ bs) = map Utf8_Char s @ utf8_items bs"
  by (induction s) (simp_all add: utf8_items_char)

lemma from_utf8_as_bytes: "list_all is_scalar s \<Longrightarrow> from_utf8 (as_bytes s) = Inr s"
  using utf8_items_as_bytes [of s "[]"]
  by (simp add: from_utf8_def Let_def dropWhile_eq_Nil_conv [THEN iffD2] is_char_item_def comp_def)

lemma from_utf8_lossy_as_bytes: "list_all is_scalar s \<Longrightarrow> from_utf8_lossy (as_bytes s) = s"
  using utf8_items_as_bytes [of s "[]"] by (simp add: from_utf8_lossy_def comp_def)

end
