(* ===== verification/FileOps.thy ===== *)
theory FileOps imports Paths Strings Utf8 "HOL-Library.Option_ord" begin

text \<open>
  The tools on files (\<^verbatim>\<open>crates/runtime/src/file_ops.rs\<close>): windows of a text file, writing, replacing a string,
  listing by a glob pattern and searching by a regular expression, and the variants that stay inside a workspace.

  Files are a map from paths to bytes.  Where the system gets to from a path (through links and double dots, once the
  directories on the way exist), what a failed write leaves of a file, the current directory, the resolution of paths, failures of the system,
  directory listings, glob patterns and regular expressions are parameters.  A \<^verbatim>\<open>usize\<close> wraps where the code adds without
  care, as it does in a release build.
\<close>

section \<open>Data\<close>

datatype file_error_kind =
    File_InvalidData | File_InvalidInput | File_NotFound | File_PermissionDenied | File_OtherKind rstring

datatype file_error = File_Error (file_error_kind: file_error_kind) (file_error_text: rstring)

type_synonym files = "rstring \<Rightarrow> byte list option"

datatype file_op = Op_Metadata | Op_Open | Op_ReadText | Op_CreateDirs | Op_WriteText

record file_system =
  current_dir :: "file_error + rstring"
  canonicalize :: "files \<Rightarrow> rstring \<Rightarrow> file_error + rstring"
  file_fault :: "files \<Rightarrow> file_op \<Rightarrow> rstring \<Rightarrow> file_error option"
  real_path :: "rstring \<Rightarrow> rstring"
  interrupted_write :: "files \<Rightarrow> rstring \<Rightarrow> byte list option"

record text_file_payload =
  payload_path :: rstring
  payload_content :: rstring
  num_lines :: nat
  start_line :: nat
  total_lines :: nat

record patch_hunk =
  old_start :: nat
  old_lines :: nat
  new_start :: nat
  new_lines :: nat
  hunk_lines :: "rstring list"

record write_file_output =
  write_kind :: rstring
  write_path :: rstring
  write_content :: rstring
  write_patch :: "patch_hunk list"
  write_original :: "rstring option"

record edit_file_output =
  edit_path :: rstring
  edit_old :: rstring
  edit_new :: rstring
  edit_original :: rstring
  edit_patch :: "patch_hunk list"
  edit_replace_all :: bool

definition max_read_size :: nat where
  "max_read_size = 10 * 1024 * 1024"

definition max_write_size :: nat where
  "max_write_size = 10 * 1024 * 1024"

section \<open>Paths\<close>

definition absolute_candidate :: "file_system \<Rightarrow> rstring \<Rightarrow> file_error + rstring" where
  "absolute_candidate sys path =
     (if starts_with path [c_slash] then Inr path else map_sum id (\<lambda>cwd. path_join cwd path) (current_dir sys))"

definition normalize_path :: "file_system \<Rightarrow> files \<Rightarrow> rstring \<Rightarrow> file_error + rstring" where
  "normalize_path sys fs path = rbind (absolute_candidate sys path) (canonicalize sys fs)"

definition normalize_path_allow_missing :: "file_system \<Rightarrow> files \<Rightarrow> rstring \<Rightarrow> file_error + rstring" where
  "normalize_path_allow_missing sys fs path = rbind (absolute_candidate sys path) (\<lambda>candidate.
     case canonicalize sys fs candidate of
       Inr canonical \<Rightarrow> Inr canonical
     | Inl _ \<Rightarrow> (case (path_parent candidate, file_name candidate) of
         (Some parent, Some name) \<Rightarrow>
           Inr (path_join (case canonicalize sys fs parent of Inr p \<Rightarrow> p | Inl _ \<Rightarrow> parent) name)
       | _ \<Rightarrow> Inr candidate))"

definition validate_workspace_boundary :: "rstring \<Rightarrow> rstring \<Rightarrow> file_error + unit" where
  "validate_workspace_boundary resolved root =
     (if path_starts_with resolved root then Inr ()
      else Inl (File_Error File_PermissionDenied
        (lit ''path '' @ resolved @ lit '' escapes workspace boundary '' @ root)))"

definition canonical_root :: "file_system \<Rightarrow> files \<Rightarrow> rstring \<Rightarrow> rstring" where
  "canonical_root sys fs root = (case canonicalize sys fs root of Inr r \<Rightarrow> r | Inl _ \<Rightarrow> root)"

section \<open>Reading\<close>

text \<open>What an operation finds at a path: a failure of the system, or the bytes.\<close>

definition access :: "file_system \<Rightarrow> files \<Rightarrow> file_op \<Rightarrow> rstring \<Rightarrow> file_error + byte list" where
  "access sys fs op p = (case file_fault sys fs op p of
     Some e \<Rightarrow> Inl e
   | None \<Rightarrow> ok_or (File_Error File_NotFound (lit ''No such file or directory (os error 2)'')) (fs (real_path sys p)))"

definition read_to_string :: "file_system \<Rightarrow> files \<Rightarrow> rstring \<Rightarrow> file_error + rstring" where
  "read_to_string sys fs p = rbind (access sys fs Op_ReadText p) (\<lambda>bytes.
     map_sum (\<lambda>_. File_Error File_InvalidData (lit ''stream did not contain valid UTF-8'')) id (from_utf8 bytes))"

definition is_binary_file :: "file_system \<Rightarrow> files \<Rightarrow> rstring \<Rightarrow> file_error + bool" where
  "is_binary_file sys fs p = map_sum id (\<lambda>bytes. 0 \<in> set (take 8192 bytes)) (access sys fs Op_Open p)"

text \<open>The indexes of the first line of a window and of the one behind its last.\<close>

definition window_start :: "nat option \<Rightarrow> nat \<Rightarrow> nat" where
  "window_start offset n = min (unwrap_or 0 offset) n"

definition window_end :: "nat option \<Rightarrow> nat option \<Rightarrow> nat \<Rightarrow> nat" where
  "window_end offset limit n = (case limit of None \<Rightarrow> n | Some k \<Rightarrow> min (window_start offset n + k) n)"

definition line_window :: "nat option \<Rightarrow> nat option \<Rightarrow> rstring list \<Rightarrow> rstring list" where
  "line_window offset limit ls =
     drop (window_start offset (length ls)) (take (window_end offset limit (length ls)) ls)"

definition read_file :: "file_system \<Rightarrow> rstring \<Rightarrow> nat option \<Rightarrow> nat option \<Rightarrow> files \<Rightarrow> file_error + text_file_payload" where
  "read_file sys path offset limit fs =
     rbind (normalize_path sys fs path) (\<lambda>p.
     rbind (access sys fs Op_Metadata p) (\<lambda>bytes.
     if max_read_size < length bytes then
       Inl (File_Error File_InvalidData (lit ''file is too large ('' @ show_nat (length bytes) @ lit '' bytes, max '' @
         show_nat max_read_size @ lit '' bytes)''))
     else
     rbind (is_binary_file sys fs p) (\<lambda>binary.
     if binary then Inl (File_Error File_InvalidData (lit ''file appears to be binary''))
     else
     rbind (read_to_string sys fs p) (\<lambda>content.
       let ls = str_lines content
       in Inr \<lparr>payload_path = p, payload_content = join [c_nl] (line_window offset limit ls),
            num_lines = window_end offset limit (length ls) - window_start offset (length ls),
            start_line = window_start offset (length ls) + 1, total_lines = length ls\<rparr>))))"

section \<open>Writing and editing\<close>

definition make_patch :: "rstring \<Rightarrow> rstring \<Rightarrow> patch_hunk list" where
  "make_patch original updated =
     [\<lparr>old_start = 1, old_lines = length (str_lines original), new_start = 1, new_lines = length (str_lines updated),
       hunk_lines = map (\<lambda>l. c_minus # l) (str_lines original) @ map (\<lambda>l. 43 # l) (str_lines updated)\<rparr>]"

definition write_text :: "file_system \<Rightarrow> rstring \<Rightarrow> rstring \<Rightarrow> files \<Rightarrow> (file_error + unit) \<times> files" where
  "write_text sys p content fs = (case file_fault sys fs Op_WriteText p of
     Some e \<Rightarrow> (Inl e, fs(real_path sys p := interrupted_write sys fs p))
   | None \<Rightarrow> (Inr (), fs(real_path sys p \<mapsto> as_bytes content)))"

definition write_file :: "file_system \<Rightarrow> rstring \<Rightarrow> rstring \<Rightarrow> files \<Rightarrow> (file_error + write_file_output) \<times> files" where
  "write_file sys path content fs =
     (if max_write_size < str_len content then
        (Inl (File_Error File_InvalidData (lit ''content is too large ('' @ show_nat (str_len content) @ lit '' bytes, max '' @
          show_nat max_write_size @ lit '' bytes)'')), fs)
      else and_then (normalize_path_allow_missing sys fs path, fs) (\<lambda>p fs.
        let original = (case read_to_string sys fs p of Inr s \<Rightarrow> Some s | Inl _ \<Rightarrow> None)
        in case Option.bind (path_parent p) (file_fault sys fs Op_CreateDirs) of
             Some e \<Rightarrow> (Inl e, fs)
           | None \<Rightarrow> and_then (write_text sys p content fs) (\<lambda>_ fs.
               (Inr \<lparr>write_kind = (if original = None then lit ''create'' else lit ''update''), write_path = p,
                  write_content = content, write_patch = make_patch (unwrap_or [] original) content,
                  write_original = original\<rparr>, fs))))"

text \<open>\<^verbatim>\<open>replace\<close> and \<^verbatim>\<open>replacen(_, _, 1)\<close>, also for an empty pattern, which is found before every char and at the end.\<close>

definition str_replace :: "rstring \<Rightarrow> rstring \<Rightarrow> rstring \<Rightarrow> rstring" where
  "str_replace s old new = (if old = [] then new @ concat (map (\<lambda>c. c # new) s) else replace_all old new s)"

definition str_replace_first :: "rstring \<Rightarrow> rstring \<Rightarrow> rstring \<Rightarrow> rstring" where
  "str_replace_first s old new = (case str_find s old of
     None \<Rightarrow> s | Some i \<Rightarrow> take i s @ new @ drop (i + length old) s)"

definition edit_file :: "file_system \<Rightarrow> rstring \<Rightarrow> rstring \<Rightarrow> rstring \<Rightarrow> bool \<Rightarrow> files \<Rightarrow>
    (file_error + edit_file_output) \<times> files" where
  "edit_file sys path old new every fs =
     and_then (normalize_path sys fs path, fs) (\<lambda>p fs.
     and_then (read_to_string sys fs p, fs) (\<lambda>original fs.
     if old = new then (Inl (File_Error File_InvalidInput (lit ''old_string and new_string must differ'')), fs)
     else if \<not> str_contains original old then
       (Inl (File_Error File_NotFound (lit ''old_string not found in file'')), fs)
     else
       let updated = (if every then str_replace original old new else str_replace_first original old new)
       in and_then (write_text sys p updated fs) (\<lambda>_ fs.
            (Inr \<lparr>edit_path = p, edit_old = old, edit_new = new, edit_original = original,
               edit_patch = make_patch original updated, edit_replace_all = every\<rparr>, fs))))"

section \<open>Inside a workspace\<close>

definition read_file_in_workspace ::
    "file_system \<Rightarrow> rstring \<Rightarrow> nat option \<Rightarrow> nat option \<Rightarrow> rstring \<Rightarrow> files \<Rightarrow> file_error + text_file_payload" where
  "read_file_in_workspace sys path offset limit root fs =
     rbind (normalize_path sys fs path) (\<lambda>p.
     rbind (validate_workspace_boundary p (canonical_root sys fs root)) (\<lambda>_. read_file sys path offset limit fs))"

definition write_file_in_workspace ::
    "file_system \<Rightarrow> rstring \<Rightarrow> rstring \<Rightarrow> rstring \<Rightarrow> files \<Rightarrow> (file_error + write_file_output) \<times> files" where
  "write_file_in_workspace sys path content root fs =
     and_then (normalize_path_allow_missing sys fs path, fs) (\<lambda>p fs.
     and_then (validate_workspace_boundary p (canonical_root sys fs root), fs) (\<lambda>_ fs. write_file sys path content fs))"

definition edit_file_in_workspace :: "file_system \<Rightarrow> rstring \<Rightarrow> rstring \<Rightarrow> rstring \<Rightarrow> bool \<Rightarrow> rstring \<Rightarrow> files \<Rightarrow>
    (file_error + edit_file_output) \<times> files" where
  "edit_file_in_workspace sys path old new every root fs =
     and_then (normalize_path sys fs path, fs) (\<lambda>p fs.
     and_then (validate_workspace_boundary p (canonical_root sys fs root), fs) (\<lambda>_ fs. edit_file sys path old new every fs))"

text \<open>\<open>link\<close> is what \<^verbatim>\<open>symlink_metadata\<close> says of a path: a failure, or whether it is a symbolic link.\<close>

definition is_symlink_escape :: "file_system \<Rightarrow> files \<Rightarrow> (rstring \<Rightarrow> file_error + bool) \<Rightarrow> rstring \<Rightarrow> rstring \<Rightarrow> file_error + bool" where
  "is_symlink_escape sys fs link path root = rbind (link path) (\<lambda>symlink.
     if \<not> symlink then Inr False
     else map_sum id (\<lambda>resolved. \<not> path_starts_with resolved (canonical_root sys fs root)) (canonicalize sys fs path))"

section \<open>Searching\<close>

record glob_search_output =
  glob_duration :: nat
  glob_num_files :: nat
  glob_filenames :: "rstring list"
  glob_truncated :: bool

text \<open>
  The entries that match a pattern, whether an entry is a file, and the time of its last change; entries without a time
  come first, then the latest.
\<close>

record glob_env =
  glob_entries :: "rstring \<Rightarrow> rstring + rstring list"
  glob_is_file :: "rstring \<Rightarrow> bool"
  glob_modified :: "rstring \<Rightarrow> int option"

definition glob_search :: "file_system \<Rightarrow> files \<Rightarrow> glob_env \<Rightarrow> nat \<Rightarrow> rstring \<Rightarrow> rstring option \<Rightarrow>
    file_error + glob_search_output" where
  "glob_search sys fs env elapsed pattern path =
     rbind (transpose_map (normalize_path sys fs) path) (\<lambda>base.
     rbind (current_dir sys) (\<lambda>cwd.
     rbind (map_sum (File_Error File_InvalidInput) id (glob_entries env
         (if starts_with pattern [c_slash] then pattern else path_join (unwrap_or cwd base) pattern))) (\<lambda>entries.
     let matches = sort_key (\<lambda>p. map_option uminus (glob_modified env p)) (filter (glob_is_file env) entries);
         names = take 100 matches
     in Inr \<lparr>glob_duration = elapsed, glob_num_files = length names, glob_filenames = names,
          glob_truncated = 100 < length matches\<rparr>)))"

record grep_input =
  grep_pattern :: rstring
  grep_path :: "rstring option"
  grep_glob :: "rstring option"
  grep_output_mode :: "rstring option"
  grep_before :: "nat option"
  grep_after :: "nat option"
  grep_context_short :: "nat option"
  grep_context :: "nat option"
  grep_line_numbers :: "bool option"
  grep_case_insensitive :: "bool option"
  grep_file_type :: "rstring option"
  grep_head_limit :: "nat option"
  grep_offset :: "nat option"
  grep_multiline :: "bool option"

record grep_output =
  grep_mode :: "rstring option"
  grep_num_files :: nat
  grep_filenames :: "rstring list"
  grep_content :: "rstring option"
  grep_num_lines :: "nat option"
  grep_num_matches :: "nat option"
  applied_limit :: "nat option"
  applied_offset :: "nat option"

record regex =
  is_match :: "rstring \<Rightarrow> bool"
  find_count :: "rstring \<Rightarrow> nat"

text \<open>
  Compiling a regular expression (with the flags for case and for the dot), compiling a glob pattern into its two ways of
  matching a path, and the files below a directory.
\<close>

record grep_env =
  regex_build :: "rstring \<Rightarrow> bool \<Rightarrow> bool \<Rightarrow> rstring + regex"
  glob_pattern :: "rstring \<Rightarrow> rstring + (rstring \<Rightarrow> bool) \<times> (rstring \<Rightarrow> bool)"
  path_is_file :: "rstring \<Rightarrow> bool"
  walk_files :: "rstring \<Rightarrow> file_error + rstring list"

definition collect_search_files :: "grep_env \<Rightarrow> rstring \<Rightarrow> file_error + rstring list" where
  "collect_search_files env base = (if path_is_file env base then Inr [base] else walk_files env base)"

definition matches_optional_filters ::
    "((rstring \<Rightarrow> bool) \<times> (rstring \<Rightarrow> bool)) option \<Rightarrow> rstring option \<Rightarrow> rstring \<Rightarrow> bool" where
  "matches_optional_filters glob_filter file_type path \<longleftrightarrow>
     (case glob_filter of None \<Rightarrow> True | Some (matches, matches_path) \<Rightarrow> matches path \<or> matches_path path) \<and>
     (case file_type of None \<Rightarrow> True | Some t \<Rightarrow> path_extension path = Some t)"

definition apply_limit :: "'a list \<Rightarrow> nat option \<Rightarrow> nat option \<Rightarrow> 'a list \<times> nat option \<times> nat option" where
  "apply_limit items limit offset =
     (let skip = unwrap_or 0 offset; rest = drop skip items; explicit = unwrap_or 250 limit;
          skipped = (if 0 < skip then Some skip else None)
      in if explicit = 0 then (rest, None, skipped)
         else (take explicit rest, if explicit < length rest then Some explicit else None, skipped))"

definition context_of :: "grep_input \<Rightarrow> nat" where
  "context_of inp = (case grep_context inp of Some c \<Rightarrow> c | None \<Rightarrow> unwrap_or 0 (grep_context_short inp))"

definition context_line :: "grep_input \<Rightarrow> rstring \<Rightarrow> nat \<times> rstring \<Rightarrow> rstring" where
  "context_line inp path = (\<lambda>(current, line).
     (if unwrap_or True (grep_line_numbers inp) then path @ lit '':'' @ show_nat (current + 1) @ lit '':''
      else path @ lit '':'') @ line)"

text \<open>The lines around a match; the end of the range is computed without a check for overflow.\<close>

definition context_lines :: "grep_input \<Rightarrow> rstring \<Rightarrow> rstring list \<Rightarrow> nat \<Rightarrow> rstring list" where
  "context_lines inp path ls index =
     (let first = index - unwrap_or (context_of inp) (grep_before inp);
          behind = min ((index + unwrap_or (context_of inp) (grep_after inp) + 1) mod 2 ^ 64) (length ls)
      in map (context_line inp path) (drop first (take behind (enumerate 0 ls))))"

definition matched_lines :: "regex \<Rightarrow> rstring list \<Rightarrow> nat list" where
  "matched_lines re ls = map fst (filter (\<lambda>(i, l). is_match re l) (enumerate 0 ls))"

text \<open>What one file adds: its name, lines of content, and matches; nothing when it is filtered out or cannot be read.\<close>

definition grep_file :: "file_system \<Rightarrow> files \<Rightarrow> grep_input \<Rightarrow> rstring \<Rightarrow> regex \<Rightarrow> (rstring \<Rightarrow> bool) \<Rightarrow> rstring \<Rightarrow>
    rstring list \<times> rstring list \<times> nat" where
  "grep_file sys fs inp mode re wanted path =
     (if \<not> wanted path then ([], [], 0)
      else (case read_to_string sys fs path of
        Inl _ \<Rightarrow> ([], [], 0)
      | Inr content \<Rightarrow>
          if mode = lit ''count'' then
            let n = find_count re content in (if 0 < n then [path] else [], [], n)
          else
            let ls = str_lines content; found = matched_lines re ls
            in (if found = [] then [] else [path],
                if mode = lit ''content'' then concat (map (context_lines inp path ls) found) else [],
                length found)))"

definition grep_search :: "file_system \<Rightarrow> files \<Rightarrow> grep_env \<Rightarrow> grep_input \<Rightarrow> file_error + grep_output" where
  "grep_search sys fs env inp =
     rbind (transpose_map (normalize_path sys fs) (grep_path inp)) (\<lambda>base.
     rbind (current_dir sys) (\<lambda>cwd.
     rbind (map_sum (File_Error File_InvalidInput) id (regex_build env (grep_pattern inp)
         (unwrap_or False (grep_case_insensitive inp)) (unwrap_or False (grep_multiline inp)))) (\<lambda>re.
     rbind (map_sum (File_Error File_InvalidInput) id (transpose_map (glob_pattern env) (grep_glob inp))) (\<lambda>glob_filter.
     rbind (collect_search_files env (unwrap_or cwd base)) (\<lambda>paths.
     let mode = unwrap_or (lit ''files_with_matches'') (grep_output_mode inp);
         found = map (grep_file sys fs inp mode re (matches_optional_filters glob_filter (grep_file_type inp))) paths;
         (names, limit, skipped) = apply_limit (concat (map fst found)) (grep_head_limit inp) (grep_offset inp)
     in if mode = lit ''content'' then
          let (ls, limit, skipped) = apply_limit (concat (map (fst \<circ> snd) found)) (grep_head_limit inp) (grep_offset inp)
          in Inr \<lparr>grep_mode = Some mode, grep_num_files = length names, grep_filenames = names,
               grep_content = Some (join [c_nl] ls), grep_num_lines = Some (length ls), grep_num_matches = None,
               applied_limit = limit, applied_offset = skipped\<rparr>
        else Inr \<lparr>grep_mode = Some mode, grep_num_files = length names, grep_filenames = names, grep_content = None,
               grep_num_lines = None,
               grep_num_matches = (if mode = lit ''count'' then Some (sum_list (map (snd \<circ> snd) found)) else None),
               applied_limit = limit, applied_offset = skipped\<rparr>)))))"

section \<open>Windows\<close>

lemma window_bounds: "window_start offset n \<le> n" "window_end offset limit n \<le> n"
    "window_start offset n \<le> window_end offset limit n"
  by (auto simp: window_start_def window_end_def split: option.splits)

lemma length_line_window:
  "length (line_window offset limit ls) = window_end offset limit (length ls) - window_start offset (length ls)"
  by (simp add: line_window_def window_bounds min_absorb2)

lemma line_window_take: "line_window (Some k) (Some m) ls = take m (drop k ls)"
proof (cases "k \<le> length ls")
  case True
  then show ?thesis
    by (simp add: line_window_def window_start_def window_end_def drop_take min_def)
qed (simp add: line_window_def window_start_def window_end_def)

lemma line_window_rest: "line_window (Some k) None ls = drop k ls"
  by (cases "k \<le> length ls") (simp_all add: line_window_def window_start_def window_end_def)

text \<open>
  Reading on where a window ended gives the lines behind it: the windows of a file are its lines.
\<close>

lemma windows_concat:
  "line_window (Some k) (Some m) ls @ line_window (Some (k + m)) None ls = line_window (Some k) None ls"
  by (simp add: line_window_take line_window_rest add.commute [of k m] flip: drop_drop)

definition window_payload :: "rstring \<Rightarrow> nat option \<Rightarrow> nat option \<Rightarrow> rstring list \<Rightarrow> text_file_payload" where
  "window_payload p offset limit ls = \<lparr>payload_path = p, payload_content = join [c_nl] (line_window offset limit ls),
     num_lines = length (line_window offset limit ls), start_line = window_start offset (length ls) + 1,
     total_lines = length ls\<rparr>"

lemma read_file_Inr:
  assumes "read_file sys path offset limit fs = Inr out"
  obtains p bytes content where "normalize_path sys fs path = Inr p" and "fs (real_path sys p) = Some bytes"
    and "length bytes \<le> max_read_size" and "0 \<notin> set (take 8192 bytes)" and "from_utf8 bytes = Inr content"
    and "\<And>k m. read_file sys path k m fs = Inr (window_payload p k m (str_lines content))"
proof -
  obtain p bytes where p: "normalize_path sys fs path = Inr p" and b: "access sys fs Op_Metadata p = Inr bytes"
    using assms by (auto simp: read_file_def rbind_Inr_iff)
  have b': "fs (real_path sys p) = Some bytes" using b by (auto simp: access_def ok_or_def split: option.splits)
  have size: "length bytes \<le> max_read_size" using assms by (auto simp: read_file_def p b split: if_splits)
  obtain z content where z: "is_binary_file sys fs p = Inr z" and c: "read_to_string sys fs p = Inr content"
    using assms size by (auto simp: read_file_def p b rbind_Inr_iff split: if_splits)
  have plain: "\<not> z" using assms size by (auto simp: read_file_def p b z split: if_splits)
  show ?thesis
  proof (rule that [OF p b' size])
    show "0 \<notin> set (take 8192 bytes)"
      using z plain b' by (auto simp: is_binary_file_def access_def split: option.splits)
    show "from_utf8 bytes = Inr content"
      using c b' by (cases "from_utf8 bytes") (auto simp: read_to_string_def access_def rbind_Inr_iff split: option.splits)
    show "read_file sys path k m fs = Inr (window_payload p k m (str_lines content))" for k m
      using size plain by (simp add: read_file_def p b z c window_payload_def length_line_window Let_def)
  qed
qed

text \<open>
  C38: What a read returns: only an existing text file of at most ten megabytes without a NUL byte at its beginning is
  read, the content is the window of its lines, and the window behind it continues with the next line, so that
  reading a file in windows gives its lines, each once.
\<close>

theorem read_windows:
  assumes "read_file sys path (Some k) (Some m) fs = Inr out"
  shows "\<exists>bytes content. fs (real_path sys (payload_path out)) = Some bytes \<and> from_utf8 bytes = Inr content \<and>
           length bytes \<le> 10485760 \<and> 0 \<notin> set (take 8192 bytes) \<and>
           payload_content out = join [c_nl] (take m (drop k (str_lines content))) \<and>
           num_lines out \<le> m \<and> total_lines out = length (str_lines content) \<and>
           (\<exists>next. read_file sys path (Some (k + m)) None fs = Inr next \<and>
              payload_content next = join [c_nl] (drop (k + m) (str_lines content)) \<and>
              num_lines out + num_lines next = length (str_lines content) - k)"
proof -
  obtain p bytes content where r: "normalize_path sys fs path = Inr p" "fs (real_path sys p) = Some bytes"
      "length bytes \<le> max_read_size" "0 \<notin> set (take 8192 bytes)" "from_utf8 bytes = Inr content"
    and reads: "\<And>k m. read_file sys path k m fs = Inr (window_payload p k m (str_lines content))"
    using assms by (rule read_file_Inr) blast
  have "out = window_payload p (Some k) (Some m) (str_lines content)" using assms reads by simp
  then show ?thesis
    using r by (auto simp: reads window_payload_def line_window_take line_window_rest max_read_size_def)
qed

section \<open>Reading back\<close>

definition no_faults :: "file_system \<Rightarrow> bool" where
  "no_faults sys \<longleftrightarrow> file_fault sys = (\<lambda>_ _ _. None)"

lemma access_ok: "no_faults sys \<Longrightarrow> access sys fs op p = ok_or (File_Error File_NotFound (lit ''No such file or directory (os error 2)'')) (fs (real_path sys p))"
  by (simp add: no_faults_def access_def)

text \<open>
  Writing and reading back: a text of at most ten megabytes, without a NUL in its first 8192 bytes, is written
  completely, no other file changes, and reading the path gives its lines.
\<close>

theorem write_then_read:
  assumes "no_faults sys" and "list_all is_scalar content" and "str_len content \<le> 10485760"
    and "0 \<notin> set (take 8192 (as_bytes content))"
    and "normalize_path_allow_missing sys fs path = Inr p"
    and "normalize_path sys (fs(real_path sys p \<mapsto> as_bytes content)) path = Inr q" and "real_path sys q = real_path sys p"
  shows "\<exists>written after out. write_file sys path content fs = (Inr written, after) \<and>
           after = fs(real_path sys p \<mapsto> as_bytes content) \<and>
           (write_kind written = lit ''create'' \<longleftrightarrow> write_original written = None) \<and>
           read_file sys path None None after = Inr out \<and> payload_content out = join [c_nl] (str_lines content) \<and>
           num_lines out = length (str_lines content) \<and> start_line out = 1"
proof -
  have w: "write_file sys path content fs = (Inr \<lparr>write_kind = (if (case read_to_string sys fs p of Inr s \<Rightarrow> Some s | Inl _ \<Rightarrow> None) = None then lit ''create'' else lit ''update''), write_path = p,
                  write_content = content, write_patch = make_patch (unwrap_or [] (case read_to_string sys fs p of Inr s \<Rightarrow> Some s | Inl _ \<Rightarrow> None)) content,
                  write_original = (case read_to_string sys fs p of Inr s \<Rightarrow> Some s | Inl _ \<Rightarrow> None)\<rparr>, fs(real_path sys p \<mapsto> as_bytes content))"
    using assms(1,3,5) by (auto simp: write_file_def write_text_def no_faults_def max_write_size_def Let_def split: option.splits)
  show ?thesis
    using assms
    by (auto simp: w read_file_def access_ok is_binary_file_def read_to_string_def max_read_size_def Let_def
        length_as_bytes from_utf8_as_bytes line_window_def window_start_def window_end_def)
qed

text \<open>A file system whose paths are resolved by their meaning, where a directory is known when a file lies under it.\<close>

definition lexical :: "rstring \<Rightarrow> rstring" where
  "lexical p = c_slash # join [c_slash] (resolve [] (components p))"

definition plain_system :: "rstring list \<Rightarrow> file_system" where
  "plain_system dirs = \<lparr>current_dir = Inr (lit ''/w''),
     canonicalize = (\<lambda>fs p. if fs (lexical p) \<noteq> None \<or> p \<in> set dirs then Inr (lexical p)
       else Inl (File_Error File_NotFound [])),
     file_fault = (\<lambda>_ _ _. None), real_path = lexical, interrupted_write = (\<lambda>_ _. None)\<rparr>"

lemma plain_system_no_faults [simp]: "no_faults (plain_system dirs)"
  by (simp add: no_faults_def plain_system_def)

theorem write_then_read_witness:
  "\<exists>written after out. write_file (plain_system [lit ''/w'']) (lit ''a'') (lit ''x'' @ [10, 121, 10]) Map.empty = (Inr written, after) \<and>
           after = Map.empty(real_path (plain_system [lit ''/w'']) (lit ''/w/a'') \<mapsto> as_bytes (lit ''x'' @ [10, 121, 10])) \<and>
           (write_kind written = lit ''create'' \<longleftrightarrow> write_original written = None) \<and>
           read_file (plain_system [lit ''/w'']) (lit ''a'') None None after = Inr out \<and>
           payload_content out = join [c_nl] (str_lines (lit ''x'' @ [10, 121, 10])) \<and>
           num_lines out = length (str_lines (lit ''x'' @ [10, 121, 10])) \<and> start_line out = 1"
proof (rule write_then_read [where q = "lit ''/w/a''"])
  show "no_faults (plain_system [lit ''/w''])" by simp
  show "list_all is_scalar (lit ''x'' @ [10, 121, 10])" by (simp add: lit_def is_scalar_def)
  show "str_len (lit ''x'' @ [10, 121, 10]) \<le> 10485760" by (simp add: str_len_def utf8_len_def lit_def)
  show "0 \<notin> set (take 8192 (as_bytes (lit ''x'' @ [10, 121, 10])))" by (simp add: lit_def utf8_bytes_def)
  show "normalize_path_allow_missing (plain_system [lit ''/w'']) Map.empty (lit ''a'') = Inr (lit ''/w/a'')" by code_simp
  show "normalize_path (plain_system [lit ''/w'']) (Map.empty(real_path (plain_system [lit ''/w'']) (lit ''/w/a'') \<mapsto> as_bytes (lit ''x'' @ [10, 121, 10]))) (lit ''a'') = Inr (lit ''/w/a'')"
    by code_simp
qed (rule refl)

theorem read_windows_witness:
  "\<exists>out. read_file (plain_system []) (lit ''/a'') (Some 1) (Some 1) [lit ''/a'' \<mapsto> [120, 10, 121, 10, 122]] = Inr out \<and>
     payload_content out = [121] \<and> (\<exists>next. read_file (plain_system []) (lit ''/a'') (Some 2) None
       [lit ''/a'' \<mapsto> [120, 10, 121, 10, 122]] = Inr next \<and> payload_content next = [122])"
proof -
  let ?sys = "plain_system []" and ?fs = "[lit ''/a'' \<mapsto> [120, 10, 121, 10, 122]]"
  let ?out = "window_payload (lit ''/a'') (Some 1) (Some 1) [[120], [121], [122]]"
  have p: "normalize_path ?sys ?fs (lit ''/a'') = Inr (lit ''/a'')" and l: "real_path ?sys (lit ''/a'') = lit ''/a''"
    and u: "from_utf8 [120, 10, 121, 10, 122] = Inr [120, 10, 121, 10, 122]"
    and ls: "str_lines [120, 10, 121, 10, 122] = [[120], [121], [122]]" by code_simp+
  have r: "read_file ?sys (lit ''/a'') (Some 1) (Some 1) ?fs = Inr ?out"
    by (simp add: read_file_def p l u ls access_ok is_binary_file_def read_to_string_def max_read_size_def window_payload_def
        length_line_window del: One_nat_def)
  have "payload_content ?out = [121]" by code_simp
  then show ?thesis using read_windows [OF r] r by (auto simp: window_payload_def l u ls numeral_2_eq_2)
qed

section \<open>Replacing\<close>

lemma read_to_string_Inr:
  assumes "read_to_string sys fs p = Inr content"
  obtains bytes where "fs (real_path sys p) = Some bytes" and "from_utf8 bytes = Inr content"
proof -
  obtain bytes where a: "access sys fs Op_ReadText p = Inr bytes" using assms by (auto simp: read_to_string_def rbind_Inr_iff)
  have "from_utf8 bytes = Inr content" using assms by (cases "from_utf8 bytes") (auto simp: read_to_string_def a)
  moreover have "fs (real_path sys p) = Some bytes" using a by (auto simp: access_def ok_or_def split: option.splits)
  ultimately show ?thesis using that by blast
qed

lemma str_find_Some: "str_find s p = Some i \<Longrightarrow> s = take i s @ p @ drop (i + length p) s \<and> i \<le> length s"
proof (induction s arbitrary: i)
  case (Cons c s)
  then show ?case by (auto simp: prefix_def split: if_splits)
qed (auto split: if_splits)

text \<open>
  C21: A replacement that succeeds replaces the first occurrence of the string by the other one, or all of them, and
  changes no other file; one that fails before the write (the file is no text, the strings are equal, the string is not
  there) changes nothing.
\<close>

theorem edit_contract:
  assumes "edit_file sys path old new every fs = (r, after)"
  shows "case r of
      Inr out \<Rightarrow> \<exists>p bytes original. normalize_path sys fs path = Inr p \<and> fs (real_path sys p) = Some bytes \<and>
        from_utf8 bytes = Inr original \<and> edit_original out = original \<and> old \<noteq> new \<and> str_contains original old \<and>
        (if every then after = fs(real_path sys p \<mapsto> as_bytes (str_replace original old new))
         else \<exists>a b. original = a @ old @ b \<and> str_find original old = Some (length a) \<and>
                after = fs(real_path sys p \<mapsto> as_bytes (a @ new @ b)))
    | Inl e \<Rightarrow> after = fs \<or> (\<exists>p. file_fault sys fs Op_WriteText p = Some e \<and>
        after = fs(real_path sys p := interrupted_write sys fs p))"
proof (cases "normalize_path sys fs path")
  case (Inl e)
  then show ?thesis using assms by (auto simp: edit_file_def)
next
  case p: (Inr p)
  show ?thesis
  proof (cases "read_to_string sys fs p")
    case (Inl e)
    then show ?thesis using assms p by (auto simp: edit_file_def)
  next
    case o: (Inr original)
    obtain bytes where b: "fs (real_path sys p) = Some bytes" "from_utf8 bytes = Inr original"
      using o by (rule read_to_string_Inr)
    show ?thesis
    proof (cases "old \<noteq> new \<and> str_contains original old")
      case False
      then have "\<exists>e. r = Inl e" "after = fs" using assms by (auto simp: edit_file_def p o split: if_splits)
      then show ?thesis by auto
    next
      case True
      then obtain i where i: "str_find original old = Some i" using str_find_None_iff by fastforce
      have parts: "original = take i original @ old @ drop (i + length old) original" "length (take i original) = i"
        using str_find_Some [OF i] by auto
      show ?thesis
      proof (cases "file_fault sys fs Op_WriteText p")
        case (Some e)
        then show ?thesis using assms True by (auto simp: edit_file_def p o write_text_def Let_def)
      next
        case None
        then have after: "after = fs(real_path sys p \<mapsto> as_bytes (if every then str_replace original old new
              else take i original @ new @ drop (i + length old) original))"
          and r: "\<exists>out. r = Inr out \<and> edit_original out = original"
          using assms True by (auto simp: edit_file_def p o write_text_def Let_def str_replace_first_def i)
        show ?thesis
        proof (cases every)
          case True
          then show ?thesis using r b p \<open>old \<noteq> new \<and> str_contains original old\<close> by (auto simp: after)
        next
          case False
          have "\<exists>a b. original = a @ old @ b \<and> str_find original old = Some (length a) \<and>
              after = fs(real_path sys p \<mapsto> as_bytes (a @ new @ b))"
            using parts i False
            by (intro exI [of _ "take i original"] exI [of _ "drop (i + length old) original"]) (simp add: after)
          moreover obtain out where "r = Inr out" "edit_original out = original" using r by blast
          ultimately show ?thesis
            using b p False \<open>old \<noteq> new \<and> str_contains original old\<close>
            by (simp only: sum.case if_False) blast
        qed
      qed
    qed
  qed
qed

section \<open>The boundary of the workspace\<close>

text \<open>
  What the check for the boundary gives a write: every file it changes is the one its resolved path leads to,
  and the text of that path has the root as a prefix.
\<close>

theorem workspace_write_reach:
  assumes "snd (write_file_in_workspace sys path content root fs) q \<noteq> fs q"
  shows "\<exists>p. normalize_path_allow_missing sys fs path = Inr p \<and> path_starts_with p (canonical_root sys fs root) \<and>
             q = real_path sys p"
proof (cases "normalize_path_allow_missing sys fs path")
  case (Inl e)
  then show ?thesis using assms by (simp add: write_file_in_workspace_def)
next
  case (Inr p)
  have "path_starts_with p (canonical_root sys fs root)"
    using assms by (auto simp: write_file_in_workspace_def Inr validate_workspace_boundary_def split: if_splits)
  moreover have "snd (write_file sys path content fs) q \<noteq> fs q"
    using assms by (auto simp: write_file_in_workspace_def Inr validate_workspace_boundary_def split: if_splits)
  then have "q = real_path sys p"
    by (cases "Option.bind (path_parent p) (file_fault sys fs Op_CreateDirs)"; cases "file_fault sys fs Op_WriteText p")
       (auto simp: write_file_def Inr write_text_def Let_def split: if_splits)
  ultimately show ?thesis using Inr by blast
qed

lemma workspace_write_runs:
  assumes "no_faults sys" and "normalize_path_allow_missing sys fs path = Inr p"
    and "path_starts_with p (canonical_root sys fs root)" and "str_len content \<le> max_write_size"
  shows "snd (write_file_in_workspace sys path content root fs) = fs(real_path sys p \<mapsto> as_bytes content)"
proof -
  have f: "file_fault sys fs op p = None" for op p using assms(1) by (simp add: no_faults_def)
  have "Option.bind (path_parent p) (file_fault sys fs Op_CreateDirs) = None"
    by (cases "path_parent p") (simp_all add: f)
  then show ?thesis
    using assms by (simp add: write_file_in_workspace_def validate_workspace_boundary_def write_file_def write_text_def
        f Let_def)
qed

text \<open>
  The check does not keep a write inside.  When neither the path nor its directory can be resolved (a directory
  on the way does not exist yet) the text of the path is the caller's own, double dots included, and the write goes where
  it leads.
\<close>

theorem workspace_write_escapes:
  assumes "no_faults sys" and "starts_with path [c_slash]" and "canonicalize sys fs path = Inl e"
    and "path_parent path = Some parent" and "file_name path = Some name" and "canonicalize sys fs parent = Inl e'"
    and "path_starts_with (path_join parent name) (canonical_root sys fs root)" and "str_len content \<le> max_write_size"
  shows "snd (write_file_in_workspace sys path content root fs) = fs(real_path sys (path_join parent name) \<mapsto> as_bytes content)"
proof -
  have "normalize_path_allow_missing sys fs path = Inr (path_join parent name)"
    using assms by (simp add: normalize_path_allow_missing_def absolute_candidate_def)
  then show ?thesis using assms by (intro workspace_write_runs)
qed

theorem workspace_write_escapes_witness:
  "snd (write_file_in_workspace (plain_system [lit ''/w'']) (lit ''/w/new/../../etc/x'') [120] (lit ''/w'') Map.empty) =
     [lit ''/etc/x'' \<mapsto> [120]] \<and> \<not> path_starts_with (lit ''/etc/x'') (lit ''/w'')"
proof
  have l: "real_path (plain_system [lit ''/w'']) (path_join (lit ''/w/new/../../etc'') (lit ''x'')) = lit ''/etc/x''"
    by code_simp
  have "snd (write_file_in_workspace (plain_system [lit ''/w'']) (lit ''/w/new/../../etc/x'') [120] (lit ''/w'') Map.empty) =
     Map.empty(real_path (plain_system [lit ''/w'']) (path_join (lit ''/w/new/../../etc'') (lit ''x'')) \<mapsto> as_bytes [120])"
  proof (rule workspace_write_escapes)
    show "str_len [120] \<le> max_write_size" by (simp add: utf8_len_def max_write_size_def)
    show "no_faults (plain_system [lit ''/w''])" by simp
  qed code_simp+
  then show "snd (write_file_in_workspace (plain_system [lit ''/w'']) (lit ''/w/new/../../etc/x'') [120] (lit ''/w'') Map.empty) =
     [lit ''/etc/x'' \<mapsto> [120]]" by (simp add: l utf8_bytes_def)
  show "\<not> path_starts_with (lit ''/etc/x'') (lit ''/w'')" by code_simp
qed

theorem workspace_write_reach_witness:
  "\<exists>p. normalize_path_allow_missing (plain_system [lit ''/w'']) Map.empty (lit ''/w/new/../../etc/x'') = Inr p \<and>
     path_starts_with p (lit ''/w'') \<and> lit ''/etc/x'' = real_path (plain_system [lit ''/w'']) p"
proof -
  have r: "canonical_root (plain_system [lit ''/w'']) Map.empty (lit ''/w'') = lit ''/w''" by code_simp
  have "snd (write_file_in_workspace (plain_system [lit ''/w'']) (lit ''/w/new/../../etc/x'') [] (lit ''/w'') Map.empty) (lit ''/etc/x'')
      \<noteq> None"
  proof (subst workspace_write_runs)
    show "normalize_path_allow_missing (plain_system [lit ''/w'']) Map.empty (lit ''/w/new/../../etc/x'') =
        Inr (lit ''/w/new/../../etc/x'')"
      by code_simp
    show "path_starts_with (lit ''/w/new/../../etc/x'') (canonical_root (plain_system [lit ''/w'']) Map.empty (lit ''/w''))"
      by code_simp
    have "real_path (plain_system [lit ''/w'']) (lit ''/w/new/../../etc/x'') = lit ''/etc/x''" by code_simp
    then show "[real_path (plain_system [lit ''/w'']) (lit ''/w/new/../../etc/x'') \<mapsto> as_bytes []] (lit ''/etc/x'') \<noteq> None"
      by simp
  qed (simp_all add: max_write_size_def)
  then show ?thesis
    using workspace_write_reach [of "plain_system [lit ''/w'']" "lit ''/w/new/../../etc/x''" "[]" "lit ''/w''" Map.empty "lit ''/etc/x''"]
    by (simp add: r)
qed

theorem edit_contract_witness:
  "\<exists>out. edit_file (plain_system []) (lit ''/a'') [98] [99] False [lit ''/a'' \<mapsto> [97, 98, 98]] =
     (Inr out, [lit ''/a'' \<mapsto> [97, 99, 98]]) \<and> edit_original out = [97, 98, 98]"
proof -
  let ?sys = "plain_system []" and ?fs = "[lit ''/a'' \<mapsto> [97, 98, 98]]"
  have p: "normalize_path ?sys ?fs (lit ''/a'') = Inr (lit ''/a'')" and l: "real_path ?sys (lit ''/a'') = lit ''/a''"
    and u: "from_utf8 [97, 98, 98] = Inr [97, 98, 98]" by code_simp+
  have f: "file_fault ?sys fs op p = None" for fs op p by (simp add: plain_system_def)
  obtain r after where e: "edit_file ?sys (lit ''/a'') [98] [99] False ?fs = (r, after)" by fastforce
  have r: "\<exists>out. r = Inr out"
    using e by (auto simp: edit_file_def p l u f read_to_string_def access_def write_text_def Let_def)
  then obtain out where out: "r = Inr out" by blast
  obtain a b where ab: "[97, 98, 98] = a @ [98] @ b" "str_find [97, 98, 98] [98] = Some (length a)"
      "after = ?fs(lit ''/a'' \<mapsto> as_bytes (a @ [99] @ b))" "edit_original out = [97, 98, 98]"
    using edit_contract [OF e] by (auto simp: out p l u)
  have "length a = 1" using ab(2) by simp
  then have "a = [97]" "b = [98]" using ab(1) by (auto simp: length_Suc_conv)
  then show ?thesis using e out ab(3,4) by (simp add: utf8_bytes_def)
qed

section \<open>Limits\<close>

text \<open>
  The entries a search answers are a window of those found: behind the offset, at most the limit (250 when none is
  given, all for zero), and the limit is reported exactly when it left something out.
\<close>

theorem apply_limit_contract:
  "apply_limit items limit offset =
     (let rest = drop (unwrap_or 0 offset) items; k = unwrap_or 250 limit in
      (if k = 0 then rest else take k rest, if 0 < k \<and> k < length rest then Some k else None,
       if unwrap_or 0 offset = 0 then None else offset))"
  by (cases offset) (auto simp: apply_limit_def Let_def)

text \<open>Two pages of a search, the second with the offset behind the first, are one.\<close>

lemma apply_limit_pages:
  assumes "0 < k"
  shows "fst (apply_limit items (Some k) (Some n)) @ fst (apply_limit items (Some 0) (Some (n + k))) =
           fst (apply_limit items (Some 0) (Some n))"
  using assms by (simp add: apply_limit_def Let_def add.commute [of n k] flip: drop_drop)

section \<open>Searching\<close>

text \<open>The files a search reports, told without the loop.\<close>

definition grep_selects :: "file_system \<Rightarrow> files \<Rightarrow> rstring \<Rightarrow> regex \<Rightarrow> (rstring \<Rightarrow> bool) \<Rightarrow> rstring \<Rightarrow> bool" where
  "grep_selects sys fs mode re wanted path \<longleftrightarrow> wanted path \<and> (case read_to_string sys fs path of
     Inl _ \<Rightarrow> False
   | Inr content \<Rightarrow> if mode = lit ''count'' then 0 < find_count re content else \<exists>l \<in> set (str_lines content). is_match re l)"

lemma matched_lines_Nil_iff: "matched_lines re ls = [] \<longleftrightarrow> \<not> (\<exists>l \<in> set ls. is_match re l)"
proof -
  have "matched_lines re ls = [] \<longleftrightarrow> filter (\<lambda>(i, l). is_match re l) (enumerate 0 ls) = []"
    by (simp add: matched_lines_def)
  also have "\<dots> \<longleftrightarrow> (\<forall>l \<in> snd ` set (enumerate 0 ls). \<not> is_match re l)"
    by (auto simp: filter_empty_conv)
  also have "snd ` set (enumerate 0 ls) = set ls"
    by (metis list.set_map map_snd_enumerate)
  finally show ?thesis by blast
qed

lemma matched_lines_iff: "i \<in> set (matched_lines re ls) \<longleftrightarrow> i < length ls \<and> is_match re (ls ! i)"
  by (auto simp: matched_lines_def in_set_enumerate_eq image_iff)

lemma grep_file_names:
  "fst (grep_file sys fs inp mode re wanted path) = (if grep_selects sys fs mode re wanted path then [path] else [])"
  by (auto simp: grep_file_def grep_selects_def matched_lines_Nil_iff Let_def split: sum.splits)

lemma concat_grep_names:
  "concat (map fst (map (grep_file sys fs inp mode re wanted) paths)) = filter (grep_selects sys fs mode re wanted) paths"
  by (induction paths) (simp_all add: grep_file_names)

text \<open>
  The files a search reports are, in the order they are found and cut by the limit, those that pass the filters,
  can be read as text and have a matching line (a match, when counting); a file that cannot be read is passed over.
\<close>

theorem grep_lists_files:
  assumes "grep_search sys fs env inp = Inr out"
  shows "\<exists>re globs base paths. regex_build env (grep_pattern inp) (unwrap_or False (grep_case_insensitive inp))
             (unwrap_or False (grep_multiline inp)) = Inr re \<and>
           collect_search_files env base = Inr paths \<and>
           grep_filenames out = fst (apply_limit (filter (grep_selects sys fs
             (unwrap_or (lit ''files_with_matches'') (grep_output_mode inp)) re
             (matches_optional_filters globs (grep_file_type inp))) paths) (grep_head_limit inp) (grep_offset inp)) \<and>
           grep_num_files out = length (grep_filenames out)"
proof -
  obtain base cwd re globs where steps: "transpose_map (normalize_path sys fs) (grep_path inp) = Inr base"
      "current_dir sys = Inr cwd"
      "map_sum (File_Error File_InvalidInput) id (regex_build env (grep_pattern inp)
         (unwrap_or False (grep_case_insensitive inp)) (unwrap_or False (grep_multiline inp))) = Inr re"
      "map_sum (File_Error File_InvalidInput) id (transpose_map (glob_pattern env) (grep_glob inp)) = Inr globs"
    using assms by (auto simp: grep_search_def rbind_Inr_iff)
  obtain paths where paths: "collect_search_files env (unwrap_or cwd base) = Inr paths"
    using assms by (auto simp: grep_search_def steps rbind_Inr_iff)
  have re: "regex_build env (grep_pattern inp) (unwrap_or False (grep_case_insensitive inp))
      (unwrap_or False (grep_multiline inp)) = Inr re"
    using steps(3) by (cases "regex_build env (grep_pattern inp) (unwrap_or False (grep_case_insensitive inp))
      (unwrap_or False (grep_multiline inp))") auto
  show ?thesis
    using assms re paths
    by (intro exI [of _ re] exI [of _ globs] exI [of _ "unwrap_or cwd base"] exI [of _ paths])
       (auto simp: grep_search_def steps concat_grep_names Let_def case_prod_unfold simp del: map_map split: if_splits)
qed

lemma length_enumerate_slice:
  "drop first (take behind (enumerate 0 ls)) = map (\<lambda>i. (i, ls ! i)) [first..<min behind (length ls)]"
  by (rule nth_equalityI) (auto simp: nth_enumerate_eq less_diff_conv add.commute)

text \<open>
  The lines shown for a match: those from the given number before it to the given number behind it, as far as
  they exist.  The match itself is among them unless the end of the range overflows a 64-bit \<^verbatim>\<open>usize\<close>: with \<^verbatim>\<open>-A\<close> as large as
  that nothing from the match on is shown.
\<close>

theorem context_shows_match:
  assumes "i < length ls" and "length ls < 2 ^ 64" and "a = unwrap_or (context_of inp) (grep_after inp)" and "a < 2 ^ 64"
  shows "\<exists>shown. context_lines inp path ls i = map (\<lambda>j. context_line inp path (j, ls ! j)) shown \<and> sorted shown \<and> distinct shown \<and>
           (\<forall>j \<in> set shown. i - unwrap_or (context_of inp) (grep_before inp) \<le> j \<and> j \<le> i + a) \<and>
           (i \<in> set shown \<longleftrightarrow> i + a + 1 < 2 ^ 64)"
proof -
  let ?first = "i - unwrap_or (context_of inp) (grep_before inp)"
  let ?behind = "min ((i + a + 1) mod 2 ^ 64) (length ls)"
  have shown: "context_lines inp path ls i = map (\<lambda>j. context_line inp path (j, ls ! j)) [?first..<?behind]"
    by (simp add: context_lines_def length_enumerate_slice assms(3) Let_def comp_def)
  have wrap: "(i + a + 1) mod 2 ^ 64 = (if i + a + 1 < 2 ^ 64 then i + a + 1 else i + a + 1 - 2 ^ 64)"
    using assms(1,2,4) le_mod_geq [of "2 ^ 64" "i + a + 1"] by (simp add: not_less)
  have "i \<in> set [?first..<?behind] \<longleftrightarrow> i + a + 1 < 2 ^ 64"
    using assms(1,4) by (subst wrap) (auto split: if_splits)
  moreover have "\<forall>j \<in> set [?first..<?behind]. ?first \<le> j \<and> j \<le> i + a"
    by (subst wrap) (auto split: if_splits)
  ultimately show ?thesis using shown by (intro exI [of _ "[?first..<?behind]"]) simp
qed

definition grep_of :: "nat option \<Rightarrow> grep_input" where
  "grep_of after = \<lparr>grep_pattern = lit ''x'', grep_path = None, grep_glob = None, grep_output_mode = Some (lit ''content''),
     grep_before = None, grep_after = after, grep_context_short = None, grep_context = None, grep_line_numbers = None,
     grep_case_insensitive = None, grep_file_type = None, grep_head_limit = None, grep_offset = None, grep_multiline = None\<rparr>"

theorem context_shows_match_witness:
  "\<exists>shown. context_lines (grep_of (Some (2 ^ 64 - 1))) (lit ''f'') [[97], [98]] 0 =
     map (\<lambda>j. context_line (grep_of (Some (2 ^ 64 - 1))) (lit ''f'') (j, [[97], [98]] ! j)) shown \<and> 0 \<notin> set shown"
  using context_shows_match [of 0 "[[97], [98]]" "2 ^ 64 - 1" "grep_of (Some (2 ^ 64 - 1))" "lit ''f''"]
  by (auto simp: grep_of_def)

text \<open>An environment whose regular expressions are plain strings, with two files.\<close>

definition x_env :: grep_env where
  "x_env = \<lparr>regex_build = (\<lambda>p _ _. Inr \<lparr>is_match = (\<lambda>l. str_contains l p), find_count = (\<lambda>_. 0)\<rparr>),
     glob_pattern = (\<lambda>p. Inr ((=) p, \<lambda>_. False)), path_is_file = (\<lambda>_. False),
     walk_files = (\<lambda>_. Inr [lit ''/w/a'', lit ''/w/b''])\<rparr>"

theorem grep_lists_files_witness:
  "\<exists>out. grep_search (plain_system []) [lit ''/w/a'' \<mapsto> [120], lit ''/w/b'' \<mapsto> [121]] x_env (grep_of None) = Inr out \<and>
     grep_num_files out = length (grep_filenames out)"
proof -
  obtain out where out: "grep_search (plain_system []) [lit ''/w/a'' \<mapsto> [120], lit ''/w/b'' \<mapsto> [121]] x_env (grep_of None) = Inr out"
    by (simp add: grep_search_def x_env_def grep_of_def plain_system_def collect_search_files_def Let_def case_prod_unfold)
  show ?thesis using grep_lists_files [OF out] out by blast
qed

end
