(* ===== verification/Lanes.thy ===== *)
theory Lanes imports Strings Hooks begin

text \<open>
  Lanes of work: how stale a branch is and what the policy makes of it (\<^verbatim>\<open>crates/runtime/src/stale_branch.rs\<close>),
  and the events of a lane (\<^verbatim>\<open>lane_events.rs\<close>).

  Running git is the parameter \<open>git\<close>: the standard output for its arguments when it ends with success, \<open>None\<close>
  otherwise.  A count is a \<^verbatim>\<open>usize\<close> of 64 bits.
\<close>

section \<open>Stale branches\<close>

datatype branch_freshness =
    Fresh
  | Stale u64 "rstring list"
  | Diverged u64 u64 "rstring list"

datatype stale_branch_policy = AutoRebase | AutoMergeForward | WarnOnly | Block_Stale

datatype stale_branch_event =
    BranchStaleAgainstMain rstring u64 "rstring list"
  | RebaseAttempted rstring rstring
  | MergeForwardAttempted rstring rstring

datatype stale_branch_action = Stale_Noop | Stale_Warn rstring | Stale_Block rstring | Stale_Rebase | Stale_MergeForward

type_synonym git = "rstring list \<Rightarrow> rstring option"

definition rev_list_count :: "git \<Rightarrow> rstring \<Rightarrow> rstring \<Rightarrow> u64" where
  "rev_list_count git a b = (case git [lit ''rev-list'', lit ''--count'', b @ lit ''..'' @ a] of
     Some stdout \<Rightarrow> (case parse_u64 (trim stdout) of Some n \<Rightarrow> n | None \<Rightarrow> 0)
   | None \<Rightarrow> 0)"

definition missing_fix_subjects :: "git \<Rightarrow> rstring \<Rightarrow> rstring \<Rightarrow> rstring list" where
  "missing_fix_subjects git a b = (case git [lit ''log'', lit ''--format=%s'', b @ lit ''..'' @ a] of
     Some stdout \<Rightarrow> filter (\<lambda>l. l \<noteq> []) (str_lines stdout)
   | None \<Rightarrow> [])"

definition check_freshness_in :: "git \<Rightarrow> rstring \<Rightarrow> rstring \<Rightarrow> branch_freshness" where
  "check_freshness_in git branch main_ref =
     (let behind = rev_list_count git main_ref branch; ahead = rev_list_count git branch main_ref
      in if behind = 0 then Fresh
         else if 0 < ahead then Diverged ahead behind (missing_fix_subjects git main_ref branch)
         else Stale behind (missing_fix_subjects git main_ref branch))"

definition format_missing_fixes :: "rstring list \<Rightarrow> rstring" where
  "format_missing_fixes fixes = (if fixes = [] then lit ''(none)'' else join (lit ''; '') fixes)"

definition show_count :: "u64 \<Rightarrow> rstring" where
  "show_count n = show_nat (unat n)"

definition apply_policy :: "branch_freshness \<Rightarrow> stale_branch_policy \<Rightarrow> stale_branch_action" where
  "apply_policy freshness policy = (case freshness of
     Fresh \<Rightarrow> Stale_Noop
   | Stale behind fixes \<Rightarrow> (case policy of
       WarnOnly \<Rightarrow> Stale_Warn (lit ''Branch is '' @ show_count behind @ lit '' commit(s) behind main. Missing fixes: '' @
         (if fixes = [] then lit ''(none)'' else join (lit ''; '') fixes))
     | Block_Stale \<Rightarrow> Stale_Block (lit ''Branch is '' @ show_count behind @
         lit '' commit(s) behind main and must be updated before proceeding.'')
     | AutoRebase \<Rightarrow> Stale_Rebase
     | AutoMergeForward \<Rightarrow> Stale_MergeForward)
   | Diverged ahead behind fixes \<Rightarrow> (case policy of
       WarnOnly \<Rightarrow> Stale_Warn (lit ''Branch has diverged: '' @ show_count ahead @ lit '' commit(s) ahead, '' @ show_count behind @
         lit '' commit(s) behind main. Missing fixes: '' @ format_missing_fixes fixes)
     | Block_Stale \<Rightarrow> Stale_Block (lit ''Branch has diverged ('' @ show_count ahead @ lit '' ahead, '' @ show_count behind @
         lit '' behind) and must be reconciled before proceeding. Missing fixes: '' @ format_missing_fixes fixes)
     | AutoRebase \<Rightarrow> Stale_Rebase
     | AutoMergeForward \<Rightarrow> Stale_MergeForward))"

fun blocks :: "stale_branch_action \<Rightarrow> bool" where
  "blocks (Stale_Block _) = True"
| "blocks _ = False"

text \<open>
  The policy does nothing exactly when git counts no commit of main that the branch lacks, and then under
  every policy; the blocking policy blocks in all other cases.  A git that fails counts none, so the
  blocking policy lets the branch pass.\<close>

theorem stale_policy_contract:
  "(apply_policy (check_freshness_in git branch main_ref) policy = Stale_Noop \<longleftrightarrow> rev_list_count git main_ref branch = 0) \<and>
   (blocks (apply_policy (check_freshness_in git branch main_ref) policy) \<longleftrightarrow>
      policy = Block_Stale \<and> rev_list_count git main_ref branch \<noteq> 0) \<and>
   apply_policy (check_freshness_in (\<lambda>_. None) branch main_ref) policy = Stale_Noop"
  by (simp add: apply_policy_def check_freshness_in_def rev_list_count_def [of "\<lambda>_. None"] Let_def
      split: stale_branch_policy.split)

section \<open>Events of a lane\<close>

datatype lane_event_name =
    Lane_Started | Lane_Ready | Lane_PromptMisdelivery | Lane_Blocked | Lane_Red | Lane_Green | Lane_CommitCreated
  | Lane_PrOpened | Lane_MergeReady | Lane_Finished | Lane_Failed | Lane_Reconciled | Lane_Merged | Lane_Superseded
  | Lane_Closed | Lane_BranchStaleAgainstMain

text \<open>The names on the wire (\<^verbatim>\<open>serde(rename)\<close>).\<close>

fun lane_event_wire :: "lane_event_name \<Rightarrow> rstring" where
  "lane_event_wire Lane_Started = lit ''lane.started''"
| "lane_event_wire Lane_Ready = lit ''lane.ready''"
| "lane_event_wire Lane_PromptMisdelivery = lit ''lane.prompt_misdelivery''"
| "lane_event_wire Lane_Blocked = lit ''lane.blocked''"
| "lane_event_wire Lane_Red = lit ''lane.red''"
| "lane_event_wire Lane_Green = lit ''lane.green''"
| "lane_event_wire Lane_CommitCreated = lit ''lane.commit.created''"
| "lane_event_wire Lane_PrOpened = lit ''lane.pr.opened''"
| "lane_event_wire Lane_MergeReady = lit ''lane.merge.ready''"
| "lane_event_wire Lane_Finished = lit ''lane.finished''"
| "lane_event_wire Lane_Failed = lit ''lane.failed''"
| "lane_event_wire Lane_Reconciled = lit ''lane.reconciled''"
| "lane_event_wire Lane_Merged = lit ''lane.merged''"
| "lane_event_wire Lane_Superseded = lit ''lane.superseded''"
| "lane_event_wire Lane_Closed = lit ''lane.closed''"
| "lane_event_wire Lane_BranchStaleAgainstMain = lit ''branch.stale_against_main''"

datatype lane_event_status =
    LaneStatus_Running | LaneStatus_Ready | LaneStatus_Blocked | LaneStatus_Red | LaneStatus_Green | LaneStatus_Completed
  | LaneStatus_Failed | LaneStatus_Reconciled | LaneStatus_Merged | LaneStatus_Superseded | LaneStatus_Closed

datatype lane_failure_class =
    Fail_PromptDelivery | Fail_TrustGate | Fail_BranchDivergence | Fail_Compile | Fail_Test | Fail_PluginStartup
  | Fail_McpStartup | Fail_McpHandshake | Fail_GatewayRouting | Fail_ToolRuntime | Fail_Infra

fun show_failure_class :: "lane_failure_class \<Rightarrow> rstring" where
  "show_failure_class Fail_PromptDelivery = lit ''prompt_delivery''"
| "show_failure_class Fail_TrustGate = lit ''trust_gate''"
| "show_failure_class Fail_BranchDivergence = lit ''branch_divergence''"
| "show_failure_class Fail_Compile = lit ''compile''"
| "show_failure_class Fail_Test = lit ''test''"
| "show_failure_class Fail_PluginStartup = lit ''plugin_startup''"
| "show_failure_class Fail_McpStartup = lit ''mcp_startup''"
| "show_failure_class Fail_McpHandshake = lit ''mcp_handshake''"
| "show_failure_class Fail_GatewayRouting = lit ''gateway_routing''"
| "show_failure_class Fail_ToolRuntime = lit ''tool_runtime''"
| "show_failure_class Fail_Infra = lit ''infra''"

record lane_event_blocker =
  blocker_class :: lane_failure_class
  blocker_detail :: rstring

definition show_blocker :: "lane_event_blocker \<Rightarrow> rstring" where
  "show_blocker b = show_failure_class (blocker_class b) @ lit '': '' @ blocker_detail b"

record lane_event =
  lane_event :: lane_event_name
  lane_status :: lane_event_status
  emitted_at :: rstring
  failure_class :: "lane_failure_class option"
  lane_detail :: "rstring option"
  lane_data :: "serde_value option"

definition lane_event_new :: "lane_event_name \<Rightarrow> lane_event_status \<Rightarrow> rstring \<Rightarrow> lane_event" where
  "lane_event_new event status at = \<lparr>lane_event = event, lane_status = status, emitted_at = at, failure_class = None,
     lane_detail = None, lane_data = None\<rparr>"

definition with_failure_class :: "lane_failure_class \<Rightarrow> lane_event \<Rightarrow> lane_event" where
  "with_failure_class c e = e\<lparr>failure_class := Some c\<rparr>"

definition with_detail :: "rstring \<Rightarrow> lane_event \<Rightarrow> lane_event" where
  "with_detail d e = e\<lparr>lane_detail := Some d\<rparr>"

definition with_optional_detail :: "rstring option \<Rightarrow> lane_event \<Rightarrow> lane_event" where
  "with_optional_detail d e = e\<lparr>lane_detail := d\<rparr>"

definition with_data :: "serde_value \<Rightarrow> lane_event \<Rightarrow> lane_event" where
  "with_data d e = e\<lparr>lane_data := Some d\<rparr>"

definition lane_started :: "rstring \<Rightarrow> lane_event" where
  "lane_started at = lane_event_new Lane_Started LaneStatus_Running at"

definition lane_finished :: "rstring \<Rightarrow> rstring option \<Rightarrow> lane_event" where
  "lane_finished at d = with_optional_detail d (lane_event_new Lane_Finished LaneStatus_Completed at)"

definition lane_blocked :: "rstring \<Rightarrow> lane_event_blocker \<Rightarrow> lane_event" where
  "lane_blocked at b = with_detail (blocker_detail b)
     (with_failure_class (blocker_class b) (lane_event_new Lane_Blocked LaneStatus_Blocked at))"

definition lane_failed :: "rstring \<Rightarrow> lane_event_blocker \<Rightarrow> lane_event" where
  "lane_failed at b = with_detail (blocker_detail b)
     (with_failure_class (blocker_class b) (lane_event_new Lane_Failed LaneStatus_Failed at))"

text \<open>The names on the wire and the names of the failure classes tell the values apart.\<close>

lemma lane_event_wire_inject: "lane_event_wire a = lane_event_wire b \<longleftrightarrow> a = b"
  by (cases a; cases b) simp_all

lemma show_failure_class_inject: "show_failure_class a = show_failure_class b \<longleftrightarrow> a = b"
  by (cases a; cases b) simp_all

end
