(* ===== verification/Lsp.thy ===== *)
theory Lsp imports Hooks Paths "HOL-Library.AList" "HOL-Library.Multiset" begin

text \<open>
  The registry of language servers (\<^verbatim>\<open>crates/runtime/src/lsp_client.rs\<close>): which server answers for a path, the diagnostics
  kept for it, and the dispatch of an action.  Each operation runs under the mutex, so it is one step.  A walk over the
  \<^verbatim>\<open>HashMap\<close> follows the order of the association list; no property depends on that order.
\<close>

section \<open>Data\<close>

datatype lsp_action =
    Lsp_Diagnostics | Lsp_Hover | Lsp_Definition | Lsp_References | Lsp_Completion | Lsp_Symbols | Lsp_Format

definition lsp_action_from_str :: "rstring \<Rightarrow> lsp_action option" where
  "lsp_action_from_str s =
     (if s = lit ''diagnostics'' then Some Lsp_Diagnostics
      else if s = lit ''hover'' then Some Lsp_Hover
      else if s \<in> {lit ''definition'', lit ''goto_definition''} then Some Lsp_Definition
      else if s \<in> {lit ''references'', lit ''find_references''} then Some Lsp_References
      else if s \<in> {lit ''completion'', lit ''completions''} then Some Lsp_Completion
      else if s \<in> {lit ''symbols'', lit ''document_symbols''} then Some Lsp_Symbols
      else if s \<in> {lit ''format'', lit ''formatting''} then Some Lsp_Format
      else None)"

record lsp_diagnostic =
  diag_path :: rstring
  diag_line :: nat
  diag_character :: nat
  diag_severity :: rstring
  diag_message :: rstring
  diag_source :: "rstring option"

datatype lsp_status = Lsp_Connected | Lsp_Disconnected | Lsp_Starting | Lsp_Error

fun show_lsp_status :: "lsp_status \<Rightarrow> rstring" where
  "show_lsp_status Lsp_Connected = lit ''connected''"
| "show_lsp_status Lsp_Disconnected = lit ''disconnected''"
| "show_lsp_status Lsp_Starting = lit ''starting''"
| "show_lsp_status Lsp_Error = lit ''error''"

record lsp_server =
  lsp_language :: rstring
  lsp_status :: lsp_status
  lsp_root :: "rstring option"
  lsp_capabilities :: "rstring list"
  lsp_diagnostics :: "lsp_diagnostic list"

type_synonym lsp_registry = "(rstring \<times> lsp_server) list"

section \<open>Operations\<close>

definition lsp_register :: "rstring \<Rightarrow> lsp_status \<Rightarrow> rstring option \<Rightarrow> rstring list \<Rightarrow> lsp_registry \<Rightarrow> lsp_registry" where
  "lsp_register language status root capabilities r = AList.update language
     \<lparr>lsp_language = language, lsp_status = status, lsp_root = root, lsp_capabilities = capabilities, lsp_diagnostics = []\<rparr> r"

definition lsp_get :: "lsp_registry \<Rightarrow> rstring \<Rightarrow> lsp_server option" where
  "lsp_get r language = map_of r language"

definition extension_language :: "rstring \<Rightarrow> rstring option" where
  "extension_language ext =
     (if ext = lit ''rs'' then Some (lit ''rust'')
      else if ext \<in> {lit ''ts'', lit ''tsx''} then Some (lit ''typescript'')
      else if ext \<in> {lit ''js'', lit ''jsx''} then Some (lit ''javascript'')
      else if ext = lit ''py'' then Some (lit ''python'')
      else if ext = lit ''go'' then Some (lit ''go'')
      else if ext = lit ''java'' then Some (lit ''java'')
      else if ext \<in> {lit ''c'', lit ''h''} then Some (lit ''c'')
      else if ext \<in> {lit ''cpp'', lit ''hpp'', lit ''cc''} then Some (lit ''cpp'')
      else if ext = lit ''rb'' then Some (lit ''ruby'')
      else if ext = lit ''lua'' then Some (lit ''lua'')
      else None)"

definition find_server_for_path :: "lsp_registry \<Rightarrow> rstring \<Rightarrow> lsp_server option" where
  "find_server_for_path r path =
     Option.bind (extension_language (unwrap_or [] (path_extension path))) (lsp_get r)"

definition list_servers :: "lsp_registry \<Rightarrow> lsp_server list" where
  "list_servers r = map snd r"

definition lsp_modify :: "rstring \<Rightarrow> (lsp_server \<Rightarrow> lsp_server) \<Rightarrow> lsp_registry \<Rightarrow> (rstring + unit) \<times> lsp_registry" where
  "lsp_modify language f r = (case lsp_get r language of
     None \<Rightarrow> (Inl (lit ''LSP server not found for language: '' @ language), r)
   | Some s \<Rightarrow> (Inr (), AList.update language (f s) r))"

definition add_diagnostics :: "rstring \<Rightarrow> lsp_diagnostic list \<Rightarrow> lsp_registry \<Rightarrow> (rstring + unit) \<times> lsp_registry" where
  "add_diagnostics language ds = lsp_modify language (\<lambda>s. s\<lparr>lsp_diagnostics := lsp_diagnostics s @ ds\<rparr>)"

definition clear_diagnostics :: "rstring \<Rightarrow> lsp_registry \<Rightarrow> (rstring + unit) \<times> lsp_registry" where
  "clear_diagnostics language = lsp_modify language (\<lambda>s. s\<lparr>lsp_diagnostics := []\<rparr>)"

definition all_diagnostics :: "lsp_registry \<Rightarrow> lsp_diagnostic list" where
  "all_diagnostics r = concat (map lsp_diagnostics (list_servers r))"

definition get_diagnostics :: "lsp_registry \<Rightarrow> rstring \<Rightarrow> lsp_diagnostic list" where
  "get_diagnostics r path = filter (\<lambda>d. diag_path d = path) (all_diagnostics r)"

definition lsp_disconnect :: "rstring \<Rightarrow> lsp_registry \<Rightarrow> lsp_server option \<times> lsp_registry" where
  "lsp_disconnect language r = (lsp_get r language, AList.delete language r)"

definition lsp_len :: "lsp_registry \<Rightarrow> nat" where
  "lsp_len r = length r"

definition opt_string :: "rstring option \<Rightarrow> serde_value" where
  "opt_string s = (case s of None \<Rightarrow> SNull | Some x \<Rightarrow> SString x)"

definition opt_u32 :: "nat option \<Rightarrow> serde_value" where
  "opt_u32 n = (case n of None \<Rightarrow> SNull | Some x \<Rightarrow> SNumber (show_nat x))"

definition diagnostic_json :: "lsp_diagnostic \<Rightarrow> serde_value" where
  "diagnostic_json d = SObject [(lit ''path'', SString (diag_path d)), (lit ''line'', SNumber (show_nat (diag_line d))),
     (lit ''character'', SNumber (show_nat (diag_character d))), (lit ''severity'', SString (diag_severity d)),
     (lit ''message'', SString (diag_message d)), (lit ''source'', opt_string (diag_source d))]"

definition diagnostics_reply :: "rstring option \<Rightarrow> lsp_diagnostic list \<Rightarrow> serde_value" where
  "diagnostics_reply path ds = SObject ((lit ''action'', SString (lit ''diagnostics'')) #
     (case path of None \<Rightarrow> [] | Some p \<Rightarrow> [(lit ''path'', SString p)]) @
     [(lit ''diagnostics'', SArray (map diagnostic_json ds)), (lit ''count'', SNumber (show_nat (length ds)))])"

definition lsp_dispatch :: "lsp_registry \<Rightarrow> rstring \<Rightarrow> rstring option \<Rightarrow> nat option \<Rightarrow> nat option \<Rightarrow> rstring + serde_value" where
  "lsp_dispatch r action path line character =
     rbind (ok_or (lit ''unknown LSP action: '' @ action) (lsp_action_from_str action)) (\<lambda>a.
     if a = Lsp_Diagnostics then
       Inr (diagnostics_reply path (case path of Some p \<Rightarrow> get_diagnostics r p | None \<Rightarrow> all_diagnostics r))
     else
       rbind (ok_or (lit ''path is required for this LSP action'') path) (\<lambda>path.
       rbind (ok_or (lit ''no LSP server available for path: '' @ path) (find_server_for_path r path)) (\<lambda>server.
       if lsp_status server \<noteq> Lsp_Connected then
         Inl (lit ''LSP server for '' @ [39] @ lsp_language server @ [39] @ lit '' is not connected (status: '' @
           show_lsp_status (lsp_status server) @ lit '')'')
       else Inr (SObject [(lit ''action'', SString action), (lit ''path'', SString path), (lit ''line'', opt_u32 line),
           (lit ''character'', opt_u32 character), (lit ''language'', SString (lsp_language server)),
           (lit ''status'', SString (lit ''dispatched'')),
           (lit ''message'', SString (lit ''LSP '' @ action @ lit '' dispatched to '' @ lsp_language server @ lit '' server''))]))))"

section \<open>The invariant\<close>

definition lsp_ok :: "lsp_registry \<Rightarrow> bool" where
  "lsp_ok r \<longleftrightarrow> distinct (map fst r) \<and> (\<forall>(l, s) \<in> set r. lsp_language s = l)"

inductive lsp_step :: "lsp_registry \<Rightarrow> lsp_registry \<Rightarrow> bool" where
  "lsp_step r (lsp_register l st root caps r)"
| "lsp_step r (snd (add_diagnostics l ds r))"
| "lsp_step r (snd (clear_diagnostics l r))"
| "lsp_step r (snd (lsp_disconnect l r))"

lemma set_update_subset: "set (AList.update l s r) \<subseteq> insert (l, s) (set r)"
  by (induction r) auto

lemma lsp_ok_update: "lsp_ok r \<Longrightarrow> lsp_language s = l \<Longrightarrow> lsp_ok (AList.update l s r)"
  using set_update_subset [of l s r] by (auto simp: lsp_ok_def distinct_update)

lemma lsp_ok_get: "lsp_ok r \<Longrightarrow> lsp_get r l = Some s \<Longrightarrow> lsp_language s = l"
  by (auto simp: lsp_ok_def lsp_get_def dest: map_of_SomeD)

lemma lsp_ok_modify: "lsp_ok r \<Longrightarrow> (\<And>s. lsp_language (f s) = lsp_language s) \<Longrightarrow> lsp_ok (snd (lsp_modify l f r))"
  by (auto simp: lsp_modify_def lsp_ok_get intro!: lsp_ok_update split: option.splits)

lemma lsp_ok_delete: "lsp_ok r \<Longrightarrow> lsp_ok (AList.delete l r)"
  by (auto simp: lsp_ok_def distinct_delete) (auto simp: AList.delete_eq)

lemma lsp_ok_step: "lsp_step r r' \<Longrightarrow> lsp_ok r \<Longrightarrow> lsp_ok r'"
  by (induction rule: lsp_step.induct)
     (auto simp: lsp_register_def add_diagnostics_def clear_diagnostics_def lsp_disconnect_def
       intro: lsp_ok_update lsp_ok_modify lsp_ok_delete)

lemma lsp_reachable_ok: "lsp_step\<^sup>*\<^sup>* [] r \<Longrightarrow> lsp_ok r"
  by (induction rule: rtranclp_induct) (simp add: lsp_ok_def, blast intro: lsp_ok_step)

text \<open>
  In every registry that the operations reach, an action other than diagnostics is dispatched exactly when it is
  known, names a path whose extension belongs to a language, and the server registered for that language is connected; the
  answer then names that language.
\<close>

theorem lsp_dispatch_contract:
  assumes "lsp_step\<^sup>*\<^sup>* [] r" and "lsp_action_from_str action = Some a" and "a \<noteq> Lsp_Diagnostics"
  shows "is_ok (lsp_dispatch r action path line character) \<longleftrightarrow>
           (\<exists>p language s. path = Some p \<and> extension_language (unwrap_or [] (path_extension p)) = Some language \<and>
              lsp_get r language = Some s \<and> lsp_status s = Lsp_Connected \<and>
              lsp_dispatch r action path line character = Inr (SObject [(lit ''action'', SString action),
                (lit ''path'', SString p), (lit ''line'', opt_u32 line), (lit ''character'', opt_u32 character),
                (lit ''language'', SString language), (lit ''status'', SString (lit ''dispatched'')),
                (lit ''message'', SString (lit ''LSP '' @ action @ lit '' dispatched to '' @ language @ lit '' server''))]))"
proof -
  have ok: "lsp_language s = l" if "lsp_get r l = Some s" for l s
    using lsp_ok_get [OF lsp_reachable_ok [OF assms(1)] that] .
  show ?thesis
    using assms(2,3)
    by (cases path) (auto simp: lsp_dispatch_def find_server_for_path_def ok_or_def bind_eq_Some_conv ok split: option.splits if_splits)
qed

theorem lsp_dispatch_contract_witness:
  "is_ok (lsp_dispatch (lsp_register (lit ''rust'') Lsp_Connected None [] []) (lit ''hover'') (Some (lit ''a.rs'')) None None)"
proof -
  have s: "lsp_step\<^sup>*\<^sup>* [] (lsp_register (lit ''rust'') Lsp_Connected None [] [])" by (rule r_into_rtranclp, rule lsp_step.intros)
  have a: "lsp_action_from_str (lit ''hover'') = Some Lsp_Hover" by code_simp
  have e: "extension_language (unwrap_or [] (path_extension (lit ''a.rs''))) = Some (lit ''rust'')" by code_simp
  have g: "lsp_get (lsp_register (lit ''rust'') Lsp_Connected None [] []) (lit ''rust'') =
      Some \<lparr>lsp_language = lit ''rust'', lsp_status = Lsp_Connected, lsp_root = None, lsp_capabilities = [], lsp_diagnostics = []\<rparr>"
    by (simp add: lsp_get_def lsp_register_def)
  show ?thesis
    using lsp_dispatch_contract [OF s a, of "Some (lit ''a.rs'')" None None]
    by (simp add: e g lsp_dispatch_def a find_server_for_path_def)
qed

lemma all_diagnostics_update:
  assumes "lsp_ok r" and "lsp_get r l = Some s"
  shows "mset (all_diagnostics (AList.update l s' r)) + mset (lsp_diagnostics s) =
           mset (all_diagnostics r) + mset (lsp_diagnostics s')"
  using assms
proof (induction r)
  case (Cons x r)
  obtain k t where x: "x = (k, t)" by fastforce
  show ?case
  proof (cases "k = l")
    case True
    then show ?thesis using Cons.prems by (simp add: x all_diagnostics_def list_servers_def lsp_get_def)
  next
    case False
    have "lsp_ok r" and "lsp_get r l = Some s" using Cons.prems False by (auto simp: x lsp_ok_def lsp_get_def)
    then show ?thesis using Cons.IH False by (simp add: x all_diagnostics_def list_servers_def)
  qed
qed (simp add: lsp_get_def)

text \<open>
  Diagnostics: those added for a language are the only ones a file gains, behind or between those it had; clearing
  a language removes exactly its own, and an unknown language changes nothing and is reported.
\<close>

theorem diagnostics_contract:
  assumes "lsp_step\<^sup>*\<^sup>* [] r"
  shows "case lsp_get r l of
      None \<Rightarrow> add_diagnostics l ds r = (Inl (lit ''LSP server not found for language: '' @ l), r) \<and>
        clear_diagnostics l r = (Inl (lit ''LSP server not found for language: '' @ l), r)
    | Some s \<Rightarrow>
        mset (get_diagnostics (snd (add_diagnostics l ds r)) path) =
          mset (get_diagnostics r path) + mset (filter (\<lambda>d. diag_path d = path) ds) \<and>
        mset (get_diagnostics (snd (clear_diagnostics l r)) path) + mset (filter (\<lambda>d. diag_path d = path) (lsp_diagnostics s)) =
          mset (get_diagnostics r path)"
proof (cases "lsp_get r l")
  case None
  then show ?thesis by (simp add: add_diagnostics_def clear_diagnostics_def lsp_modify_def)
next
  case (Some s)
  note upd = all_diagnostics_update [OF lsp_reachable_ok [OF assms] Some]
  have only: "filter_mset P (mset (all_diagnostics (AList.update l s' r))) + filter_mset P (mset (lsp_diagnostics s)) =
      filter_mset P (mset (all_diagnostics r)) + filter_mset P (mset (lsp_diagnostics s'))" for s' P
    using arg_cong [OF upd, of "filter_mset P" s'] by simp
  show ?thesis
    using only [of "\<lambda>d. diag_path d = path" "s\<lparr>lsp_diagnostics := lsp_diagnostics s @ ds\<rparr>"]
      only [of "\<lambda>d. diag_path d = path" "s\<lparr>lsp_diagnostics := []\<rparr>"]
    by (simp add: Some add_diagnostics_def clear_diagnostics_def lsp_modify_def get_diagnostics_def mset_filter
        add.commute add.left_commute)
qed

end
