(* ===== verification/Mcp.thy ===== *)
theory Mcp imports Config Utf8 begin

text \<open>
  Names, signatures and transports of MCP servers (\<^verbatim>\<open>crates/runtime/src/mcp.rs\<close>, \<^verbatim>\<open>mcp_client.rs\<close>): the
  normalization of names, the names under which tools are offered, the signature that finds duplicate
  servers, the hash that finds changed configurations, and the transport a client is started with.

  Slicing a string inside a char panics; such a result is \<open>Inl Slice_Panic\<close>.
\<close>

unbundle bit_operations_syntax

section \<open>Names\<close>

definition is_name_char :: "rchar \<Rightarrow> bool" where
  "is_name_char c \<longleftrightarrow> 97 \<le> c \<and> c \<le> 122 \<or> 65 \<le> c \<and> c \<le> 90 \<or> 48 \<le> c \<and> c \<le> 57 \<or> c = 95 \<or> c = 45"

fun collapse_underscores :: "bool \<Rightarrow> rstring \<Rightarrow> rstring" where
  "collapse_underscores last_was_underscore [] = []"
| "collapse_underscores last_was_underscore (c # s) =
     (if c = 95 then (if last_was_underscore then [] else [c]) @ collapse_underscores True s
      else c # collapse_underscores False s)"

definition normalize_name_for_mcp :: "rstring \<Rightarrow> rstring" where
  "normalize_name_for_mcp name =
     (let normalized = map (\<lambda>c. if is_name_char c then c else 95) name
      in if starts_with name (lit ''claude.ai '') then trim_matches 95 (collapse_underscores False normalized) else normalized)"

definition mcp_tool_prefix :: "rstring \<Rightarrow> rstring" where
  "mcp_tool_prefix server = lit ''mcp__'' @ normalize_name_for_mcp server @ lit ''__''"

definition mcp_tool_name :: "rstring \<Rightarrow> rstring \<Rightarrow> rstring" where
  "mcp_tool_name server tool = mcp_tool_prefix server @ normalize_name_for_mcp tool"

section \<open>Signatures\<close>

text \<open>\<^verbatim>\<open>u8::from_str_radix(hex, 16)\<close> of the two bytes after a percent sign: a plus sign may come first.\<close>

definition radix16 :: "byte \<Rightarrow> byte \<Rightarrow> nat option" where
  "radix16 x y = (if x = 43 then to_digit_16 y
     else (case (to_digit_16 x, to_digit_16 y) of (Some hi, Some lo) \<Rightarrow> Some (hi * 16 + lo) | _ \<Rightarrow> None))"

text \<open>
  The loop over the bytes.  The slice of two bytes ends inside a char when the byte after it is a continuation.
\<close>

fun percent_decode_bytes :: "byte list \<Rightarrow> panic + byte list" where
  "percent_decode_bytes [] = Inr []"
| "percent_decode_bytes (b # bs) = (case (b = 37, bs) of
     (True, x # y # rest) \<Rightarrow>
       if rest \<noteq> [] \<and> 0x80 \<le> hd rest \<and> hd rest \<le> 0xBF then Inl Slice_Panic
       else (case radix16 x y of
         Some byte \<Rightarrow> rbind (percent_decode_bytes rest) (\<lambda>decoded. Inr (byte # decoded))
       | None \<Rightarrow> rbind (percent_decode_bytes bs) (\<lambda>decoded. Inr (b # decoded)))
   | _ \<Rightarrow> rbind (percent_decode_bytes bs) (\<lambda>decoded. Inr ((if b = 43 then 32 else b) # decoded)))"

definition mcp_percent_decode :: "rstring \<Rightarrow> panic + rstring" where
  "mcp_percent_decode v = rbind (percent_decode_bytes (as_bytes v)) (\<lambda>decoded. Inr (from_utf8_lossy decoded))"

fun find_mcp_url :: "rstring list \<Rightarrow> rstring option" where
  "find_mcp_url [] = None"
| "find_mcp_url (pair # pairs) = (case split_once pair [61] of
     Some (key, v) \<Rightarrow> if key = lit ''mcp_url'' then Some v else find_mcp_url pairs
   | None \<Rightarrow> find_mcp_url pairs)"

definition unwrap_ccr_proxy_url :: "rstring \<Rightarrow> panic + rstring" where
  "unwrap_ccr_proxy_url url =
     (if \<not> (str_contains url (lit ''/v2/session_ingress/shttp/mcp/'') \<or> str_contains url (lit ''/v2/ccr-sessions/'')) then Inr url
      else (case split_once url [63] of
        None \<Rightarrow> Inr url
      | Some (_, query) \<Rightarrow> (case find_mcp_url (split_on (\<lambda>c. c = 38) query) of
          Some v \<Rightarrow> mcp_percent_decode v
        | None \<Rightarrow> Inr url)))"

definition escape_part :: "rstring \<Rightarrow> rstring" where
  "escape_part part = concat (map (\<lambda>c. if c = c_backslash \<or> c = 124 then [c_backslash, c] else [c]) part)"

definition render_command_signature :: "rstring list \<Rightarrow> rstring" where
  "render_command_signature command = lit ''['' @ join [124] (map escape_part command) @ lit '']''"

definition render_env_signature :: "(rstring \<times> rstring) list \<Rightarrow> rstring" where
  "render_env_signature m = join [59] (map (\<lambda>(key, v). key @ lit ''='' @ v) m)"

definition render_oauth_signature :: "mcp_oauth_config option \<Rightarrow> rstring" where
  "render_oauth_signature oauth = (case oauth of
     None \<Rightarrow> []
   | Some o1 \<Rightarrow> unwrap_or [] (mcp_client_id o1) @ lit ''|'' @
       (case mcp_callback_port o1 of None \<Rightarrow> [] | Some port \<Rightarrow> show_nat (unat port)) @ lit ''|'' @
       unwrap_or [] (auth_server_metadata_url o1) @ lit ''|'' @
       (case xaa o1 of None \<Rightarrow> [] | Some flag \<Rightarrow> if flag then lit ''true'' else lit ''false''))"

definition mcp_server_signature :: "mcp_server_config \<Rightarrow> panic + rstring option" where
  "mcp_server_signature config = (case config of
     Mcp_Stdio c \<Rightarrow> Inr (Some (lit ''stdio:'' @ render_command_signature (stdio_command c # stdio_args c)))
   | Mcp_Sse c \<Rightarrow> rbind (unwrap_ccr_proxy_url (remote_url c)) (\<lambda>url. Inr (Some (lit ''url:'' @ url)))
   | Mcp_Http c \<Rightarrow> rbind (unwrap_ccr_proxy_url (remote_url c)) (\<lambda>url. Inr (Some (lit ''url:'' @ url)))
   | Mcp_Ws c \<Rightarrow> rbind (unwrap_ccr_proxy_url (ws_url c)) (\<lambda>url. Inr (Some (lit ''url:'' @ url)))
   | Mcp_ManagedProxy c \<Rightarrow> rbind (unwrap_ccr_proxy_url (proxy_url c)) (\<lambda>url. Inr (Some (lit ''url:'' @ url)))
   | Mcp_Sdk _ \<Rightarrow> Inr None)"

definition fnv_step :: "u64 \<Rightarrow> byte \<Rightarrow> u64" where
  "fnv_step hash b = (hash XOR of_nat b) * 0x100000001b3"

definition stable_hex_hash :: "rstring \<Rightarrow> rstring" where
  "stable_hex_hash v = (let digits = show_hex (unat (foldl fnv_step 0xcbf29ce484222325 (as_bytes v)))
     in replicate (16 - length digits) c_zero @ digits)"

definition render_remote :: "string \<Rightarrow> mcp_remote_config \<Rightarrow> rstring" where
  "render_remote kind c = lit kind @ lit ''|'' @ remote_url c @ lit ''|'' @ render_env_signature (remote_headers c) @ lit ''|'' @
     unwrap_or [] (remote_helper c) @ lit ''|'' @ render_oauth_signature (remote_oauth c)"

definition render_config :: "mcp_server_config \<Rightarrow> rstring" where
  "render_config config = (case config of
     Mcp_Stdio c \<Rightarrow> lit ''stdio|'' @ stdio_command c @ lit ''|'' @ render_command_signature (stdio_args c) @ lit ''|'' @
       render_env_signature (stdio_env c) @ lit ''|'' @
       (case tool_call_timeout_ms c of None \<Rightarrow> [] | Some ms \<Rightarrow> show_nat (unat ms))
   | Mcp_Sse c \<Rightarrow> render_remote ''sse'' c
   | Mcp_Http c \<Rightarrow> render_remote ''http'' c
   | Mcp_Ws c \<Rightarrow> lit ''ws|'' @ ws_url c @ lit ''|'' @ render_env_signature (ws_headers c) @ lit ''|'' @ unwrap_or [] (ws_helper c)
   | Mcp_Sdk name \<Rightarrow> lit ''sdk|'' @ name
   | Mcp_ManagedProxy c \<Rightarrow> lit ''claudeai-proxy|'' @ proxy_url c @ lit ''|'' @ proxy_id c)"

definition scoped_mcp_config_hash :: "scoped_server \<Rightarrow> rstring" where
  "scoped_mcp_config_hash s = stable_hex_hash (render_config (server_config s))"

section \<open>Transports\<close>

datatype mcp_client_auth = Auth_None | Auth_OAuth mcp_oauth_config

record mcp_remote_transport =
  transport_url :: rstring
  transport_headers :: "(rstring \<times> rstring) list"
  transport_helper :: "rstring option"
  transport_auth :: mcp_client_auth

datatype mcp_client_transport =
    Client_Stdio mcp_stdio_config
  | Client_Sse mcp_remote_transport
  | Client_Http mcp_remote_transport
  | Client_WebSocket mcp_remote_transport
  | Client_Sdk rstring
  | Client_ManagedProxy mcp_proxy_config

record mcp_client_bootstrap =
  bootstrap_server :: rstring
  normalized_name :: rstring
  tool_prefix :: rstring
  bootstrap_signature :: "rstring option"
  bootstrap_transport :: mcp_client_transport

definition auth_from_oauth :: "mcp_oauth_config option \<Rightarrow> mcp_client_auth" where
  "auth_from_oauth oauth = (case oauth of None \<Rightarrow> Auth_None | Some c \<Rightarrow> Auth_OAuth c)"

fun requires_user_auth :: "mcp_client_auth \<Rightarrow> bool" where
  "requires_user_auth (Auth_OAuth _) = True"
| "requires_user_auth Auth_None = False"

definition remote_transport :: "mcp_remote_config \<Rightarrow> mcp_remote_transport" where
  "remote_transport c = \<lparr>transport_url = remote_url c, transport_headers = remote_headers c,
     transport_helper = remote_helper c, transport_auth = auth_from_oauth (remote_oauth c)\<rparr>"

definition transport_from_config :: "mcp_server_config \<Rightarrow> mcp_client_transport" where
  "transport_from_config config = (case config of
     Mcp_Stdio c \<Rightarrow> Client_Stdio c
   | Mcp_Sse c \<Rightarrow> Client_Sse (remote_transport c)
   | Mcp_Http c \<Rightarrow> Client_Http (remote_transport c)
   | Mcp_Ws c \<Rightarrow> Client_WebSocket \<lparr>transport_url = ws_url c, transport_headers = ws_headers c,
       transport_helper = ws_helper c, transport_auth = Auth_None\<rparr>
   | Mcp_Sdk name \<Rightarrow> Client_Sdk name
   | Mcp_ManagedProxy c \<Rightarrow> Client_ManagedProxy c)"

definition resolved_tool_call_timeout_ms :: "mcp_stdio_config \<Rightarrow> u64" where
  "resolved_tool_call_timeout_ms c = unwrap_or 60000 (tool_call_timeout_ms c)"

definition bootstrap_from_scoped_config :: "rstring \<Rightarrow> scoped_server \<Rightarrow> panic + mcp_client_bootstrap" where
  "bootstrap_from_scoped_config server s =
     rbind (mcp_server_signature (server_config s)) (\<lambda>signature.
       Inr \<lparr>bootstrap_server = server, normalized_name = normalize_name_for_mcp server, tool_prefix = mcp_tool_prefix server,
         bootstrap_signature = signature, bootstrap_transport = transport_from_config (server_config s)\<rparr>)"

section \<open>Names: properties\<close>

lemma set_collapse: "set (collapse_underscores b s) \<subseteq> set s"
  by (induction b s rule: collapse_underscores.induct) auto

lemma normalize_chars: "list_all is_name_char (normalize_name_for_mcp name)"
proof -
  let ?n = "map (\<lambda>c. if is_name_char c then c else 95) name"
  have "is_name_char 95" by (simp add: is_name_char_def)
  then have n: "set ?n \<subseteq> {c. is_name_char c}" by auto
  moreover have "set (trim_matches 95 (collapse_underscores False ?n)) \<subseteq> set ?n"
    by (rule subset_trans [OF set_trim_matches set_collapse])
  ultimately have t: "set (trim_matches 95 (collapse_underscores False ?n)) \<subseteq> {c. is_name_char c}" by (rule subset_trans [rotated])
  have "set (normalize_name_for_mcp name) \<subseteq> {c. is_name_char c}"
    unfolding normalize_name_for_mcp_def Let_def using n t by (cases "starts_with name (lit ''claude.ai '')") simp_all
  then show ?thesis by (auto simp: list_all_iff)
qed

lemma normalize_name_chars: "list_all is_name_char s \<Longrightarrow> normalize_name_for_mcp s = s"
proof -
  assume s: "list_all is_name_char s"
  then have "map (\<lambda>c. if is_name_char c then c else 95) s = s" by (induction s) auto
  moreover have "\<not> starts_with s (lit ''claude.ai '')"
  proof
    assume "starts_with s (lit ''claude.ai '')"
    then have "set (lit ''claude.ai '') \<subseteq> set s" by (auto simp: starts_with_def dest: set_mono_prefix)
    then show False using s by (auto simp: lit_def list_all_iff is_name_char_def)
  qed
  ultimately show ?thesis by (simp add: normalize_name_for_mcp_def)
qed

text \<open>
  A normalized name has only letters, digits, underscores and dashes, and normalizing it again changes
  nothing; but the names of tools are not unique: tools of different servers get the same name.\<close>

theorem tool_names:
  "list_all is_name_char (mcp_tool_name server tool) \<and>
   normalize_name_for_mcp (normalize_name_for_mcp server) = normalize_name_for_mcp server \<and>
   mcp_tool_name (lit ''a'') (lit ''b__c'') = mcp_tool_name (lit ''a__b'') (lit ''c'')"
  using normalize_chars [of server] normalize_chars [of tool] normalize_name_chars
  by (simp add: mcp_tool_name_def mcp_tool_prefix_def lit_def is_name_char_def)

section \<open>Signatures: properties\<close>

fun read_parts :: "rstring \<Rightarrow> rstring \<Rightarrow> rstring list" where
  "read_parts acc [] = [acc]"
| "read_parts acc (c # s) =
     (if c = c_backslash then (case s of [] \<Rightarrow> [acc] | d # s1 \<Rightarrow> read_parts (acc @ [d]) s1)
      else if c = 124 then acc # read_parts [] s
      else read_parts (acc @ [c]) s)"

lemma read_escaped: "read_parts acc (escape_part part @ rest) = read_parts (acc @ part) rest"
  by (induction part arbitrary: acc) (auto simp: escape_part_def)

lemma read_joined: "parts \<noteq> [] \<Longrightarrow> read_parts [] (join [124] (map escape_part parts)) = parts"
proof (induction "[124] :: rstring" parts rule: join.induct)
  case (2 x)
  then show ?case using read_escaped [of "[]" x "[]"] by simp
next
  case (3 x y ys)
  then show ?case using read_escaped [of "[]" x "124 # join [124] (map escape_part (y # ys))"] by simp
qed simp

lemma command_signature_inject:
  assumes "a \<noteq> []" "b \<noteq> []" "render_command_signature a = render_command_signature b"
  shows "a = b"
proof -
  have "join [124] (map escape_part a) = join [124] (map escape_part b)"
    using assms(3) by (simp add: render_command_signature_def)
  then show ?thesis by (metis read_joined assms(1,2))
qed

text \<open>
  The signature of a local server tells commands apart: two have the same one exactly when command and
  arguments are the same, and none is taken for that of a remote server.\<close>

theorem stdio_signature_faithful:
  "(mcp_server_signature (Mcp_Stdio c) = mcp_server_signature (Mcp_Stdio d) \<longleftrightarrow>
      stdio_command c = stdio_command d \<and> stdio_args c = stdio_args d) \<and>
   (\<forall>url. mcp_server_signature (Mcp_Stdio c) \<noteq> Inr (Some (lit ''url:'' @ url)))"
proof -
  have "mcp_server_signature (Mcp_Stdio c) = mcp_server_signature (Mcp_Stdio d) \<longleftrightarrow>
      render_command_signature (stdio_command c # stdio_args c) = render_command_signature (stdio_command d # stdio_args d)"
    by (simp add: mcp_server_signature_def)
  also have "\<dots> \<longleftrightarrow> stdio_command c # stdio_args c = stdio_command d # stdio_args d"
    using command_signature_inject [of "stdio_command c # stdio_args c" "stdio_command d # stdio_args d"] by auto
  finally show ?thesis by (simp add: mcp_server_signature_def) (simp add: lit_def)
qed

text \<open>
  The hash of a configuration is made of text in which names and values are not escaped: two servers with
  different environments have the same one, so the change from one to the other goes unnoticed.\<close>

theorem config_hash_collision:
  "let server = (\<lambda>environment. \<lparr>server_scope = scope, server_config = Mcp_Stdio \<lparr>stdio_command = command, stdio_args = args,
       stdio_env = environment, tool_call_timeout_ms = timeout\<rparr>\<rparr>)
   in server [(lit ''A'', lit ''1;B=2'')] \<noteq> server [(lit ''A'', lit ''1''), (lit ''B'', lit ''2'')] \<and>
      scoped_mcp_config_hash (server [(lit ''A'', lit ''1;B=2'')]) =
      scoped_mcp_config_hash (server [(lit ''A'', lit ''1''), (lit ''B'', lit ''2'')])"
  by (simp add: scoped_mcp_config_hash_def render_config_def render_env_signature_def lit_def)

text \<open>
  A proxy address whose query holds a percent sign followed by an ASCII char and a longer one makes the
  signature panic.\<close>

theorem proxy_url_panics:
  "mcp_server_signature (Mcp_ManagedProxy \<lparr>proxy_url = lit ''/v2/ccr-sessions/?mcp_url=%a'' @ [0xE9], proxy_id = i\<rparr>) = Inl Slice_Panic"
proof -
  let ?url = "lit ''/v2/ccr-sessions/?mcp_url=%a'' @ [0xE9]"
  have c: "str_contains ?url (lit ''/v2/ccr-sessions/'')" by (simp add: lit_def)
  have q: "split_once ?url [63] = Some (lit ''/v2/ccr-sessions/'', lit ''mcp_url=%a'' @ [0xE9])"
    by (simp add: split_once_def lit_def)
  have f: "find_mcp_url (split_on (\<lambda>c. c = 38) (lit ''mcp_url=%a'' @ [0xE9])) = Some (lit ''%a'' @ [0xE9])"
    by (simp add: split_once_def lit_def)
  show ?thesis
    by (simp add: mcp_server_signature_def unwrap_ccr_proxy_url_def c q f del: append_assoc)
      (simp add: mcp_percent_decode_def lit_def utf8_bytes_def)
qed

end
