(* ===== verification/McpBridge.thy ===== *)
theory McpBridge imports Registry Mcp begin

text \<open>
  The registry of MCP servers behind the tools (\<^verbatim>\<open>crates/runtime/src/mcp_tool_bridge.rs\<close>) and the health of
  plugins made of servers (\<^verbatim>\<open>plugin_lifecycle.rs\<close>).

  The manager of the connections (\<^verbatim>\<open>McpServerManager\<close>) is a record of functions on a state of any type.  The thread
  and the runtime that a call creates, and their failures, are not modelled.
\<close>

section \<open>Data\<close>

datatype mcp_connection_status =
    Mcp_Disconnected | Mcp_Connecting | Mcp_Connected | Mcp_AuthRequired | Mcp_Error

fun show_connection_status :: "mcp_connection_status \<Rightarrow> rstring" where
  "show_connection_status Mcp_Disconnected = lit ''disconnected''"
| "show_connection_status Mcp_Connecting = lit ''connecting''"
| "show_connection_status Mcp_Connected = lit ''connected''"
| "show_connection_status Mcp_AuthRequired = lit ''auth_required''"
| "show_connection_status Mcp_Error = lit ''error''"

record mcp_resource_info =
  resource_uri :: rstring
  resource_name :: rstring
  resource_description :: "rstring option"
  mime_type :: "rstring option"

record mcp_tool_info =
  tool_info_name :: rstring
  tool_description :: "rstring option"
  tool_input_schema :: "serde_value option"

record mcp_server_state =
  state_server_name :: rstring
  connection_status :: mcp_connection_status
  server_tools :: "mcp_tool_info list"
  server_resources :: "mcp_resource_info list"
  server_info :: "rstring option"
  error_message :: "rstring option"

type_synonym server_map = "(rstring \<times> mcp_server_state) list"

record rpc_response =
  rpc_error :: "(int \<times> rstring) option"
  rpc_result :: "serde_value option"

record 'm manager_ops =
  discover_tools :: "'m \<Rightarrow> (rstring + unit) \<times> 'm"
  manager_call_tool :: "rstring \<Rightarrow> serde_value option \<Rightarrow> 'm \<Rightarrow> (rstring + rpc_response) \<times> 'm"
  manager_shutdown :: "'m \<Rightarrow> (rstring + unit) \<times> 'm"

section \<open>The registry\<close>

definition register_server :: "rstring \<Rightarrow> mcp_connection_status \<Rightarrow> mcp_tool_info list \<Rightarrow> mcp_resource_info list \<Rightarrow>
    rstring option \<Rightarrow> server_map \<Rightarrow> server_map" where
  "register_server name status tools resources info m = AList.update name
     \<lparr>state_server_name = name, connection_status = status, server_tools = tools, server_resources = resources,
      server_info = info, error_message = None\<rparr> m"

definition get_server :: "server_map \<Rightarrow> rstring \<Rightarrow> mcp_server_state option" where
  "get_server m name = map_of m name"

definition list_servers :: "server_map \<Rightarrow> mcp_server_state list" where
  "list_servers m = map snd m"

definition server_not_found :: "rstring \<Rightarrow> rstring" where
  "server_not_found name = lit ''server '' @ quoted name @ lit '' not found''"

text \<open>The state of a connected server, or the error that all operations share.\<close>

definition connected_server :: "server_map \<Rightarrow> rstring \<Rightarrow> rstring + mcp_server_state" where
  "connected_server m name = (case map_of m name of
     None \<Rightarrow> Inl (server_not_found name)
   | Some st \<Rightarrow> if connection_status st \<noteq> Mcp_Connected
       then Inl (lit ''server '' @ quoted name @ lit '' is not connected (status: '' @
         show_connection_status (connection_status st) @ lit '')'')
       else Inr st)"

definition list_resources :: "server_map \<Rightarrow> rstring \<Rightarrow> rstring + mcp_resource_info list" where
  "list_resources m name = rbind (connected_server m name) (\<lambda>st. Inr (server_resources st))"

definition read_resource :: "server_map \<Rightarrow> rstring \<Rightarrow> rstring \<Rightarrow> rstring + mcp_resource_info" where
  "read_resource m name uri = rbind (connected_server m name) (\<lambda>st.
     ok_or (lit ''resource '' @ quoted uri @ lit '' not found on server '' @ quoted name)
       (find (\<lambda>r. resource_uri r = uri) (server_resources st)))"

definition list_tools :: "server_map \<Rightarrow> rstring \<Rightarrow> rstring + mcp_tool_info list" where
  "list_tools m name = rbind (connected_server m name) (\<lambda>st. Inr (server_tools st))"

definition set_auth_status :: "rstring \<Rightarrow> mcp_connection_status \<Rightarrow> server_map \<Rightarrow> (rstring + unit) \<times> server_map" where
  "set_auth_status name status m = (case map_of m name of
     None \<Rightarrow> (Inl (server_not_found name), m)
   | Some st \<Rightarrow> (Inr (), AList.update name (st\<lparr>connection_status := status\<rparr>) m))"

definition disconnect :: "rstring \<Rightarrow> server_map \<Rightarrow> mcp_server_state option \<times> server_map" where
  "disconnect name m = (map_of m name, AList.delete name m)"

section \<open>Calls\<close>

definition rpc_outcome :: "rpc_response \<Rightarrow> rstring + serde_value" where
  "rpc_outcome r = (case rpc_error r of
     Some (code, message) \<Rightarrow> Inl (lit ''MCP server returned JSON-RPC error for tools/call: '' @ message @ lit '' ('' @ show_int code @ lit '')'')
   | None \<Rightarrow> ok_or (lit ''MCP server returned no result for tools/call'') (rpc_result r))"

definition spawn_tool_call :: "'m manager_ops \<Rightarrow> rstring \<Rightarrow> serde_value option \<Rightarrow> 'm \<Rightarrow> (rstring + serde_value) \<times> 'm" where
  "spawn_tool_call ops name arguments s = (case discover_tools ops s of
     (Inl e, s1) \<Rightarrow> (Inl e, s1)
   | (Inr _, s1) \<Rightarrow>
       let (response, s2) = manager_call_tool ops name arguments s1;
           (stopped, s3) = manager_shutdown ops s2
       in (case (response, stopped) of
             (Inr r, Inr _) \<Rightarrow> (rpc_outcome r, s3)
           | (Inl e, _) \<Rightarrow> (Inl e, s3)
           | (Inr _, Inl e) \<Rightarrow> (Inl e, s3)))"

text \<open>\<open>manager\<close> is \<^verbatim>\<open>None\<close> as long as no manager was set.\<close>

definition bridge_call_tool :: "'m manager_ops option \<Rightarrow> server_map \<Rightarrow> rstring \<Rightarrow> rstring \<Rightarrow> serde_value \<Rightarrow> 'm \<Rightarrow>
    (rstring + serde_value) \<times> 'm" where
  "bridge_call_tool manager m server tool arguments s = (case connected_server m server of
     Inl e \<Rightarrow> (Inl e, s)
   | Inr st \<Rightarrow>
       if \<not> list_ex (\<lambda>t. tool_info_name t = tool) (server_tools st)
       then (Inl (lit ''tool '' @ quoted tool @ lit '' not found on server '' @ quoted server), s)
       else (case manager of
         None \<Rightarrow> (Inl (lit ''MCP server manager is not configured''), s)
       | Some ops \<Rightarrow> spawn_tool_call ops (mcp_tool_name server tool) (if arguments = SNull then None else Some arguments) s))"

section \<open>Plugins\<close>

datatype server_status = Server_Healthy | Server_Degraded | Server_Failed

fun show_server_status :: "server_status \<Rightarrow> rstring" where
  "show_server_status Server_Healthy = lit ''healthy''"
| "show_server_status Server_Degraded = lit ''degraded''"
| "show_server_status Server_Failed = lit ''failed''"

record server_health =
  health_server :: rstring
  health_status :: server_status
  capabilities :: "rstring list"
  health_last_error :: "rstring option"

datatype plugin_state =
    Plugin_Unconfigured | Plugin_Validated | Plugin_Starting | Plugin_Healthy
  | Plugin_Degraded "rstring list" "server_health list"
  | Plugin_Failed rstring
  | Plugin_ShuttingDown | Plugin_Stopped

definition plugin_state_from_servers :: "server_health list \<Rightarrow> plugin_state" where
  "plugin_state_from_servers servers =
     (if servers = [] then Plugin_Failed (lit ''no servers available'')
      else let healthy = map health_server (filter (\<lambda>s. health_status s \<noteq> Server_Failed) servers);
               broken = filter (\<lambda>s. health_status s = Server_Failed) servers
        in if broken = [] \<and> \<not> list_ex (\<lambda>s. health_status s = Server_Degraded) servers then Plugin_Healthy
           else if healthy = [] then Plugin_Failed (lit ''all '' @ show_nat (length broken) @ lit '' servers failed'')
           else Plugin_Degraded healthy broken)"

fun show_plugin_state :: "plugin_state \<Rightarrow> rstring" where
  "show_plugin_state Plugin_Unconfigured = lit ''unconfigured''"
| "show_plugin_state Plugin_Validated = lit ''validated''"
| "show_plugin_state Plugin_Starting = lit ''starting''"
| "show_plugin_state Plugin_Healthy = lit ''healthy''"
| "show_plugin_state (Plugin_Degraded _ _) = lit ''degraded''"
| "show_plugin_state (Plugin_Failed _) = lit ''failed''"
| "show_plugin_state Plugin_ShuttingDown = lit ''shutting_down''"
| "show_plugin_state Plugin_Stopped = lit ''stopped''"

record plugin_healthcheck =
  check_plugin_name :: rstring
  check_state :: plugin_state
  check_servers :: "server_health list"
  last_check :: u64

definition healthcheck_new :: "u64 \<Rightarrow> rstring \<Rightarrow> server_health list \<Rightarrow> plugin_healthcheck" where
  "healthcheck_new now_secs name servers = \<lparr>check_plugin_name = name, check_state = plugin_state_from_servers servers,
     check_servers = servers, last_check = now_secs\<rparr>"

record discovery_result =
  discovered_tools :: "mcp_tool_info list"
  discovered_resources :: "mcp_resource_info list"
  discovery_partial :: bool

record degraded_mode =
  available_tools :: "rstring list"
  unavailable_tools :: "rstring list"
  degraded_reason :: rstring

definition degraded_mode_of :: "plugin_healthcheck \<Rightarrow> discovery_result \<Rightarrow> degraded_mode option" where
  "degraded_mode_of c discovery = (case check_state c of
     Plugin_Degraded healthy broken \<Rightarrow> Some
       \<lparr>available_tools = map tool_info_name (discovered_tools discovery),
        unavailable_tools = concat (map capabilities broken),
        degraded_reason = show_nat (length healthy) @ lit '' servers healthy, '' @ show_nat (length broken) @ lit '' servers failed''\<rparr>
   | _ \<Rightarrow> None)"

datatype plugin_lifecycle_event =
    Plugin_ConfigValidated | Plugin_StartupHealthy | Plugin_StartupDegraded | Plugin_StartupFailed | Plugin_Shutdown

fun show_plugin_event :: "plugin_lifecycle_event \<Rightarrow> rstring" where
  "show_plugin_event Plugin_ConfigValidated = lit ''config_validated''"
| "show_plugin_event Plugin_StartupHealthy = lit ''startup_healthy''"
| "show_plugin_event Plugin_StartupDegraded = lit ''startup_degraded''"
| "show_plugin_event Plugin_StartupFailed = lit ''startup_failed''"
| "show_plugin_event Plugin_Shutdown = lit ''shutdown''"

section \<open>Properties\<close>

definition bridge_ok :: "server_map \<Rightarrow> bool" where
  "bridge_ok m \<longleftrightarrow> distinct (map fst m) \<and> list_all (\<lambda>(name, st). state_server_name st = name) m"

inductive bridge_step :: "server_map \<Rightarrow> server_map \<Rightarrow> bool" where
  register: "bridge_step m (register_server name status tools resources info m)"
| auth: "bridge_step m (snd (set_auth_status name status m))"
| disconnect: "bridge_step m (snd (disconnect name m))"

lemma bridge_ok_iff: "bridge_ok m \<longleftrightarrow> distinct (map fst m) \<and> (\<forall>name st. map_of m name = Some st \<longrightarrow> state_server_name st = name)"
  by (auto simp: bridge_ok_def list_all_iff dest: map_of_SomeD)

lemma bridge_ok_update: "bridge_ok m \<Longrightarrow> state_server_name st = name \<Longrightarrow> bridge_ok (AList.update name st m)"
  by (auto simp: bridge_ok_iff distinct_update update_conv')

lemma bridge_ok_delete: "bridge_ok m \<Longrightarrow> bridge_ok (AList.delete name m)"
  by (auto simp: bridge_ok_iff distinct_delete delete_conv' map_of_delete split: if_splits)

lemma bridge_ok_register: "bridge_ok m \<Longrightarrow> bridge_ok (register_server name status tools resources info m)"
  unfolding register_server_def by (rule bridge_ok_update) simp_all

lemma bridge_ok_auth: "bridge_ok m \<Longrightarrow> bridge_ok (snd (set_auth_status name status m))"
  by (cases "map_of m name") (simp_all add: set_auth_status_def bridge_ok_update bridge_ok_iff [THEN iffD1])

lemma bridge_ok_disconnect: "bridge_ok m \<Longrightarrow> bridge_ok (snd (disconnect name m))"
  by (simp add: disconnect_def bridge_ok_delete)

interpretation bridge: step_invariant "\<lambda>m. m = []" bridge_step bridge_ok
proof
  show "bridge_step m m' \<Longrightarrow> bridge_ok m \<Longrightarrow> bridge_ok m'" for m m'
    by (cases rule: bridge_step.cases) (auto simp: bridge_ok_register bridge_ok_auth bridge_ok_disconnect)
qed (simp add: bridge_ok_def)

text \<open>
  In every reachable registry each server is there once, under its own name; and a tool call reaches the
  manager only for a connected server that lists the tool: otherwise the manager keeps its state and the
  caller gets an error.\<close>

theorem bridge_calls_guarded:
  assumes "bridge_step\<^sup>*\<^sup>* [] m"
  shows "bridge_ok m \<and>
    (case get_server m server of
       Some st \<Rightarrow> state_server_name st = server \<and>
         (if connection_status st = Mcp_Connected \<and> tool \<in> tool_info_name ` set (server_tools st) then True
          else snd (bridge_call_tool manager m server tool arguments s) = s \<and> \<not> is_ok (fst (bridge_call_tool manager m server tool arguments s)))
     | None \<Rightarrow> bridge_call_tool manager m server tool arguments s = (Inl (server_not_found server), s))"
proof -
  have ok: "bridge_ok m" using bridge.reachable_inv [OF refl assms] .
  then show ?thesis
    by (auto simp: bridge_ok_iff get_server_def bridge_call_tool_def connected_server_def list_ex_iff image_iff split: option.split)
qed

theorem bridge_calls_guarded_witness:
  "bridge_call_tool None (register_server (lit ''a'') Mcp_Connecting [] [] None []) (lit ''b'') (lit ''t'') SNull (0 :: nat) =
     (Inl (server_not_found (lit ''b'')), 0)"
proof -
  have "bridge_step\<^sup>*\<^sup>* [] (register_server (lit ''a'') Mcp_Connecting [] [] None [])"
    by (rule r_into_rtranclp, rule bridge_step.register)
  from bridge_calls_guarded [OF this, where server = "lit ''b''" and tool = "lit ''t''" and manager = None and arguments = SNull and s = "0 :: nat"] show ?thesis
    by (simp add: get_server_def register_server_def)
qed

text \<open>
  The state of a plugin: healthy exactly when it has servers and all of them are healthy, failed exactly
  when it has none or all failed, and degraded otherwise, with the names of those that did not fail and the
  reports of those that did; only then is there a degraded mode.\<close>

theorem plugin_state_contract:
  "let state = plugin_state_from_servers servers; statuses = health_status ` set servers in
   (state = Plugin_Healthy \<longleftrightarrow> statuses = {Server_Healthy}) \<and>
   ((\<exists>reason. state = Plugin_Failed reason) \<longleftrightarrow> statuses \<subseteq> {Server_Failed}) \<and>
   ((\<exists>healthy broken. state = Plugin_Degraded healthy broken) \<longleftrightarrow> degraded_mode_of (healthcheck_new now_secs name servers) discovery \<noteq> None) \<and>
   (case state of
      Plugin_Degraded healthy broken \<Rightarrow> healthy \<noteq> [] \<and> length healthy + length broken = length servers \<and>
        set broken = {s \<in> set servers. health_status s = Server_Failed}
    | Plugin_Healthy \<Rightarrow> True | Plugin_Failed _ \<Rightarrow> True | _ \<Rightarrow> False)"
proof -
  define healthy where "healthy = filter (\<lambda>s. health_status s \<noteq> Server_Failed) servers"
  define broken where "broken = filter (\<lambda>s. health_status s = Server_Failed) servers"
  have len: "length healthy + length broken = length servers"
    unfolding healthy_def broken_def using sum_length_filter_compl [of "\<lambda>s. health_status s = Server_Failed" servers]
    by (simp only: add.commute)
  have state: "plugin_state_from_servers servers = (if servers = [] then Plugin_Failed (lit ''no servers available'')
      else if broken = [] \<and> \<not> list_ex (\<lambda>s. health_status s = Server_Degraded) servers then Plugin_Healthy
      else if healthy = [] then Plugin_Failed (lit ''all '' @ show_nat (length broken) @ lit '' servers failed'')
      else Plugin_Degraded (map health_server healthy) broken)"
    by (simp add: plugin_state_from_servers_def healthy_def broken_def Let_def)
  have h: "healthy = [] \<longleftrightarrow> health_status ` set servers \<subseteq> {Server_Failed}"
    unfolding healthy_def by (auto simp: filter_empty_conv)
  have f: "broken = [] \<and> \<not> list_ex (\<lambda>s. health_status s = Server_Degraded) servers \<longleftrightarrow> health_status ` set servers \<subseteq> {Server_Healthy}"
    unfolding broken_def by (auto simp: filter_empty_conv list_ex_iff) (metis server_status.exhaust)
  have range: "health_status ` set servers \<noteq> {} \<longleftrightarrow> servers \<noteq> []" by simp
  show ?thesis
  proof (cases "servers = []")
    case True
    then show ?thesis by (simp add: plugin_state_from_servers_def degraded_mode_of_def healthcheck_new_def Let_def)
  next
    case False
    have one: "health_status ` set servers = {x} \<longleftrightarrow> health_status ` set servers \<subseteq> {x}" for x
      using False subset_singletonD by fastforce
    have excl: "\<not> (health_status ` set servers \<subseteq> {Server_Healthy} \<and> health_status ` set servers \<subseteq> {Server_Failed})"
      using False by (cases servers) auto
    have broken: "set broken = {s \<in> set servers. health_status s = Server_Failed}" by (auto simp: broken_def)
    consider "health_status ` set servers \<subseteq> {Server_Healthy}"
      | "\<not> health_status ` set servers \<subseteq> {Server_Healthy}" "health_status ` set servers \<subseteq> {Server_Failed}"
      | "\<not> health_status ` set servers \<subseteq> {Server_Healthy}" "\<not> health_status ` set servers \<subseteq> {Server_Failed}" by blast
    then show ?thesis
    proof cases
      case 1
      then have "plugin_state_from_servers servers = Plugin_Healthy" using False f by (simp add: state)
      then show ?thesis using 1 excl by (simp add: one degraded_mode_of_def healthcheck_new_def Let_def)
    next
      case 2
      then have "plugin_state_from_servers servers = Plugin_Failed (lit ''all '' @ show_nat (length broken) @ lit '' servers failed'')"
        using False f h by (auto simp: state)
      then show ?thesis using 2 by (simp add: one degraded_mode_of_def healthcheck_new_def Let_def)
    next
      case 3
      then have "plugin_state_from_servers servers = Plugin_Degraded (map health_server healthy) broken"
        using False f h by (auto simp: state)
      then show ?thesis using 3 h len broken by (simp add: one degraded_mode_of_def healthcheck_new_def Let_def)
    qed
  qed
qed

end
