(* ===== verification/McpStdio.thy ===== *)
theory McpStdio imports Mcp McpLifecycle begin

text \<open>
  JSON-RPC over the pipes of an MCP server (\<^verbatim>\<open>crates/runtime/src/mcp_stdio.rs\<close>): the messages, their frames, and the
  exchange of a request and its response.

  The pipes of a process are functions on a world of any type.  Encoding and decoding of JSON are functions of bytes; the
  readers of the typed results take a JSON value.  A panic is the result \<open>None\<close>.
\<close>

section \<open>Errors of pipes\<close>

text \<open>The kinds of \<^verbatim>\<open>std::io::ErrorKind\<close> that the code creates or asks for; every other kind has its text.\<close>

datatype io_error_kind = Kind_InvalidData | Kind_UnexpectedEof | Kind_InvalidInput | Kind_Other rstring

fun show_io_error_kind :: "io_error_kind \<Rightarrow> rstring" where
  "show_io_error_kind Kind_InvalidData = lit ''invalid data''"
| "show_io_error_kind Kind_UnexpectedEof = lit ''unexpected end of file''"
| "show_io_error_kind Kind_InvalidInput = lit ''invalid input parameter''"
| "show_io_error_kind (Kind_Other s) = s"

datatype pipe_error = Pipe_Error (pipe_error_kind: io_error_kind) (pipe_error_text: rstring)

abbreviation invalid_data :: "rstring \<Rightarrow> pipe_error" where
  "invalid_data \<equiv> Pipe_Error Kind_InvalidData"

section \<open>Frames\<close>

definition encode_frame :: "byte list \<Rightarrow> byte list" where
  "encode_frame payload = as_bytes (lit ''Content-Length: '' @ show_nat (length payload) @ [13, 10, 13, 10]) @ payload"

text \<open>The bytes up to and including the next line feed, or to the end of the stream, and the rest.\<close>

fun take_line :: "byte list \<Rightarrow> byte list \<times> byte list" where
  "take_line [] = ([], [])"
| "take_line (b # bs) = (if b = 10 then ([b], bs) else apfst ((#) b) (take_line bs))"

text \<open>\<^verbatim>\<open>AsyncBufReadExt::read_line\<close>: an empty line means the end of the stream.\<close>

definition read_pipe_line :: "byte list \<Rightarrow> (pipe_error + rstring) \<times> byte list" where
  "read_pipe_line bs = apfst
     (\<lambda>line. map_sum (\<lambda>_. invalid_data (lit ''stream did not contain valid UTF-8'')) id (from_utf8 line)) (take_line bs)"

text \<open>\<^verbatim>\<open>str::parse::<usize>\<close> with its errors.\<close>

fun parse_usize_digits :: "nat \<Rightarrow> rstring \<Rightarrow> rstring + nat" where
  "parse_usize_digits n [] = Inr n"
| "parse_usize_digits n (c # s) =
     (if \<not> is_ascii_digit c then Inl (lit ''invalid digit found in string'')
      else if 2 ^ 64 \<le> 10 * n + (c - c_zero) then Inl (lit ''number too large to fit in target type'')
      else parse_usize_digits (10 * n + (c - c_zero)) s)"

definition parse_usize :: "rstring \<Rightarrow> rstring + nat" where
  "parse_usize s =
     (if s = [] then Inl (lit ''cannot parse integer from empty string'')
      else if hd s = 43 \<and> tl s \<noteq> [] then parse_usize_digits 0 (tl s) else parse_usize_digits 0 s)"

text \<open>\<^verbatim>\<open>trim_end_matches(['\r', '\n'])\<close>.\<close>

definition trim_line_end :: "rstring \<Rightarrow> rstring" where
  "trim_line_end s = rev (dropWhile (\<lambda>c. c = 13 \<or> c = 10) (rev s))"

text \<open>What a header line says of the length: nothing, a number, or what is not a number.\<close>

definition header_content_length :: "rstring \<Rightarrow> pipe_error + nat option" where
  "header_content_length line = (case split_once (trim_line_end line) [58] of
     None \<Rightarrow> Inr None
   | Some (name, v) \<Rightarrow>
       if to_ascii_lowercase (trim name) = lit ''content-length''
       then map_sum invalid_data Some (parse_usize (trim v)) else Inr None)"

lemma take_line_append: "fst (take_line bs) @ snd (take_line bs) = bs"
  by (induction bs) auto

lemma take_line_shorter: "take_line bs = (line, rest) \<Longrightarrow> line \<noteq> [] \<Longrightarrow> length rest < length bs"
  using take_line_append [of bs] by (metis fst_conv snd_conv length_append length_greater_0_conv less_add_same_cancel2)

lemma from_utf8_Nil: "from_utf8 [] = Inr []"
  by (simp add: from_utf8_def)

lemma read_pipe_line_shorter:
  assumes "read_pipe_line bs = (Inr line, rest)" and "line \<noteq> []"
  shows "length rest < length bs"
proof (rule take_line_shorter)
  show t: "take_line bs = (fst (take_line bs), rest)"
    using assms(1) by (cases "take_line bs") (simp add: read_pipe_line_def)
  show "fst (take_line bs) \<noteq> []"
    using assms by (cases "take_line bs") (auto simp: read_pipe_line_def from_utf8_Nil)
qed

function read_headers :: "nat option \<Rightarrow> byte list \<Rightarrow> (pipe_error + nat option) \<times> byte list" where
  "read_headers content_length bs = (case read_pipe_line bs of
     (Inl e, rest) \<Rightarrow> (Inl e, rest)
   | (Inr line, rest) \<Rightarrow>
       if line = [] then
         (Inl (Pipe_Error Kind_UnexpectedEof (lit ''MCP stdio stream closed while reading headers'')), rest)
       else if line = [13, 10] then (Inr content_length, rest)
       else case header_content_length line of
           Inl e \<Rightarrow> (Inl e, rest)
         | Inr None \<Rightarrow> read_headers content_length rest
         | Inr (Some n) \<Rightarrow> read_headers (Some n) rest)"
  by pat_completeness auto
termination
  by (relation "measure (\<lambda>(n, bs). length bs)") (auto intro: read_pipe_line_shorter [OF sym])

declare read_headers.simps [simp del]

text \<open>
  \<^verbatim>\<open>read_frame\<close>: the buffer of the payload is reserved before a byte of it is read, and reserving more than half of the
  address space panics.  \<^verbatim>\<open>read_exact\<close> takes what there is before it fails.
\<close>

definition read_frame :: "byte list \<Rightarrow> ((pipe_error + byte list) \<times> byte list) option" where
  "read_frame bs = (case read_headers None bs of
     (Inl e, rest) \<Rightarrow> Some (Inl e, rest)
   | (Inr None, rest) \<Rightarrow> Some (Inl (invalid_data (lit ''missing Content-Length header'')), rest)
   | (Inr (Some n), rest) \<Rightarrow>
       if 2 ^ 63 \<le> n then None
       else if length rest < n then Some (Inl (Pipe_Error Kind_UnexpectedEof (lit ''early eof'')), [])
       else Some (Inr (take n rest), drop n rest))"

section \<open>Messages\<close>

datatype json_rpc_id = Id_Number u64 | Id_String rstring | Id_Null

record json_rpc_error =
  rpc_code :: i64
  rpc_message :: rstring
  rpc_data :: "serde_value option"

record 'a json_rpc_response =
  resp_jsonrpc :: rstring
  resp_id :: json_rpc_id
  resp_result :: "'a option"
  resp_error :: "json_rpc_error option"

record mcp_initialize_params =
  init_protocol_version :: rstring
  init_capabilities :: serde_value
  client_name :: rstring
  client_version :: rstring

record mcp_initialize_result =
  result_protocol_version :: rstring
  result_capabilities :: serde_value
  result_server_name :: rstring
  result_server_version :: rstring

record mcp_tool =
  mcp_tool_raw_name :: rstring
  mcp_tool_description :: "rstring option"
  mcp_tool_input_schema :: "serde_value option"
  mcp_tool_annotations :: "serde_value option"
  mcp_tool_meta :: "serde_value option"

record mcp_tool_call_content =
  content_kind :: rstring
  content_data :: "(rstring \<times> serde_value) list"

record mcp_tool_call_result =
  call_content :: "mcp_tool_call_content list"
  call_structured_content :: "serde_value option"
  call_is_error :: "bool option"
  call_meta :: "serde_value option"

record mcp_resource =
  res_uri :: rstring
  res_name :: "rstring option"
  res_description :: "rstring option"
  res_mime_type :: "rstring option"
  res_annotations :: "serde_value option"
  res_meta :: "serde_value option"

record mcp_resource_contents =
  contents_uri :: rstring
  contents_mime_type :: "rstring option"
  contents_text :: "rstring option"
  contents_blob :: "rstring option"
  contents_meta :: "serde_value option"

text \<open>
  The results of \<^verbatim>\<open>tools/list\<close> and \<^verbatim>\<open>resources/list\<close> are a page with the cursor of the next one, that of
  \<^verbatim>\<open>resources/read\<close> is a list of contents.  The parameters of the five methods are one type here.
\<close>

type_synonym 'a mcp_page = "'a list \<times> rstring option"

datatype mcp_params =
    Initialize_Params mcp_initialize_params
  | List_Params "rstring option"
  | Call_Params rstring "serde_value option" "serde_value option"
  | Read_Params rstring

record json_rpc_request =
  req_jsonrpc :: rstring
  req_id :: json_rpc_id
  req_method :: rstring
  req_params :: "mcp_params option"

definition json_rpc_request_new :: "json_rpc_id \<Rightarrow> rstring \<Rightarrow> mcp_params option \<Rightarrow> json_rpc_request" where
  "json_rpc_request_new i method params =
     \<lparr>req_jsonrpc = lit ''2.0'', req_id = i, req_method = method, req_params = params\<rparr>"

definition default_initialize_params :: mcp_initialize_params where
  "default_initialize_params = \<lparr>init_protocol_version = lit ''2025-03-26'', init_capabilities = SObject [],
     client_name = lit ''runtime'', client_version = lit ''0.1.0''\<rparr>"

text \<open>
  \<^verbatim>\<open>serde_json\<close> and the derived encodings: a request as bytes, bytes as a response with a result that is a JSON value,
  the typed results, and the debug output of a string.
\<close>

record mcp_codec =
  to_vec :: "json_rpc_request \<Rightarrow> byte list"
  from_slice :: "byte list \<Rightarrow> rstring + serde_value json_rpc_response"
  read_initialize :: "serde_value \<Rightarrow> rstring + mcp_initialize_result"
  read_tools :: "serde_value \<Rightarrow> rstring + mcp_tool mcp_page"
  read_call :: "serde_value \<Rightarrow> rstring + mcp_tool_call_result"
  read_resources :: "serde_value \<Rightarrow> rstring + mcp_resource mcp_page"
  read_contents :: "serde_value \<Rightarrow> rstring + mcp_resource_contents list"
  debug_str :: "rstring \<Rightarrow> rstring"
  debug_transport :: "mcp_client_transport \<Rightarrow> rstring"

fun debug_id :: "mcp_codec \<Rightarrow> json_rpc_id \<Rightarrow> rstring" where
  "debug_id codec (Id_Number n) = lit ''Number('' @ show_nat (unat n) @ lit '')''"
| "debug_id codec (Id_String s) = lit ''String('' @ debug_str codec s @ lit '')''"
| "debug_id codec Id_Null = lit ''Null''"

definition typed_response ::
    "(serde_value \<Rightarrow> rstring + 'a) \<Rightarrow> serde_value json_rpc_response \<Rightarrow> pipe_error + 'a json_rpc_response" where
  "typed_response read r = (let typed = (\<lambda>v. \<lparr>resp_jsonrpc = resp_jsonrpc r, resp_id = resp_id r, resp_result = v,
       resp_error = resp_error r\<rparr>)
     in case resp_result r of
          None \<Rightarrow> Inr (typed None)
        | Some v \<Rightarrow> map_sum invalid_data (\<lambda>x. typed (Some x)) (read v))"

text \<open>The checks of \<^verbatim>\<open>request\<close> on the response that was read.\<close>

definition check_response ::
    "mcp_codec \<Rightarrow> json_rpc_id \<Rightarrow> rstring \<Rightarrow> 'a json_rpc_response \<Rightarrow> pipe_error + 'a json_rpc_response" where
  "check_response codec i method r =
     (if resp_jsonrpc r \<noteq> lit ''2.0'' then
        Inl (invalid_data (lit ''MCP response for '' @ method @ lit '' used unsupported jsonrpc version `'' @
          resp_jsonrpc r @ lit ''`''))
      else if resp_id r \<noteq> i then
        Inl (invalid_data (lit ''MCP response for '' @ method @ lit '' used mismatched id: expected '' @
          debug_id codec i @ lit '', got '' @ debug_id codec (resp_id r)))
      else Inr r)"

section \<open>Processes\<close>

text \<open>
  What the system does for a process: starting it, writing and flushing, what it has written that is not read yet (up to
  the end of the stream), whether the answer to a text is late for a limit and what happens when it is given up, and
  the end of the process.
\<close>

record ('p, 'w) mcp_pipes =
  pipe_spawn :: "mcp_stdio_config \<Rightarrow> 'w \<Rightarrow> (pipe_error + 'p) \<times> 'w"
  pipe_write :: "'p \<Rightarrow> byte list \<Rightarrow> 'w \<Rightarrow> (pipe_error + unit) \<times> 'w"
  pipe_unread :: "'p \<Rightarrow> 'w \<Rightarrow> byte list"
  pipe_consume :: "'p \<Rightarrow> nat \<Rightarrow> 'w \<Rightarrow> 'w"
  pipe_late :: "'p \<Rightarrow> byte list \<Rightarrow> u64 \<Rightarrow> 'w \<Rightarrow> bool"
  pipe_abandon :: "'p \<Rightarrow> byte list \<Rightarrow> 'w \<Rightarrow> 'w"
  pipe_try_wait :: "'p \<Rightarrow> 'w \<Rightarrow> (pipe_error + bool) \<times> 'w"
  pipe_kill :: "'p \<Rightarrow> 'w \<Rightarrow> (pipe_error + unit) \<times> 'w"
  pipe_wait :: "'p \<Rightarrow> 'w \<Rightarrow> (pipe_error + unit) \<times> 'w"

text \<open>What the manager of the servers uses of a process; an exchange without a result did not end in time.\<close>

record ('p, 'w) mcp_processes =
  proc_spawn :: "mcp_client_transport \<Rightarrow> rstring \<Rightarrow> 'w \<Rightarrow> (pipe_error + 'p) \<times> 'w"
  proc_exited :: "'p \<Rightarrow> 'w \<Rightarrow> (pipe_error + bool) \<times> 'w"
  proc_shutdown :: "'p \<Rightarrow> 'w \<Rightarrow> (pipe_error + unit) \<times> 'w"
  proc_exchange :: "'p \<Rightarrow> u64 \<Rightarrow> json_rpc_request \<Rightarrow> 'w \<Rightarrow>
    ((pipe_error + serde_value json_rpc_response) option \<times> 'w) option"

definition spawn_mcp_stdio_process :: "mcp_codec \<Rightarrow> ('p, 'w) mcp_pipes \<Rightarrow> mcp_client_transport \<Rightarrow> rstring \<Rightarrow> 'w \<Rightarrow>
    (pipe_error + 'p) \<times> 'w" where
  "spawn_mcp_stdio_process codec pipes transport server w = (case transport of
     Client_Stdio c \<Rightarrow> pipe_spawn pipes c w
   | other \<Rightarrow> (Inl (Pipe_Error Kind_InvalidInput (lit ''MCP bootstrap transport for '' @ server @ lit '' is not stdio: '' @
       debug_transport codec other)), w))"

definition process_shutdown :: "('p, 'w) mcp_pipes \<Rightarrow> 'p \<Rightarrow> 'w \<Rightarrow> (pipe_error + unit) \<times> 'w" where
  "process_shutdown pipes p w = and_then (pipe_try_wait pipes p w) (\<lambda>exited w.
     if exited then pipe_wait pipes p w
     else (case pipe_kill pipes p w of
         (Inl e, w) \<Rightarrow> if pipe_error_kind e = Kind_InvalidInput then pipe_wait pipes p w else (Inl e, w)
       | (Inr _, w) \<Rightarrow> pipe_wait pipes p w))"

text \<open>
  Sending a request and reading what comes back, within \<^verbatim>\<open>timeout\<close>: \<^verbatim>\<open>write_frame\<close>, \<^verbatim>\<open>read_frame\<close> and the reading of
  its payload.
\<close>

definition pipe_exchange :: "mcp_codec \<Rightarrow> ('p, 'w) mcp_pipes \<Rightarrow> 'p \<Rightarrow> u64 \<Rightarrow> json_rpc_request \<Rightarrow> 'w \<Rightarrow>
    ((pipe_error + serde_value json_rpc_response) option \<times> 'w) option" where
  "pipe_exchange codec pipes p limit request w =
     (let text = encode_frame (to_vec codec request)
      in if pipe_late pipes p text limit w then Some (None, pipe_abandon pipes p text w)
         else (case pipe_write pipes p text w of
             (Inl e, w1) \<Rightarrow> Some (Some (Inl e), w1)
           | (Inr _, w1) \<Rightarrow>
               let unread = pipe_unread pipes p w1
               in map_option (\<lambda>(r, rest).
                    (Some (rbind r (\<lambda>payload. map_sum invalid_data id (from_slice codec payload))),
                     pipe_consume pipes p (length unread - length rest) w1)) (read_frame unread)))"

definition piped_processes :: "mcp_codec \<Rightarrow> ('p, 'w) mcp_pipes \<Rightarrow> ('p, 'w) mcp_processes" where
  "piped_processes codec pipes =
     \<lparr>proc_spawn = spawn_mcp_stdio_process codec pipes, proc_exited = pipe_try_wait pipes,
      proc_shutdown = process_shutdown pipes, proc_exchange = pipe_exchange codec pipes\<rparr>"

section \<open>Frames: properties\<close>

lemma take_line_feed: "10 \<notin> set a \<Longrightarrow> take_line (a @ 10 # b) = (a @ [10], b)"
  by (induction a) auto

lemma read_pipe_line_ascii:
  assumes "\<forall>c \<in> set a. c < 128" and "10 \<notin> set a"
  shows "read_pipe_line (a @ 10 # b) = (Inr (a @ [10]), b)"
proof -
  have "\<forall>c \<in> set (a @ [10]). c < 128" using assms(1) by simp
  then have "as_bytes (a @ [10]) = a @ [10]" and "list_all is_scalar (a @ [10])"
    by (rule as_bytes_ascii) (use assms(1) in \<open>auto simp: list_all_iff is_scalar_def\<close>)
  then have "from_utf8 (a @ [10]) = Inr (a @ [10])" using from_utf8_as_bytes by metis
  then show ?thesis by (simp add: read_pipe_line_def take_line_feed [OF assms(2)])
qed

lemma digits_value_mono: "n \<le> digits_value n s"
  by (induction n s rule: digits_value.induct) (auto intro: order_trans [rotated])

lemma parse_usize_digits_value:
  "list_all is_ascii_digit s \<Longrightarrow> digits_value n s < 2 ^ 64 \<Longrightarrow> parse_usize_digits n s = Inr (digits_value n s)"
proof (induction n s rule: digits_value.induct)
  case (2 acc c cs)
  then show ?case using digits_value_mono [of "10 * acc + (c - c_zero)" cs] by simp
qed simp

lemma parse_usize_digits_overflow:
  "list_all is_ascii_digit s \<Longrightarrow> n < 2 ^ 64 \<Longrightarrow> 2 ^ 64 \<le> digits_value n s \<Longrightarrow>
   parse_usize_digits n s = Inl (lit ''number too large to fit in target type'')"
  by (induction n s rule: digits_value.induct) auto

lemma show_nat_ends: "is_ascii_digit (hd (show_nat n))" "is_ascii_digit (last (show_nat n))"
  using show_nat_digits [of n] hd_in_set [of "show_nat n"] last_in_set [of "show_nat n"] show_nat_not_Nil [of n] by blast+

lemma digits_not_space: "is_ascii_digit c \<Longrightarrow> \<not> is_whitespace c"
  by (auto simp: is_ascii_digit_def is_whitespace_def)

lemma parse_usize_show_nat:
  "parse_usize (show_nat n) = (if n < 2 ^ 64 then Inr n else Inl (lit ''number too large to fit in target type''))"
proof -
  have digits: "list_all is_ascii_digit (show_nat n)" using show_nat_digits by (simp add: list_all_iff)
  have "hd (show_nat n) \<noteq> 43" using show_nat_ends(1) [of n] by (auto simp: is_ascii_digit_def)
  then have "parse_usize (show_nat n) = parse_usize_digits 0 (show_nat n)" by (simp add: parse_usize_def)
  with digits show ?thesis by (simp add: parse_usize_digits_value parse_usize_digits_overflow)
qed

lemma trim_show_nat: "trim (32 # show_nat n) = show_nat n"
proof -
  have "\<not> is_whitespace (hd (show_nat n))" and "\<not> is_whitespace (last (show_nat n))"
    using show_nat_ends [of n] digits_not_space by blast+
  then have "dropWhile is_whitespace (show_nat n) = show_nat n" and "trim_end (show_nat n) = show_nat n"
    using show_nat_not_Nil [of n] by (simp_all add: dropWhile_eq_self_iff trim_end_no_space)
  moreover have "is_whitespace 32" by (simp add: is_whitespace_def)
  ultimately have "trim_start (32 # show_nat n) = show_nat n" and "trim_end (show_nat n) = show_nat n"
    by (simp_all add: trim_start_def)
  then show ?thesis by (simp add: trim_def)
qed

abbreviation length_line :: "nat \<Rightarrow> rstring" where
  "length_line n \<equiv> lit ''Content-Length: '' @ show_nat n @ [13]"

lemma trim_length_line: "trim_line_end (length_line n @ [10]) = lit ''Content-Length: '' @ show_nat n"
proof -
  have "last (show_nat n) \<noteq> 13" "last (show_nat n) \<noteq> 10" using show_nat_ends(2) [of n] by (auto simp: is_ascii_digit_def)
  then have "dropWhile (\<lambda>c. c = 13 \<or> c = 10) (rev (show_nat n) @ xs) = rev (show_nat n) @ xs" for xs
    by (cases "show_nat n" rule: rev_cases) auto
  then show ?thesis by (simp add: trim_line_end_def)
qed

lemma header_of_length_line:
  "header_content_length (length_line n @ [10]) =
     (if n < 2 ^ 64 then Inr (Some n) else Inl (invalid_data (lit ''number too large to fit in target type'')))"
proof -
  have "split_once (lit ''Content-Length'' @ 58 # 32 # show_nat n) [58] = Some (lit ''Content-Length'', 32 # show_nat n)"
    by (subst split_once_def, subst str_find_char) (simp_all add: lit_def)
  moreover have "lit ''Content-Length: '' @ show_nat n = lit ''Content-Length'' @ 58 # 32 # show_nat n" by (simp add: lit_def)
  moreover have "to_ascii_lowercase (trim (lit ''Content-Length'')) = lit ''content-length''" by code_simp
  ultimately show ?thesis
    unfolding header_content_length_def trim_length_line by (simp add: trim_show_nat parse_usize_show_nat)
qed

lemma length_line_ascii: "\<forall>c \<in> set (length_line n). c < 128" "10 \<notin> set (length_line n)"
  using show_nat_digits [of n] by (auto simp: lit_def is_ascii_digit_def)

lemma read_headers_line:
  "read_pipe_line bs = (Inr line, rest) \<Longrightarrow> line \<noteq> [] \<Longrightarrow> line \<noteq> [13, 10] \<Longrightarrow>
   read_headers k bs = (case header_content_length line of Inl e \<Rightarrow> (Inl e, rest)
     | Inr None \<Rightarrow> read_headers k rest | Inr (Some n) \<Rightarrow> read_headers (Some n) rest)"
  by (subst read_headers.simps) simp

lemma read_headers_length_line:
  "read_headers k (length_line n @ 10 # bs) =
     (if n < 2 ^ 64 then read_headers (Some n) bs else (Inl (invalid_data (lit ''number too large to fit in target type'')), bs))"
  by (subst read_headers_line [OF read_pipe_line_ascii [OF length_line_ascii]])
    (simp_all only: header_of_length_line, simp_all add: lit_def)

lemma read_headers_end: "read_headers k (13 # 10 # bs) = (Inr k, bs)"
proof -
  have "read_pipe_line ([13] @ 10 # bs) = (Inr ([13] @ [10]), bs)" by (rule read_pipe_line_ascii) simp_all
  then show ?thesis by (subst read_headers.simps) simp
qed

lemma encode_frame_eq: "encode_frame payload = length_line (length payload) @ 10 # 13 # 10 # payload"
  unfolding encode_frame_def
  by (subst as_bytes_ascii) (use length_line_ascii(1) [of "length payload"] in auto)

lemma frame_back: "length payload < 2 ^ 63 \<Longrightarrow> read_frame (encode_frame payload @ rest) = Some (Inr payload, rest)"
  using read_headers_length_line [of None "length payload" "13 # 10 # payload @ rest"]
  by (simp add: encode_frame_eq read_headers_end read_frame_def)

text \<open>
  The frame of a payload reads back as the payload, and the reader stops behind it: what follows is the next frame.
\<close>

theorem frame_read_back:
  assumes "length payload < 2 ^ 63"
  shows "read_frame (encode_frame payload @ rest) = Some (Inr payload, rest)"
  using assms by (rule frame_back)

theorem frame_read_back_witness: "read_frame (encode_frame [1, 10, 255] @ [7]) = Some (Inr [1, 10, 255], [7])"
  by (rule frame_read_back) simp

text \<open>
  The length that a server announces decides whether the program panics, before a byte of the payload is read: it does
  from half the address space on, up to where the number no longer fits and is an error.
\<close>

theorem announced_length_panics:
  "read_frame (as_bytes (lit ''Content-Length: '' @ show_nat n @ [13, 10, 13, 10]) @ rest) = None \<longleftrightarrow>
     2 ^ 63 \<le> n \<and> n < 2 ^ 64"
proof -
  have "as_bytes (lit ''Content-Length: '' @ show_nat n @ [13, 10, 13, 10]) @ rest = length_line n @ 10 # 13 # 10 # rest"
    by (subst as_bytes_ascii) (use length_line_ascii(1) [of n] in auto)
  then have "read_headers None (as_bytes (lit ''Content-Length: '' @ show_nat n @ [13, 10, 13, 10]) @ rest) =
      (if n < 2 ^ 64 then (Inr (Some n), rest)
       else (Inl (invalid_data (lit ''number too large to fit in target type'')), 13 # 10 # rest))"
    by (simp only: read_headers_length_line read_headers_end)
  then show ?thesis unfolding read_frame_def by (simp only:) auto
qed

text \<open>
  The first frame that comes after a request is taken for its response: when the server sends a notification first, which
  has no id and is no response, the request fails although the response is there, and the next request reads it.
\<close>

theorem notification_breaks_request:
  assumes "\<not> pipe_late pipes p (encode_frame (to_vec codec request)) limit w"
    and "pipe_write pipes p (encode_frame (to_vec codec request)) w = (Inr (), v)"
    and "pipe_unread pipes p v = encode_frame notification @ encode_frame response @ rest"
    and "length notification < 2 ^ 63" and "from_slice codec notification = Inl e" and "from_slice codec response = Inr r"
  shows "pipe_exchange codec pipes p limit request w =
    Some (Some (Inl (invalid_data e)), pipe_consume pipes p (length (encode_frame notification)) v)"
proof -
  have "read_frame (pipe_unread pipes p v) = Some (Inr notification, encode_frame response @ rest)"
    unfolding assms(3) using frame_back assms(4) .
  then show ?thesis using assms(1-3,5) by (simp add: pipe_exchange_def Let_def)
qed

text \<open>An instance: whatever is written, a notification and a response come back, one byte each.\<close>

definition demo_codec :: mcp_codec where
  "demo_codec = \<lparr>to_vec = (\<lambda>_. []),
     from_slice = (\<lambda>bs. if bs = [2] then Inr \<lparr>resp_jsonrpc = lit ''2.0'', resp_id = Id_Number 1, resp_result = None, resp_error = None\<rparr>
       else Inl (lit ''missing field'')),
     read_initialize = (\<lambda>_. Inl []), read_tools = (\<lambda>_. Inl []), read_call = (\<lambda>_. Inl []), read_resources = (\<lambda>_. Inl []),
     read_contents = (\<lambda>_. Inl []), debug_str = id, debug_transport = (\<lambda>_. [])\<rparr>"

definition demo_pipes :: "(unit, byte list) mcp_pipes" where
  "demo_pipes = \<lparr>pipe_spawn = (\<lambda>_ w. (Inr (), w)),
     pipe_write = (\<lambda>_ bs _. (Inr (), encode_frame [1] @ encode_frame [2] @ [])), pipe_unread = (\<lambda>_ w. w),
     pipe_consume = (\<lambda>_ n w. drop n w), pipe_late = (\<lambda>_ _ _ _. False), pipe_abandon = (\<lambda>_ _ w. w),
     pipe_try_wait = (\<lambda>_ w. (Inr False, w)), pipe_kill = (\<lambda>_ w. (Inr (), w)), pipe_wait = (\<lambda>_ w. (Inr (), w))\<rparr>"

theorem notification_breaks_request_witness:
  "pipe_exchange demo_codec demo_pipes () 10000 (json_rpc_request_new (Id_Number 1) (lit ''tools/list'') None) [] =
     Some (Some (Inl (invalid_data (lit ''missing field''))), encode_frame [2])"
  by (subst notification_breaks_request [where notification = "[1]" and response = "[2]" and rest = "[]"
        and v = "encode_frame [1] @ encode_frame [2] @ []"])
    (simp_all add: demo_codec_def demo_pipes_def)

end
