(* ===== verification/McpManager.thy ===== *)
theory McpManager imports McpStdio begin

text \<open>
  The manager of the MCP servers that run as processes (\<^verbatim>\<open>McpServerManager\<close> in
  \<^verbatim>\<open>crates/runtime/src/mcp_stdio.rs\<close>): starting and initializing a server on demand, requests with retries and resets,
  the index from the names of tools to servers, discovery, calls, resources and shutdown.

  An operation takes the manager and the world and returns both; the result \<open>None\<close> means that it does not return: it
  panics, or the fuel for the pages of a list is used up, which is how a server that never ends its list shows.
\<close>

section \<open>Data\<close>

record managed_mcp_tool =
  tool_server_name :: rstring
  qualified_name :: rstring
  raw_name :: rstring
  managed_tool :: mcp_tool

record unsupported_mcp_server =
  unsupported_name :: rstring
  unsupported_transport :: mcp_transport
  unsupported_reason :: rstring

record mcp_discovery_failure =
  failure_server :: rstring
  failure_phase :: mcp_phase
  failure_error :: rstring
  failure_recoverable :: bool
  failure_context :: "(rstring \<times> rstring) list"

record mcp_discovery_report =
  report_tools :: "managed_mcp_tool list"
  report_failed :: "mcp_discovery_failure list"
  report_unsupported :: "unsupported_mcp_server list"
  report_degraded :: "mcp_degraded_report option"

datatype manager_error =
    Manager_Io pipe_error
  | Manager_Transport rstring rstring pipe_error
  | Manager_JsonRpc rstring rstring json_rpc_error
  | Manager_InvalidResponse rstring rstring rstring
  | Manager_Timeout rstring rstring u64
  | Manager_UnknownTool rstring
  | Manager_UnknownServer rstring

definition server_failed_in :: "rstring \<Rightarrow> rstring" where
  "server_failed_in server = lit ''MCP server `'' @ server @ lit ''` ''"

fun show_manager_error :: "manager_error \<Rightarrow> rstring" where
  "show_manager_error (Manager_Io e) = pipe_error_text e"
| "show_manager_error (Manager_Transport server method e) =
     server_failed_in server @ lit ''transport failed during '' @ method @ lit '': '' @ pipe_error_text e"
| "show_manager_error (Manager_JsonRpc server method e) =
     server_failed_in server @ lit ''returned JSON-RPC error for '' @ method @ lit '': '' @ rpc_message e @ lit '' ('' @
       show_int (sint (rpc_code e)) @ lit '')''"
| "show_manager_error (Manager_InvalidResponse server method details) =
     server_failed_in server @ lit ''returned invalid response for '' @ method @ lit '': '' @ details"
| "show_manager_error (Manager_Timeout server method ms) =
     server_failed_in server @ lit ''timed out after '' @ show_nat (unat ms) @ lit '' ms while handling '' @ method"
| "show_manager_error (Manager_UnknownTool name) = lit ''unknown MCP tool `'' @ name @ lit ''`''"
| "show_manager_error (Manager_UnknownServer server) = lit ''unknown MCP server `'' @ server @ lit ''`''"

definition lifecycle_phase_for_method :: "rstring \<Rightarrow> mcp_phase" where
  "lifecycle_phase_for_method method =
     (if method = lit ''initialize'' then InitializeHandshake
      else if method = lit ''tools/list'' then ToolDiscovery
      else if method = lit ''resources/list'' then ResourceDiscovery
      else if method = lit ''resources/read'' \<or> method = lit ''tools/call'' then Invocation
      else ErrorSurfacing)"

fun lifecycle_phase :: "manager_error \<Rightarrow> mcp_phase" where
  "lifecycle_phase (Manager_Io _) = SpawnConnect"
| "lifecycle_phase (Manager_Transport _ method _) = lifecycle_phase_for_method method"
| "lifecycle_phase (Manager_JsonRpc _ method _) = lifecycle_phase_for_method method"
| "lifecycle_phase (Manager_InvalidResponse _ method _) = lifecycle_phase_for_method method"
| "lifecycle_phase (Manager_Timeout _ method _) = lifecycle_phase_for_method method"
| "lifecycle_phase (Manager_UnknownTool _) = ToolDiscovery"
| "lifecycle_phase (Manager_UnknownServer _) = ServerRegistration"

fun is_retryable_error :: "manager_error \<Rightarrow> bool" where
  "is_retryable_error (Manager_Transport _ _ _) = True"
| "is_retryable_error (Manager_Timeout _ _ _) = True"
| "is_retryable_error _ = False"

fun should_reset_server :: "manager_error \<Rightarrow> bool" where
  "should_reset_server (Manager_Transport _ _ _) = True"
| "should_reset_server (Manager_Timeout _ _ _) = True"
| "should_reset_server (Manager_InvalidResponse _ _ _) = True"
| "should_reset_server _ = False"

definition error_recoverable :: "manager_error \<Rightarrow> bool" where
  "error_recoverable e \<longleftrightarrow> lifecycle_phase e \<noteq> InitializeHandshake \<and>
     (case e of Manager_Transport _ _ _ \<Rightarrow> True | Manager_Timeout _ _ _ \<Rightarrow> True | _ \<Rightarrow> False)"

text \<open>The contexts are maps that are ordered by their keys.\<close>

fun error_context :: "manager_error \<Rightarrow> (rstring \<times> rstring) list" where
  "error_context (Manager_Io e) = [(lit ''kind'', show_io_error_kind (pipe_error_kind e))]"
| "error_context (Manager_Transport server method e) =
     [(lit ''io_kind'', show_io_error_kind (pipe_error_kind e)), (lit ''method'', method), (lit ''server'', server)]"
| "error_context (Manager_JsonRpc server method e) =
     [(lit ''jsonrpc_code'', show_int (sint (rpc_code e))), (lit ''method'', method), (lit ''server'', server)]"
| "error_context (Manager_InvalidResponse server method details) =
     [(lit ''details'', details), (lit ''method'', method), (lit ''server'', server)]"
| "error_context (Manager_Timeout server method ms) =
     [(lit ''method'', method), (lit ''server'', server), (lit ''timeout_ms'', show_nat (unat ms))]"
| "error_context (Manager_UnknownTool name) = [(lit ''qualified_tool'', name)]"
| "error_context (Manager_UnknownServer server) = [(lit ''server'', server)]"

definition discovery_failure :: "rstring \<Rightarrow> manager_error \<Rightarrow> mcp_discovery_failure" where
  "discovery_failure server e =
     \<lparr>failure_server = server, failure_phase = lifecycle_phase e, failure_error = show_manager_error e,
      failure_recoverable = error_recoverable e, failure_context = error_context e\<rparr>"

text \<open>The debug output of a transport is the name of its constructor.\<close>

fun debug_transport_name :: "mcp_transport \<Rightarrow> rstring" where
  "debug_transport_name Transport_Stdio = lit ''Stdio''"
| "debug_transport_name Transport_Sse = lit ''Sse''"
| "debug_transport_name Transport_Http = lit ''Http''"
| "debug_transport_name Transport_Ws = lit ''Ws''"
| "debug_transport_name Transport_Sdk = lit ''Sdk''"
| "debug_transport_name Transport_ManagedProxy = lit ''ManagedProxy''"

definition unsupported_server_failed_server :: "u64 \<Rightarrow> unsupported_mcp_server \<Rightarrow> mcp_failed_server" where
  "unsupported_server_failed_server ts u =
     \<lparr>failed_server_name = unsupported_name u, failed_phase = ServerRegistration,
      failed_error = error_new ts ServerRegistration (Some (unsupported_name u)) (unsupported_reason u)
        [(lit ''transport'', debug_transport_name (unsupported_transport u))] False\<rparr>"

section \<open>The manager\<close>

record tool_route =
  route_server :: rstring
  route_raw_name :: rstring

record 'p managed_server =
  srv_bootstrap :: mcp_client_bootstrap
  srv_process :: "'p option"
  srv_initialized :: bool

record 'p mcp_manager =
  managed_servers :: "(rstring \<times> 'p managed_server) list"
  unsupported_servers :: "unsupported_mcp_server list"
  tool_index :: "(rstring \<times> tool_route) list"
  next_request_id :: u64

definition managed_server_new :: "mcp_client_bootstrap \<Rightarrow> 'p managed_server" where
  "managed_server_new b = \<lparr>srv_bootstrap = b, srv_process = None, srv_initialized = False\<rparr>"

definition unsupported_server :: "rstring \<Rightarrow> scoped_server \<Rightarrow> unsupported_mcp_server" where
  "unsupported_server name c = (let transport = mcp_transport_of (server_config c)
     in \<lparr>unsupported_name = name, unsupported_transport = transport,
         unsupported_reason = lit ''transport '' @ debug_transport_name transport @
           lit '' is not supported by McpServerManager''\<rparr>)"

fun sort_servers :: "(rstring \<times> scoped_server) list \<Rightarrow>
    panic + (rstring \<times> 'p managed_server) list \<times> unsupported_mcp_server list" where
  "sort_servers [] = Inr ([], [])"
| "sort_servers ((name, c) # cs) =
     (if mcp_transport_of (server_config c) = Transport_Stdio
      then rbind (bootstrap_from_scoped_config name c) (\<lambda>b.
           map_sum id (apfst ((#) (name, managed_server_new b))) (sort_servers cs))
      else map_sum id (apsnd ((#) (unsupported_server name c))) (sort_servers cs))"

definition from_servers :: "(rstring \<times> scoped_server) list \<Rightarrow> panic + 'p mcp_manager" where
  "from_servers cs = map_sum id (\<lambda>(managed, unsupported).
     \<lparr>managed_servers = managed, unsupported_servers = unsupported, tool_index = [], next_request_id = 1\<rparr>) (sort_servers cs)"

definition manager_server_names :: "'p mcp_manager \<Rightarrow> rstring list" where
  "manager_server_names m = map fst (managed_servers m)"

section \<open>Operations\<close>

type_synonym ('p, 'w, 'a) mcp_op =
  "'p mcp_manager \<times> 'w \<Rightarrow> ((manager_error + 'a) \<times> 'p mcp_manager \<times> 'w) option"

definition mcp_return :: "'a \<Rightarrow> ('p, 'w, 'a) mcp_op" where
  "mcp_return x s = Some (Inr x, s)"

definition mcp_fail :: "manager_error \<Rightarrow> ('p, 'w, 'a) mcp_op" where
  "mcp_fail e s = Some (Inl e, s)"

definition mcp_bind :: "('p, 'w, 'a) mcp_op \<Rightarrow> ('a \<Rightarrow> ('p, 'w, 'b) mcp_op) \<Rightarrow> ('p, 'w, 'b) mcp_op" where
  "mcp_bind f g s = (case f s of
     None \<Rightarrow> None
   | Some (Inl e, s') \<Rightarrow> Some (Inl e, s')
   | Some (Inr x, s') \<Rightarrow> g x s')"

definition mcp_lift :: "manager_error + 'a \<Rightarrow> ('p, 'w, 'a) mcp_op" where
  "mcp_lift r s = Some (r, s)"

text \<open>Going on after a failure and after a success.\<close>

definition mcp_try :: "('p, 'w, 'a) mcp_op \<Rightarrow> (manager_error \<Rightarrow> ('p, 'w, 'b) mcp_op) \<Rightarrow> ('a \<Rightarrow> ('p, 'w, 'b) mcp_op) \<Rightarrow>
    ('p, 'w, 'b) mcp_op" where
  "mcp_try f h g s = (case f s of
     None \<Rightarrow> None
   | Some (Inl e, s') \<Rightarrow> h e s'
   | Some (Inr x, s') \<Rightarrow> g x s')"

text \<open>An operation of the world alone; a failure of the pipes is \<^verbatim>\<open>From<io::Error>\<close>.\<close>

definition mcp_world :: "('w \<Rightarrow> (pipe_error + 'a) \<times> 'w) \<Rightarrow> ('p, 'w, 'a) mcp_op" where
  "mcp_world f s = (case f (snd s) of (r, w) \<Rightarrow> Some (map_sum Manager_Io id r, fst s, w))"

definition server_mut :: "rstring \<Rightarrow> ('p, 'w, 'p managed_server) mcp_op" where
  "server_mut name s = mcp_lift (ok_or (Manager_UnknownServer name) (map_of (managed_servers (fst s)) name)) s"

definition put_server :: "rstring \<Rightarrow> 'p managed_server \<Rightarrow> ('p, 'w, unit) mcp_op" where
  "put_server name server s =
     Some (Inr (), apfst (\<lambda>m. m\<lparr>managed_servers := bt_insert name server (managed_servers m)\<rparr>) s)"

definition saturating_succ :: "u64 \<Rightarrow> u64" where
  "saturating_succ n = (if n = - 1 then n else n + 1)"

definition take_request_id :: "('p, 'w, json_rpc_id) mcp_op" where
  "take_request_id s = Some (Inr (Id_Number (next_request_id (fst s))),
     apfst (\<lambda>m. m\<lparr>next_request_id := saturating_succ (next_request_id m)\<rparr>) s)"

definition clear_routes_for_server :: "rstring \<Rightarrow> ('p, 'w, unit) mcp_op" where
  "clear_routes_for_server name s =
     Some (Inr (), apfst (\<lambda>m. m\<lparr>tool_index := filter (\<lambda>(_, route). route_server route \<noteq> name) (tool_index m)\<rparr>) s)"

definition tool_call_timeout :: "mcp_codec \<Rightarrow> rstring \<Rightarrow> ('p, 'w, u64) mcp_op" where
  "tool_call_timeout codec name = mcp_bind (server_mut name) (\<lambda>server.
     case bootstrap_transport (srv_bootstrap server) of
       Client_Stdio c \<Rightarrow> mcp_return (resolved_tool_call_timeout_ms c)
     | other \<Rightarrow> mcp_fail (Manager_InvalidResponse name (lit ''tools/call'')
         (lit ''unsupported MCP transport for stdio manager: '' @ debug_transport codec other)))"

definition server_process_exited :: "('p, 'w) mcp_processes \<Rightarrow> rstring \<Rightarrow> ('p, 'w, bool) mcp_op" where
  "server_process_exited procs name = mcp_bind (server_mut name) (\<lambda>server.
     case srv_process server of
       Some p \<Rightarrow> mcp_world (proc_exited procs p)
     | None \<Rightarrow> mcp_return False)"

text \<open>A process that is reset is taken out of its server; a failure to stop it is ignored.\<close>

definition reset_server :: "('p, 'w) mcp_processes \<Rightarrow> rstring \<Rightarrow> ('p, 'w, unit) mcp_op" where
  "reset_server procs name = mcp_bind (server_mut name) (\<lambda>server.
     mcp_bind (put_server name (server\<lparr>srv_initialized := False, srv_process := None\<rparr>)) (\<lambda>_.
     case srv_process server of
       None \<Rightarrow> mcp_return ()
     | Some p \<Rightarrow> (\<lambda>s. Some (Inr (), apsnd (\<lambda>w. snd (proc_shutdown procs p w)) s))))"

text \<open>
  \<^verbatim>\<open>run_process_request\<close> around \<^verbatim>\<open>request\<close>: the response is read as the type of its result, then its version and id are
  checked.
\<close>

definition classify_response ::
    "rstring \<Rightarrow> rstring \<Rightarrow> pipe_error + 'a json_rpc_response \<Rightarrow> manager_error + 'a json_rpc_response" where
  "classify_response server method r = map_sum (\<lambda>e. if pipe_error_kind e = Kind_InvalidData
       then Manager_InvalidResponse server method (pipe_error_text e)
       else Manager_Transport server method e) id r"

definition run_process_request :: "mcp_codec \<Rightarrow> ('p, 'w) mcp_processes \<Rightarrow> (serde_value \<Rightarrow> rstring + 'a) \<Rightarrow>
    rstring \<Rightarrow> rstring \<Rightarrow> u64 \<Rightarrow> 'p \<Rightarrow> json_rpc_id \<Rightarrow> mcp_params \<Rightarrow> ('p, 'w, 'a json_rpc_response) mcp_op" where
  "run_process_request codec procs read server method limit p i params s =
     (case proc_exchange procs p limit (json_rpc_request_new i method (Some params)) (snd s) of
        None \<Rightarrow> None
      | Some (None, w) \<Rightarrow> Some (Inl (Manager_Timeout server method limit), fst s, w)
      | Some (Some r, w) \<Rightarrow> Some (classify_response server method
          (rbind r (\<lambda>v. rbind (typed_response read v) (check_response codec i method))), fst s, w))"

text \<open>What every request does first: it takes an id, then the process of the server.\<close>

definition with_process :: "rstring \<Rightarrow> rstring \<Rightarrow> rstring \<Rightarrow> (json_rpc_id \<Rightarrow> 'p \<Rightarrow> ('p, 'w, 'a) mcp_op) \<Rightarrow> ('p, 'w, 'a) mcp_op" where
  "with_process absent server method f =
     mcp_bind take_request_id (\<lambda>i. mcp_bind (server_mut server) (\<lambda>srv. case srv_process srv of
         None \<Rightarrow> mcp_fail (Manager_InvalidResponse server method absent)
       | Some p \<Rightarrow> f i p))"

definition missing_process :: rstring where
  "missing_process = lit ''server process missing after initialization''"

text \<open>The result of a response: an error of the server, or no result, is an error.\<close>

definition response_payload :: "rstring \<Rightarrow> rstring \<Rightarrow> 'a json_rpc_response \<Rightarrow> manager_error + 'a" where
  "response_payload server method r = (case resp_error r of
     Some e \<Rightarrow> Inl (Manager_JsonRpc server method e)
   | None \<Rightarrow> ok_or (Manager_InvalidResponse server method (lit ''missing result payload'')) (resp_result r))"

definition initialize_timeout_ms :: u64 where
  "initialize_timeout_ms = 10000"

definition list_tools_timeout_ms :: u64 where
  "list_tools_timeout_ms = 30000"

section \<open>Starting a server\<close>

definition give_up :: "('p, 'w) mcp_processes \<Rightarrow> rstring \<Rightarrow> manager_error \<Rightarrow> ('p, 'w, 'a) mcp_op" where
  "give_up procs name e =
     mcp_bind (if should_reset_server e then reset_server procs name else mcp_return ()) (\<lambda>_. mcp_fail e)"

definition spawn_if_needed :: "('p, 'w) mcp_processes \<Rightarrow> rstring \<Rightarrow> ('p, 'w, unit) mcp_op" where
  "spawn_if_needed procs name = mcp_bind (server_mut name) (\<lambda>srv. case srv_process srv of
     Some _ \<Rightarrow> mcp_return ()
   | None \<Rightarrow> mcp_bind (mcp_world (proc_spawn procs (bootstrap_transport (srv_bootstrap srv)) (bootstrap_server (srv_bootstrap srv))))
       (\<lambda>p. put_server name (srv\<lparr>srv_process := Some p, srv_initialized := False\<rparr>)))"

definition accept_initialization :: "('p, 'w) mcp_processes \<Rightarrow> rstring \<Rightarrow> mcp_initialize_result json_rpc_response \<Rightarrow>
    ('p, 'w, unit) mcp_op" where
  "accept_initialization procs name r = (case resp_error r of
     Some e \<Rightarrow> mcp_fail (Manager_JsonRpc name (lit ''initialize'') e)
   | None \<Rightarrow> (case resp_result r of
       None \<Rightarrow> mcp_bind (reset_server procs name) (\<lambda>_.
         mcp_fail (Manager_InvalidResponse name (lit ''initialize'') (lit ''missing result payload'')))
     | Some _ \<Rightarrow> mcp_bind (server_mut name) (\<lambda>srv. put_server name (srv\<lparr>srv_initialized := True\<rparr>))))"

definition ready_pass :: "mcp_codec \<Rightarrow> ('p, 'w) mcp_processes \<Rightarrow> rstring \<Rightarrow> (manager_error \<Rightarrow> ('p, 'w, unit) mcp_op) \<Rightarrow>
    ('p, 'w, unit) mcp_op" where
  "ready_pass codec procs name handler =
     mcp_bind (spawn_if_needed procs name) (\<lambda>_. mcp_bind (server_mut name) (\<lambda>srv.
       if srv_initialized srv then mcp_return ()
       else with_process (lit ''server process missing before initialize'') name (lit ''initialize'') (\<lambda>i p.
         mcp_try (run_process_request codec procs (read_initialize codec) name (lit ''initialize'') initialize_timeout_ms p i
             (Initialize_Params default_initialize_params))
           handler (accept_initialization procs name))))"

text \<open>The number is that of the retries that are left.\<close>

primrec ready_loop :: "nat \<Rightarrow> mcp_codec \<Rightarrow> ('p, 'w) mcp_processes \<Rightarrow> rstring \<Rightarrow> ('p, 'w, unit) mcp_op" where
  "ready_loop 0 codec procs name = ready_pass codec procs name (give_up procs name)"
| "ready_loop (Suc n) codec procs name = ready_pass codec procs name (\<lambda>e.
     if is_retryable_error e then mcp_bind (reset_server procs name) (\<lambda>_. ready_loop n codec procs name)
     else give_up procs name e)"

definition ensure_server_ready :: "mcp_codec \<Rightarrow> ('p, 'w) mcp_processes \<Rightarrow> rstring \<Rightarrow> ('p, 'w, unit) mcp_op" where
  "ensure_server_ready codec procs name =
     mcp_bind (server_process_exited procs name) (\<lambda>exited.
     mcp_bind (if exited then reset_server procs name else mcp_return ()) (\<lambda>_.
     ready_loop 1 codec procs name))"

section \<open>Requests\<close>

text \<open>The retry that the discovery of tools and the two operations on resources share.\<close>

primrec with_retry :: "nat \<Rightarrow> ('p, 'w) mcp_processes \<Rightarrow> rstring \<Rightarrow> ('p, 'w, 'a) mcp_op \<Rightarrow> ('p, 'w, 'a) mcp_op" where
  "with_retry 0 procs name once = mcp_try once (give_up procs name) mcp_return"
| "with_retry (Suc n) procs name once = mcp_try once (\<lambda>e.
     if is_retryable_error e then mcp_bind (reset_server procs name) (\<lambda>_. with_retry n procs name once)
     else give_up procs name e) mcp_return"

primrec list_pages :: "nat \<Rightarrow> mcp_codec \<Rightarrow> ('p, 'w) mcp_processes \<Rightarrow> (serde_value \<Rightarrow> rstring + 'a mcp_page) \<Rightarrow>
    rstring \<Rightarrow> rstring \<Rightarrow> rstring option \<Rightarrow> ('p, 'w, 'a list) mcp_op" where
  "list_pages 0 codec procs read name method cursor = (\<lambda>_. None)"
| "list_pages (Suc n) codec procs read name method cursor =
     mcp_bind (with_process missing_process name method (\<lambda>i p.
       run_process_request codec procs read name method list_tools_timeout_ms p i (List_Params cursor))) (\<lambda>r.
     mcp_bind (mcp_lift (response_payload name method r)) (\<lambda>(items, next). case next of
         None \<Rightarrow> mcp_return items
       | Some c \<Rightarrow> mcp_bind (list_pages n codec procs read name method (Some c)) (\<lambda>others. mcp_return (items @ others))))"

definition managed_tool_of :: "rstring \<Rightarrow> mcp_tool \<Rightarrow> managed_mcp_tool" where
  "managed_tool_of server t =
     \<lparr>tool_server_name = server, qualified_name = mcp_tool_name server (mcp_tool_raw_name t), raw_name = mcp_tool_raw_name t,
      managed_tool = t\<rparr>"

definition discover_tools_for_server_once ::
    "nat \<Rightarrow> mcp_codec \<Rightarrow> ('p, 'w) mcp_processes \<Rightarrow> rstring \<Rightarrow> ('p, 'w, managed_mcp_tool list) mcp_op" where
  "discover_tools_for_server_once fuel codec procs name =
     mcp_bind (ensure_server_ready codec procs name) (\<lambda>_.
     mcp_bind (list_pages fuel codec procs (read_tools codec) name (lit ''tools/list'') None) (\<lambda>ts.
     mcp_return (map (managed_tool_of name) ts)))"

definition discover_tools_for_server ::
    "nat \<Rightarrow> mcp_codec \<Rightarrow> ('p, 'w) mcp_processes \<Rightarrow> rstring \<Rightarrow> ('p, 'w, managed_mcp_tool list) mcp_op" where
  "discover_tools_for_server fuel codec procs name =
     with_retry 1 procs name (discover_tools_for_server_once fuel codec procs name)"

definition list_resources_once ::
    "nat \<Rightarrow> mcp_codec \<Rightarrow> ('p, 'w) mcp_processes \<Rightarrow> rstring \<Rightarrow> ('p, 'w, mcp_resource mcp_page) mcp_op" where
  "list_resources_once fuel codec procs name =
     mcp_bind (ensure_server_ready codec procs name) (\<lambda>_.
     mcp_bind (list_pages fuel codec procs (read_resources codec) name (lit ''resources/list'') None) (\<lambda>rs.
     mcp_return (rs, None)))"

definition manager_list_resources ::
    "nat \<Rightarrow> mcp_codec \<Rightarrow> ('p, 'w) mcp_processes \<Rightarrow> rstring \<Rightarrow> ('p, 'w, mcp_resource mcp_page) mcp_op" where
  "manager_list_resources fuel codec procs name = with_retry 1 procs name (list_resources_once fuel codec procs name)"

definition read_resource_once ::
    "mcp_codec \<Rightarrow> ('p, 'w) mcp_processes \<Rightarrow> rstring \<Rightarrow> rstring \<Rightarrow> ('p, 'w, mcp_resource_contents list) mcp_op" where
  "read_resource_once codec procs name uri =
     mcp_bind (ensure_server_ready codec procs name) (\<lambda>_.
     mcp_bind (with_process missing_process name (lit ''resources/read'') (\<lambda>i p.
       run_process_request codec procs (read_contents codec) name (lit ''resources/read'') list_tools_timeout_ms p i
         (Read_Params uri))) (\<lambda>r.
     mcp_lift (response_payload name (lit ''resources/read'') r)))"

definition manager_read_resource ::
    "mcp_codec \<Rightarrow> ('p, 'w) mcp_processes \<Rightarrow> rstring \<Rightarrow> rstring \<Rightarrow> ('p, 'w, mcp_resource_contents list) mcp_op" where
  "manager_read_resource codec procs name uri = with_retry 1 procs name (read_resource_once codec procs name uri)"

definition call_tool :: "mcp_codec \<Rightarrow> ('p, 'w) mcp_processes \<Rightarrow> rstring \<Rightarrow> serde_value option \<Rightarrow>
    ('p, 'w, mcp_tool_call_result json_rpc_response) mcp_op" where
  "call_tool codec procs name arguments s = (case map_of (tool_index (fst s)) name of
     None \<Rightarrow> mcp_fail (Manager_UnknownTool name) s
   | Some route \<Rightarrow>
       mcp_bind (tool_call_timeout codec (route_server route)) (\<lambda>limit.
       mcp_bind (ensure_server_ready codec procs (route_server route)) (\<lambda>_.
       with_process missing_process (route_server route) (lit ''tools/call'') (\<lambda>i p.
         mcp_try (run_process_request codec procs (read_call codec) (route_server route) (lit ''tools/call'') limit p i
             (Call_Params (route_raw_name route) arguments None))
           (give_up procs (route_server route)) mcp_return))) s)"

section \<open>Discovery and shutdown\<close>

definition route_of :: "managed_mcp_tool \<Rightarrow> tool_route" where
  "route_of t = \<lparr>route_server = tool_server_name t, route_raw_name = raw_name t\<rparr>"

definition index_tools :: "managed_mcp_tool list \<Rightarrow> ('p, 'w, unit) mcp_op" where
  "index_tools ts s = Some (Inr (), apfst (\<lambda>m. m\<lparr>tool_index :=
     foldl (\<lambda>index t. bt_insert (qualified_name t) (route_of t) index) (tool_index m) ts\<rparr>) s)"

definition replace_routes :: "rstring \<Rightarrow> managed_mcp_tool list \<Rightarrow> ('p, 'w, unit) mcp_op" where
  "replace_routes name ts = mcp_bind (clear_routes_for_server name) (\<lambda>_. index_tools ts)"

fun discover_each :: "nat \<Rightarrow> mcp_codec \<Rightarrow> ('p, 'w) mcp_processes \<Rightarrow> rstring list \<Rightarrow> ('p, 'w, managed_mcp_tool list) mcp_op" where
  "discover_each fuel codec procs [] = mcp_return []"
| "discover_each fuel codec procs (name # names) =
     mcp_bind (discover_tools_for_server fuel codec procs name) (\<lambda>ts.
     mcp_bind (replace_routes name ts) (\<lambda>_.
     mcp_bind (discover_each fuel codec procs names) (\<lambda>others. mcp_return (ts @ others))))"

definition manager_discover_tools ::
    "nat \<Rightarrow> mcp_codec \<Rightarrow> ('p, 'w) mcp_processes \<Rightarrow> ('p, 'w, managed_mcp_tool list) mcp_op" where
  "manager_discover_tools fuel codec procs s = discover_each fuel codec procs (manager_server_names (fst s)) s"

text \<open>The servers that work, the failures, and the tools.\<close>

fun best_effort_each :: "nat \<Rightarrow> mcp_codec \<Rightarrow> ('p, 'w) mcp_processes \<Rightarrow> rstring list \<Rightarrow>
    ('p, 'w, rstring list \<times> mcp_discovery_failure list \<times> managed_mcp_tool list) mcp_op" where
  "best_effort_each fuel codec procs [] = mcp_return ([], [], [])"
| "best_effort_each fuel codec procs (name # names) = mcp_try (discover_tools_for_server fuel codec procs name)
     (\<lambda>e. mcp_bind (clear_routes_for_server name) (\<lambda>_.
       mcp_bind (best_effort_each fuel codec procs names) (\<lambda>(working, failed, ts).
         mcp_return (working, discovery_failure name e # failed, ts))))
     (\<lambda>found. mcp_bind (replace_routes name found) (\<lambda>_.
       mcp_bind (best_effort_each fuel codec procs names) (\<lambda>(working, failed, ts).
         mcp_return (name # working, failed, found @ ts))))"

definition failed_server_of :: "u64 \<Rightarrow> mcp_discovery_failure \<Rightarrow> mcp_failed_server" where
  "failed_server_of ts f =
     \<lparr>failed_server_name = failure_server f, failed_phase = failure_phase f,
      failed_error = error_new ts (failure_phase f) (Some (failure_server f)) (failure_error f) (failure_context f)
        (failure_recoverable f)\<rparr>"

text \<open>The clock gives the time of each error of the report.\<close>

definition best_effort_report :: "clock \<Rightarrow> unsupported_mcp_server list \<Rightarrow>
    rstring list \<times> mcp_discovery_failure list \<times> managed_mcp_tool list \<Rightarrow> mcp_discovery_report" where
  "best_effort_report now unsupported = (\<lambda>(working, failed, ts).
     let degraded = map (\<lambda>(k, f). failed_server_of (now k) f) (enumerate 0 failed) @
           map (\<lambda>(k, u). unsupported_server_failed_server (now k) u) (enumerate (length failed) unsupported)
     in \<lparr>report_tools = ts, report_failed = failed, report_unsupported = unsupported,
         report_degraded = (if working \<noteq> [] \<and> degraded \<noteq> []
           then Some (degraded_report working degraded (map qualified_name ts) []) else None)\<rparr>)"

definition discover_tools_best_effort ::
    "clock \<Rightarrow> nat \<Rightarrow> mcp_codec \<Rightarrow> ('p, 'w) mcp_processes \<Rightarrow> ('p, 'w, mcp_discovery_report) mcp_op" where
  "discover_tools_best_effort now fuel codec procs s =
     mcp_bind (best_effort_each fuel codec procs (manager_server_names (fst s)))
       (\<lambda>r. mcp_return (best_effort_report now (unsupported_servers (fst s)) r)) s"

fun shutdown_each :: "('p, 'w) mcp_processes \<Rightarrow> rstring list \<Rightarrow> ('p, 'w, unit) mcp_op" where
  "shutdown_each procs [] = mcp_return ()"
| "shutdown_each procs (name # names) =
     mcp_bind (server_mut name) (\<lambda>srv.
     mcp_bind (case srv_process srv of None \<Rightarrow> mcp_return () | Some p \<Rightarrow> mcp_world (proc_shutdown procs p)) (\<lambda>_.
     mcp_bind (put_server name (srv\<lparr>srv_process := None, srv_initialized := False\<rparr>)) (\<lambda>_.
     shutdown_each procs names)))"

definition manager_shutdown :: "('p, 'w) mcp_processes \<Rightarrow> ('p, 'w, unit) mcp_op" where
  "manager_shutdown procs s = shutdown_each procs (manager_server_names (fst s)) s"

end
