(* ===== verification/McpProtocol.thy ===== *)
theory McpProtocol imports McpManager begin

text \<open>
  What the manager of the MCP servers guarantees (\<^verbatim>\<open>crates/runtime/src/mcp_stdio.rs\<close>): the order of the requests that
  a process gets, their ids, the index of tools, the number of attempts, and what discovery and shutdown leave.

  Operations are taken apart by triples of a precondition and postconditions for success and failure.  The requests are
  seen through a log: the processes are wrapped so that each has a serial number, and every exchange is recorded.
\<close>

section \<open>Triples\<close>

definition triple :: "('p mcp_manager \<times> 'w \<Rightarrow> bool) \<Rightarrow> ('p, 'w, 'a) mcp_op \<Rightarrow> ('a \<Rightarrow> 'p mcp_manager \<times> 'w \<Rightarrow> bool) \<Rightarrow>
    (manager_error \<Rightarrow> 'p mcp_manager \<times> 'w \<Rightarrow> bool) \<Rightarrow> bool" where
  "triple P f Q E \<longleftrightarrow> (\<forall>s r s'. P s \<longrightarrow> f s = Some (r, s') \<longrightarrow> (case r of Inl e \<Rightarrow> E e s' | Inr x \<Rightarrow> Q x s'))"

lemma tripleI: "(\<And>s r s'. P s \<Longrightarrow> f s = Some (r, s') \<Longrightarrow> (case r of Inl e \<Rightarrow> E e s' | Inr x \<Rightarrow> Q x s')) \<Longrightarrow> triple P f Q E"
  by (simp add: triple_def)

lemma tripleD: "triple P f Q E \<Longrightarrow> P s \<Longrightarrow> f s = Some (r, s') \<Longrightarrow> (case r of Inl e \<Rightarrow> E e s' | Inr x \<Rightarrow> Q x s')"
  unfolding triple_def by blast

lemma triple_return: "(\<And>s. P s \<Longrightarrow> Q x s) \<Longrightarrow> triple P (mcp_return x) Q E"
  by (simp add: triple_def mcp_return_def)

lemma triple_fail: "(\<And>s. P s \<Longrightarrow> E e s) \<Longrightarrow> triple P (mcp_fail e) Q E"
  by (simp add: triple_def mcp_fail_def)

lemma triple_lift: "(\<And>s x. P s \<Longrightarrow> r = Inr x \<Longrightarrow> Q x s) \<Longrightarrow> (\<And>s e. P s \<Longrightarrow> r = Inl e \<Longrightarrow> E e s) \<Longrightarrow> triple P (mcp_lift r) Q E"
  by (cases r) (simp_all add: triple_def mcp_lift_def)

lemma triple_try:
  assumes "triple P f R F" and "\<And>e. triple (F e) (h e) Q E" and "\<And>x. triple (R x) (g x) Q E"
  shows "triple P (mcp_try f h g) Q E"
proof (rule tripleI)
  fix s r s' assume P: "P s" and run: "mcp_try f h g s = Some (r, s')"
  then obtain q t where f: "f s = Some (q, t)" by (auto simp: mcp_try_def split: option.splits)
  show "case r of Inl e \<Rightarrow> E e s' | Inr x \<Rightarrow> Q x s'"
  proof (cases q)
    case (Inl e)
    then show ?thesis using tripleD [OF assms(1) P f] run f by (intro tripleD [OF assms(2)]) (simp_all add: mcp_try_def)
  next
    case (Inr x)
    then show ?thesis using tripleD [OF assms(1) P f] run f by (intro tripleD [OF assms(3)]) (simp_all add: mcp_try_def)
  qed
qed

lemma mcp_bind_try: "mcp_bind f g = mcp_try f mcp_fail g"
  by (rule ext) (simp add: mcp_bind_def mcp_try_def mcp_fail_def cong: option.case_cong sum.case_cong)

lemma triple_bind: "triple P f R E \<Longrightarrow> (\<And>x. triple (R x) (g x) Q E) \<Longrightarrow> triple P (mcp_bind f g) Q E"
  unfolding mcp_bind_try by (rule triple_try) (auto intro: triple_fail)

lemma triple_conseq:
  assumes "triple P f Q E" and "\<And>s. P' s \<Longrightarrow> P s" and "\<And>x s. Q x s \<Longrightarrow> Q' x s" and "\<And>e s. E e s \<Longrightarrow> E' e s"
  shows "triple P' f Q' E'"
proof (rule tripleI)
  fix s r s' assume "P' s" and f: "f s = Some (r, s')"
  then show "case r of Inl e \<Rightarrow> E' e s' | Inr x \<Rightarrow> Q' x s'"
    using tripleD [OF assms(1) assms(2) f] assms(3,4) by (cases r) simp_all
qed

lemma triple_pure: "(b \<Longrightarrow> triple P f Q E) \<Longrightarrow> triple (\<lambda>s. P s \<and> b) f Q E"
  unfolding triple_def by blast

lemma triple_if: "(b \<Longrightarrow> triple P f Q E) \<Longrightarrow> (\<not> b \<Longrightarrow> triple P g Q E) \<Longrightarrow> triple P (if b then f else g) Q E"
  by simp

lemma triple_option:
  "(x = None \<Longrightarrow> triple P f Q E) \<Longrightarrow> (\<And>y. x = Some y \<Longrightarrow> triple P (g y) Q E) \<Longrightarrow>
   triple P (case x of None \<Rightarrow> f | Some y \<Rightarrow> g y) Q E"
  by (cases x) simp_all

section \<open>The log of exchanges\<close>

record mcp_event =
  ev_serial :: nat
  ev_request :: json_rpc_request
  ev_outcome :: "(pipe_error + serde_value json_rpc_response) option"

type_synonym 'w logged_world = "nat \<times> mcp_event list \<times> 'w"

definition logged :: "('p, 'w) mcp_processes \<Rightarrow> (nat \<times> 'p, 'w logged_world) mcp_processes" where
  "logged procs =
     \<lparr>proc_spawn = (\<lambda>transport name (n, log, w). case proc_spawn procs transport name w of
          (Inl e, w') \<Rightarrow> (Inl e, (n, log, w'))
        | (Inr p, w') \<Rightarrow> (Inr (n, p), (Suc n, log, w'))),
      proc_exited = (\<lambda>(k, p) (n, log, w). apsnd (\<lambda>w. (n, log, w)) (proc_exited procs p w)),
      proc_shutdown = (\<lambda>(k, p) (n, log, w). apsnd (\<lambda>w. (n, log, w)) (proc_shutdown procs p w)),
      proc_exchange = (\<lambda>(k, p) limit request (n, log, w). map_option
        (\<lambda>(r, w'). (r, (n, log @ [\<lparr>ev_serial = k, ev_request = request, ev_outcome = r\<rparr>], w')))
        (proc_exchange procs p limit request w))\<rparr>"

abbreviation log_of :: "'m \<times> 'w logged_world \<Rightarrow> mcp_event list" where
  "log_of s \<equiv> fst (snd (snd s))"

text \<open>A process has shaken hands when it answered \<^verbatim>\<open>initialize\<close> with a result.\<close>

definition is_initialize :: "mcp_event \<Rightarrow> bool" where
  "is_initialize e \<longleftrightarrow> req_method (ev_request e) = lit ''initialize''"

definition accepted :: "mcp_codec \<Rightarrow> mcp_event \<Rightarrow> bool" where
  "accepted codec e \<longleftrightarrow> is_initialize e \<and> (case ev_outcome e of
     Some (Inr v) \<Rightarrow> (case rbind (typed_response (read_initialize codec) v)
         (check_response codec (req_id (ev_request e)) (req_method (ev_request e))) of
         Inr r \<Rightarrow> resp_error r = None \<and> resp_result r \<noteq> None
       | Inl _ \<Rightarrow> False)
   | _ \<Rightarrow> False)"

definition handshaken :: "mcp_codec \<Rightarrow> mcp_event list \<Rightarrow> nat \<Rightarrow> bool" where
  "handshaken codec log k \<longleftrightarrow> list_ex (\<lambda>e. ev_serial e = k \<and> accepted codec e) log"

definition in_order :: "mcp_codec \<Rightarrow> mcp_event list \<Rightarrow> bool" where
  "in_order codec log \<longleftrightarrow>
     (\<forall>i < length log. is_initialize (log ! i) \<or> handshaken codec (take i log) (ev_serial (log ! i)))"

lemma in_order_Nil [simp]: "in_order codec []"
  by (simp add: in_order_def)

lemma in_order_snoc:
  "in_order codec (log @ [e]) \<longleftrightarrow> in_order codec log \<and> (is_initialize e \<or> handshaken codec log (ev_serial e))"
  unfolding in_order_def by (auto simp: nth_append less_Suc_eq)

lemma handshaken_mono: "handshaken codec log k \<Longrightarrow> handshaken codec (log @ log') k"
  by (simp add: handshaken_def)

lemma handshaken_snoc: "handshaken codec (log @ [e]) k \<longleftrightarrow> handshaken codec log k \<or> ev_serial e = k \<and> accepted codec e"
  by (auto simp: handshaken_def)

text \<open>The ids of the requests: increasing, until they stay at the greatest number.\<close>

definition request_ids :: "mcp_event list \<Rightarrow> u64 list" where
  "request_ids log = map (\<lambda>e. case req_id (ev_request e) of Id_Number a \<Rightarrow> a | _ \<Rightarrow> 0) log"

abbreviation advanced :: "u64 \<Rightarrow> u64 \<Rightarrow> bool" where
  "advanced a b \<equiv> a < b \<or> b = - 1"

definition ids_ok :: "mcp_event list \<Rightarrow> u64 \<Rightarrow> bool" where
  "ids_ok log next \<longleftrightarrow> sorted_wrt advanced (request_ids log) \<and> (\<forall>a \<in> set (request_ids log). advanced a next)"

section \<open>The invariant\<close>

definition routes_ok :: "rstring list \<Rightarrow> (rstring \<times> tool_route) list \<Rightarrow> bool" where
  "routes_ok names index \<longleftrightarrow> (\<forall>(q, r) \<in> set index.
     route_server r \<in> set names \<and> q = mcp_tool_name (route_server r) (route_raw_name r))"

text \<open>A server that is marked as initialized has a process that has shaken hands.\<close>

definition server_ok :: "mcp_codec \<Rightarrow> mcp_event list \<Rightarrow> (nat \<times> 'p) managed_server \<Rightarrow> bool" where
  "server_ok codec log srv \<longleftrightarrow> srv_initialized srv \<longrightarrow>
     (case srv_process srv of None \<Rightarrow> False | Some (k, _) \<Rightarrow> handshaken codec log k)"

definition manager_ok :: "mcp_codec \<Rightarrow> rstring list \<Rightarrow> (nat \<times> 'p) mcp_manager \<times> 'w logged_world \<Rightarrow> bool" where
  "manager_ok codec names s \<longleftrightarrow>
     sorted_wrt (<) names \<and> map fst (managed_servers (fst s)) = names \<and> routes_ok names (tool_index (fst s)) \<and>
     in_order codec (log_of s) \<and> ids_ok (log_of s) (next_request_id (fst s)) \<and>
     (\<forall>srv \<in> snd ` set (managed_servers (fst s)). server_ok codec (log_of s) srv)"

definition server_is :: "rstring \<Rightarrow> ('p managed_server \<Rightarrow> bool) \<Rightarrow> 'p mcp_manager \<times> 'w \<Rightarrow> bool" where
  "server_is name F s \<longleftrightarrow> (\<exists>srv. map_of (managed_servers (fst s)) name = Some srv \<and> F srv)"

lemma bt_insert_keys: "sorted_wrt (<) (map fst es) \<Longrightarrow> k \<in> fst ` set es \<Longrightarrow> map fst (bt_insert k v es) = map fst es"
  by (induction k v es rule: bt_insert.induct) auto

lemma snd_bt_insert: "snd ` set (bt_insert k v es) \<subseteq> insert v (snd ` set es)"
  by (induction k v es rule: bt_insert.induct) auto

lemma manager_ok_put:
  assumes "manager_ok codec names s" and "name \<in> set names" and "server_ok codec (log_of s) srv"
  shows "manager_ok codec names (apfst (\<lambda>m. m\<lparr>managed_servers := bt_insert name srv (managed_servers m)\<rparr>) s)"
proof -
  have "sorted_wrt (<) (map fst (managed_servers (fst s)))" and "name \<in> fst ` set (managed_servers (fst s))"
    using assms(1,2) by (auto simp: manager_ok_def)
  then have "map fst (bt_insert name srv (managed_servers (fst s))) = names"
    using assms(1) by (simp add: bt_insert_keys manager_ok_def)
  moreover have "\<forall>srv' \<in> snd ` set (bt_insert name srv (managed_servers (fst s))). server_ok codec (log_of s) srv'"
    using assms(1,3) snd_bt_insert [of name srv "managed_servers (fst s)"] unfolding manager_ok_def by blast
  ultimately show ?thesis using assms(1) by (simp add: manager_ok_def)
qed

section \<open>The steps\<close>

text \<open>What holds of the servers is kept by everything that changes only the world, the ids or the index.\<close>

abbreviation (input) ok_with :: "mcp_codec \<Rightarrow> rstring list \<Rightarrow> ((rstring \<times> (nat \<times> 'p) managed_server) list \<Rightarrow> bool) \<Rightarrow>
    (nat \<times> 'p) mcp_manager \<times> 'w logged_world \<Rightarrow> bool" where
  "ok_with codec names F s \<equiv> manager_ok codec names s \<and> F (managed_servers (fst s))"

lemma names_of_ok: "manager_ok codec names s \<Longrightarrow> map_of (managed_servers (fst s)) name = Some srv \<Longrightarrow> name \<in> set names"
  by (drule map_of_SomeD) (force simp: manager_ok_def)

lemma server_of_ok: "manager_ok codec names s \<Longrightarrow> map_of (managed_servers (fst s)) name = Some srv \<Longrightarrow> server_ok codec (log_of s) srv"
  by (force simp: manager_ok_def dest!: map_of_SomeD)

lemma triple_server_mut:
  "triple (ok_with codec names F) (server_mut name)
     (\<lambda>srv. ok_with codec names (\<lambda>ss. F ss \<and> map_of ss name = Some srv)) (\<lambda>_. ok_with codec names F)"
  by (rule tripleI) (auto simp: server_mut_def mcp_lift_def ok_or_def split: option.splits)

lemma triple_put_server:
  "triple (\<lambda>s. manager_ok codec names s \<and> name \<in> set names \<and> server_ok codec (log_of s) srv) (put_server name srv)
     (\<lambda>_ s. manager_ok codec names s \<and> map_of (managed_servers (fst s)) name = Some srv) (\<lambda>_ _. False)"
proof (rule tripleI)
  fix s r s'
  assume ok: "manager_ok codec names s \<and> name \<in> set names \<and> server_ok codec (log_of s) srv"
    and "put_server name srv s = Some (r, s')"
  then have r: "r = Inr ()" and s': "s' = apfst (\<lambda>m. m\<lparr>managed_servers := bt_insert name srv (managed_servers m)\<rparr>) s"
    by (simp_all add: put_server_def)
  have "manager_ok codec names s'" unfolding s' using ok by (intro manager_ok_put) simp_all
  moreover have "map_of (managed_servers (fst s')) name = Some srv" by (cases s) (simp add: s' map_of_bt_insert_any)
  ultimately show "case r of Inl e \<Rightarrow> False | Inr x \<Rightarrow> manager_ok codec names s' \<and> map_of (managed_servers (fst s')) name = Some srv"
    by (simp add: r)
qed

text \<open>Operations of the world that leave the log alone.\<close>

definition quiet :: "('w logged_world \<Rightarrow> (pipe_error + 'a) \<times> 'w logged_world) \<Rightarrow> bool" where
  "quiet f \<longleftrightarrow> (\<forall>w. fst (snd (snd (f w))) = fst (snd w))"

lemma quietD: "quiet f \<Longrightarrow> fst (snd (snd (f w))) = fst (snd w)"
  unfolding quiet_def by blast

lemma quiet_logged:
  "quiet (proc_spawn (logged procs) transport name)" "quiet (proc_exited (logged procs) p)" "quiet (proc_shutdown (logged procs) p)"
  by (auto simp: quiet_def logged_def apsnd_def map_prod_def split: prod.splits sum.splits)

lemma manager_ok_world: "log_of s' = log_of s \<Longrightarrow> fst s' = fst s \<Longrightarrow> manager_ok codec names s' \<longleftrightarrow> manager_ok codec names s"
  by (simp add: manager_ok_def)

lemma triple_world:
  assumes "quiet f"
  shows "triple (ok_with codec names F) (mcp_world f) (\<lambda>_. ok_with codec names F) (\<lambda>_. ok_with codec names F)"
proof (rule tripleI)
  fix s r s'
  assume "ok_with codec names F s" and "mcp_world f s = Some (r, s')"
  moreover from this have "fst s' = fst s" and "log_of s' = log_of s"
    using quietD [OF assms, of "snd s"] by (auto simp: mcp_world_def split: prod.splits)
  ultimately have "ok_with codec names F s'" using manager_ok_world [of s' s] by simp
  then show "case r of Inl e \<Rightarrow> ok_with codec names F s' | Inr x \<Rightarrow> ok_with codec names F s'" by (simp split: sum.split)
qed

lemma triple_reset_server:
  "triple (manager_ok codec names) (reset_server (logged procs) name) (\<lambda>_. manager_ok codec names) (\<lambda>_. manager_ok codec names)"
proof -
  have shut: "triple (manager_ok codec names) (\<lambda>s. Some (Inr (), apsnd (\<lambda>w. snd (proc_shutdown (logged procs) p w)) s))
      (\<lambda>_. manager_ok codec names) (\<lambda>_. manager_ok codec names)" for p
  proof (rule tripleI)
    fix s r s'
    assume "manager_ok codec names s" and "Some (Inr (), apsnd (\<lambda>w. snd (proc_shutdown (logged procs) p w)) s) = Some (r, s')"
    moreover from this have "fst s' = fst s" and "log_of s' = log_of s"
      using quietD [OF quiet_logged(3) [of procs p], of "snd s"] by auto
    ultimately have "manager_ok codec names s'" using manager_ok_world [of s' s] by blast
    then show "case r of Inl e \<Rightarrow> manager_ok codec names s' | Inr x \<Rightarrow> manager_ok codec names s'" by (simp split: sum.split)
  qed
  show ?thesis unfolding reset_server_def
  proof (rule triple_bind)
    show "triple (manager_ok codec names) (server_mut name)
        (\<lambda>srv. ok_with codec names (\<lambda>ss. map_of ss name = Some srv)) (\<lambda>_. manager_ok codec names)"
      by (rule triple_conseq [OF triple_server_mut [where F = "\<lambda>_. True"]]) simp_all
    fix srv :: "(nat \<times> 'a) managed_server"
    show "triple (ok_with codec names (\<lambda>ss. map_of ss name = Some srv))
        (mcp_bind (put_server name (srv\<lparr>srv_initialized := False, srv_process := None\<rparr>)) (\<lambda>_. case srv_process srv of
          None \<Rightarrow> mcp_return ()
        | Some p \<Rightarrow> (\<lambda>s. Some (Inr (), apsnd (\<lambda>w. snd (proc_shutdown (logged procs) p w)) s))))
        (\<lambda>_. manager_ok codec names) (\<lambda>_. manager_ok codec names)"
    proof (rule triple_bind)
      show "triple (ok_with codec names (\<lambda>ss. map_of ss name = Some srv))
          (put_server name (srv\<lparr>srv_initialized := False, srv_process := None\<rparr>)) (\<lambda>_. manager_ok codec names) (\<lambda>_. manager_ok codec names)"
        by (rule triple_conseq [OF triple_put_server]) (auto simp: server_ok_def intro: names_of_ok)
    qed (intro triple_option triple_return shut)
  qed
qed

section \<open>Requests\<close>

definition pending :: "mcp_codec \<Rightarrow> rstring list \<Rightarrow> json_rpc_id \<Rightarrow> (nat \<times> 'p) mcp_manager \<times> 'w logged_world \<Rightarrow> bool" where
  "pending codec names i s \<longleftrightarrow> manager_ok codec names s \<and> (\<exists>a. i = Id_Number a \<and>
     (\<forall>b \<in> set (request_ids (log_of s)). advanced b a) \<and> advanced a (next_request_id (fst s)))"

lemma advanced_succ: "advanced a (saturating_succ a)"
proof (cases "a = - 1")
  case False
  then have "1 + a \<noteq> 0" by (metis add.commute add_eq_0_iff)
  then show ?thesis using False unatSuc [of a] by (simp add: saturating_succ_def word_less_nat_alt add.commute)
qed (simp add: saturating_succ_def)

lemma advanced_trans: "advanced a b \<Longrightarrow> advanced b c \<Longrightarrow> advanced a (c :: u64)"
  using word_n1_ge [of c] by (metis leD less_trans)

lemma triple_take_request_id:
  "triple (ok_with codec names F) take_request_id (\<lambda>i s. pending codec names i s \<and> F (managed_servers (fst s))) (\<lambda>_ _. False)"
proof (rule tripleI)
  fix s r s'
  assume ok: "ok_with codec names F s" and "take_request_id s = Some (r, s')"
  then have r: "r = Inr (Id_Number (next_request_id (fst s)))"
    and s': "s' = apfst (\<lambda>m. m\<lparr>next_request_id := saturating_succ (next_request_id m)\<rparr>) s"
    by (simp_all add: take_request_id_def)
  have ids: "\<forall>b \<in> set (request_ids (log_of s)). advanced b (next_request_id (fst s))"
    using ok by (simp add: manager_ok_def ids_ok_def)
  then have "\<forall>b \<in> set (request_ids (log_of s)). advanced b (saturating_succ (next_request_id (fst s)))"
    using advanced_trans advanced_succ by blast
  then have "manager_ok codec names s'" using ok by (simp add: s' manager_ok_def ids_ok_def)
  then show "case r of Inl e \<Rightarrow> False | Inr i \<Rightarrow> pending codec names i s' \<and> F (managed_servers (fst s'))"
    using ids ok advanced_succ [of "next_request_id (fst s)"] by (simp add: r s' pending_def)
qed

text \<open>An answer that a request returns is in the log.\<close>

definition answered :: "mcp_codec \<Rightarrow> (serde_value \<Rightarrow> rstring + 'a) \<Rightarrow> nat \<Rightarrow> json_rpc_request \<Rightarrow> 'a json_rpc_response \<Rightarrow>
    mcp_event \<Rightarrow> bool" where
  "answered codec read k request r e \<longleftrightarrow> ev_serial e = k \<and> ev_request e = request \<and> (\<exists>v. ev_outcome e = Some (Inr v) \<and>
     rbind (typed_response read v) (check_response codec (req_id request) (req_method request)) = Inr r)"

lemma run_logged:
  assumes "run_process_request codec (logged procs) read server method limit (k, p) i params (m, (n, log, w)) = Some (r, s')"
  shows "\<exists>e w'. s' = (m, (n, log @ [e], w')) \<and> ev_serial e = k \<and>
    ev_request e = json_rpc_request_new i method (Some params) \<and>
    (\<forall>x. r = Inr x \<longrightarrow> answered codec read k (json_rpc_request_new i method (Some params)) x e)"
proof -
  obtain out w' where x: "proc_exchange procs p limit (json_rpc_request_new i method (Some params)) w = Some (out, w')"
    using assms by (cases "proc_exchange procs p limit (json_rpc_request_new i method (Some params)) w")
      (auto simp: run_process_request_def logged_def)
  show ?thesis
  proof (cases out)
    case None
    then show ?thesis using assms x by (auto simp: run_process_request_def logged_def)
  next
    case (Some q)
    then show ?thesis using assms x
      by (cases q) (auto simp: run_process_request_def logged_def answered_def classify_response_def json_rpc_request_new_def
          map_sum_def split: sum.splits)
  qed
qed

lemma request_ids_snoc:
  "request_ids (log @ [e]) = request_ids log @ [case req_id (ev_request e) of Id_Number a \<Rightarrow> a | _ \<Rightarrow> 0]"
  by (simp add: request_ids_def)

lemma server_ok_mono: "server_ok codec log srv \<Longrightarrow> server_ok codec (log @ log') srv"
  by (auto simp: server_ok_def handshaken_mono split: option.splits)

lemma manager_ok_exchange:
  assumes "pending codec names i (m, (n, log, w))" and "is_initialize e \<or> handshaken codec log (ev_serial e)"
    and "req_id (ev_request e) = i"
  shows "manager_ok codec names (m, (n, log @ [e], w'))"
proof -
  obtain a where a: "i = Id_Number a" "\<forall>b \<in> set (request_ids log). advanced b a" "advanced a (next_request_id m)"
    using assms(1) by (auto simp: pending_def)
  have "ids_ok (log @ [e]) (next_request_id m)"
    using assms(1,3) a by (auto simp: pending_def manager_ok_def ids_ok_def request_ids_snoc sorted_wrt_append)
  then show ?thesis using assms(1,2)
    by (auto simp: pending_def manager_ok_def in_order_snoc intro: server_ok_mono)
qed

lemma triple_run_process_request:
  "triple (\<lambda>s. pending codec names i s \<and> F (managed_servers (fst s)) \<and>
       (method = lit ''initialize'' \<or> handshaken codec (log_of s) k))
     (run_process_request codec (logged procs) read server method limit (k, p) i params)
     (\<lambda>r s. ok_with codec names F s \<and>
       list_ex (answered codec read k (json_rpc_request_new i method (Some params)) r) (log_of s))
     (\<lambda>_. ok_with codec names F)"
proof (rule tripleI)
  fix s r s'
  assume pre: "pending codec names i s \<and> F (managed_servers (fst s)) \<and>
      (method = lit ''initialize'' \<or> handshaken codec (log_of s) k)"
    and run: "run_process_request codec (logged procs) read server method limit (k, p) i params s = Some (r, s')"
  obtain m n log w where s: "s = (m, (n, log, w))" by (cases s)
  obtain e w' where e: "s' = (m, (n, log @ [e], w'))" "ev_serial e = k"
      "ev_request e = json_rpc_request_new i method (Some params)"
      "\<forall>x. r = Inr x \<longrightarrow> answered codec read k (json_rpc_request_new i method (Some params)) x e"
    using run_logged [OF run [unfolded s]] by blast
  have "manager_ok codec names s'" unfolding e(1)
    using pre e(2,3) unfolding s by (intro manager_ok_exchange) (auto simp: is_initialize_def json_rpc_request_new_def)
  then show "case r of Inl e \<Rightarrow> ok_with codec names F s' | Inr x \<Rightarrow> ok_with codec names F s' \<and>
      list_ex (answered codec read k (json_rpc_request_new i method (Some params)) x) (log_of s')"
    using pre e by (cases r) (simp_all add: s)
qed

lemma triple_with_process:
  assumes "\<And>i k p srv. srv_process srv = Some (k, p) \<Longrightarrow>
      triple (\<lambda>s. pending codec names i s \<and> F (managed_servers (fst s)) \<and> map_of (managed_servers (fst s)) name = Some srv)
        (f i (k, p)) Q E"
    and "\<And>e s. manager_ok codec names s \<Longrightarrow> E e s"
  shows "triple (ok_with codec names F) (with_process absent name method f) Q E"
  unfolding with_process_def
proof (rule triple_bind)
  show "triple (ok_with codec names F) take_request_id (\<lambda>i s. pending codec names i s \<and> F (managed_servers (fst s))) E"
    by (rule triple_conseq [OF triple_take_request_id]) simp_all
  fix i
  show "triple (\<lambda>s. pending codec names i s \<and> F (managed_servers (fst s))) (mcp_bind (server_mut name) (\<lambda>srv. case srv_process srv of
      None \<Rightarrow> mcp_fail (Manager_InvalidResponse name method absent) | Some p \<Rightarrow> f i p)) Q E"
  proof (rule triple_bind)
    show "triple (\<lambda>s. pending codec names i s \<and> F (managed_servers (fst s))) (server_mut name)
        (\<lambda>srv s. pending codec names i s \<and> F (managed_servers (fst s)) \<and> map_of (managed_servers (fst s)) name = Some srv) E"
      using assms(2) by (intro tripleI) (auto simp: server_mut_def mcp_lift_def ok_or_def pending_def split: option.splits)
    fix srv :: "(nat \<times> 'a) managed_server"
    show "triple (\<lambda>s. pending codec names i s \<and> F (managed_servers (fst s)) \<and> map_of (managed_servers (fst s)) name = Some srv)
        (case srv_process srv of None \<Rightarrow> mcp_fail (Manager_InvalidResponse name method absent) | Some p \<Rightarrow> f i p) Q E"
      using assms by (intro triple_option triple_fail) (auto simp: pending_def)
  qed
qed

section \<open>The operations\<close>

abbreviation (input) keeps :: "mcp_codec \<Rightarrow> rstring list \<Rightarrow> (nat \<times> 'p, 'w logged_world, 'a) mcp_op \<Rightarrow> bool" where
  "keeps codec names f \<equiv> triple (manager_ok codec names) f (\<lambda>_. manager_ok codec names) (\<lambda>_. manager_ok codec names)"

definition ready :: "rstring \<Rightarrow> (rstring \<times> 'p managed_server) list \<Rightarrow> bool" where
  "ready name servers \<longleftrightarrow> (case map_of servers name of None \<Rightarrow> False | Some srv \<Rightarrow> srv_initialized srv)"

lemma triple_server:
  "triple (manager_ok codec names) (server_mut name) (\<lambda>srv. ok_with codec names (\<lambda>ss. map_of ss name = Some srv))
     (\<lambda>_. manager_ok codec names)"
  by (rule triple_conseq [OF triple_server_mut [where F = "\<lambda>_. True"]]) simp_all

lemma triple_pipes: "quiet f \<Longrightarrow> keeps codec names (mcp_world f)"
  by (rule triple_conseq [OF triple_world [where F = "\<lambda>_. True"]]) simp_all

lemma triple_put_idle:
  assumes "\<not> srv_initialized srv'"
  shows "triple (ok_with codec names (\<lambda>ss. map_of ss name = Some srv)) (put_server name srv') (\<lambda>_. manager_ok codec names) E"
  by (rule triple_conseq [OF triple_put_server]) (use assms in \<open>auto simp: server_ok_def intro: names_of_ok\<close>)

lemma triple_give_up: "triple (manager_ok codec names) (give_up (logged procs) name e) Q (\<lambda>_. manager_ok codec names)"
  unfolding give_up_def
  by (rule triple_bind [where R = "\<lambda>_. manager_ok codec names"]) (auto intro: triple_reset_server triple_return triple_fail)

lemma triple_spawn_if_needed: "keeps codec names (spawn_if_needed (logged procs) name)"
  unfolding spawn_if_needed_def
proof (rule triple_bind [OF triple_server], rule triple_option)
  fix srv :: "(nat \<times> 'a) managed_server"
  show "triple (ok_with codec names (\<lambda>ss. map_of ss name = Some srv))
      (mcp_bind (mcp_world (proc_spawn (logged procs) (bootstrap_transport (srv_bootstrap srv)) (bootstrap_server (srv_bootstrap srv))))
        (\<lambda>p. put_server name (srv\<lparr>srv_process := Some p, srv_initialized := False\<rparr>)))
      (\<lambda>_. manager_ok codec names) (\<lambda>_. manager_ok codec names)"
  proof (rule triple_bind)
    show "triple (ok_with codec names (\<lambda>ss. map_of ss name = Some srv))
        (mcp_world (proc_spawn (logged procs) (bootstrap_transport (srv_bootstrap srv)) (bootstrap_server (srv_bootstrap srv))))
        (\<lambda>_. ok_with codec names (\<lambda>ss. map_of ss name = Some srv)) (\<lambda>_. manager_ok codec names)"
      by (rule triple_conseq [OF triple_world [OF quiet_logged(1)]]) auto
  qed (simp add: triple_put_idle)
qed (rule triple_return, simp)

definition initialize_request :: "json_rpc_id \<Rightarrow> json_rpc_request" where
  "initialize_request i = json_rpc_request_new i (lit ''initialize'') (Some (Initialize_Params default_initialize_params))"

lemma handshake_of_answer:
  assumes "list_ex (answered codec (read_initialize codec) k (initialize_request i) r) log"
    and "resp_error r = None" and "resp_result r \<noteq> None"
  shows "handshaken codec log k"
proof -
  obtain e where e: "e \<in> set log" "answered codec (read_initialize codec) k (initialize_request i) r e"
    using assms(1) by (auto simp: list_ex_iff)
  then have "ev_serial e = k \<and> accepted codec e" using assms(2,3)
    by (auto simp: answered_def accepted_def is_initialize_def initialize_request_def json_rpc_request_new_def)
  then show ?thesis using e(1) by (auto simp: handshaken_def list_ex_iff)
qed

lemma triple_accept_initialization:
  assumes "srv_process srv = Some (k, p)"
  shows "triple (\<lambda>s. ok_with codec names (\<lambda>ss. map_of ss name = Some srv) s \<and>
      list_ex (answered codec (read_initialize codec) k (initialize_request i) r) (log_of s))
    (accept_initialization (logged procs) name r) (\<lambda>_. ok_with codec names (ready name)) (\<lambda>_. manager_ok codec names)"
  unfolding accept_initialization_def
proof (rule triple_option [rotated])
  assume err: "resp_error r = None"
  show "triple (\<lambda>s. ok_with codec names (\<lambda>ss. map_of ss name = Some srv) s \<and>
      list_ex (answered codec (read_initialize codec) k (initialize_request i) r) (log_of s))
    (case resp_result r of
       None \<Rightarrow> mcp_bind (reset_server (logged procs) name) (\<lambda>_.
         mcp_fail (Manager_InvalidResponse name (lit ''initialize'') (lit ''missing result payload'')))
     | Some _ \<Rightarrow> mcp_bind (server_mut name) (\<lambda>srv. put_server name (srv\<lparr>srv_initialized := True\<rparr>)))
    (\<lambda>_. ok_with codec names (ready name)) (\<lambda>_. manager_ok codec names)"
  proof (rule triple_option)
    show "triple (\<lambda>s. ok_with codec names (\<lambda>ss. map_of ss name = Some srv) s \<and>
        list_ex (answered codec (read_initialize codec) k (initialize_request i) r) (log_of s))
      (mcp_bind (reset_server (logged procs) name) (\<lambda>_.
         mcp_fail (Manager_InvalidResponse name (lit ''initialize'') (lit ''missing result payload''))))
      (\<lambda>_. ok_with codec names (ready name)) (\<lambda>_. manager_ok codec names)"
      by (rule triple_bind [OF triple_conseq [OF triple_reset_server] triple_fail]) simp_all
    fix v assume v: "resp_result r = Some v"
    have "triple (\<lambda>s. manager_ok codec names s \<and> map_of (managed_servers (fst s)) name = Some srv \<and> handshaken codec (log_of s) k)
        (mcp_bind (server_mut name) (\<lambda>srv. put_server name (srv\<lparr>srv_initialized := True\<rparr>)))
        (\<lambda>_. ok_with codec names (ready name)) (\<lambda>_. manager_ok codec names)"
    proof (rule triple_bind)
      show "triple (\<lambda>s. manager_ok codec names s \<and> map_of (managed_servers (fst s)) name = Some srv \<and> handshaken codec (log_of s) k)
          (server_mut name) (\<lambda>x s. x = srv \<and> manager_ok codec names s \<and>
            map_of (managed_servers (fst s)) name = Some srv \<and> handshaken codec (log_of s) k)
          (\<lambda>_. manager_ok codec names)"
        by (rule tripleI) (auto simp: server_mut_def mcp_lift_def)
      fix x :: "(nat \<times> 'a) managed_server"
      show "triple (\<lambda>s. x = srv \<and> manager_ok codec names s \<and>
            map_of (managed_servers (fst s)) name = Some srv \<and> handshaken codec (log_of s) k)
          (put_server name (x\<lparr>srv_initialized := True\<rparr>)) (\<lambda>_. ok_with codec names (ready name)) (\<lambda>_. manager_ok codec names)"
        by (rule triple_conseq [OF triple_put_server]) (auto simp: server_ok_def ready_def assms intro: names_of_ok)
    qed
    then show "triple (\<lambda>s. ok_with codec names (\<lambda>ss. map_of ss name = Some srv) s \<and>
        list_ex (answered codec (read_initialize codec) k (initialize_request i) r) (log_of s))
      (mcp_bind (server_mut name) (\<lambda>srv. put_server name (srv\<lparr>srv_initialized := True\<rparr>)))
      (\<lambda>_. ok_with codec names (ready name)) (\<lambda>_. manager_ok codec names)"
      by (rule triple_conseq) (use handshake_of_answer err v in auto)
  qed
qed (auto intro: triple_fail)

lemma triple_ready_pass:
  assumes "\<And>e. triple (manager_ok codec names) (handler e) (\<lambda>_. ok_with codec names (ready name)) (\<lambda>_. manager_ok codec names)"
  shows "triple (manager_ok codec names) (ready_pass codec (logged procs) name handler)
    (\<lambda>_. ok_with codec names (ready name)) (\<lambda>_. manager_ok codec names)"
  unfolding ready_pass_def
proof (rule triple_bind [OF triple_spawn_if_needed], rule triple_bind [OF triple_server], rule triple_if)
  fix srv :: "(nat \<times> 'a) managed_server"
  show "srv_initialized srv \<Longrightarrow> triple (ok_with codec names (\<lambda>ss. map_of ss name = Some srv)) (mcp_return ())
      (\<lambda>_. ok_with codec names (ready name)) (\<lambda>_. manager_ok codec names)"
    by (rule triple_return) (simp add: ready_def)
  show "triple (ok_with codec names (\<lambda>ss. map_of ss name = Some srv))
      (with_process (lit ''server process missing before initialize'') name (lit ''initialize'') (\<lambda>i p.
         mcp_try (run_process_request codec (logged procs) (read_initialize codec) name (lit ''initialize'')
             initialize_timeout_ms p i (Initialize_Params default_initialize_params))
           handler (accept_initialization (logged procs) name)))
      (\<lambda>_. ok_with codec names (ready name)) (\<lambda>_. manager_ok codec names)"
  proof (rule triple_conseq [OF triple_with_process [where F = "\<lambda>_. True"]])
    fix i k and srv :: "(nat \<times> 'a) managed_server" and p
    assume srv: "srv_process srv = Some (k, p)"
    show "triple (\<lambda>s. pending codec names i s \<and> True \<and> map_of (managed_servers (fst s)) name = Some srv)
        (mcp_try (run_process_request codec (logged procs) (read_initialize codec) name (lit ''initialize'')
             initialize_timeout_ms (k, p) i (Initialize_Params default_initialize_params))
           handler (accept_initialization (logged procs) name))
        (\<lambda>_. ok_with codec names (ready name)) (\<lambda>_. manager_ok codec names)"
    proof (rule triple_try)
      show "triple (\<lambda>s. pending codec names i s \<and> True \<and> map_of (managed_servers (fst s)) name = Some srv)
          (run_process_request codec (logged procs) (read_initialize codec) name (lit ''initialize'')
             initialize_timeout_ms (k, p) i (Initialize_Params default_initialize_params))
          (\<lambda>r s. ok_with codec names (\<lambda>ss. map_of ss name = Some srv) s \<and>
            list_ex (answered codec (read_initialize codec) k (initialize_request i) r) (log_of s))
          (\<lambda>_. manager_ok codec names)"
        by (rule triple_conseq [OF triple_run_process_request [where F = "\<lambda>ss. map_of ss name = Some srv"]])
          (auto simp: initialize_request_def)
    qed (use assms triple_accept_initialization [OF srv] in auto)
  qed auto
qed

lemma triple_ready_loop:
  "triple (manager_ok codec names) (ready_loop n codec (logged procs) name)
     (\<lambda>_. ok_with codec names (ready name)) (\<lambda>_. manager_ok codec names)"
proof (induction n)
  case 0
  show ?case by (simp add: triple_ready_pass triple_give_up)
next
  case (Suc n)
  then show ?case
    by (auto intro!: triple_ready_pass triple_if triple_give_up triple_bind [OF triple_reset_server])
qed

lemma triple_ensure:
  "triple (manager_ok codec names) (ensure_server_ready codec (logged procs) name)
     (\<lambda>_. ok_with codec names (ready name)) (\<lambda>_. manager_ok codec names)"
proof -
  have "keeps codec names (server_process_exited (logged procs) name)"
    unfolding server_process_exited_def
    by (rule triple_bind [OF triple_server], rule triple_option)
      (auto intro: triple_return triple_conseq [OF triple_pipes [OF quiet_logged(2)]])
  then show ?thesis unfolding ensure_server_ready_def
    by (rule triple_bind, intro triple_bind [OF _ triple_ready_loop] triple_if triple_reset_server triple_return)
qed

lemma triple_ready_process:
  fixes f :: "json_rpc_id \<Rightarrow> nat \<times> 'p \<Rightarrow> (nat \<times> 'p, 'w logged_world, 'a) mcp_op"
  assumes "\<And>i k p. triple (\<lambda>s. pending codec names i s \<and> ready name (managed_servers (fst s)) \<and> handshaken codec (log_of s) k)
      (f i (k, p)) Q E"
    and "\<And>e s. manager_ok codec names s \<Longrightarrow> E e s"
  shows "triple (ok_with codec names (ready name)) (with_process absent name method f) Q E"
proof (rule triple_with_process)
  fix i k p and srv :: "(nat \<times> 'p) managed_server"
  assume srv: "srv_process srv = Some (k, p)"
  have "handshaken codec (log_of s) k"
    if "manager_ok codec names s" "ready name (managed_servers (fst s))" "map_of (managed_servers (fst s)) name = Some srv"
    for s :: "(nat \<times> 'p) mcp_manager \<times> 'w logged_world"
    using server_of_ok [OF that(1,3)] that(2,3) srv by (simp add: ready_def server_ok_def)
  then show "triple (\<lambda>s. pending codec names i s \<and> ready name (managed_servers (fst s)) \<and>
        map_of (managed_servers (fst s)) name = Some srv) (f i (k, p)) Q E"
    by (intro triple_conseq [OF assms(1)]) (auto simp: pending_def)
qed (rule assms(2))

lemma triple_ready_run:
  "triple (\<lambda>s. pending codec names i s \<and> ready name (managed_servers (fst s)) \<and> handshaken codec (log_of s) k)
     (run_process_request codec (logged procs) read server method limit (k, p) i params)
     (\<lambda>_. ok_with codec names (ready name)) (\<lambda>_. manager_ok codec names)"
  by (rule triple_conseq [OF triple_run_process_request [where F = "ready name"]]) auto

lemma triple_ready_request:
  "triple (ok_with codec names (ready name))
     (with_process absent name method (\<lambda>i p. run_process_request codec (logged procs) read name method limit p i params))
     (\<lambda>_. ok_with codec names (ready name)) (\<lambda>_. manager_ok codec names)"
  by (rule triple_ready_process [OF triple_ready_run])

lemma triple_list_pages:
  "triple (ok_with codec names (ready name)) (list_pages n codec (logged procs) read name method cursor)
     (\<lambda>_. ok_with codec names (ready name)) (\<lambda>_. manager_ok codec names)"
proof (induction n arbitrary: cursor)
  case 0
  show ?case by (simp add: triple_def)
next
  case (Suc n)
  have rest: "triple (ok_with codec names (ready name))
      (case page of (items, next) \<Rightarrow> (case next of None \<Rightarrow> mcp_return items
        | Some c \<Rightarrow> mcp_bind (list_pages n codec (logged procs) read name method (Some c)) (\<lambda>others. mcp_return (items @ others))))
      (\<lambda>_. ok_with codec names (ready name)) (\<lambda>_. manager_ok codec names)" for page
    by (cases page) (auto intro!: triple_option triple_return triple_bind [OF Suc])
  show ?case unfolding list_pages.simps
    by (rule triple_bind [OF triple_ready_request], rule triple_bind [OF triple_lift rest]) simp_all
qed

lemma triple_with_retry:
  assumes "triple (manager_ok codec names) once Q (\<lambda>_. manager_ok codec names)"
  shows "triple (manager_ok codec names) (with_retry n (logged procs) name once) Q (\<lambda>_. manager_ok codec names)"
proof (induction n)
  case 0
  show ?case by (auto intro!: triple_try [OF assms] triple_give_up triple_return)
next
  case (Suc n)
  then show ?case
    by (auto intro!: triple_try [OF assms] triple_if triple_give_up triple_return triple_bind [OF triple_reset_server])
qed

text \<open>The tools that are found for a server are routed to it.\<close>

definition tools_of :: "rstring list \<Rightarrow> rstring \<Rightarrow> managed_mcp_tool list \<Rightarrow> bool" where
  "tools_of names name ts \<longleftrightarrow> name \<in> set names \<and>
     list_all (\<lambda>t. tool_server_name t = name \<and> qualified_name t = mcp_tool_name name (raw_name t)) ts"

lemma ready_name: "manager_ok codec names s \<Longrightarrow> ready name (managed_servers (fst s)) \<Longrightarrow> name \<in> set names"
  by (simp add: ready_def split: option.splits) (rule names_of_ok)

lemma triple_discover:
  "triple (manager_ok codec names) (discover_tools_for_server fuel codec (logged procs) name)
     (\<lambda>ts s. manager_ok codec names s \<and> tools_of names name ts) (\<lambda>_. manager_ok codec names)"
  unfolding discover_tools_for_server_def
proof (rule triple_with_retry)
  show "triple (manager_ok codec names) (discover_tools_for_server_once fuel codec (logged procs) name)
     (\<lambda>ts s. manager_ok codec names s \<and> tools_of names name ts) (\<lambda>_. manager_ok codec names)"
    unfolding discover_tools_for_server_once_def
    by (rule triple_bind [OF triple_ensure], rule triple_bind [OF triple_list_pages], rule triple_return)
      (elim conjE, frule (1) ready_name, simp add: tools_of_def managed_tool_of_def list_all_iff)
qed

lemma routes_ok_fold:
  "routes_ok names index \<Longrightarrow> list_all (\<lambda>t. tool_server_name t \<in> set names \<and> qualified_name t = mcp_tool_name (tool_server_name t) (raw_name t)) ts \<Longrightarrow>
   routes_ok names (foldl (\<lambda>index t. bt_insert (qualified_name t) (route_of t) index) index ts)"
proof (induction ts arbitrary: index)
  case (Cons t ts)
  have "set (bt_insert q r index) \<subseteq> insert (q, r) (set index)" for q :: rstring and r
    by (induction q r index rule: bt_insert.induct) auto
  then have "routes_ok names (bt_insert (qualified_name t) (route_of t) index)"
    using Cons.prems by (fastforce simp: routes_ok_def route_of_def)
  then show ?case using Cons by simp
qed simp

lemma triple_clear: "keeps codec names (clear_routes_for_server name)"
  by (rule tripleI) (auto simp: clear_routes_for_server_def manager_ok_def routes_ok_def)

lemma triple_replace_routes:
  "triple (\<lambda>s. manager_ok codec names s \<and> tools_of names name ts) (replace_routes name ts)
     (\<lambda>_. manager_ok codec names) (\<lambda>_. manager_ok codec names)"
proof -
  have "keeps codec names (index_tools ts)" if "tools_of names name ts"
  proof (rule tripleI)
    fix s r s'
    assume ok: "manager_ok codec names s" and run: "index_tools ts s = Some (r, s')"
    have "list_all (\<lambda>t. tool_server_name t \<in> set names \<and> qualified_name t = mcp_tool_name (tool_server_name t) (raw_name t)) ts"
      using that by (auto simp: tools_of_def list_all_iff)
    then have "routes_ok names (foldl (\<lambda>index t. bt_insert (qualified_name t) (route_of t) index) (tool_index (fst s)) ts)"
      using ok by (intro routes_ok_fold) (simp_all add: manager_ok_def)
    moreover have "s' = apfst (\<lambda>m. m\<lparr>tool_index :=
        foldl (\<lambda>index t. bt_insert (qualified_name t) (route_of t) index) (tool_index m) ts\<rparr>) s"
      using run by (simp add: index_tools_def)
    ultimately have "manager_ok codec names s'" using ok by (simp add: manager_ok_def)
    then show "case r of Inl e \<Rightarrow> manager_ok codec names s' | Inr x \<Rightarrow> manager_ok codec names s'" by (simp split: sum.split)
  qed
  then have "tools_of names name ts \<Longrightarrow> keeps codec names (replace_routes name ts)"
    unfolding replace_routes_def by (intro triple_bind [OF triple_clear])
  then show ?thesis by (rule triple_pure)
qed

lemma triple_discover_each: "keeps codec names (discover_each fuel codec (logged procs) ns)"
  by (induction ns) (auto intro!: triple_return triple_bind [OF triple_discover] triple_bind [OF triple_replace_routes]
      intro: triple_bind)

lemma triple_best_effort_each: "keeps codec names (best_effort_each fuel codec (logged procs) ns)"
  by (induction ns) (auto intro!: triple_return triple_try [OF triple_discover] triple_bind [OF triple_replace_routes]
      triple_bind [OF triple_clear] intro: triple_bind split: prod.splits)

lemma triple_shutdown_each:
  fixes procs :: "('p, 'w) mcp_processes"
  shows "keeps codec names (shutdown_each (logged procs) ns)"
proof (induction ns)
  case Nil
  show ?case by (simp add: triple_return)
next
  case (Cons name ns)
  show ?case unfolding shutdown_each.simps
  proof (rule triple_bind [OF triple_server], rule triple_bind)
    fix srv :: "(nat \<times> 'p) managed_server"
    show "triple (ok_with codec names (\<lambda>ss. map_of ss name = Some srv))
        (case srv_process srv of None \<Rightarrow> mcp_return () | Some p \<Rightarrow> mcp_world (proc_shutdown (logged procs) p))
        (\<lambda>_. ok_with codec names (\<lambda>ss. map_of ss name = Some srv)) (\<lambda>_. manager_ok codec names)"
      by (rule triple_option, rule triple_return, assumption, rule triple_conseq [OF triple_world [OF quiet_logged(3)]]) auto
    show "triple (ok_with codec names (\<lambda>ss. map_of ss name = Some srv))
        (mcp_bind (put_server name (srv\<lparr>srv_process := None, srv_initialized := False\<rparr>)) (\<lambda>_. shutdown_each (logged procs) ns))
        (\<lambda>_. manager_ok codec names) (\<lambda>_. manager_ok codec names)"
      by (rule triple_bind [OF triple_put_idle Cons]) simp
  qed
qed

lemma triple_call_tool: "keeps codec names (call_tool codec (logged procs) name arguments)"
proof (rule tripleI)
  fix s r s'
  assume ok: "manager_ok codec names s" and run: "call_tool codec (logged procs) name arguments s = Some (r, s')"
  show "case r of Inl e \<Rightarrow> manager_ok codec names s' | Inr x \<Rightarrow> manager_ok codec names s'"
  proof (cases "map_of (tool_index (fst s)) name")
    case None
    then show ?thesis using ok run by (auto simp: call_tool_def mcp_fail_def)
  next
    case (Some route)
    let ?server = "route_server route"
    let ?run = "mcp_bind (tool_call_timeout codec ?server) (\<lambda>limit.
       mcp_bind (ensure_server_ready codec (logged procs) ?server) (\<lambda>_.
       with_process missing_process ?server (lit ''tools/call'') (\<lambda>i p.
         mcp_try (run_process_request codec (logged procs) (read_call codec) ?server (lit ''tools/call'') limit p i
             (Call_Params (route_raw_name route) arguments None))
           (give_up (logged procs) ?server) mcp_return)))"
    have "keeps codec names (tool_call_timeout codec ?server)"
      unfolding tool_call_timeout_def
      by (rule triple_bind [OF triple_server]) (auto intro!: triple_return triple_fail split: mcp_client_transport.split)
    then have kept: "keeps codec names ?run"
      by (rule triple_bind, intro triple_bind [OF triple_ensure] triple_ready_process triple_try [OF triple_ready_run]
          triple_give_up triple_return) auto
    have "?run s = Some (r, s')" using run Some by (simp add: call_tool_def)
    then show ?thesis by (rule tripleD [OF kept ok])
  qed
qed

section \<open>Reachable managers\<close>

inductive manager_step :: "mcp_codec \<Rightarrow> ('p, 'w) mcp_processes \<Rightarrow> 'p mcp_manager \<times> 'w \<Rightarrow> 'p mcp_manager \<times> 'w \<Rightarrow> bool"
  for codec procs where
  step_discover: "manager_discover_tools fuel codec procs s = Some (r, s') \<Longrightarrow> manager_step codec procs s s'"
| step_best_effort: "discover_tools_best_effort now fuel codec procs s = Some (r', s') \<Longrightarrow> manager_step codec procs s s'"
| step_call: "call_tool codec procs name arguments s = Some (c, s') \<Longrightarrow> manager_step codec procs s s'"
| step_list: "manager_list_resources fuel codec procs name s = Some (l, s') \<Longrightarrow> manager_step codec procs s s'"
| step_read: "manager_read_resource codec procs name uri s = Some (u, s') \<Longrightarrow> manager_step codec procs s s'"
| step_shutdown: "manager_shutdown procs s = Some (d, s') \<Longrightarrow> manager_step codec procs s s'"

lemma keepsD: "keeps codec names f \<Longrightarrow> manager_ok codec names s \<Longrightarrow> f s = Some (r, s') \<Longrightarrow> manager_ok codec names s'"
  by (drule (2) tripleD) (simp split: sum.splits)

lemma keeps_resources:
  "keeps codec names (manager_list_resources fuel codec (logged procs) name)"
  "keeps codec names (manager_read_resource codec (logged procs) name uri)"
proof -
  have "keeps codec names (list_resources_once fuel codec (logged procs) name)"
    unfolding list_resources_once_def
    by (rule triple_bind [OF triple_ensure], rule triple_bind [OF triple_list_pages], rule triple_return) simp
  then show "keeps codec names (manager_list_resources fuel codec (logged procs) name)"
    unfolding manager_list_resources_def by (rule triple_with_retry)
  have "keeps codec names (read_resource_once codec (logged procs) name uri)"
    unfolding read_resource_once_def
    by (rule triple_bind [OF triple_ensure], rule triple_bind [OF triple_ready_request], rule triple_lift) simp_all
  then show "keeps codec names (manager_read_resource codec (logged procs) name uri)"
    unfolding manager_read_resource_def by (rule triple_with_retry)
qed

lemma manager_ok_step:
  "manager_step codec (logged procs) s s' \<Longrightarrow> manager_ok codec names s \<Longrightarrow> manager_ok codec names s'"
proof (induction rule: manager_step.induct)
  case (step_discover fuel s r s')
  then show ?case unfolding manager_discover_tools_def by (rule keepsD [OF triple_discover_each, rotated])
next
  case (step_best_effort now fuel s r s')
  have kept: "keeps codec names (mcp_bind (best_effort_each fuel codec (logged procs) ns)
      (\<lambda>r. mcp_return (best_effort_report now us r)))" for ns us
    by (rule triple_bind [OF triple_best_effort_each], rule triple_return)
  show ?case using step_best_effort(1) unfolding discover_tools_best_effort_def
    by (rule keepsD [OF kept step_best_effort(2)])
next
  case (step_call name arguments s c s')
  then show ?case by (rule keepsD [OF triple_call_tool, rotated])
next
  case (step_list fuel name s l s')
  then show ?case by (rule keepsD [OF keeps_resources(1), rotated])
next
  case (step_read name uri s u s')
  then show ?case by (rule keepsD [OF keeps_resources(2), rotated])
next
  case (step_shutdown s d s')
  then show ?case unfolding manager_shutdown_def by (rule keepsD [OF triple_shutdown_each, rotated])
qed

text \<open>The servers that a manager starts with: those of the configuration that run as processes.\<close>

definition stdio_names :: "(rstring \<times> scoped_server) list \<Rightarrow> rstring list" where
  "stdio_names cs = map fst (filter (\<lambda>(_, c). mcp_transport_of (server_config c) = Transport_Stdio) cs)"

lemma bootstrap_stdio:
  assumes "mcp_transport_of (server_config c) = Transport_Stdio"
  shows "\<exists>b. bootstrap_from_scoped_config name c = Inr b"
  using assms by (cases "server_config c") (simp_all add: bootstrap_from_scoped_config_def mcp_server_signature_def)

lemma sort_servers_names: "\<exists>managed. sort_servers cs =
    Inr (managed, map (\<lambda>(n, c). unsupported_server n c)
      (filter (\<lambda>(_, c). mcp_transport_of (server_config c) \<noteq> Transport_Stdio) cs)) \<and>
    map fst managed = stdio_names cs \<and> list_all (\<lambda>(_, srv). srv_process srv = None \<and> \<not> srv_initialized srv) managed"
proof (induction cs)
  case (Cons c cs)
  then show ?case using bootstrap_stdio [of "snd c" "fst c"]
    by (cases c) (auto simp: stdio_names_def managed_server_new_def)
qed (simp add: stdio_names_def)

lemma manager_ok_start:
  fixes m :: "(nat \<times> 'p) mcp_manager"
  assumes "from_servers cs = Inr m" and "bt_ok cs"
  shows "manager_ok codec (stdio_names cs) (m, (0, [], w))"
proof -
  obtain managed :: "(rstring \<times> (nat \<times> 'p) managed_server) list" where "sort_servers cs = Inr (managed, map (\<lambda>(n, c). unsupported_server n c)
      (filter (\<lambda>(_, c). mcp_transport_of (server_config c) \<noteq> Transport_Stdio) cs))"
    and names: "map fst managed = stdio_names cs"
    and idle: "list_all (\<lambda>(_, srv). srv_process srv = None \<and> \<not> srv_initialized srv) managed"
    using sort_servers_names [of cs] by blast
  then have m: "managed_servers m = managed" "tool_index m = []" "next_request_id m = 1"
    using assms(1) by (auto simp: from_servers_def)
  have "sorted_wrt (<) (stdio_names cs)"
    using assms(2) by (auto simp: bt_ok_def stdio_names_def sorted_wrt_map intro: sorted_wrt_filter)
  then show ?thesis using names idle
    by (auto simp: manager_ok_def m routes_ok_def ids_ok_def request_ids_def server_ok_def list_all_iff)
qed

lemma manager_ok_reachable:
  assumes "from_servers cs = Inr m" and "bt_ok cs" and "(manager_step codec (logged procs))\<^sup>*\<^sup>* (m, (0, [], w)) s"
  shows "manager_ok codec (stdio_names cs) s"
  using assms(3) by (induction rule: rtranclp_induct) (simp_all add: manager_ok_start [OF assms(1,2)] manager_ok_step)

text \<open>
  C11: In every reachable state a process got no request but \<^verbatim>\<open>initialize\<close> before it answered \<^verbatim>\<open>initialize\<close> with a result,
  whatever the processes do: no failure, retry, reset or crash lets a request reach a process that has not shaken hands.
\<close>

theorem requests_follow_handshake:
  assumes "from_servers cs = Inr m" and "bt_ok cs"
    and "(manager_step codec (logged procs))\<^sup>*\<^sup>* (m, (0, [], w)) (m', (n, log, w'))" and "i < length log"
  shows "req_method (ev_request (log ! i)) = lit ''initialize'' \<or>
    (\<exists>j < i. ev_serial (log ! j) = ev_serial (log ! i) \<and> accepted codec (log ! j))"
proof -
  have "in_order codec log" using manager_ok_reachable [OF assms(1-3)] by (simp add: manager_ok_def)
  then show ?thesis using assms(4)
    by (fastforce simp: in_order_def is_initialize_def handshaken_def list_ex_iff in_set_conv_nth)
qed

text \<open>
  The ids of the requests increase, until they stay at the greatest number: two requests have different ids unless both
  have that one.  Every tool of the index belongs to a server of the configuration that runs as a process, and its name
  is made from the names of the server and the tool.
\<close>

theorem ids_and_routes:
  assumes "from_servers cs = Inr m" and "bt_ok cs"
    and "(manager_step codec (logged procs))\<^sup>*\<^sup>* (m, (0, [], w)) (m', (n, log, w'))"
  shows "sorted_wrt (\<lambda>a b. a < b \<or> b = - 1) (request_ids log) \<and>
    (\<forall>(q, r) \<in> set (tool_index m'). route_server r \<in> set (stdio_names cs) \<and>
       q = mcp_tool_name (route_server r) (route_raw_name r))"
  using manager_ok_reachable [OF assms] by (simp add: manager_ok_def ids_ok_def routes_ok_def)

section \<open>The number of requests\<close>

text \<open>Operations that send nothing keep what holds of the log.\<close>

abbreviation (input) on_log :: "(mcp_event list \<Rightarrow> bool) \<Rightarrow> 'm \<times> 'w logged_world \<Rightarrow> bool" where
  "on_log G s \<equiv> G (log_of s)"

definition silent :: "('p, 'w logged_world, 'a) mcp_op \<Rightarrow> bool" where
  "silent f \<longleftrightarrow> (\<forall>G. triple (on_log G) f (\<lambda>_. on_log G) (\<lambda>_. on_log G))"

lemma triple_silent: "silent f \<Longrightarrow> triple (on_log G) f (\<lambda>_. on_log G) (\<lambda>_. on_log G)"
  unfolding silent_def by blast

lemma silentI: "(\<And>s r s'. f s = Some (r, s') \<Longrightarrow> log_of s' = log_of s) \<Longrightarrow> silent f"
proof (unfold silent_def, intro allI tripleI)
  fix G s r s'
  assume "\<And>s r s'. f s = Some (r, s') \<Longrightarrow> log_of s' = log_of s" and "G (log_of s)" and "f s = Some (r, s')"
  then have "G (log_of s')" by metis
  then show "case r of Inl e \<Rightarrow> G (log_of s') | Inr x \<Rightarrow> G (log_of s')" by (simp split: sum.split)
qed

lemma silent_steps:
  "silent (mcp_return x)" "silent (mcp_fail e)" "silent (mcp_lift r')" "silent (server_mut name)" "silent (put_server name srv)"
  "silent take_request_id"
  by (rule silentI; auto simp: mcp_return_def mcp_fail_def mcp_lift_def server_mut_def put_server_def take_request_id_def)+

lemma silent_bind: "silent f \<Longrightarrow> (\<And>x. silent (g x)) \<Longrightarrow> silent (mcp_bind f g)"
  unfolding silent_def by (blast intro: triple_bind)

lemma silent_world:
  assumes "quiet f"
  shows "silent (mcp_world f)"
proof (rule silentI)
  fix s r s'
  assume "mcp_world f s = Some (r, s')"
  then show "log_of s' = log_of s" using quietD [OF assms, of "snd s"] by (auto simp: mcp_world_def split: prod.splits)
qed

lemma silent_option: "silent f \<Longrightarrow> (\<And>y. silent (g y)) \<Longrightarrow> silent (case x of None \<Rightarrow> f | Some y \<Rightarrow> g y)"
  by (cases x) simp_all

lemma silent_reset_server: "silent (reset_server (logged procs) name)"
proof -
  have "silent (\<lambda>s. Some (Inr (), apsnd (\<lambda>w. snd (proc_shutdown (logged procs) p w)) s))" for p
  proof (rule silentI)
    fix s r s'
    assume "Some (Inr (), apsnd (\<lambda>w. snd (proc_shutdown (logged procs) p w)) s) = Some (r, s')"
    then show "log_of s' = log_of s" using quietD [OF quiet_logged(3) [of procs p], of "snd s"] by auto
  qed
  then show ?thesis unfolding reset_server_def by (intro silent_bind silent_option silent_steps)
qed

lemma silent_give_up: "silent (give_up (logged procs) name e)"
  unfolding give_up_def by (auto intro: silent_bind silent_steps silent_reset_server)

lemma silent_spawn: "silent (spawn_if_needed (logged procs) name)"
  unfolding spawn_if_needed_def by (intro silent_bind silent_option silent_steps silent_world quiet_logged)

lemma silent_exited: "silent (server_process_exited (logged procs) name)"
  unfolding server_process_exited_def by (intro silent_bind silent_option silent_steps silent_world quiet_logged)

lemma silent_accept: "silent (accept_initialization (logged procs) name r)"
  unfolding accept_initialization_def by (intro silent_bind silent_option silent_steps silent_reset_server)

lemma silent_timeout: "silent (tool_call_timeout codec name)"
  unfolding tool_call_timeout_def
  by (rule silent_bind [OF silent_steps(4)]) (auto intro: silent_steps split: mcp_client_transport.split)

lemma triple_with_process_log:
  fixes f :: "json_rpc_id \<Rightarrow> 'p \<Rightarrow> ('p, 'w logged_world, 'a) mcp_op"
  assumes "\<And>i p. triple (on_log G) (f i p) Q E" and "\<And>e s. G (log_of s) \<Longrightarrow> E e s"
  shows "triple (on_log G) (with_process absent name method f) Q E"
proof -
  have idle: "triple (on_log G) g (\<lambda>_. on_log G) E" if "silent g" for g :: "('p, 'w logged_world, 'x) mcp_op"
    by (rule triple_conseq [OF triple_silent [OF that, where G = G]], assumption+) (rule assms(2))
  show ?thesis unfolding with_process_def
    by (intro triple_bind [OF idle [OF silent_steps(6)]] triple_bind [OF idle [OF silent_steps(4)]] triple_option triple_fail assms)
qed

text \<open>Requests are weighed by their methods.\<close>

definition grown :: "(rstring \<Rightarrow> nat) \<Rightarrow> mcp_event list \<Rightarrow> nat \<Rightarrow> mcp_event list \<Rightarrow> bool" where
  "grown c log0 k log \<longleftrightarrow> (\<exists>new. log = log0 @ new \<and> (\<Sum>e\<leftarrow>new. c (req_method (ev_request e))) \<le> k)"

lemma grown_mono: "grown c log0 k log \<Longrightarrow> k \<le> k' \<Longrightarrow> grown c log0 k' log"
  by (auto simp: grown_def)

lemma grown_snoc: "grown c log0 k log \<Longrightarrow> grown c log0 (k + c (req_method (ev_request e))) (log @ [e])"
  unfolding grown_def by fastforce

lemma triple_run_grown:
  "triple (on_log (grown c log0 k)) (run_process_request codec (logged procs) read server method limit p i params)
     (\<lambda>_. on_log (grown c log0 (k + c method))) (\<lambda>_. on_log (grown c log0 (k + c method)))"
proof (rule tripleI)
  fix s r s'
  assume g: "grown c log0 k (log_of s)"
    and run: "run_process_request codec (logged procs) read server method limit p i params s = Some (r, s')"
  obtain m n log w where s: "s = (m, (n, log, w))" by (cases s)
  obtain serial q where p: "p = (serial, q)" by (cases p)
  obtain e w' where e: "s' = (m, (n, log @ [e], w'))" "ev_request e = json_rpc_request_new i method (Some params)"
    using run_logged [OF run [unfolded s p]] by blast
  then have "grown c log0 (k + c method) (log_of s')"
    using grown_snoc [of c log0 k log e] g by (simp add: s json_rpc_request_new_def)
  then show "case r of Inl e \<Rightarrow> grown c log0 (k + c method) (log_of s') | Inr x \<Rightarrow> grown c log0 (k + c method) (log_of s')"
    by (simp split: sum.split)
qed

lemma triple_grown_mono:
  "triple P f (\<lambda>_. on_log (grown c log0 k)) (\<lambda>_. on_log (grown c log0 k)) \<Longrightarrow> k \<le> k' \<Longrightarrow>
   triple P f (\<lambda>_. on_log (grown c log0 k')) (\<lambda>_. on_log (grown c log0 k'))"
  by (erule triple_conseq) (auto intro: grown_mono)

lemma triple_ready_pass_grown:
  assumes "\<And>e. triple (on_log (grown c log0 (k + c (lit ''initialize'')))) (handler e)
      (\<lambda>_. on_log (grown c log0 k')) (\<lambda>_. on_log (grown c log0 k'))" and "k + c (lit ''initialize'') \<le> k'"
  shows "triple (on_log (grown c log0 k)) (ready_pass codec (logged procs) name handler)
    (\<lambda>_. on_log (grown c log0 k')) (\<lambda>_. on_log (grown c log0 k'))"
proof -
  have le: "k \<le> k'" using assms(2) by simp
  have accept: "triple (on_log (grown c log0 (k + c (lit ''initialize'')))) (accept_initialization (logged procs) name r)
      (\<lambda>_. on_log (grown c log0 k')) (\<lambda>_. on_log (grown c log0 k'))" for r
    by (rule triple_grown_mono [OF triple_silent [OF silent_accept] assms(2)])
  have idle: "triple (on_log (grown c log0 k)) f (\<lambda>_. on_log (grown c log0 k)) (\<lambda>_. on_log (grown c log0 k'))"
    if "silent f" for f :: "(nat \<times> 'a, 'b logged_world, 'x) mcp_op"
    by (rule triple_conseq [OF triple_silent [OF that, where G = "grown c log0 k"]]) (use le in \<open>auto intro: grown_mono\<close>)
  show ?thesis unfolding ready_pass_def
    by (intro triple_bind [OF idle [OF silent_spawn]] triple_bind [OF idle [OF silent_steps(4)]] triple_if
        triple_with_process_log triple_try [OF triple_run_grown assms(1) accept] triple_grown_mono [OF triple_silent [OF silent_steps(1)] le])
      (use le in \<open>auto intro: grown_mono\<close>)
qed

lemma triple_ready_loop_grown:
  "triple (on_log (grown c log0 k)) (ready_loop n codec (logged procs) name)
     (\<lambda>_. on_log (grown c log0 (k + Suc n * c (lit ''initialize''))))
     (\<lambda>_. on_log (grown c log0 (k + Suc n * c (lit ''initialize''))))"
proof (induction n arbitrary: k)
  case 0
  show ?case by (auto intro!: triple_ready_pass_grown triple_grown_mono [OF triple_silent [OF silent_give_up]])
next
  case (Suc n)
  let ?c = "c (lit ''initialize'')"
  have "triple (on_log (grown c log0 (k + ?c))) (mcp_bind (reset_server (logged procs) name) (\<lambda>_. ready_loop n codec (logged procs) name))
     (\<lambda>_. on_log (grown c log0 (k + Suc (Suc n) * ?c))) (\<lambda>_. on_log (grown c log0 (k + Suc (Suc n) * ?c)))"
    by (rule triple_bind [OF triple_conseq [OF triple_silent [OF silent_reset_server, where G = "grown c log0 (k + ?c)"]]])
      (use Suc [of "k + ?c"] in \<open>auto simp: algebra_simps intro: grown_mono\<close>)
  then show ?case unfolding ready_loop.simps
    by (intro triple_ready_pass_grown triple_if triple_grown_mono [OF triple_silent [OF silent_give_up]]) simp_all
qed

lemma triple_ensure_grown:
  "triple (on_log (grown c log0 k)) (ensure_server_ready codec (logged procs) name)
     (\<lambda>_. on_log (grown c log0 (k + 2 * c (lit ''initialize'')))) (\<lambda>_. on_log (grown c log0 (k + 2 * c (lit ''initialize''))))"
proof -
  have idle: "triple (on_log (grown c log0 k)) f (\<lambda>_. on_log (grown c log0 k))
      (\<lambda>_. on_log (grown c log0 (k + 2 * c (lit ''initialize''))))"
    if "silent f" for f :: "(nat \<times> 'a, 'b logged_world, 'x) mcp_op"
    by (rule triple_conseq [OF triple_silent [OF that, where G = "grown c log0 k"]]) (auto intro: grown_mono)
  show ?thesis unfolding ensure_server_ready_def
    by (intro triple_bind [OF idle [OF silent_exited]] triple_bind [OF idle]) 
      (use triple_ready_loop_grown [where n = 1] in \<open>auto intro: silent_steps silent_reset_server simp: numeral_2_eq_2\<close>)
qed

lemma triple_run_last:
  "triple (on_log (grown c log0 k)) (run_process_request codec (logged procs) read server method limit p i params)
     (\<lambda>x s. \<exists>e log1 serial. log_of s = log1 @ [e] \<and> grown c log0 k log1 \<and> req_method (ev_request e) = method \<and>
        answered codec read serial (json_rpc_request_new i method (Some params)) x e)
     (\<lambda>_. on_log (grown c log0 (k + c method)))"
proof (rule tripleI)
  fix s r s'
  assume g: "grown c log0 k (log_of s)"
    and run: "run_process_request codec (logged procs) read server method limit p i params s = Some (r, s')"
  obtain m n log w where s: "s = (m, (n, log, w))" by (cases s)
  obtain serial q where p: "p = (serial, q)" by (cases p)
  obtain e w' where e: "s' = (m, (n, log @ [e], w'))" "ev_request e = json_rpc_request_new i method (Some params)"
      "\<forall>x. r = Inr x \<longrightarrow> answered codec read serial (json_rpc_request_new i method (Some params)) x e"
    using run_logged [OF run [unfolded s p]] by blast
  have "grown c log0 (k + c method) (log_of s')"
    using grown_snoc [of c log0 k log e] g e by (simp add: s json_rpc_request_new_def)
  then show "case r of Inl _ \<Rightarrow> grown c log0 (k + c method) (log_of s')
    | Inr x \<Rightarrow> \<exists>e log1 serial. log_of s' = log1 @ [e] \<and> grown c log0 k log1 \<and> req_method (ev_request e) = method \<and>
        answered codec read serial (json_rpc_request_new i method (Some params)) x e"
    using e g by (cases r) (auto simp: s json_rpc_request_new_def)
qed

lemma call_tool_grown:
  fixes c :: "rstring \<Rightarrow> nat"
  assumes "call_tool codec (logged procs) name arguments s = Some (r, s')"
  shows "\<exists>new. log_of s' = log_of s @ new \<and>
    (\<Sum>e\<leftarrow>new. c (req_method (ev_request e))) \<le> 2 * c (lit ''initialize'') + c (lit ''tools/call'') \<and>
    (\<forall>x. r = Inr x \<longrightarrow> (\<exists>route k i. map_of (tool_index (fst s)) name = Some route \<and> new \<noteq> [] \<and>
       answered codec (read_call codec) k
         (json_rpc_request_new i (lit ''tools/call'') (Some (Call_Params (route_raw_name route) arguments None))) x (last new)))"
proof (cases "map_of (tool_index (fst s)) name")
  case None
  then show ?thesis using assms by (auto simp: call_tool_def mcp_fail_def)
next
  case (Some route)
  let ?server = "route_server route" and ?L = "log_of s"
  let ?k = "2 * c (lit ''initialize'')"
  let ?params = "Call_Params (route_raw_name route) arguments None"
  let ?last = "\<lambda>x s. \<exists>e log1 serial i. log_of s = log1 @ [e] \<and> grown c ?L ?k log1 \<and>
        req_method (ev_request e) = lit ''tools/call'' \<and>
        answered codec (read_call codec) serial (json_rpc_request_new i (lit ''tools/call'') (Some ?params)) x e"
  let ?fail = "\<lambda>_. on_log (grown c ?L (?k + c (lit ''tools/call'')))"
  let ?run = "mcp_bind (tool_call_timeout codec ?server) (\<lambda>limit.
     mcp_bind (ensure_server_ready codec (logged procs) ?server) (\<lambda>_.
     with_process missing_process ?server (lit ''tools/call'') (\<lambda>i p.
       mcp_try (run_process_request codec (logged procs) (read_call codec) ?server (lit ''tools/call'') limit p i ?params)
         (give_up (logged procs) ?server) mcp_return)))"
  have call: "triple (on_log (grown c ?L ?k))
      (mcp_try (run_process_request codec (logged procs) (read_call codec) ?server (lit ''tools/call'') limit p i ?params)
         (give_up (logged procs) ?server) mcp_return) ?last ?fail" for limit i p
  proof (rule triple_try [OF triple_run_last])
    have "triple (on_log G) (give_up (logged procs) ?server e) (\<lambda>_ _. False) (\<lambda>_. on_log G)" for e G
      unfolding give_up_def
      by (rule triple_bind [where R = "\<lambda>_. on_log G"])
        (auto intro: triple_silent silent_reset_server silent_steps triple_fail)
    then show "triple (on_log (grown c ?L (?k + c (lit ''tools/call'')))) (give_up (logged procs) ?server e) ?last ?fail" for e
      by (rule triple_conseq) simp_all
  qed (auto intro!: triple_return)
  have timeout: "triple (on_log (grown c ?L 0)) (tool_call_timeout codec ?server) (\<lambda>_. on_log (grown c ?L 0)) ?fail"
    by (rule triple_conseq [OF triple_silent [OF silent_timeout, where G = "grown c ?L 0"]]) (auto intro: grown_mono)
  have ensure: "triple (on_log (grown c ?L 0)) (ensure_server_ready codec (logged procs) ?server) (\<lambda>_. on_log (grown c ?L ?k)) ?fail"
    by (rule triple_conseq [OF triple_ensure_grown [where k = 0 and c = c and ?log0.0 = ?L]]) (auto intro: grown_mono)
  have "triple (on_log (grown c ?L 0)) ?run ?last ?fail"
    by (rule triple_bind [OF timeout], rule triple_bind [OF ensure], rule triple_with_process_log [OF call]) (auto intro: grown_mono)
  moreover have "grown c ?L 0 (log_of s)" by (simp add: grown_def)
  moreover have "?run s = Some (r, s')" using assms Some by (simp add: call_tool_def)
  ultimately have post: "case r of Inl e \<Rightarrow> ?fail e s' | Inr x \<Rightarrow> ?last x s'" by (rule tripleD)
  show ?thesis
  proof (cases r)
    case (Inl e)
    then show ?thesis using post by (auto simp: grown_def)
  next
    case (Inr x)
    then obtain e new serial i where "log_of s' = ?L @ new @ [e]" "(\<Sum>e\<leftarrow>new. c (req_method (ev_request e))) \<le> ?k"
        "req_method (ev_request e) = lit ''tools/call''"
        "answered codec (read_call codec) serial (json_rpc_request_new i (lit ''tools/call'') (Some ?params)) x e"
      using post by (auto simp: grown_def)
    then show ?thesis using Inr Some by (intro exI [of _ "new @ [e]"]) auto
  qed
qed

lemma sum_list_filter: "(\<Sum>x\<leftarrow>xs. if P x then 1 else 0) = length (filter P xs)"
  by (induction xs) simp_all

text \<open>
  C16: A call of a tool sends at most three requests, and at most one that runs the tool, whatever goes wrong: a tool is never
  run twice.  The response that is returned is the answer to the last of them, which names the tool as the server does.
\<close>

theorem tool_call_sent_once:
  assumes "call_tool codec (logged procs) name arguments (m, (n, log, w)) = Some (r, (m', (n', log', w')))"
  shows "\<exists>new. log' = log @ new \<and> length new \<le> 3 \<and>
    length (filter (\<lambda>e. req_method (ev_request e) = lit ''tools/call'') new) \<le> 1 \<and>
    (\<forall>x. r = Inr x \<longrightarrow> (\<exists>route k i. map_of (tool_index m) name = Some route \<and> new \<noteq> [] \<and>
       answered codec (read_call codec) k
         (json_rpc_request_new i (lit ''tools/call'') (Some (Call_Params (route_raw_name route) arguments None))) x (last new)))"
  using call_tool_grown [OF assms, of "\<lambda>_. 1"] call_tool_grown [OF assms, of "\<lambda>a. if a = lit ''tools/call'' then 1 else 0"]
  by (auto simp: sum_list_filter sum_list_triv)

lemma triple_retry_grown:
  assumes "\<And>k. triple (on_log (grown c log0 k)) once (\<lambda>_. on_log (grown c log0 (k + d))) (\<lambda>_. on_log (grown c log0 (k + d)))"
  shows "triple (on_log (grown c log0 k)) (with_retry n (logged procs) name once)
    (\<lambda>_. on_log (grown c log0 (k + Suc n * d))) (\<lambda>_. on_log (grown c log0 (k + Suc n * d)))"
proof (induction n arbitrary: k)
  case 0
  show ?case by (auto intro!: triple_try [OF assms] triple_silent silent_give_up silent_steps)
next
  case (Suc n)
  have reset: "triple (on_log (grown c log0 (k + d))) (mcp_bind (reset_server (logged procs) name) (\<lambda>_. with_retry n (logged procs) name once))
      (\<lambda>_. on_log (grown c log0 (k + Suc (Suc n) * d))) (\<lambda>_. on_log (grown c log0 (k + Suc (Suc n) * d)))"
    by (rule triple_bind [OF triple_conseq [OF triple_silent [OF silent_reset_server, where G = "grown c log0 (k + d)"]]])
      (use Suc [of "k + d"] in \<open>auto simp: algebra_simps intro: grown_mono\<close>)
  have stop: "triple (on_log (grown c log0 (k + d))) f
      (\<lambda>_. on_log (grown c log0 (k + Suc (Suc n) * d))) (\<lambda>_. on_log (grown c log0 (k + Suc (Suc n) * d)))"
    if "silent f" for f
    by (rule triple_grown_mono [OF triple_silent [OF that]]) simp
  show ?case unfolding with_retry.simps
    by (intro triple_try [OF assms] triple_if reset stop silent_give_up silent_steps)
qed

lemma read_resource_grown:
  fixes c :: "rstring \<Rightarrow> nat"
  assumes "manager_read_resource codec (logged procs) name uri s = Some (r, s')"
  shows "grown c (log_of s) (2 * (2 * c (lit ''initialize'') + c (lit ''resources/read''))) (log_of s')"
proof -
  let ?L = "log_of s" and ?d = "2 * c (lit ''initialize'') + c (lit ''resources/read'')"
  have "triple (on_log (grown c ?L k)) (read_resource_once codec (logged procs) name uri)
      (\<lambda>_. on_log (grown c ?L (k + ?d))) (\<lambda>_. on_log (grown c ?L (k + ?d)))" for k
  proof -
    have ensure: "triple (on_log (grown c ?L k)) (ensure_server_ready codec (logged procs) name)
        (\<lambda>_. on_log (grown c ?L (k + 2 * c (lit ''initialize'')))) (\<lambda>_. on_log (grown c ?L (k + ?d)))"
      by (rule triple_conseq [OF triple_ensure_grown]) (auto intro: grown_mono)
    have run: "triple (on_log (grown c ?L (k + 2 * c (lit ''initialize''))))
        (run_process_request codec (logged procs) (read_contents codec) name (lit ''resources/read'') list_tools_timeout_ms p i
         (Read_Params uri)) (\<lambda>_. on_log (grown c ?L (k + ?d))) (\<lambda>_. on_log (grown c ?L (k + ?d)))" for i p
      by (rule triple_grown_mono [OF triple_run_grown]) simp
    show ?thesis unfolding read_resource_once_def
      by (rule triple_bind [OF ensure], rule triple_bind [OF triple_with_process_log [OF run] triple_silent [OF silent_steps(3)]])
        (auto intro: grown_mono)
  qed
  then have "triple (on_log (grown c ?L 0)) (manager_read_resource codec (logged procs) name uri)
      (\<lambda>_. on_log (grown c ?L (0 + Suc 1 * ?d))) (\<lambda>_. on_log (grown c ?L (0 + Suc 1 * ?d)))"
    unfolding manager_read_resource_def by (rule triple_retry_grown)
  from tripleD [OF this _ assms] show ?thesis by (cases r) (simp_all add: grown_def algebra_simps)
qed

text \<open>Reading a resource tries twice at most: it sends at most six requests, and at most two of them ask for the resource.\<close>

theorem resource_read_attempts:
  assumes "manager_read_resource codec (logged procs) name uri (m, (n, log, w)) = Some (r, (m', (n', log', w')))"
  shows "\<exists>new. log' = log @ new \<and> length new \<le> 6 \<and>
    length (filter (\<lambda>e. req_method (ev_request e) = lit ''resources/read'') new) \<le> 2"
  using read_resource_grown [OF assms, of "\<lambda>_. 1"]
    read_resource_grown [OF assms, of "\<lambda>a. if a = lit ''resources/read'' then 1 else 0"]
  by (auto simp: grown_def sum_list_filter sum_list_triv)

section \<open>Pages, discovery and shutdown\<close>

text \<open>Fuel: a list that ends with some fuel ends in the same way with more.\<close>

lemma list_pages_more:
  "list_pages n codec procs read name method cursor s = Some r \<Longrightarrow> n \<le> n' \<Longrightarrow>
   list_pages n' codec procs read name method cursor s = Some r"
proof (induction n arbitrary: n' cursor s r)
  case (Suc n)
  then obtain k where k: "n' = Suc k" "n \<le> k" by (cases n') auto
  show ?case using Suc.prems(1) Suc.IH [OF _ k(2)] unfolding k(1)
    by (auto simp: mcp_bind_def split: option.splits sum.splits)
qed simp

text \<open>
  A server whose every page names a next one is never done with: the discovery of its tools does not return, whatever the
  fuel, and no limit of time applies, since each request is answered in time.
\<close>

theorem endless_pages:
  assumes "\<And>p limit request w. \<exists>v w' items next. proc_exchange procs p limit request w = Some (Some (Inr v), w') \<and>
      resp_jsonrpc v = lit ''2.0'' \<and> resp_id v = req_id request \<and> resp_error v = None \<and>
      (\<exists>x. resp_result v = Some x \<and> read x = Inr (items, Some next))"
    and "server_is name (\<lambda>srv. srv_process srv \<noteq> None) s"
  shows "list_pages n codec procs read name method cursor s = None"
  using assms(2)
proof (induction n arbitrary: cursor s)
  case (Suc n)
  obtain srv p where srv: "map_of (managed_servers (fst s)) name = Some srv" "srv_process srv = Some p"
    using Suc.prems by (auto simp: server_is_def)
  let ?i = "Id_Number (next_request_id (fst s))"
  let ?request = "json_rpc_request_new ?i method (Some (List_Params cursor))"
  obtain v w' items "next" x where x: "proc_exchange procs p list_tools_timeout_ms ?request (snd s) = Some (Some (Inr v), w')"
      "resp_jsonrpc v = lit ''2.0''" "resp_id v = req_id ?request" "resp_error v = None" "resp_result v = Some x"
      "read x = Inr (items, Some next)"
    using assms(1) by blast
  define s1 where "s1 = (fst s\<lparr>next_request_id := saturating_succ (next_request_id (fst s))\<rparr>, w')"
  have "\<exists>r. with_process missing_process name method (\<lambda>i p.
      run_process_request codec procs read name method list_tools_timeout_ms p i (List_Params cursor)) s = Some (Inr r, s1) \<and>
      response_payload name method r = Inr (items, Some next)"
    using srv x by (cases s) (simp add: with_process_def mcp_bind_def take_request_id_def server_mut_def mcp_lift_def
        run_process_request_def classify_response_def typed_response_def check_response_def response_payload_def
        json_rpc_request_new_def s1_def)
  moreover have "list_pages n codec procs read name method (Some next) s1 = None"
    using srv by (intro Suc.IH) (simp add: server_is_def s1_def)
  ultimately show ?case by (auto simp: mcp_bind_def mcp_lift_def)
qed simp

definition split_of :: "rstring list \<Rightarrow> rstring list \<times> mcp_discovery_failure list \<times> managed_mcp_tool list \<Rightarrow> bool" where
  "split_of names = (\<lambda>(working, failing, ts). set working \<union> failure_server ` set failing = set names \<and>
     subseq working names \<and> subseq (map failure_server failing) names \<and>
     length working + length failing = length names \<and> tool_server_name ` set ts \<subseteq> set working)"

lemma discover_names:
  "discover_tools_for_server fuel codec procs name s = Some (Inr ts, s') \<Longrightarrow> tool_server_name ` set ts \<subseteq> {name}"
proof -
  have once: "triple (\<lambda>_. True) (discover_tools_for_server_once fuel codec procs name)
      (\<lambda>ts _. tool_server_name ` set ts \<subseteq> {name}) (\<lambda>_ _. True)"
    unfolding discover_tools_for_server_once_def
    by (intro triple_bind [where R = "\<lambda>_ _. True"] triple_return) (auto simp: triple_def managed_tool_of_def split: sum.split)
  have "triple (\<lambda>_. True) (discover_tools_for_server fuel codec procs name)
      (\<lambda>ts _. tool_server_name ` set ts \<subseteq> {name}) (\<lambda>_ _. True)"
    unfolding discover_tools_for_server_def One_nat_def with_retry.simps
    by (intro triple_try [OF once] triple_if triple_bind [where R = "\<lambda>_ _. True"] triple_return)
      (auto simp: triple_def give_up_def mcp_bind_def mcp_fail_def split: sum.split option.splits sum.splits)
  from tripleD [OF this, of s "Inr ts" s']
  show "discover_tools_for_server fuel codec procs name s = Some (Inr ts, s') \<Longrightarrow> tool_server_name ` set ts \<subseteq> {name}" by simp
qed

lemma split_of_Cons:
  assumes "split_of names (working, failing, ts)"
  shows "split_of (name # names) (working, discovery_failure name e # failing, ts)"
    and "tool_server_name ` set found \<subseteq> {name} \<Longrightarrow> split_of (name # names) (name # working, failing, found @ ts)"
  using assms by (auto simp: split_of_def discovery_failure_def)

lemma triple_best_effort:
  "triple (\<lambda>_. True) (best_effort_each fuel codec procs names) (\<lambda>x _. split_of names x) (\<lambda>_ _. False)"
proof (induction names)
  case Nil
  show ?case by (auto simp: split_of_def intro: triple_return)
next
  case (Cons name names)
  have step: "triple (\<lambda>_. P) f (\<lambda>_ _. P) (\<lambda>_ _. False)" if total: "\<And>s. \<exists>s'. f s = Some (Inr (), s')"
    for f :: "('a, 'b, unit) mcp_op" and P
  proof (rule tripleI)
    fix s r s'
    assume "P" and "f s = Some (r, s')"
    moreover obtain t where "f s = Some (Inr (), t)" using total by blast
    ultimately show "case r of Inl e \<Rightarrow> False | Inr x \<Rightarrow> P" by auto
  qed
  have discover: "triple (\<lambda>_. True) (discover_tools_for_server fuel codec procs name)
      (\<lambda>ts _. tool_server_name ` set ts \<subseteq> {name}) (\<lambda>_ _. True)"
    by (rule tripleI) (auto dest: discover_names split: sum.split)
  have failing: "triple (\<lambda>_. True) (mcp_bind (best_effort_each fuel codec procs names)
      (\<lambda>(working, failing, ts). mcp_return (working, discovery_failure name e # failing, ts)))
      (\<lambda>x _. split_of (name # names) x) (\<lambda>_ _. False)" for e
    by (rule triple_bind [OF Cons]) (auto intro!: triple_return split_of_Cons(1))
  have working: "triple (\<lambda>_. tool_server_name ` set found \<subseteq> {name}) (mcp_bind (best_effort_each fuel codec procs names)
      (\<lambda>(working, failing, ts). mcp_return (name # working, failing, found @ ts)))
      (\<lambda>x _. split_of (name # names) x) (\<lambda>_ _. False)" for found
  proof (rule triple_bind)
    show "triple (\<lambda>_. tool_server_name ` set found \<subseteq> {name}) (best_effort_each fuel codec procs names)
        (\<lambda>x _. split_of names x \<and> tool_server_name ` set found \<subseteq> {name}) (\<lambda>_ _. False)"
    proof (rule tripleI)
      fix s r s'
      assume found: "tool_server_name ` set found \<subseteq> {name}" and run: "best_effort_each fuel codec procs names s = Some (r, s')"
      have "case r of Inl e \<Rightarrow> False | Inr x \<Rightarrow> split_of names x" by (rule tripleD [OF Cons TrueI run])
      then show "case r of Inl e \<Rightarrow> False | Inr x \<Rightarrow> split_of names x \<and> tool_server_name ` set found \<subseteq> {name}"
        using found by (cases r) auto
    qed
  qed (auto intro!: triple_return split_of_Cons(2))
  show ?case unfolding best_effort_each.simps
    by (intro triple_try [OF discover] triple_bind [OF step failing] triple_bind [OF step working])
      (simp_all add: clear_routes_for_server_def replace_routes_def index_tools_def mcp_bind_def)
qed

text \<open>
  Discovery with best effort always reports: every server works or has failed, not both; the tools are those of servers
  that work; and the start is degraded when some server works and some server failed or is not supported.
\<close>

theorem best_effort_contract:
  assumes "discover_tools_best_effort now fuel codec procs (m, w) = Some (r, s')"
  shows "\<exists>report working. r = Inr report \<and>
    set working \<union> failure_server ` set (report_failed report) = set (manager_server_names m) \<and>
    length working + length (report_failed report) = length (manager_server_names m) \<and>
    tool_server_name ` set (report_tools report) \<subseteq> set working \<and>
    (report_degraded report \<noteq> None \<longleftrightarrow> working \<noteq> [] \<and> (report_failed report \<noteq> [] \<or> unsupported_servers m \<noteq> []))"
proof -
  have "triple (\<lambda>_. True) (mcp_bind (best_effort_each fuel codec procs (manager_server_names m))
      (\<lambda>r. mcp_return (best_effort_report now (unsupported_servers m) r)))
      (\<lambda>report _. \<exists>x. split_of (manager_server_names m) x \<and> report = best_effort_report now (unsupported_servers m) x) (\<lambda>_ _. False)"
    by (rule triple_bind [OF triple_best_effort]) (auto intro: triple_return)
  from tripleD [OF this, of "(m, w)"] assms
  obtain working failing ts where r: "r = Inr (best_effort_report now (unsupported_servers m) (working, failing, ts))"
    and x: "split_of (manager_server_names m) (working, failing, ts)"
    by (auto simp: discover_tools_best_effort_def split: sum.splits)
  show ?thesis unfolding r
    by (intro exI [of _ working] exI conjI, rule refl)
      (use x in \<open>auto simp: best_effort_report_def split_of_def Let_def enumerate_eq_zip\<close>)
qed

definition idle :: "rstring \<times> 'p managed_server \<Rightarrow> rstring \<times> 'p managed_server" where
  "idle = apsnd (\<lambda>srv. srv\<lparr>srv_process := None, srv_initialized := False\<rparr>)"

lemma bt_insert_middle:
  "sorted_wrt (<) (map fst (pre @ (k, v) # suf)) \<Longrightarrow> bt_insert k v' (pre @ (k, v) # suf) = pre @ (k, v') # suf"
  by (induction pre) auto

lemma shutdown_each_contract:
  assumes "shutdown_each procs (map fst suf) (m, w) = Some (r, (m', w'))" and "managed_servers m = pre @ suf"
    and "sorted_wrt (<) (map fst (pre @ suf))"
  shows "\<exists>i \<le> length suf. managed_servers m' = pre @ map idle (take i suf) @ drop i suf \<and>
    (r = Inr () \<and> i = length suf \<or> (\<exists>e. r = Inl e) \<and> i < length suf \<and> srv_process (snd (suf ! i)) \<noteq> None)"
  using assms
proof (induction suf arbitrary: m w pre)
  case Nil
  then show ?case by (simp add: mcp_return_def)
next
  case (Cons x suf)
  obtain name srv where x: "x = (name, srv)" by (cases x)
  have name: "map_of (managed_servers m) name = Some srv"
    using Cons.prems(2,3) by (auto simp: x map_add_def sorted_wrt_append intro!: map_of_is_SomeI split: option.split dest!: map_of_SomeD)
  let ?stop = "(case srv_process srv of None \<Rightarrow> mcp_return () | Some p \<Rightarrow> mcp_world (proc_shutdown procs p)) (m, w)"
  let ?n = "case ?stop of Some (Inr _, t) \<Rightarrow> Some (snd t) | _ \<Rightarrow> None"
  show ?case
  proof (cases ?n)
    case None
    then show ?thesis using Cons.prems(1,2) name
      by (intro exI [of _ 0]) (auto simp: x shutdown_each.simps mcp_bind_def server_mut_def mcp_lift_def mcp_world_def
          mcp_return_def split: option.splits sum.splits prod.splits)
  next
    case (Some v)
    let ?m = "m\<lparr>managed_servers := pre @ idle x # suf\<rparr>"
    have put: "bt_insert name (srv\<lparr>srv_process := None, srv_initialized := False\<rparr>) (managed_servers m) = pre @ idle x # suf"
      using bt_insert_middle [of pre name srv suf] Cons.prems(2,3) by (simp add: x idle_def)
    have "shutdown_each procs (map fst suf) (?m, v) = Some (r, (m', w'))"
      using Some Cons.prems(1) name put
      by (auto simp: x mcp_bind_def server_mut_def mcp_lift_def mcp_world_def mcp_return_def put_server_def
          split: option.splits sum.splits prod.splits)
    moreover have "sorted_wrt (<) (map fst ((pre @ [idle x]) @ suf))" using Cons.prems(3) by (simp add: x idle_def)
    ultimately obtain i where "i \<le> length suf" "managed_servers m' = (pre @ [idle x]) @ map idle (take i suf) @ drop i suf"
        "r = Inr () \<and> i = length suf \<or> (\<exists>e. r = Inl e) \<and> i < length suf \<and> srv_process (snd (suf ! i)) \<noteq> None"
      using Cons.IH [of ?m v "pre @ [idle x]"] by auto
    then show ?thesis by (intro exI [of _ "Suc i"]) auto
  qed
qed

text \<open>
  Shutting down goes through the servers in order.  On success all are idle; a failure stops it: the servers before it are
  idle, the one that failed keeps its process and those behind it are never told.
\<close>

theorem shutdown_contract:
  assumes "manager_shutdown procs (m, w) = Some (r, (m', w'))" and "bt_ok (managed_servers m)"
  shows "\<exists>i \<le> length (managed_servers m). managed_servers m' = map idle (take i (managed_servers m)) @ drop i (managed_servers m) \<and>
    (r = Inr () \<and> i = length (managed_servers m) \<or>
     (\<exists>e. r = Inl e) \<and> i < length (managed_servers m) \<and> srv_process (snd (managed_servers m ! i)) \<noteq> None)"
  using shutdown_each_contract [of procs "managed_servers m" m w r m' w' "[]"] assms
  by (simp add: manager_shutdown_def manager_server_names_def bt_ok_def)

section \<open>An instance\<close>

text \<open>One server whose process answers every request with a result.\<close>

definition echo_procs :: "(unit, unit) mcp_processes" where
  "echo_procs = \<lparr>proc_spawn = (\<lambda>_ _ w. (Inr (), w)), proc_exited = (\<lambda>_ w. (Inr False, w)), proc_shutdown = (\<lambda>_ w. (Inr (), w)),
     proc_exchange = (\<lambda>_ _ request w. Some (Some (Inr \<lparr>resp_jsonrpc = lit ''2.0'', resp_id = req_id request,
       resp_result = Some SNull, resp_error = None\<rparr>), w))\<rparr>"

definition echo_codec :: mcp_codec where
  "echo_codec = \<lparr>to_vec = (\<lambda>_. []), from_slice = (\<lambda>_. Inl []),
     read_initialize = (\<lambda>v. Inr \<lparr>result_protocol_version = [], result_capabilities = v, result_server_name = [], result_server_version = []\<rparr>),
     read_tools = (\<lambda>_. Inr ([\<lparr>mcp_tool_raw_name = lit ''t'', mcp_tool_description = None, mcp_tool_input_schema = None,
       mcp_tool_annotations = None, mcp_tool_meta = None\<rparr>], None)),
     read_call = (\<lambda>_. Inr \<lparr>call_content = [], call_structured_content = None, call_is_error = None, call_meta = None\<rparr>),
     read_resources = (\<lambda>_. Inr ([], None)), read_contents = (\<lambda>_. Inr []), debug_str = id, debug_transport = (\<lambda>_. [])\<rparr>"

definition echo_server :: mcp_stdio_config where
  "echo_server = \<lparr>stdio_command = lit ''c'', stdio_args = [], stdio_env = [], tool_call_timeout_ms = None\<rparr>"

definition echo_config :: "(rstring \<times> scoped_server) list" where
  "echo_config = [(lit ''s'', \<lparr>server_scope = Source_User, server_config = Mcp_Stdio echo_server\<rparr>)]"

definition echo_manager :: "(nat \<times> unit) mcp_manager" where
  "echo_manager = \<lparr>managed_servers = [(lit ''s'', managed_server_new
       \<lparr>bootstrap_server = lit ''s'', normalized_name = lit ''s'', tool_prefix = lit ''mcp__s__'',
        bootstrap_signature = Some (lit ''stdio:[c]''), bootstrap_transport = Client_Stdio echo_server\<rparr>)],
     unsupported_servers = [], tool_index = [], next_request_id = 1\<rparr>"

definition echo_indexed :: "(nat \<times> unit) mcp_manager" where
  "echo_indexed = echo_manager\<lparr>tool_index := [(lit ''mcp__s__t'', \<lparr>route_server = lit ''s'', route_raw_name = lit ''t''\<rparr>)]\<rparr>"

lemma echo_start: "from_servers echo_config = Inr echo_manager" "bt_ok echo_config"
  by code_simp+

lemma echo_discovers:
  "case manager_discover_tools 1 echo_codec (logged echo_procs) (echo_manager, (0, [], ())) of
     Some (r, (m', (n, log, w'))) \<Rightarrow> length log = 2 | None \<Rightarrow> False"
  by code_simp

lemma echo_calls:
  "case call_tool echo_codec (logged echo_procs) (lit ''mcp__s__t'') None (echo_indexed, (0, [], ())) of
     Some (r, (m', (n, log, w'))) \<Rightarrow> is_ok r | None \<Rightarrow> False"
  by code_simp

lemma echo_reads:
  "case manager_read_resource echo_codec (logged echo_procs) (lit ''s'') (lit ''u'') (echo_manager, (0, [], ())) of
     Some (r, (m', (n, log, w'))) \<Rightarrow> is_ok r | None \<Rightarrow> False"
  by code_simp

theorem requests_follow_handshake_witness:
  "\<exists>m' n log w'. (manager_step echo_codec (logged echo_procs))\<^sup>*\<^sup>* (echo_manager, (0, [], ())) (m', (n, log, w')) \<and>
     1 < length log \<and> (req_method (ev_request (log ! 1)) = lit ''initialize'' \<or>
       (\<exists>j < 1. ev_serial (log ! j) = ev_serial (log ! 1) \<and> accepted echo_codec (log ! j)))"
proof -
  obtain r m' n log w' where run: "manager_discover_tools 1 echo_codec (logged echo_procs) (echo_manager, (0, [], ())) =
      Some (r, (m', (n, log, w')))" and len: "length log = 2"
    using echo_discovers by (auto split: option.splits)
  have steps: "(manager_step echo_codec (logged echo_procs))\<^sup>*\<^sup>* (echo_manager, (0, [], ())) (m', (n, log, w'))"
    by (rule r_into_rtranclp, rule manager_step.step_discover, rule run)
  have "1 < length log" using len by simp
  with requests_follow_handshake [OF echo_start steps this] steps show ?thesis by blast
qed

theorem ids_and_routes_witness:
  "\<exists>m' n log w'. (manager_step echo_codec (logged echo_procs))\<^sup>*\<^sup>* (echo_manager, (0, [], ())) (m', (n, log, w')) \<and>
     length log = 2 \<and> sorted_wrt (\<lambda>a b. a < b \<or> b = - 1) (request_ids log) \<and>
     (\<forall>(q, r) \<in> set (tool_index m'). route_server r \<in> set (stdio_names echo_config) \<and>
       q = mcp_tool_name (route_server r) (route_raw_name r))"
proof -
  obtain r m' n log w' where run: "manager_discover_tools 1 echo_codec (logged echo_procs) (echo_manager, (0, [], ())) =
      Some (r, (m', (n, log, w')))" and len: "length log = 2"
    using echo_discovers by (auto split: option.splits)
  have steps: "(manager_step echo_codec (logged echo_procs))\<^sup>*\<^sup>* (echo_manager, (0, [], ())) (m', (n, log, w'))"
    by (rule r_into_rtranclp, rule manager_step.step_discover, rule run)
  show ?thesis using ids_and_routes [OF echo_start steps] steps len by blast
qed

theorem tool_call_sent_once_witness:
  "\<exists>x m' n' log' w'. call_tool echo_codec (logged echo_procs) (lit ''mcp__s__t'') None (echo_indexed, (0, [], ())) =
       Some (Inr x, (m', (n', log', w'))) \<and>
     length (filter (\<lambda>e. req_method (ev_request e) = lit ''tools/call'') log') \<le> 1"
proof -
  obtain x m' n' log' w' where run: "call_tool echo_codec (logged echo_procs) (lit ''mcp__s__t'') None (echo_indexed, (0, [], ())) =
       Some (Inr x, (m', (n', log', w')))"
  proof -
    obtain r m' n' log' w' where "call_tool echo_codec (logged echo_procs) (lit ''mcp__s__t'') None (echo_indexed, (0, [], ())) = Some (r, (m', (n', log', w')))" and "is_ok r"
      using echo_calls by (auto split: option.splits)
    then show thesis by (cases r) (auto intro: that)
  qed
  show ?thesis using tool_call_sent_once [OF run] run by auto
qed

theorem resource_read_attempts_witness:
  "\<exists>x m' n' log' w'. manager_read_resource echo_codec (logged echo_procs) (lit ''s'') (lit ''u'') (echo_manager, (0, [], ())) =
       Some (Inr x, (m', (n', log', w'))) \<and>
     length (filter (\<lambda>e. req_method (ev_request e) = lit ''resources/read'') log') \<le> 2"
proof -
  obtain x m' n' log' w' where run: "manager_read_resource echo_codec (logged echo_procs) (lit ''s'') (lit ''u'') (echo_manager, (0, [], ())) =
       Some (Inr x, (m', (n', log', w')))"
  proof -
    obtain r m' n' log' w' where "manager_read_resource echo_codec (logged echo_procs) (lit ''s'') (lit ''u'') (echo_manager, (0, [], ())) = Some (r, (m', (n', log', w')))" and "is_ok r"
      using echo_reads by (auto split: option.splits)
    then show thesis by (cases r) (auto intro: that)
  qed
  show ?thesis using resource_read_attempts [OF run] run by auto
qed

text \<open>A page that is its own next one.\<close>

definition started :: "unit mcp_manager" where
  "started = \<lparr>managed_servers = [(lit ''s'', \<lparr>srv_bootstrap = \<lparr>bootstrap_server = lit ''s'', normalized_name = lit ''s'',
      tool_prefix = lit ''mcp__s__'', bootstrap_signature = None, bootstrap_transport = Client_Stdio echo_server\<rparr>,
      srv_process = Some (), srv_initialized = True\<rparr>)], unsupported_servers = [], tool_index = [], next_request_id = 2\<rparr>"

theorem endless_pages_witness:
  "list_pages 1000 echo_codec echo_procs (\<lambda>_. Inr ([0 :: nat], Some (lit ''c''))) (lit ''s'') (lit ''tools/list'') None (started, ()) = None"
  by (rule endless_pages) (auto simp: echo_procs_def server_is_def started_def)

theorem shutdown_contract_witness:
  "\<exists>m' w'. manager_shutdown echo_procs (started, ()) = Some (Inr (), (m', w')) \<and> managed_servers m' = map idle (managed_servers started)"
proof -
  have run: "manager_shutdown echo_procs (started, ()) = Some (Inr (), (started\<lparr>managed_servers := map idle (managed_servers started)\<rparr>, ()))"
    by (simp add: manager_shutdown_def manager_server_names_def started_def echo_procs_def mcp_bind_def server_mut_def mcp_lift_def
        mcp_world_def put_server_def mcp_return_def idle_def)
  have "bt_ok (managed_servers started)" by (simp add: started_def)
  from shutdown_contract [OF run this] run show ?thesis by auto
qed

theorem best_effort_contract_witness:
  "\<exists>r s'. discover_tools_best_effort (\<lambda>_. 0) 1 echo_codec echo_procs (started, ()) = Some (r, s') \<and> (\<exists>report. r = Inr report)"
proof -
  have "case discover_tools_best_effort (\<lambda>_. 0) 1 echo_codec echo_procs (started, ()) of Some _ \<Rightarrow> True | None \<Rightarrow> False"
    by code_simp
  then obtain r s' where run: "discover_tools_best_effort (\<lambda>_. 0) 1 echo_codec echo_procs (started, ()) = Some (r, s')"
    by (auto split: option.splits)
  show ?thesis using best_effort_contract [OF run] run by blast
qed

end
