(* ===== verification/Notebook.thy ===== *)
theory Notebook imports Hooks Compact WorkerBoot begin

text \<open>
  The editing of notebooks (\<^verbatim>\<open>crates/tools/src/lib.rs\<close>): the cell that is meant, and the insertion, deletion and
  replacement of cells.  Reading and writing the file and \<^verbatim>\<open>serde_json\<close> are fields of \<open>notebook_env\<close>.  An assignment to a
  key of a value that is neither an object nor null panics.
\<close>

section \<open>Data\<close>

datatype notebook_cell_type = Cell_Code | Cell_Markdown
datatype notebook_edit_mode = Edit_Replace | Edit_Insert | Edit_Delete

record notebook_edit_input =
  nb_path :: rstring
  nb_cell_id :: "rstring option"
  nb_source :: "rstring option"
  nb_cell_type :: "notebook_cell_type option"
  nb_mode :: "notebook_edit_mode option"

record notebook_edit_output =
  nbo_source :: rstring
  nbo_cell_id :: "rstring option"
  nbo_cell_type :: "notebook_cell_type option"
  nbo_language :: rstring
  nbo_mode :: rstring
  nbo_path :: rstring
  nbo_original :: rstring
  nbo_updated :: rstring

datatype notebook_failure = Notebook_Error rstring | Notebook_Panic

record notebook_env =
  nb_read :: "rstring \<Rightarrow> rstring + rstring"
  nb_write_error :: "rstring \<Rightarrow> rstring option"
  nb_parse :: "rstring \<Rightarrow> rstring + serde_value"
  nb_pretty :: "serde_value \<Rightarrow> rstring"

section \<open>Values\<close>

text \<open>\<^verbatim>\<open>Value::get\<close> of a key.\<close>

fun value_get :: "rstring \<Rightarrow> serde_value \<Rightarrow> serde_value option" where
  "value_get key (SObject m) = map_of m key"
| "value_get key _ = None"

definition value_get_str :: "rstring \<Rightarrow> serde_value \<Rightarrow> rstring option" where
  "value_get_str key v = Option.bind (value_get key v) value_as_str"

text \<open>The assignment \<^verbatim>\<open>value[key] = v\<close>.\<close>

fun value_set :: "rstring \<Rightarrow> serde_value \<Rightarrow> serde_value \<Rightarrow> notebook_failure + serde_value" where
  "value_set key v (SObject m) = Inr (SObject (bt_insert key v m))"
| "value_set key v SNull = Inr (SObject [(key, v)])"
| "value_set key v _ = Inl Notebook_Panic"

fun value_remove :: "rstring \<Rightarrow> serde_value \<Rightarrow> serde_value" where
  "value_remove key (SObject m) = SObject (bt_remove key m)"
| "value_remove key v = v"

fun value_is_array :: "serde_value \<Rightarrow> bool" where
  "value_is_array (SArray _) \<longleftrightarrow> True"
| "value_is_array _ \<longleftrightarrow> False"

section \<open>Cells\<close>

text \<open>\<^verbatim>\<open>str::split_inclusive\<close>: the separator stays at the end of its piece.\<close>

fun split_inclusive :: "rchar \<Rightarrow> rstring \<Rightarrow> rstring list" where
  "split_inclusive c [] = []"
| "split_inclusive c (x # xs) =
     (if x = c then [x] # split_inclusive c xs
      else (case split_inclusive c xs of [] \<Rightarrow> [[x]] | l # ls \<Rightarrow> (x # l) # ls))"

definition source_lines :: "rstring \<Rightarrow> serde_value list" where
  "source_lines source = (if source = [] then [SString []] else map SString (split_inclusive c_nl source))"

definition make_cell_id :: "nat \<Rightarrow> rstring" where
  "make_cell_id index = lit ''cell-'' @ show_nat (index + 1)"

fun cell_type_name :: "notebook_cell_type \<Rightarrow> rstring" where
  "cell_type_name Cell_Code = lit ''code''"
| "cell_type_name Cell_Markdown = lit ''markdown''"

fun format_notebook_edit_mode :: "notebook_edit_mode \<Rightarrow> rstring" where
  "format_notebook_edit_mode Edit_Replace = lit ''replace''"
| "format_notebook_edit_mode Edit_Insert = lit ''insert''"
| "format_notebook_edit_mode Edit_Delete = lit ''delete''"

definition cell_kind :: "serde_value \<Rightarrow> notebook_cell_type option" where
  "cell_kind cell = map_option (\<lambda>kind. if kind = lit ''markdown'' then Cell_Markdown else Cell_Code)
     (value_get_str (lit ''cell_type'') cell)"

definition build_notebook_cell :: "rstring \<Rightarrow> notebook_cell_type \<Rightarrow> rstring \<Rightarrow> serde_value" where
  "build_notebook_cell cell_id cell_type source =
     (let cell = [(lit ''cell_type'', SString (cell_type_name cell_type)), (lit ''id'', SString cell_id),
            (lit ''metadata'', SObject []), (lit ''source'', SArray (source_lines source))]
      in SObject (case cell_type of
           Cell_Code \<Rightarrow> bt_insert (lit ''execution_count'') SNull (bt_insert (lit ''outputs'') (SArray []) cell)
         | Cell_Markdown \<Rightarrow> cell))"

definition require_notebook_source :: "rstring option \<Rightarrow> notebook_edit_mode \<Rightarrow> notebook_failure + rstring" where
  "require_notebook_source source mode = (case mode of
     Edit_Delete \<Rightarrow> Inr (unwrap_or [] source)
   | _ \<Rightarrow> ok_or (Notebook_Error (lit ''new_source is required for insert and replace edits'')) source)"

definition resolve_cell_index :: "serde_value list \<Rightarrow> rstring option \<Rightarrow> notebook_edit_mode \<Rightarrow> notebook_failure + nat" where
  "resolve_cell_index cells cell_id mode =
     (if cells = [] \<and> mode \<in> {Edit_Replace, Edit_Delete} then Inl (Notebook_Error (lit ''Notebook has no cells to edit''))
      else case cell_id of
        Some i \<Rightarrow> ok_or (Notebook_Error (lit ''Cell id not found: '' @ i))
            (position (\<lambda>cell. value_get_str (lit ''id'') cell = Some i) cells)
      | None \<Rightarrow> Inr (length cells - 1))"

text \<open>The three edits of a list of cells; each gives the cells and the id of the cell.\<close>

definition insert_cell ::
    "nat option \<Rightarrow> notebook_cell_type \<Rightarrow> rstring \<Rightarrow> serde_value list \<Rightarrow> serde_value list \<times> rstring option" where
  "insert_cell target cell_type source cells =
     (let new_id = make_cell_id (length cells);
          insert_at = (case target of None \<Rightarrow> length cells | Some i \<Rightarrow> i + 1)
      in (take insert_at cells @ [build_notebook_cell new_id cell_type source] @ drop insert_at cells,
          value_get_str (lit ''id'') (build_notebook_cell new_id cell_type source)))"

definition delete_cell :: "nat \<Rightarrow> serde_value list \<Rightarrow> serde_value list \<times> rstring option" where
  "delete_cell idx cells =
     (take idx cells @ drop (Suc idx) cells, value_get_str (lit ''id'') (cells ! idx))"

definition replace_in_cell :: "notebook_cell_type \<Rightarrow> rstring \<Rightarrow> serde_value \<Rightarrow> notebook_failure + serde_value" where
  "replace_in_cell cell_type source cell =
     rbind (value_set (lit ''source'') (SArray (source_lines source)) cell) (\<lambda>cell.
     rbind (value_set (lit ''cell_type'') (SString (cell_type_name cell_type)) cell) (\<lambda>cell.
       case cell_type of
         Cell_Code \<Rightarrow>
           rbind (if (case value_get (lit ''outputs'') cell of None \<Rightarrow> False | Some v \<Rightarrow> value_is_array v) then Inr cell
                  else value_set (lit ''outputs'') (SArray []) cell) (\<lambda>cell.
             if value_get (lit ''execution_count'') cell = None then value_set (lit ''execution_count'') SNull cell else Inr cell)
       | Cell_Markdown \<Rightarrow> Inr (value_remove (lit ''execution_count'') (value_remove (lit ''outputs'') cell))))"

definition replace_cell ::
    "nat \<Rightarrow> notebook_cell_type \<Rightarrow> rstring \<Rightarrow> serde_value list \<Rightarrow> notebook_failure + serde_value list \<times> rstring option" where
  "replace_cell idx cell_type source cells =
     (if idx < length cells then
        rbind (replace_in_cell cell_type source (cells ! idx))
          (\<lambda>cell. Inr (cells[idx := cell], value_get_str (lit ''id'') cell))
      else Inl (Notebook_Error (lit ''Cell index out of range'')))"

text \<open>The whole edit of the cells, with the type of the cell, its id and the source.\<close>

definition edit_cells ::
    "notebook_edit_input \<Rightarrow> serde_value list \<Rightarrow>
     notebook_failure + (serde_value list \<times> rstring option) \<times> notebook_cell_type option \<times> rstring" where
  "edit_cells inp cells =
     (let mode = unwrap_or Edit_Replace (nb_mode inp)
      in rbind (if nb_cell_id inp \<noteq> None \<or> mode \<in> {Edit_Replace, Edit_Delete}
                then map_sum id Some (resolve_cell_index cells (nb_cell_id inp) mode) else Inr None) (\<lambda>target.
         let cell_type = (case mode of
               Edit_Delete \<Rightarrow> None
             | Edit_Insert \<Rightarrow> Some (unwrap_or Cell_Code (nb_cell_type inp))
             | Edit_Replace \<Rightarrow> Some (case nb_cell_type inp of
                 Some t \<Rightarrow> t
               | None \<Rightarrow> unwrap_or Cell_Code (Option.bind target (\<lambda>i. if i < length cells then cell_kind (cells ! i) else None))))
         in rbind (require_notebook_source (nb_source inp) mode) (\<lambda>source.
            rbind (case mode of
                Edit_Insert \<Rightarrow>
                  rbind (ok_or (Notebook_Error (lit ''insert mode requires a cell type'')) cell_type)
                    (\<lambda>t. Inr (insert_cell target t source cells))
              | Edit_Delete \<Rightarrow>
                  rbind (ok_or (Notebook_Error (lit ''delete mode requires a target cell index'')) target)
                    (\<lambda>i. if i < length cells then Inr (delete_cell i cells) else Inl Notebook_Panic)
              | Edit_Replace \<Rightarrow>
                  rbind (ok_or (Notebook_Error (lit ''replace mode requires a cell type'')) cell_type) (\<lambda>t.
                  rbind (ok_or (Notebook_Error (lit ''replace mode requires a target cell index'')) target)
                    (\<lambda>i. replace_cell i t source cells)))
              (\<lambda>edited. Inr (edited, cell_type, source)))))"

definition notebook_language :: "serde_value \<Rightarrow> rstring" where
  "notebook_language notebook =
     unwrap_or (lit ''python'') (Option.bind (Option.bind (Option.bind (value_get (lit ''metadata'') notebook)
       (value_get (lit ''kernelspec''))) (value_get (lit ''language''))) value_as_str)"

definition notebook_cells :: "serde_value \<Rightarrow> notebook_failure + serde_value list" where
  "notebook_cells notebook = (case value_get (lit ''cells'') notebook of
     Some (SArray cells) \<Rightarrow> Inr cells
   | _ \<Rightarrow> Inl (Notebook_Error (lit ''Notebook cells array not found'')))"

text \<open>The notebook with other cells, which are a field of it.\<close>

fun with_cells :: "serde_value list \<Rightarrow> serde_value \<Rightarrow> serde_value" where
  "with_cells cells (SObject m) = SObject (bt_insert (lit ''cells'') (SArray cells) m)"
| "with_cells cells v = v"

text \<open>The result holds the output and the text that is written to the file.\<close>

definition execute_notebook_edit :: "notebook_env \<Rightarrow> notebook_edit_input \<Rightarrow> notebook_failure + notebook_edit_output" where
  "execute_notebook_edit env inp =
     (if path_extension (nb_path inp) \<noteq> Some (lit ''ipynb'')
      then Inl (Notebook_Error (lit ''File must be a Jupyter notebook (.ipynb file).''))
      else
        rbind (map_sum Notebook_Error id (nb_read env (nb_path inp))) (\<lambda>original.
        rbind (map_sum Notebook_Error id (nb_parse env original)) (\<lambda>notebook.
        rbind (notebook_cells notebook) (\<lambda>cells.
        rbind (edit_cells inp cells) (\<lambda>((cells', cell_id), cell_type, source).
        let updated = nb_pretty env (with_cells cells' notebook)
        in case nb_write_error env (nb_path inp) of
             Some e \<Rightarrow> Inl (Notebook_Error e)
           | None \<Rightarrow> Inr \<lparr>nbo_source = source, nbo_cell_id = cell_id, nbo_cell_type = cell_type,
               nbo_language = notebook_language notebook,
               nbo_mode = format_notebook_edit_mode (unwrap_or Edit_Replace (nb_mode inp)),
               nbo_path = nb_path inp, nbo_original = original, nbo_updated = updated\<rparr>)))))"

section \<open>Lemmas\<close>

lemma concat_split_inclusive: "concat (split_inclusive c s) = s"
  by (induction s) (auto split: list.split)

lemma split_inclusive_pieces:
  "list_all (\<lambda>l. l \<noteq> [] \<and> c \<notin> set (butlast l)) (split_inclusive c s) \<and>
   list_all (\<lambda>l. last l = c) (butlast (split_inclusive c s))"
  by (induction s) (auto split: list.split)

lemma cell_position: "position P xs = Some i \<Longrightarrow> i < length xs \<and> P (xs ! i) \<and> (\<forall>j<i. \<not> P (xs ! j))"
  by (induction xs arbitrary: i) (auto split: if_splits simp: less_Suc_eq_0_disj)

lemma position_append:
  "(\<forall>x \<in> set xs. \<not> P x) \<Longrightarrow> P y \<Longrightarrow> position P (xs @ y # ys) = Some (length xs)"
  by (induction xs) auto

lemma resolved_index:
  assumes "resolve_cell_index cells cell_id mode = Inr i" and "cell_id \<noteq> None \<or> mode \<noteq> Edit_Insert"
  shows "i < length cells" and "cell_id = Some k \<Longrightarrow> value_get_str (lit ''id'') (cells ! i) = Some k"
  using assms by (cases mode; cases cell_id; auto simp: resolve_cell_index_def ok_or_def split: option.splits if_splits dest: cell_position)+

text \<open>The text that the source of a cell stands for.\<close>

fun text_of_lines :: "serde_value list \<Rightarrow> rstring" where
  "text_of_lines (SString s # vs) = s @ text_of_lines vs"
| "text_of_lines (_ # vs) = text_of_lines vs"
| "text_of_lines [] = []"

definition text_of_cell :: "serde_value \<Rightarrow> rstring option" where
  "text_of_cell c = (case value_get (lit ''source'') c of Some (SArray ls) \<Rightarrow> Some (text_of_lines ls) | _ \<Rightarrow> None)"

lemma text_of_strings: "text_of_lines (map SString ls) = concat ls"
  by (induction ls) auto

lemma source_lines_text: "text_of_lines (source_lines s) = s"
  by (simp add: source_lines_def text_of_strings concat_split_inclusive)

lemma value_get_set: "value_set k v c = Inr c' \<Longrightarrow> value_get k' c' = (if k' = k then Some v else value_get k' c)"
  by (cases c) (auto simp: map_of_bt_insert_any)

lemma value_get_remove: "value_get k' (value_remove k c) = (if k' = k then None else value_get k' c)"
  by (cases c) (auto simp: map_of_bt_remove)

lemma value_set_ok: "value_set k v c = Inr c' \<Longrightarrow> \<exists>m. c' = SObject m"
  by (cases c) auto

abbreviation "cell_keys \<equiv> {lit ''source'', lit ''cell_type'', lit ''outputs'', lit ''execution_count''}"

lemma replaced_cell:
  assumes "replace_in_cell t source c = Inr c'"
  shows "value_get (lit ''source'') c' = Some (SArray (source_lines source)) \<and>
    value_get_str (lit ''cell_type'') c' = Some (cell_type_name t) \<and> (\<forall>k. k \<notin> cell_keys \<longrightarrow> value_get k c' = value_get k c)"
proof -
  from assms obtain a b where a: "value_set (lit ''source'') (SArray (source_lines source)) c = Inr a"
    and b: "value_set (lit ''cell_type'') (SString (cell_type_name t)) a = Inr b"
    by (auto simp: replace_in_cell_def rbind_Inr_iff)
  have ab: "value_get k b = (if k = lit ''cell_type'' then Some (SString (cell_type_name t)) else
      if k = lit ''source'' then Some (SArray (source_lines source)) else value_get k c)" for k
    using value_get_set [OF a] value_get_set [OF b] by simp
  show ?thesis
  proof (cases t)
    case Cell_Markdown
    then have "c' = value_remove (lit ''execution_count'') (value_remove (lit ''outputs'') b)"
      using assms a b by (simp add: replace_in_cell_def)
    then show ?thesis using Cell_Markdown by (simp add: value_get_remove ab value_get_str_def)
  next
    case Cell_Code
    have "\<exists>d. (d = b \<or> value_set (lit ''outputs'') (SArray []) b = Inr d) \<and>
        (c' = d \<or> value_set (lit ''execution_count'') SNull d = Inr c')"
      using assms a b Cell_Code by (auto simp: replace_in_cell_def rbind_Inr_iff split: if_splits)
    then obtain d where d: "d = b \<or> value_set (lit ''outputs'') (SArray []) b = Inr d"
      "c' = d \<or> value_set (lit ''execution_count'') SNull d = Inr c'" by blast
    have d_get: "value_get k d = value_get k b" if "k \<noteq> lit ''outputs''" for k
      using d(1) value_get_set [of "lit ''outputs''" "SArray []" b d] that by auto
    have "value_get k c' = value_get k b" if "k \<noteq> lit ''outputs''" "k \<noteq> lit ''execution_count''" for k
      using d(2) value_get_set [of "lit ''execution_count''" SNull d c'] d_get that by auto
    then show ?thesis using Cell_Code by (simp add: ab value_get_str_def)
  qed
qed

lemma built_cell:
  "value_get_str (lit ''id'') (build_notebook_cell i t source) = Some i"
  "value_get_str (lit ''cell_type'') (build_notebook_cell i t source) = Some (cell_type_name t)"
  "value_get (lit ''source'') (build_notebook_cell i t source) = Some (SArray (source_lines source))"
  by (cases t; simp add: build_notebook_cell_def value_get_str_def Let_def map_of_bt_insert_any)+

section \<open>What an edit does\<close>

lemma edit_delete:
  assumes "edit_cells inp cells = Inr ((cells', cell_id), ty, source)" and "unwrap_or Edit_Replace (nb_mode inp) = Edit_Delete"
  shows "\<exists>i < length cells. cells' = take i cells @ drop (Suc i) cells \<and>
    (\<forall>k. nb_cell_id inp = Some k \<longrightarrow> cell_id = Some k \<and> value_get_str (lit ''id'') (cells ! i) = Some k)"
proof -
  from assms obtain i where i: "resolve_cell_index cells (nb_cell_id inp) Edit_Delete = Inr i" "delete_cell i cells = (cells', cell_id)"
    by (cases "resolve_cell_index cells (nb_cell_id inp) Edit_Delete")
      (auto simp: edit_cells_def Let_def require_notebook_source_def split: if_splits)
  note at = resolved_index [OF i(1)]
  show ?thesis using at i(2) by (intro exI [of _ i]) (auto simp: delete_cell_def)
qed

lemma edit_replace:
  assumes "edit_cells inp cells = Inr ((cells', cell_id), ty, source)" and "unwrap_or Edit_Replace (nb_mode inp) = Edit_Replace"
  shows "nb_source inp = Some source \<and> (\<exists>i < length cells. \<exists>t c'. ty = Some t \<and> replace_in_cell t source (cells ! i) = Inr c' \<and>
    cells' = cells[i := c'] \<and> cell_id = value_get_str (lit ''id'') (cells ! i) \<and>
    (\<forall>k. nb_cell_id inp = Some k \<longrightarrow> cell_id = Some k))"
proof -
  from assms obtain i where i: "resolve_cell_index cells (nb_cell_id inp) Edit_Replace = Inr i"
    by (cases "resolve_cell_index cells (nb_cell_id inp) Edit_Replace") (auto simp: edit_cells_def Let_def)
  from assms have source: "nb_source inp = Some source"
    by (cases "nb_source inp") (auto simp: edit_cells_def Let_def i require_notebook_source_def rbind_Inr_iff)
  note at = resolved_index [OF i]
  from assms i source obtain t c' where t: "ty = Some t" "replace_in_cell t source (cells ! i) = Inr c'"
    "cells' = cells[i := c']" "cell_id = value_get_str (lit ''id'') c'"
    by (auto simp: edit_cells_def Let_def require_notebook_source_def rbind_Inr_iff replace_cell_def split: if_splits)
  have "value_get (lit ''id'') c' = value_get (lit ''id'') (cells ! i)" using replaced_cell [OF t(2)] by simp
  then have "cell_id = value_get_str (lit ''id'') (cells ! i)" using t(4) by (simp add: value_get_str_def)
  then show ?thesis using source t at by blast
qed

lemma edit_insert:
  assumes "edit_cells inp cells = Inr ((cells', cell_id), ty, source)" and "unwrap_or Edit_Replace (nb_mode inp) = Edit_Insert"
  shows "nb_source inp = Some source \<and> cell_id = Some (make_cell_id (length cells)) \<and>
    (\<exists>i \<le> length cells. \<exists>t. ty = Some t \<and>
       cells' = take i cells @ [build_notebook_cell (make_cell_id (length cells)) t source] @ drop i cells \<and>
       (case nb_cell_id inp of None \<Rightarrow> i = length cells
        | Some k \<Rightarrow> 0 < i \<and> value_get_str (lit ''id'') (cells ! (i - 1)) = Some k))"
proof (cases "nb_cell_id inp")
  case None
  with assms show ?thesis
    by (auto simp: edit_cells_def Let_def require_notebook_source_def rbind_Inr_iff insert_cell_def built_cell ok_or_def
        split: option.splits)
next
  case (Some k)
  with assms obtain j where j: "resolve_cell_index cells (Some k) Edit_Insert = Inr j"
    by (cases "resolve_cell_index cells (Some k) Edit_Insert") (auto simp: edit_cells_def Let_def)
  from resolved_index [OF j] have at: "j < length cells" "value_get_str (lit ''id'') (cells ! j) = Some k" by auto
  have "nb_source inp = Some source \<and> (cells', cell_id) = insert_cell (Some j) (unwrap_or Cell_Code (nb_cell_type inp)) source cells \<and>
      ty = Some (unwrap_or Cell_Code (nb_cell_type inp))"
    using assms Some j by (auto simp: edit_cells_def Let_def require_notebook_source_def rbind_Inr_iff ok_or_def split: option.splits)
  then show ?thesis using at Some
    by (auto simp: insert_cell_def built_cell Let_def intro!: exI [of _ "Suc j"])
qed

text \<open>
  C34: An edit that succeeds changes one cell.  An insertion puts a cell with the text behind the cell that is named, or at the
  end; a deletion takes out one cell, the named one; a replacement changes nothing but the text, the type and the outputs
  of one cell, which keeps its id and its metadata.  The text reads back from the lines it is stored as.
\<close>

theorem notebook_edit_contract:
  "edit_cells inp cells = Inr ((cells', cell_id), ty, source) \<Longrightarrow>
   (case unwrap_or Edit_Replace (nb_mode inp) of
      Edit_Insert \<Rightarrow> \<exists>i \<le> length cells. \<exists>c. cells' = take i cells @ [c] @ drop i cells \<and>
        value_get_str (lit ''id'') c = cell_id \<and> cell_id = Some (make_cell_id (length cells)) \<and>
        text_of_cell c = nb_source inp \<and>
        (case nb_cell_id inp of None \<Rightarrow> i = length cells
         | Some k \<Rightarrow> 0 < i \<and> value_get_str (lit ''id'') (cells ! (i - 1)) = Some k)
    | Edit_Delete \<Rightarrow> \<exists>i < length cells. cells' = take i cells @ drop (Suc i) cells \<and>
        (\<forall>k. nb_cell_id inp = Some k \<longrightarrow> cell_id = Some k \<and> value_get_str (lit ''id'') (cells ! i) = Some k)
    | Edit_Replace \<Rightarrow> \<exists>i < length cells. \<exists>c. cells' = cells[i := c] \<and>
        cell_id = value_get_str (lit ''id'') (cells ! i) \<and> (\<forall>k. nb_cell_id inp = Some k \<longrightarrow> cell_id = Some k) \<and>
        text_of_cell c = nb_source inp \<and>
        (\<forall>k. k \<notin> cell_keys \<longrightarrow> value_get k c = value_get k (cells ! i)))"
proof (cases "unwrap_or Edit_Replace (nb_mode inp)")
  case Edit_Insert
  assume run: "edit_cells inp cells = Inr ((cells', cell_id), ty, source)"
  from edit_insert [OF run Edit_Insert] show ?thesis using Edit_Insert
    by (auto simp: text_of_cell_def built_cell source_lines_text)
next
  case Edit_Delete
  assume run: "edit_cells inp cells = Inr ((cells', cell_id), ty, source)"
  from edit_delete [OF run Edit_Delete] show ?thesis using Edit_Delete by simp
next
  case Edit_Replace
  assume run: "edit_cells inp cells = Inr ((cells', cell_id), ty, source)"
  from edit_replace [OF run Edit_Replace] obtain i t c' where r: "nb_source inp = Some source" "i < length cells"
    "replace_in_cell t source (cells ! i) = Inr c'" "cells' = cells[i := c']" "cell_id = value_get_str (lit ''id'') (cells ! i)"
    "\<forall>k. nb_cell_id inp = Some k \<longrightarrow> cell_id = Some k" by blast
  from replaced_cell [OF r(3)] r show ?thesis using Edit_Replace
    by (intro exI [of _ i] exI [of _ c'] | simp add: text_of_cell_def source_lines_text)+
qed

definition notebook_input :: "notebook_edit_mode \<Rightarrow> rstring option \<Rightarrow> rstring option \<Rightarrow> notebook_edit_input" where
  "notebook_input mode cell_id source =
     \<lparr>nb_path = lit ''n.ipynb'', nb_cell_id = cell_id, nb_source = source, nb_cell_type = Some Cell_Markdown, nb_mode = Some mode\<rparr>"

theorem notebook_edit_contract_witness:
  "\<exists>i < 1. \<exists>c. [SObject [(lit ''cell_type'', SString (lit ''markdown'')), (lit ''source'', SArray [SString (lit ''a'')])]] =
     [SNull][i := c] \<and> value_get_str (lit ''id'') ([SNull] ! i) = None \<and> value_get (lit ''source'') c = Some (SArray [SString (lit ''a'')])"
proof -
  have "edit_cells (notebook_input Edit_Replace None (Some (lit ''a''))) [SNull] = Inr
    (([SObject [(lit ''cell_type'', SString (lit ''markdown'')), (lit ''source'', SArray [SString (lit ''a'')])]], None),
     Some Cell_Markdown, lit ''a'')"
    by (simp add: edit_cells_def notebook_input_def resolve_cell_index_def require_notebook_source_def replace_cell_def
        replace_in_cell_def bt_remove_def value_get_str_def source_lines_def) (simp add: lit_def)
  from notebook_edit_contract [OF this] show ?thesis by (auto simp: notebook_input_def)
qed

text \<open>
  An edit panics exactly when it is to replace a cell, with a text, and the cell is neither an object nor null.
\<close>

theorem notebook_panics:
  "edit_cells inp cells = Inl Notebook_Panic \<longleftrightarrow>
   unwrap_or Edit_Replace (nb_mode inp) = Edit_Replace \<and> nb_source inp \<noteq> None \<and>
   (\<exists>i. resolve_cell_index cells (nb_cell_id inp) Edit_Replace = Inr i \<and> cells ! i \<noteq> SNull \<and> (\<forall>m. cells ! i \<noteq> SObject m))"
proof -
  have no_panic: "resolve_cell_index cells k mode \<noteq> Inl Notebook_Panic" for k mode
    by (auto simp: resolve_cell_index_def ok_or_def split: option.split)
  have object: "value_set k v (SObject m) \<noteq> Inl Notebook_Panic" for k v m by simp
  have replace: "replace_in_cell t src c = Inl Notebook_Panic \<longleftrightarrow> c \<noteq> SNull \<and> (\<forall>m. c \<noteq> SObject m)" for t src c
    by (cases c; cases t) (auto simp: replace_in_cell_def)
  show ?thesis
  proof (cases "unwrap_or Edit_Replace (nb_mode inp)")
    case Edit_Insert
    then show ?thesis
      by (cases "nb_cell_id inp"; cases "nb_source inp"; cases "resolve_cell_index cells (nb_cell_id inp) Edit_Insert")
        (auto simp: edit_cells_def Let_def require_notebook_source_def no_panic)
  next
    case Edit_Delete
    show ?thesis
    proof (cases "resolve_cell_index cells (nb_cell_id inp) Edit_Delete")
      case (Inl e)
      then show ?thesis using Edit_Delete no_panic [of "nb_cell_id inp" Edit_Delete] by (simp add: edit_cells_def)
    next
      case (Inr i)
      then show ?thesis using Edit_Delete resolved_index(1) [OF Inr]
        by (simp add: edit_cells_def require_notebook_source_def)
    qed
  next
    case Edit_Replace
    show ?thesis
    proof (cases "resolve_cell_index cells (nb_cell_id inp) Edit_Replace")
      case (Inl e)
      then show ?thesis using Edit_Replace no_panic [of "nb_cell_id inp" Edit_Replace] by (simp add: edit_cells_def)
    next
      case (Inr i)
      note at = resolved_index(1) [OF Inr]
      show ?thesis
      proof (cases "nb_source inp")
        case None
        then show ?thesis using Edit_Replace Inr by (simp add: edit_cells_def require_notebook_source_def Let_def)
      next
        case (Some src)
        have "\<exists>t. edit_cells inp cells = rbind (rbind (replace_in_cell t src (cells ! i))
            (\<lambda>c. Inr (cells[i := c], value_get_str (lit ''id'') c))) (\<lambda>e. Inr (e, Some t, src))"
          using Edit_Replace Inr Some at by (auto simp: edit_cells_def require_notebook_source_def replace_cell_def Let_def)
        then obtain t where "edit_cells inp cells = rbind (rbind (replace_in_cell t src (cells ! i))
            (\<lambda>c. Inr (cells[i := c], value_get_str (lit ''id'') c))) (\<lambda>e. Inr (e, Some t, src))" by blast
        then have "edit_cells inp cells = Inl Notebook_Panic \<longleftrightarrow> replace_in_cell t src (cells ! i) = Inl Notebook_Panic"
          by (cases "replace_in_cell t src (cells ! i)") simp_all
        then show ?thesis using Edit_Replace Inr Some by (simp add: replace)
      qed
    qed
  qed
qed

text \<open>
  A new cell is named after the number of cells, so that an id comes back after a deletion: of three notebooks made by
  insertions and a deletion, the last has two cells with the same id, and only the first of them can be edited by it.
\<close>

theorem cell_ids_collide:
  "\<exists>a b c d. edit_cells (notebook_input Edit_Insert None (Some (lit ''a''))) [] = Inr ((a, Some (lit ''cell-1'')), Some Cell_Markdown, lit ''a'') \<and>
     edit_cells (notebook_input Edit_Insert None (Some (lit ''b''))) a = Inr ((b, Some (lit ''cell-2'')), Some Cell_Markdown, lit ''b'') \<and>
     edit_cells (notebook_input Edit_Delete (Some (lit ''cell-1'')) None) b = Inr ((c, Some (lit ''cell-1'')), None, []) \<and>
     edit_cells (notebook_input Edit_Insert None (Some (lit ''c''))) c = Inr ((d, Some (lit ''cell-2'')), Some Cell_Markdown, lit ''c'') \<and>
     map (value_get_str (lit ''id'')) d = [Some (lit ''cell-2''), Some (lit ''cell-2'')] \<and>
     (\<forall>src. map_sum id (\<lambda>((e, _), _). tl e) (edit_cells (notebook_input Edit_Replace (Some (lit ''cell-2'')) (Some src)) d) =
        Inr (tl d))"
proof -
  let ?A = "\<lambda>i t. build_notebook_cell (lit i) Cell_Markdown (lit t)"
  let ?a = "[?A ''cell-1'' ''a'']" and ?b = "[?A ''cell-1'' ''a'', ?A ''cell-2'' ''b'']"
  let ?c = "[?A ''cell-2'' ''b'']" and ?d = "[?A ''cell-2'' ''b'', ?A ''cell-2'' ''c'']"
  have ids: "make_cell_id 0 = lit ''cell-1''" "make_cell_id (Suc 0) = lit ''cell-2''"
    by (simp_all add: make_cell_id_def show_nat.simps lit_def)
  note defs = edit_cells_def notebook_input_def require_notebook_source_def Let_def insert_cell_def delete_cell_def
    resolve_cell_index_def ids built_cell
  have "edit_cells (notebook_input Edit_Insert None (Some (lit ''a''))) [] = Inr ((?a, Some (lit ''cell-1'')), Some Cell_Markdown, lit ''a'')"
    "edit_cells (notebook_input Edit_Insert None (Some (lit ''b''))) ?a = Inr ((?b, Some (lit ''cell-2'')), Some Cell_Markdown, lit ''b'')"
    "edit_cells (notebook_input Edit_Delete (Some (lit ''cell-1'')) None) ?b = Inr ((?c, Some (lit ''cell-1'')), None, [])"
    "edit_cells (notebook_input Edit_Insert None (Some (lit ''c''))) ?c = Inr ((?d, Some (lit ''cell-2'')), Some Cell_Markdown, lit ''c'')"
    by (simp_all add: defs)
  moreover have "map (value_get_str (lit ''id'')) ?d = [Some (lit ''cell-2''), Some (lit ''cell-2'')]" by (simp add: built_cell)
  moreover have "map_sum id (\<lambda>((e, _), _). tl e) (edit_cells (notebook_input Edit_Replace (Some (lit ''cell-2'')) (Some src)) ?d) =
      Inr (tl ?d)" for src
    by (simp add: defs replace_cell_def) (simp add: build_notebook_cell_def replace_in_cell_def)
  ultimately show ?thesis
    by (intro exI [of _ ?a] exI [of _ ?b] exI [of _ ?c] exI [of _ ?d] conjI allI)
qed

text \<open>
  Where the id of a new cell is not in use, the insertion and a deletion by that id give the notebook of before.
\<close>

theorem insert_delete_round_trip:
  assumes "edit_cells inp cells = Inr ((cells', Some k), ty, source)" and "nb_mode inp = Some Edit_Insert"
    and "Some (make_cell_id (length cells)) \<notin> set (map (value_get_str (lit ''id'')) cells)"
  shows "edit_cells (notebook_input Edit_Delete (Some k) None) cells' = Inr ((cells, Some k), None, [])"
proof -
  have mode: "unwrap_or Edit_Replace (nb_mode inp) = Edit_Insert" using assms(2) by simp
  obtain i t where i: "i \<le> length cells" "cells' = take i cells @ [build_notebook_cell k t source] @ drop i cells"
    and k: "k = make_cell_id (length cells)"
    using edit_insert [OF assms(1) mode] by auto
  have "\<forall>x \<in> set (take i cells). value_get_str (lit ''id'') x \<noteq> Some k"
    using assms(3) k in_set_takeD [of _ i cells] by force
  then have "position (\<lambda>c. value_get_str (lit ''id'') c = Some k) cells' = Some i"
    using position_append [of "take i cells" _ "build_notebook_cell k t source" "drop i cells"] i by (simp add: built_cell)
  then show ?thesis using i
    by (simp add: edit_cells_def notebook_input_def resolve_cell_index_def require_notebook_source_def delete_cell_def built_cell nth_append)
qed

theorem insert_delete_round_trip_witness:
  "edit_cells (notebook_input Edit_Delete (Some (lit ''cell-1'')) None) [build_notebook_cell (lit ''cell-1'') Cell_Markdown (lit ''a'')] =
     Inr (([], Some (lit ''cell-1'')), None, [])"
proof -
  have id: "make_cell_id 0 = lit ''cell-1''" by (simp add: make_cell_id_def show_nat.simps lit_def)
  have "edit_cells (notebook_input Edit_Insert None (Some (lit ''a''))) [] =
    Inr (([build_notebook_cell (lit ''cell-1'') Cell_Markdown (lit ''a'')], Some (lit ''cell-1'')), Some Cell_Markdown, lit ''a'')"
    by (simp add: edit_cells_def notebook_input_def require_notebook_source_def insert_cell_def id built_cell Let_def)
  from insert_delete_round_trip [OF this] show ?thesis by (simp add: notebook_input_def)
qed

end
