(* ===== verification/OAuth.thy ===== *)
theory OAuth imports Config Utf8 begin

text \<open>
  OAuth (\<^verbatim>\<open>crates/runtime/src/oauth.rs\<close>): percent coding and base64url, the authorization address, the form
  parameters, the callback of the browser, PKCE pairs and the stored credentials.

  Parameters: \<open>sha256\<close> (the crate \<^verbatim>\<open>sha2\<close>), the random bytes read from \<^verbatim>\<open>/dev/urandom\<close>, and a \<open>cred_codec\<close>, which is
  \<^verbatim>\<open>serde_json\<close> on the credentials file and the token set.  A block of base64url is a natural number, its shifts
  and masks are division and remainder.
\<close>

section \<open>Data\<close>

record token_set =
  access_token :: rstring
  refresh_token :: "rstring option"
  expires_at :: "u64 option"
  token_scopes :: "rstring list"

record pkce_pair =
  verifier :: rstring
  challenge :: rstring

record authorization_request =
  auth_url :: rstring
  auth_client_id :: rstring
  auth_redirect_uri :: rstring
  auth_scopes :: "rstring list"
  auth_state :: rstring
  auth_challenge :: rstring
  extra_params :: "(rstring \<times> rstring) list"

record exchange_request =
  exchange_code :: rstring
  exchange_redirect_uri :: rstring
  exchange_client_id :: rstring
  exchange_verifier :: rstring
  exchange_state :: rstring

record refresh_request =
  refresh_given :: rstring
  refresh_client_id :: rstring
  refresh_scopes :: "rstring list"

record callback_params =
  callback_code :: "rstring option"
  callback_state :: "rstring option"
  callback_error :: "rstring option"
  callback_error_description :: "rstring option"

section \<open>Percent coding\<close>

definition unreserved :: "byte \<Rightarrow> bool" where
  "unreserved b \<longleftrightarrow> 65 \<le> b \<and> b \<le> 90 \<or> 97 \<le> b \<and> b \<le> 122 \<or> 48 \<le> b \<and> b \<le> 57 \<or> b \<in> {45, 95, 46, 126}"

definition upper_hex :: "nat \<Rightarrow> rchar" where
  "upper_hex d = (if d < 10 then 48 + d else 55 + d)"

definition percent_encode :: "rstring \<Rightarrow> rstring" where
  "percent_encode v = concat (map (\<lambda>b. if unreserved b then [b] else [37, upper_hex (b div 16), upper_hex (b mod 16)]) (as_bytes v))"

definition decode_hex :: "byte \<Rightarrow> rstring + nat" where
  "decode_hex b =
     (if 48 \<le> b \<and> b \<le> 57 then Inr (b - 48)
      else if 97 \<le> b \<and> b \<le> 102 then Inr (b - 97 + 10)
      else if 65 \<le> b \<and> b \<le> 70 then Inr (b - 65 + 10)
      else Inl (lit ''invalid percent byte: '' @ show_nat b))"

text \<open>The loop over the bytes: a percent sign needs two more bytes, otherwise it stands for itself.\<close>

fun percent_decode_loop :: "byte list \<Rightarrow> rstring + byte list" where
  "percent_decode_loop [] = Inr []"
| "percent_decode_loop (b # bs) = (case (b = 37, bs) of
     (True, x # y # rest) \<Rightarrow>
       rbind (decode_hex x) (\<lambda>hi. rbind (decode_hex y) (\<lambda>lo.
       rbind (percent_decode_loop rest) (\<lambda>decoded. Inr ((hi * 16 + lo) # decoded))))
   | _ \<Rightarrow> rbind (percent_decode_loop bs) (\<lambda>decoded. Inr ((if b = 43 then 32 else b) # decoded)))"

definition percent_decode :: "rstring \<Rightarrow> rstring + rstring" where
  "percent_decode v = rbind (percent_decode_loop (as_bytes v)) from_utf8"

section \<open>base64url\<close>

definition base64url_table :: "rchar list" where
  "base64url_table = lit ''ABCDEFGHIJKLMNOPQRSTUVWXYZabcdefghijklmnopqrstuvwxyz0123456789-_''"

abbreviation "b64 n \<equiv> base64url_table ! n"

fun base64url_encode :: "byte list \<Rightarrow> rstring" where
  "base64url_encode (x # y # z # rest) =
     (let block = x * 65536 + y * 256 + z
      in [b64 (block div 262144 mod 64), b64 (block div 4096 mod 64), b64 (block div 64 mod 64), b64 (block mod 64)]
         @ base64url_encode rest)"
| "base64url_encode [x] = (let block = x * 65536 in [b64 (block div 262144 mod 64), b64 (block div 4096 mod 64)])"
| "base64url_encode [x, y] =
     (let block = x * 65536 + y * 256
      in [b64 (block div 262144 mod 64), b64 (block div 4096 mod 64), b64 (block div 64 mod 64)])"
| "base64url_encode [] = []"

section \<open>PKCE and requests\<close>

definition code_challenge_s256 :: "(byte list \<Rightarrow> byte list) \<Rightarrow> rstring \<Rightarrow> rstring" where
  "code_challenge_s256 sha256 v = base64url_encode (sha256 (as_bytes v))"

text \<open>\<open>random\<close> are the 32 bytes that were read.\<close>

definition generate_pkce_pair :: "(byte list \<Rightarrow> byte list) \<Rightarrow> byte list \<Rightarrow> pkce_pair" where
  "generate_pkce_pair sha256 random =
     \<lparr>verifier = base64url_encode random, challenge = code_challenge_s256 sha256 (base64url_encode random)\<rparr>"

definition loopback_redirect_uri :: "u16 \<Rightarrow> rstring" where
  "loopback_redirect_uri port = lit ''http://localhost:'' @ show_nat (unat port) @ lit ''/callback''"

definition authorization_from_config :: "oauth_config \<Rightarrow> rstring \<Rightarrow> rstring \<Rightarrow> pkce_pair \<Rightarrow> authorization_request" where
  "authorization_from_config config redirect_uri state pkce =
     \<lparr>auth_url = oauth_authorize_url config, auth_client_id = oauth_client_id config, auth_redirect_uri = redirect_uri,
      auth_scopes = oauth_scopes config, auth_state = state, auth_challenge = challenge pkce, extra_params = []\<rparr>"

definition with_extra_param :: "rstring \<Rightarrow> rstring \<Rightarrow> authorization_request \<Rightarrow> authorization_request" where
  "with_extra_param key v r = r\<lparr>extra_params := bt_insert key v (extra_params r)\<rparr>"

definition auth_params :: "authorization_request \<Rightarrow> (rstring \<times> rstring) list" where
  "auth_params r = [(lit ''response_type'', lit ''code''), (lit ''client_id'', auth_client_id r),
     (lit ''redirect_uri'', auth_redirect_uri r), (lit ''scope'', join [c_space] (auth_scopes r)), (lit ''state'', auth_state r),
     (lit ''code_challenge'', auth_challenge r), (lit ''code_challenge_method'', lit ''S256'')] @ extra_params r"

definition encode_query :: "(rstring \<times> rstring) list \<Rightarrow> rstring" where
  "encode_query params = join [38] (map (\<lambda>(key, v). percent_encode key @ [61] @ percent_encode v) params)"

definition build_url :: "authorization_request \<Rightarrow> rstring" where
  "build_url r = auth_url r @ (if str_contains (auth_url r) [63] then [38] else [63]) @ encode_query (auth_params r)"

definition exchange_from_config :: "oauth_config \<Rightarrow> rstring \<Rightarrow> rstring \<Rightarrow> rstring \<Rightarrow> rstring \<Rightarrow> exchange_request" where
  "exchange_from_config config code state v redirect_uri =
     \<lparr>exchange_code = code, exchange_redirect_uri = redirect_uri, exchange_client_id = oauth_client_id config,
      exchange_verifier = v, exchange_state = state\<rparr>"

definition exchange_form_params :: "exchange_request \<Rightarrow> (rstring \<times> rstring) list" where
  "exchange_form_params r = bt_collect [(lit ''grant_type'', lit ''authorization_code''), (lit ''code'', exchange_code r),
     (lit ''redirect_uri'', exchange_redirect_uri r), (lit ''client_id'', exchange_client_id r),
     (lit ''code_verifier'', exchange_verifier r), (lit ''state'', exchange_state r)]"

definition refresh_from_config :: "oauth_config \<Rightarrow> rstring \<Rightarrow> rstring list option \<Rightarrow> refresh_request" where
  "refresh_from_config config token scopes =
     \<lparr>refresh_given = token, refresh_client_id = oauth_client_id config, refresh_scopes = unwrap_or (oauth_scopes config) scopes\<rparr>"

definition refresh_form_params :: "refresh_request \<Rightarrow> (rstring \<times> rstring) list" where
  "refresh_form_params r = bt_collect [(lit ''grant_type'', lit ''refresh_token''), (lit ''refresh_token'', refresh_given r),
     (lit ''client_id'', refresh_client_id r), (lit ''scope'', join [c_space] (refresh_scopes r))]"

section \<open>The callback\<close>

fun decode_pairs :: "rstring list \<Rightarrow> (rstring \<times> rstring) list \<Rightarrow> rstring + (rstring \<times> rstring) list" where
  "decode_pairs [] params = Inr params"
| "decode_pairs (pair # pairs) params =
     (let (key, v) = (case split_once pair [61] of Some (key, v) \<Rightarrow> (key, v) | None \<Rightarrow> (pair, []))
      in rbind (percent_decode key) (\<lambda>k. rbind (percent_decode v) (\<lambda>x. decode_pairs pairs (bt_insert k x params))))"

definition parse_oauth_callback_query :: "rstring \<Rightarrow> rstring + callback_params" where
  "parse_oauth_callback_query query =
     rbind (decode_pairs (filter (\<lambda>pair. pair \<noteq> []) (split_on (\<lambda>c. c = 38) query)) []) (\<lambda>params.
       Inr \<lparr>callback_code = map_of params (lit ''code''), callback_state = map_of params (lit ''state''),
         callback_error = map_of params (lit ''error''), callback_error_description = map_of params (lit ''error_description'')\<rparr>)"

definition parse_oauth_callback_request_target :: "rstring \<Rightarrow> rstring + callback_params" where
  "parse_oauth_callback_request_target target =
     (let (path, query) = (case split_once target [63] of Some (path, query) \<Rightarrow> (path, query) | None \<Rightarrow> (target, []))
      in if path \<noteq> lit ''/callback'' then Inl (lit ''unexpected callback path: '' @ path)
         else parse_oauth_callback_query query)"

section \<open>Stored credentials\<close>

type_synonym cred_root = "(rstring \<times> serde_value) list"

record cred_codec =
  cred_parse :: "rstring \<Rightarrow> rstring + serde_value"
  cred_render :: "serde_value \<Rightarrow> rstring"
  tokens_to_value :: "token_set \<Rightarrow> serde_value"
  tokens_from_value :: "serde_value \<Rightarrow> rstring + token_set"

definition credentials_path :: "(rstring \<Rightarrow> rstring option) \<Rightarrow> rstring + rstring" where
  "credentials_path env_var =
     rbind (case env_var (lit ''CLAW_CONFIG_HOME'') of
         Some path \<Rightarrow> Inr path
       | None \<Rightarrow> (case env_var (lit ''HOME'') of
           None \<Rightarrow> Inl (lit ''HOME is not set'')
         | Some home \<Rightarrow> Inr (path_join home (lit ''.claw''))))
       (\<lambda>home. Inr (path_join home (lit ''credentials.json'')))"

definition read_credentials_root :: "cred_codec \<Rightarrow> file_result \<Rightarrow> rstring + cred_root" where
  "read_credentials_root codec file = (case file of
     File_NotFound \<Rightarrow> Inr []
   | File_Failed e \<Rightarrow> Inl e
   | File_Text contents \<Rightarrow>
       if trim contents = [] then Inr []
       else rbind (cred_parse codec contents) (\<lambda>v. case v of
         SObject root \<Rightarrow> Inr root
       | _ \<Rightarrow> Inl (lit ''credentials file must contain a JSON object'')))"

text \<open>The file after a write that succeeds: it is replaced as a whole by renaming.\<close>

definition write_credentials_root :: "cred_codec \<Rightarrow> cred_root \<Rightarrow> file_result" where
  "write_credentials_root codec root = File_Text (cred_render codec (SObject root) @ [c_nl])"

definition load_oauth_credentials :: "cred_codec \<Rightarrow> file_result \<Rightarrow> rstring + token_set option" where
  "load_oauth_credentials codec file =
     rbind (read_credentials_root codec file) (\<lambda>root. case map_of root (lit ''oauth'') of
       None \<Rightarrow> Inr None
     | Some oauth \<Rightarrow> if oauth = SNull then Inr None else rbind (tokens_from_value codec oauth) (\<lambda>t. Inr (Some t)))"

definition save_oauth_credentials :: "cred_codec \<Rightarrow> token_set \<Rightarrow> file_result \<Rightarrow> rstring + file_result" where
  "save_oauth_credentials codec tokens file =
     rbind (read_credentials_root codec file) (\<lambda>root.
       Inr (write_credentials_root codec (bt_insert (lit ''oauth'') (tokens_to_value codec tokens) root)))"

definition clear_oauth_credentials :: "cred_codec \<Rightarrow> file_result \<Rightarrow> rstring + file_result" where
  "clear_oauth_credentials codec file =
     rbind (read_credentials_root codec file) (\<lambda>root. Inr (write_credentials_root codec (AList.delete (lit ''oauth'') root)))"

section \<open>Percent coding is read back\<close>

lemma decode_upper_hex: "d < 16 \<Longrightarrow> decode_hex (upper_hex d) = Inr d"
  by (simp add: decode_hex_def upper_hex_def)

lemma percent_decode_loop_encoded:
  "\<forall>b \<in> set bs. b < 256 \<Longrightarrow>
   percent_decode_loop (concat (map (\<lambda>b. if unreserved b then [b] else [37, upper_hex (b div 16), upper_hex (b mod 16)]) bs)) = Inr bs"
proof (induction bs)
  case (Cons b bs)
  then have "b div 16 < 16" "b mod 16 < 16" "b div 16 * 16 + b mod 16 = b" by auto
  with Cons show ?case by (auto simp: decode_upper_hex unreserved_def)
qed simp

lemma unreserved_ascii: "unreserved c \<Longrightarrow> c < 128"
  by (auto simp: unreserved_def)

lemma unreserved_upper_hex: "d < 16 \<Longrightarrow> unreserved (upper_hex d)"
  by (auto simp: unreserved_def upper_hex_def)

lemma percent_encode_chars:
  assumes "list_all is_scalar s" and "c \<in> set (percent_encode s)"
  shows "unreserved c \<or> c = 37"
proof -
  obtain b where b: "b \<in> set (as_bytes s)"
    "c \<in> set (if unreserved b then [b] else [37, upper_hex (b div 16), upper_hex (b mod 16)])"
    using assms(2) unfolding percent_encode_def set_concat set_map by blast
  have "b < 256" using as_bytes_less [OF assms(1) b(1)] .
  then have "b div 16 < 16" by simp
  then show ?thesis using b(2) unreserved_upper_hex [of "b div 16"] unreserved_upper_hex [of "b mod 16"]
    by (auto split: if_splits)
qed

lemma percent_encode_unreserved: "list_all unreserved s \<Longrightarrow> percent_encode s = s"
proof -
  assume s: "list_all unreserved s"
  then have "as_bytes s = s" using unreserved_ascii by (intro as_bytes_ascii) (auto simp: list_all_iff)
  then show ?thesis using s unfolding percent_encode_def by (simp add: list_all_iff concat_eq_concat_iff [symmetric] cong: map_cong)
qed

lemma percent_decode_encode: "list_all is_scalar s \<Longrightarrow> percent_decode (percent_encode s) = Inr s"
proof -
  assume s: "list_all is_scalar s"
  have bytes: "\<forall>b \<in> set (as_bytes s). b < 256" using as_bytes_less [OF s] by blast
  have "\<forall>c \<in> set (percent_encode s). c < 128" using percent_encode_chars [OF s] unreserved_ascii by fastforce
  then show ?thesis
    using percent_decode_loop_encoded [OF bytes] from_utf8_as_bytes [OF s] as_bytes_ascii [of "percent_encode s"]
    by (simp add: percent_decode_def) (simp add: percent_encode_def)
qed


text \<open>
  Percent coding loses nothing: decoding the encoded text of any string gives the string back.\<close>

theorem percent_coding_roundtrip:
  assumes "list_all is_scalar s"
  shows "percent_decode (percent_encode s) = Inr s \<and> list_all (\<lambda>c. unreserved c \<or> c = 37) (percent_encode s)"
  using percent_decode_encode [OF assms] percent_encode_chars [OF assms] by (auto simp: list_all_iff)

theorem percent_coding_roundtrip_witness:
  "percent_decode (percent_encode (lit ''a b&'' @ [0xE9])) = Inr (lit ''a b&'' @ [0xE9])"
  using percent_coding_roundtrip [of "lit ''a b&'' @ [0xE9]"] by (simp add: is_scalar_def lit_def)

section \<open>The query is read back\<close>

lemma split_on_none: "\<forall>c \<in> set a. \<not> P c \<Longrightarrow> split_on P a = [a]"
  by (induction a) auto

lemma split_on_join: "parts \<noteq> [] \<Longrightarrow> \<forall>part \<in> set parts. sep \<notin> set part \<Longrightarrow>
    split_on (\<lambda>c. c = sep) (join [sep] parts) = parts"
proof (induction "[sep]" parts rule: join.induct)
  case (2 x)
  then show ?case by (auto intro!: split_on_none)
next
  case (3 x y ys)
  moreover have "split_on (\<lambda>c. c = sep) x = [x]" using 3 by (intro split_on_none) auto
  ultimately show ?case using split_on_sep [of "\<lambda>c. c = sep" sep x "join [sep] (y # ys)"] by simp
qed simp

lemma split_once_char: "c \<notin> set a \<Longrightarrow> split_once (a @ c # b) [c] = Some (a, b)"
  by (simp add: split_once_def str_find_char)

definition encode_pair :: "rstring \<times> rstring \<Rightarrow> rstring" where
  "encode_pair p = percent_encode (fst p) @ [61] @ percent_encode (snd p)"

abbreviation "valid_param \<equiv> \<lambda>p. list_all is_scalar (fst p) \<and> list_all is_scalar (snd p)"

lemma not_reserved: "list_all is_scalar s \<Longrightarrow> 61 \<notin> set (percent_encode s) \<and> 38 \<notin> set (percent_encode s)"
  using percent_encode_chars [of s] by (force simp: unreserved_def)

lemma decode_pairs_encoded:
  "list_all valid_param params \<Longrightarrow>
   \<exists>result. decode_pairs (map encode_pair params) es = Inr result \<and> map_of result = map_of es ++ map_of (rev params)"
proof (induction params arbitrary: es)
  case (Cons p params)
  obtain k v where [simp]: "p = (k, v)" by (cases p)
  have "split_once (encode_pair p) [61] = Some (percent_encode k, percent_encode v)"
    using not_reserved [of k] Cons.prems by (simp add: encode_pair_def split_once_char)
  moreover obtain result where "decode_pairs (map encode_pair params) (bt_insert k v es) = Inr result"
    "map_of result = map_of (bt_insert k v es) ++ map_of (rev params)"
    using Cons.IH [of "bt_insert k v es"] Cons.prems by auto
  moreover have "map_of (bt_insert k v es) ++ map_of (rev params) = map_of es ++ map_of (rev (p # params))"
    by (auto simp: map_of_bt_insert_any fun_eq_iff map_add_def split: option.split)
  ultimately show ?case using Cons.prems by (simp add: percent_decode_encode)
qed simp

lemma encode_query_pairs:
  assumes "list_all valid_param params"
  shows "filter (\<lambda>pair. pair \<noteq> []) (split_on (\<lambda>c. c = 38) (encode_query params)) = map encode_pair params"
proof (cases "params = []")
  case False
  have "\<forall>part \<in> set (map encode_pair params). 38 \<notin> set part"
    using assms not_reserved by (force simp: list_all_iff encode_pair_def)
  then have "split_on (\<lambda>c. c = 38) (join [38] (map encode_pair params)) = map encode_pair params"
    using False by (intro split_on_join) auto
  moreover have "encode_query params = join [38] (map encode_pair params)"
    unfolding encode_query_def by (rule arg_cong [where f = "join [38]"]) (auto simp: encode_pair_def)
  moreover have "\<forall>part \<in> set (map encode_pair params). part \<noteq> []" by (auto simp: encode_pair_def)
  ultimately show ?thesis by (simp add: filter_id_conv)
qed (simp add: encode_query_def)

text \<open>
  A query written with the code's encoding is read back by the callback parser: each field is the last
  value given for its name, whatever chars names and values have.\<close>

theorem callback_query_read_back:
  assumes "list_all valid_param params"
  shows "parse_oauth_callback_query (encode_query params) =
    Inr \<lparr>callback_code = map_of (rev params) (lit ''code''), callback_state = map_of (rev params) (lit ''state''),
      callback_error = map_of (rev params) (lit ''error''),
      callback_error_description = map_of (rev params) (lit ''error_description'')\<rparr>"
  using decode_pairs_encoded [OF assms, of "[]"]
  by (auto simp: parse_oauth_callback_query_def encode_query_pairs [OF assms])

theorem callback_query_read_back_witness:
  "\<exists>p. parse_oauth_callback_query (encode_query [(lit ''state'', lit ''a&b''), (lit ''code'', lit ''x=1'')]) = Inr p \<and>
     callback_code p = Some (lit ''x=1'')"
  using callback_query_read_back [of "[(lit ''state'', lit ''a&b''), (lit ''code'', lit ''x=1'')]"]
  by (simp add: is_scalar_def lit_def)

section \<open>base64url is read back\<close>

definition b64_value :: "rchar \<Rightarrow> nat" where
  "b64_value c = (if 65 \<le> c \<and> c \<le> 90 then c - 65 else if 97 \<le> c \<and> c \<le> 122 then c - 71
     else if 48 \<le> c \<and> c \<le> 57 then c + 4 else if c = 45 then 62 else 63)"

fun base64url_decode :: "rstring \<Rightarrow> byte list" where
  "base64url_decode (p # q # r # s # rest) =
     (let block = b64_value p * 262144 + b64_value q * 4096 + b64_value r * 64 + b64_value s
      in [block div 65536, block div 256 mod 256, block mod 256] @ base64url_decode rest)"
| "base64url_decode [p, q, r] =
     (let block = b64_value p * 262144 + b64_value q * 4096 + b64_value r * 64 in [block div 65536, block div 256 mod 256])"
| "base64url_decode [p, q] = (let block = b64_value p * 262144 + b64_value q * 4096 in [block div 65536])"
| "base64url_decode _ = []"

lemma b64_table: "length base64url_table = 64" "\<forall>n < 64. unreserved (b64 n) \<and> b64_value (b64 n) = n"
proof -
  show "length base64url_table = 64" by (simp add: base64url_table_def lit_def)
  have "list_all (\<lambda>n. unreserved (b64 n) \<and> b64_value (b64 n) = n) [0..<64]"
    by (simp add: base64url_table_def lit_def unreserved_def b64_value_def upt_rec)
  then show "\<forall>n < 64. unreserved (b64 n) \<and> b64_value (b64 n) = n" by (auto simp: list_all_iff)
qed

lemma b64_simps [simp]: "b64_value (b64 (n mod 64)) = n mod 64" "unreserved (b64 (n mod 64))"
  using b64_table(2) by simp_all

lemma block_digits:
  assumes "block < (16777216 :: nat)"
  shows "block div 262144 mod 64 * 262144 + block div 4096 mod 64 * 4096 + block div 64 mod 64 * 64 + block mod 64 = block"
proof -
  have e: "block div 4096 = block div 64 div 64" "block div 262144 = block div 64 div 64 div 64"
    by (simp_all add: div_mult2_eq [symmetric])
  have "block div 64 div 64 div 64 < 64" using assms by (simp add: div_mult2_eq [symmetric] less_mult_imp_div_less)
  then have "block div 262144 mod 64 * 64 + block div 4096 mod 64 = block div 64 div 64"
    unfolding e by (metis div_mult_mod_eq mod_less)
  moreover have "block div 64 div 64 * 64 + block div 64 mod 64 = block div 64" by (rule div_mult_mod_eq)
  moreover have "block div 64 * 64 + block mod 64 = block" by (rule div_mult_mod_eq)
  ultimately show ?thesis by linarith
qed

lemma block_bytes:
  assumes "x < 256" "y < 256" "z < (256::nat)"
  shows "(x * 65536 + y * 256 + z) div 65536 = x" "(x * 65536 + y * 256 + z) div 256 mod 256 = y"
    "(x * 65536 + y * 256 + z) mod 256 = z"
proof -
  show "(x * 65536 + y * 256 + z) div 65536 = x" using assms by (intro div_nat_eqI) auto
  have d: "(x * 65536 + y * 256 + z) div 256 = x * 256 + y" using assms by (intro div_nat_eqI) auto
  show "(x * 65536 + y * 256 + z) div 256 mod 256 = y" unfolding d using assms by simp
  show "(x * 65536 + y * 256 + z) mod 256 = z"
  proof -
    have "x * 65536 + y * 256 + z = (x * 256 + y) * 256 + z" by simp
    then show ?thesis using assms(3) by (simp only: mod_mult_self3 mod_less)
  qed
qed

lemma block_less: "x < 256 \<Longrightarrow> y < 256 \<Longrightarrow> z < (256::nat) \<Longrightarrow> x * 65536 + y * 256 + z < 16777216"
  by linarith

lemma low_bits_zero: "(x * 65536 + y * 256) mod 64 = (0::nat)" "x * 65536 mod 64 = (0::nat)" "x * 65536 div 64 mod 64 = (0::nat)"
proof -
  have "x * 65536 + y * 256 = (x * 1024 + y * 4) * 64" "x * 65536 = x * 1024 * 64" "x * 1024 = x * 16 * 64" by simp_all
  then show "(x * 65536 + y * 256) mod 64 = (0::nat)" "x * 65536 mod 64 = (0::nat)" "x * 65536 div 64 mod 64 = (0::nat)"
    by (simp_all only: mod_mult_self2_is_0 nonzero_mult_div_cancel_right zero_neq_numeral [symmetric] not_False_eq_True)
qed

lemma tail_two:
  assumes "x < 256" "y < (256 :: nat)"
  shows "base64url_decode (base64url_encode [x, y]) = [x, y]"
proof -
  have z: "(0::nat) < 256" by simp
  show ?thesis
    using block_digits [OF block_less [OF assms z], unfolded add_0_right low_bits_zero] block_bytes(1,2) [OF assms z, unfolded add_0_right]
    by (simp only: base64url_encode.simps base64url_decode.simps Let_def b64_simps add_0_right)
qed

lemma tail_one:
  assumes "x < (256 :: nat)"
  shows "base64url_decode (base64url_encode [x]) = [x]"
proof -
  have z: "(0::nat) < 256" by simp
  show ?thesis
    using block_digits [OF block_less [OF assms z z], unfolded mult_0 add_0_right low_bits_zero]
      block_bytes(1) [OF assms z z, unfolded mult_0 add_0_right]
    by (simp only: base64url_encode.simps base64url_decode.simps Let_def b64_simps mult_0 add_0_right)
qed

lemma base64url_read_back: "\<forall>b \<in> set bs. b < 256 \<Longrightarrow> base64url_decode (base64url_encode bs) = bs"
proof (induction bs rule: base64url_encode.induct)
  case (1 x y z rest)
  then have less: "x < 256" "y < 256" "z < 256" by auto
  show ?case using 1 by (simp add: Let_def block_digits [OF block_less [OF less]] block_bytes [OF less])
qed (simp_all del: base64url_encode.simps base64url_decode.simps add: tail_one tail_two, simp)

lemma base64url_chars: "list_all unreserved (base64url_encode bs)"
  by (induction bs rule: base64url_encode.induct) (simp_all add: Let_def)

lemma base64url_length: "length (base64url_encode bs) = (4 * length bs + 2) div 3"
  by (induction bs rule: base64url_encode.induct) (simp_all add: Let_def)

text \<open>
  base64url loses nothing and writes only chars that need no percent coding; a verifier made of 32 random
  bytes has the 43 chars that the PKCE standard asks for, and different bytes give different verifiers.\<close>

theorem base64url_verifier:
  assumes "list_all (\<lambda>b. b < 256) bytes"
  shows "base64url_decode (base64url_encode bytes) = bytes \<and>
    percent_encode (base64url_encode bytes) = base64url_encode bytes \<and>
    (length bytes = 32 \<longrightarrow> length (verifier (generate_pkce_pair sha256 bytes)) = 43)"
proof -
  have "percent_encode (base64url_encode bytes) = base64url_encode bytes"
    using base64url_chars [of bytes] by (simp add: percent_encode_unreserved)
  then show ?thesis using assms by (simp add: base64url_read_back list_all_iff generate_pkce_pair_def base64url_length)
qed

theorem base64url_verifier_witness:
  "base64url_decode (base64url_encode (replicate 32 251)) = replicate 32 251 \<and>
   length (verifier (generate_pkce_pair (\<lambda>_. []) (replicate 32 251))) = 43"
  using base64url_verifier [of "replicate 32 251" "\<lambda>_. []"] by (simp add: list_all_iff)

section \<open>The stored credentials\<close>

text \<open>What the code relies on of \<^verbatim>\<open>serde_json\<close>: a root that was written, with a line feed after it, is read back.\<close>

definition codec_reads_back :: "cred_codec \<Rightarrow> cred_root \<Rightarrow> bool" where
  "codec_reads_back codec root \<longleftrightarrow> cred_parse codec (cred_render codec (SObject root) @ [c_nl]) = Inr (SObject root) \<and>
     trim (cred_render codec (SObject root) @ [c_nl]) \<noteq> []"

lemma read_written: "codec_reads_back codec root \<Longrightarrow> read_credentials_root codec (write_credentials_root codec root) = Inr root"
  by (simp add: codec_reads_back_def read_credentials_root_def write_credentials_root_def)

text \<open>
  Credentials that are saved are loaded again, the rest of the file stays, and after they are cleared
  there are none; given that the JSON library reads back what it wrote.\<close>

theorem credentials_saved_and_cleared:
  assumes root: "read_credentials_root codec file = Inr root"
    and written: "codec_reads_back codec (bt_insert (lit ''oauth'') (tokens_to_value codec t) root)"
      "codec_reads_back codec (AList.delete (lit ''oauth'') (bt_insert (lit ''oauth'') (tokens_to_value codec t) root))"
    and tokens: "tokens_from_value codec (tokens_to_value codec t) = Inr t" "tokens_to_value codec t \<noteq> SNull"
  shows "\<exists>file1 root1 file2. save_oauth_credentials codec t file = Inr file1 \<and> load_oauth_credentials codec file1 = Inr (Some t) \<and>
    read_credentials_root codec file1 = Inr root1 \<and> map_of root1 = (map_of root)(lit ''oauth'' \<mapsto> tokens_to_value codec t) \<and>
    clear_oauth_credentials codec file1 = Inr file2 \<and> load_oauth_credentials codec file2 = Inr None"
  by (simp add: save_oauth_credentials_def load_oauth_credentials_def clear_oauth_credentials_def root read_written written
      map_of_bt_insert_any tokens delete_conv' AList.delete_conv')

theorem credentials_saved_and_cleared_witness:
  "\<exists>codec t file1. save_oauth_credentials codec t File_NotFound = Inr file1 \<and> load_oauth_credentials codec file1 = Inr (Some t)"
proof -
  define codec :: cred_codec where "codec = \<lparr>cred_parse = (\<lambda>s. Inr (SObject (if s = [101, c_nl] then [] else [(lit ''oauth'', SBool True)]))),
    cred_render = (\<lambda>v. if v = SObject [] then [101] else [102]), tokens_to_value = (\<lambda>_. SBool True),
    tokens_from_value = (\<lambda>_. Inr \<lparr>access_token = lit ''a'', refresh_token = None, expires_at = None, token_scopes = []\<rparr>)\<rparr>"
  have "\<exists>file1 root1 file2. save_oauth_credentials codec \<lparr>access_token = lit ''a'', refresh_token = None, expires_at = None, token_scopes = []\<rparr> File_NotFound = Inr file1 \<and>
    load_oauth_credentials codec file1 = Inr (Some \<lparr>access_token = lit ''a'', refresh_token = None, expires_at = None, token_scopes = []\<rparr>) \<and>
    read_credentials_root codec file1 = Inr root1 \<and> map_of root1 = (map_of [])(lit ''oauth'' \<mapsto> tokens_to_value codec \<lparr>access_token = lit ''a'', refresh_token = None, expires_at = None, token_scopes = []\<rparr>) \<and>
    clear_oauth_credentials codec file1 = Inr file2 \<and> load_oauth_credentials codec file2 = Inr None"
    by (rule credentials_saved_and_cleared)
      (simp_all add: codec_def read_credentials_root_def codec_reads_back_def trim_eq_Nil_iff is_whitespace_def)
  then show ?thesis by blast
qed

end
