(* ===== verification/Plugins.thy ===== *)
theory Plugins imports Tools Paths begin

text \<open>
  Plugins (\<^verbatim>\<open>crates/plugins/src/lib.rs\<close>): manifests and their validation, the definitions that are loaded from them, and
  the registry with its hooks, tools and lifecycle.

  What is at a path is a function of it (\<open>file_kind\<close>).  The code that \<^verbatim>\<open>serde\<close> derives reads a manifest (\<open>parse_manifest\<close>).
  Running a command is a function of the world, as in the hooks of the runtime.
\<close>

section \<open>Data\<close>

datatype plugin_kind = Plugin_Builtin | Plugin_Bundled | Plugin_External

fun show_plugin_kind :: "plugin_kind \<Rightarrow> rstring" where
  "show_plugin_kind Plugin_Builtin = lit ''builtin''"
| "show_plugin_kind Plugin_Bundled = lit ''bundled''"
| "show_plugin_kind Plugin_External = lit ''external''"

fun marketplace :: "plugin_kind \<Rightarrow> rstring" where
  "marketplace Plugin_Builtin = lit ''builtin''"
| "marketplace Plugin_Bundled = lit ''bundled''"
| "marketplace Plugin_External = lit ''external''"

record plugin_metadata =
  pm_id :: rstring
  pm_name :: rstring
  pm_version :: rstring
  pm_description :: rstring
  pm_kind :: plugin_kind
  pm_source :: rstring
  pm_default_enabled :: bool
  pm_root :: "rstring option"

record plugin_hooks =
  ph_pre :: "rstring list"
  ph_post :: "rstring list"
  ph_failure :: "rstring list"

definition no_plugin_hooks :: plugin_hooks where
  "no_plugin_hooks = \<lparr>ph_pre = [], ph_post = [], ph_failure = []\<rparr>"

definition merged_with :: "plugin_hooks \<Rightarrow> plugin_hooks \<Rightarrow> plugin_hooks" where
  "merged_with a b = \<lparr>ph_pre = ph_pre a @ ph_pre b, ph_post = ph_post a @ ph_post b, ph_failure = ph_failure a @ ph_failure b\<rparr>"

record plugin_lifecycle =
  pl_init :: "rstring list"
  pl_shutdown :: "rstring list"

definition lifecycle_is_empty :: "plugin_lifecycle \<Rightarrow> bool" where
  "lifecycle_is_empty l \<longleftrightarrow> pl_init l = [] \<and> pl_shutdown l = []"

datatype plugin_permission = Plugin_Read | Plugin_Write | Plugin_Execute

definition parse_plugin_permission :: "rstring \<Rightarrow> plugin_permission option" where
  "parse_plugin_permission v =
     (if v = lit ''read'' then Some Plugin_Read
      else if v = lit ''write'' then Some Plugin_Write
      else if v = lit ''execute'' then Some Plugin_Execute
      else None)"

fun plugin_permission_as_str :: "plugin_permission \<Rightarrow> rstring" where
  "plugin_permission_as_str Plugin_Read = lit ''read''"
| "plugin_permission_as_str Plugin_Write = lit ''write''"
| "plugin_permission_as_str Plugin_Execute = lit ''execute''"

datatype plugin_tool_permission = Tool_ReadOnly | Tool_WorkspaceWrite | Tool_DangerFullAccess

definition parse_tool_permission :: "rstring \<Rightarrow> plugin_tool_permission option" where
  "parse_tool_permission v =
     (if v = lit ''read-only'' then Some Tool_ReadOnly
      else if v = lit ''workspace-write'' then Some Tool_WorkspaceWrite
      else if v = lit ''danger-full-access'' then Some Tool_DangerFullAccess
      else None)"

fun tool_permission_as_str :: "plugin_tool_permission \<Rightarrow> rstring" where
  "tool_permission_as_str Tool_ReadOnly = lit ''read-only''"
| "tool_permission_as_str Tool_WorkspaceWrite = lit ''workspace-write''"
| "tool_permission_as_str Tool_DangerFullAccess = lit ''danger-full-access''"

record raw_tool_manifest =
  rt_name :: rstring
  rt_description :: rstring
  rt_schema :: serde_value
  rt_command :: rstring
  rt_args :: "rstring list"
  rt_permission :: rstring

record tool_manifest =
  tm_name :: rstring
  tm_description :: rstring
  tm_schema :: serde_value
  tm_command :: rstring
  tm_args :: "rstring list"
  tm_permission :: plugin_tool_permission

record command_manifest =
  cm_name :: rstring
  cm_description :: rstring
  cm_command :: rstring

record raw_plugin_manifest =
  rp_name :: rstring
  rp_version :: rstring
  rp_description :: rstring
  rp_permissions :: "rstring list"
  rp_default_enabled :: bool
  rp_hooks :: plugin_hooks
  rp_lifecycle :: plugin_lifecycle
  rp_tools :: "raw_tool_manifest list"
  rp_commands :: "command_manifest list"

record plugin_manifest =
  mf_name :: rstring
  mf_version :: rstring
  mf_description :: rstring
  mf_permissions :: "plugin_permission list"
  mf_default_enabled :: bool
  mf_hooks :: plugin_hooks
  mf_lifecycle :: plugin_lifecycle
  mf_tools :: "tool_manifest list"
  mf_commands :: "command_manifest list"

section \<open>Errors\<close>

datatype manifest_error =
    Empty_Field rstring
  | Empty_Entry_Field rstring rstring "rstring option"
  | Invalid_Permission rstring
  | Duplicate_Permission rstring
  | Duplicate_Entry rstring rstring
  | Missing_Path rstring rstring
  | Path_Is_Directory rstring rstring
  | Invalid_Tool_Schema rstring
  | Invalid_Tool_Permission rstring rstring

fun show_manifest_error :: "manifest_error \<Rightarrow> rstring" where
  "show_manifest_error (Empty_Field field) = lit ''plugin manifest '' @ field @ lit '' cannot be empty''"
| "show_manifest_error (Empty_Entry_Field kind field name) =
     (case name of
        Some n \<Rightarrow>
          if n \<noteq> [] then lit ''plugin '' @ kind @ [c_space] @ back_quoted n @ [c_space] @ field @ lit '' cannot be empty''
          else lit ''plugin '' @ kind @ [c_space] @ field @ lit '' cannot be empty''
      | None \<Rightarrow> lit ''plugin '' @ kind @ [c_space] @ field @ lit '' cannot be empty'')"
| "show_manifest_error (Invalid_Permission p) =
     lit ''plugin manifest permission '' @ back_quoted p @ lit '' must be one of read, write, or execute''"
| "show_manifest_error (Duplicate_Permission p) = lit ''plugin manifest permission '' @ back_quoted p @ lit '' is duplicated''"
| "show_manifest_error (Duplicate_Entry kind name) = lit ''plugin '' @ kind @ [c_space] @ back_quoted name @ lit '' is duplicated''"
| "show_manifest_error (Missing_Path kind p) = kind @ lit '' path '' @ back_quoted p @ lit '' does not exist''"
| "show_manifest_error (Path_Is_Directory kind p) = kind @ lit '' path '' @ back_quoted p @ lit '' must point to a file''"
| "show_manifest_error (Invalid_Tool_Schema t) = lit ''plugin tool '' @ back_quoted t @ lit '' inputSchema must be a JSON object''"
| "show_manifest_error (Invalid_Tool_Permission t p) = lit ''plugin tool '' @ back_quoted t @ lit '' requiredPermission '' @ back_quoted p @
     lit '' must be read-only, workspace-write, or danger-full-access''"

datatype plugin_error =
    Plugin_Io rstring
  | Plugin_Json rstring
  | Plugin_ManifestValidation "manifest_error list"
  | Plugin_LoadFailures "load_failure list"
  | Plugin_InvalidManifest rstring
  | Plugin_NotFound rstring
  | Plugin_CommandFailed rstring
and load_failure = Load_Failure (failed_root: rstring) (failed_kind: plugin_kind) (failed_source: rstring) (failed_error: plugin_error)

fun show_plugin_error :: "plugin_error \<Rightarrow> rstring" and show_load_failure :: "load_failure \<Rightarrow> rstring" where
  "show_plugin_error (Plugin_Io e) = e"
| "show_plugin_error (Plugin_Json e) = e"
| "show_plugin_error (Plugin_ManifestValidation es) = join (lit ''; '') (map show_manifest_error es)"
| "show_plugin_error (Plugin_LoadFailures fs) = join (lit ''; '') (map show_load_failure fs)"
| "show_plugin_error (Plugin_InvalidManifest m) = m"
| "show_plugin_error (Plugin_NotFound m) = m"
| "show_plugin_error (Plugin_CommandFailed m) = m"
| "show_load_failure (Load_Failure root kind source e) =
     lit ''failed to load '' @ show_plugin_kind kind @ lit '' plugin from '' @ back_quoted root @ lit '' (source: '' @ source @ lit ''): '' @
     show_plugin_error e"

section \<open>Validation of a manifest\<close>

datatype file_kind = No_File | Plain_File | Directory

definition is_absolute :: "rstring \<Rightarrow> bool" where
  "is_absolute p \<longleftrightarrow> starts_with p [c_slash]"

definition is_literal_command :: "rstring \<Rightarrow> bool" where
  "is_literal_command entry \<longleftrightarrow>
     \<not> starts_with entry (lit ''./'') \<and> \<not> starts_with entry (lit ''../'') \<and> \<not> is_absolute entry"

definition required_field :: "string \<Rightarrow> rstring \<Rightarrow> manifest_error list" where
  "required_field field v = (if trim v = [] then [Empty_Field (lit field)] else [])"

definition validate_command_entry :: "(rstring \<Rightarrow> file_kind) \<Rightarrow> rstring \<Rightarrow> string \<Rightarrow> rstring \<Rightarrow> manifest_error list" where
  "validate_command_entry fs root kind entry =
     (if trim entry = [] then [Empty_Entry_Field (lit kind) (lit ''command'') None]
      else if is_literal_command entry then []
      else let p = (if is_absolute entry then entry else path_join root entry)
           in case fs p of
                No_File \<Rightarrow> [Missing_Path (lit kind) p]
              | Directory \<Rightarrow> [Path_Is_Directory (lit kind) p]
              | Plain_File \<Rightarrow> [])"

definition validate_command_entries :: "(rstring \<Rightarrow> file_kind) \<Rightarrow> rstring \<Rightarrow> string \<Rightarrow> rstring list \<Rightarrow> manifest_error list" where
  "validate_command_entries fs root kind entries = concat (map (validate_command_entry fs root kind) entries)"

text \<open>The loops below give the errors and the validated entries; the set holds the names seen so far.\<close>

fun build_manifest_permissions :: "rstring set \<Rightarrow> rstring list \<Rightarrow> manifest_error list \<times> plugin_permission list" where
  "build_manifest_permissions seen [] = ([], [])"
| "build_manifest_permissions seen (p # ps) =
     (let v = trim p
      in if v = [] then
           apfst ((#) (Empty_Entry_Field (lit ''permission'') (lit ''value'') None)) (build_manifest_permissions seen ps)
         else if v \<in> seen then apfst ((#) (Duplicate_Permission v)) (build_manifest_permissions seen ps)
         else case parse_plugin_permission v of
             Some perm \<Rightarrow> apsnd ((#) perm) (build_manifest_permissions (insert v seen) ps)
           | None \<Rightarrow> apfst ((#) (Invalid_Permission v)) (build_manifest_permissions (insert v seen) ps))"

text \<open>The errors of an entry apart from its name.\<close>

definition entry_errors :: "(rstring \<Rightarrow> file_kind) \<Rightarrow> rstring \<Rightarrow> string \<Rightarrow> rstring \<Rightarrow> rstring \<Rightarrow> rstring \<Rightarrow> manifest_error list" where
  "entry_errors fs root kind name description command =
     (if trim description = [] then [Empty_Entry_Field (lit kind) (lit ''description'') (Some name)] else []) @
     (if trim command = [] then [Empty_Entry_Field (lit kind) (lit ''command'') (Some name)]
      else validate_command_entry fs root kind command)"

fun value_is_object :: "serde_value \<Rightarrow> bool" where
  "value_is_object (SObject _) \<longleftrightarrow> True"
| "value_is_object _ \<longleftrightarrow> False"

fun build_manifest_tools ::
    "(rstring \<Rightarrow> file_kind) \<Rightarrow> rstring \<Rightarrow> rstring set \<Rightarrow> raw_tool_manifest list \<Rightarrow> manifest_error list \<times> tool_manifest list" where
  "build_manifest_tools fs root seen [] = ([], [])"
| "build_manifest_tools fs root seen (t # ts) =
     (let name = trim (rt_name t)
      in if name = [] then
           apfst ((#) (Empty_Entry_Field (lit ''tool'') (lit ''name'') None)) (build_manifest_tools fs root seen ts)
         else if name \<in> seen then
           apfst ((#) (Duplicate_Entry (lit ''tool'') name)) (build_manifest_tools fs root seen ts)
         else
           let errors = entry_errors fs root ''tool'' name (rt_description t) (rt_command t) @
                 (if value_is_object (rt_schema t) then [] else [Invalid_Tool_Schema name]);
               rest = build_manifest_tools fs root (insert name seen) ts
           in case parse_tool_permission (trim (rt_permission t)) of
                None \<Rightarrow> apfst ((@) (errors @ [Invalid_Tool_Permission name (trim (rt_permission t))])) rest
              | Some perm \<Rightarrow>
                  (errors @ fst rest,
                   \<lparr>tm_name = name, tm_description = rt_description t, tm_schema = rt_schema t, tm_command = rt_command t,
                    tm_args = rt_args t, tm_permission = perm\<rparr> # snd rest))"

fun build_manifest_commands ::
    "(rstring \<Rightarrow> file_kind) \<Rightarrow> rstring \<Rightarrow> rstring set \<Rightarrow> command_manifest list \<Rightarrow> manifest_error list \<times> command_manifest list" where
  "build_manifest_commands fs root seen [] = ([], [])"
| "build_manifest_commands fs root seen (c # cs) =
     (let name = trim (cm_name c)
      in if name = [] then
           apfst ((#) (Empty_Entry_Field (lit ''command'') (lit ''name'') None)) (build_manifest_commands fs root seen cs)
         else if name \<in> seen then
           apfst ((#) (Duplicate_Entry (lit ''command'') name)) (build_manifest_commands fs root seen cs)
         else
           let rest = build_manifest_commands fs root (insert name seen) cs
           in (entry_errors fs root ''command'' name (cm_description c) (cm_command c) @ fst rest, c # snd rest))"

definition build_plugin_manifest :: "(rstring \<Rightarrow> file_kind) \<Rightarrow> rstring \<Rightarrow> raw_plugin_manifest \<Rightarrow> plugin_error + plugin_manifest" where
  "build_plugin_manifest fs root raw =
     (let permissions = build_manifest_permissions {} (rp_permissions raw);
          tools = build_manifest_tools fs root {} (rp_tools raw);
          commands = build_manifest_commands fs root {} (rp_commands raw);
          errors = required_field ''name'' (rp_name raw) @ required_field ''version'' (rp_version raw) @
            required_field ''description'' (rp_description raw) @ fst permissions @
            validate_command_entries fs root ''hook'' (ph_pre (rp_hooks raw)) @
            validate_command_entries fs root ''hook'' (ph_post (rp_hooks raw)) @
            validate_command_entries fs root ''hook'' (ph_failure (rp_hooks raw)) @
            validate_command_entries fs root ''lifecycle command'' (pl_init (rp_lifecycle raw)) @
            validate_command_entries fs root ''lifecycle command'' (pl_shutdown (rp_lifecycle raw)) @
            fst tools @ fst commands
      in if errors \<noteq> [] then Inl (Plugin_ManifestValidation errors)
         else Inr \<lparr>mf_name = rp_name raw, mf_version = rp_version raw, mf_description = rp_description raw,
           mf_permissions = snd permissions, mf_default_enabled = rp_default_enabled raw, mf_hooks = rp_hooks raw,
           mf_lifecycle = rp_lifecycle raw, mf_tools = snd tools, mf_commands = snd commands\<rparr>)"

section \<open>Loading\<close>

definition resolve_hook_entry :: "rstring \<Rightarrow> rstring \<Rightarrow> rstring" where
  "resolve_hook_entry root entry = (if is_literal_command entry then entry else path_join root entry)"

definition resolve_hooks :: "rstring \<Rightarrow> plugin_hooks \<Rightarrow> plugin_hooks" where
  "resolve_hooks root h = \<lparr>ph_pre = map (resolve_hook_entry root) (ph_pre h), ph_post = map (resolve_hook_entry root) (ph_post h),
     ph_failure = map (resolve_hook_entry root) (ph_failure h)\<rparr>"

definition resolve_lifecycle :: "rstring \<Rightarrow> plugin_lifecycle \<Rightarrow> plugin_lifecycle" where
  "resolve_lifecycle root l = \<lparr>pl_init = map (resolve_hook_entry root) (pl_init l),
     pl_shutdown = map (resolve_hook_entry root) (pl_shutdown l)\<rparr>"

record loaded_tool =
  lt_plugin_id :: rstring
  lt_plugin_name :: rstring
  lt_definition :: plugin_tool
  lt_command :: rstring
  lt_args :: "rstring list"
  lt_root :: "rstring option"

text \<open>The definition of a tool, and the permission that it asks for, are what the registry of tools is given.\<close>

definition resolve_tools :: "rstring \<Rightarrow> rstring \<Rightarrow> rstring \<Rightarrow> tool_manifest list \<Rightarrow> loaded_tool list" where
  "resolve_tools root plugin_id plugin_name tools = map (\<lambda>t.
     \<lparr>lt_plugin_id = plugin_id, lt_plugin_name = plugin_name,
      lt_definition = \<lparr>plugin_tool_name = tm_name t, plugin_tool_description = Some (tm_description t),
        plugin_tool_schema = tm_schema t, plugin_tool_permission = tool_permission_as_str (tm_permission t)\<rparr>,
      lt_command = resolve_hook_entry root (tm_command t), lt_args = tm_args t, lt_root = Some root\<rparr>) tools"

definition plugin_id :: "rstring \<Rightarrow> rstring \<Rightarrow> rstring" where
  "plugin_id name market = name @ [64] @ market"

definition sanitize_plugin_id :: "rstring \<Rightarrow> rstring" where
  "sanitize_plugin_id i = map (\<lambda>c. if c = c_slash \<or> c = c_backslash \<or> c = 64 \<or> c = c_colon then c_minus else c) i"

record plugin_parts =
  pp_metadata :: plugin_metadata
  pp_hooks :: plugin_hooks
  pp_lifecycle :: plugin_lifecycle
  pp_tools :: "loaded_tool list"

datatype plugin_definition =
    Def_Builtin (parts: plugin_parts) | Def_Bundled (parts: plugin_parts) | Def_External (parts: plugin_parts)

abbreviation metadata :: "plugin_definition \<Rightarrow> plugin_metadata" where
  "metadata d \<equiv> pp_metadata (parts d)"

record manifest_reader =
  path_kind :: "rstring \<Rightarrow> file_kind"
  read_text :: "rstring \<Rightarrow> rstring + rstring"
  parse_manifest :: "rstring \<Rightarrow> rstring + raw_plugin_manifest"

definition plugin_manifest_path :: "(rstring \<Rightarrow> file_kind) \<Rightarrow> rstring \<Rightarrow> plugin_error + rstring" where
  "plugin_manifest_path fs root =
     (let direct = path_join root (lit ''plugin.json''); packaged = path_join root (lit ''.claude-plugin/plugin.json'')
      in if fs direct \<noteq> No_File then Inr direct
         else if fs packaged \<noteq> No_File then Inr packaged
         else Inl (Plugin_NotFound (lit ''plugin manifest not found at '' @ direct @ lit '' or '' @ packaged)))"

definition load_manifest_from_path :: "manifest_reader \<Rightarrow> rstring \<Rightarrow> rstring \<Rightarrow> plugin_error + plugin_manifest" where
  "load_manifest_from_path rd root p =
     rbind (map_sum (\<lambda>e. Plugin_NotFound (lit ''plugin manifest not found at '' @ p @ lit '': '' @ e)) id (read_text rd p)) (\<lambda>contents.
     rbind (map_sum Plugin_Json id (parse_manifest rd contents)) (build_plugin_manifest (path_kind rd) root))"

definition load_plugin_from_directory :: "manifest_reader \<Rightarrow> rstring \<Rightarrow> plugin_error + plugin_manifest" where
  "load_plugin_from_directory rd root = rbind (plugin_manifest_path (path_kind rd) root) (load_manifest_from_path rd root)"

definition define_plugin :: "rstring \<Rightarrow> plugin_kind \<Rightarrow> rstring \<Rightarrow> rstring \<Rightarrow> plugin_manifest \<Rightarrow> plugin_definition" where
  "define_plugin root kind source market m =
     (let i = plugin_id (mf_name m) market;
          p = \<lparr>pp_metadata = \<lparr>pm_id = i, pm_name = mf_name m, pm_version = mf_version m, pm_description = mf_description m,
                 pm_kind = kind, pm_source = source, pm_default_enabled = mf_default_enabled m, pm_root = Some root\<rparr>,
               pp_hooks = resolve_hooks root (mf_hooks m), pp_lifecycle = resolve_lifecycle root (mf_lifecycle m),
               pp_tools = resolve_tools root i (mf_name m) (mf_tools m)\<rparr>
      in case kind of
           Plugin_Builtin \<Rightarrow> Def_Builtin p
         | Plugin_Bundled \<Rightarrow> Def_Bundled p
         | Plugin_External \<Rightarrow> Def_External p)"

definition load_plugin_definition ::
    "manifest_reader \<Rightarrow> rstring \<Rightarrow> plugin_kind \<Rightarrow> rstring \<Rightarrow> rstring \<Rightarrow> plugin_error + plugin_definition" where
  "load_plugin_definition rd root kind source market =
     rbind (load_plugin_from_directory rd root) (\<lambda>m. Inr (define_plugin root kind source market m))"

definition validate_command_path :: "(rstring \<Rightarrow> file_kind) \<Rightarrow> rstring \<Rightarrow> string \<Rightarrow> rstring \<Rightarrow> plugin_error + unit" where
  "validate_command_path fs root kind entry =
     (if is_literal_command entry then Inr ()
      else let p = (if is_absolute entry then entry else path_join root entry)
           in case fs p of
                No_File \<Rightarrow> Inl (Plugin_InvalidManifest (lit kind @ lit '' path '' @ back_quoted p @ lit '' does not exist''))
              | Directory \<Rightarrow> Inl (Plugin_InvalidManifest (lit kind @ lit '' path '' @ back_quoted p @ lit '' must point to a file''))
              | Plain_File \<Rightarrow> Inr ())"

fun validate_path_list :: "(rstring \<Rightarrow> file_kind) \<Rightarrow> rstring \<Rightarrow> string \<Rightarrow> rstring list \<Rightarrow> plugin_error + unit" where
  "validate_path_list fs root kind [] = Inr ()"
| "validate_path_list fs root kind (e # es) = rbind (validate_command_path fs root kind e) (\<lambda>_. validate_path_list fs root kind es)"

definition validate_plugin :: "(rstring \<Rightarrow> file_kind) \<Rightarrow> plugin_definition \<Rightarrow> plugin_error + unit" where
  "validate_plugin fs d = (case d of
     Def_Builtin _ \<Rightarrow> Inr ()
   | _ \<Rightarrow> (case pm_root (metadata d) of
       None \<Rightarrow> Inr ()
     | Some root \<Rightarrow>
         let h = pp_hooks (parts d); l = pp_lifecycle (parts d)
         in rbind (validate_path_list fs root ''hook'' (ph_pre h @ ph_post h @ ph_failure h)) (\<lambda>_.
            rbind (validate_path_list fs root ''lifecycle command'' (pl_init l @ pl_shutdown l)) (\<lambda>_.
            validate_path_list fs root ''tool'' (map lt_command (pp_tools (parts d)))))))"

section \<open>The lifecycle\<close>

text \<open>
  A command that names something that exists is run as a script, any other as the text of a command; the exit of the
  process has its success, what it wrote to the error stream and the text of its status.
\<close>

record command_exit =
  exit_success :: bool
  exit_stderr :: rstring
  exit_status :: rstring

type_synonym 'w runner = "rstring option \<Rightarrow> bool \<Rightarrow> rstring \<Rightarrow> 'w \<Rightarrow> (rstring + command_exit) \<times> 'w"

fun run_phase_commands ::
    "(rstring \<Rightarrow> file_kind) \<Rightarrow> 'w runner \<Rightarrow> plugin_metadata \<Rightarrow> rstring \<Rightarrow> rstring list \<Rightarrow> 'w \<Rightarrow> (plugin_error + unit) \<times> 'w" where
  "run_phase_commands fs run m phase [] w = (Inr (), w)"
| "run_phase_commands fs run m phase (c # cs) w = (case run (pm_root m) (fs c \<noteq> No_File) c w of
     (Inl e, w) \<Rightarrow> (Inl (Plugin_Io e), w)
   | (Inr out, w) \<Rightarrow>
       if exit_success out then run_phase_commands fs run m phase cs w
       else let err = trim (exit_stderr out)
            in (Inl (Plugin_CommandFailed (lit ''plugin '' @ back_quoted (pm_id m) @ [c_space] @ phase @ lit '' failed for '' @
                  back_quoted c @ lit '': '' @ (if err = [] then lit ''exit status '' @ exit_status out else err))), w))"

definition run_lifecycle_commands ::
    "(rstring \<Rightarrow> file_kind) \<Rightarrow> 'w runner \<Rightarrow> plugin_metadata \<Rightarrow> plugin_lifecycle \<Rightarrow> rstring \<Rightarrow> rstring list \<Rightarrow> 'w \<Rightarrow>
     (plugin_error + unit) \<times> 'w" where
  "run_lifecycle_commands fs run m l phase commands w =
     (if lifecycle_is_empty l \<or> commands = [] then (Inr (), w) else run_phase_commands fs run m phase commands w)"

fun initialize_plugin :: "(rstring \<Rightarrow> file_kind) \<Rightarrow> 'w runner \<Rightarrow> plugin_definition \<Rightarrow> 'w \<Rightarrow> (plugin_error + unit) \<times> 'w" where
  "initialize_plugin fs run (Def_Builtin p) w = (Inr (), w)"
| "initialize_plugin fs run d w =
     run_lifecycle_commands fs run (metadata d) (pp_lifecycle (parts d)) (lit ''init'') (pl_init (pp_lifecycle (parts d))) w"

fun shutdown_plugin :: "(rstring \<Rightarrow> file_kind) \<Rightarrow> 'w runner \<Rightarrow> plugin_definition \<Rightarrow> 'w \<Rightarrow> (plugin_error + unit) \<times> 'w" where
  "shutdown_plugin fs run (Def_Builtin p) w = (Inr (), w)"
| "shutdown_plugin fs run d w =
     run_lifecycle_commands fs run (metadata d) (pp_lifecycle (parts d)) (lit ''shutdown'') (pl_shutdown (pp_lifecycle (parts d))) w"

section \<open>The registry of plugins\<close>

record registered_plugin =
  reg_definition :: plugin_definition
  reg_enabled :: bool

abbreviation "reg_id p \<equiv> pm_id (metadata (reg_definition p))"

definition plugin_registry_new :: "registered_plugin list \<Rightarrow> registered_plugin list" where
  "plugin_registry_new plugins = sort_key (\<lambda>p. reg_id p) plugins"

definition plugin_registry_get :: "registered_plugin list \<Rightarrow> rstring \<Rightarrow> registered_plugin option" where
  "plugin_registry_get plugins i = find (\<lambda>p. reg_id p = i) plugins"

fun aggregate_hooks :: "(rstring \<Rightarrow> file_kind) \<Rightarrow> plugin_hooks \<Rightarrow> registered_plugin list \<Rightarrow> plugin_error + plugin_hooks" where
  "aggregate_hooks fs acc [] = Inr acc"
| "aggregate_hooks fs acc (p # ps) =
     (if reg_enabled p then
        rbind (validate_plugin fs (reg_definition p))
          (\<lambda>_. aggregate_hooks fs (merged_with acc (pp_hooks (parts (reg_definition p)))) ps)
      else aggregate_hooks fs acc ps)"

definition aggregated_hooks :: "(rstring \<Rightarrow> file_kind) \<Rightarrow> registered_plugin list \<Rightarrow> plugin_error + plugin_hooks" where
  "aggregated_hooks fs plugins = aggregate_hooks fs no_plugin_hooks plugins"

text \<open>The map holds the names that are taken, with the plugins that took them.\<close>

fun take_tools :: "(rstring \<rightharpoonup> rstring) \<Rightarrow> loaded_tool list \<Rightarrow> plugin_error + (rstring \<rightharpoonup> rstring)" where
  "take_tools seen [] = Inr seen"
| "take_tools seen (t # ts) =
     (let name = plugin_tool_name (lt_definition t)
      in case seen name of
           Some other \<Rightarrow> Inl (Plugin_InvalidManifest (lit ''plugin tool '' @ back_quoted name @ lit '' is defined by both '' @
             back_quoted other @ lit '' and '' @ back_quoted (lt_plugin_id t)))
         | None \<Rightarrow> take_tools (seen(name \<mapsto> lt_plugin_id t)) ts)"

fun aggregate_tools ::
    "(rstring \<Rightarrow> file_kind) \<Rightarrow> (rstring \<rightharpoonup> rstring) \<Rightarrow> registered_plugin list \<Rightarrow> plugin_error + loaded_tool list" where
  "aggregate_tools fs seen [] = Inr []"
| "aggregate_tools fs seen (p # ps) =
     (if reg_enabled p then
        rbind (validate_plugin fs (reg_definition p)) (\<lambda>_.
        rbind (take_tools seen (pp_tools (parts (reg_definition p)))) (\<lambda>seen.
        map_sum id ((@) (pp_tools (parts (reg_definition p)))) (aggregate_tools fs seen ps)))
      else aggregate_tools fs seen ps)"

definition aggregated_tools :: "(rstring \<Rightarrow> file_kind) \<Rightarrow> registered_plugin list \<Rightarrow> plugin_error + loaded_tool list" where
  "aggregated_tools fs plugins = aggregate_tools fs Map.empty plugins"

fun initialize_all :: "(rstring \<Rightarrow> file_kind) \<Rightarrow> 'w runner \<Rightarrow> registered_plugin list \<Rightarrow> 'w \<Rightarrow> (plugin_error + unit) \<times> 'w" where
  "initialize_all fs run [] w = (Inr (), w)"
| "initialize_all fs run (p # ps) w =
     (if reg_enabled p then
        (case validate_plugin fs (reg_definition p) of
           Inl e \<Rightarrow> (Inl e, w)
         | Inr _ \<Rightarrow> (case initialize_plugin fs run (reg_definition p) w of
             (Inl e, w) \<Rightarrow> (Inl e, w)
           | (Inr _, w) \<Rightarrow> initialize_all fs run ps w))
      else initialize_all fs run ps w)"

fun shutdown_each :: "(rstring \<Rightarrow> file_kind) \<Rightarrow> 'w runner \<Rightarrow> registered_plugin list \<Rightarrow> 'w \<Rightarrow> (plugin_error + unit) \<times> 'w" where
  "shutdown_each fs run [] w = (Inr (), w)"
| "shutdown_each fs run (p # ps) w =
     (if reg_enabled p then
        (case shutdown_plugin fs run (reg_definition p) w of
           (Inl e, w) \<Rightarrow> (Inl e, w)
         | (Inr _, w) \<Rightarrow> shutdown_each fs run ps w)
      else shutdown_each fs run ps w)"

definition shutdown_all :: "(rstring \<Rightarrow> file_kind) \<Rightarrow> 'w runner \<Rightarrow> registered_plugin list \<Rightarrow> 'w \<Rightarrow> (plugin_error + unit) \<times> 'w" where
  "shutdown_all fs run plugins w = shutdown_each fs run (rev plugins) w"

section \<open>The manifests that are accepted\<close>

definition entry_ok :: "(rstring \<Rightarrow> file_kind) \<Rightarrow> rstring \<Rightarrow> rstring \<Rightarrow> bool" where
  "entry_ok fs root entry \<longleftrightarrow> trim entry \<noteq> [] \<and>
     (is_literal_command entry \<or> fs (if is_absolute entry then entry else path_join root entry) = Plain_File)"

definition permissions_ok :: "rstring list \<Rightarrow> bool" where
  "permissions_ok ps \<longleftrightarrow> distinct (map trim ps) \<and> list_all (\<lambda>p. parse_plugin_permission (trim p) \<noteq> None) ps"

definition raw_tool_ok :: "(rstring \<Rightarrow> file_kind) \<Rightarrow> rstring \<Rightarrow> raw_tool_manifest \<Rightarrow> bool" where
  "raw_tool_ok fs root t \<longleftrightarrow> trim (rt_name t) \<noteq> [] \<and> trim (rt_description t) \<noteq> [] \<and> entry_ok fs root (rt_command t) \<and>
     value_is_object (rt_schema t) \<and> parse_tool_permission (trim (rt_permission t)) \<noteq> None"

definition raw_command_ok :: "(rstring \<Rightarrow> file_kind) \<Rightarrow> rstring \<Rightarrow> command_manifest \<Rightarrow> bool" where
  "raw_command_ok fs root c \<longleftrightarrow> trim (cm_name c) \<noteq> [] \<and> trim (cm_description c) \<noteq> [] \<and> entry_ok fs root (cm_command c)"

text \<open>What a manifest has to be, stated without an order of checks.\<close>

definition manifest_ok :: "(rstring \<Rightarrow> file_kind) \<Rightarrow> rstring \<Rightarrow> raw_plugin_manifest \<Rightarrow> bool" where
  "manifest_ok fs root raw \<longleftrightarrow>
     trim (rp_name raw) \<noteq> [] \<and> trim (rp_version raw) \<noteq> [] \<and> trim (rp_description raw) \<noteq> [] \<and>
     permissions_ok (rp_permissions raw) \<and>
     list_all (entry_ok fs root) (ph_pre (rp_hooks raw) @ ph_post (rp_hooks raw) @ ph_failure (rp_hooks raw) @
       pl_init (rp_lifecycle raw) @ pl_shutdown (rp_lifecycle raw)) \<and>
     list_all (raw_tool_ok fs root) (rp_tools raw) \<and> distinct (map (\<lambda>t. trim (rt_name t)) (rp_tools raw)) \<and>
     list_all (raw_command_ok fs root) (rp_commands raw) \<and> distinct (map (\<lambda>c. trim (cm_name c)) (rp_commands raw))"

definition tool_manifest_of :: "raw_tool_manifest \<Rightarrow> tool_manifest" where
  "tool_manifest_of t = \<lparr>tm_name = trim (rt_name t), tm_description = rt_description t, tm_schema = rt_schema t,
     tm_command = rt_command t, tm_args = rt_args t, tm_permission = the (parse_tool_permission (trim (rt_permission t)))\<rparr>"

definition manifest_of :: "raw_plugin_manifest \<Rightarrow> plugin_manifest" where
  "manifest_of raw = \<lparr>mf_name = rp_name raw, mf_version = rp_version raw, mf_description = rp_description raw,
     mf_permissions = map (\<lambda>p. the (parse_plugin_permission (trim p))) (rp_permissions raw),
     mf_default_enabled = rp_default_enabled raw, mf_hooks = rp_hooks raw, mf_lifecycle = rp_lifecycle raw,
     mf_tools = map tool_manifest_of (rp_tools raw), mf_commands = rp_commands raw\<rparr>"

lemma validate_entry: "validate_command_entry fs root kind entry = [] \<longleftrightarrow> entry_ok fs root entry"
  by (auto simp: validate_command_entry_def entry_ok_def Let_def split: file_kind.split)

lemma validate_entries: "validate_command_entries fs root kind es = [] \<longleftrightarrow> list_all (entry_ok fs root) es"
  by (auto simp: validate_command_entries_def validate_entry list_all_iff)

lemma entry_errors_none:
  "entry_errors fs root kind name d c = [] \<longleftrightarrow> trim d \<noteq> [] \<and> entry_ok fs root c"
  by (auto simp: entry_errors_def validate_entry entry_ok_def)

lemma parse_permission_Nil: "parse_plugin_permission [] = None" "parse_tool_permission [] = None"
  by (simp_all add: parse_plugin_permission_def parse_tool_permission_def)

lemma permissions_accepted:
  "fst (build_manifest_permissions seen ps) = [] \<longleftrightarrow> permissions_ok ps \<and> trim ` set ps \<inter> seen = {}"
proof (induction ps arbitrary: seen)
  case (Cons p ps)
  show ?case
  proof (cases "trim p = [] \<or> trim p \<in> seen \<or> parse_plugin_permission (trim p) = None")
    case True
    then show ?thesis
      by (auto simp: Let_def permissions_ok_def parse_permission_Nil split: option.split)
  next
    case False
    then obtain v where "parse_plugin_permission (trim p) = Some v" by auto
    then show ?thesis using False Cons [of "insert (trim p) seen"] by (auto simp: Let_def permissions_ok_def)
  qed
qed (simp add: permissions_ok_def)

lemma permissions_result:
  "fst (build_manifest_permissions seen ps) = [] \<Longrightarrow>
   snd (build_manifest_permissions seen ps) = map (\<lambda>p. the (parse_plugin_permission (trim p))) ps"
  by (induction seen ps rule: build_manifest_permissions.induct) (auto simp: Let_def split: if_splits option.splits)

lemma tools_accepted:
  "fst (build_manifest_tools fs root seen ts) = [] \<longleftrightarrow>
   list_all (raw_tool_ok fs root) ts \<and> distinct (map (\<lambda>t. trim (rt_name t)) ts) \<and> (\<lambda>t. trim (rt_name t)) ` set ts \<inter> seen = {}"
proof (induction ts arbitrary: seen)
  case (Cons t ts)
  show ?case
  proof (cases "trim (rt_name t) = [] \<or> trim (rt_name t) \<in> seen")
    case True
    then show ?thesis by (auto simp: Let_def raw_tool_ok_def)
  next
    case False
    show ?thesis
    proof (cases "parse_tool_permission (trim (rt_permission t))")
      case None
      then show ?thesis using False by (simp add: Let_def raw_tool_ok_def)
    next
      case (Some v)
      then show ?thesis using False Cons [of "insert (trim (rt_name t)) seen"]
        by (auto simp: Let_def raw_tool_ok_def entry_errors_none)
    qed
  qed
qed simp

lemma tools_result:
  "fst (build_manifest_tools fs root seen ts) = [] \<Longrightarrow> snd (build_manifest_tools fs root seen ts) = map tool_manifest_of ts"
  by (induction fs root seen ts rule: build_manifest_tools.induct)
    (auto simp: Let_def tool_manifest_of_def split: if_splits option.splits)

lemma commands_accepted:
  "fst (build_manifest_commands fs root seen cs) = [] \<longleftrightarrow>
   list_all (raw_command_ok fs root) cs \<and> distinct (map (\<lambda>c. trim (cm_name c)) cs) \<and> (\<lambda>c. trim (cm_name c)) ` set cs \<inter> seen = {}"
proof (induction cs arbitrary: seen)
  case (Cons c cs)
  then show ?case
    using Cons [of "insert (trim (cm_name c)) seen"] by (auto simp: Let_def raw_command_ok_def entry_errors_none)
qed simp

lemma commands_result:
  "fst (build_manifest_commands fs root seen cs) = [] \<Longrightarrow> snd (build_manifest_commands fs root seen cs) = cs"
  by (induction fs root seen cs rule: build_manifest_commands.induct) (auto simp: Let_def split: if_splits)

text \<open>
  C23: A manifest is accepted exactly when it is what the declarative specification asks for, and the result is then the
  manifest with its names trimmed and its permissions read.
\<close>

theorem manifest_accepted:
  "build_plugin_manifest fs root raw = Inr m \<longleftrightarrow> manifest_ok fs root raw \<and> m = manifest_of raw"
proof -
  let ?p = "build_manifest_permissions {} (rp_permissions raw)" and ?t = "build_manifest_tools fs root {} (rp_tools raw)"
  let ?c = "build_manifest_commands fs root {} (rp_commands raw)"
  let ?v = "validate_command_entries fs root"
  let ?errors = "required_field ''name'' (rp_name raw) @ required_field ''version'' (rp_version raw) @
    required_field ''description'' (rp_description raw) @ fst ?p @ ?v ''hook'' (ph_pre (rp_hooks raw)) @
    ?v ''hook'' (ph_post (rp_hooks raw)) @ ?v ''hook'' (ph_failure (rp_hooks raw)) @
    ?v ''lifecycle command'' (pl_init (rp_lifecycle raw)) @ ?v ''lifecycle command'' (pl_shutdown (rp_lifecycle raw)) @ fst ?t @ fst ?c"
  have none: "?errors = [] \<longleftrightarrow> manifest_ok fs root raw"
    by (simp add: required_field_def validate_entries permissions_accepted tools_accepted commands_accepted manifest_ok_def)
  have made: "snd ?p = map (\<lambda>p. the (parse_plugin_permission (trim p))) (rp_permissions raw)"
    "snd ?t = map tool_manifest_of (rp_tools raw)" "snd ?c = rp_commands raw" if "?errors = []"
    using that permissions_result [of "{}"] tools_result [of fs root "{}"] commands_result [of fs root "{}"] by simp_all
  show ?thesis
  proof (cases "?errors = []")
    case True
    then show ?thesis using none made [OF True] by (auto simp: build_plugin_manifest_def Let_def manifest_of_def)
  next
    case False
    then have "build_plugin_manifest fs root raw = Inl (Plugin_ManifestValidation ?errors)"
      unfolding build_plugin_manifest_def Let_def by (rule if_P)
    then show ?thesis using False none by (simp only: sum.distinct) simp
  qed
qed

section \<open>Tools of the enabled plugins\<close>

definition enabled_tools :: "registered_plugin list \<Rightarrow> loaded_tool list" where
  "enabled_tools ps = concat (map (\<lambda>p. pp_tools (parts (reg_definition p))) (filter reg_enabled ps))"

abbreviation "tool_name t \<equiv> plugin_tool_name (lt_definition t)"

lemma take_tools_ok:
  "(\<exists>taken. take_tools seen ts = Inr taken) \<longleftrightarrow> distinct (map tool_name ts) \<and> tool_name ` set ts \<inter> dom seen = {}"
proof (induction ts arbitrary: seen)
  case (Cons t ts)
  show ?case
  proof (cases "seen (tool_name t)")
    case None
    then have "take_tools seen (t # ts) = take_tools (seen(tool_name t \<mapsto> lt_plugin_id t)) ts" by (simp add: Let_def)
    moreover have "dom (seen(tool_name t \<mapsto> lt_plugin_id t)) = insert (tool_name t) (dom seen)" by simp
    ultimately show ?thesis using Cons [of "seen(tool_name t \<mapsto> lt_plugin_id t)"] None
      by (simp only: distinct.simps list.map list.set image_insert) auto
  qed (auto simp: Let_def)
qed auto

lemma take_tools_dom: "take_tools seen ts = Inr taken \<Longrightarrow> dom taken = dom seen \<union> tool_name ` set ts"
  by (induction seen ts rule: take_tools.induct) (auto simp: Let_def split: option.splits)

lemma aggregate_tools_Inr:
  "aggregate_tools fs seen ps = Inr ts \<longleftrightarrow>
   list_all (\<lambda>p. reg_enabled p \<longrightarrow> validate_plugin fs (reg_definition p) = Inr ()) ps \<and>
   distinct (map tool_name (enabled_tools ps)) \<and> tool_name ` set (enabled_tools ps) \<inter> dom seen = {} \<and> ts = enabled_tools ps"
proof (induction ps arbitrary: seen ts)
  case (Cons p ps)
  show ?case
  proof (cases "reg_enabled p \<and> validate_plugin fs (reg_definition p) = Inr ()")
    case False
    then show ?thesis using Cons
      by (cases "validate_plugin fs (reg_definition p)") (auto simp: enabled_tools_def)
  next
    case True
    let ?own = "pp_tools (parts (reg_definition p))"
    have split: "enabled_tools (p # ps) = ?own @ enabled_tools ps" using True by (simp add: enabled_tools_def)
    show ?thesis
    proof (cases "take_tools seen ?own")
      case (Inl e)
      then have clash: "\<not> (distinct (map tool_name ?own) \<and> tool_name ` set ?own \<inter> dom seen = {})"
        using take_tools_ok [of seen ?own] by auto
      then have "\<not> (distinct (map tool_name (enabled_tools (p # ps))) \<and> tool_name ` set (enabled_tools (p # ps)) \<inter> dom seen = {})"
        unfolding split by (auto simp: Int_Un_distrib2)
      moreover have "aggregate_tools fs seen (p # ps) \<noteq> Inr ts" using True Inl by simp
      ultimately show ?thesis by blast
    next
      case (Inr taken)
      have own: "distinct (map tool_name ?own)" "tool_name ` set ?own \<inter> dom seen = {}"
        using take_tools_ok [of seen ?own] Inr by auto
      have "aggregate_tools fs seen (p # ps) = Inr ts \<longleftrightarrow> (\<exists>us. aggregate_tools fs taken ps = Inr us \<and> ts = ?own @ us)"
        using True Inr by (cases "aggregate_tools fs taken ps") auto
      also have "\<dots> \<longleftrightarrow> list_all (\<lambda>p. reg_enabled p \<longrightarrow> validate_plugin fs (reg_definition p) = Inr ()) ps \<and>
          distinct (map tool_name (enabled_tools ps)) \<and>
          tool_name ` set (enabled_tools ps) \<inter> (dom seen \<union> tool_name ` set ?own) = {} \<and> ts = ?own @ enabled_tools ps"
        unfolding Cons take_tools_dom [OF Inr] by blast
      also have "\<dots> \<longleftrightarrow> list_all (\<lambda>p. reg_enabled p \<longrightarrow> validate_plugin fs (reg_definition p) = Inr ()) (p # ps) \<and>
          distinct (map tool_name (?own @ enabled_tools ps)) \<and>
          tool_name ` set (?own @ enabled_tools ps) \<inter> dom seen = {} \<and> ts = ?own @ enabled_tools ps"
        using own True by (simp add: Int_Un_distrib Int_Un_distrib2 image_Un Int_commute) metis
      finally show ?thesis unfolding split .
    qed
  qed
qed (auto simp: enabled_tools_def)

text \<open>
  The tools of a registry are collected exactly when every enabled plugin is valid and no two of their tools have the same
  name; they are then the tools of the enabled plugins, in the order of the plugins.  The registry of tools takes them
  unless one has the name of a built-in tool.
\<close>

theorem collected_tools:
  "(aggregated_tools fs ps = Inr ts \<longleftrightarrow>
      list_all (\<lambda>p. validate_plugin fs (reg_definition p) = Inr ()) (filter reg_enabled ps) \<and>
      distinct (map tool_name (enabled_tools ps)) \<and> ts = enabled_tools ps) \<and>
   ((\<exists>g. with_plugin_tools (map lt_definition (enabled_tools ps)) = Inr g) \<longleftrightarrow>
      distinct (map tool_name (enabled_tools ps)) \<and> tool_name ` set (enabled_tools ps) \<inter> set builtin_names = {})"
proof
  show "aggregated_tools fs ps = Inr ts \<longleftrightarrow>
      list_all (\<lambda>p. validate_plugin fs (reg_definition p) = Inr ()) (filter reg_enabled ps) \<and>
      distinct (map tool_name (enabled_tools ps)) \<and> ts = enabled_tools ps"
    unfolding aggregated_tools_def aggregate_tools_Inr by (auto simp: list_all_iff)
  show "(\<exists>g. with_plugin_tools (map lt_definition (enabled_tools ps)) = Inr g) \<longleftrightarrow>
      distinct (map tool_name (enabled_tools ps)) \<and> tool_name ` set (enabled_tools ps) \<inter> set builtin_names = {}"
    by (simp add: with_plugin_tools_Inr comp_def image_image)
qed

section \<open>The order of the lifecycle\<close>

text \<open>A runner that writes down what it runs; a command succeeds when \<open>ok\<close> says so.\<close>

definition logging :: "(rstring \<Rightarrow> bool) \<Rightarrow> (rstring option \<times> rstring) list runner" where
  "logging ok root script c log =
     (Inr \<lparr>exit_success = ok c, exit_stderr = [], exit_status = lit ''1''\<rparr>, log @ [(root, c)])"

text \<open>The commands up to the first that fails.\<close>

fun until_failure :: "(rstring \<Rightarrow> bool) \<Rightarrow> (rstring option \<times> rstring) list \<Rightarrow> (rstring option \<times> rstring) list" where
  "until_failure ok [] = []"
| "until_failure ok (c # cs) = (if ok (snd c) then c # until_failure ok cs else [c])"

definition lifecycle_commands :: "(plugin_lifecycle \<Rightarrow> rstring list) \<Rightarrow> registered_plugin \<Rightarrow> (rstring option \<times> rstring) list" where
  "lifecycle_commands sel p = (case reg_definition p of
     Def_Builtin _ \<Rightarrow> []
   | d \<Rightarrow> map (Pair (pm_root (metadata d))) (sel (pp_lifecycle (parts d))))"

lemma until_failure_append:
  "until_failure ok (a @ b) = (if list_all (ok \<circ> snd) a then a @ until_failure ok b else until_failure ok a)"
  by (induction a) auto

lemma until_failure_all: "list_all (ok \<circ> snd) a \<Longrightarrow> until_failure ok a = a"
  by (induction a) auto

lemma run_phase_commands_log:
  "snd (run_phase_commands fs (logging ok) m phase cs log) = log @ until_failure ok (map (Pair (pm_root m)) cs) \<and>
   (fst (run_phase_commands fs (logging ok) m phase cs log) = Inr () \<longleftrightarrow> list_all ok cs)"
  by (induction cs arbitrary: log) (auto simp: logging_def Let_def)

lemma lifecycle_log:
  "snd (run_lifecycle_commands fs (logging ok) m l phase cs log) =
     log @ (if lifecycle_is_empty l then [] else until_failure ok (map (Pair (pm_root m)) cs)) \<and>
   (fst (run_lifecycle_commands fs (logging ok) m l phase cs log) = Inr () \<longleftrightarrow> lifecycle_is_empty l \<or> list_all ok cs)"
  using run_phase_commands_log [of fs ok m phase cs log] by (auto simp: run_lifecycle_commands_def)

lemma shutdown_log:
  "snd (shutdown_plugin fs (logging ok) (reg_definition p) log) = log @ until_failure ok (lifecycle_commands pl_shutdown p) \<and>
   (fst (shutdown_plugin fs (logging ok) (reg_definition p) log) = Inr () \<longleftrightarrow>
    list_all (ok \<circ> snd) (lifecycle_commands pl_shutdown p))"
  using lifecycle_log [of fs ok]
  by (cases "reg_definition p") (auto simp: lifecycle_commands_def lifecycle_is_empty_def list_all_iff)

lemma initialize_log:
  "snd (initialize_plugin fs (logging ok) (reg_definition p) log) = log @ until_failure ok (lifecycle_commands pl_init p) \<and>
   (fst (initialize_plugin fs (logging ok) (reg_definition p) log) = Inr () \<longleftrightarrow>
    list_all (ok \<circ> snd) (lifecycle_commands pl_init p))"
  using lifecycle_log [of fs ok]
  by (cases "reg_definition p") (auto simp: lifecycle_commands_def lifecycle_is_empty_def list_all_iff)

lemma shutdown_each_log:
  "snd (shutdown_each fs (logging ok) ps log) =
     log @ until_failure ok (concat (map (lifecycle_commands pl_shutdown) (filter reg_enabled ps)))"
proof (induction ps arbitrary: log)
  case (Cons p ps)
  have step: "snd (shutdown_plugin fs (logging ok) (reg_definition p) log) = log @ until_failure ok (lifecycle_commands pl_shutdown p)"
    "fst (shutdown_plugin fs (logging ok) (reg_definition p) log) = Inr () \<longleftrightarrow>
      list_all (ok \<circ> snd) (lifecycle_commands pl_shutdown p)" using shutdown_log by blast+
  show ?case
  proof (cases "shutdown_plugin fs (logging ok) (reg_definition p) log")
    case (Pair r log')
    then show ?thesis using step Cons
      by (cases r) (auto simp: until_failure_append until_failure_all)
  qed
qed simp

lemma initialize_all_log:
  "snd (initialize_all fs (logging ok) ps log) = log @ until_failure ok (concat (map (lifecycle_commands pl_init)
     (takeWhile (\<lambda>p. validate_plugin fs (reg_definition p) = Inr ()) (filter reg_enabled ps))))"
proof (induction ps arbitrary: log)
  case (Cons p ps)
  have step: "snd (initialize_plugin fs (logging ok) (reg_definition p) log) = log @ until_failure ok (lifecycle_commands pl_init p)"
    "fst (initialize_plugin fs (logging ok) (reg_definition p) log) = Inr () \<longleftrightarrow>
      list_all (ok \<circ> snd) (lifecycle_commands pl_init p)" using initialize_log by blast+
  show ?case
  proof (cases "initialize_plugin fs (logging ok) (reg_definition p) log")
    case (Pair r log')
    then show ?thesis using step Cons
      by (cases "validate_plugin fs (reg_definition p)"; cases r) (auto simp: until_failure_append until_failure_all)
  qed
qed simp

text \<open>
  Starting runs the commands of the enabled plugins in the order of the registry, up to the first plugin that is not valid
  and the first command that fails; nothing is undone.  Shutting down runs theirs in the reverse order, and it stops at the
  first that fails as well: the plugins that come later are never told to shut down.
\<close>

theorem lifecycle_order:
  "snd (initialize_all fs (logging ok) ps []) = until_failure ok (concat (map (lifecycle_commands pl_init)
     (takeWhile (\<lambda>p. validate_plugin fs (reg_definition p) = Inr ()) (filter reg_enabled ps)))) \<and>
   snd (shutdown_all fs (logging ok) ps []) =
     until_failure ok (concat (map (lifecycle_commands pl_shutdown) (rev (filter reg_enabled ps))))"
  by (simp add: shutdown_all_def shutdown_each_log initialize_all_log rev_filter)

lemma literal_prefix:
  assumes "ends_with a [c_slash]" and "prefix a b" and "is_literal_command a"
  shows "is_literal_command b"
proof -
  have "\<not> prefix p b" if p: "p = lit ''./'' \<or> p = lit ''../'' \<or> p = [c_slash]" for p
  proof
    assume "prefix p b"
    with assms(2) consider "prefix p a" | "prefix a p" using prefix_same_cases by blast
    then show False
    proof cases
      case 1
      then show False using p assms(3) by (auto simp: is_literal_command_def is_absolute_def starts_with_def)
    next
      case 2
      then have "a = p" using p assms(1) by (auto simp: lit_def ends_with_def prefix_Cons Sublist.suffix_def Cons_eq_append_conv)
      then show False using p assms(3) by (auto simp: is_literal_command_def is_absolute_def starts_with_def)
    qed
  qed
  then show ?thesis by (simp add: is_literal_command_def is_absolute_def starts_with_def)
qed

text \<open>
  A plugin that is loaded from a relative directory has its commands written behind that directory, and what does not
  start with a dot or a slash counts as the text of a command: such a path is never checked, whatever is there.
\<close>

theorem relative_root_unchecked:
  assumes "is_literal_command (root @ [c_slash])" and "root \<noteq> []" and "\<not> is_absolute entry"
  shows "validate_command_path fs root kind (resolve_hook_entry root entry) = Inr ()"
proof -
  have "is_literal_command (resolve_hook_entry root entry)"
  proof (cases "ends_with root [c_slash]")
    case True
    have "is_literal_command root"
      using assms(1) by (auto simp: is_literal_command_def is_absolute_def starts_with_def)
    moreover have "prefix root (path_join root entry)" using assms(2,3) by (auto simp: path_join_def is_absolute_def)
    ultimately show ?thesis using literal_prefix True by (auto simp: resolve_hook_entry_def)
  next
    case False
    then have "prefix (root @ [c_slash]) (path_join root entry)" using assms(2,3) by (auto simp: path_join_def is_absolute_def)
    then show ?thesis using literal_prefix [of "root @ [c_slash]"] assms(1)
      by (auto simp: resolve_hook_entry_def ends_with_def Sublist.suffix_def)
  qed
  then show ?thesis by (simp add: validate_command_path_def)
qed

theorem relative_root_unchecked_witness:
  "validate_command_path (\<lambda>_. No_File) (lit ''plugins/a'') ''hook'' (resolve_hook_entry (lit ''plugins/a'') (lit ''./x'')) = Inr ()"
  by (rule relative_root_unchecked) (simp_all add: is_literal_command_def is_absolute_def starts_with_def lit_def)

end
