(* ===== verification/PluginHooks.thy ===== *)
theory PluginHooks imports Hooks Plugins begin

text \<open>
  The hooks of plugins (\<^verbatim>\<open>crates/plugins/src/hooks.rs\<close>): a second runner, which runs the commands that the enabled plugins
  bring and knows exit codes only.  Starting a process is a parameter, as for the hooks of the runtime; a process that does
  not read its input to the end is no failure.
\<close>

section \<open>Data\<close>

record plugin_hook_result =
  plugin_denied :: bool
  plugin_failed :: bool
  plugin_messages :: "rstring list"

definition plugin_hook_allow :: "rstring list \<Rightarrow> plugin_hook_result" where
  "plugin_hook_allow ms = \<lparr>plugin_denied = False, plugin_failed = False, plugin_messages = ms\<rparr>"

datatype plugin_hook_outcome =
    Plugin_Allow "rstring option" | Plugin_Deny "rstring option" | Plugin_Failed rstring

text \<open>What a process does: an error, or its exit code (none after a signal), output and error output.\<close>

type_synonym 'w process_runner = "'w \<Rightarrow> hook_call \<Rightarrow> (rstring + int option \<times> rstring \<times> rstring) \<times> 'w"

section \<open>Running\<close>

definition hook_runner_from_registry :: "(rstring \<Rightarrow> file_kind) \<Rightarrow> registered_plugin list \<Rightarrow> plugin_error + plugin_hooks" where
  "hook_runner_from_registry fs plugins = aggregated_hooks fs plugins"

definition format_hook_warning :: "rstring \<Rightarrow> int \<Rightarrow> rstring option \<Rightarrow> rstring \<Rightarrow> rstring" where
  "format_hook_warning command code stdout stderr =
     lit ''Hook `'' @ command @ lit ''` exited with status '' @ show_int code @
     (case stdout of
        Some (c # cs) \<Rightarrow> lit '': '' @ (c # cs)
      | _ \<Rightarrow> if stderr \<noteq> [] then lit '': '' @ stderr else [])"

definition plugin_command_outcome :: "rstring \<Rightarrow> hook_event \<Rightarrow> rstring \<Rightarrow> rstring + int option \<times> rstring \<times> rstring \<Rightarrow>
    plugin_hook_outcome" where
  "plugin_command_outcome command event tool result = (case result of
     Inl e \<Rightarrow> Plugin_Failed (hook_event_as_str event @ lit '' hook `'' @ command @ lit ''` failed to start for `'' @ tool @
       lit ''`: '' @ e)
   | Inr (status, raw_stdout, raw_stderr) \<Rightarrow>
       (let stdout = trim raw_stdout; stderr = trim raw_stderr; message = (if stdout = [] then None else Some stdout)
        in case status of
             None \<Rightarrow> Plugin_Failed (hook_event_as_str event @ lit '' hook `'' @ command @
               lit ''` terminated by signal while handling `'' @ tool @ lit ''`'')
           | Some code \<Rightarrow>
               if code = 0 then Plugin_Allow message
               else if code = 2 then Plugin_Deny message
               else Plugin_Failed (format_hook_warning command code message stderr)))"

fun plugin_commands_loop :: "'w process_runner \<Rightarrow> hook_event \<Rightarrow> rstring \<Rightarrow> (rstring \<Rightarrow> hook_call) \<Rightarrow> rstring list \<Rightarrow>
    rstring list \<Rightarrow> 'w \<Rightarrow> plugin_hook_result \<times> 'w" where
  "plugin_commands_loop run event tool call [] messages w = (plugin_hook_allow messages, w)"
| "plugin_commands_loop run event tool call (command # rest) messages w =
     (let (result, w1) = run w (call command)
      in case plugin_command_outcome command event tool result of
           Plugin_Allow message \<Rightarrow>
             plugin_commands_loop run event tool call rest (messages @ opt_list message) w1
         | Plugin_Deny message \<Rightarrow>
             (\<lparr>plugin_denied = True, plugin_failed = False, plugin_messages = messages @
                [unwrap_or (hook_event_as_str event @ lit '' hook denied tool `'' @ tool @ lit ''`'') message]\<rparr>, w1)
         | Plugin_Failed message \<Rightarrow>
             (\<lparr>plugin_denied = False, plugin_failed = True, plugin_messages = messages @ [message]\<rparr>, w1))"

definition plugin_run_commands :: "serde_json \<Rightarrow> 'w process_runner \<Rightarrow> hook_event \<Rightarrow> rstring list \<Rightarrow> rstring \<Rightarrow> rstring \<Rightarrow>
    rstring option \<Rightarrow> bool \<Rightarrow> 'w \<Rightarrow> plugin_hook_result \<times> 'w" where
  "plugin_run_commands serde run event commands tool inp out is_error w =
     (if commands = [] then (plugin_hook_allow [], w)
      else
        (let payload = to_string serde (hook_payload serde event tool inp out is_error)
         in plugin_commands_loop run event tool (\<lambda>command. hook_call_for command event tool inp out is_error payload)
              commands [] w))"

definition plugin_pre_tool_use :: "serde_json \<Rightarrow> 'w process_runner \<Rightarrow> plugin_hooks \<Rightarrow> rstring \<Rightarrow> rstring \<Rightarrow> 'w \<Rightarrow>
    plugin_hook_result \<times> 'w" where
  "plugin_pre_tool_use serde run hooks tool inp w =
     plugin_run_commands serde run PreToolUse (ph_pre hooks) tool inp None False w"

definition plugin_post_tool_use :: "serde_json \<Rightarrow> 'w process_runner \<Rightarrow> plugin_hooks \<Rightarrow> rstring \<Rightarrow> rstring \<Rightarrow> rstring \<Rightarrow> bool \<Rightarrow>
    'w \<Rightarrow> plugin_hook_result \<times> 'w" where
  "plugin_post_tool_use serde run hooks tool inp out is_error w =
     plugin_run_commands serde run PostToolUse (ph_post hooks) tool inp (Some out) is_error w"

definition plugin_post_tool_use_failure :: "serde_json \<Rightarrow> 'w process_runner \<Rightarrow> plugin_hooks \<Rightarrow> rstring \<Rightarrow> rstring \<Rightarrow> rstring \<Rightarrow>
    'w \<Rightarrow> plugin_hook_result \<times> 'w" where
  "plugin_post_tool_use_failure serde run hooks tool inp err w =
     plugin_run_commands serde run PostToolUseFailure (ph_failure hooks) tool inp (Some err) True w"

section \<open>Against the runner of the runtime\<close>

text \<open>
  The same processes as the other runner sees them, and the outcome of that runner; \<open>plain\<close> says of an output that it
  is no JSON object, which that runner would read further.
\<close>

definition as_execution :: "rstring + int option \<times> rstring \<times> rstring \<Rightarrow> hook_execution" where
  "as_execution result = (case result of Inl e \<Rightarrow> Exec_Error e | Inr (status, out, err) \<Rightarrow> Exec_Finished status out err)"

definition same_processes :: "serde_json \<Rightarrow> 'w process_runner \<Rightarrow> 'w hook_world" where
  "same_processes serde run = \<lparr>run_process = (\<lambda>w call. let (r, w') = run w call in (as_execution r, w')),
     is_aborted = (\<lambda>_. False), hook_serde = serde\<rparr>"

definition plain_outputs :: "serde_json \<Rightarrow> 'w process_runner \<Rightarrow> bool" where
  "plain_outputs serde run \<longleftrightarrow> (\<forall>w call status out err root. fst (run w call) = Inr (status, out, err) \<longrightarrow>
     from_str serde (trim out) \<noteq> Some (SObject root))"

lemma plain_parse:
  assumes "\<And>root. from_str serde s \<noteq> Some (SObject root)"
  shows "parse_hook_output serde s = parsed_default\<lparr>parsed_messages := if s = [] then [] else [s]\<rparr>"
  using assms by (auto simp: parse_hook_output_def parsed_default_def split: option.splits serde_value.splits)

text \<open>What the two outcomes of one process have to do with each other.\<close>

fun outcomes_agree :: "plugin_hook_outcome \<Rightarrow> hook_command_outcome \<Rightarrow> bool" where
  "outcomes_agree (Plugin_Allow m) (Hook_Allow p) \<longleftrightarrow> parsed_messages p = opt_list m"
| "outcomes_agree (Plugin_Deny m) (Hook_Deny p) \<longleftrightarrow> m = None \<or> parsed_messages p = opt_list m"
| "outcomes_agree (Plugin_Failed m) (Hook_Failed p) \<longleftrightarrow> True"
| "outcomes_agree _ _ \<longleftrightarrow> False"

lemma plain_outcome:
  assumes "\<And>status out err root. result = Inr (status, out, err) \<Longrightarrow> from_str serde (trim out) \<noteq> Some (SObject root)"
  shows "outcomes_agree (plugin_command_outcome command event tool result)
           (command_outcome serde command event tool (as_execution result))"
proof (cases result)
  case (Inl e)
  then show ?thesis by (simp add: plugin_command_outcome_def command_outcome_def as_execution_def)
next
  case (Inr r)
  obtain status out err where r: "r = (status, out, err)" by (cases r) auto
  have "parse_hook_output serde (trim out) = parsed_default\<lparr>parsed_messages := if trim out = [] then [] else [trim out]\<rparr>"
    by (rule plain_parse) (use assms Inr r in blast)
  then show ?thesis
    by (cases status) (auto simp: Inr r plugin_command_outcome_def command_outcome_def as_execution_def Let_def
        parsed_default_def with_fallback_message_def opt_list_def)
qed

lemma plain_loops_agree:
  assumes "plain_outputs serde run" and "\<not> denied res" and "\<not> failed res" and "hook_messages res = messages"
  shows "case (plugin_commands_loop run event tool call commands messages w,
               run_commands_loop (same_processes serde run) event tool call commands res w) of
           ((p, w1), (r, events, w2)) \<Rightarrow> w1 = w2 \<and> plugin_denied p = denied r \<and> plugin_failed p = failed r \<and>
             (plugin_denied p \<or> plugin_failed p \<or> plugin_messages p = hook_messages r)"
  using assms(2-4)
proof (induction commands arbitrary: res messages w)
  case Nil
  then show ?case by (simp add: plugin_hook_allow_def)
next
  case (Cons command rest)
  obtain result w1 where run: "run w (call command) = (result, w1)" by fastforce
  have agree: "outcomes_agree (plugin_command_outcome command event tool result)
      (command_outcome serde command event tool (as_execution result))"
    using assms(1) run unfolding plain_outputs_def by (intro plain_outcome) (metis fst_conv)
  have rp: "run_process (same_processes serde run) w (call command) = (as_execution result, w1)"
      "hook_serde (same_processes serde run) = serde" by (simp_all add: same_processes_def run)
  show ?case
  proof (cases "plugin_command_outcome command event tool result")
    case (Plugin_Allow m)
    then obtain p where p: "command_outcome serde command event tool (as_execution result) = Hook_Allow p"
        "parsed_messages p = opt_list m"
      using agree by (cases "command_outcome serde command event tool (as_execution result)") auto
    let ?res = "merge_parsed_hook_output res p"
    have "\<not> denied ?res" "\<not> failed ?res" "hook_messages ?res = messages @ opt_list m"
      using Cons.prems p(2) by (simp_all add: merge_parsed_hook_output_def)
    from Cons.IH [OF this, of w1] show ?thesis by (auto simp: run rp Plugin_Allow p(1) case_prod_beta)
  next
    case (Plugin_Deny m)
    then obtain p where "command_outcome serde command event tool (as_execution result) = Hook_Deny p"
      using agree by (cases "command_outcome serde command event tool (as_execution result)") auto
    then show ?thesis
      using Cons.prems by (simp add: run rp Plugin_Deny merge_parsed_hook_output_def)
  next
    case (Plugin_Failed m)
    then obtain p where "command_outcome serde command event tool (as_execution result) = Hook_Failed p"
      using agree by (cases "command_outcome serde command event tool (as_execution result)") auto
    then show ?thesis
      using Cons.prems by (simp add: run rp Plugin_Failed merge_parsed_hook_output_def)
  qed
qed

text \<open>
  On hooks that print plain text the two runners agree: they run the same processes and leave the same world, and
  one denies or fails exactly when the other does; when nothing is denied or fails, the messages are the same too.
\<close>

theorem plain_hooks_agree:
  assumes "plain_outputs serde run"
  shows "case (plugin_run_commands serde run event commands tool inp out is_error w,
               run_commands (same_processes serde run) event commands tool inp out is_error w) of
           ((p, w1), (r, events, w2)) \<Rightarrow> w1 = w2 \<and> plugin_denied p = denied r \<and> plugin_failed p = failed r \<and>
             (plugin_denied p \<or> plugin_failed p \<or> plugin_messages p = hook_messages r)"
proof (cases "commands = []")
  case True
  then show ?thesis by (simp add: plugin_run_commands_def run_commands_def plugin_hook_allow_def hook_allow_def)
next
  case False
  then show ?thesis
    using plain_loops_agree [OF assms, of "hook_allow []" "[]" event tool _ commands w]
    by (simp add: plugin_run_commands_def run_commands_def Let_def) (simp add: same_processes_def hook_allow_def)
qed

text \<open>
  A hook that blocks a tool by a JSON object, as the hooks of the runtime may, is not heard when a plugin brings
  it: the call is allowed, with the object as the message.
\<close>

theorem json_block_not_heard:
  assumes "from_str serde (trim out) = Some (SObject [(lit ''decision'', SString (lit ''block''))])" and "trim out \<noteq> []"
  shows "plugin_command_outcome command event tool (Inr (Some 0, out, err)) = Plugin_Allow (Some (trim out)) \<and>
         is_Hook_Deny (command_outcome serde command event tool (as_execution (Inr (Some 0, out, err))))"
  using assms
  by (simp add: plugin_command_outcome_def command_outcome_def as_execution_def parse_hook_output_def parse_hook_object_def
      Let_def opt_list_def parsed_default_def)

text \<open>A reader of JSON that knows one text.\<close>

definition block_serde :: serde_json where
  "block_serde = \<lparr>from_str = (\<lambda>s. if s = lit ''B'' then Some (SObject [(lit ''decision'', SString (lit ''block''))]) else None),
     to_string = (\<lambda>_. [])\<rparr>"

theorem json_block_not_heard_witness:
  "plugin_command_outcome (lit ''h'') PreToolUse (lit ''bash'') (Inr (Some 0, lit ''B'', [])) = Plugin_Allow (Some (trim (lit ''B''))) \<and>
   is_Hook_Deny (command_outcome block_serde (lit ''h'') PreToolUse (lit ''bash'') (as_execution (Inr (Some 0, lit ''B'', []))))"
  by (rule json_block_not_heard)
     (simp_all add: block_serde_def trim_def trim_start_def trim_end_def lit_def is_whitespace_def)

theorem plain_hooks_agree_witness:
  "case (plugin_run_commands block_serde (\<lambda>w c. (Inr (Some 2, lit ''no'', []), w + 1)) PreToolUse [lit ''h''] [] [] None False (0 :: nat),
         run_commands (same_processes block_serde (\<lambda>w c. (Inr (Some 2, lit ''no'', []), w + 1))) PreToolUse [lit ''h''] [] [] None False 0) of
     ((p, w1), (r, events, w2)) \<Rightarrow> w1 = w2 \<and> plugin_denied p = denied r \<and> plugin_failed p = failed r \<and>
       (plugin_denied p \<or> plugin_failed p \<or> plugin_messages p = hook_messages r)"
  by (rule plain_hooks_agree)
     (simp add: plain_outputs_def block_serde_def trim_def trim_start_def trim_end_def lit_def is_whitespace_def)

end
