(* ===== verification/PluginManager.thy ===== *)
theory PluginManager imports Plugins Paths begin

text \<open>
  The plugin manager (\<^verbatim>\<open>crates/plugins/src/lib.rs\<close>, \<^verbatim>\<open>PluginManager\<close>): installation, removal and update, the plugins
  that come with the program, and the discovery of what is installed.

  The state of a manager holds which plugins the configuration enables, the directories, the registry file and the
  settings file; a file is what is read from it.  A directory is the map from relative paths to the files in it, of a type
  \<open>'d\<close>; the directories on the way to it are made and listed with it, and what lies in a listed directory is not
  counted to those above it.  \<open>reader_of\<close> reads a manifest in a directory.  The file system may fail (\<open>fs_fault\<close>); a
  single operation of it that fails changes nothing.  \<open>now\<close> is the time of an operation.
\<close>

section \<open>State\<close>

datatype install_source = Local_Path rstring | Git_Url rstring

record installed_record =
  rec_kind :: plugin_kind
  rec_id :: rstring
  rec_name :: rstring
  rec_version :: rstring
  rec_description :: rstring
  rec_path :: rstring
  rec_source :: install_source
  rec_installed_at :: nat
  rec_updated_at :: nat

type_synonym installed_registry = "(rstring \<times> installed_record) list"

type_synonym 'd directory = "rstring \<rightharpoonup> 'd"

record 'd manager =
  mgr_enabled :: "(rstring \<times> bool) list"
  mgr_dirs :: "(rstring \<times> 'd directory) list"
  mgr_registry :: "plugin_error + installed_registry"
  mgr_settings :: "plugin_error + serde_value"

datatype fs_operation = Op_Create | Op_Remove | Op_Copy | Op_Registry | Op_Settings

record 'd manager_env =
  config_home :: rstring
  external_dirs :: "rstring list"
  install_root_override :: "rstring option"
  registry_path_override :: "rstring option"
  bundled_dir :: rstring
  reader_of :: "'d directory \<Rightarrow> rstring \<Rightarrow> manifest_reader"
  git_clone :: "rstring \<Rightarrow> plugin_error + 'd directory"
  fs_fault :: "fs_operation \<Rightarrow> rstring \<Rightarrow> rstring option"

type_synonym ('d, 'a) action = "'d manager \<Rightarrow> (plugin_error + 'a) \<times> 'd manager"

definition install_root :: "'d manager_env \<Rightarrow> rstring" where
  "install_root env = unwrap_or (path_join (path_join (config_home env) (lit ''plugins'')) (lit ''installed'')) (install_root_override env)"

definition registry_path :: "'d manager_env \<Rightarrow> rstring" where
  "registry_path env = unwrap_or (path_join (path_join (config_home env) (lit ''plugins'')) (lit ''installed.json'')) (registry_path_override env)"

definition settings_path :: "'d manager_env \<Rightarrow> rstring" where
  "settings_path env = path_join (config_home env) (lit ''settings.json'')"

section \<open>Files\<close>

definition dir_exists :: "'d manager \<Rightarrow> rstring \<Rightarrow> bool" where
  "dir_exists m p \<longleftrightarrow> map_of (mgr_dirs m) p \<noteq> None"

definition has_manifest :: "'d manager_env \<Rightarrow> 'd manager \<Rightarrow> rstring \<Rightarrow> bool" where
  "has_manifest env m p \<longleftrightarrow> (case map_of (mgr_dirs m) p of
     None \<Rightarrow> False | Some d \<Rightarrow> is_ok (plugin_manifest_path (path_kind (reader_of env d p)) p))"

text \<open>A directory that is not there has no manifest.\<close>

definition load_dir :: "'d manager_env \<Rightarrow> 'd manager \<Rightarrow> rstring \<Rightarrow> plugin_error + plugin_manifest" where
  "load_dir env m p = (case map_of (mgr_dirs m) p of
     None \<Rightarrow> rbind (plugin_manifest_path (\<lambda>_. No_File) p) (\<lambda>_. Inl (Plugin_NotFound p))
   | Some d \<Rightarrow> load_plugin_from_directory (reader_of env d p) p)"

text \<open>\<^verbatim>\<open>create_dir_all\<close>: the directory and those above it that are missing are made, empty.\<close>

definition make_dirs :: "rstring \<Rightarrow> (rstring \<times> 'd directory) list \<Rightarrow> (rstring \<times> 'd directory) list" where
  "make_dirs p ds = fold (\<lambda>a ds. if a = [] \<or> map_of ds a \<noteq> None then ds else bt_insert a Map.empty ds) (ancestors p) ds"

definition create_dir_all :: "'d manager_env \<Rightarrow> rstring \<Rightarrow> ('d, unit) action" where
  "create_dir_all env p m = (case fs_fault env Op_Create p of
     Some e \<Rightarrow> (Inl (Plugin_Io e), m)
   | None \<Rightarrow> (Inr (), m\<lparr>mgr_dirs := make_dirs p (mgr_dirs m)\<rparr>))"

definition create_parent :: "'d manager_env \<Rightarrow> rstring \<Rightarrow> ('d, unit) action" where
  "create_parent env p m = (case path_parent p of None \<Rightarrow> (Inr (), m) | Some q \<Rightarrow> create_dir_all env q m)"

text \<open>\<^verbatim>\<open>remove_dir_all\<close>: the directory and all below it.\<close>

definition drop_dirs :: "rstring \<Rightarrow> (rstring \<times> 'd directory) list \<Rightarrow> (rstring \<times> 'd directory) list" where
  "drop_dirs p ds = filter (\<lambda>(q, _). p \<notin> set (ancestors q)) ds"

definition remove_dir :: "'d manager_env \<Rightarrow> rstring \<Rightarrow> ('d, unit) action" where
  "remove_dir env p m = (case fs_fault env Op_Remove p of
     Some e \<Rightarrow> (Inl (Plugin_Io e), m)
   | None \<Rightarrow> (Inr (), m\<lparr>mgr_dirs := drop_dirs p (mgr_dirs m)\<rparr>))"

definition remove_existing :: "'d manager_env \<Rightarrow> rstring \<Rightarrow> ('d, unit) action" where
  "remove_existing env p m = (if dir_exists m p then remove_dir env p m else (Inr (), m))"

text \<open>
  The destination is made before the source is read: a source that is not there leaves an empty destination, and a source
  that is the destination is found, empty.
\<close>

definition copy_dir :: "'d manager_env \<Rightarrow> rstring \<Rightarrow> rstring \<Rightarrow> ('d, unit) action" where
  "copy_dir env source destination m =
     and_then (create_dir_all env destination m) (\<lambda>_ m.
       case map_of (mgr_dirs m) source of
         None \<Rightarrow> (Inl (Plugin_Io (lit ''No such file or directory (os error 2)'')), m)
       | Some d \<Rightarrow> (case fs_fault env Op_Copy destination of
           Some e \<Rightarrow> (Inl (Plugin_Io e), m)
         | None \<Rightarrow> (Inr (), m\<lparr>mgr_dirs := bt_insert destination
             (unwrap_or Map.empty (map_of (mgr_dirs m) destination) ++ d) (mgr_dirs m)\<rparr>)))"

definition store_registry :: "'d manager_env \<Rightarrow> installed_registry \<Rightarrow> ('d, unit) action" where
  "store_registry env r m =
     and_then (create_parent env (registry_path env) m) (\<lambda>_ m. case fs_fault env Op_Registry (registry_path env) of
       Some e \<Rightarrow> (Inl (Plugin_Io e), m)
     | None \<Rightarrow> (Inr (), m\<lparr>mgr_registry := Inr r\<rparr>))"

fun settings_object :: "serde_value \<Rightarrow> (rstring \<times> serde_value) list option" where
  "settings_object (SObject es) = Some es"
| "settings_object _ = None"

definition ensure_object :: "(rstring \<times> serde_value) list \<Rightarrow> rstring \<Rightarrow> (rstring \<times> serde_value) list" where
  "ensure_object root key = unwrap_or [] (Option.bind (map_of root key) settings_object)"

definition write_enabled_state :: "'d manager_env \<Rightarrow> rstring \<Rightarrow> bool option \<Rightarrow> ('d, unit) action" where
  "write_enabled_state env plugin enabled m =
     and_then (create_parent env (settings_path env) m) (\<lambda>_ m.
     and_then (mgr_settings m, m) (\<lambda>v m.
     and_then (ok_or (Plugin_InvalidManifest (lit ''settings file '' @ settings_path env @ lit '' must contain a JSON object''))
       (settings_object v), m) (\<lambda>root m.
       let states = ensure_object root (lit ''enabledPlugins'');
           states' = (case enabled of Some b \<Rightarrow> bt_insert plugin (SBool b) states | None \<Rightarrow> bt_remove plugin states)
       in case fs_fault env Op_Settings (settings_path env) of
            Some e \<Rightarrow> (Inl (Plugin_Io e), m)
          | None \<Rightarrow> (Inr (), m\<lparr>mgr_settings := Inr (SObject (bt_insert (lit ''enabledPlugins'') (SObject states') root))\<rparr>))))"

text \<open>The directories in a directory that hold a manifest, in ascending order.\<close>

definition is_child :: "rstring \<Rightarrow> rstring \<Rightarrow> bool" where
  "is_child root p \<longleftrightarrow> (let name = rev (takeWhile (\<lambda>c. c \<noteq> c_slash) (rev p)) in name \<noteq> [] \<and> p = path_join root name)"

definition discover_plugin_dirs :: "'d manager_env \<Rightarrow> 'd manager \<Rightarrow> rstring \<Rightarrow> rstring list" where
  "discover_plugin_dirs env m root = filter (\<lambda>p. is_child root p \<and> has_manifest env m p) (map fst (mgr_dirs m))"

section \<open>Plugins that come with the program\<close>

definition needs_sync :: "'d manager_env \<Rightarrow> 'd manager \<Rightarrow> plugin_manifest \<Rightarrow> rstring \<Rightarrow> installed_record option \<Rightarrow> bool" where
  "needs_sync env m manifest install_path existing = (case existing of
     None \<Rightarrow> True
   | Some r \<Rightarrow> rec_kind r \<noteq> Plugin_Bundled \<or> rec_version r \<noteq> mf_version manifest \<or> rec_name r \<noteq> mf_name manifest \<or>
       rec_description r \<noteq> mf_description manifest \<or> rec_path r \<noteq> install_path \<or> \<not> dir_exists m (rec_path r) \<or>
       \<not> (dir_exists m install_path \<and> is_ok (load_dir env m install_path)))"

text \<open>The loop over the bundled plugins: it keeps the registry, the ids it saw and whether something changed.\<close>

fun sync_each ::
    "'d manager_env \<Rightarrow> nat \<Rightarrow> rstring list \<Rightarrow> installed_registry \<times> rstring set \<times> bool \<Rightarrow> ('d, installed_registry \<times> rstring set \<times> bool) action" where
  "sync_each env now [] acc m = (Inr acc, m)"
| "sync_each env now (source_root # rest) (registry, active, changed) m =
     and_then (load_dir env m source_root, m) (\<lambda>manifest m.
       let i = plugin_id (mf_name manifest) (marketplace Plugin_Bundled);
           install_path = path_join (install_root env) (sanitize_plugin_id i);
           existing = map_of registry i
       in if \<not> needs_sync env m manifest install_path existing then sync_each env now rest (registry, insert i active, changed) m
          else and_then (remove_existing env install_path m) (\<lambda>_ m.
               and_then (copy_dir env source_root install_path m) (\<lambda>_ m.
               let r = \<lparr>rec_kind = Plugin_Bundled, rec_id = i, rec_name = mf_name manifest, rec_version = mf_version manifest,
                     rec_description = mf_description manifest, rec_path = install_path, rec_source = Local_Path source_root,
                     rec_installed_at = (case existing of None \<Rightarrow> now | Some r \<Rightarrow> rec_installed_at r), rec_updated_at = now\<rparr>
               in sync_each env now rest (bt_insert i r registry, insert i active, True) m)))"

fun drop_stale :: "'d manager_env \<Rightarrow> rstring list \<Rightarrow> installed_registry \<Rightarrow> ('d, installed_registry) action" where
  "drop_stale env [] registry m = (Inr registry, m)"
| "drop_stale env (i # is) registry m = (case map_of registry i of
     None \<Rightarrow> drop_stale env is registry m
   | Some r \<Rightarrow> and_then (remove_existing env (rec_path r) m) (\<lambda>_ m. drop_stale env is (bt_remove i registry) m))"

definition sync_bundled_plugins :: "'d manager_env \<Rightarrow> nat \<Rightarrow> ('d, unit) action" where
  "sync_bundled_plugins env now m =
     and_then (mgr_registry m, m) (\<lambda>registry m.
     and_then (sync_each env now (discover_plugin_dirs env m (bundled_dir env)) (registry, {}, False) m) (\<lambda>(registry, active, changed) m.
     let stale = map fst (filter (\<lambda>(i, r). rec_kind r = Plugin_Bundled \<and> i \<notin> active) registry)
     in and_then (drop_stale env stale registry m) (\<lambda>registry m.
        if changed \<or> stale \<noteq> [] then store_registry env registry m else (Inr (), m))))"

section \<open>Discovery\<close>

record discovery =
  found :: "plugin_definition list"
  failures :: "load_failure list"

fun describe_install_source :: "install_source \<Rightarrow> rstring" where
  "describe_install_source (Local_Path p) = p"
| "describe_install_source (Git_Url url) = url"

definition load_definition ::
    "'d manager_env \<Rightarrow> 'd manager \<Rightarrow> rstring \<Rightarrow> plugin_kind \<Rightarrow> rstring \<Rightarrow> rstring \<Rightarrow> plugin_error + plugin_definition" where
  "load_definition env m root kind source market = rbind (load_dir env m root) (\<lambda>mf. Inr (define_plugin root kind source market mf))"

text \<open>One directory or record: a plugin whose id was not seen, or a failure; \<open>seen\<close> holds the ids and the paths.\<close>

definition discover_one ::
    "'d manager_env \<Rightarrow> 'd manager \<Rightarrow> rstring \<Rightarrow> plugin_kind \<Rightarrow> rstring \<Rightarrow> discovery \<times> rstring set \<times> rstring set \<Rightarrow>
     discovery \<times> rstring set \<times> rstring set" where
  "discover_one env m p kind source = (\<lambda>(d, ids, paths).
     case load_definition env m p kind source (marketplace kind) of
       Inl e \<Rightarrow> (d\<lparr>failures := failures d @ [Load_Failure p kind source e]\<rparr>, ids, paths)
     | Inr plugin \<Rightarrow>
         if pm_id (metadata plugin) \<in> ids then (d, ids, paths)
         else (d\<lparr>found := found d @ [plugin]\<rparr>, insert (pm_id (metadata plugin)) ids, insert p paths))"

definition discover_dir ::
    "'d manager_env \<Rightarrow> 'd manager \<Rightarrow> installed_registry \<Rightarrow> rstring \<Rightarrow> discovery \<times> rstring set \<times> rstring set \<Rightarrow>
     discovery \<times> rstring set \<times> rstring set" where
  "discover_dir env m registry p =
     (let matched = find (\<lambda>r. rec_path r = p) (map snd registry)
      in discover_one env m p (case matched of None \<Rightarrow> Plugin_External | Some r \<Rightarrow> rec_kind r)
           (case matched of None \<Rightarrow> p | Some r \<Rightarrow> describe_install_source (rec_source r)))"

definition record_is_stale :: "'d manager_env \<Rightarrow> 'd manager \<Rightarrow> installed_record \<Rightarrow> bool" where
  "record_is_stale env m r \<longleftrightarrow> \<not> dir_exists m (rec_path r) \<or> \<not> has_manifest env m (rec_path r)"

definition discover_record ::
    "'d manager_env \<Rightarrow> 'd manager \<Rightarrow> installed_record \<Rightarrow> (discovery \<times> rstring set \<times> rstring set) \<times> rstring list \<Rightarrow>
     (discovery \<times> rstring set \<times> rstring set) \<times> rstring list" where
  "discover_record env m r = (\<lambda>((d, ids, paths), stale).
     if rec_path r \<in> paths then ((d, ids, paths), stale)
     else if record_is_stale env m r then ((d, ids, paths), stale @ [rec_id r])
     else (discover_one env m (rec_path r) (rec_kind r) (describe_install_source (rec_source r)) (d, ids, paths), stale))"

definition discover_installed :: "'d manager_env \<Rightarrow> ('d, discovery) action" where
  "discover_installed env m =
     and_then (mgr_registry m, m) (\<lambda>registry m.
       let acc = fold (discover_dir env m registry) (discover_plugin_dirs env m (install_root env)) (\<lparr>found = [], failures = []\<rparr>, {}, {});
           ((d, ids, paths), stale) = fold (discover_record env m) (map snd registry) (acc, [])
       in if stale = [] then (Inr d, m)
          else and_then (store_registry env (fold bt_remove stale registry) m) (\<lambda>_ m. (Inr d, m)))"

text \<open>The plugins of the external directories; \<open>existing\<close> are those found before.\<close>

definition discover_external_one :: "'d manager_env \<Rightarrow> 'd manager \<Rightarrow> plugin_definition list \<Rightarrow> rstring \<Rightarrow> discovery \<Rightarrow> discovery" where
  "discover_external_one env m existing root d =
     (case load_definition env m root Plugin_External root (marketplace Plugin_External) of
        Inl e \<Rightarrow> d\<lparr>failures := failures d @ [Load_Failure root Plugin_External root e]\<rparr>
      | Inr plugin \<Rightarrow>
          if list_all (\<lambda>other. pm_id (metadata other) \<noteq> pm_id (metadata plugin)) (existing @ found d)
          then d\<lparr>found := found d @ [plugin]\<rparr> else d)"

definition discover_external :: "'d manager_env \<Rightarrow> 'd manager \<Rightarrow> plugin_definition list \<Rightarrow> discovery" where
  "discover_external env m existing =
     fold (discover_external_one env m existing) (concat (map (discover_plugin_dirs env m) (external_dirs env)))
       \<lparr>found = [], failures = []\<rparr>"

definition builtin_plugins :: "plugin_definition list" where
  "builtin_plugins = [Def_Builtin \<lparr>pp_metadata = \<lparr>pm_id = plugin_id (lit ''example-builtin'') (marketplace Plugin_Builtin),
     pm_name = lit ''example-builtin'', pm_version = lit ''0.1.0'',
     pm_description = lit ''Example built-in plugin scaffold for the Rust plugin system'', pm_kind = Plugin_Builtin,
     pm_source = lit ''builtin'', pm_default_enabled = False, pm_root = None\<rparr>,
     pp_hooks = no_plugin_hooks, pp_lifecycle = \<lparr>pl_init = [], pl_shutdown = []\<rparr>, pp_tools = []\<rparr>]"

definition is_enabled :: "'d manager \<Rightarrow> plugin_metadata \<Rightarrow> bool" where
  "is_enabled m md = unwrap_or (case pm_kind md of Plugin_External \<Rightarrow> False | _ \<Rightarrow> pm_default_enabled md)
     (map_of (mgr_enabled m) (pm_id md))"

definition build_registry :: "'d manager \<Rightarrow> plugin_definition list \<Rightarrow> registered_plugin list" where
  "build_registry m ds = plugin_registry_new (map (\<lambda>d. \<lparr>reg_definition = d, reg_enabled = is_enabled m (metadata d)\<rparr>) ds)"

definition plugin_registry_report :: "'d manager_env \<Rightarrow> nat \<Rightarrow> ('d, registered_plugin list \<times> load_failure list) action" where
  "plugin_registry_report env now m =
     and_then (sync_bundled_plugins env now m) (\<lambda>_ m.
     and_then (discover_installed env m) (\<lambda>installed m.
     let ds = builtin_plugins @ found installed;
         external = discover_external env m ds
     in (Inr (build_registry m (ds @ found external), failures installed @ failures external), m)))"

definition plugin_registry :: "'d manager_env \<Rightarrow> nat \<Rightarrow> ('d, registered_plugin list) action" where
  "plugin_registry env now m =
     and_then (plugin_registry_report env now m)
       (\<lambda>(ps, fs) m. if fs = [] then (Inr ps, m) else (Inl (Plugin_LoadFailures fs), m))"

definition ensure_known_plugin :: "'d manager_env \<Rightarrow> nat \<Rightarrow> rstring \<Rightarrow> ('d, unit) action" where
  "ensure_known_plugin env now i m =
     and_then (plugin_registry env now m) (\<lambda>ps m.
       if plugin_registry_get ps i \<noteq> None then (Inr (), m)
       else (Inl (Plugin_NotFound (lit ''plugin '' @ back_quoted i @ lit '' is not installed or discoverable'')), m))"

section \<open>Installation, removal and update\<close>

definition parse_install_source :: "'d manager \<Rightarrow> rstring \<Rightarrow> plugin_error + install_source" where
  "parse_install_source m source =
     (if starts_with source (lit ''http://'') \<or> starts_with source (lit ''https://'') \<or> starts_with source (lit ''git@'') \<or>
         map_option to_ascii_lowercase (path_extension source) = Some (lit ''git'')
      then Inr (Git_Url source)
      else if dir_exists m source then Inr (Local_Path source)
      else Inl (Plugin_NotFound (lit ''plugin source '' @ back_quoted source @ lit '' was not found'')))"

text \<open>The directory for clones is made for every source.\<close>

definition temp_root :: "'d manager_env \<Rightarrow> rstring" where
  "temp_root env = path_join (install_root env) (lit ''.tmp'')"

definition materialize_source :: "'d manager_env \<Rightarrow> nat \<Rightarrow> install_source \<Rightarrow> ('d, rstring) action" where
  "materialize_source env now source m =
     and_then (create_dir_all env (temp_root env) m) (\<lambda>_ m. case source of
       Local_Path p \<Rightarrow> (Inr p, m)
     | Git_Url url \<Rightarrow>
         let destination = path_join (temp_root env) (lit ''plugin-'' @ show_nat now)
         in and_then (git_clone env url, m)
              (\<lambda>d m. (Inr destination, m\<lparr>mgr_dirs := bt_insert destination d (mgr_dirs m)\<rparr>)))"

text \<open>What was cloned is removed once it is copied; an error of that is ignored.\<close>

definition cleanup :: "'d manager_env \<Rightarrow> install_source \<Rightarrow> rstring \<Rightarrow> 'd manager \<Rightarrow> 'd manager" where
  "cleanup env source staged m = (case source of Local_Path _ \<Rightarrow> m | Git_Url _ \<Rightarrow> snd (remove_dir env staged m))"

record install_outcome =
  io_id :: rstring
  io_version :: rstring
  io_path :: rstring

definition install_plugin :: "'d manager_env \<Rightarrow> nat \<Rightarrow> rstring \<Rightarrow> ('d, install_outcome) action" where
  "install_plugin env now source m =
     and_then (parse_install_source m source, m) (\<lambda>install_source m.
     and_then (materialize_source env now install_source m) (\<lambda>staged m.
     and_then (load_dir env m staged, m) (\<lambda>manifest m.
     let i = plugin_id (mf_name manifest) (marketplace Plugin_External);
         install_path = path_join (install_root env) (sanitize_plugin_id i)
     in and_then (remove_existing env install_path m) (\<lambda>_ m.
        and_then (copy_dir env staged install_path m) (\<lambda>_ m.
        let m = cleanup env install_source staged m;
            r = \<lparr>rec_kind = Plugin_External, rec_id = i, rec_name = mf_name manifest, rec_version = mf_version manifest,
              rec_description = mf_description manifest, rec_path = install_path, rec_source = install_source,
              rec_installed_at = now, rec_updated_at = now\<rparr>
        in and_then (mgr_registry m, m) (\<lambda>registry m.
           and_then (store_registry env (bt_insert i r registry) m) (\<lambda>_ m.
           and_then (write_enabled_state env i (Some True) m) (\<lambda>_ m.
           (Inr \<lparr>io_id = i, io_version = mf_version manifest, io_path = install_path\<rparr>,
            m\<lparr>mgr_enabled := bt_insert i True (mgr_enabled m)\<rparr>)))))))))"

definition set_enabled :: "'d manager_env \<Rightarrow> nat \<Rightarrow> bool \<Rightarrow> rstring \<Rightarrow> ('d, unit) action" where
  "set_enabled env now b i m =
     and_then (ensure_known_plugin env now i m) (\<lambda>_ m.
     and_then (write_enabled_state env i (Some b) m) (\<lambda>_ m. (Inr (), m\<lparr>mgr_enabled := bt_insert i b (mgr_enabled m)\<rparr>)))"

definition enable_plugin :: "'d manager_env \<Rightarrow> nat \<Rightarrow> rstring \<Rightarrow> ('d, unit) action" where
  "enable_plugin env now i m = set_enabled env now True i m"

definition disable_plugin :: "'d manager_env \<Rightarrow> nat \<Rightarrow> rstring \<Rightarrow> ('d, unit) action" where
  "disable_plugin env now i m = set_enabled env now False i m"

definition uninstall_plugin :: "'d manager_env \<Rightarrow> rstring \<Rightarrow> ('d, unit) action" where
  "uninstall_plugin env i m =
     and_then (mgr_registry m, m) (\<lambda>registry m. case map_of registry i of
       None \<Rightarrow> (Inl (Plugin_NotFound (lit ''plugin '' @ back_quoted i @ lit '' is not installed'')), m)
     | Some r \<Rightarrow>
         if rec_kind r = Plugin_Bundled
         then (Inl (Plugin_CommandFailed (lit ''plugin '' @ back_quoted i @
                lit '' is bundled and managed automatically; disable it instead'')), m)
         else
           and_then (remove_existing env (rec_path r) m) (\<lambda>_ m.
           and_then (store_registry env (bt_remove i registry) m) (\<lambda>_ m.
           and_then (write_enabled_state env i None m) (\<lambda>_ m.
           (Inr (), m\<lparr>mgr_enabled := bt_remove i (mgr_enabled m)\<rparr>)))))"

record update_outcome =
  uo_id :: rstring
  uo_old_version :: rstring
  uo_new_version :: rstring
  uo_path :: rstring

definition update_plugin :: "'d manager_env \<Rightarrow> nat \<Rightarrow> rstring \<Rightarrow> ('d, update_outcome) action" where
  "update_plugin env now i m =
     and_then (mgr_registry m, m) (\<lambda>registry m. case map_of registry i of
       None \<Rightarrow> (Inl (Plugin_NotFound (lit ''plugin '' @ back_quoted i @ lit '' is not installed'')), m)
     | Some r \<Rightarrow>
         and_then (materialize_source env now (rec_source r) m) (\<lambda>staged m.
         and_then (load_dir env m staged, m) (\<lambda>manifest m.
         and_then (remove_existing env (rec_path r) m) (\<lambda>_ m.
         and_then (copy_dir env staged (rec_path r) m) (\<lambda>_ m.
         let m = cleanup env (rec_source r) staged m
         in and_then (store_registry env (bt_insert i (r\<lparr>rec_version := mf_version manifest,
                rec_description := mf_description manifest, rec_updated_at := now\<rparr>) registry) m) (\<lambda>_ m.
            (Inr \<lparr>uo_id = i, uo_old_version = rec_version r, uo_new_version = mf_version manifest, uo_path = rec_path r\<rparr>, m)))))))"

section \<open>Laws of the actions\<close>

lemma and_then_Inr: "and_then r f = (Inr b, t) \<longleftrightarrow> (\<exists>a s. r = (Inr a, s) \<and> f a s = (Inr b, t))"
  by (cases r; cases "fst r") auto

lemma map_of_drop_dirs: "map_of (drop_dirs p ds) q = (if p \<in> set (ancestors q) then None else map_of ds q)"
  by (induction ds) (auto simp: drop_dirs_def)

text \<open>Directories that are missing among some paths, made empty.\<close>

definition with_empties :: "rstring set \<Rightarrow> (rstring \<rightharpoonup> 'd directory) \<Rightarrow> (rstring \<rightharpoonup> 'd directory)" where
  "with_empties made ds = (\<lambda>q. case ds q of
     Some d \<Rightarrow> Some d | None \<Rightarrow> if q \<noteq> [] \<and> q \<in> made then Some Map.empty else None)"

lemma map_of_make_dirs: "map_of (make_dirs p ds) = with_empties (set (ancestors p)) (map_of ds)"
proof -
  have "map_of (fold (\<lambda>a ds. if a = [] \<or> map_of ds a \<noteq> None then ds else bt_insert a Map.empty ds) as ds) =
      with_empties (set as) (map_of ds)" for as
    by (induction as arbitrary: ds) (auto simp: with_empties_def map_of_bt_insert_any fun_eq_iff split: option.splits)
  then show ?thesis by (simp add: make_dirs_def)
qed

lemma create_dir_all_Inr:
  "create_dir_all env p m = (Inr (), m') \<longleftrightarrow>
     fs_fault env Op_Create p = None \<and> m' = m\<lparr>mgr_dirs := make_dirs p (mgr_dirs m)\<rparr>"
  by (auto simp: create_dir_all_def split: option.splits)

definition parent_dirs :: "rstring \<Rightarrow> rstring set" where
  "parent_dirs p = (case path_parent p of None \<Rightarrow> {} | Some q \<Rightarrow> set (ancestors q))"

lemma create_parent_Inr:
  assumes "create_parent env p m = (Inr (), m')"
  shows "\<exists>ds. m' = m\<lparr>mgr_dirs := ds\<rparr> \<and> map_of ds = with_empties (parent_dirs p) (map_of (mgr_dirs m))"
proof (cases "path_parent p")
  case None
  then have "m' = m\<lparr>mgr_dirs := mgr_dirs m\<rparr>" using assms by (simp add: create_parent_def)
  moreover have "with_empties {} (map_of (mgr_dirs m)) = map_of (mgr_dirs m)"
    by (rule ext) (simp add: with_empties_def split: option.split)
  ultimately show ?thesis using None by (intro exI [of _ "mgr_dirs m"]) (simp add: parent_dirs_def)
next
  case (Some q)
  then show ?thesis
    using assms by (intro exI [of _ "make_dirs q (mgr_dirs m)"]) (auto simp: create_parent_def create_dir_all_Inr parent_dirs_def map_of_make_dirs)
qed

lemma create_parent_again: "create_parent env p m = (Inr (), m') \<Longrightarrow> \<exists>s'. create_parent env p s = (Inr (), s')"
  by (auto simp: create_parent_def create_dir_all_Inr split: option.splits)

lemma create_parent_ok: "(\<And>q. fs_fault env Op_Create q = None) \<Longrightarrow> \<exists>s'. create_parent env f s = (Inr (), s')"
  by (simp add: create_parent_def create_dir_all_def split: option.split)

lemma remove_existing_Inr:
  "remove_existing env p m = (Inr (), m') \<Longrightarrow>
     m' = m\<lparr>mgr_dirs := if dir_exists m p then drop_dirs p (mgr_dirs m) else mgr_dirs m\<rparr>"
  by (auto simp: remove_existing_def remove_dir_def split: if_splits option.splits)

lemma copy_dir_Inr:
  "copy_dir env s p m = (Inr (), m') \<Longrightarrow> \<exists>d. m' = m\<lparr>mgr_dirs := bt_insert p d (make_dirs p (mgr_dirs m))\<rparr>"
  by (auto simp: copy_dir_def and_then_Inr create_dir_all_Inr split: option.splits)

lemma store_registry_Inr:
  "store_registry env r m = (Inr (), m') \<longleftrightarrow> fs_fault env Op_Registry (registry_path env) = None \<and>
     (\<exists>m1. create_parent env (registry_path env) m = (Inr (), m1) \<and> m' = m1\<lparr>mgr_registry := Inr r\<rparr>)"
  by (auto simp: store_registry_def and_then_Inr split: option.splits)

lemma write_enabled_Inr:
  "write_enabled_state env i b m = (Inr (), m') \<longleftrightarrow> fs_fault env Op_Settings (settings_path env) = None \<and>
   (\<exists>m1 root. create_parent env (settings_path env) m = (Inr (), m1) \<and> mgr_settings m1 = Inr (SObject root) \<and>
     m' = m1\<lparr>mgr_settings := Inr (SObject (bt_insert (lit ''enabledPlugins'')
      (SObject (case b of Some b \<Rightarrow> bt_insert i (SBool b) (ensure_object root (lit ''enabledPlugins''))
         | None \<Rightarrow> bt_remove i (ensure_object root (lit ''enabledPlugins'')))) root))\<rparr>)"
proof -
  have object: "settings_object v = Some es \<longleftrightarrow> v = SObject es" for v es by (cases v) auto
  have "(case settings_object v of None \<Rightarrow> Inl e | Some es \<Rightarrow> Inr es) = Inr root \<longleftrightarrow> v = SObject root" for v root and e :: plugin_error
    by (cases v) auto
  then show ?thesis
    unfolding write_enabled_state_def and_then_Inr ok_or_def Let_def
    by (cases "fs_fault env Op_Settings (settings_path env)"; cases b) (auto simp: object)
qed

text \<open>
  A plugin that came with the program, and one that is not installed, is not removed: the operation fails and the state is
  what it was.
\<close>

theorem uninstall_refused:
  assumes "mgr_registry m = Inr registry"
    and "case map_of registry i of None \<Rightarrow> True | Some r \<Rightarrow> rec_kind r = Plugin_Bundled"
  shows "snd (uninstall_plugin env i m) = m \<and> \<not> is_ok (fst (uninstall_plugin env i m))"
  using assms by (auto simp: uninstall_plugin_def split: option.splits)

text \<open>The plugins that the configuration enables are changed by the last step of an operation alone.\<close>

lemma keeps_enabled:
  assumes "\<And>a s. mgr_enabled (snd (f a s)) = mgr_enabled s"
  shows "mgr_enabled (snd (and_then r f)) = mgr_enabled (snd r)"
proof -
  obtain x s where r: "r = (x, s)" by (cases r)
  show ?thesis using assms by (cases x) (simp_all add: r)
qed

lemma primitives_keep_enabled:
  "mgr_enabled (snd (remove_existing env p m)) = mgr_enabled m"
  "mgr_enabled (snd (copy_dir env q p m)) = mgr_enabled m"
  "mgr_enabled (snd (store_registry env r m)) = mgr_enabled m"
proof -
  have create: "mgr_enabled (snd (create_dir_all env p s)) = mgr_enabled s" for p s
    by (simp add: create_dir_all_def split: option.split)
  have parent: "mgr_enabled (snd (create_parent env p s)) = mgr_enabled s" for p s
    by (simp add: create_parent_def create split: option.split)
  show "mgr_enabled (snd (remove_existing env p m)) = mgr_enabled m"
    by (auto simp: remove_existing_def remove_dir_def split: option.split)
  show "mgr_enabled (snd (copy_dir env q p m)) = mgr_enabled m"
    unfolding copy_dir_def by (subst keeps_enabled) (auto simp: create split: option.split)
  show "mgr_enabled (snd (store_registry env r m)) = mgr_enabled m"
    unfolding store_registry_def by (subst keeps_enabled) (auto simp: parent split: option.split)
qed

lemma sync_each_keeps_enabled: "mgr_enabled (snd (sync_each env now ps acc m)) = mgr_enabled m"
proof (induction ps arbitrary: acc m)
  case (Cons p ps)
  obtain registry active changed where acc: "acc = (registry, active, changed)" by (cases acc)
  show ?case by (auto simp: acc Let_def Cons keeps_enabled primitives_keep_enabled)
qed simp

lemma drop_stale_keeps_enabled: "mgr_enabled (snd (drop_stale env is r m)) = mgr_enabled m"
proof (induction "is" arbitrary: r m)
  case (Cons i "is")
  then show ?case by (auto simp: keeps_enabled primitives_keep_enabled split: option.split)
qed simp

lemma sync_keeps_enabled: "mgr_enabled (snd (sync_bundled_plugins env now m)) = mgr_enabled m"
proof -
  have "mgr_enabled (snd (if c then store_registry env r s else (Inr (), s))) = mgr_enabled s" for c r and s :: "'a manager"
    by (simp add: primitives_keep_enabled)
  then show ?thesis
    unfolding sync_bundled_plugins_def
    by (subst keeps_enabled; (simp add: Let_def split_beta)?)
      (subst keeps_enabled; simp add: sync_each_keeps_enabled drop_stale_keeps_enabled keeps_enabled Let_def split_beta)
qed

lemma discover_keeps_enabled: "mgr_enabled (snd (discover_installed env m)) = mgr_enabled m"
  unfolding discover_installed_def
  by (subst keeps_enabled) (auto simp: Let_def split_beta keeps_enabled primitives_keep_enabled)

lemma ensure_keeps_enabled: "mgr_enabled (snd (ensure_known_plugin env now i m)) = mgr_enabled m"
proof -
  have report: "mgr_enabled (snd (plugin_registry_report env now s)) = mgr_enabled s" for s
    unfolding plugin_registry_report_def
    by (subst keeps_enabled) (auto simp: keeps_enabled Let_def sync_keeps_enabled discover_keeps_enabled)
  have "mgr_enabled (snd (plugin_registry env now s)) = mgr_enabled s" for s
    unfolding plugin_registry_def by (subst keeps_enabled) (auto simp: report split_beta)
  then show ?thesis unfolding ensure_known_plugin_def by (subst keeps_enabled) auto
qed

text \<open>
  Enabling or disabling a plugin is written to the settings and to the configuration in memory, for this plugin alone.
\<close>

theorem enabled_state_kept:
  assumes "set_enabled env now b i m = (Inr (), m')"
  shows "\<exists>root states. mgr_settings m' = Inr (SObject root) \<and> map_of root (lit ''enabledPlugins'') = Some (SObject states) \<and>
     map_of states i = Some (SBool b) \<and> is_enabled m' md = (if pm_id md = i then b else is_enabled m md)"
proof -
  from assms obtain m1 m2 where run: "ensure_known_plugin env now i m = (Inr (), m1)"
    "write_enabled_state env i (Some b) m1 = (Inr (), m2)" "m' = m2\<lparr>mgr_enabled := bt_insert i b (mgr_enabled m2)\<rparr>"
    by (auto simp: set_enabled_def and_then_Inr)
  have "mgr_enabled m1 = mgr_enabled m" using ensure_keeps_enabled [of env now i m] run(1) by simp
  moreover have "mgr_enabled m2 = mgr_enabled m1" using run(2) by (auto simp: write_enabled_Inr dest!: create_parent_Inr)
  ultimately show ?thesis using run(2,3)
    by (auto simp: write_enabled_Inr map_of_bt_insert_any is_enabled_def)
qed

section \<open>Installing and removing\<close>

lemma install_local:
  assumes "install_plugin env now source m = (Inr out, m1)" and "parse_install_source m source = Inr (Local_Path p)"
  obtains d r registry root where "mgr_registry m = Inr registry" and "mgr_settings m = Inr (SObject root)"
    and "rec_path r = io_path out" and "rec_kind r = Plugin_External"
    and "fs_fault env Op_Registry (registry_path env) = None" and "fs_fault env Op_Settings (settings_path env) = None"
    and "\<And>s. \<exists>s'. create_parent env (registry_path env) s = (Inr (), s')"
    and "\<And>s. \<exists>s'. create_parent env (settings_path env) s = (Inr (), s')"
    and "mgr_enabled m1 = bt_insert (io_id out) True (mgr_enabled m)"
    and "mgr_registry m1 = Inr (bt_insert (io_id out) r registry)"
    and "mgr_settings m1 = Inr (SObject (bt_insert (lit ''enabledPlugins'') (SObject (bt_insert (io_id out) (SBool True)
        (ensure_object root (lit ''enabledPlugins'')))) root))"
    and "map_of (mgr_dirs m1) (io_path out) = Some d"
    and "\<And>q. io_path out \<notin> set (ancestors q) \<Longrightarrow> map_of (mgr_dirs m1) q = with_empties (set (ancestors (temp_root env)) \<union>
        set (ancestors (io_path out)) \<union> parent_dirs (registry_path env) \<union> parent_dirs (settings_path env)) (map_of (mgr_dirs m)) q"
proof -
  from assms obtain m0 manifest where m0: "create_dir_all env (temp_root env) m = (Inr (), m0)"
    and manifest: "load_dir env m0 p = Inr manifest"
    by (auto simp: install_plugin_def materialize_source_def and_then_Inr Let_def)
  let ?i = "plugin_id (mf_name manifest) (marketplace Plugin_External)"
  let ?path = "path_join (install_root env) (sanitize_plugin_id ?i)"
  let ?r = "\<lparr>rec_kind = Plugin_External, rec_id = ?i, rec_name = mf_name manifest, rec_version = mf_version manifest,
    rec_description = mf_description manifest, rec_path = ?path, rec_source = Local_Path p, rec_installed_at = now, rec_updated_at = now\<rparr>"
  from assms m0 manifest obtain m2 m3 registry m4 m5 where
    step: "remove_existing env ?path m0 = (Inr (), m2)" "copy_dir env p ?path m2 = (Inr (), m3)" "mgr_registry m3 = Inr registry"
    "store_registry env (bt_insert ?i ?r registry) m3 = (Inr (), m4)" "write_enabled_state env ?i (Some True) m4 = (Inr (), m5)"
    "m1 = m5\<lparr>mgr_enabled := bt_insert ?i True (mgr_enabled m5)\<rparr>" "out = \<lparr>io_id = ?i, io_version = mf_version manifest, io_path = ?path\<rparr>"
    by (auto simp: install_plugin_def materialize_source_def and_then_Inr Let_def cleanup_def)
  note m0 = m0 [unfolded create_dir_all_Inr]
  note m2 = remove_existing_Inr [OF step(1)]
  from copy_dir_Inr [OF step(2)] obtain d where m3: "m3 = m2\<lparr>mgr_dirs := bt_insert ?path d (make_dirs ?path (mgr_dirs m2))\<rparr>" by blast
  from step(4) obtain m3' where p4: "create_parent env (registry_path env) m3 = (Inr (), m3')"
    and m4: "fs_fault env Op_Registry (registry_path env) = None" "m4 = m3'\<lparr>mgr_registry := Inr (bt_insert ?i ?r registry)\<rparr>"
    by (auto simp: store_registry_Inr)
  from create_parent_Inr [OF p4] obtain ds4 where m3': "m3' = m3\<lparr>mgr_dirs := ds4\<rparr>"
    and ds4: "map_of ds4 = with_empties (parent_dirs (registry_path env)) (map_of (mgr_dirs m3))" by blast
  from step(5) obtain m4' root where p5: "create_parent env (settings_path env) m4 = (Inr (), m4')"
    and m5: "fs_fault env Op_Settings (settings_path env) = None" "mgr_settings m4' = Inr (SObject root)"
    "m5 = m4'\<lparr>mgr_settings := Inr (SObject (bt_insert (lit ''enabledPlugins'') (SObject (bt_insert ?i (SBool True)
        (ensure_object root (lit ''enabledPlugins'')))) root))\<rparr>"
    by (auto simp: write_enabled_Inr)
  from create_parent_Inr [OF p5] obtain ds5 where m4': "m4' = m4\<lparr>mgr_dirs := ds5\<rparr>"
    and ds5: "map_of ds5 = with_empties (parent_dirs (settings_path env)) (map_of (mgr_dirs m4))" by blast
  have io: "io_id out = ?i" "io_path out = ?path" by (simp_all add: step(7))
  have dirs: "map_of (mgr_dirs m1) q = with_empties (set (ancestors (temp_root env)) \<union>
      set (ancestors ?path) \<union> parent_dirs (registry_path env) \<union> parent_dirs (settings_path env)) (map_of (mgr_dirs m)) q"
    if "?path \<notin> set (ancestors q)" for q
  proof -
    have "q \<noteq> ?path" using that by auto
    then show ?thesis
      using that by (auto simp: step(6) m5 m4' ds5 m4(2) m3' ds4 m3 m2 m0 map_of_bt_insert_any map_of_make_dirs map_of_drop_dirs
          with_empties_def split: option.splits)
  qed
  have "map_of (mgr_dirs m1) ?path = Some d"
    by (simp add: step(6) m5 m4' ds5 m4(2) m3' ds4 m3 map_of_bt_insert_any with_empties_def)
  then show thesis
    using that [of registry root ?r d] step(3) m4(1) m5(1,2) create_parent_again [OF p4] create_parent_again [OF p5] dirs
    by (simp add: io step(6) m5 m4' m4(2) m3' m3 m2 m0)
qed

text \<open>
  C33: A plugin that no registry entry, setting or directory knew, installed from a local directory and removed again: the
  registry, the enabled plugins and every directory that was there are as before.  What stays are the directories made on
  the way, empty, \<^verbatim>\<open>.tmp\<close> among them, and an object of enabled plugins in the settings where there was none.  The files of
  the registry and of the settings lie outside of the directory of the plugin, and that directory can be removed.
\<close>

theorem install_uninstall:
  assumes "install_plugin env now source m = (Inr out, m1)" and "parse_install_source m source = Inr (Local_Path p)"
    and "mgr_registry m = Inr registry" and "map_of registry (io_id out) = None"
    and "mgr_settings m = Inr (SObject root)" and "map_of (ensure_object root (lit ''enabledPlugins'')) (io_id out) = None"
    and "map_of (mgr_enabled m) (io_id out) = None"
    and "\<And>q. io_path out \<in> set (ancestors q) \<Longrightarrow> map_of (mgr_dirs m) q = None"
    and "io_path out \<notin> parent_dirs (registry_path env) \<union> parent_dirs (settings_path env)"
    and "fs_fault env Op_Remove (io_path out) = None"
  shows "\<exists>m2. uninstall_plugin env (io_id out) m1 = (Inr (), m2) \<and>
     mgr_registry m2 = mgr_registry m \<and> mgr_enabled m2 = mgr_enabled m \<and>
     mgr_settings m2 = Inr (SObject (bt_insert (lit ''enabledPlugins'') (SObject (ensure_object root (lit ''enabledPlugins''))) root)) \<and>
     map_of (mgr_dirs m2) = with_empties {q \<in> set (ancestors (temp_root env)) \<union> set (ancestors (io_path out)) \<union>
       parent_dirs (registry_path env) \<union> parent_dirs (settings_path env). io_path out \<notin> set (ancestors q)} (map_of (mgr_dirs m))"
proof -
  obtain d r registry' root' where found: "mgr_registry m = Inr registry'" "mgr_settings m = Inr (SObject root')"
    and rec: "rec_path r = io_path out" "rec_kind r = Plugin_External"
    and faults: "fs_fault env Op_Registry (registry_path env) = None" "fs_fault env Op_Settings (settings_path env) = None"
    and parents: "\<And>s. \<exists>s'. create_parent env (registry_path env) s = (Inr (), s')"
      "\<And>s. \<exists>s'. create_parent env (settings_path env) s = (Inr (), s')"
    and m1: "mgr_enabled m1 = bt_insert (io_id out) True (mgr_enabled m)"
      "mgr_registry m1 = Inr (bt_insert (io_id out) r registry')"
      "mgr_settings m1 = Inr (SObject (bt_insert (lit ''enabledPlugins'') (SObject (bt_insert (io_id out) (SBool True)
        (ensure_object root' (lit ''enabledPlugins'')))) root'))"
      "map_of (mgr_dirs m1) (io_path out) = Some d"
    and dirs: "\<And>q. io_path out \<notin> set (ancestors q) \<Longrightarrow> map_of (mgr_dirs m1) q = with_empties (set (ancestors (temp_root env)) \<union>
        set (ancestors (io_path out)) \<union> parent_dirs (registry_path env) \<union> parent_dirs (settings_path env)) (map_of (mgr_dirs m)) q"
    by (rule install_local [OF assms(1,2)]) (rule that, assumption+)
  have same: "registry' = registry" "root' = root" using found assms(3,5) by simp_all
  let ?m1 = "m1\<lparr>mgr_dirs := drop_dirs (io_path out) (mgr_dirs m1)\<rparr>"
  have removed: "remove_existing env (io_path out) m1 = (Inr (), ?m1)"
    using m1(4) assms(10) by (simp add: remove_existing_def remove_dir_def dir_exists_def)
  obtain s2 where p2: "create_parent env (registry_path env) ?m1 = (Inr (), s2)" using parents(1) by blast
  from create_parent_Inr [OF p2] obtain ds2 where s2: "s2 = ?m1\<lparr>mgr_dirs := ds2\<rparr>"
    and ds2: "map_of ds2 = with_empties (parent_dirs (registry_path env)) (map_of (drop_dirs (io_path out) (mgr_dirs m1)))" by auto
  let ?m2 = "s2\<lparr>mgr_registry := Inr registry\<rparr>"
  have registry: "bt_remove (io_id out) (bt_insert (io_id out) r registry) = registry"
    using assms(4) by (simp add: bt_remove_insert bt_remove_absent)
  have stored: "store_registry env registry ?m1 = (Inr (), ?m2)" using faults(1) p2 by (auto simp: store_registry_Inr)
  obtain s3 where p3: "create_parent env (settings_path env) ?m2 = (Inr (), s3)" using parents(2) by blast
  from create_parent_Inr [OF p3] obtain ds3 where s3: "s3 = ?m2\<lparr>mgr_dirs := ds3\<rparr>"
    and ds3: "map_of ds3 = with_empties (parent_dirs (settings_path env)) (map_of (mgr_dirs ?m2))" by auto
  have kept: "bt_remove (io_id out) (bt_insert (io_id out) (SBool True) (ensure_object root (lit ''enabledPlugins''))) =
      ensure_object root (lit ''enabledPlugins'')"
    using assms(6) by (simp add: bt_remove_insert bt_remove_absent)
  let ?m3 = "s3\<lparr>mgr_settings := Inr (SObject (bt_insert (lit ''enabledPlugins'')
    (SObject (ensure_object root (lit ''enabledPlugins''))) root))\<rparr>"
  have inner: "ensure_object (bt_insert k (SObject es) root) k = es" for k es
    by (simp add: ensure_object_def map_of_bt_insert_any)
  have written: "write_enabled_state env (io_id out) None ?m2 = (Inr (), ?m3)"
    unfolding write_enabled_Inr using faults(2) p3 by (auto simp: s3 s2 m1(3) same inner kept)
  have "uninstall_plugin env (io_id out) m1 = (Inr (), ?m3\<lparr>mgr_enabled := bt_remove (io_id out) (mgr_enabled ?m3)\<rparr>)"
    using rec removed stored written by (simp add: uninstall_plugin_def m1(2) same map_of_bt_insert_any registry)
  moreover have "bt_remove (io_id out) (bt_insert (io_id out) True (mgr_enabled m)) = mgr_enabled m"
    using assms(7) by (simp add: bt_remove_insert bt_remove_absent)
  moreover have "map_of ds3 q = with_empties {q \<in> set (ancestors (temp_root env)) \<union> set (ancestors (io_path out)) \<union>
       parent_dirs (registry_path env) \<union> parent_dirs (settings_path env). io_path out \<notin> set (ancestors q)} (map_of (mgr_dirs m)) q" for q
  proof (cases "io_path out \<in> set (ancestors q)")
    case True
    have "q \<notin> parent_dirs f" if "io_path out \<notin> parent_dirs f" for f
      using that True ancestors_trans by (auto simp: parent_dirs_def split: option.splits)
    then show ?thesis
      using True assms(8,9) by (simp add: ds3 s2 ds2 with_empties_def map_of_drop_dirs)
  next
    case False
    then show ?thesis
      by (simp add: ds3 s2 ds2 with_empties_def [of "parent_dirs _"] map_of_drop_dirs dirs) (auto simp: with_empties_def split: option.splits)
  qed
  ultimately show ?thesis by (auto simp: s3 s2 m1(1) assms(3))
qed

text \<open>Where no operation of the file system fails, installing a local plugin succeeds.\<close>

lemma install_succeeds:
  assumes "parse_install_source m source = Inr (Local_Path p)" and "load_dir env m p = Inr manifest"
    and "\<And>op p. fs_fault env op p = None" and "mgr_registry m = Inr registry" and "mgr_settings m = Inr (SObject root)"
    and "i = plugin_id (mf_name manifest) (marketplace Plugin_External)"
    and "target = path_join (install_root env) (sanitize_plugin_id i)" and "target \<noteq> []"
    and "p = target \<or> target \<notin> set (ancestors p)"
  shows "\<exists>out m'. install_plugin env now source m = (Inr out, m') \<and> io_id out = i \<and> io_path out = target \<and>
     map_of (mgr_dirs m') target = (if p = target then Some Map.empty else map_of (mgr_dirs m) p)"
proof -
  obtain d where d: "map_of (mgr_dirs m) p = Some d" using assms(2)
    by (auto simp: load_dir_def plugin_manifest_path_def Let_def split: option.splits)
  let ?m0 = "m\<lparr>mgr_dirs := make_dirs (temp_root env) (mgr_dirs m)\<rparr>"
  have m0: "create_dir_all env (temp_root env) m = (Inr (), ?m0)" by (simp add: create_dir_all_Inr assms(3))
  have d0: "map_of (mgr_dirs ?m0) p = Some d" using d by (simp add: map_of_make_dirs with_empties_def)
  then have manifest: "load_dir env ?m0 p = Inr manifest" using assms(2) d by (simp add: load_dir_def)
  let ?m1 = "?m0\<lparr>mgr_dirs := if dir_exists ?m0 target then drop_dirs target (mgr_dirs ?m0) else mgr_dirs ?m0\<rparr>"
  have removed: "remove_existing env target ?m0 = (Inr (), ?m1)"
    by (simp add: remove_existing_def remove_dir_def assms(3))
  have "map_of (mgr_dirs ?m1) target = None" by (simp add: map_of_drop_dirs dir_exists_def)
  then have fresh: "map_of (make_dirs target (mgr_dirs ?m1)) target = Some Map.empty"
    using assms(8) by (simp add: map_of_make_dirs with_empties_def)
  let ?d = "if p = target then Map.empty else d"
  have "map_of (make_dirs target (mgr_dirs ?m1)) p = Some ?d"
  proof (cases "p = target")
    case True
    then show ?thesis using fresh by simp
  next
    case False
    then have "map_of (mgr_dirs ?m1) p = Some d" using d0 assms(9) by (simp add: map_of_drop_dirs)
    then show ?thesis using False by (simp only: map_of_make_dirs with_empties_def option.case if_False)
  qed
  then have copied: "copy_dir env p target ?m1 = (Inr (), ?m1\<lparr>mgr_dirs := bt_insert target ?d (make_dirs target (mgr_dirs ?m1))\<rparr>)"
    (is "_ = (_, ?m2)") using fresh by (simp add: copy_dir_def create_dir_all_def assms(3))
  have parent: "\<exists>s'. create_parent env p s = (Inr (), s')" for p s
    by (rule create_parent_ok) (rule assms(3))
  let ?r = "\<lparr>rec_kind = Plugin_External, rec_id = i, rec_name = mf_name manifest, rec_version = mf_version manifest,
    rec_description = mf_description manifest, rec_path = target, rec_source = Local_Path p, rec_installed_at = now, rec_updated_at = now\<rparr>"
  obtain s3 where p3: "create_parent env (registry_path env) ?m2 = (Inr (), s3)" using parent by blast
  let ?m3 = "s3\<lparr>mgr_registry := Inr (bt_insert i ?r registry)\<rparr>"
  have stored: "store_registry env (bt_insert i ?r registry) ?m2 = (Inr (), ?m3)" using p3 by (auto simp: store_registry_Inr assms(3))
  obtain s4 where p4: "create_parent env (settings_path env) ?m3 = (Inr (), s4)" using parent by blast
  from create_parent_Inr [OF p3] obtain ds3 where s3: "s3 = ?m2\<lparr>mgr_dirs := ds3\<rparr>"
    and ds3: "map_of ds3 = with_empties (parent_dirs (registry_path env)) (map_of (mgr_dirs ?m2))" by blast
  from create_parent_Inr [OF p4] obtain ds4 where s4: "s4 = ?m3\<lparr>mgr_dirs := ds4\<rparr>"
    and ds4: "map_of ds4 = with_empties (parent_dirs (settings_path env)) (map_of (mgr_dirs ?m3))" by blast
  have "\<exists>m4. write_enabled_state env i (Some True) ?m3 = (Inr (), m4) \<and> mgr_dirs m4 = ds4"
    unfolding write_enabled_Inr using p4 assms(5) by (auto simp: assms(3) s4 s3)
  then obtain m4 where written: "write_enabled_state env i (Some True) ?m3 = (Inr (), m4)" "mgr_dirs m4 = ds4" by blast
  have "map_of ds4 target = Some ?d"
    by (simp add: ds4 s3 ds3 with_empties_def map_of_bt_insert_any)
  moreover have "install_plugin env now source m = (Inr \<lparr>io_id = i, io_version = mf_version manifest, io_path = target\<rparr>,
      m4\<lparr>mgr_enabled := bt_insert i True (mgr_enabled m4)\<rparr>)"
    using manifest removed copied stored written(1) assms(1,4)
    by (simp add: install_plugin_def materialize_source_def m0 Let_def assms(6) [symmetric] assms(7) [symmetric] cleanup_def
        del: marketplace.simps)
  ultimately show ?thesis using d by (simp add: written(2))
qed

text \<open>
  C27: Installing a plugin from the directory that it is installed in destroys it without an error: the directory is
  removed and made anew before it is read, so nothing is copied; the operation succeeds, and the plugin is registered and
  enabled with an empty directory.
\<close>

theorem install_from_own_directory:
  assumes "parse_install_source m source = Inr (Local_Path source)" and "load_dir env m source = Inr manifest"
    and "source = path_join (install_root env) (sanitize_plugin_id (plugin_id (mf_name manifest) (marketplace Plugin_External)))"
    and "\<And>op p. fs_fault env op p = None" and "mgr_registry m = Inr registry" and "mgr_settings m = Inr (SObject root)"
    and "source \<noteq> []"
  shows "\<exists>out m' reg r. install_plugin env now source m = (Inr out, m') \<and> map_of (mgr_dirs m') source = Some Map.empty \<and>
           mgr_registry m' = Inr reg \<and> map_of reg (io_id out) = Some r \<and> rec_path r = source \<and>
           map_of (mgr_enabled m') (io_id out) = Some True"
proof -
  from install_succeeds [OF assms(1,2,4,5,6) refl assms(3,7)] obtain out m' where
    run: "install_plugin env now source m = (Inr out, m')" and out: "io_path out = source" "map_of (mgr_dirs m') source = Some Map.empty"
    by fastforce
  obtain r registry' where "rec_path r = io_path out" "mgr_enabled m' = bt_insert (io_id out) True (mgr_enabled m)"
    "mgr_registry m' = Inr (bt_insert (io_id out) r registry')"
    by (rule install_local [OF run assms(1)]) blast
  then show ?thesis using run out by (auto simp: map_of_bt_insert_any)
qed

section \<open>Instances\<close>

text \<open>Directories that hold the name of a plugin, in a file system that does not fail.\<close>

definition demo_manifest :: "rstring \<Rightarrow> raw_plugin_manifest" where
  "demo_manifest name = \<lparr>rp_name = name, rp_version = lit ''1'', rp_description = lit ''d'', rp_permissions = [],
     rp_default_enabled = False, rp_hooks = no_plugin_hooks, rp_lifecycle = \<lparr>pl_init = [], pl_shutdown = []\<rparr>,
     rp_tools = [], rp_commands = []\<rparr>"

definition demo_dir :: "rstring \<Rightarrow> rstring directory" where
  "demo_dir name = [lit ''plugin.json'' \<mapsto> name]"

definition demo_plugins :: "rstring manager_env" where
  "demo_plugins = \<lparr>config_home = lit ''/h'', external_dirs = [], install_root_override = Some (lit ''/i''),
     registry_path_override = None, bundled_dir = lit ''/b'',
     reader_of = (\<lambda>d root. \<lparr>path_kind = (\<lambda>p. if p = path_join root (lit ''plugin.json'') \<and> d (lit ''plugin.json'') \<noteq> None
         then Plain_File else No_File),
       read_text = (\<lambda>_. ok_or [] (d (lit ''plugin.json''))), parse_manifest = (\<lambda>name. Inr (demo_manifest name))\<rparr>),
     git_clone = (\<lambda>_. Inl (Plugin_Io [])), fs_fault = (\<lambda>_ _. None)\<rparr>"

definition demo_manager :: "(rstring \<times> rstring) list \<Rightarrow> rstring manager" where
  "demo_manager ds = \<lparr>mgr_enabled = [], mgr_dirs = map (\<lambda>(p, name). (p, demo_dir name)) ds, mgr_registry = Inr [],
     mgr_settings = Inr (SObject [(lit ''enabledPlugins'', SObject [])])\<rparr>"

lemma plugin_demo_load:
  assumes "trim name \<noteq> []" and "map_of (mgr_dirs m) p = Some (demo_dir name)"
  shows "load_dir demo_plugins m p = Inr (manifest_of (demo_manifest name))"
proof -
  have "trim (lit ''1'') \<noteq> []" "trim (lit ''d'') \<noteq> []" by (simp_all add: lit_def str_defs)
  then have "manifest_ok fs p (demo_manifest name)" for fs
    using assms(1) by (simp add: manifest_ok_def demo_manifest_def permissions_ok_def no_plugin_hooks_def)
  then have "build_plugin_manifest fs p (demo_manifest name) = Inr (manifest_of (demo_manifest name))" for fs
    by (simp add: manifest_accepted)
  then show ?thesis using assms(2)
    by (simp add: load_dir_def demo_plugins_def demo_dir_def ok_or_def load_plugin_from_directory_def plugin_manifest_path_def load_manifest_from_path_def)
qed

lemma plugin_demo_trim: "trim (lit ''a'') = lit ''a''" "trim (lit ''a/b'') = lit ''a/b''" "trim (lit ''a-b'') = lit ''a-b''"
  by (simp_all add: lit_def str_defs)

theorem uninstall_refused_witness:
  "snd (uninstall_plugin demo_plugins (lit ''x'') (demo_manager [])) = demo_manager [] \<and>
   \<not> is_ok (fst (uninstall_plugin demo_plugins (lit ''x'') (demo_manager [])))"
  by (rule uninstall_refused [where registry = "[]"]) (simp_all add: demo_manager_def)

lemma demo_paths:
  "path_join (lit ''/i'') (lit ''a-external'') = lit ''/i/a-external''" "plugin_id (lit ''a'') (lit ''external'') = lit ''a@external''"
  "sanitize_plugin_id (lit ''a@external'') = lit ''a-external''" "install_root demo_plugins = lit ''/i''"
  "path_join (lit ''/i'') (lit ''.tmp'') = lit ''/i/.tmp''"
  by (simp_all add: path_join_def plugin_id_def sanitize_plugin_id_def install_root_def demo_plugins_def)
    (simp_all add: lit_def starts_with_def ends_with_def Sublist.suffix_def)

lemma demo_sources:
  assumes "p \<in> {lit ''/a'', lit ''/p'', lit ''/q'', lit ''/i/a-external''}" and "dir_exists m p"
  shows "parse_install_source m p = Inr (Local_Path p)"
proof -
  have "path_extension p = None" using assms(1)
    by (auto simp: path_extension_def file_name_def path_components_def components_def lit_def starts_with_def dotdot_def)
  moreover have "\<not> starts_with p (lit ''http://'')" "\<not> starts_with p (lit ''https://'')" "\<not> starts_with p (lit ''git@'')"
    using assms(1) by (auto simp: starts_with_def lit_def)
  ultimately show ?thesis using assms(2) by (simp add: parse_install_source_def)
qed

lemma demo_faults [simp]: "fs_fault demo_plugins op p = None"
  by (simp add: demo_plugins_def)

text \<open>An installation in the instance: the new state has the copy, the record and the enabled plugin.\<close>

lemma demo_install:
  assumes "p \<in> {lit ''/a'', lit ''/p'', lit ''/q''}" and "map_of (mgr_dirs m) p = Some (demo_dir name)" and "trim name \<noteq> []"
    and "mgr_registry m = Inr registry" and "mgr_settings m = Inr (SObject root)"
    and "i = plugin_id name (lit ''external'')" and "target = path_join (lit ''/i'') (sanitize_plugin_id i)"
    and "target \<noteq> []" and "target \<notin> set (ancestors p)"
  shows "\<exists>out m' r root'. install_plugin demo_plugins now p m = (Inr out, m') \<and> io_id out = i \<and> io_path out = target \<and>
    map_of (mgr_dirs m') target = Some (demo_dir name) \<and>
    (\<forall>q d. target \<notin> set (ancestors q) \<longrightarrow> map_of (mgr_dirs m) q = Some d \<longrightarrow> map_of (mgr_dirs m') q = Some d) \<and>
    mgr_registry m' = Inr (bt_insert i r registry) \<and> rec_path r = target \<and> rec_kind r = Plugin_External \<and>
    mgr_settings m' = Inr (SObject root')"
proof -
  have source: "parse_install_source m p = Inr (Local_Path p)"
    using demo_sources [of p m] assms(1,2) by (auto simp: dir_exists_def)
  have name: "mf_name (manifest_of (demo_manifest name)) = name" by (simp add: manifest_of_def demo_manifest_def)
  have apart: "p \<noteq> target" using assms(9) by auto
  obtain out m' where run: "install_plugin demo_plugins now p m = (Inr out, m')" "io_id out = i" "io_path out = target"
    "map_of (mgr_dirs m') target = Some (demo_dir name)"
    using install_succeeds [OF source plugin_demo_load [OF assms(3,2)] demo_faults assms(4,5), of i target now]
      assms(2,6-9) apart by (auto simp: name demo_paths)
  obtain r registry' root' where "mgr_registry m = Inr registry'" "rec_path r = target" "rec_kind r = Plugin_External"
    "mgr_registry m' = Inr (bt_insert i r registry')" "mgr_settings m' = Inr (SObject root')"
    "\<And>q. target \<notin> set (ancestors q) \<Longrightarrow> map_of (mgr_dirs m') q = with_empties (set (ancestors (temp_root demo_plugins)) \<union>
        set (ancestors target) \<union> parent_dirs (registry_path demo_plugins) \<union> parent_dirs (settings_path demo_plugins)) (map_of (mgr_dirs m)) q"
    by (rule install_local [OF run(1) source]) (simp only: run(2,3), blast)
  with run assms(4) show ?thesis
    by (intro exI [of _ out] exI [of _ m'] exI [of _ r] exI [of _ root']) (simp add: with_empties_def)
qed

lemma demo_ancestors:
  "set (ancestors (lit ''/a'')) = {lit ''/a'', lit ''/''}" "set (ancestors (lit ''/p'')) = {lit ''/p'', lit ''/''}"
  "set (ancestors (lit ''/q'')) = {lit ''/q'', lit ''/''}"
  "parent_dirs (registry_path demo_plugins) = {lit ''/h/plugins'', lit ''/h'', lit ''/''}"
  "parent_dirs (settings_path demo_plugins) = {lit ''/h'', lit ''/''}"
  by (simp_all add: ancestors.simps path_parent_def parent_dirs_def registry_path_def settings_path_def demo_plugins_def
      path_join_def lit_def starts_with_def ends_with_def Sublist.suffix_def)

theorem install_uninstall_witness:
  "\<exists>out m1 m2. install_plugin demo_plugins 7 (lit ''/a'') (demo_manager [(lit ''/a'', lit ''a'')]) = (Inr out, m1) \<and>
     uninstall_plugin demo_plugins (io_id out) m1 = (Inr (), m2) \<and> mgr_registry m2 = Inr [] \<and> mgr_enabled m2 = [] \<and>
     map_of (mgr_dirs m2) (lit ''/a'') = Some (demo_dir (lit ''a''))"
proof -
  let ?m = "demo_manager [(lit ''/a'', lit ''a'')]"
  have far: "lit ''/i/a-external'' \<notin> set (ancestors (lit ''/a''))" by (simp add: demo_ancestors)
  have "\<exists>out m' r root'. install_plugin demo_plugins 7 (lit ''/a'') ?m = (Inr out, m') \<and> io_id out = lit ''a@external'' \<and>
      io_path out = lit ''/i/a-external'' \<and> map_of (mgr_dirs m') (lit ''/i/a-external'') = Some (demo_dir (lit ''a'')) \<and>
    (\<forall>q d. lit ''/i/a-external'' \<notin> set (ancestors q) \<longrightarrow> map_of (mgr_dirs ?m) q = Some d \<longrightarrow> map_of (mgr_dirs m') q = Some d) \<and>
    mgr_registry m' = Inr (bt_insert (lit ''a@external'') r []) \<and> rec_path r = lit ''/i/a-external'' \<and> rec_kind r = Plugin_External \<and>
    mgr_settings m' = Inr (SObject root')"
    by (rule demo_install) (use far in \<open>simp_all add: demo_manager_def plugin_demo_trim demo_paths\<close>)
  then obtain out m1 where run: "install_plugin demo_plugins 7 (lit ''/a'') ?m = (Inr out, m1)"
    "io_id out = lit ''a@external''" "io_path out = lit ''/i/a-external''" by blast
  have source: "parse_install_source ?m (lit ''/a'') = Inr (Local_Path (lit ''/a''))"
    by (rule demo_sources) (simp_all add: dir_exists_def demo_manager_def)
  have "map_of (mgr_dirs ?m) q = None" if "io_path out \<in> set (ancestors q)" for q
    using that far run(3) by (auto simp: demo_manager_def)
  moreover have "io_path out \<notin> parent_dirs (registry_path demo_plugins) \<union> parent_dirs (settings_path demo_plugins)"
    by (simp add: run(3) demo_ancestors)
  ultimately show ?thesis
    using install_uninstall [OF run(1) source, of "[]" "[(lit ''enabledPlugins'', SObject [])]"] run(1)
    by (auto simp: demo_manager_def ensure_object_def with_empties_def)
qed

theorem install_from_own_directory_witness:
  "\<exists>out m'. install_plugin demo_plugins 7 (lit ''/i/a-external'')
      (demo_manager [(lit ''/i/a-external'', lit ''a'')]) = (Inr out, m') \<and>
     map_of (mgr_dirs m') (lit ''/i/a-external'') = Some Map.empty"
proof -
  let ?m = "demo_manager [(lit ''/i/a-external'', lit ''a'')]"
  have source: "parse_install_source ?m (lit ''/i/a-external'') = Inr (Local_Path (lit ''/i/a-external''))"
    by (rule demo_sources) (simp_all add: dir_exists_def demo_manager_def)
  have load: "load_dir demo_plugins ?m (lit ''/i/a-external'') = Inr (manifest_of (demo_manifest (lit ''a'')))"
    by (rule plugin_demo_load) (simp_all add: demo_manager_def plugin_demo_trim)
  have path: "lit ''/i/a-external'' = path_join (install_root demo_plugins)
      (sanitize_plugin_id (plugin_id (mf_name (manifest_of (demo_manifest (lit ''a'')))) (marketplace Plugin_External)))"
    by (simp add: manifest_of_def demo_manifest_def demo_paths)
  show ?thesis
    using install_from_own_directory [OF source load path demo_faults, of "[]" "[(lit ''enabledPlugins'', SObject [])]" 7]
    by (auto simp: demo_manager_def lit_def)
qed

theorem enabled_state_kept_witness:
  "\<exists>m' root states. set_enabled demo_plugins 7 True (lit ''example-builtin@builtin'') (demo_manager []) = (Inr (), m') \<and>
     mgr_settings m' = Inr (SObject root) \<and> map_of root (lit ''enabledPlugins'') = Some (SObject states) \<and>
     map_of states (lit ''example-builtin@builtin'') = Some (SBool True)"
proof -
  let ?m = "demo_manager []"
  have sync: "sync_bundled_plugins demo_plugins 7 ?m = (Inr (), ?m)"
    by (simp add: sync_bundled_plugins_def demo_manager_def discover_plugin_dirs_def)
  have disc: "discover_installed demo_plugins ?m = (Inr \<lparr>found = [], failures = []\<rparr>, ?m)"
    by (simp add: discover_installed_def demo_manager_def discover_plugin_dirs_def Let_def)
  have id: "plugin_id (lit ''example-builtin'') (lit ''builtin'') = lit ''example-builtin@builtin''" by (simp add: plugin_id_def lit_def)
  have "ensure_known_plugin demo_plugins 7 (lit ''example-builtin@builtin'') ?m = (Inr (), ?m)"
    by (simp add: ensure_known_plugin_def plugin_registry_def plugin_registry_report_def sync disc discover_external_def
        build_registry_def plugin_registry_new_def plugin_registry_get_def builtin_plugins_def id Let_def)
      (simp add: demo_plugins_def)
  moreover obtain m1 where "create_parent demo_plugins (settings_path demo_plugins) ?m = (Inr (), m1)"
    using create_parent_ok [of demo_plugins "settings_path demo_plugins" ?m] by auto
  moreover from create_parent_Inr [OF this] have "mgr_settings m1 = Inr (SObject [(lit ''enabledPlugins'', SObject [])])"
    by (auto simp: demo_manager_def)
  ultimately obtain m' where run: "set_enabled demo_plugins 7 True (lit ''example-builtin@builtin'') ?m = (Inr (), m')"
    by (simp add: set_enabled_def write_enabled_state_def Let_def)
  from enabled_state_kept [OF run] run show ?thesis by blast
qed

text \<open>
  Names that differ in a slash and a dash have different ids and the same directory.  The second plugin takes the place of
  the first; when the first is removed, the directory of the second is gone, and its record stays.
\<close>

theorem install_paths_collide:
  "\<exists>first m1 second m2 m3 registry r.
     install_plugin demo_plugins 7 (lit ''/p'') (demo_manager [(lit ''/p'', lit ''a-b''), (lit ''/q'', lit ''a/b'')]) = (Inr first, m1) \<and>
     install_plugin demo_plugins 7 (lit ''/q'') m1 = (Inr second, m2) \<and> io_id first \<noteq> io_id second \<and> io_path first = io_path second \<and>
     uninstall_plugin demo_plugins (io_id first) m2 = (Inr (), m3) \<and> mgr_registry m3 = Inr registry \<and>
     map_of registry (io_id second) = Some r \<and> \<not> dir_exists m3 (rec_path r)"
proof -
  let ?m = "demo_manager [(lit ''/p'', lit ''a-b''), (lit ''/q'', lit ''a/b'')]"
  let ?t = "lit ''/i/a-b-external''" and ?i = "lit ''a-b@external''" and ?j = "lit ''a/b@external''"
  have paths: "path_join (lit ''/i'') (sanitize_plugin_id ?i) = ?t" "path_join (lit ''/i'') (sanitize_plugin_id ?j) = ?t"
    "plugin_id (lit ''a-b'') (lit ''external'') = ?i" "plugin_id (lit ''a/b'') (lit ''external'') = ?j"
    by (simp_all add: path_join_def plugin_id_def sanitize_plugin_id_def lit_def starts_with_def ends_with_def Sublist.suffix_def)
  have far: "?t \<notin> set (ancestors (lit ''/p''))" "?t \<notin> set (ancestors (lit ''/q''))" "?t \<noteq> []"
    by (simp_all add: demo_ancestors)
  have "\<exists>out m' r root'. install_plugin demo_plugins 7 (lit ''/p'') ?m = (Inr out, m') \<and> io_id out = ?i \<and> io_path out = ?t \<and>
    map_of (mgr_dirs m') ?t = Some (demo_dir (lit ''a-b'')) \<and>
    (\<forall>q d. ?t \<notin> set (ancestors q) \<longrightarrow> map_of (mgr_dirs ?m) q = Some d \<longrightarrow> map_of (mgr_dirs m') q = Some d) \<and>
    mgr_registry m' = Inr (bt_insert ?i r []) \<and> rec_path r = ?t \<and> rec_kind r = Plugin_External \<and>
    mgr_settings m' = Inr (SObject root')"
    by (rule demo_install) (use far in \<open>simp_all add: demo_manager_def plugin_demo_trim paths\<close>)
  then obtain first m1 r1 root1 where one: "install_plugin demo_plugins 7 (lit ''/p'') ?m = (Inr first, m1)" "io_id first = ?i"
    "io_path first = ?t" "mgr_registry m1 = Inr [(?i, r1)]" "rec_path r1 = ?t" "rec_kind r1 = Plugin_External"
    "mgr_settings m1 = Inr (SObject root1)"
    and kept: "\<And>q d. ?t \<notin> set (ancestors q) \<Longrightarrow> map_of (mgr_dirs ?m) q = Some d \<Longrightarrow> map_of (mgr_dirs m1) q = Some d" by auto
  have "map_of (mgr_dirs m1) (lit ''/q'') = Some (demo_dir (lit ''a/b''))"
    by (rule kept [OF far(2)]) (simp add: demo_manager_def lit_def)
  then have "\<exists>out m' r root'. install_plugin demo_plugins 7 (lit ''/q'') m1 = (Inr out, m') \<and> io_id out = ?j \<and> io_path out = ?t \<and>
    map_of (mgr_dirs m') ?t = Some (demo_dir (lit ''a/b'')) \<and>
    (\<forall>q d. ?t \<notin> set (ancestors q) \<longrightarrow> map_of (mgr_dirs m1) q = Some d \<longrightarrow> map_of (mgr_dirs m') q = Some d) \<and>
    mgr_registry m' = Inr (bt_insert ?j r [(?i, r1)]) \<and> rec_path r = ?t \<and> rec_kind r = Plugin_External \<and>
    mgr_settings m' = Inr (SObject root')"
    by (intro demo_install) (use far in \<open>simp_all add: one plugin_demo_trim paths del: bt_insert.simps\<close>)
  then obtain second m2 r2 root2 where two: "install_plugin demo_plugins 7 (lit ''/q'') m1 = (Inr second, m2)" "io_id second = ?j"
    "io_path second = ?t" "mgr_registry m2 = Inr (bt_insert ?j r2 [(?i, r1)])" "rec_path r2 = ?t"
    "mgr_settings m2 = Inr (SObject root2)" by blast
  obtain m2' where removed: "remove_existing demo_plugins ?t m2 = (Inr (), m2')"
    and gone: "map_of (mgr_dirs m2') ?t = None" "mgr_settings m2' = mgr_settings m2"
    by (cases "dir_exists m2 ?t") (simp_all add: remove_existing_def remove_dir_def map_of_drop_dirs, simp add: dir_exists_def)
  have parent: "\<exists>s'. create_parent demo_plugins f s = (Inr (), s')" for f s
    by (rule create_parent_ok) simp
  let ?reg = "bt_remove ?i (bt_insert ?j r2 [(?i, r1)])"
  obtain s3 where p3: "create_parent demo_plugins (registry_path demo_plugins) m2' = (Inr (), s3)" using parent by blast
  obtain s4 where p4: "create_parent demo_plugins (settings_path demo_plugins) (s3\<lparr>mgr_registry := Inr ?reg\<rparr>) = (Inr (), s4)"
    using parent by blast
  from create_parent_Inr [OF p3] obtain ds3 where s3: "s3 = m2'\<lparr>mgr_dirs := ds3\<rparr>"
    "map_of ds3 = with_empties (parent_dirs (registry_path demo_plugins)) (map_of (mgr_dirs m2'))" by blast
  from create_parent_Inr [OF p4] obtain ds4 where s4: "s4 = s3\<lparr>mgr_registry := Inr ?reg, mgr_dirs := ds4\<rparr>"
    "map_of ds4 = with_empties (parent_dirs (settings_path demo_plugins)) (map_of ds3)" using s3(1) by auto
  have "map_of ds4 ?t = None" using gone(1) by (simp add: s4(2) s3(2) with_empties_def demo_ancestors)
  moreover have "store_registry demo_plugins ?reg m2' = (Inr (), s3\<lparr>mgr_registry := Inr ?reg\<rparr>)"
    using p3 by (simp add: store_registry_Inr)
  moreover obtain m3 where "write_enabled_state demo_plugins ?i None (s3\<lparr>mgr_registry := Inr ?reg\<rparr>) = (Inr (), m3)"
    "mgr_dirs m3 = ds4" "mgr_registry m3 = Inr ?reg"
    using p4 gone(2) two(6) by (auto simp: write_enabled_state_def s4 s3(1) Let_def)
  ultimately have "\<exists>m3. uninstall_plugin demo_plugins ?i m2 = (Inr (), m3) \<and> mgr_registry m3 = Inr ?reg \<and> \<not> dir_exists m3 ?t"
    using removed one(5,6) two(4) by (simp add: uninstall_plugin_def map_of_bt_insert_any dir_exists_def del: bt_insert.simps)
  moreover have "map_of ?reg ?j = Some r2" by (simp add: map_of_bt_remove map_of_bt_insert_any lit_def del: bt_insert.simps)
  moreover have "?i \<noteq> ?j" by (simp add: lit_def)
  ultimately show ?thesis using one(1-3) two(1-3,5) by metis
qed

section \<open>The ids of a registry\<close>

abbreviation "no_builtin_record reg \<equiv> \<forall>r \<in> snd ` set reg. rec_kind r \<noteq> Plugin_Builtin"

definition market_id :: "rstring \<Rightarrow> bool" where
  "market_id i \<longleftrightarrow> (\<exists>name k. k \<noteq> Plugin_Builtin \<and> i = plugin_id name (marketplace k))"

lemma market_id_not_builtin: "market_id i \<Longrightarrow> i \<noteq> plugin_id name (lit ''builtin'')"
proof
  assume "market_id i" and eq: "i = plugin_id name (lit ''builtin'')"
  then obtain n k where k: "k \<noteq> Plugin_Builtin" "plugin_id n (marketplace k) = plugin_id name (lit ''builtin'')"
    by (auto simp: market_id_def)
  then have "last (plugin_id n (marketplace k)) = last (plugin_id name (lit ''builtin''))" by simp
  then show False using k(1) by (cases k) (simp_all add: plugin_id_def lit_def)
qed

lemma set_bt_insert: "set (bt_insert k v es) \<subseteq> insert (k, v) (set es)"
  by (induction es) auto

lemma no_builtin_insert: "no_builtin_record reg \<Longrightarrow> rec_kind r \<noteq> Plugin_Builtin \<Longrightarrow> no_builtin_record (bt_insert i r reg)"
  using set_bt_insert [of i r reg] by (force dest!: subsetD)

lemma no_builtin_remove: "no_builtin_record reg \<Longrightarrow> no_builtin_record (bt_remove i reg)"
  by (auto simp: bt_remove_def)

lemma primitives_keep_registry:
  "remove_existing env p m = (x, m') \<Longrightarrow> mgr_registry m' = mgr_registry m"
  "copy_dir env q p m = (x, m') \<Longrightarrow> mgr_registry m' = mgr_registry m"
  by (cases "fs_fault env Op_Create p")
    (auto simp: remove_existing_def remove_dir_def copy_dir_def create_dir_all_def split: option.splits if_splits)

lemma sync_each_kinds:
  "sync_each env now ps (reg, active, changed) m = (Inr (reg', acc), m') \<Longrightarrow> no_builtin_record reg \<Longrightarrow>
   no_builtin_record reg' \<and> mgr_registry m' = mgr_registry m"
proof (induction ps arbitrary: reg active changed m)
  case (Cons p ps)
  obtain manifest where manifest: "load_dir env m p = Inr manifest"
    using Cons.prems(1) by (cases "load_dir env m p") auto
  let ?i = "plugin_id (mf_name manifest) (marketplace Plugin_Bundled)"
  let ?path = "path_join (install_root env) (sanitize_plugin_id ?i)"
  show ?case
  proof (cases "needs_sync env m manifest ?path (map_of reg ?i)")
    case False
    then have "sync_each env now ps (reg, insert ?i active, changed) m = (Inr (reg', acc), m')"
      using Cons.prems(1) manifest by (simp add: Let_def)
    then show ?thesis using Cons.IH Cons.prems(2) by blast
  next
    case True
    let ?r = "\<lparr>rec_kind = Plugin_Bundled, rec_id = ?i, rec_name = mf_name manifest, rec_version = mf_version manifest,
      rec_description = mf_description manifest, rec_path = ?path, rec_source = Local_Path p,
      rec_installed_at = (case map_of reg ?i of None \<Rightarrow> now | Some r \<Rightarrow> rec_installed_at r), rec_updated_at = now\<rparr>"
    obtain m1 m2 where step: "remove_existing env ?path m = (Inr (), m1)" "copy_dir env p ?path m1 = (Inr (), m2)"
      "sync_each env now ps (bt_insert ?i ?r reg, insert ?i active, True) m2 = (Inr (reg', acc), m')"
      using Cons.prems(1) manifest True by (auto simp: Let_def and_then_Inr)
    have "no_builtin_record (bt_insert ?i ?r reg)" by (rule no_builtin_insert [OF Cons.prems(2)]) simp
    from Cons.IH [OF step(3) this] show ?thesis
      unfolding primitives_keep_registry(2) [OF step(2)] primitives_keep_registry(1) [OF step(1)] .
  qed
qed simp

lemma drop_stale_kinds:
  "drop_stale env is reg m = (Inr reg', m') \<Longrightarrow> no_builtin_record reg \<Longrightarrow>
   no_builtin_record reg' \<and> mgr_registry m' = mgr_registry m"
proof (induction "is" arbitrary: reg m)
  case (Cons i "is")
  show ?case
  proof (cases "map_of reg i")
    case None
    then show ?thesis using Cons by simp
  next
    case (Some r)
    then obtain m1 where step: "remove_existing env (rec_path r) m = (Inr (), m1)"
      "drop_stale env is (bt_remove i reg) m1 = (Inr reg', m')"
      using Cons.prems(1) by (auto simp: and_then_Inr)
    show ?thesis using Cons.IH [OF step(2) no_builtin_remove [OF Cons.prems(2)]] primitives_keep_registry(1) [OF step(1)] by simp
  qed
qed simp

lemma sync_kinds:
  assumes "sync_bundled_plugins env now m = (Inr (), m')" and "mgr_registry m = Inr reg" and "no_builtin_record reg"
  shows "\<exists>reg'. mgr_registry m' = Inr reg' \<and> no_builtin_record reg'"
proof -
  from assms(1,2) obtain reg1 active changed m1 reg2 m2 where
    step: "sync_each env now (discover_plugin_dirs env m (bundled_dir env)) (reg, {}, False) m = (Inr (reg1, active, changed), m1)"
    "drop_stale env (map fst (filter (\<lambda>(i, r). rec_kind r = Plugin_Bundled \<and> i \<notin> active) reg1)) reg1 m1 = (Inr reg2, m2)"
    "m' = m2 \<or> store_registry env reg2 m2 = (Inr (), m')"
    unfolding sync_bundled_plugins_def and_then_Inr by (fastforce simp: and_then_Inr Let_def split: if_splits)
  note one = sync_each_kinds [OF step(1) assms(3)]
  note two = drop_stale_kinds [OF step(2) one [THEN conjunct1]]
  show ?thesis using step(3) one two assms(2,3) by (auto simp: store_registry_Inr)
qed

definition found_ok :: "discovery \<times> rstring set \<times> rstring set \<Rightarrow> bool" where
  "found_ok = (\<lambda>(d, ids, paths). distinct (map (\<lambda>p. pm_id (metadata p)) (found d)) \<and>
     ids = (\<lambda>p. pm_id (metadata p)) ` set (found d) \<and> (\<forall>i \<in> ids. market_id i))"

lemma loaded_id:
  "load_definition env m p kind source market = Inr plugin \<Longrightarrow> \<exists>name. pm_id (metadata plugin) = plugin_id name market"
  by (cases kind) (auto simp: load_definition_def rbind_Inr_iff define_plugin_def Let_def)

lemma discover_one_ok: "kind \<noteq> Plugin_Builtin \<Longrightarrow> found_ok acc \<Longrightarrow> found_ok (discover_one env m p kind source acc)"
  by (cases acc) (auto simp: discover_one_def found_ok_def market_id_def split: sum.split dest!: loaded_id)

lemma discover_dirs_ok:
  "no_builtin_record reg \<Longrightarrow> found_ok acc \<Longrightarrow> found_ok (fold (discover_dir env m reg) ps acc)"
proof (induction ps arbitrary: acc)
  case (Cons p ps)
  have "(case find (\<lambda>r. rec_path r = p) (map snd reg) of None \<Rightarrow> Plugin_External | Some r \<Rightarrow> rec_kind r) \<noteq> Plugin_Builtin"
    using Cons.prems(1) by (auto simp: find_Some_iff split: option.split)
  then show ?case using Cons by (simp add: discover_dir_def Let_def discover_one_ok)
qed simp

lemma discover_records_ok:
  "\<forall>r \<in> set rs. rec_kind r \<noteq> Plugin_Builtin \<Longrightarrow> found_ok (fst acc) \<Longrightarrow> found_ok (fst (fold (discover_record env m) rs acc))"
proof (induction rs arbitrary: acc)
  case (Cons r rs)
  obtain d ids paths stale where acc: "acc = ((d, ids, paths), stale)" by (metis prod.exhaust)
  have "found_ok (fst (discover_record env m r acc))"
    using Cons.prems discover_one_ok by (auto simp: acc discover_record_def)
  then show ?case using Cons by simp
qed simp

lemma discover_installed_ok:
  assumes "discover_installed env m = (Inr d, m')" and "mgr_registry m = Inr reg" and "no_builtin_record reg"
  shows "distinct (map (\<lambda>p. pm_id (metadata p)) (found d)) \<and> (\<forall>p \<in> set (found d). market_id (pm_id (metadata p)))"
proof -
  let ?one = "fold (discover_dir env m reg) (discover_plugin_dirs env m (install_root env)) (\<lparr>found = [], failures = []\<rparr>, {}, {})"
  let ?two = "fold (discover_record env m) (map snd reg) (?one, [])"
  have "found_ok ?one" by (rule discover_dirs_ok [OF assms(3)]) (simp add: found_ok_def)
  then have "found_ok (fst ?two)" using assms(3) by (intro discover_records_ok) auto
  moreover have "d = fst (fst ?two)"
    using assms(1,2) by (auto simp: discover_installed_def Let_def split_beta and_then_Inr split: if_splits)
  ultimately show ?thesis by (auto simp: found_ok_def split_beta)
qed

lemma discover_external_ok:
  "distinct (map (\<lambda>p. pm_id (metadata p)) (existing @ found d)) \<Longrightarrow>
   distinct (map (\<lambda>p. pm_id (metadata p)) (existing @ found (fold (discover_external_one env m existing) roots d)))"
proof (induction roots arbitrary: d)
  case (Cons root roots)
  have "distinct (map (\<lambda>p. pm_id (metadata p)) (existing @ found (discover_external_one env m existing root d)))"
    using Cons.prems by (auto simp: discover_external_one_def list_all_iff split: sum.split)
  then show ?case using Cons.IH by simp
qed simp

lemma distinct_map_sort_key: "distinct (map f (sort_key g xs)) \<longleftrightarrow> distinct (map f xs)"
  by (simp add: distinct_map)

text \<open>
  The registry of plugins is sorted by ids that are all different, and a plugin is enabled in it as the configuration says,
  or else by its own default, which an external plugin does not have.
\<close>

theorem registry_ids:
  assumes "plugin_registry env now m = (Inr ps, m')" and "mgr_registry m = Inr reg" and "no_builtin_record reg"
  shows "sorted_wrt (<) (map (\<lambda>p. reg_id p) ps) \<and>
    list_all (\<lambda>p. reg_enabled p = is_enabled m (metadata (reg_definition p))) ps"
proof -
  from assms(1) obtain m1 d m2 where step: "sync_bundled_plugins env now m = (Inr (), m1)" "discover_installed env m1 = (Inr d, m2)"
    "ps = build_registry m2 ((builtin_plugins @ found d) @ found (discover_external env m2 (builtin_plugins @ found d)))"
    by (auto simp: plugin_registry_def plugin_registry_report_def and_then_Inr Let_def split: if_splits)
  obtain reg1 where reg1: "mgr_registry m1 = Inr reg1" "no_builtin_record reg1" using sync_kinds [OF step(1) assms(2,3)] by blast
  note installed = discover_installed_ok [OF step(2) reg1]
  have "plugin_id (lit ''example-builtin'') (lit ''builtin'') \<notin> (\<lambda>p. pm_id (metadata p)) ` set (found d)"
  proof
    assume "plugin_id (lit ''example-builtin'') (lit ''builtin'') \<in> (\<lambda>p. pm_id (metadata p)) ` set (found d)"
    then obtain p where "p \<in> set (found d)" "pm_id (metadata p) = plugin_id (lit ''example-builtin'') (lit ''builtin'')" by auto
    with installed market_id_not_builtin show False by blast
  qed
  then have "distinct (map (\<lambda>p. pm_id (metadata p)) ((builtin_plugins @ found d) @ found \<lparr>found = [], failures = []\<rparr>))"
    using installed by (simp add: builtin_plugins_def)
  from discover_external_ok [OF this] have
    "distinct (map (\<lambda>p. pm_id (metadata p)) ((builtin_plugins @ found d) @ found (discover_external env m2 (builtin_plugins @ found d))))"
    unfolding discover_external_def .
  moreover have "mgr_enabled m2 = mgr_enabled m"
    using sync_keeps_enabled [of env now m] discover_keeps_enabled [of env m1] step(1,2) by simp
  then have enabled: "is_enabled m2 = is_enabled m" by (simp add: is_enabled_def fun_eq_iff)
  ultimately have "distinct (map (\<lambda>p. reg_id p) ps)"
    unfolding step(3) build_registry_def plugin_registry_new_def distinct_map_sort_key by (simp add: comp_def)
  moreover have "sorted (map (\<lambda>p. reg_id p) ps)"
    unfolding step(3) build_registry_def plugin_registry_new_def by simp
  ultimately have "sorted_wrt (<) (map (\<lambda>p. reg_id p) ps)" by (simp add: strict_sorted_iff)
  moreover have "list_all (\<lambda>p. reg_enabled p = is_enabled m (metadata (reg_definition p))) ps"
    by (auto simp: step(3) build_registry_def plugin_registry_new_def list_all_iff enabled)
  ultimately show ?thesis by blast
qed

theorem registry_ids_witness:
  "\<exists>ps m'. plugin_registry demo_plugins 7 (demo_manager []) = (Inr ps, m') \<and>
     sorted_wrt (<) (map (\<lambda>p. reg_id p) ps)"
proof -
  let ?m = "demo_manager []"
  have sync: "sync_bundled_plugins demo_plugins 7 ?m = (Inr (), ?m)"
    by (simp add: sync_bundled_plugins_def demo_manager_def discover_plugin_dirs_def)
  have disc: "discover_installed demo_plugins ?m = (Inr \<lparr>found = [], failures = []\<rparr>, ?m)"
    by (simp add: discover_installed_def demo_manager_def discover_plugin_dirs_def Let_def)
  obtain ps where run: "plugin_registry demo_plugins 7 ?m = (Inr ps, ?m)"
    by (simp add: plugin_registry_def plugin_registry_report_def sync disc discover_external_def Let_def) (simp add: demo_plugins_def)
  from registry_ids [OF run, of "[]"] run show ?thesis by (simp add: demo_manager_def)
qed

end
