(* ===== verification/Remote.thy ===== *)
theory Remote imports Config begin

text \<open>
  Remote sessions and the upstream proxy (\<^verbatim>\<open>crates/runtime/src/remote.rs\<close>): what the environment variables say,
  when the proxy is on, and the variables that subprocesses get.

  An environment is a \<^verbatim>\<open>BTreeMap\<close>; reading the token file is the parameter \<open>read\<close>, and \<open>home\<close> is \<^verbatim>\<open>HOME\<close> of the process.
\<close>

type_synonym env_map = "(rstring \<times> rstring) list"

section \<open>Data\<close>

definition upstream_proxy_env_keys :: "rstring list" where
  "upstream_proxy_env_keys = map lit [''HTTPS_PROXY'', ''https_proxy'', ''NO_PROXY'', ''no_proxy'', ''SSL_CERT_FILE'',
     ''NODE_EXTRA_CA_CERTS'', ''REQUESTS_CA_BUNDLE'', ''CURL_CA_BUNDLE'']"

definition no_proxy_hosts :: "rstring list" where
  "no_proxy_hosts = map lit [''localhost'', ''127.0.0.1'', ''::1'', ''169.254.0.0/16'', ''10.0.0.0/8'', ''172.16.0.0/12'',
     ''192.168.0.0/16'', ''anthropic.com'', ''.anthropic.com'', ''*.anthropic.com'', ''github.com'', ''api.github.com'',
     ''*.github.com'', ''*.githubusercontent.com'', ''registry.npmjs.org'', ''index.crates.io'']"

record remote_session_context =
  remote_enabled :: bool
  remote_session_id :: "rstring option"
  remote_base_url :: rstring

record upstream_proxy_bootstrap =
  bootstrap_remote :: remote_session_context
  upstream_proxy_enabled :: bool
  token_path :: rstring
  bootstrap_ca_bundle :: rstring
  system_ca_path :: rstring
  proxy_token :: "rstring option"

record upstream_proxy_state =
  proxy_enabled :: bool
  state_proxy_url :: "rstring option"
  ca_bundle_path :: "rstring option"
  no_proxy :: rstring

section \<open>Operations\<close>

definition env_truthy :: "rstring option \<Rightarrow> bool" where
  "env_truthy v = (case v of None \<Rightarrow> False
     | Some raw \<Rightarrow> to_ascii_lowercase (trim raw) \<in> {lit ''1'', lit ''true'', lit ''yes'', lit ''on''})"

text \<open>\<^verbatim>\<open>env_map.get(key).filter(|value| !value.is_empty())\<close>.\<close>

definition env_nonempty :: "env_map \<Rightarrow> string \<Rightarrow> rstring option" where
  "env_nonempty m key = (case map_of m (lit key) of None \<Rightarrow> None | Some v \<Rightarrow> if v = [] then None else Some v)"

definition remote_from_env_map :: "env_map \<Rightarrow> remote_session_context" where
  "remote_from_env_map m =
     \<lparr>remote_enabled = env_truthy (map_of m (lit ''CLAUDE_CODE_REMOTE'')),
      remote_session_id = env_nonempty m ''CLAUDE_CODE_REMOTE_SESSION_ID'',
      remote_base_url = unwrap_or (lit ''https://api.anthropic.com'') (env_nonempty m ''ANTHROPIC_BASE_URL'')\<rparr>"

definition read_token :: "(rstring \<Rightarrow> file_result) \<Rightarrow> rstring \<Rightarrow> rstring + rstring option" where
  "read_token read path = (case read path of
     File_Text contents \<Rightarrow> Inr (if trim contents = [] then None else Some (trim contents))
   | File_NotFound \<Rightarrow> Inr None
   | File_Failed e \<Rightarrow> Inl e)"

definition default_ca_bundle_path :: "rstring option \<Rightarrow> rstring" where
  "default_ca_bundle_path home = path_join (path_join (unwrap_or (lit ''.'') home) (lit ''.ccr'')) (lit ''ca-bundle.crt'')"

definition proxy_from_env_map :: "(rstring \<Rightarrow> file_result) \<Rightarrow> rstring option \<Rightarrow> env_map \<Rightarrow> upstream_proxy_bootstrap" where
  "proxy_from_env_map read home m =
     (let path = unwrap_or (lit ''/run/ccr/session_token'') (env_nonempty m ''CCR_SESSION_TOKEN_PATH'')
      in \<lparr>bootstrap_remote = remote_from_env_map m,
          upstream_proxy_enabled = env_truthy (map_of m (lit ''CCR_UPSTREAM_PROXY_ENABLED'')),
          token_path = path,
          bootstrap_ca_bundle = unwrap_or (default_ca_bundle_path home) (env_nonempty m ''CCR_CA_BUNDLE_PATH''),
          system_ca_path = unwrap_or (lit ''/etc/ssl/certs/ca-certificates.crt'') (env_nonempty m ''CCR_SYSTEM_CA_BUNDLE''),
          proxy_token = (case read_token read path of Inr token \<Rightarrow> token | Inl _ \<Rightarrow> None)\<rparr>)"

definition should_enable :: "upstream_proxy_bootstrap \<Rightarrow> bool" where
  "should_enable b \<longleftrightarrow> remote_enabled (bootstrap_remote b) \<and> upstream_proxy_enabled b \<and>
     remote_session_id (bootstrap_remote b) \<noteq> None \<and> proxy_token b \<noteq> None"

definition upstream_proxy_ws_url :: "rstring \<Rightarrow> rstring" where
  "upstream_proxy_ws_url base_url =
     (let base = trim_end_matches c_slash base_url;
          ws_base = (case strip_prefix base (lit ''https://'') of
            Some stripped \<Rightarrow> lit ''wss://'' @ stripped
          | None \<Rightarrow> (case strip_prefix base (lit ''http://'') of
              Some stripped \<Rightarrow> lit ''ws://'' @ stripped
            | None \<Rightarrow> lit ''wss://'' @ base))
      in ws_base @ lit ''/v1/code/upstreamproxy/ws'')"

definition ws_url_of :: "upstream_proxy_bootstrap \<Rightarrow> rstring" where
  "ws_url_of b = upstream_proxy_ws_url (remote_base_url (bootstrap_remote b))"

definition no_proxy_list :: rstring where
  "no_proxy_list = join [c_comma] (no_proxy_hosts @ map lit [''pypi.org'', ''files.pythonhosted.org'', ''proxy.golang.org''])"

definition proxy_disabled :: upstream_proxy_state where
  "proxy_disabled = \<lparr>proxy_enabled = False, state_proxy_url = None, ca_bundle_path = None, no_proxy = no_proxy_list\<rparr>"

definition state_for_port :: "upstream_proxy_bootstrap \<Rightarrow> u16 \<Rightarrow> upstream_proxy_state" where
  "state_for_port b port =
     (if \<not> should_enable b then proxy_disabled
      else \<lparr>proxy_enabled = True, state_proxy_url = Some (lit ''http://127.0.0.1:'' @ show_nat (unat port)),
            ca_bundle_path = Some (bootstrap_ca_bundle b), no_proxy = no_proxy_list\<rparr>)"

definition subprocess_env :: "upstream_proxy_state \<Rightarrow> env_map" where
  "subprocess_env s =
     (if \<not> proxy_enabled s then []
      else (case (state_proxy_url s, ca_bundle_path s) of
        (Some url, Some ca) \<Rightarrow> bt_collect [(lit ''HTTPS_PROXY'', url), (lit ''https_proxy'', url), (lit ''NO_PROXY'', no_proxy s),
          (lit ''no_proxy'', no_proxy s), (lit ''SSL_CERT_FILE'', ca), (lit ''NODE_EXTRA_CA_CERTS'', ca),
          (lit ''REQUESTS_CA_BUNDLE'', ca), (lit ''CURL_CA_BUNDLE'', ca)]
      | _ \<Rightarrow> []))"

definition inherited_upstream_proxy_env :: "env_map \<Rightarrow> env_map" where
  "inherited_upstream_proxy_env m =
     (if \<not> (map_of m (lit ''HTTPS_PROXY'') \<noteq> None \<and> map_of m (lit ''SSL_CERT_FILE'') \<noteq> None) then []
      else bt_collect (filter_map (\<lambda>key. map_option (\<lambda>v. (key, v)) (map_of m key)) upstream_proxy_env_keys))"

section \<open>Properties\<close>

text \<open>A sorted association list is determined by its map.\<close>

lemma bt_ok_determined:
  assumes "bt_ok es"
  shows "es = map (\<lambda>k. (k, the (map_of es k))) (sorted_list_of_set (dom (map_of es)))"
proof -
  have s: "sorted (map fst es)" "distinct (map fst es)" using assms by (simp_all add: bt_ok_def strict_sorted_iff)
  then have "sorted_list_of_set (dom (map_of es)) = map fst es"
    using sorted_list_of_set.idem_if_sorted_distinct [of "map fst es"] by (simp add: dom_map_of_conv_image_fst)
  moreover have "map (\<lambda>k. (k, the (map_of es k))) (map fst es) = es"
    unfolding map_map using s(2) by (intro map_idI) auto
  ultimately show ?thesis by simp
qed

lemma bt_ok_eqI: "bt_ok es \<Longrightarrow> bt_ok fs \<Longrightarrow> map_of es = map_of fs \<Longrightarrow> es = fs"
  by (subst bt_ok_determined [of es], simp, subst bt_ok_determined [of fs], simp_all)

lemma bt_collect_snoc: "bt_collect (kvs @ [(k, v)]) = bt_insert k v (bt_collect kvs)"
  by (simp add: bt_collect_def)

lemma bt_ok_collect [simp]: "bt_ok (bt_collect kvs)"
  by (induction kvs rule: rev_induct) (simp add: bt_collect_def, auto simp: bt_collect_snoc)

lemma map_of_collect: "map_of (bt_collect kvs) = map_of (rev kvs)"
proof (induction kvs rule: rev_induct)
  case (snoc e kvs)
  then show ?case by (cases e) (simp add: bt_collect_snoc map_of_bt_insert)
qed (simp add: bt_collect_def)

text \<open>
  The proxy is on for a port exactly when the session is remote, has an id and a token, and the proxy is
  asked for; then the variables a subprocess gets are handed on unchanged to its own subprocesses, and
  otherwise there are none.\<close>

theorem proxy_environment_inherited:
  "inherited_upstream_proxy_env (subprocess_env (state_for_port b port)) = subprocess_env (state_for_port b port) \<and>
   (subprocess_env (state_for_port b port) = [] \<longleftrightarrow> \<not> should_enable b) \<and>
   (map_of (subprocess_env (state_for_port b port)) (lit ''HTTPS_PROXY'') =
      (if should_enable b then Some (lit ''http://127.0.0.1:'' @ show_nat (unat port)) else None))"
proof (cases "should_enable b")
  case False
  then show ?thesis by (simp add: state_for_port_def proxy_disabled_def subprocess_env_def inherited_upstream_proxy_env_def)
next
  case True
  let ?url = "lit ''http://127.0.0.1:'' @ show_nat (unat port)" and ?ca = "bootstrap_ca_bundle b"
  let ?e = "subprocess_env (state_for_port b port)"
  have e: "?e = bt_collect [(lit ''HTTPS_PROXY'', ?url), (lit ''https_proxy'', ?url), (lit ''NO_PROXY'', no_proxy_list),
      (lit ''no_proxy'', no_proxy_list), (lit ''SSL_CERT_FILE'', ?ca), (lit ''NODE_EXTRA_CA_CERTS'', ?ca),
      (lit ''REQUESTS_CA_BUNDLE'', ?ca), (lit ''CURL_CA_BUNDLE'', ?ca)]"
    using True by (simp add: subprocess_env_def state_for_port_def)
  have m: "map_of ?e = [lit ''HTTPS_PROXY'' \<mapsto> ?url, lit ''https_proxy'' \<mapsto> ?url, lit ''NO_PROXY'' \<mapsto> no_proxy_list,
      lit ''no_proxy'' \<mapsto> no_proxy_list, lit ''SSL_CERT_FILE'' \<mapsto> ?ca, lit ''NODE_EXTRA_CA_CERTS'' \<mapsto> ?ca,
      lit ''REQUESTS_CA_BUNDLE'' \<mapsto> ?ca, lit ''CURL_CA_BUNDLE'' \<mapsto> ?ca]"
    unfolding e map_of_collect by (simp add: fun_eq_iff)
  have "inherited_upstream_proxy_env ?e = ?e"
  proof (rule bt_ok_eqI)
    have i: "inherited_upstream_proxy_env ?e =
        bt_collect (filter_map (\<lambda>key. map_option (\<lambda>v. (key, v)) (map_of ?e key)) upstream_proxy_env_keys)"
      by (simp add: inherited_upstream_proxy_env_def m)
    show "map_of (inherited_upstream_proxy_env ?e) = map_of ?e"
      unfolding i map_of_collect m by (simp add: upstream_proxy_env_keys_def fun_eq_iff)
    show "bt_ok (inherited_upstream_proxy_env ?e)" unfolding i by simp
    show "bt_ok ?e" unfolding e by simp
  qed
  moreover have "?e \<noteq> []" using fun_cong [OF m, of "lit ''HTTPS_PROXY''"] by auto
  moreover have "map_of ?e (lit ''HTTPS_PROXY'') = Some ?url" unfolding m by simp
  ultimately show ?thesis using True by simp
qed

text \<open>The address of the proxy is a web socket address on the host of the base address.\<close>

theorem ws_url_scheme:
  "starts_with (upstream_proxy_ws_url base) (lit ''wss://'') \<or> starts_with (upstream_proxy_ws_url base) (lit ''ws://'')"
  by (auto simp: upstream_proxy_ws_url_def Let_def starts_with_def split: option.split)

end
