(* ===== verification/SessionControl.thy ===== *)
theory SessionControl imports Compact begin

text \<open>
  Managed sessions (\<^verbatim>\<open>crates/runtime/src/session_control.rs\<close>): the directory \<^verbatim>\<open>.claw/sessions\<close>, references to
  sessions, the list of sessions with the latest first, loading and forking.

  The file system is a record of what the functions ask of it; \<open>fs_load\<close> is \<^verbatim>\<open>Session::load_from_path\<close> (see
  \<open>Session.load_contents\<close>), and an error of the file system is its message.
\<close>

section \<open>Data\<close>

record session_handle =
  handle_id :: rstring
  handle_path :: rstring

record session_summary =
  summary_id :: rstring
  summary_path :: rstring
  modified_epoch_millis :: nat
  message_count :: nat
  summary_parent :: "rstring option"
  summary_branch :: "rstring option"

record forked_session =
  forked_parent :: rstring
  forked_handle :: session_handle
  forked_session :: session
  forked_branch :: "rstring option"

datatype session_control_error = Control_Io rstring | Control_Session session_error | Control_Format rstring

fun show_control_error :: "session_control_error \<Rightarrow> rstring" where
  "show_control_error (Control_Io e) = e"
| "show_control_error (Control_Session e) = show_session_error e"
| "show_control_error (Control_Format e) = e"

record session_fs =
  fs_exists :: "rstring \<Rightarrow> bool"
  fs_create_dir_all :: "rstring \<Rightarrow> rstring option"
  fs_read_dir :: "rstring \<Rightarrow> rstring + (rstring \<times> nat) list"
  fs_load :: "rstring \<Rightarrow> session_error + session"
  fs_save :: "rstring \<Rightarrow> session \<Rightarrow> session_error option"

section \<open>Paths\<close>

definition map_err :: "('e \<Rightarrow> 'f) \<Rightarrow> 'e + 'a \<Rightarrow> 'f + 'a" where
  "map_err f r = (case r of Inl e \<Rightarrow> Inl (f e) | Inr x \<Rightarrow> Inr x)"

lemma map_err_simps [simp]: "map_err f (Inl e) = Inl (f e)" "map_err f (Inr x) = Inr x"
  by (simp_all add: map_err_def)

definition managed_dir :: "rstring \<Rightarrow> rstring" where
  "managed_dir base = path_join (path_join base (lit ''.claw'')) (lit ''sessions'')"

definition managed_sessions_dir_for :: "session_fs \<Rightarrow> rstring \<Rightarrow> session_control_error + rstring" where
  "managed_sessions_dir_for fs base = (case fs_create_dir_all fs (managed_dir base) of
     Some e \<Rightarrow> Inl (Control_Io e) | None \<Rightarrow> Inr (managed_dir base))"

definition create_managed_session_handle_for :: "session_fs \<Rightarrow> rstring \<Rightarrow> rstring \<Rightarrow> session_control_error + session_handle" where
  "create_managed_session_handle_for fs base i = rbind (managed_sessions_dir_for fs base) (\<lambda>dir.
     Inr \<lparr>handle_id = i, handle_path = path_join dir (i @ lit ''.jsonl'')\<rparr>)"

definition is_managed_session_file :: "rstring \<Rightarrow> bool" where
  "is_managed_session_file path = (case path_extension path of
     Some extension \<Rightarrow> extension = lit ''jsonl'' \<or> extension = lit ''json'' | None \<Rightarrow> False)"

definition is_session_reference_alias :: "rstring \<Rightarrow> bool" where
  "is_session_reference_alias reference = list_ex (\<lambda>name. to_ascii_lowercase reference = name) (map lit [''latest'', ''last'', ''recent''])"

definition strip_suffix :: "rstring \<Rightarrow> rstring \<Rightarrow> rstring option" where
  "strip_suffix s p = (if suffix p s then Some (take (length s - length p) s) else None)"

definition session_id_from_path :: "rstring \<Rightarrow> rstring option" where
  "session_id_from_path path = Option.bind (file_name path) (\<lambda>name. case strip_suffix name (lit ''.jsonl'') of
     Some i \<Rightarrow> Some i | None \<Rightarrow> strip_suffix name (lit ''.json''))"

text \<open>\<^verbatim>\<open>Path::file_stem\<close>.\<close>

definition file_stem :: "rstring \<Rightarrow> rstring option" where
  "file_stem path = (case file_name path of None \<Rightarrow> None
     | Some name \<Rightarrow> Some (case path_extension path of None \<Rightarrow> name | Some e \<Rightarrow> take (length name - length e - 1) name))"

definition format_missing_session_reference :: "rstring \<Rightarrow> rstring" where
  "format_missing_session_reference reference = lit ''session not found: '' @ reference @ [c_nl] @
     lit ''Hint: managed sessions live in .claw/sessions/. Try `latest` for the most recent session or `/session list` in the REPL.''"

definition format_no_managed_sessions :: rstring where
  "format_no_managed_sessions = lit ''no managed sessions found in .claw/sessions/'' @ [c_nl] @
     lit ''Start `claw` to create a session, then rerun with `--resume latest`.''"

section \<open>The list\<close>

definition summarize_entry :: "session_fs \<Rightarrow> rstring \<times> nat \<Rightarrow> session_summary" where
  "summarize_entry fs entry = (case fs_load fs (fst entry) of
     Inr s \<Rightarrow> \<lparr>summary_id = session_id s, summary_path = fst entry, modified_epoch_millis = snd entry,
       message_count = length (messages s), summary_parent = map_option parent_session_id (fork s),
       summary_branch = Option.bind (fork s) fork_branch_name\<rparr>
   | Inl _ \<Rightarrow> \<lparr>summary_id = (case file_stem (fst entry) of Some stem \<Rightarrow> stem | None \<Rightarrow> lit ''unknown''), summary_path = fst entry,
       modified_epoch_millis = snd entry, message_count = 0, summary_parent = None, summary_branch = None\<rparr>)"

text \<open>The comparison of \<^verbatim>\<open>sort_by\<close>: later first, then the greater id first; the sort is stable.\<close>

definition not_after :: "session_summary \<Rightarrow> session_summary \<Rightarrow> bool" where
  "not_after a b \<longleftrightarrow> modified_epoch_millis b < modified_epoch_millis a \<or>
     modified_epoch_millis b = modified_epoch_millis a \<and> summary_id b \<le> summary_id a"

fun insert_by :: "('a \<Rightarrow> 'a \<Rightarrow> bool) \<Rightarrow> 'a \<Rightarrow> 'a list \<Rightarrow> 'a list" where
  "insert_by before x [] = [x]"
| "insert_by before x (y # ys) = (if before x y then x # y # ys else y # insert_by before x ys)"

definition sort_by :: "('a \<Rightarrow> 'a \<Rightarrow> bool) \<Rightarrow> 'a list \<Rightarrow> 'a list" where
  "sort_by before xs = foldr (insert_by before) xs []"

definition list_managed_sessions_for :: "session_fs \<Rightarrow> rstring \<Rightarrow> session_control_error + session_summary list" where
  "list_managed_sessions_for fs base =
     rbind (managed_sessions_dir_for fs base) (\<lambda>dir.
     rbind (map_err Control_Io (fs_read_dir fs dir)) (\<lambda>found.
       Inr (sort_by not_after (map (summarize_entry fs) (filter (\<lambda>entry. is_managed_session_file (fst entry)) found)))))"

definition latest_managed_session_for :: "session_fs \<Rightarrow> rstring \<Rightarrow> session_control_error + session_summary" where
  "latest_managed_session_for fs base = rbind (list_managed_sessions_for fs base) (\<lambda>sessions. case sessions of
     [] \<Rightarrow> Inl (Control_Format format_no_managed_sessions) | s # _ \<Rightarrow> Inr s)"

section \<open>References\<close>

definition resolve_managed_session_path_for :: "session_fs \<Rightarrow> rstring \<Rightarrow> rstring \<Rightarrow> session_control_error + rstring" where
  "resolve_managed_session_path_for fs base i = rbind (managed_sessions_dir_for fs base) (\<lambda>dir.
     case find (fs_exists fs) (map (\<lambda>extension. path_join dir (i @ lit ''.'' @ extension)) [lit ''jsonl'', lit ''json'']) of
       Some path \<Rightarrow> Inr path
     | None \<Rightarrow> Inl (Control_Format (format_missing_session_reference i)))"

definition resolve_session_reference_for :: "session_fs \<Rightarrow> rstring \<Rightarrow> rstring \<Rightarrow> session_control_error + session_handle" where
  "resolve_session_reference_for fs base reference =
     (if is_session_reference_alias reference then
        rbind (latest_managed_session_for fs base) (\<lambda>latest. Inr \<lparr>handle_id = summary_id latest, handle_path = summary_path latest\<rparr>)
      else
        let candidate = (if starts_with reference [c_slash] then reference else path_join base reference);
            looks_like_path = (path_extension reference \<noteq> None \<or> 1 < length (path_components reference))
        in rbind (if fs_exists fs candidate then Inr candidate
                  else if looks_like_path then Inl (Control_Format (format_missing_session_reference reference))
                  else resolve_managed_session_path_for fs base reference) (\<lambda>path.
             Inr \<lparr>handle_id = (case session_id_from_path path of Some i \<Rightarrow> i | None \<Rightarrow> reference), handle_path = path\<rparr>))"

definition load_managed_session_for :: "session_fs \<Rightarrow> rstring \<Rightarrow> rstring \<Rightarrow> session_control_error + (session_handle \<times> session)" where
  "load_managed_session_for fs base reference =
     rbind (resolve_session_reference_for fs base reference) (\<lambda>handle.
     rbind (map_err Control_Session (fs_load fs (handle_path handle))) (\<lambda>s.
       Inr (\<lparr>handle_id = session_id s, handle_path = handle_path handle\<rparr>, s)))"

definition fork_managed_session_for :: "session_fs \<Rightarrow> u64 \<Rightarrow> rstring \<Rightarrow> rstring \<Rightarrow> session \<Rightarrow> rstring option \<Rightarrow>
    session_control_error + forked_session" where
  "fork_managed_session_for fs now fresh base s branch =
     (let forked = fork_session now fresh branch s
      in rbind (create_managed_session_handle_for fs base (session_id forked)) (\<lambda>handle.
         let saved = with_persistence_path (handle_path handle) forked
         in (case fs_save fs (handle_path handle) saved of
               Some e \<Rightarrow> Inl (Control_Session e)
             | None \<Rightarrow> Inr \<lparr>forked_parent = session_id s, forked_handle = handle, forked_session = saved,
                 forked_branch = Option.bind (fork forked) fork_branch_name\<rparr>)))"

section \<open>Sorting\<close>

lemma mset_sort_by: "set (sort_by before xs) = set xs" "length (sort_by before xs) = length xs"
proof -
  have "set (insert_by before x ys) = insert x (set ys) \<and> length (insert_by before x ys) = Suc (length ys)" for x :: 'a and ys
    by (induction ys) auto
  then show "set (sort_by before xs) = set xs" "length (sort_by before xs) = length xs"
    by (induction xs) (simp_all add: sort_by_def)
qed

lemma sorted_sort_by:
  assumes total: "\<And>x y. before x y \<or> before y x" and trans: "\<And>x y z. before x y \<Longrightarrow> before y z \<Longrightarrow> before x z"
  shows "sorted_wrt before (sort_by before xs)"
proof -
  have set: "set (insert_by before x ys) = insert x (set ys)" for x :: 'a and ys by (induction ys) auto
  have "sorted_wrt before ys \<Longrightarrow> sorted_wrt before (insert_by before x ys)" for x ys
  proof (induction ys)
    case (Cons y ys)
    then show ?case using total [of x y] trans [of x y] by (auto simp: set)
  qed simp
  then show ?thesis by (induction xs) (simp_all add: sort_by_def)
qed

lemma not_after_order: "not_after x y \<or> not_after y x" "not_after x y \<Longrightarrow> not_after y z \<Longrightarrow> not_after x z"
  by (auto simp: not_after_def)

text \<open>
  The latest session is a managed file of the directory that no other managed file comes after, by time
  and then by id; there is none exactly when the directory has no managed file.\<close>

theorem latest_session_contract:
  assumes "list_managed_sessions_for fs base = Inr sessions"
  shows "\<exists>found. fs_read_dir fs (managed_dir base) = Inr found \<and>
    set sessions = summarize_entry fs ` {e \<in> set found. is_managed_session_file (fst e)} \<and>
    (case latest_managed_session_for fs base of
       Inl e \<Rightarrow> e = Control_Format format_no_managed_sessions \<and> sessions = []
     | Inr s \<Rightarrow> s \<in> set sessions \<and> list_all (not_after s) sessions)"
proof -
  from assms obtain found where found: "fs_read_dir fs (managed_dir base) = Inr found"
    and s: "sessions = sort_by not_after (map (summarize_entry fs) (filter (\<lambda>entry. is_managed_session_file (fst entry)) found))"
    by (cases "fs_read_dir fs (managed_dir base)")
      (auto simp: list_managed_sessions_for_def rbind_Inr_iff managed_sessions_dir_for_def split: option.splits)
  have set: "set sessions = summarize_entry fs ` {e \<in> set found. is_managed_session_file (fst e)}"
    unfolding s by (simp add: mset_sort_by)
  have sorted: "sorted_wrt not_after sessions" unfolding s by (rule sorted_sort_by) (fact not_after_order)+
  have refl: "not_after x x" for x by (simp add: not_after_def)
  have "case latest_managed_session_for fs base of Inl e \<Rightarrow> e = Control_Format format_no_managed_sessions \<and> sessions = []
      | Inr s \<Rightarrow> s \<in> set sessions \<and> list_all (not_after s) sessions"
    using sorted refl assms by (cases sessions) (simp_all add: latest_managed_session_for_def list_all_iff)
  then show ?thesis using found set by blast
qed

definition demo_fs :: "(rstring \<Rightarrow> bool) \<Rightarrow> (rstring \<times> nat) list \<Rightarrow> session_fs" where
  "demo_fs present found = \<lparr>fs_exists = present, fs_create_dir_all = (\<lambda>_. None), fs_read_dir = (\<lambda>_. Inr found),
     fs_load = (\<lambda>_. Inl (Err_Io [])), fs_save = (\<lambda>_ _. None)\<rparr>"

theorem latest_session_contract_witness:
  "\<exists>s. latest_managed_session_for (demo_fs (\<lambda>_. False) [(lit ''a.jsonl'', 1), (lit ''b.jsonl'', 2)]) (lit ''/w'') = Inr s \<and>
     not_after s (summarize_entry (demo_fs (\<lambda>_. False) [(lit ''a.jsonl'', 1), (lit ''b.jsonl'', 2)]) (lit ''a.jsonl'', 1))"
proof -
  let ?fs = "demo_fs (\<lambda>_. False) [(lit ''a.jsonl'', 1), (lit ''b.jsonl'', 2)]"
  obtain sessions where s: "list_managed_sessions_for ?fs (lit ''/w'') = Inr sessions"
    by (simp add: list_managed_sessions_for_def managed_sessions_dir_for_def demo_fs_def)
  have managed: "is_managed_session_file (lit ''a.jsonl'')"
    by (simp add: is_managed_session_file_def path_extension_def file_name_def path_components_def components_def starts_with_def dotdot_def lit_def)
  have found: "fs_read_dir ?fs (managed_dir (lit ''/w'')) = Inr [(lit ''a.jsonl'', 1), (lit ''b.jsonl'', 2)]" by (simp add: demo_fs_def)
  from latest_session_contract [OF s] found managed
  have "summarize_entry ?fs (lit ''a.jsonl'', 1) \<in> set sessions" by auto
  with latest_session_contract [OF s] show ?thesis
    by (cases "latest_managed_session_for ?fs (lit ''/w'')") (auto simp: list_all_iff)
qed

section \<open>References to managed sessions\<close>

lemma split_no_slash: "c_slash \<notin> set s \<Longrightarrow> split_on (\<lambda>c. c = c_slash) s = [s]"
  by (induction s) auto

lemma file_name_join:
  assumes "c_slash \<notin> set name" "name \<noteq> []" "name \<noteq> [46]" "name \<noteq> dotdot"
  shows "file_name (path_join dir name) = Some name"
proof -
  have "\<not> starts_with name [c_slash]" using assms by (auto simp: starts_with_def dest: set_mono_prefix)
  then have "components (path_join dir name) = components dir @ [name]"
    using assms split_no_slash [of name] by (simp add: components_join) (simp add: components_def)
  then have "rev (path_components (path_join dir name)) \<noteq> [] \<and> hd (rev (path_components (path_join dir name))) = name"
    by (auto simp: path_components_def)
  moreover have "name \<noteq> [c_slash]" using assms(1) by auto
  ultimately show ?thesis using assms by (cases "rev (path_components (path_join dir name))") (auto simp: file_name_def)
qed

lemma managed_file_id:
  assumes "c_slash \<notin> set i"
  shows "session_id_from_path (path_join dir (i @ lit ''.jsonl'')) = Some i"
proof -
  have "file_name (path_join dir (i @ lit ''.jsonl'')) = Some (i @ lit ''.jsonl'')"
    using assms by (intro file_name_join) (auto simp: lit_def dotdot_def append_eq_Cons_conv)
  moreover have "suffix p (i @ p)" for p :: rstring by (rule suffixI) simp
  ultimately show ?thesis by (simp add: session_id_from_path_def strip_suffix_def)
qed

text \<open>
  A session that was created under an id is found again by this id, once its file exists: unless the id
  is an alias, looks like a path, or names something in the working directory, which comes first.\<close>

theorem created_session_resolves:
  assumes handle: "create_managed_session_handle_for fs base i = Inr handle" and written: "fs_exists fs (handle_path handle)"
    and name: "\<not> is_session_reference_alias i" "c_slash \<notin> set i" "path_extension i = None"
    and free: "\<not> fs_exists fs (path_join base i)"
  shows "resolve_session_reference_for fs base i = Inr handle"
proof -
  from handle obtain dir where dir: "managed_sessions_dir_for fs base = Inr dir"
    "handle = \<lparr>handle_id = i, handle_path = path_join dir (i @ lit ''.jsonl'')\<rparr>"
    by (auto simp: create_managed_session_handle_for_def rbind_Inr_iff)
  have "\<not> starts_with i [c_slash]" using name(2) by (auto simp: starts_with_def dest: set_mono_prefix)
  moreover have "\<not> 1 < length (path_components i)"
    using split_no_slash [OF name(2)] calculation by (auto simp: path_components_def components_def)
  moreover have "lit ''.'' @ lit ''jsonl'' = lit ''.jsonl''" by (simp add: lit_def)
  then have "resolve_managed_session_path_for fs base i = Inr (handle_path handle)"
    using dir written by (simp add: resolve_managed_session_path_for_def)
  ultimately show ?thesis
    using name free dir managed_file_id [OF name(2)] by (simp add: resolve_session_reference_for_def)
qed

theorem created_session_resolves_witness:
  "resolve_session_reference_for (demo_fs (\<lambda>p. p = path_join (managed_dir (lit ''/w'')) (lit ''s1.jsonl'')) []) (lit ''/w'') (lit ''s1'') =
     Inr \<lparr>handle_id = lit ''s1'', handle_path = path_join (managed_dir (lit ''/w'')) (lit ''s1.jsonl'')\<rparr>"
proof (rule created_session_resolves)
  have j: "lit ''s1'' @ lit ''.jsonl'' = lit ''s1.jsonl''" by (simp add: lit_def)
  then show "create_managed_session_handle_for (demo_fs (\<lambda>p. p = path_join (managed_dir (lit ''/w'')) (lit ''s1.jsonl'')) []) (lit ''/w'') (lit ''s1'') =
      Inr \<lparr>handle_id = lit ''s1'', handle_path = path_join (managed_dir (lit ''/w'')) (lit ''s1.jsonl'')\<rparr>"
    by (simp add: create_managed_session_handle_for_def managed_sessions_dir_for_def demo_fs_def)
  show "path_extension (lit ''s1'') = None"
    by (simp add: path_extension_def file_name_def path_components_def components_def starts_with_def dotdot_def lit_def)
  show "\<not> is_session_reference_alias (lit ''s1'')" by (simp add: is_session_reference_alias_def to_ascii_lowercase_def ascii_lower_def lit_def)
  show "c_slash \<notin> set (lit ''s1'')" by (simp add: lit_def)
  have "length (path_join (lit ''/w'') (lit ''s1'')) \<noteq> length (path_join (managed_dir (lit ''/w'')) (lit ''s1.jsonl''))"
    by (simp add: path_join_def managed_dir_def lit_def starts_with_def ends_with_def)
  then show "\<not> fs_exists (demo_fs (\<lambda>p. p = path_join (managed_dir (lit ''/w'')) (lit ''s1.jsonl'')) []) (path_join (lit ''/w'') (lit ''s1''))"
    by (auto simp: demo_fs_def)
qed (simp add: demo_fs_def)

text \<open>
  A managed session whose id has a dot inside is in the list but cannot be referred to by its id.\<close>

theorem dotted_session_unreachable:
  "resolve_session_reference_for (demo_fs (\<lambda>p. p = path_join (managed_dir (lit ''/w'')) (lit ''v1.2.jsonl'')) []) (lit ''/w'') (lit ''v1.2'') =
     Inl (Control_Format (format_missing_session_reference (lit ''v1.2'')))"
proof -
  have "path_extension (lit ''v1.2'') \<noteq> None"
    by (simp add: path_extension_def file_name_def path_components_def components_def starts_with_def dotdot_def lit_def)
  moreover have "\<not> is_session_reference_alias (lit ''v1.2'')"
    by (simp add: is_session_reference_alias_def to_ascii_lowercase_def ascii_lower_def lit_def)
  moreover have "\<not> starts_with (lit ''v1.2'') [c_slash]" by (simp add: starts_with_def lit_def)
  moreover have "length (path_join (lit ''/w'') (lit ''v1.2'')) \<noteq> length (path_join (managed_dir (lit ''/w'')) (lit ''v1.2.jsonl''))"
    by (simp add: path_join_def managed_dir_def lit_def starts_with_def ends_with_def)
  then have "path_join (lit ''/w'') (lit ''v1.2'') \<noteq> path_join (managed_dir (lit ''/w'')) (lit ''v1.2.jsonl'')" by metis
  ultimately show ?thesis by (simp add: resolve_session_reference_for_def demo_fs_def)
qed

end
