(* ===== verification/Sse.thy ===== *)
theory Sse imports Strings begin

text \<open>
  The incremental parser of server-sent events (\<^verbatim>\<open>crates/runtime/src/sse.rs\<close>).  Text arrives in chunks; complete
  lines are taken out of a buffer and processed, and an empty line ends an event.
\<close>

section \<open>Data\<close>

record sse_event =
  sse_name :: "rstring option"
  sse_data :: rstring
  sse_id :: "rstring option"
  sse_retry :: "u64 option"

record sse_parser =
  buffer :: rstring
  event_name :: "rstring option"
  data_lines :: "rstring list"
  event_id :: "rstring option"
  retry :: "u64 option"

definition sse_new :: sse_parser where
  "sse_new = \<lparr>buffer = [], event_name = None, data_lines = [], event_id = None, retry = None\<rparr>"

section \<open>Operations\<close>

definition take_event :: "sse_parser \<Rightarrow> sse_event option \<times> sse_parser" where
  "take_event p =
     (if data_lines p = [] \<and> event_name p = None \<and> event_id p = None \<and> retry p = None then (None, p)
      else (Some \<lparr>sse_name = event_name p, sse_data = join [c_nl] (data_lines p), sse_id = event_id p, sse_retry = retry p\<rparr>,
            p\<lparr>event_name := None, data_lines := [], event_id := None, retry := None\<rparr>))"

definition sse_field :: "rstring \<Rightarrow> rstring \<times> rstring" where
  "sse_field line = (case split_once line [c_colon] of
     None \<Rightarrow> (line, [])
   | Some (field, v) \<Rightarrow> (field, case strip_prefix v [c_space] of Some trimmed \<Rightarrow> trimmed | None \<Rightarrow> v))"

definition set_field :: "rstring \<Rightarrow> rstring \<Rightarrow> sse_parser \<Rightarrow> sse_parser" where
  "set_field field v p =
     (if field = lit ''event'' then p\<lparr>event_name := Some v\<rparr>
      else if field = lit ''data'' then p\<lparr>data_lines := data_lines p @ [v]\<rparr>
      else if field = lit ''id'' then p\<lparr>event_id := Some v\<rparr>
      else if field = lit ''retry'' then p\<lparr>retry := parse_u64 v\<rparr>
      else p)"

text \<open>\<^verbatim>\<open>process_line\<close>, with the events it pushes.\<close>

definition process_line :: "rstring \<Rightarrow> sse_parser \<Rightarrow> sse_event list \<times> sse_parser" where
  "process_line line p =
     (if line = [] then (case take_event p of (Some e, p1) \<Rightarrow> ([e], p1) | (None, p1) \<Rightarrow> ([], p1))
      else if starts_with line [c_colon] then ([], p)
      else (case sse_field line of (field, v) \<Rightarrow> ([], set_field field v p)))"

text \<open>The line before the first line feed: without it, and without one carriage return before it.\<close>

definition pop_cr :: "rstring \<Rightarrow> rstring" where
  "pop_cr line = (if line \<noteq> [] \<and> last line = c_cr then butlast line else line)"

lemma process_line_with_buffer:
  "process_line line (p\<lparr>buffer := b\<rparr>) = (let (events, p1) = process_line line p in (events, p1\<lparr>buffer := b\<rparr>))"
  by (cases p) (simp add: process_line_def take_event_def set_field_def Let_def split: prod.split)

lemma process_line_buffer: "process_line line p = (events, p1) \<Longrightarrow> buffer p1 = buffer p"
  by (auto simp: process_line_def take_event_def set_field_def split: if_splits prod.splits)

function drain_lines :: "sse_parser \<Rightarrow> sse_event list \<times> sse_parser" where
  "drain_lines p =
     (if c_nl \<in> set (buffer p) then
        (let line = takeWhile (\<lambda>c. c \<noteq> c_nl) (buffer p); rest = tl (dropWhile (\<lambda>c. c \<noteq> c_nl) (buffer p));
             (events, p1) = process_line (pop_cr line) (p\<lparr>buffer := rest\<rparr>);
             (more, p2) = drain_lines p1
         in (events @ more, p2))
      else ([], p))"
  by pat_completeness auto
termination
proof (relation "measure (\<lambda>p. length (buffer p))")
  fix p :: sse_parser and line rest x events p1
  assume nl: "c_nl \<in> set (buffer p)" and rest: "rest = tl (dropWhile (\<lambda>c. c \<noteq> c_nl) (buffer p))"
    and x: "x = process_line (pop_cr line) (p\<lparr>buffer := rest\<rparr>)" "(events, p1) = x"
  have "buffer p1 = rest" using process_line_buffer [of "pop_cr line" "p\<lparr>buffer := rest\<rparr>" events p1] x by simp
  have "dropWhile (\<lambda>c. c \<noteq> c_nl) (buffer p) \<noteq> []" using nl by (simp add: dropWhile_eq_Nil_conv)
  then have "length rest < length (dropWhile (\<lambda>c. c \<noteq> c_nl) (buffer p))"
    unfolding rest by (cases "dropWhile (\<lambda>c. c \<noteq> c_nl) (buffer p)") auto
  also have "\<dots> \<le> length (buffer p)" by (rule length_dropWhile_le)
  finally show "(p1, p) \<in> measure (\<lambda>p. length (buffer p))" by (simp add: \<open>buffer p1 = rest\<close>)
qed simp

declare drain_lines.simps [simp del]

definition push_chunk :: "rstring \<Rightarrow> sse_parser \<Rightarrow> sse_event list \<times> sse_parser" where
  "push_chunk chunk p = drain_lines (p\<lparr>buffer := buffer p @ chunk\<rparr>)"

definition sse_finish :: "sse_parser \<Rightarrow> sse_event list \<times> sse_parser" where
  "sse_finish p =
     (let (events, p1) = (if buffer p \<noteq> [] then process_line (trim_end_matches c_cr (buffer p)) (p\<lparr>buffer := []\<rparr>) else ([], p));
          (last_event, p2) = take_event p1
      in (events @ (case last_event of Some e \<Rightarrow> [e] | None \<Rightarrow> []), p2))"

section \<open>Independence of the chunks\<close>

lemma drain_lines_append:
  "drain_lines (p\<lparr>buffer := buffer p @ b\<rparr>) =
     (let (events, p1) = drain_lines p; (more, p2) = drain_lines (p1\<lparr>buffer := buffer p1 @ b\<rparr>) in (events @ more, p2))"
proof (induction p rule: drain_lines.induct)
  case (1 p)
  show ?case
  proof (cases "c_nl \<in> set (buffer p)")
    case False
    then have "drain_lines p = ([], p)" by (subst drain_lines.simps) simp
    then show ?thesis by (simp add: Let_def)
  next
    case True
    let ?line = "takeWhile (\<lambda>c. c \<noteq> c_nl) (buffer p)" and ?rest = "tl (dropWhile (\<lambda>c. c \<noteq> c_nl) (buffer p))"
    obtain events p1 where one: "process_line (pop_cr ?line) (p\<lparr>buffer := ?rest\<rparr>) = (events, p1)" by force
    have b1: "buffer p1 = ?rest" using process_line_buffer [OF one] by simp
    have tw: "takeWhile (\<lambda>c. c \<noteq> c_nl) (buffer p @ b) = ?line" using True by (simp add: takeWhile_append1)
    have ne: "dropWhile (\<lambda>c. c \<noteq> c_nl) (buffer p) \<noteq> []" using True by (simp add: dropWhile_eq_Nil_conv)
    have dw: "tl (dropWhile (\<lambda>c. c \<noteq> c_nl) (buffer p @ b)) = ?rest @ b" using True ne by (simp add: dropWhile_append1)
    have two: "process_line (pop_cr ?line) (p\<lparr>buffer := ?rest @ b\<rparr>) = (events, p1\<lparr>buffer := ?rest @ b\<rparr>)"
      using process_line_with_buffer [of "pop_cr ?line" "?rest @ b" "p\<lparr>buffer := ?rest\<rparr>"] by (simp add: one)
    obtain more p2 where d: "drain_lines p1 = (more, p2)" by force
    have d1: "drain_lines p = (events @ more, p2)"
      using True by (subst drain_lines.simps) (simp add: one d Let_def)
    have IH: "drain_lines (p1\<lparr>buffer := ?rest @ b\<rparr>) =
        (let (e, q) = drain_lines p1; (e', q') = drain_lines (q\<lparr>buffer := buffer q @ b\<rparr>) in (e @ e', q'))"
      using 1 [OF True refl refl one [symmetric] refl] by (simp add: b1)
    show ?thesis
      using True by (subst drain_lines.simps) (simp add: tw dw two IH d1 d split_beta Let_def)
  qed
qed

text \<open>
  C35: The events do not depend on how the text is cut into chunks: pushing one chunk after the other gives
  the same events and the same parser as pushing their concatenation at once.\<close>

theorem chunks_do_not_matter:
  "foldl (\<lambda>(events, q) chunk. let (more, q') = push_chunk chunk q in (events @ more, q')) ([], p) chunks =
     (if chunks = [] then ([], p) else push_chunk (concat chunks) p)"
proof (induction chunks rule: rev_induct)
  case (snoc chunk chunks)
  show ?case
  proof (cases "chunks = []")
    case True
    then show ?thesis by (simp add: split_beta)
  next
    case False
    obtain events q where q: "push_chunk (concat chunks) p = (events, q)" by force
    have "push_chunk (concat chunks @ chunk) p = (let (more, q') = push_chunk chunk q in (events @ more, q'))"
      using drain_lines_append [of "p\<lparr>buffer := buffer p @ concat chunks\<rparr>" chunk] q
      by (simp add: push_chunk_def)
    with snoc False q show ?thesis by simp
  qed
qed simp

end
