(* ===== verification/SubAgents.thy ===== *)
theory SubAgents imports Tools Lanes PolicyEngine SummaryCompression Paths Session begin

text \<open>
  Sub-agents (\<^verbatim>\<open>crates/tools/src/lib.rs\<close>, \<^verbatim>\<open>lane_completion.rs\<close>): their types and tools, the start of one, the state its
  end is written with, the class of a failure, and when its lane counts as completed.

  Files are a map from paths to texts; the errors of writing, the text of a manifest and the system prompt are fields of
  \<open>agent_env\<close>.  \<open>clock n\<close> is the time that the \<open>n\<close>-th call of \<^verbatim>\<open>iso8601_now\<close> gives.  The turn that a sub-agent runs is
  that of the conversation runtime: here it is its outcome.
\<close>

section \<open>Types and names\<close>

definition default_agent_model :: rstring where
  "default_agent_model = lit ''claude-opus-5''"

definition resolve_agent_model :: "rstring option \<Rightarrow> rstring" where
  "resolve_agent_model model = (case map_option trim model of
     Some m \<Rightarrow> if m \<noteq> [] then m else default_agent_model
   | None \<Rightarrow> default_agent_model)"

definition normalize_subagent_type :: "rstring option \<Rightarrow> rstring" where
  "normalize_subagent_type subagent_type =
     (let trimmed = trim (unwrap_or [] subagent_type); token = canonical_tool_token trimmed
      in if trimmed = [] then lit ''general-purpose''
         else if token \<in> {lit ''general'', lit ''generalpurpose'', lit ''generalpurposeagent''} then lit ''general-purpose''
         else if token \<in> {lit ''explore'', lit ''explorer'', lit ''exploreagent''} then lit ''Explore''
         else if token \<in> {lit ''plan'', lit ''planagent''} then lit ''Plan''
         else if token \<in> {lit ''verification'', lit ''verificationagent'', lit ''verify'', lit ''verifier''} then lit ''Verification''
         else if token \<in> {lit ''clawguide'', lit ''clawguideagent'', lit ''guide''} then lit ''claw-guide''
         else if token \<in> {lit ''statusline'', lit ''statuslinesetup''} then lit ''statusline-setup''
         else trimmed)"

definition allowed_tools_for_subagent :: "rstring \<Rightarrow> rstring list" where
  "allowed_tools_for_subagent subagent_type = map lit
     (if subagent_type = lit ''Explore'' then
        [''read_file'', ''glob_search'', ''grep_search'', ''WebFetch'', ''WebSearch'', ''ToolSearch'', ''Skill'',
         ''StructuredOutput'']
      else if subagent_type = lit ''Plan'' then
        [''read_file'', ''glob_search'', ''grep_search'', ''WebFetch'', ''WebSearch'', ''ToolSearch'', ''Skill'',
         ''TodoWrite'', ''StructuredOutput'', ''SendUserMessage'']
      else if subagent_type = lit ''Verification'' then
        [''bash'', ''read_file'', ''glob_search'', ''grep_search'', ''WebFetch'', ''WebSearch'', ''ToolSearch'',
         ''TodoWrite'', ''StructuredOutput'', ''SendUserMessage'', ''PowerShell'']
      else if subagent_type = lit ''claw-guide'' then
        [''read_file'', ''glob_search'', ''grep_search'', ''WebFetch'', ''WebSearch'', ''ToolSearch'', ''Skill'',
         ''StructuredOutput'', ''SendUserMessage'']
      else if subagent_type = lit ''statusline-setup'' then
        [''bash'', ''read_file'', ''write_file'', ''edit_file'', ''glob_search'', ''grep_search'', ''ToolSearch'']
      else
        [''bash'', ''read_file'', ''write_file'', ''edit_file'', ''glob_search'', ''grep_search'', ''WebFetch'', ''WebSearch'',
         ''TodoWrite'', ''Skill'', ''ToolSearch'', ''NotebookEdit'', ''Sleep'', ''SendUserMessage'', ''Config'',
         ''StructuredOutput'', ''REPL'', ''PowerShell''])"

definition agent_permission_policy :: permission_policy where
  "agent_permission_policy =
     foldl (\<lambda>p s. with_tool_requirement p (tspec_name s) (tspec_permission s)) (policy_new Mode_DangerFullAccess) mvp_tool_specs"

text \<open>The executor of a sub-agent; \<open>json\<close> reads and writes JSON.\<close>

definition subagent_execute ::
    "serde_object \<Rightarrow> serde_json \<Rightarrow> (rstring \<Rightarrow> serde_value \<Rightarrow> 'w \<Rightarrow> (rstring + rstring) \<times> 'w) \<Rightarrow> rstring list \<Rightarrow>
     permission_enforcer option \<Rightarrow> rstring \<Rightarrow> rstring \<Rightarrow> (rstring \<Rightarrow> rstring) \<Rightarrow> 'w \<Rightarrow> (rstring + rstring) \<times> 'w" where
  "subagent_execute serde json run allowed enforcer name inp json_error w =
     (if name \<notin> set allowed then (Inl (lit ''tool '' @ back_quoted name @ lit '' is not enabled for this sub-agent''), w)
      else (case from_str json inp of
          None \<Rightarrow> (Inl (lit ''invalid tool input JSON: '' @ json_error inp), w)
        | Some v \<Rightarrow> execute_tool_with_enforcer serde (to_string json) run enforcer name v w))"

lemma replace_shorter:
  "length (replace_all [c, c] [c] s) \<le> length s \<and> (str_contains s [c, c] \<longrightarrow> length (replace_all [c, c] [c] s) < length s)"
proof (induction "[c, c]" "[c]" s rule: replace_all.induct)
  case (1 s)
  show ?case
  proof (cases s)
    case Nil
    then show ?thesis by (simp add: replace_all.simps)
  next
    case (Cons d t)
    show ?thesis
    proof (cases "prefix [c, c] s")
      case True
      then obtain u where "s = c # c # u" by (auto simp: prefix_def)
      with 1 show ?thesis by (subst (1 2) replace_all.simps) auto
    next
      case False
      with Cons 1 show ?thesis by (subst (1 2) replace_all.simps) auto
    qed
  qed
qed

function squeeze_dashes :: "rstring \<Rightarrow> rstring" where
  "squeeze_dashes s =
     (if str_contains s [c_minus, c_minus] then squeeze_dashes (replace_all [c_minus, c_minus] [c_minus] s) else s)"
  by pat_completeness auto
termination
  by (relation "measure length") (auto simp: replace_shorter)

declare squeeze_dashes.simps [simp del]

definition slugify_agent_name :: "rstring \<Rightarrow> rstring" where
  "slugify_agent_name description =
     (let out = map (\<lambda>c. if is_ascii_alphanumeric c then ascii_lower c else c_minus) description
      in take 32 (trim_matches c_minus (squeeze_dashes out)))"

section \<open>Failures\<close>

definition classify_lane_failure :: "rstring \<Rightarrow> lane_failure_class" where
  "classify_lane_failure e =
     (let has = (\<lambda>w. str_contains (to_ascii_lowercase e) (lit w))
      in if has ''prompt'' \<and> has ''deliver'' then Fail_PromptDelivery
         else if has ''trust'' then Fail_TrustGate
         else if has ''branch'' \<and> (has ''stale'' \<or> has ''diverg'') then Fail_BranchDivergence
         else if has ''gateway'' \<or> has ''routing'' then Fail_GatewayRouting
         else if has ''compile'' \<or> has ''build failed'' \<or> has ''cargo check'' then Fail_Compile
         else if has ''test'' then Fail_Test
         else if has ''tool failed'' \<or> has ''runtime tool'' \<or> has ''tool runtime'' then Fail_ToolRuntime
         else if has ''plugin'' then Fail_PluginStartup
         else if has ''mcp'' \<and> has ''handshake'' then Fail_McpHandshake
         else if has ''mcp'' then Fail_McpStartup
         else Fail_Infra)"

definition classify_lane_blocker :: "rstring \<Rightarrow> lane_event_blocker" where
  "classify_lane_blocker e = \<lparr>blocker_class = classify_lane_failure e, blocker_detail = trim e\<rparr>"

definition format_agent_terminal_output ::
    "rstring \<Rightarrow> rstring option \<Rightarrow> lane_event_blocker option \<Rightarrow> rstring option \<Rightarrow> rstring" where
  "format_agent_terminal_output status result block err =
     [c_nl] @ lit ''## Result'' @ [c_nl, c_nl] @ lit ''- status: '' @ status @ [c_nl] @
     (case block of Some b \<Rightarrow>
        [c_nl] @ lit ''### Blocker'' @ [c_nl, c_nl] @ lit ''- failure_class: '' @ show_failure_class (blocker_class b) @ [c_nl] @
        lit ''- detail: '' @ trim (blocker_detail b) @ [c_nl] | None \<Rightarrow> []) @
     (case result of Some r \<Rightarrow> if trim r = [] then [] else
        [c_nl] @ lit ''### Final response'' @ [c_nl, c_nl] @ trim r @ [c_nl] | None \<Rightarrow> []) @
     (case err of Some e \<Rightarrow> if trim e = [] then [] else
        [c_nl] @ lit ''### Error'' @ [c_nl, c_nl] @ trim e @ [c_nl] | None \<Rightarrow> [])"

section \<open>The manifest and its end\<close>

record agent_output =
  agent_id :: rstring
  agent_name :: rstring
  agent_description :: rstring
  agent_subagent_type :: "rstring option"
  agent_model :: "rstring option"
  agent_status :: rstring
  agent_output_file :: rstring
  agent_manifest_file :: rstring
  agent_created_at :: rstring
  agent_started_at :: "rstring option"
  agent_completed_at :: "rstring option"
  agent_lane_events :: "lane_event list"
  agent_current_blocker :: "lane_event_blocker option"
  agent_error :: "rstring option"

record agent_env =
  agent_nanos :: nat
  agent_store_var :: "rstring option"
  agent_cwd :: "rstring + rstring"
  create_dir_error :: "rstring option"
  agent_write_error :: "rstring \<Rightarrow> rstring option"
  append_missing :: rstring
  agent_system_prompt :: "rstring \<Rightarrow> rstring + rstring list"
  show_manifest :: "agent_output \<Rightarrow> rstring + rstring"
  clock :: "nat \<Rightarrow> rstring"

type_synonym agent_files = "rstring \<Rightarrow> rstring option"

definition agent_write :: "agent_env \<Rightarrow> rstring \<Rightarrow> rstring \<Rightarrow> agent_files \<Rightarrow> (rstring + unit) \<times> agent_files" where
  "agent_write env path content files =
     (case agent_write_error env path of Some e \<Rightarrow> (Inl e, files) | None \<Rightarrow> (Inr (), files(path \<mapsto> content)))"

definition write_agent_manifest :: "agent_env \<Rightarrow> agent_output \<Rightarrow> agent_files \<Rightarrow> (rstring + unit) \<times> agent_files" where
  "write_agent_manifest env m files = (case show_manifest env m of
     Inl e \<Rightarrow> (Inl e, files) | Inr content \<Rightarrow> agent_write env (agent_manifest_file m) content files)"

definition append_agent_output :: "agent_env \<Rightarrow> rstring \<Rightarrow> rstring \<Rightarrow> agent_files \<Rightarrow> (rstring + unit) \<times> agent_files" where
  "append_agent_output env path added files = (case files path of
     None \<Rightarrow> (Inl (append_missing env), files) | Some old \<Rightarrow> agent_write env path (old @ added) files)"

text \<open>The manifest with which an agent ends; \<open>at\<close> gives the times of the calls in it.\<close>

definition terminal_manifest ::
    "(nat \<Rightarrow> rstring) \<Rightarrow> agent_output \<Rightarrow> rstring \<Rightarrow> rstring option \<Rightarrow> rstring option \<Rightarrow> agent_output" where
  "terminal_manifest at m status result err =
     (let m1 = m\<lparr>agent_status := status, agent_completed_at := Some (at 0),
            agent_current_blocker := map_option classify_lane_blocker err, agent_error := err\<rparr>
      in case map_option classify_lane_blocker err of
           Some b \<Rightarrow> m1\<lparr>agent_lane_events := agent_lane_events m @ [lane_blocked (at 1) b, lane_failed (at 2) b]\<rparr>
         | None \<Rightarrow> m1\<lparr>agent_current_blocker := None,
             agent_lane_events := agent_lane_events m @ [lane_finished (at 1)
               (case result of Some r \<Rightarrow> if trim r = [] then None else Some (compress_summary_text (trim r)) | None \<Rightarrow> None)]\<rparr>)"

definition persist_agent_terminal_state ::
    "agent_env \<Rightarrow> (nat \<Rightarrow> rstring) \<Rightarrow> agent_output \<Rightarrow> rstring \<Rightarrow> rstring option \<Rightarrow> rstring option \<Rightarrow> agent_files \<Rightarrow>
     (rstring + unit) \<times> agent_files" where
  "persist_agent_terminal_state env at m status result err files =
     (case append_agent_output env (agent_output_file m)
          (format_agent_terminal_output status result (map_option classify_lane_blocker err) err) files of
        (Inl e, files1) \<Rightarrow> (Inl e, files1)
      | (Inr _, files1) \<Rightarrow> write_agent_manifest env (terminal_manifest at m status result err) files1)"

section \<open>Starting and running\<close>

record agent_input =
  in_description :: rstring
  in_prompt :: rstring
  in_subagent_type :: "rstring option"
  in_name :: "rstring option"
  in_model :: "rstring option"

record agent_job =
  job_manifest :: agent_output
  job_prompt :: rstring
  job_system_prompt :: "rstring list"
  job_allowed_tools :: "rstring list"

definition agent_store_dir :: "agent_env \<Rightarrow> rstring + rstring" where
  "agent_store_dir env = (case agent_store_var env of
     Some path \<Rightarrow> Inr path
   | None \<Rightarrow> rbind (agent_cwd env) (\<lambda>cwd.
       Inr (path_join (case Option.bind (path_parent cwd) path_parent of Some root \<Rightarrow> root | None \<Rightarrow> cwd) (lit ''.clawd-agents''))))"

definition make_agent_id :: "agent_env \<Rightarrow> rstring" where
  "make_agent_id env = lit ''agent-'' @ show_nat (agent_nanos env)"

definition agent_name_of :: "agent_input \<Rightarrow> rstring" where
  "agent_name_of inp = (case map_option slugify_agent_name (in_name inp) of
     Some n \<Rightarrow> if n \<noteq> [] then n else slugify_agent_name (in_description inp)
   | None \<Rightarrow> slugify_agent_name (in_description inp))"

definition agent_header :: "agent_output \<Rightarrow> rstring \<Rightarrow> rstring" where
  "agent_header m prompt =
     lit ''# Agent Task'' @ [c_nl, c_nl] @ lit ''- id: '' @ agent_id m @ [c_nl] @ lit ''- name: '' @ agent_name m @ [c_nl] @
     lit ''- description: '' @ agent_description m @ [c_nl] @
     lit ''- subagent_type: '' @ unwrap_or [] (agent_subagent_type m) @ [c_nl] @
     lit ''- created_at: '' @ agent_created_at m @ [c_nl, c_nl] @ lit ''## Prompt'' @ [c_nl, c_nl] @ prompt @ [c_nl]"

definition initial_manifest :: "agent_env \<Rightarrow> rstring \<Rightarrow> agent_input \<Rightarrow> agent_output" where
  "initial_manifest env dir inp =
     (let i = make_agent_id env
      in \<lparr>agent_id = i, agent_name = agent_name_of inp, agent_description = in_description inp,
          agent_subagent_type = Some (normalize_subagent_type (in_subagent_type inp)),
          agent_model = Some (resolve_agent_model (in_model inp)), agent_status = lit ''running'',
          agent_output_file = path_join dir (i @ lit ''.md''), agent_manifest_file = path_join dir (i @ lit ''.json''),
          agent_created_at = clock env 0, agent_started_at = Some (clock env 0), agent_completed_at = None,
          agent_lane_events = [lane_started (clock env 1)], agent_current_blocker = None, agent_error = None\<rparr>)"

text \<open>\<open>spawn\<close> starts the thread of a job or says why it cannot.\<close>

definition start_agent :: "agent_env \<Rightarrow> (agent_job \<Rightarrow> rstring option) \<Rightarrow> agent_input \<Rightarrow> rstring \<Rightarrow> rstring list \<Rightarrow>
    agent_files \<Rightarrow> (rstring + agent_output) \<times> agent_files" where
  "start_agent env spawn inp dir sys files =
     (let m = initial_manifest env dir inp;
          job = \<lparr>job_manifest = m, job_prompt = in_prompt inp, job_system_prompt = sys,
            job_allowed_tools = allowed_tools_for_subagent (normalize_subagent_type (in_subagent_type inp))\<rparr>
      in case agent_write env (agent_output_file m) (agent_header m (in_prompt inp)) files of
           (Inl e, files1) \<Rightarrow> (Inl e, files1)
         | (Inr _, files1) \<Rightarrow> (case write_agent_manifest env m files1 of
             (Inl e, files2) \<Rightarrow> (Inl e, files2)
           | (Inr _, files2) \<Rightarrow> (case spawn job of
               None \<Rightarrow> (Inr m, files2)
             | Some e \<Rightarrow> (case persist_agent_terminal_state env (\<lambda>n. clock env (n + 2)) m (lit ''failed'') None
                   (Some (lit ''failed to spawn sub-agent: '' @ e)) files2 of
                 (Inl e2, files3) \<Rightarrow> (Inl e2, files3)
               | (Inr _, files3) \<Rightarrow> (Inl (lit ''failed to spawn sub-agent: '' @ e), files3)))))"

definition execute_agent_with_spawn :: "agent_env \<Rightarrow> (agent_job \<Rightarrow> rstring option) \<Rightarrow> agent_input \<Rightarrow> agent_files \<Rightarrow>
    (rstring + agent_output) \<times> agent_files" where
  "execute_agent_with_spawn env spawn inp files =
     (if trim (in_description inp) = [] then (Inl (lit ''description must not be empty''), files)
      else if trim (in_prompt inp) = [] then (Inl (lit ''prompt must not be empty''), files)
      else (case agent_store_dir env of
          Inl e \<Rightarrow> (Inl e, files)
        | Inr dir \<Rightarrow> (case create_dir_error env of
            Some e \<Rightarrow> (Inl e, files)
          | None \<Rightarrow> (case agent_system_prompt env (normalize_subagent_type (in_subagent_type inp)) of
              Inl e \<Rightarrow> (Inl e, files)
            | Inr sys \<Rightarrow> start_agent env spawn inp dir sys files))))"

text \<open>The text of the last message of a turn.\<close>

definition final_assistant_text :: "conversation_message list \<Rightarrow> rstring" where
  "final_assistant_text msgs =
     (if msgs = [] then []
      else concat (filter_map (\<lambda>b. case b of Block_Text t \<Rightarrow> Some t | _ \<Rightarrow> None) (msg_blocks (last msgs))))"

text \<open>What the turn of a job ends with: its messages, an error, or a panic.\<close>

datatype job_outcome = Job_Messages "conversation_message list" | Job_Error rstring | Job_Panicked

definition run_agent_job ::
    "agent_env \<Rightarrow> (nat \<Rightarrow> rstring) \<Rightarrow> agent_job \<Rightarrow> conversation_message list \<Rightarrow> agent_files \<Rightarrow> (rstring + unit) \<times> agent_files" where
  "run_agent_job env at job msgs files =
     persist_agent_terminal_state env at (job_manifest job) (lit ''completed'') (Some (final_assistant_text msgs)) None files"

definition agent_thread :: "agent_env \<Rightarrow> (nat \<Rightarrow> rstring) \<Rightarrow> agent_job \<Rightarrow> job_outcome \<Rightarrow> agent_files \<Rightarrow> agent_files" where
  "agent_thread env at job outcome files =
     (let fail = (\<lambda>e files1. snd (persist_agent_terminal_state env (\<lambda>n. at (n + 3)) (job_manifest job) (lit ''failed'') None (Some e) files1))
      in case outcome of
           Job_Messages msgs \<Rightarrow> (case run_agent_job env at job msgs files of
             (Inr _, files1) \<Rightarrow> files1
           | (Inl e, files1) \<Rightarrow> fail e files1)
         | Job_Error e \<Rightarrow> fail e files
         | Job_Panicked \<Rightarrow> fail (lit ''sub-agent thread panicked'') files)"

section \<open>Completion of a lane\<close>

definition status_is :: "rstring \<Rightarrow> string \<Rightarrow> bool" where
  "status_is status word \<longleftrightarrow> to_ascii_lowercase status = lit word"

definition detect_lane_completion :: "agent_output \<Rightarrow> bool \<Rightarrow> bool \<Rightarrow> lane_context option" where
  "detect_lane_completion m test_green has_pushed =
     (if agent_error m \<noteq> None then None
      else if \<not> status_is (agent_status m) ''completed'' \<and> \<not> status_is (agent_status m) ''finished'' then None
      else if agent_current_blocker m \<noteq> None then None
      else if \<not> test_green then None
      else if \<not> has_pushed then None
      else Some \<lparr>lane_id = agent_id m, green = 3, branch_freshness = from_secs 0, blocker = Blocker_None,
        review = Review_Approved, scope = Scope_Scoped, completed = True, reconciled = False\<rparr>)"

definition evaluate_completed_lane :: "lane_context \<Rightarrow> policy_action list" where
  "evaluate_completed_lane c = evaluate (engine_new
     [\<lparr>rule_name = lit ''closeout-completed-lane'', rule_condition = And [LaneCompleted, GreenAt 3],
        rule_action = CloseoutLane, priority = 10\<rparr>,
      \<lparr>rule_name = lit ''cleanup-completed-session'', rule_condition = LaneCompleted,
        rule_action = CleanupSession, priority = 5\<rparr>]) c"

section \<open>What a sub-agent may do\<close>

text \<open>All tools that some type of agent has.\<close>

definition listed_tools :: "string list" where
  "listed_tools = [''bash'', ''read_file'', ''write_file'', ''edit_file'', ''glob_search'', ''grep_search'', ''WebFetch'',
     ''WebSearch'', ''TodoWrite'', ''Skill'', ''ToolSearch'', ''NotebookEdit'', ''Sleep'', ''SendUserMessage'', ''Config'',
     ''StructuredOutput'', ''REPL'', ''PowerShell'']"

lemma subagent_tools_listed: "set (allowed_tools_for_subagent t) \<subseteq> lit ` set listed_tools"
proof -
  have "\<exists>ns. allowed_tools_for_subagent t = map lit ns \<and> set ns \<subseteq> set listed_tools"
    unfolding allowed_tools_for_subagent_def by (rule exI, rule conjI, rule refl) (simp add: listed_tools_def)
  then obtain ns where ns: "allowed_tools_for_subagent t = map lit ns" "set ns \<subseteq> set listed_tools" by blast
  show ?thesis unfolding ns(1) set_map by (rule image_mono [OF ns(2)])
qed

lemma listed_tools_dispatched: "lit ` set listed_tools \<subseteq> set guarded_tools \<union> set unguarded_tools"
proof -
  have "set listed_tools \<subseteq> set [''bash'', ''read_file'', ''write_file'', ''edit_file'', ''glob_search'', ''grep_search''] \<union>
      set [''WebFetch'', ''WebSearch'', ''TodoWrite'', ''Skill'', ''Agent'', ''ToolSearch'', ''NotebookEdit'', ''Sleep'',
        ''SendUserMessage'', ''Brief'', ''Config'', ''EnterPlanMode'', ''ExitPlanMode'', ''StructuredOutput'', ''REPL'', ''PowerShell'']"
    by (simp add: listed_tools_def)
  then show ?thesis unfolding guarded_tools_def unguarded_tools_def by (auto dest: subsetD)
qed

lemma disjoint_subset: "A \<subseteq> B \<Longrightarrow> B \<inter> C = {} \<Longrightarrow> A \<inter> C = {}"
  by blast

lemma inj_lit: "inj lit"
  by (simp add: inj_def)

lemma not_listed:
  "''Brief'' \<notin> set listed_tools"
  "set listed_tools \<inter> {''Agent'', ''TaskCreate'', ''RunTaskPacket'', ''WorkerCreate'', ''TeamCreate'', ''CronCreate'',
     ''RemoteTrigger'', ''MCP''} = {}"
  by (simp_all add: listed_tools_def)

lemma listed_tools_builtin: "lit ` set listed_tools \<subseteq> set builtin_names"
proof -
  have "lit ''Brief'' \<notin> lit ` set listed_tools" using not_listed(1) by (simp add: inj_image_mem_iff [OF inj_lit])
  then show ?thesis using listed_tools_dispatched unfolding builtin_names_eq set_append set_filter by blast
qed

text \<open>
  The tools of an \<^verbatim>\<open>Explore\<close> agent are all read-only by the table of tools, and no type of agent has the tool that starts
  agents, or those that drive tasks, workers, teams and timed jobs: sub-agents cannot start others.\<close>

theorem subagent_tools_contained:
  "set (map (\<lambda>n. (n, Mode_ReadOnly)) (allowed_tools_for_subagent (lit ''Explore'')))
     \<subseteq> set (map (\<lambda>s. (tspec_name s, tspec_permission s)) mvp_tool_specs) \<and>
   set (allowed_tools_for_subagent t) \<subseteq> set builtin_names \<and>
   set (allowed_tools_for_subagent t) \<inter> lit ` {''Agent'', ''TaskCreate'', ''RunTaskPacket'', ''WorkerCreate'', ''TeamCreate'',
     ''CronCreate'', ''RemoteTrigger'', ''MCP''} = {}"
proof (intro conjI)
  show "set (map (\<lambda>n. (n, Mode_ReadOnly)) (allowed_tools_for_subagent (lit ''Explore'')))
      \<subseteq> set (map (\<lambda>s. (tspec_name s, tspec_permission s)) mvp_tool_specs)"
    unfolding tool_permissions allowed_tools_for_subagent_def by simp
  show "set (allowed_tools_for_subagent t) \<subseteq> set builtin_names"
    by (rule subset_trans [OF subagent_tools_listed listed_tools_builtin])
  have "lit ` set listed_tools \<inter> lit ` {''Agent'', ''TaskCreate'', ''RunTaskPacket'', ''WorkerCreate'', ''TeamCreate'',
     ''CronCreate'', ''RemoteTrigger'', ''MCP''} = {}"
    unfolding image_Int [OF inj_lit, symmetric] not_listed(2) by simp
  then show "set (allowed_tools_for_subagent t) \<inter> lit ` {''Agent'', ''TaskCreate'', ''RunTaskPacket'', ''WorkerCreate'', ''TeamCreate'',
     ''CronCreate'', ''RemoteTrigger'', ''MCP''} = {}"
    by (rule disjoint_subset [OF subagent_tools_listed])
qed

lemma foldl_requirements:
  "active_mode (foldl (\<lambda>p s. with_tool_requirement p (tspec_name s) (tspec_permission s)) p specs) = active_mode p"
  "deny_rules (foldl (\<lambda>p s. with_tool_requirement p (tspec_name s) (tspec_permission s)) p specs) = deny_rules p"
  "ask_rules (foldl (\<lambda>p s. with_tool_requirement p (tspec_name s) (tspec_permission s)) p specs) = ask_rules p"
  "allow_rules (foldl (\<lambda>p s. with_tool_requirement p (tspec_name s) (tspec_permission s)) p specs) = allow_rules p"
  by (induction specs arbitrary: p) (simp_all add: with_tool_requirement_def)

lemma foldl_requirement_of:
  assumes "\<And>t m. map_of (tool_requirements p) t = Some m \<Longrightarrow> m \<le> Mode_DangerFullAccess"
    and "\<forall>s \<in> set specs. tspec_permission s \<le> Mode_DangerFullAccess"
  shows "map_of (tool_requirements (foldl (\<lambda>p s. with_tool_requirement p (tspec_name s) (tspec_permission s)) p specs)) t = Some m \<Longrightarrow>
    m \<le> Mode_DangerFullAccess"
  using assms
proof (induction specs arbitrary: p)
  case (Cons s specs)
  from Cons.prems(1) show ?case
    by (auto intro!: Cons.IH [of "with_tool_requirement p (tspec_name s) (tspec_permission s)"]
        simp: with_tool_requirement_def map_of_bt_insert_any Cons.prems split: if_splits intro: Cons.prems)
qed simp

lemma table_permissions_bounded: "\<forall>s \<in> set mvp_tool_specs. tspec_permission s \<le> Mode_DangerFullAccess"
proof -
  have "\<forall>x \<in> set (map (\<lambda>s. (tspec_name s, tspec_permission s)) mvp_tool_specs). snd x \<le> Mode_DangerFullAccess"
    unfolding tool_permissions by (simp add: less_eq_permission_mode_def)
  then show ?thesis by auto
qed

lemma agent_policy_allows: "is_allowed serde \<lparr>enf_policy = agent_permission_policy\<rparr> name j"
proof -
  have r: "required_mode_for agent_permission_policy name \<le> Mode_DangerFullAccess"
    using foldl_requirement_of [of "policy_new Mode_DangerFullAccess" mvp_tool_specs name] table_permissions_bounded
    by (auto simp: required_mode_for_def agent_permission_policy_def policy_new_def split: option.split)
  have p: "active_mode agent_permission_policy = Mode_DangerFullAccess" "deny_rules agent_permission_policy = []"
      "ask_rules agent_permission_policy = []"
    by (simp_all add: agent_permission_policy_def foldl_requirements policy_new_def)
  show ?thesis using r
    by (simp add: is_allowed_def enforcer_check_def authorize_def authorize_with_context_def p find_matching_rule_def
        default_context_def Let_def)
qed

text \<open>
  A sub-agent runs exactly the calls of the tools on its list, with an input that is JSON: its enforcer, which is in the
  mode of full access, never refuses one, and every other call leaves the world as it is.\<close>

theorem subagent_runs_listed_tools:
  "\<exists>e. subagent_execute serde json run (allowed_tools_for_subagent t) (Some \<lparr>enf_policy = agent_permission_policy\<rparr>) name inp je w =
     (case from_str json inp of
        Some v \<Rightarrow> if name \<in> set (allowed_tools_for_subagent t) then run name v w else (Inl e, w)
      | None \<Rightarrow> (Inl e, w))"
proof -
  have "set (allowed_tools_for_subagent t) \<subseteq> set guarded_tools \<union> set unguarded_tools"
    by (rule subset_trans [OF subagent_tools_listed listed_tools_dispatched])
  moreover have "maybe_enforce_permission_check serde tj (Some \<lparr>enf_policy = agent_permission_policy\<rparr>) n v = Inr ()" for tj n v
    using agent_policy_allows [of serde n "tj v"]
    by (auto simp: maybe_enforce_permission_check_def enforce_permission_check_def is_allowed_def split: enforcement_result.splits)
  ultimately show ?thesis
    by (auto simp: subagent_execute_def execute_tool_with_enforcer_def split: option.split)
qed

section \<open>Names and failures\<close>

lemma set_replace: "set (replace_all [c, c] [c] s) \<subseteq> set s"
proof (induction "[c, c]" "[c]" s rule: replace_all.induct)
  case (1 s)
  then show ?case
    by (subst replace_all.simps) (cases s, auto simp: prefix_def dest!: in_set_dropD split: if_splits)
qed

lemma set_squeeze: "set (squeeze_dashes s) \<subseteq> set s"
proof (induction s rule: squeeze_dashes.induct)
  case (1 s)
  then show ?case using set_replace [of c_minus s] by (subst squeeze_dashes.simps) auto
qed

lemma squeeze_no_double: "\<not> str_contains (squeeze_dashes s) [c_minus, c_minus]"
proof (induction s rule: squeeze_dashes.induct)
  case (1 s)
  then show ?case by (subst squeeze_dashes.simps) auto
qed

text \<open>The name of an agent is short, made of lower case letters, digits and single dashes, and does not begin with a dash.\<close>

lemma str_contains_sublist: "str_contains s p \<longleftrightarrow> sublist p s"
  by (induction s p rule: str_contains.induct) (auto simp: sublist_Cons_right)

lemma prefix_trim_end_matches: "prefix (trim_end_matches c s) s"
proof -
  have "suffix (dropWhile (\<lambda>x. x = c) (rev s)) (rev s)" by (rule suffix_dropWhile)
  then show ?thesis by (simp add: trim_end_matches_def suffix_to_prefix)
qed

lemma sublist_trim_matches: "sublist (trim_matches c s) s"
  unfolding trim_matches_def
  by (rule sublist_order.order.trans [OF prefix_imp_sublist [OF prefix_trim_end_matches] suffix_imp_sublist [OF suffix_dropWhile]])

theorem agent_name_contract:
  "let n = slugify_agent_name d in length n \<le> 32 \<and> \<not> starts_with n [c_minus] \<and> \<not> str_contains n [c_minus, c_minus] \<and>
     list_all (\<lambda>c. c = c_minus \<or> is_ascii_digit c \<or> (97 \<le> c \<and> c \<le> 122)) n"
proof -
  let ?f = "\<lambda>c. if is_ascii_alphanumeric c then ascii_lower c else c_minus"
  let ?q = "squeeze_dashes (map ?f d)"
  let ?t = "trim_matches c_minus ?q"
  have n: "slugify_agent_name d = take 32 ?t" by (simp add: slugify_agent_name_def)
  have "set (take 32 ?t) \<subseteq> ?f ` set d"
    using set_squeeze [of "map ?f d"] set_trim_matches [of c_minus ?q] by (auto dest!: in_set_takeD)
  then have "list_all (\<lambda>c. c = c_minus \<or> is_ascii_digit c \<or> (97 \<le> c \<and> c \<le> 122)) (take 32 ?t)"
    by (auto simp: list_all_iff is_ascii_alphanumeric_def ascii_lower_def is_ascii_digit_def dest!: subsetD split: if_splits)
  moreover have "\<not> starts_with (take 32 ?t) [c_minus]"
  proof
    assume "starts_with (take 32 ?t) [c_minus]"
    then have "prefix [c_minus] (dropWhile (\<lambda>x. x = c_minus) ?q)"
      unfolding starts_with_def trim_matches_def
      by (meson prefix_order.trans prefix_trim_end_matches take_is_prefix)
    then obtain u where "dropWhile (\<lambda>x. x = c_minus) ?q = c_minus # u" unfolding prefix_def by auto
    then show False using hd_dropWhile [of "\<lambda>x. x = c_minus" ?q] by (metis list.sel(1) list.distinct(1))
  qed
  moreover have "sublist (take 32 ?t) ?q"
    by (rule sublist_order.order.trans [OF prefix_imp_sublist [OF take_is_prefix] sublist_trim_matches])
  then have "\<not> str_contains (take 32 ?t) [c_minus, c_minus]"
    using squeeze_no_double [of "map ?f d"] unfolding str_contains_sublist by (meson sublist_order.order.trans)
  ultimately show ?thesis unfolding n by simp
qed

text \<open>
  Words are looked for anywhere in the text of an error: a missing \<^emph>\<open>latest\<close> release counts as a failed test.\<close>

theorem latest_is_a_test_failure:
  "classify_lane_failure (lit ''latest release not found'') = Fail_Test \<and>
   classify_lane_failure (lit ''release not found'') = Fail_Infra"
  by (simp add: classify_lane_failure_def to_ascii_lowercase_def ascii_lower_def lit_def Let_def)

section \<open>The end of an agent\<close>

text \<open>
  A manifest that is written at the end tells one story: an error stands with its blocker and the events of a blocked and
  failed lane, and otherwise the lane is finished; what the manifest said before stays.\<close>

theorem terminal_manifest_consistent:
  "let m' = terminal_manifest at m status result err in
     agent_error m' = err \<and> agent_status m' = status \<and> agent_completed_at m' = Some (at 0) \<and>
     (agent_current_blocker m' = None \<longleftrightarrow> err = None) \<and>
     (lane_event (last (agent_lane_events m')) = (if err = None then Lane_Finished else Lane_Failed)) \<and>
     prefix (agent_lane_events m) (agent_lane_events m') \<and> agent_id m' = agent_id m \<and> agent_created_at m' = agent_created_at m"
  by (cases err)
    (auto simp: terminal_manifest_def Let_def lane_finished_def lane_failed_def lane_event_new_def with_optional_detail_def
      with_detail_def with_failure_class_def)

text \<open>
  C37: From the end of an agent to the policy: the lane of an agent is complete exactly when the agent ended without an error,
  in the status \<^emph>\<open>completed\<close> or \<^emph>\<open>finished\<close> in any case of the letters, and both green tests and a push are reported; then
  the policy cleans up the session and closes the lane, and nothing else.  An agent that still runs completes no lane.
\<close>

theorem finished_agent_closes_lane:
  "(case detect_lane_completion (terminal_manifest at m status result err) tests pushed of
      Some c \<Rightarrow> err = None \<and> to_ascii_lowercase status \<in> {lit ''completed'', lit ''finished''} \<and> tests \<and> pushed \<and>
        lane_id c = agent_id m \<and> evaluate_completed_lane c = [CleanupSession, CloseoutLane]
    | None \<Rightarrow> \<not> (err = None \<and> to_ascii_lowercase status \<in> {lit ''completed'', lit ''finished''} \<and> tests \<and> pushed)) \<and>
   detect_lane_completion (initial_manifest env dir inp) tests pushed = None"
proof -
  have "(agent_current_blocker (terminal_manifest at m status result err) = None) = (err = None)"
    "agent_error (terminal_manifest at m status result err) = err" "agent_status (terminal_manifest at m status result err) = status"
    "agent_id (terminal_manifest at m status result err) = agent_id m"
    using terminal_manifest_consistent [of at m status result err] by (simp_all add: Let_def)
  moreover have "evaluate_completed_lane \<lparr>lane_id = agent_id m, green = 3, branch_freshness = from_secs 0,
      blocker = Blocker_None, review = Review_Approved, scope = Scope_Scoped, completed = True, reconciled = False\<rparr>
      = [CleanupSession, CloseoutLane]"
    by (simp add: evaluate_completed_lane_def evaluate_def engine_new_def policy_rule_matches_def)
  moreover have "\<not> status_is (agent_status (initial_manifest env dir inp)) ''completed''"
      "\<not> status_is (agent_status (initial_manifest env dir inp)) ''finished''"
    by (simp_all add: initial_manifest_def status_is_def to_ascii_lowercase_def lit_def ascii_lower_def Let_def)
  ultimately show ?thesis by (auto simp: detect_lane_completion_def status_is_def)
qed

end
