(* ===== verification/Todo.thy ===== *)
theory Todo imports Session Utf8 Strings "HOL-Library.Multiset" begin

text \<open>
  The todo file (\<^verbatim>\<open>src/todo/todo_file.rs\<close>): items, sections and blocks, parsing, changing and writing back.

  \<open>now\<close> is the time that \<^verbatim>\<open>Utc::now()\<close> gives.  Parsing an item slices the line at a byte offset, which panics inside
  a char: such a result is \<open>Inl Slice_Panic\<close>.  Reading and writing the file are not modelled, its text is.
\<close>

unbundle bit_operations_syntax

section \<open>Data\<close>

datatype checkbox_state = Unchecked | Checked

fun show_checkbox :: "checkbox_state \<Rightarrow> rstring" where
  "show_checkbox Unchecked = lit ''[ ]''"
| "show_checkbox Checked = lit ''[x]''"

datatype status_marker = Marker_None | Marker_Done | Marker_Partial | Marker_Blocked

fun marker_emoji :: "status_marker \<Rightarrow> rstring" where
  "marker_emoji Marker_None = []"
| "marker_emoji Marker_Done = [0x2705]"
| "marker_emoji Marker_Partial = [0x26A0, 0xFE0F]"
| "marker_emoji Marker_Blocked = [0x274C]"

definition marker_from_line :: "rstring \<Rightarrow> status_marker" where
  "marker_from_line line =
     (if 0x2705 \<in> set line then Marker_Done
      else if 0x26A0 \<in> set line then Marker_Partial
      else if 0x274C \<in> set line then Marker_Blocked
      else Marker_None)"

datatype todo_priority = Priority_High | Priority_Medium | Priority_Low | Priority_Notes

definition priority_from_heading :: "rstring \<Rightarrow> todo_priority" where
  "priority_from_heading heading =
     (if 0x1F534 \<in> set heading then Priority_High
      else if 0x1F7E1 \<in> set heading then Priority_Medium
      else if 0x1F7E2 \<in> set heading then Priority_Low
      else if 0x1F4CB \<in> set heading then Priority_Notes
      else Priority_Medium)"

fun priority_emoji :: "todo_priority \<Rightarrow> rstring" where
  "priority_emoji Priority_High = [0x1F534]"
| "priority_emoji Priority_Medium = [0x1F7E1]"
| "priority_emoji Priority_Low = [0x1F7E2]"
| "priority_emoji Priority_Notes = [0x1F4CB]"

record todo_item =
  item_id :: rstring
  checkbox :: checkbox_state
  marker :: status_marker
  item_text :: rstring
  item_note :: "rstring option"
  strikethrough :: bool
  title :: "rstring option"
  updated_at :: "u64 option"
  indent :: nat
  raw_line :: rstring

record todo_section =
  sec_heading :: rstring
  sec_items :: "todo_item list"
  sec_preamble :: "rstring list"

record priority_block =
  blk_heading :: rstring
  blk_priority :: todo_priority
  blk_sections :: "todo_section list"
  blk_preamble :: "rstring list"

record todo_file =
  todo_header :: "rstring list"
  todo_blocks :: "priority_block list"
  todo_footer :: "rstring list"

record todo_counts =
  total_count :: nat
  pending_total :: nat
  done_total :: nat
  partial_total :: nat
  blocked_total :: nat

section \<open>Items\<close>

definition item_to_markdown :: "todo_item \<Rightarrow> rstring" where
  "item_to_markdown it =
     (let body = (if strikethrough it then lit ''~~'' @ item_text it @ lit ''~~'' else item_text it);
          note_str = (case item_note it of Some n \<Rightarrow> if n \<noteq> [] then c_space # n else [] | None \<Rightarrow> []);
          start = replicate (indent it * 2) c_space @ lit ''- '' @ show_checkbox (checkbox it) @ [c_space] @ body
      in if marker_emoji (marker it) = [] then start @ note_str
         else start @ [c_space] @ marker_emoji (marker it) @ note_str)"

definition set_note :: "rstring \<Rightarrow> todo_item \<Rightarrow> todo_item" where
  "set_note n it = (if n \<noteq> [] then it\<lparr>item_note := Some n\<rparr> else it)"

definition item_mark_done :: "u64 \<Rightarrow> rstring \<Rightarrow> todo_item \<Rightarrow> todo_item" where
  "item_mark_done now n it =
     (set_note n (it\<lparr>checkbox := Checked, marker := Marker_Done, strikethrough := True\<rparr>))\<lparr>updated_at := Some now\<rparr>"

definition item_mark_partial :: "u64 \<Rightarrow> rstring \<Rightarrow> todo_item \<Rightarrow> todo_item" where
  "item_mark_partial now n it = (set_note n (it\<lparr>marker := Marker_Partial\<rparr>))\<lparr>updated_at := Some now\<rparr>"

definition item_mark_blocked :: "u64 \<Rightarrow> rstring \<Rightarrow> todo_item \<Rightarrow> todo_item" where
  "item_mark_blocked now n it = (set_note n (it\<lparr>marker := Marker_Blocked\<rparr>))\<lparr>updated_at := Some now\<rparr>"

definition item_reset :: "u64 \<Rightarrow> todo_item \<Rightarrow> todo_item" where
  "item_reset now it = it\<lparr>checkbox := Unchecked, marker := Marker_None, strikethrough := False, item_note := None, updated_at := Some now\<rparr>"

definition is_done :: "todo_item \<Rightarrow> bool" where
  "is_done it \<longleftrightarrow> checkbox it = Checked \<or> marker it = Marker_Done"

definition pending_count :: "todo_section \<Rightarrow> nat" where
  "pending_count s = length (filter (\<lambda>it. \<not> is_done it) (sec_items s))"

definition done_count :: "todo_section \<Rightarrow> nat" where
  "done_count s = length (filter is_done (sec_items s))"

section \<open>Parsing an item\<close>

fun crc32_bits :: "nat \<Rightarrow> u32 \<Rightarrow> u32" where
  "crc32_bits 0 crc = crc"
| "crc32_bits (Suc n) crc = crc32_bits n
     (if crc AND 0x80000000 \<noteq> 0 then push_bit 1 crc XOR 0x04C11DB7 else push_bit 1 crc)"

definition crc32_simple :: "byte list \<Rightarrow> u32" where
  "crc32_simple data = NOT (foldl (\<lambda>crc b. crc32_bits 8 (crc XOR push_bit 24 (of_nat b))) 0xFFFFFFFF data)"

definition line_id :: "rstring \<Rightarrow> rstring" where
  "line_id line = show_hex08 (unat (crc32_simple (as_bytes line)))"

text \<open>\<^verbatim>\<open>str::rfind\<close> as a number of chars, and \<^verbatim>\<open>trim_start_matches\<close> with a string.\<close>

definition str_rfind :: "rstring \<Rightarrow> rstring \<Rightarrow> nat option" where
  "str_rfind s p = find (\<lambda>i. prefix p (drop i s)) (rev [0..<length s + 1])"

function trim_start_string :: "rstring \<Rightarrow> rstring \<Rightarrow> rstring" where
  "trim_start_string p s = (if p \<noteq> [] \<and> prefix p s then trim_start_string p (drop (length p) s) else s)"
  by pat_completeness auto
termination
proof (relation "measure (\<lambda>(p, s). length s)")
  fix p s :: rstring
  assume "p \<noteq> [] \<and> prefix p s"
  then show "((p, drop (length p) s), (p, s)) \<in> measure (\<lambda>(p, s). length s)"
    by (cases p) (auto simp: prefix_def)
qed simp

declare trim_start_string.simps [simp del]

definition split_note :: "rstring \<Rightarrow> status_marker \<Rightarrow> rstring \<times> rstring option" where
  "split_note text m =
     (let emoji = marker_emoji m
      in if emoji = [] then (text, None)
         else (case split_once text emoji of
           Some (before, after) \<Rightarrow> (trim_end before, if trim after = [] then None else Some (trim after))
         | None \<Rightarrow> (text, None)))"

definition strip_strikethrough :: "rstring \<Rightarrow> rstring \<times> bool" where
  "strip_strikethrough rest =
     (if starts_with rest (lit ''~~'') then
        let inner_end = (case str_rfind rest (lit ''~~'') of Some i \<Rightarrow> i | None \<Rightarrow> length rest - 2)
        in (if 2 < inner_end then drop 2 (take inner_end rest) else trim_matches 126 rest, True)
      else (rest, False))"

definition split_title :: "rstring \<Rightarrow> rstring option \<times> rstring" where
  "split_title text = (case strip_prefix text (lit ''**'') of
     None \<Rightarrow> (None, text)
   | Some stripped \<Rightarrow> (case split_once stripped (lit ''**'') of
       None \<Rightarrow> (None, text)
     | Some (t, after) \<Rightarrow> (Some t, trim (trim_start_string [c_space, 0x2014] after))))"

definition checkbox_of :: "rstring \<Rightarrow> checkbox_state option" where
  "checkbox_of s = (if s = lit ''[x]'' \<or> s = lit ''[X]'' then Some Checked
     else if s = lit ''[ ]'' then Some Unchecked else None)"

text \<open>The item made of what stands behind the checkbox.\<close>

definition item_of :: "rstring \<Rightarrow> nat \<Rightarrow> checkbox_state \<Rightarrow> rstring \<Rightarrow> todo_item" where
  "item_of line ind box rest =
     (let m = marker_from_line rest;
          (text_raw, struck) = strip_strikethrough rest;
          (t, body) = split_title text_raw;
          (text, n) = split_note body m
      in \<lparr>item_id = line_id line, checkbox = box, marker = m, item_text = text, item_note = n, strikethrough = struck,
          title = t, updated_at = None, indent = ind, raw_line = line\<rparr>)"

definition parse_item :: "rstring \<Rightarrow> panic + todo_item option" where
  "parse_item line =
     (let trimmed = trim_start line; ind = (str_len line - str_len trimmed) div 2
      in if \<not> (starts_with trimmed (lit ''- ['') \<or> starts_with trimmed (lit ''* ['')) then Inr None
         else let after_bullet = drop 2 trimmed
           in if str_len after_bullet < 3 then Inr None
              else if \<not> is_char_boundary after_bullet 3 then Inl Slice_Panic
              else (case checkbox_of (slice_to after_bullet 3) of
                None \<Rightarrow> Inr None
              | Some box \<Rightarrow> Inr (Some (item_of line ind box (trim_start (drop 3 after_bullet))))))"

section \<open>Parsing a file\<close>

abbreviation "is_block_line l \<equiv> starts_with l (lit ''## '')"
abbreviation "is_section_line l \<equiv> starts_with l (lit ''### '')"

fun parse_section_lines :: "rstring list \<Rightarrow> todo_section \<Rightarrow> panic + todo_section \<times> rstring list" where
  "parse_section_lines [] sec = Inr (sec, [])"
| "parse_section_lines (l # ls) sec =
     (if is_block_line l \<or> is_section_line l then Inr (sec, l # ls)
      else (case parse_item l of
        Inl p \<Rightarrow> Inl p
      | Inr (Some it) \<Rightarrow> parse_section_lines ls (sec\<lparr>sec_items := sec_items sec @ [it]\<rparr>)
      | Inr None \<Rightarrow> parse_section_lines ls (sec\<lparr>sec_preamble := sec_preamble sec @ [l]\<rparr>)))"

lemma parse_section_lines_length: "parse_section_lines ls sec = Inr (sec', rest) \<Longrightarrow> length rest \<le> length ls"
  by (induction ls sec rule: parse_section_lines.induct) (auto split: if_splits sum.splits option.splits)

function parse_sections :: "rstring list \<Rightarrow> priority_block \<Rightarrow> panic + priority_block \<times> rstring list" where
  "parse_sections [] b = Inr (b, [])"
| "parse_sections (l # ls) b =
     (if is_block_line l then Inr (b, l # ls)
      else if is_section_line l then
        (case parse_section_lines ls \<lparr>sec_heading = drop 4 l, sec_items = [], sec_preamble = []\<rparr> of
           Inl p \<Rightarrow> Inl p
         | Inr (sec, rest) \<Rightarrow> parse_sections rest (b\<lparr>blk_sections := blk_sections b @ [sec]\<rparr>))
      else parse_sections ls (b\<lparr>blk_preamble := blk_preamble b @ [l]\<rparr>))"
  by pat_completeness auto
termination
  by (relation "measure (\<lambda>(ls, b). length ls)") (auto dest: parse_section_lines_length)

lemma parse_sections_length: "parse_sections ls b = Inr (b', rest) \<Longrightarrow> length rest \<le> length ls"
proof (induction ls b rule: parse_sections.induct)
  case (2 l ls b)
  show ?case
  proof (cases "is_block_line l")
    case True
    with "2.prems" show ?thesis by simp
  next
    case False
    show ?thesis
    proof (cases "is_section_line l")
      case True
      with False "2.prems" obtain sec r where r: "parse_section_lines ls \<lparr>sec_heading = drop 4 l, sec_items = [], sec_preamble = []\<rparr> = Inr (sec, r)"
          and p: "parse_sections r (b\<lparr>blk_sections := blk_sections b @ [sec]\<rparr>) = Inr (b', rest)"
        by (auto split: sum.splits)
      from "2.IH"(1) [OF False True r refl p] parse_section_lines_length [OF r] show ?thesis by simp
    next
      case s: False
      with False "2.prems" have "parse_sections ls (b\<lparr>blk_preamble := blk_preamble b @ [l]\<rparr>) = Inr (b', rest)" by simp
      from "2.IH"(2) [OF False s this] show ?thesis by simp
    qed
  qed
qed simp

definition block_start :: "rstring \<Rightarrow> rstring list \<Rightarrow> priority_block" where
  "block_start l pre = \<lparr>blk_heading = drop 3 l, blk_priority = priority_from_heading l, blk_sections = [], blk_preamble = pre\<rparr>"

lemma dropWhile_shorter: "length (dropWhile P xs) < Suc (length xs)"
  by (simp add: length_dropWhile_le less_Suc_eq_le)

function parse_blocks :: "rstring list \<Rightarrow> todo_file \<Rightarrow> panic + todo_file" where
  "parse_blocks [] f = Inr f"
| "parse_blocks (l # ls) f =
     (if is_block_line l then
        (case parse_sections (dropWhile (\<lambda>k. \<not> is_block_line k \<and> \<not> is_section_line k) ls)
            (block_start l (takeWhile (\<lambda>k. \<not> is_block_line k \<and> \<not> is_section_line k) ls)) of
           Inl p \<Rightarrow> Inl p
         | Inr (b, rest) \<Rightarrow> parse_blocks rest (f\<lparr>todo_blocks := todo_blocks f @ [b]\<rparr>))
      else parse_blocks ls (f\<lparr>todo_footer := todo_footer f @ [l]\<rparr>))"
  by pat_completeness auto
termination
  by (relation "measure (\<lambda>(ls, f). length ls)")
    (auto dest!: parse_sections_length intro: le_less_trans [OF _ dropWhile_shorter])

definition parse_todo :: "rstring \<Rightarrow> panic + todo_file" where
  "parse_todo content =
     (let lines = str_lines content
      in parse_blocks (dropWhile (\<lambda>l. \<not> is_block_line l) lines)
           \<lparr>todo_header = takeWhile (\<lambda>l. \<not> is_block_line l) lines, todo_blocks = [], todo_footer = []\<rparr>)"

section \<open>Queries and changes\<close>

definition all_items :: "todo_file \<Rightarrow> todo_item list" where
  "all_items f = concat (map sec_items (concat (map blk_sections (todo_blocks f))))"

definition find_by_id :: "todo_file \<Rightarrow> rstring \<Rightarrow> todo_item option" where
  "find_by_id f i = find (\<lambda>it. item_id it = i) (all_items f)"

text \<open>\<open>lower\<close> is \<^verbatim>\<open>str::to_lowercase\<close>.\<close>

definition find_by_text :: "(rstring \<Rightarrow> rstring) \<Rightarrow> todo_file \<Rightarrow> rstring \<Rightarrow> todo_item list" where
  "find_by_text lower f substr = filter (\<lambda>it. str_contains (lower (item_text it)) (lower substr)) (all_items f)"

definition count_item :: "todo_item \<Rightarrow> todo_counts \<Rightarrow> todo_counts" where
  "count_item it c = (let c1 = c\<lparr>total_count := total_count c + 1\<rparr> in case marker it of
     Marker_Done \<Rightarrow> c1\<lparr>done_total := done_total c1 + 1\<rparr>
   | Marker_Partial \<Rightarrow> c1\<lparr>partial_total := partial_total c1 + 1\<rparr>
   | Marker_Blocked \<Rightarrow> c1\<lparr>blocked_total := blocked_total c1 + 1\<rparr>
   | Marker_None \<Rightarrow> if checkbox it = Checked then c1\<lparr>done_total := done_total c1 + 1\<rparr>
       else c1\<lparr>pending_total := pending_total c1 + 1\<rparr>)"

definition counts :: "todo_file \<Rightarrow> todo_counts" where
  "counts f = fold count_item (all_items f)
     \<lparr>total_count = 0, pending_total = 0, done_total = 0, partial_total = 0, blocked_total = 0\<rparr>"

text \<open>The first element with a property is changed (\<^verbatim>\<open>iter_mut().find(..)\<close>), or nothing is.\<close>

fun update_first :: "('a \<Rightarrow> bool) \<Rightarrow> ('a \<Rightarrow> 'a) \<Rightarrow> 'a list \<Rightarrow> 'a list" where
  "update_first P g [] = []"
| "update_first P g (x # xs) = (if P x then g x # xs else x # update_first P g xs)"

definition update_by_id :: "rstring \<Rightarrow> (todo_item \<Rightarrow> todo_item) \<Rightarrow> todo_file \<Rightarrow> bool \<times> todo_file" where
  "update_by_id i g f =
     (let hit = (\<lambda>it. item_id it = i); in_section = (\<lambda>s. list_ex hit (sec_items s))
      in (list_ex hit (all_items f),
          f\<lparr>todo_blocks := update_first (\<lambda>b. list_ex in_section (blk_sections b))
            (\<lambda>b. b\<lparr>blk_sections := update_first in_section (\<lambda>s. s\<lparr>sec_items := update_first hit g (sec_items s)\<rparr>) (blk_sections b)\<rparr>)
            (todo_blocks f)\<rparr>))"

definition mark_done :: "u64 \<Rightarrow> rstring \<Rightarrow> rstring \<Rightarrow> todo_file \<Rightarrow> bool \<times> todo_file" where
  "mark_done now i n = update_by_id i (item_mark_done now n)"

definition mark_partial :: "u64 \<Rightarrow> rstring \<Rightarrow> rstring \<Rightarrow> todo_file \<Rightarrow> bool \<times> todo_file" where
  "mark_partial now i n = update_by_id i (item_mark_partial now n)"

definition mark_blocked :: "u64 \<Rightarrow> rstring \<Rightarrow> rstring \<Rightarrow> todo_file \<Rightarrow> bool \<times> todo_file" where
  "mark_blocked now i n = update_by_id i (item_mark_blocked now n)"

definition new_item :: "u64 \<Rightarrow> rstring \<Rightarrow> todo_item" where
  "new_item now text = (let line = lit ''- [ ] '' @ text
     in \<lparr>item_id = line_id line, checkbox = Unchecked, marker = Marker_None, item_text = text, item_note = None,
         strikethrough = False, title = None, updated_at = Some now, indent = 0, raw_line = line\<rparr>)"

definition append_to_section :: "todo_item \<Rightarrow> rstring \<Rightarrow> todo_section list \<Rightarrow> todo_section list" where
  "append_to_section it h secs =
     update_first (\<lambda>s. sec_heading s = h) (\<lambda>s. s\<lparr>sec_items := sec_items s @ [it]\<rparr>)
       (if list_ex (\<lambda>s. sec_heading s = h) secs then secs
        else secs @ [\<lparr>sec_heading = h, sec_items = [], sec_preamble = []\<rparr>])"

definition append_item :: "u64 \<Rightarrow> rstring \<Rightarrow> rstring \<Rightarrow> rstring \<Rightarrow> todo_file \<Rightarrow> todo_file" where
  "append_item now bh sh text f =
     (let blocks = (if list_ex (\<lambda>b. blk_heading b = bh) (todo_blocks f) then todo_blocks f
          else todo_blocks f @ [\<lparr>blk_heading = bh, blk_priority = priority_from_heading bh, blk_sections = [], blk_preamble = []\<rparr>])
      in f\<lparr>todo_blocks := update_first (\<lambda>b. blk_heading b = bh)
            (\<lambda>b. b\<lparr>blk_sections := append_to_section (new_item now text) sh (blk_sections b)\<rparr>) blocks\<rparr>)"

section \<open>Writing\<close>

definition section_lines :: "todo_section \<Rightarrow> rstring list" where
  "section_lines s = (lit ''### '' @ sec_heading s) # sec_preamble s @ map item_to_markdown (sec_items s)"

definition block_lines :: "priority_block \<Rightarrow> rstring list" where
  "block_lines b = (lit ''## '' @ blk_heading b) # blk_preamble b @ concat (map section_lines (blk_sections b))"

definition file_lines :: "todo_file \<Rightarrow> rstring list" where
  "file_lines f = todo_header f @ concat (map block_lines (todo_blocks f)) @ todo_footer f"

definition todo_to_markdown :: "todo_file \<Rightarrow> rstring" where
  "todo_to_markdown f = as_lines (file_lines f)"

section \<open>Counting and appending\<close>

lemma count_items:
  "total_count (fold count_item its c) = total_count c + length its"
  "pending_total (fold count_item its c) + done_total (fold count_item its c) + partial_total (fold count_item its c)
     + blocked_total (fold count_item its c)
   = pending_total c + done_total c + partial_total c + blocked_total c + length its"
  by (induction its arbitrary: c) (simp_all add: count_item_def Let_def split: status_marker.split)

lemma mset_update_first:
  assumes "list_ex P xs" "\<And>x. P x \<Longrightarrow> mset (h (g x)) = add_mset it (mset (h x))"
  shows "mset (concat (map h (update_first P g xs))) = add_mset it (mset (concat (map h xs)))"
  using assms by (induction xs) auto

abbreviation "section_items ss \<equiv> concat (map sec_items ss)"

lemma append_to_section_items:
  "mset (section_items (append_to_section it h secs)) = add_mset it (mset (section_items secs))"
  unfolding append_to_section_def by (subst mset_update_first [where it = it]) auto

lemma concat_map_concat: "concat (map h (concat xss)) = concat (map (\<lambda>xs. concat (map h xs)) xss)"
  by (induction xss) auto

lemma all_items_blocks: "all_items f = concat (map (\<lambda>b. section_items (blk_sections b)) (todo_blocks f))"
  by (simp add: all_items_def concat_map_concat comp_def)

text \<open>
  the counts of a file always add up, and adding an item to a block and a section, existing or not, adds that one
  item and touches no other.\<close>

theorem todo_append_and_counts:
  "mset (all_items (append_item now bh sh text f)) = add_mset (new_item now text) (mset (all_items f)) \<and>
   find_by_id (append_item now bh sh text f) (item_id (new_item now text)) \<noteq> None \<and>
   total_count (counts f) = length (all_items f) \<and>
   total_count (counts f) = pending_total (counts f) + done_total (counts f) + partial_total (counts f) + blocked_total (counts f)"
proof (intro conjI)
  show *: "mset (all_items (append_item now bh sh text f)) = add_mset (new_item now text) (mset (all_items f))"
    unfolding all_items_blocks append_item_def Let_def
    by (auto simp: append_to_section_items intro!: mset_update_first [where it = "new_item now text", THEN trans])
  then have "new_item now text \<in> set (all_items (append_item now bh sh text f))" 
    by (metis set_mset_mset union_single_eq_member)
  then show "find_by_id (append_item now bh sh text f) (item_id (new_item now text)) \<noteq> None"
    by (auto simp: find_by_id_def find_None_iff)
qed (simp_all add: counts_def count_items)


section \<open>Reading keeps every line\<close>

definition section_source :: "todo_section \<Rightarrow> rstring list" where
  "section_source s = (lit ''### '' @ sec_heading s) # sec_preamble s @ map raw_line (sec_items s)"

definition block_source :: "priority_block \<Rightarrow> rstring list" where
  "block_source b = (lit ''## '' @ blk_heading b) # blk_preamble b @ concat (map section_source (blk_sections b))"

definition file_source :: "todo_file \<Rightarrow> rstring list" where
  "file_source f = todo_header f @ concat (map block_source (todo_blocks f)) @ todo_footer f"

lemma parse_item_raw_line: "parse_item l = Inr (Some it) \<Longrightarrow> raw_line it = l"
  by (auto simp: parse_item_def item_of_def Let_def split: if_splits option.splits prod.splits)

lemma heading_back:
  "is_block_line l \<Longrightarrow> lit ''## '' @ drop 3 l = l" "is_section_line l \<Longrightarrow> lit ''### '' @ drop 4 l = l"
  by (auto simp: starts_with_def prefix_def lit_def)

lemma section_lines_kept:
  "parse_section_lines ls sec = Inr (sec', rest) \<Longrightarrow>
   mset (section_source sec') + mset rest = mset (section_source sec) + mset ls \<and> (rest = [] \<or> is_block_line (hd rest) \<or> is_section_line (hd rest))"
proof (induction ls sec rule: parse_section_lines.induct)
  case (2 l ls sec)
  show ?case
  proof (cases "is_block_line l \<or> is_section_line l")
    case True
    with "2.prems" show ?thesis by auto
  next
    case False
    then show ?thesis using 2
      by (fastforce simp: section_source_def parse_item_raw_line split: sum.splits option.splits)
  qed
qed auto

lemma sections_kept:
  "parse_sections ls b = Inr (b', rest) \<Longrightarrow>
   mset (block_source b') + mset rest = mset (block_source b) + mset ls \<and> (rest = [] \<or> is_block_line (hd rest))"
proof (induction ls b rule: parse_sections.induct)
  case (2 l ls b)
  consider "is_block_line l" | "\<not> is_block_line l" "is_section_line l" | "\<not> is_block_line l" "\<not> is_section_line l" by blast
  then show ?case
  proof cases
    case 1
    with "2.prems" show ?thesis by auto
  next
    case b: 2
    with "2.prems" obtain sec r where r: "parse_section_lines ls \<lparr>sec_heading = drop 4 l, sec_items = [], sec_preamble = []\<rparr> = Inr (sec, r)"
        and p: "parse_sections r (b\<lparr>blk_sections := blk_sections b @ [sec]\<rparr>) = Inr (b', rest)"
      by (auto split: sum.splits)
    from "2.IH"(1) [OF b r refl p] section_lines_kept [OF r] heading_back(2) [OF b(2)] show ?thesis
      by (auto simp: block_source_def section_source_def ac_simps)
  next
    case b: 3
    with "2.prems" have "parse_sections ls (b\<lparr>blk_preamble := blk_preamble b @ [l]\<rparr>) = Inr (b', rest)" by simp
    from "2.IH"(2) [OF b this] show ?thesis by (auto simp: block_source_def)
  qed
qed auto

lemma blocks_kept:
  "parse_blocks ls f = Inr f' \<Longrightarrow> ls = [] \<or> is_block_line (hd ls) \<Longrightarrow>
   mset (file_source f') = mset (file_source f) + mset ls \<and> todo_footer f' = todo_footer f"
proof (induction ls f rule: parse_blocks.induct)
  case (2 l ls f)
  let ?P = "\<lambda>k. \<not> is_block_line k \<and> \<not> is_section_line k"
  from "2.prems" obtain b rest where b: "parse_sections (dropWhile ?P ls) (block_start l (takeWhile ?P ls)) = Inr (b, rest)"
      and p: "parse_blocks rest (f\<lparr>todo_blocks := todo_blocks f @ [b]\<rparr>) = Inr f'" and l: "is_block_line l"
    by (auto split: sum.splits)
  have t: "mset (takeWhile ?P ls) + mset (dropWhile ?P ls) = mset ls"
    by (metis mset_append takeWhile_dropWhile_id)
  note k = sections_kept [OF b]
  from k "2.IH"(1) [OF l b refl p] have i: "mset (file_source f') = mset (file_source (f\<lparr>todo_blocks := todo_blocks f @ [b]\<rparr>)) + mset rest"
      "todo_footer f' = todo_footer f" by simp_all
  have "mset (block_source (block_start l (takeWhile ?P ls))) = add_mset l (mset (takeWhile ?P ls))"
    using heading_back(1) [OF l] by (simp add: block_source_def block_start_def)
  with k t have "mset (block_source b) + mset rest = mset (l # ls)" by (simp add: add.assoc)
  with i show ?case by (simp add: file_source_def add.assoc)
qed auto


text \<open>
  reading a todo file keeps every line of it, either as it is or as the source line of an item, and the footer stays empty.\<close>

theorem todo_lines_kept:
  assumes "parse_todo content = Inr f"
  shows "mset (file_source f) = mset (str_lines content) \<and> todo_footer f = []"
proof -
  let ?P = "\<lambda>l. \<not> is_block_line l"
  let ?ls = "str_lines content"
  have "dropWhile ?P ?ls = [] \<or> is_block_line (hd (dropWhile ?P ?ls))" by (metis hd_dropWhile)
  note k = blocks_kept [OF assms [unfolded parse_todo_def Let_def] this]
  have "mset (takeWhile ?P ?ls) + mset (dropWhile ?P ?ls) = mset ?ls"
    by (metis mset_append takeWhile_dropWhile_id)
  moreover from k have "mset (file_source f) = mset (takeWhile ?P ?ls) + mset (dropWhile ?P ?ls)"
    by (simp add: file_source_def [of "\<lparr>todo_header = _, todo_blocks = _, todo_footer = _\<rparr>"])
  ultimately show ?thesis using k by simp
qed

theorem todo_lines_kept_witness:
  "\<exists>f. parse_todo (lit ''## B'' @ c_nl # lit ''text'') = Inr f \<and> todo_footer f = []"
proof -
  have "str_lines (lit ''## B'' @ c_nl # lit ''text'') = [lit ''## B'', lit ''text'']"
    by (simp add: lit_def str_lines.simps strip_cr_def)
  then obtain f where "parse_todo (lit ''## B'' @ c_nl # lit ''text'') = Inr f"
    by (simp add: parse_todo_def starts_with_def lit_def block_start_def)
  with todo_lines_kept show ?thesis by blast
qed

section \<open>Reading an item back\<close>


lemma str_len_replicate [simp]: "str_len (replicate n c_space) = n"
  by (induction n) (simp_all add: utf8_len_def)




lemma checkbox_lits: "lit ''- '' = [45, 32]" "lit ''- ['' = [45, 32, 91]" "lit ''* ['' = [42, 32, 91]"
    "lit ''[x]'' = [91, 120, 93]" "lit ''[X]'' = [91, 88, 93]" "lit ''[ ]'' = [91, 32, 93]" "lit ''~~'' = [126, 126]"
    "lit ''**'' = [42, 42]"
  by (simp_all add: lit_def)




















lemma new_item_simps [simp]:
  "item_text (new_item now t) = t" "marker (new_item now t) = Marker_None" "item_note (new_item now t) = None"
  "strikethrough (new_item now t) = False"
  by (simp_all add: new_item_def Let_def)


text \<open>
  an item line whose checkbox holds a char of several bytes makes the parser panic, and with it every operation that
  reads the file: the slice of three bytes ends inside that char.\<close>

theorem todo_checkbox_panics:
  "parse_item (lit ''- ['' @ [0x2705] @ lit ''] shipped'') = Inl Slice_Panic \<and>
   parse_todo (lit ''## B'' @ c_nl # lit ''### S'' @ c_nl # lit ''- ['' @ [0x2705] @ lit ''] shipped'') = Inl Slice_Panic"
proof -
  let ?l = "lit ''- ['' @ [0x2705] @ lit ''] shipped''"
  have "utf8_len 91 = 1" "utf8_len 0x2705 = 3" by (simp_all add: utf8_len_def)
  then have "\<not> is_char_boundary (91 # 0x2705 # s) 3" for s by (simp add: numeral_3_eq_3)
  moreover have "trim_start ?l = ?l" by (simp add: trim_start_def lit_def is_whitespace_def)
  ultimately have p: "parse_item ?l = Inl Slice_Panic"
    by (simp add: parse_item_def starts_with_def checkbox_lits utf8_len_def)
  have "str_lines (lit ''## B'' @ c_nl # lit ''### S'' @ c_nl # ?l) = [lit ''## B'', lit ''### S'', ?l]"
    by (simp add: lit_def str_lines.simps strip_cr_def)
  moreover have "starts_with (lit ''## B'') (lit ''## '')" "starts_with (lit ''### S'') (lit ''### '')"
      "\<not> starts_with (lit ''### S'') (lit ''## '')" "\<not> starts_with ?l (lit ''## '')" "\<not> starts_with ?l (lit ''### '')"
    by (simp_all add: starts_with_def lit_def)
  ultimately show ?thesis using p by (simp add: parse_todo_def)
qed

end
