(* ===== verification/ToolSettings.thy ===== *)
theory ToolSettings imports Tools Paths Config begin

text \<open>
  The configuration tool and plan mode (\<^verbatim>\<open>crates/tools/src/lib.rs\<close>): the table of settings, the values they take, the
  nested keys of a settings file, and the override of the permission mode that plan mode puts into the settings of a
  work tree and takes out again.

  Files are a map from paths to texts.  The environment, the errors of the file system and \<^verbatim>\<open>serde_json\<close> are fields of
  \<open>settings_env\<close>; a write or removal that fails leaves the files as they are.  An object of \<^verbatim>\<open>serde_json\<close> is the list of its
  entries in ascending order.  The state of plan mode is read and written by derived code of \<^verbatim>\<open>serde\<close>
  (\<open>parse_plan_state\<close>, \<open>pretty_plan_state\<close>).
\<close>

section \<open>Settings\<close>

datatype config_scope = Scope_Global | Scope_Settings
datatype config_kind = Kind_Boolean | Kind_String

record config_setting_spec =
  setting_scope :: config_scope
  setting_kind :: config_kind
  setting_path :: "rstring list"
  setting_options :: "rstring list option"

definition supported_config_setting :: "rstring \<Rightarrow> config_setting_spec option" where
  "supported_config_setting setting =
     (let spec = (\<lambda>name scope kind options.
        (lit name, \<lparr>setting_scope = scope, setting_kind = kind, setting_path = [lit name], setting_options = options\<rparr>))
      in map_of
        [spec ''theme'' Scope_Global Kind_String None,
         spec ''editorMode'' Scope_Global Kind_String (Some (map lit [''default'', ''vim'', ''emacs''])),
         spec ''verbose'' Scope_Global Kind_Boolean None,
         spec ''preferredNotifChannel'' Scope_Global Kind_String None,
         spec ''autoCompactEnabled'' Scope_Global Kind_Boolean None,
         spec ''autoMemoryEnabled'' Scope_Settings Kind_Boolean None,
         spec ''autoDreamEnabled'' Scope_Settings Kind_Boolean None,
         spec ''fileCheckpointingEnabled'' Scope_Global Kind_Boolean None,
         spec ''showTurnDuration'' Scope_Global Kind_Boolean None,
         spec ''terminalProgressBarEnabled'' Scope_Global Kind_Boolean None,
         spec ''todoFeatureEnabled'' Scope_Global Kind_Boolean None,
         spec ''model'' Scope_Settings Kind_String None,
         spec ''alwaysThinkingEnabled'' Scope_Settings Kind_Boolean None,
         (lit ''permissions.defaultMode'',
          \<lparr>setting_scope = Scope_Settings, setting_kind = Kind_String,
           setting_path = [lit ''permissions'', lit ''defaultMode''],
           setting_options = Some (map lit [''default'', ''plan'', ''acceptEdits'', ''dontAsk'', ''auto''])\<rparr>),
         spec ''language'' Scope_Settings Kind_String None,
         spec ''teammateMode'' Scope_Global Kind_String (Some (map lit [''tmux'', ''in-process'', ''auto'']))]
        setting)"

text \<open>A number is a 64-bit float; the constructor carries the text that \<^verbatim>\<open>serde_json\<close> writes for it.\<close>

datatype config_value = Cfg_String rstring | Cfg_Bool bool | Cfg_Number rstring

definition normalize_config_value :: "config_setting_spec \<Rightarrow> config_value \<Rightarrow> rstring + serde_value" where
  "normalize_config_value spec v =
     rbind
       (case (setting_kind spec, v) of
          (Kind_Boolean, Cfg_Bool b) \<Rightarrow> Inr (SBool b)
        | (Kind_Boolean, Cfg_String s) \<Rightarrow>
            (let t = to_ascii_lowercase (trim s)
             in if t = lit ''true'' then Inr (SBool True)
                else if t = lit ''false'' then Inr (SBool False)
                else Inl (lit ''setting requires true or false''))
        | (Kind_Boolean, Cfg_Number _) \<Rightarrow> Inl (lit ''setting requires true or false'')
        | (Kind_String, Cfg_String s) \<Rightarrow> Inr (SString s)
        | (Kind_String, Cfg_Bool b) \<Rightarrow> Inr (SString (if b then lit ''true'' else lit ''false''))
        | (Kind_String, Cfg_Number n) \<Rightarrow> Inr (SNumber n))
       (\<lambda>normalized. case setting_options spec of
          None \<Rightarrow> Inr normalized
        | Some options \<Rightarrow>
            (case value_as_str normalized of
               None \<Rightarrow> Inl (lit ''setting requires a string value'')
             | Some s \<Rightarrow>
                 if s \<in> set options then Inr normalized
                 else Inl (lit ''Invalid value '' @ [c_dquote] @ s @ [c_dquote] @ lit ''. Options: '' @ join (lit '', '') options)))"

section \<open>Nested values\<close>

type_synonym serde_map = "(rstring \<times> serde_value) list"

fun value_as_object :: "serde_value \<Rightarrow> serde_map option" where
  "value_as_object (SObject m) = Some m"
| "value_as_object _ = None"

fun get_in :: "rstring list \<Rightarrow> serde_value \<Rightarrow> serde_value option" where
  "get_in [] current = Some current"
| "get_in (key # rest) current =
     Option.bind (Option.bind (value_as_object current) (\<lambda>m. map_of m key)) (get_in rest)"

fun get_nested_value :: "serde_map \<Rightarrow> rstring list \<Rightarrow> serde_value option" where
  "get_nested_value root [] = None"
| "get_nested_value root (first # rest) = Option.bind (map_of root first) (get_in rest)"

text \<open>The code panics on an empty path: the result is \<open>None\<close>.\<close>

fun set_nested_value :: "rstring list \<Rightarrow> serde_value \<Rightarrow> serde_map \<Rightarrow> serde_map option" where
  "set_nested_value [] v root = None"
| "set_nested_value [first] v root = Some (bt_insert first v root)"
| "set_nested_value (first # second # rest) v root =
     map_option (\<lambda>m. bt_insert first (SObject m) root)
       (set_nested_value (second # rest) v
          (case map_of root first of Some (SObject m) \<Rightarrow> m | _ \<Rightarrow> []))"

fun remove_nested_value :: "rstring list \<Rightarrow> serde_map \<Rightarrow> bool \<times> serde_map" where
  "remove_nested_value [] root = (False, root)"
| "remove_nested_value [first] root = (map_of root first \<noteq> None, bt_remove first root)"
| "remove_nested_value (first # second # rest) root = (case map_of root first of
     Some (SObject m) \<Rightarrow>
       (let (removed, m') = remove_nested_value (second # rest) m
        in (removed, if removed \<and> m' = [] then bt_remove first root else bt_insert first (SObject m') root))
   | _ \<Rightarrow> (False, root))"

section \<open>Files\<close>

type_synonym files = "rstring \<rightharpoonup> rstring"

record plan_mode_state =
  had_local_override :: bool
  previous_local_mode :: "serde_value option"

record settings_env =
  current_dir :: "rstring + rstring"
  claw_config_home :: "rstring option"
  home_var :: "rstring option"
  read_fault :: "rstring \<Rightarrow> rstring option"
  write_fault :: "rstring \<Rightarrow> rstring option"
  remove_fault :: "rstring \<Rightarrow> rstring option"
  parse_json :: "rstring \<Rightarrow> rstring + serde_value"
  pretty_json :: "serde_value \<Rightarrow> rstring"
  parse_plan_state :: "rstring \<Rightarrow> rstring + plan_mode_state"
  pretty_plan_state :: "plan_mode_state \<Rightarrow> rstring"

definition config_home_dir :: "settings_env \<Rightarrow> rstring + rstring" where
  "config_home_dir env = (case claw_config_home env of
     Some p \<Rightarrow> Inr p
   | None \<Rightarrow> (case home_var env of
       None \<Rightarrow> Inl (lit ''HOME is not set'')
     | Some home \<Rightarrow> Inr (path_join home (lit ''.claw''))))"

definition config_file_for_scope :: "settings_env \<Rightarrow> config_scope \<Rightarrow> rstring + rstring" where
  "config_file_for_scope env scope = rbind (current_dir env) (\<lambda>cwd. case scope of
     Scope_Global \<Rightarrow> rbind (config_home_dir env) (\<lambda>d. Inr (path_join d (lit ''settings.json'')))
   | Scope_Settings \<Rightarrow> Inr (path_join (path_join cwd (lit ''.claw'')) (lit ''settings.local.json'')))"

definition plan_mode_state_file :: "settings_env \<Rightarrow> rstring + rstring" where
  "plan_mode_state_file env = rbind (config_file_for_scope env Scope_Settings) (\<lambda>p. case path_parent p of
     None \<Rightarrow> Inl (lit ''settings.local.json has no parent directory'')
   | Some d \<Rightarrow> Inr (path_join (path_join d (lit ''tool-state'')) (lit ''plan-mode.json'')))"

definition read_json_object :: "settings_env \<Rightarrow> rstring \<Rightarrow> files \<Rightarrow> rstring + serde_map" where
  "read_json_object env p fs = (case read_fault env p of
     Some e \<Rightarrow> Inl e
   | None \<Rightarrow> (case fs p of
       None \<Rightarrow> Inr []
     | Some contents \<Rightarrow>
         if trim contents = [] then Inr []
         else rbind (parse_json env contents)
           (\<lambda>v. ok_or (lit ''config file must contain a JSON object'') (value_as_object v))))"

definition write_json_object :: "settings_env \<Rightarrow> rstring \<Rightarrow> serde_map \<Rightarrow> files \<Rightarrow> (rstring + unit) \<times> files" where
  "write_json_object env p m fs = (case write_fault env p of
     Some e \<Rightarrow> (Inl e, fs)
   | None \<Rightarrow> (Inr (), fs(p \<mapsto> pretty_json env (SObject m))))"

definition read_plan_mode_state :: "settings_env \<Rightarrow> rstring \<Rightarrow> files \<Rightarrow> rstring + plan_mode_state option" where
  "read_plan_mode_state env p fs = (case read_fault env p of
     Some e \<Rightarrow> Inl e
   | None \<Rightarrow> (case fs p of
       None \<Rightarrow> Inr None
     | Some contents \<Rightarrow>
         if trim contents = [] then Inr None else rbind (parse_plan_state env contents) (\<lambda>s. Inr (Some s))))"

definition write_plan_mode_state :: "settings_env \<Rightarrow> rstring \<Rightarrow> plan_mode_state \<Rightarrow> files \<Rightarrow> (rstring + unit) \<times> files" where
  "write_plan_mode_state env p s fs = (case write_fault env p of
     Some e \<Rightarrow> (Inl e, fs)
   | None \<Rightarrow> (Inr (), fs(p \<mapsto> pretty_plan_state env s)))"

definition clear_plan_mode_state :: "settings_env \<Rightarrow> rstring \<Rightarrow> files \<Rightarrow> (rstring + unit) \<times> files" where
  "clear_plan_mode_state env p fs = (case remove_fault env p of
     Some e \<Rightarrow> (Inl e, fs)
   | None \<Rightarrow> (Inr (), fs(p := None)))"

section \<open>The configuration tool\<close>

record config_output =
  cfg_success :: bool
  cfg_operation :: "rstring option"
  cfg_setting :: "rstring option"
  cfg_value :: "serde_value option"
  cfg_previous :: "serde_value option"
  cfg_new :: "serde_value option"
  cfg_error :: "rstring option"

definition execute_config ::
    "settings_env \<Rightarrow> rstring \<Rightarrow> config_value option \<Rightarrow> files \<Rightarrow> (rstring + config_output) \<times> files" where
  "execute_config env inp inp_value fs =
     (let setting = trim inp in
      if setting = [] then (Inl (lit ''setting must not be empty''), fs)
      else case supported_config_setting setting of
        None \<Rightarrow> (Inr \<lparr>cfg_success = False, cfg_operation = None, cfg_setting = None, cfg_value = None, cfg_previous = None,
            cfg_new = None, cfg_error = Some (lit ''Unknown setting: '' @ [c_dquote] @ setting @ [c_dquote])\<rparr>, fs)
      | Some spec \<Rightarrow>
          and_then (config_file_for_scope env (setting_scope spec), fs) (\<lambda>p fs.
          and_then (read_json_object env p fs, fs) (\<lambda>document fs.
            case inp_value of
              Some v \<Rightarrow>
                and_then (normalize_config_value spec v, fs) (\<lambda>normalized fs.
                let previous = get_nested_value document (setting_path spec);
                    document' = the (set_nested_value (setting_path spec) normalized document)
                in and_then (write_json_object env p document' fs) (\<lambda>_ fs.
                   (Inr \<lparr>cfg_success = True, cfg_operation = Some (lit ''set''), cfg_setting = Some setting,
                      cfg_value = Some normalized, cfg_previous = previous, cfg_new = Some normalized, cfg_error = None\<rparr>, fs)))
            | None \<Rightarrow>
                (Inr \<lparr>cfg_success = True, cfg_operation = Some (lit ''get''), cfg_setting = Some setting,
                   cfg_value = get_nested_value document (setting_path spec), cfg_previous = None, cfg_new = None,
                   cfg_error = None\<rparr>, fs))))"

section \<open>Plan mode\<close>

record plan_mode_output =
  plan_operation :: rstring
  plan_changed :: bool
  plan_active :: bool
  plan_managed :: bool
  plan_message :: rstring
  plan_settings_path :: rstring
  plan_state_path :: rstring
  plan_previous :: "serde_value option"
  plan_current :: "serde_value option"

definition permission_default_mode_path :: "rstring list" where
  "permission_default_mode_path = [lit ''permissions'', lit ''defaultMode'']"

abbreviation "plan_mode \<equiv> SString (lit ''plan'')"

text \<open>
  The field \<open>success\<close> of the output is always true and is left out.  \<open>enable_plan_mode\<close> is the end of
  \<^verbatim>\<open>execute_enter_plan_mode\<close>, for a mode that is not plan yet.
\<close>

definition enable_plan_mode ::
    "settings_env \<Rightarrow> rstring \<Rightarrow> rstring \<Rightarrow> serde_map \<Rightarrow> files \<Rightarrow> (rstring + plan_mode_output) \<times> files" where
  "enable_plan_mode env settings_path state_path document fs =
     (let current = get_nested_value document permission_default_mode_path;
          document' = the (set_nested_value permission_default_mode_path plan_mode document)
      in and_then (write_plan_mode_state env state_path
           \<lparr>had_local_override = current \<noteq> None, previous_local_mode = current\<rparr> fs) (\<lambda>_ fs.
         and_then (write_json_object env settings_path document' fs) (\<lambda>_ fs.
         (Inr \<lparr>plan_operation = lit ''enter'', plan_changed = True, plan_active = True, plan_managed = True,
            plan_message = lit ''Enabled worktree-local plan mode override.'', plan_settings_path = settings_path,
            plan_state_path = state_path, plan_previous = current,
            plan_current = get_nested_value document' permission_default_mode_path\<rparr>, fs))))"

definition execute_enter_plan_mode :: "settings_env \<Rightarrow> files \<Rightarrow> (rstring + plan_mode_output) \<times> files" where
  "execute_enter_plan_mode env fs =
     and_then (config_file_for_scope env Scope_Settings, fs) (\<lambda>settings_path fs.
     and_then (plan_mode_state_file env, fs) (\<lambda>state_path fs.
     and_then (read_json_object env settings_path fs, fs) (\<lambda>document fs.
     let current = get_nested_value document permission_default_mode_path;
         current_is_plan = (current = Some plan_mode);
         unchanged = (\<lambda>managed message previous. Inr
           \<lparr>plan_operation = lit ''enter'', plan_changed = False, plan_active = True, plan_managed = managed,
            plan_message = message, plan_settings_path = settings_path, plan_state_path = state_path,
            plan_previous = previous, plan_current = current\<rparr>)
     in and_then (read_plan_mode_state env state_path fs, fs) (\<lambda>saved fs. case saved of
          Some s \<Rightarrow>
            if current_is_plan
            then (unchanged True (lit ''Plan mode override is already active for this worktree.'') (previous_local_mode s), fs)
            else and_then (clear_plan_mode_state env state_path fs)
                   (\<lambda>_ fs. enable_plan_mode env settings_path state_path document fs)
        | None \<Rightarrow>
            if current_is_plan
            then (unchanged False
                    (lit ''Worktree-local plan mode is already enabled outside EnterPlanMode; leaving it unchanged.'') None, fs)
            else enable_plan_mode env settings_path state_path document fs))))"

text \<open>The settings after the end of plan mode.\<close>

definition restored_document :: "plan_mode_state \<Rightarrow> serde_map \<Rightarrow> serde_map" where
  "restored_document s document =
     (if had_local_override s then
        (case previous_local_mode s of
           Some v \<Rightarrow> the (set_nested_value permission_default_mode_path v document)
         | None \<Rightarrow> snd (remove_nested_value permission_default_mode_path document))
      else snd (remove_nested_value permission_default_mode_path document))"

definition execute_exit_plan_mode :: "settings_env \<Rightarrow> files \<Rightarrow> (rstring + plan_mode_output) \<times> files" where
  "execute_exit_plan_mode env fs =
     and_then (config_file_for_scope env Scope_Settings, fs) (\<lambda>settings_path fs.
     and_then (plan_mode_state_file env, fs) (\<lambda>state_path fs.
     and_then (read_json_object env settings_path fs, fs) (\<lambda>document fs.
     let current = get_nested_value document permission_default_mode_path;
         current_is_plan = (current = Some plan_mode);
         output = (\<lambda>changed active message previous now.
           \<lparr>plan_operation = lit ''exit'', plan_changed = changed, plan_active = active, plan_managed = False,
            plan_message = message, plan_settings_path = settings_path, plan_state_path = state_path,
            plan_previous = previous, plan_current = now\<rparr>)
     in and_then (read_plan_mode_state env state_path fs, fs) (\<lambda>saved fs. case saved of
          None \<Rightarrow>
            (Inr (output False current_is_plan (lit ''No EnterPlanMode override is active for this worktree.'') None current), fs)
        | Some s \<Rightarrow>
            if \<not> current_is_plan
            then and_then (clear_plan_mode_state env state_path fs) (\<lambda>_ fs.
              (Inr (output False False
                 (lit ''Cleared stale EnterPlanMode state because plan mode was already changed outside the tool.'')
                 (previous_local_mode s) current), fs))
            else
              (let document' = restored_document s document
               in and_then (write_json_object env settings_path document' fs) (\<lambda>_ fs.
                  and_then (clear_plan_mode_state env state_path fs) (\<lambda>_ fs.
                  (Inr (output True False (lit ''Restored the prior worktree-local plan mode setting.'') (previous_local_mode s)
                     (get_nested_value document' permission_default_mode_path)), fs))))))))"

section \<open>Laws of nested values\<close>

text \<open>Every object in a value has its keys in order.\<close>

fun ordered :: "serde_value \<Rightarrow> bool" where
  "ordered (SObject m) \<longleftrightarrow> bt_ok m \<and> (\<forall>v \<in> snd ` set m. ordered v)"
| "ordered (SArray vs) \<longleftrightarrow> (\<forall>v \<in> set vs. ordered v)"
| "ordered _ \<longleftrightarrow> True"

lemma set_nested_value_Some: "p \<noteq> [] \<Longrightarrow> \<exists>m. set_nested_value p v root = Some m"
proof (induction p v root rule: set_nested_value.induct)
  case (3 first second rest v root)
  then show ?case by auto
qed auto

lemma get_in_object: "p \<noteq> [] \<Longrightarrow> get_in p (SObject m) = get_nested_value m p"
  by (cases p) auto

lemma get_set_nested_value:
  "set_nested_value p v root = Some m \<Longrightarrow> get_nested_value m p = Some v"
proof (induction p v root arbitrary: m rule: set_nested_value.induct)
  case (3 first second rest v root)
  then show ?case by (auto simp: map_of_bt_insert_any)
qed (auto simp: map_of_bt_insert_any)

lemma get_set_nested_other:
  "set_nested_value p v root = Some m \<Longrightarrow> \<not> prefix p q \<Longrightarrow> \<not> prefix q p \<Longrightarrow>
   get_nested_value m q = get_nested_value root q"
proof (induction p v root arbitrary: m q rule: set_nested_value.induct)
  case (2 first v root)
  then show ?case by (cases q) (auto simp: map_of_bt_insert_any)
next
  case (3 first second rest v root)
  obtain a q' where q: "q = a # q'" using 3(4) by (cases q) auto
  show ?case
  proof (cases "a = first")
    case True
    let ?sub = "case map_of root first of Some (SObject m) \<Rightarrow> m | _ \<Rightarrow> []"
    from 3(2) obtain m' where m': "set_nested_value (second # rest) v ?sub = Some m'" "m = bt_insert first (SObject m') root"
      by auto
    from 3(3,4) q True have q': "\<not> prefix (second # rest) q'" "\<not> prefix q' (second # rest)" "q' \<noteq> []" by auto
    have "get_nested_value m' q' = get_nested_value ?sub q'" using 3(1) m'(1) q'(1,2) by blast
    moreover have "get_nested_value ?sub q' = get_nested_value root q"
      using q q'(3) True by (cases q') (auto split: option.split serde_value.split)
    ultimately show ?thesis using q q'(3) True m'(2) by (simp add: map_of_bt_insert_any get_in_object)
  qed (use 3(2) q in \<open>auto simp: map_of_bt_insert_any\<close>)
qed auto

lemma supported_path:
  "supported_config_setting s = Some spec \<Longrightarrow>
   setting_path spec = (if s = lit ''permissions.defaultMode'' then [lit ''permissions'', lit ''defaultMode''] else [s])"
  "supported_config_setting (lit ''permissions'') = None"
  "supported_config_setting [] = None"
  by (auto simp: supported_config_setting_def Let_def split: if_splits)

lemma supported_paths_apart:
  assumes "supported_config_setting s = Some a" and "supported_config_setting t = Some b" and "s \<noteq> t"
  shows "\<not> prefix (setting_path a) (setting_path b)" and "\<not> prefix (setting_path b) (setting_path a)"
proof -
  have "s \<noteq> lit ''permissions''" "t \<noteq> lit ''permissions''" using assms(1,2) supported_path(2) by auto
  then show "\<not> prefix (setting_path a) (setting_path b)" "\<not> prefix (setting_path b) (setting_path a)"
    using supported_path(1) [OF assms(1)] supported_path(1) [OF assms(2)] assms(3) by auto
qed

section \<open>The configuration tool keeps what it is told\<close>

text \<open>\<^verbatim>\<open>serde_json\<close> reads an object back as it was written.\<close>

definition reads_back :: "settings_env \<Rightarrow> serde_map \<Rightarrow> bool" where
  "reads_back env m \<longleftrightarrow> trim (pretty_json env (SObject m)) \<noteq> [] \<and>
     parse_json env (pretty_json env (SObject m)) = Inr (SObject m)"

lemma read_back_document:
  "reads_back env m \<Longrightarrow> read_fault env p = None \<Longrightarrow> read_json_object env p (fs(p \<mapsto> pretty_json env (SObject m))) = Inr m"
  by (simp add: read_json_object_def reads_back_def ok_or_def)

lemma read_other: "p \<noteq> q \<Longrightarrow> read_json_object env p (fs(q := t)) = read_json_object env p fs"
  by (auto simp: read_json_object_def split: option.split)

lemma execute_config_set:
  assumes "execute_config env s (Some v) fs = (Inr out, fs')" and "cfg_success out"
  obtains spec p document normalized document' where
    "supported_config_setting (trim s) = Some spec" "config_file_for_scope env (setting_scope spec) = Inr p"
    "read_json_object env p fs = Inr document" "normalize_config_value spec v = Inr normalized"
    "set_nested_value (setting_path spec) normalized document = Some document'" "read_fault env p = None"
    "fs' = fs(p \<mapsto> pretty_json env (SObject document'))" "cfg_value out = Some normalized"
    "cfg_previous out = get_nested_value document (setting_path spec)"
proof -
  from assms obtain spec where spec: "supported_config_setting (trim s) = Some spec"
    by (cases "supported_config_setting (trim s)") (auto simp: execute_config_def Let_def split: if_splits)
  have trimmed: "trim s \<noteq> []" using spec supported_path(3) by auto
  note run = assms(1) [unfolded execute_config_def, simplified trimmed spec Let_def, simplified]
  from run obtain p where p: "config_file_for_scope env (setting_scope spec) = Inr p"
    by (cases "config_file_for_scope env (setting_scope spec)") auto
  from run p obtain document where document: "read_json_object env p fs = Inr document"
    by (cases "read_json_object env p fs") auto
  from run p document obtain normalized where normalized: "normalize_config_value spec v = Inr normalized"
    by (cases "normalize_config_value spec v") auto
  have "setting_path spec \<noteq> []" using supported_path(1) [OF spec] by simp
  from set_nested_value_Some [OF this] obtain document' where
    document': "set_nested_value (setting_path spec) normalized document = Some document'" by blast
  have "read_fault env p = None" using document by (auto simp: read_json_object_def split: option.splits)
  moreover have "fs' = fs(p \<mapsto> pretty_json env (SObject document'))" "cfg_value out = Some normalized"
    "cfg_previous out = get_nested_value document (setting_path spec)"
    using run p document normalized document' by (auto simp: write_json_object_def split: option.splits)
  ultimately show thesis using that spec p document normalized document' by blast
qed

lemma execute_config_get:
  assumes "supported_config_setting (trim s) = Some spec" and "config_file_for_scope env (setting_scope spec) = Inr p"
    and "read_json_object env p fs = Inr document"
  shows "execute_config env s None fs = (Inr \<lparr>cfg_success = True, cfg_operation = Some (lit ''get''),
     cfg_setting = Some (trim s), cfg_value = get_nested_value document (setting_path spec), cfg_previous = None,
     cfg_new = None, cfg_error = None\<rparr>, fs)"
proof -
  have "trim s \<noteq> []" using assms(1) supported_path(3) by auto
  then show ?thesis using assms by (simp add: execute_config_def)
qed

definition config_get :: "settings_env \<Rightarrow> rstring \<Rightarrow> files \<Rightarrow> rstring + config_output" where
  "config_get env s fs = fst (execute_config env s None fs)"

text \<open>
  After a setting was set, reading it gives the value that was stored, and every other setting reads as before, whether
  it is in the same file or in the other one.
\<close>

theorem config_set_then_get:
  assumes "execute_config env s (Some v) fs = (Inr out, fs')" and "cfg_success out"
    and "\<And>p spec document document'. supported_config_setting (trim s) = Some spec \<Longrightarrow>
      config_file_for_scope env (setting_scope spec) = Inr p \<Longrightarrow>
      read_json_object env p fs = Inr document \<Longrightarrow>
      set_nested_value (setting_path spec) (the (cfg_value out)) document = Some document' \<Longrightarrow> reads_back env document'"
  shows "map_sum id cfg_value (config_get env s fs') = Inr (cfg_value out) \<and>
    (t \<noteq> trim s \<longrightarrow> trim t = t \<longrightarrow> config_get env t fs' = config_get env t fs)"
proof -
  from execute_config_set [OF assms(1,2)] obtain spec p document normalized document' where
    set: "supported_config_setting (trim s) = Some spec" "config_file_for_scope env (setting_scope spec) = Inr p"
    "read_json_object env p fs = Inr document"
    "set_nested_value (setting_path spec) normalized document = Some document'" "read_fault env p = None"
    "fs' = fs(p \<mapsto> pretty_json env (SObject document'))" "cfg_value out = Some normalized" by metis
  have "reads_back env document'" using assms(3) [OF set(1,2,3)] set(4,7) by simp
  then have read: "read_json_object env p fs' = Inr document'" using read_back_document set(5,6) by simp
  have "map_sum id cfg_value (config_get env s fs') = Inr (cfg_value out)"
    unfolding config_get_def execute_config_get [OF set(1,2) read] using get_set_nested_value [OF set(4)] set(7) by simp
  moreover have "config_get env t fs' = config_get env t fs" if t: "t \<noteq> trim s" "trim t = t"
  proof (cases "supported_config_setting t")
    case None
    then show ?thesis using t by (simp add: config_get_def execute_config_def)
  next
    case (Some b)
    have nonempty: "t \<noteq> []" using Some supported_path(3) by auto
    show ?thesis
    proof (cases "config_file_for_scope env (setting_scope b) = Inr p")
      case True
      have "get_nested_value document' (setting_path b) = get_nested_value document (setting_path b)"
        using get_set_nested_other [OF set(4)] supported_paths_apart [OF set(1) Some] t(1) by simp
      then show ?thesis unfolding config_get_def
        using execute_config_get [of t b env p] Some True t(2) read set(3) by simp
    next
      case False
      then show ?thesis using set(6) Some t(2) nonempty
        by (cases "config_file_for_scope env (setting_scope b)")
          (auto simp: config_get_def execute_config_def read_other and_then_def split: sum.split)
    qed
  qed
  ultimately show ?thesis by blast
qed

section \<open>Plan mode puts the settings back\<close>

text \<open>The state is read back as it was written, but a saved \<^verbatim>\<open>null\<close> is no saved mode.\<close>

definition state_reads_back :: "settings_env \<Rightarrow> plan_mode_state \<Rightarrow> bool" where
  "state_reads_back env s \<longleftrightarrow> trim (pretty_plan_state env s) \<noteq> [] \<and> parse_plan_state env (pretty_plan_state env s) = Inr
     (s\<lparr>previous_local_mode := (if previous_local_mode s = Some SNull then None else previous_local_mode s)\<rparr>)"

definition state_on_entry :: "serde_map \<Rightarrow> plan_mode_state" where
  "state_on_entry d = (let current = get_nested_value d permission_default_mode_path
     in \<lparr>had_local_override = current \<noteq> None, previous_local_mode = current\<rparr>)"

definition document_in_plan_mode :: "serde_map \<Rightarrow> serde_map" where
  "document_in_plan_mode d = the (set_nested_value permission_default_mode_path plan_mode d)"

definition document_after_plan_mode :: "serde_map \<Rightarrow> serde_map" where
  "document_after_plan_mode d = restored_document
     (let s = state_on_entry d
      in s\<lparr>previous_local_mode := (if previous_local_mode s = Some SNull then None else previous_local_mode s)\<rparr>)
     (document_in_plan_mode d)"

text \<open>The documents that plan mode leaves as it found them.\<close>

definition restorable :: "serde_map \<Rightarrow> bool" where
  "restorable d \<longleftrightarrow> (case map_of d (lit ''permissions'') of
     None \<Rightarrow> True
   | Some (SObject m) \<Rightarrow> m \<noteq> [] \<and> map_of m (lit ''defaultMode'') \<noteq> Some SNull
   | _ \<Rightarrow> False)"

definition permissions_of :: "serde_map \<Rightarrow> serde_map" where
  "permissions_of d = (case map_of d (lit ''permissions'') of Some (SObject m) \<Rightarrow> m | _ \<Rightarrow> [])"

lemma get_default_mode: "get_nested_value d permission_default_mode_path = map_of (permissions_of d) (lit ''defaultMode'')"
proof -
  have "get_in [] = Some" by (rule ext) simp
  then show ?thesis
    by (auto simp: permission_default_mode_path_def permissions_of_def split: option.split serde_value.split)
qed

lemma set_default_mode:
  "set_nested_value permission_default_mode_path v d =
   Some (bt_insert (lit ''permissions'') (SObject (bt_insert (lit ''defaultMode'') v (permissions_of d))) d)"
  by (simp add: permission_default_mode_path_def permissions_of_def)

lemma permissions_of_in_plan_mode:
  "permissions_of (bt_insert (lit ''permissions'') (SObject m) d) = m"
  by (simp add: permissions_of_def map_of_bt_insert_any)

lemma remove_default_mode:
  "snd (remove_nested_value permission_default_mode_path (document_in_plan_mode d)) =
   (let m = bt_remove (lit ''defaultMode'') (permissions_of d)
    in if m = [] then bt_remove (lit ''permissions'') d else bt_insert (lit ''permissions'') (SObject m) d)"
  by (simp add: document_in_plan_mode_def set_default_mode)
    (simp add: permission_default_mode_path_def map_of_bt_insert_any bt_remove_insert)

lemma document_after_plan_mode_eq:
  "document_after_plan_mode d =
   (case map_of (permissions_of d) (lit ''defaultMode'') of
      Some v \<Rightarrow>
        if v = SNull then snd (remove_nested_value permission_default_mode_path (document_in_plan_mode d))
        else bt_insert (lit ''permissions'') (SObject (bt_insert (lit ''defaultMode'') v (permissions_of d))) d
    | None \<Rightarrow> snd (remove_nested_value permission_default_mode_path (document_in_plan_mode d)))"
  by (simp add: document_after_plan_mode_def restored_document_def state_on_entry_def get_default_mode Let_def
      document_in_plan_mode_def set_default_mode permissions_of_in_plan_mode split: option.split)

lemma bt_remove_neq: "map_of d k = Some v \<Longrightarrow> bt_remove k d \<noteq> d"
  by (metis fun_upd_same map_of_bt_remove option.simps(3))

lemma bt_insert_neq: "map_of d k \<noteq> Some v \<Longrightarrow> bt_insert k v d \<noteq> d"
  by (metis fun_upd_same map_of_bt_insert_any)

lemma after_plan_mode_restores:
  assumes "bt_ok d" and "bt_ok (permissions_of d)"
  shows "document_after_plan_mode d = d \<longleftrightarrow> restorable d"
proof (cases "map_of d (lit ''permissions'')")
  case None
  then show ?thesis
    by (simp add: document_after_plan_mode_eq remove_default_mode restorable_def permissions_of_def bt_remove_absent
        bt_remove_def [of _ "[]"])
next
  case (Some p)
  show ?thesis
  proof (cases "\<exists>m. p = SObject m")
    case True
    then obtain m where m: "map_of d (lit ''permissions'') = Some (SObject m)" using Some by blast
    then have sub: "permissions_of d = m" by (simp add: permissions_of_def)
    have ok: "bt_ok m" using assms(2) sub by simp
    note present = bt_insert_present [OF assms(1) m]
    show ?thesis
    proof (cases "map_of m (lit ''defaultMode'')")
      case None
      then show ?thesis using m present bt_remove_neq [OF m]
        by (simp add: document_after_plan_mode_eq remove_default_mode restorable_def sub bt_remove_absent)
    next
      case (Some v)
      show ?thesis
      proof (cases "v = SNull")
        case True
        have "bt_remove (lit ''defaultMode'') m \<noteq> m" by (rule bt_remove_neq [OF Some])
        then show ?thesis using m True Some bt_remove_neq [OF m]
            bt_insert_neq [of d "lit ''permissions''" "SObject (bt_remove (lit ''defaultMode'') m)"]
          by (auto simp: document_after_plan_mode_eq remove_default_mode restorable_def sub Let_def)
      next
        case False
        then show ?thesis using m Some present bt_insert_present [OF ok Some]
          by (auto simp: document_after_plan_mode_eq restorable_def sub)
      qed
    qed
  next
    case False
    then have "permissions_of d = []" "\<not> restorable d"
      using Some by (auto simp: permissions_of_def restorable_def split: serde_value.split)
    then show ?thesis using bt_remove_neq [OF Some]
      by (simp add: document_after_plan_mode_eq remove_default_mode bt_remove_def [of _ "[]"])
  qed
qed

text \<open>The two files are different.\<close>

lemma join_ends: "\<not> starts_with b [c_slash] \<Longrightarrow> suffix b (path_join a b)"
  by (auto simp: path_join_def Sublist.suffix_def)

lemma state_file_apart:
  assumes "config_file_for_scope env Scope_Settings = Inr p" and "plan_mode_state_file env = Inr q"
  shows "p \<noteq> q"
proof
  assume "p = q"
  moreover have "suffix (lit ''settings.local.json'') p"
    using assms(1) join_ends [of "lit ''settings.local.json''"]
    by (cases "current_dir env") (auto simp: config_file_for_scope_def starts_with_def lit_def)
  moreover have "suffix (lit ''plan-mode.json'') q"
    using assms join_ends [of "lit ''plan-mode.json''"]
    by (auto simp: plan_mode_state_file_def starts_with_def lit_def split: option.splits)
  ultimately have "suffix (lit ''plan-mode.json'') (lit ''settings.local.json'')"
    using suffix_length_suffix [of "lit ''plan-mode.json''" p "lit ''settings.local.json''"] by (simp add: lit_def)
  then show False by (simp add: lit_def suffix_def)
qed

lemma enter_changes:
  assumes "config_file_for_scope env Scope_Settings = Inr p" and "plan_mode_state_file env = Inr q"
    and "read_json_object env p fs = Inr d" and "get_nested_value d permission_default_mode_path \<noteq> Some plan_mode"
    and "read_plan_mode_state env q fs = Inr saved"
    and "write_fault env p = None" and "write_fault env q = None" and "remove_fault env q = None"
  shows "\<exists>out. execute_enter_plan_mode env fs = (Inr out, fs(q \<mapsto> pretty_plan_state env (state_on_entry d),
      p \<mapsto> pretty_json env (SObject (document_in_plan_mode d)))) \<and> plan_changed out \<and> plan_managed out"
  using assms
  by (cases saved)
    (simp_all add: execute_enter_plan_mode_def enable_plan_mode_def write_plan_mode_state_def write_json_object_def
      clear_plan_mode_state_def state_on_entry_def document_in_plan_mode_def Let_def)

lemma in_plan_mode: "get_nested_value (document_in_plan_mode d) permission_default_mode_path = Some plan_mode"
  by (simp add: document_in_plan_mode_def set_default_mode get_default_mode permissions_of_in_plan_mode map_of_bt_insert_any)

lemma exit_restores:
  assumes "config_file_for_scope env Scope_Settings = Inr p" and "plan_mode_state_file env = Inr q"
    and "read_json_object env p fs = Inr (document_in_plan_mode d)"
    and "read_plan_mode_state env q fs = Inr (Some (let s = state_on_entry d
      in s\<lparr>previous_local_mode := (if previous_local_mode s = Some SNull then None else previous_local_mode s)\<rparr>))"
    and "write_fault env p = None" and "remove_fault env q = None"
  shows "\<exists>out. execute_exit_plan_mode env fs =
     (Inr out, fs(p \<mapsto> pretty_json env (SObject (document_after_plan_mode d)), q := None)) \<and> plan_changed out"
  using assms in_plan_mode [of d]
  by (simp add: execute_exit_plan_mode_def write_json_object_def clear_plan_mode_state_def Let_def document_after_plan_mode_def)

text \<open>
  C32: Entering plan mode and leaving it succeeds, removes the saved state, and puts back the settings of the work tree exactly
  when they had no entry for permissions, or one that is a non-empty object whose default mode is not null.  An empty
  object, a value of another type and a null are lost.
\<close>

theorem plan_mode_round_trip:
  assumes "config_file_for_scope env Scope_Settings = Inr p" and "plan_mode_state_file env = Inr q"
    and "read_json_object env p fs = Inr d" and "ordered (SObject d)"
    and "get_nested_value d permission_default_mode_path \<noteq> Some plan_mode"
    and "read_plan_mode_state env q fs = Inr saved"
    and "write_fault env p = None" and "write_fault env q = None" and "remove_fault env q = None"
    and "reads_back env (document_in_plan_mode d)" and "state_reads_back env (state_on_entry d)"
  shows "\<exists>entered fs1 left d'. execute_enter_plan_mode env fs = (Inr entered, fs1) \<and> plan_changed entered \<and>
     execute_exit_plan_mode env fs1 = (Inr left, fs(p \<mapsto> pretty_json env (SObject d'), q := None)) \<and> plan_changed left \<and>
     (d' = d \<longleftrightarrow> restorable d)"
proof -
  have apart: "p \<noteq> q" by (rule state_file_apart [OF assms(1,2)])
  obtain entered where enter: "execute_enter_plan_mode env fs = (Inr entered, fs(q \<mapsto> pretty_plan_state env (state_on_entry d),
      p \<mapsto> pretty_json env (SObject (document_in_plan_mode d))))" "plan_changed entered"
    using enter_changes [OF assms(1-3,5-9)] by blast
  let ?fs1 = "fs(q \<mapsto> pretty_plan_state env (state_on_entry d), p \<mapsto> pretty_json env (SObject (document_in_plan_mode d)))"
  have readable: "read_fault env p = None" "read_fault env q = None"
    using assms(3,6) by (auto simp: read_json_object_def read_plan_mode_state_def split: option.splits)
  have "read_json_object env p ?fs1 = Inr (document_in_plan_mode d)" using read_back_document assms(10) readable(1) by simp
  moreover have "read_plan_mode_state env q ?fs1 = Inr (Some (let s = state_on_entry d
      in s\<lparr>previous_local_mode := (if previous_local_mode s = Some SNull then None else previous_local_mode s)\<rparr>))"
    using assms(11) readable(2) apart by (simp add: read_plan_mode_state_def state_reads_back_def Let_def)
  ultimately obtain left where "execute_exit_plan_mode env ?fs1 =
      (Inr left, ?fs1(p \<mapsto> pretty_json env (SObject (document_after_plan_mode d)), q := None))" "plan_changed left"
    using exit_restores [OF assms(1,2)] assms(7,9) by blast
  moreover have "bt_ok d" "bt_ok (permissions_of d)"
    using assms(4) by (force simp: permissions_of_def dest: map_of_SomeD split: option.split serde_value.split)+
  ultimately show ?thesis using enter after_plan_mode_restores apart
    by (intro exI [of _ entered] exI [of _ ?fs1] exI [of _ left] exI [of _ "document_after_plan_mode d"])
      (auto simp: fun_upd_twist)
qed

text \<open>An environment with one document and one state, for the instances below.\<close>

definition demo_settings :: "serde_map \<Rightarrow> settings_env" where
  "demo_settings m = \<lparr>current_dir = Inr (lit ''/w''), claw_config_home = Some (lit ''/c''), home_var = None,
     read_fault = (\<lambda>_. None), write_fault = (\<lambda>_. None), remove_fault = (\<lambda>_. None),
     parse_json = (\<lambda>_. Inr (SObject m)), pretty_json = (\<lambda>_. lit ''d''),
     parse_plan_state = (\<lambda>_. Inr \<lparr>had_local_override = False, previous_local_mode = None\<rparr>),
     pretty_plan_state = (\<lambda>_. lit ''s'')\<rparr>"

lemma settings_demo_trim: "trim (lit ''d'') = lit ''d''" "trim (lit ''s'') = lit ''s''" "trim (lit ''verbose'') = lit ''verbose''"
  "trim (lit ''theme'') = lit ''theme''"
  by (simp_all add: lit_def str_defs)

theorem config_set_then_get_witness:
  "map_sum id cfg_value (config_get (demo_settings [(lit ''verbose'', SBool True)]) (lit ''verbose'')
     [lit ''/c/settings.json'' \<mapsto> lit ''d'']) = Inr (Some (SBool True))"
proof -
  let ?env = "demo_settings [(lit ''verbose'', SBool True)]"
  let ?out = "\<lparr>cfg_success = True, cfg_operation = Some (lit ''set''), cfg_setting = Some (lit ''verbose''),
    cfg_value = Some (SBool True), cfg_previous = None, cfg_new = Some (SBool True), cfg_error = None\<rparr>"
  have p: "config_file_for_scope ?env Scope_Global = Inr (lit ''/c/settings.json'')"
    by (simp add: config_file_for_scope_def config_home_dir_def demo_settings_def path_join_def lit_def str_defs Sublist.suffix_def)
  have spec: "supported_config_setting (lit ''verbose'') = Some \<lparr>setting_scope = Scope_Global, setting_kind = Kind_Boolean,
      setting_path = [lit ''verbose''], setting_options = None\<rparr>"
    by (simp add: supported_config_setting_def)
  have set: "execute_config ?env (lit ''verbose'') (Some (Cfg_Bool True)) Map.empty =
      (Inr ?out, [lit ''/c/settings.json'' \<mapsto> lit ''d''])"
    unfolding execute_config_def settings_demo_trim Let_def
    by (simp add: spec p) (simp add: demo_settings_def read_json_object_def write_json_object_def normalize_config_value_def)
  have "map_sum id cfg_value (config_get ?env (lit ''verbose'') [lit ''/c/settings.json'' \<mapsto> lit ''d'']) = Inr (cfg_value ?out) \<and>
    (lit ''theme'' \<noteq> trim (lit ''verbose'') \<longrightarrow> trim (lit ''theme'') = lit ''theme'' \<longrightarrow>
     config_get ?env (lit ''theme'') [lit ''/c/settings.json'' \<mapsto> lit ''d''] = config_get ?env (lit ''theme'') Map.empty)"
  proof (rule config_set_then_get [OF set])
    show "cfg_success ?out" by simp
    fix p spec' document document'
    assume "supported_config_setting (trim (lit ''verbose'')) = Some spec'" "read_json_object ?env p Map.empty = Inr document"
      "set_nested_value (setting_path spec') (the (cfg_value ?out)) document = Some document'"
    then have "document' = [(lit ''verbose'', SBool True)]"
      unfolding settings_demo_trim spec by (auto simp: read_json_object_def demo_settings_def)
    then show "reads_back ?env document'" by (simp add: reads_back_def demo_settings_def settings_demo_trim)
  qed
  then show ?thesis by simp
qed

theorem plan_mode_round_trip_witness:
  "let env = demo_settings [(lit ''permissions'', SObject [(lit ''defaultMode'', plan_mode)])];
       p = lit ''/w/.claw/settings.local.json''; q = lit ''/w/.claw/tool-state/plan-mode.json''
   in \<exists>entered fs1 left d'. execute_enter_plan_mode env Map.empty = (Inr entered, fs1) \<and> plan_changed entered \<and>
     execute_exit_plan_mode env fs1 = (Inr left, Map.empty(p \<mapsto> pretty_json env (SObject d'), q := None)) \<and>
     plan_changed left \<and> (d' = [] \<longleftrightarrow> restorable [])"
proof -
  let ?env = "demo_settings [(lit ''permissions'', SObject [(lit ''defaultMode'', plan_mode)])]"
  have p: "config_file_for_scope ?env Scope_Settings = Inr (lit ''/w/.claw/settings.local.json'')"
    by (simp add: config_file_for_scope_def demo_settings_def path_join_def lit_def str_defs Sublist.suffix_def)
  have q: "plan_mode_state_file ?env = Inr (lit ''/w/.claw/tool-state/plan-mode.json'')"
    unfolding plan_mode_state_file_def p
    by (simp add: path_parent_def path_join_def lit_def str_defs enumerate_eq_zip upt_conv_Cons Let_def Sublist.suffix_def)
  show ?thesis unfolding Let_def
    by (rule plan_mode_round_trip [OF p q, where saved = None])
      (simp_all add: read_json_object_def read_plan_mode_state_def reads_back_def state_reads_back_def state_on_entry_def
        get_default_mode permissions_of_def document_in_plan_mode_def set_default_mode demo_settings_def settings_demo_trim)
qed

text \<open>
  The tool for settings needs the right to write the work tree and is run without a check.  With it the default mode of
  the work tree, which the configuration reads as the mode of the next session, can be set to one with full access.
\<close>

theorem config_tool_gives_full_access:
  "lit ''Config'' \<in> set unguarded_tools \<and>
   (lit ''Config'', Mode_WorkspaceWrite) \<in> set (map (\<lambda>s. (tspec_name s, tspec_permission s)) mvp_tool_specs) \<and>
   (\<exists>spec. supported_config_setting (lit ''permissions.defaultMode'') = Some spec \<and>
      setting_path spec = permission_default_mode_path \<and>
      normalize_config_value spec (Cfg_String (lit ''dontAsk'')) = Inr (SString (lit ''dontAsk''))) \<and>
   parse_permission_mode_label (lit ''dontAsk'') ctx = Inr Resolved_DangerFullAccess"
proof (intro conjI)
  show "lit ''Config'' \<in> set unguarded_tools" by (simp add: unguarded_tools_def)
  show "(lit ''Config'', Mode_WorkspaceWrite) \<in> set (map (\<lambda>s. (tspec_name s, tspec_permission s)) mvp_tool_specs)"
    unfolding tool_permissions by simp
  show "\<exists>spec. supported_config_setting (lit ''permissions.defaultMode'') = Some spec \<and>
      setting_path spec = permission_default_mode_path \<and>
      normalize_config_value spec (Cfg_String (lit ''dontAsk'')) = Inr (SString (lit ''dontAsk''))"
    by (simp add: supported_config_setting_def normalize_config_value_def permission_default_mode_path_def)
  show "parse_permission_mode_label (lit ''dontAsk'') ctx = Inr Resolved_DangerFullAccess"
    by (simp add: parse_permission_mode_label_def)
qed

end
