(* ===== verification/WebTools.thy ===== *)
theory WebTools imports Strings begin

text \<open>
  The web tools (\<^verbatim>\<open>crates/tools/src/lib.rs\<close>): the text of a page, its title and summary, the hits on a page of
  results, the filters by domain and the result of a search.  URLs are those of \<^verbatim>\<open>reqwest\<close> (\<open>url_api\<close>); the answers of
  the network, \<^verbatim>\<open>str::to_lowercase\<close> (\<open>lower\<close>) and the debug form of a string are parameters.  Offsets are counted in bytes
  where the code slices one text at the offset of another, and a slice inside a char panics.
\<close>

section \<open>Text of a page\<close>

definition decode_html_entities :: "rstring \<Rightarrow> rstring" where
  "decode_html_entities s =
     replace_all (lit ''&nbsp;'') [c_space]
     (replace_all (lit ''&#39;'') [c_squote]
     (replace_all (lit ''&quot;'') [c_dquote]
     (replace_all (lit ''&gt;'') [62]
     (replace_all (lit ''&lt;'') [60]
     (replace_all (lit ''&amp;'') [38] s)))))"

definition collapse_whitespace :: "rstring \<Rightarrow> rstring" where
  "collapse_whitespace s = join [c_space] (split_whitespace s)"

text \<open>The loop of \<^verbatim>\<open>html_to_text\<close>: whether it is in a tag, and whether a space was written last.\<close>

fun strip_tags :: "bool \<Rightarrow> bool \<Rightarrow> rstring \<Rightarrow> rstring" where
  "strip_tags in_tag previous_was_space [] = []"
| "strip_tags in_tag previous_was_space (c # s) =
     (if c = 60 then strip_tags True previous_was_space s
      else if c = 62 then strip_tags False previous_was_space s
      else if in_tag then strip_tags in_tag previous_was_space s
      else if c = 38 then 38 # strip_tags in_tag False s
      else if is_whitespace c then
        (if previous_was_space then strip_tags in_tag True s else c_space # strip_tags in_tag True s)
      else c # strip_tags in_tag False s)"

definition html_to_text :: "rstring \<Rightarrow> rstring" where
  "html_to_text html = collapse_whitespace (decode_html_entities (strip_tags False False html))"

definition preview_text :: "rstring \<Rightarrow> nat \<Rightarrow> rstring" where
  "preview_text s max_chars = (if length s \<le> max_chars then s else trim_end (take max_chars s) @ [0x2026])"

definition normalize_fetched_content :: "rstring \<Rightarrow> rstring \<Rightarrow> rstring" where
  "normalize_fetched_content body content_type =
     (if str_contains content_type (lit ''html'') then html_to_text body else trim body)"

text \<open>\<^verbatim>\<open>&s[a..b]\<close>, for byte offsets.\<close>

definition slice_range :: "rstring \<Rightarrow> nat \<Rightarrow> nat \<Rightarrow> panic + rstring" where
  "slice_range s a b = rbind (slice_from s a)
     (\<lambda>t. if a \<le> b \<and> is_char_boundary t (b - a) then Inr (slice_to t (b - a)) else Inl Slice_Panic)"

text \<open>\<^verbatim>\<open>str::find\<close> gives a byte offset.\<close>

definition byte_find :: "rstring \<Rightarrow> rstring \<Rightarrow> nat option" where
  "byte_find s p = map_option (\<lambda>i. str_len (take i s)) (str_find s p)"

definition first_line :: "rstring \<Rightarrow> rstring option" where
  "first_line content = map_option trim (find (\<lambda>l. trim l \<noteq> []) (str_lines content))"

definition extract_title :: "(rstring \<Rightarrow> rstring) \<Rightarrow> rstring \<Rightarrow> rstring \<Rightarrow> rstring \<Rightarrow> panic + rstring option" where
  "extract_title lower content raw_body content_type =
     (let lowered = lower raw_body
      in if str_contains content_type (lit ''html'') then
           (case byte_find lowered (lit ''<title>'') of
              None \<Rightarrow> Inr (first_line content)
            | Some start \<Rightarrow>
                let after = start + str_len (lit ''<title>'')
                in rbind (slice_from lowered after) (\<lambda>rest.
                   case byte_find rest (lit ''</title>'') of
                     None \<Rightarrow> Inr (first_line content)
                   | Some end_rel \<Rightarrow>
                       rbind (slice_range raw_body after (after + end_rel)) (\<lambda>raw.
                       let name = collapse_whitespace (decode_html_entities raw)
                       in if name \<noteq> [] then Inr (Some name) else Inr (first_line content))))
         else Inr (first_line content))"

definition summarize_web_fetch ::
    "(rstring \<Rightarrow> rstring) \<Rightarrow> rstring \<Rightarrow> rstring \<Rightarrow> rstring \<Rightarrow> rstring \<Rightarrow> rstring \<Rightarrow> panic + rstring" where
  "summarize_web_fetch lower url prompt content raw_body content_type =
     (let lower_prompt = lower prompt;
          compact = collapse_whitespace content;
          detail =
            (if str_contains lower_prompt (lit ''title'') then
               rbind (extract_title lower content raw_body content_type) (\<lambda>t. Inr (case t of
                 None \<Rightarrow> preview_text compact 600
               | Some name \<Rightarrow> lit ''Title: '' @ name))
             else if str_contains lower_prompt (lit ''summary'') \<or> str_contains lower_prompt (lit ''summarize'') then
               Inr (preview_text compact 900)
             else Inr (lit ''Prompt: '' @ prompt @ [c_nl] @ lit ''Content preview:'' @ [c_nl] @ preview_text compact 900))
      in rbind detail (\<lambda>d. Inr (lit ''Fetched '' @ url @ [c_nl] @ d)))"

section \<open>URLs\<close>

record 'u url_api =
  url_parse :: "rstring \<Rightarrow> rstring + 'u"
  url_scheme :: "'u \<Rightarrow> rstring"
  url_host :: "'u \<Rightarrow> rstring option"
  url_path :: "'u \<Rightarrow> rstring"
  url_query_pairs :: "'u \<Rightarrow> (rstring \<times> rstring) list"
  url_set_https :: "'u \<Rightarrow> 'u option"
  url_append_pair :: "rstring \<Rightarrow> rstring \<Rightarrow> 'u \<Rightarrow> 'u"
  url_text :: "'u \<Rightarrow> rstring"

definition normalize_fetch_url :: "'u url_api \<Rightarrow> rstring \<Rightarrow> rstring + rstring" where
  "normalize_fetch_url api url = rbind (url_parse api url) (\<lambda>parsed.
     if url_scheme api parsed = lit ''http'' \<and>
        unwrap_or [] (url_host api parsed) \<notin> {lit ''localhost'', lit ''127.0.0.1'', lit ''::1''}
     then rbind (ok_or (lit ''failed to upgrade URL to https'') (url_set_https api parsed)) (\<lambda>u. Inr (url_text api u))
     else Inr (url_text api parsed))"

text \<open>\<open>base\<close> is the variable \<^verbatim>\<open>CLAWD_WEB_SEARCH_BASE_URL\<close>.\<close>

definition build_search_url :: "'u url_api \<Rightarrow> rstring option \<Rightarrow> rstring \<Rightarrow> rstring + 'u" where
  "build_search_url api base query =
     rbind (url_parse api (unwrap_or (lit ''https://html.duckduckgo.com/html/'') base))
       (\<lambda>url. Inr (url_append_pair api (lit ''q'') query url))"

definition html_entity_decode_url :: "rstring \<Rightarrow> rstring" where
  "html_entity_decode_url url = decode_html_entities url"

definition decode_duckduckgo_redirect :: "'u url_api \<Rightarrow> rstring \<Rightarrow> rstring option" where
  "decode_duckduckgo_redirect api url =
     (let decode = (\<lambda>joined. case url_parse api joined of
            Inl _ \<Rightarrow> None
          | Inr parsed \<Rightarrow>
              (case if url_path api parsed \<in> {lit ''/l/'', lit ''/l''}
                    then find (\<lambda>q. fst q = lit ''uddg'') (url_query_pairs api parsed) else None of
                 Some (_, v) \<Rightarrow> Some (html_entity_decode_url v)
               | None \<Rightarrow> Some joined))
      in if starts_with url (lit ''http://'') \<or> starts_with url (lit ''https://'') then Some (html_entity_decode_url url)
         else if starts_with url (lit ''//'') then decode (lit ''https:'' @ url)
         else if starts_with url (lit ''/'') then decode (lit ''https://duckduckgo.com'' @ url)
         else None)"

definition normalize_domain_filter :: "'u url_api \<Rightarrow> rstring \<Rightarrow> rstring" where
  "normalize_domain_filter api domain =
     (let trimmed = trim domain;
          candidate = (case url_parse api trimmed of
              Inl _ \<Rightarrow> trimmed
            | Inr url \<Rightarrow> unwrap_or trimmed (url_host api url))
      in to_ascii_lowercase (trim_end_matches c_slash (dropWhile (\<lambda>c. c = 46) (trim candidate))))"

definition host_matches_list :: "'u url_api \<Rightarrow> rstring \<Rightarrow> rstring list \<Rightarrow> bool" where
  "host_matches_list api url domains = (case url_parse api url of
     Inl _ \<Rightarrow> False
   | Inr parsed \<Rightarrow> (case url_host api parsed of
       None \<Rightarrow> False
     | Some h \<Rightarrow>
         let host = to_ascii_lowercase h
         in list_ex (\<lambda>domain. let normalized = normalize_domain_filter api domain
              in normalized \<noteq> [] \<and> (host = normalized \<or> ends_with host ([46] @ normalized))) domains))"

section \<open>Hits\<close>

record search_hit =
  hit_title :: rstring
  hit_url :: rstring

definition extract_quoted_value :: "rstring \<Rightarrow> (rstring \<times> rstring) option" where
  "extract_quoted_value s = (case s of
     [] \<Rightarrow> None
   | q # rest \<Rightarrow>
       if q \<noteq> c_dquote \<and> q \<noteq> c_squote then None
       else map_option (\<lambda>i. (take i rest, drop (i + 1) rest)) (str_find rest [q]))"

lemma quoted_value_shorter: "extract_quoted_value s = Some (v, rest) \<Longrightarrow> length rest < length s"
  by (auto simp: extract_quoted_value_def split: list.splits if_splits)

lemma str_find_SomeD: "str_find s p = Some i \<Longrightarrow> i + length p \<le> length s \<and> prefix p (drop i s)"
proof (induction s arbitrary: i)
  case Nil
  then show ?case by (auto split: if_splits)
next
  case (Cons c s)
  then show ?case by (auto split: if_splits dest: prefix_length_le)
qed

lemma slice_one: "slice_from s (Suc 0) = Inr t \<Longrightarrow> length t < length s"
  by (cases s) (auto split: if_splits simp: utf8_len_def)

function extract_search_hits :: "'u url_api \<Rightarrow> rstring \<Rightarrow> panic + search_hit list" where
  "extract_search_hits api remaining = (case str_find remaining (lit ''result__a'') of
     None \<Rightarrow> Inr []
   | Some anchor_start \<Rightarrow>
       let after_class = drop anchor_start remaining in
       (case Option.bind (str_find after_class (lit ''href='')) (\<lambda>i. extract_quoted_value (drop (i + 5) after_class)) of
          None \<Rightarrow> extract_search_hits api (tl after_class)
        | Some (url, rest) \<Rightarrow>
            (case str_find rest [62] of
               None \<Rightarrow> extract_search_hits api (tl after_class)
             | Some close_tag_idx \<Rightarrow>
                 let after_tag = drop (close_tag_idx + 1) rest in
                 (case str_find after_tag (lit ''</a>'') of
                    None \<Rightarrow> (case slice_from after_tag 1 of Inl p \<Rightarrow> Inl p | Inr t \<Rightarrow> extract_search_hits api t)
                  | Some end_anchor_idx \<Rightarrow>
                      let name = html_to_text (take end_anchor_idx after_tag);
                          hit = (case decode_duckduckgo_redirect api url of
                              None \<Rightarrow> [] | Some u \<Rightarrow> [\<lparr>hit_title = trim name, hit_url = u\<rparr>])
                      in map_sum id (\<lambda>hits. hit @ hits) (extract_search_hits api (drop (end_anchor_idx + 4) after_tag))))))"
  by pat_completeness auto
termination
  by (relation "measure (\<lambda>(api, s). length s)")
    (auto simp: lit_def bind_eq_Some_conv dest!: str_find_SomeD quoted_value_shorter slice_one)

function extract_search_hits_from_generic_links :: "'u url_api \<Rightarrow> rstring \<Rightarrow> search_hit list" where
  "extract_search_hits_from_generic_links api remaining = (case str_find remaining (lit ''<a'') of
     None \<Rightarrow> []
   | Some anchor_start \<Rightarrow>
       let after_anchor = drop anchor_start remaining in
       (case Option.bind (str_find after_anchor (lit ''href='')) (\<lambda>i. extract_quoted_value (drop (i + 5) after_anchor)) of
          None \<Rightarrow> extract_search_hits_from_generic_links api (drop 2 after_anchor)
        | Some (url, rest) \<Rightarrow>
            (case str_find rest [62] of
               None \<Rightarrow> extract_search_hits_from_generic_links api (drop 2 after_anchor)
             | Some close_tag_idx \<Rightarrow>
                 let after_tag = drop (close_tag_idx + 1) rest in
                 (case str_find after_tag (lit ''</a>'') of
                    None \<Rightarrow> extract_search_hits_from_generic_links api (drop 2 after_anchor)
                  | Some end_anchor_idx \<Rightarrow>
                      let name = html_to_text (take end_anchor_idx after_tag);
                          decoded_url = unwrap_or url (decode_duckduckgo_redirect api url);
                          hit = (if trim name \<noteq> [] \<and>
                                    (starts_with decoded_url (lit ''http://'') \<or> starts_with decoded_url (lit ''https://''))
                                 then [\<lparr>hit_title = trim name, hit_url = decoded_url\<rparr>] else [])
                      in hit @ extract_search_hits_from_generic_links api (drop (end_anchor_idx + 4) after_tag)))))"
  by pat_completeness auto
termination
  by (relation "measure (\<lambda>(api, s). length s)")
    (auto simp: lit_def bind_eq_Some_conv dest!: str_find_SomeD quoted_value_shorter)

declare extract_search_hits.simps [simp del] extract_search_hits_from_generic_links.simps [simp del]

fun dedupe_from :: "rstring set \<Rightarrow> search_hit list \<Rightarrow> search_hit list" where
  "dedupe_from seen [] = []"
| "dedupe_from seen (h # hs) =
     (if hit_url h \<in> seen then dedupe_from seen hs else h # dedupe_from (insert (hit_url h) seen) hs)"

definition dedupe_hits :: "search_hit list \<Rightarrow> search_hit list" where
  "dedupe_hits hs = dedupe_from {} hs"

text \<open>The hits that a search keeps.\<close>

definition select_hits :: "'u url_api \<Rightarrow> rstring list option \<Rightarrow> rstring list option \<Rightarrow> search_hit list \<Rightarrow> search_hit list" where
  "select_hits api allowed blocked hits =
     (let kept = (case allowed of None \<Rightarrow> hits | Some ds \<Rightarrow> filter (\<lambda>h. host_matches_list api (hit_url h) ds) hits);
          kept = (case blocked of None \<Rightarrow> kept | Some ds \<Rightarrow> filter (\<lambda>h. \<not> host_matches_list api (hit_url h) ds) kept)
      in take 8 (dedupe_hits kept))"

text \<open>\<open>page\<close> is the text of the answer and \<open>has_host\<close> whether its URL has a host.\<close>

definition search_page_hits ::
    "'u url_api \<Rightarrow> bool \<Rightarrow> rstring list option \<Rightarrow> rstring list option \<Rightarrow> rstring \<Rightarrow> panic + search_hit list" where
  "search_page_hits api has_host allowed blocked page =
     rbind (extract_search_hits api page) (\<lambda>hits.
       let hits = (if hits = [] \<and> has_host then extract_search_hits_from_generic_links api page else hits)
       in Inr (select_hits api allowed blocked hits))"

definition search_summary :: "(rstring \<Rightarrow> rstring) \<Rightarrow> rstring \<Rightarrow> search_hit list \<Rightarrow> rstring" where
  "search_summary debug query hits =
     (if hits = [] then lit ''No web search results matched the query '' @ debug query @ lit ''.''
      else lit ''Search results for '' @ debug query @ lit ''. Include a Sources section in the final answer.'' @ [c_nl] @
        join [c_nl] (map (\<lambda>h. lit ''- ['' @ hit_title h @ lit '']('' @ hit_url h @ lit '')'') hits))"

section \<open>Hits of a page are found\<close>


definition hits_of :: "'u url_api \<Rightarrow> rstring \<Rightarrow> rstring \<Rightarrow> search_hit list" where
  "hits_of api url name = (case decode_duckduckgo_redirect api url of
     None \<Rightarrow> [] | Some u \<Rightarrow> [\<lparr>hit_title = trim (html_to_text name), hit_url = u\<rparr>])"


lemma extract_step:
  assumes "str_find s (lit ''result__a'') = Some a" and "str_find (drop a s) (lit ''href='') = Some h"
    and "extract_quoted_value (drop (h + 5) (drop a s)) = Some (url, 62 # t)"
  shows "extract_search_hits api s = (case str_find t (lit ''</a>'') of
     None \<Rightarrow> (case slice_from t 1 of Inl p \<Rightarrow> Inl p | Inr t \<Rightarrow> extract_search_hits api t)
   | Some e \<Rightarrow> map_sum id (\<lambda>hits. hits_of api url (take e t) @ hits) (extract_search_hits api (drop (e + 4) t)))"
  by (subst extract_search_hits.simps) (simp add: assms Let_def hits_of_def del: drop_drop cong: option.case_cong split: option.split)



text \<open>
  Where a link with the class of a result is not closed and its tag stands at the end of the page or before a char of
  tail than one byte, the search panics.
\<close>

theorem search_hits_panic:
  assumes "c_dquote \<notin> set url" and "\<not> str_contains t (lit ''</a>'')" and "t = [] \<or> 1 < utf8_len (hd t)"
  shows "extract_search_hits api (lit ''result__a href='' @ [c_dquote] @ url @ [c_dquote, 62] @ t) = Inl Slice_Panic"
proof -
  let ?s = "lit ''result__a href='' @ [c_dquote] @ url @ [c_dquote, 62] @ t"
  have find: "str_find ?s (lit ''result__a'') = Some 0" "str_find ?s (lit ''href='') = Some 10"
    "drop 15 ?s = c_dquote # url @ c_dquote # 62 # t" by (simp_all add: lit_def)
  have quoted: "extract_quoted_value (c_dquote # url @ c_dquote # 62 # t) = Some (url, 62 # t)"
    using str_find_char [OF assms(1)] by (simp add: extract_quoted_value_def)
  have "str_find t (lit ''</a>'') = None" using assms(2) by (simp add: str_find_None_iff)
  moreover have "slice_from t 1 = Inl Slice_Panic" using assms(3) by (cases t) auto
  ultimately show ?thesis
    using extract_step [of ?s 0 10 url t api] find quoted by simp
qed

definition demo_urls :: "rstring url_api" where
  "demo_urls = \<lparr>url_parse = Inr, url_scheme = (\<lambda>_. lit ''https''), url_host = Some, url_path = (\<lambda>_. []),
     url_query_pairs = (\<lambda>_. []), url_set_https = Some, url_append_pair = (\<lambda>_ _ u. u), url_text = id\<rparr>"


theorem search_hits_panic_witness:
  "extract_search_hits demo_urls (lit ''result__a href='' @ [c_dquote] @ lit ''x'' @ [c_dquote, 62] @ [0xE9]) = Inl Slice_Panic"
  by (rule search_hits_panic) (simp_all add: lit_def utf8_len_def)

section \<open>The hits that are kept\<close>

lemma subseq_mem: "subseq xs ys \<Longrightarrow> set xs \<subseteq> set ys"
  by (induction rule: list_emb.induct) auto

lemma dedupe_from_props:
  "distinct (map hit_url (dedupe_from seen hs)) \<and> hit_url ` set (dedupe_from seen hs) = hit_url ` set hs - seen \<and>
   subseq (dedupe_from seen hs) hs"
  by (induction seen hs rule: dedupe_from.induct) auto

lemma deduped:
  assumes "set b = K" and "subseq b hits" and "out = take 8 (dedupe_hits b)"
  shows "set out \<subseteq> K \<and> subseq out hits \<and> distinct (map hit_url out) \<and> length out = min 8 (card (hit_url ` K))"
proof -
  let ?d = "dedupe_from {} b"
  have d: "distinct (map hit_url ?d)" "hit_url ` set ?d = hit_url ` K" "subseq ?d b"
    using dedupe_from_props [of "{}" b] assms(1) by auto
  have out: "out = take 8 ?d" using assms(3) by (simp add: dedupe_hits_def)
  have "length out = min 8 (card (hit_url ` K))"
    using distinct_card [OF d(1)] d(2) out by simp
  moreover have "set out \<subseteq> K" using subset_trans [OF set_take_subset subseq_mem [OF d(3)]] out assms(1) by blast
  moreover have "subseq out b" using subseq_order.trans [OF prefix_imp_subseq [OF take_is_prefix] d(3)] out by blast
  then have "subseq out hits" using assms(2) by (rule subseq_order.trans)
  moreover have "distinct (map hit_url out)" using d(1) out by (simp add: take_map [symmetric])
  ultimately show ?thesis by blast
qed

text \<open>
  A search keeps at most eight hits, in the order of the page and with different URLs; all of them pass the filters, and
  eight are kept when there are as many URLs that pass.
\<close>

theorem kept_hits:
  "let kept = {h \<in> set hits. (case allowed of None \<Rightarrow> True | Some ds \<Rightarrow> host_matches_list api (hit_url h) ds) \<and>
        (case blocked of None \<Rightarrow> True | Some ds \<Rightarrow> \<not> host_matches_list api (hit_url h) ds)};
       out = select_hits api allowed blocked hits
   in set out \<subseteq> kept \<and> subseq out hits \<and> distinct (map hit_url out) \<and> length out = min 8 (card (hit_url ` kept))"
proof -
  let ?a = "case allowed of None \<Rightarrow> hits | Some ds \<Rightarrow> filter (\<lambda>h. host_matches_list api (hit_url h) ds) hits"
  let ?b = "case blocked of None \<Rightarrow> ?a | Some ds \<Rightarrow> filter (\<lambda>h. \<not> host_matches_list api (hit_url h) ds) ?a"
  let ?kept = "{h \<in> set hits. (case allowed of None \<Rightarrow> True | Some ds \<Rightarrow> host_matches_list api (hit_url h) ds) \<and>
        (case blocked of None \<Rightarrow> True | Some ds \<Rightarrow> \<not> host_matches_list api (hit_url h) ds)}"
  have kept: "set ?b = ?kept" by (auto split: option.split)
  have sub: "subseq ?b hits"
    by (auto split: option.split intro: subseq_filter_left subseq_order.trans)
  show ?thesis unfolding Let_def
    by (rule deduped [OF kept sub]) (simp add: select_hits_def Let_def)
qed

section \<open>Titles\<close>

lemma slice_pos:
  "0 < n \<Longrightarrow> slice_from (c # s) n = (if utf8_len c \<le> n then slice_from s (n - utf8_len c) else Inl Slice_Panic)"
  "0 < n \<Longrightarrow> slice_from [] n = Inl Slice_Panic"
  "0 < n \<Longrightarrow> is_char_boundary (c # s) n \<longleftrightarrow> utf8_len c \<le> n \<and> is_char_boundary s (n - utf8_len c)"
  "0 < n \<Longrightarrow> \<not> is_char_boundary [] n"
  by (cases n; simp)+

lemma slice_from_take: "slice_from s (str_len (take i s)) = Inr (drop i s)"
proof (induction s arbitrary: i)
  case (Cons c s)
  show ?case
  proof (cases i)
    case (Suc j)
    obtain n where "utf8_len c + str_len (take j s) = Suc n" using utf8_len_pos [of c] by (cases "utf8_len c") auto
    then show ?thesis using Cons Suc
      by simp (metis add_diff_cancel_left' le_add1)
  qed simp
qed simp

lemma slice_to_take: "is_char_boundary s (str_len (take i s)) \<and> slice_to s (str_len (take i s)) = take i s"
proof (induction s arbitrary: i)
  case (Cons c s)
  show ?case
  proof (cases i)
    case (Suc j)
    obtain n where "utf8_len c + str_len (take j s) = Suc n" using utf8_len_pos [of c] by (cases "utf8_len c") auto
    then show ?thesis using Cons [of j] Suc
      by simp (metis add_diff_cancel_left' le_add1)
  qed simp
qed simp

lemma slice_range_take:
  "slice_range s (str_len (take i s)) (str_len (take i s) + str_len (take j (drop i s))) = Inr (take j (drop i s))"
  using slice_to_take [of "drop i s" j] by (simp add: slice_range_def slice_from_take)

lemma str_len_map: "(\<And>c. utf8_len (f c) = utf8_len c) \<Longrightarrow> str_len (map f s) = str_len s"
  by (induction s) auto

text \<open>The text between the tags, found in the lower-case page and taken from the page.\<close>

definition title_text :: "(rstring \<Rightarrow> rstring) \<Rightarrow> rstring \<Rightarrow> rstring option" where
  "title_text lower raw = (case str_find (lower raw) (lit ''<title>'') of
     None \<Rightarrow> None
   | Some i \<Rightarrow> map_option (\<lambda>j. take j (drop (i + 7) raw)) (str_find (drop (i + 7) (lower raw)) (lit ''</title>'')))"

text \<open>
  For a lower-case function that keeps the width of every char, as the one on ASCII does, the title never panics: it is the
  text between the tags of the page, decoded, or else the first line that is not blank.
\<close>

theorem title_of_page:
  assumes "\<And>c. utf8_len (f c) = utf8_len c"
  shows "extract_title (map f) content raw content_type = Inr
    (if str_contains content_type (lit ''html'') \<and>
        collapse_whitespace (decode_html_entities (unwrap_or [] (title_text (map f) raw))) \<noteq> []
     then Some (collapse_whitespace (decode_html_entities (unwrap_or [] (title_text (map f) raw))))
     else first_line content)"
proof (cases "str_contains content_type (lit ''html'')")
  case True
  have empty: "collapse_whitespace (decode_html_entities []) = []"
    by (simp add: decode_html_entities_def replace_all.simps collapse_whitespace_def split_whitespace_def)
  show ?thesis
  proof (cases "str_find (map f raw) (lit ''<title>'')")
    case None
    then show ?thesis using True empty by (simp add: extract_title_def byte_find_def title_text_def unwrap_or_def)
  next
    case (Some i)
    have i: "i + 7 \<le> length raw" "take 7 (drop i (map f raw)) = lit ''<title>''"
      using str_find_SomeD [OF Some] by (auto simp: prefix_def lit_def)
    have "take (i + 7) (map f raw) = take i (map f raw) @ lit ''<title>''" using i by (simp add: take_add)
    then have after: "str_len (take i (map f raw)) + str_len (lit ''<title>'') = str_len (take (i + 7) (map f raw))"
      by simp
    have len: "str_len (take n (map f xs)) = str_len (take n xs)" for n xs
      using str_len_map [OF assms] by (simp add: take_map)
    have rest: "slice_from (map f raw) (str_len (take (i + 7) (map f raw))) = Inr (drop (i + 7) (map f raw))"
      by (rule slice_from_take)
    show ?thesis
    proof (cases "str_find (drop (i + 7) (map f raw)) (lit ''</title>'')")
      case None
      then show ?thesis using True Some empty
        by (simp only: extract_title_def byte_find_def title_text_def unwrap_or_def) (simp add: after rest del: drop_map)
    next
      case j: (Some j)
      have "slice_range raw (str_len (take (i + 7) (map f raw)))
          (str_len (take (i + 7) (map f raw)) + str_len (take j (drop (i + 7) (map f raw)))) = Inr (take j (drop (i + 7) raw))"
        using slice_range_take [of raw "i + 7" j] len [of "i + 7" raw] len [of j "drop (i + 7) raw"] by (simp add: drop_map)
      then show ?thesis using True Some j
        by (simp add: extract_title_def byte_find_def title_text_def after rest del: drop_map)
    qed
  qed
qed (simp add: extract_title_def)

theorem title_of_page_witness:
  "extract_title (map ascii_lower) [] (lit ''<TITLE>Ab</TITLE>'') (lit ''text/html'') = Inr (Some (lit ''Ab''))"
proof -
  have keep: "utf8_len (ascii_lower c) = utf8_len c" for c by (simp add: ascii_lower_def utf8_len_def)
  have "title_text (map ascii_lower) (lit ''<TITLE>Ab</TITLE>'') = Some (lit ''Ab'')"
    by (simp add: title_text_def lit_def ascii_lower_def)
  moreover have "collapse_whitespace (decode_html_entities (lit ''Ab'')) = lit ''Ab''"
    by (simp add: decode_html_entities_def replace_all.simps collapse_whitespace_def split_whitespace_def lit_def is_whitespace_def)
  moreover have "str_contains (lit ''text/html'') (lit ''html'')" by (simp add: lit_def)
  ultimately show ?thesis using title_of_page [of ascii_lower "[]" "lit ''<TITLE>Ab</TITLE>''" "lit ''text/html''", OF keep]
    by simp
qed

text \<open>
  The capital I with a dot becomes longer in lower case.  Behind it the offsets of the lower-case page do not fit the page:
  the title loses its first char and gains a bracket, and where the first char of the title has two bytes the fetch panics.
\<close>

theorem title_shifted:
  "let lower = (\<lambda>s. concat (map (\<lambda>c. if c = 0x130 then [0x69, 0x307] else [ascii_lower c]) s)) in
   extract_title lower [] (0x130 # lit ''<title>ab</title>'') (lit ''text/html'') = Inr (Some (lit ''b<'')) \<and>
   extract_title lower [] (0x130 # lit ''<title>'' @ [0xE9] @ lit ''</title>'') (lit ''text/html'') = Inl Slice_Panic"
proof -
  have html: "str_contains (lit ''text/html'') (lit ''html'')" by (simp add: lit_def)
  have "collapse_whitespace (decode_html_entities [98, 60]) = [98, 60]"
    by (simp add: decode_html_entities_def replace_all.simps collapse_whitespace_def split_whitespace_def is_whitespace_def lit_def)
  then show ?thesis
    unfolding extract_title_def byte_find_def Let_def
    by (simp add: html) (simp add: lit_def ascii_lower_def utf8_len_def slice_range_def slice_pos)
qed

text \<open>
  Entities are decoded one kind after the other, the ampersand first, so that text that was escaped twice loses both
  escapes: a page that shows an entity is read as if it showed the char.
\<close>

theorem entities_decoded_twice:
  "html_to_text (lit ''&amp;lt;b&amp;gt;'') = lit ''<b>'' \<and> html_to_text (lit ''&lt;b&gt;'') = lit ''<b>''"
  by (simp add: html_to_text_def decode_html_entities_def lit_def is_whitespace_def replace_all.simps
      collapse_whitespace_def split_whitespace_def)

end
