(* ===== verification/Spec2Isabelle.thy ===== *)
theory Spec2Isabelle imports Prelude Json Permissions Paths Enforcer PolicyEngine Registry WorkerBoot
  RecoveryRecipes TaskRegistry TeamCron TrustResolver SummaryCompression McpLifecycle Usage Session
  Compact Hooks Conversation Bash BashValidation CliArgs CommandSpecs Commands Config FileOps Lanes Lsp
  Mcp McpBridge McpManager McpProtocol McpStdio Notebook OAuth PluginHooks PluginManager Plugins Prompt
  Providers Remote Sandbox SessionControl Sse Strings SubAgents Todo ToolSettings ToolSpecs Tools Utf8
  WebTools begin

text \<open>
  A model of the core logic of rustcode (a coding agent and its server, in Rust): the runtime of the
  agent under \<^verbatim>\<open>src/crates/runtime/src\<close>, and the parts of the other crates and of the server that are pure.

  \<^bold>\<open>The program.\<close>  The runtime runs the turns of a conversation with a model (\<^verbatim>\<open>conversation.rs\<close>).  Each tool that
  the model asks for passes the hooks of the user (\<^verbatim>\<open>hooks.rs\<close>) and the permission policy (\<^verbatim>\<open>permissions.rs\<close>,
  \<^verbatim>\<open>permission_enforcer.rs\<close>) before a tool executor is called.  A session (\<^verbatim>\<open>session.rs\<close>, with its own \<^verbatim>\<open>json.rs\<close>
  and \<^verbatim>\<open>usage.rs\<close>) keeps the messages, in memory and in a file of JSON lines, and is compacted into a summary
  when it grows (\<^verbatim>\<open>compact.rs\<close>, \<^verbatim>\<open>summary_compression.rs\<close>).  Around it stand registries and state machines: workers
  that boot an agent in a terminal (\<^verbatim>\<open>worker_boot.rs\<close>, \<^verbatim>\<open>trust_resolver.rs\<close>, \<^verbatim>\<open>recovery_recipes.rs\<close>), tasks, teams and
  cron entries (\<^verbatim>\<open>task_registry.rs\<close>, \<^verbatim>\<open>task_packet.rs\<close>, \<^verbatim>\<open>team_cron_registry.rs\<close>), the lifecycle of MCP servers
  (\<^verbatim>\<open>mcp_lifecycle_hardened.rs\<close>) and the policy that decides what happens to a lane of work (\<^verbatim>\<open>policy_engine.rs\<close>,
  \<^verbatim>\<open>green_contract.rs\<close>).

  \<^bold>\<open>The theories.\<close>
  \<^item> \<open>Prelude\<close>: strings as lists of code points (\<open>rstring\<close>; \<open>lit\<close> of an Isabelle string), what the code uses of
    the standard library on them, sorted association lists for \<^verbatim>\<open>BTreeMap\<close>.
  \<^item> \<open>Json\<close>: values, rendering and the recursive-descent parser.  The parser runs on fuel
    \<open>2 * length text + 1\<close>, which is proved to be enough; rendering and parsing are inverse.
  \<^item> \<open>Permissions\<close>, \<open>Paths\<close>, \<open>Enforcer\<close>: rules, modes, authorization with hook overrides and a prompter; the
    boundary of the workspace and the read-only heuristic for shell commands.
  \<^item> \<open>Hooks\<close>, \<open>Conversation\<close>: hooks and the turns of the runtime.  The outside world is a state of any type that
    every effect takes and returns; a locale (\<open>world_invariant\<close>) shows what a turn keeps of it, and its
    interpretation on an environment with a log of calls shows that only allowed calls are executed.
  \<^item> \<open>Usage\<close>, \<open>Session\<close>, \<open>Compact\<close>, \<open>SummaryCompression\<close>: sessions, their files and their compaction.
  \<^item> \<open>Registry\<close>: the store of records under generated ids, as locales (\<open>id_scheme\<close>, \<open>keyed_store\<close>,
    \<open>step_invariant\<close>), interpreted in \<open>WorkerBoot\<close>, \<open>TaskRegistry\<close> and \<open>TeamCron\<close>.
  \<^item> \<open>WorkerBoot\<close>, \<open>TrustResolver\<close>, \<open>RecoveryRecipes\<close>, \<open>TaskRegistry\<close>, \<open>TeamCron\<close>, \<open>McpLifecycle\<close>, \<open>PolicyEngine\<close>:
    the registries and state machines, with step functions, reachable states and their invariants.
  \<^item> \<open>Strings\<close>, \<open>Utf8\<close>: the parts of \<^verbatim>\<open>str\<close> the other theories use (finding, splitting, slices at byte offsets that may
    panic), and the encoding of chars to bytes.
  \<^item> \<open>BashValidation\<close>, \<open>Bash\<close>, \<open>Sandbox\<close>: the checks on a shell command, the command that is run and its report, and
    the decision on its isolation (\<^verbatim>\<open>bash_validation.rs\<close>, \<^verbatim>\<open>bash.rs\<close>, \<^verbatim>\<open>sandbox.rs\<close>).  A recursion that may not end has
    fuel and the result \<open>None\<close>.
  \<^item> \<open>Config\<close>: discovery, merging and typed views of settings (\<^verbatim>\<open>config.rs\<close>); files are a function from paths to results.
  \<^item> \<open>Sse\<close>: the parser of event streams (\<^verbatim>\<open>sse.rs\<close>).  \<open>OAuth\<close>: its text formats and stored credentials (\<^verbatim>\<open>oauth.rs\<close>).
  \<^item> \<open>Mcp\<close>, \<open>McpBridge\<close>: names, signatures and transports of servers, the registry that guards calls of their tools and
    the health of plugins (\<^verbatim>\<open>mcp.rs\<close>, \<^verbatim>\<open>mcp_client.rs\<close>, \<^verbatim>\<open>mcp_tool_bridge.rs\<close>, \<^verbatim>\<open>plugin_lifecycle.rs\<close>).
  \<^item> \<open>Remote\<close>, \<open>Lanes\<close>, \<open>SessionControl\<close>: the environment of remote sessions, events of lanes and stale branches, the
    files of managed sessions (\<^verbatim>\<open>remote.rs\<close>, \<^verbatim>\<open>lane_events.rs\<close>, \<^verbatim>\<open>stale_branch.rs\<close>, \<^verbatim>\<open>session_control.rs\<close>).
  \<^item> \<open>Todo\<close>: the todo file of the server (\<^verbatim>\<open>src/todo/todo_file.rs\<close>), read, changed and written.
  \<^item> \<open>CommandSpecs\<close>, \<open>Commands\<close>: the table of slash commands, their parser, its errors, help and suggestions
    (\<^verbatim>\<open>crates/commands/src/lib.rs\<close>).
  \<^item> \<open>ToolSpecs\<close>, \<open>Tools\<close>: the table of tools, their registry, lists of allowed tools, the search among them and the
    dispatch behind the enforcer; \<open>SubAgents\<close>: agents from their start to the completion of a lane
    (\<^verbatim>\<open>crates/tools/src/lib.rs\<close>, \<^verbatim>\<open>lane_completion.rs\<close>).  What a tool does is a function of its name, its input and the world.
  \<^item> \<open>ToolSettings\<close>, \<open>Notebook\<close>, \<open>WebTools\<close>: the configuration tool and plan mode, edits of notebooks, the text of
    pages and results of a search (\<^verbatim>\<open>crates/tools/src/lib.rs\<close>).  Files are a map from paths to contents, and the hypotheses on
    them say that what the printer of JSON wrote is read back.
  \<^item> \<open>Plugins\<close>, \<open>PluginManager\<close>: manifests, checks of paths, the registry and the lifecycle of plugins, and the manager
    that installs, enables, updates and removes them (\<^verbatim>\<open>crates/plugins/src/lib.rs\<close>).  Directories are an association
    list from paths to the files in them, made with those above them and removed with those below, and faults of the file
    system are a function of the operation and the path.
  \<^item> \<open>McpStdio\<close>, \<open>McpManager\<close>, \<open>McpProtocol\<close>: JSON-RPC over the pipes of MCP servers and their manager
    (\<^verbatim>\<open>mcp_stdio.rs\<close>).  Its operations are taken apart by triples; a log of the exchanges shows the order of the requests.
    The fuel is the number of pages of a list: it is enough when the server ends its list, and no fuel is enough when not.
  \<^item> \<open>FileOps\<close>: the tools on files (\<^verbatim>\<open>file_ops.rs\<close>).  Files are a map from paths to bytes; the resolution of paths, failures of
    the system, glob patterns and regular expressions are parameters.
  \<^item> \<open>Lsp\<close>: the registry of language servers, their diagnostics and the dispatch of actions (\<^verbatim>\<open>lsp_client.rs\<close>).
  \<^item> \<open>Prompt\<close>: the system prompt with its instruction files and their budget (\<^verbatim>\<open>prompt.rs\<close>) and the plan of the start
    (\<^verbatim>\<open>bootstrap.rs\<close>).
  \<^item> \<open>PluginHooks\<close>: the runner of the hooks of plugins (\<^verbatim>\<open>crates/plugins/src/hooks.rs\<close>), compared with the one of the runtime.
  \<^item> \<open>Providers\<close>, \<open>CliArgs\<close>: the aliases and limits of models (\<^verbatim>\<open>crates/api/src/providers/mod.rs\<close>); the command line, its
    options and subcommands and the commands of a resumed session (\<^verbatim>\<open>crates/rusty-claude-cli/src/main.rs\<close>).
  \<^bold>\<open>Conventions.\<close>  A \<^verbatim>\<open>struct\<close> is a record, an \<^verbatim>\<open>enum\<close> a datatype, \<^verbatim>\<open>Option\<close> is \<open>option\<close>, \<^verbatim>\<open>Result<T, E>\<close> is \<open>'e + 'a\<close> with
  \<open>Inl\<close> the error.  Integers keep their width where arithmetic can wrap (\<open>u32\<close>, \<open>u64\<close>, \<open>i64\<close>); \<^verbatim>\<open>usize\<close> is 64 bits
  wide where it is stored, and a natural number where it is the length of something in memory.  A method
  that takes \<^verbatim>\<open>&mut self\<close> takes the state and returns it.  A lock around a state is not modelled: every
  operation holds it from beginning to end, so the operations are steps of a sequence.

  \<^bold>\<open>Parameters.\<close>  What is not in the repository is an argument of the definitions: \<^verbatim>\<open>serde_json\<close> (\<open>serde_object\<close>,
  \<open>serde_json\<close>), the clock (\<open>now\<close>, \<open>current_time_millis\<close>), fresh session ids (\<open>fresh\<close>), the resolution of
  paths (\<open>canon\<close>), processes, tools, the model and the prompter (\<open>env\<close>).

  \<^bold>\<open>Not modelled.\<close>  Threads, asynchronous tasks, processes, sockets, files and databases themselves; terminal
  rendering; prices and scores in floating point; the clients of the providers of models.  The manifest
  lists every part with its reason.
\<close>

end
